(* ===== verification/GoPrelude.thy ===== *)
theory GoPrelude
  imports Complex_Main "HOL-Library.AList" "HOL-Library.Char_ord" "HOL-Library.List_Lexorder"
    "HOL-Library.Product_Lexorder" "HOL-Library.Multiset" "HOL-Library.Word"
begin

text \<open>
  Shared vocabulary of the development: the parts of the Go language and its standard library
  that the kits use.

  \<^item> \<open>time.Time\<close> is an integer count of nanoseconds since Go's zero time, so that
    \<open>IsZero\<close> is \<open>t = 0\<close> and \<open>After\<close>, \<open>Before\<close>, \<open>Equal\<close> are \<open>>\<close>, \<open><\<close>, \<open>=\<close>.
    \<open>time.Duration\<close> is an integer; where an operation can overflow, \<open>wrap64\<close> is applied to
    its result, as the 64-bit machine does.
  \<^item> A Go map is an association list with distinct keys. The order of the list stands for the
    unspecified iteration order of Go: the lemmas below hold for every order.
  \<^item> \<open>sort.Slice\<close> and \<open>sort.SliceStable\<close> are \<open>sort_by\<close>, a stable insertion sort over the
    comparison closure of the source; \<open>strict_order\<close> is the contract a comparison must satisfy
    and \<open>sort_unique\<close> says when the result does not depend on the order of the input.
  \<^item> A Go string is its list of bytes; \<open>rune_chunks\<close> is the UTF-8 decoding that
    \<open>for range\<close>, \<open>utf8.RuneCountInString\<close> and \<open>strings.TrimSpace\<close> use.
\<close>

section \<open>Collections of facts\<close>

named_theorems go_defs \<open>definitions that the branch lemmas unfold\<close>
named_theorems go_inv \<open>preservation lemmas of the component invariants\<close>

type_synonym time = int
type_synonym duration = int

text \<open>A value of Go's \<open>any\<close>; \<open>VFloat\<close> is a finite \<open>float64\<close>, \<open>VOther\<close> any other dynamic type.\<close>

datatype any = VNil | VBool bool | VInt int | VFloat rat | VStr string | VOther nat

type_synonym ('k, 'v) gomap = "('k \<times> 'v) list"
type_synonym metadata = "(string, any) gomap"

definition wf_map :: "('k, 'v) gomap \<Rightarrow> bool" where
  "wf_map m \<longleftrightarrow> distinct (map fst m)"

text \<open>\<open>for k, v := range src { dst[k] = v }\<close>\<close>

definition map_write_all :: "('k, 'v) gomap \<Rightarrow> ('k, 'v) gomap \<Rightarrow> ('k, 'v) gomap" where
  "map_write_all dst src = fold (\<lambda>(k, v) m. AList.update k v m) src dst"

text \<open>The signed 64-bit result of an exact integer.\<close>

definition wrap64 :: "int \<Rightarrow> int" where
  "wrap64 x = signed_take_bit 63 x"

definition in64 :: "int \<Rightarrow> bool" where
  "in64 x \<longleftrightarrow> - (2 ^ 63) \<le> x \<and> x < 2 ^ 63"

text \<open>Integer division and its remainder truncate towards zero in Go.\<close>

definition go_div :: "int \<Rightarrow> int \<Rightarrow> int" where
  "go_div a b = sgn a * sgn b * (\<bar>a\<bar> div \<bar>b\<bar>)"

text \<open>The error of a \<open>context.Context\<close>; \<open>None\<close> while it is neither cancelled nor past its deadline.\<close>

datatype ctx_error = Canceled | DeadlineExceeded

type_synonym ctx = "ctx_error option"

text \<open>Slice indexing; \<open>None\<close> is the panic of an index out of range.\<close>

definition go_index :: "'a list \<Rightarrow> int \<Rightarrow> 'a option" where
  "go_index xs i = (if 0 \<le> i \<and> i < int (length xs) then Some (xs ! nat i) else None)"

section \<open>Sorting with a comparison closure\<close>

fun insert_by :: "('a \<Rightarrow> 'a \<Rightarrow> bool) \<Rightarrow> 'a \<Rightarrow> 'a list \<Rightarrow> 'a list" where
  "insert_by lt x [] = [x]"
| "insert_by lt x (y # ys) = (if lt y x then y # insert_by lt x ys else x # y # ys)"

definition sort_by :: "('a \<Rightarrow> 'a \<Rightarrow> bool) \<Rightarrow> 'a list \<Rightarrow> 'a list" where
  "sort_by lt xs = foldr (insert_by lt) xs []"

section \<open>Strings and UTF-8\<close>

abbreviation byte :: "char \<Rightarrow> nat" where
  "byte c \<equiv> of_char c"

definition is_cont :: "nat \<Rightarrow> bool" where
  "is_cont b \<longleftrightarrow> 128 \<le> b \<and> b < 192"

text \<open>
  \<open>utf8.DecodeRuneInString\<close> on a non-empty string: the rune and its width. An invalid sequence
  decodes to U+FFFD with width 1.
\<close>

definition decode_rune :: "string \<Rightarrow> nat \<times> nat" where
  "decode_rune s = (case map byte (take 4 s) of
      [] \<Rightarrow> (65533, 0)
    | b0 # bs \<Rightarrow>
        (let cont = takeWhile is_cont bs; bad = (65533, 1);
             n2 = (case cont of c1 # _ \<Rightarrow> c1 | [] \<Rightarrow> 0)
         in if b0 < 128 then (b0, 1)
            else if b0 < 194 then bad
            else if b0 < 224 then
              (case cont of c1 # _ \<Rightarrow> ((b0 - 192) * 64 + (c1 - 128), 2) | _ \<Rightarrow> bad)
            else if b0 < 240 then
              (case cont of c1 # c2 # _ \<Rightarrow>
                 if (b0 = 224 \<and> n2 < 160) \<or> (b0 = 237 \<and> 160 \<le> n2) then bad
                 else ((b0 - 224) * 4096 + (c1 - 128) * 64 + (c2 - 128), 3)
               | _ \<Rightarrow> bad)
            else if b0 < 245 then
              (case cont of c1 # c2 # c3 # _ \<Rightarrow>
                 if (b0 = 240 \<and> n2 < 144) \<or> (b0 = 244 \<and> 144 \<le> n2) then bad
                 else ((b0 - 240) * 262144 + (c1 - 128) * 4096 + (c2 - 128) * 64 + (c3 - 128), 4)
               | _ \<Rightarrow> bad)
            else bad))"

text \<open>The runes of a string, each with the bytes it was decoded from.\<close>

function rune_chunks :: "string \<Rightarrow> (nat \<times> string) list" where
  "rune_chunks s =
     (if s = [] then []
      else let n = max 1 (snd (decode_rune s))
           in (fst (decode_rune s), take n s) # rune_chunks (drop n s))"
  by pat_completeness auto
termination
  by (relation "measure length") (auto simp: Let_def)

declare rune_chunks.simps [simp del]

definition rune_count :: "string \<Rightarrow> nat" where
  "rune_count s = length (rune_chunks s)"

text \<open>\<open>unicode.IsSpace\<close>\<close>

definition is_space :: "nat \<Rightarrow> bool" where
  "is_space r \<longleftrightarrow> (9 \<le> r \<and> r \<le> 13) \<or> r = 32 \<or> r = 133 \<or> r = 160 \<or> r = 5760
     \<or> (8192 \<le> r \<and> r \<le> 8202) \<or> r = 8232 \<or> r = 8233 \<or> r = 8239 \<or> r = 8287 \<or> r = 12288"

text \<open>\<open>strings.TrimSpace\<close>\<close>

definition TrimSpace :: "string \<Rightarrow> string" where
  "TrimSpace s =
     concat (map snd (rev (dropWhile (\<lambda>p. is_space (fst p))
       (rev (dropWhile (\<lambda>p. is_space (fst p)) (rune_chunks s))))))"

text \<open>\<open>strings.Join\<close>\<close>

fun string_join :: "string \<Rightarrow> string list \<Rightarrow> string" where
  "string_join sep [] = []"
| "string_join sep [x] = x"
| "string_join sep (x # y # ys) = x @ sep @ string_join sep (y # ys)"

text \<open>\<open>strconv.Itoa\<close>, the verb \<open>%d\<close>.\<close>

fun digits :: "nat \<Rightarrow> string" where
  "digits n = (if n < 10 then [char_of (48 + n)] else digits (n div 10) @ [char_of (48 + n mod 10)])"

declare digits.simps [simp del]

definition itoa :: "int \<Rightarrow> string" where
  "itoa i = (if i < 0 then ''-'' @ digits (nat (- i)) else digits (nat i))"

text \<open>
  \<open>strconv.Quote\<close>, the verb \<open>%q\<close>: printable ASCII and multi-byte runes stay, quotes, backslashes
  and control characters are escaped.
\<close>

definition hex_digit :: "nat \<Rightarrow> char" where
  "hex_digit n = char_of (if n < 10 then 48 + n else 87 + n)"

definition quote_byte :: "char \<Rightarrow> string" where
  "quote_byte c = (let b = byte c in
     if b = 34 \<or> b = 92 then [char_of (92 :: nat), c]
     else if b = 7 then [char_of (92 :: nat), CHR ''a'']
     else if b = 8 then [char_of (92 :: nat), CHR ''b'']
     else if b = 9 then [char_of (92 :: nat), CHR ''t'']
     else if b = 10 then [char_of (92 :: nat), CHR ''n'']
     else if b = 11 then [char_of (92 :: nat), CHR ''v'']
     else if b = 12 then [char_of (92 :: nat), CHR ''f'']
     else if b = 13 then [char_of (92 :: nat), CHR ''r'']
     else if b < 32 \<or> b = 127 then
       [char_of (92 :: nat), CHR ''x'', hex_digit (b div 16), hex_digit (b mod 16)]
     else [c])"

definition go_quote :: "string \<Rightarrow> string" where
  "go_quote s = [CHR 0x22] @ concat (map quote_byte s) @ [CHR 0x22]"

section \<open>Lemmas on maps\<close>

lemma wf_map_Nil [simp]: "wf_map []"
  by (simp add: wf_map_def)

lemma wf_map_update [simp, intro]: "wf_map m \<Longrightarrow> wf_map (AList.update k v m)"
  by (simp add: wf_map_def distinct_update)

lemma wf_map_delete [simp, intro]: "wf_map m \<Longrightarrow> wf_map (AList.delete k m)"
  by (simp add: wf_map_def distinct_delete)

lemma map_of_update [simp]: "map_of (AList.update k v m) = (map_of m)(k \<mapsto> v)"
  by (simp add: update_conv')

lemma map_of_delete [simp]: "map_of (AList.delete k m) = (map_of m)(k := None)"
  by (simp add: delete_conv')

lemma wf_map_map_snd [simp]: "wf_map (map (\<lambda>(k, v). (k, f k v)) m) = wf_map m"
proof -
  have "map fst (map (\<lambda>(k, v). (k, f k v)) m) = map fst m"
    by (induction m) auto
  then show ?thesis by (simp only: wf_map_def)
qed

lemma map_of_map_snd [simp]:
  "map_of (map (\<lambda>(k, v). (k, f k v)) m) k = map_option (f k) (map_of m k)"
  by (induction m) auto

lemma map_of_iff_mem: "wf_map m \<Longrightarrow> (map_of m k = Some v) = ((k, v) \<in> set m)"
  by (auto simp: wf_map_def dest: map_of_SomeD)

lemma map_write_all_lookup:
  "wf_map src \<Longrightarrow> map_of (map_write_all dst src) k =
     (case map_of src k of Some v \<Rightarrow> Some v | None \<Rightarrow> map_of dst k)"
proof (induction src arbitrary: dst)
  case Nil
  then show ?case by (simp add: map_write_all_def)
next
  case (Cons p src)
  obtain a b where p: "p = (a, b)" by (cases p)
  from Cons.prems have "wf_map src" and a: "map_of src a = None"
    by (auto simp: wf_map_def p map_of_eq_None_iff)
  then have "map_of (map_write_all (AList.update a b dst) src) k =
      (case map_of src k of Some v \<Rightarrow> Some v | None \<Rightarrow> map_of (AList.update a b dst) k)"
    by (intro Cons.IH)
  with a show ?case by (auto simp: map_write_all_def p split: option.splits)
qed

section \<open>Lemmas on 64-bit arithmetic\<close>

lemma wrap64_id: "in64 x \<Longrightarrow> wrap64 x = x"
  by (simp add: in64_def wrap64_def signed_take_bit_int_eq_self)

lemma wrap64_range: "in64 (wrap64 x)"
  using signed_take_bit_int_less_exp [of 63 x]
    signed_take_bit_int_greater_eq_minus_exp [of 63 x]
  by (simp add: in64_def wrap64_def)

lemma wrap64_word: "wrap64 x = sint (word_of_int x :: 64 word)"
  by (simp add: wrap64_def sint_sbintrunc')

section \<open>Lemmas on sorting\<close>

lemma mset_insert_by [simp]: "mset (insert_by lt x xs) = add_mset x (mset xs)"
  by (induction xs) auto

lemma mset_sort_by [simp]: "mset (sort_by lt xs) = mset xs"
  by (induction xs) (auto simp: sort_by_def)

lemma set_sort_by [simp]: "set (sort_by lt xs) = set xs"
  by (metis mset_sort_by set_mset_mset)

lemma length_sort_by [simp]: "length (sort_by lt xs) = length xs"
  by (metis mset_sort_by size_mset)

lemma distinct_sort_by [simp]: "distinct (sort_by lt xs) = distinct xs"
  by (metis mset_sort_by mset_eq_imp_distinct_iff)

text \<open>
  The contract a comparison closure has to satisfy: a strict weak order. The client lemma is
  that the sort really sorts, and that its result is unique where no two elements tie.
\<close>

locale strict_order =
  fixes lt :: "'a \<Rightarrow> 'a \<Rightarrow> bool"
  assumes irrefl: "\<not> lt x x"
    and lt_trans: "lt x y \<Longrightarrow> lt y z \<Longrightarrow> lt x z"
    and neg_trans: "\<not> lt x y \<Longrightarrow> \<not> lt y z \<Longrightarrow> \<not> lt x z"
begin

lemma asym: "lt x y \<Longrightarrow> \<not> lt y x"
  using irrefl lt_trans by blast

lemma set_insert_by: "set (insert_by lt x xs) = insert x (set xs)"
  by (induction xs) auto

lemma sorted_insert_by:
  "sorted_wrt (\<lambda>a b. \<not> lt b a) xs \<Longrightarrow> sorted_wrt (\<lambda>a b. \<not> lt b a) (insert_by lt x xs)"
proof (induction xs)
  case Nil
  then show ?case by simp
next
  case (Cons y ys)
  show ?case
  proof (cases "lt y x")
    case True
    with Cons asym show ?thesis by (auto simp: set_insert_by)
  next
    case False
    with Cons.prems show ?thesis by (auto dest: neg_trans)
  qed
qed

lemma sorted_sort_by: "sorted_wrt (\<lambda>a b. \<not> lt b a) (sort_by lt xs)"
  by (induction xs) (auto simp: sort_by_def intro: sorted_insert_by)

lemma hd_sort_by_least:
  assumes "x \<in> set xs"
  shows "\<not> lt x (hd (sort_by lt xs))"
proof (cases "sort_by lt xs")
  case Nil
  with assms show ?thesis by (metis empty_iff empty_set set_sort_by)
next
  case (Cons y ys)
  with assms have "x = y \<or> x \<in> set ys" by (metis set_ConsD set_sort_by)
  with sorted_sort_by [of xs] Cons irrefl show ?thesis by auto
qed

lemma find_sorted_least:
  "sorted_wrt (\<lambda>a b. \<not> lt b a) xs \<Longrightarrow> List.find P xs = Some x \<Longrightarrow> y \<in> set xs \<Longrightarrow> P y \<Longrightarrow> \<not> lt y x"
  by (induction xs) (auto simp: irrefl split: if_splits)

text \<open>The first match of a sorted list is a least match of the input.\<close>

lemma find_sort_by:
  assumes "List.find P (sort_by lt xs) = Some x"
  shows "x \<in> set xs" and "P x" and "y \<in> set xs \<Longrightarrow> P y \<Longrightarrow> \<not> lt y x"
proof -
  from assms show "x \<in> set xs" and "P x"
    by (auto simp: find_Some_iff) (metis nth_mem set_sort_by length_sort_by)
  show "y \<in> set xs \<Longrightarrow> P y \<Longrightarrow> \<not> lt y x"
    using find_sorted_least [OF sorted_sort_by assms] by simp
qed

lemma sorted_unique:
  assumes "sorted_wrt (\<lambda>a b. \<not> lt b a) xs" and "sorted_wrt (\<lambda>a b. \<not> lt b a) ys"
    and "mset xs = mset ys"
    and total: "\<And>a b. a \<in> set xs \<Longrightarrow> b \<in> set xs \<Longrightarrow> \<not> lt a b \<Longrightarrow> \<not> lt b a \<Longrightarrow> a = b"
  shows "xs = ys"
  using assms
proof (induction xs arbitrary: ys)
  case Nil
  then show ?case by simp
next
  case (Cons x xs)
  then obtain y ys' where ys: "ys = y # ys'" by (metis list.exhaust mset_zero_iff mset.simps(1))
  have set_eq: "set (x # xs) = set ys" using Cons.prems(3) by (metis set_mset_mset)
  have "x = y"
  proof (rule Cons.prems(4))
    show "x \<in> set (x # xs)" by simp
    show "y \<in> set (x # xs)" using set_eq ys by simp
    have "x \<in> set (y # ys')" using set_eq ys by auto
    then show "\<not> lt x y" using Cons.prems(2) ys irrefl by auto
    have "y \<in> set (x # xs)" using set_eq ys by auto
    then show "\<not> lt y x" using Cons.prems(1) irrefl by auto
  qed
  moreover have "xs = ys'"
    using Cons.prems ys \<open>x = y\<close> by (intro Cons.IH) auto
  ultimately show ?case by (simp add: ys)
qed

lemma sort_unique:
  assumes "mset xs = mset ys"
    and "\<And>a b. a \<in> set xs \<Longrightarrow> b \<in> set xs \<Longrightarrow> \<not> lt a b \<Longrightarrow> \<not> lt b a \<Longrightarrow> a = b"
  shows "sort_by lt xs = sort_by lt ys"
  by (rule sorted_unique) (use assms in \<open>auto simp: sorted_sort_by\<close>)

end

text \<open>A comparison of keys in a linear order satisfies the contract.\<close>

lemma strict_order_key: "strict_order (\<lambda>a b. (key a :: 'k :: linorder) < key b)"
  by unfold_locales auto

interpretation string_order: strict_order "(<) :: string \<Rightarrow> string \<Rightarrow> bool"
  by unfold_locales auto

section \<open>Lemmas on strings\<close>

lemma rune_chunks_Nil [simp, code]: "rune_chunks [] = []"
  by (subst rune_chunks.simps) simp

lemma rune_chunks_Cons [code]:
  "rune_chunks (c # s) = (let n = max 1 (snd (decode_rune (c # s)))
     in (fst (decode_rune (c # s)), take n (c # s)) # rune_chunks (drop n (c # s)))"
  by (subst rune_chunks.simps) simp

text \<open>On ASCII strings a rune is a byte; this also evaluates \<open>TrimSpace\<close> on literals.\<close>

lemma decode_rune_ascii: "byte c < 128 \<Longrightarrow> decode_rune (c # s) = (byte c, 1)"
  by (simp add: decode_rune_def)

lemma rune_chunks_ascii:
  "\<forall>c \<in> set s. byte c < 128 \<Longrightarrow> rune_chunks s = map (\<lambda>c. (byte c, [c])) s"
  by (induction s) (simp_all add: rune_chunks_Cons decode_rune_ascii)

lemma TrimSpace_ascii:
  assumes "\<forall>c \<in> set s. byte c < 128"
  shows "TrimSpace s = rev (dropWhile (\<lambda>c. is_space (byte c)) (rev (dropWhile (\<lambda>c. is_space (byte c)) s)))"
proof -
  let ?f = "\<lambda>c. (byte c, [c])" and ?P = "\<lambda>c. is_space (byte c)"
  have "TrimSpace s = concat (map snd (rev (dropWhile (\<lambda>p. is_space (fst p))
      (rev (dropWhile (\<lambda>p. is_space (fst p)) (map ?f s))))))"
    by (simp only: TrimSpace_def rune_chunks_ascii [OF assms])
  also have "\<dots> = concat (map snd (map ?f (rev (dropWhile ?P (rev (dropWhile ?P s))))))"
    by (simp add: dropWhile_map rev_map comp_def)
  also have "\<dots> = rev (dropWhile ?P (rev (dropWhile ?P s)))"
    by (simp add: comp_def)
  finally show ?thesis .
qed

lemma TrimSpace_Nil [simp]: "TrimSpace [] = []"
  by (simp add: TrimSpace_def)

lemma concat_rune_chunks: "concat (map snd (rune_chunks s)) = s"
proof (induction s rule: rune_chunks.induct)
  case (1 s)
  then show ?case by (subst rune_chunks.simps) (simp add: Let_def)
qed

lemma TrimSpace_nonblank: "TrimSpace s \<noteq> [] \<Longrightarrow> s \<noteq> []"
  by auto

end
