(* ===== verification/Workflow_Run.thy ===== *)
theory Workflow_Run
  imports GoPrelude
begin

text \<open>
  The data of \<open>workflowkit\<close> (\<open>run.go\<close>, \<open>errors.go\<close>, \<open>retry.go\<close>): statuses, runs, step records,
  the error values and the retry policy with its full-jitter backoff. Copies made by the
  \<open>clone\<close> functions are equal to their originals, since values are immutable here.
\<close>

section \<open>Statuses, runs and step records\<close>

text \<open>The string type \<open>Status\<close>: the empty string, the six constants, or any other string.\<close>

datatype Status =
    StatusUnset
  | StatusPending
  | StatusRunning
  | StatusWaitingApproval
  | StatusSucceeded
  | StatusFailed
  | StatusCancelled
  | StatusOther string

fun status_text :: "Status \<Rightarrow> string" where
  "status_text StatusUnset = ''''"
| "status_text StatusPending = ''pending''"
| "status_text StatusRunning = ''running''"
| "status_text StatusWaitingApproval = ''waiting_approval''"
| "status_text StatusSucceeded = ''succeeded''"
| "status_text StatusFailed = ''failed''"
| "status_text StatusCancelled = ''cancelled''"
| "status_text (StatusOther s) = s"

definition Status_IsValid :: "Status \<Rightarrow> bool" where
  "Status_IsValid s = (case s of
      StatusPending \<Rightarrow> True | StatusRunning \<Rightarrow> True | StatusWaitingApproval \<Rightarrow> True
    | StatusSucceeded \<Rightarrow> True | StatusFailed \<Rightarrow> True | StatusCancelled \<Rightarrow> True
    | _ \<Rightarrow> False)"

record StepRecord =
  rec_Name :: string
  rec_Status :: Status
  rec_Attempt :: int
  rec_OutputRef :: string
  rec_AgentRunID :: string
  rec_AuditRef :: string
  rec_Error :: string
  rec_ApprovalRef :: string
  rec_WaitingReason :: string
  rec_StartedAt :: time
  rec_EndedAt :: time
  rec_Metadata :: metadata

record WorkflowRun =
  run_ID :: string
  run_Status :: Status
  run_InputRef :: string
  run_OutputRef :: string
  run_AgentRunID :: string
  run_AuditRef :: string
  run_Error :: string
  run_ApprovalRef :: string
  run_WaitingReason :: string
  run_CurrentStep :: string
  run_CompletedSteps :: "string list"
  run_StepAttempts :: "(string, int) gomap"
  run_StepRecords :: "StepRecord list"
  run_StepRetries :: int
  run_NextAttemptAt :: time
  run_Metadata :: metadata
  run_LeaseOwner :: string
  run_LeaseUntil :: time
  run_CreatedAt :: time
  run_UpdatedAt :: time

text \<open>The zero values \<open>WorkflowRun{}\<close> and \<open>StepRecord{}\<close>.\<close>

definition zero_run :: WorkflowRun where
  "zero_run = \<lparr>run_ID = '''', run_Status = StatusUnset, run_InputRef = '''', run_OutputRef = '''',
     run_AgentRunID = '''', run_AuditRef = '''', run_Error = '''', run_ApprovalRef = '''',
     run_WaitingReason = '''', run_CurrentStep = '''', run_CompletedSteps = [],
     run_StepAttempts = [], run_StepRecords = [], run_StepRetries = 0, run_NextAttemptAt = 0,
     run_Metadata = [], run_LeaseOwner = '''', run_LeaseUntil = 0, run_CreatedAt = 0,
     run_UpdatedAt = 0\<rparr>"

definition zero_record :: StepRecord where
  "zero_record = \<lparr>rec_Name = '''', rec_Status = StatusUnset, rec_Attempt = 0, rec_OutputRef = '''',
     rec_AgentRunID = '''', rec_AuditRef = '''', rec_Error = '''', rec_ApprovalRef = '''',
     rec_WaitingReason = '''', rec_StartedAt = 0, rec_EndedAt = 0, rec_Metadata = []\<rparr>"

text \<open>Copying a map or a slice gives an equal value.\<close>

definition cloneMetadata :: "metadata \<Rightarrow> metadata" where
  "cloneMetadata m = (if length m = 0 then [] else m)"

definition cloneStepAttempts :: "(string, int) gomap \<Rightarrow> (string, int) gomap" where
  "cloneStepAttempts m = (if length m = 0 then [] else m)"

definition cloneStepRecords :: "StepRecord list \<Rightarrow> StepRecord list" where
  "cloneStepRecords rs = (if length rs = 0 then []
     else map (\<lambda>r. r\<lparr>rec_Metadata := cloneMetadata (rec_Metadata r)\<rparr>) rs)"

definition cloneRun :: "WorkflowRun \<Rightarrow> WorkflowRun" where
  "cloneRun run = run\<lparr>
     run_CompletedSteps := [] @ run_CompletedSteps run,
     run_StepAttempts := cloneStepAttempts (run_StepAttempts run),
     run_StepRecords := cloneStepRecords (run_StepRecords run),
     run_Metadata := cloneMetadata (run_Metadata run)\<rparr>"

section \<open>Errors\<close>

text \<open>
  The error values the package creates or inspects. \<open>Errorf\<close> is an error with a text only,
  \<open>Wrapf\<close> one made by \<open>fmt.Errorf\<close> with a text and a wrapped error, \<open>JoinErr\<close> one made by
  \<open>errors.Join\<close>. \<open>RunPreempted\<close> carries what \<open>runPreemptedError\<close> formats.
\<close>

datatype WfError =
    ErrCtx ctx_error
  | ErrRunNotFound
  | ErrNoRunnableWorkflow
  | ErrWorkflowLeaseNotOwned
  | InvalidTransitionError Status Status string
  | InvalidStatusError Status string
  | RunPreempted string Status string
  | TransientError "WfError option"
  | Errorf string
  | Wrapf string WfError
  | JoinErr WfError WfError

definition runPreemptedError :: "WorkflowRun \<Rightarrow> WfError" where
  "runPreemptedError current =
     RunPreempted (run_ID current) (run_Status current) (run_LeaseOwner current)"

text \<open>The tree of wrapped errors in the order \<open>errors.Is\<close> and \<open>errors.As\<close> visit it.\<close>

fun err_chain :: "WfError \<Rightarrow> WfError list" where
  "err_chain (TransientError (Some e)) = TransientError (Some e) # err_chain e"
| "err_chain (Wrapf m e) = Wrapf m e # err_chain e"
| "err_chain (JoinErr a b) = JoinErr a b # err_chain a @ err_chain b"
| "err_chain e = [e]"

definition is_ErrRunPreempted :: "WfError \<Rightarrow> bool" where
  "is_ErrRunPreempted err =
     list_ex (\<lambda>e. case e of RunPreempted _ _ _ \<Rightarrow> True | _ \<Rightarrow> False) (err_chain err)"

definition is_ErrInvalidStatus :: "WfError \<Rightarrow> bool" where
  "is_ErrInvalidStatus err =
     list_ex (\<lambda>e. case e of InvalidStatusError _ _ \<Rightarrow> True | _ \<Rightarrow> False) (err_chain err)"

definition is_ErrRunNotFound :: "WfError \<Rightarrow> bool" where
  "is_ErrRunNotFound err =
     list_ex (\<lambda>e. case e of ErrRunNotFound \<Rightarrow> True | _ \<Rightarrow> False) (err_chain err)"

definition IsTransient :: "WfError \<Rightarrow> bool" where
  "IsTransient err =
     list_ex (\<lambda>e. case e of TransientError _ \<Rightarrow> True | _ \<Rightarrow> False) (err_chain err)"

text \<open>\<open>err.Error()\<close>\<close>

fun error_text :: "WfError \<Rightarrow> string" where
  "error_text (ErrCtx Canceled) = ''context canceled''"
| "error_text (ErrCtx DeadlineExceeded) = ''context deadline exceeded''"
| "error_text ErrRunNotFound = ''workflow run not found''"
| "error_text ErrNoRunnableWorkflow = ''no runnable workflow''"
| "error_text ErrWorkflowLeaseNotOwned = ''workflow lease not owned''"
| "error_text (InvalidTransitionError from to op) =
     ''invalid workflow status transition: '' @ op @ '' cannot transition from ''
       @ go_quote (status_text from) @ '' to '' @ go_quote (status_text to)"
| "error_text (InvalidStatusError s field) =
     ''invalid workflow status: '' @ field @ '' has unsupported status ''
       @ go_quote (status_text s)"
| "error_text (RunPreempted i s owner) =
     ''workflow run preempted: workflow '' @ i @ '' is '' @ status_text s
       @ '' with lease owner '' @ go_quote owner"
| "error_text (TransientError None) = ''transient error''"
| "error_text (TransientError (Some e)) = error_text e"
| "error_text (Errorf m) = m"
| "error_text (Wrapf m e) = m"
| "error_text (JoinErr a b) = error_text a @ [CHR 0x0A] @ error_text b"

section \<open>The retry policy\<close>

record RetryPolicy =
  rp_MaxAttempts :: int
  rp_BaseDelay :: duration
  rp_MaxDelay :: duration

text \<open>\<open>for i := 1; i < retry \<and> delay < cap; i++ { delay *= 2 }\<close>\<close>

function backoff_loop :: "int \<Rightarrow> int \<Rightarrow> duration \<Rightarrow> duration \<Rightarrow> duration" where
  "backoff_loop i retry delay cap =
     (if i < retry \<and> delay < cap
      then backoff_loop (i + 1) retry (wrap64 (delay * 2)) cap
      else delay)"
  by pat_completeness auto
termination
  by (relation "measure (\<lambda>(i, retry, delay, cap). nat (retry - i))") auto

declare backoff_loop.simps [simp del]

definition backoff_ceiling :: "RetryPolicy \<Rightarrow> duration" where
  "backoff_ceiling p =
     (if rp_MaxDelay p < rp_BaseDelay p then wrap64 (32 * rp_BaseDelay p) else rp_MaxDelay p)"

text \<open>
  \<open>Backoff\<close> with the random source \<open>rand.N\<close> as an argument; \<open>rand.N\<close> panics on an argument
  that is not positive, which is \<open>None\<close>.
\<close>

definition Backoff :: "(int \<Rightarrow> int) \<Rightarrow> RetryPolicy \<Rightarrow> int \<Rightarrow> duration option" where
  "Backoff randN p retry =
     (if rp_BaseDelay p \<le> 0 \<or> retry \<le> 0 then Some 0
      else let cap = backoff_ceiling p;
               delay = backoff_loop 1 retry (rp_BaseDelay p) cap;
               n = wrap64 (min delay cap + 1)
           in if n \<le> 0 then None else Some (randN n))"

section \<open>Lemmas\<close>

lemma cloneMetadata_id [simp]: "cloneMetadata m = m"
  by (simp add: cloneMetadata_def)

lemma cloneStepAttempts_id [simp]: "cloneStepAttempts m = m"
  by (simp add: cloneStepAttempts_def)

lemma cloneStepRecords_id [simp]: "cloneStepRecords rs = rs"
  by (simp add: cloneStepRecords_def)

lemma cloneRun_id [simp]: "cloneRun run = run"
  by (simp add: cloneRun_def)

lemma map_cloneRun [simp]: "map cloneRun xs = xs"
  by (simp add: map_idI)

lemma Status_IsValid_iff:
  "Status_IsValid s \<longleftrightarrow> s \<noteq> StatusUnset \<and> (\<forall>t. s \<noteq> StatusOther t)"
  by (cases s) (auto simp: Status_IsValid_def)

text \<open>The loop doubles the base delay until it reaches the cap, without wrap-around.\<close>

lemma backoff_loop_value:
  assumes "2 * cap < 2 ^ 63" and "0 < delay" and "delay < 2 * cap" and "i \<le> retry"
  shows "min (backoff_loop i retry delay cap) cap = min (delay * 2 ^ nat (retry - i)) cap"
    and "0 < backoff_loop i retry delay cap"
proof -
  have "min (backoff_loop i retry delay cap) cap = min (delay * 2 ^ nat (retry - i)) cap
      \<and> 0 < backoff_loop i retry delay cap"
    using assms
  proof (induction i retry delay cap rule: backoff_loop.induct)
    case (1 i retry delay cap)
    show ?case
    proof (cases "i < retry \<and> delay < cap")
      case True
      with "1.prems" have w: "wrap64 (delay * 2) = delay * 2"
        by (intro wrap64_id) (simp add: in64_def)
      from True have n: "nat (retry - i) = Suc (nat (retry - (i + 1)))" by arith
      have "min (backoff_loop (i + 1) retry (wrap64 (delay * 2)) cap) cap
          = min (wrap64 (delay * 2) * 2 ^ nat (retry - (i + 1))) cap
          \<and> 0 < backoff_loop (i + 1) retry (wrap64 (delay * 2)) cap"
        using "1.prems" True w by (intro "1.IH") auto
      with True w n show ?thesis
        by (simp add: backoff_loop.simps [of i retry delay cap] mult.assoc)
    next
      case False
      then have l: "backoff_loop i retry delay cap = delay"
        by (subst backoff_loop.simps) auto
      have "delay \<le> delay * 2 ^ nat (retry - i)"
        using "1.prems"(2) mult_left_mono [of 1 "2 ^ nat (retry - i)" delay] by simp
      moreover have "i = retry \<or> cap \<le> delay" using False "1.prems" by auto
      ultimately have "min delay cap = min (delay * 2 ^ nat (retry - i)) cap" by auto
      with l "1.prems" show ?thesis by simp
    qed
  qed
  then show "min (backoff_loop i retry delay cap) cap = min (delay * 2 ^ nat (retry - i)) cap"
    and "0 < backoff_loop i retry delay cap"
    by auto
qed

text \<open>With a cap below half the 64-bit range the random source is called with a positive bound.\<close>

lemma Backoff_draw:
  assumes "0 < rp_BaseDelay p" and "1 \<le> retry" and "2 * backoff_ceiling p < 2 ^ 63"
    and "rp_BaseDelay p \<le> backoff_ceiling p"
  shows "Backoff randN p retry =
      Some (randN (min (rp_BaseDelay p * 2 ^ nat (retry - 1)) (backoff_ceiling p) + 1))"
proof -
  let ?c = "backoff_ceiling p" and ?d = "backoff_loop 1 retry (rp_BaseDelay p) (backoff_ceiling p)"
  have "min ?d ?c = min (rp_BaseDelay p * 2 ^ nat (retry - 1)) ?c" and "0 < ?d"
    using assms by (auto intro!: backoff_loop_value)
  moreover from this(2) assms have "wrap64 (min ?d ?c + 1) = min ?d ?c + 1"
    by (intro wrap64_id) (auto simp: in64_def)
  ultimately show ?thesis
    using assms by (auto simp: Backoff_def Let_def)
qed

text \<open>The default cap, 32 times the base delay, does not wrap for base delays below four years.\<close>

lemma backoff_ceiling_default:
  assumes "rp_MaxDelay p < rp_BaseDelay p" and "0 < rp_BaseDelay p" and "64 * rp_BaseDelay p < 2 ^ 63"
  shows "backoff_ceiling p = 32 * rp_BaseDelay p"
  using assms by (auto simp: backoff_ceiling_def in64_def intro!: wrap64_id)

text \<open>A cap that is half the 64-bit range or less leaves room for the loop's last doubling.\<close>

definition safe_policy :: "RetryPolicy \<Rightarrow> bool" where
  "safe_policy p \<longleftrightarrow> rp_BaseDelay p \<le> 0
     \<or> 2 * max (rp_MaxDelay p) (32 * rp_BaseDelay p) < 2 ^ 63"

lemma safe_policy_ceiling:
  assumes "safe_policy p" and "0 < rp_BaseDelay p"
  shows "backoff_ceiling p = (if rp_MaxDelay p < rp_BaseDelay p then 32 * rp_BaseDelay p else rp_MaxDelay p)"
    and "2 * backoff_ceiling p < 2 ^ 63" and "rp_BaseDelay p \<le> backoff_ceiling p"
proof -
  show c: "backoff_ceiling p
      = (if rp_MaxDelay p < rp_BaseDelay p then 32 * rp_BaseDelay p else rp_MaxDelay p)"
    using assms backoff_ceiling_default [of p] by (auto simp: safe_policy_def backoff_ceiling_def)
  show "2 * backoff_ceiling p < 2 ^ 63" and "rp_BaseDelay p \<le> backoff_ceiling p"
    using assms by (auto simp: c safe_policy_def)
qed

lemma Backoff_returns: "safe_policy p \<Longrightarrow> Backoff randN p retry \<noteq> None"
proof (cases "rp_BaseDelay p \<le> 0 \<or> retry \<le> 0")
  case True
  then show ?thesis by (simp add: Backoff_def)
next
  case False
  assume "safe_policy p"
  with False safe_policy_ceiling [of p] have "Backoff randN p retry =
      Some (randN (min (rp_BaseDelay p * 2 ^ nat (retry - 1)) (backoff_ceiling p) + 1))"
    by (intro Backoff_draw) auto
  then show ?thesis by simp
qed

section \<open>Properties of the retry policy\<close>

text \<open>Full jitter: for a policy with \<open>BaseDelay \<le> MaxDelay\<close> below half the 64-bit range, the
  delay before retry \<open>n\<close> is a draw from \<open>[0, min(MaxDelay, BaseDelay * 2^(n-1))]\<close>, given a random
  source that draws from \<open>[0, n)\<close> when asked for \<open>n > 0\<close>; no doubling wraps around.
\<close>

theorem backoff_full_jitter:
  assumes "0 < rp_BaseDelay p" and "rp_BaseDelay p \<le> rp_MaxDelay p" and "safe_policy p" and "1 \<le> retry"
    and "\<And>n. 0 < n \<Longrightarrow> 0 \<le> randN n \<and> randN n < n"
  shows "\<exists>d. Backoff randN p retry = Some d \<and> 0 \<le> d
    \<and> d \<le> min (rp_MaxDelay p) (rp_BaseDelay p * 2 ^ nat (retry - 1))"
proof -
  let ?m = "min (rp_BaseDelay p * 2 ^ nat (retry - 1)) (rp_MaxDelay p)"
  have c: "backoff_ceiling p = rp_MaxDelay p" using assms(1-3) by (simp add: safe_policy_ceiling)
  have "Backoff randN p retry = Some (randN (?m + 1))"
    using assms(1-4) safe_policy_ceiling(2,3) [OF assms(3,1)] unfolding c [symmetric]
    by (intro Backoff_draw) auto
  moreover have "0 < ?m + 1" using assms(1,2) by (simp add: min_def)
  with assms(5) [OF this] have "0 \<le> randN (?m + 1)" "randN (?m + 1) \<le> ?m" by auto
  ultimately show ?thesis by (auto simp: min.commute)
qed

theorem backoff_full_jitter_witness:
  "\<exists>d. Backoff (\<lambda>n. n - 1) \<lparr>rp_MaxAttempts = 5, rp_BaseDelay = 10, rp_MaxDelay = 60\<rparr> 3 = Some d
    \<and> 0 \<le> d \<and> d \<le> 40"
  using backoff_full_jitter [of "\<lparr>rp_MaxAttempts = 5, rp_BaseDelay = 10, rp_MaxDelay = 60\<rparr>" 3 "\<lambda>n. n - 1"]
  by (simp add: safe_policy_def)

text \<open>
  A positive \<open>MaxDelay\<close> below \<open>BaseDelay\<close> does not cap the backoff: the delay is drawn
  up to 32 times \<open>BaseDelay\<close>, as if no maximum were set.
\<close>

theorem backoff_ignores_small_cap:
  assumes "rp_MaxDelay p < rp_BaseDelay p" and "0 < rp_BaseDelay p" and "safe_policy p" and "6 \<le> retry"
  shows "Backoff (\<lambda>n. n - 1) p retry = Some (32 * rp_BaseDelay p)"
proof -
  have c: "backoff_ceiling p = 32 * rp_BaseDelay p" using assms by (simp add: safe_policy_ceiling)
  have "(2 :: int) ^ 5 \<le> 2 ^ nat (retry - 1)" using assms(4) by (intro power_increasing) auto
  with assms(2) have "32 * rp_BaseDelay p \<le> rp_BaseDelay p * 2 ^ nat (retry - 1)" by simp
  then have m: "min (rp_BaseDelay p * 2 ^ nat (retry - 1)) (backoff_ceiling p) = 32 * rp_BaseDelay p"
    by (simp add: c)
  have "Backoff (\<lambda>n. n - 1) p retry
      = Some (min (rp_BaseDelay p * 2 ^ nat (retry - 1)) (backoff_ceiling p) + 1 - 1)"
    using assms safe_policy_ceiling(2,3) [OF assms(3,2)] by (intro Backoff_draw) auto
  then show ?thesis by (simp add: m)
qed

theorem backoff_ignores_small_cap_witness:
  "Backoff (\<lambda>n. n - 1) \<lparr>rp_MaxAttempts = 9, rp_BaseDelay = 10, rp_MaxDelay = 5\<rparr> 6 = Some 320"
  using backoff_ignores_small_cap [of "\<lparr>rp_MaxAttempts = 9, rp_BaseDelay = 10, rp_MaxDelay = 5\<rparr>" 6]
  by (simp add: safe_policy_def)

text \<open>A cap near the end of the 64-bit range makes the doubling wrap around to a negative
  delay, for which the random source panics: the second retry of a policy with a base delay of
  \<open>2^62\<close> ns and the largest duration as its cap.
\<close>

theorem backoff_overflow_panics:
  "Backoff randN \<lparr>rp_MaxAttempts = 5, rp_BaseDelay = 2 ^ 62, rp_MaxDelay = 2 ^ 63 - 1\<rparr> 2 = None"
  by (simp add: Backoff_def backoff_ceiling_def backoff_loop.simps wrap64_def Let_def)

end
