(* ===== verification/Workflow_Store.thy ===== *)
theory Workflow_Store
  imports Workflow_Run
begin

text \<open>
  \<open>workflowkit/store.go\<close>: the \<open>Store\<close> interface as a record of operations and the in-memory
  implementation \<open>MemoryStore\<close> with its query, queue, lease and recovery operations. Every
  operation holds the store's mutex while it reads and writes, so each is one atomic function on
  the state. A context is its \<open>Err()\<close> at the time of the call; the clock of the store gives one
  reading per operation. The locale \<open>workflow_store\<close> is the contract \<open>Executor\<close> relies on, and
  \<open>MemoryStore\<close> is shown to satisfy it.
\<close>

section \<open>The store interface\<close>

text \<open>
  A callback of \<open>Update\<close> together with the variable \<open>observed\<close> that the closures of the executor
  assign: it maps the current run and the captured variable to the result and the variable.
\<close>

type_synonym mutator = "WorkflowRun \<Rightarrow> WorkflowRun \<Rightarrow> (WfError + WorkflowRun) \<times> WorkflowRun"

record 's Store =
  st_Save :: "ctx \<Rightarrow> WorkflowRun \<Rightarrow> 's \<Rightarrow> WfError option \<times> 's"
  st_Get :: "ctx \<Rightarrow> string \<Rightarrow> 's \<Rightarrow> WfError + WorkflowRun"
  st_Update :: "ctx \<Rightarrow> string \<Rightarrow> mutator \<Rightarrow> WorkflowRun \<Rightarrow> 's
      \<Rightarrow> (WfError + WorkflowRun) \<times> WorkflowRun \<times> 's"

section \<open>MemoryStore\<close>

record MemoryStore =
  ms_runs :: "(string, WorkflowRun) gomap"
  ms_now :: time

definition NewMemoryStore :: "time \<Rightarrow> MemoryStore" where
  "NewMemoryStore now = \<lparr>ms_runs = [], ms_now = now\<rparr>"

definition Save :: "ctx \<Rightarrow> WorkflowRun \<Rightarrow> MemoryStore \<Rightarrow> WfError option \<times> MemoryStore" where
  "Save ctx run s = (case ctx of
      Some e \<Rightarrow> (Some (ErrCtx e), s)
    | None \<Rightarrow>
        (let run = (if run_CreatedAt run = 0 then run\<lparr>run_CreatedAt := ms_now s\<rparr> else run);
             run = run\<lparr>run_UpdatedAt := ms_now s\<rparr>
         in (None, s\<lparr>ms_runs := AList.update (run_ID run) (cloneRun run) (ms_runs s)\<rparr>)))"

definition Get :: "ctx \<Rightarrow> string \<Rightarrow> MemoryStore \<Rightarrow> WfError + WorkflowRun" where
  "Get ctx i s = (case ctx of
      Some e \<Rightarrow> Inl (ErrCtx e)
    | None \<Rightarrow> (case map_of (ms_runs s) i of
        None \<Rightarrow> Inl ErrRunNotFound
      | Some run \<Rightarrow> Inr (cloneRun run)))"

definition Update ::
  "ctx \<Rightarrow> string \<Rightarrow> mutator \<Rightarrow> WorkflowRun \<Rightarrow> MemoryStore
     \<Rightarrow> (WfError + WorkflowRun) \<times> WorkflowRun \<times> MemoryStore" where
  "Update ctx i mutate obs s = (case ctx of
      Some e \<Rightarrow> (Inl (ErrCtx e), obs, s)
    | None \<Rightarrow> (case map_of (ms_runs s) i of
        None \<Rightarrow> (Inl ErrRunNotFound, obs, s)
      | Some current \<Rightarrow> (case mutate (cloneRun current) obs of
          (Inl err, obs') \<Rightarrow> (Inl err, obs', s)
        | (Inr updated, obs') \<Rightarrow>
            (let updated = (if run_CreatedAt updated = 0
                            then updated\<lparr>run_CreatedAt := run_CreatedAt current\<rparr> else updated);
                 updated = updated\<lparr>run_UpdatedAt := ms_now s\<rparr>
             in (Inr (cloneRun updated), obs',
                 s\<lparr>ms_runs := AList.update i (cloneRun updated) (ms_runs s)\<rparr>)))))"

definition memory_store :: "MemoryStore Store" where
  "memory_store = \<lparr>st_Save = Save, st_Get = Get, st_Update = Update\<rparr>"

subsection \<open>Queries\<close>

text \<open>The string type \<open>WorkflowOrder\<close>.\<close>

definition WorkflowOrder_IsValid :: "string \<Rightarrow> bool" where
  "WorkflowOrder_IsValid o' \<longleftrightarrow> o' = '''' \<or> o' = ''asc'' \<or> o' = ''desc''"

record WorkflowQuery =
  q_Status :: Status
  q_MetadataEquals :: "(string, string) gomap"
  q_Order :: string
  q_Limit :: int

text \<open>\<open>fmt.Sprint\<close> of a dynamic value is the argument \<open>sprint\<close>.\<close>

definition workflowMetadataMatches ::
  "(any \<Rightarrow> string) \<Rightarrow> WorkflowRun \<Rightarrow> (string, string) gomap \<Rightarrow> bool" where
  "workflowMetadataMatches sprint run equals =
     list_all (\<lambda>(key, want). case map_of (run_Metadata run) key of
         None \<Rightarrow> False
       | Some got \<Rightarrow> sprint got = want) equals"

text \<open>The comparison closures of \<open>ListWorkflows\<close> and \<open>ClaimRunnable\<close>.\<close>

definition created_before :: "WorkflowRun \<Rightarrow> WorkflowRun \<Rightarrow> bool" where
  "created_before l r = (if run_CreatedAt l \<noteq> run_CreatedAt r
     then run_CreatedAt l < run_CreatedAt r else run_ID l < run_ID r)"

definition query_before :: "string \<Rightarrow> WorkflowRun \<Rightarrow> WorkflowRun \<Rightarrow> bool" where
  "query_before ord l r =
     (if run_CreatedAt l \<noteq> run_CreatedAt r
      then (if ord = ''desc'' then run_CreatedAt l > run_CreatedAt r
            else run_CreatedAt l < run_CreatedAt r)
      else if ord = ''desc'' then run_ID l > run_ID r else run_ID l < run_ID r)"

definition query_matches :: "(any \<Rightarrow> string) \<Rightarrow> WorkflowQuery \<Rightarrow> WorkflowRun \<Rightarrow> bool" where
  "query_matches sprint query run \<longleftrightarrow>
     \<not> (q_Status query \<noteq> StatusUnset \<and> run_Status run \<noteq> q_Status query)
     \<and> workflowMetadataMatches sprint run (q_MetadataEquals query)"

definition ListWorkflows ::
  "(any \<Rightarrow> string) \<Rightarrow> ctx \<Rightarrow> WorkflowQuery \<Rightarrow> MemoryStore \<Rightarrow> WfError + WorkflowRun list" where
  "ListWorkflows sprint ctx query s = (case ctx of
      Some e \<Rightarrow> Inl (ErrCtx e)
    | None \<Rightarrow>
        if q_Status query \<noteq> StatusUnset \<and> \<not> Status_IsValid (q_Status query)
        then Inl (Errorf (''invalid workflow status: '' @ status_text (q_Status query)))
        else if \<not> WorkflowOrder_IsValid (q_Order query)
        then Inl (Errorf (''invalid workflow order: '' @ q_Order query))
        else
          (let runs = map cloneRun (filter (query_matches sprint query) (map snd (ms_runs s)));
               runs = sort_by (query_before (q_Order query)) runs
           in Inr (if q_Limit query > 0 \<and> int (length runs) > q_Limit query
                   then take (nat (q_Limit query)) runs else runs)))"

subsection \<open>Queue, leases and recovery\<close>

definition claimable_run :: "time \<Rightarrow> WorkflowRun \<Rightarrow> bool" where
  "claimable_run now run \<longleftrightarrow>
     \<not> (run_Status run \<noteq> StatusPending \<or> run_NextAttemptAt run > now)
     \<and> \<not> (run_LeaseOwner run \<noteq> '''' \<and> run_LeaseUntil run > now)"

definition ClaimRunnable ::
  "ctx \<Rightarrow> string \<Rightarrow> duration \<Rightarrow> MemoryStore \<Rightarrow> (WfError + WorkflowRun) \<times> MemoryStore" where
  "ClaimRunnable ctx workerID lease s = (case ctx of
      Some e \<Rightarrow> (Inl (ErrCtx e), s)
    | None \<Rightarrow>
        if workerID = '''' then (Inl (Errorf ''worker id is required''), s)
        else if lease \<le> 0 then (Inl (Errorf ''lease must be greater than zero''), s)
        else
          (let now = ms_now s;
               entries = sort_by (\<lambda>l r. created_before (snd l) (snd r)) (ms_runs s)
           in case List.find (\<lambda>(i, run). claimable_run now run) entries of
                None \<Rightarrow> (Inl ErrNoRunnableWorkflow, s)
              | Some (i, run) \<Rightarrow>
                  (let run = run\<lparr>run_LeaseOwner := workerID, run_LeaseUntil := now + lease,
                                 run_UpdatedAt := now\<rparr>
                   in (Inr (cloneRun run),
                       s\<lparr>ms_runs := AList.update i (cloneRun run) (ms_runs s)\<rparr>))))"

definition ExtendLease ::
  "ctx \<Rightarrow> string \<Rightarrow> string \<Rightarrow> duration \<Rightarrow> MemoryStore \<Rightarrow> (WfError + WorkflowRun) \<times> MemoryStore" where
  "ExtendLease ctx i workerID lease s = (case ctx of
      Some e \<Rightarrow> (Inl (ErrCtx e), s)
    | None \<Rightarrow>
        if i = '''' then (Inl (Errorf ''workflow id is required''), s)
        else if workerID = '''' then (Inl (Errorf ''worker id is required''), s)
        else if lease \<le> 0 then (Inl (Errorf ''lease must be greater than zero''), s)
        else (case map_of (ms_runs s) i of
            None \<Rightarrow> (Inl ErrRunNotFound, s)
          | Some run \<Rightarrow>
              if run_LeaseOwner run \<noteq> workerID \<or> run_LeaseUntil run = 0
                 \<or> \<not> run_LeaseUntil run > ms_now s
              then (Inl ErrWorkflowLeaseNotOwned, s)
              else (let run = run\<lparr>run_LeaseUntil := ms_now s + lease, run_UpdatedAt := ms_now s\<rparr>
                    in (Inr (cloneRun run),
                        s\<lparr>ms_runs := AList.update i (cloneRun run) (ms_runs s)\<rparr>))))"

definition ReleaseLease ::
  "ctx \<Rightarrow> string \<Rightarrow> string \<Rightarrow> MemoryStore \<Rightarrow> (WfError + WorkflowRun) \<times> MemoryStore" where
  "ReleaseLease ctx i workerID s = (case ctx of
      Some e \<Rightarrow> (Inl (ErrCtx e), s)
    | None \<Rightarrow>
        if i = '''' then (Inl (Errorf ''workflow id is required''), s)
        else if workerID = '''' then (Inl (Errorf ''worker id is required''), s)
        else (case map_of (ms_runs s) i of
            None \<Rightarrow> (Inl ErrRunNotFound, s)
          | Some run \<Rightarrow>
              if run_LeaseOwner run \<noteq> workerID then (Inl ErrWorkflowLeaseNotOwned, s)
              else (let run = run\<lparr>run_LeaseOwner := '''', run_LeaseUntil := 0,
                                  run_UpdatedAt := ms_now s\<rparr>
                    in (Inr (cloneRun run),
                        s\<lparr>ms_runs := AList.update i (cloneRun run) (ms_runs s)\<rparr>))))"

definition expired_running :: "time \<Rightarrow> WorkflowRun \<Rightarrow> bool" where
  "expired_running now run \<longleftrightarrow>
     \<not> (run_Status run \<noteq> StatusRunning \<or> run_LeaseOwner run = '''' \<or> run_LeaseUntil run > now)"

definition fail_run :: "string \<Rightarrow> time \<Rightarrow> WorkflowRun \<Rightarrow> WorkflowRun" where
  "fail_run reason now run = run\<lparr>run_Status := StatusFailed, run_Error := reason,
     run_LeaseOwner := '''', run_LeaseUntil := 0, run_UpdatedAt := now\<rparr>"

text \<open>The loop over the map rewrites each expired entry under its own key.\<close>

definition FailExpiredRunning ::
  "ctx \<Rightarrow> string \<Rightarrow> MemoryStore \<Rightarrow> (WfError + WorkflowRun list) \<times> MemoryStore" where
  "FailExpiredRunning ctx reason s = (case ctx of
      Some e \<Rightarrow> (Inl (ErrCtx e), s)
    | None \<Rightarrow>
        (let now = ms_now s;
             failed = map (fail_run reason now) (filter (expired_running now) (map snd (ms_runs s)))
         in (Inr (sort_by (\<lambda>l r. run_ID l < run_ID r) (map cloneRun failed)),
             s\<lparr>ms_runs := map (\<lambda>(i, run). (i, if expired_running now run
                then cloneRun (fail_run reason now run) else run)) (ms_runs s)\<rparr>)))"

text \<open>The operations of the queue interfaces as labels, and a sequence of them.\<close>

datatype queue_op =
    OpClaim string duration
  | OpExtend string string duration
  | OpRelease string string
  | OpFailExpired string
  | OpTick duration

fun queue_apply :: "queue_op \<Rightarrow> MemoryStore \<Rightarrow> MemoryStore" where
  "queue_apply (OpClaim w lease) s = snd (ClaimRunnable None w lease s)"
| "queue_apply (OpExtend i w lease) s = snd (ExtendLease None i w lease s)"
| "queue_apply (OpRelease i w) s = snd (ReleaseLease None i w s)"
| "queue_apply (OpFailExpired reason) s = snd (FailExpiredRunning None reason s)"
| "queue_apply (OpTick d) s = s\<lparr>ms_now := ms_now s + max 0 d\<rparr>"

fun acts_as :: "string \<Rightarrow> queue_op \<Rightarrow> bool" where
  "acts_as w (OpClaim v _) = (v = w)"
| "acts_as w (OpExtend _ v _) = (v = w)"
| "acts_as w (OpRelease _ v) = (v = w)"
| "acts_as w _ = False"

definition live_lease :: "string \<Rightarrow> time \<Rightarrow> WorkflowRun \<Rightarrow> bool" where
  "live_lease w now run \<longleftrightarrow> run_LeaseOwner run = w \<and> w \<noteq> '''' \<and> run_LeaseUntil run > now"

section \<open>The contract of the store interface\<close>

text \<open>\<open>upd'\<close> is \<open>upd\<close> with the time stamps a store sets; a zero creation time keeps the old one.\<close>

definition stamped :: "WorkflowRun \<Rightarrow> WorkflowRun \<Rightarrow> WorkflowRun \<Rightarrow> bool" where
  "stamped cur upd upd' \<longleftrightarrow> (\<exists>t. upd' = upd\<lparr>run_CreatedAt :=
     (if run_CreatedAt upd = 0 then run_CreatedAt cur else run_CreatedAt upd), run_UpdatedAt := t\<rparr>)"

locale workflow_store =
  fixes S :: "'s Store"
    and lookup :: "'s \<Rightarrow> string \<Rightarrow> WorkflowRun option"
  assumes get_ctx: "st_Get S (Some e) i s = Inl (ErrCtx e)"
    and get_lookup: "st_Get S None i s = (case lookup s i of
        None \<Rightarrow> Inl ErrRunNotFound | Some r \<Rightarrow> Inr r)"
    and save_ctx: "st_Save S (Some e) r s = (Some (ErrCtx e), s)"
    and save_lookup: "\<exists>s' t u. st_Save S None r s = (None, s')
        \<and> lookup s' = (lookup s)(run_ID r \<mapsto> r\<lparr>run_CreatedAt := t, run_UpdatedAt := u\<rparr>)
        \<and> (run_CreatedAt r \<noteq> 0 \<longrightarrow> t = run_CreatedAt r)"
    and update_ctx: "st_Update S (Some e) i f obs s = (Inl (ErrCtx e), obs, s)"
    and update_missing:
      "lookup s i = None \<Longrightarrow> st_Update S None i f obs s = (Inl ErrRunNotFound, obs, s)"
    and update_reject: "lookup s i = Some cur \<Longrightarrow> f cur obs = (Inl err, obs')
      \<Longrightarrow> st_Update S None i f obs s = (Inl err, obs', s)"
    and update_accept: "lookup s i = Some cur \<Longrightarrow> f cur obs = (Inr upd, obs')
      \<Longrightarrow> \<exists>upd' s'. st_Update S None i f obs s = (Inr upd', obs', s')
            \<and> stamped cur upd upd' \<and> lookup s' = (lookup s)(i \<mapsto> upd')"
begin

text \<open>
  The outcome of an update: the context's error, a missing run, the callback's error with the
  store as it was, or the stamped run stored under the key.
\<close>

lemma update_cases:
  obtains (ctx) e where "ctx = Some e" "st_Update S ctx i f obs s = (Inl (ErrCtx e), obs, s)"
  | (missing) "ctx = None" "lookup s i = None"
      "st_Update S ctx i f obs s = (Inl ErrRunNotFound, obs, s)"
  | (reject) cur err obs' where "ctx = None" "lookup s i = Some cur" "f cur obs = (Inl err, obs')"
      "st_Update S ctx i f obs s = (Inl err, obs', s)"
  | (accept) cur upd obs' upd' s' where "ctx = None" "lookup s i = Some cur"
      "f cur obs = (Inr upd, obs')" "st_Update S ctx i f obs s = (Inr upd', obs', s')"
      "stamped cur upd upd'" "lookup s' = (lookup s)(i \<mapsto> upd')"
proof (cases ctx)
  case (Some e)
  with update_ctx show thesis by (intro that(1)) auto
next
  case None
  show thesis
  proof (cases "lookup s i")
    case None
    with \<open>ctx = None\<close> update_missing show thesis by (intro that(2)) auto
  next
    case (Some cur)
    obtain r ob where f: "f cur obs = (r, ob)" by (cases "f cur obs")
    show thesis
    proof (cases r)
      case (Inl e)
      with f \<open>ctx = None\<close> update_reject [OF Some] Some show thesis by (intro that(3)) auto
    next
      case (Inr upd)
      with f update_accept [OF Some, of f obs upd ob] obtain upd' s' where
        "st_Update S None i f obs s = (Inr upd', ob, s')" "stamped cur upd upd'"
        "lookup s' = (lookup s)(i \<mapsto> upd')" by auto
      with f Inr \<open>ctx = None\<close> Some show thesis by (intro that(4)) auto
    qed
  qed
qed

text \<open>What is read after a write, and that other keys are not touched.\<close>

lemma get_after_update:
  assumes "st_Update S ctx i f obs s = (Inr upd', obs', s')"
  shows "st_Get S None j s' = (if j = i then Inr upd' else st_Get S None j s)"
  by (rule update_cases [of ctx i f obs s]) (use assms in \<open>auto simp: get_lookup\<close>)

lemma update_error_frame:
  assumes "st_Update S ctx i f obs s = (Inl err, obs', s')"
  shows "s' = s"
  by (rule update_cases [of ctx i f obs s]) (use assms in auto)

end

text \<open>The in-memory store satisfies the contract.\<close>

abbreviation ms_lookup :: "MemoryStore \<Rightarrow> string \<Rightarrow> WorkflowRun option" where
  "ms_lookup s \<equiv> map_of (ms_runs s)"

interpretation mem: workflow_store memory_store ms_lookup
proof
  fix s i cur obs upd obs' and f :: mutator
  assume "ms_lookup s i = Some cur" and "f cur obs = (Inr upd, obs')"
  then show "\<exists>upd' s'. st_Update memory_store None i f obs s = (Inr upd', obs', s')
      \<and> stamped cur upd upd' \<and> ms_lookup s' = (ms_lookup s)(i \<mapsto> upd')"
    by (auto simp: memory_store_def Update_def stamped_def Let_def intro!: exI [of _ "ms_now s"])
qed (auto simp: memory_store_def Save_def Get_def Update_def Let_def split: option.splits)

section \<open>Lemmas on the queue\<close>

interpretation created: strict_order created_before
  by unfold_locales (auto simp: created_before_def split: if_splits)

interpretation entry_created: strict_order "\<lambda>l r. created_before (snd l) (snd r)"
  by unfold_locales (auto simp: created_before_def split: if_splits)

interpretation by_query: strict_order "query_before ord" for ord
  by unfold_locales (auto simp: query_before_def split: if_splits)

interpretation by_id: strict_order "\<lambda>l r. run_ID l < run_ID r"
  by unfold_locales auto

lemma live_lease_not_claimable: "live_lease w now run \<Longrightarrow> \<not> claimable_run now run"
  by (auto simp: live_lease_def claimable_run_def)

lemma live_lease_not_expired: "live_lease w now run \<Longrightarrow> \<not> expired_running now run"
  by (auto simp: live_lease_def expired_running_def)

text \<open>A claim leaves every run that is not claimable as it is.\<close>

lemma claim_frame:
  assumes "wf_map (ms_runs s)" and "ms_lookup s i = Some run" and "\<not> claimable_run (ms_now s) run"
  shows "ms_lookup (snd (ClaimRunnable ctx w lease s)) i = Some run"
proof -
  have "j \<noteq> i" if "List.find (\<lambda>(i, run). claimable_run (ms_now s) run)
      (sort_by (\<lambda>l r. created_before (snd l) (snd r)) (ms_runs s)) = Some (j, r)" for j r
    using entry_created.find_sort_by [OF that] assms by (auto simp: map_of_iff_mem [symmetric])
  then show ?thesis using assms(2)
    by (auto simp: ClaimRunnable_def Let_def split: option.splits)
qed

text \<open>One operation of another worker leaves a run under a live lease as it is.\<close>

lemma queue_apply_frame:
  assumes "wf_map (ms_runs s)" and "ms_lookup s i = Some run"
    and "live_lease w (ms_now s) run" and "\<not> acts_as w op"
  shows "ms_lookup (queue_apply op s) i = Some run"
proof (cases op)
  case (OpClaim v lease)
  with claim_frame [OF assms(1,2) live_lease_not_claimable [OF assms(3)]] show ?thesis by simp
next
  case (OpExtend j v lease)
  with assms show ?thesis
    by (cases "j = i") (auto simp: ExtendLease_def live_lease_def Let_def split: option.split)
next
  case (OpRelease j v)
  with assms show ?thesis
    by (cases "j = i") (auto simp: ReleaseLease_def live_lease_def Let_def split: option.split)
next
  case (OpFailExpired reason)
  with assms(2) live_lease_not_expired [OF assms(3)] show ?thesis
    by (simp add: FailExpiredRunning_def Let_def)
qed (use assms in simp)

lemma queue_apply_wf: "wf_map (ms_runs s) \<Longrightarrow> wf_map (ms_runs (queue_apply op s))"
  by (cases op) (auto simp: ClaimRunnable_def ExtendLease_def ReleaseLease_def
      FailExpiredRunning_def Let_def split: option.splits)

lemma queue_apply_now: "ms_now s \<le> ms_now (queue_apply op s)"
  by (cases op) (auto simp: ClaimRunnable_def ExtendLease_def ReleaseLease_def
      FailExpiredRunning_def Let_def split: option.splits)

lemma queue_fold_now: "ms_now s \<le> ms_now (fold queue_apply ops s)"
  by (induction ops arbitrary: s) (auto intro: order_trans queue_apply_now)

section \<open>Properties of the queue\<close>

text \<open>A store with one pending and one running run, for the concrete instances.\<close>

definition demo_pending :: WorkflowRun where
  "demo_pending = zero_run\<lparr>run_ID := ''p'', run_Status := StatusPending, run_CreatedAt := 3\<rparr>"

definition demo_running :: WorkflowRun where
  "demo_running = zero_run\<lparr>run_ID := ''r'', run_Status := StatusRunning, run_StepRetries := 2,
     run_LeaseOwner := ''w1'', run_LeaseUntil := 50, run_CreatedAt := 4\<rparr>"

definition demo_store :: MemoryStore where
  "demo_store = \<lparr>ms_runs = [(''r'', demo_running), (''p'', demo_pending)], ms_now = 10\<rparr>"

lemmas demo_defs = demo_store_def demo_pending_def demo_running_def zero_run_def

lemma demo_claim:
  "ClaimRunnable None ''w2'' 5 demo_store =
     (Inr (demo_pending\<lparr>run_LeaseOwner := ''w2'', run_LeaseUntil := 15, run_UpdatedAt := 10\<rparr>),
      demo_store\<lparr>ms_runs := [(''r'', demo_running),
        (''p'', demo_pending\<lparr>run_LeaseOwner := ''w2'', run_LeaseUntil := 15,
                              run_UpdatedAt := 10\<rparr>)]\<rparr>)"
  by (simp add: ClaimRunnable_def demo_defs sort_by_def created_before_def claimable_run_def Let_def)

lemma demo_wf: "wf_map (ms_runs demo_store)"
  by (simp add: demo_store_def wf_map_def)

text \<open>\<open>ClaimRunnable\<close> hands out a stored run that is pending, due and without a live
  lease, and none of the claimable runs was created before it; the run it returns is that run
  leased to the worker until now plus the lease, and it is the only entry of the store that
  changes.
\<close>

theorem claim_oldest_runnable:
  assumes "wf_map (ms_runs s)" and "ClaimRunnable None w lease s = (Inr r, s')"
  shows "\<exists>i run. ms_lookup s i = Some run \<and> claimable_run (ms_now s) run
      \<and> (\<forall>j other. ms_lookup s j = Some other \<and> claimable_run (ms_now s) other
            \<longrightarrow> \<not> created_before other run)
      \<and> r = run\<lparr>run_LeaseOwner := w, run_LeaseUntil := ms_now s + lease,
               run_UpdatedAt := ms_now s\<rparr>
      \<and> ms_lookup s' = (ms_lookup s)(i \<mapsto> r) \<and> live_lease w (ms_now s') r"
proof -
  let ?entries = "sort_by (\<lambda>l r. created_before (snd l) (snd r)) (ms_runs s)"
  from assms(2) obtain i run where
    f: "List.find (\<lambda>(i, run). claimable_run (ms_now s) run) ?entries = Some (i, run)"
    and r: "r = run\<lparr>run_LeaseOwner := w, run_LeaseUntil := ms_now s + lease,
               run_UpdatedAt := ms_now s\<rparr>"
    and s': "s' = s\<lparr>ms_runs := AList.update i r (ms_runs s)\<rparr>"
    and w: "w \<noteq> ''''" "0 < lease"
    by (auto simp: ClaimRunnable_def Let_def split: if_splits option.splits)
  note least = entry_created.find_sort_by [OF f]
  have "ms_lookup s i = Some run"
    using least(1) assms(1) by (simp add: map_of_iff_mem)
  moreover have "\<not> created_before other run"
    if "ms_lookup s j = Some other" "claimable_run (ms_now s) other" for j other
    using least(3) [of "(j, other)"] that assms(1) by (simp add: map_of_iff_mem)
  moreover have "claimable_run (ms_now s) run" using least(2) by simp
  moreover have "live_lease w (ms_now s') r" using r s' w by (simp add: live_lease_def)
  moreover have "ms_lookup s' = (ms_lookup s)(i \<mapsto> r)" by (simp add: s')
  ultimately show ?thesis using r by blast
qed

theorem claim_oldest_runnable_witness:
  "\<exists>i run. ms_lookup demo_store i = Some run \<and> claimable_run 10 run
      \<and> fst (ClaimRunnable None ''w2'' 5 demo_store) =
          Inr (run\<lparr>run_LeaseOwner := ''w2'', run_LeaseUntil := 15, run_UpdatedAt := 10\<rparr>)"
proof -
  have now: "ms_now demo_store = 10" by (simp add: demo_store_def)
  from claim_oldest_runnable [OF demo_wf demo_claim] obtain i run where
    "ms_lookup demo_store i = Some run" "claimable_run 10 run"
    "demo_pending\<lparr>run_LeaseOwner := ''w2'', run_LeaseUntil := 15, run_UpdatedAt := 10\<rparr>
       = run\<lparr>run_LeaseOwner := ''w2'', run_LeaseUntil := 10 + 5, run_UpdatedAt := 10\<rparr>"
    unfolding now by blast
  then show ?thesis by (intro exI [of _ i] exI [of _ run]) (simp add: demo_claim)
qed

text \<open>
  A claim with valid arguments reports \<open>ErrNoRunnableWorkflow\<close> exactly when no
  stored run is claimable, and then it leaves the store as it was.
\<close>

theorem claim_none_iff:
  assumes "wf_map (ms_runs s)" and "w \<noteq> ''''" and "0 < lease"
  shows "ClaimRunnable None w lease s = (Inl ErrNoRunnableWorkflow, s)
      \<longleftrightarrow> (\<forall>i run. ms_lookup s i = Some run \<longrightarrow> \<not> claimable_run (ms_now s) run)"
proof -
  have "(List.find (\<lambda>(i, run). claimable_run (ms_now s) run)
      (sort_by (\<lambda>l r. created_before (snd l) (snd r)) (ms_runs s)) = None)
      \<longleftrightarrow> (\<forall>i run. ms_lookup s i = Some run \<longrightarrow> \<not> claimable_run (ms_now s) run)"
    using assms(1) by (auto simp: find_None_iff map_of_iff_mem)
  with assms(2,3) show ?thesis
    by (auto simp: ClaimRunnable_def Let_def split: option.splits)
qed

theorem claim_none_iff_witness:
  "ClaimRunnable None ''w'' 5 \<lparr>ms_runs = [(''r'', demo_running)], ms_now = 10\<rparr>
     = (Inl ErrNoRunnableWorkflow, \<lparr>ms_runs = [(''r'', demo_running)], ms_now = 10\<rparr>)"
  by (subst claim_none_iff)
    (auto simp: wf_map_def claimable_run_def demo_running_def zero_run_def split: if_splits)

text \<open>Property C4. Leases are exclusive: no sequence of claims, lease extensions and releases by
  other workers, recovery passes and clock ticks touches a run whose lease is still live at the
  end of the sequence.
\<close>

theorem lease_exclusive:
  assumes "wf_map (ms_runs s)" and "ms_lookup s i = Some run"
    and "live_lease w (ms_now (fold queue_apply ops s)) run"
    and "\<forall>op \<in> set ops. \<not> acts_as w op"
  shows "ms_lookup (fold queue_apply ops s) i = Some run"
  using assms
proof (induction ops arbitrary: s)
  case Nil
  then show ?case by simp
next
  case (Cons op ops)
  have "ms_now s \<le> ms_now (fold queue_apply (op # ops) s)" by (rule queue_fold_now)
  with Cons.prems(3) have "live_lease w (ms_now s) run" by (auto simp: live_lease_def)
  with Cons.prems have "ms_lookup (queue_apply op s) i = Some run"
    by (intro queue_apply_frame) auto
  with Cons.prems show ?case by (auto intro!: Cons.IH queue_apply_wf)
qed

theorem lease_exclusive_witness:
  "ms_lookup (fold queue_apply [OpTick 20, OpClaim ''w2'' 5, OpFailExpired ''lost''] demo_store) ''r''
     = Some demo_running"
  by (rule lease_exclusive [OF demo_wf, where w = "''w1''"])
    (simp_all add: demo_defs live_lease_def ClaimRunnable_def FailExpiredRunning_def sort_by_def
      created_before_def claimable_run_def expired_running_def Let_def)

lemma FailExpiredRunning_None:
  "FailExpiredRunning None reason s =
     (Inr (sort_by (\<lambda>l r. run_ID l < run_ID r) (map (fail_run reason (ms_now s))
        (filter (expired_running (ms_now s)) (map snd (ms_runs s))))),
      s\<lparr>ms_runs := map (\<lambda>(i, run). (i, if expired_running (ms_now s) run
        then fail_run reason (ms_now s) run else run)) (ms_runs s)\<rparr>)"
  by (simp add: FailExpiredRunning_def Let_def comp_def cong: if_cong)

text \<open>Recovery is exact and fail-closed: \<open>FailExpiredRunning\<close> turns a running run whose
  lease owner stopped extending its lease into a failed run without a lease and changes no other
  run, in particular none without a lease owner; a second pass at the same time finds nothing
  and changes nothing.
\<close>

theorem fail_expired_exact:
  assumes "FailExpiredRunning None reason s = (res, s')"
  shows "ms_lookup s' i = (case ms_lookup s i of None \<Rightarrow> None
      | Some run \<Rightarrow> Some (if run_Status run = StatusRunning \<and> run_LeaseOwner run \<noteq> ''''
                           \<and> run_LeaseUntil run \<le> ms_now s
                         then fail_run reason (ms_now s) run else run))
    \<and> FailExpiredRunning None reason s' = (Inr [], s')"
proof -
  let ?f = "\<lambda>run. if expired_running (ms_now s) run then fail_run reason (ms_now s) run else run"
  from assms have s': "s' = s\<lparr>ms_runs := map (\<lambda>(i, run). (i, ?f run)) (ms_runs s)\<rparr>"
    by (simp add: FailExpiredRunning_None)
  then have now: "ms_now s' = ms_now s" by simp
  have none: "\<not> expired_running (ms_now s) (?f run)" for run
    by (simp add: expired_running_def fail_run_def)
  then have "filter (expired_running (ms_now s)) (map snd (ms_runs s')) = []"
    by (auto simp: s' filter_empty_conv)
  moreover have "map (\<lambda>(i, run). (i, ?f run)) (ms_runs s') = ms_runs s'"
    using none by (auto simp: s' intro!: map_idI)
  ultimately have "FailExpiredRunning None reason s' = (Inr [], s')"
    unfolding FailExpiredRunning_None now by (simp only:) (simp add: sort_by_def)
  moreover have "ms_lookup s' i = map_option ?f (ms_lookup s i)" by (simp add: s')
  ultimately show ?thesis
    by (auto simp: expired_running_def split: option.split)
qed

theorem fail_expired_exact_witness:
  "ms_lookup (snd (FailExpiredRunning None ''lost'' (demo_store\<lparr>ms_now := 60\<rparr>))) ''r''
     = Some (fail_run ''lost'' 60 demo_running)"
proof -
  obtain res s' where e: "FailExpiredRunning None ''lost'' (demo_store\<lparr>ms_now := 60\<rparr>) = (res, s')"
    by (cases "FailExpiredRunning None ''lost'' (demo_store\<lparr>ms_now := 60\<rparr>)")
  from fail_expired_exact [OF e, of "''r''"] show ?thesis
    by (simp add: e) (simp add: demo_defs)
qed

text \<open>
  A run failed by recovery keeps its \<open>StepRetries\<close>: the retry budget that it had
  used up before its worker stopped is still counted when the run is requeued.
\<close>

theorem fail_expired_keeps_retries:
  assumes "ms_lookup s i = Some run" and "expired_running (ms_now s) run"
  shows "\<exists>failed. ms_lookup (snd (FailExpiredRunning None reason s)) i = Some failed
      \<and> run_Status failed = StatusFailed \<and> run_StepRetries failed = run_StepRetries run"
  using assms by (simp add: FailExpiredRunning_None fail_run_def)

theorem fail_expired_keeps_retries_witness:
  "\<exists>failed. ms_lookup (snd (FailExpiredRunning None ''lost'' (demo_store\<lparr>ms_now := 60\<rparr>))) ''r''
       = Some failed \<and> run_Status failed = StatusFailed \<and> run_StepRetries failed = 2"
  using fail_expired_keeps_retries [of "demo_store\<lparr>ms_now := 60\<rparr>" "''r''" demo_running "''lost''"]
  by (simp add: demo_defs expired_running_def)

text \<open>\<open>ListWorkflows\<close> returns the matching runs of the store in the requested order, cut
  off at the limit when the limit is positive.
\<close>

theorem list_workflows_spec:
  assumes "ListWorkflows sprint None query s = Inr runs"
  shows "\<exists>all. mset all = mset (filter (query_matches sprint query) (map snd (ms_runs s)))
      \<and> sorted_wrt (\<lambda>l r. \<not> query_before (q_Order query) r l) all
      \<and> runs = (if q_Limit query > 0 then take (nat (q_Limit query)) all else all)"
proof -
  let ?all = "sort_by (query_before (q_Order query))
    (filter (query_matches sprint query) (map snd (ms_runs s)))"
  from assms have "runs = (if q_Limit query > 0 then take (nat (q_Limit query)) ?all else ?all)"
    by (auto simp: ListWorkflows_def Let_def split: if_splits)
  then show ?thesis
    using by_query.sorted_sort_by [of "q_Order query"] by (intro exI [of _ ?all]) simp
qed

theorem list_workflows_spec_witness:
  "\<exists>all. mset all = mset [demo_running, demo_pending]
      \<and> sorted_wrt (\<lambda>l r. \<not> query_before ''desc'' r l) all
      \<and> ListWorkflows (\<lambda>_. '''') None \<lparr>q_Status = StatusUnset, q_MetadataEquals = [],
           q_Order = ''desc'', q_Limit = 1\<rparr> demo_store = Inr (take 1 all)"
proof -
  let ?q = "\<lparr>q_Status = StatusUnset, q_MetadataEquals = [], q_Order = ''desc'', q_Limit = 1\<rparr>"
  have m: "filter (query_matches (\<lambda>_. '''') ?q) (map snd (ms_runs demo_store))
      = [demo_running, demo_pending]"
    by (simp add: demo_store_def query_matches_def workflowMetadataMatches_def)
  have "ListWorkflows (\<lambda>_. '''') None ?q demo_store = Inr [demo_running]"
    by (simp add: ListWorkflows_def m WorkflowOrder_IsValid_def sort_by_def query_before_def
        demo_running_def demo_pending_def zero_run_def)
  from list_workflows_spec [OF this] show ?thesis
    unfolding m using \<open>ListWorkflows (\<lambda>_. '''') None ?q demo_store = Inr [demo_running]\<close> by auto
qed

end
