(* ===== verification/Workflow_Executor.thy ===== *)
theory Workflow_Executor
  imports Workflow_Store
begin

text \<open>
  \<open>workflowkit/executor.go\<close>: the executor that runs the steps of a workflow in order and
  persists its progress. The executor shares the store with other actors (a host that cancels
  runs, workers that heartbeat, a recovery pass), so a world carries the store, the context's
  error, the clock, the random source and the outcome of a racing timer, and the argument \<open>env\<close>
  is what the rest of the system does to the world before each atomic action of the executor:
  a statement for every \<open>env\<close> is a statement for every interleaving. Steps are host code and
  may change the world as well.

  Bounds: the retry loop is recursion on the remaining retry budget, so the model needs no fuel.
  A panic of the random source in \<open>Backoff\<close> ends the run and is the value \<open>None\<close>.
\<close>

section \<open>Steps, worlds and executors\<close>

record StepResult =
  res_Status :: Status
  res_OutputRef :: string
  res_AgentRunID :: string
  res_AuditRef :: string
  res_Error :: string
  res_ApprovalRef :: string
  res_WaitingReason :: string
  res_Metadata :: metadata

definition zero_result :: StepResult where
  "zero_result = \<lparr>res_Status = StatusUnset, res_OutputRef = '''', res_AgentRunID = '''',
     res_AuditRef = '''', res_Error = '''', res_ApprovalRef = '''', res_WaitingReason = '''',
     res_Metadata = []\<rparr>"

record 's world =
  w_store :: 's
  w_ctx :: ctx
  w_clock :: time
  w_rand :: "int \<Rightarrow> int"
  w_timer_first :: bool
  w_tick :: nat

record 's Step =
  step_Name :: string
  step_Run :: "WorkflowRun \<Rightarrow> 's world \<Rightarrow> (StepResult \<times> WfError option) \<times> 's world"

record 's Executor =
  ex_store :: "'s Store option"
  ex_steps :: "'s Step list"
  ex_retryPolicy :: RetryPolicy

record Approval =
  ap_AuditRef :: string
  ap_Metadata :: metadata

type_synonym 's env = "'s world \<Rightarrow> 's world"

text \<open>\<open>NewExecutor\<close> with the option \<open>WithRetryPolicy\<close>; without it the zero policy applies.\<close>

definition zero_policy :: RetryPolicy where
  "zero_policy = \<lparr>rp_MaxAttempts = 0, rp_BaseDelay = 0, rp_MaxDelay = 0\<rparr>"

definition WithRetryPolicy :: "RetryPolicy \<Rightarrow> 's Executor \<Rightarrow> 's Executor" where
  "WithRetryPolicy policy e = e\<lparr>ex_retryPolicy := policy\<rparr>"

definition NewExecutor ::
  "'s Store option \<Rightarrow> 's Step list \<Rightarrow> ('s Executor \<Rightarrow> 's Executor) list \<Rightarrow> 's Executor" where
  "NewExecutor store steps options =
     fold (\<lambda>option e. option e) options
       \<lparr>ex_store = store, ex_steps = steps, ex_retryPolicy = zero_policy\<rparr>"

section \<open>Atomic actions\<close>

definition store_update ::
  "'s env \<Rightarrow> 's Store \<Rightarrow> string \<Rightarrow> mutator \<Rightarrow> WorkflowRun \<Rightarrow> 's world
     \<Rightarrow> (WfError + WorkflowRun) \<times> WorkflowRun \<times> 's world" where
  "store_update env S i f obs w =
     (let w = env w; (r, obs', s') = st_Update S (w_ctx w) i f obs (w_store w)
      in (r, obs', w\<lparr>w_store := s', w_tick := Suc (w_tick w)\<rparr>))"

definition store_save ::
  "'s env \<Rightarrow> 's Store \<Rightarrow> WorkflowRun \<Rightarrow> 's world \<Rightarrow> WfError option \<times> 's world" where
  "store_save env S run w =
     (let w = env w; (r, s') = st_Save S (w_ctx w) run (w_store w)
      in (r, w\<lparr>w_store := s', w_tick := Suc (w_tick w)\<rparr>))"

text \<open>\<open>ctx.Err()\<close>\<close>

definition ctx_err :: "'s env \<Rightarrow> 's world \<Rightarrow> ctx \<times> 's world" where
  "ctx_err env w = (let w = env w in (w_ctx w, w\<lparr>w_tick := Suc (w_tick w)\<rparr>))"

text \<open>The \<open>select\<close> over \<open>ctx.Done()\<close> and the timer.\<close>

definition wait_timer :: "'s env \<Rightarrow> 's world \<Rightarrow> ctx \<times> 's world" where
  "wait_timer env w =
     (let w = env w
      in ((if w_timer_first w then None else w_ctx w), w\<lparr>w_tick := Suc (w_tick w)\<rparr>))"

section \<open>Helpers on runs and results\<close>

definition isTerminalOrWaiting :: "Status \<Rightarrow> bool" where
  "isTerminalOrWaiting status = (case status of
      StatusWaitingApproval \<Rightarrow> True | StatusSucceeded \<Rightarrow> True | StatusFailed \<Rightarrow> True
    | StatusCancelled \<Rightarrow> True | _ \<Rightarrow> False)"

definition isTerminal :: "Status \<Rightarrow> bool" where
  "isTerminal status = (case status of
      StatusSucceeded \<Rightarrow> True | StatusFailed \<Rightarrow> True | StatusCancelled \<Rightarrow> True | _ \<Rightarrow> False)"

definition isFailedOrCancelled :: "Status \<Rightarrow> bool" where
  "isFailedOrCancelled status \<longleftrightarrow> status = StatusFailed \<or> status = StatusCancelled"

definition stepCompleted :: "WorkflowRun \<Rightarrow> string \<Rightarrow> bool" where
  "stepCompleted run name = list_ex (\<lambda>completed. completed = name) (run_CompletedSteps run)"

definition markStepCompleted :: "string \<Rightarrow> WorkflowRun \<Rightarrow> WorkflowRun" where
  "markStepCompleted name run =
     (if stepCompleted run name then run
      else run\<lparr>run_CompletedSteps := run_CompletedSteps run @ [name]\<rparr>)"

definition attempts_of :: "WorkflowRun \<Rightarrow> string \<Rightarrow> int" where
  "attempts_of run name = (case map_of (run_StepAttempts run) name of None \<Rightarrow> 0 | Some n \<Rightarrow> n)"

definition recordStepAttempt :: "string \<Rightarrow> WorkflowRun \<Rightarrow> WorkflowRun" where
  "recordStepAttempt name run = run\<lparr>run_StepAttempts :=
     AList.update name (attempts_of run name + 1) (run_StepAttempts run)\<rparr>"

definition applyStepResult :: "StepResult \<Rightarrow> WorkflowRun \<Rightarrow> WorkflowRun" where
  "applyStepResult result run = run\<lparr>
     run_Status := (if res_Status result \<noteq> StatusUnset then res_Status result else run_Status run),
     run_OutputRef := (if res_OutputRef result \<noteq> '''' then res_OutputRef result
                       else run_OutputRef run),
     run_AgentRunID := (if res_AgentRunID result \<noteq> '''' then res_AgentRunID result
                        else run_AgentRunID run),
     run_AuditRef := (if res_AuditRef result \<noteq> '''' then res_AuditRef result else run_AuditRef run),
     run_Error := (if res_Error result \<noteq> '''' then res_Error result else run_Error run),
     run_ApprovalRef := (if res_ApprovalRef result \<noteq> '''' then res_ApprovalRef result
                         else run_ApprovalRef run),
     run_WaitingReason := (if res_WaitingReason result \<noteq> '''' then res_WaitingReason result
                           else run_WaitingReason run),
     run_Metadata := map_write_all (run_Metadata run) (res_Metadata result)\<rparr>"

definition validateStepResult :: "StepResult \<Rightarrow> WfError option" where
  "validateStepResult result =
     (if res_Status result = StatusUnset then None
      else if \<not> Status_IsValid (res_Status result) \<or> res_Status result = StatusPending
      then Some (InvalidStatusError (res_Status result) ''step result'') else None)"

definition finishStepRecord :: "StepResult \<Rightarrow> string \<Rightarrow> time \<Rightarrow> StepRecord \<Rightarrow> StepRecord" where
  "finishStepRecord result err now record =
     (let record = record\<lparr>
        rec_Status := (if res_Status result = StatusUnset then StatusSucceeded else res_Status result),
        rec_OutputRef := res_OutputRef result, rec_AgentRunID := res_AgentRunID result,
        rec_AuditRef := res_AuditRef result, rec_ApprovalRef := res_ApprovalRef result,
        rec_WaitingReason := res_WaitingReason result,
        rec_Metadata := cloneMetadata (res_Metadata result), rec_Error := res_Error result\<rparr>;
      record = (if err \<noteq> '''' then record\<lparr>rec_Status := StatusFailed, rec_Error := err\<rparr> else record)
      in record\<lparr>rec_EndedAt := now\<rparr>)"

section \<open>Guarded writes\<close>

definition save_mutator :: "WorkflowRun \<Rightarrow> mutator" where
  "save_mutator run current obs =
     (if run_Status current \<noteq> StatusRunning \<or> run_LeaseOwner current \<noteq> run_LeaseOwner run
      then (Inl (runPreemptedError current), obs)
      else (Inr (run\<lparr>run_LeaseOwner := run_LeaseOwner current,
                     run_LeaseUntil := run_LeaseUntil current,
                     run_CreatedAt := run_CreatedAt current\<rparr>), obs))"

definition save :: "'s env \<Rightarrow> 's Executor \<Rightarrow> WorkflowRun \<Rightarrow> 's world \<Rightarrow> WfError option \<times> 's world" where
  "save env e run w = (case ex_store e of
      None \<Rightarrow> (None, w)
    | Some S \<Rightarrow> (case store_update env S (run_ID run) (save_mutator run) run w of
        (Inl err, _, w) \<Rightarrow> (Some err, w)
      | (Inr _, _, w) \<Rightarrow> (None, w)))"

section \<open>One step with retries\<close>

datatype 's attempt =
    Return StepResult bool "WfError option" WorkflowRun "'s world"
  | Again WorkflowRun "'s world"
  | Panicked

definition saved_or_fail ::
  "'s env \<Rightarrow> 's Executor \<Rightarrow> WorkflowRun \<Rightarrow> 's world \<Rightarrow> ('s world \<Rightarrow> 's attempt) \<Rightarrow> 's attempt" where
  "saved_or_fail env e run w cont = (case save env e run w of
      (Some err, w) \<Rightarrow> Return zero_result False (Some err) run w
    | (None, w) \<Rightarrow> cont w)"

definition max_attempts :: "'s Executor \<Rightarrow> int" where
  "max_attempts e = max (rp_MaxAttempts (ex_retryPolicy e)) 1"

definition retryable :: "'s Executor \<Rightarrow> WorkflowRun \<Rightarrow> WfError \<Rightarrow> bool" where
  "retryable e run err \<longleftrightarrow>
     IsTransient err \<and> \<not> is_ErrInvalidStatus err \<and> run_StepRetries run + 1 < max_attempts e"

text \<open>What follows a failed attempt, \<open>run\<close> being the run with the failed record appended.\<close>

definition failed_attempt ::
  "'s env \<Rightarrow> 's Executor \<Rightarrow> StepResult \<Rightarrow> WfError \<Rightarrow> WorkflowRun \<Rightarrow> 's world \<Rightarrow> 's attempt" where
  "failed_attempt env e failedResult err run w =
     (if \<not> retryable e run err then
        (let run = run\<lparr>run_StepRetries := 0\<rparr>
         in saved_or_fail env e run w (\<lambda>w. Return failedResult False (Some err) run w))
      else
        (let run = run\<lparr>run_StepRetries := run_StepRetries run + 1\<rparr>
         in case Backoff (w_rand w) (ex_retryPolicy e) (run_StepRetries run) of
              None \<Rightarrow> Panicked
            | Some delay \<Rightarrow>
                if run_LeaseOwner run \<noteq> '''' \<and> delay > 0 then
                  (let run = run\<lparr>run_Status := StatusPending,
                                 run_NextAttemptAt := w_clock w + delay\<rparr>
                   in saved_or_fail env e run w (\<lambda>w. Return zero_result True None run w))
                else saved_or_fail env e run w (\<lambda>w.
                  if delay > 0 then (case wait_timer env w of
                      (Some c, w) \<Rightarrow> Return zero_result False (Some (ErrCtx c)) run w
                    | (None, w) \<Rightarrow> Again run w)
                  else Again run w)))"

text \<open>What follows the call of the step: its result is validated, recorded and persisted.\<close>

definition finish_attempt ::
  "'s env \<Rightarrow> 's Executor \<Rightarrow> StepRecord \<Rightarrow> WorkflowRun \<Rightarrow> StepResult \<Rightarrow> WfError option \<Rightarrow> 's world
     \<Rightarrow> 's attempt" where
  "finish_attempt env e record run result err w =
     (case (case err of None \<Rightarrow> validateStepResult result | Some _ \<Rightarrow> err) of
        None \<Rightarrow>
          (let run = run\<lparr>run_StepRecords :=
                 run_StepRecords run @ [finishStepRecord result '''' (w_clock w) record],
                 run_StepRetries := 0\<rparr>
           in saved_or_fail env e run w (\<lambda>w. Return result False None run w))
      | Some err \<Rightarrow>
          (let failedResult = result\<lparr>res_Status := StatusFailed, res_Error := error_text err\<rparr>;
               run = run\<lparr>run_StepRecords := run_StepRecords run
                 @ [finishStepRecord failedResult (error_text err) (w_clock w) record]\<rparr>
           in failed_attempt env e failedResult err run w))"

definition attempt_step ::
  "'s env \<Rightarrow> 's Executor \<Rightarrow> 's Step \<Rightarrow> WorkflowRun \<Rightarrow> 's world \<Rightarrow> 's attempt" where
  "attempt_step env e step run w =
     (let run = recordStepAttempt (step_Name step) run;
          run = run\<lparr>run_NextAttemptAt := 0\<rparr>;
          record = zero_record\<lparr>rec_Name := step_Name step, rec_Status := StatusRunning,
                     rec_Attempt := attempts_of run (step_Name step), rec_StartedAt := w_clock w\<rparr>
      in saved_or_fail env e run w (\<lambda>w.
           case step_Run step (cloneRun run) w of
             ((result, err), w) \<Rightarrow> finish_attempt env e record run result err w))"

lemma recordStepAttempt_fields [simp]:
  "run_ID (recordStepAttempt n run) = run_ID run"
  "run_LeaseOwner (recordStepAttempt n run) = run_LeaseOwner run"
  "run_Status (recordStepAttempt n run) = run_Status run"
  "run_CompletedSteps (recordStepAttempt n run) = run_CompletedSteps run"
  "run_StepRetries (recordStepAttempt n run) = run_StepRetries run"
  by (simp_all add: recordStepAttempt_def)

lemma saved_or_fail_Again:
  "saved_or_fail env e run w cont = Again run' w' \<Longrightarrow> \<exists>w1. cont w1 = Again run' w'"
  by (auto simp: saved_or_fail_def split: prod.splits option.splits)

lemma failed_attempt_Again:
  assumes "failed_attempt env e res err run w = Again run' w'"
  shows "run_StepRetries run' = run_StepRetries run + 1" and "run_StepRetries run + 1 < max_attempts e"
    and "run' = run\<lparr>run_StepRetries := run_StepRetries run + 1\<rparr>"
proof -
  from assms show "run' = run\<lparr>run_StepRetries := run_StepRetries run + 1\<rparr>"
    and "run_StepRetries run + 1 < max_attempts e"
    by (auto simp: failed_attempt_def retryable_def Let_def split: if_splits option.splits prod.splits
        dest!: saved_or_fail_Again)
  then show "run_StepRetries run' = run_StepRetries run + 1" by simp
qed

lemma attempt_step_Again:
  assumes "attempt_step env e step run w = Again run' w'"
  shows "run_StepRetries run' = run_StepRetries run + 1" and "run_StepRetries run + 1 < max_attempts e"
proof -
  from assms have "\<exists>res err run1 w1. failed_attempt env e res err run1 w1 = Again run' w'
      \<and> run_StepRetries run1 = run_StepRetries run"
    by (fastforce simp: attempt_step_def finish_attempt_def Let_def
        split: prod.splits option.splits dest!: saved_or_fail_Again)
  then show "run_StepRetries run' = run_StepRetries run + 1"
    and "run_StepRetries run + 1 < max_attempts e"
    by (auto dest: failed_attempt_Again(1) failed_attempt_Again(2))
qed

function runStepWithRetry ::
  "'s env \<Rightarrow> 's Executor \<Rightarrow> 's Step \<Rightarrow> WorkflowRun \<Rightarrow> 's world
     \<Rightarrow> ((StepResult \<times> bool \<times> WfError option) \<times> WorkflowRun \<times> 's world) option" where
  "runStepWithRetry env e step run w = (case attempt_step env e step run w of
      Return result yielded err run w \<Rightarrow> Some ((result, yielded, err), run, w)
    | Panicked \<Rightarrow> None
    | Again run w \<Rightarrow> runStepWithRetry env e step run w)"
  by pat_completeness auto
termination
  by (relation "measure (\<lambda>(env, e, step, run, w). nat (max_attempts e - run_StepRetries run))")
    (auto dest: attempt_step_Again)

declare runStepWithRetry.simps [simp del]

section \<open>The run loop\<close>

text \<open>The run after a step that failed, and after one that returned a result.\<close>

definition step_failed :: "StepResult \<Rightarrow> WfError \<Rightarrow> WorkflowRun \<Rightarrow> WorkflowRun" where
  "step_failed result err run =
     (applyStepResult result run)\<lparr>run_Status := StatusFailed, run_Error := error_text err\<rparr>"

definition step_done :: "string \<Rightarrow> StepResult \<Rightarrow> WorkflowRun \<Rightarrow> WorkflowRun" where
  "step_done name result run =
     (let run = applyStepResult result run
      in if \<not> isFailedOrCancelled (run_Status run) then markStepCompleted name run else run)"

text \<open>The loop of \<open>runFrom\<close> over the remaining steps; the result is the run and the error.\<close>

fun run_steps ::
  "'s env \<Rightarrow> 's Executor \<Rightarrow> 's Step list \<Rightarrow> WorkflowRun \<Rightarrow> 's world
     \<Rightarrow> ((WorkflowRun \<times> WfError option) \<times> 's world) option" where
  "run_steps env e [] run w =
     (let run = run\<lparr>run_Status := StatusSucceeded\<rparr>
      in case save env e run w of (err, w) \<Rightarrow> Some ((run, err), w))"
| "run_steps env e (step # steps) run w =
     (if stepCompleted run (step_Name step) then run_steps env e steps run w
      else
        (let run = run\<lparr>run_CurrentStep := step_Name step\<rparr>
         in case save env e run w of
              (Some err, w) \<Rightarrow> Some ((run, Some err), w)
            | (None, w) \<Rightarrow> (case runStepWithRetry env e step run w of
                None \<Rightarrow> None
              | Some ((result, yielded, err), run, w) \<Rightarrow>
                  if yielded then Some ((run, None), w)
                  else (case err of
                    Some err \<Rightarrow>
                      if is_ErrRunPreempted err then Some ((run, Some err), w)
                      else
                        (let run = step_failed result err run
                         in case save env e run w of
                              (None, w) \<Rightarrow> Some ((run, Some err), w)
                            | (Some saveErr, w) \<Rightarrow> (case ctx_err env w of
                                (None, w) \<Rightarrow> Some ((run, Some (JoinErr err saveErr)), w)
                              | (Some _, w) \<Rightarrow> Some ((run, Some err), w)))
                  | None \<Rightarrow>
                      (let run = step_done (step_Name step) result run
                       in case save env e run w of
                            (Some err, w) \<Rightarrow> Some ((run, Some err), w)
                          | (None, w) \<Rightarrow>
                              if isTerminalOrWaiting (run_Status run) then Some ((run, None), w)
                              else run_steps env e steps run w)))))"

text \<open>The ways in which the loop leaves a step that is not completed yet.\<close>

lemma run_steps_cases:
  assumes "run_steps env e (step # todo) run w = Some ((run', err), w')"
    and "\<not> stepCompleted run (step_Name step)"
  obtains (unsaved) er where "save env e (run\<lparr>run_CurrentStep := step_Name step\<rparr>) w = (Some er, w')"
      "run' = run\<lparr>run_CurrentStep := step_Name step\<rparr>" "err = Some er"
  | (yielded) w1 res er where "save env e (run\<lparr>run_CurrentStep := step_Name step\<rparr>) w = (None, w1)"
      "runStepWithRetry env e step (run\<lparr>run_CurrentStep := step_Name step\<rparr>) w1
         = Some ((res, True, er), run', w')" "err = None"
  | (preempted) w1 res er where "save env e (run\<lparr>run_CurrentStep := step_Name step\<rparr>) w = (None, w1)"
      "runStepWithRetry env e step (run\<lparr>run_CurrentStep := step_Name step\<rparr>) w1
         = Some ((res, False, Some er), run', w')" "is_ErrRunPreempted er" "err = Some er"
  | (failed) w1 res er run2 w2 r3 w3 c w4 where
      "save env e (run\<lparr>run_CurrentStep := step_Name step\<rparr>) w = (None, w1)"
      "runStepWithRetry env e step (run\<lparr>run_CurrentStep := step_Name step\<rparr>) w1
         = Some ((res, False, Some er), run2, w2)" "\<not> is_ErrRunPreempted er"
      "run' = step_failed res er run2" "save env e run' w2 = (r3, w3)" "ctx_err env w3 = (c, w4)"
      "if r3 = None then err = Some er \<and> w' = w3
       else w' = w4 \<and> err = Some (if c = None then JoinErr er (the r3) else er)"
  | (stopped) w1 res run2 w2 where
      "save env e (run\<lparr>run_CurrentStep := step_Name step\<rparr>) w = (None, w1)"
      "runStepWithRetry env e step (run\<lparr>run_CurrentStep := step_Name step\<rparr>) w1
         = Some ((res, False, None), run2, w2)"
      "run' = step_done (step_Name step) res run2" "save env e run' w2 = (err, w')"
      "err = None \<Longrightarrow> isTerminalOrWaiting (run_Status run')"
  | (continued) w1 res run2 w2 w3 where
      "save env e (run\<lparr>run_CurrentStep := step_Name step\<rparr>) w = (None, w1)"
      "runStepWithRetry env e step (run\<lparr>run_CurrentStep := step_Name step\<rparr>) w1
         = Some ((res, False, None), run2, w2)"
      "save env e (step_done (step_Name step) res run2) w2 = (None, w3)"
      "\<not> isTerminalOrWaiting (run_Status (step_done (step_Name step) res run2))"
      "run_steps env e todo (step_done (step_Name step) res run2) w3 = Some ((run', err), w')"
proof -
  let ?run = "run\<lparr>run_CurrentStep := step_Name step\<rparr>"
  obtain r1 w1 where s1: "save env e ?run w = (r1, w1)" by fastforce
  show thesis
  proof (cases r1)
    case (Some x)
    with s1 assms show thesis by (intro unsaved) auto
  next
    case None
    with s1 assms obtain res y err2 run2 w2 where
      r2: "runStepWithRetry env e step ?run w1 = Some ((res, y, err2), run2, w2)"
      by (auto split: option.splits)
    show thesis
    proof (cases "y \<or> err2 = None")
      case True
      obtain r3 w3 where s3: "save env e (step_done (step_Name step) res run2) w2 = (r3, w3)" by fastforce
      show thesis
      proof (cases y)
        case True
        with s1 None r2 assms show thesis by (intro yielded) auto
      next
        case False
        let ?d = "step_done (step_Name step) res run2"
        from False True s1 None r2 assms s3
        have *: "(case r3 of None \<Rightarrow> if isTerminalOrWaiting (run_Status ?d) then Some ((?d, None), w3)
              else run_steps env e todo ?d w3 | Some er \<Rightarrow> Some ((?d, Some er), w3)) = Some ((run', err), w')"
          by (simp add: Let_def)
        show thesis
        proof (cases "r3 = None \<and> \<not> isTerminalOrWaiting (run_Status ?d)")
          case True
          with * False \<open>y \<or> err2 = None\<close> s1 None r2 s3 show thesis by (intro continued) auto
        next
          case ns: False
          with * have "run' = ?d" "err = r3" "w' = w3" by (auto split: option.splits if_splits)
          with ns False \<open>y \<or> err2 = None\<close> s1 None r2 s3 show thesis by (intro stopped) auto
        qed
      qed
    next
      case False
      then obtain er where er: "err2 = Some er" by auto
      show thesis
      proof (cases "is_ErrRunPreempted er")
        case True
        with False er s1 None r2 assms show thesis by (intro preempted) auto
      next
        case np: False
        obtain r3 w3 where s3: "save env e (step_failed res er run2) w2 = (r3, w3)" by fastforce
        obtain c w4 where c4: "ctx_err env w3 = (c, w4)" by fastforce
        from False np er s1 None r2 assms s3 c4
        have "run' = step_failed res er run2 \<and> (if r3 = None then err = Some er \<and> w' = w3
            else w' = w4 \<and> err = Some (if c = None then JoinErr er (the r3) else er))"
          by (auto split: option.splits)
        with np False er s1 None r2 s3 c4 show thesis by (intro failed) auto
      qed
    qed
  qed
qed

definition runFrom ::
  "'s env \<Rightarrow> 's Executor \<Rightarrow> WorkflowRun \<Rightarrow> 's world
     \<Rightarrow> ((WorkflowRun \<times> WfError option) \<times> 's world) option" where
  "runFrom env e run w = run_steps env e (ex_steps e) run w"

section \<open>Entry points\<close>

definition start_mutator :: "WorkflowRun \<Rightarrow> mutator" where
  "start_mutator run current obs =
     (if run_Status current \<noteq> StatusPending
      then (Inl (InvalidTransitionError (run_Status current) StatusRunning ''run''), current)
      else if run_LeaseOwner current \<noteq> run_LeaseOwner run
      then (Inl (runPreemptedError current), current)
      else (Inr (run\<lparr>run_LeaseOwner := run_LeaseOwner current,
                     run_LeaseUntil := run_LeaseUntil current,
                     run_CreatedAt := run_CreatedAt current\<rparr>), current))"

definition start ::
  "'s env \<Rightarrow> 's Executor \<Rightarrow> WorkflowRun \<Rightarrow> 's world \<Rightarrow> (WorkflowRun \<times> WfError option) \<times> 's world" where
  "start env e run w =
     (let run = run\<lparr>run_Status := StatusRunning, run_NextAttemptAt := 0\<rparr>
      in case ex_store e of
           None \<Rightarrow> ((run, None), w)
         | Some S \<Rightarrow> (case store_update env S (run_ID run) (start_mutator run) run w of
             (Inr started, _, w) \<Rightarrow> ((started, None), w)
           | (Inl err, observed, w) \<Rightarrow>
               if is_ErrRunNotFound err then
                 (case store_save env S run w of
                    (Some err, w) \<Rightarrow> ((run, Some err), w)
                  | (None, w) \<Rightarrow> ((run, None), w))
               else ((observed, Some err), w)))"

definition Run ::
  "'s env \<Rightarrow> 's Executor \<Rightarrow> WorkflowRun \<Rightarrow> 's world
     \<Rightarrow> ((WorkflowRun \<times> WfError option) \<times> 's world) option" where
  "Run env e run w =
     (let run = (if run_Status run = StatusUnset then run\<lparr>run_Status := StatusPending\<rparr> else run)
      in if run_Status run \<noteq> StatusPending
         then Some ((run, Some (InvalidTransitionError (run_Status run) StatusRunning ''run'')), w)
         else (case start env e run w of
             ((started, Some err), w) \<Rightarrow> Some ((started, Some err), w)
           | ((started, None), w) \<Rightarrow> runFrom env e started w))"

definition resume_mutator :: "string \<Rightarrow> (WorkflowRun \<Rightarrow> WorkflowRun) \<Rightarrow> mutator" where
  "resume_mutator op apply current obs =
     (if run_Status current \<noteq> StatusWaitingApproval
      then (Inl (InvalidTransitionError (run_Status current) StatusRunning op), current)
      else (Inr ((apply current)\<lparr>run_Status := StatusRunning\<rparr>), current))"

definition resumeWaiting ::
  "'s env \<Rightarrow> 's Executor \<Rightarrow> string \<Rightarrow> string \<Rightarrow> (WorkflowRun \<Rightarrow> WorkflowRun) \<Rightarrow> 's world
     \<Rightarrow> ((WorkflowRun \<times> WfError option) \<times> 's world) option" where
  "resumeWaiting env e i op apply w = (case ex_store e of
      None \<Rightarrow> Some ((zero_run, Some ErrRunNotFound), w)
    | Some S \<Rightarrow> (case store_update env S i (resume_mutator op apply) zero_run w of
        (Inl err, observed, w) \<Rightarrow> Some ((observed, Some err), w)
      | (Inr run, _, w) \<Rightarrow> runFrom env e run w))"

definition Continue ::
  "'s env \<Rightarrow> 's Executor \<Rightarrow> string \<Rightarrow> 's world
     \<Rightarrow> ((WorkflowRun \<times> WfError option) \<times> 's world) option" where
  "Continue env e i w = resumeWaiting env e i ''continue'' (\<lambda>run. run) w"

definition apply_approval :: "Approval \<Rightarrow> WorkflowRun \<Rightarrow> WorkflowRun" where
  "apply_approval approval run =
     (let run = (if ap_AuditRef approval \<noteq> '''' then run\<lparr>run_AuditRef := ap_AuditRef approval\<rparr> else run)
      in run\<lparr>run_Metadata := map_write_all (run_Metadata run) (ap_Metadata approval)\<rparr>)"

definition Approve ::
  "'s env \<Rightarrow> 's Executor \<Rightarrow> string \<Rightarrow> Approval \<Rightarrow> 's world
     \<Rightarrow> ((WorkflowRun \<times> WfError option) \<times> 's world) option" where
  "Approve env e i approval w = resumeWaiting env e i ''approve'' (apply_approval approval) w"

definition cancel_mutator :: "string \<Rightarrow> mutator" where
  "cancel_mutator reason current obs =
     (if isTerminal (run_Status current)
      then (Inl (InvalidTransitionError (run_Status current) StatusCancelled ''cancel''), current)
      else (Inr (current\<lparr>run_Status := StatusCancelled, run_Error := reason\<rparr>), current))"

definition Cancel ::
  "'s env \<Rightarrow> 's Executor \<Rightarrow> string \<Rightarrow> string \<Rightarrow> 's world \<Rightarrow> (WorkflowRun \<times> WfError option) \<times> 's world" where
  "Cancel env e i reason w = (case ex_store e of
      None \<Rightarrow> ((zero_run, Some ErrRunNotFound), w)
    | Some S \<Rightarrow> (case store_update env S i (cancel_mutator reason) zero_run w of
        (Inl err, observed, w) \<Rightarrow> ((observed, Some err), w)
      | (Inr run, _, w) \<Rightarrow> ((run, None), w)))"

section \<open>What the executor guarantees to the other actors\<close>

text \<open>
  A write the executor may make: the stored run is running under the executor's lease owner, and
  the new value keeps the lease and the creation time of the stored run.
\<close>

definition guarded_write ::
  "('s \<Rightarrow> string \<Rightarrow> WorkflowRun option) \<Rightarrow> string \<Rightarrow> string \<Rightarrow> 's \<Rightarrow> 's \<Rightarrow> bool" where
  "guarded_write lookup i owner s s' \<longleftrightarrow> (\<exists>cur new. lookup s i = Some cur
     \<and> run_Status cur = StatusRunning \<and> run_LeaseOwner cur = owner
     \<and> run_LeaseOwner new = owner \<and> run_LeaseUntil new = run_LeaseUntil cur
     \<and> run_CreatedAt new = run_CreatedAt cur \<and> lookup s' = (lookup s)(i \<mapsto> new))"

text \<open>
  \<open>I\<close> is kept by everything but the executor: by the other actors, by the steps, by the passing of
  ticks; and it is kept by every guarded write.
\<close>

definition keeps ::
  "('s \<Rightarrow> string \<Rightarrow> WorkflowRun option) \<Rightarrow> 's env \<Rightarrow> 's Step set \<Rightarrow> string \<Rightarrow> string
     \<Rightarrow> ('s world \<Rightarrow> bool) \<Rightarrow> bool" where
  "keeps lookup env steps i owner I \<longleftrightarrow>
     (\<forall>w. I w \<longrightarrow> I (env w))
   \<and> (\<forall>w n. I w \<longrightarrow> I (w\<lparr>w_tick := n\<rparr>))
   \<and> (\<forall>step \<in> steps. \<forall>run w. I w \<longrightarrow> I (snd (step_Run step run w)))
   \<and> (\<forall>w s'. I w \<longrightarrow> guarded_write lookup i owner (w_store w) s' \<longrightarrow> I (w\<lparr>w_store := s'\<rparr>))"

text \<open>\<open>P\<close> holds of the run and the world an attempt ends in.\<close>

fun ends_in :: "(WorkflowRun \<Rightarrow> 's world \<Rightarrow> bool) \<Rightarrow> 's attempt \<Rightarrow> bool" where
  "ends_in P (Return _ _ _ run w) = P run w"
| "ends_in P (Again run w) = P run w"
| "ends_in P Panicked = True"

definition same_run :: "string \<Rightarrow> string \<Rightarrow> ('s world \<Rightarrow> bool) \<Rightarrow> WorkflowRun \<Rightarrow> 's world \<Rightarrow> bool" where
  "same_run i owner I run w \<longleftrightarrow> run_ID run = i \<and> run_LeaseOwner run = owner \<and> I w"

lemma stepCompleted_iff [simp]: "stepCompleted run name \<longleftrightarrow> name \<in> set (run_CompletedSteps run)"
  by (auto simp: stepCompleted_def list_ex_iff)

lemma applyStepResult_fields [simp]:
  "run_ID (applyStepResult r run) = run_ID run"
  "run_LeaseOwner (applyStepResult r run) = run_LeaseOwner run"
  "run_CompletedSteps (applyStepResult r run) = run_CompletedSteps run"
  "run_StepAttempts (applyStepResult r run) = run_StepAttempts run"
  "run_Status (applyStepResult r run) =
     (if res_Status r \<noteq> StatusUnset then res_Status r else run_Status run)"
  by (simp_all add: applyStepResult_def)

lemma markStepCompleted_fields [simp]:
  "run_ID (markStepCompleted n run) = run_ID run"
  "run_LeaseOwner (markStepCompleted n run) = run_LeaseOwner run"
  "run_Status (markStepCompleted n run) = run_Status run"
  "set (run_CompletedSteps (markStepCompleted n run)) = insert n (set (run_CompletedSteps run))"
  by (auto simp: markStepCompleted_def)

lemma step_failed_fields [simp]:
  "run_ID (step_failed r err run) = run_ID run"
  "run_LeaseOwner (step_failed r err run) = run_LeaseOwner run"
  "run_Status (step_failed r err run) = StatusFailed"
  "run_CompletedSteps (step_failed r err run) = run_CompletedSteps run"
  "run_StepAttempts (step_failed r err run) = run_StepAttempts run"
  by (simp_all add: step_failed_def)

lemma step_done_fields [simp]:
  "run_ID (step_done n r run) = run_ID run"
  "run_LeaseOwner (step_done n r run) = run_LeaseOwner run"
  "run_Status (step_done n r run) = (if res_Status r \<noteq> StatusUnset then res_Status r else run_Status run)"
  by (simp_all add: step_done_def Let_def)

lemma same_run_at:
  assumes "same_run i owner I run w" and "I w'" and "run_ID run' = run_ID run"
    and "run_LeaseOwner run' = run_LeaseOwner run"
  shows "same_run i owner I run' w'"
  using assms by (simp add: same_run_def)

lemma same_run_D: "same_run i owner I run w \<Longrightarrow> I w"
  by (simp add: same_run_def)

context workflow_store
begin

lemma save_cases:
  assumes "ex_store e = Some S"
  obtains (fails) err where
      "save env e run w = (Some err, (env w)\<lparr>w_tick := Suc (w_tick (env w))\<rparr>)"
  | (writes) s' where
      "save env e run w = (None, (env w)\<lparr>w_store := s', w_tick := Suc (w_tick (env w))\<rparr>)"
      "guarded_write lookup (run_ID run) (run_LeaseOwner run) (w_store (env w)) s'"
proof (cases rule: update_cases [of "w_ctx (env w)" "run_ID run" "save_mutator run" run "w_store (env w)"])
  case (accept cur upd obs' upd' s')
  then have "guarded_write lookup (run_ID run) (run_LeaseOwner run) (w_store (env w)) s'"
    unfolding guarded_write_def
    by (intro exI [of _ cur] exI [of _ upd']) (auto simp: save_mutator_def stamped_def split: if_splits)
  with accept show thesis
    by (intro writes) (auto simp: assms save_def store_update_def Let_def)
qed (auto intro!: fails simp: assms save_def store_update_def Let_def)

lemma save_keeps:
  assumes "ex_store e = Some S" and "keeps lookup env steps i owner I"
    and "run_ID run = i" and "run_LeaseOwner run = owner" and "I w"
  shows "I (snd (save env e run w))"
proof -
  from assms(2,5) have 1: "I (env w)" by (simp add: keeps_def)
  from assms(1) show ?thesis
  proof (cases rule: save_cases [of e env run w])
    case (fails err)
    with 1 assms(2) show ?thesis by (simp add: keeps_def)
  next
    case (writes s')
    with 1 assms have "I ((env w)\<lparr>w_store := s'\<rparr>)" by (simp add: keeps_def)
    with assms(2) have "I ((env w)\<lparr>w_store := s'\<rparr>\<lparr>w_tick := Suc (w_tick (env w))\<rparr>)"
      unfolding keeps_def by blast
    with writes show ?thesis by simp
  qed
qed

lemma saved_or_fail_keeps:
  assumes "ex_store e = Some S" and "keeps lookup env steps i owner I" and "same_run i owner I run w"
    and "\<And>w'. I w' \<Longrightarrow> ends_in (same_run i owner I) (cont w')"
  shows "ends_in (same_run i owner I) (saved_or_fail env e run w cont)"
  using save_keeps [OF assms(1,2), of run w] assms(3,4)
  by (auto simp: saved_or_fail_def same_run_def split: prod.splits option.splits)

lemma failed_attempt_keeps:
  assumes "ex_store e = Some S" and "keeps lookup env steps i owner I" and "same_run i owner I run w"
  shows "ends_in (same_run i owner I) (failed_attempt env e res err run w)"
proof -
  have wait: "I w' \<Longrightarrow> I (snd (wait_timer env w'))" for w'
    using assms(2) by (auto simp: keeps_def wait_timer_def Let_def)
  have "ends_in (same_run i owner I) (case wait_timer env w' of
      (Some c, w) \<Rightarrow> Return zero_result False (Some (ErrCtx c)) run' w | (None, w) \<Rightarrow> Again run' w)"
    if "same_run i owner I run' w'" for run' w'
    using wait [of w'] that by (auto simp: same_run_def split: prod.splits option.splits)
  with assms show ?thesis
    unfolding failed_attempt_def Let_def
    by (auto simp: same_run_def split: option.splits intro!: saved_or_fail_keeps)
qed

lemma finish_attempt_keeps:
  assumes "ex_store e = Some S" and "keeps lookup env steps i owner I" and "same_run i owner I run w"
  shows "ends_in (same_run i owner I) (finish_attempt env e record run result err w)"
  unfolding finish_attempt_def Let_def
  by (auto split: option.split simp: same_run_D [OF assms(3)]
      intro!: saved_or_fail_keeps [OF assms(1,2)] failed_attempt_keeps [OF assms(1,2)]
        same_run_at [OF assms(3)])

lemma attempt_step_keeps:
  assumes "ex_store e = Some S" and "keeps lookup env steps i owner I" and "same_run i owner I run w"
    and "step \<in> steps"
  shows "ends_in (same_run i owner I) (attempt_step env e step run w)"
proof -
  have step: "I w' \<Longrightarrow> I (snd (step_Run step r w'))" for r w'
    using assms(2,4) by (auto simp: keeps_def)
  show ?thesis
    unfolding attempt_step_def Let_def
  proof (rule saved_or_fail_keeps [OF assms(1,2)], goal_cases)
    case 1
    with assms(3) show ?case by (simp add: same_run_def)
  next
    case (2 w1)
    let ?call = "step_Run step (cloneRun ((recordStepAttempt (step_Name step) run)\<lparr>run_NextAttemptAt := 0\<rparr>)) w1"
    have "I (snd ?call)" using 2 by (rule step)
    then show ?case
      by (auto split: prod.split intro!: finish_attempt_keeps [OF assms(1,2)] same_run_at [OF assms(3)])
  qed
qed

end

context workflow_store
begin

lemma runStepWithRetry_keeps:
  assumes "ex_store e = Some S" and "keeps lookup env steps i owner I" and "step \<in> steps"
    and "same_run i owner I run w" and "runStepWithRetry env e step run w = Some (r, run', w')"
  shows "same_run i owner I run' w'"
  using assms
proof (induction env e step run w rule: runStepWithRetry.induct)
  case (1 env e step run w)
  have "ends_in (same_run i owner I) (attempt_step env e step run w)"
    using "1.prems" by (intro attempt_step_keeps)
  with "1.prems"(5) "1.IH" "1.prems"(1-3) show ?case
    by (auto simp: runStepWithRetry.simps [of env e step run w] split: attempt.splits)
qed

lemma ctx_err_keeps:
  "keeps lookup env steps i owner I \<Longrightarrow> I w \<Longrightarrow> I (snd (ctx_err env w))"
  by (auto simp: keeps_def ctx_err_def Let_def)

lemma run_steps_keeps:
  assumes "ex_store e = Some S" and "keeps lookup env steps i owner I" and "set todo \<subseteq> steps"
    and "same_run i owner I run w" and "run_steps env e todo run w = Some ((run', err), w')"
  shows "same_run i owner I run' w'"
  using assms(3-5)
proof (induction todo arbitrary: run w)
  case Nil
  then show ?case using save_keeps [OF assms(1,2), of "run\<lparr>run_Status := StatusSucceeded\<rparr>" w]
    by (auto simp: same_run_def Let_def split: prod.splits)
next
  case (Cons step todo)
  show ?case
  proof (cases "stepCompleted run (step_Name step)")
    case True
    with Cons show ?thesis by auto
  next
    case False
    have sv: "same_run i owner I r w2" if "save env e r w1 = (x, w2)" "I w1" "run_ID r = i"
      "run_LeaseOwner r = owner" for r w1 x w2
      using save_keeps [OF assms(1,2), of r w1] that by (simp add: same_run_def)
    have rt: "same_run i owner I r2 w2" if "save env e (run\<lparr>run_CurrentStep := step_Name step\<rparr>) w = (x, w1)"
      "runStepWithRetry env e step (run\<lparr>run_CurrentStep := step_Name step\<rparr>) w1 = Some (y, r2, w2)" for x w1 y r2 w2
      by (rule runStepWithRetry_keeps [OF assms(1,2) _ _ that(2)])
        (use Cons.prems sv [OF that(1)] in \<open>auto simp: same_run_def\<close>)
    from Cons.prems(3) False show ?thesis
    proof (cases rule: run_steps_cases)
      case (unsaved er)
      with Cons.prems sv show ?thesis by (auto simp: same_run_def)
    next
      case (yielded w1 res er)
      from this(1,2) show ?thesis by (rule rt)
    next
      case (preempted w1 res er)
      from this(1,2) show ?thesis by (rule rt)
    next
      case (failed w1 res er run2 w2 r3 w3 c w4)
      have "same_run i owner I run' w3"
        by (rule sv [OF failed(5)]) (use rt [OF failed(1,2)] failed(4) in \<open>simp_all add: same_run_def\<close>)
      with ctx_err_keeps [OF assms(2), of w3] failed(6,7) show ?thesis
        by (auto simp: same_run_def split: if_splits)
    next
      case (stopped w1 res run2 w2)
      show ?thesis
        by (rule sv [OF stopped(4)]) (use rt [OF stopped(1,2)] stopped(3) in \<open>simp_all add: same_run_def\<close>)
    next
      case (continued w1 res run2 w2 w3)
      have "same_run i owner I (step_done (step_Name step) res run2) w3"
        by (rule sv [OF continued(3)]) (use rt [OF continued(1,2)] in \<open>simp_all add: same_run_def\<close>)
      with continued(5) Cons.prems(1) show ?thesis by (auto intro: Cons.IH)
    qed
  qed
qed

end

end
