(* ===== verification/Workflow_Laws.thy ===== *)
theory Workflow_Laws
  imports Workflow_Executor
begin

text \<open>
  The properties of the workflow executor over the in-memory store: what it may write while other
  actors use the same store, what a preempted executor does, which steps a resumed run executes,
  how often a step is attempted, and how runs move between their states.
\<close>

section \<open>Interleaving with other actors\<close>

context workflow_store
begin

lemma runFrom_keeps:
  assumes "ex_store e = Some S" and "keeps lookup env (set (ex_steps e)) i owner I"
    and "run_ID run = i" and "run_LeaseOwner run = owner" and "I w"
    and "runFrom env e run w = Some ((run', err), w')"
  shows "I w'"
  using run_steps_keeps [OF assms(1,2), of "ex_steps e" run w run' err w'] assms(3-6)
  by (simp add: runFrom_def same_run_def)

text \<open>A run the executor no longer owns is kept by every guarded write.\<close>

lemma lost_run_kept:
  assumes "\<forall>w. I w \<longrightarrow> I (env w)" and "\<forall>step \<in> steps. \<forall>run w. I w \<longrightarrow> I (snd (step_Run step run w))"
    and "I = (\<lambda>w. T \<le> w_clock w \<longrightarrow> lookup (w_store w) i = Some c)"
    and "\<not> (run_Status c = StatusRunning \<and> run_LeaseOwner c = owner)"
  shows "keeps lookup env steps i owner I"
  using assms(1,2,4) unfolding keeps_def by (auto simp: assms(3) guarded_write_def)

text \<open>The first write of an executor that no longer owns the run fails.\<close>

lemma save_preempted:
  assumes "ex_store e = Some S" and "w_ctx (env w) = None"
    and "lookup (w_store (env w)) (run_ID run) = Some c"
    and "\<not> (run_Status c = StatusRunning \<and> run_LeaseOwner c = run_LeaseOwner run)"
  shows "save env e run w =
    (Some (runPreemptedError c), (env w)\<lparr>w_tick := Suc (w_tick (env w))\<rparr>)"
  using update_reject [OF assms(3), of "save_mutator run" run "runPreemptedError c" run] assms
  by (auto simp: save_def store_update_def save_mutator_def Let_def)

lemma run_steps_preempted:
  assumes "ex_store e = Some S" and "w_ctx (env w) = None"
    and "lookup (w_store (env w)) (run_ID run) = Some c"
    and "\<not> (run_Status c = StatusRunning \<and> run_LeaseOwner c = run_LeaseOwner run)"
  shows "\<exists>run'. run_steps env e todo run w = Some ((run', Some (runPreemptedError c)),
    (env w)\<lparr>w_tick := Suc (w_tick (env w))\<rparr>)"
proof (induction todo)
  case Nil
  show ?case using save_preempted [of e env w "run\<lparr>run_Status := StatusSucceeded\<rparr>" c] assms
    by (simp add: Let_def)
next
  case (Cons step todo)
  show ?case
    using Cons save_preempted [of e env w "run\<lparr>run_CurrentStep := step_Name step\<rparr>" c] assms
    by (simp add: Let_def)
qed

end

text \<open>A one-step workflow and a host that cancels the run while the executor is at work.\<close>

definition demo_step :: "MemoryStore Step" where
  "demo_step = \<lparr>step_Name = ''s'', step_Run = (\<lambda>run w. ((zero_result, None), w))\<rparr>"

definition demo_exec :: "MemoryStore Executor" where
  "demo_exec = NewExecutor (Some memory_store) [demo_step] []"

definition demo_world :: "MemoryStore world" where
  "demo_world = \<lparr>w_store = demo_store, w_ctx = None, w_clock = 10, w_rand = (\<lambda>n. 0),
     w_timer_first = True, w_tick = 0\<rparr>"

definition demo_cancelled :: WorkflowRun where
  "demo_cancelled = demo_running\<lparr>run_Status := StatusCancelled, run_Error := ''stop''\<rparr>"

text \<open>From the third action of the executor on the host has cancelled the run.\<close>

definition demo_host :: "MemoryStore env" where
  "demo_host w = (if w_tick w = 2
     then w\<lparr>w_clock := 20, w_store := \<lparr>ms_runs = [(''r'', demo_cancelled)], ms_now = 20\<rparr>\<rparr>
     else w)"

text \<open>Property C1. Once a run is lost (cancelled, finished, claimed by another worker), the executor
  never overwrites it: if from time \<open>T\<close> on the other actors leave the stored run at a value \<open>c\<close> that
  is not running under the executor's lease owner, then whatever the executor was doing at that
  time, and whatever its steps return, the store still holds \<open>c\<close> when it returns after \<open>T\<close>.
\<close>

theorem lost_run_not_overwritten:
  fixes e :: "MemoryStore Executor"
  assumes "ex_store e = Some memory_store"
    and "I = (\<lambda>w. T \<le> w_clock w \<longrightarrow> ms_lookup (w_store w) (run_ID run) = Some c)"
    and "\<forall>w. I w \<longrightarrow> I (env w)"
    and "\<forall>step \<in> set (ex_steps e). \<forall>r w. I w \<longrightarrow> I (snd (step_Run step r w))"
    and "\<not> (run_Status c = StatusRunning \<and> run_LeaseOwner c = run_LeaseOwner run)"
    and "I w" and "runFrom env e run w = Some ((run', err), w')"
    and "T \<le> w_clock w'"
  shows "ms_lookup (w_store w') (run_ID run) = Some c"
proof -
  have "keeps ms_lookup env (set (ex_steps e)) (run_ID run) (run_LeaseOwner run) I"
    using assms(3,4,2,5) by (rule mem.lost_run_kept)
  from mem.runFrom_keeps [OF assms(1) this refl refl assms(6,7)] have "I w'" .
  with assms(2,8) show ?thesis by simp
qed

lemmas demo_run_defs = demo_step_def demo_exec_def demo_world_def demo_cancelled_def demo_host_def

lemma demo_cancel_run:
  "case runFrom demo_host demo_exec demo_running demo_world of None \<Rightarrow> False
   | Some ((run, err), w') \<Rightarrow> w_clock w' = 20"
  by code_simp

theorem lost_run_not_overwritten_witness:
  "\<exists>run err w'. runFrom demo_host demo_exec demo_running demo_world = Some ((run, err), w')
    \<and> ms_lookup (w_store w') ''r'' = Some demo_cancelled"
proof -
  obtain run err w' where r: "runFrom demo_host demo_exec demo_running demo_world = Some ((run, err), w')"
    and c: "w_clock w' = 20"
    using demo_cancel_run by (auto split: option.splits)
  have "run_ID demo_running = ''r''" by (simp add: demo_defs)
  with lost_run_not_overwritten [OF _ refl _ _ _ _ r, of 20 demo_cancelled] c
  have "ms_lookup (w_store w') ''r'' = Some demo_cancelled"
    by (simp add: demo_run_defs NewExecutor_def demo_defs)
  with r show ?thesis by blast
qed

text \<open>An executor that continues a run it no longer owns does nothing: it returns the
  preemption error for the stored run before it executes any step, and the world is as the other
  actors left it.
\<close>

theorem preempted_executor_stops:
  assumes "ex_store e = Some memory_store" and "w_ctx (env w) = None"
    and "ms_lookup (w_store (env w)) (run_ID run) = Some c"
    and "\<not> (run_Status c = StatusRunning \<and> run_LeaseOwner c = run_LeaseOwner run)"
  shows "\<exists>run'. runFrom env e run w = Some ((run', Some (runPreemptedError c)),
      (env w)\<lparr>w_tick := Suc (w_tick (env w))\<rparr>)
    \<and> is_ErrRunPreempted (runPreemptedError c)"
  using mem.run_steps_preempted [where env = env and w = w, OF assms]
  by (simp add: runFrom_def is_ErrRunPreempted_def runPreemptedError_def)

theorem preempted_executor_stops_witness:
  "\<exists>run'. runFrom (\<lambda>w. w) demo_exec demo_running (demo_world\<lparr>w_store :=
        \<lparr>ms_runs = [(''r'', demo_cancelled)], ms_now = 20\<rparr>\<rparr>)
      = Some ((run', Some (runPreemptedError demo_cancelled)), demo_world\<lparr>w_store :=
        \<lparr>ms_runs = [(''r'', demo_cancelled)], ms_now = 20\<rparr>, w_tick := 1\<rparr>)"
  using preempted_executor_stops [of demo_exec "\<lambda>w. w" "demo_world\<lparr>w_store :=
        \<lparr>ms_runs = [(''r'', demo_cancelled)], ms_now = 20\<rparr>\<rparr>" demo_running demo_cancelled]
  by (simp add: demo_run_defs NewExecutor_def demo_defs)

section \<open>Steps and attempts\<close>

text \<open>What one attempt does to the run: the completed steps stay, one attempt is counted.\<close>

definition attempted :: "string \<Rightarrow> WorkflowRun \<Rightarrow> WorkflowRun \<Rightarrow> bool" where
  "attempted n run run' \<longleftrightarrow> run_CompletedSteps run' = run_CompletedSteps run
     \<and> run_ID run' = run_ID run \<and> run_LeaseOwner run' = run_LeaseOwner run
     \<and> run_StepAttempts run' = AList.update n (attempts_of run n + 1) (run_StepAttempts run)"

lemma attempted_simps [simp]:
  "attempted n run (run'\<lparr>run_NextAttemptAt := t\<rparr>) = attempted n run run'"
  "attempted n run (run'\<lparr>run_StepRecords := rs\<rparr>) = attempted n run run'"
  "attempted n run (run'\<lparr>run_StepRetries := k\<rparr>) = attempted n run run'"
  "attempted n run (run'\<lparr>run_Status := s\<rparr>) = attempted n run run'"
  "attempted n run (recordStepAttempt n run)"
  by (simp_all add: attempted_def recordStepAttempt_def)

lemma saved_or_fail_ends:
  assumes "\<And>w. P run w" and "\<And>w. ends_in P (cont w)"
  shows "ends_in P (saved_or_fail env e run w cont)"
  using assms by (auto simp: saved_or_fail_def split: prod.splits option.splits)

lemma failed_attempt_attempted:
  "attempted n run0 run \<Longrightarrow> ends_in (\<lambda>r _. attempted n run0 r) (failed_attempt env e res err run w)"
  unfolding failed_attempt_def Let_def
  by (auto split: option.splits prod.splits intro!: saved_or_fail_ends)

lemma attempt_step_attempted:
  "ends_in (\<lambda>r _. attempted (step_Name step) run r) (attempt_step env e step run w)"
  unfolding attempt_step_def finish_attempt_def Let_def
  by (auto split: option.splits prod.splits intro!: saved_or_fail_ends failed_attempt_attempted)

lemma attempts_of_attempted:
  "attempted n run run' \<Longrightarrow> attempts_of run' m = (if m = n then attempts_of run n + 1 else attempts_of run m)"
  by (simp add: attempted_def attempts_of_def)

lemma runStepWithRetry_attempts:
  assumes "runStepWithRetry env e step run w = Some (r, run', w')"
  shows "run_CompletedSteps run' = run_CompletedSteps run"
    and "attempts_of run (step_Name step) < attempts_of run' (step_Name step)"
    and "attempts_of run' (step_Name step)
      \<le> attempts_of run (step_Name step) + max 1 (max_attempts e - run_StepRetries run)"
    and "m \<noteq> step_Name step \<Longrightarrow> attempts_of run' m = attempts_of run m"
proof -
  have "run_CompletedSteps run' = run_CompletedSteps run
    \<and> attempts_of run (step_Name step) < attempts_of run' (step_Name step)
    \<and> attempts_of run' (step_Name step)
      \<le> attempts_of run (step_Name step) + max 1 (max_attempts e - run_StepRetries run)
    \<and> (m \<noteq> step_Name step \<longrightarrow> attempts_of run' m = attempts_of run m)"
    using assms
  proof (induction env e step run w rule: runStepWithRetry.induct)
    case (1 env e step run w)
    have att: "ends_in (\<lambda>r _. attempted (step_Name step) run r) (attempt_step env e step run w)"
      by (rule attempt_step_attempted)
    show ?case
    proof (cases "attempt_step env e step run w")
      case (Return result yielded err run1 w1)
      with "1.prems" att show ?thesis
        by (auto simp: runStepWithRetry.simps [of env e step run w] attempts_of_attempted attempted_def)
    next
      case (Again run1 w1)
      with "1.prems" have "runStepWithRetry env e step run1 w1 = Some (r, run', w')"
        by (simp add: runStepWithRetry.simps [of env e step run w])
      with "1.IH" [OF Again] att Again attempt_step_Again [OF Again] show ?thesis
        by (auto simp: attempts_of_attempted attempted_def)
    next
      case Panicked
      with "1.prems" show ?thesis by (simp add: runStepWithRetry.simps [of env e step run w])
    qed
  qed
  then show "run_CompletedSteps run' = run_CompletedSteps run"
    and "attempts_of run (step_Name step) < attempts_of run' (step_Name step)"
    and "attempts_of run' (step_Name step)
      \<le> attempts_of run (step_Name step) + max 1 (max_attempts e - run_StepRetries run)"
    and "m \<noteq> step_Name step \<Longrightarrow> attempts_of run' m = attempts_of run m"
    by auto
qed



text \<open>The completed steps of a run only grow.\<close>

lemma step_done_completed: "set (run_CompletedSteps run) \<subseteq> set (run_CompletedSteps (step_done n res run))"
  by (auto simp: step_done_def markStepCompleted_def Let_def)

lemma run_steps_skip:
  assumes "set (run_CompletedSteps run0) \<subseteq> set (run_CompletedSteps run)"
  shows "run_steps env e todo run w
    = run_steps env e (filter (\<lambda>step. \<not> stepCompleted run0 (step_Name step)) todo) run w"
  using assms
proof (induction todo arbitrary: run w)
  case Nil
  then show ?case by simp
next
  case (Cons step todo)
  let ?done = "\<lambda>res r. step_done (step_Name step) res r"
  have rest: "run_steps env e todo (?done res run2) w3
      = run_steps env e (filter (\<lambda>step. \<not> stepCompleted run0 (step_Name step)) todo) (?done res run2) w3"
    if "runStepWithRetry env e step (run\<lparr>run_CurrentStep := step_Name step\<rparr>) w1 = Some (r, run2, w2)"
    for w1 r res run2 w2 w3
    using runStepWithRetry_attempts(1) [OF that] Cons.prems step_done_completed [of run2 "step_Name step" res]
    by (intro Cons.IH) auto
  show ?case
  proof (cases "stepCompleted run (step_Name step)")
    case True
    with Cons show ?thesis by simp
  next
    case False
    with Cons.prems have "\<not> stepCompleted run0 (step_Name step)" by auto
    with False rest show ?thesis
      by (simp add: Let_def del: stepCompleted_iff split: prod.split option.split)
  qed
qed

text \<open>A resumed run executes only the steps it has not completed: the run loop over all
  steps is the run loop over those that are not completed when it starts, in the same order.
\<close>

theorem resume_skips_completed:
  "runFrom env e run w
     = run_steps env e (filter (\<lambda>step. step_Name step \<notin> set (run_CompletedSteps run)) (ex_steps e)) run w"
  using run_steps_skip [of run run] by (simp add: runFrom_def)

section \<open>What is stored when the executor returns\<close>

definition persisted_as :: "WorkflowRun \<Rightarrow> WorkflowRun \<Rightarrow> bool" where
  "persisted_as run stored \<longleftrightarrow> (\<exists>lease created updated. stored = run\<lparr>run_LeaseUntil := lease,
     run_CreatedAt := created, run_UpdatedAt := updated\<rparr>)"

lemma saved_or_fail_yield:
  "saved_or_fail env e run w cont = Return res True err run' w'
    \<Longrightarrow> \<exists>w1. save env e run w = (None, w1) \<and> cont w1 = Return res True err run' w'"
  by (auto simp: saved_or_fail_def split: prod.splits option.splits)

lemma failed_attempt_yield:
  assumes "failed_attempt env e res0 er run0 w0 = Return res True err run' w'"
  shows "err = None \<and> run_Status run' = StatusPending \<and> run_LeaseOwner run' \<noteq> ''''
    \<and> run_StepRetries run' < max_attempts e \<and> (\<exists>w. save env e run' w = (None, w'))"
  using assms
  by (auto simp: failed_attempt_def retryable_def Let_def split: if_splits option.splits prod.splits
      dest!: saved_or_fail_yield)

lemma runStepWithRetry_yield:
  assumes "runStepWithRetry env e step run w = Some ((res, True, err), run', w')"
  shows "err = None \<and> run_Status run' = StatusPending \<and> run_LeaseOwner run' \<noteq> ''''
    \<and> run_StepRetries run' < max_attempts e \<and> (\<exists>w. save env e run' w = (None, w'))"
  using assms
proof (induction env e step run w rule: runStepWithRetry.induct)
  case (1 env e step run w)
  show ?case
  proof (cases "attempt_step env e step run w")
    case (Return result y er run1 w1)
    with "1.prems" have "attempt_step env e step run w = Return res True err run' w'"
      by (simp add: runStepWithRetry.simps [of env e step run w])
    then obtain res0 er0 run0 w0 where "failed_attempt env e res0 er0 run0 w0 = Return res True err run' w'"
      by (fastforce simp: attempt_step_def finish_attempt_def Let_def split: prod.splits option.splits
          dest!: saved_or_fail_yield)
    then show ?thesis by (rule failed_attempt_yield)
  qed (use 1 in \<open>auto simp: runStepWithRetry.simps [of env e step run w]\<close>)
qed

context workflow_store
begin

lemma save_stored:
  assumes "ex_store e = Some S" and "save env e run w = (None, w')"
  shows "\<exists>stored. lookup (w_store w') (run_ID run) = Some stored \<and> persisted_as run stored"
proof (cases rule: update_cases [of "w_ctx (env w)" "run_ID run" "save_mutator run" run "w_store (env w)"])
  case (accept cur upd obs' upd' s')
  then have "persisted_as run upd'"
    by (auto simp: save_mutator_def stamped_def persisted_as_def split: if_splits)
      (metis WorkflowRun.surjective WorkflowRun.update_convs)
  with accept assms show ?thesis by (auto simp: save_def store_update_def Let_def)
qed (use assms in \<open>auto simp: save_def store_update_def Let_def\<close>)

lemma run_steps_persisted:
  assumes "ex_store e = Some S" and "run_steps env e todo run w = Some ((run', None), w')"
  shows "\<exists>stored. lookup (w_store w') (run_ID run') = Some stored \<and> persisted_as run' stored"
    and "run_Status run' \<in> {StatusSucceeded, StatusFailed, StatusCancelled, StatusWaitingApproval}
      \<or> run_Status run' = StatusPending \<and> run_LeaseOwner run' \<noteq> '''' \<and> run_StepRetries run' < max_attempts e"
proof -
  have "(\<exists>w. save env e run' w = (None, w')) \<and>
    (run_Status run' \<in> {StatusSucceeded, StatusFailed, StatusCancelled, StatusWaitingApproval}
      \<or> run_Status run' = StatusPending \<and> run_LeaseOwner run' \<noteq> '''' \<and> run_StepRetries run' < max_attempts e)"
    using assms(2)
  proof (induction todo arbitrary: run w)
    case Nil
    then show ?case by (auto simp: Let_def split: prod.splits)
  next
    case (Cons step todo)
    show ?case
    proof (cases "stepCompleted run (step_Name step)")
      case True
      with Cons show ?thesis by simp
    next
      case False
      with Cons.prems show ?thesis
      proof (cases rule: run_steps_cases)
        case (yielded w1 res er)
        then show ?thesis by (auto dest: runStepWithRetry_yield)
      next
        case (stopped w1 res run2 w2)
        then show ?thesis by (auto simp: isTerminalOrWaiting_def split: Status.splits)
      next
        case (continued w1 res run2 w2 w3)
        then show ?thesis by (intro Cons.IH)
      qed (auto split: if_splits)
    qed
  qed
  with save_stored [OF assms(1)] show
    "\<exists>stored. lookup (w_store w') (run_ID run') = Some stored \<and> persisted_as run' stored"
    "run_Status run' \<in> {StatusSucceeded, StatusFailed, StatusCancelled, StatusWaitingApproval}
      \<or> run_Status run' = StatusPending \<and> run_LeaseOwner run' \<noteq> '''' \<and> run_StepRetries run' < max_attempts e"
    by blast+
qed

end

text \<open>A run that returns without error is persisted: whatever the other actors did, the
  returned run is the stored one up to the lease and the time stamps the store owns, and it has
  succeeded, failed, been cancelled, waits for approval, or was handed back to the queue by its
  lease owner with retries left.
\<close>

theorem returned_run_is_persisted:
  assumes "ex_store e = Some memory_store" and "runFrom env e run w = Some ((run', None), w')"
  shows "(\<exists>stored. ms_lookup (w_store w') (run_ID run') = Some stored \<and> persisted_as run' stored)
    \<and> (run_Status run' \<in> {StatusSucceeded, StatusFailed, StatusCancelled, StatusWaitingApproval}
      \<or> run_Status run' = StatusPending \<and> run_LeaseOwner run' \<noteq> ''''
        \<and> run_StepRetries run' < max_attempts e)"
  using mem.run_steps_persisted [OF assms(1), of env "ex_steps e" run w run' w'] assms(2)
  by (simp add: runFrom_def)

theorem returned_run_is_persisted_witness:
  "\<exists>run' w' stored. runFrom (\<lambda>w. w) demo_exec demo_running demo_world = Some ((run', None), w')
    \<and> ms_lookup (w_store w') (run_ID run') = Some stored \<and> persisted_as run' stored"
proof -
  have "case runFrom (\<lambda>w. w) demo_exec demo_running demo_world of
      Some ((run', None), w') \<Rightarrow> True | _ \<Rightarrow> False"
    by code_simp
  then obtain run' w' where r: "runFrom (\<lambda>w. w) demo_exec demo_running demo_world = Some ((run', None), w')"
    by (auto split: option.splits)
  have "ex_store demo_exec = Some memory_store" by (simp add: demo_exec_def NewExecutor_def)
  from returned_run_is_persisted [OF this r] r show ?thesis by blast
qed

text \<open>
  A leased run that has to back off goes back to the queue: it is stored as pending,
  keeps its used retries below the policy's bound, and no worker can claim it before its
  \<open>NextAttemptAt\<close>, even when the lease has run out.
\<close>

theorem yielded_run_waits:
  assumes "ex_store e = Some memory_store"
    and "runStepWithRetry env e step run w = Some ((res, True, err), run', w')"
    and "s = (w_store w')\<lparr>ms_now := now\<rparr>" and "wf_map (ms_runs s)" and "now < run_NextAttemptAt run'"
  shows "err = None \<and> run_StepRetries run' < max_attempts e
    \<and> (\<exists>stored. ms_lookup s (run_ID run') = Some stored \<and> persisted_as run' stored
        \<and> run_Status stored = StatusPending
        \<and> ms_lookup (snd (ClaimRunnable ctx worker lease s)) (run_ID run') = Some stored)"
proof -
  from runStepWithRetry_yield [OF assms(2)] obtain w0 where y: "err = None" "run_Status run' = StatusPending"
    "run_StepRetries run' < max_attempts e" and sv: "save env e run' w0 = (None, w')" by blast
  from mem.save_stored [OF assms(1) sv] assms(3) obtain stored where
    st: "ms_lookup s (run_ID run') = Some stored" "persisted_as run' stored" by auto
  with y(2) assms(3,5) have n: "run_Status stored = StatusPending" "\<not> claimable_run (ms_now s) stored"
    by (auto simp: persisted_as_def claimable_run_def)
  from claim_frame [OF assms(4) st(1) n(2)] y st n(1) show ?thesis by blast
qed

text \<open>A step that fails with a transient error under a policy that allows three attempts.\<close>

definition demo_flaky :: "MemoryStore Step" where
  "demo_flaky = \<lparr>step_Name = ''s'', step_Run = (\<lambda>run w. ((zero_result, Some (TransientError (Some (Errorf ''busy'')))), w))\<rparr>"

definition demo_retrying :: "MemoryStore Executor" where
  "demo_retrying = NewExecutor (Some memory_store) [demo_flaky]
     [WithRetryPolicy \<lparr>rp_MaxAttempts = 5, rp_BaseDelay = 100, rp_MaxDelay = 0\<rparr>]"

theorem yielded_run_waits_witness:
  "\<exists>res err run' w' stored. runStepWithRetry (\<lambda>w. w) demo_retrying demo_flaky demo_running
        (demo_world\<lparr>w_rand := (\<lambda>n. n - 1)\<rparr>) = Some ((res, True, err), run', w')
    \<and> ms_lookup (snd (ClaimRunnable None ''w2'' 5 ((w_store w')\<lparr>ms_now := 60\<rparr>))) ''r'' = Some stored
    \<and> persisted_as run' stored"
proof -
  have "case runStepWithRetry (\<lambda>w. w) demo_retrying demo_flaky demo_running
        (demo_world\<lparr>w_rand := (\<lambda>n. n - 1)\<rparr>) of
      Some ((res, True, err), run', w') \<Rightarrow> run_ID run' = ''r'' \<and> 60 < run_NextAttemptAt run'
        \<and> map fst (ms_runs (w_store w')) = [''r'', ''p''] | _ \<Rightarrow> False"
    by code_simp
  then obtain res err run' w' where r: "runStepWithRetry (\<lambda>w. w) demo_retrying demo_flaky demo_running
        (demo_world\<lparr>w_rand := (\<lambda>n. n - 1)\<rparr>) = Some ((res, True, err), run', w')"
    and p: "run_ID run' = ''r''" "60 < run_NextAttemptAt run'" "map fst (ms_runs (w_store w')) = [''r'', ''p'']"
    by (auto split: option.splits bool.splits)
  have "ex_store demo_retrying = Some memory_store"
    by (simp add: demo_retrying_def NewExecutor_def WithRetryPolicy_def)
  from yielded_run_waits [OF this r refl, of 60 None "''w2''" 5] p r show ?thesis
    by (auto simp: wf_map_def)
qed

section \<open>The executor returns and the workflow completes\<close>

lemma failed_attempt_returns:
  "safe_policy (ex_retryPolicy e) \<Longrightarrow> failed_attempt env e res err run w \<noteq> Panicked"
  using Backoff_returns [of "ex_retryPolicy e" "w_rand w" "run_StepRetries run + 1"]
  by (auto simp: failed_attempt_def saved_or_fail_def Let_def split: option.splits prod.splits)

lemma attempt_step_returns:
  "safe_policy (ex_retryPolicy e) \<Longrightarrow> attempt_step env e step run w \<noteq> Panicked"
  by (auto simp: attempt_step_def finish_attempt_def saved_or_fail_def failed_attempt_returns Let_def
      split: option.splits prod.splits)

lemma runStepWithRetry_returns:
  "safe_policy (ex_retryPolicy e) \<Longrightarrow> runStepWithRetry env e step run w \<noteq> None"
proof (induction env e step run w rule: runStepWithRetry.induct)
  case (1 env e step run w)
  with attempt_step_returns [of e env step run w] show ?case
    by (auto simp: runStepWithRetry.simps [of env e step run w] split: attempt.splits)
qed

text \<open>Property C3. The executor always returns: under a policy whose delays stay in the 64-bit range,
  and for every behaviour of the steps, the store and the other actors, the run loop ends with a
  run and an optional error, without a panic.
\<close>

theorem run_returns:
  assumes "safe_policy (ex_retryPolicy e)"
  shows "\<exists>run' err w'. runFrom env e run w = Some ((run', err), w')"
proof -
  have "run_steps env e todo run w \<noteq> None" for todo
  proof (induction todo arbitrary: run w)
    case (Cons step todo)
    with runStepWithRetry_returns [OF assms, of env step "run\<lparr>run_CurrentStep := step_Name step\<rparr>"
      "snd (save env e (run\<lparr>run_CurrentStep := step_Name step\<rparr>) w)"]
    show ?case by (auto simp: Let_def split: prod.splits option.splits)
  qed (simp add: Let_def split: prod.splits)
  then show ?thesis by (auto simp: runFrom_def)
qed

theorem run_returns_witness:
  "\<exists>run' err w'. runFrom demo_host demo_retrying demo_running demo_world = Some ((run', err), w')"
  by (rule run_returns) (simp add: demo_retrying_def NewExecutor_def WithRetryPolicy_def safe_policy_def)

text \<open>A step that returns a result without an error and without ending the workflow.\<close>

definition succeeds :: "'s Step \<Rightarrow> bool" where
  "succeeds step \<longleftrightarrow> (\<forall>run w. \<exists>res. step_Run step run w = ((res, None), w)
     \<and> res_Status res \<in> {StatusUnset, StatusRunning})"

definition owned :: "('s \<Rightarrow> string \<Rightarrow> WorkflowRun option) \<Rightarrow> WorkflowRun \<Rightarrow> 's world \<Rightarrow> bool" where
  "owned lookup run w \<longleftrightarrow> w_ctx w = None \<and> (\<exists>cur. lookup (w_store w) (run_ID run) = Some cur
     \<and> run_Status cur = StatusRunning \<and> run_LeaseOwner cur = run_LeaseOwner run)"

context workflow_store
begin

lemma save_owned:
  assumes "ex_store e = Some S" and "owned lookup run w"
  shows "\<exists>w'. save (\<lambda>w. w) e run w = (None, w') \<and> w_ctx w' = None"
proof -
  from assms(2) obtain cur where cur: "w_ctx w = None" "lookup (w_store w) (run_ID run) = Some cur"
    "run_Status cur = StatusRunning" "run_LeaseOwner cur = run_LeaseOwner run"
    by (auto simp: owned_def)
  then have "save_mutator run cur run = (Inr (run\<lparr>run_LeaseOwner := run_LeaseOwner cur,
      run_LeaseUntil := run_LeaseUntil cur, run_CreatedAt := run_CreatedAt cur\<rparr>), run)"
    by (simp add: save_mutator_def)
  from update_accept [where f = "save_mutator run" and obs = run, OF cur(2) this] assms(1) cur(1)
  show ?thesis
    by (auto simp: save_def store_update_def Let_def)
qed

lemma save_running:
  assumes "ex_store e = Some S" and "owned lookup run w" and "run_Status run = StatusRunning"
  obtains w' where "save (\<lambda>w. w) e run w = (None, w')" and "owned lookup run w'"
proof -
  from save_owned [OF assms(1,2)] obtain w' where w': "save (\<lambda>w. w) e run w = (None, w')" "w_ctx w' = None"
    by blast
  with save_stored [OF assms(1) w'(1)] assms(3) have "owned lookup run w'"
    by (auto simp: owned_def persisted_as_def)
  with w'(1) show thesis by (rule that)
qed

lemma saved_or_fail_running:
  assumes "ex_store e = Some S" and "owned lookup run w" and "run_Status run = StatusRunning"
  obtains w' where "\<And>cont. saved_or_fail (\<lambda>w. w) e run w cont = cont w'" and "owned lookup run w'"
proof -
  from assms obtain w' where "save (\<lambda>w. w) e run w = (None, w')" and "owned lookup run w'"
    by (rule save_running)
  then show thesis by (intro that) (auto simp: saved_or_fail_def)
qed

lemma owned_same:
  "owned lookup run w \<Longrightarrow> run_ID run' = run_ID run \<Longrightarrow> run_LeaseOwner run' = run_LeaseOwner run
    \<Longrightarrow> owned lookup run' w"
  by (simp add: owned_def)

lemma attempt_step_succeeds:
  assumes "ex_store e = Some S" and "owned lookup run w" and "run_Status run = StatusRunning"
    and "succeeds step"
  shows "\<exists>res run' w'. attempt_step (\<lambda>w. w) e step run w = Return res False None run' w'
    \<and> owned lookup run' w' \<and> run_Status run' = StatusRunning \<and> res_Status res \<in> {StatusUnset, StatusRunning}"
proof -
  let ?run = "(recordStepAttempt (step_Name step) run)\<lparr>run_NextAttemptAt := 0\<rparr>"
  have "owned lookup ?run w" by (rule owned_same [OF assms(2)]) simp_all
  from saved_or_fail_running [OF assms(1) this] assms(3) obtain w1 where
    s1: "\<And>cont. saved_or_fail (\<lambda>w. w) e ?run w cont = cont w1" and o1: "owned lookup ?run w1" by auto
  from assms(4) obtain res where res: "step_Run step ?run w1 = ((res, None), w1)"
    "res_Status res \<in> {StatusUnset, StatusRunning}" unfolding succeeds_def by metis
  then have v: "validateStepResult res = None" by (auto simp: validateStepResult_def Status_IsValid_def)
  define run2 where "run2 = ?run\<lparr>run_StepRecords := run_StepRecords ?run
      @ [finishStepRecord res '''' (w_clock w1) (zero_record\<lparr>rec_Name := step_Name step,
          rec_Status := StatusRunning, rec_Attempt := attempts_of ?run (step_Name step),
          rec_StartedAt := w_clock w\<rparr>)], run_StepRetries := 0\<rparr>"
  have "owned lookup run2 w1" "run_Status run2 = StatusRunning"
    using o1 assms(3) by (auto simp: run2_def intro: owned_same)
  from saved_or_fail_running [OF assms(1) this] obtain w2 where
    s2: "\<And>cont. saved_or_fail (\<lambda>w. w) e run2 w1 cont = cont w2" and o2: "owned lookup run2 w2" by blast
  have "attempt_step (\<lambda>w. w) e step run w = Return res False None run2 w2"
    unfolding attempt_step_def Let_def s1 cloneRun_id res(1)
    using s2 [of "Return res False None run2"] by (simp add: finish_attempt_def v run2_def Let_def)
  with o2 res(2) \<open>run_Status run2 = StatusRunning\<close> show ?thesis by blast
qed

end

context workflow_store
begin

lemma run_steps_succeed:
  assumes "ex_store e = Some S" and "\<forall>step \<in> set todo. succeeds step"
    and "owned lookup run w" and "run_Status run = StatusRunning"
  shows "\<exists>run' w'. run_steps (\<lambda>w. w) e todo run w = Some ((run', None), w')
    \<and> run_Status run' = StatusSucceeded
    \<and> set (run_CompletedSteps run') = set (run_CompletedSteps run) \<union> step_Name ` set todo
    \<and> run_ID run' = run_ID run"
  using assms(2-4)
proof (induction todo arbitrary: run w)
  case Nil
  then have "owned lookup (run\<lparr>run_Status := StatusSucceeded\<rparr>) w" by (auto intro: owned_same)
  from save_owned [OF assms(1) this] show ?case by (auto simp: Let_def)
next
  case (Cons step todo)
  show ?case
  proof (cases "stepCompleted run (step_Name step)")
    case True
    with Cons.IH [OF _ Cons.prems(2,3)] Cons.prems(1) show ?thesis by auto
  next
    case False
    let ?run = "run\<lparr>run_CurrentStep := step_Name step\<rparr>"
    have "owned lookup ?run w" "run_Status ?run = StatusRunning"
      using Cons.prems by (auto intro: owned_same)
    with assms(1) obtain w1 where s1: "save (\<lambda>w. w) e ?run w = (None, w1)" and o1: "owned lookup ?run w1"
      by (rule save_running)
    obtain res run2 w2 where a: "attempt_step (\<lambda>w. w) e step ?run w1 = Return res False None run2 w2"
      and o2: "owned lookup run2 w2" and st: "run_Status run2 = StatusRunning"
        "res_Status res \<in> {StatusUnset, StatusRunning}"
      using attempt_step_succeeds [OF assms(1) o1, of step] Cons.prems by auto
    then have r: "runStepWithRetry (\<lambda>w. w) e step ?run w1 = Some ((res, False, None), run2, w2)"
      by (simp add: runStepWithRetry.simps [of _ _ _ _ w1])
    have at: "attempted (step_Name step) ?run run2"
      using attempt_step_attempted [of step ?run "\<lambda>w. w" e w1] a by simp
    let ?done = "step_done (step_Name step) res run2"
    have d: "run_Status ?done = StatusRunning" "set (run_CompletedSteps ?done)
        = insert (step_Name step) (set (run_CompletedSteps run))" "run_ID ?done = run_ID run"
      using st at by (auto simp: step_done_def isFailedOrCancelled_def attempted_def Let_def)
    have "owned lookup ?done w2" using o2 by (auto intro: owned_same)
    with assms(1) obtain w3 where s3: "save (\<lambda>w. w) e ?done w2 = (None, w3)" and o3: "owned lookup ?done w3"
      using d(1) by (rule save_running)
    from Cons.IH [OF _ o3 d(1)] Cons.prems(1) d have
      "\<exists>run' w'. run_steps (\<lambda>w. w) e todo ?done w3 = Some ((run', None), w')
        \<and> run_Status run' = StatusSucceeded
        \<and> set (run_CompletedSteps run') = set (run_CompletedSteps run) \<union> step_Name ` set (step # todo)
        \<and> run_ID run' = run_ID run" by auto
    with False s1 r s3 d(1) show ?thesis by (auto simp: Let_def isTerminalOrWaiting_def)
  qed
qed

end

text \<open>Property C2. When no other actor interferes and every step returns a result that does not end
  the workflow, an owned running run completes: the executor returns no error, every step is
  marked completed, and the run is stored as succeeded.
\<close>

theorem workflow_completes:
  assumes "ex_store e = Some memory_store" and "\<forall>step \<in> set (ex_steps e). succeeds step"
    and "owned ms_lookup run w" and "run_Status run = StatusRunning"
  shows "\<exists>run' w' stored. runFrom (\<lambda>w. w) e run w = Some ((run', None), w')
    \<and> set (run_CompletedSteps run') = set (run_CompletedSteps run) \<union> step_Name ` set (ex_steps e)
    \<and> run_Status run' = StatusSucceeded
    \<and> ms_lookup (w_store w') (run_ID run) = Some stored \<and> persisted_as run' stored"
proof -
  from mem.run_steps_succeed [OF assms] obtain run' w' where
    r: "run_steps (\<lambda>w. w) e (ex_steps e) run w = Some ((run', None), w')"
    "run_Status run' = StatusSucceeded" "run_ID run' = run_ID run"
    "set (run_CompletedSteps run') = set (run_CompletedSteps run) \<union> step_Name ` set (ex_steps e)" by blast
  from mem.run_steps_persisted(1) [OF assms(1) r(1)] r show ?thesis
    unfolding runFrom_def by metis
qed

theorem workflow_completes_witness:
  "\<exists>run' w' stored. runFrom (\<lambda>w. w) demo_exec demo_running demo_world = Some ((run', None), w')
    \<and> set (run_CompletedSteps run') = {''s''} \<and> run_Status run' = StatusSucceeded
    \<and> ms_lookup (w_store w') ''r'' = Some stored \<and> persisted_as run' stored"
  using workflow_completes [of demo_exec demo_running demo_world]
  by (simp add: demo_run_defs NewExecutor_def demo_defs owned_def succeeds_def zero_result_def)

section \<open>Transitions\<close>

lemma mem_update_reject:
  assumes "w_ctx (env w) = None" and "ms_lookup (w_store (env w)) i = Some cur"
    and "f cur obs = (Inl err, obs')"
  shows "store_update env memory_store i f obs w
    = (Inl err, obs', (env w)\<lparr>w_tick := Suc (w_tick (env w))\<rparr>)"
  using mem.update_reject [where f = f and obs = obs, OF assms(2,3)] assms(1)
  by (simp add: store_update_def Let_def)

lemma mem_update_accept:
  assumes "w_ctx (env w) = None" and "ms_lookup (w_store (env w)) i = Some cur"
    and "f cur obs = (Inr upd, obs')"
  obtains upd' s' where "store_update env memory_store i f obs w
      = (Inr upd', obs', (env w)\<lparr>w_store := s', w_tick := Suc (w_tick (env w))\<rparr>)"
    and "stamped cur upd upd'" and "ms_lookup s' = (ms_lookup (w_store (env w)))(i \<mapsto> upd')"
  using mem.update_accept [where f = f and obs = obs, OF assms(2,3)] assms(1)
  by (auto simp: store_update_def Let_def)

text \<open>A start that returns no error leaves the run running in the store, also on its first save.\<close>

lemma start_running:
  assumes "ex_store e = Some memory_store" and "start env e run w = ((started, None), w')"
  shows "\<exists>cur. ms_lookup (w_store w') (run_ID run) = Some cur \<and> run_Status cur = StatusRunning"
proof -
  let ?run = "run\<lparr>run_Status := StatusRunning, run_NextAttemptAt := 0\<rparr>"
  let ?u = "store_update env memory_store (run_ID run) (start_mutator ?run) ?run w"
  obtain r obs w1 where u: "?u = (r, obs, w1)" by (cases ?u)
  show ?thesis
  proof (cases r)
    case (Inl err)
    with u assms show ?thesis
      by (auto simp: start_def store_save_def memory_store_def Save_def Let_def
          split: if_splits option.splits prod.splits)
  next
    case (Inr started')
    show ?thesis
    proof (cases rule: mem.update_cases [of "w_ctx (env w)" "run_ID run" "start_mutator ?run" ?run "w_store (env w)"])
      case (accept cur upd obs' upd' s')
      with u Inr assms show ?thesis
        by (auto simp: start_def store_update_def start_mutator_def stamped_def Let_def split: if_splits)
    qed (use u Inr in \<open>auto simp: store_update_def Let_def\<close>)
  qed
qed

text \<open>A run starts once: after a start that returned no error, a second start of the same
  run, by any executor on the same store and under any lease owner, fails with the invalid
  transition from running, hands back the stored run and leaves the store as it was.
\<close>

theorem run_starts_once:
  assumes "ex_store e = Some memory_store" and "start env e run w = ((started, None), w1)"
    and "ex_store e2 = Some memory_store" and "run_ID run2 = run_ID run"
    and "w_store (env2 w1) = w_store w1" and "w_ctx (env2 w1) = None"
  shows "\<exists>cur w2. ms_lookup (w_store w1) (run_ID run) = Some cur
    \<and> start env2 e2 run2 w1
        = ((cur, Some (InvalidTransitionError StatusRunning StatusRunning ''run'')), w2)
    \<and> w_store w2 = w_store w1"
proof -
  from start_running [OF assms(1,2)] obtain cur where
    cur: "ms_lookup (w_store w1) (run_ID run) = Some cur" "run_Status cur = StatusRunning" by blast
  let ?run = "run2\<lparr>run_Status := StatusRunning, run_NextAttemptAt := 0\<rparr>"
  have "start_mutator ?run cur ?run
      = (Inl (InvalidTransitionError StatusRunning StatusRunning ''run''), cur)"
    by (simp add: start_mutator_def cur)
  from mem_update_reject [where env = env2 and f = "start_mutator ?run" and obs = ?run, OF assms(6) _ this]
    cur assms(3-5) show ?thesis
    by (auto simp: start_def is_ErrRunNotFound_def Let_def)
qed

theorem run_starts_once_witness:
  "\<exists>cur w1 w2. start (\<lambda>w. w) demo_exec demo_pending demo_world = ((cur, None), w1)
    \<and> start (\<lambda>w. w) demo_retrying (demo_pending\<lparr>run_LeaseOwner := ''w9''\<rparr>) w1
        = ((cur, Some (InvalidTransitionError StatusRunning StatusRunning ''run'')), w2)
    \<and> w_store w2 = w_store w1"
proof -
  obtain cur w1 where s: "start (\<lambda>w. w) demo_exec demo_pending demo_world = ((cur, None), w1)"
    and l: "ms_lookup (w_store w1) ''p'' = Some cur" and c: "w_ctx w1 = None"
    by (simp add: demo_run_defs NewExecutor_def demo_defs start_def store_update_def memory_store_def
        Update_def start_mutator_def Let_def)
  have "ex_store demo_exec = Some memory_store" "ex_store demo_retrying = Some memory_store"
    by (simp_all add: demo_exec_def demo_retrying_def NewExecutor_def WithRetryPolicy_def)
  from run_starts_once [OF this(1) s this(2), of "demo_pending\<lparr>run_LeaseOwner := ''w9''\<rparr>" "\<lambda>w. w"] s l c
  show ?thesis by (auto simp: demo_pending_def zero_run_def)
qed

text \<open>
  Only a run that waits for approval is resumed: \<open>Approve\<close> and \<open>Continue\<close> on a run in
  any other status return the stored run with the invalid transition, execute no step and leave
  the store as it was.
\<close>

theorem resume_only_waiting:
  assumes "ex_store e = Some memory_store" and "w_ctx (env w) = None"
    and "ms_lookup (w_store (env w)) i = Some cur" and "run_Status cur \<noteq> StatusWaitingApproval"
    and "w' = (env w)\<lparr>w_tick := Suc (w_tick (env w))\<rparr>"
  shows "Approve env e i approval w
      = Some ((cur, Some (InvalidTransitionError (run_Status cur) StatusRunning ''approve'')), w')
    \<and> Continue env e i w
      = Some ((cur, Some (InvalidTransitionError (run_Status cur) StatusRunning ''continue'')), w')"
proof -
  have "resumeWaiting env e i op f w
      = Some ((cur, Some (InvalidTransitionError (run_Status cur) StatusRunning op)), w')" for op f
    using mem_update_reject [where env = env and f = "resume_mutator op f" and obs = zero_run,
        OF assms(2,3), of "InvalidTransitionError (run_Status cur) StatusRunning op" cur] assms(1,4,5)
    by (simp add: resumeWaiting_def resume_mutator_def)
  then show ?thesis by (simp add: Approve_def Continue_def)
qed

theorem resume_only_waiting_witness:
  "Approve (\<lambda>w. w) demo_exec ''r'' \<lparr>ap_AuditRef = ''a'', ap_Metadata = []\<rparr> demo_world
      = Some ((demo_running, Some (InvalidTransitionError StatusRunning StatusRunning ''approve'')),
          demo_world\<lparr>w_tick := 1\<rparr>)"
proof -
  have "ex_store demo_exec = Some memory_store" "w_ctx demo_world = None"
    "ms_lookup (w_store demo_world) ''r'' = Some demo_running"
    "run_Status demo_running = StatusRunning" "w_tick demo_world = 0"
    by (simp_all add: demo_run_defs NewExecutor_def demo_defs)
  then show ?thesis
    using resume_only_waiting [of demo_exec "\<lambda>w. w" demo_world "''r''" demo_running] by simp
qed

text \<open>Property C5. Cancelling is final: after \<open>Cancel\<close> succeeded the run is stored as cancelled with the
  reason as its error, and an executor that was running it is preempted at its next write; a
  second \<open>Cancel\<close> and a resume are refused.
\<close>

theorem cancel_is_final:
  assumes "ex_store e = Some memory_store" and "Cancel env e i reason w = ((run, None), w1)"
    and "w_store (env2 w1) = w_store w1" and "w_ctx (env2 w1) = None"
    and "ex_store e2 = Some memory_store" and "run_ID run2 = i"
  shows "ms_lookup (w_store w1) i = Some run \<and> run_Status run = StatusCancelled \<and> run_Error run = reason
    \<and> fst (Cancel env2 e2 i reason2 w1)
        = (run, Some (InvalidTransitionError StatusCancelled StatusCancelled ''cancel''))
    \<and> fst (save env2 e2 run2 w1) = Some (runPreemptedError run)
    \<and> map_option fst (Continue env2 e2 i w1)
        = Some (run, Some (InvalidTransitionError StatusCancelled StatusRunning ''continue''))"
proof -
  have r: "ms_lookup (w_store w1) i = Some run" "run_Status run = StatusCancelled" "run_Error run = reason"
  proof (atomize (full), cases rule: mem.update_cases
      [of "w_ctx (env w)" i "cancel_mutator reason" zero_run "w_store (env w)"])
    case (accept cur upd obs' upd' s')
    with assms(1,2) show "ms_lookup (w_store w1) i = Some run \<and> run_Status run = StatusCancelled
        \<and> run_Error run = reason"
      by (auto simp: Cancel_def store_update_def cancel_mutator_def stamped_def Let_def split: if_splits)
  qed (use assms(1,2) in \<open>auto simp: Cancel_def store_update_def Let_def\<close>)
  let ?err = "InvalidTransitionError StatusCancelled StatusCancelled ''cancel''"
  from r(1) assms(3) have l: "ms_lookup (w_store (env2 w1)) i = Some run" by simp
  have "cancel_mutator reason2 run zero_run = (Inl ?err, run)"
    by (simp add: cancel_mutator_def isTerminal_def r)
  from mem_update_reject [where env = env2 and f = "cancel_mutator reason2" and obs = zero_run,
      OF assms(4) l this]
  have c: "fst (Cancel env2 e2 i reason2 w1) = (run, Some ?err)" using assms(5) by (simp add: Cancel_def)
  have "save env2 e2 run2 w1 = (Some (runPreemptedError run), (env2 w1)\<lparr>w_tick := Suc (w_tick (env2 w1))\<rparr>)"
    using assms(4-6) r l by (intro mem.save_preempted) simp_all
  moreover have "resume_mutator ''continue'' (\<lambda>run. run) run zero_run
      = (Inl (InvalidTransitionError StatusCancelled StatusRunning ''continue''), run)"
    by (simp add: resume_mutator_def r)
  from mem_update_reject [where env = env2 and f = "resume_mutator ''continue'' (\<lambda>run. run)" and obs = zero_run,
      OF assms(4) l this]
  have "map_option fst (Continue env2 e2 i w1)
        = Some (run, Some (InvalidTransitionError StatusCancelled StatusRunning ''continue''))"
    using assms(5) by (simp add: Continue_def resumeWaiting_def)
  ultimately show ?thesis using r c by simp
qed

theorem cancel_is_final_witness:
  "\<exists>run w1. Cancel (\<lambda>w. w) demo_exec ''r'' ''stop'' demo_world = ((run, None), w1)
    \<and> ms_lookup (w_store w1) ''r'' = Some run \<and> run_Status run = StatusCancelled
    \<and> fst (save (\<lambda>w. w) demo_exec demo_running w1) = Some (runPreemptedError run)"
proof -
  obtain run w1 where s: "Cancel (\<lambda>w. w) demo_exec ''r'' ''stop'' demo_world = ((run, None), w1)"
    and c: "w_ctx w1 = None"
    by (simp add: demo_run_defs NewExecutor_def demo_defs Cancel_def store_update_def memory_store_def
        Update_def cancel_mutator_def isTerminal_def Let_def)
  have e: "ex_store demo_exec = Some memory_store" "run_ID demo_running = ''r''"
    by (simp_all add: demo_exec_def NewExecutor_def demo_defs)
  from cancel_is_final [where ?env2.0 = "\<lambda>w. w", OF e(1) s refl c e] s show ?thesis by blast
qed

end
