(* ===== verification/LLM_Routing.thy ===== *)
theory LLM_Routing
  imports GoPrelude
begin

text \<open>
  \<open>llmkit/profile.go\<close>, \<open>llmkit/capability.go\<close> and \<open>llmkit/policy.go\<close>: task profiles, model
  capabilities and the deterministic route selection with its optional load spreading. The string
  enumerations are datatypes with a constructor for every other string; a \<open>float64\<close> is a rational,
  so the reliability score is computed without rounding errors. The clock of the policy is a field
  that holds its value during the call, the random source is a function of the call's number.
\<close>

section \<open>Task profiles\<close>

datatype Complexity = ComplexitySimple | ComplexityMedium | ComplexityHard | ComplexityOther string

datatype LatencyRequirement = LatencyNone | LatencyNormal | LatencyUrgent | LatencyOther string

datatype FailureCost = FailureCostLow | FailureCostMedium | FailureCostHigh | FailureCostOther string

datatype PrivacyLevel =
  PrivacyLocalPreferred | PrivacyCloudAllowed | PrivacyLocalOnly | PrivacyOther string

datatype ProfileSource = ProfileSourceDefault | ProfileSourceHost | ProfileSourceOther string

record TaskProfile =
  tp_TaskType :: string
  tp_Source :: ProfileSource
  tp_Complexity :: Complexity
  tp_Latency :: LatencyRequirement
  tp_FailureCost :: FailureCost
  tp_Privacy :: PrivacyLevel
  tp_MaxEstimatedCents :: int
  tp_NeedsReasoning :: bool
  tp_NeedsTools :: bool
  tp_NeedsJSON :: bool
  tp_NeedsLongContext :: bool

definition DefaultTaskProfile :: TaskProfile where
  "DefaultTaskProfile = \<lparr>tp_TaskType = '''', tp_Source = ProfileSourceDefault,
     tp_Complexity = ComplexityMedium, tp_Latency = LatencyNormal,
     tp_FailureCost = FailureCostMedium, tp_Privacy = PrivacyCloudAllowed, tp_MaxEstimatedCents = 0,
     tp_NeedsReasoning = False, tp_NeedsTools = False, tp_NeedsJSON = False,
     tp_NeedsLongContext = False\<rparr>"

section \<open>Model capabilities\<close>

datatype PriceClass = PriceFree | PriceLow | PriceMedium | PriceHigh | PriceOther string

datatype CapabilityLevel =
  CapabilitySimple | CapabilityBalanced | CapabilityAdvanced | CapabilityOther string

datatype ContextWindowClass = ContextShort | ContextMedium | ContextLong | ContextOther string

datatype LatencyClass =
  LatencySlowClass | LatencyNormalClass | LatencyFastClass | LatencyOtherClass string

record ModelCapability =
  mc_Alias :: string
  mc_Provider :: string
  mc_IsLocal :: bool
  mc_CapabilityLevel :: CapabilityLevel
  mc_SupportsTools :: bool
  mc_SupportsJSON :: bool
  mc_ContextWindowClass :: ContextWindowClass
  mc_PriceClass :: PriceClass
  mc_LatencyClass :: LatencyClass
  mc_EstimatedCents :: int
  mc_MaxConcurrency :: int
  mc_CurrentConcurrency :: int
  mc_RecentOutcomes :: rat
  mc_RecentFailures :: rat
  mc_RecentFailureRate :: rat
  mc_RecentLatencyMillis :: int

fun capabilityRank :: "CapabilityLevel \<Rightarrow> int" where
  "capabilityRank CapabilityAdvanced = 3"
| "capabilityRank CapabilityBalanced = 2"
| "capabilityRank CapabilitySimple = 1"
| "capabilityRank (CapabilityOther _) = 0"

fun contextRank :: "ContextWindowClass \<Rightarrow> int" where
  "contextRank ContextLong = 3"
| "contextRank ContextMedium = 2"
| "contextRank ContextShort = 1"
| "contextRank (ContextOther _) = 0"

fun requiredCapabilityRank :: "Complexity \<Rightarrow> int" where
  "requiredCapabilityRank ComplexityHard = capabilityRank CapabilityAdvanced"
| "requiredCapabilityRank ComplexityMedium = capabilityRank CapabilityBalanced"
| "requiredCapabilityRank _ = capabilityRank CapabilitySimple"

definition Matches :: "ModelCapability \<Rightarrow> TaskProfile \<Rightarrow> bool" where
  "Matches m profile =
     (if tp_Privacy profile = PrivacyLocalOnly \<and> \<not> mc_IsLocal m then False
      else if tp_NeedsJSON profile \<and> \<not> mc_SupportsJSON m then False
      else if tp_NeedsTools profile \<and> \<not> mc_SupportsTools m then False
      else if tp_NeedsLongContext profile
           \<and> contextRank (mc_ContextWindowClass m) < contextRank ContextLong then False
      else if capabilityRank (mc_CapabilityLevel m) < requiredCapabilityRank (tp_Complexity profile)
      then False
      else if mc_MaxConcurrency m > 0 \<and> mc_CurrentConcurrency m \<ge> mc_MaxConcurrency m then False
      else True)"

section \<open>Candidates and policies\<close>

datatype ProviderAvailability =
  ProviderAvailable | ProviderDegraded | ProviderUnavailable | ProviderOther string

definition normalizedAvailability :: "ProviderAvailability \<Rightarrow> ProviderAvailability" where
  "normalizedAvailability a = (if a = ProviderOther '''' then ProviderAvailable else a)"

record Candidate =
  cd_Model :: ModelCapability
  cd_AccountAlias :: string
  cd_AccountRateLimited :: bool
  cd_AccountMaxConcurrency :: int
  cd_AccountCurrentConcurrency :: int
  cd_ProviderAvailability :: ProviderAvailability
  cd_ProviderInFlight :: int
  cd_ProviderMaxConcurrency :: int
  cd_ProviderQuotaRemaining :: int
  cd_ProviderQuotaExhausted :: bool
  cd_ProviderFailureStreak :: int
  cd_ProviderCooldownUntil :: time

record CandidateScore =
  cs_Alias :: string
  cs_AccountAlias :: string
  cs_Available :: bool
  cs_Score :: int
  cs_ScoreBreakdown :: "(string, int) gomap"
  cs_Reason :: string

record RouteDecision =
  rd_Selected :: Candidate
  rd_SelectedAlias :: string
  rd_Score :: int
  rd_ScoreBreakdown :: "(string, int) gomap"
  rd_Reason :: string
  rd_Candidates :: "CandidateScore list"

record LoadSpread =
  ls_ScoreTolerance :: int
  ls_Rand :: "nat \<Rightarrow> int \<Rightarrow> int"

record RoutePolicy =
  pol_Now :: time
  pol_LoadSpread :: "LoadSpread option"

record scoredCandidate =
  sc_candidate :: Candidate
  sc_score :: CandidateScore

section \<open>Hard filters\<close>

definition unavailableReason :: "RoutePolicy \<Rightarrow> TaskProfile \<Rightarrow> Candidate \<Rightarrow> string" where
  "unavailableReason p profile c =
     (if cd_AccountRateLimited c then ''account is rate limited''
      else if cd_AccountMaxConcurrency c > 0
           \<and> cd_AccountCurrentConcurrency c \<ge> cd_AccountMaxConcurrency c
      then ''account concurrency is full''
      else if cd_ProviderCooldownUntil c \<noteq> 0 \<and> pol_Now p < cd_ProviderCooldownUntil c
      then ''provider is in cooldown''
      else if cd_ProviderAvailability c = ProviderUnavailable \<and> cd_ProviderCooldownUntil c = 0
      then ''provider is unavailable''
      else if cd_ProviderAvailability c = ProviderUnavailable \<and> cd_ProviderInFlight c > 0
      then ''provider recovery probe is in flight''
      else if cd_ProviderQuotaExhausted c \<or> cd_ProviderQuotaRemaining c < 0
      then ''provider quota is exhausted''
      else if cd_ProviderMaxConcurrency c > 0 \<and> cd_ProviderInFlight c \<ge> cd_ProviderMaxConcurrency c
      then ''provider concurrency is full''
      else if tp_MaxEstimatedCents profile > 0
           \<and> mc_EstimatedCents (cd_Model c) > tp_MaxEstimatedCents profile
      then ''estimated cost exceeds task budget''
      else if \<not> Matches (cd_Model c) profile then ''model does not match task requirements''
      else '''')"

section \<open>Scores\<close>

definition capabilityScore :: "TaskProfile \<Rightarrow> ModelCapability \<Rightarrow> int" where
  "capabilityScore profile m =
     (let score = capabilityRank (mc_CapabilityLevel m) * 6;
          score = (if tp_FailureCost profile = FailureCostHigh
                   then score + capabilityRank (mc_CapabilityLevel m) * 8 else score)
      in if tp_NeedsReasoning profile then score + capabilityRank (mc_CapabilityLevel m) * 4 else score)"

fun priceScore :: "PriceClass \<Rightarrow> int" where
  "priceScore PriceFree = 30"
| "priceScore PriceLow = 20"
| "priceScore PriceMedium = 10"
| "priceScore PriceHigh = 0"
| "priceScore (PriceOther _) = 0"

definition localScore :: "TaskProfile \<Rightarrow> ModelCapability \<Rightarrow> int" where
  "localScore profile m =
     (if \<not> mc_IsLocal m then 0
      else case tp_Privacy profile of
          PrivacyLocalPreferred \<Rightarrow> 15 | PrivacyLocalOnly \<Rightarrow> 5 | _ \<Rightarrow> 3)"

definition effectiveLatencyClass :: "ModelCapability \<Rightarrow> LatencyClass" where
  "effectiveLatencyClass m =
     (if mc_RecentLatencyMillis m \<le> 0 then mc_LatencyClass m
      else if mc_RecentLatencyMillis m \<le> 2000 then LatencyFastClass
      else if mc_RecentLatencyMillis m \<le> 10000 then LatencyNormalClass
      else LatencySlowClass)"

definition latencyScore :: "TaskProfile \<Rightarrow> ModelCapability \<Rightarrow> int" where
  "latencyScore profile m = (case tp_Latency profile of
      LatencyUrgent \<Rightarrow> (case effectiveLatencyClass m of
          LatencyFastClass \<Rightarrow> 20 | LatencyNormalClass \<Rightarrow> 10 | _ \<Rightarrow> 0)
    | LatencyNormal \<Rightarrow> (case effectiveLatencyClass m of
          LatencyFastClass \<Rightarrow> 10 | LatencyNormalClass \<Rightarrow> 5 | _ \<Rightarrow> 0)
    | _ \<Rightarrow> 0)"

text \<open>\<open>math.Round\<close>: to the nearest integer, halves away from zero.\<close>

definition math_Round :: "rat \<Rightarrow> int" where
  "math_Round x = (if x \<ge> 0 then \<lfloor>x + 1 / 2\<rfloor> else \<lceil>x - 1 / 2\<rceil>)"

definition reliabilityScore :: "ModelCapability \<Rightarrow> int" where
  "reliabilityScore m =
     (if mc_RecentOutcomes m > 0 then
        (let failures = min (mc_RecentFailures m) (mc_RecentOutcomes m);
             rate = (failures + 1 / 2) / (mc_RecentOutcomes m + 10)
         in - math_Round (rate * 100))
      else if mc_RecentFailureRate m > 0 then - math_Round (min (mc_RecentFailureRate m) 1 * 100)
      else - math_Round (100 * (1 / 2) / 10))"

definition healthScore :: "Candidate \<Rightarrow> int" where
  "healthScore c =
     (let score = (case normalizedAvailability (cd_ProviderAvailability c) of
              ProviderAvailable \<Rightarrow> 2 | ProviderDegraded \<Rightarrow> - 20 | ProviderUnavailable \<Rightarrow> - 100 | _ \<Rightarrow> 0)
      in if cd_ProviderFailureStreak c > 0 then score - cd_ProviderFailureStreak c * 10 else score)"

definition scoreCandidate :: "TaskProfile \<Rightarrow> Candidate \<Rightarrow> (string, int) gomap" where
  "scoreCandidate profile c =
     [(''capability'', capabilityScore profile (cd_Model c)),
      (''price'', priceScore (mc_PriceClass (cd_Model c))),
      (''local'', localScore profile (cd_Model c)),
      (''latency'', latencyScore profile (cd_Model c)),
      (''reliability'', reliabilityScore (cd_Model c)),
      (''health'', healthScore c)]"

definition totalScore :: "(string, int) gomap \<Rightarrow> int" where
  "totalScore breakdown = sum_list (map snd breakdown)"

definition selectedReason :: "Candidate \<Rightarrow> int \<Rightarrow> (string, int) gomap \<Rightarrow> string" where
  "selectedReason c tot breakdown =
     (let keys = sort_by (<) (map fst breakdown);
          parts = map (\<lambda>key. key @ ''='' @ itoa (case map_of breakdown key of None \<Rightarrow> 0 | Some v \<Rightarrow> v)) keys
      in ''selected '' @ mc_Alias (cd_Model c) @ '' with score '' @ itoa tot
         @ '' ('' @ string_join '', '' parts @ '')'')"

definition copyBreakdown :: "(string, int) gomap \<Rightarrow> (string, int) gomap" where
  "copyBreakdown m = map_write_all [] m"

definition stableCandidateKey :: "Candidate \<Rightarrow> string" where
  "stableCandidateKey c = string_join [CHR 0x00]
     [mc_Alias (cd_Model c), cd_AccountAlias c, mc_Provider (cd_Model c)]"

section \<open>Selection\<close>

text \<open>The body of the loop over the candidates: the trace of a candidate.\<close>

definition score_entry :: "RoutePolicy \<Rightarrow> TaskProfile \<Rightarrow> Candidate \<Rightarrow> CandidateScore" where
  "score_entry p profile c =
     (let reason = unavailableReason p profile c
      in if reason \<noteq> '''' then
           \<lparr>cs_Alias = mc_Alias (cd_Model c), cs_AccountAlias = cd_AccountAlias c, cs_Available = False,
            cs_Score = 0, cs_ScoreBreakdown = [], cs_Reason = reason\<rparr>
         else
           (let breakdown = scoreCandidate profile c; tot = totalScore breakdown
            in \<lparr>cs_Alias = mc_Alias (cd_Model c), cs_AccountAlias = cd_AccountAlias c,
                cs_Available = True, cs_Score = tot, cs_ScoreBreakdown = breakdown,
                cs_Reason = selectedReason c tot breakdown\<rparr>))"

definition ranked_before :: "scoredCandidate \<Rightarrow> scoredCandidate \<Rightarrow> bool" where
  "ranked_before a b =
     (if cs_Score (sc_score a) \<noteq> cs_Score (sc_score b)
      then cs_Score (sc_score a) > cs_Score (sc_score b)
      else stableCandidateKey (sc_candidate a) < stableCandidateKey (sc_candidate b))"

text \<open>The number of near-best candidates: the loop that grows \<open>pool\<close>.\<close>

definition spread_pool :: "LoadSpread \<Rightarrow> scoredCandidate list \<Rightarrow> nat" where
  "spread_pool l ranked = 1 + length (takeWhile (\<lambda>sc.
     cs_Score (sc_score sc) \<ge> cs_Score (sc_score (hd ranked)) - max (ls_ScoreTolerance l) 0) (tl ranked))"

text \<open>The two draws, the second moved past the first.\<close>

definition draw_pair :: "LoadSpread \<Rightarrow> nat \<Rightarrow> int \<times> int" where
  "draw_pair l pool =
     (let first = ls_Rand l 0 (int pool);
          second = ls_Rand l 1 (int pool - 1)
      in (first, if second \<ge> first then second + 1 else second))"

definition less_loaded :: "scoredCandidate \<Rightarrow> scoredCandidate \<Rightarrow> scoredCandidate \<times> scoredCandidate" where
  "less_loaded chosen other =
     (if cd_ProviderInFlight (sc_candidate other) < cd_ProviderInFlight (sc_candidate chosen)
      then (other, chosen) else (chosen, other))"

definition spread_reason :: "nat \<Rightarrow> scoredCandidate \<Rightarrow> scoredCandidate \<Rightarrow> string" where
  "spread_reason pool chosen other = cs_Reason (sc_score chosen) @ ''; load spread over ''
     @ itoa (int pool) @ '' near-best candidates chose it over ''
     @ mc_Alias (cd_Model (sc_candidate other)) @ '' (in flight ''
     @ itoa (cd_ProviderInFlight (sc_candidate chosen)) @ '' vs ''
     @ itoa (cd_ProviderInFlight (sc_candidate other)) @ '')''"

definition choose_candidate :: "LoadSpread \<Rightarrow> scoredCandidate list \<Rightarrow> (scoredCandidate \<times> string) option" where
  "choose_candidate l ranked =
     (let pool = spread_pool l ranked
      in if pool < 2 then Some (hd ranked, cs_Reason (sc_score (hd ranked)))
         else case draw_pair l pool of (first, second) \<Rightarrow>
           (case (go_index ranked first, go_index ranked second) of
              (Some a, Some b) \<Rightarrow> (case less_loaded a b of (chosen, other) \<Rightarrow>
                Some (chosen, spread_reason pool chosen other))
            | _ \<Rightarrow> None))"

definition available_candidates :: "RoutePolicy \<Rightarrow> TaskProfile \<Rightarrow> Candidate list \<Rightarrow> scoredCandidate list" where
  "available_candidates p profile candidates =
     map (\<lambda>c. \<lparr>sc_candidate = c, sc_score = score_entry p profile c\<rparr>)
       (filter (\<lambda>c. unavailableReason p profile c = '''') candidates)"

definition route_decision ::
  "CandidateScore list \<Rightarrow> scoredCandidate \<Rightarrow> string \<Rightarrow> RouteDecision" where
  "route_decision scored best reason =
     \<lparr>rd_Selected = sc_candidate best, rd_SelectedAlias = mc_Alias (cd_Model (sc_candidate best)),
      rd_Score = cs_Score (sc_score best),
      rd_ScoreBreakdown = copyBreakdown (cs_ScoreBreakdown (sc_score best)),
      rd_Reason = reason, rd_Candidates = scored\<rparr>"

text \<open>The result is an error text or a decision; \<open>None\<close> is a panic in \<open>choose\<close>.\<close>

definition Select :: "RoutePolicy \<Rightarrow> TaskProfile \<Rightarrow> Candidate list \<Rightarrow> (string + RouteDecision) option" where
  "Select p profile candidates =
     (if candidates = [] then Some (Inl ''no available route candidates: candidate list is empty'')
      else
        (let scored = map (score_entry p profile) candidates;
             available = available_candidates p profile candidates
         in if available = []
            then Some (Inl ''no available route candidates: all candidates were filtered out'')
            else
              (let ranked = sort_by ranked_before available
               in case pol_LoadSpread p of
                    None \<Rightarrow> Some (Inr (route_decision scored (hd ranked) (cs_Reason (sc_score (hd ranked)))))
                  | Some l \<Rightarrow> (case choose_candidate l ranked of
                      None \<Rightarrow> None
                    | Some (best, reason) \<Rightarrow> Some (Inr (route_decision scored best reason))))))"

section \<open>Lemmas on ranking\<close>

interpretation ranked: strict_order ranked_before
  by unfold_locales (auto simp: ranked_before_def split: if_splits)

lemma map_write_all_Nil: "wf_map m \<Longrightarrow> map_of (copyBreakdown m) = map_of m"
  unfolding copyBreakdown_def by (rule ext) (simp add: map_write_all_lookup split: option.split)

definition candidate_score :: "TaskProfile \<Rightarrow> Candidate \<Rightarrow> int" where
  "candidate_score profile c = totalScore (scoreCandidate profile c)"

lemma available_entry:
  "sc \<in> set (available_candidates p profile cs) \<Longrightarrow>
     sc_candidate sc \<in> set cs \<and> unavailableReason p profile (sc_candidate sc) = ''''
     \<and> cs_Score (sc_score sc) = candidate_score profile (sc_candidate sc)"
  by (auto simp: available_candidates_def score_entry_def candidate_score_def Let_def)

lemma available_member:
  "c \<in> set cs \<Longrightarrow> unavailableReason p profile c = ''''
    \<Longrightarrow> \<lparr>sc_candidate = c, sc_score = score_entry p profile c\<rparr> \<in> set (available_candidates p profile cs)"
  by (auto simp: available_candidates_def)

lemma available_empty:
  "available_candidates p profile cs = [] \<longleftrightarrow> (\<forall>c \<in> set cs. unavailableReason p profile c \<noteq> '''')"
  by (auto simp: available_candidates_def filter_empty_conv)

lemma hd_ranked_mem:
  "available_candidates p profile cs \<noteq> []
    \<Longrightarrow> hd (sort_by ranked_before (available_candidates p profile cs)) \<in> set (available_candidates p profile cs)"
  by (metis hd_in_set set_sort_by set_empty)

lemma spread_pool_le: "ranked \<noteq> [] \<Longrightarrow> spread_pool l ranked \<le> length ranked"
  using length_takeWhile_le [of _ "tl ranked"] by (cases ranked) (auto simp: spread_pool_def)

lemma spread_pool_near:
  assumes "ranked \<noteq> []" and "i < spread_pool l ranked"
  shows "cs_Score (sc_score (ranked ! i)) \<ge> cs_Score (sc_score (hd ranked)) - max (ls_ScoreTolerance l) 0"
proof (cases i)
  case 0
  with assms(1) show ?thesis by (simp add: hd_conv_nth)
next
  case (Suc j)
  let ?P = "\<lambda>sc. cs_Score (sc_score sc) \<ge> cs_Score (sc_score (hd ranked)) - max (ls_ScoreTolerance l) 0"
  from Suc assms(2) have j: "j < length (takeWhile ?P (tl ranked))" by (simp add: spread_pool_def)
  then have "?P (takeWhile ?P (tl ranked) ! j)" using nth_mem set_takeWhileD by metis
  moreover have "takeWhile ?P (tl ranked) ! j = ranked ! i"
    using j assms(1) Suc by (cases ranked) (auto simp: takeWhile_nth)
  ultimately show ?thesis by simp
qed

text \<open>The draws of a random source that keeps its contract hit two different near-best candidates.\<close>

lemma choose_cases:
  assumes "ranked \<noteq> []" and "\<And>k n. 0 < n \<Longrightarrow> 0 \<le> ls_Rand l k n \<and> ls_Rand l k n < n"
  obtains (single) "choose_candidate l ranked = Some (hd ranked, cs_Reason (sc_score (hd ranked)))"
      "spread_pool l ranked < 2"
  | (two) i j reason where "i < spread_pool l ranked" "j < spread_pool l ranked" "i \<noteq> j"
      "choose_candidate l ranked = Some (ranked ! i, reason)"
      "cd_ProviderInFlight (sc_candidate (ranked ! i)) \<le> cd_ProviderInFlight (sc_candidate (ranked ! j))"
proof (cases "spread_pool l ranked < 2")
  case True
  then show thesis by (intro single) (simp_all add: choose_candidate_def)
next
  case False
  let ?n = "spread_pool l ranked"
  obtain a b where d: "draw_pair l ?n = (a, b)" by fastforce
  have ab: "0 \<le> a" "a < int ?n" "0 \<le> b" "b < int ?n" "a \<noteq> b"
    using assms(2) [of "int ?n" 0] assms(2) [of "int ?n - 1" 1] False d
    by (auto simp: draw_pair_def Let_def split: if_splits)
  with spread_pool_le [OF assms(1), of l] have ix: "go_index ranked a = Some (ranked ! nat a)"
    "go_index ranked b = Some (ranked ! nat b)" by (auto simp: go_index_def)
  have lt: "nat a < ?n" "nat b < ?n" "nat a \<noteq> nat b" using ab by auto
  show thesis
  proof (cases "cd_ProviderInFlight (sc_candidate (ranked ! nat b)) < cd_ProviderInFlight (sc_candidate (ranked ! nat a))")
    case True
    show thesis
      by (rule two [OF lt(2,1) lt(3) [symmetric]])
        (use True False d ix in \<open>simp_all add: choose_candidate_def less_loaded_def\<close>)
  next
    case le: False
    show thesis
      by (rule two [OF lt]) (use le False d ix in \<open>simp_all add: choose_candidate_def less_loaded_def\<close>)
  qed
qed

lemma choose_mem:
  assumes "choose_candidate l ranked = Some (sc, reason)" and "ranked \<noteq> []"
  shows "sc \<in> set ranked"
  using assms
  by (auto simp: choose_candidate_def go_index_def less_loaded_def Let_def
      split: if_splits option.splits prod.splits)

lemma Select_decision:
  assumes "Select p profile cs = Some (Inr d)"
  obtains sc where "sc \<in> set (available_candidates p profile cs)"
    and "rd_Selected d = sc_candidate sc" and "rd_Score d = cs_Score (sc_score sc)"
    and "available_candidates p profile cs \<noteq> []"
    and "pol_LoadSpread p = None \<Longrightarrow> sc = hd (sort_by ranked_before (available_candidates p profile cs))"
proof -
  let ?r = "sort_by ranked_before (available_candidates p profile cs)"
  from assms have ne: "available_candidates p profile cs \<noteq> []" "cs \<noteq> []"
    by (auto simp: Select_def available_candidates_def Let_def split: if_splits)
  show thesis
  proof (cases "pol_LoadSpread p")
    case None
    with assms ne have "d = route_decision (map (score_entry p profile) cs) (hd ?r) (cs_Reason (sc_score (hd ?r)))"
      by (simp add: Select_def Let_def)
    with ne hd_ranked_mem [of p profile cs] show thesis
      by (intro that [of "hd ?r"]) (simp_all add: route_decision_def)
  next
    case (Some l)
    with assms ne obtain sc reason where c: "choose_candidate l ?r = Some (sc, reason)"
      and d: "d = route_decision (map (score_entry p profile) cs) sc reason"
      by (auto simp: Select_def Let_def split: option.splits)
    have "?r \<noteq> []" using ne by (metis length_0_conv length_sort_by)
    with c have "sc \<in> set ?r" by (rule choose_mem)
    with d ne Some show thesis by (intro that [of sc]) (simp_all add: route_decision_def)
  qed
qed

section \<open>Properties of the selection\<close>

definition demo_model :: ModelCapability where
  "demo_model = \<lparr>mc_Alias = ''m'', mc_Provider = ''p'', mc_IsLocal = True,
     mc_CapabilityLevel = CapabilityBalanced, mc_SupportsTools = True, mc_SupportsJSON = True,
     mc_ContextWindowClass = ContextMedium, mc_PriceClass = PriceLow,
     mc_LatencyClass = LatencyNormalClass, mc_EstimatedCents = 5, mc_MaxConcurrency = 2,
     mc_CurrentConcurrency = 0, mc_RecentOutcomes = 10, mc_RecentFailures = 1,
     mc_RecentFailureRate = 0, mc_RecentLatencyMillis = 0\<rparr>"

definition demo_candidate :: Candidate where
  "demo_candidate = \<lparr>cd_Model = demo_model, cd_AccountAlias = ''a'', cd_AccountRateLimited = False,
     cd_AccountMaxConcurrency = 3, cd_AccountCurrentConcurrency = 0,
     cd_ProviderAvailability = ProviderAvailable, cd_ProviderInFlight = 0,
     cd_ProviderMaxConcurrency = 0, cd_ProviderQuotaRemaining = 0, cd_ProviderQuotaExhausted = False,
     cd_ProviderFailureStreak = 0, cd_ProviderCooldownUntil = 0\<rparr>"

definition demo_busy :: Candidate where
  "demo_busy = demo_candidate\<lparr>cd_Model := demo_model\<lparr>mc_Alias := ''n'', mc_PriceClass := PriceMedium\<rparr>,
     cd_ProviderInFlight := 1\<rparr>"

definition demo_policy :: RoutePolicy where
  "demo_policy = \<lparr>pol_Now = 100, pol_LoadSpread = None\<rparr>"

lemmas demo_route_defs = demo_model_def demo_candidate_def demo_busy_def demo_policy_def
  DefaultTaskProfile_def

lemma demo_available:
  "unavailableReason demo_policy DefaultTaskProfile demo_candidate = ''''"
  "unavailableReason demo_policy DefaultTaskProfile demo_busy = ''''"
  by (simp_all add: demo_route_defs unavailableReason_def Matches_def)

text \<open>Selection never breaks a hard filter, with or without load spreading: the selected
  candidate is one of the given ones, its account is not rate limited, its provider is neither in
  cooldown nor out of quota, it matches the profile, so a task that must stay local is never sent
  to a cloud model, and its cost is within the task's budget.
\<close>

theorem select_respects_filters:
  assumes "Select p profile candidates = Some (Inr d)" and "c = rd_Selected d"
  shows "c \<in> set candidates \<and> \<not> cd_AccountRateLimited c
    \<and> (cd_ProviderCooldownUntil c = 0 \<or> cd_ProviderCooldownUntil c \<le> pol_Now p)
    \<and> \<not> cd_ProviderQuotaExhausted c \<and> Matches (cd_Model c) profile
    \<and> (tp_Privacy profile = PrivacyLocalOnly \<longrightarrow> mc_IsLocal (cd_Model c))
    \<and> (tp_MaxEstimatedCents profile > 0 \<longrightarrow> mc_EstimatedCents (cd_Model c) \<le> tp_MaxEstimatedCents profile)
    \<and> rd_Score d = totalScore (scoreCandidate profile c)"
proof -
  from assms(1) obtain sc where sc: "sc \<in> set (available_candidates p profile candidates)"
    "rd_Selected d = sc_candidate sc" "rd_Score d = cs_Score (sc_score sc)"
    by (rule Select_decision)
  from available_entry [OF sc(1)] sc assms(2) have m: "c \<in> set candidates"
    and u: "unavailableReason p profile c = ''''" and s: "rd_Score d = totalScore (scoreCandidate profile c)"
    by (auto simp: candidate_score_def)
  have "\<not> cd_AccountRateLimited c" "cd_ProviderCooldownUntil c = 0 \<or> cd_ProviderCooldownUntil c \<le> pol_Now p"
    "\<not> cd_ProviderQuotaExhausted c" and mt: "Matches (cd_Model c) profile"
    and "tp_MaxEstimatedCents profile > 0 \<longrightarrow> mc_EstimatedCents (cd_Model c) \<le> tp_MaxEstimatedCents profile"
    using u by (auto simp: unavailableReason_def split: if_splits)
  moreover have "tp_Privacy profile = PrivacyLocalOnly \<longrightarrow> mc_IsLocal (cd_Model c)"
    using mt by (auto simp: Matches_def split: if_splits)
  ultimately show ?thesis using m s by blast
qed

lemma demo_select:
  "\<exists>d. Select demo_policy DefaultTaskProfile [demo_busy, demo_candidate] = Some (Inr d)"
  using demo_available by (simp add: Select_def available_candidates_def demo_policy_def Let_def)

theorem select_respects_filters_witness:
  "\<exists>d. Select demo_policy DefaultTaskProfile [demo_busy, demo_candidate] = Some (Inr d)
    \<and> Matches (cd_Model (rd_Selected d)) DefaultTaskProfile"
  using demo_select select_respects_filters by blast

text \<open>Without load spreading the best candidate is selected: no available candidate has a
  higher score, and among those with the same score none has a smaller stable key; an error is
  returned exactly when no candidate passes the hard filters.
\<close>

theorem select_best:
  assumes "pol_LoadSpread p = None"
  shows "((\<exists>err. Select p profile candidates = Some (Inl err))
      \<longleftrightarrow> (\<forall>c \<in> set candidates. unavailableReason p profile c \<noteq> ''''))
    \<and> (\<forall>d c. Select p profile candidates = Some (Inr d) \<longrightarrow> c \<in> set candidates
        \<longrightarrow> unavailableReason p profile c = ''''
        \<longrightarrow> totalScore (scoreCandidate profile c) < rd_Score d
          \<or> totalScore (scoreCandidate profile c) = rd_Score d
            \<and> stableCandidateKey (rd_Selected d) \<le> stableCandidateKey c)"
proof (intro conjI allI impI)
  show "(\<exists>err. Select p profile candidates = Some (Inl err))
      \<longleftrightarrow> (\<forall>c \<in> set candidates. unavailableReason p profile c \<noteq> '''')"
    using assms available_empty [of p profile candidates]
    by (cases "candidates = []") (auto simp: Select_def Let_def)
next
  fix d c
  assume s: "Select p profile candidates = Some (Inr d)" and c: "c \<in> set candidates"
    "unavailableReason p profile c = ''''"
  let ?av = "available_candidates p profile candidates"
  let ?sc = "\<lparr>sc_candidate = c, sc_score = score_entry p profile c\<rparr>"
  from s assms obtain sc where sc: "sc \<in> set ?av" "rd_Selected d = sc_candidate sc"
    "rd_Score d = cs_Score (sc_score sc)" "sc = hd (sort_by ranked_before ?av)"
    by (auto elim: Select_decision)
  have m: "?sc \<in> set ?av" using c by (rule available_member)
  from ranked.hd_sort_by_least [OF m] have "\<not> ranked_before ?sc sc" by (simp add: sc(4))
  with available_entry [OF m] sc show "totalScore (scoreCandidate profile c) < rd_Score d
      \<or> totalScore (scoreCandidate profile c) = rd_Score d
        \<and> stableCandidateKey (rd_Selected d) \<le> stableCandidateKey c"
    by (auto simp: ranked_before_def candidate_score_def split: if_splits)
qed

theorem select_best_witness:
  "\<exists>d. Select demo_policy DefaultTaskProfile [demo_busy, demo_candidate] = Some (Inr d)
    \<and> (totalScore (scoreCandidate DefaultTaskProfile demo_candidate) < rd_Score d
      \<or> totalScore (scoreCandidate DefaultTaskProfile demo_candidate) = rd_Score d
        \<and> stableCandidateKey (rd_Selected d) \<le> stableCandidateKey demo_candidate)"
proof -
  have "pol_LoadSpread demo_policy = None" by (simp add: demo_policy_def)
  from select_best [OF this, of DefaultTaskProfile "[demo_busy, demo_candidate]"] demo_select demo_available
  show ?thesis by auto
qed

text \<open>
  The selection does not depend on the order in which the candidates are listed, if
  no two of them share the stable key.
\<close>

theorem select_order_independent:
  assumes "pol_LoadSpread p = None" and "mset candidates = mset candidates'"
    and "inj_on stableCandidateKey (set candidates)"
    and "Select p profile candidates = Some (Inr d)"
  shows "\<exists>d'. Select p profile candidates' = Some (Inr d') \<and> rd_Selected d' = rd_Selected d
    \<and> rd_Score d' = rd_Score d \<and> rd_Reason d' = rd_Reason d"
proof -
  let ?av = "available_candidates p profile candidates"
  let ?av' = "available_candidates p profile candidates'"
  have m: "mset ?av = mset ?av'" using assms(2) by (simp add: available_candidates_def)
  have "sort_by ranked_before ?av = sort_by ranked_before ?av'"
  proof (rule ranked.sort_unique [OF m])
    fix a b assume ab: "a \<in> set ?av" "b \<in> set ?av" "\<not> ranked_before a b" "\<not> ranked_before b a"
    then have "stableCandidateKey (sc_candidate a) = stableCandidateKey (sc_candidate b)"
      by (auto simp: ranked_before_def split: if_splits)
    with assms(3) available_entry [OF ab(1)] available_entry [OF ab(2)]
    have "sc_candidate a = sc_candidate b" by (meson inj_onD)
    with ab(1,2) show "a = b" by (auto simp: available_candidates_def)
  qed
  moreover from assms(4) have "candidates \<noteq> []" "?av \<noteq> []"
    by (auto simp: Select_def Let_def split: if_splits)
  moreover from this m assms(2) have "candidates' \<noteq> []" "?av' \<noteq> []" by (auto simp flip: mset_zero_iff)
  ultimately show ?thesis using assms(1,4) by (auto simp: Select_def Let_def route_decision_def)
qed

theorem select_order_independent_witness:
  "\<exists>d d'. Select demo_policy DefaultTaskProfile [demo_busy, demo_candidate] = Some (Inr d)
    \<and> Select demo_policy DefaultTaskProfile [demo_candidate, demo_busy] = Some (Inr d')
    \<and> rd_Selected d' = rd_Selected d"
proof -
  from demo_select obtain d where
    d: "Select demo_policy DefaultTaskProfile [demo_busy, demo_candidate] = Some (Inr d)" by blast
  have "pol_LoadSpread demo_policy = None"
    "mset [demo_busy, demo_candidate] = mset [demo_candidate, demo_busy]"
    "inj_on stableCandidateKey (set [demo_busy, demo_candidate])"
    by (simp_all add: demo_route_defs stableCandidateKey_def)
  from select_order_independent [OF this d] d show ?thesis by blast
qed

text \<open>Load spreading stays near the best: with a random source that draws from \<open>[0, n)\<close>,
  a selection never panics, the selected candidate passes the hard filters and scores at most the
  tolerance below every available candidate.
\<close>

theorem load_spread_near_best:
  assumes "pol_LoadSpread p = Some l" and "\<And>k n. 0 < n \<Longrightarrow> 0 \<le> ls_Rand l k n \<and> ls_Rand l k n < n"
    and "c \<in> set candidates" and "unavailableReason p profile c = ''''"
  shows "\<exists>d. Select p profile candidates = Some (Inr d)
    \<and> unavailableReason p profile (rd_Selected d) = ''''
    \<and> totalScore (scoreCandidate profile c) - max (ls_ScoreTolerance l) 0 \<le> rd_Score d"
proof -
  let ?av = "available_candidates p profile candidates" and ?m = "\<lparr>sc_candidate = c, sc_score = score_entry p profile c\<rparr>"
  let ?r = "sort_by ranked_before ?av"
  have m: "?m \<in> set ?av" using assms(3,4) by (rule available_member)
  then have "set ?r \<noteq> {}" by auto
  then have ne: "?r \<noteq> []" by blast
  obtain i reason where i: "i < spread_pool l ?r" "choose_candidate l ?r = Some (?r ! i, reason)"
  proof (rule choose_cases [where l = l, OF ne assms(2)])
    assume "choose_candidate l ?r = Some (hd ?r, cs_Reason (sc_score (hd ?r)))" "spread_pool l ?r < 2"
    with that [of 0] ne show thesis by (simp add: hd_conv_nth spread_pool_def)
  qed (use that in blast)+
  with spread_pool_le [OF ne, of l] have "?r ! i \<in> set ?r" by (intro nth_mem) simp
  then have mem: "?r ! i \<in> set ?av" by (metis set_sort_by)
  from ranked.hd_sort_by_least [OF m] have
    "cs_Score (sc_score ?m) \<le> cs_Score (sc_score (hd ?r))"
    by (auto simp: ranked_before_def split: if_splits)
  with spread_pool_near [OF ne i(1)] available_entry [OF m] have
    "totalScore (scoreCandidate profile c) - max (ls_ScoreTolerance l) 0 \<le> cs_Score (sc_score (?r ! i))"
    by (simp add: candidate_score_def)
  moreover have "Select p profile candidates
      = Some (Inr (route_decision (map (score_entry p profile) candidates) (?r ! i) reason))"
    using assms(1,3) i(2) m by (auto simp: Select_def Let_def)
  ultimately show ?thesis using available_entry [OF mem] by (auto simp: route_decision_def)
qed

theorem load_spread_near_best_witness:
  "\<exists>d. Select (demo_policy\<lparr>pol_LoadSpread := Some \<lparr>ls_ScoreTolerance = 15, ls_Rand = (\<lambda>k n. n - 1)\<rparr>\<rparr>)
        DefaultTaskProfile [demo_busy, demo_candidate] = Some (Inr d)
    \<and> totalScore (scoreCandidate DefaultTaskProfile demo_candidate) - 15 \<le> rd_Score d"
proof -
  let ?l = "\<lparr>ls_ScoreTolerance = 15, ls_Rand = (\<lambda>k n. n - 1)\<rparr>"
  have "unavailableReason (demo_policy\<lparr>pol_LoadSpread := Some ?l\<rparr>) DefaultTaskProfile demo_candidate = ''''"
    by (simp add: demo_route_defs unavailableReason_def Matches_def)
  with load_spread_near_best [of "demo_policy\<lparr>pol_LoadSpread := Some ?l\<rparr>" ?l demo_candidate
      "[demo_busy, demo_candidate]" DefaultTaskProfile]
  show ?thesis by auto
qed

lemma math_Round_mono: "x \<le> y \<Longrightarrow> math_Round x \<le> math_Round y"
proof -
  assume "x \<le> y"
  moreover have "\<lceil>x - 1 / 2\<rceil> \<le> \<lfloor>y + 1 / 2\<rfloor>" if "x < 0" "0 \<le> y"
  proof -
    have "\<lceil>x - 1 / 2\<rceil> \<le> 0" using that by (simp add: ceiling_le_iff)
    moreover have "0 \<le> \<lfloor>y + 1 / 2\<rfloor>" using that by simp
    ultimately show ?thesis by linarith
  qed
  ultimately show ?thesis unfolding math_Round_def by (auto intro!: floor_mono ceiling_mono)
qed

lemma math_Round_bounds: "0 \<le> x \<Longrightarrow> x \<le> 100 \<Longrightarrow> 0 \<le> math_Round x \<and> math_Round x \<le> 100"
  using math_Round_mono [of 0 x] math_Round_mono [of x 100] by (simp add: math_Round_def)

text \<open>
  The reliability score of a model lies in \<open>[-100, 0]\<close> for every history, and with
  the same number of outcomes a model with more failures never scores higher.
\<close>

theorem reliability_score_bounds:
  assumes "0 \<le> mc_RecentFailures m"
  shows "- 100 \<le> reliabilityScore m \<and> reliabilityScore m \<le> 0
    \<and> (\<forall>f \<ge> mc_RecentFailures m. 0 < mc_RecentOutcomes m
        \<longrightarrow> reliabilityScore (m\<lparr>mc_RecentFailures := f\<rparr>) \<le> reliabilityScore m)"
proof (intro conjI allI impI)
  let ?rate = "(min (mc_RecentFailures m) (mc_RecentOutcomes m) + 1 / 2) / (mc_RecentOutcomes m + 10)"
  have r: "0 \<le> ?rate * 100 \<and> ?rate * 100 \<le> 100" if "0 < mc_RecentOutcomes m"
    using that assms by (auto simp: field_simps min_def)
  have c: "0 \<le> min (mc_RecentFailureRate m) 1 * 100 \<and> min (mc_RecentFailureRate m) 1 * 100 \<le> 100"
    if "0 < mc_RecentFailureRate m"
    using that by auto
  have "0 \<le> - reliabilityScore m \<and> - reliabilityScore m \<le> 100"
    using math_Round_bounds [of "?rate * 100"] r math_Round_bounds [of "min (mc_RecentFailureRate m) 1 * 100"] c
      math_Round_bounds [of "100 * (1 / 2) / 10"]
    unfolding reliabilityScore_def Let_def by auto
  then show "- 100 \<le> reliabilityScore m" "reliabilityScore m \<le> 0" by auto
next
  fix f assume f: "mc_RecentFailures m \<le> f" and pos: "0 < mc_RecentOutcomes m"
  then have "(min (mc_RecentFailures m) (mc_RecentOutcomes m) + 1 / 2) / (mc_RecentOutcomes m + 10) * 100
      \<le> (min f (mc_RecentOutcomes m) + 1 / 2) / (mc_RecentOutcomes m + 10) * 100"
    by (intro mult_right_mono divide_right_mono add_right_mono) (auto simp: min_def)
  with pos show "reliabilityScore (m\<lparr>mc_RecentFailures := f\<rparr>) \<le> reliabilityScore m"
    by (simp add: reliabilityScore_def math_Round_mono)
qed

theorem reliability_score_bounds_witness:
  "- 100 \<le> reliabilityScore demo_model \<and> reliabilityScore (demo_model\<lparr>mc_RecentFailures := 5\<rparr>)
    \<le> reliabilityScore demo_model"
  using reliability_score_bounds [of demo_model] by (simp add: demo_model_def)

end
