(* ===== verification/LLM_Health.thy ===== *)
theory LLM_Health
  imports LLM_Routing
begin

text \<open>
  \<open>llmkit/health.go\<close>: the circuit breaker over the providers. The store is a record of its policy,
  its entries and the value of its clock; the mutex makes each operation atomic, so an
  interleaving of callers is a sequence of operations. Durations are 64-bit where the doubling of
  the cooldown may wrap around.
\<close>

section \<open>Outcomes and entries\<close>

datatype ErrorClass =
    ErrorClassTransient | ErrorClassRateLimited | ErrorClassTimeout | ErrorClassInvalidJSON
  | ErrorClassToolCallInvalid | ErrorClassCapabilityMismatch | ErrorClassPolicyBlocked
  | ErrorClassAuth | ErrorClassCanceled | ErrorClassConfiguration | ErrorClassBudgetExceeded
  | ErrorClassPostCall | ErrorClassRequestTooLarge | ErrorClassResponseTooLarge
  | ErrorClassUsageMissing | ErrorClassRedirectBlocked | ErrorClassInvalidResponse
  | ErrorClassProviderBusy | ErrorClassUnknown | ErrorClassOther string

text \<open>The fields of \<open>TaskOutcome\<close>; the business outcome and its signal are strings.\<close>

record TaskOutcome =
  oc_RouteID :: string
  oc_TaskID :: string
  oc_Attempt :: int
  oc_RecordedAt :: time
  oc_TaskType :: string
  oc_AccountAlias :: string
  oc_ModelAlias :: string
  oc_Provider :: string
  oc_Success :: bool
  oc_BusinessOutcome :: string
  oc_SuccessSignal :: string
  oc_FailureReason :: string
  oc_ErrorCode :: string
  oc_ErrorClass :: ErrorClass
  oc_LatencyMillis :: int
  oc_InputTokens :: int
  oc_OutputTokens :: int
  oc_EstimatedCents :: int

record ProviderHealthEntry =
  he_AccountAlias :: string
  he_ModelAlias :: string
  he_Provider :: string
  he_Availability :: ProviderAvailability
  he_InFlight :: int
  he_MaxConcurrency :: int
  he_QuotaRemaining :: int
  he_QuotaExhausted :: bool
  he_FailureStreak :: int
  he_LastFailureAt :: time
  he_CooldownUntil :: time
  he_UpdatedAt :: time

definition zero_entry :: ProviderHealthEntry where
  "zero_entry = \<lparr>he_AccountAlias = '''', he_ModelAlias = '''', he_Provider = '''',
     he_Availability = ProviderOther '''', he_InFlight = 0, he_MaxConcurrency = 0,
     he_QuotaRemaining = 0, he_QuotaExhausted = False, he_FailureStreak = 0, he_LastFailureAt = 0,
     he_CooldownUntil = 0, he_UpdatedAt = 0\<rparr>"

record HealthPolicy =
  hp_FailureCooldownThreshold :: int
  hp_CooldownDuration :: duration
  hp_MaxCooldownDuration :: duration

record MemoryHealthStore =
  hs_policy :: HealthPolicy
  hs_entries :: "(string, ProviderHealthEntry) gomap"
  hs_now :: time

record ProviderHealthSnapshot =
  sn_GeneratedAt :: time
  sn_Entries :: "(string, ProviderHealthEntry) gomap"

datatype HealthError = HealthCtx ctx_error | ErrProviderBusy string

definition NewMemoryHealthStore :: "HealthPolicy \<Rightarrow> time \<Rightarrow> MemoryHealthStore" where
  "NewMemoryHealthStore policy now =
     (let policy = (if hp_FailureCooldownThreshold policy \<le> 0
                    then policy\<lparr>hp_FailureCooldownThreshold := 3\<rparr> else policy);
          policy = (if hp_CooldownDuration policy \<le> 0
                    then policy\<lparr>hp_CooldownDuration := 60000000000\<rparr> else policy);
          policy = (if hp_MaxCooldownDuration policy < hp_CooldownDuration policy
                    then policy\<lparr>hp_MaxCooldownDuration := wrap64 (32 * hp_CooldownDuration policy)\<rparr>
                    else policy)
      in \<lparr>hs_policy = policy, hs_entries = [], hs_now = now\<rparr>)"

definition ProviderHealthKey :: "string \<Rightarrow> string \<Rightarrow> string \<Rightarrow> string" where
  "ProviderHealthKey accountAlias modelAlias provider =
     TrimSpace accountAlias @ ''|'' @ TrimSpace modelAlias @ ''|'' @ TrimSpace provider"

definition entry_at :: "(string, ProviderHealthEntry) gomap \<Rightarrow> string \<Rightarrow> ProviderHealthEntry" where
  "entry_at entries key = (case map_of entries key of None \<Rightarrow> zero_entry | Some entry \<Rightarrow> entry)"

definition ensureEntryIdentity ::
  "string \<Rightarrow> string \<Rightarrow> string \<Rightarrow> ProviderHealthEntry \<Rightarrow> ProviderHealthEntry" where
  "ensureEntryIdentity accountAlias modelAlias provider entry =
     (let entry = (if he_AccountAlias entry = ''''
                   then entry\<lparr>he_AccountAlias := TrimSpace accountAlias\<rparr> else entry);
          entry = (if he_ModelAlias entry = ''''
                   then entry\<lparr>he_ModelAlias := TrimSpace modelAlias\<rparr> else entry)
      in if he_Provider entry = '''' then entry\<lparr>he_Provider := TrimSpace provider\<rparr> else entry)"

section \<open>Settling and cooling down\<close>

definition settle :: "HealthPolicy \<Rightarrow> time \<Rightarrow> ProviderHealthEntry \<Rightarrow> ProviderHealthEntry" where
  "settle policy now entry =
     (if he_Availability entry = ProviderDegraded \<and> he_LastFailureAt entry \<noteq> 0
         \<and> now - he_LastFailureAt entry \<ge> hp_CooldownDuration policy
      then entry\<lparr>he_Availability := ProviderAvailable, he_FailureStreak := 0\<rparr> else entry)"

text \<open>\<open>for extra := ...; extra > 0 \<and> cooldown < max; extra-- { cooldown *= 2 }\<close>\<close>

function cooldown_loop :: "int \<Rightarrow> duration \<Rightarrow> duration \<Rightarrow> duration" where
  "cooldown_loop extra cooldown maxCooldown =
     (if extra > 0 \<and> cooldown < maxCooldown
      then cooldown_loop (extra - 1) (wrap64 (cooldown * 2)) maxCooldown else cooldown)"
  by pat_completeness auto
termination
  by (relation "measure (\<lambda>(extra, cooldown, maxCooldown). nat extra)") auto

declare cooldown_loop.simps [simp del]

definition cooldown :: "HealthPolicy \<Rightarrow> int \<Rightarrow> duration" where
  "cooldown policy streak =
     min (cooldown_loop (streak - hp_FailureCooldownThreshold policy) (hp_CooldownDuration policy)
            (hp_MaxCooldownDuration policy)) (hp_MaxCooldownDuration policy)"

section \<open>Admission\<close>

definition account_in_flight :: "string \<Rightarrow> (string, ProviderHealthEntry) gomap \<Rightarrow> int" where
  "account_in_flight account entries =
     sum_list (map (\<lambda>(_, other). if he_AccountAlias other = account then he_InFlight other else 0) entries)"

definition admissionBlock ::
  "MemoryHealthStore \<Rightarrow> ProviderHealthEntry \<Rightarrow> Candidate \<Rightarrow> time \<Rightarrow> string" where
  "admissionBlock s entry candidate now =
     (if he_CooldownUntil entry \<noteq> 0 \<and> now < he_CooldownUntil entry then ''provider is in cooldown''
      else if he_Availability entry = ProviderUnavailable \<and> he_CooldownUntil entry = 0
      then ''provider is unavailable''
      else if he_Availability entry = ProviderUnavailable \<and> he_InFlight entry > 0
      then ''provider recovery probe is in flight''
      else if he_QuotaExhausted entry \<or> he_QuotaRemaining entry < 0
      then ''provider quota is exhausted''
      else
        (let limit = (if he_MaxConcurrency entry \<le> 0 then mc_MaxConcurrency (cd_Model candidate)
                      else he_MaxConcurrency entry)
         in if limit > 0 \<and> he_InFlight entry \<ge> limit then ''provider concurrency is full''
            else if cd_AccountMaxConcurrency candidate > 0
                 \<and> account_in_flight (TrimSpace (cd_AccountAlias candidate)) (hs_entries s)
                     \<ge> cd_AccountMaxConcurrency candidate
            then ''account concurrency is full'' else ''''))"

definition candidate_key :: "Candidate \<Rightarrow> string" where
  "candidate_key c =
     ProviderHealthKey (cd_AccountAlias c) (mc_Alias (cd_Model c)) (mc_Provider (cd_Model c))"

definition Acquire :: "ctx \<Rightarrow> Candidate \<Rightarrow> MemoryHealthStore \<Rightarrow> HealthError option \<times> MemoryHealthStore" where
  "Acquire ctx candidate s = (case ctx of
      Some e \<Rightarrow> (Some (HealthCtx e), s)
    | None \<Rightarrow>
        (let now = hs_now s;
             key = candidate_key candidate;
             entry = ensureEntryIdentity (cd_AccountAlias candidate) (mc_Alias (cd_Model candidate))
                       (mc_Provider (cd_Model candidate)) (entry_at (hs_entries s) key);
             entry = entry\<lparr>he_Availability := normalizedAvailability (he_Availability entry)\<rparr>;
             entry = settle (hs_policy s) now entry;
             reason = admissionBlock s entry candidate now
         in if reason \<noteq> '''' then (Some (ErrProviderBusy reason), s)
            else (None, s\<lparr>hs_entries := AList.update key
                   (entry\<lparr>he_InFlight := he_InFlight entry + 1, he_UpdatedAt := now\<rparr>) (hs_entries s)\<rparr>)))"

definition Release :: "Candidate \<Rightarrow> MemoryHealthStore \<Rightarrow> MemoryHealthStore" where
  "Release candidate s =
     (let key = candidate_key candidate
      in case map_of (hs_entries s) key of
           None \<Rightarrow> s
         | Some entry \<Rightarrow>
             (let entry = (if he_InFlight entry > 0
                           then entry\<lparr>he_InFlight := he_InFlight entry - 1\<rparr> else entry)
              in s\<lparr>hs_entries := AList.update key (entry\<lparr>he_UpdatedAt := hs_now s\<rparr>) (hs_entries s)\<rparr>))"

section \<open>Outcomes\<close>

definition CountsTowardProviderHealth :: "ErrorClass \<Rightarrow> bool" where
  "CountsTowardProviderHealth class' = (case class' of
      ErrorClassCanceled \<Rightarrow> False | ErrorClassRequestTooLarge \<Rightarrow> False | ErrorClassBudgetExceeded \<Rightarrow> False
    | ErrorClassPolicyBlocked \<Rightarrow> False | ErrorClassCapabilityMismatch \<Rightarrow> False
    | ErrorClassPostCall \<Rightarrow> False | ErrorClassProviderBusy \<Rightarrow> False | _ \<Rightarrow> True)"

definition outcome_key :: "TaskOutcome \<Rightarrow> string" where
  "outcome_key o' = ProviderHealthKey (oc_AccountAlias o') (oc_ModelAlias o') (oc_Provider o')"

text \<open>The entry before the outcome is judged: identified, one call closed, settled.\<close>

definition closed_entry :: "TaskOutcome \<Rightarrow> MemoryHealthStore \<Rightarrow> ProviderHealthEntry" where
  "closed_entry outcome s =
     (let entry = entry_at (hs_entries s) (outcome_key outcome);
          entry = entry\<lparr>he_AccountAlias := TrimSpace (oc_AccountAlias outcome),
                        he_ModelAlias := TrimSpace (oc_ModelAlias outcome),
                        he_Provider := TrimSpace (oc_Provider outcome)\<rparr>;
          entry = (if he_InFlight entry > 0
                   then entry\<lparr>he_InFlight := he_InFlight entry - 1\<rparr> else entry)
      in settle (hs_policy s) (hs_now s) entry)"

definition judged_entry ::
  "HealthPolicy \<Rightarrow> time \<Rightarrow> TaskOutcome \<Rightarrow> ProviderHealthEntry \<Rightarrow> ProviderHealthEntry" where
  "judged_entry policy now outcome entry =
     (if \<not> oc_Success outcome \<and> \<not> CountsTowardProviderHealth (oc_ErrorClass outcome) then entry
      else if oc_Success outcome then
        entry\<lparr>he_FailureStreak := 0, he_Availability := ProviderAvailable, he_CooldownUntil := 0\<rparr>
      else
        (let entry = entry\<lparr>he_FailureStreak := he_FailureStreak entry + 1, he_LastFailureAt := now\<rparr>
         in if he_FailureStreak entry \<ge> hp_FailureCooldownThreshold policy then
              entry\<lparr>he_Availability := ProviderUnavailable,
                    he_CooldownUntil := now + cooldown policy (he_FailureStreak entry)\<rparr>
            else entry\<lparr>he_Availability := ProviderDegraded\<rparr>))"

definition RecordOutcome ::
  "ctx \<Rightarrow> TaskOutcome \<Rightarrow> MemoryHealthStore \<Rightarrow> HealthError option \<times> MemoryHealthStore" where
  "RecordOutcome ctx outcome s = (case ctx of
      Some e \<Rightarrow> (Some (HealthCtx e), s)
    | None \<Rightarrow>
        (let entry = judged_entry (hs_policy s) (hs_now s) outcome (closed_entry outcome s)
         in (None, s\<lparr>hs_entries := AList.update (outcome_key outcome)
               (entry\<lparr>he_UpdatedAt := hs_now s\<rparr>) (hs_entries s)\<rparr>)))"

section \<open>Snapshots\<close>

definition Snapshot :: "MemoryHealthStore \<Rightarrow> ProviderHealthSnapshot" where
  "Snapshot s = \<lparr>sn_GeneratedAt = hs_now s,
     sn_Entries = map (\<lambda>(key, entry). (key, settle (hs_policy s) (hs_now s) entry)) (hs_entries s)\<rparr>"

definition Set :: "ProviderHealthEntry \<Rightarrow> MemoryHealthStore \<Rightarrow> MemoryHealthStore" where
  "Set entry s =
     (let entry = entry\<lparr>he_Availability := normalizedAvailability (he_Availability entry),
                        he_UpdatedAt := hs_now s\<rparr>
      in s\<lparr>hs_entries := AList.update
             (ProviderHealthKey (he_AccountAlias entry) (he_ModelAlias entry) (he_Provider entry))
             entry (hs_entries s)\<rparr>)"

text \<open>The loop body of \<open>ApplyProviderHealth\<close>, and the sums per account it looks up.\<close>

definition apply_entry :: "ProviderHealthEntry \<Rightarrow> Candidate \<Rightarrow> Candidate" where
  "apply_entry entry c = c\<lparr>
     cd_ProviderAvailability := normalizedAvailability (he_Availability entry),
     cd_ProviderInFlight := he_InFlight entry,
     cd_Model := (cd_Model c)\<lparr>mc_CurrentConcurrency := he_InFlight entry\<rparr>,
     cd_ProviderMaxConcurrency := he_MaxConcurrency entry,
     cd_ProviderQuotaRemaining := he_QuotaRemaining entry,
     cd_ProviderQuotaExhausted := he_QuotaExhausted entry,
     cd_ProviderFailureStreak := he_FailureStreak entry,
     cd_ProviderCooldownUntil := he_CooldownUntil entry\<rparr>"

definition enrich :: "ProviderHealthSnapshot \<Rightarrow> Candidate \<Rightarrow> Candidate" where
  "enrich snapshot c =
     (let c = c\<lparr>cd_AccountCurrentConcurrency :=
                account_in_flight (TrimSpace (cd_AccountAlias c)) (sn_Entries snapshot)\<rparr>
      in case map_of (sn_Entries snapshot) (candidate_key c) of
           None \<Rightarrow> c
         | Some entry \<Rightarrow> apply_entry entry c)"

definition ApplyProviderHealth :: "ProviderHealthSnapshot \<Rightarrow> Candidate list \<Rightarrow> Candidate list" where
  "ApplyProviderHealth snapshot candidates =
     (if sn_Entries snapshot = [] then candidates else map (enrich snapshot) candidates)"

section \<open>Sequences of operations\<close>

datatype health_op =
    DoAcquire Candidate
  | DoRelease Candidate
  | DoOutcome TaskOutcome
  | DoTick nat

fun health_apply :: "health_op \<Rightarrow> MemoryHealthStore \<Rightarrow> MemoryHealthStore" where
  "health_apply (DoAcquire c) s = snd (Acquire None c s)"
| "health_apply (DoRelease c) s = Release c s"
| "health_apply (DoOutcome oc) s = snd (RecordOutcome None oc s)"
| "health_apply (DoTick d) s = s\<lparr>hs_now := hs_now s + int d\<rparr>"

section \<open>Lemmas\<close>

lemma settle_fields [simp]:
  "he_InFlight (settle p now e) = he_InFlight e"
  "he_AccountAlias (settle p now e) = he_AccountAlias e"
  "he_MaxConcurrency (settle p now e) = he_MaxConcurrency e"
  "he_CooldownUntil (settle p now e) = he_CooldownUntil e"
  "he_QuotaExhausted (settle p now e) = he_QuotaExhausted e"
  "he_QuotaRemaining (settle p now e) = he_QuotaRemaining e"
  "(he_Availability (settle p now e) = ProviderUnavailable) = (he_Availability e = ProviderUnavailable)"
  by (simp_all add: settle_def)

lemma ensureEntryIdentity_fields [simp]:
  "he_InFlight (ensureEntryIdentity a m p e) = he_InFlight e"
  "he_MaxConcurrency (ensureEntryIdentity a m p e) = he_MaxConcurrency e"
  "he_CooldownUntil (ensureEntryIdentity a m p e) = he_CooldownUntil e"
  "he_Availability (ensureEntryIdentity a m p e) = he_Availability e"
  "he_QuotaExhausted (ensureEntryIdentity a m p e) = he_QuotaExhausted e"
  "he_QuotaRemaining (ensureEntryIdentity a m p e) = he_QuotaRemaining e"
  "he_AccountAlias (ensureEntryIdentity a m p e)
     = (if he_AccountAlias e = '''' then TrimSpace a else he_AccountAlias e)"
  by (simp_all add: ensureEntryIdentity_def Let_def)

lemma judged_entry_fields [simp]:
  "he_InFlight (judged_entry p now oc e) = he_InFlight e"
  "he_AccountAlias (judged_entry p now oc e) = he_AccountAlias e"
  "he_MaxConcurrency (judged_entry p now oc e) = he_MaxConcurrency e"
  by (simp_all add: judged_entry_def Let_def)

lemma normalizedAvailability_simps [simp]:
  "(normalizedAvailability a = ProviderUnavailable) = (a = ProviderUnavailable)"
  "(normalizedAvailability a = ProviderDegraded) = (a = ProviderDegraded)"
  "normalizedAvailability (normalizedAvailability a) = normalizedAvailability a"
  by (auto simp: normalizedAvailability_def)

lemma zero_entry_fields [simp]:
  "he_InFlight zero_entry = 0" "he_AccountAlias zero_entry = ''''" "he_MaxConcurrency zero_entry = 0"
  "he_CooldownUntil zero_entry = 0" "he_Availability zero_entry = ProviderOther ''''"
  "he_QuotaExhausted zero_entry = False" "he_QuotaRemaining zero_entry = 0"
  by (simp_all add: zero_entry_def)

lemma entry_at_update [simp]:
  "entry_at (AList.update k e m) j = (if j = k then e else entry_at m j)"
  by (simp add: entry_at_def)

text \<open>What an entry contributes to the sum of its account, and the sum after a write.\<close>

definition share :: "string \<Rightarrow> ProviderHealthEntry \<Rightarrow> int" where
  "share account e = (if he_AccountAlias e = account then he_InFlight e else 0)"

lemma account_in_flight_update:
  "wf_map m \<Longrightarrow> account_in_flight a (AList.update k e m)
     = account_in_flight a m - share a (entry_at m k) + share a e"
proof (induction m)
  case Nil
  then show ?case by (simp add: account_in_flight_def entry_at_def share_def)
next
  case (Cons p m)
  obtain j f where p: "p = (j, f)" by fastforce
  with Cons show ?case
    by (cases "j = k") (auto simp: account_in_flight_def entry_at_def share_def wf_map_def)
qed

text \<open>The account of a key whose first part contains no separator.\<close>

definition plain :: "string \<Rightarrow> bool" where
  "plain alias \<longleftrightarrow> CHR ''|'' \<notin> set (TrimSpace alias)"

definition key_account :: "string \<Rightarrow> string" where
  "key_account key = takeWhile (\<lambda>c. c \<noteq> CHR ''|'') key"

lemma key_account_key: "plain a \<Longrightarrow> key_account (ProviderHealthKey a m p) = TrimSpace a"
  by (auto simp: plain_def key_account_def ProviderHealthKey_def takeWhile_append)

fun op_account :: "health_op \<Rightarrow> string" where
  "op_account (DoAcquire c) = cd_AccountAlias c"
| "op_account (DoRelease c) = cd_AccountAlias c"
| "op_account (DoOutcome oc) = oc_AccountAlias oc"
| "op_account (DoTick d) = ''''"

text \<open>
  The invariant: keys are unique, no call count is negative, no entry has a concurrency limit of its
  own (only \<open>Set\<close> writes one), and an entry belongs to the account its key names.
\<close>

definition health_inv :: "MemoryHealthStore \<Rightarrow> bool" where
  "health_inv s \<longleftrightarrow> wf_map (hs_entries s)
     \<and> (\<forall>k e. map_of (hs_entries s) k = Some e \<longrightarrow>
          0 \<le> he_InFlight e \<and> he_MaxConcurrency e = 0 \<and> he_AccountAlias e = key_account k)"

lemma health_inv_update:
  assumes "health_inv s" and "0 \<le> he_InFlight e" and "he_MaxConcurrency e = 0"
    and "he_AccountAlias e = key_account k"
  shows "health_inv (s\<lparr>hs_entries := AList.update k e (hs_entries s)\<rparr>)"
  using assms by (auto simp: health_inv_def)

lemma health_inv_entry:
  assumes "health_inv s"
  shows "0 \<le> he_InFlight (entry_at (hs_entries s) k)" and "he_MaxConcurrency (entry_at (hs_entries s) k) = 0"
    and "he_AccountAlias (entry_at (hs_entries s) k) = '''' \<or> he_AccountAlias (entry_at (hs_entries s) k) = key_account k"
  using assms by (auto simp: health_inv_def entry_at_def split: option.splits)

lemma health_apply_inv:
  assumes "health_inv s" and "plain (op_account op)"
  shows "health_inv (health_apply op s)"
proof (cases op)
  case (DoAcquire c)
  let ?k = "candidate_key c"
  have "key_account ?k = TrimSpace (cd_AccountAlias c)"
    using assms(2) DoAcquire by (simp add: candidate_key_def key_account_key)
  with health_inv_entry [OF assms(1), of ?k] assms(1) DoAcquire show ?thesis
    by (auto simp: Acquire_def Let_def intro!: health_inv_update)
next
  case (DoRelease c)
  with assms(1) show ?thesis
    by (auto simp: Release_def health_inv_def Let_def split: option.split)
next
  case (DoOutcome oc)
  let ?k = "outcome_key oc"
  have "key_account ?k = TrimSpace (oc_AccountAlias oc)"
    using assms(2) DoOutcome by (simp add: outcome_key_def key_account_key)
  with health_inv_entry [OF assms(1), of ?k] assms(1) DoOutcome show ?thesis
    by (auto simp: RecordOutcome_def closed_entry_def Let_def intro!: health_inv_update)
qed (use assms(1) in \<open>simp add: health_inv_def\<close>)

lemma health_inv_fold:
  "health_inv s \<Longrightarrow> \<forall>op \<in> set ops. plain (op_account op) \<Longrightarrow> health_inv (fold health_apply ops s)"
  by (induction ops arbitrary: s) (auto intro: health_apply_inv)

lemma health_inv_New: "health_inv (NewMemoryHealthStore policy now)"
  by (simp add: health_inv_def NewMemoryHealthStore_def Let_def)

text \<open>An admitted call raises the count of its own entry and account by one and no other.\<close>

lemma Acquire_cases:
  assumes "health_inv s" and "plain (cd_AccountAlias c)"
  obtains (busy) reason where "Acquire None c s = (Some (ErrProviderBusy reason), s)"
  | (admitted) e where "Acquire None c s
        = (None, s\<lparr>hs_entries := AList.update (candidate_key c) e (hs_entries s)\<rparr>)"
      "he_InFlight e = he_InFlight (entry_at (hs_entries s) (candidate_key c)) + 1"
      "he_AccountAlias e = TrimSpace (cd_AccountAlias c)"
      "mc_MaxConcurrency (cd_Model c) > 0
        \<Longrightarrow> he_InFlight (entry_at (hs_entries s) (candidate_key c)) < mc_MaxConcurrency (cd_Model c)"
      "cd_AccountMaxConcurrency c > 0
        \<Longrightarrow> account_in_flight (TrimSpace (cd_AccountAlias c)) (hs_entries s) < cd_AccountMaxConcurrency c"
proof -
  let ?e = "settle (hs_policy s) (hs_now s)
    ((ensureEntryIdentity (cd_AccountAlias c) (mc_Alias (cd_Model c)) (mc_Provider (cd_Model c))
        (entry_at (hs_entries s) (candidate_key c)))\<lparr>he_Availability :=
          normalizedAvailability (he_Availability (entry_at (hs_entries s) (candidate_key c)))\<rparr>)"
  have k: "key_account (candidate_key c) = TrimSpace (cd_AccountAlias c)"
    using assms(2) by (simp add: candidate_key_def key_account_key)
  note inv = health_inv_entry [OF assms(1), of "candidate_key c"]
  show thesis
  proof (cases "admissionBlock s ?e c (hs_now s) = ''''")
    case True
    show thesis
    proof (rule admitted)
      show "Acquire None c s = (None, s\<lparr>hs_entries := AList.update (candidate_key c)
          (?e\<lparr>he_InFlight := he_InFlight ?e + 1, he_UpdatedAt := hs_now s\<rparr>) (hs_entries s)\<rparr>)"
        using True by (simp add: Acquire_def Let_def)
    qed (use True inv k in \<open>auto simp: admissionBlock_def Let_def split: if_splits\<close>)
  next
    case False
    then show thesis by (intro busy) (simp add: Acquire_def Let_def)
  qed
qed

lemma closing_InFlight:
  assumes "health_inv s" and "plain (op_account op)" and "\<And>c. op \<noteq> DoAcquire c"
  shows "he_InFlight (entry_at (hs_entries (health_apply op s)) k) \<le> he_InFlight (entry_at (hs_entries s) k)"
    and "account_in_flight a (hs_entries (health_apply op s)) \<le> account_in_flight a (hs_entries s)"
proof -
  have wf: "wf_map (hs_entries s)" using assms(1) by (simp add: health_inv_def)
  show "he_InFlight (entry_at (hs_entries (health_apply op s)) k) \<le> he_InFlight (entry_at (hs_entries s) k)"
    using assms(3) by (cases op)
      (auto simp: Release_def RecordOutcome_def closed_entry_def Let_def entry_at_def split: option.splits)
  show "account_in_flight a (hs_entries (health_apply op s)) \<le> account_in_flight a (hs_entries s)"
  proof (cases op)
    case (DoRelease c)
    with wf show ?thesis
      by (auto simp: Release_def Let_def account_in_flight_update share_def entry_at_def split: option.split)
  next
    case (DoOutcome oc)
    have "key_account (outcome_key oc) = TrimSpace (oc_AccountAlias oc)"
      using assms(2) DoOutcome by (simp add: outcome_key_def key_account_key)
    moreover have "he_InFlight (entry_at (hs_entries s) (outcome_key oc)) = 0
        \<or> he_AccountAlias (entry_at (hs_entries s) (outcome_key oc)) = key_account (outcome_key oc)"
      using assms(1) by (auto simp: health_inv_def entry_at_def split: option.splits)
    ultimately show ?thesis
      using DoOutcome wf health_inv_entry(1) [OF assms(1), of "outcome_key oc"]
      by (elim disjE)
        (simp_all add: RecordOutcome_def closed_entry_def Let_def account_in_flight_update share_def)
  qed (use assms(3) in auto)
qed

definition acquires_with :: "(Candidate \<Rightarrow> bool) \<Rightarrow> health_op \<Rightarrow> bool" where
  "acquires_with P op = (case op of DoAcquire c \<Rightarrow> P c | _ \<Rightarrow> True)"

lemma account_limit_step:
  assumes "health_inv s" and "plain (op_account op)" and "0 < m"
    and "acquires_with (\<lambda>c. TrimSpace (cd_AccountAlias c) = a \<longrightarrow> cd_AccountMaxConcurrency c = m) op"
    and "account_in_flight a (hs_entries s) \<le> m"
  shows "account_in_flight a (hs_entries (health_apply op s)) \<le> m"
proof (cases "\<exists>c. op = DoAcquire c")
  case True
  then obtain c where op: "op = DoAcquire c" by blast
  have wf: "wf_map (hs_entries s)" using assms(1) by (simp add: health_inv_def)
  have "plain (cd_AccountAlias c)" using assms(2) op by simp
  with assms(1) show ?thesis
  proof (cases rule: Acquire_cases)
    case (admitted e)
    let ?old = "entry_at (hs_entries s) (candidate_key c)"
    have "share a ?old \<ge> 0" using health_inv_entry(1) [OF assms(1)] by (simp add: share_def)
    have old: "he_InFlight ?old = 0 \<or> he_AccountAlias ?old = TrimSpace (cd_AccountAlias c)"
      using assms(1,2) op key_account_key [of "cd_AccountAlias c"]
      by (auto simp: health_inv_def entry_at_def candidate_key_def split: option.splits)
    show ?thesis
    proof (cases "TrimSpace (cd_AccountAlias c) = a")
      case True
      with old have "share a ?old = he_InFlight ?old" by (elim disjE) (simp_all add: share_def)
      with True admitted assms(3,4) op wf show ?thesis
        by (simp add: account_in_flight_update share_def acquires_with_def)
    next
      case False
      with admitted(3) have "share a e = 0" by (simp add: share_def)
      with admitted(1) op wf \<open>share a ?old \<ge> 0\<close> assms(5) show ?thesis
        by (simp add: account_in_flight_update)
    qed
  qed (use op assms(5) in simp)
next
  case False
  then have "\<And>c. op \<noteq> DoAcquire c" by blast
  from closing_InFlight(2) [OF assms(1,2) this, of a] assms(5) show ?thesis by linarith
qed

lemma provider_limit_step:
  assumes "health_inv s" and "plain (op_account op)" and "0 < m"
    and "acquires_with (\<lambda>c. candidate_key c = k \<longrightarrow> mc_MaxConcurrency (cd_Model c) = m) op"
    and "he_InFlight (entry_at (hs_entries s) k) \<le> m"
  shows "he_InFlight (entry_at (hs_entries (health_apply op s)) k) \<le> m"
proof (cases "\<exists>c. op = DoAcquire c")
  case True
  then obtain c where op: "op = DoAcquire c" by blast
  with assms(2) have "plain (cd_AccountAlias c)" by simp
  with assms(1) show ?thesis
  proof (cases rule: Acquire_cases)
    case (admitted e)
    with op assms(3-5) show ?thesis by (cases "candidate_key c = k") (simp_all add: acquires_with_def)
  qed (use op assms(5) in simp)
next
  case False
  then have "\<And>c. op \<noteq> DoAcquire c" by blast
  from closing_InFlight(1) [OF assms(1,2) this, of k] assms(5) show ?thesis by linarith
qed

section \<open>Properties of the circuit breaker\<close>

text \<open>Property C7. Concurrency limits hold under every interleaving: whatever sequence of acquires,
  releases, outcomes and clock ticks callers perform on a new store, the calls in flight of an
  account never exceed the limit \<open>m\<close> its candidates carry. Account names must not contain the
  separator of the health keys.
\<close>

theorem account_limit_kept:
  assumes "0 < m" and "\<forall>op \<in> set ops. plain (op_account op)"
    and "\<forall>op \<in> set ops. acquires_with
           (\<lambda>c. TrimSpace (cd_AccountAlias c) = a \<longrightarrow> cd_AccountMaxConcurrency c = m) op"
  shows "account_in_flight a (hs_entries (fold health_apply ops (NewMemoryHealthStore policy now))) \<le> m"
proof -
  let ?I = "\<lambda>s. health_inv s \<and> account_in_flight a (hs_entries s) \<le> m"
  have "?I (NewMemoryHealthStore policy now)"
    using health_inv_New assms(1) by (simp add: account_in_flight_def NewMemoryHealthStore_def Let_def)
  moreover have "?I (health_apply op s)" if "op \<in> set ops" and "?I s" for op s
    using that assms(2,3) health_apply_inv [of s op] account_limit_step [of s op, OF _ _ assms(1)] by simp
  ultimately have "?I (fold health_apply ops (NewMemoryHealthStore policy now))"
    by (intro fold_invariant [where P = ?I and Q = "\<lambda>op. op \<in> set ops"])
  then show ?thesis by simp
qed

text \<open>Three calls of one account on two models, of which the limit of two admits two.\<close>

definition demo_health_ops :: "health_op list" where
  "demo_health_ops = [DoAcquire (demo_candidate\<lparr>cd_AccountMaxConcurrency := 2\<rparr>), DoTick 5,
     DoAcquire (demo_busy\<lparr>cd_AccountMaxConcurrency := 2\<rparr>),
     DoAcquire (demo_candidate\<lparr>cd_AccountMaxConcurrency := 2\<rparr>)]"

definition demo_health_policy :: HealthPolicy where
  "demo_health_policy = \<lparr>hp_FailureCooldownThreshold = 2, hp_CooldownDuration = 100,
     hp_MaxCooldownDuration = 0\<rparr>"

theorem account_limit_kept_witness:
  "account_in_flight ''a'' (hs_entries (fold health_apply demo_health_ops
     (NewMemoryHealthStore demo_health_policy 7))) \<le> 2"
proof -
  have t: "TrimSpace ''a'' = ''a''" by (simp add: TrimSpace_ascii is_space_def)
  show ?thesis
    by (rule account_limit_kept)
      (simp_all add: demo_health_ops_def plain_def demo_candidate_def demo_busy_def t acquires_with_def)
qed

text \<open>
  The calls in flight of one provider entry never exceed the concurrency limit of its
  model, under every interleaving of callers on a new store.
\<close>

theorem provider_limit_kept:
  assumes "0 < m" and "\<forall>op \<in> set ops. plain (op_account op)"
    and "\<forall>op \<in> set ops. acquires_with
           (\<lambda>c. candidate_key c = k \<longrightarrow> mc_MaxConcurrency (cd_Model c) = m) op"
    and "s = fold health_apply ops (NewMemoryHealthStore policy now)"
  shows "0 \<le> he_InFlight (entry_at (hs_entries s) k) \<and> he_InFlight (entry_at (hs_entries s) k) \<le> m"
proof -
  let ?I = "\<lambda>s. health_inv s \<and> he_InFlight (entry_at (hs_entries s) k) \<le> m"
  have "?I (NewMemoryHealthStore policy now)"
    using health_inv_New assms(1) by (simp add: entry_at_def NewMemoryHealthStore_def Let_def)
  moreover have "?I (health_apply op s)" if "op \<in> set ops" and "?I s" for op s
    using that assms(2,3) health_apply_inv [of s op] provider_limit_step [of s op, OF _ _ assms(1)] by simp
  ultimately have "?I (fold health_apply ops (NewMemoryHealthStore policy now))"
    by (intro fold_invariant [where P = ?I and Q = "\<lambda>op. op \<in> set ops"])
  with assms(4) health_inv_entry(1) show ?thesis by simp
qed

theorem provider_limit_kept_witness:
  "he_InFlight (entry_at (hs_entries (fold health_apply demo_health_ops
     (NewMemoryHealthStore demo_health_policy 7))) ''a|m|p'') \<le> 2"
proof -
  have t: "TrimSpace ''a'' = ''a''" by (simp add: TrimSpace_ascii is_space_def)
  have "0 < (2 :: int)" "\<forall>op \<in> set demo_health_ops. plain (op_account op)"
    "\<forall>op \<in> set demo_health_ops. acquires_with
       (\<lambda>c. candidate_key c = ''a|m|p'' \<longrightarrow> mc_MaxConcurrency (cd_Model c) = 2) op"
    by (simp_all add: demo_health_ops_def plain_def demo_candidate_def demo_busy_def demo_model_def t
        acquires_with_def)
  from provider_limit_kept [OF this refl] show ?thesis by blast
qed

text \<open>The entry \<open>Acquire\<close> decides on.\<close>

definition admission_entry :: "Candidate \<Rightarrow> MemoryHealthStore \<Rightarrow> ProviderHealthEntry" where
  "admission_entry c s = settle (hs_policy s) (hs_now s)
    ((ensureEntryIdentity (cd_AccountAlias c) (mc_Alias (cd_Model c)) (mc_Provider (cd_Model c))
        (entry_at (hs_entries s) (candidate_key c)))\<lparr>he_Availability :=
          normalizedAvailability (he_Availability (entry_at (hs_entries s) (candidate_key c)))\<rparr>)"

lemma Acquire_admission:
  "Acquire None c s = (let reason = admissionBlock s (admission_entry c s) c (hs_now s) in
     if reason \<noteq> '''' then (Some (ErrProviderBusy reason), s)
     else (None, s\<lparr>hs_entries := AList.update (candidate_key c)
       ((admission_entry c s)\<lparr>he_InFlight := he_InFlight (admission_entry c s) + 1, he_UpdatedAt := hs_now s\<rparr>)
       (hs_entries s)\<rparr>))"
  by (simp add: Acquire_def admission_entry_def Let_def)

lemma admission_entry_fields [simp]:
  "he_InFlight (admission_entry c s) = he_InFlight (entry_at (hs_entries s) (candidate_key c))"
  "he_MaxConcurrency (admission_entry c s) = he_MaxConcurrency (entry_at (hs_entries s) (candidate_key c))"
  "he_CooldownUntil (admission_entry c s) = he_CooldownUntil (entry_at (hs_entries s) (candidate_key c))"
  "he_QuotaExhausted (admission_entry c s) = he_QuotaExhausted (entry_at (hs_entries s) (candidate_key c))"
  "he_QuotaRemaining (admission_entry c s) = he_QuotaRemaining (entry_at (hs_entries s) (candidate_key c))"
  "(he_Availability (admission_entry c s) = ProviderUnavailable)
     = (he_Availability (entry_at (hs_entries s) (candidate_key c)) = ProviderUnavailable)"
  by (simp_all add: admission_entry_def)

lemma account_in_flight_settle [simp]:
  "account_in_flight a (map (\<lambda>(key, entry). (key, settle p now entry)) m) = account_in_flight a m"
  by (induction m) (auto simp: account_in_flight_def)

lemma enrich_fields [simp]:
  "cd_AccountAlias (enrich sn c) = cd_AccountAlias c"
  "cd_AccountMaxConcurrency (enrich sn c) = cd_AccountMaxConcurrency c"
  "cd_AccountCurrentConcurrency (enrich sn c)
     = account_in_flight (TrimSpace (cd_AccountAlias c)) (sn_Entries sn)"
  "mc_MaxConcurrency (cd_Model (enrich sn c)) = mc_MaxConcurrency (cd_Model c)"
  by (simp_all add: enrich_def apply_entry_def candidate_key_def Let_def split: option.split)

text \<open>A candidate that the filters pass after it was enriched from the store's own snapshot.\<close>

lemma enriched_known:
  assumes "map_of (hs_entries s) (candidate_key c) = Some e"
  shows "enrich (Snapshot s) c = apply_entry (settle (hs_policy s) (hs_now s) e)
    (c\<lparr>cd_AccountCurrentConcurrency :=
         account_in_flight (TrimSpace (cd_AccountAlias c)) (hs_entries s)\<rparr>)"
  using assms by (simp add: enrich_def Snapshot_def candidate_key_def)

lemma available_admitted:
  assumes "unavailableReason p profile (enrich (Snapshot s) c) = ''''" and "pol_Now p = hs_now s"
  shows "admissionBlock s (admission_entry c s) c (hs_now s) = ''''"
proof -
  have acc: "\<not> (cd_AccountMaxConcurrency c > 0
      \<and> account_in_flight (TrimSpace (cd_AccountAlias c)) (hs_entries s) \<ge> cd_AccountMaxConcurrency c)"
    using assms(1) by (auto simp: unavailableReason_def Snapshot_def split: if_splits)
  show ?thesis
  proof (cases "map_of (hs_entries s) (candidate_key c)")
    case None
    with acc show ?thesis by (auto simp: admissionBlock_def entry_at_def Let_def)
  next
    case (Some e)
    let ?c = "enrich (Snapshot s) c"
    have c: "cd_ProviderCooldownUntil ?c = he_CooldownUntil e" "cd_ProviderInFlight ?c = he_InFlight e"
      "cd_ProviderMaxConcurrency ?c = he_MaxConcurrency e" "cd_ProviderQuotaExhausted ?c = he_QuotaExhausted e"
      "cd_ProviderQuotaRemaining ?c = he_QuotaRemaining e"
      "mc_CurrentConcurrency (cd_Model ?c) = he_InFlight e"
      "(cd_ProviderAvailability ?c = ProviderUnavailable) = (he_Availability e = ProviderUnavailable)"
      by (simp_all add: enriched_known [OF Some] apply_entry_def)
    have "\<not> (mc_MaxConcurrency (cd_Model c) > 0 \<and> he_InFlight e \<ge> mc_MaxConcurrency (cd_Model c))"
      using assms(1) c(6) by (auto simp: unavailableReason_def Matches_def split: if_splits)
    moreover have "\<not> (he_CooldownUntil e \<noteq> 0 \<and> hs_now s < he_CooldownUntil e)"
      "\<not> (he_Availability e = ProviderUnavailable \<and> he_CooldownUntil e = 0)"
      "\<not> (he_Availability e = ProviderUnavailable \<and> he_InFlight e > 0)"
      "\<not> (he_QuotaExhausted e \<or> he_QuotaRemaining e < 0)"
      "\<not> (he_MaxConcurrency e > 0 \<and> he_InFlight e \<ge> he_MaxConcurrency e)"
      using assms by (auto simp: unavailableReason_def c split: if_splits)
    moreover have "entry_at (hs_entries s) (candidate_key c) = e" by (simp add: entry_at_def Some)
    ultimately show ?thesis using acc unfolding admissionBlock_def Let_def by (simp; blast)
  qed
qed

text \<open>Routing and admission agree: a candidate that the route policy selects from the
  candidates enriched with a snapshot of the health store, at the same time and with no call in
  between, is admitted by \<open>Acquire\<close>; \<open>ErrProviderBusy\<close> is seen only when another caller intervened.
\<close>

theorem selected_is_admitted:
  assumes "pol_Now p = hs_now s"
    and "Select p profile (ApplyProviderHealth (Snapshot s) candidates) = Some (Inr d)"
  shows "\<exists>c \<in> set candidates. rd_Selected d = (if hs_entries s = [] then c else enrich (Snapshot s) c)
    \<and> fst (Acquire None c s) = None"
proof -
  from assms(2) obtain sc where sc: "sc \<in> set (available_candidates p profile
      (ApplyProviderHealth (Snapshot s) candidates))" "rd_Selected d = sc_candidate sc"
    by (rule Select_decision)
  from available_entry [OF sc(1)] sc(2) have
    m: "rd_Selected d \<in> set (ApplyProviderHealth (Snapshot s) candidates)"
    and u: "unavailableReason p profile (rd_Selected d) = ''''" by auto
  show ?thesis
  proof (cases "hs_entries s = []")
    case True
    with m have "rd_Selected d \<in> set candidates" by (simp add: ApplyProviderHealth_def Snapshot_def)
    moreover have "fst (Acquire None (rd_Selected d) s) = None"
      using True by (auto simp: Acquire_admission Let_def admissionBlock_def entry_at_def account_in_flight_def)
    ultimately show ?thesis using True by auto
  next
    case False
    then have "sn_Entries (Snapshot s) \<noteq> []" by (simp add: Snapshot_def)
    with m obtain c where c: "c \<in> set candidates" "rd_Selected d = enrich (Snapshot s) c"
      by (auto simp: ApplyProviderHealth_def)
    with u assms(1) have "fst (Acquire None c s) = None"
      by (simp add: Acquire_admission available_admitted)
    with c False show ?thesis by auto
  qed
qed

text \<open>A store whose one entry is the demo candidate's, with a call in flight.\<close>

definition demo_health :: MemoryHealthStore where
  "demo_health = \<lparr>hs_policy = \<lparr>hp_FailureCooldownThreshold = 2, hp_CooldownDuration = 100,
       hp_MaxCooldownDuration = 400\<rparr>,
     hs_entries = [(''a|m|p'', zero_entry\<lparr>he_AccountAlias := ''a'', he_ModelAlias := ''m'',
       he_Provider := ''p'', he_InFlight := 1\<rparr>)], hs_now = 100\<rparr>"

lemma demo_key: "candidate_key demo_candidate = ''a|m|p''"
  by (simp add: candidate_key_def ProviderHealthKey_def demo_candidate_def demo_model_def
      TrimSpace_ascii is_space_def)

theorem selected_is_admitted_witness:
  "\<exists>d. Select demo_policy DefaultTaskProfile (ApplyProviderHealth (Snapshot demo_health) [demo_candidate])
      = Some (Inr d) \<and> fst (Acquire None demo_candidate demo_health) = None"
proof -
  let ?cs = "ApplyProviderHealth (Snapshot demo_health) [demo_candidate]"
  have e: "enrich (Snapshot demo_health) demo_candidate = demo_candidate\<lparr>cd_AccountCurrentConcurrency := 1,
      cd_ProviderInFlight := 1, cd_Model := demo_model\<lparr>mc_CurrentConcurrency := 1\<rparr>\<rparr>"
    using demo_key by (simp add: enrich_def apply_entry_def Snapshot_def demo_health_def zero_entry_def settle_def
        normalizedAvailability_def account_in_flight_def candidate_key_def demo_candidate_def
        demo_model_def TrimSpace_ascii is_space_def)
  have "unavailableReason demo_policy DefaultTaskProfile (enrich (Snapshot demo_health) demo_candidate) = ''''"
    unfolding e by (simp add: demo_route_defs unavailableReason_def Matches_def)
  moreover have "?cs = [enrich (Snapshot demo_health) demo_candidate]"
    by (simp add: ApplyProviderHealth_def Snapshot_def demo_health_def)
  ultimately obtain d where d: "Select demo_policy DefaultTaskProfile ?cs = Some (Inr d)"
    by (simp add: Select_def available_candidates_def demo_policy_def Let_def)
  have "pol_Now demo_policy = hs_now demo_health" by (simp add: demo_policy_def demo_health_def)
  from selected_is_admitted [OF this d] d show ?thesis unfolding list.set by blast
qed

text \<open>Half-open admits one probe: when the cooldown of an unavailable provider is over and
  nothing blocks it otherwise, \<open>Acquire\<close> admits one call, and until that call is closed every
  further \<open>Acquire\<close> for the same provider is turned away, however much time passes.
\<close>

theorem half_open_admits_one_probe:
  assumes "e = entry_at (hs_entries s) (candidate_key c)"
    and "he_Availability e = ProviderUnavailable" and "he_CooldownUntil e \<noteq> 0"
    and "he_CooldownUntil e \<le> hs_now s" and "he_InFlight e = 0"
    and "Acquire None c s = (None, s1)" and "candidate_key c2 = candidate_key c"
  shows "Acquire None c2 (s1\<lparr>hs_now := hs_now s1 + int d\<rparr>)
    = (Some (ErrProviderBusy ''provider recovery probe is in flight''), s1\<lparr>hs_now := hs_now s1 + int d\<rparr>)"
proof -
  from assms(6) have s1: "s1 = s\<lparr>hs_entries := AList.update (candidate_key c) ((admission_entry c s)\<lparr>
      he_InFlight := he_InFlight (admission_entry c s) + 1, he_UpdatedAt := hs_now s\<rparr>) (hs_entries s)\<rparr>"
    by (auto simp: Acquire_admission Let_def split: if_splits)
  let ?s = "s1\<lparr>hs_now := hs_now s1 + int d\<rparr>"
  have "entry_at (hs_entries ?s) (candidate_key c2) = (admission_entry c s)\<lparr>
      he_InFlight := he_InFlight (admission_entry c s) + 1, he_UpdatedAt := hs_now s\<rparr>"
    by (simp add: s1 assms(7))
  then have "admissionBlock ?s (admission_entry c2 ?s) c2 (hs_now ?s) = ''provider recovery probe is in flight''"
    using assms(1-5) by (simp add: admissionBlock_def) (simp add: s1)
  then show ?thesis by (simp add: Acquire_admission)
qed

definition demo_open :: MemoryHealthStore where
  "demo_open = demo_health\<lparr>hs_entries := [(''a|m|p'', zero_entry\<lparr>he_AccountAlias := ''a'',
     he_ModelAlias := ''m'', he_Provider := ''p'', he_Availability := ProviderUnavailable,
     he_FailureStreak := 2, he_LastFailureAt := 10, he_CooldownUntil := 90\<rparr>)]\<rparr>"

theorem half_open_admits_one_probe_witness:
  "\<exists>s1. Acquire None demo_candidate demo_open = (None, s1)
    \<and> fst (Acquire None demo_candidate (s1\<lparr>hs_now := hs_now s1 + int 1000\<rparr>))
      = Some (ErrProviderBusy ''provider recovery probe is in flight'')"
proof -
  have e: "entry_at (hs_entries demo_open) (candidate_key demo_candidate) = zero_entry\<lparr>he_AccountAlias := ''a'',
     he_ModelAlias := ''m'', he_Provider := ''p'', he_Availability := ProviderUnavailable,
     he_FailureStreak := 2, he_LastFailureAt := 10, he_CooldownUntil := 90\<rparr>"
    by (simp add: demo_key) (simp add: demo_open_def entry_at_def)
  have "admissionBlock demo_open (admission_entry demo_candidate demo_open) demo_candidate (hs_now demo_open) = ''''"
    by (simp add: admissionBlock_def e)
      (simp add: demo_open_def demo_health_def demo_candidate_def demo_model_def account_in_flight_def)
  then obtain s1 where s1: "Acquire None demo_candidate demo_open = (None, s1)"
    by (simp add: Acquire_admission)
  from half_open_admits_one_probe [OF refl _ _ _ _ s1 refl, of 1000] s1 show ?thesis
    by (simp add: e) (simp add: demo_open_def demo_health_def)
qed

section \<open>Opening and closing the circuit\<close>

lemma cooldown_loop_value:
  assumes "2 * M < 2 ^ 63" and "0 < d" and "d < 2 * M" and "0 \<le> extra"
  shows "min (cooldown_loop extra d M) M = min (d * 2 ^ nat extra) M"
  using assms
proof (induction extra d M rule: cooldown_loop.induct)
  case (1 extra d M)
  show ?case
  proof (cases "extra > 0 \<and> d < M")
    case True
    with "1.prems" have w: "wrap64 (d * 2) = d * 2" by (intro wrap64_id) (simp add: in64_def)
    from True have n: "nat extra = Suc (nat (extra - 1))" by arith
    have "min (cooldown_loop (extra - 1) (wrap64 (d * 2)) M) M = min (wrap64 (d * 2) * 2 ^ nat (extra - 1)) M"
      using "1.prems" True w by (intro "1.IH") auto
    with True w n show ?thesis by (simp add: cooldown_loop.simps [of extra d M] mult.assoc)
  next
    case False
    then have l: "cooldown_loop extra d M = d" by (subst cooldown_loop.simps) auto
    have "d \<le> d * 2 ^ nat extra"
      using "1.prems"(2) mult_left_mono [of 1 "2 ^ nat extra" d] by simp
    moreover have "extra = 0 \<or> M \<le> d" using False "1.prems" by auto
    ultimately show ?thesis using l by auto
  qed
qed

lemma cooldown_value:
  assumes "0 < hp_CooldownDuration p" and "hp_CooldownDuration p \<le> hp_MaxCooldownDuration p"
    and "2 * hp_MaxCooldownDuration p < 2 ^ 63" and "hp_FailureCooldownThreshold p \<le> n"
  shows "cooldown p n = min (hp_CooldownDuration p * 2 ^ nat (n - hp_FailureCooldownThreshold p))
    (hp_MaxCooldownDuration p)"
  using assms unfolding cooldown_def by (intro cooldown_loop_value) auto

text \<open>
  Consecutive failures: the outcome is recorded after each of the given delays, and no operation
  comes in between.
\<close>

definition record_after :: "TaskOutcome \<Rightarrow> int \<Rightarrow> MemoryHealthStore \<Rightarrow> MemoryHealthStore" where
  "record_after oc d s = snd (RecordOutcome None oc (s\<lparr>hs_now := hs_now s + d\<rparr>))"

definition failed_entry :: "HealthPolicy \<Rightarrow> int \<Rightarrow> time \<Rightarrow> ProviderHealthEntry \<Rightarrow> bool" where
  "failed_entry p n now e \<longleftrightarrow> he_FailureStreak e = n \<and> he_LastFailureAt e = now
     \<and> (if n \<ge> hp_FailureCooldownThreshold p
        then he_Availability e = ProviderUnavailable \<and> he_CooldownUntil e = now + cooldown p n
        else he_Availability e = ProviderDegraded)"

lemma record_after_fields [simp]:
  "hs_policy (record_after oc d s) = hs_policy s" "hs_now (record_after oc d s) = hs_now s + d"
  by (simp_all add: record_after_def RecordOutcome_def Let_def)

lemma record_failure_step:
  assumes "\<not> oc_Success oc" and "CountsTowardProviderHealth (oc_ErrorClass oc)" and "0 \<le> d"
    and "d < hp_CooldownDuration (hs_policy s)"
    and "failed_entry (hs_policy s) n (hs_now s) (entry_at (hs_entries s) (outcome_key oc))"
  shows "failed_entry (hs_policy s) (n + 1) (hs_now s + d)
    (entry_at (hs_entries (record_after oc d s)) (outcome_key oc))"
  using assms
  by (simp add: record_after_def RecordOutcome_def judged_entry_def closed_entry_def settle_def
      failed_entry_def Let_def split: if_splits)

lemma record_failures:
  assumes "\<not> oc_Success oc" and "CountsTowardProviderHealth (oc_ErrorClass oc)"
    and "\<forall>d \<in> set ds. 0 \<le> d \<and> d < hp_CooldownDuration (hs_policy s)"
    and "failed_entry (hs_policy s) n (hs_now s) (entry_at (hs_entries s) (outcome_key oc))"
  shows "failed_entry (hs_policy s) (n + int (length ds)) (hs_now s + sum_list ds)
    (entry_at (hs_entries (fold (record_after oc) ds s)) (outcome_key oc))"
  using assms(3,4)
proof (induction ds arbitrary: s n)
  case (Cons d ds)
  have "failed_entry (hs_policy s) (n + 1) (hs_now s + d)
      (entry_at (hs_entries (record_after oc d s)) (outcome_key oc))"
    using assms(1,2) Cons.prems by (intro record_failure_step) auto
  with Cons.prems Cons.IH [of "record_after oc d s" "n + 1"] show ?case by (simp add: algebra_simps)
qed simp

text \<open>The circuit opens: after the first failure that counts, each failure that follows
  within the cooldown duration extends the streak; once the streak reaches the threshold the
  provider is in cooldown for the cooldown duration, doubled for every further failure up to the
  maximum, and a call is turned away until the cooldown ends.
\<close>

theorem failures_open_circuit:
  assumes "\<not> oc_Success oc" and "CountsTowardProviderHealth (oc_ErrorClass oc)"
    and "p = hs_policy s" and "0 < hp_CooldownDuration p" and "2 * hp_MaxCooldownDuration p < 2 ^ 63"
    and "hp_CooldownDuration p \<le> hp_MaxCooldownDuration p"
    and "\<forall>d \<in> set ds. 0 \<le> d \<and> d < hp_CooldownDuration p"
    and "map_of (hs_entries s) (outcome_key oc) = None" and "0 \<le> hs_now s"
    and "s' = fold (record_after oc) ds (snd (RecordOutcome None oc s))"
    and "hp_FailureCooldownThreshold p \<le> int (length ds) + 1"
    and "candidate_key c = outcome_key oc"
    and "until = hs_now s + sum_list ds + min (hp_CooldownDuration p
           * 2 ^ nat (int (length ds) + 1 - hp_FailureCooldownThreshold p)) (hp_MaxCooldownDuration p)"
    and "now < until"
  shows "he_CooldownUntil (entry_at (hs_entries s') (outcome_key oc)) = until
    \<and> Acquire None c (s'\<lparr>hs_now := now\<rparr>)
      = (Some (ErrProviderBusy ''provider is in cooldown''), s'\<lparr>hs_now := now\<rparr>)"
proof -
  let ?s1 = "snd (RecordOutcome None oc s)"
  have p1: "hs_policy ?s1 = p" "hs_now ?s1 = hs_now s"
    using assms(3) by (simp_all add: RecordOutcome_def Let_def)
  have "failed_entry p 1 (hs_now s) (entry_at (hs_entries ?s1) (outcome_key oc))"
    using assms(1,2,3,8)
    by (simp add: RecordOutcome_def judged_entry_def closed_entry_def settle_def failed_entry_def
        entry_at_def zero_entry_def Let_def)
  with record_failures [OF assms(1,2), of ds ?s1 1] p1 assms(7,10)
  have f: "failed_entry p (int (length ds) + 1) (hs_now s + sum_list ds)
      (entry_at (hs_entries s') (outcome_key oc))" by (simp add: add.commute)
  have "cooldown p (int (length ds) + 1) = min (hp_CooldownDuration p
      * 2 ^ nat (int (length ds) + 1 - hp_FailureCooldownThreshold p)) (hp_MaxCooldownDuration p)"
    using assms(4-6,11) by (intro cooldown_value)
  with f assms(11,13) have u: "he_CooldownUntil (entry_at (hs_entries s') (outcome_key oc)) = until"
    by (simp add: failed_entry_def)
  have "0 < min (hp_CooldownDuration p * 2 ^ nat (int (length ds) + 1 - hp_FailureCooldownThreshold p))
      (hp_MaxCooldownDuration p)"
    using assms(4,6) by simp
  moreover have "0 \<le> sum_list ds" using assms(7) by (intro sum_list_nonneg) auto
  ultimately have "until \<noteq> 0" using assms(9,13) by linarith
  with u assms(12,14) have "admissionBlock (s'\<lparr>hs_now := now\<rparr>) (admission_entry c (s'\<lparr>hs_now := now\<rparr>)) c now
      = ''provider is in cooldown''" by (simp add: admissionBlock_def)
  with u show ?thesis by (simp add: Acquire_admission)
qed

definition demo_failure :: TaskOutcome where
  "demo_failure = \<lparr>oc_RouteID = ''x'', oc_TaskID = ''t'', oc_Attempt = 1, oc_RecordedAt = 0,
     oc_TaskType = '''', oc_AccountAlias = ''a'', oc_ModelAlias = ''m'', oc_Provider = ''p'',
     oc_Success = False, oc_BusinessOutcome = '''', oc_SuccessSignal = '''', oc_FailureReason = '''',
     oc_ErrorCode = '''', oc_ErrorClass = ErrorClassTimeout, oc_LatencyMillis = 0, oc_InputTokens = 0,
     oc_OutputTokens = 0, oc_EstimatedCents = 0\<rparr>"

theorem failures_open_circuit_witness:
  "fst (Acquire None demo_candidate ((fold (record_after demo_failure) [20, 30]
      (snd (RecordOutcome None demo_failure (demo_health\<lparr>hs_entries := []\<rparr>))))\<lparr>hs_now := 300\<rparr>))
    = Some (ErrProviderBusy ''provider is in cooldown'')"
proof -
  let ?s = "demo_health\<lparr>hs_entries := []\<rparr>"
  have k: "candidate_key demo_candidate = outcome_key demo_failure"
    by (simp add: candidate_key_def outcome_key_def demo_candidate_def demo_model_def demo_failure_def)
  have "\<not> oc_Success demo_failure" "CountsTowardProviderHealth (oc_ErrorClass demo_failure)"
    by (simp_all add: demo_failure_def CountsTowardProviderHealth_def)
  from failures_open_circuit [OF this refl _ _ _ _ _ _ refl _ k refl, where s = ?s and ds = "[20, 30]" and now = 300]
  show ?thesis by (simp add: demo_health_def)
qed

text \<open>
  One success closes the circuit: the provider is available at once, with no streak
  and no cooldown, whatever its entry was; and a failure the caller caused leaves the
  availability, the streak and the cooldown of a provider that is not degraded as they were.
\<close>

theorem outcome_classes:
  assumes "e = entry_at (hs_entries s) (outcome_key oc)"
    and "e' = entry_at (hs_entries (snd (RecordOutcome None oc s))) (outcome_key oc)"
  shows "(oc_Success oc \<longrightarrow> he_Availability e' = ProviderAvailable \<and> he_FailureStreak e' = 0
      \<and> he_CooldownUntil e' = 0)
    \<and> (\<not> oc_Success oc \<and> \<not> CountsTowardProviderHealth (oc_ErrorClass oc)
        \<and> he_Availability e \<noteq> ProviderDegraded \<longrightarrow>
      he_Availability e' = he_Availability e \<and> he_FailureStreak e' = he_FailureStreak e
      \<and> he_CooldownUntil e' = he_CooldownUntil e)
    \<and> he_InFlight e' = (if he_InFlight e > 0 then he_InFlight e - 1 else he_InFlight e)"
  using assms
  by (simp add: RecordOutcome_def judged_entry_def closed_entry_def settle_def Let_def)

theorem outcome_classes_witness:
  "he_Availability (entry_at (hs_entries (snd (RecordOutcome None (demo_failure\<lparr>oc_Success := True\<rparr>)
     demo_open))) (outcome_key (demo_failure\<lparr>oc_Success := True\<rparr>))) = ProviderAvailable"
  using outcome_classes [OF refl refl, where s = demo_open and oc = "demo_failure\<lparr>oc_Success := True\<rparr>"]
  by simp

end
