(* ===== verification/LLM_Audit.thy ===== *)
theory LLM_Audit
  imports LLM_Health
begin

text \<open>
  \<open>llmkit/audit.go\<close>: the audit records, their sanitising, and the two JSONL files they are appended
  to and read back from. The two regular expressions are matched on the runes of the string, with
  the case folding Go gives \<open>(?i)\<close>: the long s and the Kelvin sign fold to \<open>s\<close> and \<open>k\<close>. A file is
  the lines a scanner yields with the error it ends with; encoding and decoding of JSON are
  parameters.
\<close>

section \<open>Records\<close>

record RouteTrace =
  tr_RouteID :: string
  tr_TaskID :: string
  tr_Attempt :: int
  tr_RecordedAt :: time
  tr_TaskType :: string
  tr_TaskProfile :: "TaskProfile option"
  tr_AccountAlias :: string
  tr_ModelAlias :: string
  tr_Provider :: string
  tr_Selected :: bool
  tr_Reason :: string
  tr_Score :: int
  tr_ScoreBreakdown :: "(string, int) gomap"
  tr_CandidateModelAliases :: "string list"
  tr_Candidates :: "CandidateScore list"
  tr_FallbackMaxAttempts :: int

record RouteAuditRecord =
  ar_Route :: RouteTrace
  ar_Outcome :: "TaskOutcome option"

text \<open>The strings behind the constants of \<open>ErrorClass\<close>.\<close>

definition error_class_names :: "(ErrorClass \<times> string) list" where
  "error_class_names =
     [(ErrorClassTransient, ''transient_error''), (ErrorClassRateLimited, ''rate_limited''),
      (ErrorClassTimeout, ''timeout''), (ErrorClassInvalidJSON, ''invalid_json''),
      (ErrorClassToolCallInvalid, ''tool_call_invalid''),
      (ErrorClassCapabilityMismatch, ''capability_mismatch''),
      (ErrorClassPolicyBlocked, ''policy_blocked''), (ErrorClassAuth, ''auth_error''),
      (ErrorClassCanceled, ''canceled''), (ErrorClassConfiguration, ''configuration_error''),
      (ErrorClassBudgetExceeded, ''budget_exceeded''), (ErrorClassPostCall, ''post_call_error''),
      (ErrorClassRequestTooLarge, ''request_too_large''),
      (ErrorClassResponseTooLarge, ''response_too_large''), (ErrorClassUsageMissing, ''usage_missing''),
      (ErrorClassRedirectBlocked, ''redirect_blocked''), (ErrorClassInvalidResponse, ''invalid_response''),
      (ErrorClassProviderBusy, ''provider_busy''), (ErrorClassUnknown, ''unknown'')]"

definition class_string :: "ErrorClass \<Rightarrow> string" where
  "class_string class' = (case class' of ErrorClassOther s \<Rightarrow> s
     | _ \<Rightarrow> (case map_of error_class_names class' of Some s \<Rightarrow> s | None \<Rightarrow> ''''))"

definition class_of_string :: "string \<Rightarrow> ErrorClass" where
  "class_of_string s =
     (case map_of (map prod.swap error_class_names) s of Some c \<Rightarrow> c | None \<Rightarrow> ErrorClassOther s)"

section \<open>Sanitising\<close>

text \<open>A letter of a \<open>(?i)\<close> pattern, given in lower case, and a word of them at the start of the runes.\<close>

definition folds_to :: "char \<Rightarrow> nat \<Rightarrow> bool" where
  "folds_to c r \<longleftrightarrow> r = byte c \<or> r + 32 = byte c \<or> (c = CHR ''s'' \<and> r = 383) \<or> (c = CHR ''k'' \<and> r = 8490)"

definition match_word :: "string \<Rightarrow> (nat \<times> string) list \<Rightarrow> bool" where
  "match_word w rs = list_all2 folds_to w (map fst (take (length w) rs))"

definition is_dash :: "nat \<Rightarrow> bool" where
  "is_dash r \<longleftrightarrow> r = 45 \<or> r = 95"

text \<open>\<open>[a-z0-9_-]\<close> under \<open>(?i)\<close>\<close>

definition token_rune :: "nat \<Rightarrow> bool" where
  "token_rune r \<longleftrightarrow> (97 \<le> r \<and> r \<le> 122) \<or> (65 \<le> r \<and> r \<le> 90) \<or> (48 \<le> r \<and> r \<le> 57) \<or> is_dash r
     \<or> r = 383 \<or> r = 8490"

text \<open>The length of the match at the start of the runes, 0 when there is none.\<close>

definition skTokenPattern :: "(nat \<times> string) list \<Rightarrow> nat" where
  "skTokenPattern rs =
     (let n = length (takeWhile (\<lambda>p. token_rune (fst p)) (drop 3 rs))
      in if match_word ''sk'' rs \<and> map fst (take 1 (drop 2 rs)) = [45] \<and> n \<ge> 8 then 3 + n else 0)"

definition credentialTokenPattern :: "(nat \<times> string) list \<Rightarrow> nat" where
  "credentialTokenPattern rs =
     (if match_word ''secret'' rs \<and> list_all is_dash (map fst (take 1 (drop 6 rs)))
         \<and> match_word ''key'' (drop 7 rs) then 10
      else if match_word ''secret'' rs \<and> match_word ''key'' (drop 6 rs) then 9
      else if match_word ''bearer'' rs then 6 else 0)"

definition ascii_runes :: "string \<Rightarrow> (nat \<times> string) list" where
  "ascii_runes s = map (\<lambda>c. (byte c, [c])) s"

text \<open>\<open>ReplaceAllString\<close>: leftmost matches that do not overlap; \<open>skip\<close> counts the runes of the match.\<close>

primrec replace_all ::
  "((nat \<times> string) list \<Rightarrow> nat) \<Rightarrow> string \<Rightarrow> nat \<Rightarrow> (nat \<times> string) list \<Rightarrow> (nat \<times> string) list" where
  "replace_all m repl skip [] = []"
| "replace_all m repl skip (r # rs) =
     (if skip > 0 then replace_all m repl (skip - 1) rs
      else if m (r # rs) > 0 then ascii_runes repl @ replace_all m repl (m (r # rs) - 1) rs
      else r # replace_all m repl 0 rs)"

definition ReplaceAllString :: "((nat \<times> string) list \<Rightarrow> nat) \<Rightarrow> string \<Rightarrow> string \<Rightarrow> string" where
  "ReplaceAllString m value repl = concat (map snd (replace_all m repl 0 (rune_chunks value)))"

definition sanitizeAuditString :: "string \<Rightarrow> string" where
  "sanitizeAuditString value =
     (let value = ReplaceAllString skTokenPattern value ''[redacted]'';
          value = ReplaceAllString credentialTokenPattern value ''credential''
      in TrimSpace value)"

definition sanitizeAuditStrings :: "string list \<Rightarrow> string list" where
  "sanitizeAuditStrings values = map sanitizeAuditString values"

definition sanitizeTaskProfile :: "TaskProfile option \<Rightarrow> TaskProfile option" where
  "sanitizeTaskProfile profile = (case profile of None \<Rightarrow> None
     | Some p \<Rightarrow> Some (p\<lparr>tp_TaskType := sanitizeAuditString (tp_TaskType p)\<rparr>))"

definition sanitizeCandidateScores :: "CandidateScore list \<Rightarrow> CandidateScore list" where
  "sanitizeCandidateScores scores = map (\<lambda>score.
     \<lparr>cs_Alias = sanitizeAuditString (cs_Alias score),
      cs_AccountAlias = sanitizeAuditString (cs_AccountAlias score),
      cs_Available = cs_Available score, cs_Score = cs_Score score,
      cs_ScoreBreakdown = copyBreakdown (cs_ScoreBreakdown score),
      cs_Reason = sanitizeAuditString (cs_Reason score)\<rparr>) scores"

definition sanitizeRouteTrace :: "time \<Rightarrow> RouteTrace \<Rightarrow> RouteTrace" where
  "sanitizeRouteTrace now trace =
     (let trace = (if tr_RecordedAt trace = 0 then trace\<lparr>tr_RecordedAt := now\<rparr> else trace)
      in trace\<lparr>tr_RouteID := sanitizeAuditString (tr_RouteID trace),
          tr_TaskID := sanitizeAuditString (tr_TaskID trace),
          tr_TaskType := sanitizeAuditString (tr_TaskType trace),
          tr_TaskProfile := sanitizeTaskProfile (tr_TaskProfile trace),
          tr_AccountAlias := sanitizeAuditString (tr_AccountAlias trace),
          tr_ModelAlias := sanitizeAuditString (tr_ModelAlias trace),
          tr_Provider := sanitizeAuditString (tr_Provider trace),
          tr_Reason := sanitizeAuditString (tr_Reason trace),
          tr_CandidateModelAliases := sanitizeAuditStrings (tr_CandidateModelAliases trace),
          tr_Candidates := sanitizeCandidateScores (tr_Candidates trace),
          tr_ScoreBreakdown := copyBreakdown (tr_ScoreBreakdown trace)\<rparr>)"

definition sanitizeTaskOutcome :: "time \<Rightarrow> TaskOutcome \<Rightarrow> TaskOutcome" where
  "sanitizeTaskOutcome now outcome =
     (let outcome = (if oc_RecordedAt outcome = 0 then outcome\<lparr>oc_RecordedAt := now\<rparr> else outcome)
      in outcome\<lparr>oc_RouteID := sanitizeAuditString (oc_RouteID outcome),
          oc_TaskID := sanitizeAuditString (oc_TaskID outcome),
          oc_TaskType := sanitizeAuditString (oc_TaskType outcome),
          oc_AccountAlias := sanitizeAuditString (oc_AccountAlias outcome),
          oc_ModelAlias := sanitizeAuditString (oc_ModelAlias outcome),
          oc_Provider := sanitizeAuditString (oc_Provider outcome),
          oc_BusinessOutcome := sanitizeAuditString (oc_BusinessOutcome outcome),
          oc_SuccessSignal := sanitizeAuditString (oc_SuccessSignal outcome),
          oc_FailureReason := sanitizeAuditString (oc_FailureReason outcome),
          oc_ErrorCode := sanitizeAuditString (oc_ErrorCode outcome),
          oc_ErrorClass := class_of_string (sanitizeAuditString (class_string (oc_ErrorClass outcome)))\<rparr>)"

section \<open>The JSONL files\<close>

text \<open>
  A file of the home directory: absent, or its lines and the error of the scanner at the end. The
  errors are the failure of the operating system, of the scanner and of the handler with its line.
\<close>

datatype audit_error =
    AuditCtx ctx_error
  | AuditIO string
  | AuditScan string
  | AuditLine string int string

record audit_file =
  af_lines :: "string list"
  af_scan_error :: "string option"

primrec read_lines ::
  "string \<Rightarrow> (string \<Rightarrow> 's \<Rightarrow> string + 's) \<Rightarrow> int \<Rightarrow> string list \<Rightarrow> 's \<Rightarrow> audit_error + 's" where
  "read_lines path handle lineNumber [] s = Inr s"
| "read_lines path handle lineNumber (line # lines) s =
     (if line = '''' then read_lines path handle (lineNumber + 1) lines s
      else case handle line s of
             Inl e \<Rightarrow> Inl (AuditLine path (lineNumber + 1) e)
           | Inr s \<Rightarrow> read_lines path handle (lineNumber + 1) lines s)"

definition readJSONL ::
  "string \<Rightarrow> string + audit_file option \<Rightarrow> (string \<Rightarrow> 's \<Rightarrow> string + 's) \<Rightarrow> 's \<Rightarrow> audit_error + 's" where
  "readJSONL path file handle s = (case file of
      Inl e \<Rightarrow> Inl (AuditIO e)
    | Inr None \<Rightarrow> Inr s
    | Inr (Some f) \<Rightarrow> (case read_lines path handle 0 (af_lines f) s of
        Inl e \<Rightarrow> Inl e
      | Inr s \<Rightarrow> (case af_scan_error f of Some e \<Rightarrow> Inl (AuditScan e) | None \<Rightarrow> Inr s)))"

text \<open>The two files under the home directory, as opening them gives them.\<close>

record audit_home =
  ah_routes :: "string + audit_file option"
  ah_outcomes :: "string + audit_file option"

record audit_codec =
  cj_trace :: "string \<Rightarrow> string + RouteTrace"
  cj_outcome :: "string \<Rightarrow> string + TaskOutcome"

definition outcomeKey :: "string \<Rightarrow> int \<Rightarrow> string" where
  "outcomeKey routeID attempt = routeID @ ''|'' @ itoa attempt"

definition matchesAuditFilter :: "string \<Rightarrow> string \<Rightarrow> bool" where
  "matchesAuditFilter taskID filter_TaskID =
     (if TrimSpace filter_TaskID \<noteq> '''' \<and> taskID \<noteq> filter_TaskID then False else True)"

definition audit_outcome_line ::
  "audit_codec \<Rightarrow> string \<Rightarrow> string \<Rightarrow> (string, TaskOutcome) gomap \<Rightarrow> string + (string, TaskOutcome) gomap" where
  "audit_outcome_line codec filter_TaskID line outcomes = (case cj_outcome codec line of
      Inl e \<Rightarrow> Inl e
    | Inr outcome \<Rightarrow>
        Inr (if \<not> matchesAuditFilter (oc_TaskID outcome) filter_TaskID then outcomes
             else AList.update (outcomeKey (oc_RouteID outcome) (oc_Attempt outcome)) outcome outcomes))"

definition audit_route_line ::
  "audit_codec \<Rightarrow> string \<Rightarrow> (string, TaskOutcome) gomap \<Rightarrow> string \<Rightarrow> RouteAuditRecord list
    \<Rightarrow> string + RouteAuditRecord list" where
  "audit_route_line codec filter_TaskID outcomes line records = (case cj_trace codec line of
      Inl e \<Rightarrow> Inl e
    | Inr trace \<Rightarrow>
        Inr (if \<not> matchesAuditFilter (tr_TaskID trace) filter_TaskID then records
             else records @ [\<lparr>ar_Route = trace,
               ar_Outcome = map_of outcomes (outcomeKey (tr_RouteID trace) (tr_Attempt trace))\<rparr>]))"

definition ReadRouteAudits ::
  "audit_codec \<Rightarrow> audit_home \<Rightarrow> string \<Rightarrow> audit_error + RouteAuditRecord list" where
  "ReadRouteAudits codec home filter_TaskID =
     (case readJSONL ''outcomes.jsonl'' (ah_outcomes home) (audit_outcome_line codec filter_TaskID) [] of
        Inl e \<Rightarrow> Inl e
      | Inr outcomes \<Rightarrow>
          readJSONL ''route-events.jsonl'' (ah_routes home) (audit_route_line codec filter_TaskID outcomes) [])"

text \<open>
  \<open>appendJSONL\<close>: the context is read on entry and again under the lock; then the line is appended to
  the file, which is created when absent. \<open>io\<close> is an error of the operating system or the encoder.
\<close>

definition append_line :: "string \<Rightarrow> string + audit_file option \<Rightarrow> string + audit_file option" where
  "append_line line file = (case file of
      Inl e \<Rightarrow> Inl e
    | Inr None \<Rightarrow> Inr (Some \<lparr>af_lines = [line], af_scan_error = None\<rparr>)
    | Inr (Some f) \<Rightarrow> Inr (Some (f\<lparr>af_lines := af_lines f @ [line]\<rparr>)))"

definition appendJSONL ::
  "ctx \<Rightarrow> string option \<Rightarrow> string \<Rightarrow> string + audit_file option \<Rightarrow> audit_error option \<times> (string + audit_file option)" where
  "appendJSONL ctx io line file = (case ctx of
      Some e \<Rightarrow> (Some (AuditCtx e), file)
    | None \<Rightarrow> (case io of Some e \<Rightarrow> (Some (AuditIO e), file) | None \<Rightarrow> (None, append_line line file)))"

definition RecordRoute ::
  "(RouteTrace \<Rightarrow> string) \<Rightarrow> time \<Rightarrow> ctx \<Rightarrow> ctx \<Rightarrow> string option \<Rightarrow> RouteTrace \<Rightarrow> audit_home
    \<Rightarrow> audit_error option \<times> audit_home" where
  "RecordRoute encode now ctx ctx' io trace home = (case ctx of
      Some e \<Rightarrow> (Some (AuditCtx e), home)
    | None \<Rightarrow> (case appendJSONL ctx' io (encode (sanitizeRouteTrace now trace)) (ah_routes home) of
        (err, file) \<Rightarrow> (err, home\<lparr>ah_routes := file\<rparr>)))"

definition RecordTaskOutcome ::
  "(TaskOutcome \<Rightarrow> string) \<Rightarrow> time \<Rightarrow> ctx \<Rightarrow> ctx \<Rightarrow> string option \<Rightarrow> TaskOutcome \<Rightarrow> audit_home
    \<Rightarrow> audit_error option \<times> audit_home" where
  "RecordTaskOutcome encode now ctx ctx' io outcome home = (case ctx of
      Some e \<Rightarrow> (Some (AuditCtx e), home)
    | None \<Rightarrow> (case appendJSONL ctx' io (encode (sanitizeTaskOutcome now outcome)) (ah_outcomes home) of
        (err, file) \<Rightarrow> (err, home\<lparr>ah_outcomes := file\<rparr>)))"

section \<open>Redaction\<close>

text \<open>No match of the pattern starts anywhere in the runes.\<close>

primrec clean_of :: "((nat \<times> string) list \<Rightarrow> nat) \<Rightarrow> (nat \<times> string) list \<Rightarrow> bool" where
  "clean_of m [] = True"
| "clean_of m (r # rs) = (m (r # rs) = 0 \<and> clean_of m rs)"

lemma clean_of_suffix: "clean_of m (ps @ rs) \<Longrightarrow> rs \<noteq> [] \<Longrightarrow> m rs = 0"
  by (induction ps) (auto simp: neq_Nil_conv)

text \<open>A prefix of the output is a prefix of the input, or ends inside a first replacement.\<close>

lemma replace_all_prefix:
  "replace_all m repl 0 rs = x @ z \<Longrightarrow>
     (\<exists>z'. rs = x @ z') \<or> (\<exists>u y t v. x = u @ y \<and> y \<noteq> [] \<and> ascii_runes repl @ t = y @ v)"
proof (induction rs arbitrary: x)
  case (Cons r rs)
  show ?case
  proof (cases "x = [] \<or> m (r # rs) > 0")
    case True
    then show ?thesis
    proof
      assume m: "m (r # rs) > 0"
      show ?thesis
      proof (cases "x = []")
        case False
        from m Cons.prems have "ascii_runes repl @ replace_all m repl (m (r # rs) - Suc 0) rs = x @ z" by simp
        with False have "x = [] @ x \<and> x \<noteq> []
            \<and> ascii_runes repl @ replace_all m repl (m (r # rs) - Suc 0) rs = x @ z" by simp
        then show ?thesis by blast
      qed simp
    qed simp
  next
    case False
    with Cons.prems obtain x' where x: "x = r # x'" and "replace_all m repl 0 rs = x' @ z"
      by (cases x) auto
    from Cons.IH [OF this(2)] show ?thesis
    proof
      assume "\<exists>u y t v. x' = u @ y \<and> y \<noteq> [] \<and> ascii_runes repl @ t = y @ v"
      then obtain u y t v where "x' = u @ y" "y \<noteq> []" "ascii_runes repl @ t = y @ v" by blast
      with x have "x = (r # u) @ y \<and> y \<noteq> [] \<and> ascii_runes repl @ t = y @ v" by simp
      then show ?thesis by blast
    qed (use x in auto)
  qed
qed simp

text \<open>
  When no match can start inside the replacement, and a match of the output that reaches into a
  replacement is impossible, the output has no match.
\<close>

lemma replace_all_clean:
  assumes "\<And>r rs z x. m (r # rs) = 0 \<Longrightarrow> replace_all m repl 0 rs = z \<Longrightarrow> m (r # z) = 0"
    and "\<And>p q z. repl = p @ q \<Longrightarrow> q \<noteq> [] \<Longrightarrow> m (ascii_runes q @ z) = 0"
  shows "clean_of m (replace_all m repl skip rs)"
proof (induction rs arbitrary: skip)
  case (Cons r rs)
  have app: "clean_of m (ascii_runes q @ z)" if "clean_of m z" "repl = p @ q" for p q z
    using that
  proof (induction q arbitrary: p)
    case (Cons c q)
    from Cons.prems(2) assms(2) [of p "c # q" z] have "m (ascii_runes (c # q) @ z) = 0" by simp
    with Cons.IH [of "p @ [c]"] Cons.prems show ?case by (simp add: ascii_runes_def)
  qed (simp add: ascii_runes_def)
  show ?case
    using Cons.IH assms(1) app [of _ "[]" repl] by auto
qed simp

lemma match_word_cut:
  assumes "match_word w rs"
  obtains x z where "rs = x @ z" and "list_all2 folds_to w (map fst x)" and "length x = length w"
proof -
  have "length w = length (take (length w) rs)"
    using assms by (metis match_word_def length_map list_all2_lengthD)
  with assms that [of "take (length w) rs" "drop (length w) rs"] show thesis
    by (simp add: match_word_def)
qed

lemma match_word_append: "match_word w x \<Longrightarrow> match_word w (x @ z)"
  by (elim match_word_cut) (simp add: match_word_def)

lemma match_word_Cons:
  "match_word (c # w) rs = (rs \<noteq> [] \<and> folds_to c (fst (hd rs)) \<and> match_word w (tl rs))"
  "match_word [] rs = True"
  by (cases rs; simp add: match_word_def)+

text \<open>Outputs of \<open>skTokenPattern\<close>: the replacement starts with a bracket, which no token has.\<close>

lemma sk_pos_iff:
  "skTokenPattern rs > 0 \<longleftrightarrow> (\<exists>x z. rs = x @ z \<and> length x = 11 \<and> match_word ''sk'' x
     \<and> fst (x ! 2) = 45 \<and> (\<forall>p \<in> set (drop 3 x). token_rune (fst p)))"
  (is "_ = ?R")
proof
  assume "skTokenPattern rs > 0"
  then have w: "match_word ''sk'' rs" "map fst (take 1 (drop 2 rs)) = [45]"
    and n: "8 \<le> length (takeWhile (\<lambda>p. token_rune (fst p)) (drop 3 rs))"
    by (auto simp: skTokenPattern_def Let_def split: if_splits)
  from n length_takeWhile_le [of "\<lambda>p. token_rune (fst p)" "drop 3 rs"] have l: "11 \<le> length rs" by simp
  have "take 8 (drop 3 rs) = take 8 (takeWhile (\<lambda>p. token_rune (fst p)) (drop 3 rs))"
    using n by (metis takeWhile_eq_take take_take min.absorb1)
  then have t: "\<forall>p \<in> set (take 8 (drop 3 rs)). token_rune (fst p)"
    by (metis in_set_takeD set_takeWhileD)
  have d: "drop 3 (take 11 rs) = take 8 (drop 3 rs)" by (simp add: drop_take)
  have "match_word ''sk'' (take 11 rs)" using w(1) by (simp add: match_word_def)
  moreover have "fst (take 11 rs ! 2) = 45"
    using w(2) l by (cases rs; cases "tl rs"; cases "tl (tl rs)") auto
  ultimately show ?R using l t d by (intro exI [of _ "take 11 rs"] exI [of _ "drop 11 rs"]) simp
next
  assume ?R
  then obtain x z where x: "rs = x @ z" "length x = 11" "match_word ''sk'' x" "fst (x ! 2) = 45"
    "\<forall>p \<in> set (drop 3 x). token_rune (fst p)" by blast
  have "8 \<le> length (takeWhile (\<lambda>p. token_rune (fst p)) (drop 3 rs))"
    using x(1,2,5) by (simp add: takeWhile_append2)
  moreover have "match_word ''sk'' rs" using x(1,3) by (simp add: match_word_append)
  moreover have "map fst (take 1 (drop 2 rs)) = [45]"
    using x(1,2,4) by (simp add: take_Suc_conv_app_nth [of 0] hd_drop_conv_nth take_Suc)
  ultimately show "skTokenPattern rs > 0" by (simp add: skTokenPattern_def)
qed

lemma sk_window_plain:
  assumes "length x = 11" and "match_word ''sk'' x" and "fst (x ! 2) = 45"
    and "\<forall>p \<in> set (drop 3 x). token_rune (fst p)" and "p \<in> set x"
  shows "fst p \<noteq> 91"
proof -
  obtain a b c y where x: "x = a # b # c # y"
    using assms(1) by (cases x; cases "tl x"; cases "tl (tl x)") auto
  with assms(2-5) show ?thesis
    by (auto simp: match_word_Cons folds_to_def token_rune_def is_dash_def)
qed

lemma sk_clean: "clean_of skTokenPattern (replace_all skTokenPattern ''[redacted]'' skip rs)"
proof (rule replace_all_clean)
  fix r rs z
  assume m: "skTokenPattern (r # rs) = 0" and z: "replace_all skTokenPattern ''[redacted]'' 0 rs = z"
  show "skTokenPattern (r # z) = 0"
  proof (rule ccontr)
    assume "skTokenPattern (r # z) \<noteq> 0"
    then obtain x z' where x: "r # z = x @ z'" "length x = 11" "match_word ''sk'' x"
      "fst (x ! 2) = 45" "\<forall>p \<in> set (drop 3 x). token_rune (fst p)"
      using sk_pos_iff [of "r # z"] by auto
    then obtain x' where x': "x = r # x'" "z = x' @ z'" by (cases x) auto
    from replace_all_prefix [of skTokenPattern "''[redacted]''" rs x' z'] z x'(2)
    consider (pre) z'' where "rs = x' @ z''"
      | (cut) u y t v where "x' = u @ y" "y \<noteq> []" "ascii_runes ''[redacted]'' @ t = y @ v" by auto
    then show False
    proof cases
      case pre
      with x x'(1) have "skTokenPattern (r # rs) > 0"
        by (subst sk_pos_iff) (intro exI [of _ x] exI [of _ z''], simp)
      with m show False by simp
    next
      case cut
      then obtain q y' where "y = q # y'" "fst q = 91" by (cases y) (auto simp: ascii_runes_def)
      with cut x' have "q \<in> set x" by simp
      with sk_window_plain [OF x(2-5)] \<open>fst q = 91\<close> show False by simp
    qed
  qed
next
  fix p q z
  assume "''[redacted]'' = p @ q" "q \<noteq> ([] :: string)"
  then have "hd q \<in> set ''[redacted]''" by (metis hd_in_set Un_iff set_append)
  then have "\<not> match_word ''sk'' (ascii_runes q @ z)"
    using \<open>q \<noteq> []\<close> by (cases q) (auto simp: match_word_Cons ascii_runes_def folds_to_def)
  then show "skTokenPattern (ascii_runes q @ z) = 0" by (simp add: skTokenPattern_def)
qed

lemma match_word_intro: "list_all2 folds_to w (map fst x) \<Longrightarrow> match_word w (x @ z)"
  using list_all2_lengthD [of folds_to w "map fst x"] by (simp add: match_word_def)

text \<open>Outputs of \<open>credentialTokenPattern\<close>: a match cannot run into the word \<open>credential\<close>.\<close>

definition cred_word :: "nat list \<Rightarrow> bool" where
  "cred_word x \<longleftrightarrow> list_all2 folds_to ''bearer'' x \<or> list_all2 folds_to ''secretkey'' x
     \<or> (\<exists>a d b. x = a @ d # b \<and> list_all2 folds_to ''secret'' a \<and> is_dash d \<and> list_all2 folds_to ''key'' b)"

lemma cred_pos_iff: "credentialTokenPattern rs > 0 \<longleftrightarrow> (\<exists>x z. rs = x @ z \<and> cred_word (map fst x))"
proof
  assume "credentialTokenPattern rs > 0"
  then consider (dash) "match_word ''secret'' rs" "list_all is_dash (map fst (take 1 (drop 6 rs)))"
      "match_word ''key'' (drop 7 rs)"
    | (key) "match_word ''secret'' rs" "match_word ''key'' (drop 6 rs)"
    | (bearer) "match_word ''bearer'' rs"
    by (auto simp: credentialTokenPattern_def split: if_splits)
  then show "\<exists>x z. rs = x @ z \<and> cred_word (map fst x)"
  proof cases
    case dash
    from dash(1) obtain x z where x: "rs = x @ z" "list_all2 folds_to ''secret'' (map fst x)" "length x = 6"
      by (rule match_word_cut) simp
    from dash(3) have "z \<noteq> []" using x by (auto simp: match_word_Cons)
    then obtain d z1 where z: "z = d # z1" by (cases z) auto
    with dash(3) x have "match_word ''key'' z1" by simp
    then obtain y z2 where y: "z1 = y @ z2" "list_all2 folds_to ''key'' (map fst y)" "length y = 3"
      by (rule match_word_cut) simp
    from x z y dash(2) have "rs = (x @ d # y) @ z2 \<and> cred_word (map fst (x @ d # y))"
      unfolding cred_word_def by (intro conjI disjI2 exI [of _ "map fst x"] exI [of _ "fst d"] exI [of _ "map fst y"]) simp_all
    then show ?thesis by blast
  next
    case key
    from key(1) obtain x z where x: "rs = x @ z" "list_all2 folds_to ''secret'' (map fst x)" "length x = 6"
      by (rule match_word_cut) simp
    with key(2) have "match_word ''key'' z" by simp
    then obtain y z2 where y: "z = y @ z2" "list_all2 folds_to ''key'' (map fst y)"
      by (rule match_word_cut)
    from list_all2_appendI [OF x(2) y(2)] x y have "rs = (x @ y) @ z2 \<and> cred_word (map fst (x @ y))"
      by (simp add: cred_word_def)
    then show ?thesis by blast
  next
    case bearer
    then show ?thesis by (elim match_word_cut) (auto simp: cred_word_def)
  qed
next
  assume "\<exists>x z. rs = x @ z \<and> cred_word (map fst x)"
  then obtain x z where x: "rs = x @ z" "cred_word (map fst x)" by blast
  from x(2) consider (dash) a d b where "map fst x = a @ d # b" "list_all2 folds_to ''secret'' a" "is_dash d"
      "list_all2 folds_to ''key'' b"
    | (key) "list_all2 folds_to ''secretkey'' (map fst x)"
    | (bearer) "list_all2 folds_to ''bearer'' (map fst x)"
    unfolding cred_word_def by blast
  then show "credentialTokenPattern rs > 0"
  proof cases
    case dash
    then obtain x1 p x2 where p: "x = x1 @ p # x2" "map fst x1 = a" "fst p = d" "map fst x2 = b"
      by (auto simp: map_eq_append_conv map_eq_Cons_conv)
    have "length x1 = 6" using list_all2_lengthD [OF dash(2)] p(2) by auto
    with p dash x(1) match_word_intro [of "''secret''" x1 "p # x2 @ z"] match_word_intro [of "''key''" x2 z]
    show ?thesis by (simp add: credentialTokenPattern_def)
  next
    case key
    then obtain x1 x2 where p: "x = x1 @ x2" "list_all2 folds_to ''secret'' (map fst x1)"
      "list_all2 folds_to ''key'' (map fst x2)"
      using list_all2_append1 [of folds_to "''secret''" "''key''" "map fst x"] by (auto simp: map_eq_append_conv)
    have "length x1 = 6" using list_all2_lengthD [OF p(2)] by simp
    with p x(1) match_word_intro [of "''secret''" x1 "x2 @ z"] match_word_intro [of "''key''" x2 z]
    show ?thesis by (simp add: credentialTokenPattern_def)
  next
    case bearer
    with x(1) match_word_intro [of "''bearer''" x z] show ?thesis by (simp add: credentialTokenPattern_def)
  qed
qed

lemma cred_nth:
  assumes "cred_word x" and "0 < i" and "i < length x" and "x ! i = 99"
  shows "i = 2 \<and> 5 < length x \<and> x ! 5 \<noteq> 100"
proof -
  have sec: "list_all2 folds_to ''secret'' (take 6 x) \<and> 6 \<le> length x \<and> (\<forall>r \<in> set (drop 6 x). r \<noteq> 99)
      \<or> list_all2 folds_to ''bearer'' x"
    using assms(1) unfolding cred_word_def
  proof (elim disjE exE conjE)
    assume "list_all2 folds_to ''secretkey'' x"
    then obtain a b where a: "x = a @ b" "list_all2 folds_to ''secret'' a" "list_all2 folds_to ''key'' b"
      using list_all2_append1 [of folds_to "''secret''" "''key''" x] by auto
    then have "length a = 6" using list_all2_lengthD [OF a(2)] by simp
    moreover have "\<forall>r \<in> set b. r \<noteq> 99" using a(3) by (auto simp: list_all2_Cons1 folds_to_def)
    ultimately show ?thesis using a(1,2) by simp
  next
    fix a d b
    assume a: "x = a @ d # b" "list_all2 folds_to ''secret'' a" "is_dash d" "list_all2 folds_to ''key'' b"
    then have "length a = 6" using list_all2_lengthD [OF a(2)] by simp
    moreover have "\<forall>r \<in> set (d # b). r \<noteq> 99"
      using a(3,4) by (auto simp: is_dash_def list_all2_Cons1 folds_to_def)
    ultimately show ?thesis using a(1,2) by simp
  qed simp
  then show ?thesis
  proof
    assume s: "list_all2 folds_to ''secret'' (take 6 x) \<and> 6 \<le> length x \<and> (\<forall>r \<in> set (drop 6 x). r \<noteq> 99)"
    then have "i < 6" using assms(3,4) by (metis in_set_conv_nth length_drop le_add_diff_inverse nth_drop not_less diff_less_mono)
    moreover have "folds_to (''secret'' ! j) (x ! j)" if "j < 6" for j
      using s that list_all2_nthD [of folds_to "''secret''" "take 6 x" j] by simp
    from this [of 1] this [of 3] this [of 4] this [of 5] have
      "x ! 1 \<noteq> 99" "x ! 3 \<noteq> 99" "x ! 4 \<noteq> 99" "x ! 5 \<noteq> 99" "x ! 5 \<noteq> 100"
      by (auto simp: folds_to_def)
    moreover have "i = 1 \<or> i = 2 \<or> i = 3 \<or> i = 4 \<or> i = 5" using assms(2) \<open>i < 6\<close> by arith
    ultimately show ?thesis using s assms(4) by (elim disjE) simp_all
  next
    assume b: "list_all2 folds_to ''bearer'' x"
    then have "folds_to (''bearer'' ! i) 99" and "i < length ''bearer''"
      using list_all2_nthD2 [OF b assms(3)] list_all2_lengthD [OF b] assms(3,4) by auto
    moreover have "\<forall>c \<in> set ''bearer''. \<not> folds_to c 99" by (simp add: folds_to_def)
    ultimately show ?thesis by (metis nth_mem)
  qed
qed

lemma cred_cut:
  assumes "cred_word (r # u @ y)" and "y \<noteq> []" and "map byte ''credential'' @ t = y @ v"
  shows False
proof -
  from assms(2,3) have "y ! 0 = 99" by (cases y) auto
  with assms(2) have "(r # u @ y) ! Suc (length u) = 99" by (simp add: nth_append)
  with cred_nth [OF assms(1), of "Suc (length u)"] assms(2)
  have i: "length u = 1" "3 < length y" "y ! 3 \<noteq> 100" by (auto simp: nth_append nth_Cons')
  moreover have "(map byte ''credential'' @ t) ! 3 = y ! 3" using i(2) assms(3) by (simp only: nth_append if_True)
  ultimately show False by simp
qed

lemma cred_clean: "clean_of credentialTokenPattern (replace_all credentialTokenPattern ''credential'' skip rs)"
proof (rule replace_all_clean)
  fix r rs z
  assume m: "credentialTokenPattern (r # rs) = 0"
    and z: "replace_all credentialTokenPattern ''credential'' 0 rs = z"
  show "credentialTokenPattern (r # z) = 0"
  proof (rule ccontr)
    assume "credentialTokenPattern (r # z) \<noteq> 0"
    then obtain x z' where x: "r # z = x @ z'" "cred_word (map fst x)" using cred_pos_iff [of "r # z"] by auto
    then obtain x' where x': "x = r # x'" "z = x' @ z'" by (cases x) (auto simp: cred_word_def)
    from replace_all_prefix [of credentialTokenPattern "''credential''" rs x' z'] z x'(2)
    consider (pre) z'' where "rs = x' @ z''"
      | (cut) u y t v where "x' = u @ y" "y \<noteq> []" "ascii_runes ''credential'' @ t = y @ v" by auto
    then show False
    proof cases
      case pre
      with x x'(1) have "credentialTokenPattern (r # rs) > 0"
        by (subst cred_pos_iff) (intro exI [of _ x] exI [of _ z''], simp)
      with m show False by simp
    next
      case cut
      have "map byte ''credential'' @ map fst t = map fst y @ map fst v"
        using arg_cong [OF cut(3), of "map fst"] by (simp add: ascii_runes_def)
      with cred_cut [of "fst r" "map fst u" "map fst y"] x(2) x'(1) cut(1,2) show False by simp
    qed
  qed
next
  fix p q z
  assume "''credential'' = p @ q" "q \<noteq> ([] :: string)"
  then have "hd q \<in> set ''credential''" by (metis hd_in_set Un_iff set_append)
  then have "\<not> folds_to (CHR ''s'') (byte (hd q)) \<and> \<not> folds_to (CHR ''b'') (byte (hd q))"
    by (auto simp: folds_to_def)
  with \<open>q \<noteq> []\<close> show "credentialTokenPattern (ascii_runes q @ z) = 0"
    by (cases q) (simp_all add: credentialTokenPattern_def match_word_Cons ascii_runes_def)
qed

text \<open>Every chunk is one ASCII byte or bytes that are not ASCII, so ASCII text is found rune by rune.\<close>

definition chunk_ok :: "nat \<times> string \<Rightarrow> bool" where
  "chunk_ok p \<longleftrightarrow> (\<exists>c. p = (byte c, [c]) \<and> byte c < 128) \<or> (snd p \<noteq> [] \<and> (\<forall>c \<in> set (snd p). \<not> byte c < 128))"

lemma decode_rune_chunk:
  assumes "s \<noteq> []"
  shows "chunk_ok (fst (decode_rune s), take (max 1 (snd (decode_rune s))) s)"
proof (cases "byte (hd s) < 128")
  case True
  with assms show ?thesis by (cases s) (auto simp: decode_rune_ascii chunk_ok_def)
next
  case False
  obtain c t where s: "s = c # t" using assms by (cases s) auto
  have w: "snd (decode_rune s) - 1 \<le> length (takeWhile is_cont (map byte (take 3 t)))"
    unfolding decode_rune_def s using False
    by (auto simp: s Let_def split: list.splits)
  have cont: "\<not> byte d < 128" if "d \<in> set (take (snd (decode_rune s) - 1) t)" for d
  proof -
    let ?k = "length (takeWhile is_cont (map byte (take 3 t)))"
    have "map byte (take ?k t) = takeWhile is_cont (map byte (take 3 t))"
    proof -
      have "?k \<le> 3" using length_takeWhile_le [of is_cont "map byte (take 3 t)"] by simp
      then have "take ?k (map byte (take 3 t)) = map byte (take ?k t)" by (simp add: take_map min_absorb1)
      then show ?thesis by (metis takeWhile_eq_take)
    qed
    moreover have "d \<in> set (take ?k t)" using that w by (meson set_take_subset_set_take subsetD)
    ultimately have "is_cont (byte d)" by (metis image_eqI set_map set_takeWhileD)
    then show ?thesis by (simp add: is_cont_def)
  qed
  show ?thesis
    using False cont s by (cases "snd (decode_rune s)") (auto simp: chunk_ok_def)
qed

lemma rune_chunks_ok: "\<forall>p \<in> set (rune_chunks s). chunk_ok p"
proof (induction s rule: rune_chunks.induct)
  case (1 s)
  then show ?case
    using decode_rune_chunk [of s] by (cases "s = []") (simp_all add: rune_chunks.simps [of s] Let_def)
qed

lemma replace_all_ok:
  assumes "\<forall>p \<in> set rs. chunk_ok p" and "\<forall>c \<in> set repl. byte c < 128"
  shows "\<forall>p \<in> set (replace_all m repl skip rs). chunk_ok p"
  using assms(1)
proof (induction rs arbitrary: skip)
  case (Cons r rs)
  have "\<forall>p \<in> set (ascii_runes repl). chunk_ok p" using assms(2) by (auto simp: ascii_runes_def chunk_ok_def)
  with Cons show ?case by (auto simp: ball_Un)
qed simp

lemma ascii_found_here:
  assumes "\<forall>p \<in> set rs. chunk_ok p" and "concat (map snd rs) = x @ b" and "\<forall>c \<in> set x. byte c < 128"
  shows "\<exists>q. rs = ascii_runes x @ q"
  using assms
proof (induction x arbitrary: rs)
  case (Cons c x)
  from Cons.prems(1,2) obtain r rs' where rs: "rs = r # rs'" by (cases rs) auto
  have "snd r \<noteq> []" using Cons.prems(1) rs by (auto simp: chunk_ok_def)
  then have "c \<in> set (snd r)" using Cons.prems(2) rs by (cases "snd r") auto
  then have r: "r = (byte c, [c])" using Cons.prems(1,3) rs by (auto simp: chunk_ok_def)
  with Cons.prems rs Cons.IH [of rs'] obtain q where "rs' = ascii_runes x @ q" by auto
  with rs r show ?case by (simp add: ascii_runes_def)
qed (simp add: ascii_runes_def)

lemma ascii_found:
  assumes "\<forall>p \<in> set rs. chunk_ok p" and "concat (map snd rs) = a @ x @ b" and "\<forall>c \<in> set x. byte c < 128"
  shows "\<exists>p q. rs = p @ ascii_runes x @ q"
proof (cases "x = []")
  case False
  show ?thesis
    using assms(1,2)
  proof (induction rs arbitrary: a)
    case (Cons r rs)
    have eq: "snd r @ concat (map snd rs) = a @ x @ b" using Cons.prems by simp
    show ?case
    proof (cases "a = []")
      case True
      with Cons.prems assms(3) ascii_found_here [of "r # rs" x b] obtain q where "r # rs = [] @ ascii_runes x @ q" by auto
      then show ?thesis by blast
    next
      case a: False
      have "length (snd r) \<le> length a"
      proof (rule ccontr)
        assume l: "\<not> length (snd r) \<le> length a"
        then have "snd r ! length a = (a @ x @ b) ! length a" by (metis eq nth_append not_le)
        then have "snd r ! length a = hd x" using False by (simp add: nth_append hd_conv_nth)
        then have "hd x \<in> set (snd r)" using l by (metis not_le nth_mem)
        moreover have "byte (hd x) < 128" using False assms(3) by simp
        ultimately have "length (snd r) = 1" using Cons.prems(1) by (auto simp: chunk_ok_def)
        with l a show False by (cases a) auto
      qed
      then obtain a' where "a = snd r @ a'" using eq
        by (metis append_eq_append_conv_if append_take_drop_id)
      with eq have "concat (map snd rs) = a' @ x @ b" by simp
      with Cons.IH [of a'] Cons.prems(1) obtain p q where "rs = p @ ascii_runes x @ q" by auto
      then have "r # rs = (r # p) @ ascii_runes x @ q" by simp
      then show ?thesis by blast
    qed
  qed (use False in simp)
next
  case True
  then have "rs = [] @ ascii_runes x @ rs" by (simp add: ascii_runes_def)
  then show ?thesis by blast
qed

text \<open>Trimming only cuts off both ends.\<close>

lemma TrimSpace_cut: "\<exists>a b. s = a @ TrimSpace s @ b"
proof -
  let ?P = "\<lambda>p. is_space (fst p)" and ?c = "\<lambda>xs. concat (map snd xs)"
  let ?d = "dropWhile ?P (rune_chunks s)"
  have "?d = rev (dropWhile ?P (rev ?d)) @ rev (takeWhile ?P (rev ?d))"
    by (metis rev_append rev_rev_ident takeWhile_dropWhile_id)
  then have "?c ?d = TrimSpace s @ ?c (rev (takeWhile ?P (rev ?d)))"
    unfolding TrimSpace_def by (metis concat_append map_append)
  moreover have "s = ?c (takeWhile ?P (rune_chunks s)) @ ?c ?d"
    by (metis concat_append concat_rune_chunks map_append takeWhile_dropWhile_id)
  ultimately show ?thesis by metis
qed

text \<open>The text contains none of the words, whatever the case of its letters.\<close>

definition lower_ascii :: "char \<Rightarrow> char" where
  "lower_ascii c = (if 65 \<le> byte c \<and> byte c \<le> 90 then char_of (byte c + 32) else c)"

definition credential_words :: "string list" where
  "credential_words = [''bearer'', ''secretkey'', ''secret_key'', ''secret-key'']"

lemma folds_lower: "byte c < 128 \<Longrightarrow> folds_to (lower_ascii c) (byte c)"
  by (simp add: folds_to_def lower_ascii_def)

lemma list_folds_lower:
  "\<forall>c \<in> set x. byte c < 128 \<Longrightarrow> list_all2 folds_to (map lower_ascii x) (map byte x)"
  by (induction x) (simp_all add: folds_lower)

lemma lower_ascii_bound: "byte (lower_ascii c) < 128 \<Longrightarrow> byte c < 128"
  by (auto simp: lower_ascii_def split: if_splits)

lemma lower_ascii_dash: "is_dash (byte (lower_ascii c)) \<Longrightarrow> is_dash (byte c)"
  by (auto simp: lower_ascii_def is_dash_def split: if_splits)

lemma lower_ascii_minus: "lower_ascii c = CHR ''-'' \<Longrightarrow> byte c = 45"
proof -
  assume "lower_ascii c = CHR ''-''"
  then have "byte (lower_ascii c) = 45" by simp
  then show ?thesis by (auto simp: lower_ascii_def split: if_splits)
qed

lemma map_around:
  "map f x = a @ d # b \<Longrightarrow> \<exists>x1 c x2. x = x1 @ c # x2 \<and> map f x1 = a \<and> f c = d \<and> map f x2 = b"
  by (auto simp: map_eq_append_conv map_eq_Cons_conv)

lemma ReplaceAllString_runes:
  assumes "\<forall>c \<in> set repl. byte c < 128" and "ReplaceAllString m s repl = a @ x @ b"
    and "\<forall>c \<in> set x. byte c < 128"
  obtains p q where "replace_all m repl 0 (rune_chunks s) = p @ ascii_runes x @ q"
  using ascii_found [OF replace_all_ok [OF rune_chunks_ok [of s] assms(1), of m 0], of a x b] assms(2,3)
  by (auto simp: ReplaceAllString_def)

lemma no_credential_words:
  assumes "ReplaceAllString credentialTokenPattern s ''credential'' = a @ x @ b"
  shows "map lower_ascii x \<notin> set credential_words"
proof
  assume w: "map lower_ascii x \<in> set credential_words"
  have "\<forall>c \<in> set (map lower_ascii x). byte c < 128"
    using w by (auto simp: credential_words_def)
  then have asc: "\<forall>c \<in> set x. byte c < 128" using lower_ascii_bound by auto
  obtain p q where r: "replace_all credentialTokenPattern ''credential'' 0 (rune_chunks s) = p @ ascii_runes x @ q"
    by (rule ReplaceAllString_runes [OF _ assms asc]) simp
  have l: "list_all2 folds_to (map lower_ascii x) (map byte x)" using asc by (rule list_folds_lower)
  have "cred_word (map byte x)"
  proof (cases "map lower_ascii x = ''bearer'' \<or> map lower_ascii x = ''secretkey''")
    case True
    with l show ?thesis by (auto simp: cred_word_def)
  next
    case False
    with w obtain d where d: "map lower_ascii x = ''secret'' @ d # ''key''" "is_dash (byte d)"
      by (auto simp: credential_words_def is_dash_def)
    from map_around [OF d(1)] obtain x1 c x2 where x: "x = x1 @ c # x2" "map lower_ascii x1 = ''secret''"
      "lower_ascii c = d" "map lower_ascii x2 = ''key''"
      by (elim exE conjE)
    have "is_dash (byte c)" using x(3) d(2) lower_ascii_dash [of c] by simp
    moreover have "list_all2 folds_to ''secret'' (map byte x1)" "list_all2 folds_to ''key'' (map byte x2)"
      using list_folds_lower [of x1] list_folds_lower [of x2] x asc by simp_all
    moreover have "map byte x = map byte x1 @ byte c # map byte x2" using x(1) by simp
    ultimately show ?thesis unfolding cred_word_def by blast
  qed
  then have "credentialTokenPattern (ascii_runes x @ q) > 0"
    by (subst cred_pos_iff) (intro exI [of _ "ascii_runes x"] exI [of _ q], simp add: ascii_runes_def comp_def)
  moreover have "x \<noteq> []" using w by (auto simp: credential_words_def)
  ultimately show False
    using clean_of_suffix [of credentialTokenPattern p "ascii_runes x @ q"]
      cred_clean [of 0 "rune_chunks s"] r by (simp add: ascii_runes_def)
qed

definition sk_token :: "string \<Rightarrow> bool" where
  "sk_token x \<longleftrightarrow> (\<forall>c \<in> set x. byte c < 128) \<and> length x \<ge> 11 \<and> map lower_ascii (take 3 x) = ''sk-''
     \<and> (\<forall>c \<in> set (drop 3 x). token_rune (byte c))"

lemma sk_token_pos:
  assumes "sk_token x"
  shows "skTokenPattern (ascii_runes x @ q) > 0"
proof -
  obtain c d e y where x: "x = c # d # e # y" and y: "8 \<le> length y"
    using assms by (cases x; cases "tl x"; cases "tl (tl x)") (auto simp: sk_token_def)
  have "byte e = 45"
    using assms x by (intro lower_ascii_minus) (simp add: sk_token_def)
  have f: "folds_to (CHR ''s'') (byte c)" "folds_to (CHR ''k'') (byte d)"
    using assms x folds_lower [of c] folds_lower [of d] by (simp_all add: sk_token_def)
  have "takeWhile (\<lambda>p. token_rune (fst p)) (ascii_runes y @ q)
      = ascii_runes y @ takeWhile (\<lambda>p. token_rune (fst p)) q"
    using assms x by (intro takeWhile_append2) (auto simp: sk_token_def ascii_runes_def)
  with y f \<open>byte e = 45\<close> x show ?thesis
    by (simp add: skTokenPattern_def match_word_Cons ascii_runes_def Let_def)
qed

lemma no_sk_tokens:
  assumes "ReplaceAllString skTokenPattern s ''[redacted]'' = a @ x @ b"
  shows "\<not> sk_token x"
proof
  assume x: "sk_token x"
  then have asc: "\<forall>c \<in> set x. byte c < 128" by (simp add: sk_token_def)
  obtain p q where r: "replace_all skTokenPattern ''[redacted]'' 0 (rune_chunks s) = p @ ascii_runes x @ q"
    by (rule ReplaceAllString_runes [OF _ assms asc]) simp
  with clean_of_suffix [of skTokenPattern p "ascii_runes x @ q"] sk_clean [of 0 "rune_chunks s"]
    sk_token_pos [OF x, of q] show False
    using x by (cases x) (auto simp: ascii_runes_def sk_token_def)
qed

text \<open>No credential word reaches the audit log: the sanitised text contains, in any mix of upper and
  lower case, neither \<open>bearer\<close> nor \<open>secret key\<close> in one word or joined by a dash or an underscore;
  and the text handed to that second replacement contains no \<open>sk-\<close> token of eight or more
  characters.
\<close>

theorem audit_redaction:
  "(\<nexists>a x b. sanitizeAuditString s = a @ x @ b \<and> map lower_ascii x \<in> set credential_words)
   \<and> (\<nexists>a x b. ReplaceAllString skTokenPattern s ''[redacted]'' = a @ x @ b \<and> sk_token x)"
proof (rule conjI)
  show "\<nexists>a x b. sanitizeAuditString s = a @ x @ b \<and> map lower_ascii x \<in> set credential_words"
  proof clarify
    fix a x b
    assume e: "sanitizeAuditString s = a @ x @ b" and w: "map lower_ascii x \<in> set credential_words"
    let ?t = "ReplaceAllString credentialTokenPattern (ReplaceAllString skTokenPattern s ''[redacted]'') ''credential''"
    obtain u v where "?t = u @ TrimSpace ?t @ v" using TrimSpace_cut by blast
    with e have "?t = (u @ a) @ x @ (b @ v)" by (simp add: sanitizeAuditString_def Let_def)
    from no_credential_words [OF this] w show False by simp
  qed
qed (use no_sk_tokens in blast)

section \<open>Reading back\<close>

lemma read_lines_append:
  "read_lines path handle n (ls @ [l]) s = (case read_lines path handle n ls s of
      Inl e \<Rightarrow> Inl e
    | Inr s' \<Rightarrow> if l = '''' then Inr s' else (case handle l s' of
        Inl e \<Rightarrow> Inl (AuditLine path (n + int (length ls) + 1) e) | Inr s'' \<Rightarrow> Inr s''))"
  by (induction ls arbitrary: n s) (auto simp: algebra_simps split: sum.split)

text \<open>The lines a file has, and the value reading gives when no line fails.\<close>

definition file_lines :: "string + audit_file option \<Rightarrow> string list" where
  "file_lines file = (case file of Inr (Some f) \<Rightarrow> af_lines f | _ \<Rightarrow> [])"

definition readable :: "string + audit_file option \<Rightarrow> bool" where
  "readable file = (case file of Inl _ \<Rightarrow> False | Inr None \<Rightarrow> True | Inr (Some f) \<Rightarrow> af_scan_error f = None)"

lemma readJSONL_Inr:
  "readJSONL path file handle s = Inr s'
    \<longleftrightarrow> readable file \<and> read_lines path handle 0 (file_lines file) s = Inr s'"
  by (auto simp: readJSONL_def readable_def file_lines_def split: sum.splits option.splits)

lemma append_line_lines:
  assumes "readable file"
  shows "readable (append_line l file)" and "file_lines (append_line l file) = file_lines file @ [l]"
  using assms by (auto simp: append_line_def readable_def file_lines_def split: sum.splits option.splits)

definition trace_key :: "RouteTrace \<Rightarrow> string" where
  "trace_key t = outcomeKey (tr_RouteID t) (tr_Attempt t)"

definition outcome_route_key :: "TaskOutcome \<Rightarrow> string" where
  "outcome_route_key oc = outcomeKey (oc_RouteID oc) (oc_Attempt oc)"

definition join_outcome :: "TaskOutcome \<Rightarrow> RouteAuditRecord \<Rightarrow> RouteAuditRecord" where
  "join_outcome oc r = (if trace_key (ar_Route r) = outcome_route_key oc then r\<lparr>ar_Outcome := Some oc\<rparr> else r)"

lemma no_filter [simp]: "matchesAuditFilter x ''''"
  by (simp add: matchesAuditFilter_def)

lemma audit_route_line_Inr:
  "cj_trace codec l = Inr t \<Longrightarrow> audit_route_line codec '''' m l rs
     = Inr (rs @ [\<lparr>ar_Route = t, ar_Outcome = map_of m (trace_key t)\<rparr>])"
  by (simp add: audit_route_line_def trace_key_def)

lemma read_routes_join:
  "read_lines path (audit_route_line codec '''' m) n ls rs = Inr rs' \<Longrightarrow>
     read_lines path (audit_route_line codec '''' (AList.update (outcome_route_key oc) oc m)) n ls
       (map (join_outcome oc) rs) = Inr (map (join_outcome oc) rs')"
proof (induction ls arbitrary: n rs)
  case (Cons l ls)
  show ?case
  proof (cases "l = ''''")
    case False
    with Cons.prems obtain t where t: "cj_trace codec l = Inr t" by (auto simp: audit_route_line_def split: sum.splits)
    let ?r = "\<lparr>ar_Route = t, ar_Outcome = map_of m (trace_key t)\<rparr>"
    have "read_lines path (audit_route_line codec '''' m) (n + 1) ls (rs @ [?r]) = Inr rs'"
      using Cons.prems False t by (simp add: audit_route_line_Inr)
    moreover have "join_outcome oc ?r = \<lparr>ar_Route = t,
        ar_Outcome = map_of (AList.update (outcome_route_key oc) oc m) (trace_key t)\<rparr>"
      by (simp add: join_outcome_def)
    ultimately show ?thesis using Cons.IH [of "n + 1" "rs @ [?r]"] False t
      by (simp add: audit_route_line_Inr)
  qed (use Cons in simp)
qed simp

lemma ReadRouteAudits_Inr:
  "ReadRouteAudits codec home '''' = Inr rs \<longleftrightarrow> readable (ah_outcomes home) \<and> readable (ah_routes home)
     \<and> (\<exists>m. read_lines ''outcomes.jsonl'' (audit_outcome_line codec '''') 0 (file_lines (ah_outcomes home)) [] = Inr m
          \<and> read_lines ''route-events.jsonl'' (audit_route_line codec '''' m) 0 (file_lines (ah_routes home)) [] = Inr rs)"
proof (cases "readJSONL ''outcomes.jsonl'' (ah_outcomes home) (audit_outcome_line codec '''') []")
  case (Inl e)
  with readJSONL_Inr [of "''outcomes.jsonl''" "ah_outcomes home" "audit_outcome_line codec ''''" "[]"]
  show ?thesis by (auto simp: ReadRouteAudits_def)
next
  case (Inr m)
  with readJSONL_Inr [of "''outcomes.jsonl''" "ah_outcomes home" "audit_outcome_line codec ''''" "[]" m]
  have "readable (ah_outcomes home)"
    "read_lines ''outcomes.jsonl'' (audit_outcome_line codec '''') 0 (file_lines (ah_outcomes home)) [] = Inr m"
    by auto
  then show ?thesis unfolding ReadRouteAudits_def Inr sum.case readJSONL_Inr by auto
qed

text \<open>What is recorded is read back: after a trace and then an outcome are recorded, reading the log
  gives the earlier records, the new trace as it was sanitised, and the outcome as it was sanitised
  on exactly the traces with its route and attempt, where it replaces an earlier outcome.
\<close>

theorem audit_read_back:
  assumes "t' = sanitizeRouteTrace now t" and "encode t' \<noteq> ''''" and "cj_trace codec (encode t') = Inr t'"
    and "oc' = sanitizeTaskOutcome now' oc" and "encode' oc' \<noteq> ''''" and "cj_outcome codec (encode' oc') = Inr oc'"
    and "ReadRouteAudits codec home '''' = Inr rs"
    and "RecordRoute encode now None None None t home = (None, home1)"
    and "RecordTaskOutcome encode' now' None None None oc home1 = (None, home2)"
  shows "\<exists>joined. ReadRouteAudits codec home1 ''''
      = Inr (rs @ [\<lparr>ar_Route = t', ar_Outcome = joined\<rparr>])
    \<and> ReadRouteAudits codec home2 '''' = Inr (map (join_outcome oc') (rs @ [\<lparr>ar_Route = t', ar_Outcome = joined\<rparr>]))"
proof -
  from assms(7) obtain m where m: "readable (ah_outcomes home)" "readable (ah_routes home)"
    "read_lines ''outcomes.jsonl'' (audit_outcome_line codec '''') 0 (file_lines (ah_outcomes home)) [] = Inr m"
    "read_lines ''route-events.jsonl'' (audit_route_line codec '''' m) 0 (file_lines (ah_routes home)) [] = Inr rs"
    by (auto simp: ReadRouteAudits_Inr)
  let ?r = "\<lparr>ar_Route = t', ar_Outcome = map_of m (trace_key t')\<rparr>"
  have h1: "home1 = home\<lparr>ah_routes := append_line (encode t') (ah_routes home)\<rparr>"
    using assms(1,8) by (simp add: RecordRoute_def appendJSONL_def)
  have r1: "read_lines ''route-events.jsonl'' (audit_route_line codec '''' m) 0
      (file_lines (ah_routes home1)) [] = Inr (rs @ [?r])"
    using m assms(2,3) h1 append_line_lines [OF m(2)] by (simp add: read_lines_append audit_route_line_Inr)
  have h2: "home2 = home1\<lparr>ah_outcomes := append_line (encode' oc') (ah_outcomes home1)\<rparr>"
    using assms(4,9) by (simp add: RecordTaskOutcome_def appendJSONL_def)
  have o2: "read_lines ''outcomes.jsonl'' (audit_outcome_line codec '''') 0 (file_lines (ah_outcomes home2)) []
      = Inr (AList.update (outcome_route_key oc') oc' m)"
    using m assms(5,6) h1 h2 append_line_lines [OF m(1)]
    by (simp add: read_lines_append audit_outcome_line_def outcome_route_key_def)
  have "ReadRouteAudits codec home1 '''' = Inr (rs @ [?r])"
    using m h1 r1 append_line_lines [OF m(2)] by (auto simp: ReadRouteAudits_Inr)
  moreover have "ReadRouteAudits codec home2 '''' = Inr (map (join_outcome oc') (rs @ [?r]))"
    using o2 read_routes_join [OF r1, of oc'] h1 h2 m append_line_lines [OF m(1)] append_line_lines [OF m(2)]
    by (auto simp: ReadRouteAudits_Inr)
  ultimately show ?thesis by blast
qed

definition demo_trace :: RouteTrace where
  "demo_trace = \<lparr>tr_RouteID = ''r'', tr_TaskID = ''t'', tr_Attempt = 1, tr_RecordedAt = 7, tr_TaskType = '''',
     tr_TaskProfile = None, tr_AccountAlias = ''a'', tr_ModelAlias = ''m'', tr_Provider = ''p'',
     tr_Selected = True, tr_Reason = '''', tr_Score = 5, tr_ScoreBreakdown = [],
     tr_CandidateModelAliases = [], tr_Candidates = [], tr_FallbackMaxAttempts = 0\<rparr>"

definition demo_codec :: audit_codec where
  "demo_codec = \<lparr>cj_trace = (\<lambda>_. Inr (sanitizeRouteTrace 9 demo_trace)),
     cj_outcome = (\<lambda>_. Inr (sanitizeTaskOutcome 9 demo_failure))\<rparr>"

theorem audit_read_back_witness:
  "\<exists>home1 home2 joined. ReadRouteAudits demo_codec home1 ''''
     = Inr ([] @ [\<lparr>ar_Route = sanitizeRouteTrace 9 demo_trace, ar_Outcome = joined\<rparr>])
   \<and> ReadRouteAudits demo_codec home2 '''' = Inr (map (join_outcome (sanitizeTaskOutcome 9 demo_failure))
        ([] @ [\<lparr>ar_Route = sanitizeRouteTrace 9 demo_trace, ar_Outcome = joined\<rparr>]))"
proof -
  let ?home = "\<lparr>ah_routes = Inr None, ah_outcomes = Inr None\<rparr>"
  obtain home1 where h1: "RecordRoute (\<lambda>_. ''t'') 9 None None None demo_trace ?home = (None, home1)"
    by (simp add: RecordRoute_def appendJSONL_def)
  obtain home2 where h2: "RecordTaskOutcome (\<lambda>_. ''o'') 9 None None None demo_failure home1 = (None, home2)"
    by (simp add: RecordTaskOutcome_def appendJSONL_def)
  have "ReadRouteAudits demo_codec ?home '''' = Inr []"
    by (simp add: ReadRouteAudits_def readJSONL_def)
  from audit_read_back [OF refl _ _ refl _ _ this h1 h2] show ?thesis
    by (simp add: demo_codec_def) blast
qed

end
