(* ===== verification/LLM_Stats.thy ===== *)
theory LLM_Stats
  imports LLM_Audit
begin

text \<open>
  \<open>llmkit/stats.go\<close>: the statistics built from the audit log and how they enrich the candidates of a
  route. A \<open>float64\<close> is a rational; \<open>Exp2\<close>, the exponential of the standard library, is an argument.
\<close>

section \<open>Statistics\<close>

record ModelStatsEntry =
  se_TaskType :: string
  se_AccountAlias :: string
  se_ModelAlias :: string
  se_Provider :: string
  se_RouteAttempts :: int
  se_OutcomeCount :: int
  se_PendingOutcomes :: int
  se_Successes :: int
  se_Failures :: int
  se_SuccessRate :: rat
  se_FailureRate :: rat
  se_RecentOutcomes :: rat
  se_RecentFailures :: rat
  se_AvgLatencyMillis :: int
  se_AvgInputTokens :: int
  se_AvgOutputTokens :: int
  se_AvgEstimatedCents :: int
  se_LastSeen :: "time option"

record ModelStats =
  ms_GeneratedAt :: time
  ms_Models :: "(string, ModelStatsEntry) gomap"

record modelStatsAccumulator =
  ac_entry :: ModelStatsEntry
  ac_latencyTotal :: int
  ac_latencySamples :: int
  ac_inputTokenTotal :: int
  ac_outputTokenTotal :: int
  ac_estimatedCentTotal :: int
  ac_costSamples :: int

record modelStatsBuilder =
  sb_now :: time
  sb_entries :: "(string, modelStatsAccumulator) gomap"


definition modelStatsKey :: "string \<Rightarrow> string \<Rightarrow> string \<Rightarrow> string \<Rightarrow> string" where
  "modelStatsKey taskType accountAlias modelAlias provider =
     taskType @ ''|'' @ accountAlias @ ''|'' @ modelAlias @ ''|'' @ provider"



definition put_entry :: "string \<Rightarrow> modelStatsAccumulator \<Rightarrow> modelStatsBuilder \<Rightarrow> modelStatsBuilder" where
  "put_entry key acc b = b\<lparr>sb_entries := AList.update key acc (sb_entries b)\<rparr>"

definition observe :: "time \<Rightarrow> modelStatsAccumulator \<Rightarrow> modelStatsAccumulator" where
  "observe seen a =
     (if seen = 0 then a
      else case se_LastSeen (ac_entry a) of
             None \<Rightarrow> a\<lparr>ac_entry := (ac_entry a)\<lparr>se_LastSeen := Some seen\<rparr>\<rparr>
           | Some prev \<Rightarrow> if prev < seen then a\<lparr>ac_entry := (ac_entry a)\<lparr>se_LastSeen := Some seen\<rparr>\<rparr> else a)"












section \<open>Enriching candidates\<close>

definition apply_stats_entry :: "ModelStatsEntry \<Rightarrow> ModelCapability \<Rightarrow> ModelCapability" where
  "apply_stats_entry entry m =
     (let m = m\<lparr>mc_RecentOutcomes := se_RecentOutcomes entry, mc_RecentFailures := se_RecentFailures entry\<rparr>;
          m = (if se_RecentOutcomes entry = 0 \<and> se_OutcomeCount entry > 0
               then m\<lparr>mc_RecentOutcomes := rat_of_int (se_OutcomeCount entry),
                      mc_RecentFailures := rat_of_int (se_Failures entry)\<rparr> else m);
          m = m\<lparr>mc_RecentFailureRate := se_FailureRate entry\<rparr>;
          m = (if se_AvgLatencyMillis entry > 0 then m\<lparr>mc_RecentLatencyMillis := se_AvgLatencyMillis entry\<rparr> else m)
      in if se_AvgEstimatedCents entry > 0 then m\<lparr>mc_EstimatedCents := se_AvgEstimatedCents entry\<rparr> else m)"

definition apply_stats :: "ModelStats \<Rightarrow> TaskProfile \<Rightarrow> Candidate \<Rightarrow> Candidate" where
  "apply_stats stats profile c =
     (case map_of (ms_Models stats) (modelStatsKey (tp_TaskType profile) (cd_AccountAlias c)
             (mc_Alias (cd_Model c)) (mc_Provider (cd_Model c))) of
        None \<Rightarrow> c
      | Some entry \<Rightarrow>
          if TrimSpace (se_TaskType entry) \<noteq> '''' \<and> se_TaskType entry \<noteq> tp_TaskType profile then c
          else c\<lparr>cd_Model := apply_stats_entry entry (cd_Model c)\<rparr>)"

definition ApplyModelStats :: "ModelStats \<Rightarrow> TaskProfile \<Rightarrow> Candidate list \<Rightarrow> Candidate list" where
  "ApplyModelStats stats profile candidates =
     (if candidates = [] \<or> ms_Models stats = [] then candidates
      else map (apply_stats stats profile) candidates)"

section \<open>The counts against the log\<close>







lemma observe_fields [simp]:
  "ac_latencyTotal (observe t a) = ac_latencyTotal a" "ac_latencySamples (observe t a) = ac_latencySamples a"
  "se_RouteAttempts (ac_entry (observe t a)) = se_RouteAttempts (ac_entry a)"
  "se_OutcomeCount (ac_entry (observe t a)) = se_OutcomeCount (ac_entry a)"
  "se_Successes (ac_entry (observe t a)) = se_Successes (ac_entry a)"
  "se_Failures (ac_entry (observe t a)) = se_Failures (ac_entry a)"
  "se_RecentOutcomes (ac_entry (observe t a)) = se_RecentOutcomes (ac_entry a)"
  "se_RecentFailures (ac_entry (observe t a)) = se_RecentFailures (ac_entry a)"
  "se_AvgLatencyMillis (ac_entry (observe t a)) = se_AvgLatencyMillis (ac_entry a)"
  by (simp_all add: observe_def split: option.split)



lemma sb_now_put [simp]: "sb_now (put_entry k acc b) = sb_now b"
  by (simp add: put_entry_def)



















end
