(* ===== verification/Agent_Tools.thy ===== *)
theory Agent_Tools
  imports GoPrelude
begin

text \<open>
  \<open>goagent/ports\<close>, \<open>goagent/policy\<close>, \<open>goagent/prompt\<close> and \<open>goagent/tools\<close>: the errors of an agent
  run, tool specifications and registries, the default policy engine, the prompt compiler, and
  the tool executor with its middleware chain, panic recovery and parallel batches.

  Tools are host code: a tool is a function of its input, its environment and a world of type
  \<open>'w\<close> that it may change. A tool returns a result or an error, or panics. A batch of parallel
  calls runs its tools in the order \<open>sched n\<close>, a permutation of the calls that stands for the
  scheduler: a statement for every \<open>sched\<close> is a statement for every order of the tool calls.
\<close>

section \<open>Errors\<close>

text \<open>
  Sentinel errors, an error with a text only, a sentinel wrapped with a text (\<open>"%w: text"\<close>), and a
  sentinel wrapped with another error (\<open>"%w: %w"\<close>).
\<close>

datatype AgentError =
    ErrToolInputInvalid | ErrToolSchemaInvalid | ErrToolExecutionFailed | ErrToolTimeout
  | ErrToolNotFound | ErrPolicyDenied | ErrApprovalDenied | ErrApprovalPending
  | ErrInvalidRunCheckpoint | ErrInvalidApprovalResolution | ErrBudgetExceeded | ErrMaxIterations
  | ErrInputRejected | ErrOutputInvalid | ErrMissingLLM
  | ErrContext ctx_error
  | ErrText string
  | WrapText AgentError string
  | Wrap2 AgentError AgentError

fun error_tree :: "AgentError \<Rightarrow> AgentError list" where
  "error_tree (WrapText e t) = WrapText e t # error_tree e"
| "error_tree (Wrap2 e f) = Wrap2 e f # error_tree e @ error_tree f"
| "error_tree e = [e]"

text \<open>\<open>errors.Is\<close>\<close>

definition errors_Is :: "AgentError \<Rightarrow> AgentError \<Rightarrow> bool" where
  "errors_Is err target \<longleftrightarrow> target \<in> set (error_tree err)"

fun Error :: "AgentError \<Rightarrow> string" where
  "Error ErrToolInputInvalid = ''invalid tool input''"
| "Error ErrToolSchemaInvalid = ''invalid tool JSON schema''"
| "Error ErrToolExecutionFailed = ''tool execution failed''"
| "Error ErrToolTimeout = ''tool timeout''"
| "Error ErrToolNotFound = ''tool not found''"
| "Error ErrPolicyDenied = ''policy denied''"
| "Error ErrApprovalDenied = ''approval denied''"
| "Error ErrApprovalPending = ''approval pending''"
| "Error ErrInvalidRunCheckpoint = ''invalid run checkpoint''"
| "Error ErrInvalidApprovalResolution = ''invalid approval resolution''"
| "Error ErrBudgetExceeded = ''budget exceeded''"
| "Error ErrMaxIterations = ''max iterations reached''"
| "Error ErrInputRejected = ''input rejected''"
| "Error ErrOutputInvalid = ''output invalid''"
| "Error ErrMissingLLM = ''agent requires LLM client''"
| "Error (ErrContext Canceled) = ''context canceled''"
| "Error (ErrContext DeadlineExceeded) = ''context deadline exceeded''"
| "Error (ErrText t) = t"
| "Error (WrapText e t) = Error e @ '': '' @ t"
| "Error (Wrap2 e f) = Error e @ '': '' @ Error f"

section \<open>Tool types\<close>

text \<open>
  \<open>ts_CheckJSON\<close> is what \<open>validateJSONSchema\<close> returns for the schema's text, a call of the JSON Schema
  library; it is used only when the text is not empty.
\<close>

record ToolSchema =
  ts_JSONSchema :: string
  ts_CheckJSON :: "string \<Rightarrow> AgentError option"
  ts_Validate :: "(string \<Rightarrow> AgentError option) option"

record ToolSpec =
  sp_Name :: string
  sp_Description :: string
  sp_Permission :: string
  sp_ExecutionMode :: string
  sp_Timeout :: duration
  sp_Schema :: ToolSchema

record ToolCall =
  call_ID :: string
  call_Name :: string
  call_Input :: string

record ToolEnv =
  env_UserID :: string
  env_SessionID :: string
  env_Metadata :: "metadata option"

record ToolResult =
  tr_ForLLM :: string
  tr_ForUser :: string
  tr_Silent :: bool
  tr_IsError :: bool
  tr_Ref :: string
  tr_Metadata :: metadata

record ToolExecution =
  te_Index :: nat
  te_Call :: ToolCall
  te_Result :: "ToolResult option"

text \<open>
  What a handler returns: a result (possibly nil) or an error, or a panic with the text of its
  value. The metadata of the environment is a map that is shared by reference, so a handler
  returns its contents as well; \<open>None\<close> is the nil map. The first argument is the timeout of the
  context the handler gets.
\<close>

datatype tool_return = Returns "AgentError + ToolResult option" | Panics string

type_synonym 'w handler =
  "duration option \<Rightarrow> string \<Rightarrow> ToolEnv \<Rightarrow> 'w \<Rightarrow> tool_return \<times> metadata option \<times> 'w"

record 'w Tool =
  tl_Spec :: ToolSpec
  tl_Execute :: "'w handler"
  tl_Middleware :: "('w handler \<Rightarrow> 'w handler) list"

definition schema_ValidateInput :: "ToolSchema \<Rightarrow> string \<Rightarrow> AgentError option" where
  "schema_ValidateInput s input =
     (case (if ts_JSONSchema s \<noteq> '''' then ts_CheckJSON s input else None) of
        Some err \<Rightarrow> Some err
      | None \<Rightarrow> (case ts_Validate s of None \<Rightarrow> None | Some validate \<Rightarrow> validate input))"

section \<open>The policy engine\<close>

record PolicyContext =
  pc_TenantID :: string
  pc_RequestID :: string
  pc_TraceID :: string
  pc_Labels :: "(string, string) gomap"

record PolicyRequest =
  pr_RunID :: string
  pr_UserID :: string
  pr_SessionID :: string
  pr_Tool :: string
  pr_Permission :: string
  pr_Input :: string
  pr_Allowed :: "string list"
  pr_Context :: PolicyContext
  pr_Metadata :: "metadata option"

record PolicyDecision =
  pd_Allowed :: bool
  pd_Reason :: string

definition Decide :: "PolicyRequest \<Rightarrow> PolicyDecision" where
  "Decide req =
     (if pr_Permission req = ''read'' then \<lparr>pd_Allowed = True, pd_Reason = ''read allowed''\<rparr>
      else if List.member (pr_Allowed req) (pr_Permission req)
      then \<lparr>pd_Allowed = True, pd_Reason = ''permission allowed by request''\<rparr>
      else \<lparr>pd_Allowed = False, pd_Reason = ''permission denied by default''\<rparr>)"

section \<open>The prompt compiler\<close>

record PromptBlock =
  pb_Name :: string
  pb_Mode :: string
  pb_Priority :: int
  pb_Content :: string

record CompiledPrompt =
  cp_Blocks :: "PromptBlock list"
  cp_Content :: string

definition modeRank :: "string \<Rightarrow> int" where
  "modeRank mode = (if mode = ''cacheable'' then 0 else 1)"

definition block_before :: "PromptBlock \<Rightarrow> PromptBlock \<Rightarrow> bool" where
  "block_before a b =
     (if pb_Mode a \<noteq> pb_Mode b then modeRank (pb_Mode a) < modeRank (pb_Mode b)
      else if pb_Priority a \<noteq> pb_Priority b then pb_Priority a < pb_Priority b
      else pb_Name a < pb_Name b)"

definition Compile :: "PromptBlock list \<Rightarrow> CompiledPrompt" where
  "Compile blocks =
     (let ordered = sort_by block_before blocks;
          contents = map pb_Content (filter (\<lambda>b. pb_Content b \<noteq> '''') ordered)
      in \<lparr>cp_Blocks = ordered, cp_Content = string_join [CHR 0x0A] contents\<rparr>)"

section \<open>Registries\<close>

type_synonym 'w Registry = "(string, 'w Tool) gomap"

definition NewRegistry :: "'w Registry" where
  "NewRegistry = []"

definition Register :: "'w Tool \<Rightarrow> 'w Registry \<Rightarrow> 'w Registry" where
  "Register tool r = AList.update (sp_Name (tl_Spec tool)) tool r"

definition registry_Get :: "'w Registry \<Rightarrow> string \<Rightarrow> 'w Tool option" where
  "registry_Get r name = map_of r name"

definition registry_Specs :: "'w Registry \<Rightarrow> ToolSpec list" where
  "registry_Specs r = sort_by (\<lambda>a b. sp_Name a < sp_Name b) (map (\<lambda>(_, tool). tl_Spec tool) r)"

definition not_registered :: "string \<Rightarrow> AgentError" where
  "not_registered name = WrapText ErrToolNotFound (''tool '' @ go_quote name @ '' not registered'')"

definition MustGet :: "'w Registry \<Rightarrow> string \<Rightarrow> AgentError + 'w Tool" where
  "MustGet r name = (case registry_Get r name of None \<Rightarrow> Inl (not_registered name) | Some tool \<Rightarrow> Inr tool)"

section \<open>Error classes and middleware\<close>

definition isToolInputInvalid :: "AgentError \<Rightarrow> bool" where
  "isToolInputInvalid err = errors_Is err ErrToolInputInvalid"

definition isToolSchemaInvalid :: "AgentError \<Rightarrow> bool" where
  "isToolSchemaInvalid err = errors_Is err ErrToolSchemaInvalid"

definition classifyToolError :: "AgentError \<Rightarrow> AgentError" where
  "classifyToolError err =
     (if isToolInputInvalid err \<or> isToolSchemaInvalid err \<or> errors_Is err ErrToolExecutionFailed
         \<or> errors_Is err ErrToolTimeout then err
      else if errors_Is err (ErrContext DeadlineExceeded) then Wrap2 ErrToolTimeout err
      else Wrap2 ErrToolExecutionFailed err)"

definition classifySchemaError :: "AgentError \<Rightarrow> AgentError" where
  "classifySchemaError err =
     (let classified = classifyToolError err
      in if isToolSchemaInvalid classified \<or> isToolInputInvalid classified then classified
         else Wrap2 ErrToolInputInvalid err)"

definition ValidateInput :: "ToolSchema \<Rightarrow> string \<Rightarrow> AgentError option" where
  "ValidateInput schema input = map_option classifySchemaError (schema_ValidateInput schema input)"

definition Chain :: "('w handler \<Rightarrow> 'w handler) list \<Rightarrow> 'w handler \<Rightarrow> 'w handler" where
  "Chain middlewares next' = foldr (\<lambda>m h. m h) middlewares next'"

definition SchemaValidator :: "ToolSchema \<Rightarrow> 'w handler \<Rightarrow> 'w handler" where
  "SchemaValidator schema next' = (\<lambda>timeout input env w.
     case ValidateInput schema input of
       Some err \<Rightarrow> (Returns (Inl err), env_Metadata env, w)
     | None \<Rightarrow> next' timeout input env w)"

definition OutputMask :: "(ToolResult \<Rightarrow> ToolResult option) option \<Rightarrow> 'w handler \<Rightarrow> 'w handler" where
  "OutputMask masker next' = (\<lambda>timeout input env w.
     case next' timeout input env w of
       (Returns (Inr (Some result)), md, w) \<Rightarrow>
         (Returns (Inr (case masker of None \<Rightarrow> Some result | Some f \<Rightarrow> f result)), md, w)
     | other \<Rightarrow> other)"

definition toolHandler :: "'w Tool \<Rightarrow> 'w handler" where
  "toolHandler tool =
     Chain (SchemaValidator (sp_Schema (tl_Spec tool)) # tl_Middleware tool) (tl_Execute tool)"

section \<open>The executor\<close>

definition toolContext :: "'w Tool \<Rightarrow> duration option" where
  "toolContext tool = (if sp_Timeout (tl_Spec tool) \<le> 0 then None else Some (sp_Timeout (tl_Spec tool)))"

definition runTool ::
  "'w Tool \<Rightarrow> ToolCall \<Rightarrow> ToolEnv \<Rightarrow> 'w \<Rightarrow> (AgentError + ToolResult option) \<times> metadata option \<times> 'w" where
  "runTool tool call env w =
     (case toolHandler tool (toolContext tool) (call_Input call) env w of
        (Returns r, md, w) \<Rightarrow> (r, md, w)
      | (Panics v, md, w) \<Rightarrow>
          (Inl (WrapText ErrToolExecutionFailed
             (''tool '' @ go_quote (call_Name call) @ '' panicked: '' @ v)), md, w))"

definition executionMode :: "'w Tool \<Rightarrow> string" where
  "executionMode tool =
     (let mode = sp_ExecutionMode (tl_Spec tool)
      in if mode = ''parallel'' \<or> mode = ''sequential'' \<or> mode = ''exclusive'' then mode
         else if sp_Permission (tl_Spec tool) = ''read'' then ''parallel'' else ''sequential'')"

text \<open>A slot of the result and error slices: the error of the call or its execution.\<close>

type_synonym slot = "AgentError + ToolExecution"

definition slot_of :: "nat \<Rightarrow> ToolCall \<Rightarrow> AgentError + ToolResult option \<Rightarrow> slot" where
  "slot_of i call r = (case r of
      Inl err \<Rightarrow> Inl (classifyToolError err)
    | Inr result \<Rightarrow> Inr \<lparr>te_Index = i, te_Call = call, te_Result = result\<rparr>)"

definition zero_slot :: slot where
  "zero_slot = Inr \<lparr>te_Index = 0, te_Call = \<lparr>call_ID = '''', call_Name = '''', call_Input = ''''\<rparr>,
     te_Result = None\<rparr>"

text \<open>The writes of one copy, then of all copies in call order.\<close>

definition merge_copy :: "metadata \<Rightarrow> metadata \<Rightarrow> metadata \<Rightarrow> metadata" where
  "merge_copy original copied shared =
     (let kept = fold (\<lambda>(key, _) m. if map_of copied key = None then AList.delete key m else m)
            original shared
      in fold (\<lambda>(key, v) m. if map_of original key = Some v then m else AList.update key v m) copied kept)"

definition metadata_of :: "metadata option \<Rightarrow> metadata" where
  "metadata_of m = (case m of None \<Rightarrow> [] | Some m \<Rightarrow> m)"

definition mergeMetadataWrites ::
  "metadata option \<Rightarrow> metadata option \<Rightarrow> metadata option list \<Rightarrow> metadata option" where
  "mergeMetadataWrites shared original copies = (case shared of
      None \<Rightarrow> None
    | Some m \<Rightarrow> Some (fold (\<lambda>copied. merge_copy (metadata_of original) (metadata_of copied)) copies m))"

text \<open>The goroutines of a batch, run in the order of \<open>sched\<close>, each with its own metadata copy.\<close>

definition parallel_step ::
  "nat \<Rightarrow> (ToolCall \<times> 'w Tool) list \<Rightarrow> ToolEnv \<Rightarrow> nat
     \<Rightarrow> (slot \<times> metadata option) list \<times> 'w \<Rightarrow> (slot \<times> metadata option) list \<times> 'w" where
  "parallel_step offset batch env i st =
     (case runTool (snd (batch ! i)) (fst (batch ! i)) env (snd st) of (r, md, w) \<Rightarrow>
        ((fst st)[i := (slot_of (offset + i) (fst (batch ! i)) r, md)], w))"

definition parallel_runs ::
  "(nat \<Rightarrow> nat list) \<Rightarrow> nat \<Rightarrow> (ToolCall \<times> 'w Tool) list \<Rightarrow> ToolEnv \<Rightarrow> 'w
     \<Rightarrow> (slot \<times> metadata option) list \<times> 'w" where
  "parallel_runs sched offset batch env w =
     fold (parallel_step offset batch env) (sched (length batch)) (replicate (length batch) (zero_slot, env_Metadata env), w)"

definition executeParallel ::
  "(nat \<Rightarrow> nat list) \<Rightarrow> nat \<Rightarrow> (ToolCall \<times> 'w Tool) list \<Rightarrow> ToolEnv \<Rightarrow> 'w
     \<Rightarrow> slot list \<times> metadata option \<times> 'w" where
  "executeParallel sched offset batch env w =
     (case parallel_runs sched offset batch env w of (runs, w) \<Rightarrow>
        (map fst runs, mergeMetadataWrites (env_Metadata env) (env_Metadata env) (map snd runs), w))"

definition executeOne ::
  "nat \<Rightarrow> ToolCall \<Rightarrow> 'w Tool \<Rightarrow> ToolEnv \<Rightarrow> 'w \<Rightarrow> slot \<times> metadata option \<times> 'w" where
  "executeOne index call tool env w =
     (case runTool tool call env w of (r, md, w) \<Rightarrow> (slot_of index call r, md, w))"

definition is_parallel :: "(ToolCall \<times> 'w Tool) \<Rightarrow> bool" where
  "is_parallel p \<longleftrightarrow> executionMode (snd p) = ''parallel''"

text \<open>The loop over the resolved calls from \<open>start\<close> on.\<close>

function run_calls ::
  "(nat \<Rightarrow> nat list) \<Rightarrow> nat \<Rightarrow> (ToolCall \<times> 'w Tool) list \<Rightarrow> ToolEnv \<Rightarrow> 'w
     \<Rightarrow> slot list \<times> metadata option \<times> 'w" where
  "run_calls sched start [] env w = ([], env_Metadata env, w)"
| "run_calls sched start (p # rest) env w =
     (if is_parallel p then
        (let batch = p # takeWhile is_parallel rest
         in case executeParallel sched start batch env w of (slots, md, w) \<Rightarrow>
              (case run_calls sched (start + length batch) (dropWhile is_parallel rest)
                      (env\<lparr>env_Metadata := md\<rparr>) w of
                 (slots', md, w) \<Rightarrow> (slots @ slots', md, w)))
      else
        (case executeOne start (fst p) (snd p) env w of (slot, md, w) \<Rightarrow>
           (case run_calls sched (start + 1) rest (env\<lparr>env_Metadata := md\<rparr>) w of
              (slots', md, w) \<Rightarrow> (slot # slots', md, w))))"
  by pat_completeness auto
termination
  by (relation "measure (\<lambda>(sched, start, calls, env, w). length calls)")
    (auto simp: le_imp_less_Suc length_dropWhile_le)

fun resolve_calls :: "(string \<Rightarrow> AgentError + 'w Tool) \<Rightarrow> ToolCall list \<Rightarrow> AgentError + 'w Tool list" where
  "resolve_calls get [] = Inr []"
| "resolve_calls get (call # calls) = (case get (call_Name call) of
      Inl err \<Rightarrow> Inl err
    | Inr tool \<Rightarrow> (case resolve_calls get calls of Inl err \<Rightarrow> Inl err | Inr tools \<Rightarrow> Inr (tool # tools)))"

text \<open>\<open>for _, err := range errs\<close>: the first error of the slots, or all executions.\<close>

fun collect :: "slot list \<Rightarrow> AgentError + ToolExecution list" where
  "collect [] = Inr []"
| "collect (Inl err # slots) = Inl err"
| "collect (Inr e # slots) = (case collect slots of Inl err \<Rightarrow> Inl err | Inr es \<Rightarrow> Inr (e # es))"

definition Execute ::
  "(nat \<Rightarrow> nat list) \<Rightarrow> (string \<Rightarrow> AgentError + 'w Tool) \<Rightarrow> ToolCall list \<Rightarrow> ToolEnv \<Rightarrow> 'w
     \<Rightarrow> (AgentError + ToolExecution list) \<times> metadata option \<times> 'w" where
  "Execute sched get calls env w = (case resolve_calls get calls of
      Inl err \<Rightarrow> (Inl err, env_Metadata env, w)
    | Inr tools \<Rightarrow> (case run_calls sched 0 (zip calls tools) env w of
        (slots, md, w) \<Rightarrow> (collect slots, md, w)))"

section \<open>Lemmas on the executor\<close>

definition schedule :: "(nat \<Rightarrow> nat list) \<Rightarrow> bool" where
  "schedule sched \<longleftrightarrow> (\<forall>n. mset (sched n) = mset [0..<n])"

lemma schedule_upt: "schedule (\<lambda>n. [0..<n])" and schedule_rev: "schedule (\<lambda>n. rev [0..<n])"
  by (simp_all add: schedule_def)

lemma schedule_set: "schedule sched \<Longrightarrow> set (sched n) = {0..<n}"
  by (metis schedule_def set_mset_mset set_upt)

text \<open>A slot that holds the outcome of a run of the call.\<close>

definition slot_for :: "nat \<Rightarrow> ToolCall \<Rightarrow> slot \<Rightarrow> bool" where
  "slot_for i call slot \<longleftrightarrow> (\<exists>r. slot = slot_of i call r)"

definition slots_for :: "nat \<Rightarrow> (ToolCall \<times> 'w Tool) list \<Rightarrow> slot list \<Rightarrow> bool" where
  "slots_for start calls slots \<longleftrightarrow> length slots = length calls
     \<and> (\<forall>i < length calls. slot_for (start + i) (fst (calls ! i)) (slots ! i))"

lemma slots_for_append:
  assumes "slots_for start xs s1" and "slots_for (start + length xs) ys s2"
  shows "slots_for start (xs @ ys) (s1 @ s2)"
  unfolding slots_for_def
proof (intro conjI allI impI)
  show "length (s1 @ s2) = length (xs @ ys)" using assms by (simp add: slots_for_def)
next
  fix i assume i: "i < length (xs @ ys)"
  show "slot_for (start + i) (fst ((xs @ ys) ! i)) ((s1 @ s2) ! i)"
  proof (cases "i < length xs")
    case True
    with assms(1) show ?thesis by (simp add: slots_for_def nth_append)
  next
    case False
    with i have "i - length xs < length ys" by simp
    with assms(2) have "slot_for (start + length xs + (i - length xs)) (fst (ys ! (i - length xs)))
        (s2 ! (i - length xs))"
      unfolding slots_for_def by blast
    with False assms(1) show ?thesis by (simp add: slots_for_def nth_append)
  qed
qed

lemma parallel_step_slots:
  "length (fst (fold (parallel_step offset batch env) is st)) = length (fst st)"
  "i \<notin> set is \<Longrightarrow> fst (fold (parallel_step offset batch env) is st) ! i = fst st ! i"
  by (induction "is" arbitrary: st) (auto simp: parallel_step_def split: prod.split)

lemma parallel_fold_slots:
  assumes "i < length (fst st)" and "i \<in> set is"
  shows "slot_for (offset + i) (fst (batch ! i)) (fst (fst (fold (parallel_step offset batch env) is st) ! i))"
  using assms
proof (induction "is" arbitrary: st)
  case (Cons j js)
  let ?st = "parallel_step offset batch env j st"
  have l: "length (fst ?st) = length (fst st)" by (simp add: parallel_step_def split: prod.split)
  show ?case
  proof (cases "i \<in> set js")
    case True
    with Cons.IH [of ?st] Cons.prems l show ?thesis by simp
  next
    case False
    with Cons.prems have "i = j" by simp
    with Cons.prems(1) have "slot_for (offset + i) (fst (batch ! i)) (fst (fst ?st ! i))"
      by (auto simp: slot_for_def parallel_step_def split: prod.splits)
    with parallel_step_slots(2) [OF False, of offset batch env ?st] show ?thesis by simp
  qed
qed simp

lemma executeParallel_slots:
  assumes "schedule sched" and "executeParallel sched offset batch env w = (slots, md, w')"
  shows "slots_for offset batch slots"
  unfolding slots_for_def
proof (intro conjI allI impI)
  let ?init = "replicate (length batch) (zero_slot, env_Metadata env)"
  let ?runs = "fst (parallel_runs sched offset batch env w)"
  have s: "slots = map fst ?runs"
    using assms(2) by (auto simp: executeParallel_def split: prod.splits)
  have l: "length ?runs = length batch"
    by (simp add: parallel_runs_def parallel_step_slots(1))
  with s show "length slots = length batch" by simp
  fix i assume "i < length batch"
  then show "slot_for (offset + i) (fst (batch ! i)) (slots ! i)"
    using parallel_fold_slots [of i "(?init, w)" "sched (length batch)" offset batch env] l
    by (simp add: s parallel_runs_def schedule_set [OF assms(1)])
qed

lemma run_calls_slots:
  assumes "schedule sched" and "run_calls sched start calls env w = (slots, md, w')"
  shows "slots_for start calls slots"
  using assms
proof (induction sched start calls env w arbitrary: slots md w' rule: run_calls.induct)
  case (1 sched start env w)
  then show ?case by (simp add: slots_for_def)
next
  case (2 sched start p rest env w)
  show ?case
  proof (cases "is_parallel p")
    case True
    let ?batch = "p # takeWhile is_parallel rest" and ?rest = "dropWhile is_parallel rest"
    obtain s1 md1 w1 where e: "executeParallel sched start ?batch env w = (s1, md1, w1)" by (metis prod_cases3)
    obtain s2 md2 w2 where r: "run_calls sched (start + length ?batch) ?rest (env\<lparr>env_Metadata := md1\<rparr>) w1
        = (s2, md2, w2)" by (metis prod_cases3)
    from True e r "2.prems"(2) have slots: "slots = s1 @ s2" by (auto simp: Let_def)
    from e have s2: "slots_for (start + length ?batch) ?rest s2"
      using "2.IH"(1) [OF True refl e [symmetric] refl _ r] "2.prems"(1) by simp
    have "slots_for start (?batch @ ?rest) slots"
      unfolding slots using executeParallel_slots [OF "2.prems"(1) e] s2 by (rule slots_for_append)
    then show ?thesis by simp
  next
    case False
    obtain s1 md1 w1 where e: "executeOne start (fst p) (snd p) env w = (s1, md1, w1)" by (metis prod_cases3)
    obtain s2 md2 w2 where r: "run_calls sched (start + 1) rest (env\<lparr>env_Metadata := md1\<rparr>) w1
        = (s2, md2, w2)" by (metis prod_cases3)
    from False e r "2.prems"(2) have slots: "slots = s1 # s2" by auto
    have "slot_for start (fst p) s1" using e by (auto simp: executeOne_def slot_for_def split: prod.splits)
    then have "slots_for start [p] [s1]" by (simp add: slots_for_def)
    moreover have "slots_for (start + length [p]) rest s2"
      using "2.IH"(2) [OF False e [symmetric] refl _ r] "2.prems"(1) by simp
    ultimately have "slots_for start ([p] @ rest) ([s1] @ s2)" by (rule slots_for_append)
    then show ?thesis by (simp add: slots)
  qed
qed

lemma collect_Inr: "collect slots = Inr es \<Longrightarrow> slots = map Inr es"
  by (induction slots arbitrary: es rule: collect.induct) (auto split: sum.splits)

lemma collect_Inl: "collect slots = Inl err \<Longrightarrow> Inl err \<in> set slots"
  by (induction slots rule: collect.induct) (auto split: sum.splits)

lemma resolve_calls_Inr:
  "resolve_calls get calls = Inr tools \<Longrightarrow> length tools = length calls
    \<and> (\<forall>i < length calls. get (call_Name (calls ! i)) = Inr (tools ! i))"
proof (induction calls arbitrary: tools)
  case (Cons call calls)
  then show ?case by (auto simp: nth_Cons split: sum.splits nat.split)
qed simp

lemma resolve_calls_Inl:
  "resolve_calls get calls = Inl err \<Longrightarrow> \<exists>call \<in> set calls. get (call_Name call) = Inl err"
  by (induction calls) (auto split: sum.splits)

lemma slot_of_simps:
  "slot_of i call r = Inr e \<Longrightarrow> te_Index e = i \<and> te_Call e = call"
  "slot_of i call r = Inl err \<Longrightarrow> \<exists>e. err = classifyToolError e"
  by (auto simp: slot_of_def split: sum.splits)

lemma classifyToolError_class:
  "\<exists>target \<in> {ErrToolInputInvalid, ErrToolSchemaInvalid, ErrToolExecutionFailed, ErrToolTimeout}.
     errors_Is (classifyToolError err) target"
  by (auto simp: classifyToolError_def isToolInputInvalid_def isToolSchemaInvalid_def errors_Is_def)

text \<open>A tool that neither reads nor writes the world: its outcome depends on the call only.\<close>

definition isolated :: "'w Tool \<Rightarrow> bool" where
  "isolated tool \<longleftrightarrow> (\<forall>call env. \<exists>r md. \<forall>w. runTool tool call env w = (r, md, w))"

definition isolated_run ::
  "nat \<Rightarrow> (ToolCall \<times> 'w Tool) list \<Rightarrow> ToolEnv \<Rightarrow> 'w \<Rightarrow> nat \<Rightarrow> slot \<times> metadata option" where
  "isolated_run offset batch env w i =
     (case runTool (snd (batch ! i)) (fst (batch ! i)) env w of
        (r, md, _) \<Rightarrow> (slot_of (offset + i) (fst (batch ! i)) r, md))"

lemma parallel_step_isolated:
  assumes "isolated (snd (batch ! i))"
  shows "parallel_step offset batch env i (slots, w) = (slots[i := isolated_run offset batch env w i], w)"
proof -
  from assms obtain r md where "\<forall>w. runTool (snd (batch ! i)) (fst (batch ! i)) env w = (r, md, w)"
    unfolding isolated_def by blast
  then show ?thesis by (simp add: parallel_step_def isolated_run_def)
qed

lemma parallel_fold_isolated:
  assumes "\<forall>i \<in> set is. isolated (snd (batch ! i))"
  shows "fold (parallel_step offset batch env) is (slots, w)
    = (fold (\<lambda>i slots. slots[i := isolated_run offset batch env w i]) is slots, w)"
  using assms by (induction "is" arbitrary: slots) (auto simp: parallel_step_isolated)

lemma fold_list_update:
  "i < length xs \<Longrightarrow> fold (\<lambda>i xs. xs[i := f i]) is xs ! i = (if i \<in> set is then f i else xs ! i)"
  by (induction "is" arbitrary: xs) (auto simp: nth_list_update)

lemma length_fold_list_update [simp]: "length (fold (\<lambda>i xs. xs[i := f i]) is xs) = length xs"
  by (induction "is" arbitrary: xs) auto

lemma parallel_runs_isolated:
  assumes "schedule sched" and "\<forall>p \<in> set batch. isolated (snd p)"
  shows "parallel_runs sched offset batch env w = (map (isolated_run offset batch env w) [0..<length batch], w)"
proof -
  have "\<forall>i \<in> set (sched (length batch)). isolated (snd (batch ! i))"
    using assms(2) by (simp add: schedule_set [OF assms(1)])
  then have "parallel_runs sched offset batch env w
      = (fold (\<lambda>i slots. slots[i := isolated_run offset batch env w i]) (sched (length batch))
          (replicate (length batch) (zero_slot, env_Metadata env)), w)"
    unfolding parallel_runs_def by (rule parallel_fold_isolated)
  then show ?thesis
    by (auto intro!: nth_equalityI simp: fold_list_update schedule_set [OF assms(1)])
qed

lemma run_calls_isolated:
  assumes "schedule sched" and "schedule sched'" and "\<forall>p \<in> set calls. isolated (snd p)"
  shows "run_calls sched start calls env w = run_calls sched' start calls env w"
  using assms
proof (induction sched start calls env w rule: run_calls.induct)
  case (2 sched start p rest env w)
  let ?batch = "p # takeWhile is_parallel rest"
  have b: "\<forall>q \<in> set ?batch. isolated (snd q)" "\<forall>q \<in> set (dropWhile is_parallel rest). isolated (snd q)"
    using "2.prems"(3) by (auto dest: set_takeWhileD set_dropWhileD)
  have e: "executeParallel sched start ?batch env w = executeParallel sched' start ?batch env w"
    using parallel_runs_isolated [OF "2.prems"(1) b(1)] parallel_runs_isolated [OF "2.prems"(2) b(1)]
    by (simp add: executeParallel_def)
  show ?case
  proof (cases "is_parallel p")
    case True
    obtain s1 md1 w1 where e1: "executeParallel sched start ?batch env w = (s1, md1, w1)" by (metis prod_cases3)
    from "2.IH"(1) [OF True refl e1 [symmetric] refl "2.prems"(1,2) b(2)] e1 e True show ?thesis by simp
  next
    case False
    obtain s1 md1 w1 where e1: "executeOne start (fst p) (snd p) env w = (s1, md1, w1)" by (metis prod_cases3)
    from "2.IH"(2) [OF False e1 [symmetric] refl "2.prems"(1,2)] "2.prems"(3) e1 False show ?thesis by simp
  qed
qed simp

text \<open>The metadata a copy leaves, key by key.\<close>

lemma fold_delete_lookup:
  "map_of (fold (\<lambda>(key, _) m. if P key then AList.delete key m else m) original shared) k
    = (if P k \<and> k \<in> fst ` set original then None else map_of shared k)"
  by (induction original arbitrary: shared) (auto split: if_splits)

lemma fold_write_lookup:
  assumes "wf_map copied"
  shows "map_of (fold (\<lambda>(key, v) m. if map_of original key = Some v then m else AList.update key v m) copied m) k
    = (case map_of copied k of None \<Rightarrow> map_of m k
       | Some v \<Rightarrow> if map_of original k = Some v then map_of m k else Some v)"
  using assms
proof (induction copied arbitrary: m)
  case (Cons p copied)
  obtain j v where p: "p = (j, v)" by fastforce
  from Cons.prems p have "wf_map copied" and nj: "map_of copied j = None"
    by (auto simp: wf_map_def map_of_eq_None_iff)
  from Cons.IH [OF this(1)] nj p show ?case by (auto split: option.split)
qed simp

lemma merge_copy_lookup:
  assumes "wf_map copied"
  shows "map_of (merge_copy original copied shared) k
    = (if map_of copied k = map_of original k then map_of shared k else map_of copied k)"
proof (cases "map_of copied k")
  case None
  then show ?thesis
    by (simp add: merge_copy_def Let_def fold_write_lookup [OF assms] fold_delete_lookup)
      (metis map_of_eq_None_iff)
next
  case (Some v)
  then show ?thesis
    by (auto simp: merge_copy_def Let_def fold_write_lookup [OF assms] fold_delete_lookup)
qed

lemma merge_copies_lookup:
  assumes "\<forall>c \<in> set copies. wf_map c"
  shows "map_of (fold (merge_copy original) copies shared) k
    = (case filter (\<lambda>c. map_of c k \<noteq> map_of original k) copies of [] \<Rightarrow> map_of shared k
       | changed \<Rightarrow> map_of (last changed) k)"
  using assms
proof (induction copies arbitrary: shared)
  case (Cons c copies)
  from Cons.prems have "wf_map c" by simp
  note merge = merge_copy_lookup [OF this, of original shared k]
  have "map_of (fold (merge_copy original) copies (merge_copy original c shared)) k
      = (case filter (\<lambda>c. map_of c k \<noteq> map_of original k) copies of [] \<Rightarrow> map_of (merge_copy original c shared) k
         | changed \<Rightarrow> map_of (last changed) k)"
    using Cons.prems by (intro Cons.IH) simp
  with merge show ?case by (auto split: list.splits)
qed simp

section \<open>Properties of tool execution\<close>

lemma Execute_calls:
  assumes "schedule sched" and "Execute sched get calls env w = (Inr es, md, w')"
  shows "map te_Call es = calls \<and> map te_Index es = [0..<length calls]"
proof -
  from assms(2) obtain tools slots where t: "resolve_calls get calls = Inr tools"
    and s: "run_calls sched 0 (zip calls tools) env w = (slots, md, w')" and c: "collect slots = Inr es"
    by (auto simp: Execute_def split: sum.splits prod.splits)
  have l: "length tools = length calls" using resolve_calls_Inr [OF t] by simp
  have "slots_for 0 (zip calls tools) slots" using run_calls_slots [OF assms(1) s] .
  with collect_Inr [OF c] l have n: "length es = length calls"
    and e: "\<And>i. i < length calls \<Longrightarrow> slot_for i (calls ! i) (Inr (es ! i))"
    by (auto simp: slots_for_def)
  have "te_Index (es ! i) = i \<and> te_Call (es ! i) = calls ! i" if "i < length calls" for i
    using e [OF that] slot_of_simps(1) unfolding slot_for_def by metis
  with n show ?thesis by (auto intro!: nth_equalityI)
qed

text \<open>All calls are resolved before any runs, and results keep the order of the calls:
  an unknown tool name fails the whole batch with the world and the metadata untouched; otherwise
  a batch without error returns one execution per call, in call order, each with its own call
  and index, whatever mix of parallel and sequential tools it has and in whatever order the
  parallel ones finish.
\<close>

theorem execute_results_in_call_order:
  assumes "schedule sched" and "Execute sched get calls env w = (res, md, w')"
  shows "(\<forall>err. resolve_calls get calls = Inl err \<longrightarrow> res = Inl err \<and> md = env_Metadata env \<and> w' = w)
    \<and> (\<forall>es. res = Inr es \<longrightarrow> map te_Call es = calls \<and> map te_Index es = [0..<length calls])"
proof (intro conjI allI impI)
  fix err assume "resolve_calls get calls = Inl err"
  with assms(2) show "res = Inl err" and "md = env_Metadata env" and "w' = w"
    by (simp_all add: Execute_def)
next
  fix es assume "res = Inr es"
  with assms(2) have "Execute sched get calls env w = (Inr es, md, w')" by simp
  from Execute_calls [OF assms(1) this]
  show "map te_Call es = calls" and "map te_Index es = [0..<length calls]" by simp_all
qed

definition demo_schema :: ToolSchema where
  "demo_schema = \<lparr>ts_JSONSchema = '''', ts_CheckJSON = (\<lambda>_. None),
     ts_Validate = Some (\<lambda>input. if input = '''' then Some (ErrText ''empty'') else None)\<rparr>"

definition demo_tool :: "nat Tool" where
  "demo_tool = \<lparr>tl_Spec = \<lparr>sp_Name = ''t'', sp_Description = '''', sp_Permission = ''read'',
       sp_ExecutionMode = '''', sp_Timeout = 0, sp_Schema = demo_schema\<rparr>,
     tl_Execute = (\<lambda>timeout input env w. (Returns (Inr (Some \<lparr>tr_ForLLM = input, tr_ForUser = '''',
       tr_Silent = False, tr_IsError = False, tr_Ref = '''', tr_Metadata = []\<rparr>)), env_Metadata env, w)),
     tl_Middleware = []\<rparr>"

definition demo_calls :: "ToolCall list" where
  "demo_calls = [\<lparr>call_ID = ''1'', call_Name = ''t'', call_Input = ''a''\<rparr>,
     \<lparr>call_ID = ''2'', call_Name = ''t'', call_Input = ''b''\<rparr>]"

definition demo_env :: ToolEnv where
  "demo_env = \<lparr>env_UserID = '''', env_SessionID = '''', env_Metadata = Some []\<rparr>"

theorem execute_results_in_call_order_witness:
  "\<exists>es md w'. Execute (\<lambda>n. rev [0..<n]) (MustGet (Register demo_tool NewRegistry)) demo_calls demo_env 0
      = (Inr es, md, w') \<and> map te_Call es = demo_calls"
proof -
  have "case Execute (\<lambda>n. rev [0..<n]) (MustGet (Register demo_tool NewRegistry)) demo_calls demo_env 0 of
      (Inr es, _, _) \<Rightarrow> True | _ \<Rightarrow> False"
    by code_simp
  then obtain es md w' where e: "Execute (\<lambda>n. rev [0..<n]) (MustGet (Register demo_tool NewRegistry))
      demo_calls demo_env 0 = (Inr es, md, w')"
    by (auto split: prod.splits sum.splits)
  from execute_results_in_call_order [OF schedule_rev e] e show ?thesis by blast
qed

text \<open>Property C8. The outcome of a batch of tools that share nothing but their environment does not
  depend on the order in which the parallel calls run: results, errors, metadata and world are the
  same for every schedule.
\<close>

theorem execute_schedule_independent:
  assumes "schedule sched" and "schedule sched'"
    and "\<forall>call \<in> set calls. \<forall>tool. get (call_Name call) = Inr tool \<longrightarrow> isolated tool"
  shows "Execute sched get calls env w = Execute sched' get calls env w"
proof (cases "resolve_calls get calls")
  case (Inr tools)
  from resolve_calls_Inr [OF Inr] assms(3) have "\<forall>p \<in> set (zip calls tools). isolated (snd p)"
    by (auto simp: set_zip) (metis nth_mem)
  from run_calls_isolated [OF assms(1,2) this] Inr show ?thesis by (simp add: Execute_def)
qed (simp add: Execute_def)

theorem execute_schedule_independent_witness:
  "Execute (\<lambda>n. rev [0..<n]) (MustGet (Register demo_tool NewRegistry)) demo_calls demo_env (0 :: nat)
    = Execute (\<lambda>n. [0..<n]) (MustGet (Register demo_tool NewRegistry)) demo_calls demo_env 0"
proof (rule execute_schedule_independent [OF schedule_rev schedule_upt])
  have "runTool demo_tool call env w
      = (fst (runTool demo_tool call env 0), fst (snd (runTool demo_tool call env 0)), w)" for call env w
    by (simp add: runTool_def toolHandler_def Chain_def SchemaValidator_def demo_tool_def split: option.split)
  then have "isolated demo_tool" unfolding isolated_def by blast
  then show "\<forall>call \<in> set demo_calls. \<forall>tool. MustGet (Register demo_tool NewRegistry) (call_Name call) = Inr tool
      \<longrightarrow> isolated tool"
    by (auto simp: demo_calls_def MustGet_def registry_Get_def Register_def NewRegistry_def split: if_splits)
qed

text \<open>A tool never sees an input that its schema rejects, and a failure is always
  classified: an invalid input fails the call before the middleware and the tool run, with the
  world untouched; every error of a batch is one of the classes of tool errors or the missing
  tool, also when a tool panics.
\<close>

theorem tool_errors_classified:
  assumes "schedule sched"
  shows "(\<forall>err. ValidateInput (sp_Schema (tl_Spec tool)) (call_Input call) = Some err
      \<longrightarrow> runTool tool call env w = (Inl err, env_Metadata env, w))
    \<and> (\<forall>err md w'. Execute sched (MustGet reg) calls env w = (Inl err, md, w') \<longrightarrow>
        (\<exists>target \<in> {ErrToolNotFound, ErrToolInputInvalid, ErrToolSchemaInvalid, ErrToolExecutionFailed,
           ErrToolTimeout}. errors_Is err target))"
proof (intro conjI allI impI)
  fix err assume "ValidateInput (sp_Schema (tl_Spec tool)) (call_Input call) = Some err"
  then show "runTool tool call env w = (Inl err, env_Metadata env, w)"
    by (simp add: runTool_def toolHandler_def Chain_def SchemaValidator_def)
next
  fix err md w' assume e: "Execute sched (MustGet reg) calls env w = (Inl err, md, w')"
  show "\<exists>target \<in> {ErrToolNotFound, ErrToolInputInvalid, ErrToolSchemaInvalid, ErrToolExecutionFailed,
      ErrToolTimeout}. errors_Is err target"
  proof (cases "resolve_calls (MustGet reg) calls")
    case (Inl err')
    with e have "\<exists>call \<in> set calls. MustGet reg (call_Name call) = Inl err"
      using resolve_calls_Inl [OF Inl] by (simp add: Execute_def)
    then show ?thesis
      by (auto simp: MustGet_def not_registered_def errors_Is_def split: option.splits)
  next
    case (Inr tools)
    with e obtain slots where s: "run_calls sched 0 (zip calls tools) env w = (slots, md, w')"
      and c: "collect slots = Inl err"
      by (auto simp: Execute_def split: prod.splits)
    from collect_Inl [OF c] obtain i where "i < length slots" "slots ! i = Inl err"
      by (auto simp: in_set_conv_nth)
    with run_calls_slots [OF assms s] obtain e' where "err = classifyToolError e'"
      unfolding slots_for_def slot_for_def by (metis slot_of_simps(2))
    with classifyToolError_class [of e'] show ?thesis by blast
  qed
qed

theorem tool_errors_classified_witness:
  "runTool demo_tool \<lparr>call_ID = ''1'', call_Name = ''t'', call_Input = ''''\<rparr> demo_env (7 :: nat)
    = (Inl (Wrap2 ErrToolInputInvalid (ErrText ''empty'')), Some [], 7)"
  using tool_errors_classified [OF schedule_upt, where tool = demo_tool and env = demo_env and w = 7
      and call = "\<lparr>call_ID = ''1'', call_Name = ''t'', call_Input = ''''\<rparr>"]
  by (simp add: demo_tool_def demo_schema_def ValidateInput_def schema_ValidateInput_def demo_env_def
      classifySchemaError_def classifyToolError_def isToolInputInvalid_def isToolSchemaInvalid_def
      errors_Is_def Let_def)

text \<open>
  The metadata writes of parallel calls are merged key by key: the last call, in call
  order, that changed, added or removed a key decides its value, and a key no call touched keeps
  the value it had.
\<close>

theorem parallel_metadata_last_writer:
  assumes "\<forall>c \<in> set copies. wf_map c"
  shows "\<exists>merged. mergeMetadataWrites (Some m) (Some m) (map Some copies) = Some merged
    \<and> (\<forall>k. map_of merged k = (case filter (\<lambda>c. map_of c k \<noteq> map_of m k) copies of
         [] \<Rightarrow> map_of m k | changed \<Rightarrow> map_of (last changed) k))"
proof -
  have "fold (\<lambda>copied. merge_copy (metadata_of (Some m)) (metadata_of copied)) (map Some copies) m
      = fold (merge_copy m) copies m"
    by (simp add: fold_map comp_def metadata_of_def)
  then have "mergeMetadataWrites (Some m) (Some m) (map Some copies) = Some (fold (merge_copy m) copies m)"
    by (simp add: mergeMetadataWrites_def)
  with merge_copies_lookup [OF assms] show ?thesis by blast
qed

theorem parallel_metadata_last_writer_witness:
  "\<exists>merged. mergeMetadataWrites (Some [(''a'', VInt 1)]) (Some [(''a'', VInt 1)])
      (map Some [[(''a'', VInt 2)], [(''a'', VInt 1)], []]) = Some merged \<and> map_of merged ''a'' = None"
  using parallel_metadata_last_writer [of "[[(''a'', VInt 2)], [(''a'', VInt 1)], []]" "[(''a'', VInt 1)]"]
  by (force simp: wf_map_def)

section \<open>Properties of the prompt compiler\<close>

text \<open>The modes the package declares. On these the comparison is an order.\<close>

definition known_mode :: "PromptBlock \<Rightarrow> bool" where
  "known_mode b \<longleftrightarrow> pb_Mode b = ''cacheable'' \<or> pb_Mode b = ''dynamic''"

definition block_key :: "PromptBlock \<Rightarrow> int \<times> int \<times> string" where
  "block_key b = (modeRank (pb_Mode b), pb_Priority b, pb_Name b)"

lemma block_before_key:
  "known_mode a \<Longrightarrow> known_mode b \<Longrightarrow> block_before a b \<longleftrightarrow> block_key a < block_key b"
  by (auto simp: block_before_def block_key_def known_mode_def modeRank_def)

interpretation by_block_key: strict_order "\<lambda>a b. block_key a < block_key b"
  by (rule strict_order_key)

lemma insert_by_cong:
  "(\<And>y. y \<in> set ys \<Longrightarrow> lt y x = lt' y x) \<Longrightarrow> insert_by lt x ys = insert_by lt' x ys"
  by (induction ys) auto

lemma sort_by_cong:
  "(\<And>x y. x \<in> set xs \<Longrightarrow> y \<in> set xs \<Longrightarrow> lt x y = lt' x y) \<Longrightarrow> sort_by lt xs = sort_by lt' xs"
proof (induction xs)
  case (Cons x xs)
  then have "sort_by lt xs = sort_by lt' xs" by simp
  moreover have "insert_by lt x (sort_by lt' xs) = insert_by lt' x (sort_by lt' xs)"
    using Cons.prems by (intro insert_by_cong) simp
  ultimately show ?case by (simp add: sort_by_def)
qed (simp add: sort_by_def)

lemma Compile_sorted:
  assumes "\<forall>b \<in> set blocks. known_mode b"
  shows "cp_Blocks (Compile blocks) = sort_by (\<lambda>a b. block_key a < block_key b) blocks"
  using assms block_before_key by (auto simp: Compile_def Let_def intro!: sort_by_cong)

text \<open>The compiled prompt is deterministic: cacheable blocks come first, then by priority
  and name, and two listings of the same blocks compile to the same prompt when no two blocks
  share mode, priority and name. The blocks must have one of the two declared modes.
\<close>

theorem compile_deterministic:
  assumes "mset blocks = mset blocks'" and "\<forall>b \<in> set blocks. known_mode b"
    and "inj_on block_key (set blocks)"
  shows "Compile blocks = Compile blocks' \<and> sorted (map block_key (cp_Blocks (Compile blocks)))
    \<and> mset (cp_Blocks (Compile blocks)) = mset blocks"
proof -
  have s: "set blocks' = set blocks" using assms(1) by (metis set_mset_mset)
  have "sort_by (\<lambda>a b. block_key a < block_key b) blocks = sort_by (\<lambda>a b. block_key a < block_key b) blocks'"
    using assms(1,3) by (intro by_block_key.sort_unique) (auto simp: inj_on_def not_less)
  then have "cp_Blocks (Compile blocks) = cp_Blocks (Compile blocks')"
    using assms(2) s by (simp add: Compile_sorted)
  then have "Compile blocks = Compile blocks'" by (simp add: Compile_def Let_def)
  moreover have "sorted (map block_key (cp_Blocks (Compile blocks)))"
    using by_block_key.sorted_sort_by [of blocks] assms(2)
    by (simp add: Compile_sorted sorted_map not_less)
  moreover have "mset (cp_Blocks (Compile blocks)) = mset blocks" by (simp add: Compile_def Let_def)
  ultimately show ?thesis by blast
qed

theorem compile_deterministic_witness:
  "Compile [\<lparr>pb_Name = ''b'', pb_Mode = ''dynamic'', pb_Priority = 1, pb_Content = ''x''\<rparr>,
      \<lparr>pb_Name = ''a'', pb_Mode = ''cacheable'', pb_Priority = 2, pb_Content = ''y''\<rparr>]
    = Compile [\<lparr>pb_Name = ''a'', pb_Mode = ''cacheable'', pb_Priority = 2, pb_Content = ''y''\<rparr>,
      \<lparr>pb_Name = ''b'', pb_Mode = ''dynamic'', pb_Priority = 1, pb_Content = ''x''\<rparr>]"
  by (intro compile_deterministic [THEN conjunct1])
    (simp_all add: known_mode_def block_key_def modeRank_def)

text \<open>With a mode that is not declared, such as the empty one, the comparison is no order:
  such a block ties with every dynamic block whatever their priorities, so ties are not
  transitive and the result of the sort depends on the listing.
\<close>

theorem compile_unknown_mode_no_order:
  "\<exists>a b c. \<not> block_before a b \<and> \<not> block_before b c \<and> block_before a c \<and> pb_Mode b = ''''
    \<and> cp_Content (Compile [a, b, c]) \<noteq> cp_Content (Compile [c, b, a])"
proof (intro exI conjI)
  let ?a = "\<lparr>pb_Name = ''a'', pb_Mode = ''dynamic'', pb_Priority = 1, pb_Content = ''a''\<rparr>"
  let ?b = "\<lparr>pb_Name = ''b'', pb_Mode = '''', pb_Priority = 2, pb_Content = ''b''\<rparr>"
  let ?c = "\<lparr>pb_Name = ''c'', pb_Mode = ''dynamic'', pb_Priority = 3, pb_Content = ''c''\<rparr>"
  show "\<not> block_before ?a ?b" "\<not> block_before ?b ?c" "block_before ?a ?c" "pb_Mode ?b = ''''"
    "cp_Content (Compile [?a, ?b, ?c]) \<noteq> cp_Content (Compile [?c, ?b, ?a])"
    by (simp_all add: block_before_def modeRank_def Compile_def sort_by_def)
qed

end
