(* ===== verification/Agent_State.thy ===== *)
theory Agent_State
  imports Agent_Tools
begin

text \<open>
  \<open>goagent/agentcore\<close>: the data of an agent run: requests, messages, the run state with its events
  and summary, checkpoints and approval resolutions. A run ID is the 128-bit value of a UUID as a
  number, zero for the nil UUID; the UUID and JSON libraries are the record \<open>libs\<close>, passed to the
  operations that call them. A nil map is \<open>None\<close>, and writing to it is a panic of the stage.
\<close>

section \<open>Messages, requests, results\<close>

type_synonym RunID = nat

record Usage =
  us_InputTokens :: int
  us_OutputTokens :: int

record Message =
  msg_Role :: string
  msg_Content :: string
  msg_ToolCallID :: string
  msg_ToolCalls :: "ToolCall list"

definition text_message :: "string \<Rightarrow> string \<Rightarrow> Message" where
  "text_message role content =
     \<lparr>msg_Role = role, msg_Content = content, msg_ToolCallID = '''', msg_ToolCalls = []\<rparr>"

definition tool_message :: "string \<Rightarrow> string \<Rightarrow> Message" where
  "tool_message content i =
     \<lparr>msg_Role = ''tool'', msg_Content = content, msg_ToolCallID = i, msg_ToolCalls = []\<rparr>"

record RunRequest =
  req_RunID :: RunID
  req_Input :: string
  req_UserID :: string
  req_SessionID :: string
  req_Metadata :: "metadata option"
  req_AllowedPermissions :: "string list"
  req_PolicyContext :: PolicyContext

record ExecutionSummary =
  sm_LLMCalls :: int
  sm_ToolCalls :: int
  sm_UsedTools :: "string list"
  sm_Duration :: duration
  sm_AbortReason :: string

record CheckpointRequest =
  cr_Input :: string
  cr_UserID :: string
  cr_SessionID :: string
  cr_Metadata :: "metadata option"
  cr_AllowedPermissions :: "string list"
  cr_PolicyContext :: PolicyContext

record RunCheckpoint =
  ck_Version :: int
  ck_RunID :: string
  ck_Request :: CheckpointRequest
  ck_Iteration :: int
  ck_Messages :: "Message list"
  ck_Usage :: Usage
  ck_LLMCalls :: int
  ck_ToolCalls :: int
  ck_UsedTools :: "string list"
  ck_StartedAt :: time
  ck_Metadata :: "metadata option"
  ck_AllowedPermissions :: "string list"
  ck_PendingCalls :: "ToolCall list"
  ck_PromptBlocks :: "PromptBlock list"

record ToolApprovalResolution =
  tar_Index :: int
  tar_ToolCallID :: string
  tar_Tool :: string
  tar_Allowed :: bool
  tar_Reason :: string

record RunResult =
  rr_RunID :: RunID
  rr_Content :: string
  rr_StructuredOutput :: string
  rr_OutputMetadata :: "metadata option"
  rr_Usage :: Usage
  rr_ExecutionSummary :: ExecutionSummary
  rr_Interruption :: "RunCheckpoint option"

record Event =
  ev_RunID :: RunID
  ev_Type :: string
  ev_Stage :: string
  ev_Iteration :: int
  ev_Message :: string
  ev_Metadata :: metadata

record ChatRequest =
  chat_Messages :: "Message list"
  chat_Tools :: "ToolSpec list"
  chat_MaxOutputTokens :: int

record ChatResponse =
  resp_Content :: string
  resp_ToolCalls :: "ToolCall list"
  resp_Usage :: Usage

record ContextProjectionResult =
  cpr_Messages :: "Message list"
  cpr_Metadata :: "metadata option"

section \<open>The run state\<close>

text \<open>
  The events given to the sink are the list \<open>rs_Events\<close>; a run without a sink is one whose list is
  not read. The set \<open>usedToolLookup\<close> is a list.
\<close>

record RunState =
  rs_RunID :: RunID
  rs_Input :: RunRequest
  rs_Iteration :: int
  rs_Messages :: "Message list"
  rs_Final :: "RunResult option"
  rs_Usage :: Usage
  rs_Metadata :: "metadata option"
  rs_Events :: "Event list"
  rs_PromptBlocks :: "PromptBlock list"
  rs_CompiledPrompt :: "CompiledPrompt option"
  rs_ContextProjection :: "ContextProjectionResult option"
  rs_LastResponse :: "ChatResponse option"
  rs_PendingCalls :: "ToolCall list"
  rs_ToolResults :: "ToolExecution list"
  rs_AllowedPermissions :: "string list"
  rs_summary :: ExecutionSummary
  rs_startedAt :: time
  rs_usedToolLookup :: "string list"

definition zero_summary :: ExecutionSummary where
  "zero_summary = \<lparr>sm_LLMCalls = 0, sm_ToolCalls = 0, sm_UsedTools = [], sm_Duration = 0,
     sm_AbortReason = ''''\<rparr>"

definition NewRunState :: "RunID \<Rightarrow> RunRequest \<Rightarrow> time \<Rightarrow> RunState" where
  "NewRunState runID req now =
     \<lparr>rs_RunID = runID, rs_Input = req, rs_Iteration = 0, rs_Messages = [], rs_Final = None,
      rs_Usage = \<lparr>us_InputTokens = 0, us_OutputTokens = 0\<rparr>,
      rs_Metadata = Some (map_write_all [] (metadata_of (req_Metadata req))), rs_Events = [],
      rs_PromptBlocks = [], rs_CompiledPrompt = None, rs_ContextProjection = None,
      rs_LastResponse = None, rs_PendingCalls = [], rs_ToolResults = [],
      rs_AllowedPermissions = req_AllowedPermissions req, rs_summary = zero_summary,
      rs_startedAt = now, rs_usedToolLookup = []\<rparr>"

definition Emit :: "string \<Rightarrow> string \<Rightarrow> metadata \<Rightarrow> RunState \<Rightarrow> RunState" where
  "Emit type' stage metadata s = s\<lparr>rs_Events := rs_Events s @
     [\<lparr>ev_RunID = rs_RunID s, ev_Type = type', ev_Stage = stage, ev_Iteration = rs_Iteration s,
       ev_Message = '''', ev_Metadata = metadata\<rparr>]\<rparr>"

definition recordLLMCall :: "RunState \<Rightarrow> RunState" where
  "recordLLMCall s = s\<lparr>rs_summary := (rs_summary s)\<lparr>sm_LLMCalls := sm_LLMCalls (rs_summary s) + 1\<rparr>\<rparr>"

definition recordToolResult :: "ToolExecution \<Rightarrow> RunState \<Rightarrow> RunState" where
  "recordToolResult result s =
     (let s = s\<lparr>rs_summary := (rs_summary s)\<lparr>sm_ToolCalls := sm_ToolCalls (rs_summary s) + 1\<rparr>\<rparr>;
          name = call_Name (te_Call result)
      in if List.member (rs_usedToolLookup s) name then s
         else s\<lparr>rs_usedToolLookup := rs_usedToolLookup s @ [name],
                rs_summary := (rs_summary s)\<lparr>sm_UsedTools := sm_UsedTools (rs_summary s) @ [name]\<rparr>\<rparr>)"

definition recordToolResults :: "ToolExecution list \<Rightarrow> RunState \<Rightarrow> RunState" where
  "recordToolResults results s = fold recordToolResult results s"

definition executionSummary :: "string \<Rightarrow> time \<Rightarrow> RunState \<Rightarrow> ExecutionSummary" where
  "executionSummary abortReason now s = (rs_summary s)\<lparr>sm_AbortReason := abortReason,
     sm_Duration := (if now - rs_startedAt s \<le> 0 then 1 else now - rs_startedAt s)\<rparr>"

text \<open>\<open>cloneMetadata\<close> and \<open>cloneStringMap\<close>: an empty map becomes the nil map.\<close>

definition clone_metadata :: "metadata option \<Rightarrow> metadata option" where
  "clone_metadata m = (case m of None \<Rightarrow> None | Some kvs \<Rightarrow> if kvs = [] then None else Some kvs)"

text \<open>\<open>state.Metadata[key] == true\<close>, and the assignment, which panics on a nil map.\<close>

definition flag :: "string \<Rightarrow> RunState \<Rightarrow> bool" where
  "flag key s \<longleftrightarrow> map_of (metadata_of (rs_Metadata s)) key = Some (VBool True)"

definition set_flag :: "string \<Rightarrow> RunState \<Rightarrow> RunState option" where
  "set_flag key s = (case rs_Metadata s of
      None \<Rightarrow> None
    | Some m \<Rightarrow> Some (s\<lparr>rs_Metadata := Some (AList.update key (VBool True) m)\<rparr>))"

section \<open>Checkpoints\<close>

record libs =
  lib_uuid_String :: "RunID \<Rightarrow> string"
  lib_uuid_Parse :: "string \<Rightarrow> RunID option"
  lib_Marshal :: "RunCheckpoint \<Rightarrow> string option"
  lib_json_Valid :: "string \<Rightarrow> bool"
  lib_json_Schema :: "string \<Rightarrow> string \<Rightarrow> AgentError option"

text \<open>\<open>lib_Marshal\<close> is \<open>json.Marshal\<close>: \<open>None\<close>, or the text of its error.\<close>

definition checkpoint_error :: "string \<Rightarrow> AgentError" where
  "checkpoint_error what = WrapText ErrInvalidRunCheckpoint what"

fun first_unnamed :: "nat \<Rightarrow> ToolCall list \<Rightarrow> nat option" where
  "first_unnamed i [] = None"
| "first_unnamed i (call # calls) = (if call_Name call = '''' then Some i else first_unnamed (Suc i) calls)"

definition validate :: "libs \<Rightarrow> RunCheckpoint \<Rightarrow> AgentError + RunID" where
  "validate L c =
     (if ck_Version c \<noteq> 1 then Inl (checkpoint_error (''version '' @ itoa (ck_Version c)))
      else case lib_uuid_Parse L (ck_RunID c) of
        None \<Rightarrow> Inl (checkpoint_error ''run ID'')
      | Some runID \<Rightarrow>
          if runID = 0 then Inl (checkpoint_error ''run ID'')
          else if ck_StartedAt c = 0 then Inl (checkpoint_error ''started at'')
          else if ck_PendingCalls c = [] then Inl (checkpoint_error ''pending calls'')
          else (case first_unnamed 0 (ck_PendingCalls c) of
              Some i \<Rightarrow> Inl (checkpoint_error (''pending call '' @ itoa (int i) @ '' has no tool''))
            | None \<Rightarrow> (case lib_Marshal L c of
                Some err \<Rightarrow> Inl (checkpoint_error (''JSON serialization: '' @ err))
              | None \<Rightarrow> Inr runID)))"

definition cloneStringMap :: "(string, string) gomap \<Rightarrow> (string, string) gomap" where
  "cloneStringMap m = map (\<lambda>(k, v). (k, v)) m"

definition checkpoint_policy :: "PolicyContext \<Rightarrow> PolicyContext" where
  "checkpoint_policy p = \<lparr>pc_TenantID = pc_TenantID p, pc_RequestID = pc_RequestID p,
     pc_TraceID = pc_TraceID p, pc_Labels = cloneStringMap (pc_Labels p)\<rparr>"

definition checkpointToolCalls :: "ToolCall list \<Rightarrow> ToolCall list" where
  "checkpointToolCalls calls = map (\<lambda>call. \<lparr>call_ID = call_ID call, call_Name = call_Name call,
     call_Input = call_Input call\<rparr>) calls"

definition cloneMessages :: "Message list \<Rightarrow> Message list" where
  "cloneMessages messages = map (\<lambda>m. \<lparr>msg_Role = msg_Role m, msg_Content = msg_Content m,
     msg_ToolCallID = msg_ToolCallID m, msg_ToolCalls = checkpointToolCalls (msg_ToolCalls m)\<rparr>) messages"

lemma clone_ids [simp]:
  "cloneStringMap m = m" "checkpoint_policy p = p" "checkpointToolCalls calls = calls"
  "cloneMessages messages = messages"
proof -
  show c: "checkpointToolCalls calls = calls" for calls
    unfolding checkpointToolCalls_def by (rule map_idI) simp
  show "cloneMessages messages = messages"
    unfolding cloneMessages_def by (rule map_idI) (simp add: c)
qed (simp_all add: cloneStringMap_def checkpoint_policy_def)

definition checkpointRequestFromRunRequest :: "RunRequest \<Rightarrow> CheckpointRequest" where
  "checkpointRequestFromRunRequest req =
     \<lparr>cr_Input = req_Input req, cr_UserID = req_UserID req, cr_SessionID = req_SessionID req,
      cr_Metadata = clone_metadata (req_Metadata req),
      cr_AllowedPermissions = req_AllowedPermissions req,
      cr_PolicyContext = checkpoint_policy (req_PolicyContext req)\<rparr>"

definition checkpoint_of_state :: "libs \<Rightarrow> RunState \<Rightarrow> RunCheckpoint" where
  "checkpoint_of_state L s =
     \<lparr>ck_Version = 1, ck_RunID = lib_uuid_String L (rs_RunID s),
      ck_Request = checkpointRequestFromRunRequest (rs_Input s), ck_Iteration = rs_Iteration s,
      ck_Messages = cloneMessages (rs_Messages s), ck_Usage = rs_Usage s,
      ck_LLMCalls = sm_LLMCalls (rs_summary s), ck_ToolCalls = sm_ToolCalls (rs_summary s),
      ck_UsedTools = sm_UsedTools (rs_summary s), ck_StartedAt = rs_startedAt s,
      ck_Metadata = clone_metadata (rs_Metadata s),
      ck_AllowedPermissions = rs_AllowedPermissions s,
      ck_PendingCalls = checkpointToolCalls (rs_PendingCalls s),
      ck_PromptBlocks = rs_PromptBlocks s\<rparr>"

definition checkpointFromState :: "libs \<Rightarrow> RunState \<Rightarrow> AgentError + RunCheckpoint" where
  "checkpointFromState L s =
     (let checkpoint = checkpoint_of_state L s
      in case validate L checkpoint of Inl err \<Rightarrow> Inl err | Inr _ \<Rightarrow> Inr checkpoint)"

definition runRequest :: "RunID \<Rightarrow> CheckpointRequest \<Rightarrow> RunRequest" where
  "runRequest runID r =
     \<lparr>req_RunID = runID, req_Input = cr_Input r, req_UserID = cr_UserID r,
      req_SessionID = cr_SessionID r, req_Metadata = clone_metadata (cr_Metadata r),
      req_AllowedPermissions = cr_AllowedPermissions r,
      req_PolicyContext = checkpoint_policy (cr_PolicyContext r)\<rparr>"

definition restore :: "libs \<Rightarrow> RunCheckpoint \<Rightarrow> AgentError + RunState" where
  "restore L c = (case validate L c of
      Inl err \<Rightarrow> Inl err
    | Inr runID \<Rightarrow> Inr
        \<lparr>rs_RunID = runID, rs_Input = runRequest runID (ck_Request c), rs_Iteration = ck_Iteration c,
         rs_Messages = cloneMessages (ck_Messages c), rs_Final = None, rs_Usage = ck_Usage c,
         rs_Metadata = clone_metadata (ck_Metadata c), rs_Events = [],
         rs_PromptBlocks = ck_PromptBlocks c, rs_CompiledPrompt = None,
         rs_ContextProjection = None, rs_LastResponse = None,
         rs_PendingCalls = checkpointToolCalls (ck_PendingCalls c),
         rs_ToolResults = [], rs_AllowedPermissions = ck_AllowedPermissions c,
         rs_summary = zero_summary\<lparr>sm_LLMCalls := ck_LLMCalls c, sm_ToolCalls := ck_ToolCalls c,
           sm_UsedTools := ck_UsedTools c\<rparr>,
         rs_startedAt = ck_StartedAt c, rs_usedToolLookup = remdups (ck_UsedTools c)\<rparr>)"

section \<open>Approval resolutions\<close>

definition resolution_error :: "string \<Rightarrow> AgentError" where
  "resolution_error what = WrapText ErrInvalidApprovalResolution what"

text \<open>The loop over the resolutions, with the slices \<open>seen\<close> and \<open>ordered\<close> as a list of options.\<close>

fun place_resolutions ::
  "ToolCall list \<Rightarrow> ToolApprovalResolution list \<Rightarrow> ToolApprovalResolution option list
     \<Rightarrow> AgentError + ToolApprovalResolution option list" where
  "place_resolutions calls [] seen = Inr seen"
| "place_resolutions calls (r # rs) seen =
     (if tar_Index r < 0 \<or> tar_Index r \<ge> int (length calls)
      then Inl (resolution_error (''index '' @ itoa (tar_Index r)))
      else if seen ! nat (tar_Index r) \<noteq> None
      then Inl (resolution_error (''duplicate index '' @ itoa (tar_Index r)))
      else if tar_ToolCallID r \<noteq> call_ID (calls ! nat (tar_Index r))
           \<or> tar_Tool r \<noteq> call_Name (calls ! nat (tar_Index r))
      then Inl (resolution_error (''index '' @ itoa (tar_Index r) @ '' does not match call''))
      else place_resolutions calls rs (seen[nat (tar_Index r) := Some r]))"

fun all_placed :: "nat \<Rightarrow> ToolApprovalResolution option list \<Rightarrow> AgentError + ToolApprovalResolution list" where
  "all_placed i [] = Inr []"
| "all_placed i (None # seen) = Inl (resolution_error (''missing index '' @ itoa (int i)))"
| "all_placed i (Some r # seen) = (case all_placed (Suc i) seen of
      Inl err \<Rightarrow> Inl err | Inr rs \<Rightarrow> Inr (r # rs))"

definition validateApprovalResolutions ::
  "ToolCall list \<Rightarrow> ToolApprovalResolution list \<Rightarrow> AgentError + ToolApprovalResolution list" where
  "validateApprovalResolutions calls resolutions =
     (if length calls \<noteq> length resolutions
      then Inl (resolution_error (''got '' @ itoa (int (length resolutions)) @ '' resolutions for ''
             @ itoa (int (length calls)) @ '' calls''))
      else (case place_resolutions calls resolutions (replicate (length calls) None) of
          Inl err \<Rightarrow> Inl err
        | Inr seen \<Rightarrow> all_placed 0 seen))"

section \<open>Properties of checkpoints\<close>

lemma clone_metadata_simps [simp]:
  "metadata_of (clone_metadata m) = metadata_of m"
  "clone_metadata (clone_metadata m) = clone_metadata m"
  by (auto simp: metadata_of_def clone_metadata_def split: option.splits)

text \<open>Property C9. Pausing and resuming loses nothing: a checkpoint taken of a state restores to a state
  with the same conversation, pending calls, permissions, prompt blocks, usage, counters and
  request, with the same metadata up to the difference between an empty and a nil map, and a
  checkpoint of the restored state is the same checkpoint. The UUID library must parse what it
  prints.
\<close>

theorem checkpoint_roundtrip:
  assumes "checkpointFromState L s = Inr c" and "lib_uuid_Parse L (lib_uuid_String L (rs_RunID s)) = Some (rs_RunID s)"
  shows "\<exists>s'. restore L c = Inr s' \<and> rs_RunID s' = rs_RunID s \<and> rs_Iteration s' = rs_Iteration s
    \<and> rs_Messages s' = rs_Messages s \<and> rs_PendingCalls s' = rs_PendingCalls s
    \<and> rs_AllowedPermissions s' = rs_AllowedPermissions s \<and> rs_PromptBlocks s' = rs_PromptBlocks s
    \<and> rs_Usage s' = rs_Usage s \<and> rs_startedAt s' = rs_startedAt s
    \<and> sm_LLMCalls (rs_summary s') = sm_LLMCalls (rs_summary s)
    \<and> sm_ToolCalls (rs_summary s') = sm_ToolCalls (rs_summary s)
    \<and> sm_UsedTools (rs_summary s') = sm_UsedTools (rs_summary s)
    \<and> metadata_of (rs_Metadata s') = metadata_of (rs_Metadata s)
    \<and> rs_Input s' = (rs_Input s)\<lparr>req_RunID := rs_RunID s, req_Metadata := clone_metadata (req_Metadata (rs_Input s))\<rparr>
    \<and> checkpointFromState L s' = Inr c"
proof -
  from assms(1) have c: "c = checkpoint_of_state L s" and "\<exists>i. validate L c = Inr i"
    by (auto simp: checkpointFromState_def Let_def split: sum.splits)
  with assms(2) have v: "validate L c = Inr (rs_RunID s)"
    by (auto simp: validate_def checkpoint_of_state_def split: if_splits option.splits)
  obtain s' where s': "restore L c = Inr s'" by (simp add: restore_def v)
  have f: "rs_RunID s' = rs_RunID s" "rs_Iteration s' = rs_Iteration s" "rs_Messages s' = rs_Messages s"
    "rs_PendingCalls s' = rs_PendingCalls s" "rs_AllowedPermissions s' = rs_AllowedPermissions s"
    "rs_PromptBlocks s' = rs_PromptBlocks s" "rs_Usage s' = rs_Usage s" "rs_startedAt s' = rs_startedAt s"
    "sm_LLMCalls (rs_summary s') = sm_LLMCalls (rs_summary s)"
    "sm_ToolCalls (rs_summary s') = sm_ToolCalls (rs_summary s)"
    "sm_UsedTools (rs_summary s') = sm_UsedTools (rs_summary s)"
    "rs_Metadata s' = clone_metadata (rs_Metadata s)"
    "rs_Input s' = (rs_Input s)\<lparr>req_RunID := rs_RunID s, req_Metadata := clone_metadata (req_Metadata (rs_Input s))\<rparr>"
    using s' by (auto simp: restore_def v) (auto simp: c checkpoint_of_state_def runRequest_def
        checkpointRequestFromRunRequest_def zero_summary_def)
  have "checkpoint_of_state L s' = c"
    unfolding c checkpoint_of_state_def f by (simp add: checkpointRequestFromRunRequest_def)
  then have "checkpointFromState L s' = Inr c" by (simp add: checkpointFromState_def v)
  with s' f show ?thesis by simp
qed

definition demo_libs :: libs where
  "demo_libs = \<lparr>lib_uuid_String = (\<lambda>i. itoa (int i)), lib_uuid_Parse = (\<lambda>t. if t = ''7'' then Some 7 else None),
     lib_Marshal = (\<lambda>_. None), lib_json_Valid = (\<lambda>_. True), lib_json_Schema = (\<lambda>_ _. None)\<rparr>"

definition demo_request :: RunRequest where
  "demo_request = \<lparr>req_RunID = 7, req_Input = ''hi'', req_UserID = ''u'', req_SessionID = ''s'',
     req_Metadata = None, req_AllowedPermissions = [''write''],
     req_PolicyContext = \<lparr>pc_TenantID = '''', pc_RequestID = '''', pc_TraceID = '''', pc_Labels = []\<rparr>\<rparr>"

theorem checkpoint_roundtrip_witness:
  "\<exists>c s'. checkpointFromState demo_libs ((NewRunState 7 demo_request 5)\<lparr>rs_PendingCalls := demo_calls\<rparr>) = Inr c
    \<and> restore demo_libs c = Inr s' \<and> rs_PendingCalls s' = demo_calls"
proof -
  let ?s = "(NewRunState 7 demo_request 5)\<lparr>rs_PendingCalls := demo_calls\<rparr>"
  have "itoa 7 = ''7''" by (simp add: itoa_def digits.simps char_of_def bit_Suc_0_iff)
  then have p: "lib_uuid_Parse demo_libs (lib_uuid_String demo_libs (rs_RunID ?s)) = Some (rs_RunID ?s)"
    by (simp add: demo_libs_def NewRunState_def)
  then obtain c where c: "checkpointFromState demo_libs ?s = Inr c"
    by (simp add: checkpointFromState_def validate_def checkpoint_of_state_def demo_calls_def Let_def)
      (simp add: demo_libs_def NewRunState_def)
  from checkpoint_roundtrip [OF c p] c show ?thesis by auto
qed

section \<open>Properties of approval resolutions\<close>

definition resolves :: "ToolCall list \<Rightarrow> nat \<Rightarrow> ToolApprovalResolution \<Rightarrow> bool" where
  "resolves calls i r \<longleftrightarrow> i < length calls \<and> tar_Index r = int i
     \<and> tar_ToolCallID r = call_ID (calls ! i) \<and> tar_Tool r = call_Name (calls ! i)"

definition placed :: "ToolApprovalResolution option list \<Rightarrow> ToolApprovalResolution multiset" where
  "placed seen = mset (concat (map (case_option [] (\<lambda>r. [r])) seen))"

lemma placed_update:
  "i < length seen \<Longrightarrow> seen ! i = None \<Longrightarrow> placed (seen[i := Some r]) = add_mset r (placed seen)"
proof (induction seen arbitrary: i)
  case (Cons x seen)
  then show ?case by (cases i) (auto simp: placed_def)
qed simp

lemma placed_None [simp]: "placed (replicate n None) = {#}"
  by (induction n) (auto simp: placed_def)

lemma all_placed_Some: "all_placed i (map Some rs) = Inr rs"
  by (induction rs arbitrary: i) auto

lemma all_placed_iff: "all_placed i seen = Inr rs \<longleftrightarrow> seen = map Some rs"
proof
  show "all_placed i seen = Inr rs \<Longrightarrow> seen = map Some rs"
    by (induction i seen arbitrary: rs rule: all_placed.induct) (auto split: sum.splits)
qed (simp add: all_placed_Some)

lemma placed_full: "size (placed seen) = length seen \<Longrightarrow> None \<notin> set seen"
proof (induction seen)
  case (Cons x seen)
  have "size (placed seen) \<le> length seen"
    by (induction seen) (auto simp: placed_def split: option.split)
  with Cons show ?case by (cases x) (auto simp: placed_def)
qed simp

lemma placed_member: "Some r \<in> set seen \<longleftrightarrow> r \<in># placed seen"
  by (induction seen) (auto simp: placed_def split: option.splits)

lemma placed_Some [simp]: "placed (map Some rs) = mset rs"
  by (induction rs) (auto simp: placed_def)

lemma place_resolutions_Inr:
  assumes "place_resolutions calls rs seen = Inr seen'" and "length seen = length calls"
    and "\<forall>i r. i < length seen \<longrightarrow> seen ! i = Some r \<longrightarrow> resolves calls i r"
  shows "placed seen' = placed seen + mset rs \<and> length seen' = length calls
    \<and> (\<forall>i r. i < length seen' \<longrightarrow> seen' ! i = Some r \<longrightarrow> resolves calls i r)"
  using assms
proof (induction rs arbitrary: seen)
  case Nil
  then show ?case by simp
next
  case (Cons r rs)
  let ?i = "nat (tar_Index r)"
  from Cons.prems(1) have r: "0 \<le> tar_Index r" "tar_Index r < int (length calls)" "seen ! ?i = None"
    "resolves calls ?i r" and p: "place_resolutions calls rs (seen[?i := Some r]) = Inr seen'"
    by (auto simp: resolves_def split: if_splits)
  have "placed seen' = placed (seen[?i := Some r]) + mset rs \<and> length seen' = length calls
      \<and> (\<forall>i r. i < length seen' \<longrightarrow> seen' ! i = Some r \<longrightarrow> resolves calls i r)"
  proof (rule Cons.IH [OF p])
    show "\<forall>i q. i < length (seen[?i := Some r]) \<longrightarrow> seen[?i := Some r] ! i = Some q \<longrightarrow> resolves calls i q"
    proof (intro allI impI)
      fix i q assume "i < length (seen[?i := Some r])" and "seen[?i := Some r] ! i = Some q"
      with Cons.prems(3) r(4) show "resolves calls i q" by (cases "i = ?i") simp_all
    qed
  qed (use Cons.prems(2) in simp)
  moreover have "placed (seen[?i := Some r]) = add_mset r (placed seen)"
    using r Cons.prems(2) by (intro placed_update) auto
  ultimately show ?case by simp
qed

lemma place_resolutions_complete:
  assumes "length seen = length calls" and "\<forall>r \<in> set rs. \<exists>i. resolves calls i r \<and> seen ! i = None"
    and "distinct (map tar_Index rs)"
  shows "\<exists>seen'. place_resolutions calls rs seen = Inr seen'"
  using assms
proof (induction rs arbitrary: seen)
  case (Cons r rs)
  from Cons.prems(2) obtain i where i: "resolves calls i r" "seen ! i = None" by auto
  have "\<forall>q \<in> set rs. \<exists>j. resolves calls j q \<and> seen[i := Some r] ! j = None"
  proof
    fix q assume q: "q \<in> set rs"
    with Cons.prems(2) obtain j where j: "resolves calls j q" "seen ! j = None" by auto
    from q Cons.prems(3) have "tar_Index q \<noteq> tar_Index r" by (auto simp: image_iff)
    with j i have "j \<noteq> i" by (auto simp: resolves_def)
    with j show "\<exists>j. resolves calls j q \<and> seen[i := Some r] ! j = None" by auto
  qed
  with Cons.IH [of "seen[i := Some r]"] Cons.prems(1,3) i show ?case by (auto simp: resolves_def)
qed simp

lemma resolutions_permute:
  assumes "validateApprovalResolutions calls rs = Inr ordered"
  shows "length ordered = length calls \<and> mset ordered = mset rs \<and> (\<forall>i < length calls. resolves calls i (ordered ! i))"
proof -
  from assms have p: "place_resolutions calls rs (replicate (length calls) None) = Inr (map Some ordered)"
    by (auto simp: validateApprovalResolutions_def all_placed_iff split: if_splits sum.splits)
  from place_resolutions_Inr [OF p] show ?thesis by auto
qed

text \<open>Property C10. A set of approval resolutions is accepted exactly when it answers the pending calls
  one to one: each call, in call order, by the one resolution with its index, call ID and tool
  name, and no resolution is left over; the accepted list is the resolutions in call order.
\<close>

theorem resolutions_match_exactly:
  "validateApprovalResolutions calls rs = Inr ordered \<longleftrightarrow>
     length ordered = length calls \<and> mset ordered = mset rs \<and> (\<forall>i < length calls. resolves calls i (ordered ! i))"
proof
  assume "validateApprovalResolutions calls rs = Inr ordered"
  then show "length ordered = length calls \<and> mset ordered = mset rs
      \<and> (\<forall>i < length calls. resolves calls i (ordered ! i))" by (rule resolutions_permute)
next
  assume o: "length ordered = length calls \<and> mset ordered = mset rs \<and> (\<forall>i < length calls. resolves calls i (ordered ! i))"
  then have len: "length rs = length calls" by (metis size_mset)
  have "map tar_Index ordered = map int [0..<length calls]"
    using o by (auto simp: resolves_def intro!: nth_equalityI)
  then have "distinct (map tar_Index ordered)" by (simp add: distinct_map)
  then have d: "distinct (map tar_Index rs)" using o by (metis mset_map mset_eq_imp_distinct_iff)
  have s: "set rs = set ordered" using o by (metis set_mset_mset)
  have "\<forall>r \<in> set rs. \<exists>i. resolves calls i r \<and> replicate (length calls) None ! i = None"
    using o by (auto simp: s in_set_conv_nth resolves_def)
  with d place_resolutions_complete [of "replicate (length calls) None" calls rs] obtain seen where
    p: "place_resolutions calls rs (replicate (length calls) None) = Inr seen" by auto
  from place_resolutions_Inr [OF p] have seen: "placed seen = mset rs" "length seen = length calls"
    "\<forall>i r. i < length seen \<longrightarrow> seen ! i = Some r \<longrightarrow> resolves calls i r" by auto
  have full: "None \<notin> set seen" using seen(1,2) len by (intro placed_full) simp
  have "seen ! i = Some (ordered ! i)" if i: "i < length calls" for i
  proof -
    from full i seen(2) obtain r where r: "seen ! i = Some r" by (metis nth_mem option.exhaust)
    with i seen(2,3) have "tar_Index r = int i" by (auto simp: resolves_def)
    moreover have "tar_Index (ordered ! i) = int i" using o i by (auto simp: resolves_def)
    moreover have "r \<in> set rs" using r i seen(1,2) by (metis nth_mem placed_member set_mset_mset)
    moreover have "ordered ! i \<in> set rs" using o i by (simp add: s)
    ultimately have "r = ordered ! i" using d by (auto simp: distinct_map inj_on_def)
    with r show ?thesis by simp
  qed
  then have "seen = map Some ordered" using seen(2) o by (auto intro!: nth_equalityI)
  with p len show "validateApprovalResolutions calls rs = Inr ordered"
    by (simp add: validateApprovalResolutions_def all_placed_iff)
qed


theorem resolutions_match_exactly_witness:
  "\<exists>a b. tar_Index a = 0 \<and> tar_Index b = 1 \<and> length demo_calls = 2
     \<and> validateApprovalResolutions demo_calls [b, a] = Inr [a, b]"
proof (intro exI conjI)
  let ?res = "\<lambda>i. \<lparr>tar_Index = int i, tar_ToolCallID = call_ID (demo_calls ! i),
     tar_Tool = call_Name (demo_calls ! i), tar_Allowed = True, tar_Reason = ''''\<rparr>"
  show "validateApprovalResolutions demo_calls [?res 1, ?res 0] = Inr [?res 0, ?res 1]"
    unfolding resolutions_match_exactly
    by (auto simp: resolves_def demo_calls_def nth_Cons less_Suc_eq split: nat.split)
  show "length demo_calls = 2" by (simp add: demo_calls_def)
qed simp_all

end
