(* ===== verification/LLM_Client.thy ===== *)
theory LLM_Client
  imports LLM_Stats Agent_State
begin

text \<open>
  \<open>llmkit/adapters/goagent\<close>: the client that routes a chat request to providers, with fallback
  (\<open>client.go\<close>) and its errors (\<open>errors.go\<close>), and \<open>ResponseDeltas\<close> of \<open>goagent/ports/llm.go\<close>.

  Everything the client is configured with is an argument: the providers, the health store, the
  recorder, the hook, the metadata and statistics providers, the clock and the request context are
  functions over a world \<open>'w\<close> that they may change. A streaming provider is a \<open>script\<close>: it yields
  deltas, each answered by the callback, and finishes with a result. A panic inside the selection
  is \<open>None\<close>.
\<close>

section \<open>Errors\<close>

datatype ErrorStage =
  ErrorStageRoute | ErrorStageConfig | ErrorStagePreCall | ErrorStageProvider | ErrorStagePostCall

text \<open>
  An error is a \<open>RuntimeError\<close> with its cause, a context error, a busy error of the health store, a
  list joined by \<open>errors.Join\<close>, or any other error: with the interfaces \<open>errors.As\<close> may find on it
  (\<open>net.Error\<close>, the status of an \<open>openaiapi.ResponseError\<close>, \<open>ProviderErrorClass\<close>,
  \<open>ProviderDispatched\<close>) and the errors it wraps.
\<close>

record error_interfaces =
  ei_Timeout :: "bool option"
  ei_StatusCode :: "int option"
  ei_ProviderErrorClass :: "string option"
  ei_ProviderDispatched :: "bool option"

datatype client_error =
    RuntimeError (re_Stage: ErrorStage) (re_Class: ErrorClass) (re_ProviderDispatched: bool) (re_cause: client_error)
  | ContextError ctx_error
  | BusyError string
  | JoinError "client_error list"
  | OtherError string error_interfaces "client_error list"

definition no_interfaces :: error_interfaces where
  "no_interfaces = \<lparr>ei_Timeout = None, ei_StatusCode = None, ei_ProviderErrorClass = None,
     ei_ProviderDispatched = None\<rparr>"

abbreviation Errorf :: "string \<Rightarrow> client_error" where
  "Errorf s \<equiv> OtherError s no_interfaces []"

text \<open>The errors \<open>errors.Is\<close> and \<open>errors.As\<close> visit, in their order.\<close>

fun error_chain :: "client_error \<Rightarrow> client_error list" where
  "error_chain (RuntimeError s c d cause) = RuntimeError s c d cause # error_chain cause"
| "error_chain (ContextError e) = [ContextError e]"
| "error_chain (BusyError r) = [BusyError r]"
| "error_chain (JoinError es) = JoinError es # concat (map error_chain es)"
| "error_chain (OtherError s i es) = OtherError s i es # concat (map error_chain es)"

fun is_RuntimeError :: "client_error \<Rightarrow> bool" where
  "is_RuntimeError (RuntimeError _ _ _ _) = True"
| "is_RuntimeError _ = False"

fun is_BusyError :: "client_error \<Rightarrow> bool" where
  "is_BusyError (BusyError _) = True"
| "is_BusyError _ = False"

definition as_RuntimeError :: "client_error \<Rightarrow> client_error option" where
  "as_RuntimeError err = List.find is_RuntimeError (error_chain err)"

text \<open>\<open>errors.As\<close> on an interface: the first error of the chain that has it.\<close>

fun interface_of :: "(error_interfaces \<Rightarrow> 'a option) \<Rightarrow> client_error \<Rightarrow> 'a option" where
  "interface_of f (OtherError s i es) = f i"
| "interface_of f _ = None"

definition as_interface :: "(error_interfaces \<Rightarrow> 'a option) \<Rightarrow> client_error \<Rightarrow> 'a option" where
  "as_interface f err = (case List.find (\<lambda>e. interface_of f e \<noteq> None) (error_chain err) of
      None \<Rightarrow> None | Some e \<Rightarrow> interface_of f e)"

definition newRuntimeError :: "ErrorStage \<Rightarrow> ErrorClass \<Rightarrow> bool \<Rightarrow> client_error \<Rightarrow> client_error" where
  "newRuntimeError stage class' dispatched cause =
     RuntimeError stage (if class' = ErrorClassOther '''' then ErrorClassUnknown else class') dispatched cause"

definition status_class :: "int \<Rightarrow> ErrorClass option" where
  "status_class code =
     (if code = 401 \<or> code = 403 then Some ErrorClassAuth
      else if code = 408 then Some ErrorClassTimeout
      else if code = 429 then Some ErrorClassRateLimited
      else if code \<ge> 500 \<and> code \<le> 599 then Some ErrorClassTransient else None)"

definition provider_classes :: "ErrorClass list" where
  "provider_classes = [ErrorClassRequestTooLarge, ErrorClassResponseTooLarge, ErrorClassInvalidJSON,
     ErrorClassUsageMissing, ErrorClassRedirectBlocked, ErrorClassInvalidResponse,
     ErrorClassToolCallInvalid, ErrorClassConfiguration, ErrorClassBudgetExceeded]"

definition DefaultErrorClassifier :: "client_error \<Rightarrow> ErrorClass" where
  "DefaultErrorClassifier err = (case as_RuntimeError err of
      Some r \<Rightarrow> re_Class r
    | None \<Rightarrow>
        if ContextError Canceled \<in> set (error_chain err) then ErrorClassCanceled
        else if ContextError DeadlineExceeded \<in> set (error_chain err) then ErrorClassTimeout
        else if as_interface ei_Timeout err = Some True then ErrorClassTimeout
        else case Option.bind (as_interface ei_StatusCode err) status_class of
               Some class' \<Rightarrow> class'
             | None \<Rightarrow> (case as_interface ei_ProviderErrorClass err of
                 None \<Rightarrow> ErrorClassUnknown
               | Some s \<Rightarrow> if class_of_string s \<in> set provider_classes then class_of_string s
                           else ErrorClassUnknown))"

definition providerWasDispatched :: "client_error \<Rightarrow> bool" where
  "providerWasDispatched err = (case as_interface ei_ProviderDispatched err of Some d \<Rightarrow> d | None \<Rightarrow> True)"

definition joinRouteErrors :: "client_error \<Rightarrow> client_error list \<Rightarrow> client_error" where
  "joinRouteErrors primary failures = (if failures = [] then primary else JoinError (primary # failures))"

section \<open>Providers and the configuration\<close>

record ToolCallDelta =
  td_Index :: int
  td_ID :: string
  td_Name :: string
  td_Arguments :: string

record ChatDelta =
  dl_Content :: string
  dl_ToolCall :: "ToolCallDelta option"

definition ResponseDeltas :: "ChatResponse option \<Rightarrow> ChatDelta list" where
  "ResponseDeltas resp = (case resp of
      None \<Rightarrow> []
    | Some resp \<Rightarrow>
        (if resp_Content resp \<noteq> '''' then [\<lparr>dl_Content = resp_Content resp, dl_ToolCall = None\<rparr>] else [])
        @ map (\<lambda>(i, call). \<lparr>dl_Content = '''', dl_ToolCall = Some \<lparr>td_Index = int i, td_ID = call_ID call,
              td_Name = call_Name call, td_Arguments = call_Input call\<rparr>\<rparr>)
            (List.enumerate 0 (resp_ToolCalls resp)))"

type_synonym chat_result = "client_error + ChatResponse option"

datatype 'w script =
    Finish chat_result 'w
  | Yield ChatDelta 'w "client_error option \<times> 'w \<Rightarrow> 'w script"

text \<open>
  Running a stream: the answers of the callback go back to the provider, and \<open>delivered\<close> is set by
  the first call of the callback.
\<close>

primrec run_script ::
  "(ChatDelta \<Rightarrow> 'w \<Rightarrow> client_error option \<times> 'w) \<Rightarrow> 'w script \<Rightarrow> bool \<times> chat_result \<times> 'w" where
  "run_script onDelta (Finish r w) = (False, r, w)"
| "run_script onDelta (Yield d w k) = (True, snd (run_script onDelta (k (onDelta d w))))"

record 'w ProviderClient =
  pv_Chat :: "ChatRequest \<Rightarrow> 'w \<Rightarrow> chat_result \<times> 'w"
  pv_ChatStream :: "(ChatRequest \<Rightarrow> 'w \<Rightarrow> 'w script) option"
  pv_RequestSHA256 :: "(ChatRequest \<Rightarrow> client_error + string) option"
  pv_StreamRequestSHA256 :: "(ChatRequest \<Rightarrow> client_error + string) option"

record 'w HealthStore =
  hst_Acquire :: "ctx \<Rightarrow> Candidate \<Rightarrow> 'w \<Rightarrow> client_error option \<times> 'w"
  hst_Release :: "ctx \<Rightarrow> Candidate \<Rightarrow> 'w \<Rightarrow> 'w"
  hst_RecordOutcome :: "ctx \<Rightarrow> TaskOutcome \<Rightarrow> 'w \<Rightarrow> client_error option \<times> 'w"
  hst_Snapshot :: "'w \<Rightarrow> ProviderHealthSnapshot"

record 'w Recorder =
  rc_RecordRoute :: "ctx \<Rightarrow> RouteTrace \<Rightarrow> 'w \<Rightarrow> client_error option \<times> 'w"
  rc_RecordOutcome :: "ctx \<Rightarrow> TaskOutcome \<Rightarrow> 'w \<Rightarrow> client_error option \<times> 'w"

record RouteMetadata =
  rm_RouteID :: string
  rm_TaskID :: string
  rm_Attempt :: int

record PreDispatchMetadata =
  pm_ProviderCallIndex :: int
  pm_RunRequestSHA256 :: string

record PreDispatchRequest =
  pq_Route :: RouteTrace
  pq_ProviderCallIndex :: int
  pq_Attempt :: int
  pq_ProviderClass :: string
  pq_RunRequestSHA256 :: string
  pq_ProviderRequestSHA256 :: string

record FallbackPolicy =
  fb_MaxAttempts :: int
  fb_FailClosed :: bool
  fb_RetryableErrorClasses :: "ErrorClass list"

text \<open>The clock and the request's context are read from the world.\<close>

record 'w Config =
  cf_Policy :: "'w \<Rightarrow> RoutePolicy \<times> 'w"
  cf_Candidates :: "Candidate list"
  cf_Providers :: "(string, 'w ProviderClient option) gomap"
  cf_ProfileProvider :: "(ChatRequest \<Rightarrow> 'w \<Rightarrow> TaskProfile \<times> 'w) option"
  cf_RouteMetadataProvider :: "(ChatRequest \<Rightarrow> 'w \<Rightarrow> RouteMetadata \<times> 'w) option"
  cf_Recorder :: "'w Recorder option"
  cf_RecordOutcomes :: bool
  cf_ModelStats :: "ModelStats option"
  cf_ModelStatsProvider :: "('w \<Rightarrow> (client_error + ModelStats option) \<times> 'w) option"
  cf_HealthStore :: "'w HealthStore option"
  cf_FallbackPolicy :: FallbackPolicy
  cf_ErrorClassifier :: "(client_error \<Rightarrow> ErrorClass) option"
  cf_PreDispatchMetadata :: "(ChatRequest \<Rightarrow> 'w \<Rightarrow> PreDispatchMetadata \<times> 'w) option"
  cf_PreDispatchHook :: "(PreDispatchRequest \<Rightarrow> 'w \<Rightarrow> client_error option \<times> 'w) option"
  cf_ctx :: "'w \<Rightarrow> ctx"
  cf_now :: "'w \<Rightarrow> time"

record 'w Client =
  cl_policy :: "'w \<Rightarrow> RoutePolicy \<times> 'w"
  cl_candidates :: "Candidate list"
  cl_providers :: "(string, 'w ProviderClient option) gomap"
  cl_profileProvider :: "(ChatRequest \<Rightarrow> 'w \<Rightarrow> TaskProfile \<times> 'w) option"
  cl_routeMetadataProvider :: "(ChatRequest \<Rightarrow> 'w \<Rightarrow> RouteMetadata \<times> 'w) option"
  cl_recorder :: "'w Recorder option"
  cl_recordOutcomes :: bool
  cl_modelStats :: "ModelStats option"
  cl_modelStatsProvider :: "('w \<Rightarrow> (client_error + ModelStats option) \<times> 'w) option"
  cl_healthStore :: "'w HealthStore option"
  cl_preDispatchMetadata :: "(ChatRequest \<Rightarrow> 'w \<Rightarrow> PreDispatchMetadata \<times> 'w) option"
  cl_preDispatchHook :: "(PreDispatchRequest \<Rightarrow> 'w \<Rightarrow> client_error option \<times> 'w) option"
  cl_maxAttempts :: int
  cl_failClosed :: bool
  cl_retryableErrorClass :: "ErrorClass list"
  cl_errorClassifier :: "client_error \<Rightarrow> ErrorClass"
  cl_ctx :: "'w \<Rightarrow> ctx"
  cl_now :: "'w \<Rightarrow> time"

definition NewClient :: "'w Config \<Rightarrow> 'w Client" where
  "NewClient config =
     \<lparr>cl_policy = cf_Policy config, cl_candidates = cf_Candidates config,
      cl_providers = map_write_all [] (cf_Providers config),
      cl_profileProvider = cf_ProfileProvider config,
      cl_routeMetadataProvider = cf_RouteMetadataProvider config, cl_recorder = cf_Recorder config,
      cl_recordOutcomes = cf_RecordOutcomes config, cl_modelStats = cf_ModelStats config,
      cl_modelStatsProvider = cf_ModelStatsProvider config, cl_healthStore = cf_HealthStore config,
      cl_preDispatchMetadata = cf_PreDispatchMetadata config,
      cl_preDispatchHook = cf_PreDispatchHook config,
      cl_maxAttempts = fb_MaxAttempts (cf_FallbackPolicy config),
      cl_failClosed = (fb_FailClosed (cf_FallbackPolicy config) \<or> cf_PreDispatchHook config \<noteq> None),
      cl_retryableErrorClass = fb_RetryableErrorClasses (cf_FallbackPolicy config),
      cl_errorClassifier = (case cf_ErrorClassifier config of Some f \<Rightarrow> f | None \<Rightarrow> DefaultErrorClassifier),
      cl_ctx = cf_ctx config, cl_now = cf_now config\<rparr>"

section \<open>Before the loop\<close>

definition provider_at :: "'w Client \<Rightarrow> string \<Rightarrow> 'w ProviderClient option" where
  "provider_at c alias = Option.bind (map_of (cl_providers c) alias) (\<lambda>p. p)"

definition availableCandidates ::
  "'w Client \<Rightarrow> TaskProfile \<Rightarrow> 'w \<Rightarrow> (client_error + Candidate list) \<times> 'w" where
  "availableCandidates c profile w =
     (if cl_candidates c = [] then (Inr [], w)
      else
        (let available = filter (\<lambda>candidate. provider_at c (mc_Alias (cd_Model candidate)) \<noteq> None) (cl_candidates c);
             loaded = (case cl_modelStatsProvider c of
                 None \<Rightarrow> (Inr (cl_modelStats c), w)
               | Some provider \<Rightarrow> provider w)
         in case loaded of
              (Inl err, w) \<Rightarrow> (Inl err, w)
            | (Inr stats, w) \<Rightarrow>
                (let available = (case stats of None \<Rightarrow> available | Some s \<Rightarrow> ApplyModelStats s profile available);
                     available = (case cl_healthStore c of None \<Rightarrow> available
                       | Some h \<Rightarrow> ApplyProviderHealth (hst_Snapshot h w) available)
                 in (Inr available, w))))"

definition attemptLimit :: "'w Client \<Rightarrow> nat \<Rightarrow> int" where
  "attemptLimit c candidateCount =
     (if cl_maxAttempts c \<le> 0 then 0 else min (cl_maxAttempts c) (int candidateCount))"

definition allowsFallback :: "'w Client \<Rightarrow> client_error \<Rightarrow> bool" where
  "allowsFallback c err =
     (if \<not> cl_failClosed c then True
      else if re_ProviderDispatched err then False
      else re_Class err \<in> set (cl_retryableErrorClass c))"

text \<open>The three fields by which a candidate is removed.\<close>

definition candidate_identity :: "Candidate \<Rightarrow> string \<times> string \<times> string" where
  "candidate_identity c = (mc_Alias (cd_Model c), cd_AccountAlias c, mc_Provider (cd_Model c))"

definition removeSelectedCandidate :: "Candidate list \<Rightarrow> Candidate \<Rightarrow> Candidate list" where
  "removeSelectedCandidate candidates selected =
     filter (\<lambda>candidate. \<not> (mc_Alias (cd_Model candidate) = mc_Alias (cd_Model selected)
       \<and> cd_AccountAlias candidate = cd_AccountAlias selected
       \<and> mc_Provider (cd_Model candidate) = mc_Provider (cd_Model selected))) candidates"

section \<open>Traces and the hook\<close>

definition validateRouteMetadata :: "RouteMetadata \<Rightarrow> client_error option" where
  "validateRouteMetadata metadata =
     (if TrimSpace (rm_RouteID metadata) = '''' then Some (Errorf ''route_id is required'')
      else if TrimSpace (rm_TaskID metadata) = '''' then Some (Errorf ''task_id is required'')
      else if rm_Attempt metadata \<le> 0 then Some (Errorf ''attempt must be greater than zero'')
      else None)"

definition loadRouteMetadata ::
  "'w Client \<Rightarrow> ChatRequest \<Rightarrow> 'w \<Rightarrow> (client_error + RouteMetadata) \<times> 'w" where
  "loadRouteMetadata c req w =
     (let (metadata, w) = (case cl_routeMetadataProvider c of
            None \<Rightarrow> (\<lparr>rm_RouteID = '''', rm_TaskID = '''', rm_Attempt = 0\<rparr>, w)
          | Some provider \<Rightarrow> provider req w)
      in case validateRouteMetadata metadata of
           Some err \<Rightarrow> (Inl err, w)
         | None \<Rightarrow> (Inr metadata, w))"

definition zero_sha256 :: string where
  "zero_sha256 = replicate 32 (CHR 0x00)"

definition loadPreDispatchMetadata ::
  "'w Client \<Rightarrow> ChatRequest \<Rightarrow> 'w \<Rightarrow> (client_error + PreDispatchMetadata) \<times> 'w" where
  "loadPreDispatchMetadata c req w = (case cl_preDispatchMetadata c of
      None \<Rightarrow> (Inl (Errorf ''pre-dispatch metadata provider is required''), w)
    | Some provider \<Rightarrow> (case provider req w of (metadata, w) \<Rightarrow>
        if pm_ProviderCallIndex metadata \<le> 0
        then (Inl (Errorf ''provider_call_index must be greater than zero''), w)
        else if pm_RunRequestSHA256 metadata = zero_sha256
        then (Inl (Errorf ''run request SHA-256 is required''), w)
        else (Inr metadata, w)))"

definition candidateModelAliases :: "CandidateScore list \<Rightarrow> string list" where
  "candidateModelAliases candidates = filter (\<lambda>alias. alias \<noteq> '''') (map cs_Alias candidates)"

definition copyScoreBreakdown :: "(string, int) gomap \<Rightarrow> (string, int) gomap" where
  "copyScoreBreakdown b = map_write_all [] b"

definition copyCandidateScores :: "CandidateScore list \<Rightarrow> CandidateScore list" where
  "copyCandidateScores scores = map (\<lambda>score.
     \<lparr>cs_Alias = cs_Alias score, cs_AccountAlias = cs_AccountAlias score,
      cs_Available = cs_Available score, cs_Score = cs_Score score,
      cs_ScoreBreakdown = copyScoreBreakdown (cs_ScoreBreakdown score), cs_Reason = cs_Reason score\<rparr>) scores"

definition routeTrace ::
  "'w Client \<Rightarrow> TaskProfile \<Rightarrow> RouteDecision \<Rightarrow> RouteMetadata \<Rightarrow> int \<Rightarrow> RouteTrace" where
  "routeTrace c profile decision metadata attemptOffset =
     \<lparr>tr_RouteID = rm_RouteID metadata, tr_TaskID = rm_TaskID metadata,
      tr_Attempt = rm_Attempt metadata + attemptOffset, tr_RecordedAt = 0,
      tr_TaskType = tp_TaskType profile, tr_TaskProfile = Some profile,
      tr_AccountAlias = cd_AccountAlias (rd_Selected decision), tr_ModelAlias = rd_SelectedAlias decision,
      tr_Provider = mc_Provider (cd_Model (rd_Selected decision)), tr_Selected = True,
      tr_Reason = rd_Reason decision, tr_Score = rd_Score decision,
      tr_ScoreBreakdown = copyScoreBreakdown (rd_ScoreBreakdown decision),
      tr_CandidateModelAliases = candidateModelAliases (rd_Candidates decision),
      tr_Candidates = copyCandidateScores (rd_Candidates decision),
      tr_FallbackMaxAttempts = cl_maxAttempts c\<rparr>"

definition zero_trace :: RouteTrace where
  "zero_trace = \<lparr>tr_RouteID = '''', tr_TaskID = '''', tr_Attempt = 0, tr_RecordedAt = 0, tr_TaskType = '''',
     tr_TaskProfile = None, tr_AccountAlias = '''', tr_ModelAlias = '''', tr_Provider = '''',
     tr_Selected = False, tr_Reason = '''', tr_Score = 0, tr_ScoreBreakdown = [],
     tr_CandidateModelAliases = [], tr_Candidates = [], tr_FallbackMaxAttempts = 0\<rparr>"

definition providerRequestSHA256 ::
  "'w ProviderClient \<Rightarrow> ChatRequest \<Rightarrow> bool \<Rightarrow> client_error + string" where
  "providerRequestSHA256 provider req stream =
     (case (if stream then pv_StreamRequestSHA256 provider else pv_RequestSHA256 provider) of
        None \<Rightarrow> Inl (newRuntimeError ErrorStageConfig ErrorClassConfiguration False (Errorf
          (if stream then ''provider stream request digester is required when pre-dispatch hook is configured''
           else ''provider request digester is required when pre-dispatch hook is configured'')))
      | Some digester \<Rightarrow> digester req)"

definition runPreDispatchHook ::
  "'w Client \<Rightarrow> (PreDispatchRequest \<Rightarrow> 'w \<Rightarrow> client_error option \<times> 'w) \<Rightarrow> ChatRequest
    \<Rightarrow> 'w ProviderClient \<Rightarrow> bool \<Rightarrow> RouteTrace \<Rightarrow> int \<Rightarrow> 'w \<Rightarrow> (client_error + int) \<times> 'w" where
  "runPreDispatchHook c hook req provider stream trace lastProviderCallIndex w =
     (case providerRequestSHA256 provider req stream of
        Inl err \<Rightarrow> (case as_RuntimeError err of
            Some runtimeErr \<Rightarrow> (Inl runtimeErr, w)
          | None \<Rightarrow> (Inl (newRuntimeError ErrorStagePreCall (cl_errorClassifier c err) False err), w))
      | Inr providerDigest \<Rightarrow>
          if providerDigest = zero_sha256
          then (Inl (newRuntimeError ErrorStagePreCall ErrorClassConfiguration False
                  (Errorf ''provider request SHA-256 is required'')), w)
          else (case loadPreDispatchMetadata c req w of
              (Inl err, w) \<Rightarrow> (Inl (newRuntimeError ErrorStagePreCall ErrorClassConfiguration False err), w)
            | (Inr metadata, w) \<Rightarrow>
                if pm_ProviderCallIndex metadata \<le> lastProviderCallIndex
                then (Inl (newRuntimeError ErrorStagePreCall ErrorClassConfiguration False
                        (Errorf ''provider_call_index must increase across attempts'')), w)
                else
                  (case hook \<lparr>pq_Route = trace, pq_ProviderCallIndex = pm_ProviderCallIndex metadata,
                        pq_Attempt = tr_Attempt trace, pq_ProviderClass = tr_Provider trace,
                        pq_RunRequestSHA256 = pm_RunRequestSHA256 metadata,
                        pq_ProviderRequestSHA256 = providerDigest\<rparr> w of
                     (Some err, w) \<Rightarrow>
                       (Inl (newRuntimeError ErrorStagePreCall (cl_errorClassifier c err) False err), w)
                   | (None, w) \<Rightarrow> (Inr (pm_ProviderCallIndex metadata), w))))"

section \<open>One attempt\<close>

text \<open>What \<open>route\<close> passes to its attempts by reference: the loaded metadata and the last call index.\<close>

record attempt_memory =
  am_routeMetadata :: "RouteMetadata option"
  am_lastProviderCallIndex :: int

text \<open>The trace of the attempt, recorded when there is a recorder.\<close>

definition trace_attempt ::
  "'w Client \<Rightarrow> ChatRequest \<Rightarrow> TaskProfile \<Rightarrow> RouteDecision \<Rightarrow> int \<Rightarrow> attempt_memory \<Rightarrow> 'w
    \<Rightarrow> (client_error + RouteTrace) \<times> attempt_memory \<times> 'w" where
  "trace_attempt c req profile decision attemptOffset am w =
     (if cl_recorder c = None \<and> cl_preDispatchHook c = None then (Inr zero_trace, am, w)
      else
        case (case am_routeMetadata am of Some metadata \<Rightarrow> (Inr metadata, w) | None \<Rightarrow> loadRouteMetadata c req w) of
          (Inl err, w) \<Rightarrow> (Inl (newRuntimeError ErrorStagePreCall ErrorClassConfiguration False err), am, w)
        | (Inr metadata, w) \<Rightarrow>
            (let am = am\<lparr>am_routeMetadata := Some metadata\<rparr>;
                 trace = routeTrace c profile decision metadata attemptOffset
             in case cl_recorder c of
                  None \<Rightarrow> (Inr trace, am, w)
                | Some r \<Rightarrow> (case rc_RecordRoute r (cl_ctx c w) trace w of
                    (Some err, w) \<Rightarrow>
                      (Inl (newRuntimeError ErrorStagePreCall (cl_errorClassifier c err) False err), am, w)
                  | (None, w) \<Rightarrow> (Inr trace, am, w))))"

definition claim_attempt ::
  "'w Client \<Rightarrow> ChatRequest \<Rightarrow> 'w ProviderClient \<Rightarrow> bool \<Rightarrow> RouteTrace \<Rightarrow> attempt_memory \<Rightarrow> 'w
    \<Rightarrow> client_error option \<times> attempt_memory \<times> 'w" where
  "claim_attempt c req provider streams trace am w = (case cl_preDispatchHook c of
      None \<Rightarrow> (None, am, w)
    | Some hook \<Rightarrow>
        (case runPreDispatchHook c hook req provider streams trace (am_lastProviderCallIndex am) w of
           (Inl err, w) \<Rightarrow> (Some err, am, w)
         | (Inr index, w) \<Rightarrow> (None, am\<lparr>am_lastProviderCallIndex := index\<rparr>, w)))"

definition latency_millis :: "duration \<Rightarrow> int" where
  "latency_millis latency = (if latency > 0 then go_div (latency + 1000000 - 1) 1000000 else 0)"

definition call_outcome ::
  "'w Client \<Rightarrow> TaskProfile \<Rightarrow> RouteDecision \<Rightarrow> RouteTrace \<Rightarrow> duration \<Rightarrow> ChatResponse option
    \<Rightarrow> client_error option \<Rightarrow> TaskOutcome" where
  "call_outcome c profile decision trace latency resp providerErr =
     \<lparr>oc_RouteID = tr_RouteID trace, oc_TaskID = tr_TaskID trace, oc_Attempt = tr_Attempt trace,
      oc_RecordedAt = 0, oc_TaskType = tp_TaskType profile,
      oc_AccountAlias = cd_AccountAlias (rd_Selected decision), oc_ModelAlias = rd_SelectedAlias decision,
      oc_Provider = mc_Provider (cd_Model (rd_Selected decision)), oc_Success = (providerErr = None),
      oc_BusinessOutcome = '''', oc_SuccessSignal = '''', oc_FailureReason = '''',
      oc_ErrorCode = (if providerErr = None then '''' else ''provider_error''),
      oc_ErrorClass = (case providerErr of None \<Rightarrow> ErrorClassOther '''' | Some err \<Rightarrow> cl_errorClassifier c err),
      oc_LatencyMillis = latency_millis latency,
      oc_InputTokens = (case resp of None \<Rightarrow> 0 | Some r \<Rightarrow> us_InputTokens (resp_Usage r)),
      oc_OutputTokens = (case resp of None \<Rightarrow> 0 | Some r \<Rightarrow> us_OutputTokens (resp_Usage r)),
      oc_EstimatedCents = 0\<rparr>"

text \<open>
  \<open>recordOutcomeAfterCall\<close> passes a context that is not cancelled with the request, so its error is
  \<open>None\<close>.
\<close>

definition recordOutcome ::
  "'w Client \<Rightarrow> ctx \<Rightarrow> TaskOutcome \<Rightarrow> 'w \<Rightarrow> client_error option \<times> 'w" where
  "recordOutcome c ctx outcome w =
     (case (case cl_healthStore c of None \<Rightarrow> (None, w) | Some h \<Rightarrow> hst_RecordOutcome h ctx outcome w) of
        (Some err, w) \<Rightarrow> (Some err, w)
      | (None, w) \<Rightarrow> (case cl_recorder c of
          None \<Rightarrow> (None, w)
        | Some r \<Rightarrow> if \<not> cl_recordOutcomes c then (None, w) else rc_RecordOutcome r ctx outcome w))"

primrec deliver ::
  "(ChatDelta \<Rightarrow> 'w \<Rightarrow> client_error option \<times> 'w) \<Rightarrow> ChatDelta list \<Rightarrow> 'w \<Rightarrow> client_error option \<times> 'w" where
  "deliver onDelta [] w = (None, w)"
| "deliver onDelta (d # ds) w = (case onDelta d w of
     (Some err, w) \<Rightarrow> (Some err, w) | (None, w) \<Rightarrow> deliver onDelta ds w)"

type_synonym 'w callback = "ChatDelta \<Rightarrow> 'w \<Rightarrow> client_error option \<times> 'w"

definition the_stream :: "'w callback option \<Rightarrow> 'w ProviderClient \<Rightarrow> (ChatRequest \<Rightarrow> 'w \<Rightarrow> 'w script) option" where
  "the_stream onDelta provider = (if onDelta = None then None else pv_ChatStream provider)"

definition call_provider ::
  "'w callback option \<Rightarrow> ChatRequest \<Rightarrow> 'w ProviderClient \<Rightarrow> 'w \<Rightarrow> bool \<times> chat_result \<times> 'w" where
  "call_provider onDelta req provider w = (case (the_stream onDelta provider, onDelta) of
      (Some stream, Some f) \<Rightarrow> run_script f (stream req w)
    | _ \<Rightarrow> (False, pv_Chat provider req w))"

text \<open>From the call on: the outcome closes the slot, then the answer is delivered or the error classified.\<close>

definition called_attempt ::
  "'w Client \<Rightarrow> ChatRequest \<Rightarrow> 'w callback option \<Rightarrow> TaskProfile \<Rightarrow> RouteDecision \<Rightarrow> 'w ProviderClient
    \<Rightarrow> RouteTrace \<Rightarrow> 'w \<Rightarrow> chat_result \<times> bool \<times> 'w" where
  "called_attempt c req onDelta profile decision provider trace w0 =
     (case call_provider onDelta req provider w0 of (delivered, result, w) \<Rightarrow>
       (let latency = cl_now c w - cl_now c w0;
            result = (case cl_ctx c w of Some e \<Rightarrow> Inl (ContextError e) | None \<Rightarrow> result)
        in case result of
             Inr resp \<Rightarrow>
               (case recordOutcome c None (call_outcome c profile decision trace latency resp None) w of
                  (Some err, w) \<Rightarrow>
                    (Inl (newRuntimeError ErrorStagePostCall ErrorClassPostCall True err), delivered, w)
                | (None, w) \<Rightarrow>
                    (case (onDelta, the_stream onDelta provider) of
                       (Some f, None) \<Rightarrow> (case deliver f (ResponseDeltas resp) w of
                           (Some err, w) \<Rightarrow> (Inl err, True, w)
                         | (None, w) \<Rightarrow> (Inr resp, delivered, w))
                     | _ \<Rightarrow> (Inr resp, delivered, w)))
           | Inl providerErr \<Rightarrow>
               (case recordOutcome c None (call_outcome c profile decision trace latency None (Some providerErr)) w of
                  (Some err, w) \<Rightarrow>
                    (Inl (newRuntimeError ErrorStagePostCall ErrorClassPostCall True err), delivered, w)
                | (None, w) \<Rightarrow>
                    (Inl (newRuntimeError ErrorStageProvider (cl_errorClassifier c providerErr)
                       (providerWasDispatched providerErr) providerErr), delivered, w))))"

text \<open>The deferred function: an attempt that stops before the call releases its slot.\<close>

definition release_slot :: "'w Client \<Rightarrow> RouteDecision \<Rightarrow> 'w \<Rightarrow> 'w" where
  "release_slot c decision w = (case cl_healthStore c of
     None \<Rightarrow> w | Some h \<Rightarrow> hst_Release h None (rd_Selected decision) w)"

definition attempt ::
  "'w Client \<Rightarrow> ChatRequest \<Rightarrow> 'w callback option \<Rightarrow> TaskProfile \<Rightarrow> RouteDecision \<Rightarrow> 'w ProviderClient
    \<Rightarrow> int \<Rightarrow> attempt_memory \<Rightarrow> 'w \<Rightarrow> chat_result \<times> bool \<times> attempt_memory \<times> 'w" where
  "attempt c req onDelta profile decision provider attemptOffset am w =
     (case trace_attempt c req profile decision attemptOffset am w of
        (Inl err, am, w) \<Rightarrow> (Inl err, False, am, release_slot c decision w)
      | (Inr trace, am, w) \<Rightarrow>
          (case claim_attempt c req provider (the_stream onDelta provider \<noteq> None) trace am w of
             (Some err, am, w) \<Rightarrow> (Inl err, False, am, release_slot c decision w)
           | (None, am, w) \<Rightarrow>
               (case called_attempt c req onDelta profile decision provider trace w of
                  (result, delivered, w) \<Rightarrow> (result, delivered, am, w))))"

section \<open>The fallback loop\<close>

record 'w route_state =
  rt_candidates :: "Candidate list"
  rt_failures :: "client_error list"
  rt_memory :: attempt_memory
  rt_attemptOffset :: int
  rt_world :: 'w

datatype 'w route_next = Panics | Returns chat_result 'w | Continues "'w route_state"

definition fall_back :: "RouteDecision \<Rightarrow> client_error \<Rightarrow> 'w route_state \<Rightarrow> 'w route_state" where
  "fall_back decision err s = s\<lparr>rt_failures := rt_failures s @ [err],
     rt_candidates := removeSelectedCandidate (rt_candidates s) (rd_Selected decision)\<rparr>"

text \<open>After the loop.\<close>

definition route_failed :: "client_error list \<Rightarrow> client_error" where
  "route_failed failures =
     (if failures \<noteq> [] then joinRouteErrors (last failures) (butlast failures)
      else newRuntimeError ErrorStageRoute ErrorClassPolicyBlocked False (Errorf ''all provider candidates failed''))"

text \<open>The judgement of the loop over a finished attempt.\<close>

definition after_attempt ::
  "'w Client \<Rightarrow> RouteDecision \<Rightarrow> 'w route_state \<Rightarrow> chat_result \<times> bool \<times> attempt_memory \<times> 'w
    \<Rightarrow> 'w route_next" where
  "after_attempt c decision s r = (case r of (result, delivered, am, w) \<Rightarrow>
     (case result of
        Inr resp \<Rightarrow> Returns (Inr resp) w
      | Inl err \<Rightarrow> (case as_RuntimeError err of
          None \<Rightarrow> Returns (Inl err) w
        | Some runtimeErr \<Rightarrow>
            if re_Stage runtimeErr \<noteq> ErrorStageProvider then Returns (Inl err) w
            else if cl_ctx c w \<noteq> None \<or> delivered \<or> \<not> allowsFallback c runtimeErr
            then Returns (Inl (joinRouteErrors runtimeErr (rt_failures s))) w
            else Continues ((fall_back decision runtimeErr s)\<lparr>rt_memory := am,
                   rt_attemptOffset := rt_attemptOffset s + 1, rt_world := w\<rparr>))))"

definition acquire_slot :: "'w Client \<Rightarrow> Candidate \<Rightarrow> 'w \<Rightarrow> client_error option \<times> 'w" where
  "acquire_slot c candidate w = (case cl_healthStore c of
     None \<Rightarrow> (None, w) | Some h \<Rightarrow> hst_Acquire h (cl_ctx c w) candidate w)"

definition route_step ::
  "'w Client \<Rightarrow> ChatRequest \<Rightarrow> 'w callback option \<Rightarrow> TaskProfile \<Rightarrow> int \<Rightarrow> 'w route_state \<Rightarrow> 'w route_next" where
  "route_step c req onDelta profile maxAttempts s =
     (if rt_candidates s = [] \<or> (maxAttempts > 0 \<and> rt_attemptOffset s \<ge> maxAttempts)
      then Returns (Inl (route_failed (rt_failures s))) (rt_world s)
      else
        (case cl_policy c (rt_world s) of (policy, w) \<Rightarrow>
         (case Select policy profile (rt_candidates s) of
            None \<Rightarrow> Panics
          | Some (Inl e) \<Rightarrow>
              Returns (Inl (joinRouteErrors
                (newRuntimeError ErrorStageRoute ErrorClassPolicyBlocked False (Errorf e)) (rt_failures s))) w
          | Some (Inr decision) \<Rightarrow>
              (case provider_at c (rd_SelectedAlias decision) of
                 None \<Rightarrow> Returns (Inl (newRuntimeError ErrorStageConfig ErrorClassConfiguration False
                   (Errorf (''missing provider client for selected model alias '' @ go_quote (rd_SelectedAlias decision))))) w
               | Some provider \<Rightarrow>
                   (case acquire_slot c (rd_Selected decision) w of
                      (Some err, w) \<Rightarrow>
                        if \<not> list_ex is_BusyError (error_chain err)
                        then Returns (Inl (newRuntimeError ErrorStagePreCall (cl_errorClassifier c err) False err)) w
                        else Continues ((fall_back decision
                               (newRuntimeError ErrorStagePreCall ErrorClassProviderBusy False err) s)\<lparr>rt_world := w\<rparr>)
                    | (None, w) \<Rightarrow>
                        after_attempt c decision s (attempt c req onDelta profile decision provider
                          (rt_attemptOffset s) (rt_memory s) w))))))"

lemma removeSelected_shorter:
  "selected \<in> set candidates \<Longrightarrow> length (removeSelectedCandidate candidates selected) < length candidates"
  unfolding removeSelectedCandidate_def by (rule length_filter_less) auto

lemma route_step_decision:
  assumes "Select policy profile candidates = Some (Inr decision)"
  shows "rd_Selected decision \<in> set candidates"
    and "rd_SelectedAlias decision = mc_Alias (cd_Model (rd_Selected decision))"
proof -
  from assms obtain sc where "sc \<in> set (available_candidates policy profile candidates)"
    "rd_Selected decision = sc_candidate sc" by (rule Select_decision)
  then show "rd_Selected decision \<in> set candidates" by (auto dest: available_entry)
  show "rd_SelectedAlias decision = mc_Alias (cd_Model (rd_Selected decision))"
    using assms by (auto simp: Select_def route_decision_def Let_def split: if_splits option.splits)
qed

lemma route_step_shorter:
  assumes "route_step c req onDelta profile maxAttempts s = Continues s'"
  shows "length (rt_candidates s') < length (rt_candidates s)"
  using assms
  by (auto simp: route_step_def after_attempt_def fall_back_def
      intro!: removeSelected_shorter dest: route_step_decision
      split: if_splits prod.splits option.splits sum.splits)

function route_loop ::
  "'w Client \<Rightarrow> ChatRequest \<Rightarrow> 'w callback option \<Rightarrow> TaskProfile \<Rightarrow> int \<Rightarrow> 'w route_state
    \<Rightarrow> (chat_result \<times> 'w) option" where
  "route_loop c req onDelta profile maxAttempts s =
     (case route_step c req onDelta profile maxAttempts s of
        Panics \<Rightarrow> None
      | Returns result w \<Rightarrow> Some (result, w)
      | Continues s' \<Rightarrow> route_loop c req onDelta profile maxAttempts s')"
  by pat_completeness auto
termination
  by (relation "measure (\<lambda>(c, req, onDelta, profile, maxAttempts, s). length (rt_candidates s))")
    (auto dest: route_step_shorter)

declare route_loop.simps [simp del]

definition route ::
  "'w Client \<Rightarrow> ChatRequest \<Rightarrow> 'w callback option \<Rightarrow> 'w \<Rightarrow> (chat_result \<times> 'w) option" where
  "route c req onDelta w =
     (case (case cl_profileProvider c of None \<Rightarrow> (DefaultTaskProfile, w) | Some provider \<Rightarrow> provider req w) of
        (profile, w) \<Rightarrow>
       (case availableCandidates c profile w of
          (Inl err, w) \<Rightarrow> Some (Inl (newRuntimeError ErrorStageRoute (cl_errorClassifier c err) False err), w)
        | (Inr candidates, w) \<Rightarrow>
            route_loop c req onDelta profile (attemptLimit c (length candidates))
              \<lparr>rt_candidates = candidates, rt_failures = [],
               rt_memory = \<lparr>am_routeMetadata = None, am_lastProviderCallIndex = 0\<rparr>,
               rt_attemptOffset = 0, rt_world = w\<rparr>))"

definition Chat :: "'w Client \<Rightarrow> ChatRequest \<Rightarrow> 'w \<Rightarrow> (chat_result \<times> 'w) option" where
  "Chat c req w = route c req None w"

definition ChatStream :: "'w Client \<Rightarrow> ChatRequest \<Rightarrow> 'w callback \<Rightarrow> 'w \<Rightarrow> (chat_result \<times> 'w) option" where
  "ChatStream c req onDelta w = route c req (Some onDelta) w"

end
