(* ===== verification/LLM_Client_Laws.thy ===== *)
theory LLM_Client_Laws
  imports LLM_Client
begin

text \<open>
  What the routing client promises, stated over the log of what it does: the slots it acquires and
  closes, the providers it calls and what they return, the deltas it hands on. A logged client is the
  client in an environment that writes this log; every environment can be logged.
\<close>

section \<open>Logged environments\<close>

datatype route_event =
    EvAcquire Candidate
  | EvRelease Candidate
  | EvOutcome TaskOutcome
  | EvCall string
  | EvReturned bool
  | EvDelta ChatDelta

type_synonym 'w logged = "'w \<times> route_event list"

text \<open>An operation that writes nothing, and whether a result may have reached the provider.\<close>

definition quietly :: "('w \<Rightarrow> 'a \<times> 'w) \<Rightarrow> 'w logged \<Rightarrow> 'a \<times> 'w logged" where
  "quietly f wl = (case f (fst wl) of (x, w) \<Rightarrow> (x, (w, snd wl)))"

definition result_dispatched :: "chat_result \<Rightarrow> bool" where
  "result_dispatched r = (case r of Inl e \<Rightarrow> providerWasDispatched e | Inr _ \<Rightarrow> True)"

primrec log_script :: "'w script \<Rightarrow> route_event list \<Rightarrow> 'w logged script" where
  "log_script (Finish r w) l = Finish r (w, l @ [EvReturned (result_dispatched r)])"
| "log_script (Yield d w k) l = Yield d (w, l) (\<lambda>p. log_script (k (fst p, fst (snd p))) (snd (snd p)))"

definition log_provider :: "string \<Rightarrow> 'w ProviderClient \<Rightarrow> 'w logged ProviderClient" where
  "log_provider alias p = \<lparr>
     pv_Chat = (\<lambda>req wl. case pv_Chat p req (fst wl) of (r, w) \<Rightarrow>
       (r, (w, snd wl @ [EvCall alias, EvReturned (result_dispatched r)]))),
     pv_ChatStream = map_option (\<lambda>f req wl. log_script (f req (fst wl)) (snd wl @ [EvCall alias])) (pv_ChatStream p),
     pv_RequestSHA256 = pv_RequestSHA256 p, pv_StreamRequestSHA256 = pv_StreamRequestSHA256 p\<rparr>"

definition log_callback :: "'w callback \<Rightarrow> 'w logged callback" where
  "log_callback f d wl = (case f d (fst wl) of (e, w) \<Rightarrow> (e, (w, snd wl @ [EvDelta d])))"

definition log_health :: "'w HealthStore \<Rightarrow> 'w logged HealthStore" where
  "log_health h = \<lparr>
     hst_Acquire = (\<lambda>ctx c wl. case hst_Acquire h ctx c (fst wl) of
         (None, w) \<Rightarrow> (None, (w, snd wl @ [EvAcquire c])) | (Some e, w) \<Rightarrow> (Some e, (w, snd wl))),
     hst_Release = (\<lambda>ctx c wl. (hst_Release h ctx c (fst wl), snd wl @ [EvRelease c])),
     hst_RecordOutcome = (\<lambda>ctx oc wl. case hst_RecordOutcome h ctx oc (fst wl) of
         (e, w) \<Rightarrow> (e, (w, snd wl @ [EvOutcome oc]))),
     hst_Snapshot = (\<lambda>wl. hst_Snapshot h (fst wl))\<rparr>"

definition log_recorder :: "'w Recorder \<Rightarrow> 'w logged Recorder" where
  "log_recorder r = \<lparr>rc_RecordRoute = (\<lambda>ctx t. quietly (rc_RecordRoute r ctx t)),
     rc_RecordOutcome = (\<lambda>ctx oc. quietly (rc_RecordOutcome r ctx oc))\<rparr>"

definition log_client :: "'w Client \<Rightarrow> 'w logged Client" where
  "log_client c = \<lparr>cl_policy = quietly (cl_policy c), cl_candidates = cl_candidates c,
     cl_providers = map (\<lambda>(alias, p). (alias, map_option (log_provider alias) p)) (cl_providers c),
     cl_profileProvider = map_option (\<lambda>f req. quietly (f req)) (cl_profileProvider c),
     cl_routeMetadataProvider = map_option (\<lambda>f req. quietly (f req)) (cl_routeMetadataProvider c),
     cl_recorder = map_option log_recorder (cl_recorder c), cl_recordOutcomes = cl_recordOutcomes c,
     cl_modelStats = cl_modelStats c, cl_modelStatsProvider = map_option quietly (cl_modelStatsProvider c),
     cl_healthStore = map_option log_health (cl_healthStore c),
     cl_preDispatchMetadata = map_option (\<lambda>f req. quietly (f req)) (cl_preDispatchMetadata c),
     cl_preDispatchHook = map_option (\<lambda>f req. quietly (f req)) (cl_preDispatchHook c),
     cl_maxAttempts = cl_maxAttempts c, cl_failClosed = cl_failClosed c,
     cl_retryableErrorClass = cl_retryableErrorClass c, cl_errorClassifier = cl_errorClassifier c,
     cl_ctx = (\<lambda>wl. cl_ctx c (fst wl)), cl_now = (\<lambda>wl. cl_now c (fst wl))\<rparr>"

text \<open>The log of a request.\<close>

definition route_log :: "'w Client \<Rightarrow> ChatRequest \<Rightarrow> 'w callback option \<Rightarrow> 'w \<Rightarrow> route_event list option" where
  "route_log c req onDelta w =
     map_option (\<lambda>(_, wl). snd wl) (route (log_client c) req (map_option log_callback onDelta) (w, []))"

section \<open>What each part writes\<close>

lemma log_client_fields [simp]:
  "cl_candidates (log_client c) = cl_candidates c" "cl_maxAttempts (log_client c) = cl_maxAttempts c"
  "cl_failClosed (log_client c) = cl_failClosed c"
  "cl_retryableErrorClass (log_client c) = cl_retryableErrorClass c"
  "cl_errorClassifier (log_client c) = cl_errorClassifier c"
  "cl_recordOutcomes (log_client c) = cl_recordOutcomes c" "cl_modelStats (log_client c) = cl_modelStats c"
  "cl_policy (log_client c) = quietly (cl_policy c)"
  "cl_healthStore (log_client c) = map_option log_health (cl_healthStore c)"
  "cl_recorder (log_client c) = map_option log_recorder (cl_recorder c)"
  "cl_preDispatchHook (log_client c) = map_option (\<lambda>f req. quietly (f req)) (cl_preDispatchHook c)"
  "cl_preDispatchMetadata (log_client c) = map_option (\<lambda>f req. quietly (f req)) (cl_preDispatchMetadata c)"
  "cl_routeMetadataProvider (log_client c) = map_option (\<lambda>f req. quietly (f req)) (cl_routeMetadataProvider c)"
  "cl_profileProvider (log_client c) = map_option (\<lambda>f req. quietly (f req)) (cl_profileProvider c)"
  "cl_modelStatsProvider (log_client c) = map_option quietly (cl_modelStatsProvider c)"
  "allowsFallback (log_client c) = allowsFallback c"
  "attemptLimit (log_client c) = attemptLimit c"
  "cl_ctx (log_client c) wl = cl_ctx c (fst wl)"
  by (auto simp: log_client_def allowsFallback_def attemptLimit_def fun_eq_iff)

lemma quietly_log: "quietly f wl = (x, wl') \<Longrightarrow> snd wl' = snd wl"
  by (auto simp: quietly_def split: prod.splits)

lemma provider_at_log: "provider_at (log_client c) a = map_option (log_provider a) (provider_at c a)"
proof -
  have "map_of (map (\<lambda>(alias, p). (alias, map_option (log_provider alias) p)) m) a
      = map_option (map_option (log_provider a)) (map_of m a)" for m :: "(string, 'a ProviderClient option) gomap"
    by (induction m) auto
  then show ?thesis by (simp add: provider_at_def log_client_def) (cases "map_of (cl_providers c) a"; simp)
qed

lemma trace_attempt_log:
  "trace_attempt (log_client c) req profile decision n am wl = (r, am', wl') \<Longrightarrow> snd wl' = snd wl"
  by (auto simp: trace_attempt_def loadRouteMetadata_def log_recorder_def Let_def
      dest!: quietly_log split: if_splits option.splits prod.splits sum.splits)

lemma claim_attempt_log:
  "claim_attempt (log_client c) req p st trace am wl = (r, am', wl') \<Longrightarrow> snd wl' = snd wl"
  by (auto simp: claim_attempt_def runPreDispatchHook_def loadPreDispatchMetadata_def
      dest!: quietly_log split: if_splits option.splits prod.splits sum.splits)

lemma deliver_log:
  "deliver (log_callback f) ds wl = (r, wl') \<Longrightarrow> \<exists>ds'. snd wl' = snd wl @ map EvDelta ds'"
proof (induction ds arbitrary: wl)
  case (Cons d ds)
  obtain e w where f: "f d (fst wl) = (e, w)" by fastforce
  show ?case
  proof (cases e)
    case None
    with f Cons.prems Cons.IH [of "(w, snd wl @ [EvDelta d])"] obtain ds' where
      "snd wl' = (snd wl @ [EvDelta d]) @ map EvDelta ds'" by (auto simp: log_callback_def)
    then have "snd wl' = snd wl @ map EvDelta (d # ds')" by simp
    then show ?thesis by blast
  next
    case (Some err)
    with f Cons.prems have "snd wl' = snd wl @ map EvDelta [d]" by (auto simp: log_callback_def)
    then show ?thesis by blast
  qed
next
  case Nil
  then have "snd wl' = snd wl @ map EvDelta []" by simp
  then show ?case by blast
qed

lemma run_script_log:
  "run_script (log_callback f) (log_script s l) = (delivered, r, wl') \<Longrightarrow>
     \<exists>ds. snd wl' = l @ map EvDelta ds @ [EvReturned (result_dispatched r)] \<and> (delivered \<longleftrightarrow> ds \<noteq> [])"
proof (induction s arbitrary: l delivered r wl')
  case (Finish r' w)
  then have "snd wl' = l @ map EvDelta [] @ [EvReturned (result_dispatched r)] \<and> (delivered \<longleftrightarrow> [] \<noteq> [])" by auto
  then show ?case by blast
next
  case (Yield d w k)
  obtain e w' where f: "f d w = (e, w')" by fastforce
  let ?run = "run_script (log_callback f) (log_script (k (e, w')) (l @ [EvDelta d]))"
  have cb: "log_callback f d (w, l) = (e, (w', l @ [EvDelta d]))" using f by (simp add: log_callback_def)
  have eq: "?run = (fst ?run, r, wl')" and del: "delivered"
    using Yield.prems by (simp_all add: cb prod_eq_iff)
  from Yield.IH [OF rangeI eq] obtain ds where
    "snd wl' = (l @ [EvDelta d]) @ map EvDelta ds @ [EvReturned (result_dispatched r)]" by auto
  then have "snd wl' = l @ map EvDelta (d # ds) @ [EvReturned (result_dispatched r)] \<and> (delivered \<longleftrightarrow> d # ds \<noteq> [])"
    using del by simp
  then show ?case by blast
qed

lemma call_provider_log:
  assumes "call_provider (map_option log_callback onDelta) req (log_provider a p) wl = (delivered, r, wl')"
  shows "\<exists>ds. snd wl' = snd wl @ EvCall a # map EvDelta ds @ [EvReturned (result_dispatched r)]
    \<and> (delivered \<longleftrightarrow> ds \<noteq> [])"
proof (cases "the_stream onDelta p")
  case None
  then have "the_stream (map_option log_callback onDelta) (log_provider a p) = None"
    by (auto simp: the_stream_def log_provider_def split: if_splits)
  with assms have "snd wl' = snd wl @ EvCall a # map EvDelta [] @ [EvReturned (result_dispatched r)]
      \<and> (delivered \<longleftrightarrow> [] \<noteq> [])"
    by (auto simp: call_provider_def log_provider_def split: prod.splits)
  then show ?thesis by blast
next
  case (Some st)
  then obtain f where f: "onDelta = Some f" by (auto simp: the_stream_def split: if_splits)
  with Some have "the_stream (map_option log_callback onDelta) (log_provider a p)
      = Some (\<lambda>req wl. log_script (st req (fst wl)) (snd wl @ [EvCall a]))"
    by (simp add: the_stream_def log_provider_def)
  with assms f run_script_log [of f "st req (fst wl)" "snd wl @ [EvCall a]" delivered r wl'] show ?thesis
    by (simp add: call_provider_def)
qed

definition closing :: "'w Client \<Rightarrow> route_event \<Rightarrow> route_event list" where
  "closing c e = (if cl_healthStore c = None then [] else [e])"

lemma recordOutcome_log:
  "recordOutcome (log_client c) ctx oc wl = (r, wl') \<Longrightarrow> snd wl' = snd wl @ closing c (EvOutcome oc)"
  by (auto simp: recordOutcome_def closing_def log_health_def log_recorder_def
      dest!: quietly_log split: if_splits option.splits prod.splits)

lemma release_slot_log:
  "snd (release_slot (log_client c) decision wl) = snd wl @ closing c (EvRelease (rd_Selected decision))"
  by (simp add: release_slot_def closing_def log_health_def split: option.split)

lemma acquire_slot_log:
  "acquire_slot (log_client c) s wl = (r, wl') \<Longrightarrow>
     snd wl' = snd wl @ (if r = None then closing c (EvAcquire s) else [])"
  by (auto simp: acquire_slot_def closing_def log_health_def split: option.splits prod.splits)

section \<open>Blocks\<close>

text \<open>
  The block of one selected candidate: its slot is taken and released again before any call, or taken,
  one call made and answered, and closed by the call's outcome, with the deltas of a stream before
  the answer and those of a complete response after the outcome.
\<close>

datatype block =
    Turned Candidate
  | Called Candidate "ChatDelta list" bool TaskOutcome "ChatDelta list"

fun block_candidate :: "block \<Rightarrow> Candidate" where
  "block_candidate (Turned s) = s"
| "block_candidate (Called s ds sent oc ds') = s"

fun block_events :: "'w Client \<Rightarrow> block \<Rightarrow> route_event list" where
  "block_events c (Turned s) = closing c (EvAcquire s) @ closing c (EvRelease s)"
| "block_events c (Called s ds sent oc ds') = closing c (EvAcquire s) @ EvCall (mc_Alias (cd_Model s))
     # map EvDelta ds @ EvReturned sent # closing c (EvOutcome oc) @ map EvDelta ds'"

fun block_ok :: "block \<Rightarrow> bool" where
  "block_ok (Turned s) = True"
| "block_ok (Called s ds sent oc ds') = (outcome_key oc = candidate_key s)"

text \<open>A block after which another candidate may be tried.\<close>

fun passes_on :: "'w Client \<Rightarrow> block \<Rightarrow> bool" where
  "passes_on c (Turned s) = True"
| "passes_on c (Called s ds sent oc ds') = (ds = [] \<and> ds' = [] \<and> (cl_failClosed c \<longrightarrow> \<not> sent))"

definition may_resume :: "'w Client \<Rightarrow> chat_result \<Rightarrow> bool \<Rightarrow> bool" where
  "may_resume c result delivered \<longleftrightarrow> \<not> delivered \<and> (\<exists>err r. result = Inl err \<and> as_RuntimeError err = Some r
     \<and> re_Stage r = ErrorStageProvider \<and> allowsFallback c r)"

lemma as_RuntimeError_new [simp]:
  "as_RuntimeError (newRuntimeError st cls d cause) = Some (newRuntimeError st cls d cause)"
  by (simp add: as_RuntimeError_def newRuntimeError_def)

lemma newRuntimeError_fields [simp]:
  "re_Stage (newRuntimeError st cls d cause) = st" "re_ProviderDispatched (newRuntimeError st cls d cause) = d"
  by (simp_all add: newRuntimeError_def)

lemma dispatched_context [simp]: "providerWasDispatched (ContextError e)"
  by (simp add: providerWasDispatched_def as_interface_def)

lemma call_outcome_key:
  "rd_SelectedAlias decision = mc_Alias (cd_Model (rd_Selected decision)) \<Longrightarrow>
     outcome_key (call_outcome c profile decision trace lat resp err) = candidate_key (rd_Selected decision)"
  by (simp add: outcome_key_def candidate_key_def call_outcome_def)

text \<open>A called block and the events it adds after the slot was taken.\<close>

definition adds_block :: "'w Client \<Rightarrow> RouteDecision \<Rightarrow> route_event list \<Rightarrow> route_event list \<Rightarrow> chat_result \<Rightarrow> bool \<Rightarrow> bool" where
  "adds_block c decision l l' result delivered \<longleftrightarrow> (\<exists>b tail. l' = l @ tail
     \<and> closing c (EvAcquire (rd_Selected decision)) @ tail = block_events c b
     \<and> block_candidate b = rd_Selected decision \<and> block_ok b
     \<and> (may_resume c result delivered \<longrightarrow> passes_on c b))"

lemma adds_called:
  assumes "l' = l @ EvCall a # map EvDelta ds @ EvReturned sent # closing c (EvOutcome oc) @ map EvDelta ds'"
    and "a = mc_Alias (cd_Model (rd_Selected decision))" and "outcome_key oc = candidate_key (rd_Selected decision)"
    and "may_resume c result delivered \<Longrightarrow> ds = [] \<and> ds' = [] \<and> (cl_failClosed c \<longrightarrow> \<not> sent)"
  shows "adds_block c decision l l' result delivered"
  using assms unfolding adds_block_def
  by (intro exI [of _ "Called (rd_Selected decision) ds sent oc ds'"] exI) auto

lemma called_attempt_log:
  assumes "called_attempt (log_client c) req (map_option log_callback onDelta) profile decision (log_provider a p)
      trace wl = (result, delivered, wl')"
    and "a = rd_SelectedAlias decision" and "a = mc_Alias (cd_Model (rd_Selected decision))"
  shows "adds_block c decision (snd wl) (snd wl') result delivered"
proof -
  obtain del res w1 where cp: "call_provider (map_option log_callback onDelta) req (log_provider a p) wl = (del, res, w1)"
    by (metis prod_cases3)
  from call_provider_log [OF cp] obtain ds where
    l1: "snd w1 = snd wl @ EvCall a # map EvDelta ds @ [EvReturned (result_dispatched res)]" and del: "del \<longleftrightarrow> ds \<noteq> []"
    by blast
  define final where "final = (case cl_ctx c (fst w1) of Some e \<Rightarrow> Inl (ContextError e) | None \<Rightarrow> res)"
  define oc where "oc = call_outcome (log_client c) profile decision trace (cl_now (log_client c) w1 - cl_now (log_client c) wl)
    (case final of Inr resp \<Rightarrow> resp | Inl _ \<Rightarrow> None) (case final of Inr _ \<Rightarrow> None | Inl e \<Rightarrow> Some e)"
  obtain e2 w2 where ro: "recordOutcome (log_client c) None oc w1 = (e2, w2)" by (metis surj_pair)
  have l2: "snd w2 = snd wl @ EvCall a # map EvDelta ds @ EvReturned (result_dispatched res) # closing c (EvOutcome oc)"
    using recordOutcome_log [OF ro] l1 by simp
  have key: "outcome_key oc = candidate_key (rd_Selected decision)"
    unfolding oc_def using assms(2,3) by (intro call_outcome_key) simp
  note add = adds_called [OF _ assms(3) key, of _ "snd wl" ds "result_dispatched res" c]
  show ?thesis
  proof (cases final)
    case (Inr resp)
    show ?thesis
    proof (cases "e2 = None \<and> onDelta \<noteq> None \<and> the_stream (map_option log_callback onDelta) (log_provider a p) = None")
      case True
      then obtain f where f: "onDelta = Some f" by auto
      obtain e3 w3 where d: "deliver (log_callback f) (ResponseDeltas resp) w2 = (e3, w3)" by (metis surj_pair)
      from deliver_log [OF d] obtain ds' where l3: "snd w3 = snd w2 @ map EvDelta ds'" by blast
      have "wl' = w3" "result = (case e3 of Some err \<Rightarrow> Inl err | None \<Rightarrow> Inr resp)" "e3 \<noteq> None \<Longrightarrow> delivered"
        using assms(1) cp ro d True f Inr
        by (auto simp: called_attempt_def final_def oc_def Let_def split: option.splits sum.splits)
      then show ?thesis using l2 l3 by (intro add [of _ ds']) (auto simp: may_resume_def split: option.splits)
    next
      case False
      then have "wl' = w2" "may_resume c result delivered \<Longrightarrow> False"
        using assms(1) cp ro Inr
        by (auto simp: called_attempt_def final_def oc_def may_resume_def Let_def split: option.splits sum.splits)
      then show ?thesis using l2 by (intro add [of _ "[]"]) auto
    qed
  next
    case (Inl perr)
    then have "wl' = w2" and "delivered = del"
      and r: "result = (case e2 of Some err \<Rightarrow> Inl (newRuntimeError ErrorStagePostCall ErrorClassPostCall True err)
        | None \<Rightarrow> Inl (newRuntimeError ErrorStageProvider (cl_errorClassifier c perr) (providerWasDispatched perr) perr))"
      using assms(1) cp ro by (auto simp: called_attempt_def final_def oc_def Let_def split: option.splits sum.splits)
    moreover have "result_dispatched res \<Longrightarrow> providerWasDispatched perr"
      using Inl by (auto simp: final_def result_dispatched_def split: option.splits)
    ultimately show ?thesis using l2 del
      by (intro add [of _ "[]"]) (auto simp: may_resume_def allowsFallback_def split: option.splits if_splits)
  qed
qed

lemma attempt_log:
  assumes "attempt (log_client c) req (map_option log_callback onDelta) profile decision (log_provider a p) n am wl
      = (result, delivered, am', wl')"
    and "a = rd_SelectedAlias decision" and "a = mc_Alias (cd_Model (rd_Selected decision))"
  shows "adds_block c decision (snd wl) (snd wl') result delivered"
proof -
  have turned: ?thesis if "snd wl' = snd wl @ closing c (EvRelease (rd_Selected decision))"
    using that unfolding adds_block_def by (intro exI [of _ "Turned (rd_Selected decision)"] exI) auto
  obtain r1 am1 w1 where t: "trace_attempt (log_client c) req profile decision n am wl = (r1, am1, w1)" by (metis prod_cases3)
  note l1 = trace_attempt_log [OF t]
  show ?thesis
  proof (cases r1)
    case (Inl err)
    with assms(1) t l1 release_slot_log [of c decision w1] show ?thesis by (intro turned) (auto simp: attempt_def)
  next
    case (Inr trace)
    let ?st = "the_stream (map_option log_callback onDelta) (log_provider a p) \<noteq> None"
    obtain r2 am2 w2 where cl: "claim_attempt (log_client c) req (log_provider a p) ?st trace am1 w1 = (r2, am2, w2)"
      by (metis prod_cases3)
    note l2 = claim_attempt_log [OF cl]
    show ?thesis
    proof (cases r2)
      case (Some err)
      with assms(1) t Inr cl l1 l2 release_slot_log [of c decision w2] show ?thesis
        by (intro turned) (auto simp: attempt_def)
    next
      case None
      with assms(1) t Inr cl have "called_attempt (log_client c) req (map_option log_callback onDelta) profile decision
          (log_provider a p) trace w2 = (result, delivered, wl')"
        by (auto simp: attempt_def split: prod.splits)
      from called_attempt_log [OF this assms(2,3)] l1 l2 show ?thesis by simp
    qed
  qed
qed

section \<open>The run\<close>

text \<open>A block of a candidate the policy let through.\<close>

definition eligible_block :: "TaskProfile \<Rightarrow> Candidate list \<Rightarrow> block \<Rightarrow> bool" where
  "eligible_block profile candidates b \<longleftrightarrow> block_ok b \<and> block_candidate b \<in> set candidates
     \<and> Matches (cd_Model (block_candidate b)) profile"

lemma Select_matches:
  assumes "Select policy profile candidates = Some (Inr decision)"
  shows "Matches (cd_Model (rd_Selected decision)) profile"
proof -
  from assms obtain sc where sc: "sc \<in> set (available_candidates policy profile candidates)"
    "rd_Selected decision = sc_candidate sc" by (rule Select_decision)
  from available_entry [OF sc(1)] sc(2) show ?thesis by (auto simp: unavailableReason_def split: if_splits)
qed

text \<open>One turn of the loop: nothing is written, or the block of the selected candidate.\<close>

lemma route_step_log:
  assumes "route_step (log_client c) req (map_option log_callback onDelta) profile maxAttempts s = next'"
  obtains (panic) "next' = Panics"
  | (silent) r wl where "next' = Returns r wl" "snd wl = snd (rt_world s)"
  | (last_block) r wl b where "next' = Returns r wl" "snd wl = snd (rt_world s) @ block_events c b"
      "eligible_block profile (rt_candidates s) b" "maxAttempts > 0 \<Longrightarrow> rt_attemptOffset s < maxAttempts"
  | (busy) s' sel where "next' = Continues s'" "snd (rt_world s') = snd (rt_world s)"
      "rt_candidates s' = removeSelectedCandidate (rt_candidates s) sel" "rt_attemptOffset s' = rt_attemptOffset s"
  | (block) s' b where "next' = Continues s'" "snd (rt_world s') = snd (rt_world s) @ block_events c b"
      "rt_candidates s' = removeSelectedCandidate (rt_candidates s) (block_candidate b)"
      "rt_attemptOffset s' = rt_attemptOffset s + 1" "eligible_block profile (rt_candidates s) b" "passes_on c b"
      "maxAttempts > 0 \<Longrightarrow> rt_attemptOffset s < maxAttempts"
proof -
  let ?c = "log_client c" and ?d = "map_option log_callback onDelta"
  show thesis
  proof (cases "rt_candidates s = [] \<or> (maxAttempts > 0 \<and> rt_attemptOffset s \<ge> maxAttempts)")
    case True
    with assms show thesis by (intro silent) (auto simp: route_step_def)
  next
    case open': False
    obtain policy w where p: "quietly (cl_policy c) (rt_world s) = (policy, w)" by (metis surj_pair)
    note lw = quietly_log [OF p]
    show thesis
    proof (cases "Select policy profile (rt_candidates s)")
      case None
      with assms open' p show thesis by (intro panic) (auto simp: route_step_def)
    next
      case (Some d)
      show thesis
      proof (cases d)
        case (Inl e)
        with assms open' p Some lw show thesis by (intro silent [of _ w]) (auto simp: route_step_def)
      next
        case (Inr decision)
        note sel = route_step_decision [OF Some [unfolded Inr]]
        show thesis
        proof (cases "provider_at c (rd_SelectedAlias decision)")
          case None
          with assms open' p Some Inr lw show thesis
            by (intro silent [of _ w]) (auto simp: route_step_def provider_at_log)
        next
          case prov: (Some prov)
          obtain ae w2 where a: "acquire_slot ?c (rd_Selected decision) w = (ae, w2)" by (metis surj_pair)
          note la = acquire_slot_log [OF a]
          have step: "next' = (case ae of
              Some err \<Rightarrow> if \<not> list_ex is_BusyError (error_chain err)
                then Returns (Inl (newRuntimeError ErrorStagePreCall (cl_errorClassifier c err) False err)) w2
                else Continues ((fall_back decision
                   (newRuntimeError ErrorStagePreCall ErrorClassProviderBusy False err) s)\<lparr>rt_world := w2\<rparr>)
            | None \<Rightarrow> after_attempt ?c decision s (attempt ?c req ?d profile decision
                (log_provider (rd_SelectedAlias decision) prov) (rt_attemptOffset s) (rt_memory s) w2))"
            using assms open' p Some Inr prov a
            by (cases ae) (auto simp: route_step_def provider_at_log)
          show thesis
          proof (cases ae)
            case (Some err)
            show thesis
            proof (cases "list_ex is_BusyError (error_chain err)")
              case True
              let ?s = "(fall_back decision (newRuntimeError ErrorStagePreCall ErrorClassProviderBusy False err) s)\<lparr>rt_world := w2\<rparr>"
              have "next' = Continues ?s" using step Some True by simp
              with Some la lw show thesis by (intro busy [of ?s "rd_Selected decision"]) (auto simp: fall_back_def)
            next
              case False
              with step Some la lw show thesis by (intro silent [of _ w2]) auto
            qed
          next
            case None
            obtain res del am w3 where at: "attempt ?c req ?d profile decision (log_provider (rd_SelectedAlias decision) prov)
                (rt_attemptOffset s) (rt_memory s) w2 = (res, del, am, w3)" by (metis prod_cases4)
            from attempt_log [OF at refl sel(2)] obtain b tail where b: "snd w3 = snd w2 @ tail"
              "closing c (EvAcquire (rd_Selected decision)) @ tail = block_events c b"
              "block_candidate b = rd_Selected decision" "block_ok b" "may_resume c res del \<longrightarrow> passes_on c b"
              unfolding adds_block_def by blast
            have l3: "snd w3 = snd (rt_world s) @ block_events c b" using b(1) la lw None by (simp add: b(2) [symmetric])
            have el: "eligible_block profile (rt_candidates s) b"
              using b(3,4) sel(1) Select_matches [OF Some [unfolded Inr]] by (simp add: eligible_block_def)
            have off: "maxAttempts > 0 \<Longrightarrow> rt_attemptOffset s < maxAttempts" using open' by auto
            have nx: "next' = after_attempt ?c decision s (res, del, am, w3)" using step None at by simp
            show thesis
            proof (cases next')
              case Panics
              with nx show thesis by (auto simp: after_attempt_def split: sum.splits option.splits if_splits)
            next
              case (Returns r wl)
              with nx have "wl = w3" by (auto simp: after_attempt_def split: sum.splits option.splits if_splits)
              with Returns l3 el off show thesis by (intro last_block) auto
            next
              case (Continues s')
              with nx have s': "rt_world s' = w3" "may_resume c res del"
                "rt_candidates s' = removeSelectedCandidate (rt_candidates s) (rd_Selected decision)"
                "rt_attemptOffset s' = rt_attemptOffset s + 1"
                by (auto simp: after_attempt_def may_resume_def fall_back_def split: sum.splits option.splits if_splits)
              with Continues l3 el b(3,5) off show thesis by (intro block) auto
            qed
          qed
        qed
      qed
    qed
  qed
qed

definition good_blocks :: "'w Client \<Rightarrow> TaskProfile \<Rightarrow> Candidate list \<Rightarrow> block list \<Rightarrow> bool" where
  "good_blocks c profile candidates bs \<longleftrightarrow> (\<forall>b \<in> set bs. eligible_block profile candidates b)
     \<and> (\<forall>b \<in> set (butlast bs). passes_on c b)
     \<and> distinct (map (candidate_identity \<circ> block_candidate) bs)"

lemma removed_identity:
  "x \<in> set (removeSelectedCandidate candidates sel) \<longleftrightarrow> x \<in> set candidates \<and> candidate_identity x \<noteq> candidate_identity sel"
  by (auto simp: removeSelectedCandidate_def candidate_identity_def)

lemma good_blocks_Cons:
  assumes "good_blocks c profile (removeSelectedCandidate candidates (block_candidate b)) bs"
    and "eligible_block profile candidates b" and "passes_on c b"
  shows "good_blocks c profile candidates (b # bs)"
  using assms by (auto simp: good_blocks_def eligible_block_def removed_identity)

lemma route_loop_log:
  assumes "route_loop (log_client c) req (map_option log_callback onDelta) profile maxAttempts s = Some (r, wl)"
    and "maxAttempts > 0 \<Longrightarrow> rt_attemptOffset s \<le> maxAttempts"
  shows "\<exists>bs. snd wl = snd (rt_world s) @ concat (map (block_events c) bs)
    \<and> good_blocks c profile (rt_candidates s) bs
    \<and> (maxAttempts > 0 \<longrightarrow> int (length bs) \<le> maxAttempts - rt_attemptOffset s)"
  using assms
proof (induction "log_client c" req "map_option log_callback onDelta" profile maxAttempts s rule: route_loop.induct)
  case (1 req profile maxAttempts s)
  let ?step = "route_step (log_client c) req (map_option log_callback onDelta) profile maxAttempts s"
  have loop: "route_loop (log_client c) req (map_option log_callback onDelta) profile maxAttempts s = (case ?step of
      Panics \<Rightarrow> None | Returns result w \<Rightarrow> Some (result, w)
    | Continues s' \<Rightarrow> route_loop (log_client c) req (map_option log_callback onDelta) profile maxAttempts s')"
    by (rule route_loop.simps)
  show ?case
  proof (rule route_step_log [of c req onDelta profile maxAttempts s ?step])
    show "?step = ?step" ..
  next
    assume "?step = Panics"
    with "1.prems" loop show ?case by simp
  next
    fix r' wl'
    assume "?step = Returns r' wl'" "snd wl' = snd (rt_world s)"
    with "1.prems" loop show ?case by (intro exI [of _ "[]"]) (simp add: good_blocks_def)
  next
    fix r' wl' b
    assume "?step = Returns r' wl'" "snd wl' = snd (rt_world s) @ block_events c b"
      "eligible_block profile (rt_candidates s) b" "maxAttempts > 0 \<Longrightarrow> rt_attemptOffset s < maxAttempts"
    with "1.prems" loop show ?case by (intro exI [of _ "[b]"]) (auto simp: good_blocks_def)
  next
    fix s' sel
    assume s': "?step = Continues s'" "snd (rt_world s') = snd (rt_world s)"
      "rt_candidates s' = removeSelectedCandidate (rt_candidates s) sel" "rt_attemptOffset s' = rt_attemptOffset s"
    have run': "route_loop (log_client c) req (map_option log_callback onDelta) profile maxAttempts s' = Some (r, wl)"
      using "1.prems"(1) loop s'(1) by simp
    have "maxAttempts > 0 \<Longrightarrow> rt_attemptOffset s' \<le> maxAttempts" using s'(4) "1.prems"(2) by simp
    from "1.hyps" [OF s'(1) run' this] obtain bs where
      "snd wl = snd (rt_world s') @ concat (map (block_events c) bs)"
      "good_blocks c profile (rt_candidates s') bs"
      "maxAttempts > 0 \<longrightarrow> int (length bs) \<le> maxAttempts - rt_attemptOffset s'" by blast
    with s'(2-4) show ?case
      by (intro exI [of _ bs]) (auto simp: good_blocks_def eligible_block_def removed_identity)
  next
    fix s' b
    assume s': "?step = Continues s'" "snd (rt_world s') = snd (rt_world s) @ block_events c b"
      "rt_candidates s' = removeSelectedCandidate (rt_candidates s) (block_candidate b)"
      "rt_attemptOffset s' = rt_attemptOffset s + 1" "eligible_block profile (rt_candidates s) b" "passes_on c b"
      "maxAttempts > 0 \<Longrightarrow> rt_attemptOffset s < maxAttempts"
    have run': "route_loop (log_client c) req (map_option log_callback onDelta) profile maxAttempts s' = Some (r, wl)"
      using "1.prems"(1) loop s'(1) by simp
    have "maxAttempts > 0 \<Longrightarrow> rt_attemptOffset s' \<le> maxAttempts" using s'(4,7) by fastforce
    from "1.hyps" [OF s'(1) run' this] obtain bs where
      "snd wl = snd (rt_world s') @ concat (map (block_events c) bs)"
      "good_blocks c profile (rt_candidates s') bs"
      "maxAttempts > 0 \<longrightarrow> int (length bs) \<le> maxAttempts - rt_attemptOffset s'" by blast
    with good_blocks_Cons [of c profile "rt_candidates s" b bs] s'(2-6) show ?case
      by (intro exI [of _ "b # bs"]) auto
  qed
qed

text \<open>The candidates of a request are the configured ones with their statistics and health filled in.\<close>

definition same_model :: "Candidate \<Rightarrow> Candidate \<Rightarrow> bool" where
  "same_model a b \<longleftrightarrow> candidate_identity a = candidate_identity b
     \<and> mc_IsLocal (cd_Model a) = mc_IsLocal (cd_Model b)
     \<and> mc_SupportsTools (cd_Model a) = mc_SupportsTools (cd_Model b)"

lemma apply_stats_same: "same_model (apply_stats st profile x) x"
  by (auto simp: apply_stats_def apply_stats_entry_def same_model_def candidate_identity_def Let_def split: option.split)

lemma enrich_same: "same_model (enrich sn x) x"
  by (auto simp: enrich_def apply_entry_def same_model_def candidate_identity_def Let_def split: option.split)

definition configured :: "Candidate list \<Rightarrow> Candidate list \<Rightarrow> bool" where
  "configured cs xs \<longleftrightarrow> (\<forall>x \<in> set xs. \<exists>y \<in> set cs. same_model x y)"

lemma configured_map:
  assumes "configured cs xs" and "\<And>x. same_model (f x) x"
  shows "configured cs (map f xs)"
  unfolding configured_def
proof
  fix z
  assume "z \<in> set (map f xs)"
  then obtain x where "x \<in> set xs" "z = f x" by auto
  with assms(1) obtain y where "y \<in> set cs" "same_model x y" by (auto simp: configured_def)
  with assms(2) [of x] \<open>z = f x\<close> show "\<exists>y \<in> set cs. same_model z y" by (auto simp: same_model_def)
qed

lemma configured_intros:
  "configured cs (filter P cs)"
  "configured cs xs \<Longrightarrow> configured cs (ApplyModelStats st profile xs)"
  "configured cs xs \<Longrightarrow> configured cs (ApplyProviderHealth h xs)"
  by (auto simp: ApplyModelStats_def ApplyProviderHealth_def configured_map apply_stats_same enrich_same)
    (auto simp: configured_def same_model_def)

lemma availableCandidates_configured:
  assumes "availableCandidates c profile w = (Inr cs, w')"
  shows "configured (cl_candidates c) cs"
  using assms
  by (auto simp: availableCandidates_def Let_def intro!: configured_intros
      split: if_splits prod.splits sum.splits option.splits) (simp add: configured_def)

lemma availableCandidates_log:
  "availableCandidates (log_client c) profile wl = (r, wl') \<Longrightarrow> snd wl' = snd wl"
  by (auto simp: availableCandidates_def Let_def dest!: quietly_log
      split: if_splits prod.splits sum.splits option.splits)

definition requested_profile :: "'w Client \<Rightarrow> ChatRequest \<Rightarrow> 'w \<Rightarrow> TaskProfile" where
  "requested_profile c req w = (case cl_profileProvider c of None \<Rightarrow> DefaultTaskProfile | Some f \<Rightarrow> fst (f req w))"

text \<open>The log of a request is the blocks of distinct candidates, all but the last passing on.\<close>

lemma route_log_blocks:
  assumes "route_log c req onDelta w = Some l"
  obtains cs bs where "l = concat (map (block_events c) bs)"
    and "good_blocks c (requested_profile c req w) cs bs" and "configured (cl_candidates c) cs"
    and "cl_maxAttempts c > 0 \<Longrightarrow> int (length bs) \<le> cl_maxAttempts c"
proof -
  let ?c = "log_client c" and ?d = "map_option log_callback onDelta"
  from assms obtain r wl where run: "route ?c req ?d (w, []) = Some (r, wl)" and l: "l = snd wl"
    by (auto simp: route_log_def)
  obtain profile w1 where p: "(case cl_profileProvider ?c of None \<Rightarrow> (DefaultTaskProfile, (w, []))
      | Some provider \<Rightarrow> provider req (w, [])) = (profile, w1)" by (metis surj_pair)
  then have prof: "profile = requested_profile c req w" and w1: "snd w1 = []"
    by (auto simp: requested_profile_def quietly_def split: option.splits prod.splits)
  obtain av w2 where a: "availableCandidates ?c profile w1 = (av, w2)" by (metis surj_pair)
  with w1 have w2: "snd w2 = []" using availableCandidates_log by metis
  show thesis
  proof (cases av)
    case (Inl err)
    with run p a l w2 have "l = []" by (auto simp: route_def)
    then show thesis by (intro that [of "[]" "[]"]) (auto simp: good_blocks_def configured_def)
  next
    case (Inr cs)
    let ?s = "\<lparr>rt_candidates = cs, rt_failures = [],
      rt_memory = \<lparr>am_routeMetadata = None, am_lastProviderCallIndex = 0\<rparr>, rt_attemptOffset = 0, rt_world = w2\<rparr>"
    have loop: "route_loop ?c req ?d profile (attemptLimit c (length cs)) ?s = Some (r, wl)"
      using run p a Inr by (simp add: route_def)
    from route_loop_log [OF loop] obtain bs where bs: "snd wl = [] @ concat (map (block_events c) bs)"
      "good_blocks c profile cs bs" "attemptLimit c (length cs) > 0 \<longrightarrow> int (length bs) \<le> attemptLimit c (length cs)"
      using w2 by auto
    have "int (length bs) \<le> cl_maxAttempts c" if "cl_maxAttempts c > 0"
    proof (cases "cs = []")
      case True
      with bs(2) have "bs = []" by (cases bs) (auto simp: good_blocks_def eligible_block_def)
      with that show ?thesis by simp
    next
      case False
      with bs(3) that show ?thesis by (auto simp: attemptLimit_def)
    qed
    with bs l prof availableCandidates_configured [OF a [unfolded Inr]] show thesis by (intro that [of bs cs]) auto
  qed
qed

section \<open>The properties\<close>

fun is_slot_event :: "route_event \<Rightarrow> bool" where
  "is_slot_event (EvAcquire _) = True"
| "is_slot_event (EvRelease _) = True"
| "is_slot_event (EvOutcome _) = True"
| "is_slot_event _ = False"

definition is_call :: "route_event \<Rightarrow> bool" where
  "is_call e \<longleftrightarrow> (\<exists>a. e = EvCall a)"

definition is_delta :: "route_event \<Rightarrow> bool" where
  "is_delta e \<longleftrightarrow> (\<exists>d. e = EvDelta d)"

lemma event_kinds [simp]:
  "is_call (EvCall a)" "\<not> is_call (EvAcquire s)" "\<not> is_call (EvRelease s)" "\<not> is_call (EvOutcome oc)"
  "\<not> is_call (EvReturned f)" "\<not> is_call (EvDelta d)" "is_delta (EvDelta d)" "\<not> is_delta (EvCall a)"
  "\<not> is_delta (EvAcquire s)" "\<not> is_delta (EvRelease s)" "\<not> is_delta (EvOutcome oc)" "\<not> is_delta (EvReturned f)"
  by (auto simp: is_call_def is_delta_def)

text \<open>The event that closes a slot, applied to the memory health store.\<close>

fun close_slot :: "route_event \<Rightarrow> MemoryHealthStore \<Rightarrow> MemoryHealthStore" where
  "close_slot (EvRelease s) st = Release s st"
| "close_slot (EvOutcome oc) st = snd (RecordOutcome None oc st)"
| "close_slot _ st = st"

definition closes :: "Candidate \<Rightarrow> route_event \<Rightarrow> bool" where
  "closes s e \<longleftrightarrow> e = EvRelease s \<or> (\<exists>oc. e = EvOutcome oc \<and> outcome_key oc = candidate_key s)"

lemma close_slot_restores:
  assumes "closes s e" and "Acquire ctx s st = (None, st')"
    and "0 \<le> he_InFlight (entry_at (hs_entries st) (candidate_key s))"
  shows "he_InFlight (entry_at (hs_entries (close_slot e st')) k) = he_InFlight (entry_at (hs_entries st) k)"
proof -
  let ?k = "candidate_key s"
  from assms(2) obtain en where st': "st' = st\<lparr>hs_entries := AList.update ?k en (hs_entries st)\<rparr>"
    and en: "he_InFlight en = he_InFlight (entry_at (hs_entries st) ?k) + 1"
    by (auto simp: Acquire_def Let_def split: option.splits if_splits)
  have "he_InFlight en > 0" using en assms(3) by simp
  with assms(1) en show ?thesis
    by (auto simp: closes_def st' Release_def RecordOutcome_def closed_entry_def Let_def entry_at_def)
qed

text \<open>Property C23. A request keeps the books of the health store: the slots it takes and closes form a
  sequence in which every acquisition is followed by its own release or the outcome of its own
  call before the next one, whatever fails in between, and closing a slot of the memory health store
  gives every provider the number of calls in flight it had before.
\<close>

theorem slots_closed:
  assumes "route_log c req onDelta w = Some l" and "cl_healthStore c \<noteq> None"
  shows "\<exists>ps. filter is_slot_event l = concat (map (\<lambda>(s, e). [EvAcquire s, e]) ps)
    \<and> (\<forall>(s, e) \<in> set ps. closes s e \<and> (\<forall>ctx st st' k. Acquire ctx s st = (None, st')
         \<and> 0 \<le> he_InFlight (entry_at (hs_entries st) (candidate_key s)) \<longrightarrow>
         he_InFlight (entry_at (hs_entries (close_slot e st')) k) = he_InFlight (entry_at (hs_entries st) k)))"
proof -
  from assms(1) obtain cs bs where l: "l = concat (map (block_events c) bs)"
    and good: "good_blocks c (requested_profile c req w) cs bs" by (rule route_log_blocks)
  define slot where "slot = (\<lambda>b. case b of Turned s \<Rightarrow> (s, EvRelease s) | Called s ds f oc ds' \<Rightarrow> (s, EvOutcome oc))"
  have "filter is_slot_event (block_events c b) = (\<lambda>(s, e). [EvAcquire s, e]) (slot b)" for b
    using assms(2) by (cases b) (auto simp: slot_def closing_def filter_empty_conv)
  then have "filter is_slot_event l = concat (map (\<lambda>(s, e). [EvAcquire s, e]) (map slot bs))"
    unfolding l by (induction bs) (auto simp: filter_concat)
  moreover have "closes (fst (slot b)) (snd (slot b))" if "b \<in> set bs" for b
    using good that by (cases b) (auto simp: slot_def closes_def good_blocks_def eligible_block_def)
  then have "\<forall>(s, e) \<in> set (map slot bs). closes s e" by (auto simp: split_beta)
  moreover have "closes s e \<Longrightarrow> \<forall>ctx st st' k. Acquire ctx s st = (None, st')
      \<and> 0 \<le> he_InFlight (entry_at (hs_entries st) (candidate_key s)) \<longrightarrow>
      he_InFlight (entry_at (hs_entries (close_slot e st')) k) = he_InFlight (entry_at (hs_entries st) k)" for s e
    using close_slot_restores by blast
  ultimately show ?thesis by (intro exI [of _ "map slot bs"]) auto
qed

text \<open>Property C24. A request that fails closed reaches at most one provider: with \<open>FailClosed\<close>, or with a
  pre-dispatch hook, which implies it, at most one of the provider calls of a request returned
  anything but an error that proves the request was not sent.
\<close>

theorem fail_closed_single_dispatch:
  assumes "fb_FailClosed (cf_FallbackPolicy config) \<or> cf_PreDispatchHook config \<noteq> None"
    and "route_log (NewClient config) req onDelta w = Some l"
  shows "length (filter (\<lambda>e. e = EvReturned True) l) \<le> 1"
proof -
  let ?c = "NewClient config" and ?n = "\<lambda>l. length (filter (\<lambda>e. e = EvReturned True) l)"
  from assms(2) obtain cs bs where l: "l = concat (map (block_events ?c) bs)"
    and good: "good_blocks ?c (requested_profile ?c req w) cs bs" by (rule route_log_blocks)
  have fc: "cl_failClosed ?c" using assms(1) by (simp add: NewClient_def)
  have d: "filter (\<lambda>e. e = EvReturned True) (map EvDelta ds) = []" for ds by (simp add: filter_empty_conv)
  have one: "?n (block_events ?c b) \<le> 1" for b by (cases b) (auto simp: closing_def d)
  have zero: "?n (block_events ?c b) = 0" if "passes_on ?c b" for b
    using that fc by (cases b) (auto simp: closing_def)
  have "\<forall>b \<in> set (butlast bs). passes_on ?c b" using good by (simp add: good_blocks_def)
  then have "?n (concat (map (block_events ?c) bs)) \<le> 1"
    by (induction bs) (use one zero in \<open>auto split: if_splits\<close>)
  with l show ?thesis by simp
qed

text \<open>Property C25. The caller never sees two answers: once a delta was handed to the callback, no provider
  is called again in this request.
\<close>

theorem no_second_answer:
  assumes "route_log c req onDelta w = Some l" and "i < j" and "j < length l" and "is_delta (l ! i)"
  shows "\<not> is_call (l ! j)"
proof -
  from assms(1) obtain cs bs where l: "l = concat (map (block_events c) bs)"
    and good: "good_blocks c (requested_profile c req w) cs bs" by (rule route_log_blocks)
  let ?P = "\<lambda>e e'. is_delta e \<longrightarrow> \<not> is_call e'"
  have maps: "sorted_wrt ?P (map EvDelta ds)" for ds by (induction ds) auto
  have block: "sorted_wrt ?P (block_events c b)" for b
    by (cases b) (auto simp: closing_def sorted_wrt_append maps)
  have quiet: "\<forall>e \<in> set (block_events c b). \<not> is_delta e" if "passes_on c b" for b
    using that by (cases b) (auto simp: closing_def)
  have "\<forall>b \<in> set (butlast bs). passes_on c b" using good by (simp add: good_blocks_def)
  then have "sorted_wrt ?P (concat (map (block_events c) bs))"
    by (induction bs) (use block quiet in \<open>auto simp: sorted_wrt_append split: if_splits\<close>)
  with l assms(2-4) show ?thesis by (auto simp: sorted_wrt_iff_nth_less)
qed

text \<open>Fallback stays within the policy: every provider called belongs to a configured
  candidate that may serve the task, so a task that must stay local is never sent to a cloud model on
  any attempt; no candidate is called twice, and the calls never exceed \<open>MaxAttempts\<close>.
\<close>

theorem calls_within_policy:
  assumes "route_log c req onDelta w = Some l" and "profile = requested_profile c req w"
  shows "(\<forall>a. EvCall a \<in> set l \<longrightarrow> (\<exists>x \<in> set (cl_candidates c). mc_Alias (cd_Model x) = a
      \<and> (tp_Privacy profile = PrivacyLocalOnly \<longrightarrow> mc_IsLocal (cd_Model x))
      \<and> (tp_NeedsTools profile \<longrightarrow> mc_SupportsTools (cd_Model x))))
    \<and> length (filter is_call l) \<le> card (candidate_identity ` set (cl_candidates c))
    \<and> (cl_maxAttempts c > 0 \<longrightarrow> int (length (filter is_call l)) \<le> cl_maxAttempts c)"
proof -
  from assms(1) obtain cs bs where l: "l = concat (map (block_events c) bs)"
    and good: "good_blocks c (requested_profile c req w) cs bs" and cfg: "configured (cl_candidates c) cs"
    and mx: "cl_maxAttempts c > 0 \<Longrightarrow> int (length bs) \<le> cl_maxAttempts c" by (rule route_log_blocks) blast
  have one: "length (filter is_call (block_events c b)) \<le> 1" for b
    by (cases b) (auto simp: closing_def filter_empty_conv)
  have n: "length (filter is_call l) \<le> length bs"
    unfolding l
  proof (induction bs)
    case (Cons b bs)
    then show ?case using one [of b] by simp
  qed simp
  have ids: "(candidate_identity \<circ> block_candidate) ` set bs \<subseteq> candidate_identity ` set (cl_candidates c)"
  proof
    fix i
    assume "i \<in> (candidate_identity \<circ> block_candidate) ` set bs"
    then obtain b where b: "b \<in> set bs" "i = candidate_identity (block_candidate b)" by auto
    with good have "block_candidate b \<in> set cs" by (auto simp: good_blocks_def eligible_block_def)
    with cfg obtain y where "y \<in> set (cl_candidates c)" "same_model (block_candidate b) y"
      unfolding configured_def by blast
    with b(2) show "i \<in> candidate_identity ` set (cl_candidates c)" by (auto simp: same_model_def)
  qed
  have "length bs = card ((candidate_identity \<circ> block_candidate) ` set bs)"
    using good by (metis good_blocks_def distinct_card length_map set_map)
  also have "\<dots> \<le> card (candidate_identity ` set (cl_candidates c))" using ids by (intro card_mono) auto
  finally have le: "length bs \<le> card (candidate_identity ` set (cl_candidates c))" .
  have "\<exists>x \<in> set (cl_candidates c). mc_Alias (cd_Model x) = a
      \<and> (tp_Privacy profile = PrivacyLocalOnly \<longrightarrow> mc_IsLocal (cd_Model x))
      \<and> (tp_NeedsTools profile \<longrightarrow> mc_SupportsTools (cd_Model x))" if "EvCall a \<in> set l" for a
  proof -
    from that obtain b where b: "b \<in> set bs" "EvCall a \<in> set (block_events c b)" by (auto simp: l)
    have "a = mc_Alias (cd_Model (block_candidate b))"
      using b(2) by (cases b) (auto simp: closing_def split: if_splits)
    moreover from b(1) good have "block_candidate b \<in> set cs" "Matches (cd_Model (block_candidate b)) profile"
      by (auto simp: good_blocks_def eligible_block_def assms(2))
    moreover from this(1) cfg obtain y where "y \<in> set (cl_candidates c)" "same_model (block_candidate b) y"
      unfolding configured_def by blast
    ultimately show ?thesis
      by (intro bexI [of _ y]) (auto simp: same_model_def candidate_identity_def Matches_def split: if_splits)
  qed
  with n le mx show ?thesis by fastforce
qed

section \<open>A request\<close>

text \<open>One candidate over the memory health store, whose provider streams one delta.\<close>

definition demo_delta :: ChatDelta where
  "demo_delta = \<lparr>dl_Content = ''hi'', dl_ToolCall = None\<rparr>"

definition demo_response :: ChatResponse where
  "demo_response = \<lparr>resp_Content = ''hi'', resp_ToolCalls = [], resp_Usage = \<lparr>us_InputTokens = 1, us_OutputTokens = 1\<rparr>\<rparr>"

definition demo_provider :: "MemoryHealthStore ProviderClient" where
  "demo_provider = \<lparr>pv_Chat = (\<lambda>req w. (Inr (Some demo_response), w)),
     pv_ChatStream = Some (\<lambda>req w. Yield demo_delta w (\<lambda>p. Finish (Inr (Some demo_response)) (snd p))),
     pv_RequestSHA256 = None, pv_StreamRequestSHA256 = None\<rparr>"

definition health_error :: "HealthError \<Rightarrow> client_error" where
  "health_error e = (case e of HealthCtx ce \<Rightarrow> ContextError ce | LLM_Health.ErrProviderBusy r \<Rightarrow> BusyError r)"

definition memory_health :: "MemoryHealthStore HealthStore" where
  "memory_health = \<lparr>
     hst_Acquire = (\<lambda>ctx c w. case Acquire ctx c w of (e, w) \<Rightarrow> (map_option health_error e, w)),
     hst_Release = (\<lambda>ctx c w. Release c w),
     hst_RecordOutcome = (\<lambda>ctx oc w. case RecordOutcome ctx oc w of (e, w) \<Rightarrow> (map_option health_error e, w)),
     hst_Snapshot = Snapshot\<rparr>"

definition demo_config :: "MemoryHealthStore Config" where
  "demo_config = \<lparr>cf_Policy = (\<lambda>w. (demo_policy, w)), cf_Candidates = [demo_candidate],
     cf_Providers = [(''m'', Some demo_provider)],
     cf_ProfileProvider = None, cf_RouteMetadataProvider = None, cf_Recorder = None, cf_RecordOutcomes = False,
     cf_ModelStats = None, cf_ModelStatsProvider = None, cf_HealthStore = Some memory_health,
     cf_FallbackPolicy = \<lparr>fb_MaxAttempts = 2, fb_FailClosed = True, fb_RetryableErrorClasses = [ErrorClassTransient]\<rparr>,
     cf_ErrorClassifier = None, cf_PreDispatchMetadata = None, cf_PreDispatchHook = None,
     cf_ctx = (\<lambda>w. None), cf_now = hs_now\<rparr>"

definition demo_store :: MemoryHealthStore where
  "demo_store = demo_health\<lparr>hs_entries := []\<rparr>"

definition demo_request :: ChatRequest where
  "demo_request = \<lparr>chat_Messages = [], chat_Tools = [], chat_MaxOutputTokens = 0\<rparr>"

lemma demo_decision:
  obtains d where "Select demo_policy DefaultTaskProfile [demo_candidate] = Some (Inr d)"
    "rd_Selected d = demo_candidate" "rd_SelectedAlias d = ''m''"
  using demo_available
  by (auto simp: Select_def available_candidates_def demo_policy_def route_decision_def sort_by_def Let_def
      demo_candidate_def demo_model_def)

lemma demo_admitted: "\<exists>st. Acquire None demo_candidate demo_store = (None, st)"
  by (simp add: Acquire_def admissionBlock_def demo_store_def demo_health_def entry_at_def account_in_flight_def
      demo_candidate_def demo_model_def Let_def)

abbreviation demo_client :: "MemoryHealthStore Client" where
  "demo_client \<equiv> NewClient demo_config"

lemma demo_client_fields:
  "cl_candidates demo_client = [demo_candidate]" "cl_modelStatsProvider demo_client = None"
  "cl_modelStats demo_client = None" "cl_healthStore demo_client = Some memory_health"
  "cl_profileProvider demo_client = None" "cl_maxAttempts demo_client = 2" "cl_recorder demo_client = None"
  "cl_preDispatchHook demo_client = None" "cl_ctx demo_client = (\<lambda>w. None)"
  "cl_policy demo_client = (\<lambda>w. (demo_policy, w))"
  "provider_at demo_client ''m'' = Some demo_provider"
  by (simp_all add: NewClient_def demo_config_def provider_at_def map_write_all_def)

lemma demo_log:
  "\<exists>oc. route_log demo_client demo_request (Some (\<lambda>d w. (None, w))) demo_store
     = Some [EvAcquire demo_candidate, EvCall ''m'', EvDelta demo_delta, EvReturned True, EvOutcome oc]"
proof -
  let ?c = "log_client demo_client" and ?d = "Some (log_callback (\<lambda>d. Pair None)) :: MemoryHealthStore logged callback option"
  obtain d where d: "Select demo_policy DefaultTaskProfile [demo_candidate] = Some (Inr d)"
    "rd_Selected d = demo_candidate" "rd_SelectedAlias d = ''m''" by (rule demo_decision)
  obtain st where st: "Acquire None demo_candidate demo_store = (None, st)" using demo_admitted by blast
  have al: "mc_Alias (cd_Model demo_candidate) = ''m''" by (simp add: demo_candidate_def demo_model_def)
  have av: "availableCandidates ?c DefaultTaskProfile (demo_store, []) = (Inr [demo_candidate], (demo_store, []))"
    by (simp add: availableCandidates_def demo_client_fields provider_at_log al log_health_def memory_health_def
        ApplyProviderHealth_def Snapshot_def demo_store_def)
  have acq: "acquire_slot ?c demo_candidate (demo_store, []) = (None, (st, [EvAcquire demo_candidate]))"
    by (simp add: acquire_slot_def demo_client_fields log_health_def memory_health_def st)
  have ro: "\<exists>w'. recordOutcome ?c None oc wl = (None, (w', snd wl @ [EvOutcome oc]))" for oc wl
    by (simp add: recordOutcome_def demo_client_fields log_health_def memory_health_def RecordOutcome_def Let_def)
  have call: "call_provider ?d demo_request (log_provider ''m'' demo_provider) (st, [EvAcquire demo_candidate])
      = (True, Inr (Some demo_response), (st, [EvAcquire demo_candidate, EvCall ''m'', EvDelta demo_delta, EvReturned True]))"
    by (simp add: call_provider_def the_stream_def log_provider_def demo_provider_def log_callback_def result_dispatched_def)
  obtain sc where stream: "the_stream ?d (log_provider ''m'' demo_provider) = Some sc"
    by (simp add: the_stream_def log_provider_def demo_provider_def)
  let ?l = "[EvAcquire demo_candidate, EvCall ''m'', EvDelta demo_delta, EvReturned True]"
  define oc where "oc = call_outcome ?c DefaultTaskProfile d zero_trace
    (cl_now ?c (st, ?l) - cl_now ?c (st, [EvAcquire demo_candidate])) (Some demo_response) None"
  obtain w' where w': "recordOutcome ?c None oc (st, ?l) = (None, (w', ?l @ [EvOutcome oc]))"
    using ro [of oc "(st, ?l)"] unfolding snd_conv by blast
  have called: "called_attempt ?c demo_request ?d DefaultTaskProfile d (log_provider ''m'' demo_provider) zero_trace
      (st, [EvAcquire demo_candidate]) = (Inr (Some demo_response), True,
        (w', [EvAcquire demo_candidate, EvCall ''m'', EvDelta demo_delta, EvReturned True, EvOutcome oc]))"
    using w' by (simp add: called_attempt_def call stream demo_client_fields oc_def Let_def)
  have at: "attempt ?c demo_request ?d DefaultTaskProfile d (log_provider ''m'' demo_provider) 0 am
      (st, [EvAcquire demo_candidate]) = (Inr (Some demo_response), True, am,
        (w', [EvAcquire demo_candidate, EvCall ''m'', EvDelta demo_delta, EvReturned True, EvOutcome oc]))" for am
    by (simp add: attempt_def trace_attempt_def claim_attempt_def demo_client_fields called)
  have "route ?c demo_request ?d (demo_store, []) = Some (Inr (Some demo_response),
        (w', [EvAcquire demo_candidate, EvCall ''m'', EvDelta demo_delta, EvReturned True, EvOutcome oc]))"
    by (simp add: route_def av demo_client_fields route_loop.simps route_step_def attemptLimit_def quietly_def d
        provider_at_log acq at after_attempt_def)
  then show ?thesis by (simp add: route_log_def)
qed

lemma demo_profile: "requested_profile demo_client demo_request demo_store = DefaultTaskProfile"
  by (simp add: requested_profile_def demo_client_fields)

theorem slots_closed_witness:
  "\<exists>l ps. route_log demo_client demo_request (Some (\<lambda>d w. (None, w))) demo_store = Some l
     \<and> filter is_slot_event l = concat (map (\<lambda>(s, e). [EvAcquire s, e]) ps) \<and> length ps = 1"
proof -
  obtain oc where l: "route_log demo_client demo_request (Some (\<lambda>d w. (None, w))) demo_store
     = Some [EvAcquire demo_candidate, EvCall ''m'', EvDelta demo_delta, EvReturned True, EvOutcome oc]"
    using demo_log by blast
  have "cl_healthStore demo_client \<noteq> None" by (simp add: demo_client_fields)
  from slots_closed [OF l this] obtain ps where ps:
    "[EvAcquire demo_candidate, EvOutcome oc] = concat (map (\<lambda>(s, e). [EvAcquire s, e]) ps)" by auto
  then have "length ps = 1" by (cases ps; cases "tl ps") auto
  with l ps show ?thesis by auto
qed

theorem fail_closed_single_dispatch_witness:
  "\<exists>l. route_log (NewClient demo_config) demo_request (Some (\<lambda>d w. (None, w))) demo_store = Some l
     \<and> EvReturned True \<in> set l \<and> length (filter (\<lambda>e. e = EvReturned True) l) \<le> 1"
proof -
  obtain oc where l: "route_log demo_client demo_request (Some (\<lambda>d w. (None, w))) demo_store
     = Some [EvAcquire demo_candidate, EvCall ''m'', EvDelta demo_delta, EvReturned True, EvOutcome oc]"
    using demo_log by blast
  from fail_closed_single_dispatch [OF _ l] l show ?thesis by (simp add: demo_config_def)
qed

theorem no_second_answer_witness:
  "\<exists>l. route_log demo_client demo_request (Some (\<lambda>d w. (None, w))) demo_store = Some l
     \<and> is_delta (l ! 2) \<and> \<not> is_call (l ! 3)"
proof -
  obtain oc where l: "route_log demo_client demo_request (Some (\<lambda>d w. (None, w))) demo_store
     = Some [EvAcquire demo_candidate, EvCall ''m'', EvDelta demo_delta, EvReturned True, EvOutcome oc]"
    using demo_log by blast
  from no_second_answer [OF l, of 2 3] l show ?thesis by (simp add: numeral_2_eq_2)
qed

theorem calls_within_policy_witness:
  "\<exists>l. route_log demo_client demo_request (Some (\<lambda>d w. (None, w))) demo_store = Some l
     \<and> EvCall ''m'' \<in> set l \<and> length (filter is_call l) \<le> card (candidate_identity ` set (cl_candidates demo_client))"
proof -
  obtain oc where l: "route_log demo_client demo_request (Some (\<lambda>d w. (None, w))) demo_store
     = Some [EvAcquire demo_candidate, EvCall ''m'', EvDelta demo_delta, EvReturned True, EvOutcome oc]"
    using demo_log by blast
  from calls_within_policy [OF l refl] l show ?thesis by auto
qed

end
