(* ===== verification/Agent_Core.thy ===== *)
theory Agent_Core
  imports Agent_State
begin

text \<open>
  \<open>goagent/agentcore\<close>: the stages of the agent pipeline, the ReAct loop over them, and the entry
  points that start and resume a run. Everything the host plugs in (the model, tools, providers,
  guards, the approver) is a function of its request and a world \<open>'w\<close> that it may change. The
  streaming of deltas is not modelled: a streaming client returns the response \<open>Chat\<close> would.

  Bounds: the ReAct loop is bounded by \<open>MaxIterations\<close>, so the model needs no fuel. A write to a
  nil map is the stage outcome \<open>Crashed\<close>, which leaves the pipeline at once.
\<close>

section \<open>Configuration\<close>

datatype StageResult = StageContinue | StageBreak | StageAbort | StageInterrupt

record Budget =
  bd_MaxInputTokens :: int
  bd_MaxOutputTokens :: int
  bd_MaxTotalTokens :: int

record BudgetDecision =
  bdec_Allowed :: bool
  bdec_Reason :: string

record ToolApprovalRequest =
  arq_RunID :: RunID
  arq_UserID :: string
  arq_SessionID :: string
  arq_Tool :: string
  arq_Input :: string
  arq_Metadata :: "metadata option"

record ToolApprovalDecision =
  ad_Allowed :: bool
  ad_Pending :: bool
  ad_Reason :: string

record Skill =
  sk_Name :: string
  sk_Description :: string
  sk_Content :: string
  sk_Priority :: int
  sk_Cacheable :: bool

record MemoryMessage =
  mm_Role :: string
  mm_Content :: string

record OutputFormat =
  of_Name :: string
  of_Description :: string
  of_Instructions :: string
  of_JSONSchema :: string

record OutputValidationResult =
  ov_Structured :: string
  ov_Metadata :: "metadata option"

datatype 'w budget_guard = BuiltinGuard Budget | HostGuard "RunState \<Rightarrow> 'w \<Rightarrow> BudgetDecision \<times> 'w"

record 'w MemoryProvider =
  mem_Load :: "string \<Rightarrow> 'w \<Rightarrow> (AgentError + MemoryMessage list) \<times> 'w"
  mem_Save :: "string \<Rightarrow> MemoryMessage list \<Rightarrow> 'w \<Rightarrow> AgentError option \<times> 'w"

record 'w Agent =
  ag_llm :: "ChatRequest \<Rightarrow> 'w \<Rightarrow> (AgentError + ChatResponse) \<times> 'w"
  ag_promptCompiler :: "(PromptBlock list \<Rightarrow> 'w \<Rightarrow> (AgentError + CompiledPrompt option) \<times> 'w) option"
  ag_promptBlocks :: "PromptBlock list"
  ag_toolRegistry :: "'w Registry"
  ag_policyEngine :: "(PolicyRequest \<Rightarrow> 'w \<Rightarrow> PolicyDecision \<times> 'w) option"
  ag_memoryProvider :: "'w MemoryProvider option"
  ag_skillProvider :: "(RunRequest \<Rightarrow> 'w \<Rightarrow> (AgentError + Skill list) \<times> 'w) option"
  ag_systemPromptProvider :: "(RunRequest \<Rightarrow> 'w \<Rightarrow> (AgentError + PromptBlock list) \<times> 'w) option"
  ag_toolProvider :: "(RunRequest \<Rightarrow> 'w \<Rightarrow> (AgentError + 'w Tool list) \<times> 'w) option"
  ag_contextProjector ::
    "(Message list \<Rightarrow> Budget \<Rightarrow> metadata option \<Rightarrow> 'w
        \<Rightarrow> (AgentError + ContextProjectionResult option) \<times> 'w) option"
  ag_inputGuard :: "(RunID \<Rightarrow> string \<Rightarrow> metadata option \<Rightarrow> PolicyContext \<Rightarrow> 'w \<Rightarrow> AgentError option \<times> 'w) option"
  ag_toolApprover :: "(ToolApprovalRequest \<Rightarrow> 'w \<Rightarrow> ToolApprovalDecision \<times> 'w) option"
  ag_outputFormat :: OutputFormat
  ag_outputValidator ::
    "(RunID \<Rightarrow> string \<Rightarrow> OutputFormat \<Rightarrow> metadata option \<Rightarrow> 'w
        \<Rightarrow> (AgentError + OutputValidationResult option) \<times> 'w) option"
  ag_budgetGuard :: "'w budget_guard option"
  ag_maxOutputTokens :: int
  ag_maxIterations :: int
  ag_libs :: libs
  ag_now :: "'w \<Rightarrow> time"
  ag_sched :: "nat \<Rightarrow> nat list"

text \<open>A run in progress: its state, the tools registered for this run, and the world.\<close>

record 'w run =
  r_state :: RunState
  r_scoped :: "'w Registry"
  r_world :: 'w

datatype outcome = Done StageResult | Failed AgentError | Crashed

type_synonym 'w stage = "'w run \<Rightarrow> outcome \<times> 'w run"

abbreviation on_state :: "(RunState \<Rightarrow> RunState) \<Rightarrow> 'w run \<Rightarrow> 'w run" where
  "on_state f r \<equiv> r\<lparr>r_state := f (r_state r)\<rparr>"

section \<open>The run's tool registry\<close>

definition run_Get :: "'w Registry \<Rightarrow> 'w Registry \<Rightarrow> string \<Rightarrow> 'w Tool option" where
  "run_Get base scoped name = (case registry_Get scoped name of
      Some tool \<Rightarrow> Some tool | None \<Rightarrow> registry_Get base name)"

definition run_MustGet :: "'w Registry \<Rightarrow> 'w Registry \<Rightarrow> string \<Rightarrow> AgentError + 'w Tool" where
  "run_MustGet base scoped name = (case run_Get base scoped name of
      Some tool \<Rightarrow> Inr tool | None \<Rightarrow> Inl (not_registered name))"

definition run_Specs :: "'w Registry \<Rightarrow> 'w Registry \<Rightarrow> ToolSpec list" where
  "run_Specs base scoped =
     (let put = (\<lambda>spec m. AList.update (sp_Name spec) spec m);
          byName = fold put (registry_Specs scoped) (fold put (registry_Specs base) [])
      in sort_by (\<lambda>a b. sp_Name a < sp_Name b) (map snd byName))"

section \<open>Stages before the model call\<close>

definition InputGuardStage :: "'w Agent \<Rightarrow> 'w stage" where
  "InputGuardStage ag r = (case ag_inputGuard ag of
      None \<Rightarrow> (Done StageContinue, r)
    | Some guard \<Rightarrow>
        (let s = r_state r
         in if flag ''agentcore.input_guard.validated'' s then (Done StageContinue, r)
            else (case guard (rs_RunID s) (req_Input (rs_Input s)) (clone_metadata (req_Metadata (rs_Input s)))
                         (checkpoint_policy (req_PolicyContext (rs_Input s))) (r_world r) of
                (Some _, w) \<Rightarrow>
                  (Failed ErrInputRejected, on_state (Emit ''input.rejected'' '''' []) (r\<lparr>r_world := w\<rparr>))
              | (None, w) \<Rightarrow>
                  (Done StageContinue, (r\<lparr>r_world := w\<rparr>)\<lparr>r_state := Emit ''input.validated'' '''' []
                     (s\<lparr>rs_Metadata := Some (AList.update ''agentcore.input_guard.validated'' (VBool True)
                          (metadata_of (rs_Metadata s)))\<rparr>)\<rparr>))))"

definition memoryStateMessages :: "MemoryMessage list \<Rightarrow> Message list" where
  "memoryStateMessages messages =
     map (\<lambda>m. text_message (mm_Role m) (mm_Content m)) (filter (\<lambda>m. mm_Role m \<noteq> ''tool'') messages)"

definition memoryMessages :: "Message list \<Rightarrow> MemoryMessage list" where
  "memoryMessages messages = map (\<lambda>m. \<lparr>mm_Role = msg_Role m, mm_Content = msg_Content m\<rparr>)
     (filter (\<lambda>m. \<not> (msg_ToolCalls m \<noteq> [] \<or> msg_Role m = ''tool'')) messages)"

text \<open>\<open>state.Metadata[key] = true\<close> as the last step of a stage.\<close>

definition finish_once :: "string \<Rightarrow> (RunState \<Rightarrow> RunState) \<Rightarrow> 'w run \<Rightarrow> outcome \<times> 'w run" where
  "finish_once key after r = (case set_flag key (r_state r) of
      None \<Rightarrow> (Crashed, r)
    | Some s \<Rightarrow> (Done StageContinue, r\<lparr>r_state := after s\<rparr>))"

definition MemoryLoadStage :: "'w Agent \<Rightarrow> 'w stage" where
  "MemoryLoadStage ag r = (case ag_memoryProvider ag of
      None \<Rightarrow> (Done StageContinue, r)
    | Some provider \<Rightarrow>
        (let s = r_state r; session = req_SessionID (rs_Input s)
         in if session = '''' \<or> flag ''agentcore.memory.loaded'' s then (Done StageContinue, r)
            else (case mem_Load provider session (r_world r) of
                (Inl err, w) \<Rightarrow> (Failed err, r\<lparr>r_world := w\<rparr>)
              | (Inr loaded, w) \<Rightarrow>
                  finish_once ''agentcore.memory.loaded''
                    (Emit ''memory.loaded'' '''' [(''session_id'', VStr session),
                       (''message_count'', VInt (int (length loaded)))])
                    (r\<lparr>r_world := w, r_state := s\<lparr>rs_Messages :=
                       memoryStateMessages loaded @ rs_Messages s\<rparr>\<rparr>))))"

definition ContextStage :: "'w stage" where
  "ContextStage r =
     (let s = r_state r
      in if req_Input (rs_Input s) = '''' \<or> flag ''agentcore.context.input_added'' s
         then (Done StageContinue, r)
         else finish_once ''agentcore.context.input_added'' (\<lambda>s. s)
                (r\<lparr>r_state := s\<lparr>rs_Messages := rs_Messages s
                   @ [text_message ''user'' (req_Input (rs_Input s))]\<rparr>\<rparr>))"

definition SystemPromptStage :: "'w Agent \<Rightarrow> 'w stage" where
  "SystemPromptStage ag r = (case ag_systemPromptProvider ag of
      None \<Rightarrow> (Done StageContinue, r)
    | Some provider \<Rightarrow>
        (let s = r_state r
         in if flag ''agentcore.system_prompt.loaded'' s then (Done StageContinue, r)
            else (case provider (rs_Input s) (r_world r) of
                (Inl err, w) \<Rightarrow> (Failed err, r\<lparr>r_world := w\<rparr>)
              | (Inr blocks, w) \<Rightarrow>
                  finish_once ''agentcore.system_prompt.loaded'' (\<lambda>s. s)
                    (r\<lparr>r_world := w, r_state := s\<lparr>rs_PromptBlocks := rs_PromptBlocks s @ blocks\<rparr>\<rparr>))))"

definition renderSkill :: "Skill \<Rightarrow> string" where
  "renderSkill skill = string_join [CHR 0x0A]
     ((if sk_Name skill \<noteq> '''' then [''Skill: '' @ sk_Name skill] else [])
      @ (if sk_Description skill \<noteq> '''' then [''Description: '' @ sk_Description skill] else [])
      @ [sk_Content skill])"

definition skillPromptBlock :: "Skill \<Rightarrow> PromptBlock" where
  "skillPromptBlock skill =
     \<lparr>pb_Name = ''skill:'' @ sk_Name skill,
      pb_Mode = (if sk_Cacheable skill then ''cacheable'' else ''dynamic''),
      pb_Priority = sk_Priority skill, pb_Content = renderSkill skill\<rparr>"

definition SkillStage :: "'w Agent \<Rightarrow> 'w stage" where
  "SkillStage ag r = (case ag_skillProvider ag of
      None \<Rightarrow> (Done StageContinue, r)
    | Some provider \<Rightarrow>
        (let s = r_state r
         in if flag ''agentcore.skills.loaded'' s then (Done StageContinue, r)
            else (case provider (rs_Input s) (r_world r) of
                (Inl err, w) \<Rightarrow> (Failed err, r\<lparr>r_world := w\<rparr>)
              | (Inr skills, w) \<Rightarrow>
                  finish_once ''agentcore.skills.loaded'' (\<lambda>s. s)
                    (r\<lparr>r_world := w, r_state := s\<lparr>rs_PromptBlocks := rs_PromptBlocks s
                       @ map skillPromptBlock (filter (\<lambda>skill. sk_Content skill \<noteq> '''') skills)\<rparr>\<rparr>))))"

definition ToolProviderStage :: "'w Agent \<Rightarrow> 'w stage" where
  "ToolProviderStage ag r = (case ag_toolProvider ag of
      None \<Rightarrow> (Done StageContinue, r)
    | Some provider \<Rightarrow>
        (let s = r_state r
         in if flag ''agentcore.tool_provider.loaded'' s then (Done StageContinue, r)
            else (case provider (rs_Input s) (r_world r) of
                (Inl err, w) \<Rightarrow> (Failed err, r\<lparr>r_world := w\<rparr>)
              | (Inr provided, w) \<Rightarrow>
                  finish_once ''agentcore.tool_provider.loaded'' (\<lambda>s. s)
                    (r\<lparr>r_world := w, r_scoped := fold Register provided (r_scoped r)\<rparr>))))"

definition OutputFormat_IsZero :: "OutputFormat \<Rightarrow> bool" where
  "OutputFormat_IsZero f \<longleftrightarrow> TrimSpace (of_Name f) = '''' \<and> TrimSpace (of_Description f) = ''''
     \<and> TrimSpace (of_Instructions f) = '''' \<and> of_JSONSchema f = ''''"

definition promptContent :: "OutputFormat \<Rightarrow> string" where
  "promptContent f = string_join [CHR 0x0A]
     ([''Output format:'']
      @ (if TrimSpace (of_Name f) \<noteq> '''' then [''name: '' @ TrimSpace (of_Name f)] else [])
      @ (if TrimSpace (of_Description f) \<noteq> '''' then [''description: '' @ TrimSpace (of_Description f)] else [])
      @ (if TrimSpace (of_Instructions f) \<noteq> '''' then [TrimSpace (of_Instructions f)] else [])
      @ (if of_JSONSchema f \<noteq> ''''
         then [''Return the final answer as JSON matching this JSON Schema. Do not wrap the JSON in Markdown fences.'',
               of_JSONSchema f] else []))"

definition OutputFormatStage :: "'w Agent \<Rightarrow> 'w stage" where
  "OutputFormatStage ag r =
     (let s = r_state r; f = ag_outputFormat ag
      in if OutputFormat_IsZero f \<or> flag ''agentcore.output_format.loaded'' s then (Done StageContinue, r)
         else (let content = promptContent f;
                   s = (if content \<noteq> '''' then s\<lparr>rs_PromptBlocks := rs_PromptBlocks s
                          @ [\<lparr>pb_Name = ''agentcore.output_format'', pb_Mode = ''dynamic'',
                              pb_Priority = 1000, pb_Content = content\<rparr>]\<rparr> else s)
               in finish_once ''agentcore.output_format.loaded'' (\<lambda>s. s) (r\<lparr>r_state := s\<rparr>)))"

definition PromptStage :: "'w Agent \<Rightarrow> 'w stage" where
  "PromptStage ag r =
     (let s = r_state r
      in case (rs_CompiledPrompt s, ag_promptCompiler ag) of
           (None, Some compile) \<Rightarrow>
             (case compile (ag_promptBlocks ag @ rs_PromptBlocks s) (r_world r) of
                (Inl err, w) \<Rightarrow> (Failed err, r\<lparr>r_world := w\<rparr>)
              | (Inr compiled, w) \<Rightarrow>
                  (Done StageContinue, r\<lparr>r_world := w, r_state := s\<lparr>rs_CompiledPrompt := compiled\<rparr>\<rparr>))
         | _ \<Rightarrow> (Done StageContinue, r))"

definition budgetFromGuard :: "'w budget_guard option \<Rightarrow> Budget" where
  "budgetFromGuard guard = (case guard of
      Some (BuiltinGuard budget) \<Rightarrow> budget
    | _ \<Rightarrow> \<lparr>bd_MaxInputTokens = 0, bd_MaxOutputTokens = 0, bd_MaxTotalTokens = 0\<rparr>)"

definition ContextProjectionStage :: "'w Agent \<Rightarrow> 'w stage" where
  "ContextProjectionStage ag r = (case ag_contextProjector ag of
      None \<Rightarrow> (Done StageContinue, on_state (\<lambda>s. s\<lparr>rs_ContextProjection := None\<rparr>) r)
    | Some project \<Rightarrow>
        (let s = r_state r
         in case project (rs_Messages s) (budgetFromGuard (ag_budgetGuard ag)) (clone_metadata (rs_Metadata s))
                   (r_world r) of
              (Inl err, w) \<Rightarrow> (Failed err, r\<lparr>r_world := w\<rparr>)
            | (Inr projected, w) \<Rightarrow>
                (Done StageContinue, r\<lparr>r_world := w, r_state := s\<lparr>rs_ContextProjection :=
                   map_option (\<lambda>p. \<lparr>cpr_Messages = cpr_Messages p, cpr_Metadata = clone_metadata (cpr_Metadata p)\<rparr>)
                     projected\<rparr>\<rparr>)))"

section \<open>The model call\<close>

definition chatMessages :: "RunState \<Rightarrow> Message list" where
  "chatMessages s =
     (let source = (case rs_ContextProjection s of None \<Rightarrow> rs_Messages s | Some p \<Rightarrow> cpr_Messages p)
      in (case rs_CompiledPrompt s of
            Some p \<Rightarrow> if cp_Content p \<noteq> '''' then [text_message ''system'' (cp_Content p)] else []
          | None \<Rightarrow> []) @ source)"

definition chatToolSpecs :: "'w Registry \<Rightarrow> 'w Registry \<Rightarrow> ToolSpec list" where
  "chatToolSpecs base scoped =
     map (\<lambda>spec. spec\<lparr>sp_ExecutionMode := '''', sp_Timeout := 0\<rparr>) (run_Specs base scoped)"

definition rejectToolCall :: "'w Registry \<Rightarrow> 'w Registry \<Rightarrow> ToolCall \<Rightarrow> string" where
  "rejectToolCall base scoped call = (case run_Get base scoped (call_Name call) of
      None \<Rightarrow> ''Tool '' @ go_quote (call_Name call) @ '' is not available. Available tools: ''
        @ string_join '', '' (map sp_Name (run_Specs base scoped)) @ ''. Use one of them or answer directly.''
    | Some tool \<Rightarrow> (case ValidateInput (sp_Schema (tl_Spec tool)) (call_Input call) of
        None \<Rightarrow> ''''
      | Some err \<Rightarrow>
          if errors_Is err ErrToolSchemaInvalid then ''''
          else ''Tool '' @ call_Name call @ '' returned a recoverable error: '' @ Error err
               @ ''. Correct the arguments and try again.''))"

definition record_response :: "ChatResponse \<Rightarrow> RunState \<Rightarrow> RunState" where
  "record_response resp s = (recordLLMCall s)\<lparr>rs_LastResponse := Some resp,
     rs_Usage := \<lparr>us_InputTokens = us_InputTokens (rs_Usage s) + us_InputTokens (resp_Usage resp),
                  us_OutputTokens = us_OutputTokens (rs_Usage s) + us_OutputTokens (resp_Usage resp)\<rparr>,
     rs_PendingCalls := []\<rparr>"

text \<open>The loop over the calls of the response: rejected ones are answered, the others become pending.\<close>

definition sort_calls :: "(ToolCall \<Rightarrow> string) \<Rightarrow> ToolCall list \<Rightarrow> RunState \<Rightarrow> RunState \<times> Message list" where
  "sort_calls reject calls s =
     fold (\<lambda>call (s, rejected).
       let reason = reject call
       in if reason \<noteq> ''''
          then (Emit ''tool.rejected'' '''' [(''tool'', VStr (call_Name call))] s,
                rejected @ [tool_message reason (call_ID call)])
          else (s\<lparr>rs_PendingCalls := rs_PendingCalls s @ [call]\<rparr>, rejected)) calls (s, [])"

definition append_response :: "ChatResponse \<Rightarrow> Message list \<Rightarrow> RunState \<Rightarrow> RunState" where
  "append_response resp rejected s =
     (if resp_ToolCalls resp \<noteq> [] then
        s\<lparr>rs_Messages := rs_Messages s @ [\<lparr>msg_Role = ''assistant'', msg_Content = resp_Content resp,
             msg_ToolCallID = '''', msg_ToolCalls = resp_ToolCalls resp\<rparr>] @ rejected\<rparr>
      else if resp_Content resp \<noteq> '''' then
        s\<lparr>rs_Messages := rs_Messages s @ [text_message ''assistant'' (resp_Content resp)]\<rparr>
      else s)"

definition ThinkStage :: "'w Agent \<Rightarrow> 'w stage" where
  "ThinkStage ag r =
     (let s = r_state r; base = ag_toolRegistry ag; scoped = r_scoped r
      in case ag_llm ag \<lparr>chat_Messages = chatMessages s, chat_Tools = chatToolSpecs base scoped,
                         chat_MaxOutputTokens = ag_maxOutputTokens ag\<rparr> (r_world r) of
           (Inl err, w) \<Rightarrow> (Failed err, r\<lparr>r_world := w\<rparr>)
         | (Inr resp, w) \<Rightarrow>
             (case sort_calls (rejectToolCall base scoped) (resp_ToolCalls resp) (record_response resp s) of
                (s, rejected) \<Rightarrow>
                  (Done StageContinue, r\<lparr>r_world := w, r_state := append_response resp rejected s\<rparr>)))"

section \<open>Gates\<close>

definition budget_check :: "Budget \<Rightarrow> RunState \<Rightarrow> BudgetDecision" where
  "budget_check b s =
     (let u = rs_Usage s; tot = us_InputTokens u + us_OutputTokens u
      in if bd_MaxInputTokens b > 0 \<and> us_InputTokens u > bd_MaxInputTokens b then
           \<lparr>bdec_Allowed = False, bdec_Reason = ''input tokens '' @ itoa (us_InputTokens u)
              @ '' exceeds max '' @ itoa (bd_MaxInputTokens b)\<rparr>
         else if bd_MaxOutputTokens b > 0 \<and> us_OutputTokens u > bd_MaxOutputTokens b then
           \<lparr>bdec_Allowed = False, bdec_Reason = ''output tokens '' @ itoa (us_OutputTokens u)
              @ '' exceeds max '' @ itoa (bd_MaxOutputTokens b)\<rparr>
         else if bd_MaxTotalTokens b > 0 \<and> tot > bd_MaxTotalTokens b then
           \<lparr>bdec_Allowed = False, bdec_Reason = ''total tokens '' @ itoa tot
              @ '' exceeds max '' @ itoa (bd_MaxTotalTokens b)\<rparr>
         else \<lparr>bdec_Allowed = True, bdec_Reason = ''''\<rparr>)"

definition BudgetStage :: "'w Agent \<Rightarrow> 'w stage" where
  "BudgetStage ag r = (case ag_budgetGuard ag of
      None \<Rightarrow> (Done StageContinue, r)
    | Some guard \<Rightarrow>
        (case (case guard of
                 BuiltinGuard b \<Rightarrow> (budget_check b (r_state r), r_world r)
               | HostGuard check \<Rightarrow> check (r_state r) (r_world r)) of
           (decision, w) \<Rightarrow>
             if bdec_Allowed decision then (Done StageContinue, r\<lparr>r_world := w\<rparr>)
             else (Failed (WrapText ErrBudgetExceeded
                     (if bdec_Reason decision = '''' then ''budget guard denied run'' else bdec_Reason decision)),
                   r\<lparr>r_world := w\<rparr>)))"

definition policy_request :: "'w Agent \<Rightarrow> RunState \<Rightarrow> ToolCall \<Rightarrow> 'w Tool \<Rightarrow> PolicyRequest" where
  "policy_request ag s call tool =
     \<lparr>pr_RunID = lib_uuid_String (ag_libs ag) (rs_RunID s), pr_UserID = req_UserID (rs_Input s),
      pr_SessionID = req_SessionID (rs_Input s), pr_Tool = call_Name call,
      pr_Permission = sp_Permission (tl_Spec tool), pr_Input = call_Input call,
      pr_Allowed = rs_AllowedPermissions s, pr_Context = req_PolicyContext (rs_Input s),
      pr_Metadata = rs_Metadata s\<rparr>"

fun policy_calls ::
  "'w Agent \<Rightarrow> (PolicyRequest \<Rightarrow> 'w \<Rightarrow> PolicyDecision \<times> 'w) \<Rightarrow> ToolCall list \<Rightarrow> 'w stage" where
  "policy_calls ag engine [] r = (Done StageContinue, r)"
| "policy_calls ag engine (call # calls) r =
     (case run_MustGet (ag_toolRegistry ag) (r_scoped r) (call_Name call) of
        Inl err \<Rightarrow> (Failed err, r)
      | Inr tool \<Rightarrow> (case engine (policy_request ag (r_state r) call tool) (r_world r) of
          (decision, w) \<Rightarrow>
            if \<not> pd_Allowed decision then
              (Failed (WrapText ErrPolicyDenied (''tool '' @ go_quote (call_Name call) @ '' denied: ''
                 @ pd_Reason decision)), r\<lparr>r_world := w\<rparr>)
            else policy_calls ag engine calls (r\<lparr>r_world := w\<rparr>)))"

definition PolicyStage :: "'w Agent \<Rightarrow> 'w stage" where
  "PolicyStage ag r = (case ag_policyEngine ag of
      None \<Rightarrow> (Done StageContinue, r)
    | Some engine \<Rightarrow> policy_calls ag engine (rs_PendingCalls (r_state r)) r)"

definition approvalDeniedError :: "string \<Rightarrow> string \<Rightarrow> AgentError" where
  "approvalDeniedError tool reason = WrapText ErrApprovalDenied (''tool '' @ go_quote tool @ '' denied: ''
     @ (if reason = '''' then ''approval denied'' else reason))"

definition approval_metadata :: "nat \<Rightarrow> string \<Rightarrow> string \<Rightarrow> metadata" where
  "approval_metadata i tool reason = [(''index'', VInt (int i)), (''tool'', VStr tool)]
     @ (if reason \<noteq> '''' then [(''reason'', VStr reason)] else [])"

definition approval_request :: "RunState \<Rightarrow> ToolCall \<Rightarrow> ToolApprovalRequest" where
  "approval_request s call = \<lparr>arq_RunID = rs_RunID s, arq_UserID = req_UserID (rs_Input s),
     arq_SessionID = req_SessionID (rs_Input s), arq_Tool = call_Name call,
     arq_Input = call_Input call, arq_Metadata = rs_Metadata s\<rparr>"

fun approval_calls ::
  "(ToolApprovalRequest \<Rightarrow> 'w \<Rightarrow> ToolApprovalDecision \<times> 'w) \<Rightarrow> nat \<Rightarrow> ToolCall list \<Rightarrow> 'w stage" where
  "approval_calls approver i [] r = (Done StageContinue, r)"
| "approval_calls approver i (call # calls) r =
     (let r = on_state (Emit ''approval.requested'' '''' (approval_metadata i (call_Name call) '''')) r
      in case approver (approval_request (r_state r) call) (r_world r) of
           (decision, w) \<Rightarrow>
             (let r = r\<lparr>r_world := w\<rparr>; md = approval_metadata i (call_Name call) (ad_Reason decision)
              in if ad_Pending decision then
                   (Done StageInterrupt, on_state (Emit ''approval.pending'' '''' md) r)
                 else if \<not> ad_Allowed decision then
                   (Failed (approvalDeniedError (call_Name call) (ad_Reason decision)),
                    on_state (Emit ''approval.denied'' '''' md) r)
                 else approval_calls approver (Suc i) calls (on_state (Emit ''approval.completed'' '''' md) r)))"

definition ApprovalStage :: "'w Agent \<Rightarrow> 'w stage" where
  "ApprovalStage ag r = (case ag_toolApprover ag of
      None \<Rightarrow> (Done StageContinue, r)
    | Some approver \<Rightarrow> approval_calls approver 0 (rs_PendingCalls (r_state r)) r)"

definition ResolvedApprovalStage :: "ToolApprovalResolution list \<Rightarrow> 'w stage" where
  "ResolvedApprovalStage resolutions r =
     (let s = r_state r; calls = rs_PendingCalls s
      in case validateApprovalResolutions calls resolutions of
           Inl err \<Rightarrow> (Failed err, r)
         | Inr ordered \<Rightarrow>
             (case List.find (\<lambda>(i, res). \<not> tar_Allowed res) (zip [0..<length ordered] ordered) of
                Some (i, res) \<Rightarrow>
                  (Failed (approvalDeniedError (call_Name (calls ! i)) (tar_Reason res)),
                   on_state (Emit ''approval.denied'' '''' (approval_metadata i (call_Name (calls ! i)) (tar_Reason res))) r)
              | None \<Rightarrow>
                  (Done StageContinue, on_state (fold (\<lambda>(i, res).
                     Emit ''approval.completed'' '''' (approval_metadata i (call_Name (calls ! i)) (tar_Reason res)))
                     (zip [0..<length ordered] ordered)) r)))"

section \<open>Acting and observing\<close>

definition result_metadata :: "ToolExecution \<Rightarrow> metadata" where
  "result_metadata e = [(''index'', VInt (int (te_Index e))), (''tool'', VStr (call_Name (te_Call e)))]
     @ (case te_Result e of
          None \<Rightarrow> []
        | Some result \<Rightarrow> (if tr_Ref result \<noteq> '''' then [(''ref'', VStr (tr_Ref result))] else [])
            @ [(''is_error'', VBool (tr_IsError result))])"

definition emit_calls :: "string \<Rightarrow> ToolCall list \<Rightarrow> RunState \<Rightarrow> RunState" where
  "emit_calls type' calls s = fold (\<lambda>call. Emit type' '''' [(''tool'', VStr (call_Name call))]) calls s"

definition ActStage :: "'w Agent \<Rightarrow> 'w stage" where
  "ActStage ag r =
     (let s = r_state r; calls = rs_PendingCalls s
      in if calls = [] then (Done StageContinue, r)
         else
           (let s = emit_calls ''tool.started'' calls s
            in case Execute (ag_sched ag) (run_MustGet (ag_toolRegistry ag) (r_scoped r)) calls
                      \<lparr>env_UserID = req_UserID (rs_Input s), env_SessionID = req_SessionID (rs_Input s),
                       env_Metadata = rs_Metadata s\<rparr> (r_world r) of
                 (Inl err, md, w) \<Rightarrow>
                   (Failed err, r\<lparr>r_world := w, r_state :=
                      emit_calls ''tool.failed'' calls (s\<lparr>rs_Metadata := md\<rparr>)\<rparr>)
               | (Inr results, md, w) \<Rightarrow>
                   (Done StageContinue, r\<lparr>r_world := w, r_state :=
                      (recordToolResults results
                        (fold (\<lambda>e. Emit ''tool.completed'' '''' (result_metadata e)) results
                          (s\<lparr>rs_Metadata := md\<rparr>)))\<lparr>rs_ToolResults := results\<rparr>\<rparr>)))"

definition observation :: "ToolExecution \<Rightarrow> Message" where
  "observation e =
     (let name = call_Name (te_Call e);
          content = (case te_Result e of
              Some result \<Rightarrow>
                if tr_Silent result then ''Tool '' @ name @ '' completed.''
                else if tr_IsError result
                then ''Tool '' @ name @ '' returned a recoverable error: '' @ tr_ForLLM result
                     @ ''. Correct the arguments and try again.''
                else tr_ForLLM result
            | None \<Rightarrow> ''Tool '' @ name @ '' completed.'')
      in tool_message content (call_ID (te_Call e)))"

definition ObserveStage :: "'w stage" where
  "ObserveStage r =
     (let s = r_state r;
          rejectedOnly = (case rs_LastResponse s of
              Some resp \<Rightarrow> resp_ToolCalls resp \<noteq> [] \<and> rs_PendingCalls s = [] | None \<Rightarrow> False)
      in if rs_ToolResults s = [] \<and> \<not> rejectedOnly then (Done StageContinue, r)
         else (Done StageContinue, r\<lparr>r_state := s\<lparr>
                 rs_Messages := rs_Messages s @ map observation (rs_ToolResults s),
                 rs_ToolResults := [], rs_PendingCalls := [], rs_Iteration := rs_Iteration s + 1\<rparr>\<rparr>))"

section \<open>Finalizing\<close>

definition outputInvalidError :: "AgentError \<Rightarrow> AgentError" where
  "outputInvalidError err = (if errors_Is err ErrOutputInvalid then err else Wrap2 ErrOutputInvalid err)"

definition mergeOutputMetadata :: "metadata option \<Rightarrow> metadata option \<Rightarrow> metadata option" where
  "mergeOutputMetadata base next' =
     (if metadata_of next' = [] then base else Some (map_write_all (metadata_of base) (metadata_of next')))"

definition validateJSONOutput :: "libs \<Rightarrow> OutputFormat \<Rightarrow> string \<Rightarrow> AgentError + OutputValidationResult" where
  "validateJSONOutput L format content =
     (let raw = TrimSpace content
      in if raw = '''' then Inl (outputInvalidError (ErrText ''empty final output''))
         else if \<not> lib_json_Valid L raw
         then Inl (outputInvalidError (ErrText ''final output is not valid JSON''))
         else (case lib_json_Schema L (of_JSONSchema format) raw of
             Some err \<Rightarrow> Inl (outputInvalidError err)
           | None \<Rightarrow> Inr \<lparr>ov_Structured = raw, ov_Metadata = Some [(''output_format'', VStr (of_Name format)),
               (''schema'', VStr ''json'')]\<rparr>))"

definition validateFinalOutput ::
  "'w Agent \<Rightarrow> RunState \<Rightarrow> string \<Rightarrow> 'w \<Rightarrow> (AgentError + string \<times> metadata option) \<times> 'w" where
  "validateFinalOutput ag s content w =
     (let format = ag_outputFormat ag
      in case (if of_JSONSchema format \<noteq> '''' then
                 (case validateJSONOutput (ag_libs ag) format content of
                    Inl err \<Rightarrow> Inl err
                  | Inr result \<Rightarrow> Inr (ov_Structured result, mergeOutputMetadata None (ov_Metadata result)))
               else Inr ('''', None)) of
           Inl err \<Rightarrow> (Inl err, w)
         | Inr (structured, metadata) \<Rightarrow>
             (case ag_outputValidator ag of
                None \<Rightarrow> (Inr (structured, metadata), w)
              | Some check \<Rightarrow>
                  (case check (rs_RunID s) content format (clone_metadata (rs_Metadata s)) w of
                     (Inl err, w) \<Rightarrow> (Inl (outputInvalidError err), w)
                   | (Inr None, w) \<Rightarrow> (Inr (structured, metadata), w)
                   | (Inr (Some result), w) \<Rightarrow>
                       (Inr (if ov_Structured result \<noteq> '''' then ov_Structured result else structured,
                             mergeOutputMetadata metadata (ov_Metadata result)), w))))"

definition ready_to_finalize :: "RunState \<Rightarrow> ChatResponse option" where
  "ready_to_finalize s = (case rs_LastResponse s of
      None \<Rightarrow> None
    | Some resp \<Rightarrow>
        if resp_Content resp = '''' \<or> resp_ToolCalls resp \<noteq> [] \<or> rs_PendingCalls s \<noteq> []
           \<or> rs_ToolResults s \<noteq> [] then None else Some resp)"

definition FinalizeStage :: "'w Agent \<Rightarrow> 'w stage" where
  "FinalizeStage ag r =
     (let s = r_state r
      in case ready_to_finalize s of
           None \<Rightarrow> (Done StageContinue, r)
         | Some resp \<Rightarrow>
             (case validateFinalOutput ag s (resp_Content resp) (r_world r) of
                (Inl err, w) \<Rightarrow> (Failed err, r\<lparr>r_world := w\<rparr>)
              | (Inr (structured, metadata), w) \<Rightarrow>
                  (let s = s\<lparr>rs_Final := Some
                         \<lparr>rr_RunID = rs_RunID s, rr_Content = resp_Content resp,
                          rr_StructuredOutput = structured, rr_OutputMetadata = metadata,
                          rr_Usage = rs_Usage s, rr_ExecutionSummary = executionSummary '''' (ag_now ag w) s,
                          rr_Interruption = None\<rparr>\<rparr>;
                       md = (if of_Name (ag_outputFormat ag) \<noteq> ''''
                             then [(''output_format'', VStr (of_Name (ag_outputFormat ag)))] else [])
                            @ (if structured \<noteq> '''' then [(''structured'', VBool True)] else []);
                       s = (if structured \<noteq> '''' \<or> metadata_of metadata \<noteq> []
                            then Emit ''output.validated'' '''' md s else s)
                   in (Done StageBreak, r\<lparr>r_world := w, r_state := s\<rparr>))))"

section \<open>Pipelines and the ReAct loop\<close>

fun Pipeline_Run :: "(string \<times> 'w stage) list \<Rightarrow> 'w stage" where
  "Pipeline_Run [] r = (Done StageContinue, r)"
| "Pipeline_Run ((name, stage) # stages) r =
     (case stage (on_state (Emit ''stage.started'' name []) r) of
        (Crashed, r) \<Rightarrow> (Crashed, r)
      | (Failed err, r) \<Rightarrow> (Failed err, on_state (Emit ''stage.failed'' name []) r)
      | (Done result, r) \<Rightarrow>
          (let r = on_state (Emit ''stage.completed'' name []) r
           in if result \<noteq> StageContinue then (Done result, r) else Pipeline_Run stages r))"

definition think_stages :: "'w Agent \<Rightarrow> (string \<times> 'w stage) list" where
  "think_stages ag =
     [(''input_guard'', InputGuardStage ag), (''memory_load'', MemoryLoadStage ag),
      (''context'', ContextStage), (''system_prompt'', SystemPromptStage ag),
      (''skills'', SkillStage ag), (''tool_provider'', ToolProviderStage ag),
      (''output_format'', OutputFormatStage ag), (''prompt'', PromptStage ag),
      (''context_projection'', ContextProjectionStage ag), (''think'', ThinkStage ag),
      (''budget'', BudgetStage ag)]"

definition act_stages :: "'w Agent \<Rightarrow> (string \<times> 'w stage) list" where
  "act_stages ag =
     [(''policy'', PolicyStage ag), (''approval'', ApprovalStage ag), (''act'', ActStage ag),
      (''observe'', ObserveStage), (''finalize'', FinalizeStage ag)]"

definition saveMemory :: "'w Agent \<Rightarrow> 'w run \<Rightarrow> AgentError option \<times> 'w run" where
  "saveMemory ag r = (case ag_memoryProvider ag of
      None \<Rightarrow> (None, r)
    | Some provider \<Rightarrow>
        (let s = r_state r; session = req_SessionID (rs_Input s)
         in if session = '''' \<or> rs_Final s = None then (None, r)
            else (let messages = memoryMessages (rs_Messages s)
                  in case mem_Save provider session messages (r_world r) of
                       (Some err, w) \<Rightarrow> (Some err, r\<lparr>r_world := w\<rparr>)
                     | (None, w) \<Rightarrow> (None, on_state (Emit ''memory.saved'' '''' [(''session_id'', VStr session),
                         (''message_count'', VInt (int (length messages)))]) (r\<lparr>r_world := w\<rparr>)))))"

text \<open>The loop of \<open>ReActRunner.Run\<close>, on the number of iterations left.\<close>

fun react_loop :: "'w Agent \<Rightarrow> nat \<Rightarrow> 'w stage" where
  "react_loop ag 0 r = (Failed ErrMaxIterations, r)"
| "react_loop ag (Suc n) r =
     (case Pipeline_Run (think_stages ag @ act_stages ag) r of
        (Done StageContinue, r) \<Rightarrow> react_loop ag n r
      | (Done StageBreak, r) \<Rightarrow> (case saveMemory ag r of
          (Some err, r) \<Rightarrow> (Failed err, r)
        | (None, r) \<Rightarrow> (Done StageBreak, on_state (Emit ''finalized'' '''' []) r))
      | other \<Rightarrow> other)"

definition max_iterations :: "'w Agent \<Rightarrow> int" where
  "max_iterations ag = (if ag_maxIterations ag \<le> 0 then 8 else ag_maxIterations ag)"

definition ReActRunner_Run :: "'w Agent \<Rightarrow> 'w stage" where
  "ReActRunner_Run ag r = react_loop ag (nat (max_iterations ag - rs_Iteration (r_state r))) r"

section \<open>Agents\<close>

text \<open>The result of a call: an optional run result and an optional error; \<open>None\<close> is a crash.\<close>

type_synonym agent_result = "(RunResult option \<times> AgentError option) option"

definition runErrorResult :: "'w Agent \<Rightarrow> bool \<Rightarrow> AgentError \<Rightarrow> 'w run \<Rightarrow> RunResult option \<times> AgentError option" where
  "runErrorResult ag detailed err r =
     (let s = r_state r
      in (if detailed then Some \<lparr>rr_RunID = rs_RunID s, rr_Content = '''', rr_StructuredOutput = '''',
             rr_OutputMetadata = None, rr_Usage = rs_Usage s,
             rr_ExecutionSummary = executionSummary (Error err) (ag_now ag (r_world r)) s,
             rr_Interruption = None\<rparr> else None, Some err))"

definition pendingRunResult :: "'w Agent \<Rightarrow> bool \<Rightarrow> 'w run \<Rightarrow> RunResult option \<times> AgentError option" where
  "pendingRunResult ag detailed r =
     (let s = r_state r
      in case checkpointFromState (ag_libs ag) s of
           Inl err \<Rightarrow> runErrorResult ag detailed err r
         | Inr checkpoint \<Rightarrow>
             (if detailed then Some \<lparr>rr_RunID = rs_RunID s, rr_Content = '''', rr_StructuredOutput = '''',
                rr_OutputMetadata = None, rr_Usage = rs_Usage s,
                rr_ExecutionSummary = executionSummary (Error ErrApprovalPending) (ag_now ag (r_world r)) s,
                rr_Interruption = Some checkpoint\<rparr> else None, Some ErrApprovalPending))"

definition finish_run :: "'w Agent \<Rightarrow> bool \<Rightarrow> outcome \<times> 'w run \<Rightarrow> agent_result \<times> 'w run" where
  "finish_run ag detailed out = (case out of
      (Crashed, r) \<Rightarrow> (None, r)
    | (Failed err, r) \<Rightarrow> (Some (runErrorResult ag detailed err r), r)
    | (Done StageInterrupt, r) \<Rightarrow> (Some (pendingRunResult ag detailed r), r)
    | (Done _, r) \<Rightarrow> (Some (rs_Final (r_state r), None), r))"

text \<open>\<open>newID\<close> is the value of \<open>NewRunID()\<close>.\<close>

definition Agent_run :: "'w Agent \<Rightarrow> RunID \<Rightarrow> RunRequest \<Rightarrow> bool \<Rightarrow> 'w \<Rightarrow> agent_result \<times> 'w run" where
  "Agent_run ag newID req detailed w =
     (let runID = (if req_RunID req = 0 then newID else req_RunID req)
      in finish_run ag detailed (ReActRunner_Run ag
           \<lparr>r_state = NewRunState runID req (ag_now ag w), r_scoped = NewRegistry, r_world = w\<rparr>))"

definition resume_stages :: "'w Agent \<Rightarrow> ToolApprovalResolution list \<Rightarrow> (string \<times> 'w stage) list" where
  "resume_stages ag resolutions =
     [(''policy'', PolicyStage ag), (''approval_resume'', ResolvedApprovalStage resolutions),
      (''act'', ActStage ag), (''observe'', ObserveStage)]"

definition rehydrateToolProvider :: "'w Agent \<Rightarrow> 'w run \<Rightarrow> AgentError option \<times> 'w run" where
  "rehydrateToolProvider ag r = (case ag_toolProvider ag of
      None \<Rightarrow> (None, r)
    | Some provider \<Rightarrow> (case provider (rs_Input (r_state r)) (r_world r) of
        (Inl err, w) \<Rightarrow> (Some err, r\<lparr>r_world := w\<rparr>)
      | (Inr provided, w) \<Rightarrow>
          (None, r\<lparr>r_world := w, r_scoped := fold Register provided (r_scoped r)\<rparr>)))"

definition Agent_resume ::
  "'w Agent \<Rightarrow> RunCheckpoint \<Rightarrow> ToolApprovalResolution list \<Rightarrow> bool \<Rightarrow> 'w \<Rightarrow> agent_result \<times> 'w run option" where
  "Agent_resume ag checkpoint resolutions detailed w =
     (case restore (ag_libs ag) checkpoint of
        Inl err \<Rightarrow> (Some (None, Some err), None)
      | Inr s \<Rightarrow>
          (let r = \<lparr>r_state = s, r_scoped = NewRegistry, r_world = w\<rparr>
           in case validateApprovalResolutions (rs_PendingCalls s) resolutions of
                Inl err \<Rightarrow> (Some (runErrorResult ag detailed err r), Some r)
              | Inr _ \<Rightarrow> (case rehydrateToolProvider ag r of
                  (Some err, r) \<Rightarrow> (Some (runErrorResult ag detailed err r), Some r)
                | (None, r) \<Rightarrow>
                    (case Pipeline_Run (resume_stages ag resolutions) r of
                       (Crashed, r) \<Rightarrow> (None, Some r)
                     | (Failed err, r) \<Rightarrow> (Some (runErrorResult ag detailed err r), Some r)
                     | (Done result, r) \<Rightarrow>
                         if result \<noteq> StageContinue
                         then (Some (runErrorResult ag detailed (ErrText ''resumed approval did not continue'') r), Some r)
                         else map_prod id Some (finish_run ag detailed (ReActRunner_Run ag r))))))"

end
