(* ===== verification/Agent_Laws.thy ===== *)
theory Agent_Laws
  imports Agent_Core
begin

text \<open>
  Properties of agent runs: which calls reach a tool, how often the model is called, that every
  tool call of the model is answered, and what the input guard screens. A small calculus of
  stages (pre- and postconditions over the outcome and the run) carries the proofs through the
  pipeline.
\<close>

section \<open>A calculus of stages\<close>

definition hoare :: "('w run \<Rightarrow> bool) \<Rightarrow> 'w stage \<Rightarrow> (outcome \<Rightarrow> 'w run \<Rightarrow> bool) \<Rightarrow> bool" where
  "hoare P stage Q \<longleftrightarrow> (\<forall>r. P r \<longrightarrow> Q (fst (stage r)) (snd (stage r)))"

text \<open>Assertions that do not look at the events.\<close>

definition quiet :: "('w run \<Rightarrow> bool) \<Rightarrow> bool" where
  "quiet P \<longleftrightarrow> (\<forall>r type' name md. P (on_state (Emit type' name md) r) = P r)"

lemma hoareI: "(\<And>r. P r \<Longrightarrow> Q (fst (stage r)) (snd (stage r))) \<Longrightarrow> hoare P stage Q"
  by (simp add: hoare_def)

lemma hoareD: "hoare P stage Q \<Longrightarrow> P r \<Longrightarrow> stage r = (out, r') \<Longrightarrow> Q out r'"
  by (force simp: hoare_def)

lemma hoare_weaken:
  "hoare P stage Q \<Longrightarrow> (\<And>r. P' r \<Longrightarrow> P r) \<Longrightarrow> (\<And>out r. Q out r \<Longrightarrow> Q' out r) \<Longrightarrow> hoare P' stage Q'"
  by (simp add: hoare_def)

lemma hoare_Nil: "hoare (Q (Done StageContinue)) (Pipeline_Run []) Q"
  by (simp add: hoare_def)

lemma hoare_Cons:
  assumes "hoare P stage (\<lambda>out r. if out = Done StageContinue then M r else Q out r)"
    and "hoare M (Pipeline_Run stages) Q" and "quiet P" and "quiet M" and "\<And>out. quiet (Q out)"
  shows "hoare P (Pipeline_Run ((name, stage) # stages)) Q"
proof (rule hoareI)
  fix r :: "'a run"
  let ?r = "on_state (Emit ''stage.started'' name []) r"
  assume "P r"
  with assms(3) have P: "P ?r" by (simp add: quiet_def)
  obtain out r1 where s: "stage ?r = (out, r1)" by fastforce
  have post: "if out = Done StageContinue then M r1 else Q out r1"
    using hoareD [OF assms(1) P s] .
  have m: "M (on_state (Emit ''stage.completed'' name []) r1) = M r1" using assms(4) by (simp add: quiet_def)
  have q: "Q out (on_state (Emit type' name []) r1) = Q out r1" for type' using assms(5) by (simp add: quiet_def)
  show "Q (fst (Pipeline_Run ((name, stage) # stages) r)) (snd (Pipeline_Run ((name, stage) # stages) r))"
  proof (cases "out = Done StageContinue")
    case True
    with s post m assms(2) show ?thesis by (simp add: hoare_def)
  next
    case False
    with s post q show ?thesis by (cases out) (simp_all add: Let_def)
  qed
qed

lemma Pipeline_append:
  "Pipeline_Run (xs @ ys) r = (case Pipeline_Run xs r of
      (Done StageContinue, r) \<Rightarrow> Pipeline_Run ys r | other \<Rightarrow> other)"
proof (induction xs arbitrary: r)
  case (Cons x xs)
  obtain name stage where x: "x = (name, stage)" by fastforce
  show ?case unfolding x
    by (simp add: Cons.IH Let_def split: prod.split outcome.split StageResult.split)
qed simp

lemma hoare_append:
  assumes "hoare P (Pipeline_Run xs) (\<lambda>out r. if out = Done StageContinue then M r else Q out r)"
    and "hoare M (Pipeline_Run ys) Q"
  shows "hoare P (Pipeline_Run (xs @ ys)) Q"
proof (rule hoareI)
  fix r :: "'a run" assume "P r"
  obtain out r1 where s: "Pipeline_Run xs r = (out, r1)" by fastforce
  from hoareD [OF assms(1) \<open>P r\<close> s] assms(2)
  show "Q (fst (Pipeline_Run (xs @ ys) r)) (snd (Pipeline_Run (xs @ ys) r))"
    by (auto simp: Pipeline_append s hoare_def split: outcome.split StageResult.split if_splits)
qed

section \<open>What the stages leave alone\<close>

text \<open>The parts of a run that most stages do not touch.\<close>

definition core :: "'w run \<Rightarrow> Message list \<times> ToolCall list \<times> ToolExecution list \<times> int" where
  "core r = (rs_Messages (r_state r), rs_PendingCalls (r_state r), rs_ToolResults (r_state r),
     sm_LLMCalls (rs_summary (r_state r)))"

lemma Emit_fields [simp]:
  "rs_Messages (Emit t n md s) = rs_Messages s" "rs_PendingCalls (Emit t n md s) = rs_PendingCalls s"
  "rs_ToolResults (Emit t n md s) = rs_ToolResults s" "rs_summary (Emit t n md s) = rs_summary s"
  "rs_Input (Emit t n md s) = rs_Input s" "rs_Metadata (Emit t n md s) = rs_Metadata s"
  "rs_RunID (Emit t n md s) = rs_RunID s" "rs_Iteration (Emit t n md s) = rs_Iteration s"
  "rs_AllowedPermissions (Emit t n md s) = rs_AllowedPermissions s"
  "rs_LastResponse (Emit t n md s) = rs_LastResponse s" "rs_Usage (Emit t n md s) = rs_Usage s"
  "rs_Final (Emit t n md s) = rs_Final s"
  by (simp_all add: Emit_def)


lemma core_Emit [simp]: "core (r\<lparr>r_state := Emit t n md s\<rparr>) = core (r\<lparr>r_state := s\<rparr>)"
  by (simp add: core_def)

lemma quiet_core: "quiet (\<lambda>r. P (core r))"
  by (simp add: quiet_def)

definition frames :: "'w stage \<Rightarrow> bool" where
  "frames stage \<longleftrightarrow> (\<forall>r. core (snd (stage r)) = core r)"

lemma frames_hoare: "frames stage \<Longrightarrow> (\<And>out r. P (core r) \<Longrightarrow> Q out r) \<Longrightarrow> hoare (\<lambda>r. P (core r)) stage Q"
  by (simp add: hoare_def frames_def)

lemma core_world [simp]: "core (r\<lparr>r_world := w\<rparr>) = core r" "core (r\<lparr>r_scoped := sc\<rparr>) = core r"
  by (simp_all add: core_def)




section \<open>Gates\<close>

text \<open>A call passes the gates when its tool exists and the policy allows it.\<close>

definition policy_allows :: "'w Agent \<Rightarrow> (PolicyRequest \<Rightarrow> PolicyDecision) \<Rightarrow> 'w run \<Rightarrow> ToolCall \<Rightarrow> bool" where
  "policy_allows ag decide r call \<longleftrightarrow> (case run_MustGet (ag_toolRegistry ag) (r_scoped r) (call_Name call) of
      Inl _ \<Rightarrow> False | Inr tool \<Rightarrow> pd_Allowed (decide (policy_request ag (r_state r) call tool)))"

definition approver_allows :: "(ToolApprovalRequest \<Rightarrow> ToolApprovalDecision) \<Rightarrow> 'w run \<Rightarrow> ToolCall \<Rightarrow> bool" where
  "approver_allows approve r call \<longleftrightarrow>
     (let d = approve (approval_request (r_state r) call) in ad_Allowed d \<and> \<not> ad_Pending d)"

text \<open>A run without its events.\<close>

definition silent :: "'w run \<Rightarrow> 'w run" where
  "silent r = on_state (\<lambda>s. s\<lparr>rs_Events := []\<rparr>) r"

lemma silent_Emit [simp]: "silent (r\<lparr>r_state := Emit t n md s\<rparr>) = silent (r\<lparr>r_state := s\<rparr>)"
  by (simp add: silent_def Emit_def)

lemma silent_eqD:
  "silent r = silent r' \<Longrightarrow> r_world r = r_world r' \<and> r_scoped r = r_scoped r'
    \<and> core r = core r' \<and> rs_PendingCalls (r_state r) = rs_PendingCalls (r_state r')
    \<and> approval_request (r_state r) = approval_request (r_state r')
    \<and> (\<forall>ag. policy_request ag (r_state r) = policy_request ag (r_state r'))"
  unfolding silent_def core_def approval_request_def policy_request_def fun_eq_iff
  by (cases r; cases r'; cases "r_state r"; cases "r_state r'") simp

lemma allows_silent:
  assumes "silent r = silent r'"
  shows "policy_allows ag decide r = policy_allows ag decide r'" "approver_allows approve r = approver_allows approve r'"
proof -
  from silent_eqD [OF assms] have e: "r_scoped r = r_scoped r'" "policy_request ag (r_state r) = policy_request ag (r_state r')"
    "approval_request (r_state r) = approval_request (r_state r')" by blast+
  show "policy_allows ag decide r = policy_allows ag decide r'" by (rule ext) (simp only: policy_allows_def e)
  show "approver_allows approve r = approver_allows approve r'" by (rule ext) (simp only: approver_allows_def e)
qed

lemma policy_calls_pure:
  "policy_calls ag (\<lambda>req w. (decide req, w)) calls r = (out, r') \<Longrightarrow> r' = r
    \<and> (if \<forall>call \<in> set calls. policy_allows ag decide r call then out = Done StageContinue
       else \<exists>err. out = Failed err)"
proof (induction calls)
  case (Cons call calls)
  then show ?case by (auto simp: policy_allows_def split: sum.splits if_splits)
qed simp

lemma approval_calls_pure:
  "approval_calls (\<lambda>req w. (approve req, w)) i calls r = (out, r') \<Longrightarrow> silent r' = silent r
    \<and> (if \<forall>call \<in> set calls. approver_allows approve r call then out = Done StageContinue
       else (\<exists>err. out = Failed err) \<or> out = Done StageInterrupt)"
proof (induction calls arbitrary: i r)
  case (Cons call calls)
  let ?d = "approve (approval_request (r_state r) call)"
  let ?md = "\<lambda>reason. approval_metadata i (call_Name call) reason"
  let ?q = "on_state (Emit ''approval.requested'' '''' (?md '''')) r"
  let ?r = "on_state (Emit ''approval.completed'' '''' (?md (ad_Reason ?d))) ?q"
  have q: "approval_request (r_state ?q) = approval_request (r_state r)"
    by (simp add: fun_eq_iff approval_request_def)
  have same: "approver_allows approve ?r = approver_allows approve r" by (rule allows_silent(2)) simp
  show ?case
  proof (cases "approver_allows approve r call")
    case True
    with Cons.prems q have "approval_calls (\<lambda>req w. (approve req, w)) (Suc i) calls ?r = (out, r')"
      by (simp add: approver_allows_def Let_def)
    from Cons.IH [OF this] True show ?thesis unfolding same by auto
  next
    case False
    with Cons.prems q show ?thesis by (auto simp: approver_allows_def Let_def split: if_splits)
  qed
qed simp

text \<open>Policies and approvers that only decide.\<close>

definition gated ::
  "'w Agent \<Rightarrow> (PolicyRequest \<Rightarrow> PolicyDecision) \<Rightarrow> (ToolApprovalRequest \<Rightarrow> ToolApprovalDecision) \<Rightarrow> bool" where
  "gated ag decide approve \<longleftrightarrow> ag_policyEngine ag = Some (\<lambda>req w. (decide req, w))
     \<and> ag_toolApprover ag = Some (\<lambda>req w. (approve req, w))"

definition stopped :: "outcome \<Rightarrow> bool" where
  "stopped out \<longleftrightarrow> out = Done StageInterrupt \<or> (\<exists>err. out = Failed err)"

lemma quiet_silent: "quiet (\<lambda>r. silent r = x \<and> C)"
  by (simp add: quiet_def)

lemma stopped_simps [simp]: "\<not> stopped (Done StageContinue)" "stopped (Done StageInterrupt)" "stopped (Failed err)"
  by (simp_all add: stopped_def)

lemma policy_gate:
  assumes "ag_policyEngine ag = Some (\<lambda>req w. (decide req, w))"
  shows "hoare (\<lambda>r. silent r = silent r0) (PolicyStage ag)
    (\<lambda>out r. if out = Done StageContinue then silent r = silent r0
        \<and> (\<forall>call \<in> set (rs_PendingCalls (r_state r0)). policy_allows ag decide r0 call)
      else silent r = silent r0 \<and> stopped out)"
proof (rule hoareI)
  fix r :: "'a run" assume same: "silent r = silent r0"
  then have pending: "rs_PendingCalls (r_state r) = rs_PendingCalls (r_state r0)" by (blast dest: silent_eqD)
  obtain out r' where p: "PolicyStage ag r = (out, r')" by fastforce
  with assms have c: "policy_calls ag (\<lambda>req w. (decide req, w)) (rs_PendingCalls (r_state r)) r = (out, r')"
    by (simp add: PolicyStage_def)
  show "if fst (PolicyStage ag r) = Done StageContinue then silent (snd (PolicyStage ag r)) = silent r0
        \<and> (\<forall>call \<in> set (rs_PendingCalls (r_state r0)). policy_allows ag decide r0 call)
      else silent (snd (PolicyStage ag r)) = silent r0 \<and> stopped (fst (PolicyStage ag r))"
    using policy_calls_pure [OF c] same by (auto simp: p pending allows_silent(1) [OF same] split: if_splits)
qed

lemma approval_gate:
  assumes "ag_toolApprover ag = Some (\<lambda>req w. (approve req, w))"
  shows "hoare (\<lambda>r. silent r = silent r0) (ApprovalStage ag)
    (\<lambda>out r. if out = Done StageContinue then silent r = silent r0
        \<and> (\<forall>call \<in> set (rs_PendingCalls (r_state r0)). approver_allows approve r0 call)
      else silent r = silent r0 \<and> stopped out)"
proof (rule hoareI)
  fix r :: "'a run" assume same: "silent r = silent r0"
  then have pending: "rs_PendingCalls (r_state r) = rs_PendingCalls (r_state r0)" by (blast dest: silent_eqD)
  obtain out r' where p: "ApprovalStage ag r = (out, r')" by fastforce
  with assms have c: "approval_calls (\<lambda>req w. (approve req, w)) 0 (rs_PendingCalls (r_state r)) r = (out, r')"
    by (simp add: ApprovalStage_def)
  show "if fst (ApprovalStage ag r) = Done StageContinue then silent (snd (ApprovalStage ag r)) = silent r0
        \<and> (\<forall>call \<in> set (rs_PendingCalls (r_state r0)). approver_allows approve r0 call)
      else silent (snd (ApprovalStage ag r)) = silent r0 \<and> stopped (fst (ApprovalStage ag r))"
    using approval_calls_pure [OF c] same by (auto simp: p pending allows_silent(2) [OF same] split: if_splits)
qed


lemma resolutions_set: "validateApprovalResolutions calls rs = Inr ordered \<Longrightarrow> set ordered = set rs"
  by (metis resolutions_permute set_mset_mset)

lemma resolution_gate:
  "hoare (\<lambda>r. silent r = silent r0) (ResolvedApprovalStage rs)
    (\<lambda>out r. if out = Done StageContinue then silent r = silent r0
        \<and> (\<exists>ordered. validateApprovalResolutions (rs_PendingCalls (r_state r0)) rs = Inr ordered
             \<and> (\<forall>res \<in> set ordered. tar_Allowed res))
      else silent r = silent r0 \<and> stopped out)"
proof (rule hoareI)
  fix r :: "'a run" assume same: "silent r = silent r0"
  then have pending: "rs_PendingCalls (r_state r) = rs_PendingCalls (r_state r0)" by (blast dest: silent_eqD)
  have emits: "silent (q\<lparr>r_state := fold (\<lambda>(i, res). Emit t n (md i res)) xs s\<rparr>) = silent (q\<lparr>r_state := s\<rparr>)"
    for t n md s and q :: "'a run" and xs :: "(nat \<times> ToolApprovalResolution) list"
    by (induction xs arbitrary: s) (simp_all add: split_beta)
  have ok: "\<forall>res \<in> set ordered. tar_Allowed res"
    if "List.find (\<lambda>(i, res). \<not> tar_Allowed res) (zip [0..<length ordered] ordered) = None" for ordered
    using that by (fastforce simp: find_None_iff in_set_conv_nth set_zip)
  show "if fst (ResolvedApprovalStage rs r) = Done StageContinue then silent (snd (ResolvedApprovalStage rs r)) = silent r0
        \<and> (\<exists>ordered. validateApprovalResolutions (rs_PendingCalls (r_state r0)) rs = Inr ordered
             \<and> (\<forall>res \<in> set ordered. tar_Allowed res))
      else silent (snd (ResolvedApprovalStage rs r)) = silent r0 \<and> stopped (fst (ResolvedApprovalStage rs r))"
    using same ok by (auto simp: ResolvedApprovalStage_def pending Let_def emits split: sum.split option.split)
qed

lemma hoare_False [simp]: "hoare (\<lambda>r. False) stage Q"
  by (simp add: hoare_def)

lemma blocked_pipeline:
  assumes "hoare (\<lambda>r. silent r = silent r0) first (\<lambda>out r. if out = Done StageContinue then silent r = silent r0 \<and> A
      else silent r = silent r0 \<and> stopped out)"
    and "hoare (\<lambda>r. silent r = silent r0) second (\<lambda>out r. if out = Done StageContinue then silent r = silent r0 \<and> B
      else silent r = silent r0 \<and> stopped out)"
    and "\<not> (A \<and> B)"
  shows "hoare (\<lambda>r. silent r = silent r0) (Pipeline_Run ((n1, first) # (n2, second) # stages))
    (\<lambda>out r. silent r = silent r0 \<and> stopped out)"
proof (rule hoare_Cons [OF assms(1)])
  have "hoare (\<lambda>r. silent r = silent r0 \<and> A) second (\<lambda>out r. if out = Done StageContinue then False
      else silent r = silent r0 \<and> stopped out)"
    using assms(2,3) by (auto simp: hoare_def split: if_splits)
  then show "hoare (\<lambda>r. silent r = silent r0 \<and> A) (Pipeline_Run ((n2, second) # stages))
      (\<lambda>out r. silent r = silent r0 \<and> stopped out)"
    by (rule hoare_Cons) (simp_all add: quiet_def)
qed (simp_all add: quiet_def)

text \<open>Property C11. No tool runs without permission. With a policy engine and an approver that only
  decide, if the policy denies one of the pending calls or the approver does not approve it, no
  tool of the batch is executed: nothing but the list of events changes, and the run fails or is
  interrupted for approval. The same holds when a paused run is resumed and the policy denies a
  call, or the resolutions do not match the calls, or one of them is not an approval.
\<close>

theorem no_tool_without_permission:
  assumes "gated ag decide approve"
  shows "((\<exists>call \<in> set (rs_PendingCalls (r_state r)).
          \<not> policy_allows ag decide r call \<or> \<not> approver_allows approve r call)
        \<longrightarrow> silent (snd (Pipeline_Run (act_stages ag) r)) = silent r
          \<and> stopped (fst (Pipeline_Run (act_stages ag) r)))
    \<and> ((\<exists>call \<in> set (rs_PendingCalls (r_state r)). \<not> policy_allows ag decide r call)
          \<or> (\<exists>err. validateApprovalResolutions (rs_PendingCalls (r_state r)) resolutions = Inl err)
          \<or> (\<exists>res \<in> set resolutions. \<not> tar_Allowed res)
        \<longrightarrow> silent (snd (Pipeline_Run (resume_stages ag resolutions) r)) = silent r
          \<and> stopped (fst (Pipeline_Run (resume_stages ag resolutions) r)))"
proof -
  let ?pending = "rs_PendingCalls (r_state r)"
  let ?post = "\<lambda>stages. silent (snd (Pipeline_Run stages r)) = silent r \<and> stopped (fst (Pipeline_Run stages r))"
  from assms have pol: "ag_policyEngine ag = Some (\<lambda>req w. (decide req, w))"
    and apv: "ag_toolApprover ag = Some (\<lambda>req w. (approve req, w))" by (simp_all add: gated_def)
  have act: "?post (act_stages ag)"
    if "\<exists>call \<in> set ?pending. \<not> policy_allows ag decide r call \<or> \<not> approver_allows approve r call"
    unfolding act_stages_def
    by (rule mp [OF spec [OF blocked_pipeline [OF policy_gate [OF pol] approval_gate [OF apv], unfolded hoare_def]]])
      (use that in auto)
  have res: "?post (resume_stages ag resolutions)"
    if "(\<exists>call \<in> set ?pending. \<not> policy_allows ag decide r call)
      \<or> (\<exists>err. validateApprovalResolutions ?pending resolutions = Inl err)
      \<or> (\<exists>res \<in> set resolutions. \<not> tar_Allowed res)"
    unfolding resume_stages_def
    by (rule mp [OF spec [OF blocked_pipeline [OF policy_gate [OF pol] resolution_gate, unfolded hoare_def]]])
      (use that resolutions_set [of ?pending resolutions] in auto)
  from act res show ?thesis by blast
qed

text \<open>An agent over a world that counts the executions of its one tool, which writes.\<close>

definition demo_writer :: "nat Tool" where
  "demo_writer = demo_tool\<lparr>tl_Spec := (tl_Spec demo_tool)\<lparr>sp_Permission := ''write''\<rparr>,
     tl_Execute := (\<lambda>timeout input env w. (Returns (Inr None), env_Metadata env, w + 1))\<rparr>"

definition demo_agent :: "(ChatRequest \<Rightarrow> nat \<Rightarrow> (AgentError + ChatResponse) \<times> nat) \<Rightarrow> nat Agent" where
  "demo_agent llm = \<lparr>ag_llm = llm, ag_promptCompiler = None, ag_promptBlocks = [],
     ag_toolRegistry = Register demo_writer NewRegistry,
     ag_policyEngine = Some (\<lambda>req w. (Decide req, w)), ag_memoryProvider = None, ag_skillProvider = None,
     ag_systemPromptProvider = None, ag_toolProvider = None, ag_contextProjector = None,
     ag_inputGuard = None,
     ag_toolApprover = Some (\<lambda>req w. (\<lparr>ad_Allowed = arq_Input req \<noteq> ''b'', ad_Pending = False, ad_Reason = ''''\<rparr>, w)),
     ag_outputFormat = \<lparr>of_Name = '''', of_Description = '''', of_Instructions = '''', of_JSONSchema = ''''\<rparr>,
     ag_outputValidator = None, ag_budgetGuard = None, ag_maxOutputTokens = 0, ag_maxIterations = 3,
     ag_libs = demo_libs, ag_now = (\<lambda>_. 0), ag_sched = (\<lambda>n. [0..<n])\<rparr>"

definition demo_run :: "ToolCall list \<Rightarrow> nat run" where
  "demo_run calls = \<lparr>r_state = (NewRunState 7 demo_request 0)\<lparr>rs_PendingCalls := calls\<rparr>,
     r_scoped = NewRegistry, r_world = 0\<rparr>"
text \<open>A model that calls the tool once and then answers.\<close>

definition demo_llm :: "ChatRequest \<Rightarrow> nat \<Rightarrow> (AgentError + ChatResponse) \<times> nat" where
  "demo_llm req w =
     (if List.list_ex (\<lambda>m. msg_Role m = ''tool'') (chat_Messages req)
      then (Inr \<lparr>resp_Content = ''done'', resp_ToolCalls = [],
         resp_Usage = \<lparr>us_InputTokens = 2, us_OutputTokens = 1\<rparr>\<rparr>, w)
      else (Inr \<lparr>resp_Content = '''', resp_ToolCalls = [hd demo_calls],
         resp_Usage = \<lparr>us_InputTokens = 2, us_OutputTokens = 1\<rparr>\<rparr>, w))"

text \<open>
  The approver refuses the second of the two calls, so neither runs; with the first alone the
  tool does run.
\<close>

theorem no_tool_without_permission_witness:
  "stopped (fst (Pipeline_Run (act_stages (demo_agent demo_llm)) (demo_run demo_calls)))
    \<and> r_world (snd (Pipeline_Run (act_stages (demo_agent demo_llm)) (demo_run demo_calls))) = 0
    \<and> r_world (snd (Pipeline_Run (act_stages (demo_agent demo_llm)) (demo_run [hd demo_calls]))) = 1"
proof -
  let ?approve = "\<lambda>req. \<lparr>ad_Allowed = arq_Input req \<noteq> ''b'', ad_Pending = False, ad_Reason = ''''\<rparr>"
  have g: "gated (demo_agent demo_llm) Decide ?approve" by (simp add: gated_def demo_agent_def)
  have "\<exists>call \<in> set (rs_PendingCalls (r_state (demo_run demo_calls))).
      \<not> policy_allows (demo_agent demo_llm) Decide (demo_run demo_calls) call
      \<or> \<not> approver_allows ?approve (demo_run demo_calls) call"
    by (simp add: demo_run_def demo_calls_def approver_allows_def approval_request_def)
  with no_tool_without_permission [OF g, of "demo_run demo_calls" "[]"]
  have "silent (snd (Pipeline_Run (act_stages (demo_agent demo_llm)) (demo_run demo_calls))) = silent (demo_run demo_calls)
      \<and> stopped (fst (Pipeline_Run (act_stages (demo_agent demo_llm)) (demo_run demo_calls)))" by blast
  moreover have "r_world (demo_run demo_calls) = 0" by (simp add: demo_run_def)
  moreover have "r_world (snd (Pipeline_Run (act_stages (demo_agent demo_llm)) (demo_run [hd demo_calls]))) = 1"
    by code_simp
  ultimately show ?thesis by (auto dest: silent_eqD)
qed


section \<open>Conversations\<close>

text \<open>
  Providers refuse a conversation in which a tool call is not answered before the next message
  that is no tool reply, or in which a reply answers no open call. \<open>open_calls\<close> gives the calls
  still open at the end of a conversation, and \<open>None\<close> when it is refused.
\<close>

fun open_calls :: "string multiset \<Rightarrow> Message list \<Rightarrow> string multiset option" where
  "open_calls ids [] = Some ids"
| "open_calls ids (m # ms) =
     (if msg_Role m = ''tool'' then
        (if msg_ToolCallID m \<in># ids then open_calls (ids - {#msg_ToolCallID m#}) ms else None)
      else if ids = {#} then open_calls (mset (map call_ID (msg_ToolCalls m))) ms else None)"




text \<open>The open calls of the conversation are the pending ones; \<open>k\<close> bounds the model calls made.\<close>

fun conversing :: "int \<Rightarrow> Message list \<times> ToolCall list \<times> ToolExecution list \<times> int \<Rightarrow> bool" where
  "conversing k (msgs, pending, results, llm) \<longleftrightarrow>
     open_calls {#} msgs = Some (mset (map call_ID pending)) \<and> results = [] \<and> llm \<le> k"

fun settled :: "int \<Rightarrow> Message list \<times> ToolCall list \<times> ToolExecution list \<times> int \<Rightarrow> bool" where
  "settled k (msgs, pending, results, llm) \<longleftrightarrow> pending = [] \<and> conversing k (msgs, pending, results, llm)"












lemma fold_Emit_fields [simp]:
  "rs_Messages (emit_calls t calls s) = rs_Messages s" "rs_PendingCalls (emit_calls t calls s) = rs_PendingCalls s"
  "rs_ToolResults (emit_calls t calls s) = rs_ToolResults s" "rs_summary (emit_calls t calls s) = rs_summary s"
  "rs_Usage (emit_calls t calls s) = rs_Usage s" "rs_Final (emit_calls t calls s) = rs_Final s"
  by (induction calls arbitrary: s) (simp_all add: emit_calls_def)

lemma fold_completed_fields [simp]:
  "rs_Messages (fold (\<lambda>e. Emit t n (md e)) es s) = rs_Messages s"
  "rs_PendingCalls (fold (\<lambda>e. Emit t n (md e)) es s) = rs_PendingCalls s"
  "rs_summary (fold (\<lambda>e. Emit t n (md e)) es s) = rs_summary s"
  "rs_Usage (fold (\<lambda>e. Emit t n (md e)) es s) = rs_Usage s"
  "rs_Final (fold (\<lambda>e. Emit t n (md e)) es s) = rs_Final s"
  by (induction es arbitrary: s) simp_all

lemma recordToolResults_fields [simp]:
  "rs_Messages (recordToolResults es s) = rs_Messages s"
  "rs_PendingCalls (recordToolResults es s) = rs_PendingCalls s"
  "sm_LLMCalls (rs_summary (recordToolResults es s)) = sm_LLMCalls (rs_summary s)"
  "rs_Usage (recordToolResults es s) = rs_Usage s" "rs_Final (recordToolResults es s) = rs_Final s"
  by (induction es arbitrary: s) (simp_all add: recordToolResults_def recordToolResult_def Let_def)




text \<open>Stages that end a pass only by failing, crashing or interrupting.\<close>

definition unfinished :: "outcome \<Rightarrow> bool" where
  "unfinished out \<longleftrightarrow> stopped out \<or> out = Crashed"

definition halts_only :: "'w stage \<Rightarrow> bool" where
  "halts_only stage \<longleftrightarrow> (\<forall>r. fst (stage r) = Done StageContinue \<or> unfinished (fst (stage r)))"

lemma unfinished_simps [simp]:
  "unfinished (Failed err)" "unfinished Crashed" "unfinished (Done StageInterrupt)"
  "\<not> unfinished (Done StageContinue)" "\<not> unfinished (Done StageBreak)" "\<not> unfinished (Done StageAbort)"
  by (simp_all add: unfinished_def stopped_def)

lemma halts_only_stages:
  "halts_only (ThinkStage ag)" "halts_only (BudgetStage ag)" "halts_only (PolicyStage ag)" "halts_only (ApprovalStage ag)"
proof -
  have pol: "fst (policy_calls ag engine calls r) = Done StageContinue \<or> unfinished (fst (policy_calls ag engine calls r))"
    for engine calls and r :: "'a run"
    by (induction calls arbitrary: r) (auto split: sum.split prod.split)
  have app: "fst (approval_calls approver i calls r) = Done StageContinue
      \<or> unfinished (fst (approval_calls approver i calls r))" for approver calls i and r :: "'a run"
    by (induction calls arbitrary: i r) (auto simp: Let_def split: prod.split)
  show "halts_only (PolicyStage ag)" using pol by (auto simp: halts_only_def PolicyStage_def split: option.split)
  show "halts_only (ApprovalStage ag)" using app by (auto simp: halts_only_def ApprovalStage_def split: option.split)
qed (auto simp: halts_only_def ThinkStage_def BudgetStage_def Let_def split: prod.split sum.split option.split)

text \<open>What a pass of the pipeline promises about its outcome.\<close>

definition pass_post :: "int \<Rightarrow> outcome \<Rightarrow> 'w run \<Rightarrow> bool" where
  "pass_post k out r \<longleftrightarrow> conversing k (core r) \<and> (unfinished out \<or> settled k (core r))"









lemma pass_post_Emit [simp]: "pass_post k out (r\<lparr>r_state := Emit t n md s\<rparr>) = pass_post k out (r\<lparr>r_state := s\<rparr>)"
  by (simp add: pass_post_def)








section \<open>Bare agents\<close>

text \<open>An agent without optional parts: only the model, the tools and the policy.\<close>

definition bare :: "'w Agent \<Rightarrow> bool" where
  "bare ag \<longleftrightarrow> ag_inputGuard ag = None \<and> ag_memoryProvider ag = None \<and> ag_systemPromptProvider ag = None
     \<and> ag_skillProvider ag = None \<and> ag_toolProvider ag = None \<and> ag_promptCompiler ag = None
     \<and> ag_contextProjector ag = None \<and> ag_budgetGuard ag = None \<and> ag_outputValidator ag = None
     \<and> OutputFormat_IsZero (ag_outputFormat ag)"

lemma bare_stages:
  assumes "bare ag"
  shows "InputGuardStage ag r = (Done StageContinue, r)" "MemoryLoadStage ag r = (Done StageContinue, r)"
    "SystemPromptStage ag r = (Done StageContinue, r)" "SkillStage ag r = (Done StageContinue, r)"
    "ToolProviderStage ag r = (Done StageContinue, r)" "OutputFormatStage ag r = (Done StageContinue, r)"
    "PromptStage ag r = (Done StageContinue, r)" "BudgetStage ag r = (Done StageContinue, r)"
    "ContextProjectionStage ag r = (Done StageContinue, on_state (\<lambda>s. s\<lparr>rs_ContextProjection := None\<rparr>) r)"
    "saveMemory ag r = (None, r)" "validateFinalOutput ag s content w = (Inr ('''', None), w)"
  using assms
  by (simp_all add: bare_def InputGuardStage_def MemoryLoadStage_def SystemPromptStage_def SkillStage_def
      ToolProviderStage_def OutputFormatStage_def PromptStage_def BudgetStage_def ContextProjectionStage_def
      saveMemory_def validateFinalOutput_def OutputFormat_IsZero_def Let_def split: option.split)

lemma idle_gates:
  assumes "rs_PendingCalls (r_state r) = []"
  shows "PolicyStage ag r = (Done StageContinue, r)" "ApprovalStage ag r = (Done StageContinue, r)"
    "ActStage ag r = (Done StageContinue, r)"
  using assms by (simp_all add: PolicyStage_def ApprovalStage_def ActStage_def split: option.split)

text \<open>One pass of a bare agent whose model answers without calling a tool.\<close>

definition ready :: "'w \<Rightarrow> int \<Rightarrow> 'w run \<Rightarrow> bool" where
  "ready w n r \<longleftrightarrow> rs_Metadata (r_state r) \<noteq> None \<and> rs_ToolResults (r_state r) = [] \<and> r_world r = w
     \<and> sm_LLMCalls (rs_summary (r_state r)) = n"

definition answered :: "ChatResponse \<Rightarrow> 'w \<Rightarrow> int \<Rightarrow> 'w run \<Rightarrow> bool" where
  "answered resp w n r \<longleftrightarrow> ready w n r \<and> rs_PendingCalls (r_state r) = [] \<and> rs_LastResponse (r_state r) = Some resp"

definition finished :: "ChatResponse \<Rightarrow> 'w \<Rightarrow> int \<Rightarrow> outcome \<Rightarrow> 'w run \<Rightarrow> bool" where
  "finished resp w n out r \<longleftrightarrow> out = Done StageBreak \<and> r_world r = w \<and> (\<exists>rr. rs_Final (r_state r) = Some rr
     \<and> rr_Content rr = resp_Content resp \<and> sm_LLMCalls (rr_ExecutionSummary rr) = n)"

lemma quiet_ready: "quiet (ready w n)" "quiet (answered resp w n)" "quiet (finished resp w n out)" "quiet (\<lambda>r. False)"
  by (simp_all add: quiet_def ready_def answered_def finished_def)

lemma hoare_step:
  assumes "\<And>r. P r \<Longrightarrow> \<exists>r'. stage r = (Done StageContinue, r') \<and> M r'"
    and "hoare M (Pipeline_Run stages) Q" and "quiet P" and "quiet M" and "\<And>out. quiet (Q out)"
  shows "hoare P (Pipeline_Run ((name, stage) # stages)) Q"
  by (rule hoare_Cons [OF _ assms(2-5)]) (use assms(1) in \<open>fastforce simp: hoare_def\<close>)

lemma direct_pass:
  assumes "bare ag" and "\<And>creq w. ag_llm ag creq w = (Inr resp, w)"
    and "resp_ToolCalls resp = []" and "resp_Content resp \<noteq> ''''"
  shows "hoare (ready w n) (Pipeline_Run (think_stages ag @ act_stages ag)) (finished resp w (n + 1))"
proof -
  have fin: "FinalizeStage ag r = (Done StageBreak, snd (FinalizeStage ag r))
      \<and> finished resp w (n + 1) (Done StageBreak) (snd (FinalizeStage ag r))" if "answered resp w (n + 1) r" for r
    using that assms(3,4)
    by (simp add: answered_def ready_def finished_def FinalizeStage_def ready_to_finalize_def bare_stages [OF assms(1)]
        executionSummary_def Let_def)
  have last: "hoare (answered resp w (n + 1)) (Pipeline_Run [(''finalize'', FinalizeStage ag)]) (finished resp w (n + 1))"
  proof (rule hoare_Cons [OF _ hoare_False])
    show "hoare (answered resp w (n + 1)) (FinalizeStage ag)
        (\<lambda>out r. if out = Done StageContinue then False else finished resp w (n + 1) out r)"
    proof (rule hoareI)
      fix r :: "'a run" assume "answered resp w (n + 1) r"
      from fin [OF this] show "if fst (FinalizeStage ag r) = Done StageContinue then False
          else finished resp w (n + 1) (fst (FinalizeStage ag r)) (snd (FinalizeStage ag r))"
        by (cases "FinalizeStage ag r") simp
    qed
  qed (simp_all add: quiet_ready)
  have obs: "\<exists>r'. ObserveStage r = (Done StageContinue, r') \<and> answered resp w (n + 1) r'"
    if "answered resp w (n + 1) r" for r
    using that assms(3) by (simp add: ObserveStage_def answered_def ready_def Let_def)
  have idle: "rs_PendingCalls (r_state r) = []" if "answered resp w (n + 1) r" for r
    using that by (simp add: answered_def)
  have act: "hoare (answered resp w (n + 1)) (Pipeline_Run (act_stages ag)) (finished resp w (n + 1))"
    unfolding act_stages_def
    by (rule hoare_step [where M = "answered resp w (n + 1)", OF _ hoare_step [where M = "answered resp w (n + 1)",
          OF _ hoare_step [where M = "answered resp w (n + 1)", OF _ hoare_step [OF obs last]]]])
      (auto simp: idle_gates idle quiet_ready)
  show ?thesis unfolding think_stages_def append_Cons append_Nil
  proof (intro hoare_step)
    show "hoare (answered resp w (n + 1)) (Pipeline_Run (act_stages ag)) (finished resp w (n + 1))" by (rule act)
    show "\<exists>r'. ThinkStage ag r = (Done StageContinue, r') \<and> answered resp w (n + 1) r'" if "ready w n r" for r
      using that assms(2-4) by (simp add: ThinkStage_def sort_calls_def record_response_def recordLLMCall_def
          append_response_def answered_def ready_def Let_def)
    show "\<exists>r'. ContextStage r = (Done StageContinue, r') \<and> ready w n r'" if "ready w n r" for r
      using that by (auto simp: ContextStage_def finish_once_def set_flag_def ready_def Let_def)
    show "\<exists>r'. ContextProjectionStage ag r = (Done StageContinue, r') \<and> ready w n r'" if "ready w n r" for r
      using that by (simp add: bare_stages [OF assms(1)] ready_def)
  qed (simp_all add: bare_stages [OF assms(1)], (rule quiet_ready)+)
qed

lemma direct_run:
  assumes "bare ag" and "\<And>creq w. ag_llm ag creq w = (Inr resp, w)"
    and "resp_ToolCalls resp = []" and "resp_Content resp \<noteq> ''''"
  shows "\<exists>rr r. Agent_run ag newID req detailed w = (Some (Some rr, None), r)
    \<and> rr_Content rr = resp_Content resp \<and> sm_LLMCalls (rr_ExecutionSummary rr) = 1 \<and> r_world r = w"
proof -
  let ?runID = "if req_RunID req = 0 then newID else req_RunID req"
  let ?r0 = "\<lparr>r_state = NewRunState ?runID req (ag_now ag w), r_scoped = NewRegistry, r_world = w\<rparr>"
  have "ready w 0 ?r0" by (simp add: ready_def NewRunState_def zero_summary_def)
  obtain out r1 where p: "Pipeline_Run (think_stages ag @ act_stages ag) ?r0 = (out, r1)" by fastforce
  have fin: "finished resp w (0 + 1) out r1" using hoareD [OF direct_pass [OF assms] \<open>ready w 0 ?r0\<close> p] .
  have "0 < nat (max_iterations ag)" by (simp add: max_iterations_def)
  then obtain n where n: "nat (max_iterations ag) = Suc n" using gr0_implies_Suc by blast
  have "react_loop ag (Suc n) ?r0 = (Done StageBreak, on_state (Emit ''finalized'' '''' []) r1)"
    using fin by (simp add: p finished_def bare_stages [OF assms(1)])
  then have run: "Agent_run ag newID req detailed w
      = (Some (rs_Final (r_state r1), None), on_state (Emit ''finalized'' '''' []) r1)"
    using n by (simp add: Agent_run_def ReActRunner_Run_def NewRunState_def finish_run_def del: react_loop.simps)
  from fin show ?thesis by (auto simp: run finished_def)
qed

text \<open>A run finishes: with a bare agent, whatever its tools, policy and bounds, a model
  that answers with text and calls no tool ends the run after one call, with that text as the
  result, no error, and the world untouched.
\<close>

theorem direct_answer_finishes:
  assumes "bare ag" and "\<And>creq w. ag_llm ag creq w = (Inr resp, w)"
    and "resp_ToolCalls resp = []" and "resp_Content resp \<noteq> ''''"
  shows "\<exists>rr r. Agent_run ag newID req detailed w = (Some (Some rr, None), r)
    \<and> rr_Content rr = resp_Content resp \<and> sm_LLMCalls (rr_ExecutionSummary rr) = 1 \<and> r_world r = w"
  using assms by (rule direct_run)

text \<open>The demo agent with a model that answers at once.\<close>

definition direct_llm :: "ChatRequest \<Rightarrow> nat \<Rightarrow> (AgentError + ChatResponse) \<times> nat" where
  "direct_llm req w = (Inr \<lparr>resp_Content = ''done'', resp_ToolCalls = [],
     resp_Usage = \<lparr>us_InputTokens = 2, us_OutputTokens = 1\<rparr>\<rparr>, w)"

lemma demo_bare: "bare (demo_agent llm)"
  by (simp add: bare_def demo_agent_def OutputFormat_IsZero_def)

theorem direct_answer_finishes_witness:
  "\<exists>rr r. Agent_run (demo_agent direct_llm) 1 demo_request True 0 = (Some (Some rr, None), r)
    \<and> rr_Content rr = ''done'' \<and> sm_LLMCalls (rr_ExecutionSummary rr) = 1 \<and> r_world r = 0"
proof -
  let ?resp = "\<lparr>resp_Content = ''done'', resp_ToolCalls = [], resp_Usage = \<lparr>us_InputTokens = 2, us_OutputTokens = 1\<rparr>\<rparr>"
  have "ag_llm (demo_agent direct_llm) creq w = (Inr ?resp, w)" for creq w
    by (simp add: demo_agent_def direct_llm_def)
  from direct_answer_finishes [OF demo_bare this, of 1 demo_request True 0] show ?thesis by simp
qed


lemma demo_run_ends:
  "\<exists>rr r. Agent_run (demo_agent direct_llm) 1 demo_request True 0 = (Some (Some rr, None), r)"
proof -
  have "ag_llm (demo_agent direct_llm) creq w = (Inr \<lparr>resp_Content = ''done'', resp_ToolCalls = [],
      resp_Usage = \<lparr>us_InputTokens = 2, us_OutputTokens = 1\<rparr>\<rparr>, w)" for creq w
    by (simp add: demo_agent_def direct_llm_def)
  from direct_run [OF demo_bare this, of 1 demo_request True 0] show ?thesis by auto
qed



section \<open>Final results\<close>

text \<open>The usage is within the limits of a built-in budget.\<close>

definition within_budget :: "'w Agent \<Rightarrow> Usage \<Rightarrow> bool" where
  "within_budget ag u \<longleftrightarrow> (case ag_budgetGuard ag of
      Some (BuiltinGuard b) \<Rightarrow>
        (bd_MaxInputTokens b > 0 \<longrightarrow> us_InputTokens u \<le> bd_MaxInputTokens b)
        \<and> (bd_MaxOutputTokens b > 0 \<longrightarrow> us_OutputTokens u \<le> bd_MaxOutputTokens b)
        \<and> (bd_MaxTotalTokens b > 0 \<longrightarrow> us_InputTokens u + us_OutputTokens u \<le> bd_MaxTotalTokens b)
    | _ \<Rightarrow> True)"

abbreviation usage :: "'w run \<Rightarrow> Usage" where
  "usage r \<equiv> rs_Usage (r_state r)"

text \<open>A final result that the agent may return.\<close>

definition good_final :: "'w Agent \<Rightarrow> 'w run \<Rightarrow> bool" where
  "good_final ag r \<longleftrightarrow> (\<exists>rr resp. rs_Final (r_state r) = Some rr \<and> rs_LastResponse (r_state r) = Some resp
     \<and> rr_Content rr = resp_Content resp \<and> resp_Content resp \<noteq> '''' \<and> resp_ToolCalls resp = []
     \<and> rs_PendingCalls (r_state r) = [] \<and> within_budget ag (rr_Usage rr)
     \<and> (of_JSONSchema (ag_outputFormat ag) \<noteq> '''' \<longrightarrow>
         lib_json_Valid (ag_libs ag) (TrimSpace (rr_Content rr))
         \<and> lib_json_Schema (ag_libs ag) (of_JSONSchema (ag_outputFormat ag)) (TrimSpace (rr_Content rr)) = None
         \<and> rr_StructuredOutput rr \<noteq> ''''))"

definition final_post :: "'w Agent \<Rightarrow> outcome \<Rightarrow> 'w run \<Rightarrow> bool" where
  "final_post ag out r \<longleftrightarrow> out = Done StageContinue \<or> unfinished out \<or> out = Done StageBreak \<and> good_final ag r"

lemma quiet_final: "quiet (final_post ag out)" "quiet (\<lambda>r. within_budget ag (usage r))" "quiet (\<lambda>r. True)"
  by (simp_all add: quiet_def final_post_def good_final_def)

lemma halts_only_more:
  "halts_only (InputGuardStage ag)" "halts_only (MemoryLoadStage ag)" "halts_only ContextStage"
  "halts_only (SystemPromptStage ag)" "halts_only (SkillStage ag)" "halts_only (ToolProviderStage ag)"
  "halts_only (OutputFormatStage ag)" "halts_only (PromptStage ag)" "halts_only (ContextProjectionStage ag)"
  "halts_only (ActStage ag)" "halts_only ObserveStage"
  by (auto simp: halts_only_def InputGuardStage_def MemoryLoadStage_def ContextStage_def SystemPromptStage_def
      SkillStage_def ToolProviderStage_def OutputFormatStage_def PromptStage_def ContextProjectionStage_def
      ActStage_def ObserveStage_def finish_once_def Let_def split: option.split prod.split sum.split)

lemma Budget_within:
  "hoare (\<lambda>r. True) (BudgetStage ag) (\<lambda>out r. if out = Done StageContinue then within_budget ag (usage r) else unfinished out)"
  by (auto simp: hoare_def BudgetStage_def budget_check_def within_budget_def Let_def
      split: option.split budget_guard.split prod.split)

lemma validateFinalOutput_json:
  assumes "validateFinalOutput ag s content w = (Inr (structured, md), w')" and "of_JSONSchema (ag_outputFormat ag) \<noteq> ''''"
  shows "lib_json_Valid (ag_libs ag) (TrimSpace content)
    \<and> lib_json_Schema (ag_libs ag) (of_JSONSchema (ag_outputFormat ag)) (TrimSpace content) = None \<and> structured \<noteq> ''''"
  using assms by (auto simp: validateFinalOutput_def validateJSONOutput_def Let_def
      split: if_splits option.splits sum.splits prod.splits)

lemma Finalize_good:
  "hoare (\<lambda>r. within_budget ag (usage r)) (FinalizeStage ag) (final_post ag)"
proof (rule hoareI)
  fix r :: "'a run" assume b: "within_budget ag (usage r)"
  let ?s = "r_state r"
  show "final_post ag (fst (FinalizeStage ag r)) (snd (FinalizeStage ag r))"
  proof (cases "ready_to_finalize ?s")
    case None
    then show ?thesis by (simp add: FinalizeStage_def final_post_def)
  next
    case (Some resp)
    then have resp: "rs_LastResponse ?s = Some resp" "resp_Content resp \<noteq> ''''" "resp_ToolCalls resp = []" "rs_PendingCalls ?s = []"
      by (auto simp: ready_to_finalize_def split: option.splits if_splits)
    obtain res w where v: "validateFinalOutput ag ?s (resp_Content resp) (r_world r) = (res, w)" by fastforce
    show ?thesis
    proof (cases res)
      case (Inl err)
      with v Some show ?thesis by (simp add: FinalizeStage_def final_post_def)
    next
      case (Inr p)
      obtain structured md where p: "p = (structured, md)" by fastforce
      note json = validateFinalOutput_json [OF v [unfolded Inr p]]
      have "good_final ag (snd (FinalizeStage ag r))"
        unfolding good_final_def using v Inr p Some resp b
        by (simp add: FinalizeStage_def Let_def) (use json in blast)
      moreover have "fst (FinalizeStage ag r) = Done StageBreak"
        using v Inr p Some by (simp add: FinalizeStage_def Let_def)
      ultimately show ?thesis by (simp add: final_post_def)
    qed
  qed
qed


text \<open>Stages that leave the usage alone.\<close>

definition keeps_usage :: "'w stage \<Rightarrow> bool" where
  "keeps_usage stage \<longleftrightarrow> (\<forall>r. usage (snd (stage r)) = usage r)"

lemma keeps_usage_stages:
  "keeps_usage (PolicyStage ag)" "keeps_usage (ApprovalStage ag)" "keeps_usage (ActStage ag)" "keeps_usage ObserveStage"
proof -
  have pol: "usage (snd (policy_calls ag engine calls r)) = usage r" for engine calls and r :: "'a run"
    by (induction calls arbitrary: r) (auto split: sum.split prod.split)
  have app: "usage (snd (approval_calls approver i calls r)) = usage r" for approver calls i and r :: "'a run"
    by (induction calls arbitrary: i r) (auto simp: Let_def split: prod.split)
  show "keeps_usage (PolicyStage ag)" using pol by (auto simp: keeps_usage_def PolicyStage_def split: option.split)
  show "keeps_usage (ApprovalStage ag)" using app by (auto simp: keeps_usage_def ApprovalStage_def split: option.split)
qed (auto simp: keeps_usage_def ActStage_def ObserveStage_def Let_def split: sum.split prod.split)

lemma final_step:
  assumes "keeps_usage stage" and "halts_only stage"
    and "hoare (\<lambda>r. within_budget ag (usage r)) (Pipeline_Run stages) (final_post ag)"
  shows "hoare (\<lambda>r. within_budget ag (usage r)) (Pipeline_Run ((name, stage) # stages)) (final_post ag)"
  by (rule hoare_Cons [OF _ assms(3)])
    (use assms(1,2) in \<open>auto simp: quiet_final hoare_def keeps_usage_def halts_only_def final_post_def\<close>)

lemma final_skip:
  assumes "halts_only stage" and "hoare (\<lambda>r. True) (Pipeline_Run stages) (final_post ag)"
  shows "hoare (\<lambda>r. True) (Pipeline_Run ((name, stage) # stages)) (final_post ag)"
  by (rule hoare_Cons [OF _ assms(2)])
    (use assms(1) in \<open>auto simp: quiet_final hoare_def halts_only_def final_post_def\<close>)

lemma final_pass: "hoare (\<lambda>r. True) (Pipeline_Run (think_stages ag @ act_stages ag)) (final_post ag)"
proof -
  have last: "hoare (\<lambda>r. within_budget ag (usage r)) (Pipeline_Run [(''finalize'', FinalizeStage ag)]) (final_post ag)"
    by (rule hoare_Cons [OF hoare_weaken [OF Finalize_good] hoare_weaken [OF hoare_Nil, of "\<lambda>r. True"]])
      (simp_all add: quiet_final final_post_def [of ag "Done StageContinue"])
  have act: "hoare (\<lambda>r. within_budget ag (usage r)) (Pipeline_Run (act_stages ag)) (final_post ag)"
    unfolding act_stages_def by (rule final_step final_step [OF _ _ last] keeps_usage_stages halts_only_stages halts_only_more)+
  have budget: "hoare (\<lambda>r. True) (Pipeline_Run ((''budget'', BudgetStage ag) # act_stages ag)) (final_post ag)"
    by (rule hoare_Cons [OF hoare_weaken [OF Budget_within] act])
      (auto simp: quiet_final final_post_def)
  show ?thesis unfolding think_stages_def append_Cons append_Nil
    by (intro final_skip [OF _ budget] final_skip halts_only_stages halts_only_more)
qed

lemma saveMemory_final: "saveMemory ag r = (err, r') \<Longrightarrow> good_final ag r \<Longrightarrow> good_final ag r'"
  by (auto simp: saveMemory_def good_final_def Let_def split: option.splits if_splits prod.splits)

lemma react_loop_final:
  "react_loop ag n r = (out, r') \<Longrightarrow> unfinished out \<or> out = Done StageBreak \<and> good_final ag r'"
proof (induction n arbitrary: r)
  case (Suc n)
  obtain out1 r1 where p: "Pipeline_Run (think_stages ag @ act_stages ag) r = (out1, r1)" by fastforce
  have post: "final_post ag out1 r1" using hoareD [OF final_pass _ p] by simp
  consider "out1 = Done StageContinue" | "unfinished out1" | "out1 = Done StageBreak" "good_final ag r1"
    using post by (auto simp: final_post_def)
  then show ?case
  proof cases
    case 1
    with Suc p show ?thesis by simp
  next
    case 2
    with Suc.prems p show ?thesis by (cases out1) (auto simp: unfinished_def stopped_def)
  next
    case 3
    obtain err r2 where m: "saveMemory ag r1 = (err, r2)" by fastforce
    from saveMemory_final [OF m 3(2)] have "good_final ag r2" .
    then have "good_final ag (on_state (Emit t nm md) r2)" for t nm md by (simp add: good_final_def)
    with Suc.prems p 3 m show ?thesis by (auto split: option.splits)
  qed
qed auto

text \<open>What a run returns as its result is an answer of the model: a run that ends without
  an error returns a non-empty text that is the content of the last response, which called no
  tool, with no call left pending; the tokens used stay within every limit of the built-in budget;
  and when the agent has an output schema, the text is valid JSON that the schema accepts and the
  structured output is present.
\<close>

theorem final_result_valid:
  assumes "Agent_run ag newID req detailed w = (Some (res, None), r)"
  shows "\<exists>rr. res = Some rr \<and> rs_Final (r_state r) = Some rr \<and> good_final ag r"
proof -
  have "\<exists>out r'. finish_run ag detailed (out, r') = (Some (res, None), r)
      \<and> (unfinished out \<or> out = Done StageBreak \<and> good_final ag r')"
    using assms react_loop_final unfolding Agent_run_def ReActRunner_Run_def Let_def by (metis prod.collapse)
  then obtain out r' where f: "finish_run ag detailed (out, r') = (Some (res, None), r)"
    and o: "unfinished out \<or> out = Done StageBreak \<and> good_final ag r'" by blast
  from f have "\<not> unfinished out"
    by (auto simp: finish_run_def unfinished_def stopped_def runErrorResult_def pendingRunResult_def Let_def
        split: sum.splits)
  with o f have "r' = r" "res = rs_Final (r_state r)" "good_final ag r" by (auto simp: finish_run_def)
  then show ?thesis by (auto simp: good_final_def)
qed

theorem final_result_valid_witness:
  "\<exists>rr r. Agent_run (demo_agent direct_llm) 1 demo_request True 0 = (Some (Some rr, None), r)
     \<and> good_final (demo_agent direct_llm) r \<and> rs_PendingCalls (r_state r) = []"
proof -
  from demo_run_ends obtain rr r where run: "Agent_run (demo_agent direct_llm) 1 demo_request True 0 = (Some (Some rr, None), r)"
    by blast
  from final_result_valid [OF run] run show ?thesis by (auto simp: good_final_def)
qed


section \<open>The input guard\<close>

definition screened :: "RunRequest \<Rightarrow> bool" where
  "screened req \<longleftrightarrow> map_of (map_write_all [] (metadata_of (req_Metadata req))) ''agentcore.input_guard.validated''
     = Some (VBool True)"

text \<open>The input guard comes first, unless the request says it has run: when the guard
  rejects a request, the run fails with \<open>ErrInputRejected\<close> before memory, context, model or tools
  are touched; but a request whose own metadata carry the key
  \<open>agentcore.input_guard.validated\<close> is never shown to the guard in the first pass up to the
  model's answer, which is that of an agent without a guard.
\<close>

theorem input_guard_first:
  assumes "ag_inputGuard ag = Some guard" and "req_RunID req \<noteq> 0"
  shows "(\<not> screened req \<longrightarrow> guard (req_RunID req) (req_Input req) (clone_metadata (req_Metadata req))
          (checkpoint_policy (req_PolicyContext req)) w = (Some e, w1) \<longrightarrow>
        (\<exists>res r. Agent_run ag newID req detailed w = (Some (res, Some ErrInputRejected), r) \<and> r_world r = w1
           \<and> rs_Messages (r_state r) = [] \<and> sm_LLMCalls (rs_summary (r_state r)) = 0))
    \<and> (screened req \<longrightarrow> r0 = \<lparr>r_state = NewRunState (req_RunID req) req now, r_scoped = NewRegistry, r_world = w\<rparr> \<longrightarrow>
        Pipeline_Run (think_stages ag) r0 = Pipeline_Run (think_stages (ag\<lparr>ag_inputGuard := None\<rparr>)) r0)"
proof (intro conjI impI)
  assume ns: "\<not> screened req" and g: "guard (req_RunID req) (req_Input req) (clone_metadata (req_Metadata req))
      (checkpoint_policy (req_PolicyContext req)) w = (Some e, w1)"
  let ?r0 = "\<lparr>r_state = NewRunState (req_RunID req) req (ag_now ag w), r_scoped = NewRegistry, r_world = w\<rparr>"
  let ?q = "on_state (Emit ''stage.started'' ''input_guard'' []) ?r0"
  let ?r1 = "on_state (Emit ''stage.failed'' ''input_guard'' []) (on_state (Emit ''input.rejected'' '''' []) (?q\<lparr>r_world := w1\<rparr>))"
  have "\<not> flag ''agentcore.input_guard.validated'' (r_state ?q)"
    using ns by (simp add: flag_def screened_def NewRunState_def metadata_of_def)
  then have "InputGuardStage ag ?q = (Failed ErrInputRejected, on_state (Emit ''input.rejected'' '''' []) (?q\<lparr>r_world := w1\<rparr>))"
    using assms(1) g by (simp add: InputGuardStage_def Let_def NewRunState_def del: clone_ids)
  then have "Pipeline_Run (think_stages ag @ act_stages ag) ?r0 = (Failed ErrInputRejected, ?r1)"
    by (simp add: think_stages_def)
  moreover have "0 < nat (max_iterations ag)" by (simp add: max_iterations_def)
  ultimately have "react_loop ag (nat (max_iterations ag)) ?r0 = (Failed ErrInputRejected, ?r1)"
    by (cases "nat (max_iterations ag)") simp_all
  then have "Agent_run ag newID req detailed w = (Some (runErrorResult ag detailed ErrInputRejected ?r1), ?r1)"
    using assms(2) by (simp add: Agent_run_def ReActRunner_Run_def NewRunState_def finish_run_def)
  then show "\<exists>res r. Agent_run ag newID req detailed w = (Some (res, Some ErrInputRejected), r) \<and> r_world r = w1
      \<and> rs_Messages (r_state r) = [] \<and> sm_LLMCalls (rs_summary (r_state r)) = 0"
    by (auto simp: runErrorResult_def Let_def NewRunState_def zero_summary_def)
next
  assume s: "screened req"
  assume r0: "r0 = \<lparr>r_state = NewRunState (req_RunID req) req now, r_scoped = NewRegistry, r_world = w\<rparr>"
  let ?ag = "ag\<lparr>ag_inputGuard := None\<rparr>" and ?q = "on_state (Emit ''stage.started'' ''input_guard'' []) r0"
  have "flag ''agentcore.input_guard.validated'' (r_state ?q)"
    using s r0 by (simp add: flag_def screened_def NewRunState_def metadata_of_def)
  then have first: "InputGuardStage ag ?q = InputGuardStage ?ag ?q" "InputGuardStage ?ag ?q = (Done StageContinue, ?q)"
    by (simp_all add: InputGuardStage_def Let_def split: option.split)
  have fields: "ag_llm ?ag = ag_llm ag" "ag_promptCompiler ?ag = ag_promptCompiler ag" "ag_promptBlocks ?ag = ag_promptBlocks ag"
    "ag_toolRegistry ?ag = ag_toolRegistry ag" "ag_memoryProvider ?ag = ag_memoryProvider ag" "ag_skillProvider ?ag = ag_skillProvider ag"
    "ag_systemPromptProvider ?ag = ag_systemPromptProvider ag" "ag_toolProvider ?ag = ag_toolProvider ag"
    "ag_contextProjector ?ag = ag_contextProjector ag" "ag_outputFormat ?ag = ag_outputFormat ag"
    "ag_budgetGuard ?ag = ag_budgetGuard ag" "ag_maxOutputTokens ?ag = ag_maxOutputTokens ag" by simp_all
  have rest: "MemoryLoadStage ?ag = MemoryLoadStage ag" "SystemPromptStage ?ag = SystemPromptStage ag" "SkillStage ?ag = SkillStage ag"
    "ToolProviderStage ?ag = ToolProviderStage ag" "OutputFormatStage ?ag = OutputFormatStage ag" "PromptStage ?ag = PromptStage ag"
    "ContextProjectionStage ?ag = ContextProjectionStage ag" "ThinkStage ?ag = ThinkStage ag" "BudgetStage ?ag = BudgetStage ag"
    unfolding fun_eq_iff MemoryLoadStage_def SystemPromptStage_def SkillStage_def ToolProviderStage_def OutputFormatStage_def
      PromptStage_def ContextProjectionStage_def ThinkStage_def BudgetStage_def fields by (rule allI, rule refl)+
  have "Pipeline_Run ((''input_guard'', InputGuardStage ag) # xs) r0 = Pipeline_Run ((''input_guard'', InputGuardStage ?ag) # xs) r0"
    for xs using first by (simp add: Let_def)
  then show "Pipeline_Run (think_stages ag) r0 = Pipeline_Run (think_stages ?ag) r0"
    unfolding think_stages_def rest by (simp only:)
qed

theorem input_guard_first_witness:
  "\<exists>res r. Agent_run ((demo_agent direct_llm)\<lparr>ag_inputGuard := Some (\<lambda>_ _ _ _ w. (Some (ErrText ''no''), w))\<rparr>)
      1 demo_request True 0 = (Some (res, Some ErrInputRejected), r) \<and> r_world r = 0"
proof -
  let ?guard = "\<lambda>_ _ _ _ w. (Some (ErrText ''no''), w)"
  let ?ag = "(demo_agent direct_llm)\<lparr>ag_inputGuard := Some ?guard\<rparr>"
  have "\<not> screened demo_request" by (simp add: screened_def demo_request_def metadata_of_def map_write_all_def)
  then show ?thesis
    using input_guard_first [where ag = ?ag and guard = ?guard and req = demo_request and w = 0 and ?w1.0 = 0
        and e = "ErrText ''no''" and newID = 1 and detailed = True]
    by (simp add: demo_request_def) blast
qed

end
