(* ===== verification/Checkpoint_Store.thy ===== *)
theory Checkpoint_Store
  imports GoPrelude
begin

text \<open>
  \<open>runkit/checkpoint.go\<close>: approval checkpoints and their in-memory store. A checkpoint holds the
  encrypted state of a paused run; the store moves it from pending to leased or to a terminal
  status. Every operation holds the store's mutex, so each is one atomic function on the state; a
  context is its \<open>Err()\<close> at the time of the call and the clock gives one reading per operation.
\<close>

section \<open>Data\<close>

datatype CheckpointStatus = CheckpointPending | CheckpointLeased | CheckpointConsumed
  | CheckpointRejected | CheckpointFailed | CheckpointExpired

record ApprovalAudit =
  au_ApproverID :: string
  au_Approved :: bool
  au_AuditRef :: string
  au_ReasonCode :: string
  au_DecidedAt :: time

record ApprovalCheckpoint =
  ac_ID :: string
  ac_RunID :: string
  ac_TenantID :: string
  ac_DefinitionHash :: string
  ac_Ciphertext :: string
  ac_Status :: CheckpointStatus
  ac_FailureCode :: string
  ac_LeaseOwner :: string
  ac_LeaseUntil :: time
  ac_ExpiresAt :: time
  ac_Approval :: "ApprovalAudit option"
  ac_CreatedAt :: time
  ac_UpdatedAt :: time

record ApprovalLeaseRequest =
  lr_CheckpointID :: string
  lr_TenantID :: string
  lr_DefinitionHash :: string
  lr_ApproverID :: string
  lr_AuditRef :: string
  lr_ReasonCode :: string
  lr_LeaseOwner :: string
  lr_LeaseDuration :: duration
  lr_Now :: time

record CheckpointLeaseCompletion =
  lc_CheckpointID :: string
  lc_TenantID :: string
  lc_LeaseOwner :: string
  lc_FailureCode :: string
  lc_Now :: time

record PendingCheckpointFailure =
  pf_CheckpointID :: string
  pf_RunID :: string
  pf_TenantID :: string
  pf_DefinitionHash :: string
  pf_FailureCode :: string
  pf_Now :: time

text \<open>\<open>CheckpointInvalid\<close> carries the text of a validation error.\<close>

datatype CheckpointError = ErrCheckpointNotFound | ErrCheckpointNotClaimable | ErrCheckpointLeaseOwner
  | CheckpointExists string | CheckpointInvalid string | CheckpointCtx ctx_error

record MemoryCheckpointStore =
  cks_checkpoints :: "(string, ApprovalCheckpoint) gomap"
  cks_now :: time

section \<open>Validation\<close>

definition NewMemoryCheckpointStore :: "time \<Rightarrow> MemoryCheckpointStore" where
  "NewMemoryCheckpointStore now = \<lparr>cks_checkpoints = [], cks_now = now\<rparr>"

definition validateCheckpoint :: "ApprovalCheckpoint \<Rightarrow> CheckpointError option" where
  "validateCheckpoint c =
     (if TrimSpace (ac_ID c) = '''' \<or> TrimSpace (ac_RunID c) = '''' \<or> TrimSpace (ac_TenantID c) = ''''
         \<or> TrimSpace (ac_DefinitionHash c) = '''' \<or> ac_Ciphertext c = '''' \<or> ac_ExpiresAt c = 0
      then Some (CheckpointInvalid ''checkpoint id, run id, tenant id, definition hash, ciphertext, and expiry are required'')
      else None)"

definition validatePendingCheckpointFailure :: "PendingCheckpointFailure \<Rightarrow> CheckpointError option" where
  "validatePendingCheckpointFailure r =
     (if TrimSpace (pf_CheckpointID r) = '''' \<or> TrimSpace (pf_RunID r) = '''' \<or> TrimSpace (pf_TenantID r) = ''''
         \<or> TrimSpace (pf_DefinitionHash r) = '''' \<or> TrimSpace (pf_FailureCode r) = ''''
      then Some (CheckpointInvalid ''checkpoint id, run id, tenant id, definition hash, and failure code are required'')
      else None)"

definition validateResolutionRequest :: "ApprovalLeaseRequest \<Rightarrow> CheckpointError option" where
  "validateResolutionRequest r =
     (if TrimSpace (lr_CheckpointID r) = '''' \<or> TrimSpace (lr_TenantID r) = ''''
         \<or> TrimSpace (lr_DefinitionHash r) = '''' \<or> TrimSpace (lr_ApproverID r) = '''' \<or> TrimSpace (lr_AuditRef r) = ''''
      then Some (CheckpointInvalid ''checkpoint id, tenant id, definition hash, approver id, and audit ref are required'')
      else None)"

definition validateLeaseRequest :: "ApprovalLeaseRequest \<Rightarrow> CheckpointError option" where
  "validateLeaseRequest r = (case validateResolutionRequest r of
      Some err \<Rightarrow> Some err
    | None \<Rightarrow>
        if TrimSpace (lr_LeaseOwner r) = '''' \<or> lr_LeaseDuration r \<le> 0
        then Some (CheckpointInvalid ''lease owner and positive lease duration are required'') else None)"

definition claimable :: "ApprovalCheckpoint \<Rightarrow> ApprovalLeaseRequest \<Rightarrow> time \<Rightarrow> bool" where
  "claimable c r now \<longleftrightarrow> ac_TenantID c = lr_TenantID r \<and> ac_DefinitionHash c = lr_DefinitionHash r
     \<and> ac_Status c = CheckpointPending \<and> ac_ExpiresAt c > now"

definition requestNow :: "time \<Rightarrow> time \<Rightarrow> time" where
  "requestNow clock v = (if v = 0 then clock else v)"

definition cloneApprovalCheckpoint :: "ApprovalCheckpoint \<Rightarrow> ApprovalCheckpoint" where
  "cloneApprovalCheckpoint c = c"

section \<open>Operations\<close>

definition put_checkpoint :: "ApprovalCheckpoint \<Rightarrow> MemoryCheckpointStore \<Rightarrow> MemoryCheckpointStore" where
  "put_checkpoint c s = s\<lparr>cks_checkpoints := AList.update (ac_ID c) (cloneApprovalCheckpoint c) (cks_checkpoints s)\<rparr>"

definition CreateCheckpoint ::
  "ctx \<Rightarrow> ApprovalCheckpoint \<Rightarrow> MemoryCheckpointStore \<Rightarrow> CheckpointError option \<times> MemoryCheckpointStore" where
  "CreateCheckpoint ctx c s = (case ctx of
      Some e \<Rightarrow> (Some (CheckpointCtx e), s)
    | None \<Rightarrow> (case validateCheckpoint c of
        Some err \<Rightarrow> (Some err, s)
      | None \<Rightarrow>
          (let c = (if ac_CreatedAt c = 0 then c\<lparr>ac_CreatedAt := cks_now s\<rparr> else c);
               c = c\<lparr>ac_UpdatedAt := cks_now s, ac_Status := CheckpointPending, ac_FailureCode := ''''\<rparr>
           in if map_of (cks_checkpoints s) (ac_ID c) \<noteq> None then (Some (CheckpointExists (ac_ID c)), s)
              else (None, put_checkpoint c s))))"

definition GetCheckpoint ::
  "ctx \<Rightarrow> string \<Rightarrow> string \<Rightarrow> MemoryCheckpointStore \<Rightarrow> CheckpointError + ApprovalCheckpoint" where
  "GetCheckpoint ctx checkpointID tenantID s = (case ctx of
      Some e \<Rightarrow> Inl (CheckpointCtx e)
    | None \<Rightarrow> (case map_of (cks_checkpoints s) checkpointID of
        None \<Rightarrow> Inl ErrCheckpointNotFound
      | Some c \<Rightarrow> if ac_TenantID c \<noteq> tenantID then Inl ErrCheckpointNotFound
          else Inr (cloneApprovalCheckpoint c)))"

definition ApproveAndLease ::
  "ctx \<Rightarrow> ApprovalLeaseRequest \<Rightarrow> MemoryCheckpointStore
     \<Rightarrow> (CheckpointError + ApprovalCheckpoint) \<times> MemoryCheckpointStore" where
  "ApproveAndLease ctx r s = (case ctx of
      Some e \<Rightarrow> (Inl (CheckpointCtx e), s)
    | None \<Rightarrow> (case validateLeaseRequest r of
        Some err \<Rightarrow> (Inl err, s)
      | None \<Rightarrow>
          (let now = requestNow (cks_now s) (lr_Now r)
           in case map_of (cks_checkpoints s) (lr_CheckpointID r) of
                None \<Rightarrow> (Inl ErrCheckpointNotClaimable, s)
              | Some c \<Rightarrow>
                  if \<not> claimable c r now then (Inl ErrCheckpointNotClaimable, s)
                  else (let c = c\<lparr>ac_Status := CheckpointLeased, ac_LeaseOwner := lr_LeaseOwner r,
                              ac_LeaseUntil := now + lr_LeaseDuration r,
                              ac_Approval := Some \<lparr>au_ApproverID = lr_ApproverID r, au_Approved = True,
                                au_AuditRef = lr_AuditRef r, au_ReasonCode = lr_ReasonCode r, au_DecidedAt = now\<rparr>,
                              ac_UpdatedAt := now\<rparr>
                        in (Inr (cloneApprovalCheckpoint c), put_checkpoint c s)))))"

definition RejectCheckpoint ::
  "ctx \<Rightarrow> ApprovalLeaseRequest \<Rightarrow> MemoryCheckpointStore \<Rightarrow> CheckpointError option \<times> MemoryCheckpointStore" where
  "RejectCheckpoint ctx r s = (case ctx of
      Some e \<Rightarrow> (Some (CheckpointCtx e), s)
    | None \<Rightarrow> (case validateResolutionRequest r of
        Some err \<Rightarrow> (Some err, s)
      | None \<Rightarrow>
          (let now = requestNow (cks_now s) (lr_Now r)
           in case map_of (cks_checkpoints s) (lr_CheckpointID r) of
                None \<Rightarrow> (Some ErrCheckpointNotClaimable, s)
              | Some c \<Rightarrow>
                  if ac_TenantID c \<noteq> lr_TenantID r \<or> ac_DefinitionHash c \<noteq> lr_DefinitionHash r
                     \<or> ac_Status c \<noteq> CheckpointPending \<or> \<not> ac_ExpiresAt c > now
                  then (Some ErrCheckpointNotClaimable, s)
                  else (None, put_checkpoint (c\<lparr>ac_Status := CheckpointRejected, ac_Ciphertext := '''',
                          ac_Approval := Some \<lparr>au_ApproverID = lr_ApproverID r, au_Approved = False,
                            au_AuditRef = lr_AuditRef r, au_ReasonCode = lr_ReasonCode r, au_DecidedAt = now\<rparr>,
                          ac_UpdatedAt := now\<rparr>) s))))"

definition finishLease ::
  "ctx \<Rightarrow> CheckpointLeaseCompletion \<Rightarrow> CheckpointStatus \<Rightarrow> MemoryCheckpointStore
     \<Rightarrow> CheckpointError option \<times> MemoryCheckpointStore" where
  "finishLease ctx l status s = (case ctx of
      Some e \<Rightarrow> (Some (CheckpointCtx e), s)
    | None \<Rightarrow>
        if TrimSpace (lc_CheckpointID l) = '''' \<or> TrimSpace (lc_TenantID l) = '''' \<or> TrimSpace (lc_LeaseOwner l) = ''''
        then (Some (CheckpointInvalid ''checkpoint id, tenant id, and lease owner are required''), s)
        else if status = CheckpointFailed \<and> TrimSpace (lc_FailureCode l) = ''''
        then (Some (CheckpointInvalid ''failure code is required when failing a checkpoint lease''), s)
        else (case map_of (cks_checkpoints s) (lc_CheckpointID l) of
            None \<Rightarrow> (Some ErrCheckpointNotFound, s)
          | Some c \<Rightarrow>
              if ac_TenantID c \<noteq> lc_TenantID l then (Some ErrCheckpointNotFound, s)
              else if ac_Status c \<noteq> CheckpointLeased \<or> ac_LeaseOwner c \<noteq> lc_LeaseOwner l
              then (Some ErrCheckpointLeaseOwner, s)
              else (None, put_checkpoint (c\<lparr>ac_Status := status, ac_Ciphertext := '''',
                      ac_FailureCode := (if status = CheckpointFailed then lc_FailureCode l else ''''),
                      ac_LeaseOwner := '''', ac_LeaseUntil := 0,
                      ac_UpdatedAt := requestNow (cks_now s) (lc_Now l)\<rparr>) s)))"

definition CompleteLease ::
  "ctx \<Rightarrow> CheckpointLeaseCompletion \<Rightarrow> MemoryCheckpointStore \<Rightarrow> CheckpointError option \<times> MemoryCheckpointStore" where
  "CompleteLease ctx l s = finishLease ctx l CheckpointConsumed s"

definition FailLease ::
  "ctx \<Rightarrow> CheckpointLeaseCompletion \<Rightarrow> MemoryCheckpointStore \<Rightarrow> CheckpointError option \<times> MemoryCheckpointStore" where
  "FailLease ctx l s = finishLease ctx l CheckpointFailed s"

definition FailPendingCheckpoint ::
  "ctx \<Rightarrow> PendingCheckpointFailure \<Rightarrow> MemoryCheckpointStore \<Rightarrow> CheckpointError option \<times> MemoryCheckpointStore" where
  "FailPendingCheckpoint ctx r s = (case ctx of
      Some e \<Rightarrow> (Some (CheckpointCtx e), s)
    | None \<Rightarrow> (case validatePendingCheckpointFailure r of
        Some err \<Rightarrow> (Some err, s)
      | None \<Rightarrow> (case map_of (cks_checkpoints s) (pf_CheckpointID r) of
          None \<Rightarrow> (Some ErrCheckpointNotClaimable, s)
        | Some c \<Rightarrow>
            if ac_RunID c \<noteq> pf_RunID r \<or> ac_TenantID c \<noteq> pf_TenantID r \<or> ac_DefinitionHash c \<noteq> pf_DefinitionHash r
            then (Some ErrCheckpointNotClaimable, s)
            else if ac_Status c = CheckpointFailed \<and> ac_FailureCode c = pf_FailureCode r then (None, s)
            else if ac_Status c \<noteq> CheckpointPending then (Some ErrCheckpointNotClaimable, s)
            else (None, put_checkpoint (c\<lparr>ac_Status := CheckpointFailed, ac_Ciphertext := '''',
                    ac_FailureCode := pf_FailureCode r, ac_LeaseOwner := '''', ac_LeaseUntil := 0,
                    ac_UpdatedAt := requestNow (cks_now s) (pf_Now r)\<rparr>) s))))"

text \<open>One entry of the loop of \<open>ExpireCheckpoints\<close>: the entry it leaves and whether it expired.\<close>

definition expirable :: "time \<Rightarrow> ApprovalCheckpoint \<Rightarrow> bool" where
  "expirable now c \<longleftrightarrow> (ac_Status c = CheckpointPending \<or> ac_Status c = CheckpointLeased) \<and> \<not> ac_ExpiresAt c > now"

definition expire_entry :: "time \<Rightarrow> ApprovalCheckpoint \<Rightarrow> ApprovalCheckpoint" where
  "expire_entry now c = (if expirable now c
     then c\<lparr>ac_Status := CheckpointExpired, ac_Ciphertext := '''', ac_LeaseOwner := '''', ac_LeaseUntil := 0,
            ac_UpdatedAt := now\<rparr> else c)"

definition ExpireCheckpoints ::
  "ctx \<Rightarrow> time \<Rightarrow> MemoryCheckpointStore \<Rightarrow> (CheckpointError + int) \<times> MemoryCheckpointStore" where
  "ExpireCheckpoints ctx now s = (case ctx of
      Some e \<Rightarrow> (Inl (CheckpointCtx e), s)
    | None \<Rightarrow>
        (let now = requestNow (cks_now s) now
         in (Inr (int (length (filter (\<lambda>(_, c). expirable now c) (cks_checkpoints s)))),
             s\<lparr>cks_checkpoints := map (\<lambda>(i, c). (i, cloneApprovalCheckpoint (expire_entry now c))) (cks_checkpoints s)\<rparr>)))"


section \<open>Sequences of operations\<close>

datatype checkpoint_op = OpCreate ApprovalCheckpoint | OpApprove ApprovalLeaseRequest
  | OpReject ApprovalLeaseRequest | OpComplete CheckpointLeaseCompletion | OpFail CheckpointLeaseCompletion
  | OpFailPending PendingCheckpointFailure | OpExpire time | OpTick nat

fun checkpoint_apply :: "ctx \<times> checkpoint_op \<Rightarrow> MemoryCheckpointStore \<Rightarrow> MemoryCheckpointStore" where
  "checkpoint_apply (ctx, OpCreate c) s = snd (CreateCheckpoint ctx c s)"
| "checkpoint_apply (ctx, OpApprove r) s = snd (ApproveAndLease ctx r s)"
| "checkpoint_apply (ctx, OpReject r) s = snd (RejectCheckpoint ctx r s)"
| "checkpoint_apply (ctx, OpComplete l) s = snd (CompleteLease ctx l s)"
| "checkpoint_apply (ctx, OpFail l) s = snd (FailLease ctx l s)"
| "checkpoint_apply (ctx, OpFailPending r) s = snd (FailPendingCheckpoint ctx r s)"
| "checkpoint_apply (ctx, OpExpire now) s = snd (ExpireCheckpoints ctx now s)"
| "checkpoint_apply (ctx, OpTick d) s = s\<lparr>cks_now := cks_now s + int d\<rparr>"

text \<open>The lookup that the clients of the store see.\<close>

abbreviation checkpoint_at :: "MemoryCheckpointStore \<Rightarrow> string \<Rightarrow> ApprovalCheckpoint option" where
  "checkpoint_at s i \<equiv> map_of (cks_checkpoints s) i"

text \<open>The life of a checkpoint, as the comments of the package describe it.\<close>

inductive lifecycle :: "CheckpointStatus option \<Rightarrow> CheckpointStatus option \<Rightarrow> bool" where
  create: "lifecycle None (Some CheckpointPending)"
| lease: "lifecycle (Some CheckpointPending) (Some CheckpointLeased)"
| reject: "lifecycle (Some CheckpointPending) (Some CheckpointRejected)"
| abandon: "lifecycle (Some CheckpointPending) (Some CheckpointFailed)"
| consume: "lifecycle (Some CheckpointLeased) (Some CheckpointConsumed)"
| fail: "lifecycle (Some CheckpointLeased) (Some CheckpointFailed)"
| expire_pending: "lifecycle (Some CheckpointPending) (Some CheckpointExpired)"
| expire_leased: "lifecycle (Some CheckpointLeased) (Some CheckpointExpired)"

inductive_cases lifecycle_fromE: "lifecycle (Some s) t"

definition terminal :: "CheckpointStatus \<Rightarrow> bool" where
  "terminal st \<longleftrightarrow> st \<notin> {CheckpointPending, CheckpointLeased}"

lemma terminal_simps [simp]:
  "\<not> terminal CheckpointPending" "\<not> terminal CheckpointLeased" "terminal CheckpointConsumed"
  "terminal CheckpointRejected" "terminal CheckpointFailed" "terminal CheckpointExpired"
  by (simp_all add: terminal_def)

definition checkpoint_ok :: "string \<Rightarrow> ApprovalCheckpoint \<Rightarrow> bool" where
  "checkpoint_ok i c \<longleftrightarrow> ac_ID c = i \<and> (terminal (ac_Status c) \<longleftrightarrow> ac_Ciphertext c = '''')
     \<and> (ac_Status c = CheckpointLeased \<longrightarrow> ac_LeaseOwner c \<noteq> '''')
     \<and> (ac_Status c \<in> {CheckpointLeased, CheckpointConsumed} \<longrightarrow>
          (\<exists>audit. ac_Approval c = Some audit \<and> au_Approved audit \<and> au_ApproverID audit \<noteq> '''' \<and> au_AuditRef audit \<noteq> ''''))
     \<and> (ac_Status c = CheckpointRejected \<longrightarrow>
          (\<exists>audit. ac_Approval c = Some audit \<and> \<not> au_Approved audit \<and> au_ApproverID audit \<noteq> ''''))"

definition checkpoint_inv :: "MemoryCheckpointStore \<Rightarrow> bool" where
  "checkpoint_inv s \<longleftrightarrow> wf_map (cks_checkpoints s) \<and> (\<forall>i c. checkpoint_at s i = Some c \<longrightarrow> checkpoint_ok i c)"

lemma put_checkpoint_at [simp]:
  "checkpoint_at (put_checkpoint c s) i = (if i = ac_ID c then Some c else checkpoint_at s i)"
  by (simp add: put_checkpoint_def cloneApprovalCheckpoint_def)

lemma put_checkpoint_inv:
  "checkpoint_inv s \<Longrightarrow> checkpoint_ok (ac_ID c) c \<Longrightarrow> checkpoint_inv (put_checkpoint c s)"
  by (auto simp: checkpoint_inv_def put_checkpoint_def cloneApprovalCheckpoint_def)

lemma TrimSpace_blank: "TrimSpace s \<noteq> '''' \<Longrightarrow> s \<noteq> ''''"
  by auto

text \<open>
  What one operation does to one checkpoint: nothing, or a step of its life that keeps the entry
  well formed. All that follows rests on this case analysis of the operations.
\<close>

definition moves :: "string \<Rightarrow> ApprovalCheckpoint option \<Rightarrow> ApprovalCheckpoint option \<Rightarrow> bool" where
  "moves i old new \<longleftrightarrow> new = old \<or>
     (\<exists>c. new = Some c \<and> checkpoint_ok i c \<and> lifecycle (map_option ac_Status old) (Some (ac_Status c))
        \<and> (\<forall>o'. old = Some o' \<longrightarrow> ac_TenantID c = ac_TenantID o' \<and> ac_RunID c = ac_RunID o'
             \<and> ac_DefinitionHash c = ac_DefinitionHash o' \<and> ac_ExpiresAt c = ac_ExpiresAt o'))"

lemma moves_refl [simp]: "moves i x x"
  by (simp add: moves_def)

lemmas moves_simps = moves_def checkpoint_ok_def lifecycle.simps cloneApprovalCheckpoint_def

lemma create_moves: "moves i (checkpoint_at s i) (checkpoint_at (snd (CreateCheckpoint ctx c s)) i)"
  by (auto simp: CreateCheckpoint_def validateCheckpoint_def Let_def moves_simps split: option.split)

lemma entry_ok: "checkpoint_inv s \<Longrightarrow> checkpoint_at s i = Some c \<Longrightarrow> checkpoint_ok i c"
  by (simp add: checkpoint_inv_def)

lemma approve_moves:
  assumes "checkpoint_inv s"
  shows "moves i (checkpoint_at s i) (checkpoint_at (snd (ApproveAndLease ctx r s)) i)"
  using entry_ok [OF assms, of "lr_CheckpointID r"]
  by (auto simp: ApproveAndLease_def validateLeaseRequest_def validateResolutionRequest_def claimable_def Let_def
      moves_simps dest: TrimSpace_blank split: option.split if_splits)

lemma reject_moves:
  assumes "checkpoint_inv s"
  shows "moves i (checkpoint_at s i) (checkpoint_at (snd (RejectCheckpoint ctx r s)) i)"
  using entry_ok [OF assms, of "lr_CheckpointID r"]
  by (auto simp: RejectCheckpoint_def validateResolutionRequest_def Let_def moves_simps
      dest: TrimSpace_blank split: option.split if_splits)

lemma finish_moves:
  assumes "checkpoint_inv s" and "status = CheckpointConsumed \<or> status = CheckpointFailed"
  shows "moves i (checkpoint_at s i) (checkpoint_at (snd (finishLease ctx l status s)) i)"
  using entry_ok [OF assms(1), of "lc_CheckpointID l"] assms(2)
  by (auto simp: finishLease_def moves_simps split: option.split)

lemma fail_pending_moves:
  assumes "checkpoint_inv s"
  shows "moves i (checkpoint_at s i) (checkpoint_at (snd (FailPendingCheckpoint ctx r s)) i)"
  using entry_ok [OF assms, of "pf_CheckpointID r"]
  by (auto simp: FailPendingCheckpoint_def moves_simps split: option.split)

lemma expire_at:
  "checkpoint_at (snd (ExpireCheckpoints ctx t s)) i
    = (if ctx = None then map_option (expire_entry (requestNow (cks_now s) t)) (checkpoint_at s i) else checkpoint_at s i)"
  by (simp add: ExpireCheckpoints_def Let_def cloneApprovalCheckpoint_def split: option.split)

lemma expire_moves:
  assumes "checkpoint_inv s"
  shows "moves i (checkpoint_at s i) (checkpoint_at (snd (ExpireCheckpoints ctx t s)) i)"
  using entry_ok [OF assms, of i]
  by (cases "checkpoint_at s i") (auto simp: expire_at expire_entry_def expirable_def moves_simps)

lemma apply_moves:
  assumes "checkpoint_inv s"
  shows "moves i (checkpoint_at s i) (checkpoint_at (checkpoint_apply op s) i)"
  using assms
  by (cases "(op, s)" rule: checkpoint_apply.cases)
    (auto simp: CompleteLease_def FailLease_def
      intro: create_moves approve_moves reject_moves finish_moves fail_pending_moves expire_moves)

lemma wf_checkpoints: "wf_map (cks_checkpoints s) \<Longrightarrow> wf_map (cks_checkpoints (checkpoint_apply op s))"
  by (cases "(op, s)" rule: checkpoint_apply.cases)
    (auto simp: CreateCheckpoint_def ApproveAndLease_def RejectCheckpoint_def CompleteLease_def FailLease_def
      finishLease_def FailPendingCheckpoint_def ExpireCheckpoints_def put_checkpoint_def Let_def split: option.split)

lemma apply_inv: "checkpoint_inv s \<Longrightarrow> checkpoint_inv (checkpoint_apply op s)"
  unfolding checkpoint_inv_def [of "checkpoint_apply op s"]
proof (intro conjI allI impI)
  assume inv: "checkpoint_inv s"
  then show "wf_map (cks_checkpoints (checkpoint_apply op s))" by (simp add: checkpoint_inv_def wf_checkpoints)
  fix i c assume "checkpoint_at (checkpoint_apply op s) i = Some c"
  with apply_moves [OF inv, of i op] inv show "checkpoint_ok i c" by (auto simp: moves_def checkpoint_inv_def)
qed

lemma new_inv: "checkpoint_inv (NewMemoryCheckpointStore now)"
  by (simp add: checkpoint_inv_def NewMemoryCheckpointStore_def)

lemma fold_inv: "checkpoint_inv s \<Longrightarrow> checkpoint_inv (fold checkpoint_apply ops s)"
  by (induction ops arbitrary: s) (simp_all add: apply_inv)


section \<open>Properties\<close>

lemma terminal_unmoved: "moves i (Some c) new \<Longrightarrow> terminal (ac_Status c) \<Longrightarrow> new = Some c"
  by (auto simp: moves_def terminal_def elim: lifecycle_fromE)

lemma terminal_stays:
  "checkpoint_inv s \<Longrightarrow> checkpoint_at s i = Some c \<Longrightarrow> terminal (ac_Status c)
    \<Longrightarrow> checkpoint_at (fold checkpoint_apply ops s) i = Some c"
proof (induction ops arbitrary: s)
  case (Cons op ops)
  have "checkpoint_at (checkpoint_apply op s) i = Some c"
    using apply_moves [OF Cons.prems(1), of i op] Cons.prems(2,3) terminal_unmoved by metis
  with Cons.IH [OF apply_inv [OF Cons.prems(1)]] Cons.prems(3) show ?case by simp
qed simp

text \<open>Property C13. The store implements the life of a checkpoint: in every state it can reach, its
  entries are well formed (a checkpoint holds ciphertext exactly while it is not terminal, a
  leased or consumed one carries the identity that approved it, a rejected one the identity that
  rejected it), each further operation either leaves a checkpoint as it is or takes one step of
  the life cycle, and a terminal checkpoint, its audit included, never changes again.
\<close>

theorem checkpoint_refines_lifecycle:
  assumes "s = fold checkpoint_apply ops (NewMemoryCheckpointStore now)"
  shows "checkpoint_inv s
    \<and> (checkpoint_at (checkpoint_apply op s) i = checkpoint_at s i
       \<or> lifecycle (map_option ac_Status (checkpoint_at s i)) (map_option ac_Status (checkpoint_at (checkpoint_apply op s) i)))
    \<and> (\<forall>c. checkpoint_at s i = Some c \<longrightarrow> terminal (ac_Status c) \<longrightarrow>
         checkpoint_at (fold checkpoint_apply later s) i = Some c)"
proof -
  have inv: "checkpoint_inv s" unfolding assms by (intro fold_inv new_inv)
  with apply_moves [OF inv, of i op] terminal_stays [OF inv] show ?thesis by (auto simp: moves_def)
qed

text \<open>The number of leases granted for a checkpoint in a sequence of operations.\<close>

fun grants :: "string \<Rightarrow> (ctx \<times> checkpoint_op) list \<Rightarrow> MemoryCheckpointStore \<Rightarrow> nat" where
  "grants i [] s = 0"
| "grants i ((ctx, op) # ops) s =
     (case op of
        OpApprove r \<Rightarrow> (case fst (ApproveAndLease ctx r s) of
            Inr c \<Rightarrow> if lr_CheckpointID r = i then 1 else 0 | Inl _ \<Rightarrow> 0)
      | _ \<Rightarrow> 0) + grants i ops (checkpoint_apply (ctx, op) s)"

lemma lease_granted:
  assumes "checkpoint_inv s" and "fst (ApproveAndLease ctx r s) = Inr c"
  shows "(\<exists>old. checkpoint_at s (lr_CheckpointID r) = Some old \<and> ac_Status old = CheckpointPending
      \<and> ac_RunID c = ac_RunID old \<and> ac_TenantID c = ac_TenantID old \<and> ac_DefinitionHash c = ac_DefinitionHash old
      \<and> ac_Ciphertext c = ac_Ciphertext old)
    \<and> checkpoint_at (snd (ApproveAndLease ctx r s)) (lr_CheckpointID r) = Some c
    \<and> ac_Status c = CheckpointLeased \<and> ac_LeaseOwner c = lr_LeaseOwner r \<and> ac_TenantID c = lr_TenantID r
    \<and> ac_ID c = lr_CheckpointID r"
  using entry_ok [OF assms(1), of "lr_CheckpointID r"] assms(2)
  by (auto simp: ApproveAndLease_def claimable_def Let_def cloneApprovalCheckpoint_def checkpoint_ok_def
      split: option.splits if_splits)

definition claimed :: "string \<Rightarrow> MemoryCheckpointStore \<Rightarrow> bool" where
  "claimed i s \<longleftrightarrow> (\<exists>c. checkpoint_at s i = Some c \<and> ac_Status c \<noteq> CheckpointPending)"

lemma claimed_stays: "checkpoint_inv s \<Longrightarrow> claimed i s \<Longrightarrow> claimed i (checkpoint_apply op s)"
  using apply_moves [of s i op] by (auto simp: claimed_def moves_def lifecycle.simps)

lemma claimed_no_grants: "checkpoint_inv s \<Longrightarrow> claimed i s \<Longrightarrow> grants i ops s = 0"
proof (induction ops arbitrary: s)
  case (Cons p ops)
  obtain ctx op where p: "p = (ctx, op)" by fastforce
  have rest: "grants i ops (checkpoint_apply p s) = 0"
    using Cons.IH [OF apply_inv [OF Cons.prems(1)] claimed_stays [OF Cons.prems]] .
  have "fst (ApproveAndLease ctx r s) \<noteq> Inr c" if "lr_CheckpointID r = i" for r c
    using lease_granted [OF Cons.prems(1), of ctx r c] Cons.prems(2) that by (auto simp: claimed_def)
  with rest show ?case unfolding p by (auto split: checkpoint_op.split sum.split)
qed simp

lemma grants_le: "checkpoint_inv s \<Longrightarrow> grants i ops s \<le> 1"
proof (induction ops arbitrary: s)
  case (Cons p ops)
  obtain ctx op where p: "p = (ctx, op)" by fastforce
  have le: "grants i ops (checkpoint_apply p s) \<le> 1" using Cons.IH [OF apply_inv [OF Cons.prems]] .
  have zero: "grants i ops (checkpoint_apply p s) = 0"
    if "op = OpApprove r" "fst (ApproveAndLease ctx r s) = Inr c" "lr_CheckpointID r = i" for r c
  proof (rule claimed_no_grants [OF apply_inv [OF Cons.prems]])
    show "claimed i (checkpoint_apply p s)"
      using lease_granted [OF Cons.prems that(2)] that p by (auto simp: claimed_def)
  qed
  show ?case
  proof (cases "\<exists>r c. op = OpApprove r \<and> fst (ApproveAndLease ctx r s) = Inr c \<and> lr_CheckpointID r = i")
    case True
    then show ?thesis using zero p by auto
  next
    case False
    then show ?thesis using le p by (auto split: checkpoint_op.split sum.split)
  qed
qed simp

text \<open>Property C14. An approval is used at most once: in every sequence of operations on a new store,
  by any number of approvers and workers, at most one lease is ever granted for a checkpoint, so
  a paused run is never resumed twice from the same checkpoint.
\<close>

theorem leased_at_most_once: "grants i ops (NewMemoryCheckpointStore now) \<le> 1"
  by (rule grants_le [OF new_inv])

text \<open>The tenant on whose behalf an operation acts; expiry and the clock act for none.\<close>

fun op_tenant :: "checkpoint_op \<Rightarrow> string option" where
  "op_tenant (OpCreate c) = Some (ac_TenantID c)"
| "op_tenant (OpApprove r) = Some (lr_TenantID r)"
| "op_tenant (OpReject r) = Some (lr_TenantID r)"
| "op_tenant (OpComplete l) = Some (lc_TenantID l)"
| "op_tenant (OpFail l) = Some (lc_TenantID l)"
| "op_tenant (OpFailPending r) = Some (pf_TenantID r)"
| "op_tenant _ = None"

text \<open>Tenants are isolated: no operation on behalf of one tenant changes or shows a
  checkpoint of another, whichever ID it names.
\<close>

theorem checkpoint_tenant_isolation:
  assumes "s = fold checkpoint_apply ops (NewMemoryCheckpointStore now)" and "checkpoint_at s i = Some c"
    and "ac_TenantID c \<noteq> tenant" and "op_tenant op = Some tenant"
  shows "checkpoint_at (checkpoint_apply (ctx, op) s) i = Some c
    \<and> (\<forall>c'. GetCheckpoint ctx i tenant s \<noteq> Inr c')"
proof
  have inv: "checkpoint_inv s" unfolding assms(1) by (intro fold_inv new_inv)
  have ids: "ac_ID c' = j" if "checkpoint_at s j = Some c'" for j c'
    using entry_ok [OF inv that] by (simp add: checkpoint_ok_def)
  show "checkpoint_at (checkpoint_apply (ctx, op) s) i = Some c"
    using assms(2-4) ids
    by (cases op) (auto simp: CreateCheckpoint_def ApproveAndLease_def claimable_def RejectCheckpoint_def CompleteLease_def
        FailLease_def finishLease_def FailPendingCheckpoint_def Let_def split: option.splits if_splits)
  show "\<forall>c'. GetCheckpoint ctx i tenant s \<noteq> Inr c'"
    using assms(2,3) by (simp add: GetCheckpoint_def split: option.split)
qed


text \<open>A checkpoint that one tenant creates, and a request of the right tenant to approve it.\<close>

definition demo_checkpoint :: ApprovalCheckpoint where
  "demo_checkpoint = \<lparr>ac_ID = ''k'', ac_RunID = ''r'', ac_TenantID = ''t'', ac_DefinitionHash = ''h'',
     ac_Ciphertext = ''c'', ac_Status = CheckpointPending, ac_FailureCode = '''', ac_LeaseOwner = '''', ac_LeaseUntil = 0,
     ac_ExpiresAt = 100, ac_Approval = None, ac_CreatedAt = 5, ac_UpdatedAt = 5\<rparr>"

definition demo_approval :: ApprovalLeaseRequest where
  "demo_approval = \<lparr>lr_CheckpointID = ''k'', lr_TenantID = ''t'', lr_DefinitionHash = ''h'', lr_ApproverID = ''a'',
     lr_AuditRef = ''x'', lr_ReasonCode = '''', lr_LeaseOwner = ''w'', lr_LeaseDuration = 10, lr_Now = 7\<rparr>"

lemma demo_trim:
  "TrimSpace ''k'' = ''k''" "TrimSpace ''t'' = ''t''" "TrimSpace ''h'' = ''h''" "TrimSpace ''a'' = ''a''"
  "TrimSpace ''x'' = ''x''" "TrimSpace ''w'' = ''w''" "TrimSpace ''r'' = ''r''"
  by (simp_all add: TrimSpace_ascii is_space_def)

lemma demo_created:
  "checkpoint_at (fold checkpoint_apply [(None, OpCreate demo_checkpoint)] (NewMemoryCheckpointStore 5)) ''k'' = Some demo_checkpoint"
  by (simp add: NewMemoryCheckpointStore_def CreateCheckpoint_def validateCheckpoint_def demo_checkpoint_def demo_trim
      put_checkpoint_def cloneApprovalCheckpoint_def Let_def)

lemma demo_leased:
  "map_option ac_Status (checkpoint_at (checkpoint_apply (None, OpApprove demo_approval)
     (fold checkpoint_apply [(None, OpCreate demo_checkpoint)] (NewMemoryCheckpointStore 5))) ''k'') = Some CheckpointLeased"
  by (simp add: NewMemoryCheckpointStore_def CreateCheckpoint_def validateCheckpoint_def demo_checkpoint_def demo_trim
      put_checkpoint_def cloneApprovalCheckpoint_def ApproveAndLease_def validateLeaseRequest_def demo_approval_def
      validateResolutionRequest_def claimable_def requestNow_def Let_def)

theorem checkpoint_refines_lifecycle_witness:
  "\<exists>s. s = fold checkpoint_apply [(None, OpCreate demo_checkpoint)] (NewMemoryCheckpointStore 5) \<and> checkpoint_inv s
    \<and> lifecycle (Some CheckpointPending) (map_option ac_Status (checkpoint_at (checkpoint_apply (None, OpApprove demo_approval) s) ''k''))"
proof (intro exI conjI)
  let ?s = "fold checkpoint_apply [(None, OpCreate demo_checkpoint)] (NewMemoryCheckpointStore 5)"
  note law = checkpoint_refines_lifecycle [where op = "(None, OpApprove demo_approval)" and i = "''k''", OF refl,
      of "[(None, OpCreate demo_checkpoint)]" 5]
  show "checkpoint_inv ?s" using law by blast
  show "lifecycle (Some CheckpointPending) (map_option ac_Status (checkpoint_at (checkpoint_apply (None, OpApprove demo_approval) ?s) ''k''))"
    using law demo_created demo_leased by (auto simp: lifecycle.simps simp del: fold_simps)
qed simp

theorem checkpoint_tenant_isolation_witness:
  "checkpoint_at (checkpoint_apply (None, OpApprove (demo_approval\<lparr>lr_TenantID := ''u''\<rparr>))
     (fold checkpoint_apply [(None, OpCreate demo_checkpoint)] (NewMemoryCheckpointStore 5))) ''k'' = Some demo_checkpoint"
  using checkpoint_tenant_isolation [OF refl demo_created, of "''u''" "OpApprove (demo_approval\<lparr>lr_TenantID := ''u''\<rparr>)" None]
  by (simp add: demo_checkpoint_def del: fold_simps)

end
