(* ===== verification/Approval_Adapter.thy ===== *)
theory Approval_Adapter
  imports Checkpoint_Store Agent_Core
begin

text \<open>
  \<open>runkit/goagentapproval/adapter.go\<close>: the adapter that encrypts an interrupted agent run into a
  checkpoint store and, after an approval, resumes it once. The store is a record of operations,
  the locale \<open>checkpoint_store\<close> is the contract the adapter relies on, and the in-memory store
  satisfies it. The cipher, the resumer and the JSON codec are the host's and the library's:
  functions of the model's arguments, the first two over a world \<open>'w\<close>. A context is read once per
  store call: \<open>ctx k\<close> is its \<open>Err()\<close> at the \<open>k\<close>-th of them. A panic of the resumer is \<open>None\<close>.
\<close>

section \<open>Data\<close>

record 's CheckpointStore =
  cs_CreateCheckpoint :: "ctx \<Rightarrow> ApprovalCheckpoint \<Rightarrow> 's \<Rightarrow> CheckpointError option \<times> 's"
  cs_ApproveAndLease :: "ctx \<Rightarrow> ApprovalLeaseRequest \<Rightarrow> 's \<Rightarrow> (CheckpointError + ApprovalCheckpoint) \<times> 's"
  cs_RejectCheckpoint :: "ctx \<Rightarrow> ApprovalLeaseRequest \<Rightarrow> 's \<Rightarrow> CheckpointError option \<times> 's"
  cs_CompleteLease :: "ctx \<Rightarrow> CheckpointLeaseCompletion \<Rightarrow> 's \<Rightarrow> CheckpointError option \<times> 's"
  cs_FailLease :: "ctx \<Rightarrow> CheckpointLeaseCompletion \<Rightarrow> 's \<Rightarrow> CheckpointError option \<times> 's"

text \<open>The errors of the package; a wrapped cause is the argument.\<close>

datatype AdapterError = ErrInvalidPendingCheckpoint "string option" | ErrInvalidNextCheckpoint
  | ErrCheckpointEncrypt "string option" | ErrCheckpointDecrypt string | ErrCheckpointDecode string
  | ErrNextCheckpointPersist "AdapterError option" | ErrLeaseCompletion CheckpointError | ErrResumeResultMissing
  | StoreFailed CheckpointError | ResumeFailed AgentError

record ('s, 'w) Adapter =
  ad_store :: "'s CheckpointStore"
  ad_Encrypt :: "string \<Rightarrow> string \<Rightarrow> 'w \<Rightarrow> (string + string) \<times> 'w"
  ad_Decrypt :: "string \<Rightarrow> string \<Rightarrow> 'w \<Rightarrow> (string + string) \<times> 'w"
  ad_ResumeDetailed :: "RunCheckpoint \<Rightarrow> ToolApprovalResolution list \<Rightarrow> 'w
      \<Rightarrow> (RunResult option \<times> AgentError option) option \<times> 'w"
  ad_Marshal :: "RunCheckpoint \<Rightarrow> string + string"
  ad_Unmarshal :: "string \<Rightarrow> string + RunCheckpoint"
  ad_json_string :: "string \<Rightarrow> string"
  ad_clock :: "'w \<Rightarrow> time"

record PendingCheckpoint =
  pc_ID :: string
  pc_Tenant :: string
  pc_DefinitionHash :: string
  pc_ExpiresAt :: time
  pc_Checkpoint :: RunCheckpoint

record NextCheckpoint =
  nc_ID :: string
  nc_ExpiresAt :: time

record ResumeRequest =
  rq_Approval :: ApprovalLeaseRequest
  rq_Resolutions :: "ToolApprovalResolution list"
  rq_Next :: NextCheckpoint

section \<open>Operations\<close>

definition checkpointAAD :: "(string \<Rightarrow> string) \<Rightarrow> string \<Rightarrow> string \<Rightarrow> string \<Rightarrow> string \<Rightarrow> string" where
  "checkpointAAD enc checkpointID runID tenantID definitionHash =
     (let q = CHR 0x22; key = (\<lambda>k v. [q] @ k @ [q] @ '':'' @ enc v)
      in ''{'' @ key ''checkpoint_id'' checkpointID @ '','' @ key ''run_id'' runID @ '',''
         @ key ''tenant_id'' tenantID @ '','' @ key ''definition_hash'' definitionHash @ ''}'')"

definition validatePending :: "PendingCheckpoint \<Rightarrow> AdapterError option" where
  "validatePending p =
     (if TrimSpace (pc_ID p) = '''' \<or> TrimSpace (pc_Tenant p) = '''' \<or> TrimSpace (pc_DefinitionHash p) = ''''
         \<or> pc_ExpiresAt p = 0 \<or> TrimSpace (ck_RunID (pc_Checkpoint p)) = '''' \<or> ck_PendingCalls (pc_Checkpoint p) = []
      then Some (ErrInvalidPendingCheckpoint None) else None)"

definition validateNextCheckpoint :: "time \<Rightarrow> NextCheckpoint \<Rightarrow> ApprovalLeaseRequest \<Rightarrow> AdapterError option" where
  "validateNextCheckpoint clock n approval =
     (if TrimSpace (nc_ID n) = '''' \<or> nc_ExpiresAt n = 0 \<or> nc_ID n = lr_CheckpointID approval
      then Some ErrInvalidNextCheckpoint
      else (let now = (if lr_Now approval = 0 then clock else lr_Now approval)
            in if \<not> nc_ExpiresAt n > now then Some ErrInvalidNextCheckpoint else None))"

definition pending_row :: "PendingCheckpoint \<Rightarrow> string \<Rightarrow> ApprovalCheckpoint" where
  "pending_row p ciphertext = \<lparr>ac_ID = pc_ID p, ac_RunID = ck_RunID (pc_Checkpoint p), ac_TenantID = pc_Tenant p,
     ac_DefinitionHash = pc_DefinitionHash p, ac_Ciphertext = ciphertext, ac_Status = CheckpointPending,
     ac_FailureCode = '''', ac_LeaseOwner = '''', ac_LeaseUntil = 0, ac_ExpiresAt = pc_ExpiresAt p,
     ac_Approval = None, ac_CreatedAt = 0, ac_UpdatedAt = 0\<rparr>"

definition SavePending ::
  "('s, 'w) Adapter \<Rightarrow> ctx \<Rightarrow> PendingCheckpoint \<Rightarrow> 's \<Rightarrow> 'w \<Rightarrow> AdapterError option \<times> 's \<times> 'w" where
  "SavePending a ctx p s w = (case validatePending p of
      Some err \<Rightarrow> (Some err, s, w)
    | None \<Rightarrow> (case ad_Marshal a (pc_Checkpoint p) of
        Inl e \<Rightarrow> (Some (ErrInvalidPendingCheckpoint (Some e)), s, w)
      | Inr payload \<Rightarrow>
          (case ad_Encrypt a payload (checkpointAAD (ad_json_string a) (pc_ID p) (ck_RunID (pc_Checkpoint p))
                  (pc_Tenant p) (pc_DefinitionHash p)) w of
             (Inl e, w) \<Rightarrow> (Some (ErrCheckpointEncrypt (Some e)), s, w)
           | (Inr ciphertext, w) \<Rightarrow>
               if ciphertext = '''' then (Some (ErrCheckpointEncrypt None), s, w)
               else (case cs_CreateCheckpoint (ad_store a) ctx (pending_row p ciphertext) s of
                   (err, s) \<Rightarrow> (map_option StoreFailed err, s, w)))))"

definition Reject ::
  "('s, 'w) Adapter \<Rightarrow> ctx \<Rightarrow> ApprovalLeaseRequest \<Rightarrow> 's \<Rightarrow> AdapterError option \<times> 's" where
  "Reject a ctx r s = (case cs_RejectCheckpoint (ad_store a) ctx r s of (err, s) \<Rightarrow> (map_option StoreFailed err, s))"

definition decryptCheckpoint ::
  "('s, 'w) Adapter \<Rightarrow> ApprovalCheckpoint \<Rightarrow> 'w \<Rightarrow> (AdapterError + RunCheckpoint) \<times> 'w" where
  "decryptCheckpoint a c w =
     (case ad_Decrypt a (ac_Ciphertext c) (checkpointAAD (ad_json_string a) (ac_ID c) (ac_RunID c)
             (ac_TenantID c) (ac_DefinitionHash c)) w of
        (Inl e, w) \<Rightarrow> (Inl (ErrCheckpointDecrypt e), w)
      | (Inr payload, w) \<Rightarrow> (case ad_Unmarshal a payload of
          Inl e \<Rightarrow> (Inl (ErrCheckpointDecode e), w)
        | Inr c \<Rightarrow> (Inr c, w)))"

definition completeLease ::
  "('s, 'w) Adapter \<Rightarrow> ctx \<Rightarrow> ApprovalCheckpoint \<Rightarrow> ApprovalLeaseRequest \<Rightarrow> 's \<Rightarrow> AdapterError option \<times> 's" where
  "completeLease a ctx c r s =
     (case cs_CompleteLease (ad_store a) ctx \<lparr>lc_CheckpointID = ac_ID c, lc_TenantID = ac_TenantID c,
             lc_LeaseOwner = lr_LeaseOwner r, lc_FailureCode = '''', lc_Now = lr_Now r\<rparr> s of
        (err, s) \<Rightarrow> (map_option ErrLeaseCompletion err, s))"

definition failLease ::
  "('s, 'w) Adapter \<Rightarrow> ctx \<Rightarrow> ApprovalCheckpoint \<Rightarrow> ApprovalLeaseRequest \<Rightarrow> string \<Rightarrow> RunResult option
     \<Rightarrow> AdapterError \<Rightarrow> 's \<Rightarrow> (RunResult option \<times> AdapterError option) \<times> 's" where
  "failLease a ctx c r failureCode result cause s =
     (case cs_FailLease (ad_store a) ctx \<lparr>lc_CheckpointID = ac_ID c, lc_TenantID = ac_TenantID c,
             lc_LeaseOwner = lr_LeaseOwner r, lc_FailureCode = failureCode, lc_Now = lr_Now r\<rparr> s of
        (Some e, s) \<Rightarrow> ((result, Some (ErrLeaseCompletion e)), s)
      | (None, s) \<Rightarrow> ((result, Some cause), s))"

definition next_pending :: "ResumeRequest \<Rightarrow> ApprovalCheckpoint \<Rightarrow> RunCheckpoint \<Rightarrow> PendingCheckpoint" where
  "next_pending req leased c = \<lparr>pc_ID = nc_ID (rq_Next req), pc_Tenant = ac_TenantID leased,
     pc_DefinitionHash = ac_DefinitionHash leased, pc_ExpiresAt = nc_ExpiresAt (rq_Next req), pc_Checkpoint = c\<rparr>"

text \<open>What follows the resumer's return.\<close>

definition close_resumed ::
  "('s, 'w) Adapter \<Rightarrow> (nat \<Rightarrow> ctx) \<Rightarrow> ResumeRequest \<Rightarrow> ApprovalCheckpoint \<Rightarrow> RunResult option \<Rightarrow> AgentError option
     \<Rightarrow> 's \<Rightarrow> 'w \<Rightarrow> (RunResult option \<times> AdapterError option) \<times> 's \<times> 'w" where
  "close_resumed a ctx req leased result resumeErr s w =
     (let approval = rq_Approval req;
          failing = (\<lambda>code result cause s w. case failLease a (ctx 2) leased approval code result cause s of (r, s) \<Rightarrow> (r, s, w));
          closing = (\<lambda>err s w. case completeLease a (ctx 2) leased approval s of
             (Some e, s) \<Rightarrow> ((result, Some e), s, w) | (None, s) \<Rightarrow> ((result, err), s, w))
      in if result = None \<and> resumeErr = None then failing ''resume_result_missing'' None ErrResumeResultMissing s w
         else (case resumeErr of
             None \<Rightarrow> closing None s w
           | Some e \<Rightarrow>
               if errors_Is e ErrApprovalPending then
                 (case Option.bind result rr_Interruption of
                    None \<Rightarrow> failing ''resume_interruption_missing'' result (ErrNextCheckpointPersist None) s w
                  | Some c \<Rightarrow> (case SavePending a (ctx 1) (next_pending req leased c) s w of
                      (Some err, s, w) \<Rightarrow>
                        failing ''next_checkpoint_persist_failed'' result (ErrNextCheckpointPersist (Some err)) s w
                    | (None, s, w) \<Rightarrow> closing (Some (ResumeFailed e)) s w))
               else failing ''agent_resume_failed'' result (ResumeFailed e) s w))"

definition ApproveAndResume ::
  "('s, 'w) Adapter \<Rightarrow> (nat \<Rightarrow> ctx) \<Rightarrow> ResumeRequest \<Rightarrow> 's \<Rightarrow> 'w
     \<Rightarrow> (RunResult option \<times> AdapterError option) option \<times> 's \<times> 'w" where
  "ApproveAndResume a ctx req s w =
     (case validateNextCheckpoint (ad_clock a w) (rq_Next req) (rq_Approval req) of
        Some err \<Rightarrow> (Some (None, Some err), s, w)
      | None \<Rightarrow> (case cs_ApproveAndLease (ad_store a) (ctx 0) (rq_Approval req) s of
          (Inl e, s) \<Rightarrow> (Some (None, Some (StoreFailed e)), s, w)
        | (Inr leased, s) \<Rightarrow> (case decryptCheckpoint a leased w of
            (Inl err, w) \<Rightarrow>
              (case failLease a (ctx 2) leased (rq_Approval req) ''checkpoint_decode_failed'' None err s of
                 (r, s) \<Rightarrow> (Some r, s, w))
          | (Inr checkpoint, w) \<Rightarrow> (case ad_ResumeDetailed a checkpoint (rq_Resolutions req) w of
              (None, w) \<Rightarrow> (None, s, w)
            | (Some (result, resumeErr), w) \<Rightarrow>
                (case close_resumed a ctx req leased result resumeErr s w of (r, s, w) \<Rightarrow> (Some r, s, w))))))"


section \<open>The contract of the store\<close>

definition leased_for :: "ApprovalLeaseRequest \<Rightarrow> ApprovalCheckpoint \<Rightarrow> bool" where
  "leased_for r c \<longleftrightarrow> ac_ID c = lr_CheckpointID r \<and> ac_Status c = CheckpointLeased \<and> ac_LeaseOwner c = lr_LeaseOwner r
     \<and> ac_TenantID c = lr_TenantID r \<and> TrimSpace (lr_CheckpointID r) \<noteq> '''' \<and> TrimSpace (lr_TenantID r) \<noteq> ''''
     \<and> TrimSpace (lr_LeaseOwner r) \<noteq> ''''"

definition completion_of :: "ApprovalCheckpoint \<Rightarrow> ApprovalLeaseRequest \<Rightarrow> string \<Rightarrow> CheckpointLeaseCompletion" where
  "completion_of c r code = \<lparr>lc_CheckpointID = ac_ID c, lc_TenantID = ac_TenantID c,
     lc_LeaseOwner = lr_LeaseOwner r, lc_FailureCode = code, lc_Now = lr_Now r\<rparr>"

text \<open>The same row: what a status change leaves alone.\<close>

definition same_row :: "ApprovalCheckpoint \<Rightarrow> ApprovalCheckpoint \<Rightarrow> bool" where
  "same_row c c' \<longleftrightarrow> ac_ID c = ac_ID c' \<and> ac_RunID c = ac_RunID c' \<and> ac_TenantID c = ac_TenantID c'
     \<and> ac_DefinitionHash c = ac_DefinitionHash c' \<and> ac_ExpiresAt c = ac_ExpiresAt c'"

text \<open>How a resumed run leaves the lease it was resumed under.\<close>

definition lease_closed ::
  "('s \<Rightarrow> string \<Rightarrow> ApprovalCheckpoint option) \<Rightarrow> ResumeRequest \<Rightarrow> AdapterError option \<Rightarrow> 's \<Rightarrow> bool" where
  "lease_closed row req err s \<longleftrightarrow> (\<exists>c. row s (lr_CheckpointID (rq_Approval req)) = Some c \<and>
     (case err of
        None \<Rightarrow> ac_Status c = CheckpointConsumed
      | Some (ResumeFailed e) \<Rightarrow>
          if errors_Is e ErrApprovalPending
          then ac_Status c = CheckpointConsumed
            \<and> (\<exists>n. row s (nc_ID (rq_Next req)) = Some n \<and> ac_Status n = CheckpointPending \<and> ac_ExpiresAt n = nc_ExpiresAt (rq_Next req))
          else ac_Status c = CheckpointFailed \<and> ac_FailureCode c = ''agent_resume_failed''
      | Some _ \<Rightarrow> ac_Status c = CheckpointFailed))"

locale checkpoint_store =
  fixes st :: "'s CheckpointStore"
    and row :: "'s \<Rightarrow> string \<Rightarrow> ApprovalCheckpoint option"
    and ok :: "'s \<Rightarrow> bool"
  assumes create_ok: "ok s \<Longrightarrow> ok (snd (cs_CreateCheckpoint st ctx c s))"
    and approve_ok: "ok s \<Longrightarrow> ok (snd (cs_ApproveAndLease st ctx r s))"
    and approve_refused: "cs_ApproveAndLease st ctx r s = (Inl e, s') \<Longrightarrow> s' = s"
    and approve_granted: "ok s \<Longrightarrow> cs_ApproveAndLease st ctx r s = (Inr c, s') \<Longrightarrow>
      row s' (lr_CheckpointID r) = Some c \<and> leased_for r c
      \<and> (\<exists>old. row s (lr_CheckpointID r) = Some old \<and> ac_Status old = CheckpointPending \<and> same_row c old
           \<and> ac_Ciphertext c = ac_Ciphertext old)"
    and complete_closes: "ok s \<Longrightarrow> row s (lr_CheckpointID r) = Some c \<Longrightarrow> leased_for r c \<Longrightarrow>
      \<exists>s' c'. cs_CompleteLease st None (completion_of c r code) s = (None, s') \<and> row s' (lr_CheckpointID r) = Some c'
        \<and> ac_Status c' = CheckpointConsumed \<and> (\<forall>j. j \<noteq> lr_CheckpointID r \<longrightarrow> row s' j = row s j)"
    and fail_closes: "ok s \<Longrightarrow> row s (lr_CheckpointID r) = Some c \<Longrightarrow> leased_for r c \<Longrightarrow> TrimSpace code \<noteq> '''' \<Longrightarrow>
      \<exists>s' c'. cs_FailLease st None (completion_of c r code) s = (None, s') \<and> row s' (lr_CheckpointID r) = Some c'
        \<and> ac_Status c' = CheckpointFailed \<and> ac_FailureCode c' = code \<and> (\<forall>j. j \<noteq> lr_CheckpointID r \<longrightarrow> row s' j = row s j)"
    and create_stored: "cs_CreateCheckpoint st ctx c s = (None, s') \<Longrightarrow> row s (ac_ID c) = None
      \<and> (\<exists>c'. row s' (ac_ID c) = Some c' \<and> ac_Status c' = CheckpointPending \<and> same_row c' c \<and> ac_Ciphertext c' = ac_Ciphertext c)
      \<and> (\<forall>j. j \<noteq> ac_ID c \<longrightarrow> row s' j = row s j)"
    and create_refused: "cs_CreateCheckpoint st ctx c s = (Some err, s') \<Longrightarrow> s' = s"
    and ctx_refuses: "cs_CompleteLease st (Some ce) l s = (Some (CheckpointCtx ce), s)"
      "cs_FailLease st (Some ce) l s = (Some (CheckpointCtx ce), s)"
begin

lemma failing_closes:
  assumes "ok s" and "row s (lr_CheckpointID r) = Some c" and "leased_for r c" and "TrimSpace code \<noteq> ''''"
    and "ad_store a = st"
  shows "\<exists>s' c'. failLease a None c r code result cause s = ((result, Some cause), s')
    \<and> row s' (lr_CheckpointID r) = Some c' \<and> ac_Status c' = CheckpointFailed \<and> ac_FailureCode c' = code"
  using fail_closes [OF assms(1-4)] assms(5) by (auto simp: failLease_def completion_of_def)

lemma completing_closes:
  assumes "ok s" and "row s (lr_CheckpointID r) = Some c" and "leased_for r c" and "ad_store a = st"
  shows "\<exists>s' c'. completeLease a None c r s = (None, s') \<and> row s' (lr_CheckpointID r) = Some c'
    \<and> ac_Status c' = CheckpointConsumed \<and> (\<forall>j. j \<noteq> lr_CheckpointID r \<longrightarrow> row s' j = row s j)"
  using complete_closes [OF assms(1-3), of "''''"] assms(4) by (auto simp: completeLease_def completion_of_def)

text \<open>\<open>SavePending\<close> stores a pending row for the interruption, or leaves the store alone.\<close>

lemma saved_pending:
  assumes "ok s" and "ad_store a = st" and "SavePending a ctx p s w = (err, s', w')"
  shows "ok s' \<and> (\<forall>j. j \<noteq> pc_ID p \<longrightarrow> row s' j = row s j) \<and> (err \<noteq> None \<longrightarrow> s' = s)
    \<and> (err = None \<longrightarrow> (\<exists>c' payload w0 ciphertext. ad_Marshal a (pc_Checkpoint p) = Inr payload
        \<and> ad_Encrypt a payload (checkpointAAD (ad_json_string a) (pc_ID p) (ck_RunID (pc_Checkpoint p))
            (pc_Tenant p) (pc_DefinitionHash p)) w0 = (Inr ciphertext, w')
        \<and> row s' (pc_ID p) = Some c' \<and> ac_Status c' = CheckpointPending
        \<and> same_row c' (pending_row p ciphertext) \<and> ac_Ciphertext c' = ciphertext))"
proof -
  have eff: "ok s2 \<and> (\<forall>j. j \<noteq> pc_ID p \<longrightarrow> row s2 j = row s j) \<and> (e \<noteq> None \<longrightarrow> s2 = s)
      \<and> (e = None \<longrightarrow> (\<exists>c'. row s2 (pc_ID p) = Some c' \<and> ac_Status c' = CheckpointPending
        \<and> same_row c' (pending_row p ct) \<and> ac_Ciphertext c' = ct))"
    if c: "cs_CreateCheckpoint st ctx (pending_row p ct) s = (e, s2)" for e s2 ct
  proof (cases e)
    case None
    with create_stored [of ctx "pending_row p ct" s s2] create_ok [OF assms(1), of ctx "pending_row p ct"] c
    show ?thesis by (auto simp: pending_row_def)
  next
    case (Some x)
    with create_refused [of ctx "pending_row p ct" s x s2] c assms(1) show ?thesis by auto
  qed
  show ?thesis
  proof (cases err)
    case None
    with assms(3) obtain payload ct where m: "ad_Marshal a (pc_Checkpoint p) = Inr payload"
      and enc: "ad_Encrypt a payload (checkpointAAD (ad_json_string a) (pc_ID p) (ck_RunID (pc_Checkpoint p))
        (pc_Tenant p) (pc_DefinitionHash p)) w = (Inr ct, w')"
      and cr: "cs_CreateCheckpoint st ctx (pending_row p ct) s = (None, s')"
      unfolding SavePending_def assms(2) by (auto split: option.splits sum.splits prod.splits if_splits)
    from eff [OF cr] m enc None show ?thesis by blast
  next
    case (Some e)
    with assms(3) have "s' = s \<or> (\<exists>ct x. cs_CreateCheckpoint st ctx (pending_row p ct) s = (Some x, s'))"
      unfolding SavePending_def assms(2) by (auto split: option.splits sum.splits prod.splits if_splits)
    with eff assms(1) Some show ?thesis by auto
  qed
qed

lemma resumed_lease_closed:
  assumes "ok s" and "ad_store a = st" and "row s (lr_CheckpointID (rq_Approval req)) = Some leased"
    and "leased_for (rq_Approval req) leased" and "nc_ID (rq_Next req) \<noteq> lr_CheckpointID (rq_Approval req)"
    and "close_resumed a (\<lambda>_. None) req leased result resumeErr s w = ((res, err), s', w')"
  shows "lease_closed row req err s'"
proof -
  let ?r = "rq_Approval req" and ?i = "lr_CheckpointID (rq_Approval req)"
  have codes: "TrimSpace ''resume_result_missing'' \<noteq> ''''" "TrimSpace ''resume_interruption_missing'' \<noteq> ''''"
    "TrimSpace ''next_checkpoint_persist_failed'' \<noteq> ''''" "TrimSpace ''agent_resume_failed'' \<noteq> ''''"
    by (simp_all add: TrimSpace_ascii is_space_def)
  have failing: "\<exists>s2 c'. failLease a None leased ?r code result' cause s1 = ((result', Some cause), s2)
      \<and> row s2 ?i = Some c' \<and> ac_Status c' = CheckpointFailed \<and> ac_FailureCode c' = code"
    if "ok s1" "row s1 ?i = Some leased" "TrimSpace code \<noteq> ''''" for code result' cause s1
    using failing_closes [OF that(1,2) assms(4) that(3) assms(2)] .
  note completing = completing_closes [OF _ _ assms(4) assms(2)]
  consider (missing) "result = None" "resumeErr = None" | (fine) "result \<noteq> None" "resumeErr = None"
    | (failed) e where "resumeErr = Some e" "\<not> errors_Is e ErrApprovalPending"
    | (lost) e where "resumeErr = Some e" "errors_Is e ErrApprovalPending" "Option.bind result rr_Interruption = None"
    | (paused) e c where "resumeErr = Some e" "errors_Is e ErrApprovalPending" "Option.bind result rr_Interruption = Some c"
    by (cases resumeErr; cases "Option.bind result rr_Interruption"; cases result) auto
  then show ?thesis
  proof cases
    case missing
    with failing [OF assms(1,3) codes(1), of None ErrResumeResultMissing] assms(6) show ?thesis
      by (auto simp: close_resumed_def lease_closed_def Let_def)
  next
    case fine
    with completing [OF assms(1,3)] assms(6) show ?thesis
      by (auto simp: close_resumed_def lease_closed_def Let_def)
  next
    case failed
    with failing [OF assms(1,3) codes(4), of result "ResumeFailed e"] assms(6) show ?thesis
      by (auto simp: close_resumed_def lease_closed_def Let_def)
  next
    case lost
    with failing [OF assms(1,3) codes(2), of result "ErrNextCheckpointPersist None"] assms(6) show ?thesis
      by (auto simp: close_resumed_def lease_closed_def Let_def)
  next
    case paused
    obtain perr s1 w1 where sp: "SavePending a None (next_pending req leased c) s w = (perr, s1, w1)" by (metis prod_cases3)
    note saved = saved_pending [OF assms(1,2) sp]
    have row1: "row s1 ?i = Some leased" using saved assms(3,5) by (auto simp: next_pending_def)
    show ?thesis
    proof (cases perr)
      case (Some pe)
      with failing [OF _ row1 codes(3), of result "ErrNextCheckpointPersist (Some pe)"] saved paused sp assms(6) show ?thesis
        by (auto simp: close_resumed_def lease_closed_def Let_def)
    next
      case None
      with saved obtain n where n: "row s1 (nc_ID (rq_Next req)) = Some n" "ac_Status n = CheckpointPending"
        "ac_ExpiresAt n = nc_ExpiresAt (rq_Next req)"
        by (auto simp: next_pending_def same_row_def pending_row_def)
      from completing [OF _ row1] saved obtain s2 c2 where
        c2: "completeLease a None leased ?r s1 = (None, s2)" "row s2 ?i = Some c2" "ac_Status c2 = CheckpointConsumed"
          "\<forall>j. j \<noteq> ?i \<longrightarrow> row s2 j = row s1 j" by blast
      with None paused sp assms(5,6) n show ?thesis
        by (auto simp: close_resumed_def lease_closed_def Let_def)
    qed
  qed
qed

lemma approved_resume_closes:
  assumes "ok s" and "ad_store a = st" and "ApproveAndResume a (\<lambda>_. None) req s w = (Some (res, err), s', w')"
  shows "(s' = s \<and> w' = w \<and> res = None \<and> (err = Some ErrInvalidNextCheckpoint \<or> (\<exists>e. err = Some (StoreFailed e))))
    \<or> (\<exists>old. row s (lr_CheckpointID (rq_Approval req)) = Some old \<and> ac_Status old = CheckpointPending \<and> lease_closed row req err s')"
proof (cases "validateNextCheckpoint (ad_clock a w) (rq_Next req) (rq_Approval req)")
  case (Some e)
  with assms(3) show ?thesis by (auto simp: ApproveAndResume_def validateNextCheckpoint_def Let_def split: if_splits)
next
  case None
  then have ne: "nc_ID (rq_Next req) \<noteq> lr_CheckpointID (rq_Approval req)"
    by (auto simp: validateNextCheckpoint_def split: if_splits)
  obtain lease s1 where l: "cs_ApproveAndLease st None (rq_Approval req) s = (lease, s1)" by fastforce
  show ?thesis
  proof (cases lease)
    case (Inl e)
    with None l assms(2,3) approve_refused [of None "rq_Approval req" s e s1] show ?thesis
      by (auto simp: ApproveAndResume_def)
  next
    case (Inr leased)
    note granted = approve_granted [OF assms(1) l [unfolded Inr]]
    have ok1: "ok s1" using approve_ok [OF assms(1), of None "rq_Approval req"] l by simp
    from granted have row1: "row s1 (lr_CheckpointID (rq_Approval req)) = Some leased" and lf: "leased_for (rq_Approval req) leased"
      by blast+
    have code: "TrimSpace ''checkpoint_decode_failed'' \<noteq> ''''" by (simp add: TrimSpace_ascii is_space_def)
    have "lease_closed row req err s'"
    proof (cases "decryptCheckpoint a leased w")
      case (Pair d w1)
      show ?thesis
      proof (cases d)
        case (Inl derr)
        have notres: "derr \<noteq> ResumeFailed e" for e
          using Pair Inl by (auto simp: decryptCheckpoint_def split: sum.splits prod.splits)
        from failing_closes [OF ok1 row1 lf code assms(2), of None derr] Inl Pair None l Inr assms(2,3) notres
        show ?thesis by (auto simp: ApproveAndResume_def lease_closed_def split: AdapterError.split)
      next
        case (Inr rc)
        obtain rr w2 where rd: "ad_ResumeDetailed a rc (rq_Resolutions req) w1 = (rr, w2)" by fastforce
        with assms(2,3) None l \<open>lease = Inr leased\<close> Pair Inr obtain result resumeErr where
          "rr = Some (result, resumeErr)"
          "close_resumed a (\<lambda>_. None) req leased result resumeErr s1 w2 = ((res, err), s', w')"
          by (auto simp: ApproveAndResume_def split: option.splits prod.splits)
        with resumed_lease_closed [OF ok1 assms(2) row1 lf ne] show ?thesis by blast
      qed
    qed
    with granted show ?thesis by blast
  qed
qed

end


section \<open>The in-memory store satisfies the contract\<close>

definition memory_checkpoints :: "MemoryCheckpointStore CheckpointStore" where
  "memory_checkpoints = \<lparr>cs_CreateCheckpoint = CreateCheckpoint, cs_ApproveAndLease = ApproveAndLease,
     cs_RejectCheckpoint = RejectCheckpoint, cs_CompleteLease = CompleteLease, cs_FailLease = FailLease\<rparr>"

lemma finish_closes:
  assumes "checkpoint_at s (lr_CheckpointID r) = Some c" and "leased_for r c"
    and "status = CheckpointFailed \<Longrightarrow> TrimSpace code \<noteq> ''''"
  shows "\<exists>s' c'. finishLease None (completion_of c r code) status s = (None, s') \<and> checkpoint_at s' (lr_CheckpointID r) = Some c'
    \<and> ac_Status c' = status \<and> (status = CheckpointFailed \<longrightarrow> ac_FailureCode c' = code)
    \<and> (\<forall>j. j \<noteq> lr_CheckpointID r \<longrightarrow> checkpoint_at s' j = checkpoint_at s j)"
  using assms by (auto simp: finishLease_def completion_of_def leased_for_def)

interpretation mem_checkpoints: checkpoint_store memory_checkpoints checkpoint_at checkpoint_inv
proof (unfold_locales, goal_cases)
  case (1 s ctx c)
  then show ?case using apply_inv [of s "(ctx, OpCreate c)"] by (simp add: memory_checkpoints_def)
next
  case (2 s ctx r)
  then show ?case using apply_inv [of s "(ctx, OpApprove r)"] by (simp add: memory_checkpoints_def)
next
  case (3 ctx r s e s')
  then show ?case by (auto simp: memory_checkpoints_def ApproveAndLease_def Let_def split: option.splits if_splits)
next
  case (4 s ctx r c s')
  then have a: "ApproveAndLease ctx r s = (Inr c, s')" by (simp add: memory_checkpoints_def)
  then have nb: "TrimSpace (lr_CheckpointID r) \<noteq> '''' \<and> TrimSpace (lr_TenantID r) \<noteq> '''' \<and> TrimSpace (lr_LeaseOwner r) \<noteq> ''''"
    by (auto simp: ApproveAndLease_def validateLeaseRequest_def validateResolutionRequest_def Let_def
        split: option.splits if_splits)
  obtain old where old: "checkpoint_at s (lr_CheckpointID r) = Some old" "ac_ID c = ac_ID old" "ac_ExpiresAt c = ac_ExpiresAt old"
    using a by (auto simp: ApproveAndLease_def cloneApprovalCheckpoint_def Let_def split: option.splits if_splits)
  with lease_granted [OF 4(1), of ctx r c] a nb show ?case by (auto simp: leased_for_def same_row_def)
next
  case (5 s r c code)
  then show ?case using finish_closes [of s r c CheckpointConsumed code]
    by (auto simp: memory_checkpoints_def CompleteLease_def)
next
  case (6 s r c code)
  then show ?case using finish_closes [of s r c CheckpointFailed code]
    by (auto simp: memory_checkpoints_def FailLease_def)
next
  case (7 ctx c s s')
  then show ?case by (auto simp: memory_checkpoints_def CreateCheckpoint_def same_row_def Let_def split: option.splits if_splits)
next
  case (8 ctx c s err s')
  then show ?case by (auto simp: memory_checkpoints_def CreateCheckpoint_def Let_def split: option.splits if_splits)
qed (simp_all add: memory_checkpoints_def CompleteLease_def FailLease_def finishLease_def)

section \<open>Properties\<close>

text \<open>Property C15. A resumed run closes its checkpoint: with a context that is not cancelled and no
  panic, \<open>ApproveAndResume\<close> either refuses the request and touches neither the store nor the run, or
  it resumed a pending checkpoint and leaves it consumed, when the run ended or its next pause was
  stored as a new pending checkpoint, and failed in every other case.
\<close>

theorem resume_closes_checkpoint:
  assumes "checkpoint_inv s" and "ad_store a = memory_checkpoints"
    and "ApproveAndResume a (\<lambda>_. None) req s w = (Some (res, err), s', w')"
  shows "(s' = s \<and> w' = w \<and> res = None \<and> (err = Some ErrInvalidNextCheckpoint \<or> (\<exists>e. err = Some (StoreFailed e))))
    \<or> (\<exists>old. checkpoint_at s (lr_CheckpointID (rq_Approval req)) = Some old \<and> ac_Status old = CheckpointPending
        \<and> lease_closed checkpoint_at req err s')"
  by (rule mem_checkpoints.approved_resume_closes [OF assms])


text \<open>What was paused is what is resumed: if the codec decodes what it encodes and the
  cipher decrypts what it encrypted under the same identity, a run that \<open>SavePending\<close> stored is,
  after approval, resumed with exactly the checkpoint that was saved.
\<close>

theorem saved_checkpoint_resumed:
  assumes "checkpoint_inv s" and "ad_store a = memory_checkpoints"
    and codec: "\<And>c payload. ad_Marshal a c = Inr payload \<Longrightarrow> ad_Unmarshal a payload = Inr c"
    and cipher: "\<And>p aad w0 ct w1 w2. ad_Encrypt a p aad w0 = (Inr ct, w1) \<Longrightarrow> ad_Decrypt a ct aad w2 = (Inr p, w2)"
    and save: "SavePending a ctx p s w = (None, s1, w1)"
    and lease: "ApproveAndLease None r s1 = (Inr leased, s2)" and "lr_CheckpointID r = pc_ID p"
  shows "decryptCheckpoint a leased w2 = (Inr (pc_Checkpoint p), w2)"
proof -
  note saved = mem_checkpoints.saved_pending [OF assms(1,2) save]
  then obtain c' payload w0 ct where m: "ad_Marshal a (pc_Checkpoint p) = Inr payload"
    and enc: "ad_Encrypt a payload (checkpointAAD (ad_json_string a) (pc_ID p) (ck_RunID (pc_Checkpoint p))
        (pc_Tenant p) (pc_DefinitionHash p)) w0 = (Inr ct, w1)"
    and row: "checkpoint_at s1 (pc_ID p) = Some c'" "same_row c' (pending_row p ct)" "ac_Ciphertext c' = ct" by blast
  have "cs_ApproveAndLease memory_checkpoints None r s1 = (Inr leased, s2)" using lease by (simp add: memory_checkpoints_def)
  from mem_checkpoints.approve_granted [OF _ this] saved row assms(7) have
    "same_row leased c'" "ac_Ciphertext leased = ct" by auto
  with row(2) have "ac_ID leased = pc_ID p" "ac_RunID leased = ck_RunID (pc_Checkpoint p)" "ac_TenantID leased = pc_Tenant p"
    "ac_DefinitionHash leased = pc_DefinitionHash p" "ac_Ciphertext leased = ct" by (auto simp: same_row_def pending_row_def)
  with cipher [OF enc] codec [OF m] show ?thesis by (simp add: decryptCheckpoint_def)
qed


section \<open>Witnesses\<close>

definition demo_run_checkpoint :: RunCheckpoint where
  "demo_run_checkpoint = checkpoint_of_state (demo_libs\<lparr>lib_uuid_String := (\<lambda>_. ''r'')\<rparr>)
     ((NewRunState 7 demo_request 5)\<lparr>rs_PendingCalls := demo_calls\<rparr>)"

text \<open>A cipher that does nothing, a codec for one checkpoint and a resumer whose run fails.\<close>

definition demo_adapter :: "(MemoryCheckpointStore, nat) Adapter" where
  "demo_adapter = \<lparr>ad_store = memory_checkpoints, ad_Encrypt = (\<lambda>p aad w. (Inr p, w)), ad_Decrypt = (\<lambda>ct aad w. (Inr ct, w)),
     ad_ResumeDetailed = (\<lambda>c rs w. (Some (None, Some ErrPolicyDenied), w)),
     ad_Marshal = (\<lambda>c. if c = demo_run_checkpoint then Inr ''c'' else Inl ''unknown''),
     ad_Unmarshal = (\<lambda>_. Inr demo_run_checkpoint), ad_json_string = (\<lambda>s. s), ad_clock = (\<lambda>_. 5)\<rparr>"

definition demo_resume :: ResumeRequest where
  "demo_resume = \<lparr>rq_Approval = demo_approval, rq_Resolutions = [], rq_Next = \<lparr>nc_ID = ''n'', nc_ExpiresAt = 50\<rparr>\<rparr>"

definition demo_store :: MemoryCheckpointStore where
  "demo_store = fold checkpoint_apply [(None, OpCreate demo_checkpoint)] (NewMemoryCheckpointStore 5)"

lemma demo_next: "validateNextCheckpoint 5 (rq_Next demo_resume) (rq_Approval demo_resume) = None"
proof -
  have "TrimSpace ''n'' = ''n''" by (simp add: TrimSpace_ascii is_space_def)
  then show ?thesis by (simp add: validateNextCheckpoint_def demo_resume_def demo_approval_def)
qed

lemma demo_lease: "\<exists>leased s1. ApproveAndLease None demo_approval demo_store = (Inr leased, s1)"
  by (simp add: demo_store_def NewMemoryCheckpointStore_def CreateCheckpoint_def validateCheckpoint_def demo_checkpoint_def demo_trim
      put_checkpoint_def cloneApprovalCheckpoint_def ApproveAndLease_def validateLeaseRequest_def demo_approval_def
      validateResolutionRequest_def claimable_def requestNow_def Let_def)

lemma demo_decrypt: "decryptCheckpoint demo_adapter c w = (Inr demo_run_checkpoint, w)"
  by (simp add: decryptCheckpoint_def demo_adapter_def)

lemma demo_inv: "checkpoint_inv demo_store"
  unfolding demo_store_def by (intro fold_inv new_inv)

theorem resume_closes_checkpoint_witness:
  "\<exists>res err s' w'. ApproveAndResume demo_adapter (\<lambda>_. None) demo_resume demo_store 0 = (Some (res, err), s', w')
     \<and> lease_closed checkpoint_at demo_resume err s'"
proof -
  obtain x s' w' where run: "ApproveAndResume demo_adapter (\<lambda>_. None) demo_resume demo_store 0 = (x, s', w')"
    by (metis prod_cases3)
  obtain leased s1 where l: "ApproveAndLease None demo_approval demo_store = (Inr leased, s1)" using demo_lease by blast
  have st: "ad_store demo_adapter = memory_checkpoints" by (simp add: demo_adapter_def)
  have ap: "cs_ApproveAndLease memory_checkpoints None (rq_Approval demo_resume) demo_store = (Inr leased, s1)"
    using l by (simp add: memory_checkpoints_def demo_resume_def)
  have clock: "ad_clock demo_adapter 0 = 5" and res: "ad_ResumeDetailed demo_adapter c rs w = (Some (None, Some ErrPolicyDenied), w)"
    for c rs w by (simp_all add: demo_adapter_def)
  from run have "\<exists>res err. x = Some (res, err) \<and> (\<forall>e. err \<noteq> Some (StoreFailed e)) \<and> err \<noteq> Some ErrInvalidNextCheckpoint"
    unfolding ApproveAndResume_def clock demo_next st
    by (auto simp: ap demo_decrypt res close_resumed_def errors_Is_def failLease_def Let_def 
        split: prod.splits option.splits)
  then obtain res err where x: "x = Some (res, err)" "\<forall>e. err \<noteq> Some (StoreFailed e)" "err \<noteq> Some ErrInvalidNextCheckpoint"
    by blast
  from resume_closes_checkpoint [OF demo_inv st run [unfolded x(1)]] x(2,3) run x(1) show ?thesis by blast
qed


definition demo_pending :: PendingCheckpoint where
  "demo_pending = \<lparr>pc_ID = ''k'', pc_Tenant = ''t'', pc_DefinitionHash = ''h'', pc_ExpiresAt = 100, pc_Checkpoint = demo_run_checkpoint\<rparr>"

theorem saved_checkpoint_resumed_witness:
  "\<exists>s1 w1 leased s2. SavePending demo_adapter None demo_pending (NewMemoryCheckpointStore 5) 0 = (None, s1, w1)
     \<and> ApproveAndLease None demo_approval s1 = (Inr leased, s2)
     \<and> decryptCheckpoint demo_adapter leased 0 = (Inr demo_run_checkpoint, 0)"
proof -
  have run: "ck_RunID demo_run_checkpoint = ''r''" "ck_PendingCalls demo_run_checkpoint \<noteq> []"
    by (simp_all add: demo_run_checkpoint_def checkpoint_of_state_def demo_calls_def)
  have pc: "pc_Checkpoint demo_pending = demo_run_checkpoint" by (simp add: demo_pending_def)
  have st: "ad_store demo_adapter = memory_checkpoints" by (simp add: demo_adapter_def)
  have ex: "\<exists>s1. SavePending demo_adapter None demo_pending (NewMemoryCheckpointStore 5) 0 = (None, s1, 0)
      \<and> (\<exists>leased s2. ApproveAndLease None demo_approval s1 = (Inr leased, s2))"
    using run by (simp add: SavePending_def demo_adapter_def validatePending_def demo_pending_def demo_trim memory_checkpoints_def
        CreateCheckpoint_def NewMemoryCheckpointStore_def validateCheckpoint_def pending_row_def put_checkpoint_def
        cloneApprovalCheckpoint_def ApproveAndLease_def validateLeaseRequest_def demo_approval_def
        validateResolutionRequest_def claimable_def requestNow_def Let_def)
  then obtain s1 leased s2 where s: "SavePending demo_adapter None demo_pending (NewMemoryCheckpointStore 5) 0 = (None, s1, 0)"
    and l: "ApproveAndLease None demo_approval s1 = (Inr leased, s2)" by blast
  have "decryptCheckpoint demo_adapter leased 0 = (Inr (pc_Checkpoint demo_pending), 0)"
  proof (rule saved_checkpoint_resumed [OF new_inv st _ _ s l])
    show "ad_Unmarshal demo_adapter payload = Inr c" if "ad_Marshal demo_adapter c = Inr payload" for c payload
      using that by (simp add: demo_adapter_def split: if_splits)
    show "ad_Decrypt demo_adapter ct aad w2 = (Inr p, w2)" if "ad_Encrypt demo_adapter p aad w0 = (Inr ct, w1)" for p aad w0 ct w1 w2
      using that by (simp add: demo_adapter_def)
  qed (simp add: demo_approval_def demo_pending_def)
  with s l pc show ?thesis by auto
qed

end
