(* ===== verification/Run_Store.thy ===== *)
theory Run_Store
  imports Agent_State
begin

text \<open>
  \<open>runkit/store.go\<close> and \<open>runkit/goagent_sink.go\<close>: the in-memory store of run records and their
  events, and the sink that writes the events of an agent run into it. Every operation holds the
  store's mutex; the clock gives one reading per operation.
\<close>

section \<open>Data\<close>

datatype RunStatus = RunStatusUnset | RunStatusRunning | RunStatusSucceeded | RunStatusFailed

record TerminalSummary =
  tsum_Status :: RunStatus
  tsum_ContentRef :: string
  tsum_AbortReason :: string
  tsum_InputTokens :: int
  tsum_OutputTokens :: int
  tsum_LLMCalls :: int
  tsum_ToolCalls :: int
  tsum_UsedTools :: "string list"

record RunRecord =
  rec_RunID :: string
  rec_WorkflowID :: string
  rec_TaskID :: string
  rec_Status :: RunStatus
  rec_Summary :: TerminalSummary
  rec_Metadata :: "metadata option"
  rec_CreatedAt :: time
  rec_UpdatedAt :: time

record RunEvent =
  rev_RunID :: string
  rev_Sequence :: int
  rev_Type :: string
  rev_Stage :: string
  rev_Iteration :: int
  rev_Message :: string
  rev_Metadata :: "metadata option"
  rev_RecordedAt :: time

datatype RunStoreError = RunIDRequired | ErrRunMissing string | RunStoreCtx ctx_error

record RunMemoryStore =
  rms_runs :: "(string, RunRecord) gomap"
  rms_events :: "(string, RunEvent list) gomap"
  rms_order :: "string list"
  rms_now :: time

section \<open>Operations\<close>

definition NewRunMemoryStore :: "time \<Rightarrow> RunMemoryStore" where
  "NewRunMemoryStore now = \<lparr>rms_runs = [], rms_events = [], rms_order = [], rms_now = now\<rparr>"

definition cloneRunRecord :: "RunRecord \<Rightarrow> RunRecord" where
  "cloneRunRecord r = r\<lparr>rec_Metadata := clone_metadata (rec_Metadata r)\<rparr>"

definition cloneRunEvent :: "RunEvent \<Rightarrow> RunEvent" where
  "cloneRunEvent e = e\<lparr>rev_Metadata := clone_metadata (rev_Metadata e)\<rparr>"

definition run_Create :: "ctx \<Rightarrow> RunRecord \<Rightarrow> RunMemoryStore \<Rightarrow> RunStoreError option \<times> RunMemoryStore" where
  "run_Create ctx r s = (case ctx of
      Some e \<Rightarrow> (Some (RunStoreCtx e), s)
    | None \<Rightarrow>
        if TrimSpace (rec_RunID r) = '''' then (Some RunIDRequired, s)
        else (let r = (if rec_CreatedAt r = 0 then r\<lparr>rec_CreatedAt := rms_now s\<rparr> else r);
                  r = r\<lparr>rec_UpdatedAt := rms_now s\<rparr>;
                  s = (if map_of (rms_runs s) (rec_RunID r) = None
                       then s\<lparr>rms_order := rms_order s @ [rec_RunID r]\<rparr> else s)
              in (None, s\<lparr>rms_runs := AList.update (rec_RunID r) (cloneRunRecord r) (rms_runs s)\<rparr>)))"

definition run_Lookup :: "ctx \<Rightarrow> string \<Rightarrow> RunMemoryStore \<Rightarrow> RunStoreError + RunRecord" where
  "run_Lookup ctx i s = (case ctx of
      Some e \<Rightarrow> Inl (RunStoreCtx e)
    | None \<Rightarrow> (case map_of (rms_runs s) i of
        None \<Rightarrow> Inl (ErrRunMissing i) | Some r \<Rightarrow> Inr (cloneRunRecord r)))"

definition events_of :: "RunMemoryStore \<Rightarrow> string \<Rightarrow> RunEvent list" where
  "events_of s i = (case map_of (rms_events s) i of None \<Rightarrow> [] | Some es \<Rightarrow> es)"

definition AppendEvent :: "ctx \<Rightarrow> RunEvent \<Rightarrow> RunMemoryStore \<Rightarrow> RunStoreError option \<times> RunMemoryStore" where
  "AppendEvent ctx e s = (case ctx of
      Some err \<Rightarrow> (Some (RunStoreCtx err), s)
    | None \<Rightarrow>
        if TrimSpace (rev_RunID e) = '''' then (Some RunIDRequired, s)
        else if map_of (rms_runs s) (rev_RunID e) = None then (Some (ErrRunMissing (rev_RunID e)), s)
        else (let e = e\<lparr>rev_Sequence := int (length (events_of s (rev_RunID e))) + 1\<rparr>;
                  e = (if rev_RecordedAt e = 0 then e\<lparr>rev_RecordedAt := rms_now s\<rparr> else e)
              in (None, s\<lparr>rms_events := AList.update (rev_RunID e)
                    (events_of s (rev_RunID e) @ [cloneRunEvent e]) (rms_events s)\<rparr>)))"

definition run_Events :: "ctx \<Rightarrow> string \<Rightarrow> RunMemoryStore \<Rightarrow> RunStoreError + RunEvent list" where
  "run_Events ctx i s = (case ctx of
      Some e \<Rightarrow> Inl (RunStoreCtx e)
    | None \<Rightarrow> (case map_of (rms_runs s) i of
        None \<Rightarrow> Inl (ErrRunMissing i) | Some _ \<Rightarrow> Inr (map cloneRunEvent (events_of s i))))"

definition run_Complete :: "ctx \<Rightarrow> string \<Rightarrow> TerminalSummary \<Rightarrow> RunMemoryStore \<Rightarrow> RunStoreError option \<times> RunMemoryStore" where
  "run_Complete ctx i summary s = (case ctx of
      Some e \<Rightarrow> (Some (RunStoreCtx e), s)
    | None \<Rightarrow> (case map_of (rms_runs s) i of
        None \<Rightarrow> (Some (ErrRunMissing i), s)
      | Some r \<Rightarrow>
          (None, s\<lparr>rms_runs := AList.update i (cloneRunRecord (r\<lparr>rec_Status := tsum_Status summary,
             rec_Summary := summary, rec_UpdatedAt := rms_now s\<rparr>)) (rms_runs s)\<rparr>)))"

definition zero_run_record :: RunRecord where
  "zero_run_record = \<lparr>rec_RunID = '''', rec_WorkflowID = '''', rec_TaskID = '''', rec_Status = RunStatusUnset,
     rec_Summary = \<lparr>tsum_Status = RunStatusUnset, tsum_ContentRef = '''', tsum_AbortReason = '''', tsum_InputTokens = 0,
       tsum_OutputTokens = 0, tsum_LLMCalls = 0, tsum_ToolCalls = 0, tsum_UsedTools = []\<rparr>,
     rec_Metadata = None, rec_CreatedAt = 0, rec_UpdatedAt = 0\<rparr>"

definition FindByWorkflowID :: "ctx \<Rightarrow> string \<Rightarrow> RunMemoryStore \<Rightarrow> RunStoreError + RunRecord list" where
  "FindByWorkflowID ctx workflowID s = (case ctx of
      Some e \<Rightarrow> Inl (RunStoreCtx e)
    | None \<Rightarrow> Inr (map cloneRunRecord (filter (\<lambda>r. rec_WorkflowID r = workflowID)
        (map (\<lambda>i. case map_of (rms_runs s) i of Some r \<Rightarrow> r | None \<Rightarrow> zero_run_record) (rms_order s)))))"

section \<open>The event sink\<close>

definition sink_record :: "(Event \<Rightarrow> RunRecord) option \<Rightarrow> string \<Rightarrow> Event \<Rightarrow> RunRecord" where
  "sink_record builder runID event = (case builder of
      None \<Rightarrow> zero_run_record\<lparr>rec_RunID := runID, rec_Status := RunStatusRunning\<rparr>
    | Some build \<Rightarrow>
        (let r = build event;
             r = (if rec_RunID r = '''' then r\<lparr>rec_RunID := runID\<rparr> else r)
         in if rec_Status r = RunStatusUnset then r\<lparr>rec_Status := RunStatusRunning\<rparr> else r))"

text \<open>\<open>uuid\<close> is \<open>RunID.String\<close>; \<open>ctx k\<close> is the context's error at the \<open>k\<close>-th store call.\<close>

definition sink_Emit ::
  "(RunID \<Rightarrow> string) \<Rightarrow> (Event \<Rightarrow> RunRecord) option \<Rightarrow> (nat \<Rightarrow> ctx) \<Rightarrow> Event \<Rightarrow> RunMemoryStore
     \<Rightarrow> RunStoreError option \<times> RunMemoryStore" where
  "sink_Emit uuid builder ctx event s =
     (let runID = uuid (ev_RunID event)
      in case (case run_Lookup (ctx 0) runID s of
                 Inr _ \<Rightarrow> (None, s)
               | Inl _ \<Rightarrow> run_Create (ctx 1) (sink_record builder runID event) s) of
           (Some err, s) \<Rightarrow> (Some err, s)
         | (None, s) \<Rightarrow>
             AppendEvent (ctx 2) \<lparr>rev_RunID = runID, rev_Sequence = 0, rev_Type = ev_Type event,
               rev_Stage = ev_Stage event, rev_Iteration = ev_Iteration event, rev_Message = ev_Message event,
               rev_Metadata = Some (ev_Metadata event), rev_RecordedAt = 0\<rparr> s)"


section \<open>Properties\<close>

definition run_store_inv :: "RunMemoryStore \<Rightarrow> bool" where
  "run_store_inv s \<longleftrightarrow> wf_map (rms_runs s) \<and> distinct (rms_order s) \<and> set (rms_order s) = dom (map_of (rms_runs s))
     \<and> (\<forall>i r. map_of (rms_runs s) i = Some r \<longrightarrow> rec_RunID r = i)
     \<and> (\<forall>i. (events_of s i \<noteq> [] \<longrightarrow> map_of (rms_runs s) i \<noteq> None) \<and> (\<forall>e \<in> set (events_of s i). rev_RunID e = i)
          \<and> map rev_Sequence (events_of s i) = map (\<lambda>n. int n + 1) [0..<length (events_of s i)])"

lemma new_run_inv: "run_store_inv (NewRunMemoryStore now)"
  by (simp add: run_store_inv_def NewRunMemoryStore_def events_of_def)

lemma clone_run_fields [simp]:
  "rec_RunID (cloneRunRecord r) = rec_RunID r" "rec_WorkflowID (cloneRunRecord r) = rec_WorkflowID r"
  "rev_RunID (cloneRunEvent e) = rev_RunID e" "rev_Sequence (cloneRunEvent e) = rev_Sequence e"
  "rev_Type (cloneRunEvent e) = rev_Type e" "rev_Stage (cloneRunEvent e) = rev_Stage e"
  "rev_Iteration (cloneRunEvent e) = rev_Iteration e" "rev_Message (cloneRunEvent e) = rev_Message e"
  by (simp_all add: cloneRunRecord_def cloneRunEvent_def)

lemma create_effect:
  assumes "TrimSpace (rec_RunID r) \<noteq> ''''"
  shows "\<exists>s' r'. run_Create None r s = (None, s') \<and> rec_RunID r' = rec_RunID r \<and> rec_WorkflowID r' = rec_WorkflowID r
    \<and> rms_runs s' = AList.update (rec_RunID r) r' (rms_runs s) \<and> rms_events s' = rms_events s
    \<and> rms_order s' = (if map_of (rms_runs s) (rec_RunID r) = None then rms_order s @ [rec_RunID r] else rms_order s)"
  using assms
  by (intro exI [of _ "snd (run_Create None r s)"]
      exI [of _ "cloneRunRecord (r\<lparr>rec_CreatedAt := (if rec_CreatedAt r = 0 then rms_now s else rec_CreatedAt r), rec_UpdatedAt := rms_now s\<rparr>)"])
    (simp add: run_Create_def Let_def)

lemma append_effect:
  assumes "TrimSpace (rev_RunID e) \<noteq> ''''" and "map_of (rms_runs s) (rev_RunID e) \<noteq> None"
  shows "\<exists>s' e'. AppendEvent None e s = (None, s') \<and> rms_runs s' = rms_runs s \<and> rms_order s' = rms_order s
    \<and> (\<forall>i. events_of s' i = (if i = rev_RunID e then events_of s i @ [e'] else events_of s i))
    \<and> rev_RunID e' = rev_RunID e \<and> rev_Sequence e' = int (length (events_of s (rev_RunID e))) + 1
    \<and> rev_Type e' = rev_Type e \<and> rev_Stage e' = rev_Stage e \<and> rev_Iteration e' = rev_Iteration e \<and> rev_Message e' = rev_Message e"
  using assms by (auto simp: AppendEvent_def events_of_def Let_def split: option.splits)

lemma create_run_inv [go_inv]: "run_store_inv s \<Longrightarrow> run_store_inv (snd (run_Create ctx r s))"
proof (cases "ctx = None \<and> TrimSpace (rec_RunID r) \<noteq> ''''")
  case True
  moreover assume inv: "run_store_inv s"
  moreover obtain s' r' where e: "run_Create None r s = (None, s')" "rec_RunID r' = rec_RunID r"
    "rms_runs s' = AList.update (rec_RunID r) r' (rms_runs s)" "rms_events s' = rms_events s"
    "rms_order s' = (if map_of (rms_runs s) (rec_RunID r) = None then rms_order s @ [rec_RunID r] else rms_order s)"
    using create_effect [of r s] True by blast
  moreover have "events_of s' = events_of s" using e(4) by (simp add: events_of_def fun_eq_iff)
  ultimately show ?thesis by (auto simp: run_store_inv_def)
qed (auto simp: run_Create_def split: option.split)

lemma append_run_inv [go_inv]: "run_store_inv s \<Longrightarrow> run_store_inv (snd (AppendEvent ctx e s))"
proof (cases "ctx = None \<and> TrimSpace (rev_RunID e) \<noteq> '''' \<and> map_of (rms_runs s) (rev_RunID e) \<noteq> None")
  case True
  assume inv: "run_store_inv s"
  obtain s' e' where eff: "AppendEvent None e s = (None, s')" "rms_runs s' = rms_runs s" "rms_order s' = rms_order s"
    "\<forall>i. events_of s' i = (if i = rev_RunID e then events_of s i @ [e'] else events_of s i)"
    "rev_RunID e' = rev_RunID e" "rev_Sequence e' = int (length (events_of s (rev_RunID e))) + 1"
    using append_effect [of e s] True by blast
  with inv True show ?thesis by (auto simp: run_store_inv_def)
qed (auto simp: AppendEvent_def split: option.split)

lemma complete_run_inv [go_inv]: "run_store_inv s \<Longrightarrow> run_store_inv (snd (run_Complete ctx i summary s))"
  by (auto simp: run_Complete_def run_store_inv_def events_of_def split: option.split)

lemma sink_run_inv [go_inv]: "run_store_inv s \<Longrightarrow> run_store_inv (snd (sink_Emit uuid builder ctx event s))"
  using create_run_inv [of s "ctx 1"] append_run_inv
  by (auto simp: sink_Emit_def Let_def split: sum.split prod.split option.split) (metis snd_conv)+

datatype run_op = RunCreate ctx RunRecord | RunAppend ctx RunEvent | RunComplete ctx string TerminalSummary
  | RunEmit "nat \<Rightarrow> ctx" Event | RunTick nat

fun run_apply :: "(RunID \<Rightarrow> string) \<Rightarrow> (Event \<Rightarrow> RunRecord) option \<Rightarrow> run_op \<Rightarrow> RunMemoryStore \<Rightarrow> RunMemoryStore" where
  "run_apply uuid builder (RunCreate ctx r) s = snd (run_Create ctx r s)"
| "run_apply uuid builder (RunAppend ctx e) s = snd (AppendEvent ctx e s)"
| "run_apply uuid builder (RunComplete ctx i summary) s = snd (run_Complete ctx i summary s)"
| "run_apply uuid builder (RunEmit ctx e) s = snd (sink_Emit uuid builder ctx e s)"
| "run_apply uuid builder (RunTick d) s = s\<lparr>rms_now := rms_now s + int d\<rparr>"

lemma run_apply_inv: "run_store_inv s \<Longrightarrow> run_store_inv (run_apply uuid builder op s)"
  by (cases op) (simp_all add: go_inv, simp add: run_store_inv_def events_of_def)

lemma run_fold_inv: "run_store_inv s \<Longrightarrow> run_store_inv (fold (run_apply uuid builder) ops s)"
  by (induction ops arbitrary: s) (simp_all add: run_apply_inv)

text \<open>The run store keeps its books: in every state it can reach, the events of a run
  are numbered 1, 2, 3, ... without gaps and belong to a stored run, and \<open>FindByWorkflowID\<close> returns
  exactly the stored runs of the workflow, each once.
\<close>

theorem run_store_books:
  assumes "s = fold (run_apply uuid builder) ops (NewRunMemoryStore now)"
  shows "map rev_Sequence (events_of s i) = map (\<lambda>n. int n + 1) [0..<length (events_of s i)]
    \<and> (events_of s i \<noteq> [] \<longrightarrow> map_of (rms_runs s) i \<noteq> None)
    \<and> (\<exists>rs. FindByWorkflowID None workflow s = Inr rs \<and> distinct (map rec_RunID rs)
         \<and> set rs = {cloneRunRecord r | i r. map_of (rms_runs s) i = Some r \<and> rec_WorkflowID r = workflow})"
proof -
  have inv: "run_store_inv s" unfolding assms by (intro run_fold_inv new_run_inv)
  let ?at = "\<lambda>i. case map_of (rms_runs s) i of Some r \<Rightarrow> r | None \<Rightarrow> zero_run_record"
  have id: "rec_RunID (?at j) = j" and some: "map_of (rms_runs s) j = Some (?at j)" if "j \<in> set (rms_order s)" for j
    using inv that by (auto simp: run_store_inv_def split: option.split)
  have "map rec_RunID (map ?at (rms_order s)) = rms_order s"
    unfolding map_map by (rule map_idI) (simp add: id)
  then have "distinct (map rec_RunID (map ?at (rms_order s)))" using inv by (simp add: run_store_inv_def)
  then have "distinct (map rec_RunID (filter (\<lambda>r. rec_WorkflowID r = workflow) (map ?at (rms_order s))))" by (rule distinct_map_filter)
  moreover have "set (map ?at (rms_order s)) = {r. \<exists>i. map_of (rms_runs s) i = Some r}"
  proof -
    have "set (rms_order s) = dom (map_of (rms_runs s))" using inv by (simp add: run_store_inv_def)
    then show ?thesis by (force simp: dom_def)
  qed
  ultimately show ?thesis using inv
    by (auto simp: FindByWorkflowID_def run_store_inv_def comp_def image_iff)
qed


text \<open>What of an event the store keeps as it was emitted.\<close>

definition event_view :: "Event \<Rightarrow> string \<times> string \<times> int \<times> string" where
  "event_view e = (ev_Type e, ev_Stage e, ev_Iteration e, ev_Message e)"

definition stored_view :: "RunEvent \<Rightarrow> string \<times> string \<times> int \<times> string" where
  "stored_view e = (rev_Type e, rev_Stage e, rev_Iteration e, rev_Message e)"

text \<open>A builder that names the run of the event, or none.\<close>

definition builder_ok :: "(RunID \<Rightarrow> string) \<Rightarrow> (Event \<Rightarrow> RunRecord) option \<Rightarrow> bool" where
  "builder_ok uuid builder \<longleftrightarrow> (\<forall>build e. builder = Some build \<longrightarrow> rec_RunID (build e) \<in> {'''', uuid (ev_RunID e)})"

lemma sink_emit_effect:
  assumes "builder_ok uuid builder" and "TrimSpace (uuid (ev_RunID e)) \<noteq> ''''"
  shows "\<exists>s' e'. sink_Emit uuid builder (\<lambda>_. None) e s = (None, s') \<and> stored_view e' = event_view e
    \<and> (\<forall>i. events_of s' i = (if i = uuid (ev_RunID e) then events_of s i @ [e'] else events_of s i))"
proof -
  let ?id = "uuid (ev_RunID e)" and ?r = "sink_record builder (uuid (ev_RunID e)) e"
  let ?e = "\<lparr>rev_RunID = ?id, rev_Sequence = 0, rev_Type = ev_Type e, rev_Stage = ev_Stage e,
     rev_Iteration = ev_Iteration e, rev_Message = ev_Message e, rev_Metadata = Some (ev_Metadata e), rev_RecordedAt = 0\<rparr>"
  have rid: "rec_RunID ?r = ?id"
    using assms(1) by (auto simp: sink_record_def builder_ok_def Let_def split: option.split)
  obtain s1 where s1: "(case run_Lookup None ?id s of Inr _ \<Rightarrow> (None, s) | Inl _ \<Rightarrow> run_Create None ?r s) = (None, s1)"
    "rms_events s1 = rms_events s" "map_of (rms_runs s1) ?id \<noteq> None"
  proof (cases "map_of (rms_runs s) ?id")
    case None
    with create_effect [of ?r s] assms(2) rid that show ?thesis by (auto simp: run_Lookup_def)
  next
    case (Some r)
    with that show ?thesis by (simp add: run_Lookup_def)
  qed
  have ev: "events_of s1 = events_of s" using s1(2) by (simp add: events_of_def fun_eq_iff)
  obtain s' e' where "AppendEvent None ?e s1 = (None, s')" "stored_view e' = event_view e"
    "\<forall>i. events_of s' i = (if i = ?id then events_of s1 i @ [e'] else events_of s1 i)"
    using append_effect [of ?e s1] assms(2) s1(3) by (auto simp: stored_view_def event_view_def)
  then show ?thesis using s1(1) ev by (auto simp: sink_Emit_def Let_def)
qed

lemma sink_emits:
  assumes "builder_ok uuid builder" and "\<forall>e \<in> set es. TrimSpace (uuid (ev_RunID e)) \<noteq> ''''"
  shows "map stored_view (events_of (fold (\<lambda>e s. snd (sink_Emit uuid builder (\<lambda>_. None) e s)) es s) i)
    = map stored_view (events_of s i) @ map event_view (filter (\<lambda>e. uuid (ev_RunID e) = i) es)"
  using assms(2)
proof (induction es arbitrary: s)
  case (Cons e es)
  from sink_emit_effect [OF assms(1), of e s] Cons.prems obtain s' e' where
    e: "sink_Emit uuid builder (\<lambda>_. None) e s = (None, s')" "stored_view e' = event_view e"
    "\<forall>i. events_of s' i = (if i = uuid (ev_RunID e) then events_of s i @ [e'] else events_of s i)" by auto
  from Cons.IH [of s'] Cons.prems e show ?case by simp
qed simp

text \<open>Nothing of a run is lost on the way to the store: the events that an agent run
  emits through the sink are stored for that run in the order they were emitted, whichever runs
  emit in between. A record builder, if there is one, must not name another run, and the text of
  a run ID must not be blank.
\<close>

theorem sink_records_all_events:
  assumes "builder_ok uuid builder" and "\<forall>e \<in> set events. TrimSpace (uuid (ev_RunID e)) \<noteq> ''''"
    and "s = fold (\<lambda>e s. snd (sink_Emit uuid builder (\<lambda>_. None) e s)) events (NewRunMemoryStore now)"
  shows "map stored_view (events_of s i) = map event_view (filter (\<lambda>e. uuid (ev_RunID e) = i) events)"
  unfolding assms(3) sink_emits [OF assms(1,2)] by (simp add: NewRunMemoryStore_def events_of_def)

definition demo_event :: "RunID \<Rightarrow> string \<Rightarrow> Event" where
  "demo_event i t = \<lparr>ev_RunID = i, ev_Type = t, ev_Stage = '''', ev_Iteration = 0, ev_Message = '''', ev_Metadata = []\<rparr>"

definition demo_uuid :: "RunID \<Rightarrow> string" where
  "demo_uuid i = (if i = 1 then ''a'' else ''b'')"

definition demo_events :: "Event list" where
  "demo_events = [demo_event 1 ''x'', demo_event 2 ''y'', demo_event 1 ''z'']"

theorem sink_records_all_events_witness:
  "map stored_view (events_of (fold (\<lambda>e s. snd (sink_Emit demo_uuid None (\<lambda>_. None) e s)) demo_events (NewRunMemoryStore 5)) ''a'')
    = [(''x'', '''', 0, ''''), (''z'', '''', 0, '''')]"
proof -
  have "TrimSpace ''a'' = ''a''" "TrimSpace ''b'' = ''b''" by (simp_all add: TrimSpace_ascii is_space_def)
  then have "\<forall>e \<in> set demo_events. TrimSpace (demo_uuid (ev_RunID e)) \<noteq> ''''" by (simp add: demo_uuid_def)
  moreover have "builder_ok demo_uuid None" by (simp add: builder_ok_def)
  moreover have "map event_view (filter (\<lambda>e. demo_uuid (ev_RunID e) = ''a'') demo_events)
      = [(''x'', '''', 0, ''''), (''z'', '''', 0, '''')]"
    by (simp add: demo_events_def demo_event_def demo_uuid_def event_view_def)
  ultimately show ?thesis using sink_records_all_events [OF _ _ refl, of demo_uuid None demo_events 5 "''a''"] by (simp only:)
qed

theorem run_store_books_witness:
  "\<exists>s. s = fold (run_apply demo_uuid None) (map (RunEmit (\<lambda>_. None)) demo_events) (NewRunMemoryStore 5)
     \<and> map rev_Sequence (events_of s ''a'') = map (\<lambda>n. int n + 1) [0..<length (events_of s ''a'')]"
  using run_store_books [OF refl, of demo_uuid None "map (RunEmit (\<lambda>_. None)) demo_events" 5 "''a''"] by blast

end
