(* ===== verification/Memory_Types.thy ===== *)
theory Memory_Types
  imports GoPrelude "HOL-Library.Sublist"
begin

text \<open>
  \<open>memorykit/types.go\<close>, \<open>errors.go\<close>, \<open>validation.go\<close>, the requests of \<open>store.go\<close> and
  \<open>search_terms.go\<close>: the data of long-term memories, the validation of every request, and the
  search terms that all stores match alike.

  A \<open>float32\<close> or \<open>float64\<close> field is \<open>rat option\<close>: \<open>None\<close> is a value that is not finite. The
  standard library enters through the record \<open>mem_libs\<close>: UUID parsing, JSON encoding, SHA-256,
  the rounding of floating-point operations, and the Unicode tables.
\<close>

section \<open>Data\<close>

type_synonym float_value = "rat option"
type_synonym SubjectType = string
type_synonym Kind = string
type_synonym MemStatus = string
type_synonym RevisionAction = string
type_synonym Channel = string

abbreviation SubjectProject :: SubjectType where "SubjectProject \<equiv> ''project''"
abbreviation SubjectUser :: SubjectType where "SubjectUser \<equiv> ''user''"
abbreviation KindFact :: Kind where "KindFact \<equiv> ''fact''"
abbreviation KindDecision :: Kind where "KindDecision \<equiv> ''decision''"
abbreviation KindConstraint :: Kind where "KindConstraint \<equiv> ''constraint''"
abbreviation KindLesson :: Kind where "KindLesson \<equiv> ''lesson''"
abbreviation StatusCandidate :: MemStatus where "StatusCandidate \<equiv> ''candidate''"
abbreviation StatusActive :: MemStatus where "StatusActive \<equiv> ''active''"
abbreviation StatusInactive :: MemStatus where "StatusInactive \<equiv> ''inactive''"

record Scope =
  sc_TenantID :: string
  sc_SubjectType :: SubjectType
  sc_SubjectID :: string

record Memory =
  mem_ID :: string
  mem_Key :: string
  mem_Content :: string
  mem_SourceAgentID :: string
  mem_CreatedBy :: string
  mem_IdempotencyKey :: string
  mem_Scope :: Scope
  mem_Kind :: Kind
  mem_Status :: MemStatus
  mem_ValidFrom :: time
  mem_ValidUntil :: time
  mem_Importance :: int
  mem_Confidence :: float_value
  mem_Version :: int
  mem_CreatedAt :: time
  mem_UpdatedAt :: time

record Source =
  src_Kind :: string
  src_Ref :: string
  src_EvidenceHash :: string

record Revision =
  rv_MemoryID :: string
  rv_Version :: int
  rv_Action :: RevisionAction
  rv_Actor :: string
  rv_Reason :: string
  rv_Snapshot :: Memory
  rv_ContentErased :: bool
  rv_CreatedAt :: time

record Limits =
  lim_Version :: string
  lim_MaxKeyRunes :: int
  lim_MaxContentRunes :: int
  lim_MaxMetadataRunes :: int
  lim_MaxSourcesPerMemory :: int
  lim_MaxListItems :: int

record CreateRequest =
  crq_ID :: string
  crq_Scope :: Scope
  crq_Kind :: Kind
  crq_Key :: string
  crq_Status :: MemStatus
  crq_Content :: string
  crq_ValidFrom :: time
  crq_ValidUntil :: time
  crq_Importance :: int
  crq_Confidence :: float_value
  crq_SourceAgentID :: string
  crq_Actor :: string
  crq_Reason :: string
  crq_IdempotencyKey :: string
  crq_Sources :: "Source list"
  crq_Now :: time

record VersionedCommand =
  vc_Scope :: Scope
  vc_ID :: string
  vc_ExpectedVersion :: int
  vc_Actor :: string
  vc_Reason :: string
  vc_Now :: time

record CorrectRequest =
  cor_Command :: VersionedCommand
  cor_Content :: string
  cor_ValidFrom :: time
  cor_ValidUntil :: time
  cor_Importance :: int
  cor_Confidence :: float_value
  cor_Sources :: "Source list"

record ListQuery =
  lq_Scope :: Scope
  lq_Kind :: Kind
  lq_Status :: MemStatus
  lq_Key :: string
  lq_Limit :: int

record RevisionQuery =
  rq_Scope :: Scope
  rq_MemoryID :: string
  rq_BeforeVersion :: int
  rq_Limit :: int

record PendingEmbeddingQuery =
  peq_ProfileID :: string
  peq_Limit :: int

record EmbeddingInput =
  ei_MemoryID :: string
  ei_Scope :: Scope
  ei_Content :: string
  ei_ContentHash :: string
  ei_Version :: int

record PutEmbeddingRequest =
  per_MemoryID :: string
  per_Scope :: Scope
  per_ProfileID :: string
  per_ContentHash :: string
  per_Dimensions :: int
  per_Vector :: "float_value list"
  per_EmbeddedAt :: time

record Candidate =
  can_Memory :: Memory
  can_Sources :: "Source list"
  can_Channel :: Channel
  can_Rank :: int
  can_Similarity :: float_value

record CandidateQuery =
  cq_Scope :: Scope
  cq_Text :: string
  cq_Keys :: "string list"
  cq_Kinds :: "Kind list"
  cq_QueryVector :: "float_value list"
  cq_Now :: time
  cq_ExactLimit :: int
  cq_FullTextLimit :: int
  cq_VectorLimit :: int
  cq_MinVectorSimilarity :: float_value
  cq_EmbeddingProfileID :: string
  cq_EmbeddingDimensions :: int

record CandidateSet =
  cs_Exact :: "Candidate list"
  cs_FullText :: "Candidate list"
  cs_Vector :: "Candidate list"

text \<open>The errors of \<open>errors.go\<close>, with the detail that \<open>fmt.Errorf\<close> adds.\<close>

datatype MemError = ErrInvalidScope string | ErrInvalidMemory string | ErrNotFound | ErrConflict string
  | MemCtx ctx_error

text \<open>
  What the sources use of the libraries: \<open>uuid.Parse\<close> followed by \<open>String\<close>, \<open>json.Marshal\<close> of a
  create request, \<open>sha256.Sum256\<close> and its hexadecimal form, the rounding of \<open>float64\<close> operations
  and \<open>math.Sqrt\<close>, the scripts Han, Hiragana and Katakana, letters or digits, and lower case.
\<close>

record mem_libs =
  ml_uuid :: "string \<Rightarrow> string option"
  ml_json :: "CreateRequest \<Rightarrow> string option"
  ml_sha256 :: "string \<Rightarrow> string"
  ml_hex :: "string \<Rightarrow> string"
  ml_round :: "rat \<Rightarrow> rat"
  ml_sqrt :: "rat \<Rightarrow> rat"
  ml_cjk :: "nat \<Rightarrow> bool"
  ml_alnum :: "nat \<Rightarrow> bool"
  ml_lower :: "string \<Rightarrow> string"

section \<open>Validation\<close>

definition Scope_Validate :: "Scope \<Rightarrow> MemError option" where
  "Scope_Validate s =
     (if TrimSpace (sc_TenantID s) = '''' \<or> TrimSpace (sc_SubjectID s) = ''''
      then Some (ErrInvalidScope ''tenant and subject identity are required'')
      else if sc_SubjectType s \<noteq> SubjectProject \<and> sc_SubjectType s \<noteq> SubjectUser
      then Some (ErrInvalidScope (''unsupported subject type '' @ go_quote (sc_SubjectType s)))
      else None)"

definition Limits_Validate :: "Limits \<Rightarrow> MemError option" where
  "Limits_Validate l =
     (if TrimSpace (lim_Version l) = '''' \<or> lim_MaxKeyRunes l \<le> 0 \<or> lim_MaxContentRunes l \<le> 0
       \<or> lim_MaxMetadataRunes l \<le> 0 \<or> lim_MaxSourcesPerMemory l \<le> 0 \<or> lim_MaxListItems l \<le> 0
      then Some (ErrInvalidMemory ''all limits and version are required'') else None)"

definition Kind_IsValid :: "Kind \<Rightarrow> bool" where
  "Kind_IsValid k \<longleftrightarrow> k = KindFact \<or> k = KindDecision \<or> k = KindConstraint \<or> k = KindLesson"

definition MemStatus_IsValid :: "MemStatus \<Rightarrow> bool" where
  "MemStatus_IsValid s \<longleftrightarrow> s = StatusCandidate \<or> s = StatusActive \<or> s = StatusInactive"

definition ValidateMemoryID :: "mem_libs \<Rightarrow> string \<Rightarrow> MemError option" where
  "ValidateMemoryID L i =
     (if ml_uuid L i \<noteq> Some i then Some (ErrInvalidMemory ''memory ID must be a canonical lowercase UUID'')
      else None)"

text \<open>A control character of ASCII.\<close>

definition is_control :: "nat \<Rightarrow> bool" where
  "is_control r \<longleftrightarrow> r \<le> 31 \<or> r = 127"

definition validKey :: "string \<Rightarrow> int \<Rightarrow> bool" where
  "validKey key maxRunes \<longleftrightarrow> \<not> (key = '''' \<or> key \<noteq> TrimSpace key \<or> int (rune_count key) > maxRunes)
     \<and> list_all (\<lambda>p. \<not> is_control (fst p)) (rune_chunks key)"

definition validContent :: "string \<Rightarrow> int \<Rightarrow> bool" where
  "validContent content maxRunes \<longleftrightarrow> TrimSpace content \<noteq> '''' \<and> CHR 0x00 \<notin> set content
     \<and> int (rune_count content) \<le> maxRunes"

definition validTimeRange :: "time \<Rightarrow> time \<Rightarrow> bool" where
  "validTimeRange from until \<longleftrightarrow> until = 0 \<or> until > from"

definition validImportance :: "int \<Rightarrow> bool" where
  "validImportance i \<longleftrightarrow> 0 \<le> i \<and> i \<le> 100"

definition validConfidence :: "float_value \<Rightarrow> bool" where
  "validConfidence c = (case c of Some v \<Rightarrow> 0 \<le> v \<and> v \<le> 1 | None \<Rightarrow> False)"

definition validMetadata :: "string \<Rightarrow> Limits \<Rightarrow> bool" where
  "validMetadata v l \<longleftrightarrow> int (rune_count v) \<le> lim_MaxMetadataRunes l"

fun source_error :: "Limits \<Rightarrow> (string \<times> string) list \<Rightarrow> Source list \<Rightarrow> MemError option" where
  "source_error l seen [] = None"
| "source_error l seen (s # ss) =
     (if \<not> validMetadata (src_Kind s) l \<or> \<not> validMetadata (src_Ref s) l \<or> \<not> validMetadata (src_EvidenceHash s) l
      then Some (ErrInvalidMemory ''invalid source'')
      else if (src_Kind s, src_Ref s) \<in> set seen then Some (ErrInvalidMemory ''duplicate source'')
      else source_error l ((src_Kind s, src_Ref s) # seen) ss)"

definition ValidateSources :: "Source list \<Rightarrow> Limits \<Rightarrow> MemError option" where
  "ValidateSources sources l = (case Limits_Validate l of
      Some e \<Rightarrow> Some e
    | None \<Rightarrow>
        if int (length sources) > lim_MaxSourcesPerMemory l then Some (ErrInvalidMemory ''too many sources'')
        else source_error l [] sources)"

text \<open>The checks run in order and the first error is returned.\<close>

fun first_error :: "MemError option list \<Rightarrow> MemError option" where
  "first_error [] = None"
| "first_error (Some e # es) = Some e"
| "first_error (None # es) = first_error es"

definition check :: "bool \<Rightarrow> string \<Rightarrow> MemError option" where
  "check ok msg = (if ok then None else Some (ErrInvalidMemory msg))"

definition ValidateCreateRequest :: "mem_libs \<Rightarrow> CreateRequest \<Rightarrow> Limits \<Rightarrow> MemError option" where
  "ValidateCreateRequest L r l = first_error
     [Limits_Validate l, Scope_Validate (crq_Scope r), ValidateMemoryID L (crq_ID r),
      check (\<not> (\<not> Kind_IsValid (crq_Kind r) \<or> \<not> MemStatus_IsValid (crq_Status r)
        \<or> \<not> validKey (crq_Key r) (lim_MaxKeyRunes l) \<or> \<not> validContent (crq_Content r) (lim_MaxContentRunes l)
        \<or> \<not> validTimeRange (crq_ValidFrom r) (crq_ValidUntil r) \<or> \<not> validImportance (crq_Importance r)
        \<or> \<not> validConfidence (crq_Confidence r)
        \<or> \<not> validMetadata (crq_SourceAgentID r) l \<or> \<not> validMetadata (crq_Actor r) l
        \<or> \<not> validMetadata (crq_Reason r) l \<or> \<not> validMetadata (crq_IdempotencyKey r) l)) ''invalid create request'',
      ValidateSources (crq_Sources r) l]"

definition ValidateCommand :: "mem_libs \<Rightarrow> VersionedCommand \<Rightarrow> Limits \<Rightarrow> MemError option" where
  "ValidateCommand L c l = first_error
     [Limits_Validate l, Scope_Validate (vc_Scope c), ValidateMemoryID L (vc_ID c),
      check (\<not> (vc_ExpectedVersion c \<le> 0 \<or> \<not> validMetadata (vc_Actor c) l \<or> \<not> validMetadata (vc_Reason c) l))
        ''invalid versioned command'']"

definition ValidateCorrectRequest :: "mem_libs \<Rightarrow> CorrectRequest \<Rightarrow> Limits \<Rightarrow> MemError option" where
  "ValidateCorrectRequest L r l = first_error
     [ValidateCommand L (cor_Command r) l,
      check (\<not> (\<not> validContent (cor_Content r) (lim_MaxContentRunes l)
        \<or> \<not> validTimeRange (cor_ValidFrom r) (cor_ValidUntil r) \<or> \<not> validImportance (cor_Importance r)
        \<or> \<not> validConfidence (cor_Confidence r))) ''invalid correction request'',
      ValidateSources (cor_Sources r) l]"

definition ValidateListQuery :: "ListQuery \<Rightarrow> Limits \<Rightarrow> MemError option" where
  "ValidateListQuery q l = first_error
     [Limits_Validate l, Scope_Validate (lq_Scope q),
      check (\<not> ((lq_Kind q \<noteq> '''' \<and> \<not> Kind_IsValid (lq_Kind q)) \<or> (lq_Status q \<noteq> '''' \<and> \<not> MemStatus_IsValid (lq_Status q))
        \<or> (lq_Key q \<noteq> '''' \<and> \<not> validKey (lq_Key q) (lim_MaxKeyRunes l))
        \<or> lq_Limit q \<le> 0 \<or> lq_Limit q > lim_MaxListItems l)) ''invalid list query'']"

definition ValidateRevisionQuery :: "mem_libs \<Rightarrow> RevisionQuery \<Rightarrow> Limits \<Rightarrow> MemError option" where
  "ValidateRevisionQuery L q l = first_error
     [Limits_Validate l, Scope_Validate (rq_Scope q), ValidateMemoryID L (rq_MemoryID q),
      check (\<not> (rq_BeforeVersion q < 0 \<or> rq_Limit q \<le> 0 \<or> rq_Limit q > lim_MaxListItems l)) ''invalid revision query'']"

definition validEmbeddingMetadata :: "string \<Rightarrow> Limits \<Rightarrow> bool" where
  "validEmbeddingMetadata v l \<longleftrightarrow> v \<noteq> '''' \<and> v = TrimSpace v \<and> int (rune_count v) \<le> lim_MaxMetadataRunes l
     \<and> \<not> list_ex (\<lambda>p. is_control (fst p)) (rune_chunks v)"

text \<open>The sum of the squares in \<open>float64\<close>; it cannot overflow for \<open>float32\<close> values.\<close>

definition squared_norm :: "(rat \<Rightarrow> rat) \<Rightarrow> rat list \<Rightarrow> rat" where
  "squared_norm rnd vs = fold (\<lambda>v acc. rnd (acc + rnd (v * v))) vs 0"

definition validVector :: "mem_libs \<Rightarrow> float_value list \<Rightarrow> bool" where
  "validVector L vector \<longleftrightarrow> None \<notin> set vector \<and> squared_norm (ml_round L) (map the vector) > 0"

definition ValidatePendingEmbeddingQuery :: "PendingEmbeddingQuery \<Rightarrow> Limits \<Rightarrow> MemError option" where
  "ValidatePendingEmbeddingQuery q l = first_error
     [Limits_Validate l,
      check (\<not> (\<not> validEmbeddingMetadata (peq_ProfileID q) l \<or> peq_Limit q \<le> 0 \<or> peq_Limit q > lim_MaxListItems l))
        ''invalid pending embedding query'']"

definition ValidatePutEmbeddingRequest :: "mem_libs \<Rightarrow> PutEmbeddingRequest \<Rightarrow> Limits \<Rightarrow> MemError option" where
  "ValidatePutEmbeddingRequest L r l = first_error
     [Limits_Validate l, Scope_Validate (per_Scope r), ValidateMemoryID L (per_MemoryID r),
      check (\<not> (\<not> validEmbeddingMetadata (per_ProfileID r) l \<or> \<not> validEmbeddingMetadata (per_ContentHash r) l
        \<or> per_Dimensions r \<le> 0 \<or> int (length (per_Vector r)) \<noteq> per_Dimensions r)) ''invalid embedding request'',
      check (validVector L (per_Vector r)) ''embedding values must be finite with a non-zero norm'']"

fun key_error :: "string list \<Rightarrow> string list \<Rightarrow> MemError option" where
  "key_error seen [] = None"
| "key_error seen (k # ks) =
     (if TrimSpace k = '''' then Some (ErrInvalidMemory ''blank candidate key'')
      else if k \<in> set seen then Some (ErrInvalidMemory ''duplicate candidate key'')
      else key_error (k # seen) ks)"

fun kind_error :: "Kind list \<Rightarrow> Kind list \<Rightarrow> MemError option" where
  "kind_error seen [] = None"
| "kind_error seen (k # ks) =
     (if \<not> Kind_IsValid k then Some (ErrInvalidMemory ''invalid candidate kind'')
      else if k \<in> set seen then Some (ErrInvalidMemory ''duplicate candidate kind'')
      else kind_error (k # seen) ks)"

definition ValidateCandidateQuery :: "mem_libs \<Rightarrow> CandidateQuery \<Rightarrow> Limits \<Rightarrow> MemError option" where
  "ValidateCandidateQuery L q l =
     (let channelLimits = [cq_ExactLimit q, cq_FullTextLimit q, cq_VectorLimit q]
      in first_error
       [Limits_Validate l, Scope_Validate (cq_Scope q),
        check (\<not> list_ex (\<lambda>n. n < 0 \<or> n > lim_MaxListItems l) channelLimits) ''invalid candidate channel limit'',
        check (\<not> (\<not> list_ex (\<lambda>n. n > 0) channelLimits
          \<or> int (rune_count (cq_Text q)) > lim_MaxContentRunes l
          \<or> int (length (cq_Keys q)) > lim_MaxListItems l)) ''invalid candidate query'',
        key_error [] (cq_Keys q), kind_error [] (cq_Kinds q),
        (if cq_VectorLimit q = 0
         then check (\<not> (cq_QueryVector q \<noteq> [] \<or> cq_EmbeddingProfileID q \<noteq> '''' \<or> cq_EmbeddingDimensions q \<noteq> 0
                \<or> cq_MinVectorSimilarity q \<noteq> Some 0)) ''vector fields require vector search''
         else first_error
          [check (\<not> (TrimSpace (cq_EmbeddingProfileID q) = ''''
             \<or> cq_EmbeddingProfileID q \<noteq> TrimSpace (cq_EmbeddingProfileID q)
             \<or> cq_EmbeddingDimensions q \<le> 0 \<or> int (length (cq_QueryVector q)) \<noteq> cq_EmbeddingDimensions q
             \<or> \<not> validConfidence (cq_MinVectorSimilarity q))) ''invalid vector query'',
           check (validVector L (cq_QueryVector q)) ''vector values must be finite with a non-zero norm''])])"

end
