(* ===== verification/Memory_Terms.thy ===== *)
theory Memory_Terms
  imports Memory_Types
begin

text \<open>
  \<open>memorykit/search_terms.go\<close>: the terms of a recall text (words and overlapping two-character
  grams of Chinese and Japanese), the grams of a memory that a store indexes, and the count of the
  terms that a memory matches. The proofs show that indexing \<open>IndexGrams\<close> loses nothing: a gram
  of a query occurs in a text as a substring exactly when it is one of the text's index grams.
\<close>

section \<open>Definitions\<close>

definition maxSearchWords :: int where "maxSearchWords = 32"
definition maxSearchGrams :: int where "maxSearchGrams = 64"

type_synonym rune = "nat \<times> string"

text \<open>\<open>string(runes)\<close>; only runes that decode from their own bytes are collected.\<close>

definition runes_string :: "rune list \<Rightarrow> string" where
  "runes_string rs = concat (map snd rs)"

definition add_term :: "int \<Rightarrow> string \<Rightarrow> string list \<Rightarrow> string list" where
  "add_term limit t terms = (if t \<in> set terms \<or> int (length terms) \<ge> limit then terms else terms @ [t])"

text \<open>The grams of a run: the lone character, or every two neighbours.\<close>

fun neighbours :: "rune list \<Rightarrow> string list" where
  "neighbours (a # b # rs) = runes_string [a, b] # neighbours (b # rs)"
| "neighbours _ = []"

definition run_grams :: "rune list \<Rightarrow> string list" where
  "run_grams rs = (case rs of [a] \<Rightarrow> [runes_string [a]] | _ \<Rightarrow> neighbours rs)"

record splitter =
  sp_words :: "string list"
  sp_grams :: "string list"
  sp_word :: "rune list"
  sp_cjk :: "rune list"

definition flushWord :: "mem_libs \<Rightarrow> int \<Rightarrow> splitter \<Rightarrow> splitter" where
  "flushWord L wordLimit s =
     (if sp_word s \<noteq> []
      then s\<lparr>sp_words := add_term wordLimit (ml_lower L (runes_string (sp_word s))) (sp_words s), sp_word := []\<rparr>
      else s)"

definition flushCJK :: "int \<Rightarrow> splitter \<Rightarrow> splitter" where
  "flushCJK gramLimit s =
     s\<lparr>sp_grams := fold (add_term gramLimit) (run_grams (sp_cjk s)) (sp_grams s), sp_cjk := []\<rparr>"

definition split_rune :: "mem_libs \<Rightarrow> int \<Rightarrow> int \<Rightarrow> rune \<Rightarrow> splitter \<Rightarrow> splitter" where
  "split_rune L wordLimit gramLimit r s =
     (if ml_cjk L (fst r) then (let s = flushWord L wordLimit s in s\<lparr>sp_cjk := sp_cjk s @ [r]\<rparr>)
      else if ml_alnum L (fst r) then (let s = flushCJK gramLimit s in s\<lparr>sp_word := sp_word s @ [r]\<rparr>)
      else flushCJK gramLimit (flushWord L wordLimit s))"

definition splitSearchTerms :: "mem_libs \<Rightarrow> string \<Rightarrow> int \<Rightarrow> int \<Rightarrow> string list \<times> string list" where
  "splitSearchTerms L txt wordLimit gramLimit =
     (let s = fold (split_rune L wordLimit gramLimit) (rune_chunks txt)
                \<lparr>sp_words = [], sp_grams = [], sp_word = [], sp_cjk = []\<rparr>;
          s = flushCJK gramLimit (flushWord L wordLimit s)
      in (sp_words s, sp_grams s))"

definition SearchTerms :: "mem_libs \<Rightarrow> string \<Rightarrow> string list \<times> string list" where
  "SearchTerms L txt = splitSearchTerms L txt maxSearchWords maxSearchGrams"

text \<open>
  \<open>IndexGrams\<close>: a flush adds each character of the run and each pair of neighbours to the set
  \<open>seen\<close>, kept as a list without repetitions; the result is sorted.
\<close>

fun index_run :: "rune list \<Rightarrow> string list" where
  "index_run [] = []"
| "index_run [a] = [runes_string [a]]"
| "index_run (a # b # rs) = runes_string [a] # runes_string [a, b] # index_run (b # rs)"

definition index_flush :: "string list \<times> rune list \<Rightarrow> string list \<times> rune list" where
  "index_flush p = (fold List.insert (index_run (snd p)) (fst p), [])"

definition index_rune :: "mem_libs \<Rightarrow> rune \<Rightarrow> string list \<times> rune list \<Rightarrow> string list \<times> rune list" where
  "index_rune L r p = (if ml_cjk L (fst r) then (fst p, snd p @ [r]) else index_flush p)"

definition IndexGrams :: "mem_libs \<Rightarrow> string \<Rightarrow> string list" where
  "IndexGrams L txt = sort_by (<) (fst (index_flush (fold (index_rune L) (rune_chunks txt) ([], []))))"

definition CountSearchTermHits :: "mem_libs \<Rightarrow> string \<Rightarrow> string \<Rightarrow> string list \<Rightarrow> string list \<Rightarrow> int" where
  "CountSearchTermHits L key content words grams =
     (let txt = key @ '' '' @ content;
          present = fst (splitSearchTerms L txt (2 ^ 63 - 1) 0)
      in int (length (filter (\<lambda>w. w \<in> set present) words)) + int (length (filter (\<lambda>g. sublist g txt) grams)))"

section \<open>Bounds on the terms\<close>

lemma add_term_props:
  assumes "distinct terms" and "int (length terms) \<le> n" and "0 \<le> n"
  shows "distinct (add_term n t terms)" and "int (length (add_term n t terms)) \<le> n"
  using assms by (auto simp: add_term_def)

lemma fold_add_term_props:
  assumes "distinct terms" and "int (length terms) \<le> n" and "0 \<le> n"
  shows "distinct (fold (add_term n) ts terms) \<and> int (length (fold (add_term n) ts terms)) \<le> n"
  using assms
proof (induction ts arbitrary: terms)
  case (Cons t ts)
  show ?case using Cons.IH [OF add_term_props [OF Cons.prems] Cons.prems(3)] by simp
qed simp

definition bounded :: "int \<Rightarrow> int \<Rightarrow> splitter \<Rightarrow> bool" where
  "bounded n m s \<longleftrightarrow> distinct (sp_words s) \<and> int (length (sp_words s)) \<le> n
     \<and> distinct (sp_grams s) \<and> int (length (sp_grams s)) \<le> m"

lemma bounded_flush:
  assumes "0 \<le> n" and "0 \<le> m" and "bounded n m s"
  shows "bounded n m (flushWord L n s)" and "bounded n m (flushCJK m s)"
  using assms fold_add_term_props [of "sp_grams s" m]
  by (auto simp: bounded_def flushWord_def flushCJK_def add_term_props)

lemma bounded_split:
  assumes "0 \<le> n" and "0 \<le> m" and "bounded n m s"
  shows "bounded n m (fold (split_rune L n m) rs s)"
  using assms(3)
proof (induction rs arbitrary: s)
  case (Cons r rs)
  have "bounded n m (split_rune L n m r s)"
    using bounded_flush [OF assms(1,2)] Cons.prems
    by (auto simp: split_rune_def Let_def bounded_def)
  then show ?case using Cons.IH by simp
qed simp

lemma splitSearchTerms_bounded:
  assumes "0 \<le> n" and "0 \<le> m" and "splitSearchTerms L txt n m = (words, grams)"
  shows "distinct words \<and> int (length words) \<le> n \<and> distinct grams \<and> int (length grams) \<le> m"
proof -
  let ?s0 = "\<lparr>sp_words = [], sp_grams = [], sp_word = [], sp_cjk = []\<rparr>"
  have "bounded n m ?s0" using assms by (simp add: bounded_def)
  from bounded_split [OF assms(1,2) this] have "bounded n m (fold (split_rune L n m) (rune_chunks txt) ?s0)" .
  then have "bounded n m (flushCJK m (flushWord L n (fold (split_rune L n m) (rune_chunks txt) ?s0)))"
    by (intro bounded_flush assms)
  with assms(3) show ?thesis by (auto simp: splitSearchTerms_def Let_def bounded_def)
qed

section \<open>Decoding is local\<close>

lemma decode_rune_width:
  assumes "s \<noteq> []"
  shows "1 \<le> snd (decode_rune s)" and "snd (decode_rune s) \<le> length s"
proof -
  obtain c t where s: "s = c # t" using assms by (cases s) auto
  let ?cont = "takeWhile is_cont (map byte (take 3 t))"
  have len: "length ?cont \<le> length t"
    by (metis length_map length_takeWhile_le length_take min.cobounded1 order_trans)
  show "1 \<le> snd (decode_rune s)" and "snd (decode_rune s) \<le> length s"
    using len by (auto simp: s decode_rune_def Let_def split: list.splits)
qed

lemma takeWhile_append_stop: "ys = [] \<or> \<not> P (hd ys) \<Longrightarrow> takeWhile P (xs @ ys) = takeWhile P xs"
  by (induction xs) (cases ys; auto)+

text \<open>A byte that does not continue a sequence always starts a new one.\<close>

lemma decode_rune_append_lead:
  assumes "xs \<noteq> []" and "ys = [] \<or> \<not> is_cont (byte (hd ys))"
  shows "decode_rune (xs @ ys) = decode_rune xs"
proof -
  obtain c t where xs: "xs = c # t" using assms by (cases xs) auto
  have "takeWhile is_cont (map byte (take 3 (t @ ys))) = takeWhile is_cont (map byte (take 3 t))"
  proof (cases "length t < 3")
    case True
    have "map byte (take (3 - length t) ys) = [] \<or> \<not> is_cont (hd (map byte (take (3 - length t) ys)))"
      using assms(2) True by (cases ys) (auto simp: take_Cons')
    then show ?thesis using takeWhile_append_stop [where P = is_cont and xs = "map byte t"] True by simp
  qed simp
  then show ?thesis by (simp add: xs decode_rune_def)
qed

lemma rune_chunks_append:
  assumes "ys = [] \<or> \<not> is_cont (byte (hd ys))"
  shows "rune_chunks (xs @ ys) = rune_chunks xs @ rune_chunks ys"
proof (induction xs rule: rune_chunks.induct)
  case (1 xs)
  show ?case
  proof (cases "xs = []")
    case False
    note d = decode_rune_append_lead [OF False assms]
    have w: "max 1 (snd (decode_rune xs)) = snd (decode_rune xs)" "snd (decode_rune xs) \<le> length xs"
      using decode_rune_width [OF False] by simp_all
    have "rune_chunks (xs @ ys) = (fst (decode_rune xs), take (snd (decode_rune xs)) xs)
        # rune_chunks (drop (snd (decode_rune xs)) xs @ ys)"
      by (subst rune_chunks.simps) (use False w d in \<open>simp add: Let_def\<close>)
    also have "rune_chunks (drop (snd (decode_rune xs)) xs @ ys)
        = rune_chunks (drop (snd (decode_rune xs)) xs) @ rune_chunks ys"
      using 1 [OF False refl] w by simp
    also have "(fst (decode_rune xs), take (snd (decode_rune xs)) xs) # \<dots> = rune_chunks xs @ rune_chunks ys"
      by (subst (2) rune_chunks.simps) (use False w in \<open>simp add: Let_def\<close>)
    finally show ?thesis .
  qed simp
qed

text \<open>A rune that decoded validly is decoded from its own bytes, whatever follows them.\<close>

definition clean :: "rune \<Rightarrow> bool" where
  "clean r \<longleftrightarrow> fst r \<noteq> 65533 \<and> snd r \<noteq> [] \<and> (\<forall>ys. decode_rune (snd r @ ys) = (fst r, length (snd r)))"

definition decode_bytes :: "nat \<Rightarrow> nat list \<Rightarrow> nat \<times> nat" where
  "decode_bytes b0 cont =
     (let bad = (65533, 1); n2 = (case cont of c1 # _ \<Rightarrow> c1 | [] \<Rightarrow> 0)
      in if b0 < 128 then (b0, 1)
         else if b0 < 194 then bad
         else if b0 < 224 then (case cont of c1 # _ \<Rightarrow> ((b0 - 192) * 64 + (c1 - 128), 2) | _ \<Rightarrow> bad)
         else if b0 < 240 then
           (case cont of c1 # c2 # _ \<Rightarrow>
              if (b0 = 224 \<and> n2 < 160) \<or> (b0 = 237 \<and> 160 \<le> n2) then bad
              else ((b0 - 224) * 4096 + (c1 - 128) * 64 + (c2 - 128), 3)
            | _ \<Rightarrow> bad)
         else if b0 < 245 then
           (case cont of c1 # c2 # c3 # _ \<Rightarrow>
              if (b0 = 240 \<and> n2 < 144) \<or> (b0 = 244 \<and> 144 \<le> n2) then bad
              else ((b0 - 240) * 262144 + (c1 - 128) * 4096 + (c2 - 128) * 64 + (c3 - 128), 4)
            | _ \<Rightarrow> bad)
         else bad)"

lemma decode_rune_Cons: "decode_rune (c # t) = decode_bytes (byte c) (takeWhile is_cont (map byte (take 3 t)))"
  by (simp add: decode_rune_def decode_bytes_def Let_def)

lemma decode_bytes_valid:
  assumes "decode_bytes b cont = (r, n)" and "r \<noteq> 65533"
  shows "n \<le> 4 \<and> n - 1 \<le> length cont \<and> 1 \<le> n \<and> decode_bytes b (take (n - 1) cont @ ext) = (r, n)
    \<and> \<not> is_cont b"
  using assms
  by (auto simp: decode_bytes_def is_cont_def Let_def split: if_splits list.splits)

lemma decode_rune_prefix:
  assumes "s \<noteq> []" and "fst (decode_rune s) \<noteq> 65533"
  shows "clean (fst (decode_rune s), take (snd (decode_rune s)) s)" and "\<not> is_cont (byte (hd s))"
proof -
  obtain c t where s: "s = c # t" using assms by (cases s) auto
  let ?cont = "\<lambda>t. takeWhile is_cont (map byte (take 3 t))"
  obtain r n where rn: "decode_rune s = (r, n)" by fastforce
  with assms s have d: "decode_bytes (byte c) (?cont t) = (r, n)" "r \<noteq> 65533" by (simp_all add: decode_rune_Cons)
  note v = decode_bytes_valid [OF d]
  then have n4: "n \<le> 4" "n - 1 \<le> length (?cont t)" "1 \<le> n" by blast+
  show "\<not> is_cont (byte (hd s))" using v s by simp
  have len: "length (?cont t) \<le> length t"
    by (metis length_map length_takeWhile_le length_take min.cobounded1 order_trans)
  have pre: "map byte (take (n - 1) t) = take (n - 1) (?cont t)" and all: "list_all is_cont (map byte (take (n - 1) t))"
  proof -
    have "prefix (?cont t) (map byte t)"
      by (metis map_append prefixI prefix_order.trans takeWhile_is_prefix append_take_drop_id)
    then obtain zs where zs: "map byte t = ?cont t @ zs" by (auto simp: prefix_def)
    have "map byte (take (n - 1) t) = take (n - 1) (?cont t @ zs)" by (simp only: zs [symmetric] take_map)
    then show p: "map byte (take (n - 1) t) = take (n - 1) (?cont t)" using n4 by simp
    have "list_all is_cont (?cont t)" by (auto simp: list_all_iff dest: set_takeWhileD)
    then show "list_all is_cont (map byte (take (n - 1) t))" unfolding p by (auto simp: list_all_iff dest: in_set_takeD)
  qed
  have "decode_rune (take n s @ ys) = (r, n)" for ys
  proof -
    have n: "take n s = c # take (n - 1) t" using n4 s by (cases n) auto
    have l: "length (take (n - 1) t) = n - 1" and n3: "n - 1 \<le> 3" using n4 len by auto
    have "?cont (take (n - 1) t @ ys) = takeWhile is_cont (map byte (take (n - 1) t) @ map byte (take (3 - (n - 1)) ys))"
      using n3 l by simp
    also have "\<dots> = map byte (take (n - 1) t) @ takeWhile is_cont (map byte (take (3 - (n - 1)) ys))"
      using all by (intro takeWhile_append2) (auto simp: list_all_iff)
    finally show ?thesis using v pre n by (simp add: decode_rune_Cons)
  qed
  then show "clean (fst (decode_rune s), take (snd (decode_rune s)) s)"
    using rn d n4 len s by (auto simp: clean_def)
qed

lemma clean_lead: "clean r \<Longrightarrow> \<not> is_cont (byte (hd (snd r)))"
  using decode_rune_prefix(2) [of "snd r"] unfolding clean_def by (metis append_Nil2 fst_conv)

lemma rune_chunks_clean:
  assumes "clean r"
  shows "rune_chunks (snd r @ ys) = r # rune_chunks ys"
proof -
  have d: "decode_rune (snd r @ ys) = (fst r, length (snd r))" and ne: "snd r \<noteq> []"
    using assms by (auto simp: clean_def)
  from ne have "max 1 (length (snd r)) = length (snd r)" by (cases "snd r") auto
  with d ne show ?thesis by (subst rune_chunks.simps) (simp add: Let_def)
qed

lemma rune_chunks_mem:
  assumes "r \<in> set (rune_chunks s)" and "fst r \<noteq> 65533"
  shows "clean r"
  using assms(1)
proof (induction s rule: rune_chunks.induct)
  case (1 s)
  show ?case
  proof (cases "s = []")
    case False
    let ?n = "snd (decode_rune s)"
    have n: "max 1 ?n = ?n" using decode_rune_width [OF False] by simp
    have "r = (fst (decode_rune s), take ?n s) \<or> r \<in> set (rune_chunks (drop ?n s))"
      using 1(2) False n by (subst (asm) rune_chunks.simps) (auto simp: Let_def)
    then show ?thesis
      using 1(1) [OF False refl] decode_rune_prefix(1) [OF False] assms(2) n by auto
  qed (use 1 in simp)
qed

lemma rune_chunks_runes:
  assumes "list_all clean rs"
  shows "rune_chunks (runes_string rs @ ys) = rs @ rune_chunks ys"
  using assms by (induction rs) (simp_all add: runes_string_def rune_chunks_clean)

text \<open>Substrings of valid characters are the sublists of the decoded runes.\<close>

lemma sublist_runes:
  assumes "list_all clean rs" and "rs \<noteq> []"
  shows "sublist (runes_string rs) s \<longleftrightarrow> sublist rs (rune_chunks s)"
proof
  assume "sublist (runes_string rs) s"
  then obtain ps ss where s: "s = ps @ runes_string rs @ ss" by (auto simp: sublist_def)
  have "runes_string rs \<noteq> []" and "hd (runes_string rs) = hd (snd (hd rs))"
    using assms by (cases rs; auto simp: runes_string_def clean_def)+
  then have "\<not> is_cont (byte (hd (runes_string rs @ ss)))"
    using assms clean_lead [of "hd rs"] by (cases rs) auto
  then have "rune_chunks s = rune_chunks ps @ rs @ rune_chunks ss"
    unfolding s using assms rune_chunks_append rune_chunks_runes by metis
  then show "sublist rs (rune_chunks s)" by (auto simp: sublist_def)
next
  assume "sublist rs (rune_chunks s)"
  then obtain ps ss where "rune_chunks s = ps @ rs @ ss" by (auto simp: sublist_def)
  then have "s = runes_string ps @ runes_string rs @ runes_string ss"
    using concat_rune_chunks [of s] by (simp add: runes_string_def)
  then show "sublist (runes_string rs) s" by (auto simp: sublist_def)
qed

section \<open>The index grams\<close>

text \<open>The grams of a decoded text: every character of the scripts, and every two neighbours.\<close>

definition gram :: "mem_libs \<Rightarrow> rune list \<Rightarrow> bool" where
  "gram L rs \<longleftrightarrow> (length rs = 1 \<or> length rs = 2) \<and> list_all (\<lambda>r. ml_cjk L (fst r)) rs"

definition grams_of :: "mem_libs \<Rightarrow> rune list \<Rightarrow> string set" where
  "grams_of L cs = {runes_string rs | rs. gram L rs \<and> sublist rs cs}"

lemma gram_suffix:
  "gram L rs \<and> suffix rs (cs @ [c]) \<longleftrightarrow> ml_cjk L (fst c) \<and>
     (rs = [c] \<or> (cs \<noteq> [] \<and> ml_cjk L (fst (last cs)) \<and> rs = [last cs, c]))" (is "?l \<longleftrightarrow> ?r")
proof
  assume ?l
  then obtain ps where ps: "cs @ [c] = ps @ rs" and g: "gram L rs" by (auto simp: suffix_def)
  from g consider a where "rs = [a]" | a b where "rs = [a, b]"
    by (cases rs rule: neighbours.cases) (auto simp: gram_def)
  then show ?r
    using ps g by cases (auto simp: gram_def append_eq_append_conv2 Cons_eq_append_conv append_eq_Cons_conv)
next
  assume ?r
  then show ?l
    by (auto simp: gram_def suffix_def) (metis append_butlast_last_id append.assoc append_Cons append_Nil)
qed

lemma grams_of_Nil [simp]: "grams_of L [] = {}"
  by (auto simp: grams_of_def gram_def)

lemma grams_of_snoc:
  "grams_of L (cs @ [c]) = grams_of L cs \<union>
     (if ml_cjk L (fst c)
      then insert (runes_string [c]) (if cs \<noteq> [] \<and> ml_cjk L (fst (last cs)) then {runes_string [last cs, c]} else {})
      else {})"
proof -
  have "grams_of L (cs @ [c]) = grams_of L cs \<union> {runes_string rs | rs. gram L rs \<and> suffix rs (cs @ [c])}"
    by (auto simp: grams_of_def sublist_snoc)
  then show ?thesis unfolding gram_suffix by auto
qed

lemma index_run_snoc:
  "set (index_run (rs @ [c])) = set (index_run rs) \<union>
     insert (runes_string [c]) (if rs = [] then {} else {runes_string [last rs, c]})"
  by (induction rs rule: index_run.induct) auto

lemma set_fold_insert: "set (fold List.insert xs ys) = set xs \<union> set ys"
  by (induction xs arbitrary: ys) auto

lemma distinct_fold_insert: "distinct ys \<Longrightarrow> distinct (fold List.insert xs ys)"
  by (induction xs arbitrary: ys) auto

lemma index_fold:
  assumes "fold (index_rune L) cs ([], []) = (seen, run)"
  shows "set seen \<union> set (index_run run) = grams_of L cs \<and>
    (\<exists>pre. cs = pre @ run \<and> (pre = [] \<or> \<not> ml_cjk L (fst (last pre)))) \<and> distinct seen
    \<and> list_all (\<lambda>r. ml_cjk L (fst r)) run"
  using assms
proof (induction cs arbitrary: seen run rule: rev_induct)
  case (snoc c cs)
  obtain seen0 run0 where f: "fold (index_rune L) cs ([], []) = (seen0, run0)" by fastforce
  from snoc.IH [OF f] obtain pre where g: "set seen0 \<union> set (index_run run0) = grams_of L cs"
    and cs: "cs = pre @ run0" and p: "pre = [] \<or> \<not> ml_cjk L (fst (last pre))" and d: "distinct seen0"
    and c0: "list_all (\<lambda>r. ml_cjk L (fst r)) run0" by blast
  show ?case
  proof (cases "ml_cjk L (fst c)")
    case True
    with snoc.prems f have r: "seen = seen0" "run = run0 @ [c]" by (simp_all add: index_rune_def [of _ c])
    have l: "(cs \<noteq> [] \<and> ml_cjk L (fst (last cs))) = (run0 \<noteq> [])" and "run0 \<noteq> [] \<Longrightarrow> last cs = last run0"
      using cs p c0 by (auto simp: list_all_iff)
    then have "set seen \<union> set (index_run run) = grams_of L (cs @ [c])"
      using g True by (auto simp: r index_run_snoc grams_of_snoc)
    then show ?thesis using r cs p d c0 True by auto
  next
    case False
    with snoc.prems f have r: "seen = fold List.insert (index_run run0) seen0" "run = []"
      by (simp_all add: index_rune_def [of _ c] index_flush_def)
    have "distinct seen" using d unfolding r(1) by (rule distinct_fold_insert)
    with r g False show ?thesis by (auto simp: set_fold_insert grams_of_snoc intro!: exI [of _ "cs @ [c]"])
  qed
qed simp

lemma IndexGrams_set: "set (IndexGrams L txt) = grams_of L (rune_chunks txt)"
proof -
  obtain seen run where f: "fold (index_rune L) (rune_chunks txt) ([], []) = (seen, run)" by fastforce
  from index_fold [OF f] show ?thesis by (auto simp: IndexGrams_def f index_flush_def set_fold_insert)
qed

lemma IndexGrams_sorted: "sorted (IndexGrams L txt)" and IndexGrams_distinct: "distinct (IndexGrams L txt)"
proof -
  obtain seen run where f: "fold (index_rune L) (rune_chunks txt) ([], []) = (seen, run)" by fastforce
  show "distinct (IndexGrams L txt)"
    using index_fold [OF f] by (simp add: IndexGrams_def f index_flush_def distinct_fold_insert)
  show "sorted (IndexGrams L txt)"
    using string_order.sorted_sort_by by (simp add: IndexGrams_def not_less)
qed

section \<open>The grams of a query\<close>

text \<open>Every gram that the splitter emits stands for one or two characters of the scripts.\<close>

definition query_gram :: "mem_libs \<Rightarrow> rune list \<Rightarrow> string \<Rightarrow> bool" where
  "query_gram L cs g \<longleftrightarrow> (\<exists>rs. gram L rs \<and> set rs \<subseteq> set cs \<and> g = runes_string rs)"

lemma neighbours_gram:
  "list_all (\<lambda>r. ml_cjk L (fst r)) rs \<Longrightarrow> g \<in> set (neighbours rs) \<Longrightarrow> query_gram L rs g"
proof (induction rs rule: neighbours.induct)
  case (1 a b rs)
  then have "g = runes_string [a, b] \<or> query_gram L (b # rs) g" by auto
  then show ?case
  proof
    assume "g = runes_string [a, b]"
    then show ?thesis using 1(2) unfolding query_gram_def by (intro exI [of _ "[a, b]"]) (simp add: gram_def)
  qed (auto simp: query_gram_def)
qed simp_all

lemma run_grams_gram:
  assumes "list_all (\<lambda>r. ml_cjk L (fst r)) rs" and "g \<in> set (run_grams rs)"
  shows "query_gram L rs g"
proof (cases "\<exists>a. rs = [a]")
  case True
  then show ?thesis using assms unfolding query_gram_def
    by (intro exI [of _ rs]) (auto simp: run_grams_def gram_def)
next
  case False
  then have "run_grams rs = neighbours rs" by (auto simp: run_grams_def split: list.splits)
  with assms show ?thesis by (simp add: neighbours_gram)
qed

lemma set_fold_add_term: "set (fold (add_term n) ts terms) \<subseteq> set ts \<union> set terms"
  by (induction ts arbitrary: terms) (fastforce simp: add_term_def split: if_splits)+

definition grams_ok :: "mem_libs \<Rightarrow> rune list \<Rightarrow> splitter \<Rightarrow> bool" where
  "grams_ok L cs s \<longleftrightarrow> (\<forall>g \<in> set (sp_grams s). query_gram L cs g)
     \<and> list_all (\<lambda>r. ml_cjk L (fst r)) (sp_cjk s) \<and> set (sp_cjk s) \<subseteq> set cs"

lemma query_gram_mono: "query_gram L cs g \<Longrightarrow> set cs \<subseteq> set ds \<Longrightarrow> query_gram L ds g"
  unfolding query_gram_def by blast

lemma grams_ok_flush:
  assumes "grams_ok L cs s"
  shows "grams_ok L cs (flushWord L n s)" and "grams_ok L cs (flushCJK m s)"
proof -
  show "grams_ok L cs (flushWord L n s)" using assms by (simp add: grams_ok_def flushWord_def)
  have "query_gram L cs g" if "g \<in> set (fold (add_term m) (run_grams (sp_cjk s)) (sp_grams s))" for g
    using that set_fold_add_term [of m "run_grams (sp_cjk s)" "sp_grams s"] assms
    by (auto simp: grams_ok_def intro: query_gram_mono dest: run_grams_gram)
  then show "grams_ok L cs (flushCJK m s)" by (simp add: grams_ok_def flushCJK_def)
qed

lemma grams_ok_split:
  assumes "grams_ok L cs s" and "set rs \<subseteq> set cs"
  shows "grams_ok L cs (fold (split_rune L n m) rs s)"
  using assms
proof (induction rs arbitrary: s)
  case (Cons r rs)
  have "grams_ok L cs (split_rune L n m r s)"
    using grams_ok_flush [OF Cons.prems(1)] grams_ok_flush(2) [OF grams_ok_flush(1) [OF Cons.prems(1)]] Cons.prems(2)
    by (auto simp: split_rune_def Let_def grams_ok_def)
  then show ?case using Cons by simp
qed simp

lemma SearchTerms_grams:
  assumes "g \<in> set (snd (SearchTerms L q))"
  shows "query_gram L (rune_chunks q) g"
proof -
  let ?s0 = "\<lparr>sp_words = [], sp_grams = [], sp_word = [], sp_cjk = []\<rparr>"
  have "grams_ok L (rune_chunks q) ?s0" by (simp add: grams_ok_def)
  from grams_ok_flush(2) [OF grams_ok_flush(1) [OF grams_ok_split [OF this order_refl]],
      of maxSearchGrams maxSearchWords maxSearchWords maxSearchGrams] assms
  show ?thesis by (simp add: SearchTerms_def splitSearchTerms_def Let_def grams_ok_def)
qed

lemma gram_is_query:
  assumes "gram L rs" and "list_all clean rs"
  shows "runes_string rs \<in> set (snd (SearchTerms L (runes_string rs)))"
proof -
  have ch: "rune_chunks (runes_string rs) = rs" using rune_chunks_runes [OF assms(2), of "[]"] by simp
  note defs = SearchTerms_def splitSearchTerms_def Let_def split_rune_def flushWord_def flushCJK_def
    run_grams_def add_term_def maxSearchGrams_def
  from assms(1) consider a where "rs = [a]" "ml_cjk L (fst a)" | a b where "rs = [a, b]" "ml_cjk L (fst a)" "ml_cjk L (fst b)"
    by (cases rs rule: neighbours.cases) (auto simp: gram_def)
  then show ?thesis
  proof cases
    case (1 a)
    then show ?thesis using ch by (simp add: defs)
  next
    case (2 a b)
    then show ?thesis using ch by (simp add: defs)
  qed
qed

lemma gram_clean:
  assumes "\<not> ml_cjk L 65533" and "gram L rs" and "set rs \<subseteq> set (rune_chunks q)"
  shows "list_all clean rs \<and> rs \<noteq> []"
  using assms rune_chunks_mem by (force simp: gram_def list_all_iff)

text \<open>The terms of a search are bounded, and an index of \<open>IndexGrams\<close> loses nothing: a
  text yields at most 32 words and 64 grams, without repetition; the index grams of a memory are
  sorted without repetition, and are exactly the grams of queries that occur in its text as
  substrings, however the bytes of the text are formed. The replacement character is in none of
  the scripts.
\<close>

theorem index_grams_exact:
  assumes "\<not> ml_cjk L 65533"
  shows "(case SearchTerms L q of (words, grams) \<Rightarrow>
        distinct words \<and> length words \<le> 32 \<and> distinct grams \<and> length grams \<le> 64)
    \<and> sorted (IndexGrams L txt) \<and> distinct (IndexGrams L txt)
    \<and> (g \<in> set (IndexGrams L txt) \<longleftrightarrow> sublist g txt \<and> (\<exists>query. g \<in> set (snd (SearchTerms L query))))"
proof (intro conjI)
  show "case SearchTerms L q of (words, grams) \<Rightarrow>
      distinct words \<and> length words \<le> 32 \<and> distinct grams \<and> length grams \<le> 64"
    using splitSearchTerms_bounded [of maxSearchWords maxSearchGrams L q]
    by (auto simp: SearchTerms_def maxSearchWords_def maxSearchGrams_def split: prod.splits)
  show "sorted (IndexGrams L txt)" and "distinct (IndexGrams L txt)"
    by (fact IndexGrams_sorted IndexGrams_distinct)+
  show "g \<in> set (IndexGrams L txt) \<longleftrightarrow> sublist g txt \<and> (\<exists>query. g \<in> set (snd (SearchTerms L query)))"
  proof
    assume "g \<in> set (IndexGrams L txt)"
    then obtain rs where rs: "gram L rs" "sublist rs (rune_chunks txt)" "g = runes_string rs"
      by (auto simp: IndexGrams_set grams_of_def)
    have "list_all clean rs \<and> rs \<noteq> []"
      using gram_clean [OF assms rs(1)] set_mono_sublist [OF rs(2)] by blast
    with rs show "sublist g txt \<and> (\<exists>query. g \<in> set (snd (SearchTerms L query)))"
      using sublist_runes gram_is_query by blast
  next
    assume "sublist g txt \<and> (\<exists>query. g \<in> set (snd (SearchTerms L query)))"
    then obtain query where s: "sublist g txt" and "g \<in> set (snd (SearchTerms L query))" by blast
    from SearchTerms_grams [OF this(2)] obtain rs where rs: "gram L rs" "set rs \<subseteq> set (rune_chunks query)"
      "g = runes_string rs" by (auto simp: query_gram_def)
    with s sublist_runes gram_clean [OF assms] have "sublist rs (rune_chunks txt)" by blast
    with rs show "g \<in> set (IndexGrams L txt)" by (auto simp: IndexGrams_set grams_of_def)
  qed
qed

text \<open>Libraries for the examples: every text is its own canonical identity and digest.\<close>

definition demo_mem_libs :: mem_libs where
  "demo_mem_libs = \<lparr>ml_uuid = (\<lambda>i. if TrimSpace i = '''' then None else Some i), ml_json = (\<lambda>r. Some (crq_Content r)), ml_sha256 = (\<lambda>s. s), ml_hex = (\<lambda>s. s),
     ml_round = (\<lambda>x. x), ml_sqrt = (\<lambda>x. x), ml_cjk = (\<lambda>r. 19968 \<le> r \<and> r \<le> 40959),
     ml_alnum = (\<lambda>r. 48 \<le> r \<and> r \<le> 57 \<or> 97 \<le> r \<and> r \<le> 122), ml_lower = (\<lambda>s. s)\<rparr>"

text \<open>Two Chinese characters, the second followed by a stray continuation byte.\<close>

theorem index_grams_exact_witness:
  "let zhong = [CHR 0xE4, CHR 0xB8, CHR 0xAD]; wen = [CHR 0xE6, CHR 0x96, CHR 0x87]
   in IndexGrams demo_mem_libs (zhong @ wen @ [CHR 0x87]) = [zhong, zhong @ wen, wen]
     \<and> (\<exists>query. zhong @ wen \<in> set (snd (SearchTerms demo_mem_libs query)))"
proof -
  let ?zhong = "[CHR 0xE4, CHR 0xB8, CHR 0xAD]" and ?wen = "[CHR 0xE6, CHR 0x96, CHR 0x87]"
  have grams: "IndexGrams demo_mem_libs (?zhong @ ?wen @ [CHR 0x87]) = [?zhong, ?zhong @ ?wen, ?wen]"
    by (simp add: IndexGrams_def rune_chunks_Cons decode_rune_Cons decode_bytes_def is_cont_def index_rune_def
        index_flush_def demo_mem_libs_def runes_string_def sort_by_def less_char_def)
  have "\<not> ml_cjk demo_mem_libs 65533" by (simp add: demo_mem_libs_def)
  from index_grams_exact [OF this, of _ "?zhong @ ?wen @ [CHR 0x87]" "?zhong @ ?wen"] grams
  show ?thesis by (simp add: Let_def)
qed

end
