(* ===== verification/Memory_Store.thy ===== *)
theory Memory_Store
  imports Memory_Terms
begin

text \<open>
  \<open>memorykit/memorystore/store.go\<close>: the in-memory store of long-term memories with its life cycle
  (candidate, active, inactive), optimistic versions, revision log, idempotent creation, erasure,
  embeddings and candidate search. Every operation holds the store's lock; the context is read
  before and after the lock is taken, as \<open>ctx 0\<close> and \<open>ctx 1\<close>. A Go map iterated in unspecified
  order is the order of its association list. Versions are unbounded integers: an \<open>int64\<close> that is
  incremented once per command does not overflow.
\<close>

section \<open>State\<close>

record storedEmbedding =
  emb_contentHash :: string
  emb_dimensions :: int
  emb_vector :: "rat list"

type_synonym embeddingIdentity = "string \<times> string"
type_synonym idempotencyIdentity = "Scope \<times> string"

record createRecord =
  crec_id :: string
  crec_fingerprint :: string
  crec_erased :: bool

record MemStore =
  ms_limits :: Limits
  ms_memories :: "(string, Memory) gomap"
  ms_sources :: "(string, Source list) gomap"
  ms_revisions :: "(string, Revision list) gomap"
  ms_creates :: "(idempotencyIdentity, createRecord) gomap"
  ms_embeddings :: "(embeddingIdentity, storedEmbedding) gomap"

definition New :: "Limits \<Rightarrow> MemError + MemStore" where
  "New limits = (case Limits_Validate limits of
      Some e \<Rightarrow> Inl e
    | None \<Rightarrow> Inr \<lparr>ms_limits = limits, ms_memories = [], ms_sources = [], ms_revisions = [], ms_creates = [],
        ms_embeddings = []\<rparr>)"

section \<open>Helpers\<close>

abbreviation memory_at :: "MemStore \<Rightarrow> string \<Rightarrow> Memory option" where
  "memory_at s i \<equiv> map_of (ms_memories s) i"

definition sources_at :: "MemStore \<Rightarrow> string \<Rightarrow> Source list" where
  "sources_at s i = (case map_of (ms_sources s) i of Some xs \<Rightarrow> xs | None \<Rightarrow> [])"

definition revisions_at :: "MemStore \<Rightarrow> string \<Rightarrow> Revision list" where
  "revisions_at s i = (case map_of (ms_revisions s) i of Some xs \<Rightarrow> xs | None \<Rightarrow> [])"

definition put_memory :: "Memory \<Rightarrow> MemStore \<Rightarrow> MemStore" where
  "put_memory m s = s\<lparr>ms_memories := AList.update (mem_ID m) m (ms_memories s)\<rparr>"

definition copySources :: "Source list \<Rightarrow> Source list" where
  "copySources xs = [] @ xs"

definition put_sources :: "string \<Rightarrow> Source list \<Rightarrow> MemStore \<Rightarrow> MemStore" where
  "put_sources i xs s = s\<lparr>ms_sources := AList.update i (copySources xs) (ms_sources s)\<rparr>"

definition appendRevisionLocked ::
  "Memory \<Rightarrow> RevisionAction \<Rightarrow> string \<Rightarrow> string \<Rightarrow> time \<Rightarrow> bool \<Rightarrow> MemStore \<Rightarrow> MemStore" where
  "appendRevisionLocked m action actor reason createdAt erased s =
     s\<lparr>ms_revisions := AList.update (mem_ID m) (revisions_at s (mem_ID m) @
         [\<lparr>rv_MemoryID = mem_ID m, rv_Version = mem_Version m, rv_Action = action, rv_Actor = actor,
           rv_Reason = reason, rv_Snapshot = m, rv_ContentErased = erased, rv_CreatedAt = createdAt\<rparr>])
       (ms_revisions s)\<rparr>"

definition sameConflictKey :: "Memory \<Rightarrow> Memory \<Rightarrow> bool" where
  "sameConflictKey a b \<longleftrightarrow> mem_Scope a = mem_Scope b \<and> mem_Kind a = mem_Kind b \<and> mem_Key a = mem_Key b"

definition supersede_entry ::
  "Memory \<Rightarrow> string \<Rightarrow> string \<Rightarrow> string \<Rightarrow> time \<Rightarrow> string \<times> Memory \<Rightarrow> MemStore \<Rightarrow> MemStore" where
  "supersede_entry target excludeID actor reason now entry s = (case entry of (i, m) \<Rightarrow>
     if i = excludeID \<or> mem_Status m \<noteq> StatusActive \<or> \<not> sameConflictKey m target then s
     else (let m = m\<lparr>mem_Status := StatusInactive, mem_Version := mem_Version m + 1, mem_UpdatedAt := now\<rparr>;
               s = s\<lparr>ms_memories := AList.update i m (ms_memories s)\<rparr>
           in appendRevisionLocked m ''supersede'' actor reason now False s))"

definition supersedeActiveLocked ::
  "Memory \<Rightarrow> string \<Rightarrow> string \<Rightarrow> string \<Rightarrow> time \<Rightarrow> MemStore \<Rightarrow> MemStore" where
  "supersedeActiveLocked target excludeID actor reason now s =
     fold (supersede_entry target excludeID actor reason now) (ms_memories s) s"

definition commandTargetLocked :: "VersionedCommand \<Rightarrow> MemStore \<Rightarrow> MemError + Memory" where
  "commandTargetLocked c s = (case memory_at s (vc_ID c) of
      None \<Rightarrow> Inl ErrNotFound
    | Some m \<Rightarrow>
        if mem_Scope m \<noteq> vc_Scope c then Inl ErrNotFound
        else if mem_Version m \<noteq> vc_ExpectedVersion c then Inl (ErrConflict '''')
        else Inr m)"

definition createFingerprint :: "mem_libs \<Rightarrow> CreateRequest \<Rightarrow> MemError + string" where
  "createFingerprint L r = (case ml_json L (r\<lparr>crq_Now := 0\<rparr>) of
      None \<Rightarrow> Inl (ErrInvalidMemory ''encode create fingerprint'')
    | Some encoded \<Rightarrow> Inr (ml_sha256 L encoded))"

definition hashMemoryContent :: "mem_libs \<Rightarrow> string \<Rightarrow> string" where
  "hashMemoryContent L content = ml_hex L (ml_sha256 L content)"

definition validateIdentity :: "mem_libs \<Rightarrow> Scope \<Rightarrow> string \<Rightarrow> MemError option" where
  "validateIdentity L scope i = (case Scope_Validate scope of Some e \<Rightarrow> Some e | None \<Rightarrow> ValidateMemoryID L i)"

text \<open>The entry of every operation: the context, the validation, the context under the lock.\<close>

definition entry_error :: "(nat \<Rightarrow> ctx) \<Rightarrow> MemError option \<Rightarrow> MemError option" where
  "entry_error ctx validation = (case ctx 0 of
      Some e \<Rightarrow> Some (MemCtx e)
    | None \<Rightarrow> (case validation of
        Some e \<Rightarrow> Some e
      | None \<Rightarrow> (case ctx 1 of Some e \<Rightarrow> Some (MemCtx e) | None \<Rightarrow> None)))"

section \<open>Life cycle\<close>

definition request_memory :: "CreateRequest \<Rightarrow> Memory" where
  "request_memory r =
     \<lparr>mem_ID = crq_ID r, mem_Key = crq_Key r, mem_Content = crq_Content r, mem_SourceAgentID = crq_SourceAgentID r,
      mem_CreatedBy = crq_Actor r, mem_IdempotencyKey = crq_IdempotencyKey r, mem_Scope = crq_Scope r,
      mem_Kind = crq_Kind r, mem_Status = crq_Status r, mem_ValidFrom = crq_ValidFrom r,
      mem_ValidUntil = crq_ValidUntil r, mem_Importance = crq_Importance r, mem_Confidence = crq_Confidence r,
      mem_Version = 1, mem_CreatedAt = crq_Now r, mem_UpdatedAt = crq_Now r\<rparr>"

definition insert_memory :: "CreateRequest \<Rightarrow> string \<Rightarrow> MemStore \<Rightarrow> MemStore" where
  "insert_memory r fingerprint s =
     (let m = request_memory r;
          s = (if mem_Status m = StatusActive
               then supersedeActiveLocked m (mem_ID m) (crq_Actor r) (crq_Reason r) (crq_Now r) s else s);
          s = put_memory m s;
          s = put_sources (mem_ID m) (crq_Sources r) s;
          s = appendRevisionLocked m ''create'' (crq_Actor r) (crq_Reason r) (crq_Now r) False s
      in if crq_IdempotencyKey r \<noteq> ''''
         then s\<lparr>ms_creates := AList.update (crq_Scope r, crq_IdempotencyKey r)
                \<lparr>crec_id = crq_ID r, crec_fingerprint = fingerprint, crec_erased = False\<rparr> (ms_creates s)\<rparr>
         else s)"

definition create_checked :: "CreateRequest \<Rightarrow> string \<Rightarrow> MemStore \<Rightarrow> (MemError + Memory) \<times> MemStore" where
  "create_checked r fingerprint s =
     (let replay = (if crq_IdempotencyKey r \<noteq> ''''
                    then map_of (ms_creates s) (crq_Scope r, crq_IdempotencyKey r) else None)
      in case replay of
           Some previous \<Rightarrow>
             (case memory_at s (crq_ID r) of
                Some current \<Rightarrow>
                  if \<not> crec_erased previous \<and> crec_id previous = crq_ID r \<and> crec_fingerprint previous = fingerprint
                  then (Inr current, s)
                  else (Inl (ErrConflict ''idempotency key was already used''), s)
              | None \<Rightarrow> (Inl (ErrConflict ''idempotency key was already used''), s))
         | None \<Rightarrow>
             if memory_at s (crq_ID r) \<noteq> None then (Inl (ErrConflict ''memory ID already exists''), s)
             else (Inr (request_memory r), insert_memory r fingerprint s))"

definition mem_Create :: "mem_libs \<Rightarrow> (nat \<Rightarrow> ctx) \<Rightarrow> CreateRequest \<Rightarrow> MemStore \<Rightarrow> (MemError + Memory) \<times> MemStore" where
  "mem_Create L ctx r s = (case ctx 0 of
      Some e \<Rightarrow> (Inl (MemCtx e), s)
    | None \<Rightarrow> (case ValidateCreateRequest L r (ms_limits s) of
        Some e \<Rightarrow> (Inl e, s)
      | None \<Rightarrow> (case (if crq_IdempotencyKey r \<noteq> '''' then createFingerprint L r else Inr '''') of
          Inl e \<Rightarrow> (Inl e, s)
        | Inr fingerprint \<Rightarrow> (case ctx 1 of
            Some e \<Rightarrow> (Inl (MemCtx e), s)
          | None \<Rightarrow> create_checked r fingerprint s))))"

definition mem_Get :: "mem_libs \<Rightarrow> (nat \<Rightarrow> ctx) \<Rightarrow> Scope \<Rightarrow> string \<Rightarrow> MemStore \<Rightarrow> MemError + Memory" where
  "mem_Get L ctx scope i s = (case entry_error ctx (validateIdentity L scope i) of
      Some e \<Rightarrow> Inl e
    | None \<Rightarrow> (case memory_at s i of
        Some m \<Rightarrow> if mem_Scope m \<noteq> scope then Inl ErrNotFound else Inr m
      | None \<Rightarrow> Inl ErrNotFound))"

definition mem_Sources :: "mem_libs \<Rightarrow> (nat \<Rightarrow> ctx) \<Rightarrow> Scope \<Rightarrow> string \<Rightarrow> MemStore \<Rightarrow> MemError + Source list" where
  "mem_Sources L ctx scope i s = (case entry_error ctx (validateIdentity L scope i) of
      Some e \<Rightarrow> Inl e
    | None \<Rightarrow> (case memory_at s i of
        Some m \<Rightarrow> if mem_Scope m \<noteq> scope then Inl ErrNotFound else Inr (copySources (sources_at s i))
      | None \<Rightarrow> Inl ErrNotFound))"

definition newest_first :: "Memory \<Rightarrow> Memory \<Rightarrow> bool" where
  "newest_first a b = (if mem_UpdatedAt a = mem_UpdatedAt b then mem_ID a < mem_ID b else mem_UpdatedAt a > mem_UpdatedAt b)"

definition list_matches :: "ListQuery \<Rightarrow> Memory \<Rightarrow> bool" where
  "list_matches q m \<longleftrightarrow> \<not> (mem_Scope m \<noteq> lq_Scope q \<or> (lq_Kind q \<noteq> '''' \<and> mem_Kind m \<noteq> lq_Kind q)
     \<or> (lq_Status q \<noteq> '''' \<and> mem_Status m \<noteq> lq_Status q) \<or> (lq_Key q \<noteq> '''' \<and> mem_Key m \<noteq> lq_Key q))"

definition mem_List :: "(nat \<Rightarrow> ctx) \<Rightarrow> ListQuery \<Rightarrow> MemStore \<Rightarrow> MemError + Memory list" where
  "mem_List ctx q s = (case entry_error ctx (ValidateListQuery q (ms_limits s)) of
      Some e \<Rightarrow> Inl e
    | None \<Rightarrow> Inr (take (nat (lq_Limit q))
        (sort_by newest_first (filter (list_matches q) (map snd (ms_memories s))))))"

definition Activate :: "mem_libs \<Rightarrow> (nat \<Rightarrow> ctx) \<Rightarrow> VersionedCommand \<Rightarrow> MemStore \<Rightarrow> (MemError + Memory) \<times> MemStore" where
  "Activate L ctx c s = (case entry_error ctx (ValidateCommand L c (ms_limits s)) of
      Some e \<Rightarrow> (Inl e, s)
    | None \<Rightarrow> (case commandTargetLocked c s of
        Inl e \<Rightarrow> (Inl e, s)
      | Inr m \<Rightarrow>
          if mem_Status m \<noteq> StatusCandidate then (Inl (ErrConflict ''''), s)
          else (let s = supersedeActiveLocked m (mem_ID m) (vc_Actor c) (vc_Reason c) (vc_Now c) s;
                    m = m\<lparr>mem_Status := StatusActive, mem_Version := mem_Version m + 1, mem_UpdatedAt := vc_Now c\<rparr>
                in (Inr m, appendRevisionLocked m ''activate'' (vc_Actor c) (vc_Reason c) (vc_Now c) False
                      (put_memory m s)))))"

definition Correct :: "mem_libs \<Rightarrow> (nat \<Rightarrow> ctx) \<Rightarrow> CorrectRequest \<Rightarrow> MemStore \<Rightarrow> (MemError + Memory) \<times> MemStore" where
  "Correct L ctx r s = (case entry_error ctx (ValidateCorrectRequest L r (ms_limits s)) of
      Some e \<Rightarrow> (Inl e, s)
    | None \<Rightarrow> (case commandTargetLocked (cor_Command r) s of
        Inl e \<Rightarrow> (Inl e, s)
      | Inr m \<Rightarrow>
          (let c = cor_Command r;
               m = m\<lparr>mem_Content := cor_Content r, mem_ValidFrom := cor_ValidFrom r, mem_ValidUntil := cor_ValidUntil r,
                     mem_Importance := cor_Importance r, mem_Confidence := cor_Confidence r,
                     mem_Version := mem_Version m + 1, mem_UpdatedAt := vc_Now c\<rparr>;
               s = put_sources (mem_ID m) (cor_Sources r) (put_memory m s)
           in (Inr m, appendRevisionLocked m ''correct'' (vc_Actor c) (vc_Reason c) (vc_Now c) False s))))"

definition transitionInactive ::
  "mem_libs \<Rightarrow> (nat \<Rightarrow> ctx) \<Rightarrow> VersionedCommand \<Rightarrow> MemStatus \<Rightarrow> RevisionAction \<Rightarrow> MemStore \<Rightarrow> (MemError + Memory) \<times> MemStore" where
  "transitionInactive L ctx c requiredStatus action s = (case entry_error ctx (ValidateCommand L c (ms_limits s)) of
      Some e \<Rightarrow> (Inl e, s)
    | None \<Rightarrow> (case commandTargetLocked c s of
        Inl e \<Rightarrow> (Inl e, s)
      | Inr m \<Rightarrow>
          if mem_Status m \<noteq> requiredStatus then (Inl (ErrConflict ''''), s)
          else (let m = m\<lparr>mem_Status := StatusInactive, mem_Version := mem_Version m + 1, mem_UpdatedAt := vc_Now c\<rparr>
                in (Inr m, appendRevisionLocked m action (vc_Actor c) (vc_Reason c) (vc_Now c) False (put_memory m s)))))"

definition Dismiss :: "mem_libs \<Rightarrow> (nat \<Rightarrow> ctx) \<Rightarrow> VersionedCommand \<Rightarrow> MemStore \<Rightarrow> (MemError + Memory) \<times> MemStore" where
  "Dismiss L ctx c s = transitionInactive L ctx c StatusCandidate ''dismiss'' s"

definition Forget :: "mem_libs \<Rightarrow> (nat \<Rightarrow> ctx) \<Rightarrow> VersionedCommand \<Rightarrow> MemStore \<Rightarrow> (MemError + Memory) \<times> MemStore" where
  "Forget L ctx c s = transitionInactive L ctx c StatusActive ''forget'' s"

definition erase_record :: "string \<Rightarrow> createRecord \<Rightarrow> createRecord" where
  "erase_record i rec = (if crec_id rec \<noteq> i then rec else rec\<lparr>crec_fingerprint := '''', crec_erased := True\<rparr>)"

definition erase_revision :: "Revision \<Rightarrow> Revision" where
  "erase_revision r = r\<lparr>rv_Snapshot := (rv_Snapshot r)\<lparr>mem_Content := ''''\<rparr>, rv_ContentErased := True\<rparr>"

definition Erase :: "mem_libs \<Rightarrow> (nat \<Rightarrow> ctx) \<Rightarrow> VersionedCommand \<Rightarrow> MemStore \<Rightarrow> MemError option \<times> MemStore" where
  "Erase L ctx c s = (case entry_error ctx (ValidateCommand L c (ms_limits s)) of
      Some e \<Rightarrow> (Some e, s)
    | None \<Rightarrow> (case commandTargetLocked c s of
        Inl e \<Rightarrow> (Some e, s)
      | Inr m \<Rightarrow>
          (let m = m\<lparr>mem_Content := '''', mem_Status := StatusInactive, mem_Version := mem_Version m + 1,
                     mem_UpdatedAt := vc_Now c\<rparr>;
               s = put_sources (mem_ID m) [] (put_memory m s);
               s = s\<lparr>ms_embeddings := filter (\<lambda>e. fst (fst e) \<noteq> mem_ID m) (ms_embeddings s),
                     ms_creates := map (\<lambda>(k, rec). (k, erase_record (mem_ID m) rec)) (ms_creates s),
                     ms_revisions := map (\<lambda>(k, rs). (k, if k = mem_ID m then map erase_revision rs else rs)) (ms_revisions s)\<rparr>
           in (None, appendRevisionLocked m ''erase'' (vc_Actor c) (vc_Reason c) (vc_Now c) True s))))"

fun take_revisions :: "int \<Rightarrow> int \<Rightarrow> Revision list \<Rightarrow> Revision list" where
  "take_revisions before limit [] = []"
| "take_revisions before limit (r # rs) =
     (if limit \<le> 0 then []
      else if before > 0 \<and> rv_Version r \<ge> before then take_revisions before limit rs
      else r # take_revisions before (limit - 1) rs)"

definition Revisions :: "mem_libs \<Rightarrow> (nat \<Rightarrow> ctx) \<Rightarrow> RevisionQuery \<Rightarrow> MemStore \<Rightarrow> MemError + Revision list" where
  "Revisions L ctx q s = (case entry_error ctx (ValidateRevisionQuery L q (ms_limits s)) of
      Some e \<Rightarrow> Inl e
    | None \<Rightarrow> (case memory_at s (rq_MemoryID q) of
        Some m \<Rightarrow>
          if mem_Scope m \<noteq> rq_Scope q then Inl ErrNotFound
          else Inr (take_revisions (rq_BeforeVersion q) (rq_Limit q) (rev (revisions_at s (rq_MemoryID q))))
      | None \<Rightarrow> Inl ErrNotFound))"

section \<open>Embeddings\<close>

definition stale_embedding :: "mem_libs \<Rightarrow> string \<Rightarrow> MemStore \<Rightarrow> string \<times> Memory \<Rightarrow> bool" where
  "stale_embedding L profile s entry \<longleftrightarrow> (case entry of (i, m) \<Rightarrow>
     mem_Status m = StatusActive \<and>
     \<not> (\<exists>e \<in> set_option (map_of (ms_embeddings s) (i, profile)). emb_contentHash e = hashMemoryContent L (mem_Content m)))"

definition embedding_input :: "mem_libs \<Rightarrow> string \<times> Memory \<Rightarrow> EmbeddingInput" where
  "embedding_input L entry = (case entry of (i, m) \<Rightarrow>
     \<lparr>ei_MemoryID = i, ei_Scope = mem_Scope m, ei_Content = mem_Content m,
      ei_ContentHash = hashMemoryContent L (mem_Content m), ei_Version = mem_Version m\<rparr>)"

definition oldest_first :: "MemStore \<Rightarrow> EmbeddingInput \<Rightarrow> EmbeddingInput \<Rightarrow> bool" where
  "oldest_first s a b =
     (let updated = (\<lambda>x. case memory_at s (ei_MemoryID x) of Some m \<Rightarrow> mem_UpdatedAt m | None \<Rightarrow> 0)
      in if updated a = updated b then ei_MemoryID a < ei_MemoryID b else updated a < updated b)"

definition PendingEmbeddings ::
  "mem_libs \<Rightarrow> (nat \<Rightarrow> ctx) \<Rightarrow> PendingEmbeddingQuery \<Rightarrow> MemStore \<Rightarrow> MemError + EmbeddingInput list" where
  "PendingEmbeddings L ctx q s = (case entry_error ctx (ValidatePendingEmbeddingQuery q (ms_limits s)) of
      Some e \<Rightarrow> Inl e
    | None \<Rightarrow> Inr (take (nat (peq_Limit q)) (sort_by (oldest_first s)
        (map (embedding_input L) (filter (stale_embedding L (peq_ProfileID q) s) (ms_memories s))))))"

definition PutEmbedding :: "mem_libs \<Rightarrow> (nat \<Rightarrow> ctx) \<Rightarrow> PutEmbeddingRequest \<Rightarrow> MemStore \<Rightarrow> MemError option \<times> MemStore" where
  "PutEmbedding L ctx r s = (case entry_error ctx (ValidatePutEmbeddingRequest L r (ms_limits s)) of
      Some e \<Rightarrow> (Some e, s)
    | None \<Rightarrow> (case memory_at s (per_MemoryID r) of
        None \<Rightarrow> (Some (ErrConflict ''''), s)
      | Some m \<Rightarrow>
          if mem_Scope m \<noteq> per_Scope r \<or> mem_Status m \<noteq> StatusActive
            \<or> hashMemoryContent L (mem_Content m) \<noteq> per_ContentHash r
          then (Some (ErrConflict ''''), s)
          else (None, s\<lparr>ms_embeddings := AList.update (per_MemoryID r, per_ProfileID r)
                  \<lparr>emb_contentHash = per_ContentHash r, emb_dimensions = per_Dimensions r,
                   emb_vector = map the (per_Vector r)\<rparr> (ms_embeddings s)\<rparr>)))"

section \<open>Candidate search\<close>

definition dot_product :: "(rat \<Rightarrow> rat) \<Rightarrow> rat list \<Rightarrow> rat list \<Rightarrow> rat" where
  "dot_product rnd xs ys = fold (\<lambda>(x, y) acc. rnd (acc + rnd (x * y))) (zip xs ys) 0"

definition cosineSimilarity :: "mem_libs \<Rightarrow> rat list \<Rightarrow> rat list \<Rightarrow> rat option" where
  "cosineSimilarity L left right =
     (if left = [] \<or> length left \<noteq> length right then None
      else (let rnd = ml_round L; dot = dot_product rnd left right;
                leftNorm = squared_norm rnd left; rightNorm = squared_norm rnd right
            in if leftNorm = 0 \<or> rightNorm = 0 then None
               else (let similarity = rnd (dot / rnd (ml_sqrt L leftNorm * ml_sqrt L rightNorm))
                     in Some (if similarity > 1 then 1 else if similarity < -1 then -1 else similarity))))"

definition candidateMetadataLess :: "Candidate \<Rightarrow> Candidate \<Rightarrow> bool" where
  "candidateMetadataLess a b = (let l = can_Memory a; r = can_Memory b in
     if mem_Importance l \<noteq> mem_Importance r then mem_Importance l > mem_Importance r
     else if mem_UpdatedAt l \<noteq> mem_UpdatedAt r then mem_UpdatedAt l > mem_UpdatedAt r
     else mem_ID l < mem_ID r)"

definition rankCandidates :: "Candidate list \<Rightarrow> int \<Rightarrow> Channel \<Rightarrow> Candidate list" where
  "rankCandidates cs limit channel =
     map (\<lambda>(i, c). c\<lparr>can_Sources := copySources (can_Sources c), can_Channel := channel, can_Rank := int i + 1\<rparr>)
       (enumerate 0 (take (nat limit) cs))"

definition searchable :: "CandidateQuery \<Rightarrow> Memory \<Rightarrow> bool" where
  "searchable q m \<longleftrightarrow> \<not> (mem_Scope m \<noteq> cq_Scope q \<or> mem_Status m \<noteq> StatusActive \<or> cq_Now q < mem_ValidFrom m
     \<or> (mem_ValidUntil m \<noteq> 0 \<and> \<not> cq_Now q < mem_ValidUntil m)
     \<or> (cq_Kinds q \<noteq> [] \<and> mem_Kind m \<notin> set (cq_Kinds q)))"

definition candidate_of :: "MemStore \<Rightarrow> rat \<Rightarrow> string \<times> Memory \<Rightarrow> Candidate" where
  "candidate_of s similarity entry = (case entry of (i, m) \<Rightarrow>
     \<lparr>can_Memory = m, can_Sources = copySources (sources_at s i), can_Channel = '''', can_Rank = 0,
      can_Similarity = Some similarity\<rparr>)"

definition term_hits :: "mem_libs \<Rightarrow> CandidateQuery \<Rightarrow> Memory \<Rightarrow> int" where
  "term_hits L q m = (case SearchTerms L (cq_Text q) of (words, grams) \<Rightarrow>
     CountSearchTermHits L (mem_Key m) (mem_Content m) words grams)"

text \<open>The similarity of a memory whose embedding is current and similar enough.\<close>

definition vector_match :: "mem_libs \<Rightarrow> CandidateQuery \<Rightarrow> MemStore \<Rightarrow> string \<times> Memory \<Rightarrow> rat option" where
  "vector_match L q s entry = (case entry of (i, m) \<Rightarrow>
     (case map_of (ms_embeddings s) (i, cq_EmbeddingProfileID q) of
        None \<Rightarrow> None
      | Some e \<Rightarrow>
          if emb_dimensions e \<noteq> cq_EmbeddingDimensions q \<or> emb_contentHash e \<noteq> hashMemoryContent L (mem_Content m) then None
          else (case cosineSimilarity L (map the (cq_QueryVector q)) (emb_vector e) of
              None \<Rightarrow> None
            | Some similarity \<Rightarrow>
                if similarity < the (cq_MinVectorSimilarity q) then None else Some similarity)))"

definition exact_candidates :: "CandidateQuery \<Rightarrow> MemStore \<Rightarrow> (string \<times> Memory) list \<Rightarrow> Candidate list" where
  "exact_candidates q s entries =
     (if cq_ExactLimit q > 0
      then map (candidate_of s 0) (filter (\<lambda>(i, m). mem_Key m \<in> set (cq_Keys q)) entries) else [])"

definition text_candidates ::
  "mem_libs \<Rightarrow> CandidateQuery \<Rightarrow> MemStore \<Rightarrow> (string \<times> Memory) list \<Rightarrow> Candidate list" where
  "text_candidates L q s entries =
     (let hit = (if cq_FullTextLimit q > 0 then filter (\<lambda>(i, m). term_hits L q m > 0) entries else []);
          bestHits = fold (\<lambda>(i, m) best. max best (term_hits L q m)) hit 0
      in map (candidate_of s 0) (filter (\<lambda>(i, m). term_hits L q m * 2 > bestHits) hit))"

definition vector_candidates ::
  "mem_libs \<Rightarrow> CandidateQuery \<Rightarrow> MemStore \<Rightarrow> (string \<times> Memory) list \<Rightarrow> Candidate list" where
  "vector_candidates L q s entries =
     (if cq_VectorLimit q > 0
      then concat (map (\<lambda>e. case vector_match L q s e of None \<Rightarrow> [] | Some sim \<Rightarrow> [candidate_of s sim e]) entries)
      else [])"

definition text_before :: "mem_libs \<Rightarrow> CandidateQuery \<Rightarrow> Candidate \<Rightarrow> Candidate \<Rightarrow> bool" where
  "text_before L q a b =
     (let l = term_hits L q (can_Memory a); r = term_hits L q (can_Memory b)
      in if l \<noteq> r then l > r else candidateMetadataLess a b)"

text \<open>The similarities a store compares are finite.\<close>

definition similarity_of :: "Candidate \<Rightarrow> rat" where
  "similarity_of c = (case can_Similarity c of Some v \<Rightarrow> v | None \<Rightarrow> 0)"

definition vector_before :: "Candidate \<Rightarrow> Candidate \<Rightarrow> bool" where
  "vector_before a b =
     (if similarity_of a \<noteq> similarity_of b then similarity_of a > similarity_of b else candidateMetadataLess a b)"

definition SearchCandidates :: "mem_libs \<Rightarrow> (nat \<Rightarrow> ctx) \<Rightarrow> CandidateQuery \<Rightarrow> MemStore \<Rightarrow> MemError + CandidateSet" where
  "SearchCandidates L ctx q s = (case entry_error ctx (ValidateCandidateQuery L q (ms_limits s)) of
      Some e \<Rightarrow> Inl e
    | None \<Rightarrow>
        (let entries = filter (\<lambda>(i, m). searchable q m) (ms_memories s)
         in Inr
          \<lparr>cs_Exact = rankCandidates (sort_by candidateMetadataLess (exact_candidates q s entries)) (cq_ExactLimit q) ''exact'',
           cs_FullText = rankCandidates (sort_by (text_before L q) (text_candidates L q s entries)) (cq_FullTextLimit q) ''full_text'',
           cs_Vector = rankCandidates (sort_by vector_before (vector_candidates L q s entries)) (cq_VectorLimit q) ''vector''\<rparr>))"

end
