(* ===== verification/Memory_Laws.thy ===== *)
theory Memory_Laws
  imports Memory_Store
begin

text \<open>
  What the memory store guarantees: its invariant (one active memory per scope, kind and key; a
  revision log numbered 1 to the version that ends in the current memory), optimistic versions,
  erasure and idempotent creation. \<open>performs\<close> and \<open>entry_step\<close> give every operation as a step on one
  memory and its log, from which the properties over sequences of operations follow.
\<close>

section \<open>Pointwise effect of the primitive updates\<close>

lemma copySources_id [simp]: "copySources xs = xs"
  by (simp add: copySources_def)

lemma put_memory_simps [simp]:
  "memory_at (put_memory m s) i = (if i = mem_ID m then Some m else memory_at s i)"
  "ms_sources (put_memory m s) = ms_sources s" "ms_revisions (put_memory m s) = ms_revisions s"
  "ms_creates (put_memory m s) = ms_creates s" "ms_embeddings (put_memory m s) = ms_embeddings s"
  "ms_limits (put_memory m s) = ms_limits s" "wf_map (ms_memories s) \<Longrightarrow> wf_map (ms_memories (put_memory m s))"
  by (simp_all add: put_memory_def)

lemma put_sources_simps [simp]:
  "ms_memories (put_sources i xs s) = ms_memories s" "ms_revisions (put_sources i xs s) = ms_revisions s"
  "ms_creates (put_sources i xs s) = ms_creates s" "ms_embeddings (put_sources i xs s) = ms_embeddings s"
  "ms_limits (put_sources i xs s) = ms_limits s"
  "sources_at (put_sources i xs s) j = (if j = i then xs else sources_at s j)"
  by (simp_all add: put_sources_def sources_at_def)

definition revision_of :: "RevisionAction \<Rightarrow> string \<Rightarrow> string \<Rightarrow> time \<Rightarrow> bool \<Rightarrow> Memory \<Rightarrow> Revision" where
  "revision_of action actor reason createdAt erased m =
     \<lparr>rv_MemoryID = mem_ID m, rv_Version = mem_Version m, rv_Action = action, rv_Actor = actor,
      rv_Reason = reason, rv_Snapshot = m, rv_ContentErased = erased, rv_CreatedAt = createdAt\<rparr>"

lemma append_simps [simp]:
  "ms_memories (appendRevisionLocked m a b c d e s) = ms_memories s"
  "ms_sources (appendRevisionLocked m a b c d e s) = ms_sources s"
  "ms_creates (appendRevisionLocked m a b c d e s) = ms_creates s"
  "ms_embeddings (appendRevisionLocked m a b c d e s) = ms_embeddings s"
  "ms_limits (appendRevisionLocked m a b c d e s) = ms_limits s"
  "revisions_at (appendRevisionLocked m a b c d e s) i =
     (if i = mem_ID m then revisions_at s i @ [revision_of a b c d e m] else revisions_at s i)"
  by (simp_all add: appendRevisionLocked_def revisions_at_def revision_of_def)

lemma revisions_at_cong: "ms_revisions s = ms_revisions t \<Longrightarrow> revisions_at s = revisions_at t"
  by (rule ext) (simp add: revisions_at_def)

lemma sources_at_cong: "ms_sources s = ms_sources t \<Longrightarrow> sources_at s = sources_at t"
  by (rule ext) (simp add: sources_at_def)

lemma put_at_simps [simp]:
  "revisions_at (put_memory m s) = revisions_at s" "revisions_at (put_sources i xs s) = revisions_at s"
  "sources_at (put_memory m s) = sources_at s" "sources_at (appendRevisionLocked m a b c d e s) = sources_at s"
  by (auto intro: revisions_at_cong sources_at_cong)

section \<open>Superseding\<close>

definition retired :: "time \<Rightarrow> Memory \<Rightarrow> Memory" where
  "retired now m = m\<lparr>mem_Status := StatusInactive, mem_Version := mem_Version m + 1, mem_UpdatedAt := now\<rparr>"

definition rival :: "Memory \<Rightarrow> string \<Rightarrow> Memory \<Rightarrow> bool" where
  "rival target x m \<longleftrightarrow> mem_ID m \<noteq> x \<and> mem_Status m = StatusActive \<and> sameConflictKey m target"

lemma retired_simps [simp]:
  "mem_ID (retired now m) = mem_ID m" "mem_Scope (retired now m) = mem_Scope m" "mem_Kind (retired now m) = mem_Kind m"
  "mem_Key (retired now m) = mem_Key m" "mem_Status (retired now m) = StatusInactive"
  "mem_Version (retired now m) = mem_Version m + 1" "mem_Content (retired now m) = mem_Content m"
  "mem_IdempotencyKey (retired now m) = mem_IdempotencyKey m" "mem_CreatedAt (retired now m) = mem_CreatedAt m"
  by (simp_all add: retired_def)

lemma supersede_entry_eq:
  assumes "mem_ID m = i"
  shows "supersede_entry target x actor reason now (i, m) s =
    (if rival target x m then appendRevisionLocked (retired now m) ''supersede'' actor reason now False (put_memory (retired now m) s)
     else s)"
  using assms by (auto simp: supersede_entry_def rival_def retired_def put_memory_def Let_def)

lemma supersede_fold:
  fixes t x a r now
  assumes "wf_map es" and "\<forall>(i, m) \<in> set es. mem_ID m = i"
  defines "f \<equiv> supersede_entry t x a r now"
  shows "memory_at (fold f es s) i =
      (case map_of es i of Some m \<Rightarrow> if rival t x m then Some (retired now m) else memory_at s i | None \<Rightarrow> memory_at s i)
    \<and> revisions_at (fold f es s) i = revisions_at s i @ (case map_of es i of
        Some m \<Rightarrow> if rival t x m then [revision_of ''supersede'' a r now False (retired now m)] else [] | None \<Rightarrow> [])
    \<and> (wf_map (ms_memories s) \<longrightarrow> wf_map (ms_memories (fold f es s)))
    \<and> ms_sources (fold f es s) = ms_sources s \<and> ms_creates (fold f es s) = ms_creates s
    \<and> ms_embeddings (fold f es s) = ms_embeddings s \<and> ms_limits (fold f es s) = ms_limits s"
  using assms(1,2)
proof (induction es arbitrary: s)
  case (Cons e es)
  obtain j m where e: "e = (j, m)" by (cases e)
  have m: "mem_ID m = j" and wf: "wf_map es" and ids: "\<forall>(i, m) \<in> set es. mem_ID m = i" and fresh: "map_of es j = None"
    using Cons.prems by (auto simp: e wf_map_def map_of_eq_None_iff)
  have step: "f (j, m) s = (if rival t x m then appendRevisionLocked (retired now m) ''supersede'' a r now False
      (put_memory (retired now m) s) else s)"
    unfolding f_def by (rule supersede_entry_eq [OF m])
  show ?case
    using Cons.IH [OF wf ids, of "f (j, m) s"] fresh m by (auto simp: e step split: option.splits)
qed simp

definition ids_ok :: "MemStore \<Rightarrow> bool" where
  "ids_ok s \<longleftrightarrow> wf_map (ms_memories s) \<and> (\<forall>i m. memory_at s i = Some m \<longrightarrow> mem_ID m = i)"

lemma ids_ok_id: "ids_ok s \<Longrightarrow> memory_at s i = Some m \<Longrightarrow> mem_ID m = i"
  by (simp add: ids_ok_def)

lemma supersede_at:
  assumes "ids_ok s"
  shows "memory_at (supersedeActiveLocked t x a r now s) i =
      map_option (\<lambda>m. if rival t x m then retired now m else m) (memory_at s i)"
    and "revisions_at (supersedeActiveLocked t x a r now s) i = revisions_at s i @ (case memory_at s i of
        Some m \<Rightarrow> if rival t x m then [revision_of ''supersede'' a r now False (retired now m)] else [] | None \<Rightarrow> [])"
    and "wf_map (ms_memories (supersedeActiveLocked t x a r now s))"
    and "ms_sources (supersedeActiveLocked t x a r now s) = ms_sources s"
    and "ms_creates (supersedeActiveLocked t x a r now s) = ms_creates s"
    and "ms_embeddings (supersedeActiveLocked t x a r now s) = ms_embeddings s"
    and "ms_limits (supersedeActiveLocked t x a r now s) = ms_limits s"
proof -
  have wf: "wf_map (ms_memories s)" and ids: "\<forall>(i, m) \<in> set (ms_memories s). mem_ID m = i"
    using assms by (auto simp: ids_ok_def map_of_iff_mem)
  note fold = supersede_fold [OF wf ids, where s = s and t = t and x = x and a = a and r = r and now = now, folded supersedeActiveLocked_def]
  show "memory_at (supersedeActiveLocked t x a r now s) i =
      map_option (\<lambda>m. if rival t x m then retired now m else m) (memory_at s i)"
    using fold [of i] by (auto split: option.splits)
  show "revisions_at (supersedeActiveLocked t x a r now s) i = revisions_at s i @ (case memory_at s i of
        Some m \<Rightarrow> if rival t x m then [revision_of ''supersede'' a r now False (retired now m)] else [] | None \<Rightarrow> [])"
    and "wf_map (ms_memories (supersedeActiveLocked t x a r now s))"
    and "ms_sources (supersedeActiveLocked t x a r now s) = ms_sources s"
    and "ms_creates (supersedeActiveLocked t x a r now s) = ms_creates s"
    and "ms_embeddings (supersedeActiveLocked t x a r now s) = ms_embeddings s"
    and "ms_limits (supersedeActiveLocked t x a r now s) = ms_limits s"
    using fold [of i] wf by simp_all
qed

lemma supersede_sources [simp]: "ids_ok s \<Longrightarrow> sources_at (supersedeActiveLocked t x a r now s) = sources_at s"
  by (intro sources_at_cong supersede_at(4))

section \<open>Operations as steps\<close>

datatype mem_op = OpCreate "nat \<Rightarrow> ctx" CreateRequest | OpActivate "nat \<Rightarrow> ctx" VersionedCommand
  | OpCorrect "nat \<Rightarrow> ctx" CorrectRequest | OpDismiss "nat \<Rightarrow> ctx" VersionedCommand
  | OpForget "nat \<Rightarrow> ctx" VersionedCommand | OpErase "nat \<Rightarrow> ctx" VersionedCommand
  | OpPut "nat \<Rightarrow> ctx" PutEmbeddingRequest

fun mem_apply :: "mem_libs \<Rightarrow> mem_op \<Rightarrow> MemStore \<Rightarrow> MemStore" where
  "mem_apply L (OpCreate ctx r) s = snd (mem_Create L ctx r s)"
| "mem_apply L (OpActivate ctx c) s = snd (Activate L ctx c s)"
| "mem_apply L (OpCorrect ctx r) s = snd (Correct L ctx r s)"
| "mem_apply L (OpDismiss ctx c) s = snd (Dismiss L ctx c s)"
| "mem_apply L (OpForget ctx c) s = snd (Forget L ctx c s)"
| "mem_apply L (OpErase ctx c) s = snd (Erase L ctx c s)"
| "mem_apply L (OpPut ctx r) s = snd (PutEmbedding L ctx r s)"

text \<open>The command of a versioned operation, and how it changes the memory it addresses.\<close>

fun op_command :: "mem_op \<Rightarrow> VersionedCommand option" where
  "op_command (OpActivate ctx c) = Some c"
| "op_command (OpCorrect ctx r) = Some (cor_Command r)"
| "op_command (OpDismiss ctx c) = Some c"
| "op_command (OpForget ctx c) = Some c"
| "op_command (OpErase ctx c) = Some c"
| "op_command _ = None"

definition corrected :: "CorrectRequest \<Rightarrow> Memory \<Rightarrow> Memory" where
  "corrected r m = m\<lparr>mem_Content := cor_Content r, mem_ValidFrom := cor_ValidFrom r, mem_ValidUntil := cor_ValidUntil r,
     mem_Importance := cor_Importance r, mem_Confidence := cor_Confidence r,
     mem_Version := mem_Version m + 1, mem_UpdatedAt := vc_Now (cor_Command r)\<rparr>"

definition activated :: "time \<Rightarrow> Memory \<Rightarrow> Memory" where
  "activated now m = m\<lparr>mem_Status := StatusActive, mem_Version := mem_Version m + 1, mem_UpdatedAt := now\<rparr>"

definition erased :: "time \<Rightarrow> Memory \<Rightarrow> Memory" where
  "erased now m = m\<lparr>mem_Content := '''', mem_Status := StatusInactive, mem_Version := mem_Version m + 1, mem_UpdatedAt := now\<rparr>"

lemma changed_simps [simp]:
  "mem_ID (corrected r m) = mem_ID m" "mem_Scope (corrected r m) = mem_Scope m" "mem_Kind (corrected r m) = mem_Kind m"
  "mem_Key (corrected r m) = mem_Key m" "mem_Status (corrected r m) = mem_Status m"
  "mem_Version (corrected r m) = mem_Version m + 1" "mem_IdempotencyKey (corrected r m) = mem_IdempotencyKey m"
  "mem_ID (activated t m) = mem_ID m" "mem_Scope (activated t m) = mem_Scope m" "mem_Kind (activated t m) = mem_Kind m"
  "mem_Key (activated t m) = mem_Key m" "mem_Status (activated t m) = StatusActive"
  "mem_Version (activated t m) = mem_Version m + 1" "mem_IdempotencyKey (activated t m) = mem_IdempotencyKey m"
  "mem_ID (erased t m) = mem_ID m" "mem_Scope (erased t m) = mem_Scope m" "mem_Kind (erased t m) = mem_Kind m"
  "mem_Key (erased t m) = mem_Key m" "mem_Status (erased t m) = StatusInactive" "mem_Content (erased t m) = ''''"
  "mem_Version (erased t m) = mem_Version m + 1" "mem_IdempotencyKey (erased t m) = mem_IdempotencyKey m"
  by (simp_all add: corrected_def activated_def erased_def)

definition touch :: "Memory \<Rightarrow> RevisionAction \<Rightarrow> VersionedCommand \<Rightarrow> bool \<Rightarrow> MemStore \<Rightarrow> MemStore" where
  "touch m action c wiped s =
     appendRevisionLocked m action (vc_Actor c) (vc_Reason c) (vc_Now c) wiped (put_memory m s)"

definition wipe :: "string \<Rightarrow> MemStore \<Rightarrow> MemStore" where
  "wipe i s = s\<lparr>ms_sources := AList.update i [] (ms_sources s),
     ms_embeddings := filter (\<lambda>e. fst (fst e) \<noteq> i) (ms_embeddings s),
     ms_creates := map (\<lambda>(k, rec). (k, erase_record i rec)) (ms_creates s),
     ms_revisions := map (\<lambda>(k, rs). (k, if k = i then map erase_revision rs else rs)) (ms_revisions s)\<rparr>"

lemma map_of_filter_key: "map_of (filter (\<lambda>e. P (fst e)) es) k = (if P k then map_of es k else None)"
  by (induction es) auto

lemma wipe_simps [simp]:
  "ms_memories (wipe i s) = ms_memories s" "ms_limits (wipe i s) = ms_limits s"
  "sources_at (wipe i s) j = (if j = i then [] else sources_at s j)"
  "map_of (ms_embeddings (wipe i s)) p = (if fst p = i then None else map_of (ms_embeddings s) p)"
  "map_of (ms_creates (wipe i s)) k = map_option (erase_record i) (map_of (ms_creates s) k)"
  "revisions_at (wipe i s) j = (if j = i then map erase_revision (revisions_at s j) else revisions_at s j)"
proof -
  show "map_of (ms_embeddings (wipe i s)) p = (if fst p = i then None else map_of (ms_embeddings s) p)"
    using map_of_filter_key [of "\<lambda>k. fst k \<noteq> i" "ms_embeddings s" p] by (cases p) (simp add: wipe_def)
  show "map_of (ms_creates (wipe i s)) k = map_option (erase_record i) (map_of (ms_creates s) k)"
    using map_of_map_snd [of "\<lambda>k. erase_record i" "ms_creates s" k] by (simp add: wipe_def)
  show "revisions_at (wipe i s) j = (if j = i then map erase_revision (revisions_at s j) else revisions_at s j)"
    using map_of_map_snd [of "\<lambda>k rs. if k = i then map erase_revision rs else rs" "ms_revisions s" j]
    by (auto simp: wipe_def revisions_at_def split: option.splits)
qed (simp_all add: wipe_def sources_at_def)

lemma commandTarget_Inr:
  "commandTargetLocked c s = Inr m \<longleftrightarrow>
     memory_at s (vc_ID c) = Some m \<and> mem_Scope m = vc_Scope c \<and> mem_Version m = vc_ExpectedVersion c"
  by (auto simp: commandTargetLocked_def split: option.splits)

text \<open>A versioned operation changes nothing, or applies to the memory at its expected version.\<close>

inductive performs :: "mem_op \<Rightarrow> Memory \<Rightarrow> MemStore \<Rightarrow> MemStore \<Rightarrow> bool" where
  activates: "mem_Status m = StatusCandidate \<Longrightarrow>
     performs (OpActivate ctx c) m s (touch (activated (vc_Now c) m) ''activate'' c False
       (supersedeActiveLocked m (mem_ID m) (vc_Actor c) (vc_Reason c) (vc_Now c) s))"
| corrects: "performs (OpCorrect ctx r) m s
     (put_sources (mem_ID m) (cor_Sources r) (touch (corrected r m) ''correct'' (cor_Command r) False s))"
| dismisses: "mem_Status m = StatusCandidate \<Longrightarrow>
     performs (OpDismiss ctx c) m s (touch (retired (vc_Now c) m) ''dismiss'' c False s)"
| forgets: "mem_Status m = StatusActive \<Longrightarrow>
     performs (OpForget ctx c) m s (touch (retired (vc_Now c) m) ''forget'' c False s)"
| erases: "performs (OpErase ctx c) m s (touch (erased (vc_Now c) m) ''erase'' c True (wipe (mem_ID m) s))"

inductive_cases performsE: "performs op m s s'"

lemma put_sources_append: "put_sources i xs (appendRevisionLocked m a b c d e s) = appendRevisionLocked m a b c d e (put_sources i xs s)"
  by (simp add: put_sources_def appendRevisionLocked_def revisions_at_def)

lemma wipe_put: "wipe i (put_memory m s) = put_memory m (wipe i s)"
  by (simp add: wipe_def put_memory_def)

lemma erase_wipes:
  "(put_sources i [] (put_memory m s))\<lparr>ms_embeddings := filter (\<lambda>e. fst (fst e) \<noteq> i) (ms_embeddings s),
     ms_creates := map (\<lambda>(k, rec). (k, erase_record i rec)) (ms_creates s),
     ms_revisions := map (\<lambda>(k, rs). (k, if k = i then map erase_revision rs else rs)) (ms_revisions s)\<rparr>
   = put_memory m (wipe i s)"
  by (simp add: wipe_def put_memory_def put_sources_def)

lemma transition_performs:
  assumes "transitionInactive L ctx c st act s = (res, s')" and "s' \<noteq> s"
  shows "\<exists>m. commandTargetLocked c s = Inr m \<and> mem_Status m = st \<and> s' = touch (retired (vc_Now c) m) act c False s"
  using assms by (auto simp: transitionInactive_def touch_def retired_def Let_def split: option.splits sum.splits if_splits)

lemma command_performs:
  assumes "op_command op = Some c" and "mem_apply L op s \<noteq> s"
  shows "\<exists>m. commandTargetLocked c s = Inr m \<and> performs op m s (mem_apply L op s)"
proof (cases op)
  case (OpActivate ctx c')
  with assms show ?thesis
    by (auto simp: Activate_def performs.simps activated_def touch_def Let_def split: option.splits sum.splits if_splits)
next
  case (OpCorrect ctx r)
  with assms show ?thesis
    by (auto simp: Correct_def performs.simps corrected_def touch_def put_sources_append Let_def split: option.splits sum.splits)
next
  case (OpDismiss ctx c')
  with assms show ?thesis
    by (auto simp: Dismiss_def performs.simps dest!: transition_performs [OF prod.collapse [symmetric]])
next
  case (OpForget ctx c')
  with assms show ?thesis
    by (auto simp: Forget_def performs.simps dest!: transition_performs [OF prod.collapse [symmetric]])
next
  case (OpErase ctx c')
  with assms show ?thesis
    by (auto simp: Erase_def performs.simps touch_def erased_def erase_wipes Let_def split: option.splits sum.splits)
qed (use assms in simp_all)

lemma touch_simps [simp]:
  "memory_at (touch m a c w s) i = (if i = mem_ID m then Some m else memory_at s i)"
  "sources_at (touch m a c w s) = sources_at s" "ms_creates (touch m a c w s) = ms_creates s"
  "ms_embeddings (touch m a c w s) = ms_embeddings s" "ms_limits (touch m a c w s) = ms_limits s"
  "revisions_at (touch m a c w s) i = (if i = mem_ID m
     then revisions_at s i @ [revision_of a (vc_Actor c) (vc_Reason c) (vc_Now c) w m] else revisions_at s i)"
  "wf_map (ms_memories s) \<Longrightarrow> wf_map (ms_memories (touch m a c w s))"
  by (simp_all add: touch_def)

text \<open>A creation changes nothing, or inserts a memory of version 1 under a fresh ID.\<close>

lemma create_inserts:
  assumes "mem_Create L ctx r s = (res, s')" and "s' \<noteq> s"
  shows "\<exists>fp. memory_at s (crq_ID r) = None \<and> res = Inr (request_memory r) \<and> s' = insert_memory r fp s
    \<and> (crq_IdempotencyKey r \<noteq> '''' \<longrightarrow> map_of (ms_creates s) (crq_Scope r, crq_IdempotencyKey r) = None
         \<and> createFingerprint L r = Inr fp)
    \<and> ValidateCreateRequest L r (ms_limits s) = None"
  using assms
  by (auto simp: mem_Create_def create_checked_def Let_def split: option.splits sum.splits if_splits)

definition make_room :: "CreateRequest \<Rightarrow> MemStore \<Rightarrow> MemStore" where
  "make_room r s = (if crq_Status r = StatusActive
     then supersedeActiveLocked (request_memory r) (crq_ID r) (crq_Actor r) (crq_Reason r) (crq_Now r) s else s)"

lemma request_memory_simps [simp]:
  "mem_ID (request_memory r) = crq_ID r" "mem_Scope (request_memory r) = crq_Scope r" "mem_Kind (request_memory r) = crq_Kind r"
  "mem_Key (request_memory r) = crq_Key r" "mem_Status (request_memory r) = crq_Status r"
  "mem_Version (request_memory r) = 1" "mem_IdempotencyKey (request_memory r) = crq_IdempotencyKey r"
  by (simp_all add: request_memory_def)

lemma with_creates_simps [simp]:
  "sources_at (s\<lparr>ms_creates := x\<rparr>) = sources_at s" "revisions_at (s\<lparr>ms_creates := x\<rparr>) = revisions_at s"
  by (auto intro: sources_at_cong revisions_at_cong)

lemma insert_memory_simps:
  "memory_at (insert_memory r fp s) i = (if i = crq_ID r then Some (request_memory r) else memory_at (make_room r s) i)"
  "sources_at (insert_memory r fp s) i = (if i = crq_ID r then crq_Sources r else sources_at (make_room r s) i)"
  "revisions_at (insert_memory r fp s) i = (if i = crq_ID r
     then revisions_at (make_room r s) i @ [revision_of ''create'' (crq_Actor r) (crq_Reason r) (crq_Now r) False (request_memory r)]
     else revisions_at (make_room r s) i)"
  "map_of (ms_creates (insert_memory r fp s)) k = (if crq_IdempotencyKey r \<noteq> '''' \<and> k = (crq_Scope r, crq_IdempotencyKey r)
     then Some \<lparr>crec_id = crq_ID r, crec_fingerprint = fp, crec_erased = False\<rparr> else map_of (ms_creates (make_room r s)) k)"
  "ms_embeddings (insert_memory r fp s) = ms_embeddings (make_room r s)"
  "ms_limits (insert_memory r fp s) = ms_limits (make_room r s)"
  "wf_map (ms_memories (make_room r s)) \<Longrightarrow> wf_map (ms_memories (insert_memory r fp s))"
proof -
  let ?s = "appendRevisionLocked (request_memory r) ''create'' (crq_Actor r) (crq_Reason r) (crq_Now r) False
    (put_sources (crq_ID r) (crq_Sources r) (put_memory (request_memory r) (make_room r s)))"
  have eq: "insert_memory r fp s = (if crq_IdempotencyKey r \<noteq> ''''
      then ?s\<lparr>ms_creates := AList.update (crq_Scope r, crq_IdempotencyKey r)
        \<lparr>crec_id = crq_ID r, crec_fingerprint = fp, crec_erased = False\<rparr> (ms_creates ?s)\<rparr> else ?s)"
    by (simp only: insert_memory_def make_room_def Let_def request_memory_simps)
  show "memory_at (insert_memory r fp s) i = (if i = crq_ID r then Some (request_memory r) else memory_at (make_room r s) i)"
    and "sources_at (insert_memory r fp s) i = (if i = crq_ID r then crq_Sources r else sources_at (make_room r s) i)"
    and "revisions_at (insert_memory r fp s) i = (if i = crq_ID r
     then revisions_at (make_room r s) i @ [revision_of ''create'' (crq_Actor r) (crq_Reason r) (crq_Now r) False (request_memory r)]
     else revisions_at (make_room r s) i)"
    and "map_of (ms_creates (insert_memory r fp s)) k = (if crq_IdempotencyKey r \<noteq> '''' \<and> k = (crq_Scope r, crq_IdempotencyKey r)
     then Some \<lparr>crec_id = crq_ID r, crec_fingerprint = fp, crec_erased = False\<rparr> else map_of (ms_creates (make_room r s)) k)"
    and "ms_embeddings (insert_memory r fp s) = ms_embeddings (make_room r s)"
    and "ms_limits (insert_memory r fp s) = ms_limits (make_room r s)"
    and "wf_map (ms_memories (make_room r s)) \<Longrightarrow> wf_map (ms_memories (insert_memory r fp s))"
    by (simp_all add: eq)
qed

lemma make_room_at:
  fixes r
  assumes "ids_ok s"
  defines "hit \<equiv> \<lambda>m. crq_Status r = StatusActive \<and> rival (request_memory r) (crq_ID r) m"
  shows "memory_at (make_room r s) i = map_option (\<lambda>m. if hit m then retired (crq_Now r) m else m) (memory_at s i)"
    and "revisions_at (make_room r s) i = revisions_at s i @ (case memory_at s i of
        Some m \<Rightarrow> if hit m then [revision_of ''supersede'' (crq_Actor r) (crq_Reason r) (crq_Now r) False (retired (crq_Now r) m)]
          else [] | None \<Rightarrow> [])"
    and "wf_map (ms_memories (make_room r s))" and "sources_at (make_room r s) = sources_at s"
    and "ms_creates (make_room r s) = ms_creates s" and "ms_embeddings (make_room r s) = ms_embeddings s"
    and "ms_limits (make_room r s) = ms_limits s"
  using assms supersede_at [OF assms(1)]
  by (auto simp: make_room_def hit_def ids_ok_def option.map_ident split: option.splits)

section \<open>The invariant\<close>

definition unique_active :: "(string \<Rightarrow> Memory option) \<Rightarrow> bool" where
  "unique_active f \<longleftrightarrow> (\<forall>i j m n. f i = Some m \<and> f j = Some n \<and> mem_Status m = StatusActive \<and> mem_Status n = StatusActive
     \<and> sameConflictKey m n \<longrightarrow> i = j)"

text \<open>The log of a memory: versions 1, 2, ... in order, the last snapshot is the current memory, and
  an erased revision holds no content.\<close>

definition log_ok :: "Memory option \<Rightarrow> Revision list \<Rightarrow> bool" where
  "log_ok mo rs = (case mo of
      None \<Rightarrow> rs = []
    | Some m \<Rightarrow> 1 \<le> mem_Version m \<and> map rv_Version rs = [1..mem_Version m] \<and> rv_Snapshot (last rs) = m
        \<and> (\<forall>r \<in> set rs. rv_MemoryID r = mem_ID m \<and> mem_Scope (rv_Snapshot r) = mem_Scope m
             \<and> (rv_ContentErased r \<longrightarrow> mem_Content (rv_Snapshot r) = '''')))"

definition creates_ok :: "MemStore \<Rightarrow> bool" where
  "creates_ok s \<longleftrightarrow> (\<forall>k rec. map_of (ms_creates s) k = Some rec \<longrightarrow>
     (\<exists>m. memory_at s (crec_id rec) = Some m \<and> k = (mem_Scope m, mem_IdempotencyKey m)))"

definition mem_inv :: "MemStore \<Rightarrow> bool" where
  "mem_inv s \<longleftrightarrow> ids_ok s \<and> unique_active (memory_at s) \<and> (\<forall>i. log_ok (memory_at s i) (revisions_at s i))
     \<and> creates_ok s \<and> (\<forall>i p e. map_of (ms_embeddings s) (i, p) = Some e \<longrightarrow> memory_at s i \<noteq> None)
     \<and> (\<forall>i. memory_at s i = None \<longrightarrow> sources_at s i = [])"

text \<open>How an operation may change a memory and its log.\<close>

definition memory_step :: "Memory \<Rightarrow> Memory \<Rightarrow> bool" where
  "memory_step m n \<longleftrightarrow> mem_ID n = mem_ID m \<and> mem_Scope n = mem_Scope m \<and> mem_Kind n = mem_Kind m \<and> mem_Key n = mem_Key m
     \<and> mem_IdempotencyKey n = mem_IdempotencyKey m \<and> mem_Version n = mem_Version m + 1
     \<and> (mem_Status n = mem_Status m \<or> mem_Status n = StatusInactive
         \<or> mem_Status m = StatusCandidate \<and> mem_Status n = StatusActive)"

inductive entry_step :: "Memory option \<Rightarrow> Revision list \<Rightarrow> Memory option \<Rightarrow> Revision list \<Rightarrow> bool" where
  same: "entry_step mo rs mo rs"
| created: "mem_Version n = 1 \<Longrightarrow> entry_step None rs (Some n) (rs @ [revision_of act actor reason now False n])"
| changed: "memory_step m n \<Longrightarrow> entry_step (Some m) rs (Some n) (rs @ [revision_of act actor reason now False n])"
| wiped: "memory_step m n \<Longrightarrow> mem_Status n = StatusInactive \<Longrightarrow> mem_Content n = '''' \<Longrightarrow>
    entry_step (Some m) rs (Some n) (map erase_revision rs @ [revision_of act actor reason now True n])"

lemma upto_snoc: "1 \<le> (v :: int) \<Longrightarrow> [1..v + 1] = [1..v] @ [v + 1]"
  using upto_rec2 [of 1 "v + 1"] by simp

lemma erase_revision_simps [simp]:
  "rv_Version (erase_revision r) = rv_Version r" "rv_MemoryID (erase_revision r) = rv_MemoryID r"
  "rv_ContentErased (erase_revision r)" "mem_Content (rv_Snapshot (erase_revision r)) = ''''"
  "mem_Scope (rv_Snapshot (erase_revision r)) = mem_Scope (rv_Snapshot r)"
  by (simp_all add: erase_revision_def)

lemma entry_step_log:
  assumes "entry_step mo rs mo' rs'" and "log_ok mo rs"
  shows "log_ok mo' rs'"
  using assms
proof cases
  case (created n act actor reason now)
  with assms(2) show ?thesis by (simp add: log_ok_def revision_of_def)
next
  case (changed m n act actor reason now)
  with assms(2) show ?thesis by (auto simp: log_ok_def revision_of_def memory_step_def upto_snoc)
next
  case (wiped m n act actor reason now)
  with assms(2) have "map rv_Version (map erase_revision rs) = [1..mem_Version m]" by (simp add: log_ok_def comp_def)
  with wiped assms(2) show ?thesis by (auto simp: log_ok_def revision_of_def memory_step_def upto_snoc)
qed (use assms(2) in simp)

lemma memory_steps:
  "memory_step m (retired now m)" "memory_step m (corrected r m)" "memory_step m (erased now m)"
  "mem_Status m = StatusCandidate \<Longrightarrow> memory_step m (activated now m)"
  by (simp_all add: memory_step_def)

lemma put_embedding_frame:
  "ms_memories (snd (PutEmbedding L ctx r s)) = ms_memories s" "sources_at (snd (PutEmbedding L ctx r s)) = sources_at s"
  "revisions_at (snd (PutEmbedding L ctx r s)) = revisions_at s" "ms_creates (snd (PutEmbedding L ctx r s)) = ms_creates s"
  "ms_limits (snd (PutEmbedding L ctx r s)) = ms_limits s"
  by (auto simp: PutEmbedding_def sources_at_def revisions_at_def fun_eq_iff split: option.splits)

lemma performs_entry:
  assumes "performs op m s s'" and "ids_ok s" and "memory_at s (mem_ID m) = Some m"
  shows "entry_step (memory_at s i) (revisions_at s i) (memory_at s' i) (revisions_at s' i)"
  using assms(1)
proof cases
  case (activates ctx c)
  have rv: "entry_step (memory_at s i) (revisions_at s i)
      (memory_at (supersedeActiveLocked m (mem_ID m) (vc_Actor c) (vc_Reason c) (vc_Now c) s) i)
      (revisions_at (supersedeActiveLocked m (mem_ID m) (vc_Actor c) (vc_Reason c) (vc_Now c) s) i)"
    by (auto simp: supersede_at [OF assms(2)] memory_steps intro: entry_step.intros split: option.split)
  have "\<not> rival m (mem_ID m) m" by (simp add: rival_def)
  with activates assms(3) rv show ?thesis
    by (auto simp: supersede_at [OF assms(2)] memory_steps intro: entry_step.changed)
next
  case (corrects ctx r)
  then show ?thesis using assms(3) by (auto simp: memory_steps intro: entry_step.intros)
next
  case (dismisses ctx c)
  then show ?thesis using assms(3) by (auto simp: memory_steps intro: entry_step.intros)
next
  case (forgets ctx c)
  then show ?thesis using assms(3) by (auto simp: memory_steps intro: entry_step.intros)
next
  case (erases ctx c)
  then show ?thesis using assms(3) by (auto simp: memory_steps intro: entry_step.intros)
qed

lemma insert_entry:
  assumes "ids_ok s" and "memory_at s (crq_ID r) = None"
  shows "entry_step (memory_at s i) (revisions_at s i) (memory_at (insert_memory r fp s) i) (revisions_at (insert_memory r fp s) i)"
proof (cases "i = crq_ID r")
  case True
  with assms(2) show ?thesis by (auto simp: insert_memory_simps make_room_at [OF assms(1)] intro: entry_step.created)
next
  case False
  then show ?thesis
    by (auto simp: insert_memory_simps make_room_at [OF assms(1)] memory_steps intro: entry_step.intros split: option.split)
qed

text \<open>Every operation is the identity, an insertion, a command on its target, or the storing of an embedding.\<close>

lemma apply_cases:
  obtains (same) "mem_apply L op s = s"
  | (inserted) ctx r fp where "op = OpCreate ctx r" "memory_at s (crq_ID r) = None" "mem_apply L op s = insert_memory r fp s"
      "crq_IdempotencyKey r \<noteq> '''' \<longrightarrow> map_of (ms_creates s) (crq_Scope r, crq_IdempotencyKey r) = None \<and> createFingerprint L r = Inr fp"
  | (commanded) c m where "op_command op = Some c" "commandTargetLocked c s = Inr m" "performs op m s (mem_apply L op s)"
  | (embedded) ctx r where "op = OpPut ctx r"
proof (cases "mem_apply L op s = s")
  case False
  show thesis
  proof (cases "op_command op")
    case (Some c)
    with command_performs [OF Some False] commanded show thesis by blast
  next
    case None
    then consider ctx r where "op = OpCreate ctx r" | ctx r where "op = OpPut ctx r" by (cases op) auto
    then show thesis
    proof cases
      case (1 ctx r)
      obtain res s' where c: "mem_Create L ctx r s = (res, s')" by fastforce
      with 1 False have "s' \<noteq> s" by auto
      from create_inserts [OF c this] obtain fp where "memory_at s (crq_ID r) = None" "s' = insert_memory r fp s"
        "crq_IdempotencyKey r \<noteq> '''' \<longrightarrow> map_of (ms_creates s) (crq_Scope r, crq_IdempotencyKey r) = None \<and> createFingerprint L r = Inr fp"
        by blast
      then show thesis using inserted [OF 1] 1 c by simp
    qed (rule embedded)
  qed
qed (rule same)

lemma target_id: "ids_ok s \<Longrightarrow> commandTargetLocked c s = Inr m \<Longrightarrow> memory_at s (mem_ID m) = Some m \<and> mem_ID m = vc_ID c"
  by (auto simp: commandTarget_Inr dest: ids_ok_id)

lemma apply_entry:
  assumes "ids_ok s"
  shows "entry_step (memory_at s i) (revisions_at s i) (memory_at (mem_apply L op s) i) (revisions_at (mem_apply L op s) i)"
proof (rule apply_cases [of L op s])
  fix c m assume "commandTargetLocked c s = Inr m" "performs op m s (mem_apply L op s)"
  then show ?thesis using performs_entry target_id assms by blast
qed (auto simp: insert_entry [OF assms] put_embedding_frame intro: entry_step.same)

lemma entry_step_id: "entry_step mo rs mo' rs' \<Longrightarrow> mo = Some m \<Longrightarrow> mo' = Some n \<Longrightarrow> mem_ID n = mem_ID m"
  by (auto simp: memory_step_def elim: entry_step.cases)

lemma insert_wf: "ids_ok s \<Longrightarrow> wf_map (ms_memories (insert_memory r fp s))"
  by (simp add: insert_memory_simps make_room_at)

lemma performs_wf: "performs op m s s' \<Longrightarrow> ids_ok s \<Longrightarrow> wf_map (ms_memories s')"
  by (auto simp: ids_ok_def supersede_at(3) elim!: performs.cases)

lemma apply_ids_ok:
  assumes "ids_ok s"
  shows "ids_ok (mem_apply L op s)"
proof (rule apply_cases [of L op s])
  fix ctx r fp assume a: "memory_at s (crq_ID r) = None" "mem_apply L op s = insert_memory r fp s"
  then show ?thesis using insert_wf [OF assms] assms
    by (auto simp: ids_ok_def insert_memory_simps make_room_at [OF assms] split: if_splits)
next
  fix c m assume a: "commandTargetLocked c s = Inr m" "performs op m s (mem_apply L op s)"
  have "mem_ID n = i" if "memory_at (mem_apply L op s) i = Some n" for i n
    using a(2) that target_id [OF assms a(1)] assms
    by cases (auto simp: supersede_at [OF assms] ids_ok_def split: if_splits)
  with performs_wf [OF a(2) assms] show ?thesis by (simp add: ids_ok_def)
next
  fix ctx r assume "op = OpPut ctx r"
  then show ?thesis using assms by (simp add: ids_ok_def put_embedding_frame)
qed (use assms in simp)

lemma unique_active_upd:
  assumes "unique_active f"
    and "\<And>j n. mem_Status m = StatusActive \<Longrightarrow> f j = Some n \<Longrightarrow> mem_Status n = StatusActive \<Longrightarrow> sameConflictKey n m \<Longrightarrow> j = i"
  shows "unique_active (\<lambda>k. if k = i then Some m else f k)"
  unfolding unique_active_def
proof (intro allI impI)
  fix a b x y
  assume A: "(if a = i then Some m else f a) = Some x \<and> (if b = i then Some m else f b) = Some y \<and> mem_Status x = StatusActive
    \<and> mem_Status y = StatusActive \<and> sameConflictKey x y"
  then have "sameConflictKey y x" by (simp add: sameConflictKey_def)
  with A assms(2) have "a = i \<longleftrightarrow> b = i" by (metis option.inject)
  with A assms(1) show "a = b" unfolding unique_active_def by metis
qed

lemma not_retired:
  assumes "map_option (\<lambda>m. if P m then retired now m else m) mo = Some n" and "mem_Status n = StatusActive"
  shows "mo = Some n \<and> \<not> P n"
proof -
  from assms(1) obtain m where m: "mo = Some m" "n = (if P m then retired now m else m)" by blast
  with assms(2) have "\<not> P m" by (auto split: if_splits)
  with m show ?thesis by simp
qed

lemma unique_active_retire:
  assumes "unique_active f"
  shows "unique_active (\<lambda>k. map_option (\<lambda>m. if P m then retired now m else m) (f k))"
  using assms unfolding unique_active_def by (metis not_retired)

lemma no_rivals:
  assumes "ids_ok s" and "memory_at (supersedeActiveLocked t x a r now s) j = Some n"
    and "mem_Status n = StatusActive" and "sameConflictKey n t"
  shows "j = x"
proof -
  have "memory_at s j = Some n \<and> \<not> rival t x n"
    using assms(2,3) unfolding supersede_at [OF assms(1)] by (rule not_retired)
  with assms ids_ok_id show ?thesis by (auto simp: rival_def)
qed

lemma performs_unique:
  assumes "performs op m s s'" and "ids_ok s" and "memory_at s (mem_ID m) = Some m" and "unique_active (memory_at s)"
  shows "unique_active (memory_at s')"
  using assms(1)
proof cases
  case (activates ctx c)
  let ?s = "supersedeActiveLocked m (mem_ID m) (vc_Actor c) (vc_Reason c) (vc_Now c) s"
  have "unique_active (memory_at ?s)"
    using unique_active_retire [OF assms(4)] by (simp add: supersede_at [OF assms(2)])
  then have "unique_active (\<lambda>k. if k = mem_ID m then Some (activated (vc_Now c) m) else memory_at ?s k)"
    by (rule unique_active_upd) (auto intro: no_rivals [OF assms(2)] simp: sameConflictKey_def)
  with activates show ?thesis by simp
next
  case (corrects ctx r)
  have "unique_active (\<lambda>k. if k = mem_ID m then Some (corrected r m) else memory_at s k)"
    using assms(4)
  proof (rule unique_active_upd)
    fix j n assume "mem_Status (corrected r m) = StatusActive" "memory_at s j = Some n" "mem_Status n = StatusActive"
      "sameConflictKey n (corrected r m)"
    then show "j = mem_ID m" using assms(3,4) unfolding unique_active_def
      by (metis changed_simps(2-5) sameConflictKey_def)
  qed
  with corrects show ?thesis by simp
qed (auto intro!: unique_active_upd assms(4))

lemma insert_unique:
  assumes "ids_ok s" and "memory_at s (crq_ID r) = None" and "unique_active (memory_at s)"
  shows "unique_active (memory_at (insert_memory r fp s))"
proof -
  have "unique_active (memory_at (make_room r s))"
    using unique_active_retire [OF assms(3)] by (simp add: make_room_at [OF assms(1)])
  then have "unique_active (\<lambda>k. if k = crq_ID r then Some (request_memory r) else memory_at (make_room r s) k)"
  proof (rule unique_active_upd)
    fix j n assume "mem_Status (request_memory r) = StatusActive" "memory_at (make_room r s) j = Some n"
      "mem_Status n = StatusActive" "sameConflictKey n (request_memory r)"
    then show "j = crq_ID r" using no_rivals [OF assms(1)] by (simp add: make_room_def)
  qed
  then show ?thesis by (simp add: insert_memory_simps)
qed

lemma apply_unique:
  assumes "ids_ok s" and "unique_active (memory_at s)"
  shows "unique_active (memory_at (mem_apply L op s))"
proof (rule apply_cases [of L op s])
  fix c m assume "commandTargetLocked c s = Inr m" "performs op m s (mem_apply L op s)"
  then show ?thesis using performs_unique target_id assms by blast
qed (use assms in \<open>auto simp: insert_unique put_embedding_frame\<close>)

text \<open>Idempotency records and embeddings belong to stored memories.\<close>

lemma entry_step_stays:
  assumes "entry_step (Some m) rs mo' rs'"
  shows "\<exists>n. mo' = Some n \<and> mem_Scope n = mem_Scope m \<and> mem_IdempotencyKey n = mem_IdempotencyKey m \<and> mem_ID n = mem_ID m"
  using assms by cases (auto simp: memory_step_def)

lemma apply_creates:
  assumes "ids_ok s" and "map_of (ms_creates (mem_apply L op s)) k = Some rec"
  shows "(\<exists>rec0. map_of (ms_creates s) k = Some rec0 \<and> crec_id rec = crec_id rec0)
    \<or> (\<exists>ctx r fp. op = OpCreate ctx r \<and> mem_apply L op s = insert_memory r fp s \<and> k = (crq_Scope r, crq_IdempotencyKey r) \<and> crec_id rec = crq_ID r)"
proof (rule apply_cases [of L op s])
  fix ctx r fp assume "op = OpCreate ctx r" "mem_apply L op s = insert_memory r fp s"
  then show ?thesis using assms(2) by (auto simp: insert_memory_simps make_room_at [OF assms(1)] split: if_splits)
next
  fix c m assume "performs op m s (mem_apply L op s)"
  then show ?thesis using assms(2)
    by cases (auto simp: supersede_at [OF assms(1)] erase_record_def split: if_splits)
qed (use assms(2) in \<open>auto simp: put_embedding_frame\<close>)

lemma apply_creates_ok:
  assumes "ids_ok s" and "creates_ok s"
  shows "creates_ok (mem_apply L op s)"
  unfolding creates_ok_def
proof (intro allI impI)
  fix k rec assume k: "map_of (ms_creates (mem_apply L op s)) k = Some rec"
  from apply_creates [OF assms(1) this]
  show "\<exists>m. memory_at (mem_apply L op s) (crec_id rec) = Some m \<and> k = (mem_Scope m, mem_IdempotencyKey m)"
  proof (elim disjE exE conjE)
    fix rec0 assume "map_of (ms_creates s) k = Some rec0" and i: "crec_id rec = crec_id rec0"
    then obtain m where m: "memory_at s (crec_id rec) = Some m" "k = (mem_Scope m, mem_IdempotencyKey m)"
      using assms(2) unfolding creates_ok_def by metis
    then show ?thesis using entry_step_stays [OF apply_entry [OF assms(1), of "crec_id rec" L op, unfolded m(1)]] by auto
  next
    fix ctx r fp assume "mem_apply L op s = insert_memory r fp s" "k = (crq_Scope r, crq_IdempotencyKey r)" "crec_id rec = crq_ID r"
    then show ?thesis by (simp add: insert_memory_simps)
  qed
qed

lemma apply_embeddings:
  assumes "ids_ok s" and "map_of (ms_embeddings (mem_apply L op s)) (i, p) = Some e"
  shows "map_of (ms_embeddings s) (i, p) = Some e \<or> (\<exists>m. memory_at s i = Some m \<and> mem_Status m = StatusActive
    \<and> emb_contentHash e = hashMemoryContent L (mem_Content m))"
proof (rule apply_cases [of L op s])
  fix ctx r fp assume "mem_apply L op s = insert_memory r fp s"
  then show ?thesis using assms by (simp add: insert_memory_simps make_room_at [OF assms(1)])
next
  fix c m assume "performs op m s (mem_apply L op s)"
  then show ?thesis using assms(2) by cases (auto simp: supersede_at [OF assms(1)] split: if_splits)
next
  fix ctx r assume "op = OpPut ctx r"
  then show ?thesis using assms(2) by (auto simp: PutEmbedding_def split: option.splits if_splits)
qed (use assms(2) in simp)

lemma apply_sources_none:
  assumes "ids_ok s" and "memory_at (mem_apply L op s) i = None"
  shows "sources_at (mem_apply L op s) i = sources_at s i"
proof (rule apply_cases [of L op s])
  fix ctx r fp assume "mem_apply L op s = insert_memory r fp s"
  then show ?thesis using assms by (auto simp: insert_memory_simps make_room_at [OF assms(1)] split: if_splits)
next
  fix c m assume "performs op m s (mem_apply L op s)"
  then show ?thesis using assms by cases (auto simp: supersede_at [OF assms(1)] split: if_splits)
qed (auto simp: put_embedding_frame)

lemma apply_present: "ids_ok s \<Longrightarrow> memory_at s i \<noteq> None \<Longrightarrow> memory_at (mem_apply L op s) i \<noteq> None"
  using apply_entry [of s i L op] by (auto dest!: entry_step_stays)

lemma mem_inv_apply: "mem_inv s \<Longrightarrow> mem_inv (mem_apply L op s)"
  unfolding mem_inv_def
  by (intro conjI allI impI apply_ids_ok apply_unique apply_creates_ok)
    (metis entry_step_log apply_entry apply_embeddings apply_present apply_sources_none option.distinct(1))+

abbreviation mem_run :: "mem_libs \<Rightarrow> mem_op list \<Rightarrow> MemStore \<Rightarrow> MemStore" where
  "mem_run L ops s \<equiv> fold (mem_apply L) ops s"

lemma mem_inv_run: "mem_inv s \<Longrightarrow> mem_inv (mem_run L ops s)"
  by (induction ops arbitrary: s) (simp_all add: mem_inv_apply)

lemma mem_inv_New: "New limits = Inr s \<Longrightarrow> mem_inv s"
  by (auto simp: New_def mem_inv_def ids_ok_def unique_active_def log_ok_def creates_ok_def revisions_at_def
      sources_at_def split: option.splits)

lemma mem_inv_reachable: "New limits = Inr s \<Longrightarrow> mem_inv (mem_run L ops s)"
  by (simp add: mem_inv_New mem_inv_run)

text \<open>Property C17. The store keeps its books under every sequence of operations, failed ones included: at
  most one memory is active for a scope, kind and key; the revisions of a memory are numbered from
  1 to its version without a gap, the last one is a snapshot of the memory as it is now, and no
  revision that is marked erased holds content.
\<close>

theorem memory_books_kept:
  assumes "New limits = Inr s0" and "s = mem_run L ops s0" and "memory_at s i = Some m"
  shows "map rv_Version (revisions_at s i) = [1..mem_Version m] \<and> rv_Snapshot (last (revisions_at s i)) = m
    \<and> (\<forall>r \<in> set (revisions_at s i). rv_ContentErased r \<longrightarrow> mem_Content (rv_Snapshot r) = '''')
    \<and> (mem_Status m = StatusActive \<and> memory_at s j = Some n \<and> mem_Status n = StatusActive \<and> sameConflictKey m n \<longrightarrow> i = j)"
proof -
  have inv: "mem_inv s" using mem_inv_reachable [OF assms(1)] assms(2) by simp
  then have "log_ok (Some m) (revisions_at s i)" using assms(3) by (metis mem_inv_def)
  then have "map rv_Version (revisions_at s i) = [1..mem_Version m] \<and> rv_Snapshot (last (revisions_at s i)) = m
    \<and> (\<forall>r \<in> set (revisions_at s i). rv_ContentErased r \<longrightarrow> mem_Content (rv_Snapshot r) = '''')"
    by (simp add: log_ok_def)
  moreover have "unique_active (memory_at s)" using inv by (simp add: mem_inv_def)
  then have "mem_Status m = StatusActive \<and> memory_at s j = Some n \<and> mem_Status n = StatusActive \<and> sameConflictKey m n \<longrightarrow> i = j"
    using assms(3) unfolding unique_active_def by blast
  ultimately show ?thesis by blast
qed

section \<open>Versions are used once\<close>

definition result_error :: "MemError + 'a \<Rightarrow> MemError option" where
  "result_error res = (case res of Inl e \<Rightarrow> Some e | Inr _ \<Rightarrow> None)"

fun mem_error :: "mem_libs \<Rightarrow> mem_op \<Rightarrow> MemStore \<Rightarrow> MemError option" where
  "mem_error L (OpCreate ctx r) s = result_error (fst (mem_Create L ctx r s))"
| "mem_error L (OpActivate ctx c) s = result_error (fst (Activate L ctx c s))"
| "mem_error L (OpCorrect ctx r) s = result_error (fst (Correct L ctx r s))"
| "mem_error L (OpDismiss ctx c) s = result_error (fst (Dismiss L ctx c s))"
| "mem_error L (OpForget ctx c) s = result_error (fst (Forget L ctx c s))"
| "mem_error L (OpErase ctx c) s = fst (Erase L ctx c s)"
| "mem_error L (OpPut ctx r) s = fst (PutEmbedding L ctx r s)"

lemma command_error:
  assumes "op_command op = Some c" and "mem_error L op s = None"
  shows "\<exists>m. commandTargetLocked c s = Inr m"
  using assms
  by (cases op) (auto simp: Activate_def Correct_def Dismiss_def Forget_def transitionInactive_def Erase_def result_error_def Let_def
      split: option.splits sum.splits if_splits)

lemma failed_unchanged:
  assumes "op_command op = Some c" and "mem_error L op s \<noteq> None"
  shows "mem_apply L op s = s"
  using assms
  by (cases op) (auto simp: Activate_def Correct_def Dismiss_def Forget_def transitionInactive_def Erase_def result_error_def Let_def
      split: option.splits sum.splits if_splits)

lemma performs_version:
  assumes "performs op m s s'" and "memory_at s (mem_ID m) = Some m"
  shows "\<exists>n. memory_at s' (mem_ID m) = Some n \<and> mem_Version n = mem_Version m + 1"
  using assms by cases auto

lemma command_succeeds:
  assumes "op_command op = Some c" and "mem_error L op s = None" and "ids_ok s"
  shows "\<exists>m n. memory_at s (vc_ID c) = Some m \<and> mem_Version m = vc_ExpectedVersion c \<and> performs op m s (mem_apply L op s)
    \<and> mem_ID m = vc_ID c \<and> memory_at (mem_apply L op s) (vc_ID c) = Some n \<and> mem_Version n = vc_ExpectedVersion c + 1"
proof -
  from command_error [OF assms(1,2)] obtain m where m: "commandTargetLocked c s = Inr m" ..
  then have at: "memory_at s (mem_ID m) = Some m" "mem_ID m = vc_ID c" "mem_Version m = vc_ExpectedVersion c"
    using target_id [OF assms(3)] by (auto simp: commandTarget_Inr)
  have "performs op m s (mem_apply L op s)"
    using assms m
    by (cases op) (auto simp: Activate_def Correct_def Dismiss_def Forget_def transitionInactive_def Erase_def result_error_def
        performs.simps activated_def corrected_def retired_def erased_def touch_def put_sources_append erase_wipes Let_def
        split: option.splits if_splits)
  with performs_version [OF this at(1)] at show ?thesis by auto
qed

text \<open>Over a run of operations a memory stays, keeps its identity, never loses a version, and once it is
  inactive stays inactive.\<close>

lemma entry_step_mono:
  assumes "entry_step (Some m) rs mo' rs'"
  shows "\<exists>n. mo' = Some n \<and> mem_Scope n = mem_Scope m \<and> mem_Version m \<le> mem_Version n
    \<and> (mem_Status m = StatusInactive \<longrightarrow> mem_Status n = StatusInactive)"
  using assms by cases (auto simp: memory_step_def)

lemma run_mono:
  assumes "mem_inv s" and "memory_at s i = Some m"
  shows "\<exists>n. memory_at (mem_run L ops s) i = Some n \<and> mem_Scope n = mem_Scope m \<and> mem_Version m \<le> mem_Version n
    \<and> (mem_Status m = StatusInactive \<longrightarrow> mem_Status n = StatusInactive)"
  using assms
proof (induction ops arbitrary: s m)
  case (Cons op ops)
  have "ids_ok s" using Cons.prems(1) by (simp add: mem_inv_def)
  from entry_step_mono [OF apply_entry [OF this, of i L op, unfolded Cons.prems(2)]]
  obtain n where n: "memory_at (mem_apply L op s) i = Some n" "mem_Scope n = mem_Scope m" "mem_Version m \<le> mem_Version n"
    "mem_Status m = StatusInactive \<longrightarrow> mem_Status n = StatusInactive" by blast
  from Cons.IH [OF mem_inv_apply [OF Cons.prems(1)] n(1)] n show ?case by fastforce
qed simp

text \<open>Property C19. No lost updates: of all commands that address the same memory at the same version, in
  whatever order they and any other operations reach the store, at most one succeeds; every later
  one fails and changes nothing.
\<close>

theorem version_used_once:
  assumes "New limits = Inr s0" and "op_command op = Some c" and "op_command op' = Some c'"
    and "vc_ID c' = vc_ID c" and "vc_ExpectedVersion c' = vc_ExpectedVersion c"
    and "mem_error L op (mem_run L before s0) = None"
    and "s = mem_run L between (mem_apply L op (mem_run L before s0))"
  shows "mem_error L op' s \<noteq> None \<and> mem_apply L op' s = s"
proof -
  let ?s1 = "mem_run L before s0"
  have inv: "mem_inv ?s1" by (rule mem_inv_reachable [OF assms(1)])
  then have ids: "ids_ok ?s1" by (simp add: mem_inv_def)
  from command_succeeds [OF assms(2,6) ids] obtain n where
    n: "memory_at (mem_apply L op ?s1) (vc_ID c) = Some n" "mem_Version n = vc_ExpectedVersion c + 1" by blast
  from run_mono [OF mem_inv_apply [OF inv] n(1), of L between] n(2) obtain n' where
    n': "memory_at s (vc_ID c') = Some n'" "vc_ExpectedVersion c' < mem_Version n'" using assms(4,5,7) by auto
  have "mem_error L op' s \<noteq> None"
  proof
    assume "mem_error L op' s = None"
    from command_error [OF assms(3) this] obtain m where "commandTargetLocked c' s = Inr m" ..
    with n' show False by (simp add: commandTarget_Inr)
  qed
  with failed_unchanged [OF assms(3)] show ?thesis by simp
qed

section \<open>Erasure\<close>

definition corrects_id :: "string \<Rightarrow> mem_op \<Rightarrow> bool" where
  "corrects_id i op = (case op of OpCorrect ctx r \<Rightarrow> vc_ID (cor_Command r) = i | _ \<Rightarrow> False)"

definition erases_id :: "string \<Rightarrow> mem_op \<Rightarrow> bool" where
  "erases_id i op = (case op of OpErase ctx c \<Rightarrow> vc_ID c = i | _ \<Rightarrow> False)"

text \<open>Nothing of the content of a memory is left.\<close>

definition blank :: "MemStore \<Rightarrow> string \<Rightarrow> bool" where
  "blank s i \<longleftrightarrow> (\<exists>m. memory_at s i = Some m \<and> mem_Status m = StatusInactive \<and> mem_Content m = '''')
     \<and> sources_at s i = [] \<and> (\<forall>r \<in> set (revisions_at s i). mem_Content (rv_Snapshot r) = '''')"

lemma inactive_frame:
  assumes "ids_ok s" and "memory_at s i = Some m" and "mem_Status m = StatusInactive"
    and "\<not> corrects_id i op" and "\<not> erases_id i op"
  shows "memory_at (mem_apply L op s) i = Some m" and "revisions_at (mem_apply L op s) i = revisions_at s i"
    and "sources_at (mem_apply L op s) i = sources_at s i"
proof -
  have nr: "\<not> rival t x m" for t x using assms(3) by (simp add: rival_def)
  have "memory_at (mem_apply L op s) i = Some m \<and> revisions_at (mem_apply L op s) i = revisions_at s i
      \<and> sources_at (mem_apply L op s) i = sources_at s i"
  proof (rule apply_cases [of L op s])
    fix ctx r fp assume "memory_at s (crq_ID r) = None" "mem_apply L op s = insert_memory r fp s"
    moreover then have "i \<noteq> crq_ID r" using assms(2) by auto
    ultimately show ?thesis using assms(2) nr by (simp add: insert_memory_simps make_room_at [OF assms(1)])
  next
    fix c t assume t: "op_command op = Some c" "commandTargetLocked c s = Inr t" and p: "performs op t s (mem_apply L op s)"
    have ids: "mem_ID t = vc_ID c" "memory_at s (mem_ID t) = Some t" using target_id [OF assms(1) t(2)] by auto
    have "i \<noteq> mem_ID t"
      using p assms(2-5) t(1) ids by cases (auto simp: corrects_id_def erases_id_def)
    with p assms(2) nr show ?thesis
      by cases (auto simp: supersede_at [OF assms(1)] supersede_sources [OF assms(1)])
  qed (use assms(2) in \<open>auto simp: put_embedding_frame\<close>)
  then show "memory_at (mem_apply L op s) i = Some m" "revisions_at (mem_apply L op s) i = revisions_at s i"
    "sources_at (mem_apply L op s) i = sources_at s i" by simp_all
qed

lemma Erase_performs:
  assumes "Erase L ctx c s = (None, s')" and "ids_ok s"
  shows "\<exists>m. memory_at s (vc_ID c) = Some m \<and> mem_ID m = vc_ID c
    \<and> s' = touch (erased (vc_Now c) m) ''erase'' c True (wipe (mem_ID m) s)"
proof -
  have e: "op_command (OpErase ctx c) = Some c" "mem_error L (OpErase ctx c) s = None" using assms(1) by simp_all
  from command_succeeds [OF this assms(2)] show ?thesis
    using assms(1) by (auto elim: performs.cases)
qed

lemma erase_blank:
  assumes "Erase L ctx c s = (None, s')" and "ids_ok s"
  shows "blank s' (vc_ID c)" and "map_of (ms_embeddings s') (vc_ID c, p) = None"
    and "map_of (ms_creates s') k = Some rec \<Longrightarrow> crec_id rec = vc_ID c \<Longrightarrow> crec_erased rec"
proof -
  have rec: "crec_id (erase_record i z) = i \<Longrightarrow> crec_erased (erase_record i z)" for i z
    by (auto simp: erase_record_def split: if_splits)
  obtain m where m: "mem_ID m = vc_ID c" "s' = touch (erased (vc_Now c) m) ''erase'' c True (wipe (mem_ID m) s)"
    using Erase_performs [OF assms] by blast
  show "blank s' (vc_ID c)" and "map_of (ms_embeddings s') (vc_ID c, p) = None"
    using m by (auto simp: blank_def revision_of_def)
  assume "map_of (ms_creates s') k = Some rec" "crec_id rec = vc_ID c"
  then show "crec_erased rec" using m rec by auto
qed

lemma blank_apply:
  assumes "mem_inv s" and "blank s i" and "\<not> corrects_id i op"
  shows "blank (mem_apply L op s) i"
proof (cases "erases_id i op")
  case False
  have "ids_ok s" using assms(1) by (simp add: mem_inv_def)
  moreover obtain m where "memory_at s i = Some m" "mem_Status m = StatusInactive" "mem_Content m = ''''"
    using assms(2) by (auto simp: blank_def)
  ultimately show ?thesis using assms(2) inactive_frame [OF _ _ _ assms(3) False] by (simp add: blank_def)
next
  case True
  then obtain ctx c where op: "op = OpErase ctx c" "vc_ID c = i" by (auto simp: erases_id_def split: mem_op.splits)
  obtain e s' where r: "Erase L ctx c s = (e, s')" by fastforce
  show ?thesis
  proof (cases e)
    case None
    with r op assms(1) show ?thesis using erase_blank(1) by (auto simp: mem_inv_def)
  next
    case (Some x)
    with failed_unchanged [of op c L s] r op assms(2) show ?thesis by simp
  qed
qed

lemma blank_run:
  assumes "mem_inv s" and "blank s i" and "\<forall>op \<in> set ops. \<not> corrects_id i op"
  shows "blank (mem_run L ops s) i"
  using assms by (induction ops arbitrary: s) (simp_all add: mem_inv_apply blank_apply)

text \<open>The records of an erased memory stay erased, and it never gets an embedding again.\<close>

lemma creates_persist:
  assumes "ids_ok s" and "map_of (ms_creates s) k = Some rec"
  shows "\<exists>rec'. map_of (ms_creates (mem_apply L op s)) k = Some rec' \<and> crec_id rec' = crec_id rec
    \<and> (rec' = rec \<or> crec_erased rec' \<and> erases_id (crec_id rec) op)"
proof (rule apply_cases [of L op s])
  fix ctx r fp assume "mem_apply L op s = insert_memory r fp s"
    "crq_IdempotencyKey r \<noteq> '''' \<longrightarrow> map_of (ms_creates s) (crq_Scope r, crq_IdempotencyKey r) = None \<and> createFingerprint L r = Inr fp"
  then show ?thesis using assms(2) by (auto simp: insert_memory_simps make_room_at [OF assms(1)])
next
  fix c t assume t: "op_command op = Some c" "commandTargetLocked c s = Inr t" and p: "performs op t s (mem_apply L op s)"
  have "mem_ID t = vc_ID c" using target_id [OF assms(1) t(2)] by auto
  with p assms(2) t(1) show ?thesis
    by cases (auto simp: supersede_at [OF assms(1)] erase_record_def erases_id_def)
qed (use assms(2) in \<open>auto simp: put_embedding_frame\<close>)

lemma creates_persist_run:
  assumes "mem_inv s" and "map_of (ms_creates s) k = Some rec"
  shows "\<exists>rec'. map_of (ms_creates (mem_run L ops s)) k = Some rec' \<and> crec_id rec' = crec_id rec
    \<and> (crec_erased rec \<longrightarrow> crec_erased rec')
    \<and> (rec' = rec \<or> crec_erased rec' \<and> (crec_erased rec \<or> (\<exists>op \<in> set ops. erases_id (crec_id rec) op)))"
  using assms
proof (induction ops arbitrary: s rec)
  case (Cons op ops)
  have "ids_ok s" using Cons.prems(1) by (simp add: mem_inv_def)
  from creates_persist [OF this Cons.prems(2), of L op] obtain rec1 where r1: "map_of (ms_creates (mem_apply L op s)) k = Some rec1"
    "crec_id rec1 = crec_id rec" "rec1 = rec \<or> crec_erased rec1 \<and> erases_id (crec_id rec) op" by blast
  from Cons.IH [OF mem_inv_apply [OF Cons.prems(1)] r1(1)] r1(2,3) show ?case by fastforce
qed simp

lemma no_embedding_run:
  assumes "mem_inv s" and "memory_at s i = Some m" and "mem_Status m = StatusInactive" and "\<forall>p. map_of (ms_embeddings s) (i, p) = None"
  shows "map_of (ms_embeddings (mem_run L ops s)) (i, p) = None"
  using assms
proof (induction ops arbitrary: s m)
  case (Cons op ops)
  have ids: "ids_ok s" using Cons.prems(1) by (simp add: mem_inv_def)
  from entry_step_mono [OF apply_entry [OF ids, of i L op, unfolded Cons.prems(2)]] Cons.prems(3)
  obtain n where n: "memory_at (mem_apply L op s) i = Some n" "mem_Status n = StatusInactive" by blast
  have "map_of (ms_embeddings (mem_apply L op s)) (i, p) = None" for p
    using apply_embeddings [OF ids, of L op i p] Cons.prems(2-4) by fastforce
  with Cons.IH [OF mem_inv_apply [OF Cons.prems(1)] n] show ?case by simp
qed simp

text \<open>Property C20. Erasure is thorough: after a successful \<open>Erase\<close> the memory is inactive and neither it nor
  its sources, embeddings or any revision hold content. Whatever happens next, it never becomes
  active again and never gets an embedding, and its content stays gone unless a later command
  corrects it (which the store accepts); no idempotency key under which it was created is accepted
  again.
\<close>

theorem erase_is_thorough:
  assumes "New limits = Inr s0" and "Erase L ctx c (mem_run L before s0) = (None, s1)" and "s = mem_run L after s1"
  shows "blank s1 (vc_ID c) \<and> map_of (ms_embeddings s) (vc_ID c, p) = None
    \<and> (\<exists>m. memory_at s (vc_ID c) = Some m \<and> mem_Status m = StatusInactive)
    \<and> ((\<forall>op \<in> set after. \<not> corrects_id (vc_ID c) op) \<longrightarrow> blank s (vc_ID c))
    \<and> (map_of (ms_creates s1) (crq_Scope r, crq_IdempotencyKey r) = Some rec \<and> crec_id rec = vc_ID c
        \<and> crq_IdempotencyKey r \<noteq> '''' \<longrightarrow>
        mem_apply L (OpCreate ctx' r) s = s \<and> mem_error L (OpCreate ctx' r) s \<noteq> None)"
proof -
  have inv0: "mem_inv (mem_run L before s0)" by (rule mem_inv_reachable [OF assms(1)])
  then have ids0: "ids_ok (mem_run L before s0)" by (simp add: mem_inv_def)
  have inv1: "mem_inv s1" using mem_inv_apply [OF inv0, of L "OpErase ctx c"] assms(2) by simp
  note b = erase_blank [OF assms(2) ids0]
  obtain m where m: "memory_at s1 (vc_ID c) = Some m" "mem_Status m = StatusInactive" using b(1) by (auto simp: blank_def)
  have emb: "map_of (ms_embeddings s) (vc_ID c, p) = None"
    unfolding assms(3) by (rule no_embedding_run [OF inv1 m]) (use b(2) in simp)
  have stays: "\<exists>m. memory_at s (vc_ID c) = Some m \<and> mem_Status m = StatusInactive"
    using run_mono [OF inv1 m(1), of L after] m(2) assms(3) by blast
  have gone: "(\<forall>op \<in> set after. \<not> corrects_id (vc_ID c) op) \<longrightarrow> blank s (vc_ID c)"
    using blank_run [OF inv1 b(1)] assms(3) by blast
  have "mem_apply L (OpCreate ctx' r) s = s \<and> mem_error L (OpCreate ctx' r) s \<noteq> None"
    if k: "map_of (ms_creates s1) (crq_Scope r, crq_IdempotencyKey r) = Some rec" "crec_id rec = vc_ID c" "crq_IdempotencyKey r \<noteq> ''''"
  proof -
    from creates_persist_run [OF inv1 k(1), of L after] b(3) [OF k(1,2)] obtain rec' where
      "map_of (ms_creates s) (crq_Scope r, crq_IdempotencyKey r) = Some rec'" "crec_erased rec'" using assms(3) by blast
    then show ?thesis using k(3)
      by (auto simp: mem_Create_def create_checked_def result_error_def Let_def split: option.splits sum.splits)
  qed
  with b(1) emb stays gone show ?thesis by blast
qed

section \<open>Idempotent creation\<close>

lemma apply_limits: "ids_ok s \<Longrightarrow> ms_limits (mem_apply L op s) = ms_limits s"
  by (rule apply_cases [of L op s])
    (auto simp: insert_memory_simps make_room_at supersede_at put_embedding_frame elim!: performs.cases)

lemma run_limits: "mem_inv s \<Longrightarrow> ms_limits (mem_run L ops s) = ms_limits s"
  by (induction ops arbitrary: s) (simp_all add: mem_inv_apply apply_limits mem_inv_def [THEN iffD1, THEN conjunct1])

lemma validate_ignores_now: "ValidateCreateRequest L (r\<lparr>crq_Now := t\<rparr>) l = ValidateCreateRequest L r l"
  by (simp add: ValidateCreateRequest_def)

lemma fingerprint_ignores_now: "createFingerprint L (r\<lparr>crq_Now := t\<rparr>) = createFingerprint L r"
  by (simp add: createFingerprint_def)

text \<open>A successful creation with a key leaves a record of its fingerprint.\<close>

lemma create_record:
  assumes "mem_Create L ctx r s = (Inr m, s')" and "crq_IdempotencyKey r \<noteq> ''''" and "mem_inv s"
  shows "\<exists>fp. createFingerprint L r = Inr fp \<and> ValidateCreateRequest L r (ms_limits s) = None
    \<and> map_of (ms_creates s') (crq_Scope r, crq_IdempotencyKey r)
        = Some \<lparr>crec_id = crq_ID r, crec_fingerprint = fp, crec_erased = False\<rparr>
    \<and> memory_at s' (crq_ID r) = Some m \<and> mem_inv s' \<and> ms_limits s' = ms_limits s"
proof -
  have ids: "ids_ok s" using assms(3) by (simp add: mem_inv_def)
  have s': "s' = mem_apply L (OpCreate ctx r) s" using assms(1) by simp
  have inv: "mem_inv s'" "ms_limits s' = ms_limits s" unfolding s' by (simp_all only: mem_inv_apply [OF assms(3)] apply_limits [OF ids])
  show ?thesis
  proof (cases "s' = s")
    case False
    from create_inserts [OF assms(1) False] assms(2) inv show ?thesis by (auto simp: insert_memory_simps)
  next
    case True
    have "\<exists>fp rec. createFingerprint L r = Inr fp \<and> ValidateCreateRequest L r (ms_limits s) = None
        \<and> (map_of (ms_creates s) (crq_Scope r, crq_IdempotencyKey r) = Some rec \<and> \<not> crec_erased rec
             \<and> crec_id rec = crq_ID r \<and> crec_fingerprint rec = fp \<and> memory_at s (crq_ID r) = Some m
           \<or> s' = insert_memory r fp s \<and> m = request_memory r)"
      using assms(1,2) by (auto simp: mem_Create_def create_checked_def Let_def split: option.splits sum.splits if_splits)
    then obtain fp rec where fp: "createFingerprint L r = Inr fp" "ValidateCreateRequest L r (ms_limits s) = None"
      and c: "map_of (ms_creates s) (crq_Scope r, crq_IdempotencyKey r) = Some rec \<and> \<not> crec_erased rec
             \<and> crec_id rec = crq_ID r \<and> crec_fingerprint rec = fp \<and> memory_at s (crq_ID r) = Some m
           \<or> s' = insert_memory r fp s \<and> m = request_memory r" by blast
    have "\<not> crec_erased rec \<and> crec_id rec = crq_ID r \<and> crec_fingerprint rec = fp
        \<Longrightarrow> rec = \<lparr>crec_id = crq_ID r, crec_fingerprint = fp, crec_erased = False\<rparr>"
      by (cases rec) simp
    with c have "map_of (ms_creates s') (crq_Scope r, crq_IdempotencyKey r)
        = Some \<lparr>crec_id = crq_ID r, crec_fingerprint = fp, crec_erased = False\<rparr> \<and> memory_at s' (crq_ID r) = Some m"
      using True assms(2) insert_memory_simps(1) [of r fp s "crq_ID r"]
        insert_memory_simps(4) [of r fp s "(crq_Scope r, crq_IdempotencyKey r)"]
      by (elim disjE) simp_all
    with fp inv show ?thesis by blast
  qed
qed

text \<open>Creation is idempotent: after a creation with an idempotency key succeeded, sending the
  same request again, at any time and after any operations, changes nothing. It answers with the
  memory as it is by then, unless the memory was erased in between, when it is refused as a
  conflict. A request under the same key with another ID or another fingerprint is refused.
\<close>

theorem create_idempotent:
  assumes "New limits = Inr s0" and "crq_IdempotencyKey r \<noteq> ''''"
    and "mem_Create L ctx r (mem_run L before s0) = (Inr m, s1)" and "s = mem_run L between s1"
    and "ctx' 0 = None" and "ctx' 1 = None"
  shows "\<exists>n. memory_at s (crq_ID r) = Some n
    \<and> ((\<forall>op \<in> set between. \<not> erases_id (crq_ID r) op) \<longrightarrow> mem_Create L ctx' (r\<lparr>crq_Now := t\<rparr>) s = (Inr n, s))
    \<and> (mem_Create L ctx' (r\<lparr>crq_Now := t\<rparr>) s = (Inr n, s)
       \<or> mem_Create L ctx' (r\<lparr>crq_Now := t\<rparr>) s = (Inl (ErrConflict ''idempotency key was already used''), s))
    \<and> (crq_Scope r' = crq_Scope r \<and> crq_IdempotencyKey r' = crq_IdempotencyKey r
       \<and> (crq_ID r' \<noteq> crq_ID r \<or> createFingerprint L r' \<noteq> createFingerprint L r) \<longrightarrow>
       mem_apply L (OpCreate ctx' r') s = s \<and> mem_error L (OpCreate ctx' r') s \<noteq> None)"
proof -
  have inv0: "mem_inv (mem_run L before s0)" by (rule mem_inv_reachable [OF assms(1)])
  from create_record [OF assms(3,2) inv0] obtain fp where fp: "createFingerprint L r = Inr fp"
    "ValidateCreateRequest L r (ms_limits (mem_run L before s0)) = None"
    "map_of (ms_creates s1) (crq_Scope r, crq_IdempotencyKey r) = Some \<lparr>crec_id = crq_ID r, crec_fingerprint = fp, crec_erased = False\<rparr>"
    "memory_at s1 (crq_ID r) = Some m" "mem_inv s1" "ms_limits s1 = ms_limits (mem_run L before s0)" by blast
  have lim: "ms_limits s = ms_limits (mem_run L before s0)" using run_limits [OF fp(5)] fp(6) assms(4) by simp
  from run_mono [OF fp(5,4), of L between] obtain n where n: "memory_at s (crq_ID r) = Some n" using assms(4) by blast
  from creates_persist_run [OF fp(5,3), of L between] obtain rec where rec:
    "map_of (ms_creates s) (crq_Scope r, crq_IdempotencyKey r) = Some rec" "crec_id rec = crq_ID r"
    "crec_fingerprint rec = fp \<and> \<not> crec_erased rec \<or> crec_erased rec \<and> (\<exists>op \<in> set between. erases_id (crq_ID r) op)"
    using assms(4) by auto
  have again: "mem_Create L ctx' (r\<lparr>crq_Now := t\<rparr>) s =
      (if crec_erased rec then (Inl (ErrConflict ''idempotency key was already used''), s) else (Inr n, s))"
    using fp(1,2) rec n lim assms(2,5,6)
    by (auto simp: mem_Create_def create_checked_def validate_ignores_now fingerprint_ignores_now Let_def)
  have other: "mem_apply L (OpCreate ctx' r') s = s \<and> mem_error L (OpCreate ctx' r') s \<noteq> None"
    if "crq_Scope r' = crq_Scope r" "crq_IdempotencyKey r' = crq_IdempotencyKey r"
      "crq_ID r' \<noteq> crq_ID r \<or> createFingerprint L r' \<noteq> createFingerprint L r"
    using that rec fp(1) assms(2)
    by (auto simp: mem_Create_def create_checked_def result_error_def Let_def split: option.splits sum.splits)
  show ?thesis using n again other rec(3) by (auto intro!: exI [of _ n])
qed

section \<open>Examples\<close>

definition demo_limits :: Limits where
  "demo_limits = \<lparr>lim_Version = ''v1'', lim_MaxKeyRunes = 9, lim_MaxContentRunes = 9, lim_MaxMetadataRunes = 9,
     lim_MaxSourcesPerMemory = 2, lim_MaxListItems = 5\<rparr>"

definition demo_scope :: "string \<Rightarrow> Scope" where
  "demo_scope tenant = \<lparr>sc_TenantID = tenant, sc_SubjectType = SubjectUser, sc_SubjectID = ''u''\<rparr>"

definition demo_create :: "string \<Rightarrow> string \<Rightarrow> CreateRequest" where
  "demo_create tenant i = \<lparr>crq_ID = i, crq_Scope = demo_scope tenant, crq_Kind = KindFact, crq_Key = ''k'', crq_Status = StatusActive,
     crq_Content = ''c'', crq_ValidFrom = 0, crq_ValidUntil = 0, crq_Importance = 1, crq_Confidence = Some 1,
     crq_SourceAgentID = '''', crq_Actor = ''a'', crq_Reason = '''', crq_IdempotencyKey = i, crq_Sources = [], crq_Now = 5\<rparr>"

definition demo_command :: "string \<Rightarrow> string \<Rightarrow> int \<Rightarrow> VersionedCommand" where
  "demo_command tenant i v = \<lparr>vc_Scope = demo_scope tenant, vc_ID = i, vc_ExpectedVersion = v, vc_Actor = ''a'', vc_Reason = '''', vc_Now = 7\<rparr>"

definition live_ctx :: "nat \<Rightarrow> ctx" where
  "live_ctx n = None"

definition demo_mem_store :: MemStore where
  "demo_mem_store = \<lparr>ms_limits = demo_limits, ms_memories = [], ms_sources = [], ms_revisions = [], ms_creates = [], ms_embeddings = []\<rparr>"

lemmas demo_texts = demo_limits_def demo_scope_def demo_create_def demo_command_def live_ctx_def demo_mem_libs_def
  TrimSpace_ascii is_space_def rune_count_def rune_chunks_ascii is_control_def

lemmas demo_checks = entry_error_def ValidateCreateRequest_def ValidateCommand_def ValidateCandidateQuery_def
  Limits_Validate_def Scope_Validate_def ValidateMemoryID_def Kind_IsValid_def MemStatus_IsValid_def validKey_def
  validContent_def validTimeRange_def validImportance_def validConfidence_def validMetadata_def ValidateSources_def check_def

lemma demo_new: "New demo_limits = Inr demo_mem_store"
  by (simp add: New_def demo_mem_store_def demo_texts demo_checks)

lemma demo_create_valid: "ValidateCreateRequest demo_mem_libs (demo_create t [i]) demo_limits = None" if "t = ''t'' \<or> t = ''z''" "i = CHR ''i'' \<or> i = CHR ''j''"
  using that by (auto simp: demo_checks demo_texts)

lemma demo_simps [simp]:
  "live_ctx n = None" "crq_ID (demo_create t i) = i" "crq_Scope (demo_create t i) = demo_scope t" "crq_IdempotencyKey (demo_create t i) = i"
  "crq_Status (demo_create t i) = StatusActive" "crq_Content (demo_create t i) = ''c''" "crq_Key (demo_create t i) = ''k''"
  "vc_ID (demo_command t i v) = i" "vc_Scope (demo_command t i v) = demo_scope t" "vc_ExpectedVersion (demo_command t i v) = v"
  "ms_limits demo_mem_store = demo_limits" "ms_memories demo_mem_store = []" "ms_creates demo_mem_store = []"
  "createFingerprint demo_mem_libs (demo_create t i) = Inr ''c''"
  by (simp_all add: live_ctx_def demo_create_def demo_command_def demo_mem_store_def createFingerprint_def demo_mem_libs_def)

lemma demo_command_valid: "ValidateCommand demo_mem_libs (demo_command ''t'' ''i'' v) demo_limits = None" if "0 < v"
  using that by (simp add: demo_checks demo_texts)

abbreviation demo_first :: MemStore where
  "demo_first \<equiv> insert_memory (demo_create ''t'' ''i'') ''c'' demo_mem_store"

lemma demo_mem_created: "mem_Create demo_mem_libs live_ctx (demo_create ''t'' ''i'') demo_mem_store = (Inr (request_memory (demo_create ''t'' ''i'')), demo_first)"
  using demo_create_valid [of "''t''" "CHR ''i''"] by (simp add: mem_Create_def create_checked_def)

lemma demo_first_at [simp]:
  "memory_at demo_first ''i'' = Some (request_memory (demo_create ''t'' ''i''))" "ms_limits demo_first = demo_limits"
  using make_room_at [of demo_mem_store] by (simp_all add: insert_memory_simps ids_ok_def)

lemma demo_erased: "\<exists>s. Erase demo_mem_libs live_ctx (demo_command ''t'' ''i'' 1) demo_first = (None, s)"
  using demo_command_valid [of 1] by (simp add: Erase_def entry_error_def commandTargetLocked_def Let_def)

text \<open>Creating a memory, and correcting or erasing it at its version.\<close>

theorem memory_books_kept_witness:
  "memory_at (mem_run demo_mem_libs [OpCreate live_ctx (demo_create ''t'' ''i'')] demo_mem_store) ''i'' = Some (request_memory (demo_create ''t'' ''i''))
   \<and> map rv_Version (revisions_at (mem_run demo_mem_libs [OpCreate live_ctx (demo_create ''t'' ''i'')] demo_mem_store) ''i'') = [1]"
  using memory_books_kept [OF demo_new refl, of demo_mem_libs "[OpCreate live_ctx (demo_create ''t'' ''i'')]" "''i''" "request_memory (demo_create ''t'' ''i'')"]
  by (simp add: demo_mem_created)

theorem version_used_once_witness:
  "mem_error demo_mem_libs (OpForget live_ctx (demo_command ''t'' ''i'' 1))
     (mem_apply demo_mem_libs (OpErase live_ctx (demo_command ''t'' ''i'' 1)) demo_first) \<noteq> None"
proof -
  have run: "mem_run demo_mem_libs [OpCreate live_ctx (demo_create ''t'' ''i'')] demo_mem_store = demo_first"
    by (simp add: demo_mem_created)
  have "mem_error demo_mem_libs (OpErase live_ctx (demo_command ''t'' ''i'' 1)) demo_first = None"
    using demo_erased by auto
  then show ?thesis
    using version_used_once [OF demo_new, of "OpErase live_ctx (demo_command ''t'' ''i'' 1)" "demo_command ''t'' ''i'' 1"
        "OpForget live_ctx (demo_command ''t'' ''i'' 1)" "demo_command ''t'' ''i'' 1" demo_mem_libs
        "[OpCreate live_ctx (demo_create ''t'' ''i'')]" _ "[]", OF _ _ _ _ _ refl] run by simp
qed

theorem erase_is_thorough_witness:
  "\<exists>s. Erase demo_mem_libs live_ctx (demo_command ''t'' ''i'' 1) demo_first = (None, s) \<and> blank s ''i''
     \<and> mem_error demo_mem_libs (OpCreate live_ctx (demo_create ''t'' ''i'')) s \<noteq> None"
proof -
  obtain s where s: "Erase demo_mem_libs live_ctx (demo_command ''t'' ''i'' 1) demo_first = (None, s)" using demo_erased by blast
  have run: "mem_run demo_mem_libs [OpCreate live_ctx (demo_create ''t'' ''i'')] demo_mem_store = demo_first"
    by (simp add: demo_mem_created)
  have "\<exists>rec. map_of (ms_creates s) (demo_scope ''t'', ''i'') = Some rec \<and> crec_id rec = ''i''"
    using creates_persist [of demo_first "(demo_scope ''t'', ''i'')" _ demo_mem_libs "OpErase live_ctx (demo_command ''t'' ''i'' 1)"]
      mem_inv_reachable [OF demo_new, of demo_mem_libs "[OpCreate live_ctx (demo_create ''t'' ''i'')]"] s
    by (simp only: run) (auto simp: insert_memory_simps mem_inv_def)
  with erase_is_thorough [OF demo_new, of demo_mem_libs live_ctx "demo_command ''t'' ''i'' 1" "[OpCreate live_ctx (demo_create ''t'' ''i'')]" s s "[]"
      _ "demo_create ''t'' ''i''" _ live_ctx, unfolded run, OF s] s
  show ?thesis by auto
qed

theorem create_idempotent_witness:
  "\<exists>n. mem_Create demo_mem_libs live_ctx ((demo_create ''t'' ''i'')\<lparr>crq_Now := 8\<rparr>) demo_first = (Inr n, demo_first)"
  using create_idempotent [OF demo_new _ _ refl, of "demo_create ''t'' ''i''" demo_mem_libs live_ctx "[]" _ demo_first live_ctx "[]" 8] demo_mem_created
  by auto

end
