(* ===== verification/Memory_Scopes.thy ===== *)
theory Memory_Scopes
  imports Memory_Laws
begin

text \<open>
  What a scope of the memory store can see: no operation of another scope changes what its reads
  return, and a candidate search returns only what the query may recall, ranked and cut.
\<close>

section \<open>Isolation of scopes\<close>

fun op_scope :: "mem_op \<Rightarrow> Scope" where
  "op_scope (OpCreate ctx r) = crq_Scope r"
| "op_scope (OpActivate ctx c) = vc_Scope c"
| "op_scope (OpCorrect ctx r) = vc_Scope (cor_Command r)"
| "op_scope (OpDismiss ctx c) = vc_Scope c"
| "op_scope (OpForget ctx c) = vc_Scope c"
| "op_scope (OpErase ctx c) = vc_Scope c"
| "op_scope (OpPut ctx r) = per_Scope r"

text \<open>What a scope can see: its entries in the order of the map, with their sources, logs and embeddings.\<close>

definition scope_entries :: "Scope \<Rightarrow> MemStore \<Rightarrow> (string \<times> Memory) list" where
  "scope_entries sc s = filter (\<lambda>(i, m). mem_Scope m = sc) (ms_memories s)"

definition same_view :: "Scope \<Rightarrow> MemStore \<Rightarrow> MemStore \<Rightarrow> bool" where
  "same_view sc s t \<longleftrightarrow> scope_entries sc t = scope_entries sc s \<and> ms_limits t = ms_limits s \<and>
     (\<forall>i m. memory_at s i = Some m \<and> mem_Scope m = sc \<longrightarrow>
        sources_at t i = sources_at s i \<and> revisions_at t i = revisions_at s i
        \<and> (\<forall>p. map_of (ms_embeddings t) (i, p) = map_of (ms_embeddings s) (i, p)))"

lemma filter_update:
  assumes "wf_map ms" and "\<And>v'. map_of ms k = Some v' \<Longrightarrow> \<not> P (k, v')" and "\<not> P (k, v)"
  shows "filter P (AList.update k v ms) = filter P ms"
  using assms
proof (induction ms)
  case (Cons e ms)
  obtain k' v' where e: "e = (k', v')" by (cases e)
  show ?case
  proof (cases "k' = k")
    case True
    with Cons.prems show ?thesis by (simp add: e)
  next
    case False
    then have "filter P (AList.update k v ms) = filter P ms"
      using Cons.prems by (intro Cons.IH) (auto simp: e wf_map_def)
    with False show ?thesis by (simp add: e)
  qed
qed simp

lemma entries_put:
  assumes "wf_map (ms_memories s)" and "mem_Scope m \<noteq> sc" and "\<And>n. memory_at s (mem_ID m) = Some n \<Longrightarrow> mem_Scope n \<noteq> sc"
  shows "scope_entries sc (put_memory m s) = scope_entries sc s"
  unfolding scope_entries_def put_memory_def using assms by (simp, intro filter_update) auto

lemma same_view_refl [simp]: "same_view sc s s"
  by (simp add: same_view_def)

lemma entries_at:
  assumes "ids_ok s"
  shows "(i, m) \<in> set (scope_entries sc s) \<longleftrightarrow> memory_at s i = Some m \<and> mem_Scope m = sc"
  using assms by (auto simp: scope_entries_def ids_ok_def map_of_iff_mem)

lemma same_view_at:
  assumes "ids_ok s" and "ids_ok t" and "same_view sc s t"
  shows "memory_at t i = Some m \<and> mem_Scope m = sc \<longleftrightarrow> memory_at s i = Some m \<and> mem_Scope m = sc"
  using assms entries_at [OF assms(1), of i m sc] entries_at [OF assms(2), of i m sc] by (simp add: same_view_def)

lemma same_view_trans:
  assumes "ids_ok s" and "ids_ok t" and "same_view sc s t" and "same_view sc t u"
  shows "same_view sc s u"
  using assms same_view_at [OF assms(1-3)] unfolding same_view_def by metis

lemma alist_eqI:
  assumes "map fst xs = map fst ys" and "wf_map xs" and "\<And>k. map_of xs k = map_of ys k"
  shows "xs = ys"
  using assms
proof (induction xs arbitrary: ys)
  case (Cons x xs)
  then obtain y ys' where ys: "ys = y # ys'" "fst x = fst y" "map fst xs = map fst ys'" by (cases ys) auto
  have "snd x = snd y" using Cons.prems(3) [of "fst x"] ys by (cases x; cases y) simp
  moreover have "xs = ys'"
  proof (rule Cons.IH [OF ys(3)])
    show "wf_map xs" using Cons.prems(2) by (simp add: wf_map_def)
    have no: "map_of xs (fst x) = None" "map_of ys' (fst x) = None"
      using Cons.prems(2) ys(3) by (simp_all only: wf_map_def map_of_eq_None_iff set_map [symmetric] distinct.simps list.map simp_thms ys(3))
    fix k show "map_of xs k = map_of ys' k"
      using Cons.prems(3) [of k] no ys by (cases "k = fst x") (cases x; cases y; auto)+
  qed
  ultimately show ?case using ys by (cases x; cases y) simp
qed simp

lemma supersede_keys:
  assumes "\<forall>(i, m) \<in> set es. mem_ID m = i" and "fst ` set es \<subseteq> fst ` set (ms_memories s)"
  shows "map fst (ms_memories (fold (supersede_entry t x a r now) es s)) = map fst (ms_memories s)"
  using assms
proof (induction es arbitrary: s)
  case (Cons e es)
  obtain i m where e: "e = (i, m)" by (cases e)
  have k: "map fst (ms_memories (supersede_entry t x a r now e s)) = map fst (ms_memories s)"
    using Cons.prems by (auto simp: e supersede_entry_eq put_memory_def update_keys)
  then have "fst ` set (ms_memories (supersede_entry t x a r now e s)) = fst ` set (ms_memories s)"
    by (metis image_set)
  with Cons k show ?case by simp
qed simp

lemma supersede_memories:
  assumes "ids_ok s"
  shows "ms_memories (supersedeActiveLocked t x a r now s) =
    map (\<lambda>(i, m). (i, if rival t x m then retired now m else m)) (ms_memories s)"
proof (rule alist_eqI)
  have ids: "\<forall>(i, m) \<in> set (ms_memories s). mem_ID m = i" using assms by (auto simp: ids_ok_def map_of_iff_mem)
  have "map fst (map (\<lambda>(i, m). (i, if rival t x m then retired now m else m)) (ms_memories s)) = map fst (ms_memories s)"
    by (simp add: comp_def case_prod_beta)
  with supersede_keys [OF ids] show "map fst (ms_memories (supersedeActiveLocked t x a r now s)) =
      map fst (map (\<lambda>(i, m). (i, if rival t x m then retired now m else m)) (ms_memories s))"
    by (simp add: supersedeActiveLocked_def)
  show "wf_map (ms_memories (supersedeActiveLocked t x a r now s))" by (rule supersede_at(3) [OF assms])
  show "map_of (ms_memories (supersedeActiveLocked t x a r now s)) k =
      map_of (map (\<lambda>(i, m). (i, if rival t x m then retired now m else m)) (ms_memories s)) k" for k
    using map_of_map_snd [of "\<lambda>i m. if rival t x m then retired now m else m" "ms_memories s" k]
    by (simp add: supersede_at [OF assms])
qed

lemma filter_map_same:
  "(\<And>e. e \<in> set xs \<Longrightarrow> P (g e) = P e \<and> (P e \<longrightarrow> g e = e)) \<Longrightarrow> filter P (map g xs) = filter P xs"
  by (induction xs) auto

lemma rival_scope: "rival t x m \<Longrightarrow> mem_Scope m = mem_Scope t"
  by (simp add: rival_def sameConflictKey_def)

lemma supersede_view:
  assumes "ids_ok s" and "mem_Scope t \<noteq> sc"
  shows "same_view sc s (supersedeActiveLocked t x a r now s)"
proof -
  have "scope_entries sc (supersedeActiveLocked t x a r now s) = scope_entries sc s"
    unfolding scope_entries_def supersede_memories [OF assms(1)]
    by (rule filter_map_same) (use assms(2) rival_scope in \<open>auto split: prod.splits\<close>)
  then show ?thesis
    using assms rival_scope [of t x] by (auto simp: same_view_def supersede_at [OF assms(1)] supersede_sources [OF assms(1)])
qed

lemma ids_ok_wf [simp]: "ids_ok s \<Longrightarrow> wf_map (ms_memories s)"
  by (simp add: ids_ok_def)

lemma touch_entries: "scope_entries sc (touch m a c w s) = scope_entries sc (put_memory m s)"
  by (simp add: scope_entries_def touch_def)

lemma touch_view:
  assumes "wf_map (ms_memories s)" and "mem_Scope m \<noteq> sc" and "\<And>n. memory_at s (mem_ID m) = Some n \<Longrightarrow> mem_Scope n \<noteq> sc"
  shows "same_view sc s (touch m a c w s)"
  using entries_put [OF assms(1,2)] assms(2,3) by (auto simp: same_view_def touch_entries)

lemma supersede_ids: "ids_ok s \<Longrightarrow> ids_ok (supersedeActiveLocked t x a r now s)"
  by (auto simp: ids_ok_def supersede_at split: if_splits)

lemma sources_view:
  assumes "\<And>n. memory_at s i = Some n \<Longrightarrow> mem_Scope n \<noteq> sc" and "same_view sc s t" and "ids_ok s"
  shows "same_view sc s (put_sources i xs t)"
  using assms by (auto simp: same_view_def scope_entries_def)

lemma wipe_view:
  assumes "\<And>n. memory_at s i = Some n \<Longrightarrow> mem_Scope n \<noteq> sc"
  shows "same_view sc s (wipe i s)"
  using assms by (auto simp: same_view_def scope_entries_def)

lemma performs_view:
  assumes "performs op m s s'" and "ids_ok s" and "memory_at s (mem_ID m) = Some m" and "mem_Scope m \<noteq> sc"
  shows "same_view sc s s'"
  using assms(1)
proof cases
  case (activates ctx c)
  let ?t = "supersedeActiveLocked m (mem_ID m) (vc_Actor c) (vc_Reason c) (vc_Now c) s"
  have "memory_at ?t (mem_ID m) = Some m" using assms(3) by (simp add: supersede_at [OF assms(2)] rival_def)
  then have "same_view sc ?t s'"
    unfolding activates by (intro touch_view) (use assms(2-4) in \<open>auto simp: supersede_at\<close>)
  with same_view_trans [OF assms(2) supersede_ids [OF assms(2)] supersede_view [OF assms(2,4)]] show ?thesis .
next
  case (corrects ctx r)
  have "same_view sc s (touch (corrected r m) ''correct'' (cor_Command r) False s)"
    by (rule touch_view) (use assms(2-4) in auto)
  then show ?thesis unfolding corrects by (intro sources_view) (use assms(2-4) in auto)
next
  case (erases ctx c)
  have "same_view sc (wipe (mem_ID m) s) s'"
    unfolding erases by (intro touch_view) (use assms(2-4) in auto)
  moreover have "same_view sc s (wipe (mem_ID m) s)" by (rule wipe_view) (use assms(2-4) in auto)
  moreover have "ids_ok (wipe (mem_ID m) s)" using assms(2) by (simp add: ids_ok_def)
  ultimately show ?thesis using same_view_trans [OF assms(2)] by blast
qed (use assms(2-4) in \<open>auto intro!: touch_view\<close>)

lemma insert_view:
  assumes "ids_ok s" and "memory_at s (crq_ID r) = None" and "crq_Scope r \<noteq> sc"
  shows "same_view sc s (insert_memory r fp s)"
proof -
  have room: "same_view sc s (make_room r s)"
    using supersede_view [OF assms(1), of "request_memory r"] assms(3) by (simp add: make_room_def)
  have ids: "ids_ok (make_room r s)" using supersede_ids [OF assms(1)] assms(1) by (simp add: make_room_def)
  have none: "memory_at (make_room r s) (crq_ID r) = None" using assms(2) by (simp add: make_room_at [OF assms(1)])
  have "scope_entries sc (insert_memory r fp s) = scope_entries sc (put_memory (request_memory r) (make_room r s))"
    by (simp add: scope_entries_def insert_memory_def make_room_def Let_def)
  also have "\<dots> = scope_entries sc (make_room r s)"
    by (rule entries_put) (use ids none assms(3) in auto)
  finally have "same_view sc (make_room r s) (insert_memory r fp s)"
    using none by (auto simp: same_view_def insert_memory_simps)
  with same_view_trans [OF assms(1) ids room] show ?thesis .
qed

lemma put_embedding_view:
  assumes "per_Scope r \<noteq> sc"
  shows "same_view sc s (snd (PutEmbedding L ctx r s))"
  using assms by (auto simp: PutEmbedding_def same_view_def scope_entries_def sources_at_def revisions_at_def
      split: option.splits)

lemma op_command_scope: "op_command op = Some c \<Longrightarrow> op_scope op = vc_Scope c"
  by (cases op) auto

lemma apply_view:
  assumes "ids_ok s" and "op_scope op \<noteq> sc"
  shows "same_view sc s (mem_apply L op s)"
proof (rule apply_cases [of L op s])
  fix c m assume a: "op_command op = Some c" "commandTargetLocked c s = Inr m" "performs op m s (mem_apply L op s)"
  then have "mem_Scope m \<noteq> sc" using assms(2) by (simp add: commandTarget_Inr op_command_scope)
  with a performs_view target_id assms(1) show ?thesis by blast
qed (use assms in \<open>auto simp: insert_view put_embedding_view\<close>)

lemma run_view:
  assumes "mem_inv s" and "\<forall>op \<in> set ops. op_scope op \<noteq> sc"
  shows "same_view sc s (mem_run L ops s)"
  using assms
proof (induction ops arbitrary: s)
  case (Cons op ops)
  have ids: "ids_ok s" "ids_ok (mem_apply L op s)" using Cons.prems(1) apply_ids_ok by (auto simp: mem_inv_def)
  from same_view_trans [OF ids apply_view] Cons mem_inv_apply ids show ?case by simp
qed simp

text \<open>The reads of a scope see only its view.\<close>

lemma view_lookup:
  assumes "ids_ok s" and "ids_ok t" and "same_view sc s t"
  shows "(case memory_at t i of Some m \<Rightarrow> if mem_Scope m \<noteq> sc then a else f m | None \<Rightarrow> a)
    = (case memory_at s i of Some m \<Rightarrow> if mem_Scope m \<noteq> sc then a else f m | None \<Rightarrow> a)"
proof (cases "\<exists>m. memory_at s i = Some m \<and> mem_Scope m = sc")
  case True
  then obtain m where "memory_at s i = Some m" "mem_Scope m = sc" "memory_at t i = Some m"
    using same_view_at [OF assms, of i] by blast
  then show ?thesis by simp
next
  case False
  then have "mem_Scope m \<noteq> sc" if "memory_at t i = Some m \<or> memory_at s i = Some m" for m
    using that same_view_at [OF assms, of i m] by blast
  then show ?thesis by (simp split: option.split)
qed

lemma view_lookup_cong:
  assumes "ids_ok s" and "ids_ok t" and "same_view sc s t"
    and "\<And>m. memory_at s i = Some m \<Longrightarrow> mem_Scope m = sc \<Longrightarrow> g m = f m"
  shows "(case memory_at t i of Some m \<Rightarrow> if mem_Scope m \<noteq> sc then a else g m | None \<Rightarrow> a)
    = (case memory_at s i of Some m \<Rightarrow> if mem_Scope m \<noteq> sc then a else f m | None \<Rightarrow> a)"
  unfolding view_lookup [OF assms(1-3)] using assms(4) by (auto split: option.splits)

lemma list_view:
  assumes "lq_Scope q = sc"
  shows "filter (list_matches q) (map snd (ms_memories s)) = filter (list_matches q) (map snd (scope_entries sc s))"
proof -
  have "filter (list_matches q) (map snd ms) = filter (list_matches q) (map snd (filter (\<lambda>(i, m). mem_Scope m = sc) ms))"
    for ms :: "(string, Memory) gomap"
    using assms by (induction ms) (auto simp: list_matches_def)
  then show ?thesis by (simp add: scope_entries_def)
qed

lemma search_view:
  assumes "cq_Scope q = sc"
  shows "filter (\<lambda>(i, m). searchable q m) (ms_memories s) = filter (\<lambda>(i, m). searchable q m) (scope_entries sc s)"
  unfolding scope_entries_def filter_filter using assms by (intro filter_cong) (auto simp: searchable_def)

lemma candidates_cong:
  assumes "\<And>i m. (i, m) \<in> set es \<Longrightarrow> sources_at t i = sources_at s i \<and> map_of (ms_embeddings t) (i, cq_EmbeddingProfileID q) = map_of (ms_embeddings s) (i, cq_EmbeddingProfileID q)"
  shows "exact_candidates q t es = exact_candidates q s es" and "text_candidates L q t es = text_candidates L q s es"
    and "vector_candidates L q t es = vector_candidates L q s es"
proof -
  have c: "candidate_of t x e = candidate_of s x e" if "e \<in> set es" for e x
    using assms that by (cases e) (auto simp: candidate_of_def)
  have v: "vector_match L q t e = vector_match L q s e" if "e \<in> set es" for e
    using assms that by (cases e) (auto simp: vector_match_def)
  show "exact_candidates q t es = exact_candidates q s es" "text_candidates L q t es = text_candidates L q s es"
    using c by (auto simp: exact_candidates_def text_candidates_def Let_def)
  show "vector_candidates L q t es = vector_candidates L q s es"
    unfolding vector_candidates_def using c v by (intro if_cong refl arg_cong [of _ _ concat] map_cong) (auto split: option.split)
qed

lemma search_cong:
  assumes "ids_ok s" and "same_view sc s t" and "cq_Scope q = sc"
  shows "SearchCandidates L ctx q t = SearchCandidates L ctx q s"
proof -
  let ?es = "filter (\<lambda>(i, m). searchable q m) (scope_entries sc s)"
  have "sources_at t i = sources_at s i \<and> map_of (ms_embeddings t) (i, cq_EmbeddingProfileID q) = map_of (ms_embeddings s) (i, cq_EmbeddingProfileID q)"
    if "(i, m) \<in> set ?es" for i m
    using that assms(2) entries_at [OF assms(1), of i m sc] by (auto simp: same_view_def)
  note c = candidates_cong [where es = ?es and s = s and t = t and q = q, OF this]
  have t: "scope_entries sc t = scope_entries sc s" "ms_limits t = ms_limits s" using assms(2) by (auto simp: same_view_def)
  show ?thesis by (simp only: SearchCandidates_def Let_def search_view [OF assms(3)] t c)
qed

text \<open>Property C18. Scopes do not interfere: whatever operations other scopes perform, every read of a scope
  (a memory, its sources, its revisions, listing, candidate search) answers exactly as before.
\<close>

theorem scope_noninterference:
  assumes "New limits = Inr s0" and "s = mem_run L before s0" and "t = mem_run L others s"
    and "\<forall>op \<in> set others. op_scope op \<noteq> sc"
  shows "mem_Get L ctx sc i t = mem_Get L ctx sc i s \<and> mem_Sources L ctx sc i t = mem_Sources L ctx sc i s
    \<and> (rq_Scope rq = sc \<longrightarrow> Revisions L ctx rq t = Revisions L ctx rq s)
    \<and> (lq_Scope lq = sc \<longrightarrow> mem_List ctx lq t = mem_List ctx lq s)
    \<and> (cq_Scope cq = sc \<longrightarrow> SearchCandidates L ctx cq t = SearchCandidates L ctx cq s)"
proof -
  have inv: "mem_inv s" "mem_inv t" using mem_inv_reachable [OF assms(1)] mem_inv_run assms(2,3) by simp_all
  then have ids: "ids_ok s" "ids_ok t" by (simp_all add: mem_inv_def)
  have view: "same_view sc s t" using run_view [OF inv(1) assms(4)] assms(3) by simp
  then have lim: "ms_limits t = ms_limits s" and ent: "scope_entries sc t = scope_entries sc s"
    and at: "\<And>i m. memory_at s i = Some m \<Longrightarrow> mem_Scope m = sc \<Longrightarrow> sources_at t i = sources_at s i \<and> revisions_at t i = revisions_at s i"
    by (auto simp: same_view_def)
  have "mem_Get L ctx sc i t = mem_Get L ctx sc i s"
    unfolding mem_Get_def view_lookup [OF ids view] ..
  moreover have "mem_Sources L ctx sc i t = mem_Sources L ctx sc i s"
    unfolding mem_Sources_def by (subst view_lookup_cong [OF ids view]) (use at in auto)
  moreover have "Revisions L ctx rq t = Revisions L ctx rq s" if "rq_Scope rq = sc"
    unfolding Revisions_def lim that by (subst view_lookup_cong [OF ids view]) (use at in auto)
  moreover have "mem_List ctx lq t = mem_List ctx lq s" if "lq_Scope lq = sc"
    by (simp only: mem_List_def lim list_view [OF that] ent)
  ultimately show ?thesis using search_cong [OF ids(1) view] by blast
qed

section \<open>Candidate search\<close>

lemma metadata_strict: "strict_order candidateMetadataLess"
  by unfold_locales (auto simp: candidateMetadataLess_def Let_def split: if_splits)

interpretation metadata_order: strict_order candidateMetadataLess
  by (rule metadata_strict)

interpretation vector_order: strict_order vector_before
  by unfold_locales (auto simp: vector_before_def candidateMetadataLess_def Let_def split: if_splits)

lemma text_strict: "strict_order (text_before L q)"
  by unfold_locales (auto simp: text_before_def candidateMetadataLess_def Let_def split: if_splits)

lemma rank_ranks: "map can_Rank (rankCandidates cs n ch) = [1..int (length (rankCandidates cs n ch))]"
proof -
  have "map (\<lambda>x. int (fst x) + 1) (enumerate k xs) = [int k + 1..int k + int (length xs)]" for k and xs :: "Candidate list"
    by (induction xs arbitrary: k) (auto simp: upto_rec1 add.commute add.left_commute)
  from this [of 0 "take (nat n) cs"] show ?thesis by (simp add: rankCandidates_def comp_def case_prod_beta)
qed

lemma rank_length: "0 \<le> n \<Longrightarrow> int (length (rankCandidates cs n ch)) = min n (int (length cs))"
  by (simp add: rankCandidates_def)

lemma rank_set:
  assumes "c \<in> set (rankCandidates cs n ch)"
  shows "\<exists>d \<in> set (take (nat n) cs). can_Memory c = can_Memory d \<and> can_Sources c = can_Sources d
     \<and> can_Similarity c = can_Similarity d \<and> can_Channel c = ch"
proof -
  from assms obtain i d where "(i, d) \<in> set (enumerate 0 (take (nat n) cs))"
    and c: "c = d\<lparr>can_Sources := copySources (can_Sources d), can_Channel := ch, can_Rank := int i + 1\<rparr>"
    by (auto simp: rankCandidates_def)
  then have "d \<in> set (take (nat n) cs)"
    by (metis in_set_enumerate_eq add_0_right diff_zero fst_conv snd_conv nth_mem)
  with c show ?thesis by (intro bexI [of _ d]) simp_all
qed

lemma rank_covers:
  assumes "d \<in> set (take (nat n) cs)"
  shows "\<exists>c \<in> set (rankCandidates cs n ch). can_Memory c = can_Memory d"
proof -
  from assms obtain i where "i < length (take (nat n) cs)" "take (nat n) cs ! i = d" by (metis in_set_conv_nth)
  then have "(i, d) \<in> set (enumerate 0 (take (nat n) cs))" by (simp add: in_set_enumerate_eq)
  then have "d\<lparr>can_Sources := copySources (can_Sources d), can_Channel := ch, can_Rank := int i + 1\<rparr> \<in> set (rankCandidates cs n ch)"
    unfolding rankCandidates_def by (force simp: image_iff)
  then show ?thesis by (rule rev_bexI) simp
qed

lemma metadata_memory_cong:
  "can_Memory a = can_Memory a' \<Longrightarrow> can_Memory b = can_Memory b' \<Longrightarrow> candidateMetadataLess a b = candidateMetadataLess a' b'"
  by (simp add: candidateMetadataLess_def)

text \<open>A listing cut at its limit leaves out no better candidate than one it holds.\<close>

lemma rank_best:
  fixes ch
  assumes "0 \<le> n" and "d \<in> set cs"
  defines "ranked \<equiv> rankCandidates (sort_by candidateMetadataLess cs) n ch"
  shows "(\<exists>c \<in> set ranked. can_Memory c = can_Memory d)
    \<or> int (length ranked) = n \<and> (\<forall>c \<in> set ranked. \<not> candidateMetadataLess d c)"
proof (cases "d \<in> set (take (nat n) (sort_by candidateMetadataLess cs))")
  case True
  then show ?thesis unfolding ranked_def using rank_covers by blast
next
  case False
  let ?xs = "sort_by candidateMetadataLess cs"
  have xs: "?xs = take (nat n) ?xs @ drop (nat n) ?xs" by simp
  have d: "d \<in> set (drop (nat n) ?xs)" using False assms(2) xs by (metis Un_iff set_append set_sort_by)
  then have "nat n < length ?xs" by (cases "length ?xs \<le> nat n") auto
  then have "int (length ranked) = n" using assms(1) by (simp add: ranked_def rank_length)
  moreover have "\<not> candidateMetadataLess d c" if "c \<in> set ranked" for c
  proof -
    from rank_set [OF that [unfolded ranked_def]] obtain e where e: "e \<in> set (take (nat n) ?xs)" "can_Memory c = can_Memory e" by blast
    have "sorted_wrt (\<lambda>a b. \<not> candidateMetadataLess b a) (take (nat n) ?xs @ drop (nat n) ?xs)"
      using metadata_order.sorted_sort_by by simp
    then have "\<not> candidateMetadataLess d e" using e(1) d unfolding sorted_wrt_append by blast
    with e(2) metadata_memory_cong show ?thesis by blast
  qed
  ultimately show ?thesis by blast
qed

text \<open>What a candidate of a search stands for.\<close>

definition recalled :: "CandidateQuery \<Rightarrow> MemStore \<Rightarrow> Candidate \<Rightarrow> bool" where
  "recalled q s c = (let m = can_Memory c in
     memory_at s (mem_ID m) = Some m \<and> can_Sources c = sources_at s (mem_ID m) \<and> mem_Scope m = cq_Scope q
     \<and> mem_Status m = StatusActive \<and> mem_ValidFrom m \<le> cq_Now q \<and> (mem_ValidUntil m = 0 \<or> cq_Now q < mem_ValidUntil m)
     \<and> (cq_Kinds q = [] \<or> mem_Kind m \<in> set (cq_Kinds q)))"

lemma ids_ok_mem: "ids_ok s \<Longrightarrow> (i, m) \<in> set (ms_memories s) \<longleftrightarrow> memory_at s i = Some m"
  by (simp add: map_of_iff_mem)

lemma first_error_None: "first_error es = None \<longleftrightarrow> (\<forall>e \<in> set es. e = None)"
  by (induction es rule: first_error.induct) auto

lemma candidate_recalled:
  assumes "ids_ok s" and "(i, m) \<in> set (filter (\<lambda>(i, m). searchable q m) (ms_memories s))"
    and "can_Memory c = m" and "can_Sources c = sources_at s i"
  shows "recalled q s c"
proof -
  have "memory_at s i = Some m" and sm: "searchable q m" using assms(1,2) by (auto simp: ids_ok_mem)
  moreover then have "mem_ID m = i" by (simp add: ids_ok_id [OF assms(1)])
  ultimately show ?thesis using assms(3,4) by (auto simp: recalled_def searchable_def)
qed

lemma candidates_recalled:
  assumes "ids_ok s" and "es = filter (\<lambda>(i, m). searchable q m) (ms_memories s)"
  shows "c \<in> set (exact_candidates q s es) \<Longrightarrow> recalled q s c \<and> mem_Key (can_Memory c) \<in> set (cq_Keys q)"
    and "c \<in> set (text_candidates L q s es) \<Longrightarrow> recalled q s c \<and> term_hits L q (can_Memory c) > 0"
    and "c \<in> set (vector_candidates L q s es) \<Longrightarrow> recalled q s c \<and> the (cq_MinVectorSimilarity q) \<le> similarity_of c
      \<and> (\<exists>e. map_of (ms_embeddings s) (mem_ID (can_Memory c), cq_EmbeddingProfileID q) = Some e
           \<and> emb_contentHash e = hashMemoryContent L (mem_Content (can_Memory c)))"
proof -
  have rc: "recalled q s (candidate_of s x (i, m)) \<and> mem_ID m = i" if "(i, m) \<in> set es" for x i m
    using that candidate_recalled [OF assms(1), of i m q "candidate_of s x (i, m)"] assms
    by (auto simp: candidate_of_def ids_ok_mem dest: ids_ok_id)
  show "c \<in> set (exact_candidates q s es) \<Longrightarrow> recalled q s c \<and> mem_Key (can_Memory c) \<in> set (cq_Keys q)"
    using rc by (auto simp: exact_candidates_def split: if_splits) (simp add: candidate_of_def)
  show "c \<in> set (text_candidates L q s es) \<Longrightarrow> recalled q s c \<and> term_hits L q (can_Memory c) > 0"
    using rc by (auto simp: text_candidates_def Let_def split: if_splits) (simp add: candidate_of_def)
  assume "c \<in> set (vector_candidates L q s es)"
  then obtain i m sim where e: "(i, m) \<in> set es" "vector_match L q s (i, m) = Some sim" "c = candidate_of s sim (i, m)"
    by (auto simp: vector_candidates_def split: if_splits option.splits) metis
  have "sim \<ge> the (cq_MinVectorSimilarity q) \<and> (\<exists>e. map_of (ms_embeddings s) (i, cq_EmbeddingProfileID q) = Some e
      \<and> emb_contentHash e = hashMemoryContent L (mem_Content m))"
    using e(2) by (auto simp: vector_match_def split: option.splits if_splits)
  with rc [OF e(1)] e(3) show "recalled q s c \<and> the (cq_MinVectorSimilarity q) \<le> similarity_of c
      \<and> (\<exists>e. map_of (ms_embeddings s) (mem_ID (can_Memory c), cq_EmbeddingProfileID q) = Some e
           \<and> emb_contentHash e = hashMemoryContent L (mem_Content (can_Memory c)))"
    by (simp add: candidate_of_def similarity_of_def)
qed

lemma rank_sorted:
  assumes "c \<in> set (rankCandidates (sort_by lt xs) n ch)"
  obtains d where "d \<in> set xs" "can_Memory c = can_Memory d" "can_Sources c = can_Sources d" "can_Similarity c = can_Similarity d"
  using rank_set [OF assms] in_set_takeD by (metis set_sort_by)

lemma rank_all:
  assumes "\<And>d. d \<in> set xs \<Longrightarrow> P d"
    and "\<And>c d. P d \<Longrightarrow> can_Memory c = can_Memory d \<Longrightarrow> can_Sources c = can_Sources d \<Longrightarrow> can_Similarity c = can_Similarity d \<Longrightarrow> P c"
  shows "\<forall>c \<in> set (rankCandidates (sort_by lt xs) n ch). P c"
  using assms rank_sorted by metis

text \<open>A search recalls only what it may: every candidate is a stored memory of the query's
  scope, active, valid at the time of the query and of a wanted kind, with its sources; an exact
  match has one of the keys, a text match contains a term, and a vector match has an embedding of
  its present content that is similar enough. Each channel is ranked 1, 2, ... within its limit,
  and the exact channel leaves out no memory that should come before one it lists.
\<close>

theorem search_sound:
  assumes "New limits = Inr s0" and "s = mem_run L ops s0" and "SearchCandidates L ctx q s = Inr cs"
  shows "(\<forall>c \<in> set (cs_Exact cs). recalled q s c \<and> mem_Key (can_Memory c) \<in> set (cq_Keys q))
    \<and> (\<forall>c \<in> set (cs_FullText cs). recalled q s c \<and> term_hits L q (can_Memory c) > 0)
    \<and> (\<forall>c \<in> set (cs_Vector cs). recalled q s c \<and> the (cq_MinVectorSimilarity q) \<le> similarity_of c
         \<and> (\<exists>e. map_of (ms_embeddings s) (mem_ID (can_Memory c), cq_EmbeddingProfileID q) = Some e
              \<and> emb_contentHash e = hashMemoryContent L (mem_Content (can_Memory c))))
    \<and> (\<forall>(xs, n) \<in> {(cs_Exact cs, cq_ExactLimit q), (cs_FullText cs, cq_FullTextLimit q), (cs_Vector cs, cq_VectorLimit q)}.
         map can_Rank xs = [1..int (length xs)] \<and> int (length xs) \<le> n)
    \<and> (\<forall>c. recalled q s c \<and> mem_Key (can_Memory c) \<in> set (cq_Keys q) \<and> cq_ExactLimit q > 0 \<longrightarrow>
         (\<exists>d \<in> set (cs_Exact cs). can_Memory d = can_Memory c)
         \<or> int (length (cs_Exact cs)) = cq_ExactLimit q \<and> (\<forall>d \<in> set (cs_Exact cs). \<not> candidateMetadataLess c d))"
proof -
  have "mem_inv s" using mem_inv_reachable [OF assms(1)] assms(2) by simp
  then have ids: "ids_ok s" by (simp add: mem_inv_def)
  let ?es = "filter (\<lambda>(i, m). searchable q m) (ms_memories s)"
  have cs: "cs_Exact cs = rankCandidates (sort_by candidateMetadataLess (exact_candidates q s ?es)) (cq_ExactLimit q) ''exact''"
    "cs_FullText cs = rankCandidates (sort_by (text_before L q) (text_candidates L q s ?es)) (cq_FullTextLimit q) ''full_text''"
    "cs_Vector cs = rankCandidates (sort_by vector_before (vector_candidates L q s ?es)) (cq_VectorLimit q) ''vector''"
    and valid: "ValidateCandidateQuery L q (ms_limits s) = None"
    using assms(3) by (auto simp: SearchCandidates_def entry_error_def Let_def split: option.splits)
  have lim: "0 \<le> cq_ExactLimit q" "0 \<le> cq_FullTextLimit q" "0 \<le> cq_VectorLimit q"
    using valid by (simp_all add: ValidateCandidateQuery_def check_def Let_def first_error_None split: if_splits)
  note rc = candidates_recalled [OF ids refl]
  show ?thesis
  proof (intro conjI)
    show "\<forall>c \<in> set (cs_Exact cs). recalled q s c \<and> mem_Key (can_Memory c) \<in> set (cq_Keys q)"
      unfolding cs by (rule rank_all) (use rc(1) in \<open>auto simp: recalled_def\<close>)
    show "\<forall>c \<in> set (cs_FullText cs). recalled q s c \<and> term_hits L q (can_Memory c) > 0"
      unfolding cs by (rule rank_all) (use rc(2) in \<open>auto simp: recalled_def\<close>)
    show "\<forall>c \<in> set (cs_Vector cs). recalled q s c \<and> the (cq_MinVectorSimilarity q) \<le> similarity_of c
         \<and> (\<exists>e. map_of (ms_embeddings s) (mem_ID (can_Memory c), cq_EmbeddingProfileID q) = Some e
              \<and> emb_contentHash e = hashMemoryContent L (mem_Content (can_Memory c)))"
      unfolding cs by (rule rank_all) (use rc(3) in \<open>auto simp: recalled_def similarity_of_def\<close>)
    show "\<forall>(xs, n) \<in> {(cs_Exact cs, cq_ExactLimit q), (cs_FullText cs, cq_FullTextLimit q), (cs_Vector cs, cq_VectorLimit q)}.
         map can_Rank xs = [1..int (length xs)] \<and> int (length xs) \<le> n"
      using lim by (simp add: cs rank_ranks rank_length)
    show "\<forall>c. recalled q s c \<and> mem_Key (can_Memory c) \<in> set (cq_Keys q) \<and> cq_ExactLimit q > 0 \<longrightarrow>
         (\<exists>d \<in> set (cs_Exact cs). can_Memory d = can_Memory c)
         \<or> int (length (cs_Exact cs)) = cq_ExactLimit q \<and> (\<forall>d \<in> set (cs_Exact cs). \<not> candidateMetadataLess c d)"
    proof (intro allI impI)
      fix c assume c: "recalled q s c \<and> mem_Key (can_Memory c) \<in> set (cq_Keys q) \<and> cq_ExactLimit q > 0"
      let ?d = "candidate_of s 0 (mem_ID (can_Memory c), can_Memory c)"
      have m: "can_Memory ?d = can_Memory c" by (simp add: candidate_of_def)
      have "(mem_ID (can_Memory c), can_Memory c) \<in> set ?es"
        using c ids_ok_mem [OF ids] by (auto simp: recalled_def searchable_def Let_def)
      then have "?d \<in> set (exact_candidates q s ?es)"
        unfolding exact_candidates_def using c by auto
      from rank_best [OF lim(1) this, of "''exact''"]
      show "(\<exists>d \<in> set (cs_Exact cs). can_Memory d = can_Memory c)
         \<or> int (length (cs_Exact cs)) = cq_ExactLimit q \<and> (\<forall>d \<in> set (cs_Exact cs). \<not> candidateMetadataLess c d)"
        unfolding cs [symmetric] m using metadata_memory_cong [OF m refl] by blast
    qed
  qed
qed

section \<open>Examples\<close>

definition demo_query :: "string \<Rightarrow> CandidateQuery" where
  "demo_query tenant = \<lparr>cq_Scope = demo_scope tenant, cq_Text = '''', cq_Keys = [''k''], cq_Kinds = [], cq_QueryVector = [], cq_Now = 9,
     cq_ExactLimit = 2, cq_FullTextLimit = 0, cq_VectorLimit = 0, cq_MinVectorSimilarity = Some 0, cq_EmbeddingProfileID = '''',
     cq_EmbeddingDimensions = 0\<rparr>"

theorem scope_noninterference_witness:
  "mem_Get demo_mem_libs live_ctx (demo_scope ''z'') ''i'' (mem_run demo_mem_libs [OpCreate live_ctx (demo_create ''t'' ''i'')] demo_mem_store)
     = mem_Get demo_mem_libs live_ctx (demo_scope ''z'') ''i'' demo_mem_store"
  using scope_noninterference [OF demo_new, of demo_mem_store demo_mem_libs "[]" _ "[OpCreate live_ctx (demo_create ''t'' ''i'')]" "demo_scope ''z''" live_ctx "''i''"]
  by (simp add: demo_scope_def)

theorem search_sound_witness:
  "\<exists>cs. SearchCandidates demo_mem_libs live_ctx (demo_query ''t'') demo_first = Inr cs
     \<and> (\<forall>c \<in> set (cs_Exact cs). recalled (demo_query ''t'') demo_first c) \<and> cs_Exact cs \<noteq> []"
proof -
  have run: "mem_run demo_mem_libs [OpCreate live_ctx (demo_create ''t'' ''i'')] demo_mem_store = demo_first"
    by (simp add: demo_mem_created)
  have v: "ValidateCandidateQuery demo_mem_libs (demo_query ''t'') demo_limits = None"
    by (simp add: demo_checks demo_texts demo_query_def)
  then obtain cs where cs: "SearchCandidates demo_mem_libs live_ctx (demo_query ''t'') demo_first = Inr cs"
    by (simp add: SearchCandidates_def entry_error_def Let_def)
  let ?c = "candidate_of demo_first 0 (''i'', request_memory (demo_create ''t'' ''i''))"
  have "recalled (demo_query ''t'') demo_first ?c" "mem_Key (can_Memory ?c) \<in> set (cq_Keys (demo_query ''t''))" "0 < cq_ExactLimit (demo_query ''t'')"
    by (simp_all add: recalled_def candidate_of_def) (simp_all add: demo_query_def demo_create_def request_memory_def)
  with search_sound [OF demo_new run [symmetric] cs] cs show ?thesis
    by (auto simp: demo_query_def)
qed

end
