(* ===== verification/Memory_Recall.thy ===== *)
theory Memory_Recall
  imports Memory_Scopes
begin

text \<open>
  \<open>memorykit/recall.go\<close>: hybrid recall over an untrusted store. The policy and the request are
  validated, the text is embedded, the store is searched, what it returns is validated candidate by
  candidate, the channels are fused by reciprocal rank, and items are taken while they fit the
  token budget.

  The embedder, the store's search, the token counter and the JSON encoding are arguments. The
  deadline context is read many times during a recall and may fail at any of them: \<open>ctx n\<close> is its
  value at the \<open>n\<close>-th read, and a computation of type \<open>'a recall\<close> counts the reads.
\<close>

section \<open>Errors and the reads of the context\<close>

text \<open>
  An error of the embedder or the store: a context error, a backend error, a channel error, or any
  other error with the errors it wraps.
\<close>

datatype dep_error =
    DepCtx ctx_error
  | BackendError string bool dep_error
  | ChannelError Channel dep_error
  | DepOther string "dep_error list"

fun dep_chain :: "dep_error \<Rightarrow> dep_error list" where
  "dep_chain (DepCtx e) = [DepCtx e]"
| "dep_chain (BackendError op rec e) = BackendError op rec e # dep_chain e"
| "dep_chain (ChannelError ch e) = ChannelError ch e # dep_chain e"
| "dep_chain (DepOther t es) = DepOther t es # concat (map dep_chain es)"

fun backend_flag :: "dep_error \<Rightarrow> bool option" where
  "backend_flag (BackendError op rec e) = Some rec"
| "backend_flag _ = None"

fun channel_tag :: "dep_error \<Rightarrow> Channel option" where
  "channel_tag (ChannelError ch e) = Some ch"
| "channel_tag _ = None"

text \<open>\<open>errors.As\<close>: the first error of the chain that has the type.\<close>

definition first_some :: "(dep_error \<Rightarrow> 'a option) \<Rightarrow> dep_error \<Rightarrow> 'a option" where
  "first_some f err = (case List.find (\<lambda>e. f e \<noteq> None) (dep_chain err) of Some e \<Rightarrow> f e | None \<Rightarrow> None)"

definition IsRecoverable :: "dep_error \<Rightarrow> bool" where
  "IsRecoverable err = (first_some backend_flag err = Some True)"

text \<open>What recall itself returns: no error of it carries the text of a dependency's error.\<close>

datatype RecallError =
    RecallMem MemError
  | ErrInvalidRecallResult
  | RecallDependency bool "Channel option"

type_synonym 'a recall = "nat \<Rightarrow> (RecallError + 'a) \<times> nat"

definition rreturn :: "'a \<Rightarrow> 'a recall" where
  "rreturn x n = (Inr x, n)"

definition rfail :: "RecallError \<Rightarrow> 'a recall" where
  "rfail e n = (Inl e, n)"

definition rbind :: "'a recall \<Rightarrow> ('a \<Rightarrow> 'b recall) \<Rightarrow> 'b recall" where
  "rbind m f n = (case m n of (Inl e, n') \<Rightarrow> (Inl e, n') | (Inr x, n') \<Rightarrow> f x n')"

definition read_ctx :: "(nat \<Rightarrow> ctx) \<Rightarrow> unit recall" where
  "read_ctx ctx n = (case ctx n of Some e \<Rightarrow> (Inl (RecallMem (MemCtx e)), n + 1) | None \<Rightarrow> (Inr (), n + 1))"

definition dependencyContextError :: "dep_error \<Rightarrow> ctx_error option" where
  "dependencyContextError err =
     (if DepCtx Canceled \<in> set (dep_chain err) then Some Canceled
      else if DepCtx DeadlineExceeded \<in> set (dep_chain err) then Some DeadlineExceeded else None)"

abbreviation ChannelExact :: Channel where "ChannelExact \<equiv> ''exact''"
abbreviation ChannelFullText :: Channel where "ChannelFullText \<equiv> ''full_text''"
abbreviation ChannelVector :: Channel where "ChannelVector \<equiv> ''vector''"

definition validChannel :: "Channel \<Rightarrow> bool" where
  "validChannel ch \<longleftrightarrow> ch = ChannelExact \<or> ch = ChannelFullText \<or> ch = ChannelVector"

definition safeRecallDependencyError :: "dep_error \<Rightarrow> RecallError" where
  "safeRecallDependencyError err = (case dependencyContextError err of
      Some e \<Rightarrow> RecallMem (MemCtx e)
    | None \<Rightarrow> RecallDependency (IsRecoverable err)
        (case first_some channel_tag err of
           Some ch \<Rightarrow> if validChannel ch then Some ch else None
         | None \<Rightarrow> None))"

section \<open>Policy and request\<close>

record RecallPolicy =
  rp_Version :: string
  rp_ExactLimit :: int
  rp_FullTextLimit :: int
  rp_VectorLimit :: int
  rp_RRFK :: float_value
  rp_MinVectorSimilarity :: float_value
  rp_MaxItems :: int
  rp_MaxTokens :: int
  rp_MaxQueryRunes :: int
  rp_MaxKeys :: int
  rp_Deadline :: duration
  rp_EmbeddingProfileID :: string
  rp_EmbeddingDimensions :: int

record RecallRequest =
  rr_Scope :: Scope
  rr_Text :: string
  rr_Keys :: "string list"
  rr_Kinds :: "Kind list"
  rr_Now :: time

record RecallItem =
  ri_Memory :: Memory
  ri_Sources :: "Source list"

record RecallResult =
  rs_Items :: "RecallItem list"
  rs_DegradedChannels :: "Channel list"
  rs_PolicyVersion :: string

text \<open>The record whose JSON is counted.\<close>

record canonicalRecallRecord =
  cr_ID :: string
  cr_Kind :: Kind
  cr_Key :: string
  cr_Content :: string
  cr_SourceRefs :: "string list"

record Recaller =
  rc_search :: "CandidateQuery \<Rightarrow> CandidateSet \<times> dep_error option"
  rc_embed :: "(string \<Rightarrow> string list \<Rightarrow> dep_error + float_value list list) option"
  rc_countTokens :: "string \<Rightarrow> int"
  rc_policy :: RecallPolicy
  rc_json :: "canonicalRecallRecord \<Rightarrow> string option"

definition RecallPolicy_Validate :: "RecallPolicy \<Rightarrow> MemError option" where
  "RecallPolicy_Validate p =
     (if TrimSpace (rp_Version p) = '''' \<or> rp_Version p \<noteq> TrimSpace (rp_Version p)
       \<or> rp_ExactLimit p < 0 \<or> rp_FullTextLimit p < 0 \<or> rp_VectorLimit p < 0
       \<or> (rp_ExactLimit p = 0 \<and> rp_FullTextLimit p = 0 \<and> rp_VectorLimit p = 0)
       \<or> (case rp_RRFK p of None \<Rightarrow> True | Some k \<Rightarrow> k \<le> 0)
       \<or> (case rp_MinVectorSimilarity p of None \<Rightarrow> True | Some v \<Rightarrow> v < 0 \<or> v > 1)
       \<or> rp_MaxItems p \<le> 0 \<or> rp_MaxTokens p \<le> 0 \<or> rp_MaxQueryRunes p \<le> 0 \<or> rp_MaxKeys p \<le> 0
       \<or> rp_Deadline p \<le> 0 \<or> TrimSpace (rp_EmbeddingProfileID p) = ''''
       \<or> rp_EmbeddingProfileID p \<noteq> TrimSpace (rp_EmbeddingProfileID p) \<or> rp_EmbeddingDimensions p \<le> 0
      then Some (ErrInvalidMemory ''invalid recall policy'') else None)"

text \<open>\<open>NewRecaller\<close>: the store's search and the token counter are given, so only the embedder may be missing.\<close>

definition NewRecaller :: "Recaller \<Rightarrow> MemError + Recaller" where
  "NewRecaller config = (case RecallPolicy_Validate (rc_policy config) of
      Some e \<Rightarrow> Inl e
    | None \<Rightarrow>
        if rp_VectorLimit (rc_policy config) > 0 \<and> rc_embed config = None
        then Inl (ErrInvalidMemory ''incomplete recall configuration'') else Inr config)"

fun recall_key_error :: "string list \<Rightarrow> string list \<Rightarrow> MemError option" where
  "recall_key_error seen [] = None"
| "recall_key_error seen (k # ks) =
     (if TrimSpace k = '''' then Some (ErrInvalidMemory ''blank recall key'')
      else if k \<in> set seen then Some (ErrInvalidMemory ''duplicate recall key'')
      else recall_key_error (k # seen) ks)"

fun recall_kind_error :: "Kind list \<Rightarrow> Kind list \<Rightarrow> MemError option" where
  "recall_kind_error seen [] = None"
| "recall_kind_error seen (k # ks) =
     (if \<not> Kind_IsValid k then Some (ErrInvalidMemory ''invalid recall kind'')
      else if k \<in> set seen then Some (ErrInvalidMemory ''duplicate recall kind'')
      else recall_kind_error (k # seen) ks)"

definition validateAndCopyRequest :: "Recaller \<Rightarrow> RecallRequest \<Rightarrow> MemError option" where
  "validateAndCopyRequest r request = first_error
     [Scope_Validate (rr_Scope request),
      check (\<not> ((TrimSpace (rr_Text request) = '''' \<and> rr_Keys request = [])
        \<or> int (rune_count (rr_Text request)) > rp_MaxQueryRunes (rc_policy r)
        \<or> int (length (rr_Keys request)) > rp_MaxKeys (rc_policy r))) ''invalid recall request'',
      recall_key_error [] (rr_Keys request), recall_kind_error [] (rr_Kinds request)]"

section \<open>Validating what the store returned\<close>

fun source_refs :: "string list \<Rightarrow> Source list \<Rightarrow> RecallError + string list" where
  "source_refs refs [] = Inr (sort_by (\<lambda>a b. a < b) refs)"
| "source_refs refs (s # ss) =
     (if TrimSpace (src_Kind s) = '''' \<or> TrimSpace (src_Ref s) = '''' then Inl ErrInvalidRecallResult
      else if src_Ref s \<in> set refs then source_refs refs ss
      else source_refs (refs @ [src_Ref s]) ss)"

definition normalizedSourceRefs :: "Source list \<Rightarrow> RecallError + string list" where
  "normalizedSourceRefs sources = source_refs [] sources"

record candidateSetChannel =
  ch_channel :: Channel
  ch_candidates :: "Candidate list"
  ch_limit :: int
  ch_enabled :: bool

record recalledIdentity =
  id_memory :: Memory
  id_sourceRefs :: "string list"

definition set_channels :: "CandidateSet \<Rightarrow> CandidateQuery \<Rightarrow> candidateSetChannel list" where
  "set_channels cs q =
     [\<lparr>ch_channel = ChannelExact, ch_candidates = cs_Exact cs, ch_limit = cq_ExactLimit q,
       ch_enabled = (cq_ExactLimit q > 0 \<and> cq_Keys q \<noteq> [])\<rparr>,
      \<lparr>ch_channel = ChannelFullText, ch_candidates = cs_FullText cs, ch_limit = cq_FullTextLimit q,
       ch_enabled = (cq_FullTextLimit q > 0 \<and> TrimSpace (cq_Text q) \<noteq> '''')\<rparr>,
      \<lparr>ch_channel = ChannelVector, ch_candidates = cs_Vector cs, ch_limit = cq_VectorLimit q,
       ch_enabled = (cq_VectorLimit q > 0 \<and> cq_QueryVector q \<noteq> [])\<rparr>]"

text \<open>The checks of a candidate on its own.\<close>

definition well_formed :: "CandidateQuery \<Rightarrow> candidateSetChannel \<Rightarrow> Candidate \<Rightarrow> bool" where
  "well_formed q listed c \<longleftrightarrow>
     \<not> (can_Channel c \<noteq> ch_channel listed \<or> can_Rank c \<le> 0 \<or> can_Rank c > ch_limit listed
        \<or> TrimSpace (mem_ID (can_Memory c)) = '''')"

definition well_formed_memory :: "CandidateQuery \<Rightarrow> Memory \<Rightarrow> bool" where
  "well_formed_memory q m \<longleftrightarrow>
     \<not> (mem_Scope m \<noteq> cq_Scope q \<or> \<not> Kind_IsValid (mem_Kind m) \<or> \<not> MemStatus_IsValid (mem_Status m)
        \<or> TrimSpace (mem_Key m) = '''' \<or> TrimSpace (mem_Content m) = ''''
        \<or> mem_Importance m < 0 \<or> mem_Importance m > 100
        \<or> (case mem_Confidence m of None \<Rightarrow> True | Some v \<Rightarrow> v < 0 \<or> v > 1)
        \<or> mem_Version m \<le> 0 \<or> (mem_ValidUntil m \<noteq> 0 \<and> \<not> mem_ValidUntil m > mem_ValidFrom m))"

definition similarity_ok :: "candidateSetChannel \<Rightarrow> Candidate \<Rightarrow> bool" where
  "similarity_ok listed c \<longleftrightarrow> ch_channel listed \<noteq> ChannelVector
     \<or> \<not> (case can_Similarity c of None \<Rightarrow> True | Some v \<Rightarrow> v < 0 \<or> v > 1)"

definition current :: "CandidateQuery \<Rightarrow> Memory \<Rightarrow> bool" where
  "current q m \<longleftrightarrow> \<not> (mem_Status m \<noteq> StatusActive \<or> cq_Now q < mem_ValidFrom m
     \<or> (mem_ValidUntil m \<noteq> 0 \<and> \<not> cq_Now q < mem_ValidUntil m))"

definition kept :: "CandidateQuery \<Rightarrow> candidateSetChannel \<Rightarrow> Candidate \<Rightarrow> bool" where
  "kept q listed c \<longleftrightarrow> current q (can_Memory c)
     \<and> \<not> (ch_channel listed = ChannelVector
          \<and> (case (can_Similarity c, cq_MinVectorSimilarity q) of (Some v, Some mn) \<Rightarrow> v < mn | _ \<Rightarrow> False))"

type_synonym identities = "(string, recalledIdentity) gomap"

text \<open>The body of the inner loop: the error, or the identities with the candidate's one.\<close>

definition check_candidate ::
  "CandidateQuery \<Rightarrow> candidateSetChannel \<Rightarrow> string list \<Rightarrow> identities \<Rightarrow> Candidate \<Rightarrow> RecallError + identities" where
  "check_candidate q listed seen ids c =
     (if \<not> well_formed q listed c then Inl ErrInvalidRecallResult
      else if mem_ID (can_Memory c) \<in> set seen then Inl ErrInvalidRecallResult
      else if \<not> well_formed_memory q (can_Memory c) then Inl ErrInvalidRecallResult
      else case normalizedSourceRefs (can_Sources c) of
             Inl e \<Rightarrow> Inl e
           | Inr refs \<Rightarrow>
               if \<not> similarity_ok listed c then Inl ErrInvalidRecallResult
               else case map_of ids (mem_ID (can_Memory c)) of
                      Some previous \<Rightarrow>
                        if id_memory previous \<noteq> can_Memory c \<or> id_sourceRefs previous \<noteq> refs
                        then Inl ErrInvalidRecallResult else Inr ids
                    | None \<Rightarrow> Inr (AList.update (mem_ID (can_Memory c))
                        \<lparr>id_memory = can_Memory c, id_sourceRefs = refs\<rparr> ids))"

text \<open>The inner loop: the seen IDs of the channel, the identities over all channels, the kept candidates.\<close>

fun validate_candidates ::
  "(nat \<Rightarrow> ctx) \<Rightarrow> CandidateQuery \<Rightarrow> candidateSetChannel \<Rightarrow> string list \<Rightarrow> identities \<Rightarrow> Candidate list \<Rightarrow> Candidate list
    \<Rightarrow> (identities \<times> Candidate list) recall" where
  "validate_candidates ctx q listed seen ids acc [] = rreturn (ids, acc)"
| "validate_candidates ctx q listed seen ids acc (c # cs) =
     rbind (read_ctx ctx) (\<lambda>_. case check_candidate q listed seen ids c of
         Inl e \<Rightarrow> rfail e
       | Inr ids' \<Rightarrow> validate_candidates ctx q listed (mem_ID (can_Memory c) # seen) ids'
           (if kept q listed c then acc @ [c] else acc) cs)"

fun validate_channels ::
  "(nat \<Rightarrow> ctx) \<Rightarrow> CandidateQuery \<Rightarrow> identities \<Rightarrow> candidateSetChannel list \<Rightarrow> Candidate list list recall" where
  "validate_channels ctx q ids [] = rreturn []"
| "validate_channels ctx q ids (listed # rest) =
     rbind (read_ctx ctx) (\<lambda>_.
       if (\<not> ch_enabled listed \<and> ch_candidates listed \<noteq> []) \<or> int (length (ch_candidates listed)) > ch_limit listed
       then rfail ErrInvalidRecallResult
       else rbind (validate_candidates ctx q listed [] ids [] (ch_candidates listed)) (\<lambda>(ids, validated).
              rbind (validate_channels ctx q ids rest) (\<lambda>others. rreturn (validated # others))))"

definition validateCandidateSet :: "(nat \<Rightarrow> ctx) \<Rightarrow> CandidateSet \<Rightarrow> CandidateQuery \<Rightarrow> Candidate list list recall" where
  "validateCandidateSet ctx cs q =
     rbind (validate_channels ctx q [] (set_channels cs q)) (\<lambda>validated.
       rbind (read_ctx ctx) (\<lambda>_. rreturn validated))"


section \<open>Fusion\<close>

record fusedRecallItem =
  fu_item :: RecallItem
  fu_score :: rat

definition add_rank :: "mem_libs \<Rightarrow> rat \<Rightarrow> Candidate \<Rightarrow> (string, fusedRecallItem) gomap \<Rightarrow> (string, fusedRecallItem) gomap" where
  "add_rank L k c byID =
     (let i = mem_ID (can_Memory c);
          fused = (case map_of byID i of
              Some fused \<Rightarrow> fused
            | None \<Rightarrow> \<lparr>fu_item = \<lparr>ri_Memory = can_Memory c, ri_Sources = can_Sources c\<rparr>, fu_score = 0\<rparr>)
      in AList.update i (fused\<lparr>fu_score := ml_round L (fu_score fused
           + ml_round L (1 / ml_round L (k + of_int (can_Rank c))))\<rparr>) byID)"

fun fuse_candidates ::
  "mem_libs \<Rightarrow> (nat \<Rightarrow> ctx) \<Rightarrow> rat \<Rightarrow> (string, fusedRecallItem) gomap \<Rightarrow> Candidate list
    \<Rightarrow> (string, fusedRecallItem) gomap recall" where
  "fuse_candidates L ctx k byID [] = rreturn byID"
| "fuse_candidates L ctx k byID (c # cs) =
     rbind (read_ctx ctx) (\<lambda>_. fuse_candidates L ctx k (add_rank L k c byID) cs)"

definition fused_before :: "fusedRecallItem \<Rightarrow> fusedRecallItem \<Rightarrow> bool" where
  "fused_before a b =
     (if fu_score a \<noteq> fu_score b then fu_score a > fu_score b
      else let l = ri_Memory (fu_item a); r = ri_Memory (fu_item b) in
        if mem_Importance l \<noteq> mem_Importance r then mem_Importance l > mem_Importance r
        else if mem_UpdatedAt l \<noteq> mem_UpdatedAt r then mem_UpdatedAt l > mem_UpdatedAt r
        else mem_ID l < mem_ID r)"

definition rrfk :: "Recaller \<Rightarrow> rat" where
  "rrfk r = (case rp_RRFK (rc_policy r) of Some k \<Rightarrow> k | None \<Rightarrow> 0)"

definition fuse :: "mem_libs \<Rightarrow> (nat \<Rightarrow> ctx) \<Rightarrow> Recaller \<Rightarrow> Candidate list list \<Rightarrow> RecallItem list recall" where
  "fuse L ctx r channels =
     rbind (read_ctx ctx) (\<lambda>_.
       rbind (fuse_candidates L ctx (rrfk r) [] (concat channels)) (\<lambda>byID.
         rbind (read_ctx ctx) (\<lambda>_.
           let ranked = sort_by fused_before (map snd byID)
           in rbind (read_ctx ctx) (\<lambda>_. rreturn (map fu_item ranked)))))"

section \<open>Recall\<close>

definition canonicalRecallPayload :: "Recaller \<Rightarrow> RecallItem \<Rightarrow> RecallError + string" where
  "canonicalRecallPayload r item = (case normalizedSourceRefs (ri_Sources item) of
      Inl e \<Rightarrow> Inl e
    | Inr refs \<Rightarrow> (case rc_json r \<lparr>cr_ID = mem_ID (ri_Memory item), cr_Kind = mem_Kind (ri_Memory item),
          cr_Key = mem_Key (ri_Memory item), cr_Content = mem_Content (ri_Memory item), cr_SourceRefs = refs\<rparr> of
        None \<Rightarrow> Inl (RecallMem (ErrInvalidMemory ''encode recall token payload''))
      | Some payload \<Rightarrow> Inr payload))"

text \<open>The budget loop.\<close>

fun take_items ::
  "(nat \<Rightarrow> ctx) \<Rightarrow> Recaller \<Rightarrow> int \<Rightarrow> RecallItem list \<Rightarrow> RecallItem list \<Rightarrow> RecallItem list recall" where
  "take_items ctx r remainingTokens items [] = rreturn items"
| "take_items ctx r remainingTokens items (item # rest) =
     (if int (length items) = rp_MaxItems (rc_policy r) then rreturn items
      else case canonicalRecallPayload r item of
             Inl e \<Rightarrow> rfail e
           | Inr payload \<Rightarrow>
               (let cost = rc_countTokens r payload
                in rbind (read_ctx ctx) (\<lambda>_.
                     if cost < 0 then rfail (RecallMem (ErrInvalidMemory ''token counter returned a negative value''))
                     else if cost > remainingTokens then take_items ctx r remainingTokens items rest
                     else take_items ctx r (remainingTokens - cost) (items @ [item]) rest)))"

definition validateEmbeddingResult :: "mem_libs \<Rightarrow> float_value list list \<Rightarrow> int \<Rightarrow> MemError + float_value list" where
  "validateEmbeddingResult L vectors dimensions = (case vectors of
      [v] \<Rightarrow> if int (length v) \<noteq> dimensions \<or> \<not> validVector L v
             then Inl (ErrInvalidMemory ''invalid embedding result'') else Inr v
    | _ \<Rightarrow> Inl (ErrInvalidMemory ''invalid embedding result''))"

definition base_query :: "Recaller \<Rightarrow> RecallRequest \<Rightarrow> CandidateQuery" where
  "base_query r request =
     \<lparr>cq_Scope = rr_Scope request, cq_Text = rr_Text request, cq_Keys = rr_Keys request, cq_Kinds = rr_Kinds request,
      cq_QueryVector = [], cq_Now = rr_Now request, cq_ExactLimit = rp_ExactLimit (rc_policy r),
      cq_FullTextLimit = (if TrimSpace (rr_Text request) = '''' then 0 else rp_FullTextLimit (rc_policy r)),
      cq_VectorLimit = 0, cq_MinVectorSimilarity = Some 0, cq_EmbeddingProfileID = '''', cq_EmbeddingDimensions = 0\<rparr>"

text \<open>The query with the embedded text, and whether the vector channel is degraded.\<close>

definition embed_query :: "mem_libs \<Rightarrow> (nat \<Rightarrow> ctx) \<Rightarrow> Recaller \<Rightarrow> RecallRequest \<Rightarrow> (CandidateQuery \<times> bool) recall" where
  "embed_query L ctx r request =
     (let query = base_query r request; p = rc_policy r in
      case rc_embed r of
        Some embedder \<Rightarrow>
          if rp_VectorLimit p > 0 \<and> TrimSpace (rr_Text request) \<noteq> '''' then
            (let embedded = embedder (rp_EmbeddingProfileID p) [rr_Text request]
             in rbind (read_ctx ctx) (\<lambda>_. case embedded of
                  Inl embedErr \<Rightarrow> (case dependencyContextError embedErr of
                      Some e \<Rightarrow> rfail (RecallMem (MemCtx e))
                    | None \<Rightarrow> if \<not> IsRecoverable embedErr then rfail (safeRecallDependencyError embedErr)
                              else rreturn (query, True))
                | Inr vectors \<Rightarrow> (case validateEmbeddingResult L vectors (rp_EmbeddingDimensions p) of
                      Inl e \<Rightarrow> rfail (RecallMem e)
                    | Inr vector \<Rightarrow> rreturn (query\<lparr>cq_QueryVector := vector, cq_VectorLimit := rp_VectorLimit p,
                        cq_MinVectorSimilarity := rp_MinVectorSimilarity p,
                        cq_EmbeddingProfileID := rp_EmbeddingProfileID p,
                        cq_EmbeddingDimensions := rp_EmbeddingDimensions p\<rparr>, False))))
          else rreturn (query, False)
      | None \<Rightarrow> rreturn (query, False))"

text \<open>What an error of the search means: fatal, or a degraded vector channel.\<close>

definition search_verdict :: "CandidateQuery \<Rightarrow> CandidateSet \<Rightarrow> dep_error \<Rightarrow> RecallError option" where
  "search_verdict q cs searchErr = (case dependencyContextError searchErr of
      Some e \<Rightarrow> Some (RecallMem (MemCtx e))
    | None \<Rightarrow>
        (let channelErr = first_some channel_tag searchErr;
             vectorEnabled = (cq_VectorLimit q > 0 \<and> cq_QueryVector q \<noteq> [])
         in if (case channelErr of Some ch \<Rightarrow> \<not> validChannel ch | None \<Rightarrow> False) then Some ErrInvalidRecallResult
            else if channelErr = Some ChannelVector \<and> IsRecoverable searchErr
                    \<and> (\<not> vectorEnabled \<or> cs_Vector cs \<noteq> []) then Some ErrInvalidRecallResult
            else if channelErr \<noteq> Some ChannelVector \<or> \<not> IsRecoverable searchErr
            then Some (safeRecallDependencyError searchErr)
            else None))"

definition finish_recall :: "(nat \<Rightarrow> ctx) \<Rightarrow> RecallResult \<Rightarrow> RecallResult recall" where
  "finish_recall ctx result = rbind (read_ctx ctx) (\<lambda>_. rreturn result)"

definition search_and_fuse ::
  "mem_libs \<Rightarrow> (nat \<Rightarrow> ctx) \<Rightarrow> Recaller \<Rightarrow> CandidateQuery \<Rightarrow> bool \<Rightarrow> RecallResult recall" where
  "search_and_fuse L ctx r query degraded =
     (case rc_search r query of (cs, searchErr) \<Rightarrow>
        rbind (read_ctx ctx) (\<lambda>_.
          case (case searchErr of None \<Rightarrow> None | Some err \<Rightarrow> search_verdict query cs err) of
            Some e \<Rightarrow> rfail e
          | None \<Rightarrow>
              rbind (validateCandidateSet ctx cs query) (\<lambda>channels.
              rbind (read_ctx ctx) (\<lambda>_.
              rbind (fuse L ctx r channels) (\<lambda>fused.
              rbind (take_items ctx r (rp_MaxTokens (rc_policy r)) [] fused) (\<lambda>items.
                finish_recall ctx \<lparr>rs_Items = items,
                  rs_DegradedChannels = (if degraded \<or> searchErr \<noteq> None then [ChannelVector] else []),
                  rs_PolicyVersion = rp_Version (rc_policy r)\<rparr>))))))"

definition Recall_from :: "mem_libs \<Rightarrow> (nat \<Rightarrow> ctx) \<Rightarrow> Recaller \<Rightarrow> RecallRequest \<Rightarrow> RecallResult recall" where
  "Recall_from L ctx r request = (case validateAndCopyRequest r request of
      Some e \<Rightarrow> rfail (RecallMem e)
    | None \<Rightarrow>
        rbind (read_ctx ctx) (\<lambda>_.
        rbind (embed_query L ctx r request) (\<lambda>(query, degraded).
          if cq_ExactLimit query = 0 \<and> cq_FullTextLimit query = 0 \<and> cq_VectorLimit query = 0
          then finish_recall ctx \<lparr>rs_Items = [], rs_DegradedChannels = (if degraded then [ChannelVector] else []),
                 rs_PolicyVersion = rp_Version (rc_policy r)\<rparr>
          else search_and_fuse L ctx r query degraded)))"

definition Recall :: "mem_libs \<Rightarrow> (nat \<Rightarrow> ctx) \<Rightarrow> Recaller \<Rightarrow> RecallRequest \<Rightarrow> RecallError + RecallResult" where
  "Recall L ctx r request = fst (Recall_from L ctx r request 0)"

end
