(* ===== verification/Memory_Recall_Laws.thy ===== *)
theory Memory_Recall_Laws
  imports Memory_Recall
begin

text \<open>
  What a recall guarantees: everything it returns was validated, the ranking is the one of the
  reciprocal rank scores, the budget holds, and the in-memory store passes the validation.
\<close>

section \<open>Recall as a computation\<close>

lemma rbind_Inr:
  assumes "rbind m f n = (Inr y, n')"
  obtains x k where "m n = (Inr x, k)" and "f x k = (Inr y, n')"
  using assms by (auto simp: rbind_def split: prod.splits sum.splits)

lemma rbind_Inl:
  assumes "rbind m f n = (Inl e, n')"
  obtains "m n = (Inl e, n')" | x k where "m n = (Inr x, k)" and "f x k = (Inl e, n')"
  using assms by (auto simp: rbind_def split: prod.splits sum.splits)

lemma rreturn_simps [simp]: "rreturn x n = (Inr y, n') \<longleftrightarrow> y = x \<and> n' = n" "rreturn x n \<noteq> (Inl e, n')"
  by (auto simp: rreturn_def)

lemma rfail_simps [simp]: "rfail e n = (Inl e', n') \<longleftrightarrow> e' = e \<and> n' = n" "rfail e n \<noteq> (Inr y, n')"
  by (auto simp: rfail_def)

lemma read_ctx_Inl: "read_ctx ctx n = (Inl e, n') \<Longrightarrow> \<exists>c. e = RecallMem (MemCtx c)"
  by (auto simp: read_ctx_def split: option.splits)

section \<open>What validation guarantees\<close>

definition refs_ok :: "Source list \<Rightarrow> bool" where
  "refs_ok ss \<longleftrightarrow> (\<forall>s \<in> set ss. TrimSpace (src_Kind s) \<noteq> '''' \<and> TrimSpace (src_Ref s) \<noteq> '''')"

lemma source_refs_cases:
  "source_refs refs ss = (if refs_ok ss then Inr (sort_by (\<lambda>a b. a < b) (fold (\<lambda>s acc. if src_Ref s \<in> set acc then acc
     else acc @ [src_Ref s]) ss refs)) else Inl ErrInvalidRecallResult)"
  by (induction refs ss rule: source_refs.induct) (auto simp: refs_ok_def)

lemma normalizedSourceRefs_Inr: "(\<exists>refs. normalizedSourceRefs ss = Inr refs) \<longleftrightarrow> refs_ok ss"
  "normalizedSourceRefs ss = Inl e \<Longrightarrow> \<not> refs_ok ss"
  by (auto simp: normalizedSourceRefs_def source_refs_cases split: if_splits)

definition refs_of :: "Source list \<Rightarrow> string list" where
  "refs_of ss = (case normalizedSourceRefs ss of Inr refs \<Rightarrow> refs | Inl _ \<Rightarrow> [])"

definition valid_candidate :: "CandidateQuery \<Rightarrow> candidateSetChannel \<Rightarrow> Candidate \<Rightarrow> bool" where
  "valid_candidate q listed c \<longleftrightarrow> well_formed q listed c \<and> well_formed_memory q (can_Memory c)
     \<and> refs_ok (can_Sources c) \<and> similarity_ok listed c"

definition identity_of :: "Candidate \<Rightarrow> recalledIdentity" where
  "identity_of c = \<lparr>id_memory = can_Memory c, id_sourceRefs = refs_of (can_Sources c)\<rparr>"

abbreviation can_ID :: "Candidate \<Rightarrow> string" where
  "can_ID c \<equiv> mem_ID (can_Memory c)"

text \<open>A candidate agrees with the identities recorded so far.\<close>

definition agrees :: "identities \<Rightarrow> Candidate \<Rightarrow> bool" where
  "agrees ids c \<longleftrightarrow> map_of ids (can_ID c) = None \<or> map_of ids (can_ID c) = Some (identity_of c)"

lemma check_candidate_eq:
  "check_candidate q listed seen ids c =
     (if valid_candidate q listed c \<and> can_ID c \<notin> set seen \<and> agrees ids c
      then Inr (AList.update (can_ID c) (identity_of c) ids) else Inl ErrInvalidRecallResult)"
proof (cases "refs_ok (can_Sources c)")
  case False
  then have "normalizedSourceRefs (can_Sources c) = Inl ErrInvalidRecallResult"
    by (simp add: normalizedSourceRefs_def source_refs_cases)
  with False show ?thesis by (simp add: check_candidate_def valid_candidate_def)
next
  case True
  then obtain refs where r: "normalizedSourceRefs (can_Sources c) = Inr refs"
    using normalizedSourceRefs_Inr(1) by blast
  then have i: "identity_of c = \<lparr>id_memory = can_Memory c, id_sourceRefs = refs\<rparr>"
    by (simp add: identity_of_def refs_of_def)
  show ?thesis
  proof (cases "map_of ids (can_ID c)")
    case None
    with True r i show ?thesis by (simp add: check_candidate_def valid_candidate_def agrees_def)
  next
    case (Some p)
    have "p = identity_of c \<longleftrightarrow> id_memory p = can_Memory c \<and> id_sourceRefs p = refs"
      unfolding i by (cases p) simp
    moreover have "p = identity_of c \<Longrightarrow> AList.update (can_ID c) (identity_of c) ids = ids"
      using Some by (simp add: update_triv)
    ultimately show ?thesis using True r Some
      by (simp add: check_candidate_def valid_candidate_def agrees_def)
  qed
qed

lemma validate_candidates_Inr:
  assumes "validate_candidates ctx q listed seen ids acc cs n = (Inr (ids', acc'), n')"
  shows "acc' = acc @ filter (kept q listed) cs \<and> (\<forall>c \<in> set cs. valid_candidate q listed c)
    \<and> distinct (map can_ID cs) \<and> set (map can_ID cs) \<inter> set seen = {}
    \<and> (\<forall>i x. map_of ids i = Some x \<longrightarrow> map_of ids' i = Some x)
    \<and> (\<forall>c \<in> set cs. map_of ids' (can_ID c) = Some (identity_of c))"
  using assms
proof (induction cs arbitrary: seen ids acc n)
  case (Cons c cs)
  from Cons.prems obtain n1 where ok: "valid_candidate q listed c" "can_ID c \<notin> set seen" "agrees ids c"
    and rec: "validate_candidates ctx q listed (can_ID c # seen) (AList.update (can_ID c) (identity_of c) ids)
       (if kept q listed c then acc @ [c] else acc) cs n1 = (Inr (ids', acc'), n')"
    by (auto simp: check_candidate_eq elim!: rbind_Inr split: if_splits)
  note ih = Cons.IH [OF rec]
  have own: "map_of ids' (can_ID c) = Some (identity_of c)" using ih by (simp add: update_conv)
  have keep: "map_of ids' i = Some x" if "map_of ids i = Some x" for i x
    using ih that ok(3) own by (cases "i = can_ID c") (simp_all add: agrees_def update_conv)
  show ?case
  proof (intro conjI ballI allI impI)
    show "acc' = acc @ filter (kept q listed) (c # cs)" using ih by simp
    show "valid_candidate q listed d" if "d \<in> set (c # cs)" for d using ih ok that by auto
    show "distinct (map can_ID (c # cs))" using ih by auto
    show "set (map can_ID (c # cs)) \<inter> set seen = {}" using ih ok by auto
    show "map_of ids' i = Some x" if "map_of ids i = Some x" for i x by (rule keep [OF that])
    show "map_of ids' (can_ID d) = Some (identity_of d)" if "d \<in> set (c # cs)" for d
      using ih own that by auto
  qed
qed simp


text \<open>A channel that passes the checks, and candidates that agree on what an ID stands for.\<close>

definition channel_ok :: "CandidateQuery \<Rightarrow> candidateSetChannel \<Rightarrow> bool" where
  "channel_ok q listed \<longleftrightarrow> (ch_enabled listed \<or> ch_candidates listed = [])
     \<and> int (length (ch_candidates listed)) \<le> ch_limit listed
     \<and> (\<forall>c \<in> set (ch_candidates listed). valid_candidate q listed c)
     \<and> distinct (map can_ID (ch_candidates listed))"

definition all_candidates :: "candidateSetChannel list \<Rightarrow> Candidate list" where
  "all_candidates chs = concat (map ch_candidates chs)"

definition coherent :: "Candidate set \<Rightarrow> bool" where
  "coherent C \<longleftrightarrow> (\<forall>c \<in> C. \<forall>d \<in> C. can_ID c = can_ID d \<longrightarrow> identity_of c = identity_of d)"

definition kept_of :: "CandidateQuery \<Rightarrow> candidateSetChannel \<Rightarrow> Candidate list" where
  "kept_of q listed = filter (kept q listed) (ch_candidates listed)"

lemma validate_channels_Inr:
  assumes "validate_channels ctx q ids chs n = (Inr vs, n')"
  shows "vs = map (kept_of q) chs \<and> (\<forall>l \<in> set chs. channel_ok q l)
    \<and> (\<exists>ids'. (\<forall>i x. map_of ids i = Some x \<longrightarrow> map_of ids' i = Some x)
          \<and> (\<forall>c \<in> set (all_candidates chs). map_of ids' (can_ID c) = Some (identity_of c)))"
  using assms
proof (induction chs arbitrary: ids vs n)
  case Nil
  then show ?case by (auto simp: all_candidates_def)
next
  case (Cons l chs)
  from Cons.prems obtain n1 n2 ids1 v others where
    guard: "\<not> ((\<not> ch_enabled l \<and> ch_candidates l \<noteq> []) \<or> int (length (ch_candidates l)) > ch_limit l)"
    and here: "validate_candidates ctx q l [] ids [] (ch_candidates l) n1 = (Inr (ids1, v), n2)"
    and rest: "validate_channels ctx q ids1 chs n2 = (Inr others, n')" and vs: "vs = v # others"
    by (auto elim!: rbind_Inr split: if_splits)
  note h = validate_candidates_Inr [OF here]
  from Cons.IH [OF rest] obtain ids' where ih: "others = map (kept_of q) chs" "\<forall>l \<in> set chs. channel_ok q l"
    and up: "\<forall>i x. map_of ids1 i = Some x \<longrightarrow> map_of ids' i = Some x"
    and all: "\<forall>c \<in> set (all_candidates chs). map_of ids' (can_ID c) = Some (identity_of c)" by blast
  have "channel_ok q l" unfolding channel_ok_def using guard h by auto
  moreover have "\<forall>i x. map_of ids i = Some x \<longrightarrow> map_of ids' i = Some x" using h up by blast
  moreover have "\<forall>c \<in> set (all_candidates (l # chs)). map_of ids' (can_ID c) = Some (identity_of c)"
    using h up all by (auto simp: all_candidates_def)
  ultimately show ?case using ih vs h by (auto simp: kept_of_def)
qed

lemma validateCandidateSet_Inr:
  assumes "validateCandidateSet ctx cs q n = (Inr vs, n')"
  shows "vs = map (kept_of q) (set_channels cs q)" and "\<forall>l \<in> set (set_channels cs q). channel_ok q l"
    and "coherent (set (all_candidates (set_channels cs q)))"
proof -
  from assms obtain k where run: "validate_channels ctx q [] (set_channels cs q) n = (Inr vs, k)"
    by (auto simp: validateCandidateSet_def elim!: rbind_Inr)
  note v = validate_channels_Inr [OF run]
  from v show "vs = map (kept_of q) (set_channels cs q)" and "\<forall>l \<in> set (set_channels cs q). channel_ok q l"
    by simp_all
  from v obtain ids' where ids: "\<forall>c \<in> set (all_candidates (set_channels cs q)). map_of ids' (can_ID c) = Some (identity_of c)"
    by blast
  show "coherent (set (all_candidates (set_channels cs q)))"
    unfolding coherent_def
  proof (intro ballI impI)
    fix c d assume "c \<in> set (all_candidates (set_channels cs q))" "d \<in> set (all_candidates (set_channels cs q))"
      and "can_ID c = can_ID d"
    with ids show "identity_of c = identity_of d" by (metis option.inject)
  qed
qed

text \<open>The converse: a set that is in order is refused only because of the context.\<close>

lemma validate_candidates_complete:
  assumes "\<forall>c \<in> set cs. valid_candidate q listed c \<and> can_ID c \<notin> set seen \<and> agrees ids c"
    and "distinct (map can_ID cs)" and "validate_candidates ctx q listed seen ids acc cs n = (Inl e, n')"
  shows "\<exists>c. e = RecallMem (MemCtx c)"
  using assms
proof (induction cs arbitrary: seen ids acc n)
  case (Cons c cs)
  have ok: "valid_candidate q listed c" "can_ID c \<notin> set seen" "agrees ids c" using Cons.prems(1) by auto
  have later: "\<forall>d \<in> set cs. valid_candidate q listed d \<and> can_ID d \<notin> set (can_ID c # seen)
      \<and> agrees (AList.update (can_ID c) (identity_of c) ids) d"
  proof
    fix d assume d: "d \<in> set cs"
    then have "can_ID d \<in> can_ID ` set cs" by (rule imageI)
    with Cons.prems(2) have "can_ID d \<noteq> can_ID c" by auto
    with d Cons.prems(1) show "valid_candidate q listed d \<and> can_ID d \<notin> set (can_ID c # seen)
      \<and> agrees (AList.update (can_ID c) (identity_of c) ids) d" by (simp add: agrees_def update_conv)
  qed
  from Cons.prems(3) show ?case
  proof (simp add: check_candidate_eq ok, elim rbind_Inl)
    assume "read_ctx ctx n = (Inl e, n')" then show ?thesis by (rule read_ctx_Inl)
  next
    fix x k
    assume "validate_candidates ctx q listed (can_ID c # seen) (AList.update (can_ID c) (identity_of c) ids)
       (if kept q listed c then acc @ [c] else acc) cs k = (Inl e, n')"
    with Cons.IH [OF later] Cons.prems(2) show ?thesis by simp
  qed
qed simp

lemma validate_candidates_agrees:
  assumes "validate_candidates ctx q listed seen ids acc cs n = (Inr (ids', acc'), n')"
    and "agrees ids d" and "\<And>c. c \<in> set cs \<Longrightarrow> can_ID c = can_ID d \<Longrightarrow> identity_of c = identity_of d"
  shows "agrees ids' d"
  using assms
proof (induction cs arbitrary: seen ids acc n)
  case (Cons c cs)
  from Cons.prems(1) obtain n1 where
    rec: "validate_candidates ctx q listed (can_ID c # seen) (AList.update (can_ID c) (identity_of c) ids)
       (if kept q listed c then acc @ [c] else acc) cs n1 = (Inr (ids', acc'), n')"
    by (auto simp: check_candidate_eq elim!: rbind_Inr split: if_splits)
  have "agrees (AList.update (can_ID c) (identity_of c) ids) d"
    using Cons.prems(2) Cons.prems(3) [of c] by (auto simp: agrees_def update_conv)
  from Cons.IH [OF rec this] Cons.prems(3) show ?case by simp
qed simp

lemma channel_guard:
  "channel_ok q l \<Longrightarrow> (\<not> (\<not> ch_enabled l \<and> ch_candidates l \<noteq> [])) \<and> \<not> ch_limit l < int (length (ch_candidates l))"
  by (auto simp: channel_ok_def)

lemma validate_channels_complete:
  assumes "\<forall>l \<in> set chs. channel_ok q l" and "coherent (set (all_candidates chs))"
    and "\<forall>c \<in> set (all_candidates chs). agrees ids c"
    and "validate_channels ctx q ids chs n = (Inl e, n')"
  shows "\<exists>c. e = RecallMem (MemCtx c)"
  using assms
proof (induction chs arbitrary: ids n)
  case (Cons l chs)
  have l: "channel_ok q l" using Cons.prems(1) by simp
  have agr: "\<forall>c \<in> set (ch_candidates l). valid_candidate q l c \<and> can_ID c \<notin> set [] \<and> agrees ids c"
    using l Cons.prems(3) by (auto simp: channel_ok_def all_candidates_def)
  have dist: "distinct (map can_ID (ch_candidates l))" using l by (simp add: channel_ok_def)
  from Cons.prems(4) l have "rbind (read_ctx ctx) (\<lambda>_. rbind (validate_candidates ctx q l [] ids [] (ch_candidates l))
      (\<lambda>(ids, validated). rbind (validate_channels ctx q ids chs) (\<lambda>others. rreturn (validated # others)))) n = (Inl e, n')"
    by (simp add: channel_guard)
  then show ?case
  proof (elim rbind_Inl)
    assume "read_ctx ctx n = (Inl e, n')" then show ?thesis by (rule read_ctx_Inl)
  next
    fix k assume "validate_candidates ctx q l [] ids [] (ch_candidates l) k = (Inl e, n')"
    then show ?thesis by (rule validate_candidates_complete [OF agr dist])
  next
    fix k x y
    assume here: "validate_candidates ctx q l [] ids [] (ch_candidates l) k = (Inr x, y)"
      and "(case x of (ids, validated) \<Rightarrow> rbind (validate_channels ctx q ids chs) (\<lambda>others. rreturn (validated # others))) y
             = (Inl e, n')"
    then obtain ids1 v where x: "x = (ids1, v)" and rest: "validate_channels ctx q ids1 chs y = (Inl e, n')"
      by (cases x) (auto elim!: rbind_Inl)
    note h = validate_candidates_Inr [OF here [unfolded x]]
    have "agrees ids1 c" if c: "c \<in> set (all_candidates chs)" for c
      by (rule validate_candidates_agrees [OF here [unfolded x]]) (use c Cons.prems in \<open>auto simp: all_candidates_def coherent_def\<close>)
    moreover have "\<forall>l \<in> set chs. channel_ok q l" using Cons.prems(1) by simp
    moreover have "coherent (set (all_candidates chs))"
      using Cons.prems(2) by (simp add: all_candidates_def coherent_def)
    ultimately show ?thesis using Cons.IH [OF _ _ _ rest] by blast
  qed
qed simp

section \<open>What fusion computes\<close>

text \<open>The reciprocal rank score of the ranks of one memory, in the order of the channels.\<close>

definition rrf_score :: "mem_libs \<Rightarrow> rat \<Rightarrow> int list \<Rightarrow> rat" where
  "rrf_score L k ranks = foldl (\<lambda>score rank. ml_round L (score + ml_round L (1 / ml_round L (k + of_int rank)))) 0 ranks"

definition with_ID :: "string \<Rightarrow> Candidate list \<Rightarrow> Candidate list" where
  "with_ID i cs = filter (\<lambda>c. can_ID c = i) cs"

definition item_of :: "Candidate \<Rightarrow> RecallItem" where
  "item_of c = \<lparr>ri_Memory = can_Memory c, ri_Sources = can_Sources c\<rparr>"

definition fused_of :: "mem_libs \<Rightarrow> rat \<Rightarrow> string \<Rightarrow> Candidate list \<Rightarrow> fusedRecallItem option" where
  "fused_of L k i cs = (case with_ID i cs of [] \<Rightarrow> None
     | c # _ \<Rightarrow> Some \<lparr>fu_item = item_of c, fu_score = rrf_score L k (map can_Rank (with_ID i cs))\<rparr>)"

lemma fuse_candidates_Inr:
  "fuse_candidates L ctx k byID cs n = (Inr byID', n') \<Longrightarrow> byID' = fold (add_rank L k) cs byID"
  by (induction cs arbitrary: byID n) (auto elim!: rbind_Inr)

lemma fuse_candidates_Inl:
  "fuse_candidates L ctx k byID cs n = (Inl e, n') \<Longrightarrow> \<exists>c. e = RecallMem (MemCtx c)"
  by (induction cs arbitrary: byID n) (auto elim!: rbind_Inl dest: read_ctx_Inl)

lemma with_ID_snoc: "with_ID i (cs @ [c]) = (if can_ID c = i then with_ID i cs @ [c] else with_ID i cs)"
  by (simp add: with_ID_def)

lemma add_rank_lookup:
  "map_of (add_rank L k c byID) i = (if i = can_ID c then
     (let f = (case map_of byID i of Some f \<Rightarrow> f | None \<Rightarrow> \<lparr>fu_item = item_of c, fu_score = 0\<rparr>)
      in Some (f\<lparr>fu_score := ml_round L (fu_score f + ml_round L (1 / ml_round L (k + of_int (can_Rank c))))\<rparr>))
   else map_of byID i)"
  by (cases "map_of byID (can_ID c)") (simp_all add: add_rank_def Let_def update_conv item_of_def)

lemma fold_add_rank_lookup:
  "map_of (fold (add_rank L k) cs []) i = fused_of L k i cs"
proof (induction cs rule: rev_induct)
  case Nil
  then show ?case by (simp add: fused_of_def with_ID_def)
next
  case (snoc c cs)
  show ?case
  proof (cases "can_ID c = i")
    case True
    then have w: "with_ID i (cs @ [c]) = with_ID i cs @ [c]" by (simp add: with_ID_snoc)
    show ?thesis
    proof (cases "with_ID i cs")
      case Nil
      with True w snoc show ?thesis by (simp add: add_rank_lookup fused_of_def rrf_score_def)
    next
      case (Cons d ds)
      with True w snoc show ?thesis by (simp add: add_rank_lookup fused_of_def rrf_score_def)
    qed
  next
    case False
    then have "with_ID i (cs @ [c]) = with_ID i cs" by (simp add: with_ID_snoc)
    then have "fused_of L k i (cs @ [c]) = fused_of L k i cs" unfolding fused_of_def by (simp only:)
    with False snoc show ?thesis by (simp add: add_rank_lookup)
  qed
qed

lemma fold_add_rank_wf: "wf_map byID \<Longrightarrow> wf_map (fold (add_rank L k) cs byID)"
  by (induction cs arbitrary: byID) (simp_all add: add_rank_def Let_def wf_map_def distinct_update)

interpretation fused_order: strict_order fused_before
  by unfold_locales (auto simp: fused_before_def Let_def split: if_splits)

text \<open>The ranking of a list of candidates: the best score first, ties by importance, age and ID.\<close>

definition is_ranking :: "mem_libs \<Rightarrow> rat \<Rightarrow> Candidate list \<Rightarrow> fusedRecallItem list \<Rightarrow> bool" where
  "is_ranking L k cs ranked \<longleftrightarrow> sorted_wrt fused_before ranked
     \<and> set ranked = {f. \<exists>i. fused_of L k i cs = Some f}"

definition fu_ID :: "fusedRecallItem \<Rightarrow> string" where
  "fu_ID f = mem_ID (ri_Memory (fu_item f))"

lemma fused_of_Some:
  assumes "fused_of L k i cs = Some f"
  obtains c where "c \<in> set cs" and "can_ID c = i" and "fu_item f = item_of c"
    and "fu_score f = rrf_score L k (map can_Rank (with_ID i cs))"
proof -
  from assms obtain c rest where w: "with_ID i cs = c # rest"
    by (auto simp: fused_of_def split: list.splits)
  then have "c \<in> set (with_ID i cs)" by simp
  then have "c \<in> set cs" "can_ID c = i" by (simp_all add: with_ID_def)
  with assms w that show thesis by (auto simp: fused_of_def)
qed

lemma fused_of_ID: "fused_of L k i cs = Some f \<Longrightarrow> fu_ID f = i"
  by (elim fused_of_Some) (simp add: fu_ID_def item_of_def)

lemma fused_of_item: "fused_of L k i cs = Some f \<Longrightarrow> \<exists>c \<in> set cs. fu_item f = item_of c"
  by (elim fused_of_Some) blast

lemma fused_total: "\<not> fused_before a b \<Longrightarrow> \<not> fused_before b a \<Longrightarrow> fu_ID a = fu_ID b"
  by (auto simp: fused_before_def Let_def fu_ID_def split: if_splits)

lemma ranking_distinct:
  assumes "is_ranking L k cs ranked"
  shows "distinct (map fu_ID ranked)"
proof -
  have of_ID: "fused_of L k (fu_ID f) cs = Some f" if "f \<in> set ranked" for f
    using that assms by (auto simp: is_ranking_def dest: fused_of_ID)
  have inj: "inj_on fu_ID (set ranked)"
    by (rule inj_onI) (metis of_ID option.inject)
  have "sorted_wrt fused_before fs \<Longrightarrow> distinct fs" for fs
    using fused_order.irrefl by (induction fs) auto
  with assms have "distinct ranked" by (simp add: is_ranking_def)
  with inj show ?thesis by (simp add: distinct_map)
qed

lemma sorted_strict:
  assumes "sorted_wrt (\<lambda>a b. \<not> fused_before b a) fs" and "distinct (map fu_ID fs)"
  shows "sorted_wrt fused_before fs"
  using assms
proof (induction fs)
  case (Cons f fs)
  have "fused_before f g" if g: "g \<in> set fs" for g
  proof (rule ccontr)
    assume "\<not> fused_before f g"
    moreover have "\<not> fused_before g f" using Cons.prems(1) g by simp
    ultimately have "fu_ID f = fu_ID g" by (rule fused_total)
    with Cons.prems(2) g show False by auto
  qed
  with Cons show ?case by simp
qed simp

lemma fuse_Inr:
  assumes "fuse L ctx r channels n = (Inr items, n')"
  shows "\<exists>ranked. is_ranking L (rrfk r) (concat channels) ranked \<and> items = map fu_item ranked"
proof -
  let ?b = "fold (add_rank L (rrfk r)) (concat channels) []"
  from assms have items: "items = map fu_item (sort_by fused_before (map snd ?b))"
    by (auto simp: fuse_def Let_def elim!: rbind_Inr dest!: fuse_candidates_Inr)
  have wf: "distinct (map fst ?b)" using fold_add_rank_wf [of "[]"] by (simp add: wf_map_def)
  have entry: "map_of ?b i = Some f \<longleftrightarrow> (i, f) \<in> set ?b" for i f using wf by (rule map_of_eq_Some_iff)
  have ids: "map fu_ID (map snd ?b) = map fst ?b"
    by (auto simp: entry [symmetric] fold_add_rank_lookup dest: fused_of_ID)
  have "mset (map fu_ID (sort_by fused_before (map snd ?b))) = mset (map fst ?b)"
    unfolding ids [symmetric] by (simp add: multiset.map_comp)
  with wf have "distinct (map fu_ID (sort_by fused_before (map snd ?b)))"
    by (metis mset_eq_imp_distinct_iff)
  then have "sorted_wrt fused_before (sort_by fused_before (map snd ?b))"
    by (rule sorted_strict [OF fused_order.sorted_sort_by])
  moreover have "set (sort_by fused_before (map snd ?b)) = {f. \<exists>i. fused_of L (rrfk r) i (concat channels) = Some f}"
    unfolding fold_add_rank_lookup [symmetric] set_sort_by by (force simp: entry)
  ultimately show ?thesis using items unfolding is_ranking_def by blast
qed

text \<open>The order of the map's entries does not matter: the ranking is unique.\<close>

lemma ranking_unique:
  assumes "is_ranking L k cs xs" and "is_ranking L k cs ys"
  shows "xs = ys"
proof -
  have "distinct xs" "distinct ys" using ranking_distinct [OF assms(1)] ranking_distinct [OF assms(2)]
    by (simp_all add: distinct_map)
  with assms have "mset xs = mset ys" by (simp add: is_ranking_def set_eq_iff_mset_eq_distinct [symmetric])
  moreover have "sorted_wrt (\<lambda>a b. \<not> fused_before b a) zs" if "is_ranking L k cs zs" for zs
    using that fused_order.asym by (auto simp: is_ranking_def intro: sorted_wrt_mono_rel)
  moreover have "a = b" if "a \<in> set xs" "b \<in> set xs" "\<not> fused_before a b" "\<not> fused_before b a" for a b
    using that fused_total ranking_distinct [OF assms(1)] by (auto simp: distinct_map dest: inj_onD)
  ultimately show ?thesis using assms fused_order.sorted_unique by blast
qed

section \<open>What a recall returns\<close>

text \<open>The budget loop without the context: what fits is taken in order, what does not is passed over.\<close>

fun greedy :: "(RecallItem \<Rightarrow> int) \<Rightarrow> nat \<Rightarrow> int \<Rightarrow> RecallItem list \<Rightarrow> RecallItem list" where
  "greedy cost slots budget [] = []"
| "greedy cost slots budget (x # xs) =
     (if slots = 0 then []
      else if cost x > budget then greedy cost slots budget xs
      else x # greedy cost (slots - 1) (budget - cost x) xs)"

definition item_cost :: "Recaller \<Rightarrow> RecallItem \<Rightarrow> int" where
  "item_cost r item = (case canonicalRecallPayload r item of Inr payload \<Rightarrow> rc_countTokens r payload | Inl _ \<Rightarrow> 0)"

lemma take_items_Inr:
  assumes "take_items ctx r budget items rest n = (Inr taken, n')"
    and "int (length items) + int slots = rp_MaxItems (rc_policy r)"
  shows "taken = items @ greedy (item_cost r) slots budget rest"
  using assms
proof (induction rest arbitrary: budget items slots n)
  case (Cons x rest)
  show ?case
  proof (cases "slots = 0")
    case True
    with Cons.prems show ?thesis by simp
  next
    case False
    with Cons.prems(2) have open': "int (length items) \<noteq> rp_MaxItems (rc_policy r)" by simp
    with Cons.prems(1) obtain payload where p: "canonicalRecallPayload r x = Inr payload"
      by (auto split: sum.splits)
    let ?cost = "rc_countTokens r payload"
    have cost: "item_cost r x = ?cost" using p by (simp add: item_cost_def)
    from Cons.prems(1) open' p obtain k where "(if ?cost > budget then take_items ctx r budget items rest
        else take_items ctx r (budget - ?cost) (items @ [x]) rest) k = (Inr taken, n')"
      by (auto simp: Let_def elim!: rbind_Inr split: if_splits)
    then show ?thesis using Cons.IH [of budget items k slots] Cons.IH [of "budget - ?cost" "items @ [x]" k "slots - 1"]
        Cons.prems(2) False cost by (auto split: if_splits)
  qed
qed simp

lemma greedy_length: "length (greedy cost slots budget xs) \<le> slots"
proof (induction xs arbitrary: slots budget)
  case (Cons x xs)
  from Cons.IH [of "slots - 1" "budget - cost x"] Cons.IH [of slots budget] show ?case by (auto simp del: One_nat_def)
qed simp

lemma greedy_cost: "0 \<le> budget \<Longrightarrow> sum_list (map cost (greedy cost slots budget xs)) \<le> budget"
proof (induction xs arbitrary: slots budget)
  case (Cons x xs)
  from Cons.IH [of "budget - cost x" "slots - 1"] Cons.IH [of budget slots] Cons.prems show ?case
    by (auto simp del: One_nat_def)
qed simp

lemma greedy_subset: "set (greedy cost slots budget xs) \<subseteq> set xs"
  by (induction xs arbitrary: slots budget) auto

lemma greedy_distinct: "distinct (map f xs) \<Longrightarrow> distinct (map f (greedy cost slots budget xs))"
proof (induction xs arbitrary: slots budget)
  case (Cons x xs)
  have "f x \<notin> f ` set (greedy cost k b xs)" for k b using Cons.prems greedy_subset by fastforce
  with Cons show ?case by simp
qed simp

text \<open>The query a request leads to, and whether embedding its text failed recoverably.\<close>

definition embedding_of :: "Recaller \<Rightarrow> RecallRequest \<Rightarrow> (dep_error + float_value list list) option" where
  "embedding_of r request = (case rc_embed r of
      Some embedder \<Rightarrow> if rp_VectorLimit (rc_policy r) > 0 \<and> TrimSpace (rr_Text request) \<noteq> ''''
        then Some (embedder (rp_EmbeddingProfileID (rc_policy r)) [rr_Text request]) else None
    | None \<Rightarrow> None)"

definition query_of :: "Recaller \<Rightarrow> RecallRequest \<Rightarrow> CandidateQuery" where
  "query_of r request = (case embedding_of r request of
      Some (Inr [vector]) \<Rightarrow> (base_query r request)\<lparr>cq_QueryVector := vector, cq_VectorLimit := rp_VectorLimit (rc_policy r),
         cq_MinVectorSimilarity := rp_MinVectorSimilarity (rc_policy r),
         cq_EmbeddingProfileID := rp_EmbeddingProfileID (rc_policy r),
         cq_EmbeddingDimensions := rp_EmbeddingDimensions (rc_policy r)\<rparr>
    | _ \<Rightarrow> base_query r request)"

definition embedding_failed :: "Recaller \<Rightarrow> RecallRequest \<Rightarrow> bool" where
  "embedding_failed r request \<longleftrightarrow> (\<exists>err. embedding_of r request = Some (Inl err))"

lemma validateEmbeddingResult_Inr:
  "validateEmbeddingResult L vectors d = Inr v \<Longrightarrow> vectors = [v] \<and> int (length v) = d \<and> validVector L v"
  by (auto simp: validateEmbeddingResult_def split: list.splits if_splits)

lemma embed_query_Inr:
  assumes "embed_query L ctx r request n = (Inr (q, degraded), n')"
  shows "q = query_of r request \<and> degraded = embedding_failed r request"
proof (cases "embedding_of r request")
  case None
  with assms show ?thesis
    by (auto simp: embed_query_def embedding_of_def query_of_def embedding_failed_def Let_def split: option.splits if_splits)
next
  case (Some outcome)
  then obtain embedder where e: "rc_embed r = Some embedder"
    "rp_VectorLimit (rc_policy r) > 0" "TrimSpace (rr_Text request) \<noteq> ''''"
    "outcome = embedder (rp_EmbeddingProfileID (rc_policy r)) [rr_Text request]"
    by (auto simp: embedding_of_def split: option.splits if_splits)
  show ?thesis
  proof (cases outcome)
    case (Inl err)
    then have "q = base_query r request" "degraded"
      using assms e by (auto simp: embed_query_def Let_def elim!: rbind_Inr split: option.splits if_splits)
    with Inl Some show ?thesis by (simp add: query_of_def embedding_failed_def)
  next
    case (Inr vectors)
    with assms Some e obtain v where v: "validateEmbeddingResult L vectors (rp_EmbeddingDimensions (rc_policy r)) = Inr v"
      and q: "q = (base_query r request)\<lparr>cq_QueryVector := v, cq_VectorLimit := rp_VectorLimit (rc_policy r),
         cq_MinVectorSimilarity := rp_MinVectorSimilarity (rc_policy r),
         cq_EmbeddingProfileID := rp_EmbeddingProfileID (rc_policy r),
         cq_EmbeddingDimensions := rp_EmbeddingDimensions (rc_policy r)\<rparr>" "degraded = False"
      by (auto simp: embed_query_def Let_def elim!: rbind_Inr split: sum.splits)
    from validateEmbeddingResult_Inr [OF v] Some Inr q show ?thesis by (simp add: query_of_def embedding_failed_def)
  qed
qed

lemma query_of_simps [simp]:
  "cq_Scope (query_of r request) = rr_Scope request" "cq_Now (query_of r request) = rr_Now request"
  by (simp_all add: query_of_def base_query_def split: option.splits sum.splits list.splits)

definition searches :: "CandidateQuery \<Rightarrow> bool" where
  "searches q \<longleftrightarrow> \<not> (cq_ExactLimit q = 0 \<and> cq_FullTextLimit q = 0 \<and> cq_VectorLimit q = 0)"

text \<open>The candidates that count: what validation keeps of what the store returned.\<close>

definition counted :: "Recaller \<Rightarrow> CandidateQuery \<Rightarrow> Candidate list" where
  "counted r q = concat (map (kept_of q) (set_channels (fst (rc_search r q)) q))"

lemma search_and_fuse_Inr:
  assumes "search_and_fuse L ctx r q degraded n = (Inr result, n')" and "rp_MaxItems (rc_policy r) \<ge> 0"
  shows "(\<exists>ranked. is_ranking L (rrfk r) (counted r q) ranked
      \<and> rs_Items result = greedy (item_cost r) (nat (rp_MaxItems (rc_policy r))) (rp_MaxTokens (rc_policy r)) (map fu_item ranked))
    \<and> rs_DegradedChannels result = (if degraded \<or> snd (rc_search r q) \<noteq> None then [ChannelVector] else [])
    \<and> rs_PolicyVersion result = rp_Version (rc_policy r)
    \<and> (\<forall>l \<in> set (set_channels (fst (rc_search r q)) q). channel_ok q l)"
proof -
  obtain cs searchErr where s: "rc_search r q = (cs, searchErr)" by (cases "rc_search r q")
  from assms(1) s obtain channels fused items n1 n2 n3 n4 n5 n6 where
    v: "validateCandidateSet ctx cs q n1 = (Inr channels, n2)"
    and f: "fuse L ctx r channels n3 = (Inr fused, n4)"
    and t: "take_items ctx r (rp_MaxTokens (rc_policy r)) [] fused n5 = (Inr items, n6)"
    and res: "result = \<lparr>rs_Items = items, rs_DegradedChannels = (if degraded \<or> searchErr \<noteq> None then [ChannelVector] else []),
       rs_PolicyVersion = rp_Version (rc_policy r)\<rparr>"
    by (auto simp: search_and_fuse_def finish_recall_def elim!: rbind_Inr split: option.splits)
  note chans = validateCandidateSet_Inr [OF v]
  from fuse_Inr [OF f] obtain ranked where "is_ranking L (rrfk r) (counted r q) ranked" "fused = map fu_item ranked"
    using chans(1) s by (auto simp: counted_def)
  moreover have "items = greedy (item_cost r) (nat (rp_MaxItems (rc_policy r))) (rp_MaxTokens (rc_policy r)) fused"
    using take_items_Inr [OF t, of "nat (rp_MaxItems (rc_policy r))"] assms(2) by simp
  ultimately show ?thesis using res s chans(2) by auto
qed

lemma Recall_Inr:
  assumes "NewRecaller config = Inr r" and "Recall L ctx r request = Inr result"
  shows "(if searches (query_of r request)
     then (\<exists>ranked. is_ranking L (rrfk r) (counted r (query_of r request)) ranked
        \<and> rs_Items result = greedy (item_cost r) (nat (rp_MaxItems (rc_policy r))) (rp_MaxTokens (rc_policy r)) (map fu_item ranked))
       \<and> (\<forall>l \<in> set (set_channels (fst (rc_search r (query_of r request))) (query_of r request)). channel_ok (query_of r request) l)
     else rs_Items result = [])
    \<and> rs_DegradedChannels result = (if embedding_failed r request
         \<or> (searches (query_of r request) \<and> snd (rc_search r (query_of r request)) \<noteq> None) then [ChannelVector] else [])
    \<and> rs_PolicyVersion result = rp_Version (rc_policy r)
    \<and> validateAndCopyRequest r request = None \<and> 0 < rp_MaxItems (rc_policy r) \<and> 0 < rp_MaxTokens (rc_policy r)"
proof -
  have pos: "0 < rp_MaxItems (rc_policy r)" "0 < rp_MaxTokens (rc_policy r)"
    using assms(1) by (auto simp: NewRecaller_def RecallPolicy_Validate_def split: if_splits)
  obtain n' where run: "Recall_from L ctx r request 0 = (Inr result, n')"
    using assms(2) by (cases "Recall_from L ctx r request 0") (simp add: Recall_def)
  from run have valid: "validateAndCopyRequest r request = None"
    by (auto simp: Recall_from_def split: option.splits)
  with run obtain q degraded n1 n2 where e: "embed_query L ctx r request n1 = (Inr (q, degraded), n2)"
    and rest: "(if \<not> searches q then finish_recall ctx \<lparr>rs_Items = [], rs_DegradedChannels = (if degraded then [ChannelVector] else []),
                 rs_PolicyVersion = rp_Version (rc_policy r)\<rparr>
          else search_and_fuse L ctx r q degraded) n2 = (Inr result, n')"
    by (auto simp: Recall_from_def searches_def elim!: rbind_Inr split: if_splits)
  from embed_query_Inr [OF e] have q: "q = query_of r request" "degraded = embedding_failed r request" by simp_all
  show ?thesis
  proof (cases "searches q")
    case True
    with rest have "search_and_fuse L ctx r q degraded n2 = (Inr result, n')" by simp
    from search_and_fuse_Inr [OF this] pos valid True q show ?thesis by simp
  next
    case False
    with rest q have "result = \<lparr>rs_Items = [], rs_DegradedChannels = (if embedding_failed r request then [ChannelVector] else []),
                 rs_PolicyVersion = rp_Version (rc_policy r)\<rparr>"
      by (auto simp: finish_recall_def elim!: rbind_Inr)
    with False q pos valid show ?thesis by simp
  qed
qed

lemma counted_candidate:
  assumes "c \<in> set (counted r q)"
  obtains l where "l \<in> set (set_channels (fst (rc_search r q)) q)" and "c \<in> set (ch_candidates l)" and "kept q l c"
  using assms by (auto simp: counted_def kept_of_def)

lemma ranking_item:
  "is_ranking L k cs ranked \<Longrightarrow> x \<in> set (map fu_item ranked) \<Longrightarrow> \<exists>c \<in> set cs. x = item_of c"
  by (auto simp: is_ranking_def) (metis fused_of_item)

text \<open>Property C21. What the host may rely on whatever the store, the embedder and the token counter return: every
  recalled memory belongs to the scope of the request, is active and valid at its time, is well
  formed and has sources; no memory is recalled twice; the items and their tokens stay within the
  policy.
\<close>

theorem recall_trustworthy:
  assumes "NewRecaller config = Inr r" and "Recall L ctx r request = Inr result"
  shows "(\<forall>item \<in> set (rs_Items result).
       mem_Scope (ri_Memory item) = rr_Scope request
       \<and> mem_Status (ri_Memory item) = StatusActive
       \<and> mem_ValidFrom (ri_Memory item) \<le> rr_Now request
       \<and> (mem_ValidUntil (ri_Memory item) = 0 \<or> rr_Now request < mem_ValidUntil (ri_Memory item))
       \<and> Kind_IsValid (mem_Kind (ri_Memory item))
       \<and> TrimSpace (mem_Content (ri_Memory item)) \<noteq> ''''
       \<and> refs_ok (ri_Sources item))
     \<and> distinct (map (\<lambda>item. mem_ID (ri_Memory item)) (rs_Items result))
     \<and> int (length (rs_Items result)) \<le> rp_MaxItems (rc_policy r)
     \<and> sum_list (map (item_cost r) (rs_Items result)) \<le> rp_MaxTokens (rc_policy r)"
proof (cases "searches (query_of r request)")
  case False
  with Recall_Inr [OF assms] show ?thesis by simp
next
  case True
  let ?q = "query_of r request"
  from True Recall_Inr [OF assms] obtain ranked where rk: "is_ranking L (rrfk r) (counted r ?q) ranked"
    and items: "rs_Items result = greedy (item_cost r) (nat (rp_MaxItems (rc_policy r))) (rp_MaxTokens (rc_policy r)) (map fu_item ranked)"
    and ok: "\<forall>l \<in> set (set_channels (fst (rc_search r ?q)) ?q). channel_ok ?q l"
    and pos: "0 < rp_MaxItems (rc_policy r)" "0 < rp_MaxTokens (rc_policy r)" by auto
  have sub: "set (rs_Items result) \<subseteq> set (map fu_item ranked)" unfolding items by (rule greedy_subset)
  have "distinct (map (\<lambda>item. mem_ID (ri_Memory item)) (map fu_item ranked))"
    using ranking_distinct [OF rk] by (simp add: fu_ID_def [abs_def] comp_def)
  then have "distinct (map (\<lambda>item. mem_ID (ri_Memory item)) (rs_Items result))"
    unfolding items by (rule greedy_distinct)
  moreover have "int (length (rs_Items result)) \<le> rp_MaxItems (rc_policy r)"
    using greedy_length [of "item_cost r" "nat (rp_MaxItems (rc_policy r))"] pos unfolding items
    by (meson le_nat_iff less_imp_le)
  moreover have "sum_list (map (item_cost r) (rs_Items result)) \<le> rp_MaxTokens (rc_policy r)"
    unfolding items using pos by (intro greedy_cost) simp
  moreover have "mem_Scope (ri_Memory x) = rr_Scope request \<and> mem_Status (ri_Memory x) = StatusActive
       \<and> mem_ValidFrom (ri_Memory x) \<le> rr_Now request
       \<and> (mem_ValidUntil (ri_Memory x) = 0 \<or> rr_Now request < mem_ValidUntil (ri_Memory x))
       \<and> Kind_IsValid (mem_Kind (ri_Memory x)) \<and> TrimSpace (mem_Content (ri_Memory x)) \<noteq> '''' \<and> refs_ok (ri_Sources x)"
    if x: "x \<in> set (rs_Items result)" for x
  proof -
    from x sub have "x \<in> set (map fu_item ranked)" by blast
    with ranking_item [OF rk] obtain c where c: "c \<in> set (counted r ?q)" "x = item_of c" by blast
    from c(1) obtain l where l: "l \<in> set (set_channels (fst (rc_search r ?q)) ?q)" "c \<in> set (ch_candidates l)"
      and k: "kept ?q l c" by (rule counted_candidate)
    from ok l have v: "valid_candidate ?q l c" by (simp add: channel_ok_def)
    have "mem_Scope (can_Memory c) = rr_Scope request" "Kind_IsValid (mem_Kind (can_Memory c))"
      "TrimSpace (mem_Content (can_Memory c)) \<noteq> ''''" "refs_ok (can_Sources c)"
      using v by (simp_all add: valid_candidate_def well_formed_memory_def)
    moreover have "mem_Status (can_Memory c) = StatusActive" "\<not> rr_Now request < mem_ValidFrom (can_Memory c)"
      "mem_ValidUntil (can_Memory c) = 0 \<or> rr_Now request < mem_ValidUntil (can_Memory c)"
      using k by (auto simp: kept_def current_def)
    ultimately show ?thesis unfolding c(2) item_of_def by simp
  qed
  ultimately show ?thesis by blast
qed

text \<open>Property C22. A recall is the greedy choice within the budget over the unique ranking of the validated candidates
  by their rounded reciprocal rank score, ties broken by importance, last update and ID; the order of
  the map's iteration does not show. The vector channel is reported as degraded exactly when the
  embedder or the search failed.
\<close>

theorem recall_ranked:
  assumes "NewRecaller config = Inr r" and "Recall L ctx r request = Inr result"
    and "searches (query_of r request)"
  shows "(\<exists>!ranked. is_ranking L (rrfk r) (counted r (query_of r request)) ranked)
     \<and> (\<forall>ranked. is_ranking L (rrfk r) (counted r (query_of r request)) ranked \<longrightarrow>
          rs_Items result = greedy (item_cost r) (nat (rp_MaxItems (rc_policy r))) (rp_MaxTokens (rc_policy r)) (map fu_item ranked))
     \<and> rs_DegradedChannels result
          = (if embedding_failed r request \<or> snd (rc_search r (query_of r request)) \<noteq> None then [ChannelVector] else [])"
proof -
  from assms(3) Recall_Inr [OF assms(1,2)] obtain best where best: "is_ranking L (rrfk r) (counted r (query_of r request)) best"
    and items: "rs_Items result = greedy (item_cost r) (nat (rp_MaxItems (rc_policy r))) (rp_MaxTokens (rc_policy r)) (map fu_item best)"
    by auto
  have unique: "ranked = best" if "is_ranking L (rrfk r) (counted r (query_of r request)) ranked" for ranked
    by (rule ranking_unique [OF that best])
  show ?thesis
  proof (intro conjI allI impI)
    show "\<exists>!ranked. is_ranking L (rrfk r) (counted r (query_of r request)) ranked"
      by (rule ex1I, rule best, rule unique)
  next
    fix ranked assume "is_ranking L (rrfk r) (counted r (query_of r request)) ranked"
    then have "ranked = best" by (rule unique)
    with items show "rs_Items result = greedy (item_cost r) (nat (rp_MaxItems (rc_policy r))) (rp_MaxTokens (rc_policy r)) (map fu_item ranked)"
      by simp
  next
    show "rs_DegradedChannels result
      = (if embedding_failed r request \<or> snd (rc_search r (query_of r request)) \<noteq> None then [ChannelVector] else [])"
      using Recall_Inr [OF assms(1,2)] assms(3) by simp
  qed
qed

section \<open>Recall over the in-memory store\<close>

text \<open>What the store keeps true of every memory, when its clients give their sources a kind and a reference.\<close>

fun clean_op :: "mem_op \<Rightarrow> bool" where
  "clean_op (OpCreate ctx r) \<longleftrightarrow> refs_ok (crq_Sources r)"
| "clean_op (OpCorrect ctx r) \<longleftrightarrow> refs_ok (cor_Sources r)"
| "clean_op _ \<longleftrightarrow> True"

definition stored_ok :: "mem_libs \<Rightarrow> Memory \<Rightarrow> Source list \<Rightarrow> bool" where
  "stored_ok L m ss \<longleftrightarrow> ValidateMemoryID L (mem_ID m) = None \<and> Kind_IsValid (mem_Kind m) \<and> MemStatus_IsValid (mem_Status m)
     \<and> TrimSpace (mem_Key m) \<noteq> '''' \<and> (mem_Status m \<noteq> StatusInactive \<longrightarrow> TrimSpace (mem_Content m) \<noteq> '''')
     \<and> validImportance (mem_Importance m) \<and> validConfidence (mem_Confidence m)
     \<and> validTimeRange (mem_ValidFrom m) (mem_ValidUntil m) \<and> refs_ok ss"

definition all_stored_ok :: "mem_libs \<Rightarrow> MemStore \<Rightarrow> bool" where
  "all_stored_ok L s \<longleftrightarrow> (\<forall>i m. memory_at s i = Some m \<longrightarrow> stored_ok L m (sources_at s i))"

lemma stored_ok_retired: "stored_ok L m ss \<Longrightarrow> stored_ok L (retired now m) ss"
  by (simp add: stored_ok_def retired_def MemStatus_IsValid_def)

lemma stored_ok_activated: "stored_ok L m ss \<Longrightarrow> mem_Status m = StatusCandidate \<Longrightarrow> stored_ok L (activated now m) ss"
  by (simp add: stored_ok_def activated_def MemStatus_IsValid_def)

lemma stored_ok_erased: "stored_ok L m ss \<Longrightarrow> stored_ok L (erased now m) []"
  by (simp add: stored_ok_def erased_def MemStatus_IsValid_def refs_ok_def)

lemma stored_ok_request:
  assumes "ValidateCreateRequest L r l = None" and "refs_ok (crq_Sources r)"
  shows "stored_ok L (request_memory r) (crq_Sources r)"
proof -
  have "ValidateMemoryID L (crq_ID r) = None" "Kind_IsValid (crq_Kind r)" "MemStatus_IsValid (crq_Status r)"
    "validKey (crq_Key r) (lim_MaxKeyRunes l)" "validContent (crq_Content r) (lim_MaxContentRunes l)"
    "validTimeRange (crq_ValidFrom r) (crq_ValidUntil r)" "validImportance (crq_Importance r)" "validConfidence (crq_Confidence r)"
    using assms(1) by (simp_all add: ValidateCreateRequest_def first_error_None check_def split: if_splits)
  with assms(2) show ?thesis
    by (simp add: stored_ok_def request_memory_def validKey_def validContent_def)
qed

lemma stored_ok_corrected:
  assumes "ValidateCorrectRequest L r l = None" and "refs_ok (cor_Sources r)" and "stored_ok L m ss"
  shows "stored_ok L (corrected r m) (cor_Sources r)"
proof -
  have "validContent (cor_Content r) (lim_MaxContentRunes l)" "validTimeRange (cor_ValidFrom r) (cor_ValidUntil r)"
    "validImportance (cor_Importance r)" "validConfidence (cor_Confidence r)"
    using assms(1) by (simp_all add: ValidateCorrectRequest_def first_error_None check_def split: if_splits)
  with assms(2,3) show ?thesis
    by (simp add: stored_ok_def corrected_def validContent_def)
qed

lemma Correct_validates: "snd (Correct L ctx r s) \<noteq> s \<Longrightarrow> ValidateCorrectRequest L r (ms_limits s) = None"
  by (auto simp: Correct_def entry_error_def split: option.splits)

lemma performs_stored:
  assumes "performs op m s (mem_apply L op s)" and "mem_apply L op s \<noteq> s" and "ids_ok s" and "clean_op op"
    and "memory_at s (mem_ID m) = Some m" and "all_stored_ok L s"
  shows "all_stored_ok L (mem_apply L op s)"
proof -
  have st: "stored_ok L n (sources_at s i)" if "memory_at s i = Some n" for i n
    using assms(6) that by (simp add: all_stored_ok_def)
  note own = st [OF assms(5)]
  have "stored_ok L n (sources_at (mem_apply L op s) i)" if n: "memory_at (mem_apply L op s) i = Some n" for i n
    using assms(1)
  proof cases
    case (activates ctx c)
    then show ?thesis using n st stored_ok_activated [OF own activates(3)] stored_ok_retired
      by (auto simp: supersede_at [OF assms(3)] supersede_sources [OF assms(3)] split: if_splits)
  next
    case (corrects ctx r)
    have "ValidateCorrectRequest L r (ms_limits s) = None"
      using assms(2) corrects(1) by (intro Correct_validates) simp
    then have "stored_ok L (corrected r m) (cor_Sources r)"
      using assms(4) own corrects(1) by (simp add: stored_ok_corrected)
    with corrects n st show ?thesis by (auto split: if_splits)
  next
    case (dismisses ctx c)
    with n st stored_ok_retired [OF own] show ?thesis by (auto split: if_splits)
  next
    case (forgets ctx c)
    with n st stored_ok_retired [OF own] show ?thesis by (auto split: if_splits)
  next
    case (erases ctx c)
    with n st stored_ok_erased [OF own] show ?thesis by (auto split: if_splits)
  qed
  then show ?thesis by (simp add: all_stored_ok_def)
qed

lemma apply_stored:
  assumes "ids_ok s" and "clean_op op" and "all_stored_ok L s"
  shows "all_stored_ok L (mem_apply L op s)"
proof (cases "mem_apply L op s = s")
  case changed: False
  show ?thesis
  proof (rule apply_cases [of L op s])
    fix ctx r fp assume op: "op = OpCreate ctx r" and at: "mem_apply L op s = insert_memory r fp s"
    have "ValidateCreateRequest L r (ms_limits s) = None"
      using create_inserts [of L ctx r s] changed op by (metis mem_apply.simps(1) prod.collapse)
    then have "stored_ok L (request_memory r) (crq_Sources r)" using op assms(2) by (simp add: stored_ok_request)
    then show ?thesis using assms(3) stored_ok_retired unfolding at
      by (auto simp: all_stored_ok_def insert_memory_simps make_room_at [OF assms(1)] split: if_splits)
  next
    fix c m assume "commandTargetLocked c s = Inr m" "performs op m s (mem_apply L op s)"
    then show ?thesis using performs_stored changed assms target_id by blast
  next
    fix ctx r assume "op = OpPut ctx r"
    then show ?thesis using assms(3) by (simp add: all_stored_ok_def put_embedding_frame)
  qed (use changed in simp)
qed (use assms in simp)

lemma run_stored:
  "ids_ok s \<Longrightarrow> \<forall>op \<in> set ops. clean_op op \<Longrightarrow> all_stored_ok L s \<Longrightarrow> all_stored_ok L (mem_run L ops s)"
  by (induction ops arbitrary: s) (simp_all add: apply_stored apply_ids_ok)

text \<open>The store's search as the recaller sees it.\<close>

fun mem_dep_error :: "MemError \<Rightarrow> dep_error" where
  "mem_dep_error (MemCtx e) = DepCtx e"
| "mem_dep_error _ = DepOther ''memory store'' []"

definition store_search :: "mem_libs \<Rightarrow> (nat \<Rightarrow> ctx) \<Rightarrow> MemStore \<Rightarrow> CandidateQuery \<Rightarrow> CandidateSet \<times> dep_error option" where
  "store_search L ctx s q = (case SearchCandidates L ctx q s of
      Inr cs \<Rightarrow> (cs, None)
    | Inl e \<Rightarrow> (\<lparr>cs_Exact = [], cs_FullText = [], cs_Vector = []\<rparr>, Some (mem_dep_error e)))"

lemma map_rank_ID: "map can_ID (rankCandidates cs n ch) = map can_ID (take (nat n) cs)"
proof -
  have "map (\<lambda>x. can_ID (snd x)) (enumerate k xs) = map can_ID xs" for k and xs :: "Candidate list"
    by (induction xs arbitrary: k) simp_all
  from this [of 0 "take (nat n) cs"] show ?thesis
    by (simp add: rankCandidates_def comp_def case_prod_beta)
qed

lemma rank_distinct:
  assumes "distinct (map can_ID cs)"
  shows "distinct (map can_ID (rankCandidates (sort_by lt cs) n ch))"
proof -
  have "mset (map can_ID (sort_by lt cs)) = mset (map can_ID cs)" by simp
  with assms have "distinct (map can_ID (sort_by lt cs))" by (metis mset_eq_imp_distinct_iff)
  then show ?thesis unfolding map_rank_ID by (simp add: take_map [symmetric])
qed

lemma entries_distinct:
  assumes "ids_ok s"
  shows "distinct (map (\<lambda>e. mem_ID (snd e)) (filter P (ms_memories s)))"
proof -
  have "map (\<lambda>e. mem_ID (snd e)) (filter P (ms_memories s)) = map fst (filter P (ms_memories s))"
    using assms by (auto simp: ids_ok_mem [OF assms] dest: ids_ok_id)
  moreover have "distinct (map fst (ms_memories s))" using assms by (simp add: ids_ok_def wf_map_def)
  ultimately show ?thesis by (simp only: distinct_map_filter)
qed

lemma candidate_IDs:
  "map can_ID (map (candidate_of s x) es) = map (\<lambda>e. mem_ID (snd e)) es"
  "map can_ID (concat (map (\<lambda>e. case f e of None \<Rightarrow> [] | Some sim \<Rightarrow> [candidate_of s sim e]) es))
     = map (\<lambda>e. mem_ID (snd e)) (filter (\<lambda>e. f e \<noteq> None) es)"
  by (induction es) (auto simp: candidate_of_def split: option.splits)

lemma candidates_distinct:
  assumes "ids_ok s" and "es = filter P (ms_memories s)"
  shows "distinct (map can_ID (exact_candidates q s es))" "distinct (map can_ID (text_candidates L q s es))"
    "distinct (map can_ID (vector_candidates L q s es))"
  using entries_distinct [OF assms(1)] unfolding assms(2) exact_candidates_def text_candidates_def vector_candidates_def Let_def
  by (simp_all only: candidate_IDs filter_filter if_distrib [of "\<lambda>xs. distinct (map can_ID xs)"] if_distrib [of "filter _"]) simp_all

lemma candidates_empty:
  "cq_ExactLimit q \<le> 0 \<or> cq_Keys q = [] \<Longrightarrow> exact_candidates q s es = []"
  "cq_FullTextLimit q \<le> 0 \<Longrightarrow> text_candidates L q s es = []" "cq_VectorLimit q \<le> 0 \<Longrightarrow> vector_candidates L q s es = []"
  by (auto simp: exact_candidates_def text_candidates_def vector_candidates_def)

lemma cosine_bound: "cosineSimilarity L xs ys = Some v \<Longrightarrow> v \<le> 1"
  by (auto simp: cosineSimilarity_def Let_def split: if_splits)

lemma vector_similarity:
  assumes "c \<in> set (vector_candidates L q s es)"
  obtains v where "can_Similarity c = Some v" and "the (cq_MinVectorSimilarity q) \<le> v" and "v \<le> 1"
proof -
  from assms obtain e v where "vector_match L q s e = Some v" "c = candidate_of s v e"
    by (auto simp: vector_candidates_def split: if_splits option.splits) metis
  moreover then have "the (cq_MinVectorSimilarity q) \<le> v" "v \<le> 1"
    by (auto simp: vector_match_def split: prod.splits option.splits if_splits dest: cosine_bound)
  ultimately show thesis using that by (simp add: candidate_of_def split: prod.splits)
qed

lemma rank_rank:
  assumes "c \<in> set (rankCandidates cs n ch)" and "0 \<le> n"
  shows "0 < can_Rank c" "can_Rank c \<le> n" "can_Channel c = ch"
proof -
  have "can_Rank c \<in> set (map can_Rank (rankCandidates cs n ch))" using assms(1) by simp
  with rank_length [OF assms(2), of cs ch] show "0 < can_Rank c" "can_Rank c \<le> n" by (auto simp: rank_ranks)
  from rank_set [OF assms(1)] show "can_Channel c = ch" by blast
qed

text \<open>What a search over a store in order gives: candidates that pass the recaller's checks.\<close>

definition from_store :: "mem_libs \<Rightarrow> CandidateQuery \<Rightarrow> MemStore \<Rightarrow> Candidate \<Rightarrow> bool" where
  "from_store L q s c \<longleftrightarrow> recalled q s c \<and> well_formed_memory q (can_Memory c) \<and> refs_ok (can_Sources c)
     \<and> TrimSpace (can_ID c) \<noteq> ''''"

lemma recalled_from_store:
  assumes "mem_inv s" and "all_stored_ok L s" and "\<And>i. ml_uuid L i = Some i \<Longrightarrow> TrimSpace i \<noteq> ''''" and "recalled q s c"
  shows "from_store L q s c"
proof -
  let ?m = "can_Memory c"
  from assms(4) have at: "memory_at s (mem_ID ?m) = Some ?m" "can_Sources c = sources_at s (mem_ID ?m)"
    "mem_Scope ?m = cq_Scope q" "mem_Status ?m = StatusActive" by (simp_all add: recalled_def Let_def)
  with assms(2) have ok: "stored_ok L ?m (can_Sources c)" by (auto simp: all_stored_ok_def)
  have "log_ok (Some ?m) (revisions_at s (mem_ID ?m))" using assms(1) at(1) unfolding mem_inv_def by metis
  then have "1 \<le> mem_Version ?m" by (simp add: log_ok_def)
  moreover have "(case mem_Confidence ?m of None \<Rightarrow> True | Some v \<Rightarrow> v < 0 \<or> v > 1) = False"
    using ok by (auto simp: stored_ok_def validConfidence_def split: option.splits)
  ultimately have "well_formed_memory q ?m"
    using ok at(3,4) unfolding well_formed_memory_def stored_ok_def validImportance_def validTimeRange_def by auto
  moreover have "TrimSpace (can_ID c) \<noteq> ''''"
    using ok assms(3) by (auto simp: stored_ok_def ValidateMemoryID_def split: if_splits)
  ultimately show ?thesis using assms(4) ok by (simp add: from_store_def stored_ok_def)
qed

lemma from_store_cong:
  "from_store L q s d \<Longrightarrow> can_Memory c = can_Memory d \<Longrightarrow> can_Sources c = can_Sources d \<Longrightarrow> from_store L q s c"
  by (simp add: from_store_def recalled_def)

lemma ranked_channel_ok:
  assumes "distinct (map can_ID xs)" and "\<And>d. d \<in> set xs \<Longrightarrow> from_store L q s d" and "0 \<le> n"
    and "enabled \<or> xs = []"
    and "ch = ChannelVector \<Longrightarrow> \<forall>d \<in> set xs. \<exists>v. can_Similarity d = Some v \<and> 0 \<le> v \<and> v \<le> 1"
  shows "channel_ok q \<lparr>ch_channel = ch, ch_candidates = rankCandidates (sort_by lt xs) n ch, ch_limit = n, ch_enabled = enabled\<rparr>"
    (is "channel_ok q ?l")
proof -
  have "valid_candidate q ?l c" if c: "c \<in> set (rankCandidates (sort_by lt xs) n ch)" for c
  proof -
    from c obtain d where d: "d \<in> set xs" "can_Memory c = can_Memory d" "can_Sources c = can_Sources d"
      "can_Similarity c = can_Similarity d" by (rule rank_sorted)
    have f: "from_store L q s c" by (rule from_store_cong [OF assms(2) [OF d(1)] d(2,3)])
    have "similarity_ok ?l c" using assms(5) d(1,4) by (fastforce simp: similarity_ok_def)
    with f rank_rank [OF c assms(3)] show ?thesis
      by (simp add: valid_candidate_def well_formed_def from_store_def)
  qed
  moreover have "int (length (rankCandidates (sort_by lt xs) n ch)) \<le> n" using rank_length [OF assms(3)] by simp
  moreover have "enabled \<or> rankCandidates (sort_by lt xs) n ch = []"
    using assms(4) by (auto simp: rankCandidates_def sort_by_def)
  ultimately show ?thesis unfolding channel_ok_def using rank_distinct [OF assms(1)] by simp
qed

lemma search_channels_ok:
  assumes "mem_inv s" and "all_stored_ok L s" and "\<And>i. ml_uuid L i = Some i \<Longrightarrow> TrimSpace i \<noteq> ''''"
    and "SearchCandidates L ctx q s = Inr cs" and "TrimSpace (cq_Text q) = '''' \<Longrightarrow> cq_FullTextLimit q = 0"
  shows "\<forall>l \<in> set (set_channels cs q). channel_ok q l"
    and "\<forall>c \<in> set (all_candidates (set_channels cs q)). from_store L q s c"
proof -
  let ?es = "filter (\<lambda>(i, m). searchable q m) (ms_memories s)"
  have ids: "ids_ok s" using assms(1) by (simp add: mem_inv_def)
  have cs: "cs_Exact cs = rankCandidates (sort_by candidateMetadataLess (exact_candidates q s ?es)) (cq_ExactLimit q) ''exact''"
    "cs_FullText cs = rankCandidates (sort_by (text_before L q) (text_candidates L q s ?es)) (cq_FullTextLimit q) ''full_text''"
    "cs_Vector cs = rankCandidates (sort_by vector_before (vector_candidates L q s ?es)) (cq_VectorLimit q) ''vector''"
    and valid: "ValidateCandidateQuery L q (ms_limits s) = None"
    using assms(4) by (auto simp: SearchCandidates_def entry_error_def Let_def split: option.splits)
  have lim: "0 \<le> cq_ExactLimit q" "0 \<le> cq_FullTextLimit q" "0 \<le> cq_VectorLimit q"
    using valid by (simp_all add: ValidateCandidateQuery_def check_def Let_def first_error_None split: if_splits)
  have vec: "cq_VectorLimit q > 0 \<Longrightarrow> cq_QueryVector q \<noteq> [] \<and> 0 \<le> the (cq_MinVectorSimilarity q)"
    using valid by (auto simp: ValidateCandidateQuery_def check_def Let_def first_error_None validConfidence_def split: if_splits option.splits)
  note fs = recalled_from_store [OF assms(1-3)]
  note rc = candidates_recalled [OF ids refl]
  have f: "d \<in> set (exact_candidates q s ?es) \<Longrightarrow> from_store L q s d" "d \<in> set (text_candidates L q s ?es) \<Longrightarrow> from_store L q s d"
    "d \<in> set (vector_candidates L q s ?es) \<Longrightarrow> from_store L q s d" for d
    using fs rc by blast+
  note dist = candidates_distinct [OF ids refl]
  have "channel_ok q \<lparr>ch_channel = ChannelExact, ch_candidates = cs_Exact cs, ch_limit = cq_ExactLimit q,
       ch_enabled = (cq_ExactLimit q > 0 \<and> cq_Keys q \<noteq> [])\<rparr>"
    unfolding cs
  proof (rule ranked_channel_ok [OF dist(1) f(1) lim(1)])
    show "(cq_ExactLimit q > 0 \<and> cq_Keys q \<noteq> []) \<or> exact_candidates q s ?es = []"
      using candidates_empty(1) [of q s ?es] by (meson not_le)
  qed simp_all
  moreover have "channel_ok q \<lparr>ch_channel = ChannelFullText, ch_candidates = cs_FullText cs, ch_limit = cq_FullTextLimit q,
       ch_enabled = (cq_FullTextLimit q > 0 \<and> TrimSpace (cq_Text q) \<noteq> '''')\<rparr>"
    unfolding cs
  proof (rule ranked_channel_ok [OF dist(2) f(2) lim(2)])
    show "(cq_FullTextLimit q > 0 \<and> TrimSpace (cq_Text q) \<noteq> '''') \<or> text_candidates L q s ?es = []"
      using assms(5) candidates_empty(2) [of q L s ?es] by (metis not_le order_refl)
  qed simp_all
  moreover have "channel_ok q \<lparr>ch_channel = ChannelVector, ch_candidates = cs_Vector cs, ch_limit = cq_VectorLimit q,
       ch_enabled = (cq_VectorLimit q > 0 \<and> cq_QueryVector q \<noteq> [])\<rparr>"
    unfolding cs
  proof (rule ranked_channel_ok [OF dist(3) f(3) lim(3)])
    show "(cq_VectorLimit q > 0 \<and> cq_QueryVector q \<noteq> []) \<or> vector_candidates L q s ?es = []"
      using vec lim by (cases "cq_VectorLimit q > 0") (simp_all add: candidates_empty)
    show "\<forall>d \<in> set (vector_candidates L q s ?es). \<exists>v. can_Similarity d = Some v \<and> 0 \<le> v \<and> v \<le> 1"
    proof
      fix d assume d: "d \<in> set (vector_candidates L q s ?es)"
      then have "cq_VectorLimit q > 0" by (simp add: vector_candidates_def split: if_splits)
      with vec vector_similarity [OF d] show "\<exists>v. can_Similarity d = Some v \<and> 0 \<le> v \<and> v \<le> 1" by (metis order_trans)
    qed
  qed
  ultimately show "\<forall>l \<in> set (set_channels cs q). channel_ok q l" by (simp add: set_channels_def)
  have "from_store L q s c" if "c \<in> set (rankCandidates (sort_by lt xs) n ch)" and "\<And>d. d \<in> set xs \<Longrightarrow> from_store L q s d"
    for c lt xs n ch using that from_store_cong by (metis rank_sorted)
  with f show "\<forall>c \<in> set (all_candidates (set_channels cs q)). from_store L q s c"
    unfolding all_candidates_def set_channels_def cs by (simp, blast)
qed

lemma take_items_Inl:
  assumes "take_items ctx r budget items rest n = (Inl ErrInvalidRecallResult, n')"
  shows "\<exists>x \<in> set rest. \<not> refs_ok (ri_Sources x)"
  using assms
proof (induction rest arbitrary: budget items n)
  case (Cons x rest)
  show ?case
  proof (cases "canonicalRecallPayload r x")
    case (Inl e)
    show ?thesis
    proof (cases "refs_ok (ri_Sources x)")
      case True
      then obtain refs where "normalizedSourceRefs (ri_Sources x) = Inr refs" using normalizedSourceRefs_Inr(1) by blast
      with Inl have "e \<noteq> ErrInvalidRecallResult" by (auto simp: canonicalRecallPayload_def split: option.splits)
      with Cons.prems Inl show ?thesis by (simp split: if_splits)
    qed simp
  next
    case (Inr payload)
    with Cons.prems have "\<exists>b is k. take_items ctx r b is rest k = (Inl ErrInvalidRecallResult, n')"
      by (auto simp: Let_def elim!: rbind_Inl dest: read_ctx_Inl split: if_splits)
    with Cons.IH show ?thesis by auto
  qed
qed simp

lemma fuse_Inl:
  assumes "fuse L ctx r channels n = (Inl e, n')"
  shows "\<exists>c. e = RecallMem (MemCtx c)"
  using assms by (auto simp: fuse_def Let_def elim!: rbind_Inl dest: read_ctx_Inl fuse_candidates_Inl)

lemma validateCandidateSet_complete:
  assumes "\<forall>l \<in> set (set_channels cs q). channel_ok q l" and "coherent (set (all_candidates (set_channels cs q)))"
    and "validateCandidateSet ctx cs q n = (Inl e, n')"
  shows "\<exists>c. e = RecallMem (MemCtx c)"
proof -
  have none: "\<forall>c \<in> set (all_candidates (set_channels cs q)). agrees [] c" by (simp add: agrees_def)
  from assms(3) show ?thesis unfolding validateCandidateSet_def
    by (auto elim!: rbind_Inl dest: read_ctx_Inl validate_channels_complete [OF assms(1,2) none])
qed

lemma safe_error: "safeRecallDependencyError err \<noteq> ErrInvalidRecallResult"
  by (simp add: safeRecallDependencyError_def split: option.splits)

lemma embed_query_Inl: "embed_query L ctx r request n \<noteq> (Inl ErrInvalidRecallResult, n')"
proof
  assume a: "embed_query L ctx r request n = (Inl ErrInvalidRecallResult, n')"
  then show False
    by (auto simp: embed_query_def Let_def safe_error elim!: rbind_Inl dest: read_ctx_Inl
        split: option.splits if_splits sum.splits)
      (use safe_error in metis)
qed

lemma store_verdict: "\<exists>err. search_verdict q cs (mem_dep_error e) = Some err \<and> err \<noteq> ErrInvalidRecallResult"
  by (cases e) (auto simp: search_verdict_def first_some_def dependencyContextError_def Let_def safe_error
      split: option.splits if_splits)

lemma from_store_coherent: "\<forall>c \<in> C. from_store L q s c \<Longrightarrow> coherent C"
  unfolding coherent_def from_store_def recalled_def Let_def identity_of_def by (metis option.inject)

lemma query_text: "TrimSpace (cq_Text (query_of r request)) = '''' \<Longrightarrow> cq_FullTextLimit (query_of r request) = 0"
  by (simp add: query_of_def base_query_def split: option.splits sum.splits list.splits)

lemma search_fuse_over_store:
  assumes "mem_inv s" and "all_stored_ok L s" and "\<And>i. ml_uuid L i = Some i \<Longrightarrow> TrimSpace i \<noteq> ''''"
    and "rc_search r = store_search L sctx s" and "TrimSpace (cq_Text q) = '''' \<Longrightarrow> cq_FullTextLimit q = 0"
  shows "search_and_fuse L ctx r q degraded n \<noteq> (Inl ErrInvalidRecallResult, n')"
proof
  assume run: "search_and_fuse L ctx r q degraded n = (Inl ErrInvalidRecallResult, n')"
  show False
  proof (cases "SearchCandidates L sctx q s")
    case (Inl e)
    let ?none = "\<lparr>cs_Exact = [], cs_FullText = [], cs_Vector = []\<rparr>"
    obtain err where err: "search_verdict q ?none (mem_dep_error e) = Some err" "err \<noteq> ErrInvalidRecallResult"
      using store_verdict [of q ?none e] by blast
    from Inl have "store_search L sctx s q = (?none, Some (mem_dep_error e))" by (simp add: store_search_def)
    with assms(4) run err show False
      by (auto simp: search_and_fuse_def elim!: rbind_Inl dest: read_ctx_Inl)
  next
    case (Inr cs)
    note ok = search_channels_ok [OF assms(1-3) Inr assms(5)]
    note coh = from_store_coherent [OF ok(2)]
    have nv: "validateCandidateSet ctx cs q k \<noteq> (Inl ErrInvalidRecallResult, m)" for k m
      using validateCandidateSet_complete [OF ok(1) coh] by blast
    from Inr assms(4) run nv have "\<exists>channels fused n1 n2 n3. validateCandidateSet ctx cs q n1 = (Inr channels, n2)
        \<and> (\<exists>n4. fuse L ctx r channels n3 = (Inr fused, n4)) \<and>
        (\<exists>n5. take_items ctx r (rp_MaxTokens (rc_policy r)) [] fused n5 = (Inl ErrInvalidRecallResult, n'))"
      by (auto simp: search_and_fuse_def store_search_def finish_recall_def elim!: rbind_Inl
          dest: read_ctx_Inl fuse_Inl)
    then obtain channels fused n1 n2 n3 n4 n5 where v: "validateCandidateSet ctx cs q n1 = (Inr channels, n2)"
      and f: "fuse L ctx r channels n3 = (Inr fused, n4)"
      and t: "take_items ctx r (rp_MaxTokens (rc_policy r)) [] fused n5 = (Inl ErrInvalidRecallResult, n')" by blast
    from take_items_Inl [OF t] obtain x where x: "x \<in> set fused" "\<not> refs_ok (ri_Sources x)" by blast
    from fuse_Inr [OF f] x(1) obtain c where c: "c \<in> set (concat channels)" "x = item_of c" by (metis ranking_item)
    from c(1) have "c \<in> set (all_candidates (set_channels cs q))"
      unfolding validateCandidateSet_Inr(1) [OF v] by (auto simp: all_candidates_def kept_of_def)
    with ok(2) c(2) x(2) show False by (auto simp: from_store_def item_of_def)
  qed
qed

text \<open>One listed memory with a source of blank kind or reference stops the whole recall.\<close>

lemma blank_source_stops_recall:
  assumes "NewRecaller config = Inr r" and "searches (query_of r request)"
    and "l \<in> set (set_channels (fst (rc_search r (query_of r request))) (query_of r request))"
    and "c \<in> set (ch_candidates l)" and "\<not> refs_ok (can_Sources c)"
  shows "Recall L ctx r request \<noteq> Inr result"
proof
  assume "Recall L ctx r request = Inr result"
  from Recall_Inr [OF assms(1) this] assms(2-5) show False by (auto simp: channel_ok_def valid_candidate_def)
qed

text \<open>The recaller and the in-memory store fit together: over a store reached by any operations whose
  sources have a kind and a reference, a recall never rejects what the store returns. Without that
  condition it does: the store accepts sources with a blank kind, which the recaller refuses.
\<close>

theorem recall_accepts_store:
  assumes "New limits = Inr s0" and "\<forall>op \<in> set ops. clean_op op" and "s = mem_run L ops s0"
    and "\<And>i. ml_uuid L i = Some i \<Longrightarrow> TrimSpace i \<noteq> ''''" and "rc_search r = store_search L sctx s"
  shows "Recall L ctx r request \<noteq> Inl ErrInvalidRecallResult"
proof
  assume "Recall L ctx r request = Inl ErrInvalidRecallResult"
  then obtain n' where run: "Recall_from L ctx r request 0 = (Inl ErrInvalidRecallResult, n')"
    by (cases "Recall_from L ctx r request 0") (simp add: Recall_def)
  have inv: "mem_inv s" using mem_inv_reachable [OF assms(1)] assms(3) by simp
  have "all_stored_ok L s0" using assms(1) by (auto simp: New_def all_stored_ok_def split: option.splits)
  with assms(2,3) mem_inv_New [OF assms(1)] have ok: "all_stored_ok L s" by (simp add: run_stored mem_inv_def)
  have over: "search_and_fuse L ctx r (query_of r request) degraded n2 \<noteq> (Inl ErrInvalidRecallResult, n')" for degraded n2
    by (rule search_fuse_over_store [OF inv ok assms(4,5) query_text])
  from run obtain q degraded n1 n2 where "embed_query L ctx r request n1 = (Inr (q, degraded), n2)"
      "search_and_fuse L ctx r q degraded n2 = (Inl ErrInvalidRecallResult, n')"
    by (auto simp: Recall_from_def finish_recall_def embed_query_Inl elim!: rbind_Inl dest: read_ctx_Inl
        split: option.splits if_splits)
  moreover then have "q = query_of r request" using embed_query_Inr by blast
  ultimately show False using over by blast
qed

section \<open>Examples\<close>

definition demo_policy :: RecallPolicy where
  "demo_policy = \<lparr>rp_Version = ''v1'', rp_ExactLimit = 2, rp_FullTextLimit = 0, rp_VectorLimit = 0, rp_RRFK = Some 60,
     rp_MinVectorSimilarity = Some 0, rp_MaxItems = 2, rp_MaxTokens = 9, rp_MaxQueryRunes = 9, rp_MaxKeys = 2, rp_Deadline = 1,
     rp_EmbeddingProfileID = ''p'', rp_EmbeddingDimensions = 1\<rparr>"

definition demo_recaller :: "MemStore \<Rightarrow> Recaller" where
  "demo_recaller s = \<lparr>rc_search = store_search demo_mem_libs live_ctx s, rc_embed = None, rc_countTokens = (\<lambda>x. 1),
     rc_policy = demo_policy, rc_json = (\<lambda>x. Some '''')\<rparr>"

definition demo_recall :: RecallRequest where
  "demo_recall = \<lparr>rr_Scope = demo_scope ''t'', rr_Text = '''', rr_Keys = [''k''], rr_Kinds = [], rr_Now = 9\<rparr>"

lemma demo_recaller_new: "NewRecaller (demo_recaller s) = Inr (demo_recaller s)"
  by (simp add: NewRecaller_def RecallPolicy_Validate_def demo_recaller_def demo_policy_def TrimSpace_ascii is_space_def)

lemma demo_query_of: "query_of (demo_recaller s) demo_recall = demo_query ''t''"
  by (simp add: query_of_def embedding_of_def base_query_def demo_recaller_def demo_recall_def demo_query_def demo_policy_def
      TrimSpace_ascii)

lemma demo_entries:
  "ms_memories demo_first = [(''i'', request_memory (demo_create ''t'' ''i''))]" "sources_at demo_first ''i'' = []"
  by (simp_all add: insert_memory_def Let_def supersedeActiveLocked_def demo_mem_store_def put_memory_def put_sources_def
      appendRevisionLocked_def sources_at_def copySources_def) (simp add: demo_create_def)

lemma demo_search:
  "store_search demo_mem_libs live_ctx demo_first (demo_query ''t'') =
     (\<lparr>cs_Exact = [\<lparr>can_Memory = request_memory (demo_create ''t'' ''i''), can_Sources = [], can_Channel = ''exact'', can_Rank = 1,
        can_Similarity = Some 0\<rparr>], cs_FullText = [], cs_Vector = []\<rparr>, None)"
proof -
  have v: "ValidateCandidateQuery demo_mem_libs (demo_query ''t'') demo_limits = None"
    by (simp add: demo_checks demo_texts demo_query_def)
  have m: "searchable (demo_query ''t'') (request_memory (demo_create ''t'' ''i''))"
    "mem_Key (request_memory (demo_create ''t'' ''i'')) \<in> set (cq_Keys (demo_query ''t''))"
    by (simp_all add: searchable_def demo_query_def request_memory_def demo_create_def)
  show ?thesis unfolding store_search_def SearchCandidates_def entry_error_def
    using v m by (simp add: Let_def demo_entries exact_candidates_def text_candidates_def vector_candidates_def)
      (simp add: demo_query_def rankCandidates_def sort_by_def candidate_of_def demo_entries)
qed

lemma demo_recalled:
  "Recall demo_mem_libs live_ctx (demo_recaller demo_first) demo_recall =
     Inr \<lparr>rs_Items = [\<lparr>ri_Memory = request_memory (demo_create ''t'' ''i''), ri_Sources = []\<rparr>], rs_DegradedChannels = [],
       rs_PolicyVersion = ''v1''\<rparr>"
proof -
  let ?r = "demo_recaller demo_first" and ?q = "demo_query ''t''" and ?m = "request_memory (demo_create ''t'' ''i'')"
  let ?c = "\<lparr>can_Memory = ?m, can_Sources = [], can_Channel = ''exact'', can_Rank = 1, can_Similarity = Some 0\<rparr>"
  let ?cs = "\<lparr>cs_Exact = [?c], cs_FullText = [], cs_Vector = []\<rparr>"
  have valid: "validateAndCopyRequest ?r demo_recall = None"
    by (simp add: validateAndCopyRequest_def demo_recaller_def demo_recall_def demo_policy_def demo_scope_def Scope_Validate_def
        check_def TrimSpace_ascii is_space_def rune_count_def)
  have e: "embed_query demo_mem_libs live_ctx ?r demo_recall n = (Inr (?q, False), n)" for n
    using demo_query_of [of demo_first] by (simp add: embed_query_def query_of_def embedding_of_def demo_recaller_def rreturn_def)
  have read: "read_ctx live_ctx n = (Inr (), n + 1)" for n by (simp add: read_ctx_def)
  have m: "well_formed_memory ?q ?m" "current ?q ?m" "TrimSpace (mem_ID ?m) \<noteq> ''''"
    by (simp_all add: well_formed_memory_def current_def request_memory_def demo_query_def demo_create_def Kind_IsValid_def
        MemStatus_IsValid_def TrimSpace_ascii is_space_def)
  have v: "validateCandidateSet live_ctx ?cs ?q n = (Inr [[?c], [], []], n + 5)" for n
    using m by (simp add: validateCandidateSet_def set_channels_def rbind_def read rreturn_def check_candidate_def well_formed_def
        normalizedSourceRefs_def sort_by_def similarity_ok_def kept_def)
      (simp add: demo_query_def)
  have f: "fuse demo_mem_libs live_ctx ?r [[?c], [], []] n = (Inr [item_of ?c], n + 4)" for n
    by (simp add: fuse_def rbind_def read rreturn_def add_rank_def Let_def sort_by_def item_of_def)
  have t: "take_items live_ctx ?r 9 [] [item_of ?c] n = (Inr [item_of ?c], n + 1)" for n
    by (simp add: demo_recaller_def demo_policy_def canonicalRecallPayload_def normalizedSourceRefs_def sort_by_def item_of_def
        rbind_def read rreturn_def Let_def)
  have s: "rc_search ?r ?q = (?cs, None)" using demo_search by (simp add: demo_recaller_def)
  have p: "rp_MaxTokens (rc_policy ?r) = 9" "rp_Version (rc_policy ?r) = ''v1''" "cq_ExactLimit ?q = 2"
    by (simp_all add: demo_recaller_def demo_policy_def demo_query_def)
  show ?thesis
    by (simp add: Recall_def Recall_from_def valid rbind_def read e p search_and_fuse_def s v f t finish_recall_def rreturn_def del: take_items.simps)
      (simp add: item_of_def)
qed

theorem recall_trustworthy_witness:
  "\<exists>result. Recall demo_mem_libs live_ctx (demo_recaller demo_first) demo_recall = Inr result
     \<and> map (\<lambda>item. mem_Scope (ri_Memory item)) (rs_Items result) = [demo_scope ''t'']"
  using recall_trustworthy [OF demo_recaller_new demo_recalled] by (simp add: demo_recalled)

theorem recall_ranked_witness:
  "\<exists>!ranked. is_ranking demo_mem_libs 60 (counted (demo_recaller demo_first) (demo_query ''t'')) ranked"
proof -
  have "searches (query_of (demo_recaller demo_first) demo_recall)" unfolding demo_query_of by (simp add: searches_def demo_query_def)
  moreover have "rrfk (demo_recaller demo_first) = 60" by (simp add: rrfk_def demo_recaller_def demo_policy_def)
  ultimately show ?thesis using recall_ranked [OF demo_recaller_new demo_recalled] by (simp add: demo_query_of)
qed

theorem recall_accepts_store_witness:
  "Recall demo_mem_libs live_ctx (demo_recaller demo_first) demo_recall \<noteq> Inl ErrInvalidRecallResult
   \<and> ms_memories demo_first \<noteq> []"
proof -
  have run: "demo_first = mem_run demo_mem_libs [OpCreate live_ctx (demo_create ''t'' ''i'')] demo_mem_store"
    by (simp add: demo_mem_created)
  have "Recall demo_mem_libs live_ctx (demo_recaller demo_first) demo_recall \<noteq> Inl ErrInvalidRecallResult"
    by (rule recall_accepts_store [OF demo_new _ run]) (simp_all add: demo_recaller_def demo_create_def refs_ok_def demo_mem_libs_def split: if_splits)
  then show ?thesis by (simp add: demo_entries)
qed

end
