(* ===== verification/Memory_Extraction.thy ===== *)
theory Memory_Extraction
  imports Memory_Scopes
begin

text \<open>
  \<open>memorykit/extraction.go\<close>, \<open>memorykit/embedding.go\<close> and \<open>memorykit/eval.go\<close>: the workers that turn
  sources into candidate memories and memories into embeddings, the projection of trusted events, and
  the evaluation of recall results.

  The job store, the memory store, the reader, the extractor, the content validator, the embedder,
  the clock and the context are functions of a world \<open>'w\<close>, which every call may change.
\<close>

section \<open>Extraction jobs\<close>

text \<open>An error of a dependency: an error of the kit, the missing job, an invalid result, joined errors, or another one.\<close>

datatype XError =
    XMem MemError
  | ErrNoExtractionJob
  | XInvalidResult
  | XJoin XError XError
  | XOther string "XError list"

fun x_tree :: "XError \<Rightarrow> XError list" where
  "x_tree (XJoin a b) = XJoin a b # x_tree a @ x_tree b"
| "x_tree (XOther t es) = XOther t es # concat (map x_tree es)"
| "x_tree e = [e]"

definition is_conflict :: "XError \<Rightarrow> bool" where
  "is_conflict e \<longleftrightarrow> list_ex (\<lambda>x. case x of XMem (ErrConflict _) \<Rightarrow> True | _ \<Rightarrow> False) (x_tree e)"

definition is_no_job :: "XError \<Rightarrow> bool" where
  "is_no_job e \<longleftrightarrow> list_ex (\<lambda>x. x = ErrNoExtractionJob) (x_tree e)"

record CandidateDraft =
  dr_Kind :: Kind
  dr_Key :: string
  dr_Content :: string
  dr_ValidFrom :: time
  dr_ValidUntil :: time
  dr_Importance :: int
  dr_Confidence :: float_value

record ExtractionRequest =
  xr_Scope :: Scope
  xr_Source :: Source
  xr_SourceAgentID :: string
  xr_ExtractorID :: string
  xr_Text :: string
  xr_Now :: time

definition draft_request :: "CandidateDraft \<Rightarrow> string \<Rightarrow> Scope \<Rightarrow> CreateRequest" where
  "draft_request d i scope =
     \<lparr>crq_ID = i, crq_Scope = scope, crq_Kind = dr_Kind d, crq_Key = dr_Key d, crq_Status = StatusCandidate,
      crq_Content = dr_Content d, crq_ValidFrom = dr_ValidFrom d, crq_ValidUntil = dr_ValidUntil d,
      crq_Importance = dr_Importance d, crq_Confidence = dr_Confidence d, crq_SourceAgentID = '''', crq_Actor = '''',
      crq_Reason = '''', crq_IdempotencyKey = '''', crq_Sources = [], crq_Now = 0\<rparr>"

definition ValidateCandidateDraft :: "mem_libs \<Rightarrow> CandidateDraft \<Rightarrow> Limits \<Rightarrow> MemError option" where
  "ValidateCandidateDraft L d limits = ValidateCreateRequest L
     (draft_request d ''00000000-0000-4000-8000-000000000001''
        \<lparr>sc_TenantID = ''validation'', sc_SubjectType = SubjectProject, sc_SubjectID = ''validation''\<rparr>) limits"

abbreviation ExtractionLeased :: string where "ExtractionLeased \<equiv> ''leased''"

record ExtractionJob =
  xj_ID :: string
  xj_Scope :: Scope
  xj_Source :: Source
  xj_SourceAgentID :: string
  xj_ExtractorID :: string
  xj_Status :: string
  xj_Attempts :: int
  xj_LeaseOwner :: string
  xj_LeaseUntil :: time
  xj_CreatedAt :: time
  xj_UpdatedAt :: time

record 'w ExtractionWorker =
  xw_claim :: "string \<Rightarrow> duration \<Rightarrow> int \<Rightarrow> time \<Rightarrow> 'w \<Rightarrow> (XError + ExtractionJob) \<times> 'w"
  xw_complete :: "string \<Rightarrow> string \<Rightarrow> int \<Rightarrow> time \<Rightarrow> 'w \<Rightarrow> XError option \<times> 'w"
  xw_failed :: "string \<Rightarrow> string \<Rightarrow> int \<Rightarrow> string \<Rightarrow> int \<Rightarrow> time \<Rightarrow> 'w \<Rightarrow> XError option \<times> 'w"
  xw_create :: "CreateRequest \<Rightarrow> 'w \<Rightarrow> (XError + Memory) \<times> 'w"
  xw_read :: "Source \<Rightarrow> 'w \<Rightarrow> (XError + string) \<times> 'w"
  xw_extract :: "ExtractionRequest \<Rightarrow> 'w \<Rightarrow> (XError + CandidateDraft list) \<times> 'w"
  xw_validate :: "string \<Rightarrow> 'w \<Rightarrow> XError option \<times> 'w"
  xw_now :: "'w \<Rightarrow> time \<times> 'w"
  xw_ctx :: "'w \<Rightarrow> ctx"
  xw_limits :: Limits
  xw_workerID :: string
  xw_leaseDuration :: duration
  xw_maxAttempts :: int
  xw_sha1uuid :: "string \<Rightarrow> string \<Rightarrow> string"

definition ExtractionWorkerConfig_Validate :: "'w ExtractionWorker \<Rightarrow> MemError option" where
  "ExtractionWorkerConfig_Validate c = first_error
     [Limits_Validate (xw_limits c),
      check (\<not> (TrimSpace (xw_workerID c) = '''' \<or> xw_workerID c \<noteq> TrimSpace (xw_workerID c)
        \<or> \<not> validMetadata (xw_workerID c) (xw_limits c) \<or> xw_leaseDuration c < 1000
        \<or> xw_maxAttempts c \<le> 0 \<or> xw_maxAttempts c > 2147483647)) ''invalid extraction worker configuration'']"

definition NewExtractionWorker :: "'w ExtractionWorker \<Rightarrow> MemError + 'w ExtractionWorker" where
  "NewExtractionWorker c = (case ExtractionWorkerConfig_Validate c of Some e \<Rightarrow> Inl e | None \<Rightarrow> Inr c)"

text \<open>\<open>uuid.Parse\<close> of the job's ID succeeds when \<open>ml_uuid\<close> is defined; \<open>xw_sha1uuid\<close> is \<open>uuid.NewSHA1\<close>.\<close>

definition ExtractionCandidateID :: "mem_libs \<Rightarrow> (string \<Rightarrow> string \<Rightarrow> string) \<Rightarrow> string \<Rightarrow> CandidateDraft \<Rightarrow> MemError + string" where
  "ExtractionCandidateID L sha1uuid jobID d =
     (if ml_uuid L jobID = None then Inl (ErrInvalidMemory ''invalid extraction job ID'')
      else (let i = sha1uuid jobID (dr_Kind d @ [CHR 0x00] @ dr_Key d @ [CHR 0x00] @ dr_Content d)
            in case ValidateMemoryID L i of Some e \<Rightarrow> Inl e | None \<Rightarrow> Inr i))"

definition clock_error :: XError where
  "clock_error = XMem (ErrInvalidMemory ''invalid extraction worker clock'')"

definition transitionTime :: "'w ExtractionWorker \<Rightarrow> time \<Rightarrow> 'w \<Rightarrow> (time \<times> XError option) \<times> 'w" where
  "transitionTime xw notBefore w = (case xw_now xw w of (now, w) \<Rightarrow>
     if now = 0 \<or> now < notBefore then ((notBefore, Some clock_error), w) else ((now, None), w))"

definition leaseTime :: "'w ExtractionWorker \<Rightarrow> ExtractionJob \<Rightarrow> time \<Rightarrow> 'w \<Rightarrow> (time \<times> XError option) \<times> 'w" where
  "leaseTime xw job notBefore w = (case transitionTime xw notBefore w of
      ((now, Some e), w) \<Rightarrow> ((now, Some e), w)
    | ((now, None), w) \<Rightarrow>
        if \<not> now < xj_LeaseUntil job then ((now, Some (XMem (ErrConflict ''extraction lease expired''))), w)
        else ((now, None), w))"

definition failAt :: "'w ExtractionWorker \<Rightarrow> ExtractionJob \<Rightarrow> string \<Rightarrow> XError \<Rightarrow> time \<Rightarrow> 'w \<Rightarrow> XError \<times> 'w" where
  "failAt xw job code workErr transitionNow w =
     (case xw_failed xw (xj_ID job) (xw_workerID xw) (xj_Attempts job) code (xw_maxAttempts xw) transitionNow w of
        (Some e, w) \<Rightarrow> (XJoin workErr e, w)
      | (None, w) \<Rightarrow> (workErr, w))"

definition fail_job :: "'w ExtractionWorker \<Rightarrow> ExtractionJob \<Rightarrow> string \<Rightarrow> XError \<Rightarrow> time \<Rightarrow> 'w \<Rightarrow> XError \<times> 'w" where
  "fail_job xw job code workErr notBefore w = (case transitionTime xw notBefore w of
     ((now, clockErr), w) \<Rightarrow>
       failAt xw job code (case clockErr of Some e \<Rightarrow> XJoin workErr e | None \<Rightarrow> workErr) now w)"

definition contextError :: "'w ExtractionWorker \<Rightarrow> XError option \<Rightarrow> 'w \<Rightarrow> XError option" where
  "contextError xw err w = (case xw_ctx xw w of Some e \<Rightarrow> Some (XMem (MemCtx e)) | None \<Rightarrow> err)"

definition validateClaimedExtractionJob :: "mem_libs \<Rightarrow> ExtractionJob \<Rightarrow> string \<Rightarrow> int \<Rightarrow> time \<Rightarrow> Limits \<Rightarrow> MemError option" where
  "validateClaimedExtractionJob L job workerID maxAttempts claimNow limits = first_error
     [ValidateMemoryID L (xj_ID job), Scope_Validate (xj_Scope job), ValidateSources [xj_Source job] limits,
      check (\<not> (xj_Status job \<noteq> ExtractionLeased \<or> xj_LeaseOwner job \<noteq> workerID \<or> xj_Attempts job \<le> 0
        \<or> xj_Attempts job > maxAttempts \<or> \<not> xj_LeaseUntil job > claimNow \<or> xj_CreatedAt job = 0 \<or> xj_UpdatedAt job = 0
        \<or> xj_CreatedAt job > xj_UpdatedAt job \<or> xj_UpdatedAt job > claimNow
        \<or> TrimSpace (src_Kind (xj_Source job)) = '''' \<or> TrimSpace (src_Ref (xj_Source job)) = ''''
        \<or> xj_SourceAgentID job \<noteq> TrimSpace (xj_SourceAgentID job)
        \<or> TrimSpace (xj_ExtractorID job) = '''' \<or> xj_ExtractorID job \<noteq> TrimSpace (xj_ExtractorID job)
        \<or> \<not> validMetadata (xj_SourceAgentID job) limits \<or> \<not> validMetadata (xj_ExtractorID job) limits
        \<or> \<not> validMetadata (''extractor:'' @ xj_ExtractorID job) limits)) ''invalid claimed extraction job'']"

section \<open>Checking what the store created\<close>

definition equivalentStoreTime :: "time \<Rightarrow> time \<Rightarrow> bool" where
  "equivalentStoreTime left right \<longleftrightarrow> (left = 0 \<longleftrightarrow> right = 0) \<and> \<bar>left - right\<bar> \<le> 1000"

definition allowReviewedCandidateLifecycle :: "MemStatus \<Rightarrow> bool" where
  "allowReviewedCandidateLifecycle s \<longleftrightarrow> s = StatusCandidate \<or> s = StatusActive \<or> s = StatusInactive"

definition allowActiveOnly :: "MemStatus \<Rightarrow> bool" where
  "allowActiveOnly s \<longleftrightarrow> s = StatusActive"

definition memory_request :: "Memory \<Rightarrow> CreateRequest" where
  "memory_request m =
     \<lparr>crq_ID = mem_ID m, crq_Scope = mem_Scope m, crq_Kind = mem_Kind m, crq_Key = mem_Key m, crq_Status = mem_Status m,
      crq_Content = mem_Content m, crq_ValidFrom = mem_ValidFrom m, crq_ValidUntil = mem_ValidUntil m,
      crq_Importance = mem_Importance m, crq_Confidence = mem_Confidence m, crq_SourceAgentID = mem_SourceAgentID m,
      crq_Actor = mem_CreatedBy m, crq_Reason = '''', crq_IdempotencyKey = mem_IdempotencyKey m, crq_Sources = [], crq_Now = 0\<rparr>"

text \<open>The comparison of two confidences: \<open>!=\<close> on \<open>float64\<close>, true when one is not a number.\<close>

definition confidence_differs :: "float_value \<Rightarrow> float_value \<Rightarrow> bool" where
  "confidence_differs a b \<longleftrightarrow> a = None \<or> b = None \<or> a \<noteq> b"

definition validateCreateResult :: "mem_libs \<Rightarrow> Memory \<Rightarrow> CreateRequest \<Rightarrow> Limits \<Rightarrow> (MemStatus \<Rightarrow> bool) \<Rightarrow> XError option" where
  "validateCreateResult L m r limits allowReplay =
     (if mem_Version m \<le> 0 \<or> mem_ID m \<noteq> crq_ID r \<or> mem_Scope m \<noteq> crq_Scope r \<or> mem_Kind m \<noteq> crq_Kind r
       \<or> mem_Key m \<noteq> crq_Key r \<or> mem_CreatedBy m \<noteq> crq_Actor r \<or> mem_SourceAgentID m \<noteq> crq_SourceAgentID r
       \<or> mem_IdempotencyKey m \<noteq> crq_IdempotencyKey r \<or> mem_CreatedAt m = 0 \<or> mem_UpdatedAt m = 0
       \<or> mem_UpdatedAt m < mem_CreatedAt m \<or> mem_CreatedAt m - crq_Now r > 1000
      then Some XInvalidResult
      else if mem_Version m = 1 \<and>
        (mem_Status m \<noteq> crq_Status r \<or> mem_Content m \<noteq> crq_Content r
         \<or> \<not> equivalentStoreTime (mem_ValidFrom m) (crq_ValidFrom r) \<or> \<not> equivalentStoreTime (mem_ValidUntil m) (crq_ValidUntil r)
         \<or> mem_Importance m \<noteq> crq_Importance r \<or> confidence_differs (mem_Confidence m) (crq_Confidence r)
         \<or> \<not> equivalentStoreTime (mem_UpdatedAt m) (mem_CreatedAt m))
      then Some XInvalidResult
      else if mem_Version m \<noteq> 1 \<and> \<not> allowReplay (mem_Status m) then Some XInvalidResult
      else case ValidateCreateRequest L (memory_request m) limits of Some e \<Rightarrow> Some XInvalidResult | None \<Rightarrow> None)"

section \<open>One run of the extraction worker\<close>

text \<open>Why the work on a job stopped: failed with the earliest time of the transition, or at a time already read.\<close>

datatype work_stop = StopFrom string XError time | StopAt string XError time

definition candidate_request :: "ExtractionJob \<Rightarrow> time \<Rightarrow> string \<Rightarrow> CandidateDraft \<Rightarrow> CreateRequest" where
  "candidate_request job claimNow candidateID d = (draft_request d candidateID (xj_Scope job))
     \<lparr>crq_SourceAgentID := xj_SourceAgentID job, crq_Actor := ''extractor:'' @ xj_ExtractorID job,
      crq_Reason := ''model-derived candidate'', crq_IdempotencyKey := ''extraction:'' @ candidateID,
      crq_Sources := [xj_Source job], crq_Now := claimNow\<rparr>"

abbreviation validate_failed :: string where "validate_failed \<equiv> ''candidate_validate_failed''"
abbreviation write_failed :: string where "write_failed \<equiv> ''candidate_write_failed''"

text \<open>The store's answer to a create: a conflict means an earlier attempt captured this content.\<close>

definition write_candidate ::
  "mem_libs \<Rightarrow> 'w ExtractionWorker \<Rightarrow> ExtractionJob \<Rightarrow> CreateRequest \<Rightarrow> time \<Rightarrow> 'w \<Rightarrow> work_stop option \<times> 'w" where
  "write_candidate L xw job request claimNow w = (case leaseTime xw job claimNow w of
      ((writeNow, Some e), w) \<Rightarrow> (Some (StopAt write_failed e writeNow), w)
    | ((writeNow, None), w) \<Rightarrow>
        (case xw_create xw request w of (created, w) \<Rightarrow>
           (case created of
              Inl e \<Rightarrow> if is_conflict e then (None, w)
                       else (Some (StopFrom write_failed (the (contextError xw (Some e) w)) writeNow), w)
            | Inr m \<Rightarrow> (case contextError xw None w of
                  Some e \<Rightarrow> (Some (StopFrom write_failed e writeNow), w)
                | None \<Rightarrow> (case validateCreateResult L m request (xw_limits xw) allowReviewedCandidateLifecycle of
                      Some e \<Rightarrow> (Some (StopFrom write_failed e writeNow), w)
                    | None \<Rightarrow> (None, w))))))"

fun write_drafts ::
  "mem_libs \<Rightarrow> 'w ExtractionWorker \<Rightarrow> ExtractionJob \<Rightarrow> time \<Rightarrow> string list \<Rightarrow> CandidateDraft list \<Rightarrow> 'w \<Rightarrow> work_stop option \<times> 'w" where
  "write_drafts L xw job claimNow written [] w = (None, w)"
| "write_drafts L xw job claimNow written (d # ds) w =
     (case ValidateCandidateDraft L d (xw_limits xw) of
        Some e \<Rightarrow> (Some (StopFrom validate_failed (XMem e) claimNow), w)
      | None \<Rightarrow>
          (case xw_validate xw (dr_Content d) w of (verdict, w) \<Rightarrow>
             (case contextError xw verdict w of
                Some e \<Rightarrow> (Some (StopFrom validate_failed e claimNow), w)
              | None \<Rightarrow>
                  (case ExtractionCandidateID L (xw_sha1uuid xw) (xj_ID job) d of
                     Inl e \<Rightarrow> (Some (StopFrom validate_failed (XMem e) claimNow), w)
                   | Inr candidateID \<Rightarrow>
                       if candidateID \<in> set written then write_drafts L xw job claimNow written ds w
                       else
                         (let request = candidate_request job claimNow candidateID d
                          in case ValidateCreateRequest L request (xw_limits xw) of
                               Some e \<Rightarrow> (Some (StopFrom validate_failed (XMem e) claimNow), w)
                             | None \<Rightarrow>
                                 (case write_candidate L xw job request claimNow w of
                                    (Some stop, w) \<Rightarrow> (Some stop, w)
                                  | (None, w) \<Rightarrow> write_drafts L xw job claimNow (candidateID # written) ds w))))))"

definition complete_job :: "'w ExtractionWorker \<Rightarrow> ExtractionJob \<Rightarrow> time \<Rightarrow> 'w \<Rightarrow> work_stop option \<times> 'w" where
  "complete_job xw job claimNow w = (case leaseTime xw job claimNow w of
      ((completeNow, Some e), w) \<Rightarrow> (Some (StopAt write_failed e completeNow), w)
    | ((completeNow, None), w) \<Rightarrow>
        (case xw_complete xw (xj_ID job) (xw_workerID xw) (xj_Attempts job) completeNow w of (err, w) \<Rightarrow>
           (case contextError xw err w of
              Some e \<Rightarrow> (Some (StopFrom write_failed e completeNow), w)
            | None \<Rightarrow> (None, w))))"

definition extract_drafts ::
  "mem_libs \<Rightarrow> 'w ExtractionWorker \<Rightarrow> ExtractionJob \<Rightarrow> time \<Rightarrow> 'w \<Rightarrow> (work_stop + CandidateDraft list) \<times> 'w" where
  "extract_drafts L xw job claimNow w =
     (case validateClaimedExtractionJob L job (xw_workerID xw) (xw_maxAttempts xw) claimNow (xw_limits xw) of
        Some e \<Rightarrow> (Inl (StopFrom validate_failed (XMem e) claimNow), w)
      | None \<Rightarrow>
          (case xw_read xw (xj_Source job) w of (body, w) \<Rightarrow>
             (case contextError xw (case body of Inl e \<Rightarrow> Some e | Inr _ \<Rightarrow> None) w of
                Some e \<Rightarrow> (Inl (StopFrom ''source_read_failed'' e claimNow), w)
              | None \<Rightarrow>
                  (case xw_extract xw \<lparr>xr_Scope = xj_Scope job, xr_Source = xj_Source job, xr_SourceAgentID = xj_SourceAgentID job,
                       xr_ExtractorID = xj_ExtractorID job, xr_Text = (case body of Inr t \<Rightarrow> t | Inl _ \<Rightarrow> ''''),
                       xr_Now = xj_CreatedAt job\<rparr> w of (found, w) \<Rightarrow>
                     (case contextError xw (case found of Inl e \<Rightarrow> Some e | Inr _ \<Rightarrow> None) w of
                        Some e \<Rightarrow> (Inl (StopFrom ''candidate_extract_failed'' e claimNow), w)
                      | None \<Rightarrow>
                          (let drafts = (case found of Inr ds \<Rightarrow> ds | Inl _ \<Rightarrow> [])
                           in if int (length drafts) > lim_MaxListItems (xw_limits xw)
                              then (Inl (StopFrom validate_failed
                                (XMem (ErrInvalidMemory ''extracted candidate count exceeds limit'')) claimNow), w)
                              else (Inr drafts, w)))))))"

definition work_job :: "mem_libs \<Rightarrow> 'w ExtractionWorker \<Rightarrow> ExtractionJob \<Rightarrow> time \<Rightarrow> 'w \<Rightarrow> work_stop option \<times> 'w" where
  "work_job L xw job claimNow w = (case extract_drafts L xw job claimNow w of
      (Inl stop, w) \<Rightarrow> (Some stop, w)
    | (Inr drafts, w) \<Rightarrow>
        (case write_drafts L xw job claimNow [] drafts w of
           (Some stop, w) \<Rightarrow> (Some stop, w)
         | (None, w) \<Rightarrow> complete_job xw job claimNow w))"

fun settle_job :: "'w ExtractionWorker \<Rightarrow> ExtractionJob \<Rightarrow> work_stop \<Rightarrow> 'w \<Rightarrow> XError \<times> 'w" where
  "settle_job xw job (StopFrom code e notBefore) w = fail_job xw job code e notBefore w"
| "settle_job xw job (StopAt code e now) w = failAt xw job code e now w"

definition extraction_RunOnce :: "mem_libs \<Rightarrow> 'w ExtractionWorker \<Rightarrow> 'w \<Rightarrow> (bool \<times> XError option) \<times> 'w" where
  "extraction_RunOnce L xw w = (case xw_ctx xw w of
      Some e \<Rightarrow> ((False, Some (XMem (MemCtx e))), w)
    | None \<Rightarrow>
        (case xw_now xw w of (claimNow, w) \<Rightarrow>
           (let leaseUntil = claimNow + xw_leaseDuration xw
            in if claimNow = 0 \<or> \<not> leaseUntil > claimNow \<or> leaseUntil div 1000000000 < claimNow div 1000000000
               then ((False, Some clock_error), w)
               else
                 (case xw_claim xw (xw_workerID xw) (xw_leaseDuration xw) (xw_maxAttempts xw) claimNow w of
                    (claimed, w) \<Rightarrow>
                      (case xw_ctx xw w of
                         Some ctxErr \<Rightarrow>
                           (case claimed of
                              Inr job \<Rightarrow> (case fail_job xw job ''source_read_failed'' (XMem (MemCtx ctxErr)) claimNow w of
                                  (e, w) \<Rightarrow> ((True, Some e), w))
                            | Inl _ \<Rightarrow> ((False, Some (XMem (MemCtx ctxErr))), w))
                       | None \<Rightarrow>
                           (case claimed of
                              Inl e \<Rightarrow> ((False, if is_no_job e then None else Some e), w)
                            | Inr job \<Rightarrow>
                                (case work_job L xw job claimNow w of
                                   (None, w) \<Rightarrow> ((True, None), w)
                                 | (Some stop, w) \<Rightarrow> (case settle_job xw job stop w of (e, w) \<Rightarrow> ((True, Some e), w)))))))))"

section \<open>Trusted events\<close>

definition trusted_request :: "CreateRequest \<Rightarrow> string \<Rightarrow> CreateRequest" where
  "trusted_request create eventID = create\<lparr>crq_Status := StatusActive, crq_IdempotencyKey := ''trusted-event:'' @ eventID\<rparr>"

definition ProjectTrusted ::
  "mem_libs \<Rightarrow> ('w \<Rightarrow> ctx) \<Rightarrow> (CreateRequest \<Rightarrow> 'w \<Rightarrow> (XError + Memory) \<times> 'w) \<Rightarrow> (string \<Rightarrow> 'w \<Rightarrow> XError option \<times> 'w)
    \<Rightarrow> Limits \<Rightarrow> CreateRequest \<Rightarrow> string \<Rightarrow> 'w \<Rightarrow> (XError + Memory) \<times> 'w" where
  "ProjectTrusted L ctx create validate limits projected eventID w = (case ctx w of
      Some e \<Rightarrow> (Inl (XMem (MemCtx e)), w)
    | None \<Rightarrow> (case Limits_Validate limits of
        Some e \<Rightarrow> (Inl (XMem e), w)
      | None \<Rightarrow>
          if crq_Status projected \<noteq> StatusActive \<or> TrimSpace eventID = ''''
          then (Inl (XMem (ErrInvalidMemory ''invalid trusted projection'')), w)
          else
            (let request = trusted_request projected eventID
             in if crq_Now request = 0 then (Inl (XMem (ErrInvalidMemory ''trusted projection clock is required'')), w)
                else (case ValidateCreateRequest L request limits of
                    Some e \<Rightarrow> (Inl (XMem e), w)
                  | None \<Rightarrow>
                      (case validate (crq_Content request) w of (verdict, w) \<Rightarrow>
                         (case (ctx w, verdict) of
                            (Some e, _) \<Rightarrow> (Inl (XMem (MemCtx e)), w)
                          | (None, Some e) \<Rightarrow> (Inl e, w)
                          | (None, None) \<Rightarrow>
                              (case create request w of (created, w) \<Rightarrow>
                                 (case (ctx w, created) of
                                    (Some e, _) \<Rightarrow> (Inl (XMem (MemCtx e)), w)
                                  | (None, Inl e) \<Rightarrow> (Inl e, w)
                                  | (None, Inr m) \<Rightarrow> (case validateCreateResult L m request limits allowActiveOnly of
                                        Some e \<Rightarrow> (Inl e, w)
                                      | None \<Rightarrow> (Inr m, w))))))))))"

section \<open>The embedding worker\<close>

record 'w EmbeddingWorker =
  ew_pending :: "PendingEmbeddingQuery \<Rightarrow> 'w \<Rightarrow> (XError + EmbeddingInput list) \<times> 'w"
  ew_put :: "PutEmbeddingRequest \<Rightarrow> 'w \<Rightarrow> XError option \<times> 'w"
  ew_embed :: "string \<Rightarrow> string list \<Rightarrow> 'w \<Rightarrow> (XError + float_value list list) \<times> 'w"
  ew_now :: "'w \<Rightarrow> time \<times> 'w"
  ew_ctx :: "'w \<Rightarrow> ctx"
  ew_profileID :: string
  ew_dimensions :: int
  ew_batchSize :: int

definition EmbeddingWorkerConfig_Validate :: "'w EmbeddingWorker \<Rightarrow> MemError option" where
  "EmbeddingWorkerConfig_Validate c = check (\<not> (TrimSpace (ew_profileID c) = '''' \<or> ew_profileID c \<noteq> TrimSpace (ew_profileID c)
     \<or> ew_dimensions c \<le> 0 \<or> ew_batchSize c \<le> 0)) ''invalid embedding worker configuration''"

definition NewEmbeddingWorker :: "'w EmbeddingWorker \<Rightarrow> MemError + 'w EmbeddingWorker" where
  "NewEmbeddingWorker c = (case EmbeddingWorkerConfig_Validate c of Some e \<Rightarrow> Inl e | None \<Rightarrow> Inr c)"

definition validateEmbeddingBatch :: "mem_libs \<Rightarrow> float_value list list \<Rightarrow> nat \<Rightarrow> int \<Rightarrow> MemError option" where
  "validateEmbeddingBatch L vectors n dimensions = check
     (length vectors = n \<and> list_all (\<lambda>v. \<not> (int (length v) \<noteq> dimensions \<or> \<not> validVector L v)) vectors)
     ''invalid embedding batch result''"

definition put_request :: "'w EmbeddingWorker \<Rightarrow> time \<Rightarrow> EmbeddingInput \<Rightarrow> float_value list \<Rightarrow> PutEmbeddingRequest" where
  "put_request ew embeddedAt input vector =
     \<lparr>per_MemoryID = ei_MemoryID input, per_Scope = ei_Scope input, per_ProfileID = ew_profileID ew,
      per_ContentHash = ei_ContentHash input, per_Dimensions = ew_dimensions ew, per_Vector = vector, per_EmbeddedAt = embeddedAt\<rparr>"

fun put_all ::
  "'w EmbeddingWorker \<Rightarrow> time \<Rightarrow> int \<Rightarrow> (EmbeddingInput \<times> float_value list) list \<Rightarrow> 'w \<Rightarrow> (int \<times> XError option) \<times> 'w" where
  "put_all ew embeddedAt stored [] w = ((stored, None), w)"
| "put_all ew embeddedAt stored ((input, vector) # rest) w = (case ew_ctx ew w of
      Some e \<Rightarrow> ((stored, Some (XMem (MemCtx e))), w)
    | None \<Rightarrow>
        (case ew_put ew (put_request ew embeddedAt input vector) w of (err, w) \<Rightarrow>
           (case ew_ctx ew w of
              Some e \<Rightarrow> ((if err = None then stored + 1 else stored, Some (XMem (MemCtx e))), w)
            | None \<Rightarrow> (case err of
                  None \<Rightarrow> put_all ew embeddedAt (stored + 1) rest w
                | Some e \<Rightarrow> if is_conflict e then put_all ew embeddedAt stored rest w else ((stored, Some e), w)))))"

definition embedding_RunOnce :: "mem_libs \<Rightarrow> 'w EmbeddingWorker \<Rightarrow> 'w \<Rightarrow> (int \<times> XError option) \<times> 'w" where
  "embedding_RunOnce L ew w = (case ew_ctx ew w of
      Some e \<Rightarrow> ((0, Some (XMem (MemCtx e))), w)
    | None \<Rightarrow>
        (case ew_pending ew \<lparr>peq_ProfileID = ew_profileID ew, peq_Limit = ew_batchSize ew\<rparr> w of (pending, w) \<Rightarrow>
           (case (ew_ctx ew w, pending) of
              (Some e, _) \<Rightarrow> ((0, Some (XMem (MemCtx e))), w)
            | (None, Inl e) \<Rightarrow> ((0, Some e), w)
            | (None, Inr inputs) \<Rightarrow>
                if int (length inputs) > ew_batchSize ew
                then ((0, Some (XMem (ErrInvalidMemory ''pending embedding batch exceeds configured limit''))), w)
                else if inputs = [] then ((0, None), w)
                else
                  (case ew_embed ew (ew_profileID ew) (map ei_Content inputs) w of (embedded, w) \<Rightarrow>
                     (case (ew_ctx ew w, embedded) of
                        (Some e, _) \<Rightarrow> ((0, Some (XMem (MemCtx e))), w)
                      | (None, Inl e) \<Rightarrow> ((0, Some e), w)
                      | (None, Inr vectors) \<Rightarrow>
                          (case validateEmbeddingBatch L vectors (length inputs) (ew_dimensions ew) of
                             Some e \<Rightarrow> ((0, Some (XMem e)), w)
                           | None \<Rightarrow> (case ew_now ew w of (embeddedAt, w) \<Rightarrow>
                               put_all ew embeddedAt 0 (zip inputs vectors) w)))))))"

section \<open>Evaluating recall\<close>

record EvalCase =
  ec_ID :: string
  ec_Query :: string
  ec_ExpectedIDs :: "string list"
  ec_ForbiddenIDs :: "string list"

record EvalReport =
  er_Cases :: int
  er_ExpectedFound :: int
  er_ExpectedTotal :: int
  er_ForbiddenInjected :: int
  er_ForbiddenTotal :: int
  er_RecallAtBudget :: rat
  er_FalseInjectionRate :: rat

text \<open>The keys of the set a list becomes, each once.\<close>

definition stringSet :: "string list \<Rightarrow> string list" where
  "stringSet xs = remdups xs"

fun score_cases :: "(string \<Rightarrow> string list) \<Rightarrow> string list \<Rightarrow> EvalReport \<Rightarrow> EvalCase list \<Rightarrow> string + EvalReport" where
  "score_cases results seen report [] = Inr report"
| "score_cases results seen report (c # cs) =
     (if ec_ID c \<in> set seen then Inl (''duplicate evaluation case ID '' @ go_quote (ec_ID c))
      else
        (let expected = stringSet (ec_ExpectedIDs c); forbidden = stringSet (ec_ForbiddenIDs c)
         in case List.find (\<lambda>i. i \<in> set forbidden) expected of
              Some i \<Rightarrow> Inl (''evaluation case '' @ go_quote (ec_ID c) @ '' expects and forbids ID '' @ go_quote i)
            | None \<Rightarrow>
                (let returned = stringSet (results (ec_ID c))
                 in score_cases results (ec_ID c # seen)
                      (report\<lparr>er_ExpectedTotal := er_ExpectedTotal report + int (length expected),
                         er_ForbiddenTotal := er_ForbiddenTotal report + int (length forbidden),
                         er_ExpectedFound := er_ExpectedFound report + int (length (filter (\<lambda>i. i \<in> set returned) expected)),
                         er_ForbiddenInjected := er_ForbiddenInjected report + int (length (filter (\<lambda>i. i \<in> set returned) forbidden))\<rparr>)
                      cs)))"

definition Evaluate_recall :: "mem_libs \<Rightarrow> (string \<Rightarrow> string list) \<Rightarrow> EvalCase list \<Rightarrow> string + EvalReport" where
  "Evaluate_recall L results cases =
     (case score_cases results [] \<lparr>er_Cases = int (length cases), er_ExpectedFound = 0, er_ExpectedTotal = 0,
          er_ForbiddenInjected = 0, er_ForbiddenTotal = 0, er_RecallAtBudget = 0, er_FalseInjectionRate = 0\<rparr> cases of
        Inl e \<Rightarrow> Inl e
      | Inr r \<Rightarrow>
          (let r = (if er_ExpectedTotal r \<noteq> 0
                    then r\<lparr>er_RecallAtBudget := ml_round L (of_int (er_ExpectedFound r) / of_int (er_ExpectedTotal r))\<rparr> else r)
           in Inr (if er_ForbiddenTotal r \<noteq> 0
                   then r\<lparr>er_FalseInjectionRate := ml_round L (of_int (er_ForbiddenInjected r) / of_int (er_ForbiddenTotal r))\<rparr>
                   else r)))"

end
