(* ===== verification/Memory_Extraction_Laws.thy ===== *)
theory Memory_Extraction_Laws
  imports Memory_Extraction
begin

text \<open>
  What the workers of \<open>memorykit\<close> guarantee: extraction only adds candidates and settles its job once,
  a trusted event becomes the active memory of its key, and an embedding run leaves nothing of its
  batch pending.
\<close>

section \<open>What a run of the extraction worker may change\<close>

lemma candidate_request_status [simp]: "crq_Status (candidate_request job t i d) = StatusCandidate"
  by (simp add: candidate_request_def draft_request_def)

text \<open>
  The interface between the worker and the world: every call is within a relation, a create only for
  requests of candidates. Then so is a whole run.
\<close>

locale extraction_frame =
  fixes L :: mem_libs and xw :: "'w ExtractionWorker" and R :: "'w \<Rightarrow> 'w \<Rightarrow> bool"
  assumes R_refl: "R w w" and R_trans: "R w1 w2 \<Longrightarrow> R w2 w3 \<Longrightarrow> R w1 w3"
    and claims: "R w (snd (xw_claim xw owner lease attempts now w))"
    and completes: "R w (snd (xw_complete xw i owner n now w))"
    and fails: "R w (snd (xw_failed xw i owner n code attempts now w))"
    and reads: "R w (snd (xw_read xw src w))" and extracts: "R w (snd (xw_extract xw req w))"
    and validates: "R w (snd (xw_validate xw body w))" and reads_clock: "R w (snd (xw_now xw w))"
    and creates: "crq_Status r = StatusCandidate \<Longrightarrow> R w (snd (xw_create xw r w))"
begin

lemma transitionTime_frame: "R w (snd (transitionTime xw t w))"
  using reads_clock [of w] by (auto simp: transitionTime_def split: prod.splits)

lemma leaseTime_frame: "R w (snd (leaseTime xw job t w))"
  using transitionTime_frame [of w t] by (auto simp: leaseTime_def split: prod.splits option.splits)

lemma failAt_frame: "R w (snd (failAt xw job code e t w))"
  using fails [of w "xj_ID job" "xw_workerID xw" "xj_Attempts job" code "xw_maxAttempts xw" t]
  by (auto simp: failAt_def split: prod.splits option.splits)

lemma fail_job_frame: "R w (snd (fail_job xw job code e t w))"
  using transitionTime_frame [of w t] failAt_frame
  by (auto simp: fail_job_def split: prod.splits intro: R_trans)

lemma settle_frame: "R w (snd (settle_job xw job stop w))"
  by (cases stop) (simp_all add: fail_job_frame failAt_frame)

lemma write_candidate_frame:
  assumes "crq_Status request = StatusCandidate"
  shows "R w (snd (write_candidate L xw job request claimNow w))"
proof -
  obtain t e w1 where l: "leaseTime xw job claimNow w = ((t, e), w1)" by (metis surj_pair)
  with leaseTime_frame [of w job claimNow] have r1: "R w w1" by simp
  obtain c w2 where cr: "xw_create xw request w1 = (c, w2)" by fastforce
  with creates [OF assms, of w1] r1 have r2: "R w w2" by (auto intro: R_trans)
  show ?thesis using l cr r1 r2
    by (auto simp: write_candidate_def split: option.splits sum.splits)
qed

lemma write_drafts_frame: "R w (snd (write_drafts L xw job claimNow written ds w))"
proof (induction ds arbitrary: written w)
  case Nil
  then show ?case by (simp add: R_refl)
next
  case (Cons d ds)
  obtain v w1 where v: "xw_validate xw (dr_Content d) w = (v, w1)" by fastforce
  with validates [of w "dr_Content d"] have r1: "R w w1" by simp
  have rest: "R w w'" if "R w1 w'" for w' using r1 that by (rule R_trans)
  show ?case
  proof (cases "ExtractionCandidateID L (xw_sha1uuid xw) (xj_ID job) d")
    case (Inl e)
    with v r1 show ?thesis by (simp add: R_refl split: option.splits)
  next
    case (Inr i)
    obtain stop w2 where wr: "write_candidate L xw job (candidate_request job claimNow i d) claimNow w1 = (stop, w2)" by fastforce
    have r2: "R w1 w2" using write_candidate_frame [of "candidate_request job claimNow i d" w1] wr by (metis candidate_request_status snd_conv)
    have r3: "R w1 (snd (write_drafts L xw job claimNow (i # written) ds w2))" using r2 Cons.IH by (rule R_trans)
    show ?thesis using v r1 Inr wr rest [OF r2] rest [OF r3] rest [OF Cons.IH]
      by (auto simp: Let_def R_refl split: option.splits)
  qed
qed

lemma complete_job_frame: "R w (snd (complete_job xw job claimNow w))"
proof -
  obtain t e w1 where l: "leaseTime xw job claimNow w = ((t, e), w1)" by (metis surj_pair)
  with leaseTime_frame [of w job claimNow] have r1: "R w w1" by simp
  obtain c w2 where co: "xw_complete xw (xj_ID job) (xw_workerID xw) (xj_Attempts job) t w1 = (c, w2)" by fastforce
  with completes [of w1 "xj_ID job" "xw_workerID xw" "xj_Attempts job" t] r1 have "R w w2" by (auto intro: R_trans)
  with l r1 co show ?thesis by (auto simp: complete_job_def split: option.splits)
qed

lemma extract_drafts_frame: "R w (snd (extract_drafts L xw job claimNow w))"
proof -
  obtain body w1 where b: "xw_read xw (xj_Source job) w = (body, w1)" by fastforce
  with reads [of w "xj_Source job"] have r1: "R w w1" by simp
  have "R w (snd (xw_extract xw req w1))" for req using r1 extracts by (rule R_trans)
  with b r1 show ?thesis
    by (auto simp: extract_drafts_def Let_def R_refl split: option.splits prod.splits) (metis snd_conv)+
qed

lemma work_job_frame: "R w (snd (work_job L xw job claimNow w))"
proof -
  obtain r w1 where x: "extract_drafts L xw job claimNow w = (r, w1)" by fastforce
  with extract_drafts_frame [of w job claimNow] have r1: "R w w1" by simp
  show ?thesis
  proof (cases r)
    case (Inl stop)
    with x r1 show ?thesis by (simp add: work_job_def)
  next
    case (Inr ds)
    obtain stop w2 where wr: "write_drafts L xw job claimNow [] ds w1 = (stop, w2)" by fastforce
    with write_drafts_frame [of w1 job claimNow "[]" ds] r1 have r2: "R w w2" by (auto intro: R_trans)
    with R_trans [OF r2 complete_job_frame [of w2 job claimNow]] x Inr wr show ?thesis
      by (cases stop) (simp_all add: work_job_def)
  qed
qed

lemma RunOnce_frame: "R w (snd (extraction_RunOnce L xw w))"
proof -
  obtain t w1 where n: "xw_now xw w = (t, w1)" by fastforce
  with reads_clock [of w] have r1: "R w w1" by simp
  obtain claimed w2 where c: "xw_claim xw (xw_workerID xw) (xw_leaseDuration xw) (xw_maxAttempts xw) t w1 = (claimed, w2)" by fastforce
  with claims [of w1 "xw_workerID xw" "xw_leaseDuration xw" "xw_maxAttempts xw" t] r1 have r2: "R w w2" by (auto intro: R_trans)
  have f: "R w (snd (fail_job xw job code e t' w2))" for job code e t' using r2 fail_job_frame by (rule R_trans)
  have k: "R w (snd (work_job L xw job t w2))" for job using r2 work_job_frame by (rule R_trans)
  have s: "R w (snd (settle_job xw job stop (snd (work_job L xw job t w2))))" for job stop using k settle_frame by (rule R_trans)
  show ?thesis
  proof (cases claimed)
    case (Inl e)
    with n c r1 r2 show ?thesis by (auto simp: extraction_RunOnce_def Let_def R_refl split: option.splits)
  next
    case (Inr job)
    obtain stop w3 where w: "work_job L xw job t w2 = (stop, w3)" by fastforce
    with Inr n c r1 r2 f [of job] k [of job] s [of job] show ?thesis
      by (auto simp: extraction_RunOnce_def Let_def R_refl case_prod_beta split: option.splits)
  qed
qed

end

text \<open>The worker over the in-memory store: the other dependencies act on their own part of the world.\<close>

definition lift_snd :: "('x \<Rightarrow> 'a \<times> 'x) \<Rightarrow> 's \<times> 'x \<Rightarrow> 'a \<times> ('s \<times> 'x)" where
  "lift_snd f w = (case f (snd w) of (a, x) \<Rightarrow> (a, (fst w, x)))"

lemma lift_snd_fst [simp]: "fst (snd (lift_snd f w)) = fst w"
  by (simp add: lift_snd_def split: prod.splits)

definition store_create :: "mem_libs \<Rightarrow> (nat \<Rightarrow> ctx) \<Rightarrow> CreateRequest \<Rightarrow> MemStore \<times> 'x \<Rightarrow> (XError + Memory) \<times> (MemStore \<times> 'x)" where
  "store_create L ctx r w = (case mem_Create L ctx r (fst w) of (res, s) \<Rightarrow> (map_sum XMem (\<lambda>m. m) res, (s, snd w)))"

definition store_worker :: "mem_libs \<Rightarrow> (nat \<Rightarrow> ctx) \<Rightarrow> 'x ExtractionWorker \<Rightarrow> (MemStore \<times> 'x) ExtractionWorker" where
  "store_worker L ctx xw =
     \<lparr>xw_claim = (\<lambda>owner lease attempts now. lift_snd (xw_claim xw owner lease attempts now)),
      xw_complete = (\<lambda>i owner n now. lift_snd (xw_complete xw i owner n now)),
      xw_failed = (\<lambda>i owner n code attempts now. lift_snd (xw_failed xw i owner n code attempts now)),
      xw_create = store_create L ctx,
      xw_read = (\<lambda>src. lift_snd (xw_read xw src)), xw_extract = (\<lambda>req. lift_snd (xw_extract xw req)),
      xw_validate = (\<lambda>body. lift_snd (xw_validate xw body)), xw_now = lift_snd (xw_now xw),
      xw_ctx = (\<lambda>w. xw_ctx xw (snd w)), xw_limits = xw_limits xw, xw_workerID = xw_workerID xw,
      xw_leaseDuration = xw_leaseDuration xw, xw_maxAttempts = xw_maxAttempts xw, xw_sha1uuid = xw_sha1uuid xw\<rparr>"

text \<open>A store that only gained candidates: every memory it had is as it was, sources and revisions included.\<close>

definition kept_memory :: "MemStore \<Rightarrow> MemStore \<Rightarrow> string \<Rightarrow> bool" where
  "kept_memory s s' i \<longleftrightarrow> memory_at s' i = memory_at s i \<and> sources_at s' i = sources_at s i \<and> revisions_at s' i = revisions_at s i"

definition new_candidate :: "MemStore \<Rightarrow> string \<Rightarrow> bool" where
  "new_candidate s' i \<longleftrightarrow> (\<exists>m. memory_at s' i = Some m \<and> mem_Status m = StatusCandidate \<and> mem_Version m = 1)"

definition gained_candidates :: "MemStore \<Rightarrow> MemStore \<Rightarrow> bool" where
  "gained_candidates s s' \<longleftrightarrow> (mem_inv s \<longrightarrow> mem_inv s' \<and> (\<forall>i. kept_memory s s' i \<or> memory_at s i = None \<and> new_candidate s' i))"

lemma gained_refl: "gained_candidates s s"
  by (simp add: gained_candidates_def kept_memory_def)

lemma gained_trans:
  assumes "gained_candidates s1 s2" and "gained_candidates s2 s3"
  shows "gained_candidates s1 s3"
  unfolding gained_candidates_def
proof (intro impI conjI allI)
  assume inv: "mem_inv s1"
  with assms(1) have inv2: "mem_inv s2" by (simp add: gained_candidates_def)
  with assms(2) show "mem_inv s3" by (simp add: gained_candidates_def)
  fix i
  from assms(1) inv have "kept_memory s1 s2 i \<or> memory_at s1 i = None \<and> new_candidate s2 i" by (simp add: gained_candidates_def)
  moreover from assms(2) inv2 have "kept_memory s2 s3 i \<or> memory_at s2 i = None \<and> new_candidate s3 i" by (simp add: gained_candidates_def)
  ultimately show "kept_memory s1 s3 i \<or> memory_at s1 i = None \<and> new_candidate s3 i"
    by (auto simp: kept_memory_def new_candidate_def)
qed

lemma create_gains:
  assumes "crq_Status r = StatusCandidate"
  shows "gained_candidates s (snd (mem_Create L ctx r s))"
proof (cases "snd (mem_Create L ctx r s) = s")
  case True
  then show ?thesis by (simp add: gained_refl)
next
  case False
  obtain res s' where c: "mem_Create L ctx r s = (res, s')" by fastforce
  with False create_inserts [OF c] obtain fp where at: "memory_at s (crq_ID r) = None" "s' = insert_memory r fp s" by auto
  have inv: "mem_inv s \<Longrightarrow> mem_inv s'" using mem_inv_apply [of s L "OpCreate ctx r"] c by simp
  have room: "make_room r s = s" using assms by (simp add: make_room_def)
  have "memory_at s' i = (if i = crq_ID r then Some (request_memory r) else memory_at s i)"
    "i \<noteq> crq_ID r \<Longrightarrow> sources_at s' i = sources_at s i" "i \<noteq> crq_ID r \<Longrightarrow> revisions_at s' i = revisions_at s i" for i
    by (simp_all add: at(2) insert_memory_simps room)
  with inv at(1) assms c show ?thesis
    unfolding gained_candidates_def kept_memory_def new_candidate_def by (auto simp: all_conj_distrib)
qed

interpretation store_run: extraction_frame L "store_worker L ctx xw" "\<lambda>w w'. gained_candidates (fst w) (fst w')" for L ctx xw
  by unfold_locales
    (auto simp: store_worker_def gained_refl store_create_def create_gains split: prod.splits intro: gained_trans,
     metis create_gains snd_conv)

text \<open>Property C28. Whatever the extractor returns, a run of the worker over the in-memory store only adds candidates:
  every memory that was there, active ones above all, stays as it was with its sources and its
  revisions, each new memory is a candidate of version 1, and the store keeps its invariant.
\<close>

theorem extraction_only_adds_candidates:
  assumes "extraction_RunOnce L (store_worker L ctx xw) (s, x) = (r, (s', x'))" and "mem_inv s"
  shows "mem_inv s'
    \<and> (\<forall>i m. memory_at s i = Some m \<longrightarrow> memory_at s' i = Some m \<and> sources_at s' i = sources_at s i \<and> revisions_at s' i = revisions_at s i)
    \<and> (\<forall>i m. memory_at s i = None \<and> memory_at s' i = Some m \<longrightarrow> mem_Status m = StatusCandidate \<and> mem_Version m = 1)"
proof -
  have "gained_candidates s s'" using store_run.RunOnce_frame [of "(s, x)" L ctx xw] assms(1) by simp
  with assms(2) have g: "mem_inv s'" "\<forall>i. kept_memory s s' i \<or> memory_at s i = None \<and> new_candidate s' i"
    by (simp_all add: gained_candidates_def)
  from g(2) have "memory_at s i = Some m \<longrightarrow> kept_memory s s' i" "memory_at s i = None \<and> memory_at s' i = Some m \<longrightarrow> new_candidate s' i" for i m
    by (metis kept_memory_def option.distinct(1))+
  with g(1) show ?thesis by (simp add: kept_memory_def new_candidate_def)
qed

section \<open>The protocol of a run\<close>
























section \<open>Trusted events and embeddings over the in-memory store\<close>

lemma create_returns_stored:
  assumes "mem_Create L ctx r s = (Inr m, s')"
  shows "memory_at s' (crq_ID r) = Some m"
  using assms by (auto simp: mem_Create_def create_checked_def Let_def insert_memory_simps split: option.splits sum.splits if_splits)

lemma validateCreateResult_None:
  assumes "validateCreateResult L m r limits allow = None"
  shows "mem_ID m = crq_ID r \<and> mem_Scope m = crq_Scope r \<and> mem_Kind m = crq_Kind r \<and> mem_Key m = crq_Key r
    \<and> mem_IdempotencyKey m = crq_IdempotencyKey r \<and> (mem_Version m = 1 \<and> mem_Status m = crq_Status r \<or> allow (mem_Status m))"
  using assms by (auto simp: validateCreateResult_def split: if_splits)

text \<open>
  A trusted event that was projected is the active memory of its scope, kind and key: the memory
  returned is the one stored under the requested ID, it is active, it carries the event as its
  idempotency key, and no other memory of the same scope, kind and key is active.
\<close>

theorem trusted_event_active:
  assumes "mem_inv s" and "\<And>body w. fst (snd (validate body w)) = fst w"
    and "ProjectTrusted L ctx (store_create L sctx) validate limits projected eventID (s, x) = (Inr m, (s', x'))"
  shows "memory_at s' (crq_ID projected) = Some m \<and> mem_Status m = StatusActive
    \<and> mem_IdempotencyKey m = ''trusted-event:'' @ eventID
    \<and> mem_Scope m = crq_Scope projected \<and> mem_Kind m = crq_Kind projected \<and> mem_Key m = crq_Key projected
    \<and> (\<forall>i n. memory_at s' i = Some n \<and> mem_Status n = StatusActive \<and> sameConflictKey n m \<longrightarrow> i = crq_ID projected)"
proof -
  let ?r = "trusted_request projected eventID"
  obtain v w1 where v: "validate (crq_Content ?r) (s, x) = (v, w1)" by (metis surj_pair)
  with assms(2) [of "crq_Content ?r" "(s, x)"] have w1: "fst w1 = s" by simp
  obtain res w2 where c: "store_create L sctx ?r w1 = (res, w2)" by (metis surj_pair)
  from assms(3) v c have ok: "res = Inr m" "w2 = (s', x')" "validateCreateResult L m ?r limits allowActiveOnly = None"
    by (auto simp: ProjectTrusted_def Let_def split: option.splits if_splits sum.splits)
  from c ok w1 have cr: "mem_Create L sctx ?r s = (Inr m, s')"
    by (cases "mem_Create L sctx ?r s"; cases "fst (mem_Create L sctx ?r s)") (auto simp: store_create_def)
  have inv: "mem_inv s'" using mem_inv_apply [OF assms(1), of L "OpCreate sctx ?r"] cr by simp
  have at: "memory_at s' (crq_ID projected) = Some m" using create_returns_stored [OF cr] by (simp add: trusted_request_def)
  have f: "mem_Status m = StatusActive" "mem_IdempotencyKey m = ''trusted-event:'' @ eventID"
    "mem_Scope m = crq_Scope projected" "mem_Kind m = crq_Kind projected" "mem_Key m = crq_Key projected"
    using validateCreateResult_None [OF ok(3)] by (auto simp: trusted_request_def allowActiveOnly_def)
  have "unique_active (memory_at s')" using inv by (simp add: mem_inv_def)
  with at f(1) have "i = crq_ID projected"
    if "memory_at s' i = Some n" "mem_Status n = StatusActive" "sameConflictKey n m" for i n
    using that unfolding unique_active_def by blast
  with at f show ?thesis by blast
qed

definition store_embedder :: "mem_libs \<Rightarrow> (nat \<Rightarrow> ctx) \<Rightarrow> 'x EmbeddingWorker \<Rightarrow> (MemStore \<times> 'x) EmbeddingWorker" where
  "store_embedder L ctx ew =
     \<lparr>ew_pending = (\<lambda>q w. (map_sum XMem (\<lambda>x. x) (PendingEmbeddings L ctx q (fst w)), w)),
      ew_put = (\<lambda>r w. case PutEmbedding L ctx r (fst w) of (e, s) \<Rightarrow> (map_option XMem e, (s, snd w))),
      ew_embed = (\<lambda>profile texts. lift_snd (ew_embed ew profile texts)), ew_now = lift_snd (ew_now ew),
      ew_ctx = (\<lambda>w. ew_ctx ew (snd w)), ew_profileID = ew_profileID ew, ew_dimensions = ew_dimensions ew,
      ew_batchSize = ew_batchSize ew\<rparr>"

text \<open>An input of a batch, as the store lists it, and an embedding that is current for it.\<close>

definition lists_input :: "mem_libs \<Rightarrow> MemStore \<Rightarrow> EmbeddingInput \<Rightarrow> bool" where
  "lists_input L s e \<longleftrightarrow> (\<exists>m. memory_at s (ei_MemoryID e) = Some m \<and> mem_Status m = StatusActive \<and> ei_Scope e = mem_Scope m
     \<and> ei_ContentHash e = hashMemoryContent L (mem_Content m))"

definition embedded_input :: "string \<Rightarrow> MemStore \<Rightarrow> EmbeddingInput \<Rightarrow> bool" where
  "embedded_input profile s e \<longleftrightarrow> (\<exists>x. map_of (ms_embeddings s) (ei_MemoryID e, profile) = Some x \<and> emb_contentHash x = ei_ContentHash e)"

lemma pending_lists:
  assumes "ids_ok s" and "PendingEmbeddings L ctx q s = Inr inputs" and "e \<in> set inputs"
  shows "lists_input L s e"
proof -
  from assms(2,3) obtain i m where "(i, m) \<in> set (ms_memories s)" "mem_Status m = StatusActive" "e = embedding_input L (i, m)"
    by (auto simp: PendingEmbeddings_def stale_embedding_def split: option.splits dest!: in_set_takeD)
  then show ?thesis using ids_ok_mem [OF assms(1)] by (auto simp: lists_input_def embedding_input_def)
qed

lemma put_listed:
  assumes "lists_input L s e" and "PutEmbedding L ctx (put_request ew t e v) s = (err, s')"
  shows "ms_memories s' = ms_memories s"
    and "err = None \<Longrightarrow> embedded_input (ew_profileID ew) s' e"
    and "embedded_input (ew_profileID ew) s d \<Longrightarrow> lists_input L s d \<Longrightarrow> embedded_input (ew_profileID ew) s' d"
    and "err = Some (ErrConflict c) \<Longrightarrow> False"
  using assms
  by (auto simp: PutEmbedding_def put_request_def lists_input_def embedded_input_def entry_error_def ValidatePutEmbeddingRequest_def
      first_error_None Limits_Validate_def Scope_Validate_def ValidateMemoryID_def check_def Let_def
      split: option.splits if_splits)

lemma put_all_store:
  assumes "put_all (store_embedder L ctx ew) t n0 ivs w = ((n, None), w')" and "\<forall>(e, v) \<in> set ivs. lists_input L (fst w) e"
  shows "n = n0 + int (length ivs) \<and> ms_memories (fst w') = ms_memories (fst w)
    \<and> (\<forall>(e, v) \<in> set ivs. embedded_input (ew_profileID ew) (fst w') e)
    \<and> (\<forall>d. lists_input L (fst w) d \<and> embedded_input (ew_profileID ew) (fst w) d \<longrightarrow> embedded_input (ew_profileID ew) (fst w') d)"
  using assms
proof (induction ivs arbitrary: n0 w)
  case Nil
  then show ?case by simp
next
  case (Cons p ivs)
  obtain e v where p: "p = (e, v)" by (cases p)
  have li: "lists_input L (fst w) e" using Cons.prems(2) p by simp
  obtain err s1 where put: "PutEmbedding L ctx (put_request ew t e v) (fst w) = (err, s1)" by fastforce
  note pl = put_listed [OF li put]
  have same: "put_request (store_embedder L ctx ew) t e v = put_request ew t e v"
    by (simp add: put_request_def store_embedder_def)
  have cx: "ew_ctx ew (snd w) = None" using Cons.prems(1) p by (auto simp: store_embedder_def split: option.splits)
  have "err = None"
  proof (cases err)
    case (Some x)
    with pl(4) have "\<not> is_conflict (XMem x)" by (cases x) (auto simp: is_conflict_def)
    with Some Cons.prems(1) p put same cx show ?thesis by (auto simp: store_embedder_def)
  qed
  then have rest: "put_all (store_embedder L ctx ew) t (n0 + 1) ivs (s1, snd w) = ((n, None), w')"
    using Cons.prems(1) p put same cx by (simp add: store_embedder_def)
  have lists: "lists_input L s1 d \<longleftrightarrow> lists_input L (fst w) d" for d by (simp add: lists_input_def pl(1))
  have "\<forall>(e, v) \<in> set ivs. lists_input L (fst (s1, snd w)) e" using Cons.prems(2) lists by auto
  from Cons.IH [OF rest this] have ih: "n = n0 + 1 + int (length ivs)" "ms_memories (fst w') = ms_memories s1"
    "\<forall>(e, v) \<in> set ivs. embedded_input (ew_profileID ew) (fst w') e"
    "\<And>d. lists_input L s1 d \<Longrightarrow> embedded_input (ew_profileID ew) s1 d \<Longrightarrow> embedded_input (ew_profileID ew) (fst w') d" by auto
  have "embedded_input (ew_profileID ew) (fst w') e" using ih(4) lists li pl(2) \<open>err = None\<close> by blast
  with ih pl lists p show ?case by auto
qed

text \<open>A run of the embedding worker over the in-memory store that ends without an error stored an
  embedding for every memory of its batch: the count it returns is the size of the batch, every
  memory of it has an embedding of its present content and none of it is pending any more, and no
  memory was changed.
\<close>

theorem embedding_batch_stored:
  assumes "mem_inv s" and "embedding_RunOnce L (store_embedder L ctx ew) (s, x) = ((n, None), (s', x'))"
  shows "\<exists>inputs. PendingEmbeddings L ctx \<lparr>peq_ProfileID = ew_profileID ew, peq_Limit = ew_batchSize ew\<rparr> s = Inr inputs
    \<and> n = int (length inputs) \<and> ms_memories s' = ms_memories s
    \<and> (\<forall>e \<in> set inputs. embedded_input (ew_profileID ew) s' e
         \<and> (\<forall>m. memory_at s' (ei_MemoryID e) = Some m \<longrightarrow> \<not> stale_embedding L (ew_profileID ew) s' (ei_MemoryID e, m)))"
proof -
  let ?q = "\<lparr>peq_ProfileID = ew_profileID ew, peq_Limit = ew_batchSize ew\<rparr>" and ?ew = "store_embedder L ctx ew"
  have ids: "ids_ok s" using assms(1) by (simp add: mem_inv_def)
  show ?thesis
  proof (cases "PendingEmbeddings L ctx ?q s")
    case (Inl e)
    with assms(2) show ?thesis by (auto simp: embedding_RunOnce_def store_embedder_def split: option.splits)
  next
    case (Inr inputs)
    have lists: "lists_input L s e" if "e \<in> set inputs" for e using pending_lists [OF ids Inr that] .
    show ?thesis
    proof (cases "inputs = []")
      case True
      with assms(2) Inr show ?thesis by (auto simp: embedding_RunOnce_def store_embedder_def split: option.splits if_splits)
    next
      case False
      obtain embedded x1 where em: "ew_embed ew (ew_profileID ew) (map ei_Content inputs) x = (embedded, x1)" by (metis surj_pair)
      obtain t x2 where nw: "ew_now ew x1 = (t, x2)" by (metis surj_pair)
      from assms(2) Inr False em nw obtain vectors where v: "embedded = Inr vectors" "length vectors = length inputs"
        and put: "put_all ?ew t 0 (zip inputs vectors) (s, x2) = ((n, None), (s', x'))"
        by (auto simp: embedding_RunOnce_def store_embedder_def lift_snd_def validateEmbeddingBatch_def check_def
            split: option.splits if_splits sum.splits)
      have "\<forall>(e, v) \<in> set (zip inputs vectors). lists_input L (fst (s, x2)) e" using lists by (auto dest: set_zip_leftD)
      from put_all_store [OF put this] v(2) have res: "n = int (length inputs)" "ms_memories s' = ms_memories s"
        "\<forall>(e, v) \<in> set (zip inputs vectors). embedded_input (ew_profileID ew) s' e" by simp_all
      have emb: "embedded_input (ew_profileID ew) s' e" if "e \<in> set inputs" for e
        using res(3) that v(2) by (auto simp: in_set_conv_nth set_zip)
      have "\<not> stale_embedding L (ew_profileID ew) s' (ei_MemoryID e, m)"
        if "e \<in> set inputs" "memory_at s' (ei_MemoryID e) = Some m" for e m
        using emb [OF that(1)] lists [OF that(1)] that(2) res(2)
        by (auto simp: stale_embedding_def embedded_input_def lists_input_def)
      with Inr res(1,2) emb show ?thesis by blast
    qed
  qed
qed

section \<open>Examples\<close>

definition demo_job :: ExtractionJob where
  "demo_job = \<lparr>xj_ID = ''j'', xj_Scope = demo_scope ''t'', xj_Source = \<lparr>src_Kind = ''run'', src_Ref = ''r'', src_EvidenceHash = ''''\<rparr>,
     xj_SourceAgentID = '''', xj_ExtractorID = ''x'', xj_Status = ExtractionLeased, xj_Attempts = 1, xj_LeaseOwner = ''w'',
     xj_LeaseUntil = 90000, xj_CreatedAt = 3, xj_UpdatedAt = 4\<rparr>"

definition demo_draft :: CandidateDraft where
  "demo_draft = \<lparr>dr_Kind = KindFact, dr_Key = ''k'', dr_Content = ''c'', dr_ValidFrom = 0, dr_ValidUntil = 0, dr_Importance = 1,
     dr_Confidence = Some 1\<rparr>"

definition demo_x_limits :: Limits where
  "demo_x_limits = demo_limits\<lparr>lim_MaxMetadataRunes := 99\<rparr>"

definition demo_worker :: "unit ExtractionWorker" where
  "demo_worker = \<lparr>xw_claim = (\<lambda>owner lease attempts now w. (Inr demo_job, w)), xw_complete = (\<lambda>i owner n now w. (None, w)),
     xw_failed = (\<lambda>i owner n code attempts now w. (None, w)), xw_create = (\<lambda>r w. (Inl XInvalidResult, w)), xw_read = (\<lambda>src w. (Inr ''text'', w)),
     xw_extract = (\<lambda>req w. (Inr [demo_draft, demo_draft], w)), xw_validate = (\<lambda>body w. (None, w)), xw_now = (\<lambda>w. (5, w)),
     xw_ctx = (\<lambda>w. None), xw_limits = demo_x_limits, xw_workerID = ''w'', xw_leaseDuration = 5000, xw_maxAttempts = 3,
     xw_sha1uuid = (\<lambda>i body. ''i'')\<rparr>"

definition demo_x_store :: MemStore where
  "demo_x_store = demo_mem_store\<lparr>ms_limits := demo_x_limits\<rparr>"

abbreviation demo_candidate :: CreateRequest where
  "demo_candidate \<equiv> candidate_request demo_job 5 ''i'' demo_draft"

lemma demo_x_new: "New demo_x_limits = Inr demo_x_store"
  by (simp add: New_def demo_x_store_def demo_mem_store_def demo_x_limits_def demo_limits_def Limits_Validate_def TrimSpace_ascii is_space_def)

lemmas demo_x_defs = demo_job_def demo_draft_def demo_worker_def demo_x_limits_def candidate_request_def draft_request_def

lemma demo_candidate_valid:
  "ValidateCandidateDraft demo_mem_libs demo_draft demo_x_limits = None"
  "ValidateCreateRequest demo_mem_libs demo_candidate demo_x_limits = None"
  by (simp_all add: ValidateCandidateDraft_def demo_x_defs demo_checks demo_texts)

lemma demo_job_valid: "validateClaimedExtractionJob demo_mem_libs demo_job ''w'' 3 5 demo_x_limits = None"
  by (simp add: validateClaimedExtractionJob_def demo_x_defs demo_checks demo_texts)

abbreviation demo_x_active :: MemStore where
  "demo_x_active \<equiv> insert_memory (demo_create ''t'' ''a'') ''c'' demo_x_store"

lemma demo_x_active_at:
  "memory_at demo_x_active ''a'' = Some (request_memory (demo_create ''t'' ''a''))" "memory_at demo_x_active ''i'' = None"
  "ms_limits demo_x_active = demo_x_limits" "map_of (ms_creates demo_x_active) (demo_scope ''t'', ''extraction:i'') = None"
  using make_room_at [of demo_x_store]
  by (simp_all add: insert_memory_simps ids_ok_def demo_x_store_def demo_mem_store_def)

lemma demo_x_inv: "mem_inv demo_x_active"
proof -
  have v: "ValidateCreateRequest demo_mem_libs (demo_create ''t'' ''a'') demo_x_limits = None"
    by (simp add: demo_checks demo_texts demo_x_limits_def)
  have e: "ms_limits demo_x_store = demo_x_limits" "ms_creates demo_x_store = []" "ms_memories demo_x_store = []"
    by (simp_all add: demo_x_store_def demo_mem_store_def)
  have "mem_apply demo_mem_libs (OpCreate live_ctx (demo_create ''t'' ''a'')) demo_x_store = demo_x_active"
    using v e by (simp add: mem_Create_def create_checked_def Let_def)
  then show ?thesis using mem_inv_apply [OF mem_inv_New [OF demo_x_new]] by metis
qed

lemma demo_x_created:
  "mem_Create demo_mem_libs live_ctx demo_candidate demo_x_active = (Inr (request_memory demo_candidate), insert_memory demo_candidate ''c'' demo_x_active)"
proof -
  have "createFingerprint demo_mem_libs demo_candidate = Inr ''c''" "crq_IdempotencyKey demo_candidate = ''extraction:i''"
    "crq_ID demo_candidate = ''i''" "crq_Scope demo_candidate = demo_scope ''t''"
    by (simp_all add: createFingerprint_def demo_x_defs demo_mem_libs_def)
  then show ?thesis using demo_candidate_valid(2) demo_x_active_at
    by (simp add: mem_Create_def create_checked_def Let_def)
qed

lemma demo_x_result: "validateCreateResult demo_mem_libs (request_memory demo_candidate) demo_candidate demo_x_limits allowReviewedCandidateLifecycle = None"
proof -
  have "ValidateCreateRequest demo_mem_libs (memory_request (request_memory demo_candidate)) demo_x_limits = None"
    by (simp add: memory_request_def request_memory_def demo_x_defs demo_checks demo_texts)
  then show ?thesis
    by (simp add: validateCreateResult_def equivalentStoreTime_def confidence_differs_def) (simp add: request_memory_def demo_x_defs)
qed

lemma demo_x_candidate_ID: "ExtractionCandidateID demo_mem_libs (xw_sha1uuid demo_worker) ''j'' demo_draft = Inr ''i''"
  by (simp add: ExtractionCandidateID_def ValidateMemoryID_def demo_worker_def demo_mem_libs_def TrimSpace_ascii is_space_def)

lemma demo_x_run:
  "extraction_RunOnce demo_mem_libs (store_worker demo_mem_libs live_ctx demo_worker) (demo_x_active, ())
     = ((True, None), (insert_memory demo_candidate ''c'' demo_x_active, ()))"
proof -
  let ?xw = "store_worker demo_mem_libs live_ctx demo_worker"
  have f: "xw_now ?xw w = (5, w)" "xw_ctx ?xw w = None" "xw_limits ?xw = demo_x_limits" "xw_workerID ?xw = ''w''" "xw_maxAttempts ?xw = 3"
    "xw_leaseDuration ?xw = 5000" "xw_sha1uuid ?xw = xw_sha1uuid demo_worker" "xw_create ?xw = store_create demo_mem_libs live_ctx"
    "xw_claim ?xw a b c d w = (Inr demo_job, w)" "xw_validate ?xw body w = (None, w)" "xw_complete ?xw i o' n t w = (None, w)"
    "xw_read ?xw src w = (Inr ''text'', w)" "xw_extract ?xw req w = (Inr [demo_draft, demo_draft], w)"
    for w a b c d body i o' n t src req
    by (cases w; simp add: store_worker_def lift_snd_def demo_worker_def)+
  have j: "xj_ID demo_job = ''j''" "xj_LeaseUntil demo_job = 90000" "lim_MaxListItems demo_x_limits = lim_MaxListItems demo_limits"
    by (simp_all add: demo_job_def demo_x_limits_def)
  have n: "lim_MaxListItems demo_limits \<ge> 2" by (simp add: demo_limits_def)
  have lease: "leaseTime ?xw demo_job 5 w = ((5, None), w)" for w by (simp add: leaseTime_def transitionTime_def f j)
  have cx: "contextError ?xw e w = e" for e w by (simp add: contextError_def f)
  have wc: "write_candidate demo_mem_libs ?xw demo_job demo_candidate 5 (demo_x_active, ())
      = (None, (insert_memory demo_candidate ''c'' demo_x_active, ()))"
    by (simp add: write_candidate_def lease f store_create_def demo_x_created cx demo_x_result)
  have wd: "write_drafts demo_mem_libs ?xw demo_job 5 [] [demo_draft, demo_draft] (demo_x_active, ())
      = (None, (insert_memory demo_candidate ''c'' demo_x_active, ()))"
    by (simp add: demo_candidate_valid f cx j demo_x_candidate_ID wc)
  have xd: "extract_drafts demo_mem_libs ?xw demo_job 5 w = (Inr [demo_draft, demo_draft], w)" for w
    using n by (simp add: extract_drafts_def f demo_job_valid cx j)
  show ?thesis
    by (simp add: extraction_RunOnce_def f Let_def work_job_def xd wd complete_job_def lease cx del: write_drafts.simps)
qed

theorem extraction_only_adds_candidates_witness:
  "\<exists>s'. extraction_RunOnce demo_mem_libs (store_worker demo_mem_libs live_ctx demo_worker) (demo_x_active, ()) = ((True, None), (s', ()))
     \<and> memory_at s' ''a'' = Some (request_memory (demo_create ''t'' ''a'')) \<and> memory_at s' ''i'' = Some (request_memory demo_candidate)"
proof -
  have "memory_at (insert_memory demo_candidate ''c'' demo_x_active) ''i'' = Some (request_memory demo_candidate)"
    using create_returns_stored [OF demo_x_created] by (simp add: candidate_request_def draft_request_def)
  with extraction_only_adds_candidates [OF demo_x_run demo_x_inv] demo_x_active_at(1) demo_x_run show ?thesis by blast
qed


lemma demo_x_replay:
  "ProjectTrusted demo_mem_libs (\<lambda>w. None) (store_create demo_mem_libs live_ctx) (\<lambda>body w. (None, w)) demo_x_limits
     (demo_create ''t'' ''i'') ''e'' (demo_x_store, ())
   = (Inr (request_memory (trusted_request (demo_create ''t'' ''i'') ''e'')),
      (insert_memory (trusted_request (demo_create ''t'' ''i'') ''e'') ''c'' demo_x_store, ()))"
proof -
  let ?r = "trusted_request (demo_create ''t'' ''i'') ''e''"
  have l: "Limits_Validate demo_x_limits = None" by (simp add: demo_checks demo_texts demo_x_limits_def)
  have v: "ValidateCreateRequest demo_mem_libs ?r demo_x_limits = None" "ValidateCreateRequest demo_mem_libs (memory_request (request_memory ?r)) demo_x_limits = None"
    by (simp_all add: memory_request_def request_memory_def trusted_request_def demo_checks demo_texts demo_x_limits_def)
  have r: "crq_IdempotencyKey ?r \<noteq> ''''" "crq_Status (demo_create ''t'' ''i'') = StatusActive" "crq_Now ?r = 5" "createFingerprint demo_mem_libs ?r = Inr ''c''"
    by (simp_all add: trusted_request_def demo_create_def createFingerprint_def demo_mem_libs_def)
  have e: "ms_limits demo_x_store = demo_x_limits" "ms_creates demo_x_store = []" "ms_memories demo_x_store = []"
    by (simp_all add: demo_x_store_def demo_mem_store_def)
  have c: "mem_Create demo_mem_libs live_ctx ?r demo_x_store = (Inr (request_memory ?r), insert_memory ?r ''c'' demo_x_store)"
    using v r e by (simp add: mem_Create_def create_checked_def Let_def)
  have ok: "validateCreateResult demo_mem_libs (request_memory ?r) ?r demo_x_limits allowActiveOnly = None"
    using v(2) r(3) by (simp add: validateCreateResult_def equivalentStoreTime_def confidence_differs_def)
      (simp add: request_memory_def trusted_request_def demo_create_def)
  show ?thesis using l v r c ok
    by (simp add: ProjectTrusted_def Let_def store_create_def TrimSpace_ascii is_space_def)
qed

theorem trusted_event_active_witness:
  "\<exists>m s'. ProjectTrusted demo_mem_libs (\<lambda>w. None) (store_create demo_mem_libs live_ctx) (\<lambda>body w. (None, w)) demo_x_limits
     (demo_create ''t'' ''i'') ''e'' (demo_x_store, ()) = (Inr m, (s', ()))
   \<and> memory_at s' ''i'' = Some m \<and> mem_Status m = StatusActive \<and> mem_IdempotencyKey m = ''trusted-event:e''"
  using trusted_event_active [OF mem_inv_New [OF demo_x_new] _ demo_x_replay] demo_x_replay by simp

definition demo_embedder :: "unit EmbeddingWorker" where
  "demo_embedder = \<lparr>ew_pending = (\<lambda>q w. (Inr [], w)), ew_put = (\<lambda>r w. (None, w)), ew_embed = (\<lambda>p texts w. (Inr (map (\<lambda>x. [Some 1]) texts), w)),
     ew_now = (\<lambda>w. (5, w)), ew_ctx = (\<lambda>w. None), ew_profileID = ''p'', ew_dimensions = 1, ew_batchSize = 3\<rparr>"

theorem embedding_batch_stored_witness:
  "\<exists>s'. embedding_RunOnce demo_mem_libs (store_embedder demo_mem_libs live_ctx demo_embedder) (demo_first, ()) = ((1, None), (s', ()))
     \<and> embedded_input ''p'' s' (embedding_input demo_mem_libs (''i'', request_memory (demo_create ''t'' ''i'')))"
proof -
  let ?m = "request_memory (demo_create ''t'' ''i'')" and ?ew = "store_embedder demo_mem_libs live_ctx demo_embedder"
  let ?e = "embedding_input demo_mem_libs (''i'', ?m)"
  have mem: "ms_memories demo_first = [(''i'', ?m)]" "ms_embeddings demo_first = []"
    by (simp_all add: insert_memory_def Let_def supersedeActiveLocked_def demo_mem_store_def put_memory_def put_sources_def
        appendRevisionLocked_def)
  have q: "ValidatePendingEmbeddingQuery \<lparr>peq_ProfileID = ''p'', peq_Limit = 3\<rparr> demo_limits = None"
    by (simp add: ValidatePendingEmbeddingQuery_def validEmbeddingMetadata_def demo_checks demo_texts rune_count_def rune_chunks_ascii is_control_def)
  have pend: "PendingEmbeddings demo_mem_libs live_ctx \<lparr>peq_ProfileID = ''p'', peq_Limit = 3\<rparr> demo_first = Inr [?e]"
    using q by (simp add: PendingEmbeddings_def entry_error_def mem stale_embedding_def sort_by_def)
  have fields: "ei_MemoryID ?e = ''i''" "ei_Scope ?e = demo_scope ''t''" "ei_ContentHash ?e = ''c''" "hashMemoryContent demo_mem_libs (mem_Content ?m) = ''c''"
    by (simp_all add: embedding_input_def hashMemoryContent_def demo_mem_libs_def request_memory_def demo_create_def)
  let ?p = "\<lparr>per_MemoryID = ''i'', per_Scope = demo_scope ''t'', per_ProfileID = ''p'', per_ContentHash = ''c'', per_Dimensions = 1,
     per_Vector = [Some 1], per_EmbeddedAt = 5\<rparr>"
  have vp: "ValidatePutEmbeddingRequest demo_mem_libs ?p demo_limits = None"
    by (simp add: ValidatePutEmbeddingRequest_def validEmbeddingMetadata_def validVector_def squared_norm_def demo_checks demo_texts
        rune_count_def rune_chunks_ascii is_control_def)
  have put: "\<exists>s'. PutEmbedding demo_mem_libs live_ctx ?p demo_first = (None, s')"
    using vp fields(4) by (simp add: PutEmbedding_def entry_error_def)
  then obtain s' where s': "PutEmbedding demo_mem_libs live_ctx ?p demo_first = (None, s')" by blast
  have f: "ew_profileID demo_embedder = ''p''" "ew_batchSize demo_embedder = 3" "ew_dimensions demo_embedder = 1"
    "ew_ctx demo_embedder w = None" "ew_now demo_embedder w = (5, w)" "ew_embed demo_embedder p texts w = (Inr (map (\<lambda>x. [Some 1]) texts), w)"
    for w p texts by (simp_all add: demo_embedder_def)
  have run: "embedding_RunOnce demo_mem_libs ?ew (demo_first, ()) = ((1, None), (s', ()))"
    using pend s' by (simp add: embedding_RunOnce_def store_embedder_def f lift_snd_def validateEmbeddingBatch_def check_def
        validVector_def squared_norm_def demo_mem_libs_def [THEN arg_cong [of _ _ ml_round]] put_request_def fields)
  have inv: "mem_inv demo_first" using mem_inv_apply [OF mem_inv_New [OF demo_new], of demo_mem_libs "OpCreate live_ctx (demo_create ''t'' ''i'')"]
    by (simp add: demo_mem_created)
  from embedding_batch_stored [OF inv run] pend run f show ?thesis by auto
qed

end
