(* ===== verification/Context_Window.thy ===== *)
theory Context_Window
  imports GoPrelude
begin

text \<open>
  \<open>contextkit\<close>: the compression of a conversation to a budget. Tool results are truncated and
  projected, the newest whole turns that fit are kept, everything older becomes one summary message,
  and in the deep profile the dropped messages are recorded in a collapse that can be expanded again.

  The token counter, the summarizer, the environment lookup and the hex SHA-1 digest are arguments.
  The counts of characters and tokens are taken within the range of \<open>int\<close>.
\<close>

section \<open>Messages and budgets\<close>

abbreviation RoleSystem :: string where "RoleSystem \<equiv> ''system''"
abbreviation RoleUser :: string where "RoleUser \<equiv> ''user''"
abbreviation RoleTool :: string where "RoleTool \<equiv> ''tool''"

text \<open>An image is its ID; a nil map of metadata is the empty one.\<close>

record CtxMessage =
  cm_ID :: string
  cm_Role :: string
  cm_Content :: string
  cm_Images :: "string list"
  cm_ToolName :: string
  cm_ToolCallID :: string
  cm_Status :: string
  cm_Ref :: string
  cm_Metadata :: metadata

definition CharLen :: "CtxMessage \<Rightarrow> int" where
  "CharLen m = int (rune_count (cm_Content m))"

record CtxBudget =
  bg_MaxChars :: int
  bg_MaxTokens :: int

definition Bounded :: "CtxBudget \<Rightarrow> bool" where
  "Bounded b \<longleftrightarrow> bg_MaxChars b > 0 \<or> bg_MaxTokens b > 0"

abbreviation ProfileStandard :: string where "ProfileStandard \<equiv> ''standard''"
abbreviation ProfileDeep :: string where "ProfileDeep \<equiv> ''deep''"

text \<open>
  Lower case on ASCII: no other rune has one of the letters of the accepted values as its lower case,
  so the comparison with them is the one of \<open>strings.ToLower\<close>.
\<close>

definition lower_byte :: "char \<Rightarrow> char" where
  "lower_byte c = (if 65 \<le> byte c \<and> byte c \<le> 90 then char_of (byte c + 32) else c)"

definition ProfileFromLookup :: "(string \<Rightarrow> string option) \<Rightarrow> string" where
  "ProfileFromLookup lookup = (case lookup ''CONTEXT_DEEP_COMPRESSION'' of
      None \<Rightarrow> ProfileStandard
    | Some v \<Rightarrow>
        if map lower_byte (TrimSpace v) \<in> {''1'', ''true'', ''yes'', ''on''} then ProfileDeep else ProfileStandard)"

definition LevelsForProfile :: "string \<Rightarrow> int list" where
  "LevelsForProfile profile = (if profile = ProfileDeep then [1, 2, 3, 4, 5] else [1, 2, 3])"

section \<open>Tool results\<close>

record budgetResult =
  br_Content :: string
  br_Truncated :: bool
  br_OriginalChars :: int
  br_OmittedChars :: int

text \<open>A rune as \<open>string([]rune)\<close> writes it: an invalid byte becomes U+FFFD.\<close>

definition rune_text :: "nat \<times> string \<Rightarrow> string" where
  "rune_text r = (if fst r = 65533 then [CHR 0xEF, CHR 0xBF, CHR 0xBD] else snd r)"

definition toolbudget_Apply :: "string \<Rightarrow> int \<Rightarrow> budgetResult" where
  "toolbudget_Apply content maxChars =
     (let runes = rune_chunks content; n = int (length runes)
      in if maxChars \<le> 0 \<or> n \<le> maxChars
         then \<lparr>br_Content = content, br_Truncated = False, br_OriginalChars = n, br_OmittedChars = 0\<rparr>
         else \<lparr>br_Content = concat (map rune_text (take (nat maxChars) runes)) @ [CHR 0x0A] @ ''[truncated ''
                 @ itoa (n - maxChars) @ '' chars]'',
               br_Truncated = True, br_OriginalChars = n, br_OmittedChars = n - maxChars\<rparr>)"

definition project_lines :: "CtxMessage \<Rightarrow> string \<Rightarrow> string list" where
  "project_lines m result =
     [''tool='' @ (if cm_ToolName m = '''' then ''unknown'' else cm_ToolName m),
      ''status='' @ (if cm_Status m = '''' then ''success'' else cm_Status m)]
     @ (if cm_ToolCallID m \<noteq> '''' then [''tool_call_id='' @ cm_ToolCallID m] else [])
     @ (if cm_Ref m \<noteq> '''' then [''ref='' @ cm_Ref m] else [])
     @ [''result='' @ result]"

definition Project :: "CtxMessage \<Rightarrow> int \<Rightarrow> CtxMessage" where
  "Project m maxResultChars =
     (if cm_Role m \<noteq> RoleTool then m
      else
        (let budgeted = toolbudget_Apply (cm_Content m) maxResultChars;
             md = AList.update ''contextkit.tool_projected'' (VBool True) (cm_Metadata m);
             md = (if br_Truncated budgeted
                   then AList.update ''contextkit.tool_omitted_chars'' (VInt (br_OmittedChars budgeted))
                          (AList.update ''contextkit.tool_truncated'' (VBool True) md)
                   else md)
         in m\<lparr>cm_Content := string_join [CHR 0x0A] (project_lines m (br_Content budgeted)),
              cm_Metadata := AList.update ''contextkit.tool_original_chars'' (VInt (br_OriginalChars budgeted)) md\<rparr>))"

definition FormatResultRef :: "string \<Rightarrow> string \<Rightarrow> string" where
  "FormatResultRef toolName i = (if i = '''' then '''' else if toolName = '''' then i else toolName @ '':'' @ i)"

section \<open>Collapses\<close>

record Collapse =
  co_ID :: string
  co_StartIndex :: int
  co_EndIndex :: int
  co_Summary :: CtxMessage
  co_OriginalIDs :: "string list"
  co_Originals :: "CtxMessage list"

definition collapseIDFromMessage :: "CtxMessage \<Rightarrow> string option" where
  "collapseIDFromMessage m = (case map_of (cm_Metadata m) ''contextkit.collapse_id'' of
      Some (VStr i) \<Rightarrow> if i \<noteq> '''' then Some i else None
    | _ \<Rightarrow> None)"

text \<open>The collapses being expanded are the IDs of \<open>expanding\<close>: the map of the source, whose entry is
  deleted when the expansion returns.\<close>

function restore_collapses :: "(string, Collapse) gomap \<Rightarrow> string list \<Rightarrow> CtxMessage list \<Rightarrow> CtxMessage list" where
  "restore_collapses byID expanding [] = []"
| "restore_collapses byID expanding (m # ms) =
     (case collapseIDFromMessage m of
        None \<Rightarrow> m # restore_collapses byID expanding ms
      | Some i \<Rightarrow>
          if i \<in> set expanding then m # restore_collapses byID expanding ms
          else (case map_of byID i of
              None \<Rightarrow> m # restore_collapses byID expanding ms
            | Some collapse \<Rightarrow> restore_collapses byID (i # expanding) (co_Originals collapse) @ restore_collapses byID expanding ms))"
  by pat_completeness auto
termination
proof (relation "measures [\<lambda>(byID, expanding, ms). card (fst ` set byID - set expanding), \<lambda>(byID, expanding, ms). length ms]",
    goal_cases)
  case (5 byID expanding m ms i c)
  then have i: "i \<in> fst ` set byID - set expanding" by (auto dest: map_of_SomeD intro: rev_image_eqI)
  have "fst ` set byID - set (i # expanding) = (fst ` set byID - set expanding) - {i}" by auto
  with i have "card (fst ` set byID - set (i # expanding)) < card (fst ` set byID - set expanding)"
    by (simp only:) (intro card_Diff1_less, auto)
  then show ?case by simp
qed auto

definition RestoreProjection :: "CtxMessage list \<Rightarrow> Collapse list \<Rightarrow> CtxMessage list" where
  "RestoreProjection messages collapses =
     restore_collapses (fold (\<lambda>c byID. if co_ID c \<noteq> '''' then AList.update (co_ID c) c byID else byID) collapses []) [] messages"

section \<open>The compressor\<close>

datatype CtxError = CompressCtx ctx_error | ErrTokenCounterRequired | SummarizerError string

record SummarizeRequest =
  sr_Previous :: string
  sr_Collapsed :: "CtxMessage list"
  sr_Recent :: "CtxMessage list"
  sr_Budget :: CtxBudget
  sr_Metadata :: metadata

text \<open>A summarizer returns an error, nothing, or a summary with metadata.\<close>

record CtxConfig =
  cc_Budget :: CtxBudget
  cc_Profile :: string
  cc_MinRecent :: int
  cc_MaxToolChars :: int
  cc_CountTokens :: "(CtxMessage \<Rightarrow> int) option"
  cc_Summarizer :: "(SummarizeRequest \<Rightarrow> string + (string \<times> metadata) option) option"
  cc_sha1hex :: "string \<Rightarrow> string"

record CtxRequest =
  cxr_Messages :: "CtxMessage list"
  cxr_Budget :: CtxBudget
  cxr_Metadata :: metadata

record CtxResult =
  cxo_Messages :: "CtxMessage list"
  cxo_Profile :: string
  cxo_Levels :: "int list"
  cxo_Summary :: string
  cxo_Dropped :: int
  cxo_OverBudget :: bool
  cxo_Collapses :: "Collapse list"
  cxo_AutoCompact :: "(string \<times> metadata) option"

definition window_New :: "(string \<Rightarrow> string option) \<Rightarrow> CtxConfig \<Rightarrow> CtxConfig" where
  "window_New lookup cfg =
     (let cfg = (if cc_Profile cfg = '''' then cfg\<lparr>cc_Profile := ProfileFromLookup lookup\<rparr> else cfg)
      in if cc_MinRecent cfg \<le> 0 then cfg\<lparr>cc_MinRecent := 1\<rparr> else cfg)"

abbreviation kindKey :: string where "kindKey \<equiv> ''contextkit.kind''"
abbreviation collapseIDKey :: string where "collapseIDKey \<equiv> ''contextkit.collapse_id''"
abbreviation droppedTotalKey :: string where "droppedTotalKey \<equiv> ''contextkit.dropped_total''"
abbreviation droppedImagesKey :: string where "droppedImagesKey \<equiv> ''contextkit.dropped_images''"
abbreviation kindWindowSummary :: string where "kindWindowSummary \<equiv> ''window_summary''"
abbreviation kindCollapseSummary :: string where "kindCollapseSummary \<equiv> ''collapse_summary''"

record cost =
  co_chars :: int
  co_tokens :: int

definition cost_add :: "cost \<Rightarrow> cost \<Rightarrow> cost" where
  "cost_add a b = \<lparr>co_chars = co_chars a + co_chars b, co_tokens = co_tokens a + co_tokens b\<rparr>"

definition budget_fits :: "CtxBudget \<Rightarrow> cost \<Rightarrow> bool" where
  "budget_fits b c \<longleftrightarrow> (bg_MaxChars b \<le> 0 \<or> co_chars c \<le> bg_MaxChars b) \<and> (bg_MaxTokens b \<le> 0 \<or> co_tokens c \<le> bg_MaxTokens b)"

definition message_cost :: "CtxConfig \<Rightarrow> CtxBudget \<Rightarrow> CtxMessage \<Rightarrow> cost" where
  "message_cost cfg b m = \<lparr>co_chars = CharLen m,
     co_tokens = (case cc_CountTokens cfg of Some f \<Rightarrow> if bg_MaxTokens b > 0 then f m else 0 | None \<Rightarrow> 0)\<rparr>"

definition coster :: "CtxConfig \<Rightarrow> CtxBudget \<Rightarrow> CtxMessage list \<Rightarrow> cost" where
  "coster cfg b ms = fold (\<lambda>m acc. cost_add acc (message_cost cfg b m)) ms \<lparr>co_chars = 0, co_tokens = 0\<rparr>"

definition is_boundary :: "bool \<Rightarrow> CtxMessage \<Rightarrow> bool" where
  "is_boundary hasUser m \<longleftrightarrow> cm_Role m = RoleUser \<or> (\<not> hasUser \<and> cm_Role m \<noteq> RoleTool)"

definition turnBoundaries :: "CtxMessage list \<Rightarrow> nat list" where
  "turnBoundaries ms =
     (let hasUser = list_ex (\<lambda>m. cm_Role m = RoleUser) ms
      in 0 # filter (\<lambda>i. is_boundary hasUser (ms ! i)) [1..<length ms])"

text \<open>The loop that extends the window back over earlier boundaries, given newest first.\<close>

fun extend_window ::
  "CtxMessage list \<Rightarrow> (CtxMessage list \<Rightarrow> cost) \<Rightarrow> (cost \<Rightarrow> bool) \<Rightarrow> nat list \<Rightarrow> nat \<Rightarrow> cost \<Rightarrow> nat \<times> cost" where
  "extend_window ms costOf fits [] start kept = (start, kept)"
| "extend_window ms costOf fits (b # bs) start kept =
     (if b \<ge> start then extend_window ms costOf fits bs start kept
      else (let nxt = cost_add kept (costOf (drop b (take start ms)))
            in if \<not> fits nxt then (start, kept) else extend_window ms costOf fits bs b nxt))"

definition windowStart ::
  "CtxMessage list \<Rightarrow> int \<Rightarrow> bool \<Rightarrow> (CtxMessage list \<Rightarrow> cost) \<Rightarrow> (cost \<Rightarrow> bool) \<Rightarrow> nat \<times> cost" where
  "windowStart ms minRecent bounded costOf fits =
     (if \<not> bounded then (0, \<lparr>co_chars = 0, co_tokens = 0\<rparr>)
      else (let boundaries = turnBoundaries ms;
                limit = max (int (length ms) - minRecent) 0;
                start = fold (\<lambda>b start. if int b \<le> limit then b else start) boundaries 0
            in extend_window ms costOf fits (rev boundaries) start (costOf (drop start ms))))"

definition budgetToolMessages :: "CtxMessage list \<Rightarrow> int \<Rightarrow> CtxMessage list" where
  "budgetToolMessages ms maxToolChars = map (\<lambda>m. if cm_Role m = RoleTool then Project m maxToolChars else m) ms"

definition isSummary :: "CtxMessage \<Rightarrow> bool" where
  "isSummary m \<longleftrightarrow> map_of (cm_Metadata m) kindKey \<in> {Some (VStr kindWindowSummary), Some (VStr kindCollapseSummary)}"

definition split_messages :: "CtxMessage list \<Rightarrow> CtxMessage list \<times> CtxMessage list \<times> CtxMessage list" where
  "split_messages ms =
     (filter (\<lambda>m. \<not> isSummary m \<and> cm_Role m = RoleSystem) ms, filter isSummary ms,
      filter (\<lambda>m. \<not> isSummary m \<and> cm_Role m \<noteq> RoleSystem) ms)"

definition metadataInt :: "CtxMessage \<Rightarrow> string \<Rightarrow> int" where
  "metadataInt m key = (case map_of (cm_Metadata m) key of
      Some (VInt n) \<Rightarrow> n
    | Some (VFloat r) \<Rightarrow> (if r < 0 then - \<lfloor>- r\<rfloor> else \<lfloor>r\<rfloor>)
    | _ \<Rightarrow> 0)"

definition imageCount :: "CtxMessage list \<Rightarrow> int" where
  "imageCount ms = sum_list (map (\<lambda>m. int (length (cm_Images m))) ms)"

definition placeholderSummary :: "int \<Rightarrow> int \<Rightarrow> CtxMessage list \<Rightarrow> string" where
  "placeholderSummary dropped_total images dropped =
     (let text = ''compressed earlier context: '' @ itoa dropped_total @ '' messages omitted'';
          text = (if images > 0 then text @ '' ('' @ itoa images @ '' images)'' else text);
          ids = filter (\<lambda>i. i \<noteq> '''') (map cm_ID dropped)
      in if ids \<noteq> [] then text @ '', latest ids: '' @ string_join '', '' ids else text)"

definition joinContents :: "CtxMessage list \<Rightarrow> string" where
  "joinContents ms = string_join [CHR 0x0A] (map cm_Content ms)"

definition original_id :: "nat \<Rightarrow> CtxMessage \<Rightarrow> string" where
  "original_id i m =
     (if cm_ID m \<noteq> '''' then cm_ID m
      else if isSummary m
      then ''summary:'' @ (case map_of (cm_Metadata m) collapseIDKey of Some (VStr x) \<Rightarrow> x | _ \<Rightarrow> '''')
      else ''index:'' @ itoa (int i))"

definition collapseID :: "(string \<Rightarrow> string) \<Rightarrow> string list \<Rightarrow> string" where
  "collapseID sha1hex ids = ''collapse-'' @ take 12 (sha1hex (string_join [CHR 0x00] ids))"

definition buildCollapse :: "(string \<Rightarrow> string) \<Rightarrow> CtxMessage list \<Rightarrow> CtxMessage \<Rightarrow> Collapse" where
  "buildCollapse sha1hex ms summary =
     (let ids = map (\<lambda>(i, m). original_id i m) (enumerate 0 ms)
      in \<lparr>co_ID = collapseID sha1hex ids, co_StartIndex = 0, co_EndIndex = int (length ms) - 1, co_Summary = summary,
          co_OriginalIDs = ids, co_Originals = ms\<rparr>)"

definition effectiveBudget :: "CtxBudget \<Rightarrow> CtxBudget \<Rightarrow> CtxBudget" where
  "effectiveBudget requestBudget configBudget = (if Bounded requestBudget then requestBudget else configBudget)"

definition window_summary :: "CtxMessage list \<Rightarrow> CtxMessage list \<Rightarrow> CtxMessage" where
  "window_summary previous dropped =
     (let dropped_total = int (length dropped) + sum_list (map (\<lambda>m. metadataInt m droppedTotalKey) previous);
          images = imageCount dropped + sum_list (map (\<lambda>m. metadataInt m droppedImagesKey) previous);
          md = [(kindKey, VStr kindWindowSummary), (droppedTotalKey, VInt dropped_total)]
      in \<lparr>cm_ID = '''', cm_Role = RoleSystem, cm_Content = placeholderSummary dropped_total images dropped, cm_Images = [],
          cm_ToolName = '''', cm_ToolCallID = '''', cm_Status = '''', cm_Ref = '''',
          cm_Metadata = (if images > 0 then AList.update droppedImagesKey (VInt images) md else md)\<rparr>)"

text \<open>The deep profile: the text of the summarizer, and the collapse of what the summary replaces.\<close>

definition summarize ::
  "CtxConfig \<Rightarrow> string \<Rightarrow> CtxMessage list \<Rightarrow> CtxMessage list \<Rightarrow> CtxMessage list \<Rightarrow> CtxBudget \<Rightarrow> metadata
    \<Rightarrow> CtxError + (CtxMessage \<times> Collapse list \<times> (string \<times> metadata) option)" where
  "summarize cfg profile previous dropped recent budget md =
     (let summary = window_summary previous dropped in
      if profile \<noteq> ProfileDeep then Inr (summary, [], None)
      else
        (let compacted = (case cc_Summarizer cfg of
            None \<Rightarrow> Inr None
          | Some f \<Rightarrow> f \<lparr>sr_Previous = joinContents previous, sr_Collapsed = dropped, sr_Recent = recent, sr_Budget = budget,
                         sr_Metadata = md\<rparr>)
         in case compacted of
              Inl e \<Rightarrow> Inl (SummarizerError e)
            | Inr reply \<Rightarrow>
                (let auto_compact = (case reply of Some (text, m) \<Rightarrow> if text \<noteq> '''' then Some (text, m) else None | None \<Rightarrow> None);
                     summary = (case auto_compact of
                         Some (text, _) \<Rightarrow> summary\<lparr>cm_Content := ''summary of earlier context:'' @ [CHR 0x0A] @ text\<rparr>
                       | None \<Rightarrow> summary);
                     collapse = buildCollapse (cc_sha1hex cfg) (previous @ dropped) summary;
                     summary = summary\<lparr>cm_Metadata := AList.update collapseIDKey (VStr (co_ID collapse))
                       (AList.update kindKey (VStr kindCollapseSummary) (cm_Metadata summary))\<rparr>
                 in Inr (summary, [collapse\<lparr>co_Summary := summary\<rparr>], auto_compact))))"

definition Compress :: "ctx \<Rightarrow> CtxConfig \<Rightarrow> CtxRequest \<Rightarrow> CtxError + CtxResult" where
  "Compress ctx cfg req = (case ctx of
      Some e \<Rightarrow> Inl (CompressCtx e)
    | None \<Rightarrow>
        (let profile = (if cc_Profile cfg = '''' then ProfileStandard else cc_Profile cfg);
             budget = effectiveBudget (cxr_Budget req) (cc_Budget cfg)
         in if bg_MaxTokens budget > 0 \<and> cc_CountTokens cfg = None then Inl ErrTokenCounterRequired
            else
              (case split_messages (budgetToolMessages (cxr_Messages req) (cc_MaxToolChars cfg)) of
                 (system, previous, conversation) \<Rightarrow>
                   (let costOf = coster cfg budget;
                        fits = (\<lambda>kept. budget_fits budget (cost_add (costOf system) kept))
                    in case windowStart conversation (cc_MinRecent cfg) (Bounded budget) costOf fits of
                         (start, kept) \<Rightarrow>
                           (let dropped = take start conversation; recent = drop start conversation;
                                summarized = (if dropped \<noteq> []
                                  then (case summarize cfg profile previous dropped recent budget (cxr_Metadata req) of
                                      Inl e \<Rightarrow> Inl e
                                    | Inr (summary, collapses, auto_compact) \<Rightarrow>
                                        Inr ([summary], cm_Content summary, collapses, auto_compact))
                                  else if previous \<noteq> [] then Inr (previous, cm_Content (last previous), [], None)
                                  else Inr ([], '''', [], None))
                            in case summarized of
                                 Inl e \<Rightarrow> Inl e
                               | Inr (middle, text, collapses, auto_compact) \<Rightarrow>
                                   Inr \<lparr>cxo_Messages = system @ middle @ recent, cxo_Profile = profile,
                                        cxo_Levels = LevelsForProfile profile, cxo_Summary = text,
                                        cxo_Dropped = int (length dropped),
                                        cxo_OverBudget = (Bounded budget \<and> \<not> fits kept),
                                        cxo_Collapses = collapses, cxo_AutoCompact = auto_compact\<rparr>)))))"

end
