(* ===== verification/Context_Laws.thy ===== *)
theory Context_Laws
  imports Context_Window
begin

text \<open>
  What compression guarantees: the kept messages are the newest whole turns the budget allows, and the
  collapses of the deep profile expand back to what was dropped.
\<close>

section \<open>The cost of messages\<close>

lemma cost_add_assoc: "cost_add (cost_add a b) c = cost_add a (cost_add b c)"
  by (simp add: cost_add_def)

lemma cost_add_commute: "cost_add a b = cost_add b a"
  by (simp add: cost_add_def)

lemma cost_add_zero [simp]: "cost_add \<lparr>co_chars = 0, co_tokens = 0\<rparr> a = a" "cost_add a \<lparr>co_chars = 0, co_tokens = 0\<rparr> = a"
  by (cases a, simp add: cost_add_def)+

lemma coster_simps: "coster cfg b [] = \<lparr>co_chars = 0, co_tokens = 0\<rparr>"
  "coster cfg b (xs @ [m]) = cost_add (coster cfg b xs) (message_cost cfg b m)"
  by (simp_all add: coster_def)

lemma coster_append: "coster cfg b (xs @ ys) = cost_add (coster cfg b xs) (coster cfg b ys)"
proof (induction ys rule: rev_induct)
  case (snoc y ys)
  have "coster cfg b (xs @ ys @ [y]) = cost_add (coster cfg b (xs @ ys)) (message_cost cfg b y)"
    using coster_simps(2) [of cfg b "xs @ ys"] by simp
  with snoc show ?case by (simp add: coster_simps(2) cost_add_assoc)
qed (simp add: coster_simps(1))

lemma coster_extend: "b \<le> start \<Longrightarrow>
  cost_add (coster cfg bg (drop start ms)) (coster cfg bg (drop b (take start ms))) = coster cfg bg (drop b ms)"
proof -
  assume "b \<le> start"
  then have "drop b ms = drop b (take start ms) @ drop start ms"
    using append_take_drop_id [of start ms] drop_append [of b "take start ms" "drop start ms"]
    by (cases "start \<le> length ms") simp_all
  then show ?thesis by (metis coster_append cost_add_commute)
qed

section \<open>Turns\<close>

lemma boundaries_sorted: "sorted_wrt (<) (turnBoundaries ms)"
  by (auto simp: turnBoundaries_def Let_def sorted_wrt_filter)

lemma boundary_turn:
  assumes "b \<in> set (turnBoundaries ms)"
  shows "b = 0 \<or> b < length ms \<and> cm_Role (ms ! b) \<noteq> RoleTool"
  using assms by (auto simp: turnBoundaries_def Let_def is_boundary_def)

lemma zero_boundary [simp]: "0 \<in> set (turnBoundaries ms)"
  by (simp add: turnBoundaries_def Let_def)

text \<open>The starting point of the loop is the last boundary that leaves enough messages.\<close>

lemma fold_last_below:
  assumes "sorted_wrt (<) bs" and "int a \<le> limit" and "\<forall>b \<in> set bs. a \<le> b"
  defines "s \<equiv> fold (\<lambda>b s. if int b \<le> limit then b else s) bs a"
  shows "(s = a \<or> s \<in> set bs) \<and> int s \<le> limit \<and> (\<forall>b \<in> set bs. int b \<le> limit \<longrightarrow> b \<le> s) \<and> a \<le> s"
  unfolding s_def using assms(1-3)
proof (induction bs arbitrary: a)
  case (Cons b bs)
  show ?case
  proof (cases "int b \<le> limit")
    case True
    have "\<forall>c \<in> set bs. b \<le> c" using Cons.prems(1) by auto
    with Cons.IH [of b] Cons.prems True show ?thesis by auto
  next
    case False
    have "\<forall>c \<in> set bs. a \<le> c" using Cons.prems by auto
    with Cons.IH [of a] Cons.prems False show ?thesis by auto
  qed
qed simp

lemma extend_window_spec:
  assumes "extend_window ms f fits rs start (f (drop start ms)) = (s, k)" and "sorted_wrt (>) rs"
    and "\<And>b c. b \<le> c \<Longrightarrow> cost_add (f (drop c ms)) (f (drop b (take c ms))) = f (drop b ms)"
  shows "k = f (drop s ms) \<and> s \<le> start \<and> (s = start \<or> s \<in> set rs \<and> fits k)
    \<and> (\<forall>b \<in> set rs. b < s \<longrightarrow> (\<exists>b' \<in> set rs. b \<le> b' \<and> b' < s \<and> \<not> fits (f (drop b' ms))))"
  using assms(1,2)
proof (induction rs arbitrary: start)
  case (Cons b rs)
  show ?case
  proof (cases "b < start")
    case False
    with Cons show ?thesis by fastforce
  next
    case True
    let ?k = "f (drop b ms)"
    have nxt: "cost_add (f (drop start ms)) (f (drop b (take start ms))) = ?k" using True by (intro assms(3)) simp
    show ?thesis
    proof (cases "fits ?k")
      case True': True
      with Cons.prems True nxt have "extend_window ms f fits rs b ?k = (s, k)" by (simp add: Let_def)
      from Cons.IH [OF this] Cons.prems(2) True True' show ?thesis by fastforce
    next
      case False
      with Cons.prems(1) True nxt have "s = start" "k = f (drop start ms)" by (auto simp: Let_def)
      moreover have "\<forall>c \<in> set (b # rs). c \<le> b" using Cons.prems(2) by auto
      ultimately show ?thesis using False True by auto
    qed
  qed
qed simp

text \<open>What a window of a conversation is: it starts a turn, holds the newest messages, and is as long as the budget lets it be.\<close>

definition newest_turns :: "CtxMessage list \<Rightarrow> int \<Rightarrow> (CtxMessage list \<Rightarrow> bool) \<Rightarrow> nat \<Rightarrow> bool" where
  "newest_turns ms minRecent fitting s \<longleftrightarrow>
     s \<in> set (turnBoundaries ms)
     \<and> min minRecent (int (length ms)) \<le> int (length ms) - int s
     \<and> (\<not> fitting (drop s ms) \<longrightarrow> (\<forall>b \<in> set (turnBoundaries ms). int b \<le> int (length ms) - minRecent \<longrightarrow> b \<le> s))
     \<and> (\<forall>b \<in> set (turnBoundaries ms). b < s \<longrightarrow>
          (\<exists>b' \<in> set (turnBoundaries ms). b \<le> b' \<and> b' < s \<and> \<not> fitting (drop b' ms)))"

lemma windowStart_newest:
  assumes "windowStart ms minRecent True (coster cfg bg) fits = (s, k)" and "0 < minRecent"
  shows "newest_turns ms minRecent (\<lambda>kept. fits (coster cfg bg kept)) s \<and> k = coster cfg bg (drop s ms)"
proof -
  let ?bs = "turnBoundaries ms" and ?limit = "max (int (length ms) - minRecent) 0"
  define start where "start = fold (\<lambda>b s. if int b \<le> ?limit then b else s) ?bs 0"
  have st: "start \<in> set ?bs \<and> int start \<le> ?limit \<and> (\<forall>b \<in> set ?bs. int b \<le> ?limit \<longrightarrow> b \<le> start)"
    using fold_last_below [OF boundaries_sorted [of ms], of 0 ?limit] by (auto simp: start_def)
  have "sorted_wrt (>) (rev ?bs)" using boundaries_sorted [of ms] by (simp add: sorted_wrt_rev)
  moreover have "extend_window ms (coster cfg bg) fits (rev ?bs) start (coster cfg bg (drop start ms)) = (s, k)"
    using assms(1) by (simp add: windowStart_def start_def Let_def)
  ultimately have ext: "k = coster cfg bg (drop s ms) \<and> s \<le> start \<and> (s = start \<or> s \<in> set (rev ?bs) \<and> fits k)
    \<and> (\<forall>b \<in> set (rev ?bs). b < s \<longrightarrow> (\<exists>b' \<in> set (rev ?bs). b \<le> b' \<and> b' < s \<and> \<not> fits (coster cfg bg (drop b' ms))))"
    by (intro extend_window_spec coster_extend)
  have "min minRecent (int (length ms)) \<le> int (length ms) - int s" using st ext by linarith
  moreover have "\<forall>b \<in> set ?bs. int b \<le> int (length ms) - minRecent \<longrightarrow> b \<le> s" if "\<not> fits (coster cfg bg (drop s ms))"
    using that ext st by auto
  ultimately show ?thesis using ext st unfolding newest_turns_def by auto
qed

section \<open>Compression\<close>

definition effective_of :: "CtxConfig \<Rightarrow> CtxRequest \<Rightarrow> CtxBudget" where
  "effective_of cfg req = effectiveBudget (cxr_Budget req) (cc_Budget cfg)"

definition prepared :: "CtxConfig \<Rightarrow> CtxRequest \<Rightarrow> CtxMessage list" where
  "prepared cfg req = budgetToolMessages (cxr_Messages req) (cc_MaxToolChars cfg)"

abbreviation system_of :: "CtxMessage list \<Rightarrow> CtxMessage list" where "system_of ms \<equiv> fst (split_messages ms)"
abbreviation previous_of :: "CtxMessage list \<Rightarrow> CtxMessage list" where "previous_of ms \<equiv> fst (snd (split_messages ms))"
abbreviation conversation_of :: "CtxMessage list \<Rightarrow> CtxMessage list" where "conversation_of ms \<equiv> snd (snd (split_messages ms))"

lemma Compress_Inr:
  assumes "Compress ctx cfg req = Inr res"
  obtains s k middle where
    "windowStart (conversation_of (prepared cfg req)) (cc_MinRecent cfg) (Bounded (effective_of cfg req)) (coster cfg (effective_of cfg req))
       (\<lambda>kept. budget_fits (effective_of cfg req) (cost_add (coster cfg (effective_of cfg req) (system_of (prepared cfg req))) kept)) = (s, k)"
    and "cxo_Messages res = system_of (prepared cfg req) @ middle @ drop s (conversation_of (prepared cfg req))"
    and "cxo_Dropped res = int (length (take s (conversation_of (prepared cfg req))))"
    and "cxo_OverBudget res \<longleftrightarrow> Bounded (effective_of cfg req)
       \<and> \<not> budget_fits (effective_of cfg req) (cost_add (coster cfg (effective_of cfg req) (system_of (prepared cfg req))) k)"
    and "take s (conversation_of (prepared cfg req)) = [] \<Longrightarrow> middle = previous_of (prepared cfg req) \<and> cxo_Collapses res = []"
    and "take s (conversation_of (prepared cfg req)) \<noteq> [] \<Longrightarrow> \<exists>summary auto_compact.
       summarize cfg (if cc_Profile cfg = '''' then ProfileStandard else cc_Profile cfg) (previous_of (prepared cfg req))
         (take s (conversation_of (prepared cfg req))) (drop s (conversation_of (prepared cfg req))) (effective_of cfg req) (cxr_Metadata req)
         = Inr (summary, cxo_Collapses res, auto_compact) \<and> middle = [summary]"
proof -
  obtain system previous conversation where sp: "split_messages (prepared cfg req) = (system, previous, conversation)"
    by (metis prod_cases3)
  let ?b = "effective_of cfg req"
  let ?fits = "\<lambda>kept. budget_fits ?b (cost_add (coster cfg ?b system) kept)"
  obtain s k where w: "windowStart conversation (cc_MinRecent cfg) (Bounded ?b) (coster cfg ?b) ?fits = (s, k)" by fastforce
  let ?profile = "if cc_Profile cfg = '''' then ProfileStandard else cc_Profile cfg"
  let ?sum = "if take s conversation \<noteq> []
     then (case summarize cfg ?profile previous (take s conversation) (drop s conversation) ?b (cxr_Metadata req) of
         Inl e \<Rightarrow> Inl e
       | Inr (summary, collapses, auto_compact) \<Rightarrow> Inr ([summary], cm_Content summary, collapses, auto_compact))
     else if previous \<noteq> [] then Inr (previous, cm_Content (last previous), [], None)
     else Inr ([], '''', [], None)"
  have live: "ctx = None" using assms by (cases ctx) (simp_all add: Compress_def)
  have "Compress ctx cfg req = (
      if bg_MaxTokens ?b > 0 \<and> cc_CountTokens cfg = None then Inl ErrTokenCounterRequired
      else (case ?sum of Inl e \<Rightarrow> Inl e
       | Inr (middle, text, collapses, auto_compact) \<Rightarrow>
           Inr \<lparr>cxo_Messages = system @ middle @ drop s conversation, cxo_Profile = ?profile,
                cxo_Levels = LevelsForProfile ?profile, cxo_Summary = text,
                cxo_Dropped = int (length (take s conversation)),
                cxo_OverBudget = (Bounded ?b \<and> \<not> ?fits k),
                cxo_Collapses = collapses, cxo_AutoCompact = auto_compact\<rparr>))"
    unfolding Compress_def Let_def live effective_of_def [symmetric] prepared_def [symmetric]
    by (simp only: option.case sp prod.case w)
  with assms obtain middle body collapses auto_compact where m: "?sum = Inr (middle, body, collapses, auto_compact)"
    and res: "res = \<lparr>cxo_Messages = system @ middle @ drop s conversation, cxo_Profile = ?profile,
                cxo_Levels = LevelsForProfile ?profile, cxo_Summary = body,
                cxo_Dropped = int (length (take s conversation)),
                cxo_OverBudget = (Bounded ?b \<and> \<not> ?fits k),
                cxo_Collapses = collapses, cxo_AutoCompact = auto_compact\<rparr>"
    by (auto split: if_splits sum.splits)
  show thesis
  proof (rule that [of s k middle])
    show "take s (conversation_of (prepared cfg req)) = [] \<Longrightarrow> middle = previous_of (prepared cfg req) \<and> cxo_Collapses res = []"
      using m res sp by (auto split: if_splits)
    show "\<exists>summary auto_compact. summarize cfg ?profile (previous_of (prepared cfg req))
         (take s (conversation_of (prepared cfg req))) (drop s (conversation_of (prepared cfg req))) ?b (cxr_Metadata req)
         = Inr (summary, cxo_Collapses res, auto_compact) \<and> middle = [summary]"
      if "take s (conversation_of (prepared cfg req)) \<noteq> []"
    proof -
      from that sp have ne: "take s conversation \<noteq> []" by simp
      obtain summary where "summarize cfg ?profile previous (take s conversation) (drop s conversation) ?b (cxr_Metadata req)
          = Inr (summary, collapses, auto_compact)" "middle = [summary]"
        using m ne by (auto split: sum.splits prod.splits)
      with res sp show ?thesis by simp
    qed
  qed (use sp w res in simp_all)
qed

text \<open>Property C27. A compression keeps a suffix of the conversation, behind the system messages and the summary, that
  starts at a turn (so no tool reply is kept without its call), holds at least the configured number
  of newest messages, and is the longest such run of whole turns within the budget: the next older
  turn does not fit. It reports an exceeded budget only when the required minimum itself exceeds it.
  Without a limit nothing is dropped.
\<close>

theorem compress_keeps_newest_turns:
  assumes "cfg = window_New lookup cfg0" and "Compress ctx cfg req = Inr res"
  shows "\<exists>s middle. let conv = conversation_of (prepared cfg req); sys = system_of (prepared cfg req); b = effective_of cfg req;
      fitting = (\<lambda>kept. budget_fits b (coster cfg b (sys @ kept)))
    in cxo_Messages res = sys @ middle @ drop s conv \<and> cxo_Dropped res = int s
       \<and> (s = 0 \<or> cm_Role (conv ! s) \<noteq> RoleTool)
       \<and> cxo_OverBudget res = (Bounded b \<and> \<not> fitting (drop s conv))
       \<and> (if Bounded b then newest_turns conv (cc_MinRecent cfg) fitting s else s = 0)"
proof -
  let ?b = "effective_of cfg req" and ?sys = "system_of (prepared cfg req)" and ?conv = "conversation_of (prepared cfg req)"
  have pos: "0 < cc_MinRecent cfg" using assms(1) by (simp add: window_New_def Let_def)
  from assms(2) obtain s k middle where
    w: "windowStart ?conv (cc_MinRecent cfg) (Bounded ?b) (coster cfg ?b) (\<lambda>kept. budget_fits ?b (cost_add (coster cfg ?b ?sys) kept)) = (s, k)"
    and msgs: "cxo_Messages res = ?sys @ middle @ drop s ?conv" and dropped: "cxo_Dropped res = int (length (take s ?conv))"
    and over: "cxo_OverBudget res \<longleftrightarrow> Bounded ?b \<and> \<not> budget_fits ?b (cost_add (coster cfg ?b ?sys) k)"
    by (rule Compress_Inr) blast
  show ?thesis
  proof (cases "Bounded ?b")
    case True
    with w have w': "windowStart ?conv (cc_MinRecent cfg) True (coster cfg ?b) (\<lambda>kept. budget_fits ?b (cost_add (coster cfg ?b ?sys) kept)) = (s, k)"
      by simp
    from windowStart_newest [OF w' pos] have nt: "newest_turns ?conv (cc_MinRecent cfg)
        (\<lambda>kept. budget_fits ?b (cost_add (coster cfg ?b ?sys) (coster cfg ?b kept))) s" "k = coster cfg ?b (drop s ?conv)" by simp_all
    from nt(1) have "s \<in> set (turnBoundaries ?conv)" by (simp add: newest_turns_def)
    from boundary_turn [OF this] have "s = 0 \<or> s < length ?conv \<and> cm_Role (?conv ! s) \<noteq> RoleTool" .
    moreover from this have "length (take s ?conv) = s" by auto
    ultimately show ?thesis using True nt msgs dropped over
      by (intro exI [of _ s] exI [of _ middle]) (auto simp: Let_def coster_append)
  next
    case False
    with w have "s = 0" by (simp add: windowStart_def)
    with False msgs dropped over show ?thesis by (intro exI [of _ 0] exI [of _ middle]) (simp add: Let_def)
  qed
qed

section \<open>Restoring collapses\<close>

lemma restore_append: "restore_collapses byID ex (xs @ ys) = restore_collapses byID ex xs @ restore_collapses byID ex ys"
  by (induction xs) (simp_all split: option.splits)

definition mentions :: "string \<Rightarrow> CtxMessage list \<Rightarrow> bool" where
  "mentions i ms \<longleftrightarrow> (\<exists>m \<in> set ms. collapseIDFromMessage m = Some i)"

lemma mentions_simps [simp]: "\<not> mentions i []" "mentions i (m # ms) \<longleftrightarrow> collapseIDFromMessage m = Some i \<or> mentions i ms"
  "mentions i (xs @ ys) \<longleftrightarrow> mentions i xs \<or> mentions i ys"
  by (auto simp: mentions_def)

text \<open>An ID that nothing mentions matters neither as an entry nor as one being expanded.\<close>

lemma restore_fresh:
  assumes "\<not> mentions h ms" and "\<And>i c. map_of byID i = Some c \<Longrightarrow> \<not> mentions h (co_Originals c)"
    and "\<And>i. i \<noteq> h \<Longrightarrow> map_of byID' i = map_of byID i" and "\<And>i. i \<noteq> h \<Longrightarrow> (i \<in> set ex' \<longleftrightarrow> i \<in> set ex)"
  shows "restore_collapses byID' ex' ms = restore_collapses byID ex ms"
  using assms
proof (induction byID ex ms arbitrary: ex' rule: restore_collapses.induct)
  case (2 byID ex m ms)
  have tail: "restore_collapses byID' ex' ms = restore_collapses byID ex ms"
    by (cases "collapseIDFromMessage m"; cases "the (collapseIDFromMessage m) \<in> set ex"; cases "map_of byID (the (collapseIDFromMessage m))")
      (use 2 in auto)
  show ?case
  proof (cases "collapseIDFromMessage m")
    case None
    with tail show ?thesis by simp
  next
    case (Some i)
    with "2.prems"(1) have i: "i \<noteq> h" by auto
    have same: "map_of byID' i = map_of byID i" "i \<in> set ex' \<longleftrightarrow> i \<in> set ex" using "2.prems"(3,4) i by auto
    show ?thesis
    proof (cases "i \<in> set ex \<or> map_of byID i = None")
      case True
      with Some same tail show ?thesis by (auto split: option.splits)
    next
      case False
      then obtain c where c: "map_of byID i = Some c" "i \<notin> set ex" by auto
      have "restore_collapses byID' (i # ex') (co_Originals c) = restore_collapses byID (i # ex) (co_Originals c)"
        using "2.IH"(4) [OF Some c(2,1) _ "2.prems"(2,3)] "2.prems"(2) [OF c(1)] "2.prems"(4) by auto
      with Some same c tail show ?thesis by simp
    qed
  qed
qed simp

lemma collapse_id_nonempty: "collapseID f ids \<noteq> ''''"
  by (simp add: collapseID_def)

lemma restore_nothing: "restore_collapses [] ex ms = ms"
  by (induction ms) (simp_all split: option.splits)

definition by_id :: "Collapse list \<Rightarrow> (string, Collapse) gomap" where
  "by_id cs = fold (\<lambda>c byID. if co_ID c \<noteq> '''' then AList.update (co_ID c) c byID else byID) cs []"

lemma RestoreProjection_by_id: "RestoreProjection ms cs = restore_collapses (by_id cs) [] ms"
  by (simp add: RestoreProjection_def by_id_def)

lemma by_id_snoc: "by_id (cs @ [c]) = (if co_ID c \<noteq> '''' then AList.update (co_ID c) c (by_id cs) else by_id cs)"
  by (simp add: by_id_def)

lemma by_id_member: "map_of (by_id cs) i = Some c \<Longrightarrow> c \<in> set cs"
  by (induction cs arbitrary: c rule: rev_induct) (auto simp: by_id_snoc split: if_splits, simp add: by_id_def)

text \<open>One collapse, expanded in place of its summary.\<close>

lemma restore_collapse:
  assumes "collapseIDFromMessage summary = Some (co_ID c)" and "co_ID c \<noteq> ''''" and "co_Originals c = originals"
    and "\<not> mentions (co_ID c) (before @ originals @ after)" and "\<forall>d \<in> set cs. \<not> mentions (co_ID c) (co_Originals d)"
  shows "RestoreProjection (before @ summary # after) (cs @ [c]) = RestoreProjection (before @ originals @ after) cs"
proof -
  let ?h = "co_ID c" and ?new = "by_id (cs @ [c])" and ?old = "by_id cs"
  have new: "?new = AList.update ?h c ?old" using assms(2) by (simp add: by_id_snoc)
  have entries: "map_of ?old i = Some d \<Longrightarrow> \<not> mentions ?h (co_Originals d)" for i d
    using by_id_member assms(5) by blast
  have same: "restore_collapses ?new ex ms = restore_collapses ?old [] ms" if "\<not> mentions ?h ms" "set ex \<subseteq> {?h}" for ex ms
    by (rule restore_fresh [OF that(1) entries]) (use that(2) in \<open>auto simp: new\<close>)
  have "restore_collapses ?new [] (before @ summary # after)
      = restore_collapses ?new [] before @ restore_collapses ?new [?h] originals @ restore_collapses ?new [] after"
    using assms(1,3) by (simp add: restore_append new)
  also have "\<dots> = restore_collapses ?old [] (before @ originals @ after)"
    using assms(4) by (simp add: same restore_append)
  finally show ?thesis by (simp add: RestoreProjection_by_id)
qed

lemma Project_keeps [simp]:
  "collapseIDFromMessage (Project m k) = collapseIDFromMessage m" "isSummary (Project m k) = isSummary m" "cm_Role (Project m k) = cm_Role m"
  by (simp_all add: Project_def collapseIDFromMessage_def isSummary_def Let_def)

lemma prepared_mentions: "mentions i (prepared cfg req) \<longleftrightarrow> mentions i (cxr_Messages req)"
proof -
  have "mentions i ms \<longleftrightarrow> Some i \<in> set (map collapseIDFromMessage ms)" for ms by (auto simp: mentions_def image_iff intro: sym)
  moreover have "map collapseIDFromMessage (prepared cfg req) = map collapseIDFromMessage (cxr_Messages req)"
    by (simp add: prepared_def budgetToolMessages_def)
  ultimately show ?thesis by (simp only:)
qed

lemma summarize_collapse:
  assumes "summarize cfg ProfileDeep previous dropped recent b md = Inr (summary, collapses, auto_compact)"
  obtains c where "collapses = [c]" and "collapseIDFromMessage summary = Some (co_ID c)" and "co_ID c \<noteq> ''''"
    and "co_Originals c = previous @ dropped"
  using assms collapse_id_nonempty
  by (fastforce simp: summarize_def Let_def buildCollapse_def collapseIDFromMessage_def split: sum.splits)

text \<open>Nothing is lost in the deep profile: expanding the collapses in the compressed messages gives what
  expanding the earlier collapses in the input gives, with the system messages and summaries moved to
  the front, provided the ID of the new collapse is fresh.
\<close>

theorem collapse_restores:
  assumes "cc_Profile cfg = ProfileDeep" and "Compress ctx cfg req = Inr res"
    and "\<forall>c \<in> set (cxo_Collapses res). \<not> mentions (co_ID c) (cxr_Messages req) \<and> (\<forall>d \<in> set earlier. \<not> mentions (co_ID c) (co_Originals d))"
  shows "RestoreProjection (cxo_Messages res) (earlier @ cxo_Collapses res)
    = RestoreProjection (system_of (prepared cfg req) @ previous_of (prepared cfg req) @ conversation_of (prepared cfg req)) earlier"
proof -
  let ?sys = "system_of (prepared cfg req)" and ?prev = "previous_of (prepared cfg req)" and ?conv = "conversation_of (prepared cfg req)"
  from assms(2) obtain s middle where msgs: "cxo_Messages res = ?sys @ middle @ drop s ?conv"
    and none: "take s ?conv = [] \<Longrightarrow> middle = ?prev \<and> cxo_Collapses res = []"
    and some: "take s ?conv \<noteq> [] \<Longrightarrow> \<exists>summary auto_compact.
       summarize cfg (if cc_Profile cfg = '''' then ProfileStandard else cc_Profile cfg) ?prev
         (take s ?conv) (drop s ?conv) (effective_of cfg req) (cxr_Metadata req)
         = Inr (summary, cxo_Collapses res, auto_compact) \<and> middle = [summary]"
    by (rule Compress_Inr) blast
  show ?thesis
  proof (cases "take s ?conv = []")
    case True
    then have "drop s ?conv = ?conv" by (cases "s = 0") auto
    with none [OF True] msgs show ?thesis by simp
  next
    case False
    from some [OF False] assms(1) obtain summary auto_compact where
      sm: "summarize cfg ProfileDeep ?prev (take s ?conv) (drop s ?conv) (effective_of cfg req) (cxr_Metadata req)
         = Inr (summary, cxo_Collapses res, auto_compact)" "middle = [summary]" by auto
    from sm(1) obtain c where c: "cxo_Collapses res = [c]" "collapseIDFromMessage summary = Some (co_ID c)" "co_ID c \<noteq> ''''"
      "co_Originals c = ?prev @ take s ?conv" by (rule summarize_collapse)
    have "\<not> mentions (co_ID c) (prepared cfg req)" using assms(3) c(1) by (simp add: prepared_mentions)
    then have "\<not> mentions (co_ID c) (?sys @ (?prev @ take s ?conv) @ drop s ?conv)"
      by (auto simp: mentions_def split_messages_def dest: in_set_takeD in_set_dropD)
    moreover have "\<forall>d \<in> set earlier. \<not> mentions (co_ID c) (co_Originals d)" using assms(3) c(1) by simp
    ultimately have "RestoreProjection (?sys @ summary # drop s ?conv) (earlier @ [c])
        = RestoreProjection (?sys @ (?prev @ take s ?conv) @ drop s ?conv) earlier"
      by (intro restore_collapse [OF c(2-4)])
    then show ?thesis using msgs sm(2) c(1) by simp
  qed
qed

text \<open>
  A projected tool message is projected again when it is fed back: each pass wraps the content once
  more, so an incremental caller sees the tool results grow.
\<close>

lemma join_last_length: "xs \<noteq> [] \<Longrightarrow> length (last xs) \<le> length (string_join sep xs)"
  by (induction sep xs rule: string_join.induct) auto

lemma project_grows:
  assumes "cm_Role m = RoleTool" and "k \<le> 0"
  shows "length (cm_Content m) < length (cm_Content (Project m k))"
proof -
  have c: "cm_Content (Project m k) = string_join [CHR 0x0A] (project_lines m (cm_Content m))"
    using assms by (simp add: Project_def toolbudget_Apply_def Let_def)
  have "project_lines m (cm_Content m) \<noteq> []" "last (project_lines m (cm_Content m)) = ''result='' @ cm_Content m"
    by (simp_all add: project_lines_def)
  with join_last_length [of "project_lines m (cm_Content m)" "[CHR 0x0A]"] show ?thesis unfolding c by simp
qed

lemma project_not_idempotent:
  assumes "cm_Role m = RoleTool" and "k \<le> 0"
  shows "Project (Project m k) k \<noteq> Project m k"
  using project_grows [of "Project m k" k] assms by auto

section \<open>Examples\<close>

definition demo_message :: "string \<Rightarrow> string \<Rightarrow> CtxMessage" where
  "demo_message role content = \<lparr>cm_ID = '''', cm_Role = role, cm_Content = content, cm_Images = [], cm_ToolName = '''',
     cm_ToolCallID = '''', cm_Status = '''', cm_Ref = '''', cm_Metadata = []\<rparr>"

definition demo_ctx_config :: CtxConfig where
  "demo_ctx_config = \<lparr>cc_Budget = \<lparr>bg_MaxChars = 5, bg_MaxTokens = 0\<rparr>, cc_Profile = ProfileDeep, cc_MinRecent = 1, cc_MaxToolChars = 0,
     cc_CountTokens = None, cc_Summarizer = None, cc_sha1hex = (\<lambda>x. ''0123456789abcdef'')\<rparr>"

definition demo_ctx_request :: CtxRequest where
  "demo_ctx_request = \<lparr>cxr_Messages = [demo_message RoleSystem ''s'', demo_message RoleUser ''old'', demo_message RoleUser ''new''],
     cxr_Budget = \<lparr>bg_MaxChars = 0, bg_MaxTokens = 0\<rparr>, cxr_Metadata = []\<rparr>"

lemma demo_config_new: "demo_ctx_config = window_New (\<lambda>x. None) demo_ctx_config"
  by (simp add: window_New_def demo_ctx_config_def)

abbreviation demo_old :: CtxMessage where "demo_old \<equiv> demo_message RoleUser ''old''"
abbreviation demo_new_message :: CtxMessage where "demo_new_message \<equiv> demo_message RoleUser ''new''"

lemma demo_parts:
  "system_of (prepared demo_ctx_config demo_ctx_request) = [demo_message RoleSystem ''s'']"
  "previous_of (prepared demo_ctx_config demo_ctx_request) = []"
  "conversation_of (prepared demo_ctx_config demo_ctx_request) = [demo_old, demo_new_message]"
  "effective_of demo_ctx_config demo_ctx_request = \<lparr>bg_MaxChars = 5, bg_MaxTokens = 0\<rparr>" "cc_MinRecent demo_ctx_config = 1"
  by (simp_all add: prepared_def demo_ctx_request_def budgetToolMessages_def split_messages_def isSummary_def demo_message_def
      effective_of_def effectiveBudget_def Bounded_def demo_ctx_config_def)

lemma demo_costs:
  "message_cost demo_ctx_config \<lparr>bg_MaxChars = 5, bg_MaxTokens = 0\<rparr> (demo_message role content)
     = \<lparr>co_chars = int (rune_count content), co_tokens = 0\<rparr>"
  by (simp add: message_cost_def CharLen_def demo_message_def demo_ctx_config_def)

lemma demo_window:
  "windowStart [demo_old, demo_new_message] 1 True (coster demo_ctx_config \<lparr>bg_MaxChars = 5, bg_MaxTokens = 0\<rparr>)
     (\<lambda>kept. budget_fits \<lparr>bg_MaxChars = 5, bg_MaxTokens = 0\<rparr>
       (cost_add (coster demo_ctx_config \<lparr>bg_MaxChars = 5, bg_MaxTokens = 0\<rparr> [demo_message RoleSystem ''s'']) kept))
     = (1, \<lparr>co_chars = 3, co_tokens = 0\<rparr>)"
proof -
  have "turnBoundaries [demo_old, demo_new_message] = [0, 1]"
    by (simp add: turnBoundaries_def Let_def is_boundary_def demo_message_def upt_rec)
  then show ?thesis
    by (simp add: windowStart_def Let_def coster_def demo_costs rune_count_def rune_chunks_ascii cost_add_def budget_fits_def)
qed

lemma demo_compressed:
  "\<exists>res. Compress None demo_ctx_config demo_ctx_request = Inr res \<and> cxo_Dropped res = 1"
proof -
  let ?b = "\<lparr>bg_MaxChars = 5, bg_MaxTokens = 0\<rparr>"
  have sp: "split_messages (prepared demo_ctx_config demo_ctx_request) = ([demo_message RoleSystem ''s''], [], [demo_old, demo_new_message])"
    using demo_parts(1-3) by (metis prod.collapse)
  have "\<exists>x. summarize demo_ctx_config ProfileDeep [] [demo_old] [demo_new_message] ?b [] = Inr x"
    by (simp add: summarize_def Let_def demo_ctx_config_def)
  moreover have "cc_Profile demo_ctx_config = ProfileDeep" "cxr_Metadata demo_ctx_request = []" "Bounded ?b"
    by (simp_all add: demo_ctx_config_def demo_ctx_request_def Bounded_def)
  ultimately show ?thesis
    unfolding Compress_def Let_def effective_of_def [symmetric] prepared_def [symmetric] demo_parts sp
    by (auto simp: demo_window)
qed

theorem compress_keeps_newest_turns_witness:
  "\<exists>res. Compress None demo_ctx_config demo_ctx_request = Inr res \<and> cxo_Dropped res = 1
     \<and> newest_turns [demo_message RoleUser ''old'', demo_message RoleUser ''new''] 1
         (\<lambda>kept. budget_fits \<lparr>bg_MaxChars = 5, bg_MaxTokens = 0\<rparr>
            (coster demo_ctx_config \<lparr>bg_MaxChars = 5, bg_MaxTokens = 0\<rparr> (demo_message RoleSystem ''s'' # kept))) 1"
proof -
  obtain res where res: "Compress None demo_ctx_config demo_ctx_request = Inr res" "cxo_Dropped res = 1"
    using demo_compressed by blast
  have "Bounded \<lparr>bg_MaxChars = 5, bg_MaxTokens = 0\<rparr>" by (simp add: Bounded_def)
  with compress_keeps_newest_turns [OF demo_config_new res(1)] res show ?thesis
    unfolding Let_def demo_parts by auto
qed

theorem collapse_restores_witness:
  "\<exists>res. Compress None demo_ctx_config demo_ctx_request = Inr res \<and> cxo_Dropped res = 1
     \<and> RestoreProjection (cxo_Messages res) (cxo_Collapses res) = cxr_Messages demo_ctx_request"
proof -
  obtain res where res: "Compress None demo_ctx_config demo_ctx_request = Inr res" "cxo_Dropped res = 1"
    using demo_compressed by blast
  have d: "cc_Profile demo_ctx_config = ProfileDeep" by (simp add: demo_ctx_config_def)
  have ids: "\<not> mentions i (cxr_Messages demo_ctx_request)" for i
    by (simp add: demo_ctx_request_def demo_message_def collapseIDFromMessage_def)
  have p: "system_of (prepared demo_ctx_config demo_ctx_request) @ previous_of (prepared demo_ctx_config demo_ctx_request)
      @ conversation_of (prepared demo_ctx_config demo_ctx_request) = cxr_Messages demo_ctx_request"
    unfolding demo_parts by (simp add: demo_ctx_request_def)
  from collapse_restores [OF d res(1), of "[]"] ids p res show ?thesis
    by (simp add: RestoreProjection_by_id by_id_def restore_nothing)
qed

end
