(* ===== verification/Host_Lifecycle.thy ===== *)
theory Host_Lifecycle
  imports GoPrelude
begin

text \<open>
  \<open>hostkit/result.go\<close> and \<open>hostkit/lifecycle.go\<close>: the classification of host failures, and the run of a
  service from its start to one terminal result.

  A run is a state machine. The steps of the goroutine that calls \<open>Run\<close> are \<^term>\<open>main_steps\<close>, the list of
  states its next statement may lead to: a \<open>select\<close> with several ready cases may take any of them. The
  steps of the world around it are \<^term>\<open>world_step\<close>: the channels fill, the context is cancelled, a
  deadline passes, a hook that was called returns. The two interleave freely.
\<close>

section \<open>Results\<close>

text \<open>An error is a failure with its code, safe message and cause, or another one with the errors it wraps.\<close>

datatype HostError =
    Failure string string "HostError option"
  | OtherErr string "HostError list"

fun host_Error :: "HostError \<Rightarrow> string" where
  "host_Error (Failure code safeMessage cause) = safeMessage"
| "host_Error (OtherErr message wrapped) = message"

fun as_failure :: "HostError \<Rightarrow> HostError option" where
  "as_failure (Failure code safeMessage cause) = Some (Failure code safeMessage cause)"
| "as_failure (OtherErr message []) = None"
| "as_failure (OtherErr message (e # es)) = (case as_failure e of Some f \<Rightarrow> Some f | None \<Rightarrow> as_failure (OtherErr message es))"

abbreviation CodeInternalError :: string where "CodeInternalError \<equiv> ''internal_error''"
abbreviation CodeConfigFailed :: string where "CodeConfigFailed \<equiv> ''config_failed''"
abbreviation CodeInitializationFailed :: string where "CodeInitializationFailed \<equiv> ''initialization_failed''"
abbreviation CodeListenFailed :: string where "CodeListenFailed \<equiv> ''listen_failed''"
abbreviation CodeServeFailed :: string where "CodeServeFailed \<equiv> ''serve_failed''"
abbreviation CodeShutdownTimeout :: string where "CodeShutdownTimeout \<equiv> ''shutdown_timeout''"
abbreviation CodeShutdownCleanupTimeout :: string where "CodeShutdownCleanupTimeout \<equiv> ''shutdown_cleanup_timeout''"

record HostResult =
  hr_exitCode :: int
  hr_code :: string
  hr_err :: "HostError option"

definition isKnownCode :: "string \<Rightarrow> bool" where
  "isKnownCode code \<longleftrightarrow> code \<in> {CodeInternalError, CodeConfigFailed, CodeInitializationFailed, CodeListenFailed,
     CodeServeFailed, CodeShutdownTimeout, CodeShutdownCleanupTimeout}"

definition exitCode :: "string \<Rightarrow> int" where
  "exitCode code =
     (if code = CodeConfigFailed \<or> code = CodeInitializationFailed then 2
      else if code = CodeListenFailed then 3
      else if code = CodeServeFailed then 4
      else if code = CodeShutdownTimeout \<or> code = CodeShutdownCleanupTimeout then 5
      else 1)"

definition resultFromError :: "HostError option \<Rightarrow> HostResult" where
  "resultFromError err = (case err of
      None \<Rightarrow> \<lparr>hr_exitCode = 0, hr_code = '''', hr_err = None\<rparr>
    | Some e \<Rightarrow> (case as_failure e of
          Some (Failure code safeMessage cause) \<Rightarrow>
            if isKnownCode code
            then \<lparr>hr_exitCode = exitCode code, hr_code = code, hr_err = Some (Failure code safeMessage cause)\<rparr>
            else \<lparr>hr_exitCode = exitCode CodeInternalError, hr_code = CodeInternalError,
                  hr_err = Some (Failure CodeInternalError ''internal error'' (Some e))\<rparr>
        | _ \<Rightarrow> \<lparr>hr_exitCode = exitCode CodeInternalError, hr_code = CodeInternalError,
                hr_err = Some (Failure CodeInternalError ''internal error'' (Some e))\<rparr>))"

text \<open>The fields of the error line; \<open>emit\<close> is the JSON encoder on the writer.\<close>

record HostLine =
  hl_Level :: string
  hl_Event :: string
  hl_Code :: string
  hl_Message :: string

definition WriteError :: "(HostLine \<Rightarrow> 'w \<Rightarrow> string option \<times> 'w) \<Rightarrow> HostResult \<Rightarrow> 'w \<Rightarrow> string option \<times> 'w" where
  "WriteError emit result w =
     (if hr_exitCode result = 0 then (None, w)
      else emit \<lparr>hl_Level = ''error'', hl_Event = ''host_exit'', hl_Code = hr_code result,
                 hl_Message = (case hr_err result of Some e \<Rightarrow> host_Error e | None \<Rightarrow> '''')\<rparr> w)"

definition deadline_exceeded :: HostError where
  "deadline_exceeded = OtherErr ''context deadline exceeded'' []"

definition shutdownTimeoutError :: HostError where
  "shutdownTimeoutError = Failure CodeShutdownTimeout ''shutdown timed out'' (Some deadline_exceeded)"

definition cleanupTimeoutResult :: HostResult where
  "cleanupTimeoutResult = resultFromError
     (Some (Failure CodeShutdownCleanupTimeout ''shutdown cleanup timed out'' (Some deadline_exceeded)))"

section \<open>The state of a run\<close>

record HostOptions =
  opt_DrainTimeout :: int
  opt_CleanupTimeout :: int

datatype hook = Start | Drain | ForceStop | Close

text \<open>What the run saw, in order: a hook it called, what it returned, its timeout, and a value from \<open>Done\<close>.\<close>

datatype host_event =
    CallHook hook
  | HookResult hook "HostError option"
  | HookTimeout hook
  | DoneSeen "HostError option"

text \<open>A call in another goroutine: not made, running, or returned into its buffered channel.\<close>

datatype call = NotCalled | Running | Returned "HostError option"

text \<open>
  Where \<open>Run\<close> stands: waiting for \<open>Start\<close>, at the two selects of its loop with the shutdown flag, at the
  two selects of \<open>drain\<close> with its terminal, in the forced stop or the close of \<open>cleanup\<close> with the outcome,
  or returned.
\<close>

datatype phase =
    Starting
  | ServeTop bool
  | ServeWait
  | DrainTop "(bool \<times> HostError option) option"
  | DrainWait
  | Forcing "HostError option"
  | Closing "HostError option"
  | Finished HostResult

record host =
  h_phase :: phase
  h_done :: "HostError option list"
  h_done_closed :: bool
  h_listening :: bool
  h_interrupts :: nat
  h_interrupts_closed :: bool
  h_cancelled :: bool
  h_start :: call
  h_drain :: call
  h_drain_expired :: bool
  h_hook :: call
  h_cleanup_expired :: bool
  h_log :: "host_event list"

definition note_event :: "host_event \<Rightarrow> host \<Rightarrow> host" where
  "note_event e s = s\<lparr>h_log := h_log s @ [e]\<rparr>"

text \<open>The values a receive from \<open>Done\<close> may give, with the channel after it: none when it would block.\<close>

definition receive_done :: "host \<Rightarrow> (HostError option \<times> host) list" where
  "receive_done s = (if \<not> h_listening s then []
     else case h_done s of
       e # q \<Rightarrow> [(e, note_event (DoneSeen e) (s\<lparr>h_done := q\<rparr>))]
     | [] \<Rightarrow> if h_done_closed s then [(None, note_event (DoneSeen None) s)] else [])"

definition receive_interrupt :: "host \<Rightarrow> host list" where
  "receive_interrupt s = (if h_interrupts s > 0 then [s\<lparr>h_interrupts := h_interrupts s - 1\<rparr>]
     else if h_interrupts_closed s then [s] else [])"

section \<open>The steps of the run\<close>

definition go_hook :: "hook \<Rightarrow> (HostError option \<Rightarrow> phase) \<Rightarrow> HostError option \<Rightarrow> host \<Rightarrow> host" where
  "go_hook k during outcome s = note_event (CallHook k) (s\<lparr>h_phase := during outcome, h_hook := Running\<rparr>)"

definition cleanup :: "bool \<Rightarrow> HostError option \<Rightarrow> host \<Rightarrow> host" where
  "cleanup force outcome s =
     (let s = s\<lparr>h_cleanup_expired := False\<rparr>
      in if force then go_hook ForceStop Forcing outcome s else go_hook Close Closing outcome s)"

text \<open>The ways \<open>runCleanupHook\<close> may return: the error of the hook, or nothing on a timeout.\<close>

definition runCleanupHook :: "hook \<Rightarrow> host \<Rightarrow> (HostError option option \<times> host) list" where
  "runCleanupHook k s =
     (case h_hook s of
        Returned err \<Rightarrow> (if h_cleanup_expired s then [(None, note_event (HookTimeout k) s)]
                         else [(Some err, note_event (HookResult k err) s)])
      | _ \<Rightarrow> [])
     @ (if h_cleanup_expired s then [(None, note_event (HookTimeout k) s)] else [])"

definition first_outcome :: "HostError option \<Rightarrow> HostError option \<Rightarrow> HostError option" where
  "first_outcome outcome err = (if err \<noteq> None \<and> outcome = None then err else outcome)"

definition cleanup_steps :: "host \<Rightarrow> host list" where
  "cleanup_steps s = (case h_phase s of
      Forcing outcome \<Rightarrow> map (\<lambda>(r, s). case r of
          None \<Rightarrow> s\<lparr>h_phase := Finished cleanupTimeoutResult\<rparr>
        | Some err \<Rightarrow> go_hook Close Closing (first_outcome outcome err) s) (runCleanupHook ForceStop s)
    | Closing outcome \<Rightarrow> map (\<lambda>(r, s). case r of
          None \<Rightarrow> s\<lparr>h_phase := Finished cleanupTimeoutResult\<rparr>
        | Some err \<Rightarrow> s\<lparr>h_phase := Finished (resultFromError (first_outcome outcome err))\<rparr>) (runCleanupHook Close s)
    | _ \<Rightarrow> [])"

definition done_terminal :: "HostError option \<Rightarrow> (bool \<times> HostError option) option \<Rightarrow> (bool \<times> HostError option) option" where
  "done_terminal err terminal = (case err of Some e \<Rightarrow> Some (True, Some e) | None \<Rightarrow> terminal)"

definition drain_checked :: "(bool \<times> HostError option) option \<Rightarrow> host \<Rightarrow> host" where
  "drain_checked terminal s = (case terminal of
      Some (force, outcome) \<Rightarrow> cleanup force outcome s
    | None \<Rightarrow> s\<lparr>h_phase := DrainWait\<rparr>)"

definition drain_steps :: "host \<Rightarrow> host list" where
  "drain_steps s = (case h_phase s of
      DrainTop terminal \<Rightarrow>
        (case receive_done s of
           [] \<Rightarrow> [drain_checked terminal s]
         | rs \<Rightarrow> map (\<lambda>(err, s). drain_checked (done_terminal err terminal) (s\<lparr>h_listening := False\<rparr>)) rs)
    | DrainWait \<Rightarrow>
        map (\<lambda>(err, s). s\<lparr>h_listening := False, h_phase := DrainTop (done_terminal err None)\<rparr>) (receive_done s)
        @ (case h_drain s of
             Returned err \<Rightarrow>
               [note_event (HookResult Drain err) (s\<lparr>h_phase := DrainTop (Some
                  (if h_drain_expired s then (True, Some shutdownTimeoutError) else (err \<noteq> None, err)))\<rparr>)]
           | _ \<Rightarrow> [])
        @ (if h_drain_expired s then [s\<lparr>h_phase := DrainTop (Some (True, Some shutdownTimeoutError))\<rparr>] else [])
        @ map (\<lambda>s. s\<lparr>h_phase := DrainTop (Some (True, Some shutdownTimeoutError))\<rparr>) (receive_interrupt s)
    | _ \<Rightarrow> [])"

definition drain :: "host \<Rightarrow> host" where
  "drain s = note_event (CallHook Drain) (s\<lparr>h_phase := DrainTop None, h_drain := Running, h_drain_expired := False\<rparr>)"

definition stopped_error :: "HostError option \<Rightarrow> HostError option" where
  "stopped_error err = (case err of
      None \<Rightarrow> Some (OtherErr ''hostkit: service stopped without an error'' [])
    | Some e \<Rightarrow> Some e)"

definition serve_steps :: "host \<Rightarrow> host list" where
  "serve_steps s = (case h_phase s of
      Starting \<Rightarrow>
        (case h_start s of
           Returned err \<Rightarrow>
             (let s = note_event (HookResult Start err) s
              in [case err of
                    Some e \<Rightarrow> cleanup False (Some e) s
                  | None \<Rightarrow> s\<lparr>h_phase := ServeTop False, h_listening := True\<rparr>])
         | _ \<Rightarrow> [])
    | ServeTop shutdownRequested \<Rightarrow>
        (case receive_done s of
           [] \<Rightarrow> [if shutdownRequested then drain s else s\<lparr>h_phase := ServeWait\<rparr>]
         | rs \<Rightarrow> map (\<lambda>(err, s). cleanup True (stopped_error err) s) rs)
    | ServeWait \<Rightarrow>
        map (\<lambda>(err, s). cleanup True (stopped_error err) s) (receive_done s)
        @ (if h_cancelled s then [s\<lparr>h_phase := ServeTop True\<rparr>] else [])
        @ map (\<lambda>s. s\<lparr>h_phase := ServeTop True\<rparr>) (receive_interrupt s)
    | _ \<Rightarrow> [])"

definition main_steps :: "host \<Rightarrow> host list" where
  "main_steps s = serve_steps s @ drain_steps s @ cleanup_steps s"

definition host_Run :: "HostOptions \<Rightarrow> bool \<Rightarrow> bool \<Rightarrow> host" where
  "host_Run options nil_service cancelled =
     (let s = \<lparr>h_phase = Starting, h_done = [], h_done_closed = False, h_listening = False, h_interrupts = 0,
               h_interrupts_closed = False, h_cancelled = cancelled, h_start = NotCalled, h_drain = NotCalled,
               h_drain_expired = False, h_hook = NotCalled, h_cleanup_expired = False, h_log = []\<rparr>
      in if opt_DrainTimeout options \<le> 0 \<or> opt_CleanupTimeout options \<le> 0
         then s\<lparr>h_phase := Finished (resultFromError (Some (OtherErr ''hostkit: lifecycle timeouts must be positive'' [])))\<rparr>
         else if nil_service then s\<lparr>h_phase := Finished (resultFromError (Some (OtherErr ''hostkit: nil service'' [])))\<rparr>
         else note_event (CallHook Start) (s\<lparr>h_start := Running\<rparr>))"

section \<open>The steps of the world\<close>

datatype world_event =
    SendDone "HostError option"
  | CloseDone
  | SendInterrupt
  | CloseInterrupts
  | CancelContext
  | ReturnStart "HostError option"
  | ReturnDrain "HostError option"
  | ReturnHook "HostError option"
  | DrainDeadline
  | CleanupDeadline

definition return_call :: "HostError option \<Rightarrow> call \<Rightarrow> call" where
  "return_call err c = (case c of Running \<Rightarrow> Returned err | _ \<Rightarrow> c)"

fun world_step :: "world_event \<Rightarrow> host \<Rightarrow> host" where
  "world_step (SendDone err) s = (if h_done_closed s then s else s\<lparr>h_done := h_done s @ [err]\<rparr>)"
| "world_step CloseDone s = s\<lparr>h_done_closed := True\<rparr>"
| "world_step SendInterrupt s = (if h_interrupts_closed s then s else s\<lparr>h_interrupts := h_interrupts s + 1\<rparr>)"
| "world_step CloseInterrupts s = s\<lparr>h_interrupts_closed := True\<rparr>"
| "world_step CancelContext s = s\<lparr>h_cancelled := True\<rparr>"
| "world_step (ReturnStart err) s = s\<lparr>h_start := return_call err (h_start s)\<rparr>"
| "world_step (ReturnDrain err) s = s\<lparr>h_drain := return_call err (h_drain s)\<rparr>"
| "world_step (ReturnHook err) s = s\<lparr>h_hook := return_call err (h_hook s)\<rparr>"
| "world_step DrainDeadline s = s\<lparr>h_drain_expired := True\<rparr>"
| "world_step CleanupDeadline s = s\<lparr>h_cleanup_expired := True\<rparr>"

text \<open>The states a run may be in, with the number of steps \<open>Run\<close> itself took.\<close>

inductive host_reachable :: "HostOptions \<Rightarrow> nat \<Rightarrow> host \<Rightarrow> bool" for options where
  reachable_Run: "host_reachable options 0 (host_Run options nil_service cancelled)"
| reachable_main: "host_reachable options n s \<Longrightarrow> s' \<in> set (main_steps s) \<Longrightarrow> host_reachable options (Suc n) s'"
| reachable_world: "host_reachable options n s \<Longrightarrow> host_reachable options n (world_step e s)"

end
