(* ===== verification/Host_Laws.thy ===== *)
theory Host_Laws
  imports Host_Lifecycle "HOL-Library.Sublist"
begin

text \<open>
  What every run of a host guarantees, by an abstract machine on the phases that the steps of \<open>Run\<close>
  refine: the order of the hooks, when the exit code is 0, that a reported failure is kept, and that
  the run takes boundedly many steps.
\<close>

section \<open>Every step of the run, by phase\<close>

text \<open>The phase a step leads to and the events it notes; the rest of the state is the world's.\<close>

lemma note_event_simps [simp]:
  "h_log (note_event e s) = h_log s @ [e]" "h_phase (note_event e s) = h_phase s" "h_listening (note_event e s) = h_listening s"
  "h_hook (note_event e s) = h_hook s" "h_drain (note_event e s) = h_drain s"
  "h_cleanup_expired (note_event e s) = h_cleanup_expired s" "h_drain_expired (note_event e s) = h_drain_expired s"
  by (simp_all add: note_event_def)

lemma go_hook_simps [simp]:
  "h_log (go_hook k p out s) = h_log s @ [CallHook k]" "h_phase (go_hook k p out s) = p out" "h_listening (go_hook k p out s) = h_listening s"
  by (simp_all add: go_hook_def)

lemma world_step_simps [simp]:
  "h_phase (world_step e s) = h_phase s" "h_log (world_step e s) = h_log s" "h_listening (world_step e s) = h_listening s"
  by (cases e; simp)+

lemma receive_done_some:
  assumes "(err, s') \<in> set (receive_done s)"
  shows "h_log s' = h_log s @ [DoneSeen err]" "h_phase s' = h_phase s" "h_listening s'" "h_listening s"
  using assms by (auto simp: receive_done_def split: if_splits list.splits)

lemma receive_interrupt_some:
  assumes "s' \<in> set (receive_interrupt s)"
  shows "h_log s' = h_log s" "h_phase s' = h_phase s" "h_listening s' = h_listening s"
  using assms by (auto simp: receive_interrupt_def split: if_splits)

definition hook_of :: "bool \<Rightarrow> hook" where
  "hook_of force = (if force then ForceStop else Close)"

definition phase_of :: "bool \<Rightarrow> HostError option \<Rightarrow> phase" where
  "phase_of force outcome = (if force then Forcing outcome else Closing outcome)"

lemma cleanup_simps [simp]:
  "h_log (cleanup force outcome s) = h_log s @ [CallHook (hook_of force)]" "h_phase (cleanup force outcome s) = phase_of force outcome"
  "h_listening (cleanup force outcome s) = h_listening s"
  by (simp_all add: cleanup_def Let_def hook_of_def phase_of_def)

lemma runCleanupHook_some:
  assumes "(r, s') \<in> set (runCleanupHook k s)"
  shows "h_phase s' = h_phase s" "h_log s' = h_log s @ [case r of None \<Rightarrow> HookTimeout k | Some err \<Rightarrow> HookResult k err]"
    "h_listening s' = h_listening s"
  using assms by (auto simp: runCleanupHook_def split: call.splits if_splits)

text \<open>The transitions of the run: the phases and the events of one step.\<close>

inductive moves :: "phase \<Rightarrow> bool \<Rightarrow> host_event list \<Rightarrow> phase \<Rightarrow> bool \<Rightarrow> bool" where
  start_failed: "moves Starting l [HookResult Start (Some e), CallHook Close] (Closing (Some e)) l"
| started: "moves Starting l [HookResult Start None] (ServeTop False) True"
| stopped_top: "moves (ServeTop b) True [DoneSeen err, CallHook ForceStop] (Forcing (stopped_error err)) True"
| wait: "moves (ServeTop False) l [] ServeWait l"
| stopped: "moves ServeWait True [DoneSeen err, CallHook ForceStop] (Forcing (stopped_error err)) True"
| requested: "moves ServeWait l [] (ServeTop True) l"
| draining: "moves (ServeTop True) l [CallHook Drain] (DrainTop None) l"
| top_done: "moves (DrainTop None) True [DoneSeen None] DrainWait False"
| top_failed: "moves (DrainTop t) True [DoneSeen (Some e), CallHook ForceStop] (Forcing (Some e)) False"
| top_terminal_done: "moves (DrainTop (Some (force, outcome))) True [DoneSeen None, CallHook (hook_of force)] (phase_of force outcome) False"
| top_terminal: "moves (DrainTop (Some (force, outcome))) l [CallHook (hook_of force)] (phase_of force outcome) l"
| top_wait: "moves (DrainTop None) l [] DrainWait l"
| wait_done: "moves DrainWait True [DoneSeen None] (DrainTop None) False"
| wait_failed: "moves DrainWait True [DoneSeen (Some e)] (DrainTop (Some (True, Some e))) False"
| drained: "moves DrainWait l [HookResult Drain err] (DrainTop (Some (err \<noteq> None, err))) l"
| drained_late: "moves DrainWait l [HookResult Drain err] (DrainTop (Some (True, Some shutdownTimeoutError))) l"
| impatient: "moves DrainWait l [] (DrainTop (Some (True, Some shutdownTimeoutError))) l"
| force_timeout: "moves (Forcing outcome) l [HookTimeout ForceStop] (Finished cleanupTimeoutResult) l"
| forced: "moves (Forcing outcome) l [HookResult ForceStop err, CallHook Close] (Closing (first_outcome outcome err)) l"
| close_timeout: "moves (Closing outcome) l [HookTimeout Close] (Finished cleanupTimeoutResult) l"
| closed: "moves (Closing outcome) l [HookResult Close err] (Finished (resultFromError (first_outcome outcome err))) l"

abbreviation moving :: "host \<Rightarrow> host \<Rightarrow> bool" where
  "moving s s' \<equiv> \<exists>ev. moves (h_phase s) (h_listening s) ev (h_phase s') (h_listening s') \<and> h_log s' = h_log s @ ev"

lemma serve_moves:
  assumes "s' \<in> set (serve_steps s)"
  shows "moving s s'"
proof (cases "h_phase s")
  case Starting
  with assms obtain err where "s' = (case err of Some e \<Rightarrow> cleanup False (Some e) (note_event (HookResult Start err) s)
      | None \<Rightarrow> (note_event (HookResult Start err) s)\<lparr>h_phase := ServeTop False, h_listening := True\<rparr>)"
    by (auto simp: serve_steps_def Let_def split: call.splits)
  then show ?thesis using Starting
    by (cases err) (auto simp: hook_of_def phase_of_def intro: start_failed started)
next
  case (ServeTop b)
  show ?thesis
  proof (cases "receive_done s")
    case Nil
    then show ?thesis using assms ServeTop by (cases b) (auto simp: serve_steps_def drain_def intro: wait draining)
  next
    case (Cons r rs)
    with assms ServeTop obtain err s1 where r: "(err, s1) \<in> set (receive_done s)" "s' = cleanup True (stopped_error err) s1"
      by (cases r) (auto simp: serve_steps_def)
    with receive_done_some [OF r(1)] ServeTop show ?thesis
      by (auto simp: hook_of_def phase_of_def intro: stopped_top)
  qed
next
  case ServeWait
  with assms consider err s1 where "(err, s1) \<in> set (receive_done s)" "s' = cleanup True (stopped_error err) s1"
    | "s' = s\<lparr>h_phase := ServeTop True\<rparr>" | s1 where "s1 \<in> set (receive_interrupt s)" "s' = s1\<lparr>h_phase := ServeTop True\<rparr>"
    by (auto simp: serve_steps_def split: if_splits)
  then show ?thesis
  proof cases
    case 1
    with receive_done_some [OF 1(1)] ServeWait show ?thesis by (auto simp: hook_of_def phase_of_def intro: stopped)
  next
    case 2
    with ServeWait show ?thesis by (auto intro: requested)
  next
    case 3
    with receive_interrupt_some [OF 3(1)] ServeWait show ?thesis by (auto intro: requested)
  qed
qed (use assms in \<open>auto simp: serve_steps_def\<close>)

lemma drain_top_moves:
  assumes "s' \<in> set (drain_steps s)" and "h_phase s = DrainTop t"
  shows "moving s s'"
proof (cases "receive_done s")
  case Nil
  then show ?thesis using assms
    by (cases t) (auto simp: drain_steps_def drain_checked_def intro: top_wait top_terminal)
next
  case (Cons r rs)
  with assms obtain err s1 where r: "(err, s1) \<in> set (receive_done s)"
    "s' = drain_checked (done_terminal err t) (s1\<lparr>h_listening := False\<rparr>)"
    by (cases r) (auto simp: drain_steps_def)
  note f = receive_done_some [OF r(1)]
  show ?thesis
  proof (cases err)
    case None
    with r f assms(2) show ?thesis
      by (cases t) (auto simp: drain_checked_def done_terminal_def intro: top_done top_terminal_done)
  next
    case (Some e)
    with r f assms(2) show ?thesis
      by (auto simp: drain_checked_def done_terminal_def hook_of_def phase_of_def intro: top_failed)
  qed
qed

lemma drain_wait_moves:
  assumes "s' \<in> set (drain_steps s)" and "h_phase s = DrainWait"
  shows "moving s s'"
proof -
  from assms consider err s1 where "(err, s1) \<in> set (receive_done s)" "s' = s1\<lparr>h_listening := False, h_phase := DrainTop (done_terminal err None)\<rparr>"
    | err where "s' = note_event (HookResult Drain err) (s\<lparr>h_phase := DrainTop (Some (err \<noteq> None, err))\<rparr>)"
    | err where "s' = note_event (HookResult Drain err) (s\<lparr>h_phase := DrainTop (Some (True, Some shutdownTimeoutError))\<rparr>)"
    | "s' = s\<lparr>h_phase := DrainTop (Some (True, Some shutdownTimeoutError))\<rparr>"
    | s1 where "s1 \<in> set (receive_interrupt s)" "s' = s1\<lparr>h_phase := DrainTop (Some (True, Some shutdownTimeoutError))\<rparr>"
    by (cases "h_drain_expired s") (auto simp: drain_steps_def split: call.splits)
  then show ?thesis
  proof cases
    case 1
    then show ?thesis using receive_done_some [OF 1(1)] assms(2)
      by (cases err) (auto simp: done_terminal_def intro: wait_done wait_failed)
  next
    case 2
    then show ?thesis using assms(2) drained [of "h_listening s" err] by auto
  next
    case 3
    then show ?thesis using assms(2) by (auto intro: drained_late)
  next
    case 4
    then show ?thesis using assms(2) by (auto intro: impatient)
  next
    case 5
    then show ?thesis using receive_interrupt_some [OF 5(1)] assms(2) by (auto intro: impatient)
  qed
qed

lemma cleanup_moves:
  assumes "s' \<in> set (cleanup_steps s)"
  shows "moving s s'"
proof (cases "h_phase s")
  case (Forcing out)
  with assms obtain r s1 where r: "(r, s1) \<in> set (runCleanupHook ForceStop s)"
    "s' = (case r of None \<Rightarrow> s1\<lparr>h_phase := Finished cleanupTimeoutResult\<rparr> | Some err \<Rightarrow> go_hook Close Closing (first_outcome out err) s1)"
    by (auto simp: cleanup_steps_def)
  with runCleanupHook_some [OF r(1)] Forcing show ?thesis by (cases r) (auto intro: force_timeout forced)
next
  case (Closing out)
  with assms obtain r s1 where r: "(r, s1) \<in> set (runCleanupHook Close s)"
    "s' = (case r of None \<Rightarrow> s1\<lparr>h_phase := Finished cleanupTimeoutResult\<rparr>
       | Some err \<Rightarrow> s1\<lparr>h_phase := Finished (resultFromError (first_outcome out err))\<rparr>)"
    by (auto simp: cleanup_steps_def)
  with runCleanupHook_some [OF r(1)] Closing show ?thesis by (cases r) (auto intro: close_timeout closed)
qed (use assms in \<open>auto simp: cleanup_steps_def\<close>)

lemma main_moves:
  assumes "s' \<in> set (main_steps s)"
  shows "moving s s'"
proof -
  from assms consider "s' \<in> set (serve_steps s)" | "s' \<in> set (drain_steps s)" | "s' \<in> set (cleanup_steps s)"
    by (auto simp: main_steps_def)
  then show ?thesis
  proof cases
    case 2
    then show ?thesis using drain_top_moves drain_wait_moves
      by (cases "h_phase s") (auto simp: drain_steps_def)
  qed (simp_all add: serve_moves cleanup_moves)
qed

section \<open>What holds in every phase\<close>

definition hooks :: "host_event list \<Rightarrow> host_event list" where
  "hooks l = filter (\<lambda>e. case e of DoneSeen _ \<Rightarrow> False | _ \<Rightarrow> True) l"

definition calls :: "host_event list \<Rightarrow> hook list" where
  "calls l = List.map_filter (\<lambda>e. case e of CallHook k \<Rightarrow> Some k | _ \<Rightarrow> None) l"

lemma hooks_simps [simp]: "hooks [] = []" "hooks (a @ b) = hooks a @ hooks b"
  "hooks (DoneSeen v # l) = hooks l" "hooks (CallHook k # l) = CallHook k # hooks l"
  "hooks (HookResult k err # l) = HookResult k err # hooks l" "hooks (HookTimeout k # l) = HookTimeout k # hooks l"
  by (simp_all add: hooks_def)

lemma calls_simps [simp]: "calls [] = []" "calls (a @ b) = calls a @ calls b"
  "calls (DoneSeen v # l) = calls l" "calls (CallHook k # l) = k # calls l"
  "calls (HookResult k err # l) = calls l" "calls (HookTimeout k # l) = calls l"
  by (simp_all add: calls_def List.map_filter_def)

abbreviation clean_events :: "host_event list" where
  "clean_events \<equiv> [CallHook Start, HookResult Start None, CallHook Drain, HookResult Drain None, CallHook Close, HookResult Close None]"

abbreviation no_failure :: "host_event list \<Rightarrow> bool" where
  "no_failure l \<equiv> (\<forall>e. DoneSeen (Some e) \<notin> set l)"

text \<open>The outcome is the failure the service reported, if it did, and is nothing only after clean hooks.\<close>

definition failure_kept :: "HostError option \<Rightarrow> host_event list \<Rightarrow> bool" where
  "failure_kept out l \<longleftrightarrow> (\<forall>e. DoneSeen (Some e) \<in> set l \<longrightarrow> out = Some e)"

definition outcome_ok :: "nat \<Rightarrow> HostError option \<Rightarrow> host_event list \<Rightarrow> bool" where
  "outcome_ok n out l \<longleftrightarrow> failure_kept out l \<and> (out = None \<longleftrightarrow> hooks l = take n clean_events)"

fun phase_inv :: "phase \<Rightarrow> bool \<Rightarrow> host_event list \<Rightarrow> bool" where
  "phase_inv Starting li l = (l = take 1 clean_events)"
| "phase_inv (ServeTop b) li l = (l = take 2 clean_events)"
| "phase_inv ServeWait li l = (l = take 2 clean_events)"
| "phase_inv DrainWait li l = (hooks l = take 3 clean_events \<and> no_failure l)"
| "phase_inv (DrainTop None) li l = (hooks l = take 3 clean_events \<and> no_failure l)"
| "phase_inv (DrainTop (Some (force, out))) li l = (calls l = [Start, Drain] \<and> failure_kept out l \<and> (out = None \<longrightarrow> hooks l = take 4 clean_events) \<and> (force \<longleftrightarrow> out \<noteq> None)
     \<and> (li \<longrightarrow> no_failure l))"
| "phase_inv (Forcing out) li l = (calls l \<in> {[Start, ForceStop], [Start, Drain, ForceStop]} \<and> outcome_ok 5 out l \<and> out \<noteq> None)"
| "phase_inv (Closing out) li l =
     (calls l \<in> {[Start, Close], [Start, ForceStop, Close], [Start, Drain, Close], [Start, Drain, ForceStop, Close]} \<and> outcome_ok 5 out l)"
| "phase_inv (Finished r) li l =
     (l = [] \<and> hr_exitCode r \<noteq> 0
      \<or> r = cleanupTimeoutResult \<and> HookTimeout ForceStop \<in> set l \<and> calls l \<in> {[Start, ForceStop], [Start, Drain, ForceStop]}
      \<or> calls l \<in> {[Start, Close], [Start, ForceStop, Close], [Start, Drain, Close], [Start, Drain, ForceStop, Close]}
        \<and> (r = cleanupTimeoutResult \<and> HookTimeout Close \<in> set l \<or> (\<exists>out. r = resultFromError out \<and> outcome_ok 6 out l)))"

lemma calls_hooks: "calls (hooks l) = calls l"
  by (induction l) (auto simp: hooks_def calls_def List.map_filter_def split: host_event.splits)

lemma calls_draining: "hooks l = [CallHook Start, HookResult Start None, CallHook Drain] \<Longrightarrow> calls l = [Start, Drain]"
  using calls_hooks [of l] by simp

lemma done_in_hooks [simp]: "DoneSeen v \<notin> set (hooks l)"
  by (auto simp: hooks_def)

lemma timeout_in_hooks: "HookTimeout k \<in> set (hooks l) \<longleftrightarrow> HookTimeout k \<in> set l"
  by (auto simp: hooks_def)

lemma hooks_forced: "hooks l @ [CallHook ForceStop] \<noteq> take 5 clean_events"
  by (auto simp: append_eq_Cons_conv)

lemma moves_inv:
  assumes "moves p li ev p' li'" and "phase_inv p li l"
  shows "phase_inv p' li' (l @ ev)"
  using assms
proof (induction p li ev p' li' rule: moves.induct)
  case (top_terminal force outcome l')
  then show ?case by (cases force; cases outcome) (auto simp: hook_of_def phase_of_def outcome_ok_def failure_kept_def hooks_forced)
next
  case (top_terminal_done force outcome)
  then show ?case by (cases force; cases outcome) (auto simp: hook_of_def phase_of_def outcome_ok_def failure_kept_def hooks_forced)
next
  case (drained li err)
  then show ?case by (cases err) (auto simp: outcome_ok_def failure_kept_def calls_draining)
next
  case (forced out li err)
  then show ?case by (cases err; cases out) (auto simp: outcome_ok_def failure_kept_def first_outcome_def)
next
  case (closed out li err)
  then show ?case by (cases err; cases out) (auto simp: outcome_ok_def failure_kept_def first_outcome_def)
next
  case (top_failed t e)
  then show ?case by (cases t) (auto simp: outcome_ok_def failure_kept_def calls_draining hooks_forced)
qed (auto simp: outcome_ok_def failure_kept_def calls_draining stopped_error_def split: option.splits)

text \<open>
  A property of the phase, the listening flag, the events and the number of steps that the start
  establishes and the transitions keep holds in every state of a run.
\<close>

locale host_invariant =
  fixes P :: "nat \<Rightarrow> phase \<Rightarrow> bool \<Rightarrow> host_event list \<Rightarrow> bool"
  assumes P_start: "P 0 Starting False [CallHook Start]"
    and P_refused: "hr_exitCode r \<noteq> 0 \<Longrightarrow> P 0 (Finished r) False []"
    and P_moves: "moves p li ev p' li' \<Longrightarrow> P n p li l \<Longrightarrow> P (Suc n) p' li' (l @ ev)"
begin

lemma P_Run: "P 0 (h_phase (host_Run options nil_service cancelled)) (h_listening (host_Run options nil_service cancelled)) (h_log (host_Run options nil_service cancelled))"
  using P_start P_refused by (simp add: host_Run_def Let_def note_event_def resultFromError_def exitCode_def)

lemma P_reachable: "host_reachable options n s \<Longrightarrow> P n (h_phase s) (h_listening s) (h_log s)"
proof (induction rule: host_reachable.induct)
  case (reachable_main n s s')
  from main_moves [OF reachable_main(2)] P_moves reachable_main.IH show ?case by metis
qed (simp_all add: P_Run)

end

interpretation life: host_invariant "\<lambda>n. phase_inv"
proof unfold_locales
  show "hr_exitCode r \<noteq> 0 \<Longrightarrow> phase_inv (Finished r) False []" for r by simp
qed (simp_all add: moves_inv)

fun rank :: "phase \<Rightarrow> bool \<Rightarrow> nat" where
  "rank Starting li = 11"
| "rank (ServeTop False) li = 10"
| "rank ServeWait li = 9"
| "rank (ServeTop True) li = 8"
| "rank (DrainTop None) li = (if li then 7 else 5)"
| "rank DrainWait li = (if li then 6 else 4)"
| "rank (DrainTop (Some t)) li = 3"
| "rank (Forcing out) li = 2"
| "rank (Closing out) li = 1"
| "rank (Finished r) li = 0"

lemma rank_open: "2 < rank (ServeTop b) li" "2 < rank (DrainTop t) li"
  by (cases b, simp_all) (cases t, simp_all)

lemma moves_rank: "moves p li ev p' li' \<Longrightarrow> rank p' li' < rank p li"
  by (induction rule: moves.induct) (auto simp: phase_of_def rank_open)

interpretation steps: host_invariant "\<lambda>n p li l. n + rank p li \<le> 11"
  by unfold_locales (auto dest: moves_rank)

lemma clean_exit_code: "hr_exitCode (resultFromError out) = 0 \<longleftrightarrow> out = None"
  by (auto simp: resultFromError_def exitCode_def split: option.splits HostError.splits)

lemma cleanupTimeout_exit: "hr_exitCode cleanupTimeoutResult = 5"
  by (simp add: cleanupTimeoutResult_def resultFromError_def isKnownCode_def exitCode_def)

text \<open>However the channels, deadlines and hooks interleave, the service is started first and every hook is
  called at most once, in the order start, drain, forced stop, close. When the run returns, the service
  was never started, or it was closed, or the forced stop timed out and the result says so.
\<close>

theorem host_shutdown_order:
  assumes "host_reachable options n s"
  shows "subseq (calls (h_log s)) [Start, Drain, ForceStop, Close]
    \<and> (\<forall>r. h_phase s = Finished r \<longrightarrow>
         h_log s = [] \<or> (calls (h_log s) \<noteq> [] \<and> hd (calls (h_log s)) = Start \<and> last (calls (h_log s)) = Close)
         \<or> r = cleanupTimeoutResult \<and> HookTimeout ForceStop \<in> set (h_log s))"
proof -
  have inv: "phase_inv (h_phase s) (h_listening s) (h_log s)" by (rule life.P_reachable [OF assms])
  then have c: "calls (h_log s) \<in> {[], [Start], [Start, Drain], [Start, ForceStop], [Start, Drain, ForceStop], [Start, Close],
      [Start, ForceStop, Close], [Start, Drain, Close], [Start, Drain, ForceStop, Close]}"
    by (cases "(h_phase s, h_listening s, h_log s)" rule: phase_inv.cases) (auto simp: calls_draining)
  then have "subseq (calls (h_log s)) [Start, Drain, ForceStop, Close]" by auto
  moreover have "h_log s = [] \<or> (calls (h_log s) \<noteq> [] \<and> hd (calls (h_log s)) = Start \<and> last (calls (h_log s)) = Close)
         \<or> r = cleanupTimeoutResult \<and> HookTimeout ForceStop \<in> set (h_log s)" if "h_phase s = Finished r" for r
    using inv that by auto
  ultimately show ?thesis by blast
qed

text \<open>The process exits with code 0 exactly when the run was clean: the service started, drained and closed
  without an error, none of it timed out, no forced stop was needed, and the service reported no failure.
\<close>

theorem host_exit_zero_is_clean:
  assumes "host_reachable options n s" and "h_phase s = Finished r"
  shows "(hr_exitCode r = 0 \<longleftrightarrow> hooks (h_log s) = clean_events) \<and> (hr_exitCode r = 0 \<longrightarrow> no_failure (h_log s))"
proof -
  have inv: "phase_inv (Finished r) (h_listening s) (h_log s)" using life.P_reachable [OF assms(1)] assms(2) by simp
  have t: "hooks (h_log s) \<noteq> clean_events" if "HookTimeout k \<in> set (h_log s)" for k
    using that timeout_in_hooks [of k "h_log s"] by force
  from inv consider "h_log s = []" "hr_exitCode r \<noteq> 0" | k where "r = cleanupTimeoutResult" "HookTimeout k \<in> set (h_log s)"
    | out where "r = resultFromError out" "outcome_ok 6 out (h_log s)" by auto
  then show ?thesis
  proof cases
    case 3
    then show ?thesis by (auto simp: clean_exit_code outcome_ok_def failure_kept_def)
  qed (simp_all add: t cleanupTimeout_exit)
qed

text \<open>Property C30. A failure the service reports on \<open>Done\<close> is not lost. While its error is at the head of the channel no
  step begins the cleanup with another outcome, whatever else is ready, and once it was received the
  result of the run is this error, unless the cleanup itself timed out.
\<close>

theorem host_done_error_kept:
  assumes "host_reachable options n s"
  shows "(h_listening s \<and> h_done s = Some e # q \<and> s' \<in> set (main_steps s) \<and> h_phase s' \<in> {Forcing out, Closing out}
          \<and> \<not> (\<exists>x. h_phase s = Forcing x \<or> h_phase s = Starting) \<longrightarrow> h_phase s' = Forcing (Some e))
    \<and> (DoneSeen (Some e) \<in> set (h_log s) \<and> h_phase s = Finished r \<longrightarrow>
         r = resultFromError (Some e) \<or> r = cleanupTimeoutResult \<and> (HookTimeout ForceStop \<in> set (h_log s) \<or> HookTimeout Close \<in> set (h_log s)))"
proof
  show "DoneSeen (Some e) \<in> set (h_log s) \<and> h_phase s = Finished r \<longrightarrow>
      r = resultFromError (Some e) \<or> r = cleanupTimeoutResult \<and> (HookTimeout ForceStop \<in> set (h_log s) \<or> HookTimeout Close \<in> set (h_log s))"
    using life.P_reachable [OF assms] by (auto simp: outcome_ok_def failure_kept_def)
next
  have r: "receive_done s = [(Some e, note_event (DoneSeen (Some e)) (s\<lparr>h_done := q\<rparr>))]" if "h_listening s" "h_done s = Some e # q"
    using that by (simp add: receive_done_def)
  show "h_listening s \<and> h_done s = Some e # q \<and> s' \<in> set (main_steps s) \<and> h_phase s' \<in> {Forcing out, Closing out}
          \<and> \<not> (\<exists>x. h_phase s = Forcing x \<or> h_phase s = Starting) \<longrightarrow> h_phase s' = Forcing (Some e)"
  proof (intro impI, elim conjE)
    assume l: "h_listening s" "h_done s = Some e # q" and m: "s' \<in> set (main_steps s)" and p: "h_phase s' \<in> {Forcing out, Closing out}"
      and nf: "\<not> (\<exists>x. h_phase s = Forcing x \<or> h_phase s = Starting)"
    from main_moves [OF m] obtain ev where mv: "moves (h_phase s) (h_listening s) ev (h_phase s') (h_listening s')" by blast
    show "h_phase s' = Forcing (Some e)"
    proof (cases "h_phase s")
      case (ServeTop b)
      with m r [OF l] show ?thesis
        by (auto simp: main_steps_def serve_steps_def drain_steps_def cleanup_steps_def phase_of_def stopped_error_def)
    next
      case ServeWait
      with m p r [OF l] show ?thesis
        by (auto simp: main_steps_def serve_steps_def drain_steps_def cleanup_steps_def phase_of_def stopped_error_def split: if_splits)
    next
      case (DrainTop t)
      with m r [OF l] show ?thesis
        by (auto simp: main_steps_def serve_steps_def drain_steps_def cleanup_steps_def phase_of_def drain_checked_def done_terminal_def)
    next
      case DrainWait
      from mv p show ?thesis unfolding DrainWait by (auto elim: moves.cases)
    next
      case (Closing x)
      from mv p show ?thesis unfolding Closing by (auto elim: moves.cases)
    qed (use nf mv in \<open>auto elim: moves.cases\<close>)
  qed
qed

text \<open>Property C31. A run ends in bounded work: \<open>Run\<close> takes at most eleven steps however the world behaves, and it is never
  stuck before it returned except where it has to wait: for the start of the service, for a reason to
  stop, for a drain whose deadline has not passed, or for a cleanup whose deadline has not passed. A
  hook that never returns therefore delays the exit by its timeouts at most.
\<close>

theorem host_shutdown_bounded:
  assumes "host_reachable options n s"
  shows "n \<le> 11 \<and> (main_steps s = [] \<longrightarrow>
      (\<exists>r. h_phase s = Finished r)
    \<or> h_phase s = Starting \<and> (\<forall>err. h_start s \<noteq> Returned err)
    \<or> h_phase s = ServeWait \<and> \<not> h_cancelled s \<and> h_interrupts s = 0 \<and> \<not> h_interrupts_closed s
    \<or> h_phase s = DrainWait \<and> \<not> h_drain_expired s \<and> h_interrupts s = 0 \<and> (\<forall>err. h_drain s \<noteq> Returned err)
    \<or> (\<exists>out. h_phase s \<in> {Forcing out, Closing out}) \<and> \<not> h_cleanup_expired s \<and> (\<forall>err. h_hook s \<noteq> Returned err))"
proof
  show "n \<le> 11" using steps.P_reachable [OF assms] by simp
  show "main_steps s = [] \<longrightarrow>
      (\<exists>r. h_phase s = Finished r)
    \<or> h_phase s = Starting \<and> (\<forall>err. h_start s \<noteq> Returned err)
    \<or> h_phase s = ServeWait \<and> \<not> h_cancelled s \<and> h_interrupts s = 0 \<and> \<not> h_interrupts_closed s
    \<or> h_phase s = DrainWait \<and> \<not> h_drain_expired s \<and> h_interrupts s = 0 \<and> (\<forall>err. h_drain s \<noteq> Returned err)
    \<or> (\<exists>out. h_phase s \<in> {Forcing out, Closing out}) \<and> \<not> h_cleanup_expired s \<and> (\<forall>err. h_hook s \<noteq> Returned err)"
    by (cases "h_phase s")
      (auto simp: main_steps_def serve_steps_def drain_steps_def cleanup_steps_def runCleanupHook_def receive_interrupt_def Let_def
         split: call.splits if_splits list.splits)
qed

text \<open>The line written for an error: a known failure speaks for itself, anything else is an internal error.\<close>

lemma WriteError_resultFromError:
  "WriteError emit (resultFromError (Some e)) w =
     (case as_failure e of
        Some (Failure code message cause) \<Rightarrow>
          if isKnownCode code then emit \<lparr>hl_Level = ''error'', hl_Event = ''host_exit'', hl_Code = code, hl_Message = message\<rparr> w
          else emit \<lparr>hl_Level = ''error'', hl_Event = ''host_exit'', hl_Code = CodeInternalError, hl_Message = ''internal error''\<rparr> w
      | _ \<Rightarrow> emit \<lparr>hl_Level = ''error'', hl_Event = ''host_exit'', hl_Code = CodeInternalError, hl_Message = ''internal error''\<rparr> w)"
  by (auto simp: WriteError_def resultFromError_def exitCode_def split: option.splits HostError.splits)

section \<open>Runs on a schedule\<close>

text \<open>A schedule: an event of the world, or the step of \<open>Run\<close> at a position of the list of its steps.\<close>

fun play :: "(world_event + nat) list \<Rightarrow> host \<Rightarrow> host" where
  "play [] s = s"
| "play (Inl e # xs) s = play xs (world_step e s)"
| "play (Inr i # xs) s = (if i < length (main_steps s) then play xs (main_steps s ! i) else play xs s)"

lemma play_reachable: "host_reachable options n s \<Longrightarrow> \<exists>m. host_reachable options m (play xs s)"
proof (induction xs s arbitrary: n rule: play.induct)
  case (2 e xs s)
  from 2(1) [OF reachable_world [OF 2(2)]] show ?case by simp
next
  case (3 i xs s)
  show ?case
  proof (cases "i < length (main_steps s)")
    case True
    from 3(1) [OF True reachable_main [OF 3(3) nth_mem [OF True]]] True show ?thesis by simp
  next
    case False
    from 3(2) [OF False 3(3)] False show ?thesis by simp
  qed
qed auto

definition demo_options :: HostOptions where
  "demo_options = \<lparr>opt_DrainTimeout = 5, opt_CleanupTimeout = 5\<rparr>"

definition demo_host :: "(world_event + nat) list \<Rightarrow> host" where
  "demo_host xs = play (Inl (ReturnStart None) # Inr 0 # Inr 0 # Inl CancelContext # xs) (host_Run demo_options False False)"

lemma demo_host_reachable: "\<exists>m. host_reachable demo_options m (demo_host xs)"
  unfolding demo_host_def by (rule play_reachable [OF reachable_Run])

lemmas demo_host_simps = demo_host_def host_Run_def Let_def demo_options_def main_steps_def serve_steps_def drain_steps_def
  cleanup_steps_def runCleanupHook_def receive_interrupt_def receive_done_def drain_def drain_checked_def done_terminal_def
  cleanup_def go_hook_def note_event_def return_call_def stopped_error_def first_outcome_def

abbreviation clean_schedule :: "(world_event + nat) list" where
  "clean_schedule \<equiv> [Inr 0, Inr 0, Inr 0, Inl (ReturnDrain None), Inr 0, Inr 0, Inl (ReturnHook None), Inr 0]"

lemma demo_clean: "h_phase (demo_host clean_schedule) = Finished (resultFromError None)" "h_log (demo_host clean_schedule) = clean_events"
  by (simp_all add: demo_host_simps)

text \<open>A service that fails while it drains, just before the drain succeeds, and hangs in its forced stop.\<close>

abbreviation demo_failure :: HostError where "demo_failure \<equiv> Failure CodeServeFailed ''serve'' None"

abbreviation failing_schedule :: "(world_event + nat) list" where
  "failing_schedule \<equiv> [Inr 0, Inr 0, Inr 0, Inl (ReturnDrain None), Inr 0, Inl (SendDone (Some demo_failure))]"

lemma demo_failing:
  "h_phase (demo_host failing_schedule) = DrainTop (Some (False, None))" "h_listening (demo_host failing_schedule)"
  "h_done (demo_host failing_schedule) = [Some demo_failure]"
  by (simp_all add: demo_host_simps)

theorem host_shutdown_order_witness:
  "calls (h_log (demo_host clean_schedule)) = [Start, Drain, Close] \<and> subseq (calls (h_log (demo_host clean_schedule))) [Start, Drain, ForceStop, Close]"
proof -
  obtain m where "host_reachable demo_options m (demo_host clean_schedule)" using demo_host_reachable by blast
  from host_shutdown_order [OF this] demo_clean show ?thesis by simp
qed

theorem host_exit_zero_is_clean_witness:
  "hr_exitCode (resultFromError None) = 0 \<and> hooks (h_log (demo_host clean_schedule)) = clean_events"
proof -
  obtain m where "host_reachable demo_options m (demo_host clean_schedule)" using demo_host_reachable by blast
  from host_exit_zero_is_clean [OF this demo_clean(1)] show ?thesis by (simp add: clean_exit_code)
qed

theorem host_done_error_kept_witness:
  "main_steps (demo_host failing_schedule) \<noteq> [] \<and> h_phase (hd (main_steps (demo_host failing_schedule))) = Forcing (Some demo_failure)"
proof -
  let ?s = "demo_host failing_schedule"
  obtain m where r: "host_reachable demo_options m ?s" using demo_host_reachable by blast
  have steps: "length (main_steps ?s) = 1" "h_phase (hd (main_steps ?s)) \<in> {Forcing (Some demo_failure), Closing (Some demo_failure)}"
    by (simp_all add: demo_host_simps)
  then have "hd (main_steps ?s) \<in> set (main_steps ?s)" by (cases "main_steps ?s") auto
  with host_done_error_kept [OF r, of demo_failure "[]" "hd (main_steps ?s)" "Some demo_failure"] demo_failing steps
  show ?thesis by (cases "main_steps ?s") auto
qed

theorem host_shutdown_bounded_witness:
  "\<exists>n. host_reachable demo_options n (demo_host [Inr 0, Inr 0, Inr 0]) \<and> n \<le> 11 \<and> main_steps (demo_host [Inr 0, Inr 0, Inr 0]) = []
     \<and> h_phase (demo_host [Inr 0, Inr 0, Inr 0]) = DrainWait \<and> \<not> h_drain_expired (demo_host [Inr 0, Inr 0, Inr 0])"
proof -
  obtain m where r: "host_reachable demo_options m (demo_host [Inr 0, Inr 0, Inr 0])" using demo_host_reachable by blast
  have "h_phase (demo_host [Inr 0, Inr 0, Inr 0]) = DrainWait" "main_steps (demo_host [Inr 0, Inr 0, Inr 0]) = []"
    by (simp_all add: demo_host_simps)
  with host_shutdown_bounded [OF r] r show ?thesis by (intro exI [of _ m]) simp
qed

end
