(* ===== verification/OCR_Pipeline.thy ===== *)
theory OCR_Pipeline
  imports GoPrelude
begin

text \<open>
  \<open>ocrs\<close>: splitting a document into chunks of pages, working on the chunks concurrently
  (\<open>ocrs/chunking\<close>), retrying a call (\<open>ocrs/retrypolicy\<close>) and dispatching calls to a pool of workers
  (\<open>ocrs/scheduler\<close>).

  The two concurrent parts are state machines whose steps interleave freely. A handler or provider is
  called at most once for a chunk or a call, so what it returns is a function of the position.
\<close>

section \<open>Results, errors and middleware\<close>

record OCRResult =
  ocr_Provider :: string
  ocr_Raw :: string

definition zero_result :: OCRResult where
  "zero_result = \<lparr>ocr_Provider = '''', ocr_Raw = ''''\<rparr>"

datatype OErr =
    OCtx ctx_error
  | OText string
  | OWrap string OErr
  | OPages int int OErr
  | OChunk int int int OErr
  | ErrInvalidConcurrency
  | ErrNoEndpoint
  | ErrClosed
  | OProvider string

type_synonym ('i, 'o, 'w) Handler = "'i \<Rightarrow> 'w \<Rightarrow> (OErr + 'o) \<times> 'w"

definition Chain_handlers :: "(('i, 'o, 'w) Handler \<Rightarrow> ('i, 'o, 'w) Handler) option list \<Rightarrow> ('i, 'o, 'w) Handler \<Rightarrow> ('i, 'o, 'w) Handler" where
  "Chain_handlers middlewares final = foldr (\<lambda>mw h. case mw of None \<Rightarrow> h | Some wrap \<Rightarrow> wrap h) middlewares final"

section \<open>Splitting a document\<close>

record Chunk =
  ch_Index :: int
  ch_StartPage :: int
  ch_EndPage :: int
  ch_Data :: string

text \<open>
  The page counter and the trimmer of the PDF library are arguments, and so is the context at the start
  of each chunk. Page numbers do not reach the bounds of the integer type.
\<close>

function split_from ::
  "(int \<Rightarrow> ctx) \<Rightarrow> (int \<Rightarrow> int \<Rightarrow> OErr + string) \<Rightarrow> int \<Rightarrow> int \<Rightarrow> int \<Rightarrow> int \<Rightarrow> Chunk list \<Rightarrow> OErr + Chunk list" where
  "split_from ctx trim pageCount pagesPerChunk chunkIdx start chunks =
     (if pagesPerChunk \<le> 0 \<or> start > pageCount then Inr chunks
      else case ctx start of
        Some e \<Rightarrow> Inl (OCtx e)
      | None \<Rightarrow>
          (let endPage = min (start + pagesPerChunk - 1) pageCount
           in case trim start endPage of
                Inl e \<Rightarrow> Inl (OPages start endPage e)
              | Inr body \<Rightarrow>
                  split_from ctx trim pageCount pagesPerChunk (chunkIdx + 1) (start + pagesPerChunk)
                    (chunks @ [\<lparr>ch_Index = chunkIdx, ch_StartPage = start, ch_EndPage = endPage, ch_Data = body\<rparr>])))"
  by pat_completeness auto
termination
  by (relation "measure (\<lambda>(ctx, trim, pageCount, pagesPerChunk, chunkIdx, start, chunks). nat (pageCount + 1 - start))") auto

definition Split :: "(int \<Rightarrow> ctx) \<Rightarrow> (string \<Rightarrow> OErr + int) \<Rightarrow> (string \<Rightarrow> int \<Rightarrow> int \<Rightarrow> OErr + string) \<Rightarrow> string \<Rightarrow> int \<Rightarrow> OErr + Chunk list" where
  "Split ctx page_count trim pdf pagesPerChunk =
     (if pagesPerChunk \<le> 0 then Inl (OText ''pagesPerChunk must be > 0'')
      else if pdf = '''' then Inl (OText ''empty pdf bytes'')
      else case page_count pdf of
        Inl e \<Rightarrow> Inl (OWrap ''count pdf pages failed'' e)
      | Inr pageCount \<Rightarrow>
          if pageCount = 0 then Inl (OText ''pdf has no pages'')
          else split_from ctx (trim pdf) pageCount pagesPerChunk 0 1 [])"

section \<open>Which work a document needs\<close>

text \<open>Return an error, pass the whole document to the handler, or work on chunks.\<close>

datatype ocr_plan = Refuse OErr | Whole | Chunked "Chunk list"

definition isPDFBytes :: "string \<Rightarrow> bool" where
  "isPDFBytes data \<longleftrightarrow> length data \<ge> 5 \<and> take 5 data = ''%PDF-''"

record CutAware =
  ca_pagesPerChunk :: int
  ca_chunkConcurrency :: int
  ca_splitter :: "(string \<Rightarrow> int \<Rightarrow> OErr + Chunk list) option"
  ca_inner :: bool
  ca_merge :: "(OCRResult list \<Rightarrow> OErr + OCRResult) option"

definition chunk_plan :: "Chunk list \<Rightarrow> ocr_plan" where
  "chunk_plan chunks =
     (if chunks = [] then Refuse (OText ''splitter returned no chunks'')
      else if length chunks = 1 then Whole
      else Chunked chunks)"

definition CutAware_Handle :: "CutAware \<Rightarrow> string \<Rightarrow> ocr_plan" where
  "CutAware_Handle h data =
     (if \<not> ca_inner h then Refuse (OText ''inner handler is nil'')
      else if \<not> isPDFBytes data then Whole
      else case (ca_splitter h, ca_merge h) of
        (Some split, Some merge) \<Rightarrow>
          if ca_pagesPerChunk h \<le> 0 \<or> ca_chunkConcurrency h \<le> 0 then Refuse (OText ''invalid cut-aware config'')
          else (case split data (ca_pagesPerChunk h) of
              Inl e \<Rightarrow> Whole
            | Inr chunks \<Rightarrow> chunk_plan chunks)
      | _ \<Rightarrow> Refuse (OText ''invalid cut-aware config''))"

definition ProcessPDF :: "CutAware \<Rightarrow> string \<Rightarrow> ocr_plan" where
  "ProcessPDF h pdf =
     (if ca_pagesPerChunk h \<le> 0 then Refuse (OText ''pagesPerChunk must be > 0'')
      else if ca_chunkConcurrency h \<le> 0 then Refuse ErrInvalidConcurrency
      else case ca_splitter h of
        None \<Rightarrow> Refuse (OText ''splitter is nil'')
      | Some split \<Rightarrow>
          if \<not> ca_inner h then Refuse (OText ''handler is nil'')
          else if ca_merge h = None then Refuse (OText ''merge is nil'')
          else (case split pdf (ca_pagesPerChunk h) of
              Inl e \<Rightarrow> Refuse e
            | Inr chunks \<Rightarrow> chunk_plan chunks))"

section \<open>Working on chunks\<close>

text \<open>The loop over the chunks, the wait for a slot, the wait for the workers, and the return.\<close>

datatype chunk_phase = Launching | Acquiring | Awaiting | Done "OErr + OCRResult list"

record chunk_run =
  cr_phase :: chunk_phase
  cr_next :: nat
  cr_running :: "nat list"
  cr_handled :: "nat list"
  cr_results :: "OCRResult list"
  cr_firstErr :: "OErr option"
  cr_ctx :: ctx

definition sort_chunks :: "Chunk list \<Rightarrow> Chunk list" where
  "sort_chunks chunks = sort_by (\<lambda>a b. ch_Index a < ch_Index b) chunks"

definition processChunks :: "ctx \<Rightarrow> Chunk list \<Rightarrow> chunk_run" where
  "processChunks ctx chunks = \<lparr>cr_phase = Launching, cr_next = 0, cr_running = [], cr_handled = [],
     cr_results = replicate (length chunks) zero_result, cr_firstErr = None, cr_ctx = ctx\<rparr>"

definition collect_chunks :: "chunk_run \<Rightarrow> OErr + OCRResult list" where
  "collect_chunks s = (case cr_firstErr s of
      Some e \<Rightarrow> Inl e
    | None \<Rightarrow> (case cr_ctx s of
        Some DeadlineExceeded \<Rightarrow> Inl (OCtx DeadlineExceeded)
      | _ \<Rightarrow> Inr (cr_results s)))"

definition merge_results :: "(OCRResult list \<Rightarrow> OErr + OCRResult) \<Rightarrow> OErr + OCRResult list \<Rightarrow> OErr + OCRResult" where
  "merge_results merge r = (case r of Inl e \<Rightarrow> Inl e | Inr results \<Rightarrow> merge results)"

text \<open>The next step of the goroutine that launches the work, if it is not blocked or done.\<close>

definition chunk_main :: "int \<Rightarrow> Chunk list \<Rightarrow> chunk_run \<Rightarrow> chunk_run option" where
  "chunk_main concurrency chunks s = (case cr_phase s of
      Launching \<Rightarrow>
        Some (if cr_next s < length chunks \<and> cr_ctx s = None then s\<lparr>cr_phase := Acquiring\<rparr> else s\<lparr>cr_phase := Awaiting\<rparr>)
    | Acquiring \<Rightarrow>
        if int (length (cr_running s)) < concurrency
        then Some (s\<lparr>cr_phase := Launching, cr_running := cr_running s @ [cr_next s], cr_next := cr_next s + 1\<rparr>)
        else None
    | Awaiting \<Rightarrow> if cr_running s = [] then Some (s\<lparr>cr_phase := Done (collect_chunks s)\<rparr>) else None
    | Done r \<Rightarrow> None)"

text \<open>The handler of a running chunk returns.\<close>

definition chunk_worker :: "Chunk list \<Rightarrow> (nat \<Rightarrow> OErr + OCRResult) \<Rightarrow> nat \<Rightarrow> chunk_run \<Rightarrow> chunk_run" where
  "chunk_worker chunks outcome pos s =
     (let s = s\<lparr>cr_running := remove1 pos (cr_running s), cr_handled := cr_handled s @ [pos]\<rparr>; c = chunks ! pos
      in case outcome pos of
           Inl callErr \<Rightarrow>
             if cr_firstErr s = None
             then s\<lparr>cr_firstErr := Some (OChunk (ch_Index c) (ch_StartPage c) (ch_EndPage c) callErr),
                    cr_ctx := (case cr_ctx s of None \<Rightarrow> Some Canceled | Some e \<Rightarrow> Some e)\<rparr>
             else s
         | Inr res \<Rightarrow> s\<lparr>cr_results := (cr_results s)[pos := res]\<rparr>)"

definition chunk_cancel :: "ctx_error \<Rightarrow> chunk_run \<Rightarrow> chunk_run" where
  "chunk_cancel e s = (if cr_ctx s = None then s\<lparr>cr_ctx := Some e\<rparr> else s)"

inductive chunk_reachable :: "int \<Rightarrow> Chunk list \<Rightarrow> (nat \<Rightarrow> OErr + OCRResult) \<Rightarrow> chunk_run \<Rightarrow> bool"
  for concurrency chunks outcome where
  chunk_start: "chunk_reachable concurrency chunks outcome (processChunks ctx chunks)"
| chunk_step: "chunk_reachable concurrency chunks outcome s \<Longrightarrow> chunk_main concurrency (sort_chunks chunks) s = Some s'
    \<Longrightarrow> chunk_reachable concurrency chunks outcome s'"
| chunk_handled: "chunk_reachable concurrency chunks outcome s \<Longrightarrow> pos \<in> set (cr_running s)
    \<Longrightarrow> chunk_reachable concurrency chunks outcome (chunk_worker (sort_chunks chunks) outcome pos s)"
| chunk_cancelled: "chunk_reachable concurrency chunks outcome s \<Longrightarrow> chunk_reachable concurrency chunks outcome (chunk_cancel e s)"

section \<open>Retrying a call\<close>

record RetryConfig =
  rc_MaxAttempts :: int
  rc_InitialBackoff :: int
  rc_MaxBackoff :: int
  rc_Multiplier :: rat

definition DefaultConfig :: RetryConfig where
  "DefaultConfig = \<lparr>rc_MaxAttempts = 3, rc_InitialBackoff = 200000000, rc_MaxBackoff = 2000000000, rc_Multiplier = 2\<rparr>"

definition WithMaxTry :: "int \<Rightarrow> RetryConfig \<Rightarrow> RetryConfig" where
  "WithMaxTry n c = c\<lparr>rc_MaxAttempts := n\<rparr>"

definition WithInitialBackoff :: "int \<Rightarrow> RetryConfig \<Rightarrow> RetryConfig" where
  "WithInitialBackoff d c = c\<lparr>rc_InitialBackoff := d\<rparr>"

definition WithMaxBackoff :: "int \<Rightarrow> RetryConfig \<Rightarrow> RetryConfig" where
  "WithMaxBackoff d c = c\<lparr>rc_MaxBackoff := d\<rparr>"

definition WithMultiplier :: "rat \<Rightarrow> RetryConfig \<Rightarrow> RetryConfig" where
  "WithMultiplier m c = c\<lparr>rc_Multiplier := m\<rparr>"

definition New_retry :: "(RetryConfig \<Rightarrow> RetryConfig) option list \<Rightarrow> RetryConfig" where
  "New_retry opts = fold (\<lambda>opt c. case opt of None \<Rightarrow> c | Some f \<Rightarrow> f c) opts DefaultConfig"

definition normalize_retry :: "RetryConfig \<Rightarrow> RetryConfig" where
  "normalize_retry cfg =
     (let cfg = (if rc_MaxAttempts cfg \<le> 0 then cfg\<lparr>rc_MaxAttempts := 1\<rparr> else cfg);
          cfg = (if rc_InitialBackoff cfg \<le> 0 then cfg\<lparr>rc_InitialBackoff := 100000000\<rparr> else cfg);
          cfg = (if rc_MaxBackoff cfg \<le> 0 then cfg\<lparr>rc_MaxBackoff := rc_InitialBackoff cfg\<rparr> else cfg);
          cfg = (if rc_MaxBackoff cfg < rc_InitialBackoff cfg then cfg\<lparr>rc_MaxBackoff := rc_InitialBackoff cfg\<rparr> else cfg)
      in if rc_Multiplier cfg < 1 then cfg\<lparr>rc_Multiplier := 1\<rparr> else cfg)"

text \<open>
  The conversion of a \<open>float64\<close> to a duration is an argument: out of range its result is any integer.
  \<open>wait\<close> is the select between the timer and the context, which gives the context's error if it won.
\<close>

definition next_backoff :: "(rat \<Rightarrow> int) \<Rightarrow> RetryConfig \<Rightarrow> int \<Rightarrow> int" where
  "next_backoff to_duration cfg backoff =
     (let nextBackoff = to_duration (of_int backoff * rc_Multiplier cfg);
          nextBackoff = (if nextBackoff \<le> 0 then rc_MaxBackoff cfg else nextBackoff)
      in if nextBackoff > rc_MaxBackoff cfg then rc_MaxBackoff cfg else nextBackoff)"

fun retry_loop ::
  "(rat \<Rightarrow> int) \<Rightarrow> RetryConfig \<Rightarrow> (OErr \<Rightarrow> bool) option \<Rightarrow> (int \<Rightarrow> 'w \<Rightarrow> ctx \<times> 'w) \<Rightarrow> ('i, 'o, 'w) Handler
    \<Rightarrow> 'i \<Rightarrow> nat \<Rightarrow> int \<Rightarrow> 'w \<Rightarrow> (OErr + 'o) \<times> 'w" where
  "retry_loop to_duration cfg shouldRetry wait handle data remaining backoff w =
     (case handle data w of
        (Inr v, w) \<Rightarrow> (Inr v, w)
      | (Inl err, w) \<Rightarrow>
          (case (remaining, shouldRetry) of
             (Suc m, Some retry) \<Rightarrow>
               if \<not> retry err then (Inl err, w)
               else (case wait backoff w of
                   (Some e, w) \<Rightarrow> (Inl (OCtx e), w)
                 | (None, w) \<Rightarrow>
                     retry_loop to_duration cfg shouldRetry wait handle data m (next_backoff to_duration cfg backoff) w)
           | _ \<Rightarrow> (Inl err, w)))"

declare retry_loop.simps [simp del]

definition retry_middleware ::
  "(rat \<Rightarrow> int) \<Rightarrow> (OErr \<Rightarrow> bool) option \<Rightarrow> (RetryConfig \<Rightarrow> RetryConfig) option list \<Rightarrow> (int \<Rightarrow> 'w \<Rightarrow> ctx \<times> 'w)
    \<Rightarrow> ('i, 'o, 'w) Handler \<Rightarrow> ('i, 'o, 'w) Handler" where
  "retry_middleware to_duration shouldRetry opts wait handle data w =
     (let cfg = normalize_retry (New_retry opts)
      in retry_loop to_duration cfg shouldRetry wait handle data (nat (rc_MaxAttempts cfg) - 1) (rc_InitialBackoff cfg) w)"

section \<open>Dispatching calls\<close>

text \<open>
  A call is sending its request, awaiting the reply, or has returned. A worker is idle, has taken a
  call and not yet read its context, is in its provider's handler, or has exited.
\<close>

datatype 'o caller = Sending | AwaitingReply | CallReturned "OErr + 'o"

datatype worker = Idle | Took nat | Calling nat | Exited

record 'o Dispatcher =
  dp_closed :: bool
  dp_callers :: "'o caller list"
  dp_ctx :: "ctx list"
  dp_reply :: "(OErr + 'o) option list"
  dp_workers :: "worker list"
  dp_calls :: "nat list"

text \<open>A provider is given by its number of workers, or is nil.\<close>

definition NewDispatcher :: "int option list \<Rightarrow> OErr + 'o Dispatcher" where
  "NewDispatcher providers =
     (if providers = [] then Inl ErrNoEndpoint
      else case List.find (\<lambda>i. providers ! i = None) [0..<length providers] of
        Some i \<Rightarrow> Inl (OText (''provider at index '' @ itoa (int i) @ '' is nil''))
      | None \<Rightarrow> Inr \<lparr>dp_closed = False, dp_callers = [], dp_ctx = [], dp_reply = [],
                     dp_workers = concat (map (\<lambda>p. replicate (nat (max (the p) 1)) Idle) providers), dp_calls = []\<rparr>)"

definition dispatch_Close :: "'o Dispatcher \<Rightarrow> 'o Dispatcher" where
  "dispatch_Close d = d\<lparr>dp_closed := True\<rparr>"

definition close_returned :: "'o Dispatcher \<Rightarrow> bool" where
  "close_returned d \<longleftrightarrow> dp_closed d \<and> list_all (\<lambda>x. x = Exited) (dp_workers d)"

definition dispatch_call :: "ctx \<Rightarrow> 'o Dispatcher \<Rightarrow> 'o Dispatcher" where
  "dispatch_call ctx d = d\<lparr>dp_callers := dp_callers d @ [Sending], dp_ctx := dp_ctx d @ [ctx], dp_reply := dp_reply d @ [None]\<rparr>"

text \<open>The ways the selects of \<open>Handle\<close> may go on for a call that is not with a worker.\<close>

definition handle_steps :: "nat \<Rightarrow> 'o Dispatcher \<Rightarrow> 'o Dispatcher list" where
  "handle_steps c d = (case dp_callers d ! c of
      Sending \<Rightarrow>
        (case dp_ctx d ! c of Some e \<Rightarrow> [d\<lparr>dp_callers := (dp_callers d)[c := CallReturned (Inl (OCtx e))]\<rparr>] | None \<Rightarrow> [])
        @ (if dp_closed d then [d\<lparr>dp_callers := (dp_callers d)[c := CallReturned (Inl ErrClosed)]\<rparr>] else [])
    | AwaitingReply \<Rightarrow>
        (case dp_reply d ! c of Some out \<Rightarrow> [d\<lparr>dp_callers := (dp_callers d)[c := CallReturned out]\<rparr>] | None \<Rightarrow> [])
        @ (case dp_ctx d ! c of Some e \<Rightarrow> [d\<lparr>dp_callers := (dp_callers d)[c := CallReturned (Inl (OCtx e))]\<rparr>] | None \<Rightarrow> [])
    | CallReturned r \<Rightarrow> [])"

text \<open>The exchange of a request between a sending call and an idle worker.\<close>

definition take_job :: "nat \<Rightarrow> nat \<Rightarrow> 'o Dispatcher \<Rightarrow> 'o Dispatcher list" where
  "take_job c k d = (if dp_callers d ! c = Sending \<and> dp_workers d ! k = Idle
     then [d\<lparr>dp_callers := (dp_callers d)[c := AwaitingReply], dp_workers := (dp_workers d)[k := Took c]\<rparr>] else [])"

definition worker_steps :: "(nat \<Rightarrow> OErr + 'o) \<Rightarrow> nat \<Rightarrow> 'o Dispatcher \<Rightarrow> 'o Dispatcher list" where
  "worker_steps outcome k d = (case dp_workers d ! k of
      Idle \<Rightarrow> (if dp_closed d then [d\<lparr>dp_workers := (dp_workers d)[k := Exited]\<rparr>] else [])
    | Took c \<Rightarrow>
        (case dp_ctx d ! c of
           Some e \<Rightarrow> [d\<lparr>dp_reply := (dp_reply d)[c := Some (Inl (OCtx e))], dp_workers := (dp_workers d)[k := Idle]\<rparr>]
         | None \<Rightarrow> [d\<lparr>dp_calls := dp_calls d @ [c], dp_workers := (dp_workers d)[k := Calling c]\<rparr>])
    | Calling c \<Rightarrow> [d\<lparr>dp_reply := (dp_reply d)[c := Some (outcome c)], dp_workers := (dp_workers d)[k := Idle]\<rparr>]
    | Exited \<Rightarrow> [])"

definition cancel_call :: "nat \<Rightarrow> ctx_error \<Rightarrow> 'o Dispatcher \<Rightarrow> 'o Dispatcher" where
  "cancel_call c e d = (if dp_ctx d ! c = None then d\<lparr>dp_ctx := (dp_ctx d)[c := Some e]\<rparr> else d)"

inductive dispatch_step :: "(nat \<Rightarrow> OErr + 'o) \<Rightarrow> 'o Dispatcher \<Rightarrow> 'o Dispatcher \<Rightarrow> bool" for outcome where
  called: "dispatch_step outcome d (dispatch_call ctx d)"
| exchanged: "c < length (dp_callers d) \<Longrightarrow> k < length (dp_workers d) \<Longrightarrow> d' \<in> set (take_job c k d) \<Longrightarrow> dispatch_step outcome d d'"
| handling: "c < length (dp_callers d) \<Longrightarrow> d' \<in> set (handle_steps c d) \<Longrightarrow> dispatch_step outcome d d'"
| working: "k < length (dp_workers d) \<Longrightarrow> d' \<in> set (worker_steps outcome k d) \<Longrightarrow> dispatch_step outcome d d'"
| cancelled: "c < length (dp_callers d) \<Longrightarrow> dispatch_step outcome d (cancel_call c e d)"
| closing: "dispatch_step outcome d (dispatch_Close d)"

inductive dispatch_reachable :: "(nat \<Rightarrow> OErr + 'o) \<Rightarrow> 'o Dispatcher \<Rightarrow> bool" for outcome where
  dispatch_new: "NewDispatcher providers = Inr d \<Longrightarrow> dispatch_reachable outcome d"
| dispatch_next: "dispatch_reachable outcome d \<Longrightarrow> dispatch_step outcome d d' \<Longrightarrow> dispatch_reachable outcome d'"

end
