(* ===== verification/OCR_Laws.thy ===== *)
theory OCR_Laws
  imports OCR_Pipeline
begin

text \<open>
  What the pieces of \<open>ocrs\<close> guarantee: a split covers the document, the concurrent run over the chunks
  gives their results in order, a retried call is bounded, and the dispatcher serves each call at most
  once and loses none.
\<close>

section \<open>The chunks of a document\<close>

declare split_from.simps [simp del]

definition chunk_pages :: "Chunk list \<Rightarrow> int list" where
  "chunk_pages cs = concat (map (\<lambda>c. [ch_StartPage c..ch_EndPage c]) cs)"

lemma split_from_covers:
  assumes "split_from ctx trim n p idx start cs = Inr out" and "p > 0"
  shows "\<exists>new. out = cs @ new \<and> chunk_pages new = [start..n] \<and> map ch_Index new = [idx..idx + int (length new) - 1]
    \<and> (\<forall>c \<in> set new. ch_StartPage c \<le> ch_EndPage c \<and> ch_EndPage c < ch_StartPage c + p \<and> trim (ch_StartPage c) (ch_EndPage c) = Inr (ch_Data c))"
  using assms
proof (induction ctx trim n p idx start cs rule: split_from.induct)
  case (1 ctx trim n p idx start cs)
  show ?case
  proof (cases "start > n")
    case True
    with 1(2) show ?thesis by (simp add: split_from.simps chunk_pages_def)
  next
    case False
    let ?e = "min (start + p - 1) n"
    from 1(2,3) False have c: "ctx start = None" by (simp add: split_from.simps split: option.splits)
    from 1(2,3) False c obtain body where t: "trim start ?e = Inr body"
      by (simp add: split_from.simps Let_def split: sum.splits)
    let ?c = "\<lparr>ch_Index = idx, ch_StartPage = start, ch_EndPage = ?e, ch_Data = body\<rparr>"
    from 1(2,3) False c t have "split_from ctx trim n p (idx + 1) (start + p) (cs @ [?c]) = Inr out"
      by (subst (asm) split_from.simps) (simp add: Let_def)
    from 1(1) [OF _ c refl t this 1(3)] False 1(3) obtain new where new: "out = (cs @ [?c]) @ new" "chunk_pages new = [start + p..n]"
      "map ch_Index new = [idx + 1..idx + 1 + int (length new) - 1]"
      "\<forall>c \<in> set new. ch_StartPage c \<le> ch_EndPage c \<and> ch_EndPage c < ch_StartPage c + p \<and> trim (ch_StartPage c) (ch_EndPage c) = Inr (ch_Data c)"
      by auto
    have "chunk_pages (?c # new) = [start..n]"
    proof (cases "start + p - 1 \<le> n")
      case True
      have "[start..n] = [start..start + p - 1] @ [start + p..n]"
        using upto_split1 [of start "start + p" n] upto_split2 [of start "start + p - 1" n] True 1(3) by simp
      with True new(2) show ?thesis by (simp add: chunk_pages_def)
    next
      case False
      with new(2) show ?thesis by (simp add: chunk_pages_def)
    qed
    moreover have "map ch_Index (?c # new) = [idx..idx + int (length (?c # new)) - 1]"
      using new(3) upto_rec1 [of idx "idx + int (length (?c # new)) - 1"] by (simp add: add.assoc)
    moreover have "?e < start + p \<and> start \<le> ?e" using False 1(3) by simp
    ultimately show ?thesis using new(1,4) t by (intro exI [of _ "?c # new"]) simp
  qed
qed

text \<open>
  A split that succeeds covers the document: read one after the other the chunks have exactly the pages
  from 1 to the page count, each once and in order, numbered from 0, none with more than the configured
  number of pages, and each with what the trimmer gave for its pages.
\<close>

theorem split_covers_pages:
  assumes "Split ctx page_count trim pdf pagesPerChunk = Inr chunks"
  shows "\<exists>n. page_count pdf = Inr n \<and> chunk_pages chunks = [1..n] \<and> map ch_Index chunks = [0..int (length chunks) - 1]
    \<and> (\<forall>c \<in> set chunks. ch_StartPage c \<le> ch_EndPage c \<and> ch_EndPage c < ch_StartPage c + pagesPerChunk
         \<and> trim pdf (ch_StartPage c) (ch_EndPage c) = Inr (ch_Data c))"
proof -
  from assms obtain n where n: "page_count pdf = Inr n" "pagesPerChunk > 0" "split_from ctx (trim pdf) n pagesPerChunk 0 1 [] = Inr chunks"
    by (auto simp: Split_def split: if_splits sum.splits)
  from split_from_covers [OF n(3,2)] n(1) show ?thesis by auto
qed

section \<open>The run over the chunks\<close>

text \<open>Which positions were launched, are running and have been handled, and what the results hold.\<close>

definition chunk_books :: "int \<Rightarrow> Chunk list \<Rightarrow> (nat \<Rightarrow> OErr + OCRResult) \<Rightarrow> chunk_run \<Rightarrow> bool" where
  "chunk_books concurrency chunks outcome s \<longleftrightarrow>
     cr_next s \<le> length chunks \<and> length (cr_results s) = length chunks \<and> int (length (cr_running s)) \<le> max 0 concurrency
     \<and> distinct (cr_running s @ cr_handled s) \<and> set (cr_running s @ cr_handled s) = {..<cr_next s}
     \<and> (\<forall>i < length chunks. cr_results s ! i = (if i \<in> set (cr_handled s) then case outcome i of Inr r \<Rightarrow> r | Inl _ \<Rightarrow> zero_result else zero_result))"

definition chunk_wrap :: "Chunk list \<Rightarrow> nat \<Rightarrow> OErr \<Rightarrow> OErr" where
  "chunk_wrap chunks i e = (let c = chunks ! i in OChunk (ch_Index c) (ch_StartPage c) (ch_EndPage c) e)"

definition chunk_error :: "Chunk list \<Rightarrow> (nat \<Rightarrow> OErr + OCRResult) \<Rightarrow> chunk_run \<Rightarrow> bool" where
  "chunk_error chunks outcome s \<longleftrightarrow> (case cr_firstErr s of
      None \<Rightarrow> \<forall>i \<in> set (cr_handled s). \<exists>r. outcome i = Inr r
    | Some e \<Rightarrow> cr_ctx s \<noteq> None \<and> (\<exists>i \<in> set (cr_handled s). \<exists>x. outcome i = Inl x \<and> e = chunk_wrap chunks i x))"

definition chunk_phase_ok :: "Chunk list \<Rightarrow> chunk_run \<Rightarrow> bool" where
  "chunk_phase_ok chunks s \<longleftrightarrow> (case cr_phase s of
      Launching \<Rightarrow> True
    | Acquiring \<Rightarrow> cr_next s < length chunks
    | Awaiting \<Rightarrow> cr_next s = length chunks \<or> cr_ctx s \<noteq> None
    | Done r \<Rightarrow> cr_running s = [] \<and> (case r of
          Inl e \<Rightarrow> cr_firstErr s = Some e \<or> e = OCtx DeadlineExceeded \<and> cr_firstErr s = None \<and> cr_ctx s \<noteq> None
        | Inr rs \<Rightarrow> rs = cr_results s \<and> cr_firstErr s = None \<and> (cr_next s = length chunks \<or> cr_ctx s \<noteq> None)))"

lemma books_launch:
  assumes "chunk_books k chunks outcome s" and "cr_next s < length chunks" and "int (length (cr_running s)) < k"
  shows "chunk_books k chunks outcome (s\<lparr>cr_phase := Launching, cr_running := cr_running s @ [cr_next s], cr_next := cr_next s + 1\<rparr>)"
  using assms by (auto simp: chunk_books_def lessThan_Suc)

lemma books_main:
  assumes "chunk_books k chunks outcome s" and "chunk_phase_ok chunks s" and "chunk_main k chunks s = Some s'"
  shows "chunk_books k chunks outcome s'"
proof (cases "cr_phase s")
  case Acquiring
  with assms(2,3) have "cr_next s < length chunks" "int (length (cr_running s)) < k"
    "s' = s\<lparr>cr_phase := Launching, cr_running := cr_running s @ [cr_next s], cr_next := cr_next s + 1\<rparr>"
    by (auto simp: chunk_main_def chunk_phase_ok_def split: if_splits)
  with books_launch [OF assms(1)] show ?thesis by simp
qed (use assms in \<open>auto simp: chunk_main_def chunk_books_def split: if_splits\<close>)

lemma error_main:
  assumes "chunk_error chunks outcome s" and "chunk_main k chunks s = Some s'"
  shows "chunk_error chunks outcome s'"
proof -
  from assms(2) have "cr_firstErr s' = cr_firstErr s" "cr_ctx s' = cr_ctx s" "cr_handled s' = cr_handled s"
    by (cases "cr_phase s"; auto simp: chunk_main_def split: if_splits)+
  with assms(1) show ?thesis unfolding chunk_error_def by (simp only:)
qed

lemma phase_main:
  assumes "chunk_phase_ok chunks s" and "chunk_books k chunks outcome s" and "chunk_main k chunks s = Some s'"
  shows "chunk_phase_ok chunks s'"
proof (cases "cr_phase s")
  case Awaiting
  with assms(3) have s': "cr_running s = []" "s' = s\<lparr>cr_phase := Done (collect_chunks s)\<rparr>"
    by (auto simp: chunk_main_def split: if_splits)
  with assms(1) Awaiting show ?thesis
    by (cases "cr_firstErr s") (auto simp: chunk_phase_ok_def collect_chunks_def split: option.splits ctx_error.splits)
next
  case Launching
  with assms(2,3) show ?thesis by (auto simp: chunk_main_def chunk_phase_ok_def chunk_books_def split: if_splits)
qed (use assms in \<open>auto simp: chunk_main_def chunk_phase_ok_def split: if_splits\<close>)

lemma chunk_worker_fields [simp]:
  "cr_phase (chunk_worker chunks outcome pos s) = cr_phase s" "cr_next (chunk_worker chunks outcome pos s) = cr_next s"
  "cr_running (chunk_worker chunks outcome pos s) = remove1 pos (cr_running s)"
  "cr_handled (chunk_worker chunks outcome pos s) = cr_handled s @ [pos]"
  by (simp_all add: chunk_worker_def Let_def split: sum.splits)

lemma books_worker:
  assumes "chunk_books k chunks outcome s" and "pos \<in> set (cr_running s)"
  shows "chunk_books k chunks outcome (chunk_worker chunks outcome pos s)"
proof -
  let ?s = "chunk_worker chunks outcome pos s"
  from assms have d: "distinct (cr_running s @ cr_handled s)" "set (cr_running s @ cr_handled s) = {..<cr_next s}"
    by (simp_all add: chunk_books_def)
  have "pos \<in> {..<cr_next s}" using d(2) assms(2) by auto
  with assms(1) have n: "pos < length chunks" by (simp add: chunk_books_def)
  have r: "cr_results ?s = (case outcome pos of Inl _ \<Rightarrow> cr_results s | Inr r \<Rightarrow> (cr_results s)[pos := r])"
    by (simp add: chunk_worker_def Let_def split: sum.splits)
  have "set (remove1 pos (cr_running s)) = set (cr_running s) - {pos}" using d(1) by simp
  then have "distinct (cr_running ?s @ cr_handled ?s)" "set (cr_running ?s @ cr_handled ?s) = {..<cr_next s}"
    using d assms(2) by auto
  moreover have "int (length (cr_running ?s)) \<le> max 0 k" 
  proof -
    have "length (cr_running ?s) \<le> length (cr_running s)" by (simp add: length_remove1)
    moreover have "int (length (cr_running s)) \<le> max 0 k" using assms(1) by (simp add: chunk_books_def)
    ultimately show ?thesis by linarith
  qed
  moreover have "cr_results ?s ! i = (if i \<in> set (cr_handled ?s) then case outcome i of Inr r \<Rightarrow> r | Inl _ \<Rightarrow> zero_result else zero_result)"
    if "i < length chunks" for i
  proof (cases "i = pos")
    case True
    have "pos \<notin> set (cr_handled s)" using d(1) assms(2) by auto
    then have "cr_results s ! pos = zero_result" "length (cr_results s) = length chunks" using assms(1) n by (simp_all add: chunk_books_def)
    with True r n show ?thesis by (cases "outcome pos") simp_all
  next
    case False
    with that assms(1) r show ?thesis by (cases "outcome pos") (simp_all add: chunk_books_def)
  qed
  moreover have "length (cr_results ?s) = length chunks" using assms(1) r by (cases "outcome pos") (simp_all add: chunk_books_def)
  ultimately show ?thesis using assms(1) by (simp add: chunk_books_def)
qed

lemma error_worker:
  assumes "chunk_error chunks outcome s"
  shows "chunk_error chunks outcome (chunk_worker chunks outcome pos s)"
proof (cases "outcome pos")
  case (Inl x)
  show ?thesis
  proof (cases "cr_firstErr s")
    case None
    with Inl show ?thesis by (auto simp: chunk_error_def chunk_worker_def chunk_wrap_def Let_def split: option.splits)
  next
    case (Some e)
    with Inl assms show ?thesis by (auto simp: chunk_error_def chunk_worker_def Let_def)
  qed
next
  case (Inr r)
  with assms show ?thesis by (auto simp: chunk_error_def chunk_worker_def Let_def split: option.splits)
qed

lemma phase_worker:
  assumes "chunk_phase_ok chunks s" and "pos \<in> set (cr_running s)"
  shows "chunk_phase_ok chunks (chunk_worker chunks outcome pos s)"
proof -
  have "cr_ctx s \<noteq> None \<Longrightarrow> cr_ctx (chunk_worker chunks outcome pos s) \<noteq> None"
    by (auto simp: chunk_worker_def Let_def split: sum.splits option.splits)
  with assms show ?thesis by (cases "cr_phase s") (auto simp: chunk_phase_ok_def)
qed

lemma chunk_invariant:
  assumes "chunk_reachable k chunks outcome s"
  shows "chunk_books k (sort_chunks chunks) outcome s \<and> chunk_error (sort_chunks chunks) outcome s \<and> chunk_phase_ok (sort_chunks chunks) s"
  using assms
proof (induction rule: chunk_reachable.induct)
  case (chunk_start ctx)
  then show ?case
    by (auto simp: processChunks_def chunk_books_def chunk_error_def chunk_phase_ok_def sort_chunks_def)
next
  case (chunk_step s s')
  then show ?case using books_main error_main phase_main by blast
next
  case (chunk_handled s pos)
  then show ?case using books_worker error_worker phase_worker by blast
next
  case (chunk_cancelled s e)
  then show ?case
    by (auto simp: chunk_cancel_def chunk_books_def chunk_error_def chunk_phase_ok_def split: option.splits chunk_phase.splits sum.splits)
qed

text \<open>
  However the workers interleave, at most the configured number of chunks is in work and a returned run
  reflects its handlers: a run whose context is live and that succeeded gives for every chunk, in the
  order of the chunk indices, the result the handler returned for it; an error is the first one a
  handler returned, with the pages of its chunk, or the deadline; and a run without a failing handler
  and with a live context succeeds.
\<close>

theorem chunks_in_order:
  assumes "chunk_reachable concurrency chunks outcome s"
  shows "int (length (cr_running s)) \<le> max 0 concurrency
    \<and> (\<forall>rs. cr_phase s = Done (Inr rs) \<longrightarrow> length rs = length chunks
         \<and> (cr_ctx s = None \<longrightarrow> (\<forall>i < length chunks. outcome i = Inr (rs ! i))))
    \<and> (\<forall>e. cr_phase s = Done (Inl e) \<longrightarrow> e = OCtx DeadlineExceeded \<and> cr_ctx s \<noteq> None
         \<or> (\<exists>i x. i < length chunks \<and> outcome i = Inl x \<and> e = chunk_wrap (sort_chunks chunks) i x))"
proof -
  have len: "length (sort_chunks chunks) = length chunks" by (simp add: sort_chunks_def)
  note inv = chunk_invariant [OF assms]
  have ok: "length rs = length chunks \<and> (cr_ctx s = None \<longrightarrow> (\<forall>i < length chunks. outcome i = Inr (rs ! i)))"
    if "cr_phase s = Done (Inr rs)" for rs
  proof -
    from inv that have p: "cr_running s = []" "rs = cr_results s" "cr_firstErr s = None" "cr_next s = length chunks \<or> cr_ctx s \<noteq> None"
      by (auto simp: chunk_phase_ok_def len)
    have "outcome i = Inr (rs ! i)" if i: "i < length chunks" and "cr_ctx s = None" for i
    proof -
      have "i \<in> set (cr_handled s)" using inv p that by (auto simp: chunk_books_def)
      moreover from this inv p(3) obtain r where "outcome i = Inr r" by (auto simp: chunk_error_def)
      ultimately show ?thesis using inv p(2) i by (simp add: chunk_books_def len)
    qed
    with inv p(2) show ?thesis by (simp add: chunk_books_def len)
  qed
  moreover have "e = OCtx DeadlineExceeded \<and> cr_ctx s \<noteq> None \<or> (\<exists>i x. i < length chunks \<and> outcome i = Inl x \<and> e = chunk_wrap (sort_chunks chunks) i x)"
    if "cr_phase s = Done (Inl e)" for e
  proof (cases "cr_firstErr s")
    case (Some y)
    with inv that have y: "y = e" by (auto simp: chunk_phase_ok_def)
    from inv Some y obtain i x where "i \<in> set (cr_handled s)" "outcome i = Inl x" "e = chunk_wrap (sort_chunks chunks) i x"
      by (auto simp: chunk_error_def)
    moreover from this inv have "i < length chunks" by (auto simp: chunk_books_def len)
    ultimately show ?thesis by blast
  qed (use inv that in \<open>auto simp: chunk_phase_ok_def\<close>)
  ultimately show ?thesis using inv by (simp add: chunk_books_def)
qed


text \<open>A run never hangs on its own: a chunk is in work or the launching goroutine can go on.\<close>

lemma chunks_not_stuck:
  assumes "chunk_reachable concurrency chunks outcome s" and "concurrency > 0" and "cr_running s = []" and "\<nexists>r. cr_phase s = Done r"
  shows "\<exists>s'. chunk_main concurrency (sort_chunks chunks) s = Some s'"
  using assms by (cases "cr_phase s") (simp_all add: chunk_main_def)

section \<open>Retries\<close>

text \<open>A world with the history of the calls and waits.\<close>

datatype 'o retry_event = RCall "OErr + 'o" | RWait int

definition log_handle :: "('i, 'o, 'w) Handler \<Rightarrow> ('i, 'o, 'w \<times> 'o retry_event list) Handler" where
  "log_handle handle data wl = (case handle data (fst wl) of (r, w) \<Rightarrow> (r, (w, snd wl @ [RCall r])))"

definition log_wait :: "(int \<Rightarrow> 'w \<Rightarrow> ctx \<times> 'w) \<Rightarrow> int \<Rightarrow> 'w \<times> 'o retry_event list \<Rightarrow> ctx \<times> ('w \<times> 'o retry_event list)" where
  "log_wait wait d wl = (case wait d (fst wl) of (c, w) \<Rightarrow> (c, (w, snd wl @ [RWait d])))"

text \<open>
  The histories of a retried call: the last call or wait decides the result, every earlier call failed
  with an error that may be retried, and each is followed by a wait within the bound.
\<close>

inductive retried :: "(OErr \<Rightarrow> bool) option \<Rightarrow> int \<Rightarrow> nat \<Rightarrow> 'o retry_event list \<Rightarrow> OErr + 'o \<Rightarrow> bool" for shouldRetry bound where
  retried_ok: "retried shouldRetry bound m [RCall (Inr v)] (Inr v)"
| retried_last: "retried shouldRetry bound m [RCall (Inl e)] (Inl e)"
| retried_ctx: "shouldRetry = Some retry \<Longrightarrow> retry e \<Longrightarrow> 0 < d \<Longrightarrow> d \<le> bound
    \<Longrightarrow> retried shouldRetry bound (Suc m) [RCall (Inl e), RWait d] (Inl (OCtx c))"
| retried_again: "shouldRetry = Some retry \<Longrightarrow> retry e \<Longrightarrow> 0 < d \<Longrightarrow> d \<le> bound \<Longrightarrow> retried shouldRetry bound m ev r
    \<Longrightarrow> retried shouldRetry bound (Suc m) (RCall (Inl e) # RWait d # ev) r"

lemma next_backoff_bounds: "0 < rc_MaxBackoff cfg \<Longrightarrow> 0 < next_backoff f cfg b \<and> next_backoff f cfg b \<le> rc_MaxBackoff cfg"
  by (simp add: next_backoff_def Let_def)

lemma retry_loop_retried:
  assumes "retry_loop f cfg sr (log_wait wait) (log_handle handle) data m b wl = (r, wl')"
    and "0 < b" and "b \<le> rc_MaxBackoff cfg"
  shows "\<exists>ev. snd wl' = snd wl @ ev \<and> retried sr (rc_MaxBackoff cfg) m ev r"
  using assms
proof (induction m arbitrary: b wl)
  case 0
  obtain v w where h: "handle data (fst wl) = (v, w)" by (metis surj_pair)
  with 0(1) show ?case
    by (cases v) (auto simp: retry_loop.simps log_handle_def intro: retried_ok retried_last)
next
  case (Suc m)
  obtain v w where h: "handle data (fst wl) = (v, w)" by (metis surj_pair)
  let ?wl = "(w, snd wl @ [RCall v])"
  have lh: "log_handle handle data wl = (v, ?wl)" using h by (simp add: log_handle_def)
  show ?case
  proof (cases v)
    case (Inr x)
    with Suc.prems(1) lh show ?thesis by (auto simp: retry_loop.simps intro: retried_ok)
  next
    case (Inl e)
    show ?thesis
    proof (cases "\<exists>retry. sr = Some retry \<and> retry e")
      case False
      with Suc.prems(1) lh Inl show ?thesis by (cases sr) (auto simp: retry_loop.simps intro: retried_last)
    next
      case True
      then obtain retry where sr: "sr = Some retry" "retry e" by blast
      obtain c w2 where wt: "wait b w = (c, w2)" by (metis surj_pair)
      let ?wl2 = "(w2, snd wl @ [RCall v, RWait b])"
      have lw: "log_wait wait b ?wl = (c, ?wl2)" using wt by (simp add: log_wait_def)
      show ?thesis
      proof (cases c)
        case (Some x)
        with Suc.prems lh Inl sr lw retried_ctx [OF sr Suc.prems(2,3)] show ?thesis by (auto simp: retry_loop.simps)
      next
        case None
        with Suc.prems(1) lh Inl sr lw have "retry_loop f cfg sr (log_wait wait) (log_handle handle) data m (next_backoff f cfg b) ?wl2 = (r, wl')"
          by (subst (asm) retry_loop.simps) simp
        from Suc.IH [OF this] next_backoff_bounds [of cfg f b] Suc.prems(2,3) obtain ev where
          ev: "snd wl' = snd ?wl2 @ ev" "retried sr (rc_MaxBackoff cfg) m ev r" by auto
        from retried_again [OF sr Suc.prems(2,3) ev(2)] ev(1) Inl show ?thesis by auto
      qed
    qed
  qed
qed

definition retry_calls :: "'o retry_event list \<Rightarrow> (OErr + 'o) list" where
  "retry_calls ev = List.map_filter (\<lambda>e. case e of RCall r \<Rightarrow> Some r | RWait d \<Rightarrow> None) ev"

definition retry_waits :: "'o retry_event list \<Rightarrow> int list" where
  "retry_waits ev = List.map_filter (\<lambda>e. case e of RWait d \<Rightarrow> Some d | RCall r \<Rightarrow> None) ev"

lemma retry_lists [simp]:
  "retry_calls [] = []" "retry_calls (RCall r # ev) = r # retry_calls ev" "retry_calls (RWait d # ev) = retry_calls ev"
  "retry_waits [] = []" "retry_waits (RCall r # ev) = retry_waits ev" "retry_waits (RWait d # ev) = d # retry_waits ev"
  by (simp_all add: retry_calls_def retry_waits_def List.map_filter_def)

definition retryable_call :: "(OErr \<Rightarrow> bool) option \<Rightarrow> OErr + 'o \<Rightarrow> bool" where
  "retryable_call sr r \<longleftrightarrow> (\<exists>retry e. sr = Some retry \<and> r = Inl e \<and> retry e)"

lemma retried_facts:
  assumes "retried sr bound m ev r"
  shows "retry_calls ev \<noteq> [] \<and> length (retry_calls ev) \<le> Suc m \<and> length (retry_waits ev) \<le> m
    \<and> (\<forall>d \<in> set (retry_waits ev). 0 < d \<and> d \<le> bound) \<and> (\<forall>x \<in> set (butlast (retry_calls ev)). retryable_call sr x)
    \<and> (r = last (retry_calls ev) \<or> (\<exists>c. r = Inl (OCtx c) \<and> retryable_call sr (last (retry_calls ev))))"
  using assms
proof (induction rule: retried.induct)
  case (retried_again retry e d m ev r)
  then show ?case by (auto simp: retryable_call_def)
qed (auto simp: retryable_call_def)

lemma normalize_retry_bounds:
  "let c = normalize_retry cfg in 1 \<le> rc_MaxAttempts c \<and> 0 < rc_InitialBackoff c \<and> rc_InitialBackoff c \<le> rc_MaxBackoff c \<and> 1 \<le> rc_Multiplier c"
  by (simp add: normalize_retry_def Let_def)

text \<open>
  Whatever the options, the clock and the conversion of the backoff, a retried call is made at least once
  and at most the configured number of times (once for a number that is not positive), every wait is
  positive and at most the maximal backoff, only errors that may be retried are followed by another
  call, and the result is that of the last call unless the context ended the wait after it.
\<close>

theorem retry_bounded:
  assumes "retry_middleware to_duration shouldRetry opts (log_wait wait) (log_handle handle) data (w, []) = (r, (w', ev))"
    and "cfg = normalize_retry (New_retry opts)"
  shows "1 \<le> length (retry_calls ev) \<and> int (length (retry_calls ev)) \<le> rc_MaxAttempts cfg \<and> length (retry_waits ev) \<le> length (retry_calls ev)
    \<and> (\<forall>d \<in> set (retry_waits ev). 0 < d \<and> d \<le> rc_MaxBackoff cfg)
    \<and> (\<forall>x \<in> set (butlast (retry_calls ev)). retryable_call shouldRetry x)
    \<and> (r = last (retry_calls ev) \<or> (\<exists>c. r = Inl (OCtx c) \<and> retryable_call shouldRetry (last (retry_calls ev))))"
proof -
  have b: "1 \<le> rc_MaxAttempts cfg" "0 < rc_InitialBackoff cfg" "rc_InitialBackoff cfg \<le> rc_MaxBackoff cfg"
    using normalize_retry_bounds [of "New_retry opts"] assms(2) by (simp_all add: Let_def)
  have "retry_loop to_duration cfg shouldRetry (log_wait wait) (log_handle handle) data (nat (rc_MaxAttempts cfg) - 1) (rc_InitialBackoff cfg) (w, [])
      = (r, (w', ev))" using assms by (simp add: retry_middleware_def Let_def)
  from retry_loop_retried [OF this b(2,3)] have ev: "retried shouldRetry (rc_MaxBackoff cfg) (nat (rc_MaxAttempts cfg) - 1) ev r" by simp
  have "length (retry_waits ev) \<le> length (retry_calls ev)" using ev by (induction rule: retried.induct) auto
  moreover have "1 \<le> length (retry_calls ev)" using retried_facts [OF ev] by (cases "retry_calls ev") auto
  moreover have "int (length (retry_calls ev)) \<le> rc_MaxAttempts cfg" using retried_facts [OF ev] b(1) by linarith
  ultimately show ?thesis using retried_facts [OF ev] by blast
qed

section \<open>The dispatcher\<close>

definition holds :: "worker \<Rightarrow> nat \<Rightarrow> bool" where
  "holds x c \<longleftrightarrow> x = Took c \<or> x = Calling c"

definition held :: "'o Dispatcher \<Rightarrow> nat \<Rightarrow> bool" where
  "held d c \<longleftrightarrow> (\<exists>k < length (dp_workers d). holds (dp_workers d ! k) c)"

text \<open>An answer to a call: what its provider returned for it, or the error of its context.\<close>

definition answer :: "(nat \<Rightarrow> OErr + 'o) \<Rightarrow> 'o Dispatcher \<Rightarrow> nat \<Rightarrow> OErr + 'o \<Rightarrow> bool" where
  "answer outcome d c r \<longleftrightarrow> r = outcome c \<and> c \<in> set (dp_calls d) \<or> (\<exists>e. r = Inl (OCtx e) \<and> dp_ctx d ! c = Some e)"

definition turned_away :: "'o Dispatcher \<Rightarrow> nat \<Rightarrow> bool" where
  "turned_away d c \<longleftrightarrow> dp_closed d \<and> c \<notin> set (dp_calls d) \<and> dp_reply d ! c = None \<and> \<not> held d c"

definition workers_ok :: "'o Dispatcher \<Rightarrow> bool" where
  "workers_ok d \<longleftrightarrow>
     (\<forall>k < length (dp_workers d). \<forall>c. holds (dp_workers d ! k) c \<longrightarrow> c < length (dp_callers d) \<and> dp_reply d ! c = None
        \<and> dp_callers d ! c \<noteq> Sending \<and> (dp_workers d ! k = Calling c \<longleftrightarrow> c \<in> set (dp_calls d)))
     \<and> (\<forall>k < length (dp_workers d). \<forall>j < length (dp_workers d). \<forall>c. holds (dp_workers d ! k) c \<and> holds (dp_workers d ! j) c \<longrightarrow> k = j)"

definition call_ok :: "(nat \<Rightarrow> OErr + 'o) \<Rightarrow> 'o Dispatcher \<Rightarrow> nat \<Rightarrow> bool" where
  "call_ok outcome d c \<longleftrightarrow>
     (\<forall>r. dp_reply d ! c = Some r \<longrightarrow> answer outcome d c r)
     \<and> (case dp_callers d ! c of
          Sending \<Rightarrow> dp_reply d ! c = None \<and> c \<notin> set (dp_calls d)
        | AwaitingReply \<Rightarrow> dp_reply d ! c \<noteq> None \<or> held d c
        | CallReturned r \<Rightarrow> answer outcome d c r \<or> r = Inl ErrClosed \<and> turned_away d c)"

definition dispatch_inv :: "(nat \<Rightarrow> OErr + 'o) \<Rightarrow> 'o Dispatcher \<Rightarrow> bool" where
  "dispatch_inv outcome d \<longleftrightarrow>
     length (dp_ctx d) = length (dp_callers d) \<and> length (dp_reply d) = length (dp_callers d)
     \<and> distinct (dp_calls d) \<and> set (dp_calls d) \<subseteq> {..<length (dp_callers d)}
     \<and> workers_ok d \<and> (\<forall>c < length (dp_callers d). call_ok outcome d c)"

lemma workers_okI:
  assumes "\<And>k c. k < length (dp_workers d) \<Longrightarrow> holds (dp_workers d ! k) c \<Longrightarrow> c < length (dp_callers d) \<and> dp_reply d ! c = None
        \<and> dp_callers d ! c \<noteq> Sending \<and> (dp_workers d ! k = Calling c \<longleftrightarrow> c \<in> set (dp_calls d))"
    and "\<And>k j c. k < length (dp_workers d) \<Longrightarrow> j < length (dp_workers d) \<Longrightarrow> holds (dp_workers d ! k) c \<Longrightarrow> holds (dp_workers d ! j) c \<Longrightarrow> k = j"
  shows "workers_ok d"
  using assms unfolding workers_ok_def by blast

lemma workers_okD:
  assumes "workers_ok d" and "k < length (dp_workers d)" and "holds (dp_workers d ! k) c"
  shows "c < length (dp_callers d)" "dp_reply d ! c = None" "dp_callers d ! c \<noteq> Sending"
    "dp_workers d ! k = Calling c \<longleftrightarrow> c \<in> set (dp_calls d)"
    "j < length (dp_workers d) \<Longrightarrow> holds (dp_workers d ! j) c \<Longrightarrow> k = j"
  using assms unfolding workers_ok_def by blast+

lemma dispatch_invD:
  assumes "dispatch_inv outcome d"
  shows "length (dp_ctx d) = length (dp_callers d)" "length (dp_reply d) = length (dp_callers d)" "distinct (dp_calls d)"
    "set (dp_calls d) \<subseteq> {..<length (dp_callers d)}" "workers_ok d" "c < length (dp_callers d) \<Longrightarrow> call_ok outcome d c"
  using assms by (simp_all add: dispatch_inv_def)

lemma holds_simps [simp]: "\<not> holds Idle c" "\<not> holds Exited c" "holds (Took a) c \<longleftrightarrow> a = c" "holds (Calling a) c \<longleftrightarrow> a = c"
  by (auto simp: holds_def)

text \<open>A worker that changes its state concerns only the call it had or has.\<close>

lemma held_other:
  assumes "dp_workers d' = (dp_workers d)[k := x]" and "k < length (dp_workers d)" and "\<not> holds (dp_workers d ! k) a" and "\<not> holds x a"
  shows "held d' a = held d a"
proof -
  have "holds (dp_workers d' ! j) a = holds (dp_workers d ! j) a" if "j < length (dp_workers d)" for j
    using assms that by (cases "j = k") simp_all
  with assms(1) show ?thesis by (auto simp: held_def)
qed

text \<open>A call that a step does not concern: all it needs is kept.\<close>

lemma call_ok_mono:
  assumes "call_ok outcome d c" and "dp_callers d' ! c = dp_callers d ! c" and "dp_reply d' ! c = dp_reply d ! c"
    and "c \<in> set (dp_calls d') \<longleftrightarrow> c \<in> set (dp_calls d)" and "held d' c \<longleftrightarrow> held d c"
    and "\<And>e. dp_ctx d ! c = Some e \<Longrightarrow> dp_ctx d' ! c = Some e" and "dp_closed d \<Longrightarrow> dp_closed d'"
  shows "call_ok outcome d' c"
proof -
  have a: "answer outcome d c r \<Longrightarrow> answer outcome d' c r" for r using assms(4,6) by (auto simp: answer_def)
  have t: "turned_away d c \<Longrightarrow> turned_away d' c" using assms(3-5,7) by (auto simp: turned_away_def)
  show ?thesis using assms(1-5) a t
    by (cases "dp_callers d ! c") (auto simp: call_ok_def)
qed

lemma inv_call:
  assumes "dispatch_inv outcome d"
  shows "dispatch_inv outcome (dispatch_call ctx d)"
proof -
  let ?d = "dispatch_call ctx d" and ?n = "length (dp_callers d)"
  have len: "length (dp_ctx d) = ?n" "length (dp_reply d) = ?n" "set (dp_calls d) \<subseteq> {..<?n}" using assms by (simp_all add: dispatch_inv_def)
  have held: "held ?d c = held d c" for c by (simp add: held_def dispatch_call_def)
  note old = workers_okD [OF dispatch_invD(5) [OF assms]]
  have w: "workers_ok ?d"
  proof (rule workers_okI)
    fix k c
    assume "k < length (dp_workers ?d)" and "holds (dp_workers ?d ! k) c"
    then have k: "k < length (dp_workers d)" "holds (dp_workers d ! k) c" by (simp_all add: dispatch_call_def)
    from old(1-4) [OF k] len show "c < length (dp_callers ?d) \<and> dp_reply ?d ! c = None \<and> dp_callers ?d ! c \<noteq> Sending
      \<and> (dp_workers ?d ! k = Calling c \<longleftrightarrow> c \<in> set (dp_calls ?d))" by (simp add: dispatch_call_def nth_append)
  next
    fix k j c
    assume "k < length (dp_workers ?d)" "j < length (dp_workers ?d)" "holds (dp_workers ?d ! k) c" "holds (dp_workers ?d ! j) c"
    then show "k = j" using old(5) by (simp add: dispatch_call_def)
  qed
  have "call_ok outcome ?d c" if "c < length (dp_callers ?d)" for c
  proof (cases "c = ?n")
    case True
    with len show ?thesis by (auto simp: call_ok_def dispatch_call_def nth_append)
  next
    case False
    with that have c: "c < ?n" by (simp add: dispatch_call_def)
    show ?thesis by (rule call_ok_mono [OF dispatch_invD(6) [OF assms c]])
      (use c len held in \<open>simp_all add: dispatch_call_def nth_append\<close>)
  qed
  with w assms show ?thesis by (auto simp: dispatch_inv_def dispatch_call_def)
qed

lemma inv_return:
  assumes "dispatch_inv outcome d" and "c < length (dp_callers d)" and "answer outcome d c r \<or> r = Inl ErrClosed \<and> turned_away d c"
  shows "dispatch_inv outcome (d\<lparr>dp_callers := (dp_callers d)[c := CallReturned r]\<rparr>)"
proof -
  let ?d = "d\<lparr>dp_callers := (dp_callers d)[c := CallReturned r]\<rparr>"
  have same: "held ?d a = held d a" "answer outcome ?d a q = answer outcome d a q" "turned_away ?d a = turned_away d a" for a q
    by (simp_all add: held_def answer_def turned_away_def)
  note old = workers_okD [OF dispatch_invD(5) [OF assms(1)]]
  have "workers_ok ?d"
  proof (rule workers_okI)
    fix k a
    assume "k < length (dp_workers ?d)" and "holds (dp_workers ?d ! k) a"
    then have k: "k < length (dp_workers d)" "holds (dp_workers d ! k) a" by simp_all
    from old(1-4) [OF k] show "a < length (dp_callers ?d) \<and> dp_reply ?d ! a = None \<and> dp_callers ?d ! a \<noteq> Sending
      \<and> (dp_workers ?d ! k = Calling a \<longleftrightarrow> a \<in> set (dp_calls ?d))" using assms(2) by (simp add: nth_list_update)
  next
    fix k j a
    assume "k < length (dp_workers ?d)" "j < length (dp_workers ?d)" "holds (dp_workers ?d ! k) a" "holds (dp_workers ?d ! j) a"
    then show "k = j" using old(5) by simp
  qed
  moreover have "call_ok outcome ?d a" if "a < length (dp_callers d)" for a
  proof -
    show ?thesis
    proof (cases "a = c")
      case True
      with dispatch_invD(6) [OF assms(1) that] assms(2,3) show ?thesis by (simp add: call_ok_def same)
    next
      case False
      show ?thesis by (rule call_ok_mono [OF dispatch_invD(6) [OF assms(1) that]]) (use False in \<open>simp_all add: same\<close>)
    qed
  qed
  ultimately show ?thesis using assms(1) by (simp add: dispatch_inv_def)
qed

lemma inv_handle:
  assumes "dispatch_inv outcome d" and "c < length (dp_callers d)" and "d' \<in> set (handle_steps c d)"
  shows "dispatch_inv outcome d'"
proof -
  from assms(1,2) have ok: "call_ok outcome d c" by (simp add: dispatch_inv_def)
  have nh: "\<not> held d c" if "dp_callers d ! c = Sending"
    using workers_okD(3) [OF dispatch_invD(5) [OF assms(1)]] that unfolding held_def by blast
  from assms(3) obtain r where r: "d' = d\<lparr>dp_callers := (dp_callers d)[c := CallReturned r]\<rparr>"
    "(\<exists>e. r = Inl (OCtx e) \<and> dp_ctx d ! c = Some e) \<or> (dp_reply d ! c = Some r) \<or> (dp_callers d ! c = Sending \<and> r = Inl ErrClosed \<and> dp_closed d)"
    by (cases "dp_callers d ! c") (auto simp: handle_steps_def split: option.splits if_splits)
  from r(2) ok nh have "answer outcome d c r \<or> r = Inl ErrClosed \<and> turned_away d c"
    by (auto simp: call_ok_def answer_def turned_away_def)
  with inv_return [OF assms(1,2)] r(1) show ?thesis by simp
qed

lemma inv_take:
  assumes "dispatch_inv outcome d" and c: "c < length (dp_callers d)" and k: "k < length (dp_workers d)" and "d' \<in> set (take_job c k d)"
  shows "dispatch_inv outcome d'"
proof -
  from assms(4) have s: "dp_callers d ! c = Sending" "dp_workers d ! k = Idle"
    and d': "d' = d\<lparr>dp_callers := (dp_callers d)[c := AwaitingReply], dp_workers := (dp_workers d)[k := Took c]\<rparr>"
    by (auto simp: take_job_def split: if_splits)
  note old = workers_okD [OF dispatch_invD(5) [OF assms(1)]]
  from dispatch_invD(6) [OF assms(1) c] s(1) have rc: "dp_reply d ! c = None" "c \<notin> set (dp_calls d)" by (simp_all add: call_ok_def)
  have free: "\<not> holds (dp_workers d ! j) c" if "j < length (dp_workers d)" for j using old(3) [OF that] s(1) by blast
  have "workers_ok d'"
  proof (rule workers_okI)
    fix j a
    assume "j < length (dp_workers d')" and h: "holds (dp_workers d' ! j) a"
    then have j: "j < length (dp_workers d)" by (simp add: d')
    show "a < length (dp_callers d') \<and> dp_reply d' ! a = None \<and> dp_callers d' ! a \<noteq> Sending \<and> (dp_workers d' ! j = Calling a \<longleftrightarrow> a \<in> set (dp_calls d'))"
    proof (cases "j = k")
      case True
      with h k have "a = c" by (simp add: d')
      with True k c rc show ?thesis by (simp add: d')
    next
      case False
      with h have ha: "holds (dp_workers d ! j) a" by (simp add: d')
      with free [OF j] have "a \<noteq> c" by auto
      with old(1-4) [OF j ha] False show ?thesis by (simp add: d')
    qed
  next
    fix i j a
    assume "i < length (dp_workers d')" "j < length (dp_workers d')" and h: "holds (dp_workers d' ! i) a" "holds (dp_workers d' ! j) a"
    then have ij: "i < length (dp_workers d)" "j < length (dp_workers d)" by (simp_all add: d')
    show "i = j"
      using h free [OF ij(1)] free [OF ij(2)] old(5) [OF ij(1) _ ij(2)] ij k by (cases "i = k"; cases "j = k") (auto simp: d')
  qed
  moreover have "call_ok outcome d' a" if "a < length (dp_callers d)" for a
  proof (cases "a = c")
    case True
    have "held d' c" unfolding held_def using k by (intro exI [of _ k]) (simp add: d')
    with True c rc show ?thesis by (simp add: call_ok_def) (simp add: d')
  next
    case False
    have "held d' a = held d a" by (rule held_other [of _ _ k "Took c"]) (use False k s(2) in \<open>simp_all add: d'\<close>)
    with False show ?thesis by (intro call_ok_mono [OF dispatch_invD(6) [OF assms(1) that]]) (simp_all add: d')
  qed
  ultimately show ?thesis using dispatch_invD(1-4) [OF assms(1)] by (simp add: dispatch_inv_def d')
qed

text \<open>A worker that answers its call, and is idle again.\<close>

lemma inv_reply:
  assumes "dispatch_inv outcome d" and k: "k < length (dp_workers d)" and h: "holds (dp_workers d ! k) c" and a: "answer outcome d c r"
  shows "dispatch_inv outcome (d\<lparr>dp_reply := (dp_reply d)[c := Some r], dp_workers := (dp_workers d)[k := Idle]\<rparr>)"
proof -
  let ?d = "d\<lparr>dp_reply := (dp_reply d)[c := Some r], dp_workers := (dp_workers d)[k := Idle]\<rparr>"
  note old = workers_okD [OF dispatch_invD(5) [OF assms(1)]]
  note len = dispatch_invD(1,2) [OF assms(1)]
  have c: "c < length (dp_callers d)" "dp_callers d ! c \<noteq> Sending" using old(1,3) [OF k h] by simp_all
  have other: "i < length (dp_workers d)" "i \<noteq> k" "holds (dp_workers d ! i) b" "b \<noteq> c"
    if "i < length (dp_workers ?d)" "holds (dp_workers ?d ! i) b" for i b
  proof -
    show i: "i < length (dp_workers d)" using that(1) by simp
    show n: "i \<noteq> k" using that k by auto
    with that(2) show hb: "holds (dp_workers d ! i) b" by simp
    show "b \<noteq> c" using old(5) [OF k h i] hb n by auto
  qed
  have "workers_ok ?d"
  proof (rule workers_okI)
    fix i b
    assume i: "i < length (dp_workers ?d)" "holds (dp_workers ?d ! i) b"
    from old(1-4) [OF other(1,3) [OF i]] other(2,4) [OF i]
    show "b < length (dp_callers ?d) \<and> dp_reply ?d ! b = None \<and> dp_callers ?d ! b \<noteq> Sending \<and> (dp_workers ?d ! i = Calling b \<longleftrightarrow> b \<in> set (dp_calls ?d))"
      by simp
  next
    fix i j b
    assume i: "i < length (dp_workers ?d)" and j: "j < length (dp_workers ?d)" and hi: "holds (dp_workers ?d ! i) b" and hj: "holds (dp_workers ?d ! j) b"
    show "i = j" by (rule old(5) [OF other(1,3) [OF i hi] other(1,3) [OF j hj]])
  qed
  moreover have "call_ok outcome ?d b" if b: "b < length (dp_callers d)" for b
  proof (cases "b = c")
    case True
    have "answer outcome ?d c q = answer outcome d c q" for q by (simp add: answer_def)
    moreover have "\<not> turned_away d c" using k h by (auto simp: turned_away_def held_def)
    ultimately show ?thesis using True c len a dispatch_invD(6) [OF assms(1) c(1)]
      by (cases "dp_callers d ! c") (simp_all add: call_ok_def)
  next
    case False
    have "held ?d b = held d b"
      by (rule held_other [of _ _ k Idle]) (use False k h in \<open>auto simp: holds_def\<close>)
    with False show ?thesis by (intro call_ok_mono [OF dispatch_invD(6) [OF assms(1) b]]) simp_all
  qed
  ultimately show ?thesis using dispatch_invD(1-4) [OF assms(1)] by (simp add: dispatch_inv_def)
qed

lemma inv_provider:
  assumes "dispatch_inv outcome d" and k: "k < length (dp_workers d)" and t: "dp_workers d ! k = Took c"
  shows "dispatch_inv outcome (d\<lparr>dp_calls := dp_calls d @ [c], dp_workers := (dp_workers d)[k := Calling c]\<rparr>)"
proof -
  let ?d = "d\<lparr>dp_calls := dp_calls d @ [c], dp_workers := (dp_workers d)[k := Calling c]\<rparr>"
  have h: "holds (dp_workers d ! k) c" using t by simp
  note old = workers_okD [OF dispatch_invD(5) [OF assms(1)]]
  have c: "c < length (dp_callers d)" "dp_callers d ! c \<noteq> Sending" "c \<notin> set (dp_calls d)" "dp_reply d ! c = None"
    using old(1-4) [OF k h] t by auto
  have same: "holds (dp_workers ?d ! i) b = holds (dp_workers d ! i) b" for i b using t k by (cases "i = k") auto
  have "workers_ok ?d"
  proof (rule workers_okI)
    fix i b
    assume "i < length (dp_workers ?d)" and hb: "holds (dp_workers ?d ! i) b"
    then have i: "i < length (dp_workers d)" and hi: "holds (dp_workers d ! i) b" using same by simp_all
    have "b = c \<longleftrightarrow> i = k" using old(5) [OF k h i] hi t by auto
    with old(1-4) [OF i hi] k i
    show "b < length (dp_callers ?d) \<and> dp_reply ?d ! b = None \<and> dp_callers ?d ! b \<noteq> Sending \<and> (dp_workers ?d ! i = Calling b \<longleftrightarrow> b \<in> set (dp_calls ?d))"
      by (cases "i = k") simp_all
  next
    fix i j b
    assume "i < length (dp_workers ?d)" "j < length (dp_workers ?d)" "holds (dp_workers ?d ! i) b" "holds (dp_workers ?d ! j) b"
    then show "i = j" using same old(5) by simp
  qed
  moreover have "call_ok outcome ?d b" if b: "b < length (dp_callers d)" for b
  proof -
    have held: "held ?d b = held d b" using same by (simp add: held_def)
    show ?thesis
    proof (cases "b = c")
      case True
      have "held d c" using k h by (auto simp: held_def)
      with True c dispatch_invD(6) [OF assms(1) c(1)] held show ?thesis
        by (cases "dp_callers d ! c") (auto simp: call_ok_def answer_def turned_away_def)
    next
      case False
      with held show ?thesis by (intro call_ok_mono [OF dispatch_invD(6) [OF assms(1) b]]) simp_all
    qed
  qed
  ultimately show ?thesis using dispatch_invD(1-4) [OF assms(1)] c by (simp add: dispatch_inv_def)
qed

lemma inv_exit:
  assumes "dispatch_inv outcome d" and k: "k < length (dp_workers d)" and i: "dp_workers d ! k = Idle"
  shows "dispatch_inv outcome (d\<lparr>dp_workers := (dp_workers d)[k := Exited]\<rparr>)"
proof -
  let ?d = "d\<lparr>dp_workers := (dp_workers d)[k := Exited]\<rparr>"
  have same: "dp_workers ?d ! j = (if j = k then Exited else dp_workers d ! j)" for j using k by simp
  have "workers_ok ?d"
  proof (rule workers_okI)
    fix j b
    assume "j < length (dp_workers ?d)" and "holds (dp_workers ?d ! j) b"
    then have j: "j < length (dp_workers d)" "j \<noteq> k" "holds (dp_workers d ! j) b" using same by (auto split: if_splits)
    from workers_okD(1-4) [OF dispatch_invD(5) [OF assms(1)] j(1,3)] j(2)
    show "b < length (dp_callers ?d) \<and> dp_reply ?d ! b = None \<and> dp_callers ?d ! b \<noteq> Sending \<and> (dp_workers ?d ! j = Calling b \<longleftrightarrow> b \<in> set (dp_calls ?d))"
      by simp
  next
    fix i j b
    assume "i < length (dp_workers ?d)" "j < length (dp_workers ?d)" "holds (dp_workers ?d ! i) b" "holds (dp_workers ?d ! j) b"
    then show "i = j" using same workers_okD(5) [OF dispatch_invD(5) [OF assms(1)], of i b j] by (auto split: if_splits)
  qed
  moreover have "call_ok outcome ?d b" if b: "b < length (dp_callers d)" for b
    by (rule call_ok_mono [OF dispatch_invD(6) [OF assms(1) b]]) (use held_other [of ?d d k Exited b] k i in simp_all)
  ultimately show ?thesis using dispatch_invD(1-4) [OF assms(1)] by (simp add: dispatch_inv_def)
qed

lemma inv_worker:
  assumes "dispatch_inv outcome d" and k: "k < length (dp_workers d)" and "d' \<in> set (worker_steps outcome k d)"
  shows "dispatch_inv outcome d'"
proof (cases "dp_workers d ! k")
  case Idle
  with assms(3) inv_exit [OF assms(1) k] show ?thesis by (auto simp: worker_steps_def split: if_splits)
next
  case (Took c)
  show ?thesis
  proof (cases "dp_ctx d ! c")
    case None
    with Took assms(3) inv_provider [OF assms(1) k Took] show ?thesis by (auto simp: worker_steps_def)
  next
    case (Some e)
    have "answer outcome d c (Inl (OCtx e))" using Some by (simp add: answer_def)
    with Some Took assms(3) inv_reply [OF assms(1) k, of c] show ?thesis by (auto simp: worker_steps_def)
  qed
next
  case (Calling c)
  from workers_okD(4) [OF dispatch_invD(5) [OF assms(1)] k, of c] Calling have "answer outcome d c (outcome c)" by (simp add: answer_def)
  with Calling assms(3) inv_reply [OF assms(1) k, of c] show ?thesis by (auto simp: worker_steps_def)
qed (use assms in \<open>simp_all add: worker_steps_def\<close>)

text \<open>Steps of the world: a context is cancelled, or the dispatcher is closed.\<close>

lemma inv_world:
  assumes "dispatch_inv outcome d" and "dp_callers d' = dp_callers d" and "dp_reply d' = dp_reply d" and "dp_workers d' = dp_workers d"
    and "dp_calls d' = dp_calls d" and "length (dp_ctx d') = length (dp_ctx d)"
    and "\<And>c e. dp_ctx d ! c = Some e \<Longrightarrow> dp_ctx d' ! c = Some e" and "dp_closed d \<Longrightarrow> dp_closed d'"
  shows "dispatch_inv outcome d'"
proof -
  have held: "held d' c = held d c" for c using assms(4) by (simp add: held_def)
  have "call_ok outcome d' c" if "c < length (dp_callers d)" for c
    by (rule call_ok_mono [OF dispatch_invD(6) [OF assms(1) that]]) (use assms held in auto)
  moreover have "workers_ok d'" using dispatch_invD(5) [OF assms(1)] assms(2-5) by (simp add: workers_ok_def)
  ultimately show ?thesis using dispatch_invD(1-4) [OF assms(1)] assms by (simp add: dispatch_inv_def)
qed

lemma inv_step: "dispatch_step outcome d d' \<Longrightarrow> dispatch_inv outcome d \<Longrightarrow> dispatch_inv outcome d'"
proof (induction rule: dispatch_step.induct)
  case (cancelled c d e)
  have "dp_ctx (cancel_call c e d) ! a = Some x" if "dp_ctx d ! a = Some x" for a x
    using that by (cases "a = c") (auto simp: cancel_call_def)
  then show ?case by (intro inv_world [OF cancelled(2)]) (simp_all add: cancel_call_def)
next
  case (closing d)
  show ?case by (rule inv_world [OF closing]) (auto simp: dispatch_Close_def)
qed (auto intro: inv_call inv_take inv_handle inv_worker)

lemma inv_new: "NewDispatcher providers = Inr d \<Longrightarrow> dispatch_inv outcome d"
proof -
  assume "NewDispatcher providers = Inr d"
  then have d: "dp_callers d = []" "dp_ctx d = []" "dp_reply d = []" "dp_calls d = []"
    "dp_workers d = concat (map (\<lambda>p. replicate (nat (max (the p) 1)) Idle) providers)"
    by (auto simp: NewDispatcher_def split: if_splits option.splits)
  have "set (dp_workers d) \<subseteq> {Idle}" unfolding d(5) by auto
  then have "dp_workers d ! k = Idle" if "k < length (dp_workers d)" for k using nth_mem [OF that] by auto
  then have "workers_ok d" by (intro workers_okI) simp_all
  with d show ?thesis by (simp add: dispatch_inv_def)
qed

lemma dispatch_invariant: "dispatch_reachable outcome d \<Longrightarrow> dispatch_inv outcome d"
  by (induction rule: dispatch_reachable.induct) (auto intro: inv_new inv_step)

text \<open>Property C32. However calls, workers, cancellations and the close interleave: every call reaches a provider at most
  once, and a call that returned has what its own provider call returned, or the error of its own
  cancelled context, or was turned away by the close without reaching a provider. No call is lost: one
  that awaits its reply has it in its channel or is with exactly one worker, also after the close, and
  when \<open>Close\<close> returned no provider is at work and every awaited reply is there.
\<close>

theorem dispatch_exactly_once:
  assumes "dispatch_reachable outcome d"
  shows "distinct (dp_calls d)
    \<and> (\<forall>c < length (dp_callers d). case dp_callers d ! c of
          Sending \<Rightarrow> c \<notin> set (dp_calls d)
        | AwaitingReply \<Rightarrow> dp_reply d ! c \<noteq> None \<or> (\<exists>!k. k < length (dp_workers d) \<and> holds (dp_workers d ! k) c)
        | CallReturned r \<Rightarrow> r = outcome c \<and> c \<in> set (dp_calls d) \<or> (\<exists>e. r = Inl (OCtx e) \<and> dp_ctx d ! c = Some e)
            \<or> r = Inl ErrClosed \<and> dp_closed d \<and> c \<notin> set (dp_calls d))
    \<and> (close_returned d \<longrightarrow> (\<forall>c < length (dp_callers d). \<not> held d c \<and> (dp_callers d ! c = AwaitingReply \<longrightarrow> dp_reply d ! c \<noteq> None)))"
proof -
  note inv = dispatch_invariant [OF assms]
  have one: "\<exists>!k. k < length (dp_workers d) \<and> holds (dp_workers d ! k) c" if "held d c" for c
    using that workers_okD(5) [OF dispatch_invD(5) [OF inv]] unfolding held_def by blast
  have "case dp_callers d ! c of
          Sending \<Rightarrow> c \<notin> set (dp_calls d)
        | AwaitingReply \<Rightarrow> dp_reply d ! c \<noteq> None \<or> (\<exists>!k. k < length (dp_workers d) \<and> holds (dp_workers d ! k) c)
        | CallReturned r \<Rightarrow> r = outcome c \<and> c \<in> set (dp_calls d) \<or> (\<exists>e. r = Inl (OCtx e) \<and> dp_ctx d ! c = Some e)
            \<or> r = Inl ErrClosed \<and> dp_closed d \<and> c \<notin> set (dp_calls d)" if "c < length (dp_callers d)" for c
    using dispatch_invD(6) [OF inv that] one [of c]
    by (cases "dp_callers d ! c") (auto simp: call_ok_def answer_def turned_away_def)
  moreover have "\<not> held d c \<and> (dp_callers d ! c = AwaitingReply \<longrightarrow> dp_reply d ! c \<noteq> None)"
    if "close_returned d" and "c < length (dp_callers d)" for c
  proof -
    have "\<not> held d c" using that(1) by (auto simp: close_returned_def held_def list_all_length)
    with dispatch_invD(6) [OF inv that(2)] show ?thesis by (auto simp: call_ok_def)
  qed
  ultimately show ?thesis using dispatch_invD(3) [OF inv] by blast
qed

section \<open>Concrete documents and calls\<close>

definition demo_split :: "OErr + Chunk list" where
  "demo_split = Split (\<lambda>i. None) (\<lambda>pdf. Inr 5) (\<lambda>pdf a b. Inr ''pages'') ''%PDF-'' 2"

theorem split_covers_pages_witness:
  "\<exists>chunks. demo_split = Inr chunks \<and> length chunks = 3 \<and> chunk_pages chunks = [1..5]"
proof -
  have "\<exists>chunks. Split (\<lambda>i. None) (\<lambda>pdf. Inr 5) (\<lambda>pdf a b. Inr ''pages'') ''%PDF-'' 2 = Inr chunks \<and> length chunks = 3"
    by (simp add: Split_def split_from.simps Let_def)
  then obtain chunks where c: "Split (\<lambda>i. None) (\<lambda>pdf. Inr 5) (\<lambda>pdf a b. Inr ''pages'') ''%PDF-'' 2 = Inr chunks" "length chunks = 3" by blast
  from split_covers_pages [OF c(1)] c show ?thesis by (simp add: demo_split_def)
qed

definition demo_outcome :: "nat \<Rightarrow> OErr + OCRResult" where
  "demo_outcome i = Inr \<lparr>ocr_Provider = ''p'', ocr_Raw = replicate i (CHR ''x'')\<rparr>"

abbreviation demo_chunk :: "int \<Rightarrow> Chunk" where
  "demo_chunk i \<equiv> \<lparr>ch_Index = i, ch_StartPage = i + 1, ch_EndPage = i + 1, ch_Data = ''d''\<rparr>"

abbreviation demo_chunks :: "Chunk list" where "demo_chunks \<equiv> [demo_chunk 1, demo_chunk 0]"

text \<open>Two chunks in work at once; the second one is done first.\<close>

lemma demo_chunks_done:
  "\<exists>s. chunk_reachable 2 demo_chunks demo_outcome s \<and> cr_ctx s = None
     \<and> cr_phase s = Done (Inr [\<lparr>ocr_Provider = ''p'', ocr_Raw = ''''\<rparr>, \<lparr>ocr_Provider = ''p'', ocr_Raw = ''x''\<rparr>])"
proof -
  have len: "length (sort_chunks demo_chunks) = 2" by (simp add: sort_chunks_def)
  then have ne: "sort_chunks demo_chunks \<noteq> []" by auto
  let ?s = "\<lambda>p n run done rs. \<lparr>cr_phase = p, cr_next = n, cr_running = run, cr_handled = done, cr_results = rs, cr_firstErr = None, cr_ctx = None\<rparr>"
  let ?z = "[zero_result, zero_result]" and ?a = "\<lparr>ocr_Provider = ''p'', ocr_Raw = ''''\<rparr>" and ?b = "\<lparr>ocr_Provider = ''p'', ocr_Raw = ''x''\<rparr>"
  have "chunk_reachable 2 demo_chunks demo_outcome (?s Launching 0 [] [] ?z)"
    using chunk_start [of 2 demo_chunks demo_outcome None] by (simp add: processChunks_def numeral_2_eq_2)
  then have "chunk_reachable 2 demo_chunks demo_outcome (?s Acquiring 0 [] [] ?z)" by (rule chunk_step) (use len ne in \<open>simp add: chunk_main_def\<close>)
  then have "chunk_reachable 2 demo_chunks demo_outcome (?s Launching 1 [0] [] ?z)" by (rule chunk_step) (use len ne in \<open>simp add: chunk_main_def\<close>)
  then have "chunk_reachable 2 demo_chunks demo_outcome (?s Acquiring 1 [0] [] ?z)" by (rule chunk_step) (use len ne in \<open>simp add: chunk_main_def\<close>)
  then have "chunk_reachable 2 demo_chunks demo_outcome (?s Launching 2 [0, 1] [] ?z)" by (rule chunk_step) (use len ne in \<open>simp add: chunk_main_def\<close>)
  then have r: "chunk_reachable 2 demo_chunks demo_outcome (?s Awaiting 2 [0, 1] [] ?z)" by (rule chunk_step) (use len ne in \<open>simp add: chunk_main_def\<close>)
  from chunk_handled [OF r, of 1] have "chunk_reachable 2 demo_chunks demo_outcome (?s Awaiting 2 [0] [1] [zero_result, ?b])"
    by (simp add: chunk_worker_def demo_outcome_def)
  from chunk_handled [OF this, of 0] have "chunk_reachable 2 demo_chunks demo_outcome (?s Awaiting 2 [] [1, 0] [?a, ?b])"
    by (simp add: chunk_worker_def demo_outcome_def)
  then have "chunk_reachable 2 demo_chunks demo_outcome (?s (Done (Inr [?a, ?b])) 2 [] [1, 0] [?a, ?b])"
    by (rule chunk_step) (simp add: chunk_main_def collect_chunks_def)
  then show ?thesis by (intro exI [of _ "?s (Done (Inr [?a, ?b])) 2 [] [1, 0] [?a, ?b]"]) simp
qed

theorem chunks_in_order_witness:
  "demo_outcome 1 = Inr ([\<lparr>ocr_Provider = ''p'', ocr_Raw = ''''\<rparr>, \<lparr>ocr_Provider = ''p'', ocr_Raw = ''x''\<rparr>] ! 1)"
proof -
  obtain s where "chunk_reachable 2 demo_chunks demo_outcome s" "cr_ctx s = None"
    "cr_phase s = Done (Inr [\<lparr>ocr_Provider = ''p'', ocr_Raw = ''''\<rparr>, \<lparr>ocr_Provider = ''p'', ocr_Raw = ''x''\<rparr>])"
    using demo_chunks_done by blast
  with chunks_in_order [OF this(1)] have "\<forall>i < length demo_chunks. demo_outcome i
      = Inr ([\<lparr>ocr_Provider = ''p'', ocr_Raw = ''''\<rparr>, \<lparr>ocr_Provider = ''p'', ocr_Raw = ''x''\<rparr>] ! i)" by blast
  then have "1 < length demo_chunks \<longrightarrow> demo_outcome 1
      = Inr ([\<lparr>ocr_Provider = ''p'', ocr_Raw = ''''\<rparr>, \<lparr>ocr_Provider = ''p'', ocr_Raw = ''x''\<rparr>] ! 1)" by (rule spec)
  then show ?thesis by simp
qed

text \<open>A call that fails twice and then answers.\<close>

definition demo_handle :: "(string, string, nat) Handler" where
  "demo_handle data n = (if n < 2 then Inl (OProvider ''busy'') else Inr data, n + 1)"

theorem retry_bounded_witness:
  "\<exists>ev. retry_middleware (\<lambda>x. 300000000) (Some (\<lambda>e. True)) [] (log_wait (\<lambda>d n. (None, n))) (log_handle demo_handle) ''d'' (0, []) = (Inr ''d'', (3, ev))
     \<and> int (length (retry_calls ev)) \<le> rc_MaxAttempts (normalize_retry (New_retry [])) \<and> retry_waits ev = [200000000, 300000000]"
proof -
  have cfg: "normalize_retry (New_retry []) = DefaultConfig" by (simp add: New_retry_def normalize_retry_def DefaultConfig_def)
  have n2: "nat 3 - 1 = Suc (Suc 0)" by simp
  have run: "retry_middleware (\<lambda>x. 300000000) (Some (\<lambda>e. True)) [] (log_wait (\<lambda>d n. (None, n))) (log_handle demo_handle) ''d'' (0, [])
    = (Inr ''d'', (3, [RCall (Inl (OProvider ''busy'')), RWait 200000000, RCall (Inl (OProvider ''busy'')), RWait 300000000, RCall (Inr ''d'')]))"
    by (simp add: retry_middleware_def Let_def cfg)
      (simp add: DefaultConfig_def n2 retry_loop.simps log_handle_def log_wait_def demo_handle_def next_backoff_def)
  from retry_bounded [OF run refl] run show ?thesis by auto
qed

text \<open>One worker; the first call is with the provider when the dispatcher is closed, the second one is turned away.\<close>

theorem dispatch_exactly_once_witness:
  "\<exists>d :: string Dispatcher. dispatch_reachable (\<lambda>c. Inr ''out'') d \<and> distinct (dp_calls d) \<and> dp_calls d = [0]
     \<and> dp_callers d = [AwaitingReply, CallReturned (Inl ErrClosed)] \<and> (\<exists>!k. k < length (dp_workers d) \<and> holds (dp_workers d ! k) 0)"
proof -
  let ?o = "\<lambda>c :: nat. Inr ''out'' :: OErr + string"
  let ?d = "\<lambda>cl cs rp ws calls. \<lparr>dp_closed = cl, dp_callers = cs, dp_ctx = replicate (length cs) None, dp_reply = rp, dp_workers = ws, dp_calls = calls\<rparr> :: string Dispatcher"
  have "dispatch_reachable ?o (?d False [] [] [Idle] [])"
    by (rule dispatch_new [of "[Some 1]"]) (simp add: NewDispatcher_def)
  from dispatch_next [OF this called [of _ _ None]] have "dispatch_reachable ?o (?d False [Sending] [None] [Idle] [])"
    by (simp add: dispatch_call_def)
  then have "dispatch_reachable ?o (?d False [AwaitingReply] [None] [Took 0] [])"
    by (rule dispatch_next [OF _ exchanged [of 0 _ 0]]) (simp_all add: take_job_def)
  then have "dispatch_reachable ?o (?d False [AwaitingReply] [None] [Calling 0] [0])"
    by (rule dispatch_next [OF _ working [of 0]]) (simp_all add: worker_steps_def)
  from dispatch_next [OF this called [of _ _ None]] have "dispatch_reachable ?o (?d False [AwaitingReply, Sending] [None, None] [Calling 0] [0])"
    by (simp add: dispatch_call_def)
  from dispatch_next [OF this closing] have "dispatch_reachable ?o (?d True [AwaitingReply, Sending] [None, None] [Calling 0] [0])"
    by (simp add: dispatch_Close_def)
  then have r: "dispatch_reachable ?o (?d True [AwaitingReply, CallReturned (Inl ErrClosed)] [None, None] [Calling 0] [0])"
    by (rule dispatch_next [OF _ handling [of 1]]) (simp_all add: handle_steps_def)
  from dispatch_exactly_once [OF r] have "\<exists>!k. k < length [Calling 0] \<and> holds ([Calling 0] ! k) 0" by force
  with r show ?thesis by (intro exI [of _ "?d True [AwaitingReply, CallReturned (Inl ErrClosed)] [None, None] [Calling 0] [0]"]) simp
qed

text \<open>A call made after the close may still reach a provider, as long as a worker has not exited.\<close>

lemma closed_dispatcher_still_serves:
  "\<exists>d d1 d2 d3 :: string Dispatcher. dispatch_reachable (\<lambda>c. Inr ''out'') d \<and> dp_closed d \<and> dp_callers d = []
     \<and> dispatch_step (\<lambda>c. Inr ''out'') d d1 \<and> dispatch_step (\<lambda>c. Inr ''out'') d1 d2 \<and> dispatch_step (\<lambda>c. Inr ''out'') d2 d3 \<and> dp_calls d3 = [0]"
proof -
  let ?o = "\<lambda>c :: nat. Inr ''out'' :: OErr + string"
  let ?d = "\<lambda>cs ws calls. \<lparr>dp_closed = True, dp_callers = cs, dp_ctx = replicate (length cs) None, dp_reply = replicate (length cs) None,
      dp_workers = ws, dp_calls = calls\<rparr> :: string Dispatcher"
  have n: "dispatch_reachable ?o ((?d [] [Idle] [])\<lparr>dp_closed := False\<rparr>)"
    by (rule dispatch_new [of "[Some 1]"]) (simp add: NewDispatcher_def)
  from dispatch_next [OF n closing] have "dispatch_reachable ?o (?d [] [Idle] [])" by (simp add: dispatch_Close_def)
  moreover have "dispatch_step ?o (?d [] [Idle] []) (?d [Sending] [Idle] [])"
    using called [of ?o "?d [] [Idle] []" None] by (simp add: dispatch_call_def)
  moreover have "dispatch_step ?o (?d [Sending] [Idle] []) (?d [AwaitingReply] [Took 0] [])"
    by (rule exchanged [of 0 _ 0]) (simp_all add: take_job_def)
  moreover have "dispatch_step ?o (?d [AwaitingReply] [Took 0] []) (?d [AwaitingReply] [Calling 0] [0])"
    by (rule working [of 0]) (simp_all add: worker_steps_def)
  ultimately show ?thesis
    by (intro exI [of _ "?d [] [Idle] []"] exI [of _ "?d [Sending] [Idle] []"] exI [of _ "?d [AwaitingReply] [Took 0] []"]
        exI [of _ "?d [AwaitingReply] [Calling 0] [0]"]) simp
qed

end
