(* ===== verification/Memory_Tools.thy ===== *)
theory Memory_Tools
  imports Memory_Recall Agent_State
begin

text \<open>
  \<open>memorykit/agentadapter/tools.go\<close>: the tools that let a model search, read and write project memory,
  the provider that hands them out for a run, and the validator that fails a run whose write failed.

  The store, the recaller, the validator of contents, the clock, the context and the resolver of the
  scope are functions of a world \<open>'w\<close>, which every call may change. The codecs of JSON, times and UUIDs
  are fields of \<open>tool_libs\<close>.
\<close>

section \<open>Errors and texts\<close>

text \<open>An error of a dependency or a tool: an error of the kit, of a context, of a backend, an invalid result, or another one with the errors it wraps.\<close>

datatype ToolErr =
    TMem MemError
  | TCtx ctx_error
  | TBackend string bool ToolErr
  | TInvalidResult
  | TWriteFailed
  | TOther string "ToolErr list"

fun tool_tree :: "ToolErr \<Rightarrow> ToolErr list" where
  "tool_tree (TBackend op recoverable e) = TBackend op recoverable e # tool_tree e"
| "tool_tree (TOther t es) = TOther t es # concat (map tool_tree es)"
| "tool_tree e = [e]"

definition is_not_found :: "ToolErr \<Rightarrow> bool" where
  "is_not_found e \<longleftrightarrow> TMem ErrNotFound \<in> set (tool_tree e)"

definition is_write_conflict :: "ToolErr \<Rightarrow> bool" where
  "is_write_conflict e \<longleftrightarrow> list_ex (\<lambda>x. case x of TMem (ErrConflict _) \<Rightarrow> True | _ \<Rightarrow> False) (tool_tree e)"

definition is_ctx :: "ctx_error \<Rightarrow> ToolErr \<Rightarrow> bool" where
  "is_ctx c e \<longleftrightarrow> TCtx c \<in> set (tool_tree e) \<or> TMem (MemCtx c) \<in> set (tool_tree e)"

definition tool_recoverable :: "ToolErr \<Rightarrow> bool" where
  "tool_recoverable e \<longleftrightarrow> (case List.find (\<lambda>x. case x of TBackend _ _ _ \<Rightarrow> True | _ \<Rightarrow> False) (tool_tree e) of
      Some (TBackend op recoverable inner) \<Rightarrow> recoverable
    | _ \<Rightarrow> False)"

definition utf8_text :: "nat list \<Rightarrow> string" where
  "utf8_text bytes = map char_of bytes"

definition not_saved_text :: string where
  "not_saved_text = utf8_text [233, 161, 185, 231, 155, 174, 232, 174, 176, 229, 191, 134, 230, 156, 170, 228, 191, 157, 229, 173, 152]"

definition saved_text :: string where
  "saved_text = utf8_text [233, 161, 185, 231, 155, 174, 232, 174, 176, 229, 191, 134, 229, 183, 178, 228, 191, 157, 229, 173, 152]"

definition submitted_text :: string where
  "submitted_text = utf8_text [233, 161, 185, 231, 155, 174, 232, 174, 176, 229, 191, 134, 229, 183, 178, 230, 143, 144, 228, 186, 164,
     229, 174, 161, 230, 160, 184]"

definition not_found_text :: string where
  "not_found_text = utf8_text [230, 156, 170, 230, 137, 190, 229, 136, 176, 233, 161, 185, 231, 155, 174, 232, 174, 176, 229, 191, 134]"

definition unreadable_text :: string where
  "unreadable_text = utf8_text [233, 161, 185, 231, 155, 174, 232, 174, 176, 229, 191, 134, 230, 154, 130, 230, 151, 182, 230, 151, 160,
     230, 179, 149, 232, 175, 187, 229, 143, 150]"

abbreviation write_failed_key :: string where "write_failed_key \<equiv> ''memorykit.agentadapter.write_failed''"
abbreviation agentWriteKeyPrefix :: string where "agentWriteKeyPrefix \<equiv> ''agent-write:''"

section \<open>Inputs, outputs and dependencies\<close>

record search_input =
  si_Query :: string
  si_Key :: string
  si_Kinds :: "Kind list"

record write_input =
  wi_Kind :: Kind
  wi_Key :: string
  wi_Content :: string
  wi_ValidUntil :: string
  wi_Reason :: string

record toolRecord =
  rec_ID :: string
  rec_Kind :: Kind
  rec_Key :: string
  rec_Content :: string
  rec_SourceRefs :: "string list"

record readToolRecord = toolRecord +
  rec_Found :: bool
  rec_Version :: int

record savedRecord =
  sv_ID :: string
  sv_Version :: int
  sv_Status :: string
  sv_Note :: string

text \<open>
  The strict decoders of the inputs (unknown fields and trailing data are refused), the encoders of the
  outputs, \<open>time.Parse\<close>, the canonical JSON of a write, \<open>uuid.NewSHA1\<close>, and the text of a run's ID.
\<close>

record tool_libs =
  tb_mem :: mem_libs
  tb_search_input :: "string \<Rightarrow> search_input option"
  tb_read_input :: "string \<Rightarrow> string option"
  tb_write_input :: "string \<Rightarrow> write_input option"
  tb_records_json :: "toolRecord list \<Rightarrow> string option"
  tb_read_json :: "readToolRecord \<Rightarrow> string option"
  tb_saved_json :: "savedRecord \<Rightarrow> string option"
  tb_parse_time :: "string \<Rightarrow> time option"
  tb_write_json :: "Kind \<Rightarrow> string \<Rightarrow> string \<Rightarrow> time option \<Rightarrow> string \<Rightarrow> string option"
  tb_sha1uuid :: "RunID \<Rightarrow> string \<Rightarrow> string"
  tb_run_string :: "RunID \<Rightarrow> string"

record 'w ToolProvider =
  tp_create :: "CreateRequest \<Rightarrow> 'w \<Rightarrow> (ToolErr + Memory) \<times> 'w"
  tp_get :: "Scope \<Rightarrow> string \<Rightarrow> 'w \<Rightarrow> (ToolErr + Memory) \<times> 'w"
  tp_sources :: "Scope \<Rightarrow> string \<Rightarrow> 'w \<Rightarrow> (ToolErr + Source list) \<times> 'w"
  tp_list :: "ListQuery \<Rightarrow> 'w \<Rightarrow> (ToolErr + Memory list) \<times> 'w"
  tp_recall :: "RecallRequest \<Rightarrow> 'w \<Rightarrow> (ToolErr + RecallResult) \<times> 'w"
  tp_resolve :: "metadata option \<Rightarrow> ToolErr + Scope"
  tp_allow :: "RunRequest \<Rightarrow> bool"
  tp_content :: "string \<Rightarrow> 'w \<Rightarrow> ToolErr option \<times> 'w"
  tp_now :: "'w \<Rightarrow> time \<times> 'w"
  tp_ctx :: "'w \<Rightarrow> ctx"
  tp_limits :: Limits

definition NewToolProvider :: "'w ToolProvider \<Rightarrow> ToolErr + 'w ToolProvider" where
  "NewToolProvider tp = (case Limits_Validate (tp_limits tp) of Some e \<Rightarrow> Inl (TMem e) | None \<Rightarrow> Inr tp)"

definition invalid_memory :: "string \<Rightarrow> ToolErr" where
  "invalid_memory t = TMem (ErrInvalidMemory t)"

definition answer_result :: "string \<Rightarrow> string \<Rightarrow> bool \<Rightarrow> ToolResult" where
  "answer_result for_llm for_user is_error =
     \<lparr>tr_ForLLM = for_llm, tr_ForUser = for_user, tr_Silent = False, tr_IsError = is_error, tr_Ref = '''', tr_Metadata = []\<rparr>"

definition memoryNotFound :: ToolResult where
  "memoryNotFound = answer_result (''{'' @ [CHR 0x22] @ ''found'' @ [CHR 0x22] @ '':false}'') not_found_text False"

definition memoryReadFailure :: ToolResult where
  "memoryReadFailure = answer_result unreadable_text unreadable_text True"

definition canonicalContextError :: "'w ToolProvider \<Rightarrow> ToolErr option \<Rightarrow> 'w \<Rightarrow> ToolErr option" where
  "canonicalContextError tp err w = (case tp_ctx tp w of
      Some e \<Rightarrow> Some (TCtx e)
    | None \<Rightarrow> (case err of
        None \<Rightarrow> None
      | Some e \<Rightarrow> if is_ctx Canceled e then Some (TCtx Canceled)
                 else if is_ctx DeadlineExceeded e then Some (TCtx DeadlineExceeded) else None))"

text \<open>The result of a call of the store, after the check for a context error.\<close>

definition settled :: "'w ToolProvider \<Rightarrow> (ToolErr + 'a) \<times> 'w \<Rightarrow> (ToolErr + (ToolErr + 'a)) \<times> 'w" where
  "settled tp rw = (case rw of (r, w) \<Rightarrow>
     (case canonicalContextError tp (case r of Inl e \<Rightarrow> Some e | Inr _ \<Rightarrow> None) w of
        Some e \<Rightarrow> (Inl e, w)
      | None \<Rightarrow> (Inr r, w)))"

section \<open>Validation of stored memories\<close>

definition stored_request :: "Memory \<Rightarrow> Source list \<Rightarrow> CreateRequest" where
  "stored_request m sources =
     \<lparr>crq_ID = mem_ID m, crq_Scope = mem_Scope m, crq_Kind = mem_Kind m, crq_Key = mem_Key m, crq_Status = mem_Status m,
      crq_Content = mem_Content m, crq_ValidFrom = mem_ValidFrom m, crq_ValidUntil = mem_ValidUntil m,
      crq_Importance = mem_Importance m, crq_Confidence = mem_Confidence m, crq_SourceAgentID = mem_SourceAgentID m,
      crq_Actor = mem_CreatedBy m, crq_Reason = '''', crq_IdempotencyKey = mem_IdempotencyKey m, crq_Sources = sources, crq_Now = 0\<rparr>"

definition validateStoredMemory :: "mem_libs \<Rightarrow> Memory \<Rightarrow> Source list \<Rightarrow> Limits \<Rightarrow> ToolErr option" where
  "validateStoredMemory L m sources limits =
     (if mem_Version m \<le> 0 then Some TInvalidResult
      else case ValidateCreateRequest L (stored_request m sources) limits of
        Some e \<Rightarrow> Some TInvalidResult
      | None \<Rightarrow> None)"

definition validateReadMemorySnapshot :: "mem_libs \<Rightarrow> Memory \<Rightarrow> string \<Rightarrow> Scope \<Rightarrow> Limits \<Rightarrow> ToolErr option" where
  "validateReadMemorySnapshot L m expectedID scope limits =
     (if mem_ID m \<noteq> expectedID \<or> mem_Scope m \<noteq> scope then Some TInvalidResult
      else validateStoredMemory L (if mem_Status m = StatusInactive \<and> mem_Content m = '''' then m\<lparr>mem_Content := ''x''\<rparr> else m) [] limits)"

definition effectiveMemory :: "Memory \<Rightarrow> time \<Rightarrow> bool" where
  "effectiveMemory m now \<longleftrightarrow> mem_Status m = StatusActive \<and> \<not> now < mem_ValidFrom m \<and> (mem_ValidUntil m = 0 \<or> now < mem_ValidUntil m)"

fun tool_source_refs :: "string list \<Rightarrow> Source list \<Rightarrow> ToolErr + string list" where
  "tool_source_refs refs [] = Inr (sort_by (\<lambda>a b. a < b) refs)"
| "tool_source_refs refs (s # ss) =
     (if TrimSpace (src_Ref s) = '''' then Inl TInvalidResult
      else if src_Ref s \<in> set refs then tool_source_refs refs ss
      else tool_source_refs (refs @ [src_Ref s]) ss)"

definition sourceRefs :: "Source list \<Rightarrow> ToolErr + string list" where
  "sourceRefs sources = tool_source_refs [] sources"

fun records_from :: "mem_libs \<Rightarrow> Scope \<Rightarrow> time \<Rightarrow> Limits \<Rightarrow> RecallItem list \<Rightarrow> ToolErr + toolRecord list" where
  "records_from L scope now limits [] = Inr []"
| "records_from L scope now limits (item # items) =
     (let m = ri_Memory item
      in if mem_Scope m \<noteq> scope \<or> \<not> effectiveMemory m now then Inl TInvalidResult
         else case validateStoredMemory L m (ri_Sources item) limits of
           Some e \<Rightarrow> Inl e
         | None \<Rightarrow> (case sourceRefs (ri_Sources item) of
             Inl e \<Rightarrow> Inl e
           | Inr refs \<Rightarrow> (case records_from L scope now limits items of
               Inl e \<Rightarrow> Inl e
             | Inr rs \<Rightarrow> Inr (\<lparr>rec_ID = mem_ID m, rec_Kind = mem_Kind m, rec_Key = mem_Key m, rec_Content = mem_Content m,
                              rec_SourceRefs = refs\<rparr> # rs))))"

definition recallToolRecords :: "mem_libs \<Rightarrow> RecallItem list \<Rightarrow> Scope \<Rightarrow> time \<Rightarrow> Limits \<Rightarrow> ToolErr + toolRecord list" where
  "recallToolRecords L items scope now limits =
     (if int (length items) > lim_MaxListItems limits then Inl TInvalidResult else records_from L scope now limits items)"

section \<open>Searching and reading\<close>

abbreviation zero_clock :: ToolErr where
  "zero_clock \<equiv> invalid_memory ''memory tool clock returned zero time''"

definition search_memory :: "tool_libs \<Rightarrow> 'w ToolProvider \<Rightarrow> Scope \<Rightarrow> string \<Rightarrow> 'w \<Rightarrow> (ToolErr + ToolResult) \<times> 'w" where
  "search_memory T tp scope input w = (case tb_search_input T input of
      None \<Rightarrow> (Inl (invalid_memory ''invalid tool input''), w)
    | Some parsed \<Rightarrow>
        if \<not> list_all Kind_IsValid (si_Kinds parsed) then (Inl (invalid_memory ''invalid search kind''), w)
        else (case tp_now tp w of (now, w) \<Rightarrow>
          if now = 0 then (Inl zero_clock, w)
          else (case tp_recall tp \<lparr>rr_Scope = scope, rr_Text = si_Query parsed,
                  rr_Keys = (if si_Key parsed \<noteq> '''' then [si_Key parsed] else []), rr_Kinds = si_Kinds parsed, rr_Now = now\<rparr> w of
              (Inl e, w) \<Rightarrow> (if tool_recoverable e then (Inr memoryReadFailure, w) else (Inl e, w))
            | (Inr result, w) \<Rightarrow>
                (case recallToolRecords (tb_mem T) (rs_Items result) scope now (tp_limits tp) of
                   Inl e \<Rightarrow> (Inl e, w)
                 | Inr records \<Rightarrow> (case tb_records_json T records of
                     None \<Rightarrow> (Inl TInvalidResult, w)
                   | Some encoded \<Rightarrow> (Inr (answer_result encoded '''' False), w))))))"

text \<open>A read of the store: the record, the answer for a missing or unreadable one, or an error.\<close>

definition read_answer :: "ToolErr \<Rightarrow> ToolErr + ToolResult" where
  "read_answer e = (if is_not_found e then Inr memoryNotFound else if tool_recoverable e then Inr memoryReadFailure else Inl e)"

definition memory_differs :: "Memory \<Rightarrow> Memory \<Rightarrow> bool" where
  "memory_differs a b \<longleftrightarrow> a \<noteq> b \<or> mem_Confidence a = None"

definition read_record :: "Memory \<Rightarrow> string list \<Rightarrow> readToolRecord" where
  "read_record m refs = \<lparr>rec_ID = mem_ID m, rec_Kind = mem_Kind m, rec_Key = mem_Key m, rec_Content = mem_Content m,
     rec_SourceRefs = refs, rec_Found = True, rec_Version = mem_Version m\<rparr>"

definition read_confirmed ::
  "tool_libs \<Rightarrow> 'w ToolProvider \<Rightarrow> Scope \<Rightarrow> string \<Rightarrow> time \<Rightarrow> Memory \<Rightarrow> Source list \<Rightarrow> 'w \<Rightarrow> (ToolErr + ToolResult) \<times> 'w" where
  "read_confirmed T tp scope i now m sources w = (case settled tp (tp_get tp scope i w) of
      (Inl e, w) \<Rightarrow> (Inl e, w)
    | (Inr (Inl e), w) \<Rightarrow> (read_answer e, w)
    | (Inr (Inr confirmed), w) \<Rightarrow>
        (case validateReadMemorySnapshot (tb_mem T) confirmed i scope (tp_limits tp) of
           Some e \<Rightarrow> (Inl e, w)
         | None \<Rightarrow>
             if \<not> effectiveMemory confirmed now \<or> memory_differs confirmed m then (Inr memoryNotFound, w)
             else (case validateStoredMemory (tb_mem T) confirmed sources (tp_limits tp) of
                 Some e \<Rightarrow> (Inl e, w)
               | None \<Rightarrow> (case sourceRefs sources of
                   Inl e \<Rightarrow> (Inl e, w)
                 | Inr refs \<Rightarrow> (case tb_read_json T (read_record confirmed refs) of
                     None \<Rightarrow> (Inl TInvalidResult, w)
                   | Some encoded \<Rightarrow> (Inr (answer_result encoded '''' False), w))))))"

definition read_memory :: "tool_libs \<Rightarrow> 'w ToolProvider \<Rightarrow> Scope \<Rightarrow> string \<Rightarrow> 'w \<Rightarrow> (ToolErr + ToolResult) \<times> 'w" where
  "read_memory T tp scope input w = (case tb_read_input T input of
      None \<Rightarrow> (Inl (invalid_memory ''invalid tool input''), w)
    | Some i \<Rightarrow> (case ValidateMemoryID (tb_mem T) i of
        Some e \<Rightarrow> (Inl (TMem e), w)
      | None \<Rightarrow> (case tp_now tp w of (now, w) \<Rightarrow>
          if now = 0 then (Inl zero_clock, w)
          else (case settled tp (tp_get tp scope i w) of
              (Inl e, w) \<Rightarrow> (Inl e, w)
            | (Inr (Inl e), w) \<Rightarrow> (read_answer e, w)
            | (Inr (Inr m), w) \<Rightarrow>
                (case validateReadMemorySnapshot (tb_mem T) m i scope (tp_limits tp) of
                   Some e \<Rightarrow> (Inl e, w)
                 | None \<Rightarrow>
                     if \<not> effectiveMemory m now then (Inr memoryNotFound, w)
                     else (case settled tp (tp_sources tp scope i w) of
                         (Inl e, w) \<Rightarrow> (Inl e, w)
                       | (Inr (Inl e), w) \<Rightarrow> (read_answer e, w)
                       | (Inr (Inr sources), w) \<Rightarrow> read_confirmed T tp scope i now m sources w))))))"

section \<open>Writing\<close>

text \<open>The metadata of the run is a map the tool may write to; \<open>None\<close> is the nil map.\<close>

type_synonym 'w write_outcome = "((ToolErr + ToolResult) \<times> metadata option) \<times> 'w"

definition memoryWriteFailure :: "metadata option \<Rightarrow> 'w \<Rightarrow> 'w write_outcome" where
  "memoryWriteFailure md w =
     ((Inr (answer_result not_saved_text not_saved_text True), map_option (AList.update write_failed_key (VBool True)) md), w)"

definition memoryWriteSuccess :: "tool_libs \<Rightarrow> Memory \<Rightarrow> ToolErr + ToolResult" where
  "memoryWriteSuccess T m =
     (let candidate = (mem_Status m = StatusCandidate)
      in case tb_saved_json T \<lparr>sv_ID = mem_ID m, sv_Version = mem_Version m, sv_Status = (if candidate then StatusCandidate else ''''),
               sv_Note = (if candidate then ''pending review; the existing reviewed memory for this key stays in effect'' else '''')\<rparr> of
           None \<Rightarrow> Inl TInvalidResult
         | Some encoded \<Rightarrow> Inr (answer_result encoded (if candidate then submitted_text else saved_text) False))"

record writeExpectation =
  we_id :: string
  we_scope :: Scope
  we_kind :: Kind
  we_key :: string
  we_actor :: string
  we_sourceAgentID :: string
  we_idempotencyKey :: string

definition validateReplayMemory :: "mem_libs \<Rightarrow> Memory \<Rightarrow> writeExpectation \<Rightarrow> Limits \<Rightarrow> ToolErr option" where
  "validateReplayMemory L m x limits =
     (if mem_ID m \<noteq> we_id x \<or> mem_Scope m \<noteq> we_scope x \<or> mem_Kind m \<noteq> we_kind x \<or> mem_Key m \<noteq> we_key x
         \<or> mem_CreatedBy m \<noteq> we_actor x \<or> mem_SourceAgentID m \<noteq> we_sourceAgentID x
         \<or> mem_IdempotencyKey m \<noteq> we_idempotencyKey x \<or> TrimSpace (mem_Content m) = ''''
         \<or> (mem_Status m \<noteq> StatusActive \<and> mem_Status m \<noteq> StatusInactive \<and> mem_Status m \<noteq> StatusCandidate)
      then Some TInvalidResult
      else validateStoredMemory L m [] limits)"

definition timeDifference :: "time \<Rightarrow> time \<Rightarrow> int" where
  "timeDifference a b = \<bar>a - b\<bar>"

definition validateInitialWriteMemory :: "mem_libs \<Rightarrow> Memory \<Rightarrow> CreateRequest \<Rightarrow> Limits \<Rightarrow> ToolErr option" where
  "validateInitialWriteMemory L m r limits =
     (if mem_ID m \<noteq> crq_ID r \<or> mem_Scope m \<noteq> crq_Scope r \<or> mem_Kind m \<noteq> crq_Kind r \<or> mem_Key m \<noteq> crq_Key r
         \<or> mem_Status m \<noteq> crq_Status r \<or> mem_Content m \<noteq> crq_Content r \<or> mem_ValidFrom m \<noteq> crq_ValidFrom r
         \<or> mem_ValidUntil m \<noteq> crq_ValidUntil r \<or> mem_Importance m \<noteq> crq_Importance r
         \<or> mem_Confidence m \<noteq> crq_Confidence r \<or> mem_Confidence m = None \<or> mem_SourceAgentID m \<noteq> crq_SourceAgentID r
         \<or> mem_CreatedBy m \<noteq> crq_Actor r \<or> mem_IdempotencyKey m \<noteq> crq_IdempotencyKey r \<or> mem_Version m \<noteq> 1
         \<or> mem_CreatedAt m = 0 \<or> mem_UpdatedAt m = 0 \<or> timeDifference (mem_CreatedAt m) (crq_Now r) > 1000
         \<or> timeDifference (mem_UpdatedAt m) (crq_Now r) > 1000
      then Some TInvalidResult
      else validateStoredMemory L m (crq_Sources r) limits)"

text \<open>A memory that the model wrote and nobody touched since.\<close>

definition own_write :: "Memory \<Rightarrow> bool" where
  "own_write m \<longleftrightarrow> prefix agentWriteKeyPrefix (mem_IdempotencyKey m) \<and> mem_Version m = 1"

definition writeStatus :: "'w ToolProvider \<Rightarrow> Scope \<Rightarrow> Kind \<Rightarrow> string \<Rightarrow> 'w \<Rightarrow> (ToolErr + MemStatus) \<times> 'w" where
  "writeStatus tp scope kind key w =
     (case tp_list tp \<lparr>lq_Scope = scope, lq_Kind = kind, lq_Status = StatusActive, lq_Key = key, lq_Limit = 1\<rparr> w of
        (Inl e, w) \<Rightarrow> (Inl e, w)
      | (Inr existing, w) \<Rightarrow> (Inr (if list_all own_write existing then StatusActive else StatusCandidate), w))"

text \<open>The identity of a write: the digest of its canonical form, under the run.\<close>

definition write_id :: "tool_libs \<Rightarrow> RunID \<Rightarrow> string \<Rightarrow> string" where
  "write_id T runID canonical = tb_sha1uuid T runID (ml_sha256 (tb_mem T) canonical)"

definition write_key :: "tool_libs \<Rightarrow> RunID \<Rightarrow> string \<Rightarrow> string" where
  "write_key T runID canonical =
     agentWriteKeyPrefix @ tb_run_string T runID @ '':'' @ ml_hex (tb_mem T) (ml_sha256 (tb_mem T) canonical)"

definition write_expectation :: "tool_libs \<Rightarrow> Scope \<Rightarrow> string \<Rightarrow> RunID \<Rightarrow> write_input \<Rightarrow> string \<Rightarrow> writeExpectation" where
  "write_expectation T scope actor runID parsed canonical =
     \<lparr>we_id = write_id T runID canonical, we_scope = scope, we_kind = wi_Kind parsed, we_key = wi_Key parsed, we_actor = actor,
      we_sourceAgentID = tb_run_string T runID, we_idempotencyKey = write_key T runID canonical\<rparr>"

definition write_request ::
  "tool_libs \<Rightarrow> Scope \<Rightarrow> string \<Rightarrow> RunID \<Rightarrow> write_input \<Rightarrow> string \<Rightarrow> MemStatus \<Rightarrow> time option \<Rightarrow> time \<Rightarrow> CreateRequest" where
  "write_request T scope actor runID parsed canonical status validUntil now =
     \<lparr>crq_ID = write_id T runID canonical, crq_Scope = scope, crq_Kind = wi_Kind parsed, crq_Key = wi_Key parsed,
      crq_Status = status, crq_Content = wi_Content parsed, crq_ValidFrom = now,
      crq_ValidUntil = (case validUntil of Some t \<Rightarrow> t | None \<Rightarrow> 0), crq_Importance = 0, crq_Confidence = Some 0,
      crq_SourceAgentID = tb_run_string T runID, crq_Actor = actor, crq_Reason = wi_Reason parsed,
      crq_IdempotencyKey = write_key T runID canonical,
      crq_Sources = [\<lparr>src_Kind = ''agent_run'', src_Ref = ''agent-run:'' @ tb_run_string T runID, src_EvidenceHash = ''''\<rparr>],
      crq_Now = now\<rparr>"

definition replayed :: "tool_libs \<Rightarrow> 'w ToolProvider \<Rightarrow> writeExpectation \<Rightarrow> Memory \<Rightarrow> ToolErr + ToolResult" where
  "replayed T tp x existing = (case validateReplayMemory (tb_mem T) existing x (tp_limits tp) of
      Some e \<Rightarrow> Inl e
    | None \<Rightarrow> memoryWriteSuccess T existing)"

definition write_created ::
  "tool_libs \<Rightarrow> 'w ToolProvider \<Rightarrow> writeExpectation \<Rightarrow> CreateRequest \<Rightarrow> metadata option \<Rightarrow> 'w \<Rightarrow> 'w write_outcome" where
  "write_created T tp x request md w = (case settled tp (tp_create tp request w) of
      (Inl e, w) \<Rightarrow> ((Inl e, md), w)
    | (Inr (Inl e), w) \<Rightarrow>
        if is_write_conflict e
        then (case settled tp (tp_get tp (we_scope x) (we_id x) w) of
            (Inl e, w) \<Rightarrow> ((Inl e, md), w)
          | (Inr (Inl e), w) \<Rightarrow> memoryWriteFailure md w
          | (Inr (Inr existing), w) \<Rightarrow> ((replayed T tp x existing, md), w))
        else memoryWriteFailure md w
    | (Inr (Inr created), w) \<Rightarrow>
        (case validateInitialWriteMemory (tb_mem T) created request (tp_limits tp) of
           Some e \<Rightarrow> ((Inl e, md), w)
         | None \<Rightarrow> ((memoryWriteSuccess T created, md), w)))"

definition write_new ::
  "tool_libs \<Rightarrow> 'w ToolProvider \<Rightarrow> Scope \<Rightarrow> string \<Rightarrow> RunID \<Rightarrow> write_input \<Rightarrow> string \<Rightarrow> time option \<Rightarrow> metadata option \<Rightarrow> 'w
    \<Rightarrow> 'w write_outcome" where
  "write_new T tp scope actor runID parsed canonical validUntil md w = (case tp_now tp w of (now, w) \<Rightarrow>
     if now = 0 then ((Inl zero_clock, md), w)
     else if (case validUntil of Some t \<Rightarrow> \<not> t > now | None \<Rightarrow> False)
     then ((Inl (invalid_memory ''valid_until must follow valid_from''), md), w)
     else (case settled tp (writeStatus tp scope (wi_Kind parsed) (wi_Key parsed) w) of
         (Inl e, w) \<Rightarrow> ((Inl e, md), w)
       | (Inr (Inl e), w) \<Rightarrow> memoryWriteFailure md w
       | (Inr (Inr status), w) \<Rightarrow>
           write_created T tp (write_expectation T scope actor runID parsed canonical)
             (write_request T scope actor runID parsed canonical status validUntil now) md w))"

definition write_parsed ::
  "tool_libs \<Rightarrow> 'w ToolProvider \<Rightarrow> Scope \<Rightarrow> string \<Rightarrow> RunID \<Rightarrow> write_input \<Rightarrow> string \<Rightarrow> time option \<Rightarrow> metadata option \<Rightarrow> 'w
    \<Rightarrow> 'w write_outcome" where
  "write_parsed T tp scope actor runID parsed canonical validUntil md w = (case tp_content tp (wi_Content parsed) w of (verdict, w) \<Rightarrow>
     (case canonicalContextError tp verdict w of
        Some e \<Rightarrow> ((Inl e, md), w)
      | None \<Rightarrow>
          if verdict \<noteq> None then memoryWriteFailure md w
          else (case settled tp (tp_get tp scope (write_id T runID canonical) w) of
              (Inl e, w) \<Rightarrow> ((Inl e, md), w)
            | (Inr (Inr existing), w) \<Rightarrow> ((replayed T tp (write_expectation T scope actor runID parsed canonical) existing, md), w)
            | (Inr (Inl e), w) \<Rightarrow>
                if \<not> is_not_found e then memoryWriteFailure md w
                else write_new T tp scope actor runID parsed canonical validUntil md w)))"

definition remember_project_memory ::
  "tool_libs \<Rightarrow> 'w ToolProvider \<Rightarrow> Scope \<Rightarrow> string \<Rightarrow> RunID \<Rightarrow> string \<Rightarrow> metadata option \<Rightarrow> 'w \<Rightarrow> 'w write_outcome" where
  "remember_project_memory T tp scope actor runID input md w = (case tb_write_input T input of
      None \<Rightarrow> ((Inl (invalid_memory ''invalid tool input''), md), w)
    | Some parsed \<Rightarrow>
        if \<not> Kind_IsValid (wi_Kind parsed) then ((Inl (invalid_memory ''invalid memory kind''), md), w)
        else if wi_ValidUntil parsed \<noteq> '''' \<and> tb_parse_time T (wi_ValidUntil parsed) = None
        then ((Inl (invalid_memory ''invalid valid_until''), md), w)
        else
          (let validUntil = (if wi_ValidUntil parsed \<noteq> '''' then tb_parse_time T (wi_ValidUntil parsed) else None)
           in case tb_write_json T (wi_Kind parsed) (wi_Key parsed) (wi_Content parsed) validUntil (wi_Reason parsed) of
                None \<Rightarrow> ((Inl (invalid_memory ''canonicalize memory write''), md), w)
              | Some canonical \<Rightarrow> write_parsed T tp scope actor runID parsed canonical validUntil md w))"

section \<open>The tools of a run\<close>

datatype memory_tool = ReadTool Scope | SearchTool Scope | WriteTool Scope string RunID

fun tool_name :: "memory_tool \<Rightarrow> string" where
  "tool_name (ReadTool scope) = ''read_memory''"
| "tool_name (SearchTool scope) = ''search_memory''"
| "tool_name (WriteTool scope actor runID) = ''remember_project_memory''"

text \<open>
  The copies of the metadata are refused when a value is not plain data. The values of this model other
  than \<open>VOther\<close> are; \<open>plain\<close> tells for the maps, slices and arrays behind \<open>VOther\<close>.
\<close>

definition clonable :: "(nat \<Rightarrow> bool) \<Rightarrow> any \<Rightarrow> bool" where
  "clonable plain v = (case v of VOther n \<Rightarrow> plain n | _ \<Rightarrow> True)"

definition cloneMetadata_checked :: "(nat \<Rightarrow> bool) \<Rightarrow> metadata option \<Rightarrow> ToolErr + metadata option" where
  "cloneMetadata_checked plain md = (case md of
      None \<Rightarrow> Inr None
    | Some m \<Rightarrow> if list_all (\<lambda>(k, v). clonable plain v) m then Inr (Some m) else Inl (invalid_memory ''unsafe projection metadata''))"

definition provider_Tools :: "(nat \<Rightarrow> bool) \<Rightarrow> 'w ToolProvider \<Rightarrow> RunRequest \<Rightarrow> 'w \<Rightarrow> ToolErr + memory_tool list" where
  "provider_Tools plain tp request w = (case tp_ctx tp w of
      Some e \<Rightarrow> Inl (TCtx e)
    | None \<Rightarrow> (case cloneMetadata_checked plain (req_Metadata request) of
        Inl e \<Rightarrow> Inl e
      | Inr md \<Rightarrow> (case tp_resolve tp md of
          Inl e \<Rightarrow> Inl e
        | Inr scope \<Rightarrow> (case Scope_Validate scope of
            Some e \<Rightarrow> Inl (TMem e)
          | None \<Rightarrow>
              (let request = request\<lparr>req_Metadata := md\<rparr>; writeAllowed = tp_allow tp request
               in if writeAllowed \<and> (req_RunID request = 0 \<or> TrimSpace (req_UserID request) = '''')
                  then Inl (invalid_memory ''explicit memory write requires trusted run and user identity'')
                  else Inr ([ReadTool scope, SearchTool scope] @ (if writeAllowed then [WriteTool scope (req_UserID request) (req_RunID request)] else [])))))))"

definition OutputValidator :: "ctx \<Rightarrow> metadata \<Rightarrow> ToolErr option" where
  "OutputValidator ctx md = (case ctx of
      Some e \<Rightarrow> Some (TCtx e)
    | None \<Rightarrow> (case map_of md write_failed_key of
        None \<Rightarrow> None
      | Some v \<Rightarrow> if v = VBool False then None else Some TWriteFailed))"

text \<open>The execution of a tool: the context and the schema first; \<open>schema_ok\<close> is the check of the tool's schema.\<close>

definition tool_Execute ::
  "tool_libs \<Rightarrow> (memory_tool \<Rightarrow> string \<Rightarrow> bool) \<Rightarrow> 'w ToolProvider \<Rightarrow> memory_tool \<Rightarrow> string \<Rightarrow> metadata option \<Rightarrow> 'w \<Rightarrow> 'w write_outcome" where
  "tool_Execute T schema_ok tp t input md w = (case tp_ctx tp w of
      Some e \<Rightarrow> ((Inl (TCtx e), md), w)
    | None \<Rightarrow>
        if \<not> schema_ok t input then ((Inl (invalid_memory (''invalid '' @ tool_name t @ '' input'')), md), w)
        else (case t of
            ReadTool scope \<Rightarrow> (case read_memory T tp scope input w of (r, w) \<Rightarrow> ((r, md), w))
          | SearchTool scope \<Rightarrow> (case search_memory T tp scope input w of (r, w) \<Rightarrow> ((r, md), w))
          | WriteTool scope actor runID \<Rightarrow> remember_project_memory T tp scope actor runID input md w))"

end
