(* ===== verification/Memory_Tools_Laws.thy ===== *)
theory Memory_Tools_Laws
  imports Memory_Tools Memory_Extraction_Laws
begin

text \<open>
  What the memory tools guarantee over the in-memory store: a write of the model never takes effect over
  memory that a person wrote or reviewed unless it races with that person, and a read shows the present
  record of the scope.
\<close>

section \<open>The tools over the in-memory store\<close>

text \<open>The provider over the in-memory store: the other dependencies act on their own part of the world.\<close>

definition store_tools :: "mem_libs \<Rightarrow> (nat \<Rightarrow> ctx) \<Rightarrow> 'x ToolProvider \<Rightarrow> (MemStore \<times> 'x) ToolProvider" where
  "store_tools L sctx tp =
     \<lparr>tp_create = (\<lambda>r w. case mem_Create L sctx r (fst w) of (res, s) \<Rightarrow> (map_sum TMem (\<lambda>m. m) res, (s, snd w))),
      tp_get = (\<lambda>scope i w. (map_sum TMem (\<lambda>m. m) (mem_Get L sctx scope i (fst w)), w)),
      tp_sources = (\<lambda>scope i w. (map_sum TMem (\<lambda>m. m) (mem_Sources L sctx scope i (fst w)), w)),
      tp_list = (\<lambda>q w. (map_sum TMem (\<lambda>m. m) (mem_List sctx q (fst w)), w)),
      tp_recall = (\<lambda>r. lift_snd (tp_recall tp r)), tp_resolve = tp_resolve tp, tp_allow = tp_allow tp,
      tp_content = (\<lambda>c. lift_snd (tp_content tp c)), tp_now = lift_snd (tp_now tp), tp_ctx = (\<lambda>w. tp_ctx tp (snd w)),
      tp_limits = tp_limits tp\<rparr>"

lemma settled_world: "settled tp rw = (a, w') \<Longrightarrow> w' = snd rw"
  by (auto simp: settled_def split: prod.splits option.splits)

lemma settled_result: "settled tp rw = (Inr r, w') \<Longrightarrow> fst rw = r"
  by (auto simp: settled_def split: prod.splits option.splits)

lemma store_tools_keep:
  "fst (snd (tp_now (store_tools L sctx tp) w)) = fst w" "fst (snd (tp_content (store_tools L sctx tp) c w)) = fst w"
  "snd (tp_get (store_tools L sctx tp) scope i w) = w" "snd (tp_list (store_tools L sctx tp) q w) = w"
  "snd (tp_sources (store_tools L sctx tp) scope i w) = w"
  by (simp_all add: store_tools_def)

text \<open>What a write does to the store: at most one create, whose status follows from the list of that store.\<close>

definition status_listed :: "(nat \<Rightarrow> ctx) \<Rightarrow> Scope \<Rightarrow> Kind \<Rightarrow> string \<Rightarrow> MemStore \<Rightarrow> MemStatus \<Rightarrow> bool" where
  "status_listed sctx scope kind key s status \<longleftrightarrow>
     (\<exists>l. mem_List sctx \<lparr>lq_Scope = scope, lq_Kind = kind, lq_Status = StatusActive, lq_Key = key, lq_Limit = 1\<rparr> s = Inr l
        \<and> status = (if list_all own_write l then StatusActive else StatusCandidate))"

lemma writeStatus_listed:
  assumes "writeStatus (store_tools L sctx tp) scope kind key w = (r, w')"
  shows "w' = w" "\<And>status. r = Inr status \<Longrightarrow> status_listed sctx scope kind key (fst w) status"
proof -
  let ?q = "\<lparr>lq_Scope = scope, lq_Kind = kind, lq_Status = StatusActive, lq_Key = key, lq_Limit = 1\<rparr>"
  show "w' = w" using assms by (auto simp: writeStatus_def store_tools_def split: sum.splits)
  show "status_listed sctx scope kind key (fst w) status" if "r = Inr status" for status
    using assms that by (cases "mem_List sctx ?q (fst w)") (auto simp: writeStatus_def store_tools_def status_listed_def)
qed

lemma write_created_effect:
  assumes "write_created T (store_tools L sctx tp) x request md w = (r, w')"
  shows "fst w' = snd (mem_Create L sctx request (fst w))"
proof -
  let ?tp = "store_tools L sctx tp"
  obtain c s1 where c: "mem_Create L sctx request (fst w) = (c, s1)" by (metis surj_pair)
  then have tc: "snd (tp_create ?tp request w) = (s1, snd w)" by (simp add: store_tools_def)
  obtain a w1 where a: "settled ?tp (tp_create ?tp request w) = (a, w1)" by (metis surj_pair)
  with tc settled_world [OF a] have w1: "w1 = (s1, snd w)" by simp
  have "w' = w1"
  proof (cases a)
    case (Inl e)
    with assms a show ?thesis by (simp add: write_created_def)
  next
    case (Inr b)
    show ?thesis
    proof (cases b)
      case (Inl e)
      obtain g w2 where g: "settled ?tp (tp_get ?tp (we_scope x) (we_id x) w1) = (g, w2)" by (metis surj_pair)
      with settled_world [OF g] have "w2 = w1" by (simp add: store_tools_keep)
      with assms a Inr Inl g show ?thesis
        by (auto simp: write_created_def memoryWriteFailure_def split: if_splits sum.splits)
    next
      case (Inr m)
      with assms a \<open>a = Inr b\<close> show ?thesis by (simp add: write_created_def split: option.splits)
    qed
  qed
  with w1 c show ?thesis by simp
qed

lemma write_new_effect:
  assumes "write_new T (store_tools L sctx tp) scope actor runID parsed canonical vu md w = (r, w')"
  shows "fst w' = fst w \<or> (\<exists>status now. status_listed sctx scope (wi_Kind parsed) (wi_Key parsed) (fst w) status
    \<and> fst w' = snd (mem_Create L sctx (write_request T scope actor runID parsed canonical status vu now) (fst w)))"
proof -
  let ?tp = "store_tools L sctx tp"
  obtain now w1 where n: "tp_now ?tp w = (now, w1)" by (metis surj_pair)
  with store_tools_keep(1) [of L sctx tp w] have w1: "fst w1 = fst w" by simp
  obtain st w2 where st: "writeStatus ?tp scope (wi_Kind parsed) (wi_Key parsed) w1 = (st, w2)" by (metis surj_pair)
  have w2: "w2 = w1" by (rule writeStatus_listed(1) [OF st])
  obtain a w3 where a: "settled ?tp (st, w2) = (a, w3)" by (metis surj_pair)
  have w3: "w3 = w2" using settled_world [OF a] by simp
  consider "fst w' = fst w1" | status where "a = Inr (Inr status)" "write_created T ?tp (write_expectation T scope actor runID parsed canonical)
      (write_request T scope actor runID parsed canonical status vu now) md w3 = (r, w')"
    using assms n st a w2 w3 by (auto simp: write_new_def memoryWriteFailure_def split: if_splits sum.splits)
  then show ?thesis
  proof cases
    case 1
    with w1 show ?thesis by simp
  next
    case 2
    have "st = Inr status" using settled_result [of ?tp "(st, w2)" "Inr status" w3] a 2(1) by simp
    from writeStatus_listed(2) [OF st this] write_created_effect [OF 2(2)] w1 w2 w3 show ?thesis by auto
  qed
qed

lemma write_effect:
  assumes "remember_project_memory T (store_tools L sctx tp) scope actor runID input md w = (r, w')"
  shows "fst w' = fst w \<or> (\<exists>parsed canonical vu status now. status_listed sctx scope (wi_Kind parsed) (wi_Key parsed) (fst w) status
    \<and> fst w' = snd (mem_Create L sctx (write_request T scope actor runID parsed canonical status vu now) (fst w)))"
proof -
  let ?tp = "store_tools L sctx tp"
  consider "w' = w" | parsed canonical vu where "write_parsed T ?tp scope actor runID parsed canonical vu md w = (r, w')"
    using assms by (auto simp: remember_project_memory_def Let_def split: option.splits if_splits)
  then show ?thesis
  proof cases
    case 2
    obtain v w1 where v: "tp_content ?tp (wi_Content parsed) w = (v, w1)" by (metis surj_pair)
    with store_tools_keep(2) [of L sctx tp "wi_Content parsed" w] have w1: "fst w1 = fst w" by simp
    obtain g w2 where g: "settled ?tp (tp_get ?tp scope (write_id T runID canonical) w1) = (g, w2)" by (metis surj_pair)
    have w2: "w2 = w1" using settled_world [OF g] by (simp add: store_tools_keep)
    consider "w' = w1" | "write_new T ?tp scope actor runID parsed canonical vu md w1 = (r, w')"
      using 2 v g w2 by (auto simp: write_parsed_def memoryWriteFailure_def split: option.splits if_splits sum.splits)
    then show ?thesis
    proof cases
      case 1
      with w1 show ?thesis by simp
    next
      case 2
      from write_new_effect [OF this] w1 show ?thesis by metis
    qed
  qed simp
qed

text \<open>The status of a write is active only when the rival it would supersede is an untouched write of a model.\<close>

lemma listed_rival_own:
  assumes "mem_inv s" and "status_listed sctx scope kind key s StatusActive" and "kind \<noteq> ''''" and "key \<noteq> ''''"
    and m: "memory_at s i = Some m" "mem_Status m = StatusActive" "mem_Scope m = scope" "mem_Kind m = kind" "mem_Key m = key"
  shows "own_write m"
proof -
  let ?q = "\<lparr>lq_Scope = scope, lq_Kind = kind, lq_Status = StatusActive, lq_Key = key, lq_Limit = 1\<rparr>"
  let ?f = "filter (list_matches ?q) (map snd (ms_memories s))"
  from assms(2) obtain l where l: "mem_List sctx ?q s = Inr l" "list_all own_write l" by (auto simp: status_listed_def split: if_splits)
  then have lt: "l = take 1 (sort_by newest_first ?f)" by (auto simp: mem_List_def split: option.splits)
  have "(i, m) \<in> set (ms_memories s)" using m(1) by (rule map_of_SomeD)
  then have mem: "m \<in> set ?f" using m by (auto simp: list_matches_def image_iff intro: bexI [of _ "(i, m)"])
  have same: "n = m" if "n \<in> set ?f" for n
  proof -
    from that obtain j where "(j, n) \<in> set (ms_memories s)" "list_matches ?q n" by auto
    moreover have "distinct (map fst (ms_memories s))" using assms(1) by (simp add: mem_inv_def ids_ok_def wf_map_def)
    ultimately have j: "memory_at s j = Some n" "list_matches ?q n" by auto
    with assms(3,4) m have "mem_Status n = StatusActive" "sameConflictKey n m" by (auto simp: list_matches_def sameConflictKey_def)
    with assms(1) j m have "j = i" unfolding mem_inv_def unique_active_def by metis
    with j m show ?thesis by simp
  qed
  from mem have "sort_by newest_first ?f \<noteq> []" using set_sort_by [of newest_first ?f] by (metis empty_iff list.set(1))
  then obtain a as where a: "sort_by newest_first ?f = a # as" by (cases "sort_by newest_first ?f") auto
  then have "a \<in> set ?f" using set_sort_by [of newest_first ?f] by (metis list.set_intros(1))
  with same l(2) lt a show ?thesis by simp
qed

text \<open>Property C34. A write of the model never takes effect over memory that a person wrote, reviewed or corrected: over
  the in-memory store every memory that is not an untouched write of a model is exactly as it was. What
  a write changes is at most one such model write of its scope, which it retires with its content kept,
  and what it adds is one memory of its scope, active or a candidate for review, recorded as a model
  write; the store keeps its invariant.
\<close>

theorem model_write_keeps_reviewed:
  assumes "mem_inv s" and "remember_project_memory T (store_tools L sctx tp) scope actor runID input md (s, x) = (r, (s', x'))"
  shows "mem_inv s'
    \<and> (\<forall>i m. memory_at s i = Some m \<and> \<not> own_write m \<longrightarrow> memory_at s' i = Some m)
    \<and> (\<forall>i m. memory_at s i = Some m \<longrightarrow> memory_at s' i = Some m
         \<or> own_write m \<and> mem_Scope m = scope \<and> (\<exists>now. memory_at s' i = Some (retired now m)))
    \<and> (\<forall>i n. memory_at s i = None \<and> memory_at s' i = Some n \<longrightarrow> mem_Scope n = scope \<and> own_write n
         \<and> mem_Status n \<in> {StatusActive, StatusCandidate})"
proof (cases "s' = s")
  case True
  with assms(1) show ?thesis by auto
next
  case False
  with write_effect [OF assms(2)] obtain parsed canonical vu status now where
    st: "status_listed sctx scope (wi_Kind parsed) (wi_Key parsed) s status"
    and s': "s' = snd (mem_Create L sctx (write_request T scope actor runID parsed canonical status vu now) s)" by auto
  let ?r = "write_request T scope actor runID parsed canonical status vu now"
  obtain res where c: "mem_Create L sctx ?r s = (res, s')" using s' by (metis prod.collapse)
  from create_inserts [OF c False] obtain fp where i: "memory_at s (crq_ID ?r) = None" "s' = insert_memory ?r fp s"
    "ValidateCreateRequest L ?r (ms_limits s) = None" by blast
  have inv: "mem_inv s'" using mem_inv_apply [OF assms(1), of L "OpCreate sctx ?r"] c by simp
  have ids: "ids_ok s" using assms(1) by (simp add: mem_inv_def)
  have rf: "crq_Status ?r = status" "crq_Scope ?r = scope" "crq_Kind ?r = wi_Kind parsed" "crq_Key ?r = wi_Key parsed"
    by (simp_all add: write_request_def)
  have nonempty: "wi_Kind parsed \<noteq> ''''" "wi_Key parsed \<noteq> ''''" using i(3) rf
    by (auto simp: ValidateCreateRequest_def first_error_None check_def validKey_def Kind_IsValid_def split: if_splits)
  have own: "own_write m" if "memory_at s j = Some m" "status = StatusActive" "rival (request_memory ?r) (crq_ID ?r) m" for j m
    using that st rf listed_rival_own [OF assms(1) _ nonempty that(1), of sctx scope]
    by (simp add: rival_def sameConflictKey_def request_memory_def)
  have at: "memory_at s' j = (if j = crq_ID ?r then Some (request_memory ?r)
      else map_option (\<lambda>m. if status = StatusActive \<and> rival (request_memory ?r) (crq_ID ?r) m then retired (crq_Now ?r) m else m) (memory_at s j))" for j
    using make_room_at(1) [OF ids, of ?r j] rf(1) i(2) by (simp add: insert_memory_simps)
  have kept: "memory_at s' j = Some m \<or> own_write m \<and> mem_Scope m = scope \<and> (\<exists>now. memory_at s' j = Some (retired now m))"
    if "memory_at s j = Some m" for j m
  proof -
    have "j \<noteq> crq_ID ?r" using that i(1) by auto
    with at [of j] that own [OF that] rf(2) show ?thesis by (auto simp: rival_def sameConflictKey_def request_memory_def)
  qed
  have new: "mem_Scope n = scope \<and> own_write n \<and> mem_Status n \<in> {StatusActive, StatusCandidate}"
    if "memory_at s j = None" "memory_at s' j = Some n" for j n
  proof -
    from that at [of j] have n: "n = request_memory ?r" by (auto split: if_splits)
    have "status = StatusActive \<or> status = StatusCandidate" using st by (auto simp: status_listed_def split: if_splits)
    with n rf show ?thesis by (auto simp: own_write_def request_memory_def write_request_def write_key_def)
  qed
  from inv kept new show ?thesis by blast
qed

text \<open>
  What a read shows the model is the present record of its scope: over the in-memory store an answer
  that is neither the one for a missing nor for an unreadable memory encodes the memory stored under
  the requested ID, in the tool's scope, active and valid at the time of the clock, with its references.
\<close>

theorem read_shows_effective:
  assumes "read_memory T (store_tools L sctx tp) scope input (s, x) = (Inr a, w')" and "a \<noteq> memoryNotFound" and "a \<noteq> memoryReadFailure"
  shows "\<exists>i m now refs. tb_read_input T input = Some i \<and> memory_at s i = Some m \<and> mem_Scope m = scope \<and> effectiveMemory m now
    \<and> now = fst (tp_now tp x) \<and> sourceRefs (sources_at s i) = Inr refs \<and> tb_read_json T (read_record m refs) = Some (tr_ForLLM a) \<and> fst w' = s"
proof -
  let ?tp = "store_tools L sctx tp"
  from assms(1) obtain i where i: "tb_read_input T input = Some i" by (auto simp: read_memory_def split: option.splits)
  obtain now x1 where n: "tp_now tp x = (now, x1)" by (metis surj_pair)
  then have n1: "tp_now ?tp (s, x) = (now, (s, x1))" by (simp add: store_tools_def lift_snd_def)
  have answer: "read_answer e \<noteq> Inr a" for e using assms(2,3) by (auto simp: read_answer_def)
  obtain g w1 where g: "settled ?tp (tp_get ?tp scope i (s, x1)) = (g, w1)" by (metis surj_pair)
  have w1: "w1 = (s, x1)" using settled_world [OF g] by (simp add: store_tools_keep)
  obtain q w2 where q: "settled ?tp (tp_sources ?tp scope i (s, x1)) = (q, w2)" by (metis surj_pair)
  have w2: "w2 = (s, x1)" using settled_world [OF q] by (simp add: store_tools_keep)
  from assms(1,2) i n1 g w1 q w2 answer obtain m sources where
    m: "g = Inr (Inr m)" "effectiveMemory m now" "q = Inr (Inr sources)" "read_confirmed T ?tp scope i now m sources (s, x1) = (Inr a, w')"
    by (auto simp: read_memory_def split: option.splits if_splits sum.splits)
  have get: "mem_Get L sctx scope i s = Inr m"
    using settled_result [of ?tp "tp_get ?tp scope i (s, x1)" "Inr m" w1] g m(1) by (cases "mem_Get L sctx scope i s") (auto simp: store_tools_def)
  have src: "mem_Sources L sctx scope i s = Inr sources"
    using settled_result [of ?tp "tp_sources ?tp scope i (s, x1)" "Inr sources" w2] q m(3)
    by (cases "mem_Sources L sctx scope i s") (auto simp: store_tools_def)
  from get have at: "memory_at s i = Some m" "mem_Scope m = scope" by (auto simp: mem_Get_def split: option.splits if_splits)
  from src at have refs: "sources = sources_at s i" by (auto simp: mem_Sources_def copySources_def split: option.splits if_splits)
  from m(4) g w1 m(1) assms(2) answer obtain rs where
    "sourceRefs sources = Inr rs" "tb_read_json T (read_record m rs) = Some (tr_ForLLM a)" "w' = (s, x1)"
    by (auto simp: read_confirmed_def answer_result_def split: option.splits if_splits sum.splits)
  with i at m(2) refs n show ?thesis by (intro exI [of _ i] exI [of _ m] exI [of _ now] exI [of _ rs]) auto
qed

text \<open>A write that was carried out is not carried out again: repeated in the same run it leaves the store as it is.\<close>

lemma write_replay_keeps_store:
  assumes "remember_project_memory T (store_tools L sctx tp) scope actor runID input md (s, x) = (r, (s', x'))"
    and "tb_write_input T input = Some parsed"
    and "tb_write_json T (wi_Kind parsed) (wi_Key parsed) (wi_Content parsed)
       (if wi_ValidUntil parsed \<noteq> '''' then tb_parse_time T (wi_ValidUntil parsed) else None) (wi_Reason parsed) = Some canonical"
    and "mem_Get L sctx scope (write_id T runID canonical) s = Inr m"
  shows "s' = s"
proof -
  let ?tp = "store_tools L sctx tp"
  obtain v w1 where v: "tp_content ?tp (wi_Content parsed) (s, x) = (v, w1)" by (metis surj_pair)
  with store_tools_keep(2) [of L sctx tp "wi_Content parsed" "(s, x)"] have w1: "fst w1 = s" by simp
  obtain g w2 where g: "settled ?tp (tp_get ?tp scope (write_id T runID canonical) w1) = (g, w2)" by (metis surj_pair)
  have w2: "w2 = w1" using settled_world [OF g] by (simp add: store_tools_keep)
  have "fst (tp_get ?tp scope (write_id T runID canonical) w1) = Inr m" using assms(4) w1 by (simp add: store_tools_def)
  with g have gr: "g = Inr (Inr m) \<or> (\<exists>e. g = Inl e)" by (auto simp: settled_def split: prod.splits option.splits)
  from assms(1-3) v g w2 gr w1 show ?thesis
    by (auto simp: remember_project_memory_def write_parsed_def memoryWriteFailure_def Let_def split: option.splits if_splits)
qed

text \<open>A write that failed fails the run: the validator of the final output sees its mark.\<close>

lemma write_failure_seen: "OutputValidator None (the (snd (fst (memoryWriteFailure (Some md) w)))) = Some TWriteFailed"
  by (simp add: OutputValidator_def memoryWriteFailure_def)

section \<open>A write beside reviewed memory\<close>

definition demo_write :: write_input where
  "demo_write = \<lparr>wi_Kind = KindFact, wi_Key = ''k'', wi_Content = ''d'', wi_ValidUntil = '''', wi_Reason = ''r''\<rparr>"

definition demo_tool_libs :: tool_libs where
  "demo_tool_libs = \<lparr>tb_mem = demo_mem_libs, tb_search_input = (\<lambda>i. None), tb_read_input = (\<lambda>i. Some i), tb_write_input = (\<lambda>i. Some demo_write),
     tb_records_json = (\<lambda>r. Some ''[]''), tb_read_json = (\<lambda>r. Some (rec_Content r)), tb_saved_json = (\<lambda>r. Some (sv_Status r)), tb_parse_time = (\<lambda>t. None),
     tb_write_json = (\<lambda>k key c t r. Some c), tb_sha1uuid = (\<lambda>run d. ''i''), tb_run_string = (\<lambda>run. ''run'')\<rparr>"

definition demo_tools :: "unit ToolProvider" where
  "demo_tools = \<lparr>tp_create = (\<lambda>r w. (Inl TInvalidResult, w)), tp_get = (\<lambda>sc i w. (Inl TInvalidResult, w)), tp_sources = (\<lambda>sc i w. (Inl TInvalidResult, w)),
     tp_list = (\<lambda>q w. (Inl TInvalidResult, w)), tp_recall = (\<lambda>r w. (Inl TInvalidResult, w)), tp_resolve = (\<lambda>md. Inr (demo_scope ''t'')), tp_allow = (\<lambda>r. True),
     tp_content = (\<lambda>c w. (None, w)), tp_now = (\<lambda>w. (7, w)), tp_ctx = (\<lambda>w. None), tp_limits = demo_x_limits\<rparr>"

abbreviation demo_stored :: "(MemStore \<times> unit) ToolProvider" where
  "demo_stored \<equiv> store_tools demo_mem_libs live_ctx demo_tools"

abbreviation demo_write_request :: "MemStatus \<Rightarrow> CreateRequest" where
  "demo_write_request status \<equiv> write_request demo_tool_libs (demo_scope ''t'') ''u'' 7 demo_write ''d'' status None 7"

lemma demo_write_valid: "ValidateCreateRequest demo_mem_libs (demo_write_request StatusCandidate) demo_x_limits = None"
  "ValidateCreateRequest demo_mem_libs (demo_write_request StatusActive) demo_x_limits = None"
  by (simp_all add: write_request_def write_id_def write_key_def demo_tool_libs_def demo_write_def demo_x_limits_def demo_checks demo_texts)

lemma demo_write_fields:
  "crq_ID (demo_write_request st) = ''i''" "crq_Scope (demo_write_request st) = demo_scope ''t''" "crq_Status (demo_write_request st) = st"
  "crq_IdempotencyKey (demo_write_request st) = ''agent-write:run:'' @ ml_hex demo_mem_libs (ml_sha256 demo_mem_libs ''d'')"
  "createFingerprint demo_mem_libs (demo_write_request st) = Inr ''d''"
  by (simp_all add: write_request_def write_id_def write_key_def demo_tool_libs_def demo_write_def createFingerprint_def demo_mem_libs_def)

lemma demo_stored_fields:
  "tp_now demo_stored w = (7, w)" "tp_content demo_stored c w = (None, w)" "tp_ctx demo_stored w = None" "tp_limits demo_stored = demo_x_limits"
  "tp_get demo_stored sc i w = (map_sum TMem (\<lambda>m. m) (mem_Get demo_mem_libs live_ctx sc i (fst w)), w)"
  by (cases w; simp add: store_tools_def demo_tools_def lift_snd_def)+

lemma demo_settled: "settled demo_stored (Inr a, w) = (Inr (Inr a), w)" "settled demo_stored (Inl (TMem ErrNotFound), w) = (Inr (Inl (TMem ErrNotFound)), w)"
  by (simp_all add: settled_def canonicalContextError_def demo_stored_fields is_ctx_def)

lemma demo_absent: "mem_Get demo_mem_libs live_ctx (demo_scope ''t'') ''i'' demo_x_active = Inl ErrNotFound"
  using demo_x_active_at by (simp add: mem_Get_def validateIdentity_def demo_checks demo_texts)

lemma demo_creates: "mem_Create demo_mem_libs live_ctx (demo_write_request st) demo_x_active
    = (Inr (request_memory (demo_write_request st)), insert_memory (demo_write_request st) ''d'' demo_x_active)"
  if "st = StatusCandidate \<or> st = StatusActive"
proof -
  have v: "ValidateCreateRequest demo_mem_libs (demo_write_request st) (ms_limits demo_x_active) = None"
    using that demo_write_valid demo_x_active_at(3) by auto
  have k: "map_of (ms_creates demo_x_active) (demo_scope ''t'', crq_IdempotencyKey (demo_write_request st)) = None"
    by (simp add: demo_write_fields insert_memory_def Let_def demo_x_store_def demo_mem_store_def put_memory_def put_sources_def
        appendRevisionLocked_def supersedeActiveLocked_def)
  have n: "crq_IdempotencyKey (demo_write_request st) \<noteq> ''''" by (simp add: demo_write_fields)
  show ?thesis using v k n demo_x_active_at(2)
    by (simp add: mem_Create_def create_checked_def Let_def demo_write_fields(1,2,5))
qed

lemma demo_listed: "writeStatus demo_stored (demo_scope ''t'') KindFact ''k'' (demo_x_active, ()) = (Inr StatusCandidate, (demo_x_active, ()))"
proof -
  let ?q = "\<lparr>lq_Scope = demo_scope ''t'', lq_Kind = KindFact, lq_Status = StatusActive, lq_Key = ''k'', lq_Limit = 1\<rparr>"
  have v: "ValidateListQuery ?q (ms_limits demo_x_active) = None"
    using demo_x_active_at(3) by (simp add: ValidateListQuery_def first_error_None demo_checks demo_texts demo_x_limits_def)
  have m: "ms_memories demo_x_active = [(''a'', request_memory (demo_create ''t'' ''a''))]"
    by (simp add: insert_memory_def Let_def demo_x_store_def demo_mem_store_def put_memory_def put_sources_def appendRevisionLocked_def
        supersedeActiveLocked_def)
  have "mem_List live_ctx ?q demo_x_active = Inr [request_memory (demo_create ''t'' ''a'')]"
    using v by (simp add: mem_List_def entry_error_def m list_matches_def sort_by_def) (simp add: request_memory_def demo_create_def)
  moreover have "\<not> own_write (request_memory (demo_create ''t'' ''a''))" by (simp add: own_write_def request_memory_def)
  ultimately show ?thesis by (simp add: writeStatus_def store_tools_def)
qed

lemma demo_initial: "validateInitialWriteMemory demo_mem_libs (request_memory (demo_write_request st)) (demo_write_request st) demo_x_limits = None"
  if "st = StatusCandidate \<or> st = StatusActive"
proof -
  have "ValidateCreateRequest demo_mem_libs (stored_request (request_memory (demo_write_request st)) (crq_Sources (demo_write_request st))) demo_x_limits = None"
    using that by (auto simp: stored_request_def request_memory_def write_request_def write_id_def write_key_def demo_tool_libs_def demo_write_def
        demo_x_limits_def demo_checks demo_texts)
  then show ?thesis
    by (simp add: validateInitialWriteMemory_def validateStoredMemory_def timeDifference_def)
      (simp add: request_memory_def write_request_def timeDifference_def)
qed

lemma demo_remembered:
  "remember_project_memory demo_tool_libs demo_stored (demo_scope ''t'') ''u'' 7 ''{}'' None (demo_x_active, ())
     = ((memoryWriteSuccess demo_tool_libs (request_memory (demo_write_request StatusCandidate)), None),
        (insert_memory (demo_write_request StatusCandidate) ''d'' demo_x_active, ()))"
proof -
  have T: "tb_write_input demo_tool_libs i = Some demo_write" "tb_write_json demo_tool_libs a b c t r = Some c"
    "tb_mem demo_tool_libs = demo_mem_libs" "write_id demo_tool_libs run canonical = ''i''" for i a b c t r run canonical
    by (simp_all add: demo_tool_libs_def write_id_def)
  have W: "wi_Kind demo_write = KindFact" "wi_Key demo_write = ''k''" "wi_Content demo_write = ''d''" "wi_ValidUntil demo_write = ''''" "Kind_IsValid KindFact"
    by (simp_all add: demo_write_def Kind_IsValid_def)
  have nf: "is_not_found (TMem ErrNotFound)" by (simp add: is_not_found_def)
  have create: "tp_create demo_stored (demo_write_request StatusCandidate) (demo_x_active, ())
      = (Inr (request_memory (demo_write_request StatusCandidate)), (insert_memory (demo_write_request StatusCandidate) ''d'' demo_x_active, ()))"
    using demo_creates [of StatusCandidate] by (simp add: store_tools_def)
  have made: "write_created demo_tool_libs demo_stored x (demo_write_request StatusCandidate) None (demo_x_active, ())
      = ((memoryWriteSuccess demo_tool_libs (request_memory (demo_write_request StatusCandidate)), None),
         (insert_memory (demo_write_request StatusCandidate) ''d'' demo_x_active, ()))" for x
    using demo_initial [of StatusCandidate] by (simp only: write_created_def create demo_settled demo_stored_fields T prod.case sum.case) simp
  have new: "write_new demo_tool_libs demo_stored (demo_scope ''t'') ''u'' 7 demo_write ''d'' None None (demo_x_active, ())
      = ((memoryWriteSuccess demo_tool_libs (request_memory (demo_write_request StatusCandidate)), None),
         (insert_memory (demo_write_request StatusCandidate) ''d'' demo_x_active, ()))"
    by (simp only: write_new_def demo_stored_fields W demo_listed demo_settled prod.case sum.case made) simp
  have parsed: "write_parsed demo_tool_libs demo_stored (demo_scope ''t'') ''u'' 7 demo_write ''d'' None None (demo_x_active, ())
      = ((memoryWriteSuccess demo_tool_libs (request_memory (demo_write_request StatusCandidate)), None),
         (insert_memory (demo_write_request StatusCandidate) ''d'' demo_x_active, ()))"
    by (simp add: write_parsed_def demo_stored_fields W T demo_absent demo_settled canonicalContextError_def nf new)
  show ?thesis by (simp add: remember_project_memory_def T W parsed)
qed

theorem model_write_keeps_reviewed_witness:
  "\<exists>r s'. remember_project_memory demo_tool_libs demo_stored (demo_scope ''t'') ''u'' 7 ''{}'' None (demo_x_active, ()) = (r, (s', ()))
     \<and> memory_at s' ''a'' = Some (request_memory (demo_create ''t'' ''a'')) \<and> \<not> own_write (request_memory (demo_create ''t'' ''a''))
     \<and> memory_at s' ''i'' = Some (request_memory (demo_write_request StatusCandidate))"
proof -
  have n: "\<not> own_write (request_memory (demo_create ''t'' ''a''))" by (simp add: own_write_def request_memory_def)
  have i: "memory_at (insert_memory (demo_write_request StatusCandidate) ''d'' demo_x_active) ''i'' = Some (request_memory (demo_write_request StatusCandidate))"
    by (simp add: insert_memory_simps demo_write_fields)
  from model_write_keeps_reviewed [OF demo_x_inv demo_remembered] n demo_x_active_at(1)
  have "memory_at (insert_memory (demo_write_request StatusCandidate) ''d'' demo_x_active) ''a'' = Some (request_memory (demo_create ''t'' ''a''))" by blast
  with i n demo_remembered show ?thesis by blast
qed

theorem read_shows_effective_witness:
  "\<exists>a w'. read_memory demo_tool_libs demo_stored (demo_scope ''t'') ''a'' (demo_x_active, ()) = (Inr a, w') \<and> tr_ForLLM a = ''c''
     \<and> (\<exists>m. memory_at demo_x_active ''a'' = Some m \<and> effectiveMemory m 7)"
proof -
  let ?m = "request_memory (demo_create ''t'' ''a'')"
  have get: "mem_Get demo_mem_libs live_ctx (demo_scope ''t'') ''a'' demo_x_active = Inr ?m"
    using demo_x_active_at(1) by (simp add: mem_Get_def validateIdentity_def demo_checks demo_texts request_memory_def)
  have "sources_at demo_x_active ''a'' = []" by (simp add: insert_memory_simps) (simp add: demo_create_def)
  then have src: "tp_sources demo_stored (demo_scope ''t'') ''a'' (demo_x_active, ()) = (Inr [], (demo_x_active, ()))"
    using demo_x_active_at(1)
    by (simp add: store_tools_def mem_Sources_def validateIdentity_def demo_checks demo_texts request_memory_def copySources_def)
  have stored: "validateStoredMemory demo_mem_libs ?m [] demo_x_limits = None"
    by (simp add: validateStoredMemory_def stored_request_def request_memory_def demo_x_limits_def demo_checks demo_texts)
  have f: "mem_ID ?m = ''a''" "mem_Scope ?m = demo_scope ''t''" "mem_Status ?m = StatusActive" "mem_Content ?m = ''c''" "mem_Confidence ?m = Some 1"
    "effectiveMemory ?m 7" by (simp_all add: request_memory_def effectiveMemory_def demo_create_def)
  have snap: "validateReadMemorySnapshot demo_mem_libs ?m ''a'' (demo_scope ''t'') demo_x_limits = None"
    using stored f by (simp add: validateReadMemorySnapshot_def)
  have T: "tb_read_input demo_tool_libs ''a'' = Some ''a''" "tb_mem demo_tool_libs = demo_mem_libs" "tb_read_json demo_tool_libs r = Some (rec_Content r)" for r
    by (simp_all add: demo_tool_libs_def)
  have conf: "read_confirmed demo_tool_libs demo_stored (demo_scope ''t'') ''a'' 7 ?m [] (demo_x_active, ())
      = (Inr (answer_result ''c'' '''' False), (demo_x_active, ()))"
    using snap stored f
    by (simp add: read_confirmed_def demo_stored_fields get demo_settled T memory_differs_def sourceRefs_def sort_by_def read_record_def)
  have id: "ValidateMemoryID demo_mem_libs ''a'' = None" by (simp add: demo_checks demo_texts)
  have run: "read_memory demo_tool_libs demo_stored (demo_scope ''t'') ''a'' (demo_x_active, ()) = (Inr (answer_result ''c'' '''' False), (demo_x_active, ()))"
    using snap f by (simp add: read_memory_def T id demo_stored_fields get demo_settled src conf)
  have ne: "answer_result ''c'' '''' False \<noteq> memoryNotFound" "answer_result ''c'' '''' False \<noteq> memoryReadFailure"
    by (simp_all add: answer_result_def memoryNotFound_def memoryReadFailure_def)
  from read_shows_effective [OF run ne] run show ?thesis
    by (auto simp: demo_tools_def answer_result_def T(1))
qed





end
