(* ===== verification/Memory_Projection_Laws.thy ===== *)
theory Memory_Projection_Laws
  imports Memory_Projection Memory_Extraction_Laws
begin

text \<open>
  What a projection may say about memory, where it places the recalled records, and which drafts of a
  model an extraction accepts.
\<close>

section \<open>What a projection may say about memory\<close>














section \<open>A forged request\<close>






section \<open>The drafts of a model\<close>

text \<open>
  Whatever the model answers, the drafts an extraction returns are at most the configured number, every
  one valid as a candidate, and dated: one without a start is valid from the creation of its job, the
  same on every retry.
\<close>

theorem extracted_drafts_valid:
  assumes "Extract L je r w = (Inr drafts, w')"
  shows "int (length drafts) \<le> je_maxCandidates je \<and> (\<forall>d \<in> set drafts. ValidateCandidateDraft L d (je_limits je) = None \<and> dr_ValidFrom d \<noteq> 0)"
proof -
  from assms have v: "validateExtractionRequest r (je_limits je) = None" by (auto simp: Extract_def split: option.splits if_splits)
  then have now: "xr_Now r \<noteq> 0" by (auto simp: validateExtractionRequest_def first_error_None check_def split: if_splits)
  from assms obtain content where "accepted_drafts L je (xr_Now r) content = Inr drafts"
    by (auto simp: Extract_def split: option.splits if_splits prod.splits sum.splits)
  with now show ?thesis
    by (auto simp: accepted_drafts_def default_from_def list_all_iff Let_def split: option.splits if_splits)
qed

definition demo_extractor :: "unit JSONCandidateExtractor" where
  "demo_extractor = \<lparr>je_chat = (\<lambda>s u w. (Inr (Some (''{}'', 0)), w)), je_ctx = (\<lambda>w. None), je_limits = demo_limits, je_maxCandidates = 2,
     je_json_text = (\<lambda>t. Some t), je_parse = (\<lambda>c. Some (JObj [(''candidates'', JArr [JObj [(''key'', JAtom ''k'')]])])), je_decode = (\<lambda>c. Some [demo_draft\<lparr>dr_ValidFrom := 0\<rparr>])\<rparr>"

theorem extracted_drafts_valid_witness:
  "\<exists>drafts. Extract demo_mem_libs demo_extractor \<lparr>xr_Scope = demo_scope ''t'', xr_Source = \<lparr>src_Kind = ''k'', src_Ref = ''r'', src_EvidenceHash = ''''\<rparr>,
      xr_SourceAgentID = ''a'', xr_ExtractorID = ''e'', xr_Text = ''x'', xr_Now = 4\<rparr> () = (Inr drafts, ())
     \<and> length drafts = 1 \<and> (\<forall>d \<in> set drafts. dr_ValidFrom d \<noteq> 0)"
proof -
  let ?r = "\<lparr>xr_Scope = demo_scope ''t'', xr_Source = \<lparr>src_Kind = ''k'', src_Ref = ''r'', src_EvidenceHash = ''''\<rparr>,
      xr_SourceAgentID = ''a'', xr_ExtractorID = ''e'', xr_Text = ''x'', xr_Now = 4\<rparr>"
  have v: "validateExtractionRequest ?r demo_limits = None" "Limits_Validate demo_limits = None"
    by (simp_all add: validateExtractionRequest_def validRequiredExtractionMetadata_def demo_checks demo_texts)
  have d: "ValidateCandidateDraft demo_mem_libs (demo_draft\<lparr>dr_ValidFrom := 4\<rparr>) demo_limits = None"
    by (simp add: ValidateCandidateDraft_def draft_request_def demo_draft_def demo_checks demo_texts)
  have run: "Extract demo_mem_libs demo_extractor ?r () = (Inr [demo_draft\<lparr>dr_ValidFrom := 4\<rparr>], ())"
    using v d by (simp add: Extract_def demo_extractor_def accepted_drafts_def default_from_def extractor_context_error_def
        validateCandidateJSONShape_def draft_keys_def)
  from extracted_drafts_valid [OF run] run show ?thesis by auto
qed

end
