(* ===== verification/Go_Paths.thy ===== *)
theory Go_Paths
  imports GoPrelude "HOL-Library.Sublist"
begin

text \<open>
  The parts of \<open>strings\<close>, \<open>path\<close> and \<open>path/filepath\<close> that the kits use on Unix paths: splitting, cleaning,
  joining and relative paths, and \<open>pathWithin\<close> of \<open>skillkit/catalog.go\<close>, with their laws over the words of a path.
\<close>

section \<open>Strings and paths\<close>

abbreviation NUL :: char where "NUL \<equiv> CHR 0x00"
abbreviation newline :: char where "newline \<equiv> CHR 0x0A"
abbreviation slash :: char where "slash \<equiv> CHR 0x2F"
abbreviation backslash :: char where "backslash \<equiv> CHR 0x5C"

text \<open>\<open>strings.ReplaceAll(text, "\r\n", "\n")\<close>\<close>

fun crlf_to_lf :: "string \<Rightarrow> string" where
  "crlf_to_lf (a # b # s) = (if a = CHR 0x0D \<and> b = newline then newline # crlf_to_lf s else a # crlf_to_lf (b # s))"
| "crlf_to_lf s = s"

text \<open>\<open>strings.Split\<close> with a separator of one byte.\<close>

fun split_char :: "char \<Rightarrow> string \<Rightarrow> string list" where
  "split_char c [] = [[]]"
| "split_char c (x # s) = (if x = c then [] # split_char c s else (case split_char c s of [] \<Rightarrow> [[x]] | l # ls \<Rightarrow> (x # l) # ls))"

text \<open>\<open>path.Clean\<close>, the same as \<open>filepath.Clean\<close> on Unix. The words kept so far are in reverse order.\<close>

fun clean_words :: "bool \<Rightarrow> string list \<Rightarrow> string list \<Rightarrow> string list" where
  "clean_words rooted kept [] = rev kept"
| "clean_words rooted kept (w # ws) =
     (if w = [] \<or> w = ''.'' then clean_words rooted kept ws
      else if w = ''..'' then
        (case kept of
           [] \<Rightarrow> if rooted then clean_words rooted [] ws else clean_words rooted [''..''] ws
         | k # ks \<Rightarrow> if k = ''..'' then clean_words rooted (''..'' # kept) ws else clean_words rooted ks ws)
      else clean_words rooted (w # kept) ws)"

definition path_rooted :: "string \<Rightarrow> bool" where
  "path_rooted p \<longleftrightarrow> prefix [slash] p"

definition path_Clean :: "string \<Rightarrow> string" where
  "path_Clean p =
     (let out = (if path_rooted p then [slash] else []) @ string_join [slash] (clean_words (path_rooted p) [] (split_char slash p))
      in if out = [] then ''.'' else out)"

text \<open>\<open>filepath.Join\<close> of two elements.\<close>

definition path_Join :: "string \<Rightarrow> string \<Rightarrow> string" where
  "path_Join a b =
     (if a = [] \<and> b = [] then []
      else if a = [] then path_Clean b
      else if b = [] then path_Clean a
      else path_Clean (a @ [slash] @ b))"

text \<open>\<open>filepath.Rel\<close> compares the words of the two cleaned paths; \<open>None\<close> is its error.\<close>

fun rel_words :: "string list \<Rightarrow> string list \<Rightarrow> string list option" where
  "rel_words (b # bs) (t # ts) =
     (if b = t then rel_words bs ts
      else if b = ''..'' then None
      else Some (replicate (length (b # bs)) ''..'' @ t # ts))"
| "rel_words bs [] = Some (replicate (length bs) ''..'')"
| "rel_words [] ts = Some ts"

definition path_words :: "string \<Rightarrow> string list" where
  "path_words p = (if p = [slash] then [[]] else split_char slash p)"

definition path_Rel :: "string \<Rightarrow> string \<Rightarrow> string option" where
  "path_Rel base candidate =
     (let b = path_Clean base; t = path_Clean candidate
      in if t = b then Some ''.''
         else let b = (if b = ''.'' then [] else b)
              in if path_rooted b \<noteq> path_rooted t then None
                 else map_option (string_join [slash]) (rel_words (if b = [] then [] else path_words b) (path_words t)))"

definition pathWithin :: "string \<Rightarrow> string \<Rightarrow> bool" where
  "pathWithin base candidate = (case path_Rel base candidate of
      None \<Rightarrow> False
    | Some relative \<Rightarrow> relative \<noteq> ''..'' \<and> \<not> prefix (''..'' @ [slash]) relative)"

section \<open>Laws of paths\<close>

lemma split_char_not_Nil [simp]: "split_char c s \<noteq> []"
  by (cases s) (auto split: list.splits)

lemma split_char_no_sep: "w \<in> set (split_char c s) \<Longrightarrow> c \<notin> set w"
proof (induction s arbitrary: w)
  case Nil
  then show ?case by simp
next
  case (Cons x s)
  obtain l ls where s: "split_char c s = l # ls" by (cases "split_char c s") auto
  with Cons show ?case by (auto split: if_splits)
qed

lemma string_join_Cons: "ws \<noteq> [] \<Longrightarrow> string_join sep (w # ws) = w @ sep @ string_join sep ws"
  by (cases ws) auto

lemma join_split: "string_join [c] (split_char c s) = s"
proof (induction s)
  case Nil
  then show ?case by simp
next
  case (Cons x s)
  obtain l ls where s: "split_char c s = l # ls" by (cases "split_char c s") auto
  with Cons show ?case by (cases ls) (auto simp: string_join_Cons)
qed

lemma split_append_sep: "c \<notin> set w \<Longrightarrow> split_char c (w @ c # s) = w # split_char c s"
  by (induction w) auto

lemma split_char_free: "c \<notin> set w \<Longrightarrow> split_char c w = [w]"
  by (induction w) auto

lemma split_join: "ws \<noteq> [] \<Longrightarrow> (\<And>w. w \<in> set ws \<Longrightarrow> c \<notin> set w) \<Longrightarrow> split_char c (string_join [c] ws) = ws"
proof (induction ws)
  case Nil
  then show ?case by simp
next
  case (Cons w ws)
  show ?case
  proof (cases "ws = []")
    case True
    with Cons.prems show ?thesis by (simp add: split_char_free)
  next
    case False
    have "split_char c (string_join [c] ws) = ws" using Cons False by simp
    with Cons.prems False show ?thesis by (simp add: string_join_Cons split_append_sep)
  qed
qed

lemma split_append: "split_char c (a @ c # b) = split_char c a @ split_char c b"
proof (induction a)
  case Nil
  then show ?case by simp
next
  case (Cons x a)
  then show ?case by (cases "split_char c a") (auto split: list.splits)
qed

text \<open>A word of a path that names an entry of a directory.\<close>

definition plain_word :: "string \<Rightarrow> bool" where
  "plain_word w \<longleftrightarrow> w \<noteq> [] \<and> w \<noteq> ''.'' \<and> w \<noteq> ''..''"

lemma clean_words_plain: "list_all plain_word ws \<Longrightarrow> clean_words rooted kept ws = rev kept @ ws"
  by (induction ws arbitrary: kept) (auto simp: plain_word_def)

lemma clean_words_append_plain:
  "list_all plain_word vs \<Longrightarrow> clean_words rooted kept (ws @ vs) = clean_words rooted kept ws @ vs"
  by (induction rooted kept ws rule: clean_words.induct) (simp_all add: clean_words_plain split: list.splits)

lemma clean_words_rooted: "list_all plain_word kept \<Longrightarrow> list_all plain_word (clean_words True kept ws)"
  by (induction True kept ws rule: clean_words.induct) (auto simp: plain_word_def split: list.splits)

lemma clean_words_sub: "set (clean_words rooted kept ws) \<subseteq> set kept \<union> set ws \<union> {''..''}"
  by (induction rooted kept ws rule: clean_words.induct) (auto split: list.splits if_splits)

text \<open>A cleaned relative path climbs first and descends then.\<close>

lemma clean_words_climbs:
  "list_all plain_word ps \<Longrightarrow> kept = ps @ replicate n ''..'' \<Longrightarrow>
     \<exists>k qs. clean_words False kept ws = replicate k ''..'' @ qs \<and> list_all plain_word qs"
proof (induction ws arbitrary: kept ps n)
  case Nil
  then show ?case by (intro exI [of _ n] exI [of _ "rev ps"]) simp
next
  case (Cons w ws)
  consider "w = [] \<or> w = ''.''" | "w = ''..''" "ps = []" | p qs where "w = ''..''" "ps = p # qs" | "plain_word w"
    by (cases ps) (auto simp: plain_word_def)
  then show ?case
  proof cases
    case 1
    with Cons show ?thesis by auto
  next
    case 2
    have "clean_words False kept (w # ws) = clean_words False ([] @ replicate (Suc n) ''..'') ws"
      using 2 Cons.prems by (cases n) simp_all
    with Cons.IH [of "[]" "[] @ replicate (Suc n) ''..''" "Suc n"] show ?thesis by simp
  next
    case 3
    with Cons.prems have "clean_words False kept (w # ws) = clean_words False (qs @ replicate n ''..'') ws" by (simp add: plain_word_def)
    with Cons.IH [of qs "qs @ replicate n ''..''" n] Cons.prems 3 show ?thesis by simp
  next
    case 4
    with Cons.prems have "clean_words False kept (w # ws) = clean_words False ((w # ps) @ replicate n ''..'') ws" by (simp add: plain_word_def)
    with Cons.IH [of "w # ps" "(w # ps) @ replicate n ''..''" n] Cons.prems 4 show ?thesis by simp
  qed
qed

lemma join_Nil_iff: "list_all (\<lambda>w. w \<noteq> []) ws \<Longrightarrow> string_join sep ws = [] \<longleftrightarrow> ws = []"
  by (cases "(sep, ws)" rule: string_join.cases) auto

lemma clean_no_slash:
  assumes "w \<in> set (clean_words rooted [] (split_char slash p))"
  shows "slash \<notin> set w"
  using assms clean_words_sub [of rooted "[]" "split_char slash p"] split_char_no_sep [of _ slash p] by auto

definition dir_words :: "string \<Rightarrow> string list" where
  "dir_words p = clean_words True [] (split_char slash p)"

lemma dir_words_plain: "list_all plain_word (dir_words p)"
  by (simp add: dir_words_def clean_words_rooted)

lemma dir_words_no_slash: "w \<in> set (dir_words p) \<Longrightarrow> slash \<notin> set w"
  unfolding dir_words_def by (rule clean_no_slash)

lemma rooted_Clean:
  assumes "path_rooted p"
  shows "path_Clean p = slash # string_join [slash] (dir_words p)"
  using assms by (simp add: path_Clean_def dir_words_def)

lemma path_words_Clean:
  assumes "path_rooted p"
  shows "path_words (path_Clean p) = [] # dir_words p"
proof (cases "dir_words p = []")
  case True
  with assms show ?thesis by (simp add: path_words_def rooted_Clean)
next
  case False
  have "list_all (\<lambda>w. w \<noteq> []) (dir_words p)" using dir_words_plain [of p] by (simp add: list_all_iff plain_word_def)
  then have "string_join [slash] (dir_words p) \<noteq> []" using False by (simp add: join_Nil_iff)
  with assms False show ?thesis by (simp add: path_words_def rooted_Clean split_join dir_words_no_slash)
qed

lemma dir_words_Clean: "path_rooted p \<Longrightarrow> dir_words (path_Clean p) = dir_words p"
proof -
  assume p: "path_rooted p"
  have "split_char slash (path_Clean p) = [] # dir_words p \<or> (dir_words p = [] \<and> split_char slash (path_Clean p) = [[], []])"
    using path_words_Clean [OF p] rooted_Clean [OF p] by (cases "path_Clean p = [slash]") (simp_all add: path_words_def)
  then have "clean_words True [] (split_char slash (path_Clean p)) = dir_words p"
    using clean_words_plain [OF dir_words_plain, of True "[]"] by auto
  then show ?thesis by (simp only: dir_words_def [of "path_Clean p"])
qed

lemma rel_words_prefix: "rel_words bs (bs @ ts) = Some ts"
  by (induction bs) (cases ts, simp_all)

lemma rel_words_climbs:
  "\<not> prefix bs ts \<Longrightarrow> ''..'' \<notin> set bs \<Longrightarrow> \<exists>rest. rel_words bs ts = Some (''..'' # rest)"
proof (induction bs ts rule: rel_words.induct)
  case (2 bs)
  then show ?case by (cases bs) auto
qed auto

lemma join_climbs: "string_join [slash] (''..'' # rest) = ''..'' \<or> prefix (''..'' @ [slash]) (string_join [slash] (''..'' # rest))"
  by (cases rest) auto

lemma join_descends:
  assumes "list_all plain_word ws" and "\<And>w. w \<in> set ws \<Longrightarrow> slash \<notin> set w"
  shows "string_join [slash] ws \<noteq> ''..''" and "\<not> prefix (''..'' @ [slash]) (string_join [slash] ws)"
proof -
  have split: "ws \<noteq> [] \<Longrightarrow> split_char slash (string_join [slash] ws) = ws" using assms split_join by blast
  show "string_join [slash] ws \<noteq> ''..''"
  proof
    assume eq: "string_join [slash] ws = ''..''"
    then have "ws \<noteq> []" by auto
    with split eq have "ws = [''..'']" by simp
    with assms show False by (simp add: plain_word_def)
  qed
  show "\<not> prefix (''..'' @ [slash]) (string_join [slash] ws)"
  proof
    assume "prefix (''..'' @ [slash]) (string_join [slash] ws)"
    then obtain x where eq: "string_join [slash] ws = ''..'' @ slash # x" by (auto simp: prefix_def)
    then have "ws \<noteq> []" by auto
    with split eq have "ws = ''..'' # split_char slash x" by simp
    with assms show False by (simp add: plain_word_def)
  qed
qed

text \<open>On absolute paths \<open>pathWithin\<close> is the prefix order of their words.\<close>

lemma within_rooted:
  assumes a: "path_rooted a" and b: "path_rooted b"
  shows "pathWithin a b \<longleftrightarrow> prefix (dir_words a) (dir_words b)"
proof (cases "path_Clean b = path_Clean a")
  case True
  then have "dir_words b = dir_words a" using path_words_Clean [OF a] path_words_Clean [OF b] by simp
  with True show ?thesis by (simp add: pathWithin_def path_Rel_def)
next
  case False
  have rooted: "path_rooted (path_Clean a)" "path_rooted (path_Clean b)" using a b by (simp_all add: rooted_Clean path_rooted_def)
  then have dot: "path_Clean a \<noteq> ''.''" "path_Clean a \<noteq> []" by (auto simp: path_rooted_def)
  have rel: "path_Rel a b = map_option (string_join [slash]) (rel_words (dir_words a) (dir_words b))"
    using False dot rooted by (simp add: path_Rel_def path_words_Clean [OF a] path_words_Clean [OF b])
  show ?thesis
  proof (cases "prefix (dir_words a) (dir_words b)")
    case True
    then obtain ws where ws: "dir_words b = dir_words a @ ws" by (auto simp: prefix_def)
    have "list_all plain_word ws" "\<And>w. w \<in> set ws \<Longrightarrow> slash \<notin> set w"
      using dir_words_plain [of b] dir_words_no_slash [of _ b] ws by simp_all
    from join_descends [OF this] True show ?thesis by (simp add: pathWithin_def rel ws rel_words_prefix)
  next
    case outside: False
    have "''..'' \<notin> set (dir_words a)" using dir_words_plain [of a] by (auto simp: list_all_iff plain_word_def)
    from rel_words_climbs [OF outside this] obtain rest where "rel_words (dir_words a) (dir_words b) = Some (''..'' # rest)" by blast
    with join_climbs [of rest] outside show ?thesis by (simp add: pathWithin_def rel)
  qed
qed

end
