(* ===== verification/Skill_Catalog.thy ===== *)
theory Skill_Catalog
  imports Go_Paths
begin

text \<open>
  \<open>skillkit\<close>: manifests of skills (\<open>manifest.go\<close>), their discovery into a catalog (\<open>catalog.go\<close>), the
  gate of a run (\<open>gate.go\<close>) and activation with its resources (\<open>activation.go\<close>).

  The file system is a function of successive moments, so that it may change between two reads: every
  look at the disk takes one moment. The YAML decoder, the hexadecimal SHA-256 digest and the URL
  functions are fields of \<open>skill_libs\<close>. A pointer to a catalog or an activation is an option, \<open>None\<close> the
  nil pointer. The order in which \<open>range\<close> visits the groups of equal digests is the argument \<open>order\<close>.
\<close>

section \<open>Manifests\<close>

datatype skill_sentinel = ErrInvalidSkillManifest | ErrInvalidSkillResource | ErrSkillNotFound | ErrSkillAmbiguous
  | ErrSkillUnavailable | ErrSkillDigestMismatch

text \<open>A sentinel with the text that wraps it, or the error of a root.\<close>

datatype skill_err = SkErr skill_sentinel string | SkRoot string string

text \<open>What \<open>yaml.Unmarshal\<close> puts into a value of type \<open>any\<close>.\<close>

datatype yaml = YNull | YStr string | YList "yaml list" | YMap "(string \<times> yaml) list" | YOther nat

type_synonym yaml_map = "(string, yaml) gomap"

record Requirements =
  rq_OS :: "string list"
  rq_HostFeatures :: "string list"
  rq_RequiredToolIDs :: "string list"
  rq_OptionalToolIDs :: "string list"

record skill_document =
  sd_Name :: string
  sd_Description :: string
  sd_License :: string
  sd_Metadata :: "yaml_map option"

record Manifest =
  mf_Name :: string
  mf_Description :: string
  mf_License :: string
  mf_Requirements :: Requirements
  mf_Resources :: "string list"
  mf_Metadata :: "yaml_map option"

record skill_url =
  su_Scheme :: string
  su_User :: "(string \<times> string option) option"
  su_Host :: string
  su_Path :: string
  su_RawPath :: string
  su_RawQuery :: string
  su_Fragment :: string

record skill_libs =
  sl_yaml :: "string \<Rightarrow> skill_document option"
  sl_sha256hex :: "string \<Rightarrow> string"
  sl_parse :: "string \<Rightarrow> skill_url option"
  sl_string :: "skill_url \<Rightarrow> string"

definition no_requirements :: Requirements where
  "no_requirements = \<lparr>rq_OS = [], rq_HostFeatures = [], rq_RequiredToolIDs = [], rq_OptionalToolIDs = []\<rparr>"

definition no_manifest :: Manifest where
  "no_manifest = \<lparr>mf_Name = [], mf_Description = [], mf_License = [], mf_Requirements = no_requirements, mf_Resources = [], mf_Metadata = None\<rparr>"

text \<open>The rest of a function after a call that may return an error.\<close>

definition after_ok :: "'e + 'a \<Rightarrow> ('a \<Rightarrow> 'e + 'b) \<Rightarrow> 'e + 'b" where
  "after_ok r f = (case r of Inl e \<Rightarrow> Inl e | Inr x \<Rightarrow> f x)"

text \<open>The lines between the first line \<open>---\<close> and the next one, and the lines after it.\<close>

definition frontmatter_split :: "string \<Rightarrow> string + string list \<times> string list" where
  "frontmatter_split source =
     (case split_char newline (crlf_to_lf source) of
        [] \<Rightarrow> Inl ''frontmatter must start on the first line''
      | l # ls \<Rightarrow>
          if length (l # ls) < 3 \<or> l \<noteq> ''---'' then Inl ''frontmatter must start on the first line''
          else if ''---'' \<notin> set ls then Inl ''frontmatter closing delimiter is required''
          else Inr (takeWhile (\<lambda>x. x \<noteq> ''---'') ls, tl (dropWhile (\<lambda>x. x \<noteq> ''---'') ls)))"

definition frontmatterDocument :: "string \<Rightarrow> string + string" where
  "frontmatterDocument source = after_ok (frontmatter_split source) (\<lambda>(front, body). Inr (string_join [newline] front))"

definition skillBody :: "string \<Rightarrow> skill_err + string" where
  "skillBody source = (case frontmatter_split source of
      Inl problem \<Rightarrow> Inl (SkErr ErrInvalidSkillManifest [])
    | Inr (front, body) \<Rightarrow>
        (let b = string_join [newline] body
         in if TrimSpace b = [] then Inl (SkErr ErrInvalidSkillManifest []) else Inr b))"

definition optionalMetadataMap :: "yaml_map option \<Rightarrow> string \<Rightarrow> skill_err + yaml_map option" where
  "optionalMetadataMap md key = (case md of
      None \<Rightarrow> Inr None
    | Some m \<Rightarrow> (case map_of m key of
        None \<Rightarrow> Inr None
      | Some YNull \<Rightarrow> Inr None
      | Some (YMap x) \<Rightarrow> Inr (Some x)
      | Some _ \<Rightarrow> Inl (SkErr ErrInvalidSkillManifest ''goagents extension map is malformed'')))"

text \<open>The strings of a list, each one non-blank.\<close>

fun nonblank_strings :: "yaml list \<Rightarrow> skill_err + string list" where
  "nonblank_strings [] = Inr []"
| "nonblank_strings (YStr s # items) =
     (if TrimSpace s = [] then Inl (SkErr ErrInvalidSkillManifest ''metadata list must contain non-empty strings'')
      else after_ok (nonblank_strings items) (\<lambda>xs. Inr (s # xs)))"
| "nonblank_strings (_ # items) = Inl (SkErr ErrInvalidSkillManifest ''metadata list must contain non-empty strings'')"

definition optionalResourceList :: "yaml_map option \<Rightarrow> string \<Rightarrow> skill_err + string list" where
  "optionalResourceList md key = (case md of
      None \<Rightarrow> Inr []
    | Some m \<Rightarrow> (case map_of m key of
        None \<Rightarrow> Inr []
      | Some YNull \<Rightarrow> Inr []
      | Some (YList items) \<Rightarrow> nonblank_strings items
      | Some _ \<Rightarrow> Inl (SkErr ErrInvalidSkillManifest ''metadata list is malformed'')))"

text \<open>The same without duplicates and in order.\<close>

definition optionalStringList :: "yaml_map option \<Rightarrow> string \<Rightarrow> skill_err + string list" where
  "optionalStringList md key = after_ok (optionalResourceList md key)
     (\<lambda>xs. Inr (sort_by (<) (fold (\<lambda>x seen. if x \<in> set seen then seen else seen @ [x]) xs [])))"

definition parseGoagentsMetadata :: "yaml_map option \<Rightarrow> skill_err + Requirements \<times> string list" where
  "parseGoagentsMetadata md =
     after_ok (optionalMetadataMap md ''goagents'') (\<lambda>goagents.
       if goagents = None then Inr (no_requirements, [])
       else after_ok (optionalMetadataMap goagents ''requires'') (\<lambda>requirementsMap.
         after_ok (optionalMetadataMap requirementsMap ''tools'') (\<lambda>tools.
         after_ok (optionalMetadataMap goagents ''resources'') (\<lambda>resourcesMap.
         after_ok (optionalStringList requirementsMap ''os'') (\<lambda>os.
         after_ok (optionalStringList requirementsMap ''host_features'') (\<lambda>features.
         after_ok (optionalStringList tools ''required'') (\<lambda>required.
         after_ok (optionalStringList tools ''optional'') (\<lambda>optional.
         after_ok (optionalResourceList resourcesMap ''allow'') (\<lambda>resources.
           Inr (\<lparr>rq_OS = os, rq_HostFeatures = features, rq_RequiredToolIDs = required, rq_OptionalToolIDs = optional\<rparr>, resources))))))))))"

definition validResourcePath :: "string \<Rightarrow> bool" where
  "validResourcePath resource =
     (if resource = [] \<or> backslash \<in> set resource \<or> prefix [slash] resource then False
      else let cleaned = path_Clean resource
           in if cleaned = ''.'' \<or> cleaned = ''..'' \<or> prefix (''..'' @ [slash]) cleaned then False
              else cleaned = resource)"

text \<open>\<open>skillNamePattern\<close>: words of lower case letters and digits, joined by single hyphens.\<close>

definition name_char :: "char \<Rightarrow> bool" where
  "name_char c \<longleftrightarrow> (97 \<le> byte c \<and> byte c \<le> 122) \<or> (48 \<le> byte c \<and> byte c \<le> 57)"

definition skillNamePattern :: "string \<Rightarrow> bool" where
  "skillNamePattern name \<longleftrightarrow> list_all (\<lambda>w. w \<noteq> [] \<and> list_all name_char w) (split_char (CHR ''-'') name)"

fun validate_resources :: "string list \<Rightarrow> string list \<Rightarrow> skill_err option" where
  "validate_resources seen [] = None"
| "validate_resources seen (resource # rest) =
     (if \<not> validResourcePath resource then Some (SkErr ErrInvalidSkillResource ''resource must stay inside its skill'')
      else if resource \<in> set seen then Some (SkErr ErrInvalidSkillResource ''duplicate resource'')
      else validate_resources (resource # seen) rest)"

definition ValidateManifest :: "string \<Rightarrow> Manifest \<Rightarrow> skill_err option" where
  "ValidateManifest directory m =
     (if \<not> skillNamePattern (mf_Name m) \<or> length (mf_Name m) > 64 \<or> mf_Name m \<noteq> directory
      then Some (SkErr ErrInvalidSkillManifest ''name must match directory'')
      else if TrimSpace (mf_Description m) = [] \<or> rune_count (mf_Description m) > 280
      then Some (SkErr ErrInvalidSkillManifest ''description is required and bounded'')
      else validate_resources [] (mf_Resources m))"

definition ParseManifest :: "skill_libs \<Rightarrow> string \<Rightarrow> string \<Rightarrow> skill_err + Manifest" where
  "ParseManifest L directory source = (case frontmatterDocument source of
      Inl problem \<Rightarrow> Inl (SkErr ErrInvalidSkillManifest problem)
    | Inr front \<Rightarrow> (case sl_yaml L front of
        None \<Rightarrow> Inl (SkErr ErrInvalidSkillManifest ''malformed frontmatter'')
      | Some doc \<Rightarrow> after_ok (parseGoagentsMetadata (sd_Metadata doc)) (\<lambda>(requirements, resources).
          let m = \<lparr>mf_Name = sd_Name doc, mf_Description = sd_Description doc, mf_License = sd_License doc,
                   mf_Requirements = requirements, mf_Resources = resources, mf_Metadata = sd_Metadata doc\<rparr>
          in case ValidateManifest directory m of Some e \<Rightarrow> Inl e | None \<Rightarrow> Inr m)))"

section \<open>The file system\<close>

datatype link = NoEntry | LinkError | LinkTo string
datatype file_kind = DirFile | RegularFile | SpecialFile

record FileSys =
  fs_Abs :: "string \<Rightarrow> string option"
  fs_EvalSymlinks :: "string \<Rightarrow> link"
  fs_Stat :: "string \<Rightarrow> file_kind option"
  fs_ReadFile :: "string \<Rightarrow> string option"
  fs_ReadDir :: "string \<Rightarrow> (string \<times> bool) list option"

type_synonym disk = "nat \<Rightarrow> FileSys"

definition canonicalDirectory :: "FileSys \<Rightarrow> string \<Rightarrow> string option" where
  "canonicalDirectory fs directory = (case fs_Abs fs directory of
      None \<Rightarrow> None
    | Some p \<Rightarrow> (case fs_EvalSymlinks fs p of
        LinkTo canonical \<Rightarrow> if fs_Stat fs canonical = Some DirFile then Some canonical else None
      | _ \<Rightarrow> None))"

text \<open>The content, and whether the file exists: a file that is missing, that cannot be used, or its bytes.\<close>

datatype read_result = RMissing | RFailed | RContent string

definition readContainedFile :: "FileSys \<Rightarrow> string \<Rightarrow> string \<Rightarrow> read_result" where
  "readContainedFile fs skillPath relativePath = (case fs_EvalSymlinks fs (path_Join skillPath relativePath) of
      NoEntry \<Rightarrow> RMissing
    | LinkError \<Rightarrow> RFailed
    | LinkTo canonicalPath \<Rightarrow>
        if \<not> pathWithin skillPath canonicalPath then RFailed
        else if fs_Stat fs canonicalPath \<noteq> Some RegularFile then RFailed
        else (case fs_ReadFile fs canonicalPath of None \<Rightarrow> RFailed | Some content \<Rightarrow> RContent content))"

type_synonym digestFile = "string \<times> string"

fun read_resources :: "disk \<Rightarrow> nat \<Rightarrow> string \<Rightarrow> string list \<Rightarrow> digestFile list option \<times> nat" where
  "read_resources disk t skillPath [] = (Some [], t)"
| "read_resources disk t skillPath (resource # rest) =
     (case readContainedFile (disk t) skillPath resource of
        RContent content \<Rightarrow> (case read_resources disk (Suc t) skillPath rest of
            (None, t) \<Rightarrow> (None, t)
          | (Some files, t) \<Rightarrow> (Some ((resource, content) # files), t))
      | _ \<Rightarrow> (None, Suc t))"

definition digest_input :: "digestFile list \<Rightarrow> string" where
  "digest_input files = concat (map (\<lambda>(p, content). p @ [NUL] @ content @ [NUL]) files)"

definition files_digest :: "skill_libs \<Rightarrow> digestFile list \<Rightarrow> string" where
  "files_digest L files = sl_sha256hex L (digest_input (sort_by (\<lambda>a b. fst a < fst b) files))"

definition packageDigest :: "skill_libs \<Rightarrow> disk \<Rightarrow> nat \<Rightarrow> string \<Rightarrow> string \<Rightarrow> string list \<Rightarrow> string option \<times> nat" where
  "packageDigest L disk t skillPath source resources = (case read_resources disk t skillPath resources of
      (None, t) \<Rightarrow> (None, t)
    | (Some files, t) \<Rightarrow> (Some (files_digest L ((''SKILL.md'', source) # files)), t))"

section \<open>The catalog\<close>

datatype RootScope = ScopeBuiltin | ScopeUser | ScopeWorkspace | OtherScope string

record Root =
  rt_ID :: string
  rt_Dir :: string
  rt_Scope :: RootScope
  rt_Trusted :: bool
  rt_Enabled :: bool

record Ref =
  ref_Name :: string
  ref_Digest :: string

datatype EntryState = EntryReady | EntryInvalid | EntryAmbiguous | OtherState string

record Reason =
  rs_Code :: string
  rs_Subject :: string

record Entry =
  en_Ref :: Ref
  en_Manifest :: Manifest
  en_RootID :: string
  en_SourceRootIDs :: "string list"
  en_Scope :: RootScope
  en_Trusted :: bool
  en_State :: EntryState
  en_Reasons :: "Reason list"

record catalogRecord =
  cr_entry :: Entry
  cr_skillPath :: string

type_synonym Catalog = "catalogRecord list option"

abbreviation maxSkillBodyBytes :: nat where "maxSkillBodyBytes \<equiv> 128 * 1024"
abbreviation maxResourceBytes :: nat where "maxResourceBytes \<equiv> 1024 * 1024"

definition validateRoot :: "Root \<Rightarrow> string list \<Rightarrow> skill_err option" where
  "validateRoot r seen =
     (if TrimSpace (rt_ID r) = [] \<or> TrimSpace (rt_Dir r) = [] then Some (SkRoot [] ''skill root id and directory are required'')
      else if rt_ID r \<in> set seen then Some (SkRoot (rt_ID r) ''duplicate skill root id'')
      else case rt_Scope r of OtherScope s \<Rightarrow> Some (SkRoot (rt_ID r) ''invalid scope'') | _ \<Rightarrow> None)"

definition invalidRecord :: "Root \<Rightarrow> string \<Rightarrow> catalogRecord" where
  "invalidRecord r name =
     \<lparr>cr_entry = \<lparr>en_Ref = \<lparr>ref_Name = name, ref_Digest = []\<rparr>, en_Manifest = no_manifest, en_RootID = rt_ID r,
        en_SourceRootIDs = [rt_ID r], en_Scope = rt_Scope r, en_Trusted = rt_Trusted r, en_State = EntryInvalid,
        en_Reasons = [\<lparr>rs_Code = ''invalid_manifest'', rs_Subject = name\<rparr>]\<rparr>,
      cr_skillPath = []\<rparr>"

definition readyRecord :: "Root \<Rightarrow> Manifest \<Rightarrow> string \<Rightarrow> string \<Rightarrow> catalogRecord" where
  "readyRecord r m digest skillPath =
     \<lparr>cr_entry = \<lparr>en_Ref = \<lparr>ref_Name = mf_Name m, ref_Digest = digest\<rparr>, en_Manifest = m, en_RootID = rt_ID r,
        en_SourceRootIDs = [rt_ID r], en_Scope = rt_Scope r, en_Trusted = rt_Trusted r, en_State = EntryReady, en_Reasons = []\<rparr>,
      cr_skillPath = skillPath\<rparr>"

definition discoverSkill :: "skill_libs \<Rightarrow> disk \<Rightarrow> nat \<Rightarrow> string \<Rightarrow> Root \<Rightarrow> string \<Rightarrow> catalogRecord option \<times> nat" where
  "discoverSkill L disk t rootPath r name = (case canonicalDirectory (disk t) (path_Join rootPath name) of
      None \<Rightarrow> (Some (invalidRecord r name), Suc t)
    | Some skillPath \<Rightarrow>
        if \<not> pathWithin rootPath skillPath then (Some (invalidRecord r name), Suc t)
        else (case readContainedFile (disk (Suc t)) skillPath ''SKILL.md'' of
          RMissing \<Rightarrow> (None, Suc (Suc t))
        | RFailed \<Rightarrow> (Some (invalidRecord r name), Suc (Suc t))
        | RContent source \<Rightarrow> (case ParseManifest L name source of
            Inl e \<Rightarrow> (Some (invalidRecord r name), Suc (Suc t))
          | Inr m \<Rightarrow> (case skillBody source of
              Inl e \<Rightarrow> (Some (invalidRecord r name), Suc (Suc t))
            | Inr body \<Rightarrow>
                if length body > maxSkillBodyBytes then (Some (invalidRecord r name), Suc (Suc t))
                else (case packageDigest L disk (Suc (Suc t)) skillPath source (mf_Resources m) of
                  (None, t) \<Rightarrow> (Some (invalidRecord r name), t)
                | (Some digest, t) \<Rightarrow> (Some (readyRecord r m digest skillPath), t))))))"

fun discover_dirs :: "skill_libs \<Rightarrow> disk \<Rightarrow> nat \<Rightarrow> string \<Rightarrow> Root \<Rightarrow> (string \<times> bool) list \<Rightarrow> catalogRecord list \<times> nat" where
  "discover_dirs L disk t rootPath r [] = ([], t)"
| "discover_dirs L disk t rootPath r ((name, isDir) # rest) =
     (if \<not> isDir then discover_dirs L disk t rootPath r rest
      else (case discoverSkill L disk t rootPath r name of
        (found, t) \<Rightarrow> (case discover_dirs L disk t rootPath r rest of
          (records, t) \<Rightarrow> ((case found of None \<Rightarrow> records | Some x \<Rightarrow> x # records), t))))"

fun discover_roots :: "skill_libs \<Rightarrow> disk \<Rightarrow> nat \<Rightarrow> string list \<Rightarrow> Root list \<Rightarrow> (skill_err + catalogRecord list) \<times> nat" where
  "discover_roots L disk t seen [] = (Inr [], t)"
| "discover_roots L disk t seen (r # rest) =
     (if \<not> rt_Enabled r then discover_roots L disk t seen rest
      else (case validateRoot r seen of
        Some e \<Rightarrow> (Inl e, t)
      | None \<Rightarrow> (case canonicalDirectory (disk t) (rt_Dir r) of
          None \<Rightarrow> (Inl (SkRoot (rt_ID r) ''is unavailable''), Suc t)
        | Some canonicalRoot \<Rightarrow> (case fs_ReadDir (disk (Suc t)) canonicalRoot of
            None \<Rightarrow> (Inl (SkRoot (rt_ID r) ''is unavailable''), Suc (Suc t))
          | Some dirs \<Rightarrow> (case discover_dirs L disk (Suc (Suc t)) canonicalRoot r dirs of
              (records, t) \<Rightarrow> (case discover_roots L disk t (rt_ID r # seen) rest of
                (Inl e, t) \<Rightarrow> (Inl e, t)
              | (Inr others, t) \<Rightarrow> (Inr (records @ others), t)))))))"

text \<open>The groups of equal name and digest; \<open>order\<close> is the order in which they are visited.\<close>

abbreviation ready :: "catalogRecord \<Rightarrow> bool" where
  "ready x \<equiv> en_State (cr_entry x) = EntryReady"

definition merge_key :: "catalogRecord \<Rightarrow> string" where
  "merge_key x = ref_Name (en_Ref (cr_entry x)) @ [NUL] @ ref_Digest (en_Ref (cr_entry x))"

definition group_before :: "catalogRecord \<Rightarrow> catalogRecord \<Rightarrow> bool" where
  "group_before a b =
     (if en_Trusted (cr_entry a) \<noteq> en_Trusted (cr_entry b) then en_Trusted (cr_entry a)
      else en_RootID (cr_entry a) < en_RootID (cr_entry b))"

definition merge_group :: "catalogRecord list \<Rightarrow> catalogRecord" where
  "merge_group members =
     (let sorted_group = sort_by group_before members; x = hd sorted_group
      in x\<lparr>cr_entry := (cr_entry x)\<lparr>
            en_SourceRootIDs := sort_by (<) (map (\<lambda>y. en_RootID (cr_entry y)) sorted_group),
            en_Trusted := en_Trusted (cr_entry x) \<or> list_ex (\<lambda>y. en_Trusted (cr_entry y)) sorted_group\<rparr>\<rparr>)"

definition group_of :: "catalogRecord list \<Rightarrow> string \<Rightarrow> catalogRecord list" where
  "group_of records key = filter (\<lambda>x. ready x \<and> merge_key x = key) records"

definition mergeEqualDigests :: "(string list \<Rightarrow> string list) \<Rightarrow> catalogRecord list \<Rightarrow> catalogRecord list" where
  "mergeEqualDigests order records =
     map (\<lambda>key. merge_group (group_of records key)) (order (remdups (map merge_key (filter ready records))))
     @ filter (\<lambda>x. \<not> ready x) records"

definition reason_before :: "Reason \<Rightarrow> Reason \<Rightarrow> bool" where
  "reason_before a b = (if rs_Code a \<noteq> rs_Code b then rs_Code a < rs_Code b else rs_Subject a < rs_Subject b)"

definition sortReasons :: "Reason list \<Rightarrow> Reason list" where
  "sortReasons reasons = sort_by reason_before reasons"

definition ready_digests :: "catalogRecord list \<Rightarrow> string \<Rightarrow> string list" where
  "ready_digests records name =
     remdups (map (\<lambda>x. ref_Digest (en_Ref (cr_entry x))) (filter (\<lambda>x. ready x \<and> ref_Name (en_Ref (cr_entry x)) = name) records))"

definition mark_record :: "catalogRecord list \<Rightarrow> catalogRecord \<Rightarrow> catalogRecord" where
  "mark_record records x =
     (let e = cr_entry x
      in if en_State e \<noteq> EntryReady \<or> length (ready_digests records (ref_Name (en_Ref e))) < 2 then x
         else x\<lparr>cr_entry := e\<lparr>en_State := EntryAmbiguous,
                en_Reasons := sortReasons (en_Reasons e @ [\<lparr>rs_Code = ''duplicate_name'', rs_Subject = ref_Name (en_Ref e)\<rparr>])\<rparr>\<rparr>)"

definition markAmbiguous :: "catalogRecord list \<Rightarrow> catalogRecord list" where
  "markAmbiguous records = map (mark_record records) records"

definition record_before :: "catalogRecord \<Rightarrow> catalogRecord \<Rightarrow> bool" where
  "record_before a b =
     (let x = cr_entry a; y = cr_entry b
      in if ref_Name (en_Ref x) \<noteq> ref_Name (en_Ref y) then ref_Name (en_Ref x) < ref_Name (en_Ref y)
         else if ref_Digest (en_Ref x) \<noteq> ref_Digest (en_Ref y) then ref_Digest (en_Ref x) < ref_Digest (en_Ref y)
         else en_RootID x < en_RootID y)"

definition sortRecords :: "catalogRecord list \<Rightarrow> catalogRecord list" where
  "sortRecords records = sort_by record_before records"

definition Discover :: "skill_libs \<Rightarrow> (string list \<Rightarrow> string list) \<Rightarrow> disk \<Rightarrow> nat \<Rightarrow> Root list \<Rightarrow> (skill_err + Catalog) \<times> nat" where
  "Discover L order disk t roots = (case discover_roots L disk t [] roots of
      (Inl e, t) \<Rightarrow> (Inl e, t)
    | (Inr records, t) \<Rightarrow> (Inr (Some (sortRecords (markAmbiguous (mergeEqualDigests order records)))), t))"

definition catalog_List :: "Catalog \<Rightarrow> Entry list" where
  "catalog_List c = (case c of None \<Rightarrow> [] | Some records \<Rightarrow> map cr_entry records)"

definition Resolve :: "Catalog \<Rightarrow> Ref \<Rightarrow> skill_err + Entry" where
  "Resolve c ref = (case c of
      None \<Rightarrow> Inl (SkErr ErrSkillNotFound [])
    | Some records \<Rightarrow>
        if TrimSpace (ref_Name ref) = [] then Inl (SkErr ErrSkillNotFound [])
        else let matches = filter (\<lambda>e. ref_Name (en_Ref e) = ref_Name ref \<and> (ref_Digest ref \<noteq> [] \<longrightarrow> ref_Digest (en_Ref e) = ref_Digest ref))
                   (map cr_entry records)
             in if matches = [] then Inl (SkErr ErrSkillNotFound [])
                else if list_ex (\<lambda>e. en_State e = EntryAmbiguous) matches then Inl (SkErr ErrSkillAmbiguous [])
                else if ref_Digest ref \<noteq> [] then
                  (case matches of
                     [e] \<Rightarrow> if en_State e = EntryReady then Inr e else Inl (SkErr ErrSkillNotFound [])
                   | _ \<Rightarrow> Inl (SkErr ErrSkillNotFound []))
                else (case filter (\<lambda>e. en_State e = EntryReady) matches of
                     [e] \<Rightarrow> Inr e
                   | _ \<Rightarrow> Inl (SkErr ErrSkillNotFound [])))"

section \<open>The gate\<close>

datatype Availability = AvailabilityEligible | AvailabilityUnavailable | AvailabilityInvalid | AvailabilityAmbiguous

record GateContext =
  gc_OS :: string
  gc_HostFeatures :: "(string, bool) gomap"
  gc_AllowedToolIDs :: "(string, bool) gomap"

record AvailabilityReport =
  av_State :: Availability
  av_Reasons :: "Reason list"

definition gate_reasons :: "Requirements \<Rightarrow> GateContext \<Rightarrow> Reason list" where
  "gate_reasons rq g =
     (if rq_OS rq \<noteq> [] \<and> gc_OS g \<notin> set (rq_OS rq) then [\<lparr>rs_Code = ''unsupported_os'', rs_Subject = gc_OS g\<rparr>] else [])
     @ map (\<lambda>f. \<lparr>rs_Code = ''missing_feature'', rs_Subject = f\<rparr>) (filter (\<lambda>f. map_of (gc_HostFeatures g) f \<noteq> Some True) (rq_HostFeatures rq))
     @ map (\<lambda>i. \<lparr>rs_Code = ''missing_tool'', rs_Subject = i\<rparr>) (filter (\<lambda>i. map_of (gc_AllowedToolIDs g) i \<noteq> Some True) (rq_RequiredToolIDs rq))"

definition Evaluate :: "Entry \<Rightarrow> GateContext \<Rightarrow> AvailabilityReport" where
  "Evaluate entry g = (case en_State entry of
      EntryInvalid \<Rightarrow> \<lparr>av_State = AvailabilityInvalid, av_Reasons = sortReasons (en_Reasons entry)\<rparr>
    | EntryAmbiguous \<Rightarrow> \<lparr>av_State = AvailabilityAmbiguous, av_Reasons = sortReasons (en_Reasons entry)\<rparr>
    | OtherState s \<Rightarrow> \<lparr>av_State = AvailabilityInvalid, av_Reasons = [\<lparr>rs_Code = ''invalid_manifest'', rs_Subject = ref_Name (en_Ref entry)\<rparr>]\<rparr>
    | EntryReady \<Rightarrow>
        if \<not> en_Trusted entry then \<lparr>av_State = AvailabilityUnavailable, av_Reasons = [\<lparr>rs_Code = ''untrusted_root'', rs_Subject = en_RootID entry\<rparr>]\<rparr>
        else let reasons = gate_reasons (mf_Requirements (en_Manifest entry)) g
             in if reasons = [] then \<lparr>av_State = AvailabilityEligible, av_Reasons = []\<rparr>
                else \<lparr>av_State = AvailabilityUnavailable, av_Reasons = sortReasons reasons\<rparr>)"

section \<open>Activation\<close>

record ActivatedSkill =
  as_Ref :: Ref
  as_Name :: string
  as_Description :: string
  as_Content :: string
  as_RequiredToolIDs :: "string list"
  as_OptionalToolIDs :: "string list"

record activationRecord =
  ar_skill :: ActivatedSkill
  ar_record :: catalogRecord

type_synonym Activation = "activationRecord list option"

record ActivationRequest =
  aq_Skills :: "Ref list"
  aq_GateContext :: GateContext

definition catalog_record :: "Catalog \<Rightarrow> Ref \<Rightarrow> catalogRecord option" where
  "catalog_record c ref = (case c of None \<Rightarrow> None | Some records \<Rightarrow> List.find (\<lambda>x. en_Ref (cr_entry x) = ref) records)"

definition verifyRecord :: "skill_libs \<Rightarrow> disk \<Rightarrow> nat \<Rightarrow> catalogRecord \<Rightarrow> (skill_err + string \<times> Manifest) \<times> nat" where
  "verifyRecord L disk t x =
     (let ref = en_Ref (cr_entry x); changed = SkErr ErrSkillDigestMismatch (ref_Name ref)
      in case readContainedFile (disk t) (cr_skillPath x) ''SKILL.md'' of
           RContent source \<Rightarrow> (case ParseManifest L (ref_Name ref) source of
               Inl e \<Rightarrow> (Inl changed, Suc t)
             | Inr m \<Rightarrow> (case packageDigest L disk (Suc t) (cr_skillPath x) source (mf_Resources m) of
                 (None, t) \<Rightarrow> (Inl changed, t)
               | (Some digest, t) \<Rightarrow> if digest \<noteq> ref_Digest ref then (Inl changed, t) else (Inr (source, m), t)))
         | _ \<Rightarrow> (Inl changed, Suc t))"

definition activated_skill :: "Ref \<Rightarrow> Manifest \<Rightarrow> string \<Rightarrow> ActivatedSkill" where
  "activated_skill ref m content =
     \<lparr>as_Ref = ref, as_Name = mf_Name m, as_Description = mf_Description m, as_Content = content,
      as_RequiredToolIDs = rq_RequiredToolIDs (mf_Requirements m), as_OptionalToolIDs = rq_OptionalToolIDs (mf_Requirements m)\<rparr>"

fun activate_refs ::
  "skill_libs \<Rightarrow> disk \<Rightarrow> nat \<Rightarrow> Catalog \<Rightarrow> GateContext \<Rightarrow> Ref list \<Rightarrow> Ref list \<Rightarrow> (skill_err + activationRecord list) \<times> nat" where
  "activate_refs L disk t c g seen [] = (Inr [], t)"
| "activate_refs L disk t c g seen (ref # rest) = (case Resolve c ref of
      Inl e \<Rightarrow> (Inl e, t)
    | Inr entry \<Rightarrow>
        if en_Ref entry \<in> set seen then (Inl (SkErr ErrSkillUnavailable (''duplicate skill '' @ go_quote (ref_Name (en_Ref entry)))), t)
        else if av_State (Evaluate entry g) \<noteq> AvailabilityEligible then (Inl (SkErr ErrSkillUnavailable (ref_Name (en_Ref entry))), t)
        else (case catalog_record c (en_Ref entry) of
          None \<Rightarrow> (Inl (SkErr ErrSkillNotFound []), t)
        | Some x \<Rightarrow> (case verifyRecord L disk t x of
            (Inl e, t) \<Rightarrow> (Inl e, t)
          | (Inr (source, m), t) \<Rightarrow> (case skillBody source of
              Inl e \<Rightarrow> (Inl (SkErr ErrSkillDigestMismatch (ref_Name (en_Ref entry))), t)
            | Inr content \<Rightarrow> (case activate_refs L disk t c g (en_Ref entry # seen) rest of
                (Inl e, t) \<Rightarrow> (Inl e, t)
              | (Inr others, t) \<Rightarrow> (Inr (\<lparr>ar_skill = activated_skill (en_Ref entry) m content, ar_record = x\<rparr> # others), t))))))"

definition skill_before :: "activationRecord \<Rightarrow> activationRecord \<Rightarrow> bool" where
  "skill_before a b =
     (if as_Name (ar_skill a) \<noteq> as_Name (ar_skill b) then as_Name (ar_skill a) < as_Name (ar_skill b)
      else ref_Digest (as_Ref (ar_skill a)) < ref_Digest (as_Ref (ar_skill b)))"

definition catalog_Activate :: "skill_libs \<Rightarrow> disk \<Rightarrow> nat \<Rightarrow> Catalog \<Rightarrow> ActivationRequest \<Rightarrow> (skill_err + Activation) \<times> nat" where
  "catalog_Activate L disk t c request =
     (if c = None then (Inl (SkErr ErrSkillNotFound []), t)
      else (case activate_refs L disk t c (aq_GateContext request) [] (aq_Skills request) of
        (Inl e, t) \<Rightarrow> (Inl e, t)
      | (Inr records, t) \<Rightarrow> (Inr (Some (sort_by skill_before records)), t)))"

definition Skills :: "Activation \<Rightarrow> ActivatedSkill list" where
  "Skills a = (case a of None \<Rightarrow> [] | Some records \<Rightarrow> map ar_skill records)"

definition activation_record :: "Activation \<Rightarrow> Ref \<Rightarrow> skill_err + activationRecord" where
  "activation_record a ref = (case a of
      None \<Rightarrow> Inl (SkErr ErrSkillNotFound [])
    | Some records \<Rightarrow>
        if ref_Name ref = [] \<or> ref_Digest ref = [] then Inl (SkErr ErrSkillNotFound [])
        else (case List.find (\<lambda>x. as_Ref (ar_skill x) = ref) records of
          None \<Rightarrow> Inl (SkErr ErrSkillNotFound [])
        | Some x \<Rightarrow> Inr x))"

definition resource_allowed :: "activationRecord \<Rightarrow> string \<Rightarrow> bool" where
  "resource_allowed x resource \<longleftrightarrow> resource \<in> set (mf_Resources (en_Manifest (cr_entry (ar_record x))))"

definition ResourceURI :: "skill_libs \<Rightarrow> Activation \<Rightarrow> Ref \<Rightarrow> string \<Rightarrow> skill_err + string" where
  "ResourceURI L a ref resource = after_ok (activation_record a ref) (\<lambda>x.
     if \<not> validResourcePath resource \<or> \<not> resource_allowed x resource then Inl (SkErr ErrInvalidSkillResource [])
     else Inr (sl_string L \<lparr>su_Scheme = ''skill'', su_User = Some (ref_Name (as_Ref (ar_skill x)), None),
            su_Host = ref_Digest (as_Ref (ar_skill x)), su_Path = [slash] @ resource, su_RawPath = [], su_RawQuery = [], su_Fragment = []\<rparr>))"

definition resource_target :: "skill_libs \<Rightarrow> Activation \<Rightarrow> string \<Rightarrow> skill_err + activationRecord \<times> string" where
  "resource_target L a uri = (case sl_parse L uri of
      None \<Rightarrow> Inl (SkErr ErrInvalidSkillResource [])
    | Some u \<Rightarrow> (case su_User u of
        None \<Rightarrow> Inl (SkErr ErrInvalidSkillResource [])
      | Some (user, password) \<Rightarrow>
          if su_Scheme u \<noteq> ''skill'' \<or> su_Host u = [] \<or> su_RawQuery u \<noteq> [] \<or> su_Fragment u \<noteq> [] \<or> su_RawPath u \<noteq> []
          then Inl (SkErr ErrInvalidSkillResource [])
          else if password \<noteq> None then Inl (SkErr ErrInvalidSkillResource [])
          else if \<not> prefix [slash] (su_Path u) \<or> \<not> validResourcePath (drop 1 (su_Path u)) then Inl (SkErr ErrInvalidSkillResource [])
          else after_ok (activation_record a \<lparr>ref_Name = user, ref_Digest = su_Host u\<rparr>) (\<lambda>x.
            if resource_allowed x (drop 1 (su_Path u)) then Inr (x, drop 1 (su_Path u)) else Inl (SkErr ErrInvalidSkillResource []))))"

definition ReadResource :: "skill_libs \<Rightarrow> disk \<Rightarrow> nat \<Rightarrow> Activation \<Rightarrow> string \<Rightarrow> (skill_err + string) \<times> nat" where
  "ReadResource L disk t a uri = (case resource_target L a uri of
      Inl e \<Rightarrow> (Inl e, t)
    | Inr (x, resource) \<Rightarrow> (case verifyRecord L disk t (ar_record x) of
        (Inl e, t) \<Rightarrow> (Inl e, t)
      | (Inr verified, t) \<Rightarrow> (case readContainedFile (disk t) (cr_skillPath (ar_record x)) resource of
          RContent content \<Rightarrow>
            if length content > maxResourceBytes then (Inl (SkErr ErrInvalidSkillResource []), Suc t) else (Inr content, Suc t)
        | _ \<Rightarrow> (Inl (SkErr ErrSkillDigestMismatch (as_Name (ar_skill x))), Suc t))))"

end
