(* ===== verification/Skill_Laws.thy ===== *)
theory Skill_Laws
  imports Skill_Catalog
begin

text \<open>
  What the skill catalog guarantees: resource paths stay inside a package, discovery is deterministic and
  keeps the trust of each root, an activation is gated and pinned to a digest, and where the digest and the
  reads of the disk leave a gap.
\<close>

section \<open>Laws of resource paths\<close>

text \<open>A valid resource path is a list of names: it never leaves the directory it is joined to.\<close>

lemma valid_resource_words:
  "validResourcePath r \<longleftrightarrow> backslash \<notin> set r \<and> list_all plain_word (split_char slash r)"
proof
  assume valid: "validResourcePath r"
  let ?W = "clean_words False [] (split_char slash r)"
  from valid have r: "r \<noteq> []" "backslash \<notin> set r" "\<not> path_rooted r"
    by (auto simp: validResourcePath_def path_rooted_def)
  from clean_words_climbs [of "[]" "[]" 0 "split_char slash r"] obtain k qs where W: "?W = replicate k ''..'' @ qs" "list_all plain_word qs" by auto
  have clean: "path_Clean r = string_join [slash] ?W" "path_Clean r = r" "r \<noteq> ''..''" "\<not> prefix (''..'' @ [slash]) r"
    using valid r by (auto simp: validResourcePath_def path_Clean_def Let_def split: if_splits)
  then have eq: "string_join [slash] ?W = r" by simp
  with r have "?W \<noteq> []" by auto
  from split_join [OF this, of slash] clean_no_slash eq have split: "split_char slash r = ?W" by simp
  have "k = 0"
  proof (rule ccontr)
    assume "k \<noteq> 0"
    then obtain j where "k = Suc j" by (cases k) auto
    with W have "?W = ''..'' # (replicate j ''..'' @ qs)" by simp
    with eq have "r = string_join [slash] (''..'' # (replicate j ''..'' @ qs))" by simp
    with clean(3,4) show False by (cases "replicate j ''..'' @ qs") simp_all
  qed
  with W split r show "backslash \<notin> set r \<and> list_all plain_word (split_char slash r)" by simp
next
  assume *: "backslash \<notin> set r \<and> list_all plain_word (split_char slash r)"
  obtain w ws where s: "split_char slash r = w # ws" by (cases "split_char slash r") auto
  with * have w: "plain_word w" by simp
  have rn: "r \<noteq> []" using s w by (auto simp: plain_word_def)
  have "\<not> path_rooted r"
  proof
    assume "path_rooted r"
    then obtain x where "r = slash # x" by (auto simp: path_rooted_def prefix_def)
    with s w show False by (simp add: plain_word_def)
  qed
  moreover have "path_Clean r = r"
    using * rn calculation by (simp add: path_Clean_def clean_words_plain join_split)
  moreover have "r \<noteq> ''.''" "r \<noteq> ''..''" using s w by (auto simp: plain_word_def)
  moreover have "\<not> prefix (''..'' @ [slash]) r"
  proof
    assume "prefix (''..'' @ [slash]) r"
    then obtain x where "r = ''..'' @ slash # x" by (auto simp: prefix_def)
    then have "split_char slash r = ''..'' # split_char slash x" by simp
    with s w show False by (simp add: plain_word_def)
  qed
  ultimately show "validResourcePath r" using * rn by (simp add: validResourcePath_def path_rooted_def)
qed

lemma resource_stays_inside:
  assumes p: "path_rooted p" and r: "validResourcePath r"
  shows "dir_words (path_Join p r) = dir_words p @ split_char slash r" and "pathWithin p (path_Join p r)"
proof -
  have n: "p \<noteq> []" "r \<noteq> []" using p r by (auto simp: path_rooted_def validResourcePath_def)
  have q: "path_rooted (p @ [slash] @ r)" using p by (auto simp: path_rooted_def prefix_def)
  from r have plain: "list_all plain_word (split_char slash r)" by (simp add: valid_resource_words)
  have "dir_words (p @ [slash] @ r) = dir_words p @ split_char slash r"
    by (simp add: dir_words_def split_append clean_words_append_plain [OF plain])
  then show words: "dir_words (path_Join p r) = dir_words p @ split_char slash r"
    using n dir_words_Clean [OF q] by (simp add: path_Join_def)
  have "path_rooted (path_Join p r)" using n q rooted_Clean [OF q] by (simp add: path_Join_def path_rooted_def)
  then show "pathWithin p (path_Join p r)" using p words by (simp add: within_rooted)
qed

section \<open>Laws of the digest\<close>

definition nul_free :: "digestFile \<Rightarrow> bool" where
  "nul_free f \<longleftrightarrow> NUL \<notin> set (fst f) \<and> NUL \<notin> set (snd f)"

lemma digest_words:
  "list_all nul_free files \<Longrightarrow> split_char NUL (digest_input files) = concat (map (\<lambda>(p, content). [p, content]) files) @ [[]]"
  by (induction files) (auto simp: digest_input_def nul_free_def split_append_sep)

text \<open>The files of a package can be read off the input of its digest when none of them has a zero byte.\<close>

lemma digest_input_inj:
  assumes "list_all nul_free xs" and "list_all nul_free ys" and "digest_input xs = digest_input ys"
  shows "xs = ys"
proof -
  have "concat (map (\<lambda>(p, content). [p, content]) xs) = concat (map (\<lambda>(p, content). [p, content]) ys)"
    using digest_words [OF assms(1)] digest_words [OF assms(2)] assms(3) by simp
  then show ?thesis
  proof (induction xs arbitrary: ys)
    case Nil
    then show ?case by (cases ys) auto
  next
    case (Cons x xs)
    then show ?case by (cases x; cases ys) auto
  qed
qed

section \<open>Laws of discovery\<close>

text \<open>A record was found in an enabled root, has the trust of that root, and its directory lies in it.\<close>

definition found_in :: "disk \<Rightarrow> Root list \<Rightarrow> catalogRecord \<Rightarrow> bool" where
  "found_in disk roots x \<longleftrightarrow> (\<exists>r \<in> set roots. rt_Enabled r \<and> rt_ID r = en_RootID (cr_entry x) \<and> rt_Trusted r = en_Trusted (cr_entry x)
     \<and> (en_State (cr_entry x) \<noteq> EntryInvalid \<longrightarrow>
          (\<exists>t dir. canonicalDirectory (disk t) (rt_Dir r) = Some dir \<and> pathWithin dir (cr_skillPath x))))"

text \<open>Where a record was found: the root and the name of the directory.\<close>

definition rec_key :: "catalogRecord \<Rightarrow> string \<times> string" where
  "rec_key x = (en_RootID (cr_entry x), ref_Name (en_Ref (cr_entry x)))"

lemma ParseManifest_name: "ParseManifest L d source = Inr m \<Longrightarrow> mf_Name m = d"
  by (auto simp: ParseManifest_def after_ok_def ValidateManifest_def Let_def split: sum.splits option.splits if_splits)

lemma invalidRecord_fields [simp]:
 "rec_key (invalidRecord r name) = (rt_ID r, name)" "ref_Digest (en_Ref (cr_entry (invalidRecord r name))) = []" "en_State (cr_entry (invalidRecord r name)) = EntryInvalid"
  "en_RootID (cr_entry (invalidRecord r name)) = rt_ID r" "en_Trusted (cr_entry (invalidRecord r name)) = rt_Trusted r"
  by (simp_all add: invalidRecord_def rec_key_def)

lemma readyRecord_fields [simp]:
  "rec_key (readyRecord r m digest p) = (rt_ID r, mf_Name m)" "en_State (cr_entry (readyRecord r m digest p)) = EntryReady"
  "en_RootID (cr_entry (readyRecord r m digest p)) = rt_ID r" "en_Trusted (cr_entry (readyRecord r m digest p)) = rt_Trusted r"
  "cr_skillPath (readyRecord r m digest p) = p" "ref_Digest (en_Ref (cr_entry (readyRecord r m digest p))) = digest"
  by (simp_all add: readyRecord_def rec_key_def)

lemma packageDigest_files:
  assumes "packageDigest L disk t p source resources = (Some d, t')"
  shows "\<exists>files. read_resources disk t p resources = (Some files, t') \<and> d = files_digest L ((''SKILL.md'', source) # files)"
  using assms by (auto simp: packageDigest_def split: prod.splits option.splits)

lemma discoverSkill_cases:
  assumes "discoverSkill L disk t dir r name = (Some x, t')"
  shows "x = invalidRecord r name \<or> (\<exists>m digest p files. x = readyRecord r m digest p \<and> mf_Name m = name \<and> pathWithin dir p \<and> digest = files_digest L files)"
  using assms
  by (auto simp: discoverSkill_def split: option.splits if_splits read_result.splits sum.splits prod.splits
      dest!: ParseManifest_name packageDigest_files)

lemma discoverSkill_found:
  assumes "discoverSkill L disk t dir r name = (Some x, t')" and "r \<in> set roots" "rt_Enabled r" and "canonicalDirectory (disk t0) (rt_Dir r) = Some dir"
  shows "found_in disk roots x" and "rec_key x = (rt_ID r, name)" and "ready x \<or> en_State (cr_entry x) = EntryInvalid"
    and "ready x \<Longrightarrow> \<exists>files. ref_Digest (en_Ref (cr_entry x)) = files_digest L files" and "\<not> ready x \<Longrightarrow> ref_Digest (en_Ref (cr_entry x)) = []"
proof -
  from discoverSkill_cases [OF assms(1)]
  consider "x = invalidRecord r name"
    | m digest p files where "x = readyRecord r m digest p" "mf_Name m = name" "pathWithin dir p" "digest = files_digest L files" by blast
  then have "found_in disk roots x \<and> rec_key x = (rt_ID r, name) \<and> (ready x \<or> en_State (cr_entry x) = EntryInvalid)
      \<and> (ready x \<longrightarrow> (\<exists>files. ref_Digest (en_Ref (cr_entry x)) = files_digest L files))
      \<and> (\<not> ready x \<longrightarrow> ref_Digest (en_Ref (cr_entry x)) = [])"
  proof cases
    case 1
    with assms(2,3) show ?thesis by (auto simp: found_in_def)
  next
    case 2
    have "found_in disk roots x" unfolding found_in_def
      using assms(2-4) 2 by (intro bexI [of _ r]) auto
    with 2 show ?thesis by auto
  qed
  then show "found_in disk roots x" and "rec_key x = (rt_ID r, name)" and "ready x \<or> en_State (cr_entry x) = EntryInvalid"
    and "ready x \<Longrightarrow> \<exists>files. ref_Digest (en_Ref (cr_entry x)) = files_digest L files" and "\<not> ready x \<Longrightarrow> ref_Digest (en_Ref (cr_entry x)) = []" by blast+
qed

text \<open>What discovery guarantees of its records before they are merged.\<close>

definition found_ok :: "skill_libs \<Rightarrow> disk \<Rightarrow> Root list \<Rightarrow> catalogRecord \<Rightarrow> bool" where
  "found_ok L disk roots x \<longleftrightarrow> found_in disk roots x \<and> (ready x \<or> en_State (cr_entry x) = EntryInvalid)
     \<and> (ready x \<longrightarrow> (\<exists>files. ref_Digest (en_Ref (cr_entry x)) = files_digest L files)) \<and> (\<not> ready x \<longrightarrow> ref_Digest (en_Ref (cr_entry x)) = [])"

lemma discover_dirs_all:
  assumes r: "r \<in> set roots" "rt_Enabled r" and dir: "canonicalDirectory (disk t0) (rt_Dir r) = Some dir"
  shows "discover_dirs L disk t dir r dirs = (records, t') \<Longrightarrow> distinct (map fst dirs) \<Longrightarrow>
    list_all (found_ok L disk roots) records \<and> fst ` rec_key ` set records \<subseteq> {rt_ID r}
      \<and> snd ` rec_key ` set records \<subseteq> fst ` set dirs \<and> distinct (map rec_key records)"
proof (induction dirs arbitrary: t records)
  case Nil
  then show ?case by simp
next
  case (Cons d dirs)
  obtain name isDir where d: "d = (name, isDir)" by (cases d)
  obtain found s where f: "discoverSkill L disk t dir r name = (found, s)" by (metis surj_pair)
  obtain rest s' where g: "discover_dirs L disk (if isDir then s else t) dir r dirs = (rest, s')" by (metis surj_pair)
  have s: "s' = t'" "records = (if isDir then (case found of None \<Rightarrow> rest | Some x \<Rightarrow> x # rest) else rest)"
    using Cons.prems(1) f g by (cases isDir; cases found; simp add: d)+
  have dist: "distinct (map fst dirs)" "name \<notin> fst ` set dirs" using Cons.prems(2) by (simp_all add: d)
  note ih = Cons.IH [OF g [unfolded s(1)] dist(1)]
  have grow: "snd ` rec_key ` set rest \<subseteq> insert name (fst ` set dirs)" using ih by blast
  show ?case
  proof (cases "isDir \<and> found \<noteq> None")
    case True
    then obtain x where x: "isDir" "found = Some x" by auto
    have here: "found_ok L disk roots x \<and> rec_key x = (rt_ID r, name)"
      using discoverSkill_found [OF f [unfolded x(2)] r dir] by (simp add: found_ok_def)
    have "(rt_ID r, name) \<notin> rec_key ` set rest" using ih dist(2) by (metis imageI snd_conv subsetD)
    with grow x s(2) here ih show ?thesis by (simp add: d)
  next
    case False
    with s(2) have "records = rest" by (auto split: option.splits)
    with ih grow show ?thesis by (simp add: d)
  qed
qed

lemma discover_dirs_ok:
  assumes "discover_dirs L disk t dir r dirs = (records, t')" and "distinct (map fst dirs)"
    and "r \<in> set roots" "rt_Enabled r" and "canonicalDirectory (disk t0) (rt_Dir r) = Some dir"
  shows "\<forall>x \<in> set records. found_ok L disk roots x" and "fst ` rec_key ` set records \<subseteq> {rt_ID r}" and "distinct (map rec_key records)"
  using discover_dirs_all [OF assms(3-5,1,2)] by (simp_all add: list_all_iff)

definition dirs_distinct :: "disk \<Rightarrow> bool" where
  "dirs_distinct disk \<longleftrightarrow> (\<forall>t p dirs. fs_ReadDir (disk t) p = Some dirs \<longrightarrow> distinct (map fst dirs))"

lemma found_disjoint: "A \<subseteq> {i} \<Longrightarrow> i \<notin> S \<Longrightarrow> B \<inter> S = {} \<Longrightarrow> (A \<union> B) \<inter> S = {}"
  by blast

lemma discover_roots_ok:
  assumes "discover_roots L disk t seen rest = (Inr records, t')" and "dirs_distinct disk" and "set rest \<subseteq> set roots"
  shows "(\<forall>x \<in> set records. found_ok L disk roots x) \<and> fst ` rec_key ` set records \<inter> set seen = {} \<and> distinct (map rec_key records)"
  using assms(1,3)
proof (induction rest arbitrary: t seen records)
  case Nil
  then show ?case by simp
next
  case (Cons r rest)
  show ?case
  proof (cases "rt_Enabled r")
    case False
    with Cons show ?thesis by simp
  next
    case True
    with Cons.prems obtain dir dirs where v: "validateRoot r seen = None" "canonicalDirectory (disk t) (rt_Dir r) = Some dir"
      "fs_ReadDir (disk (Suc t)) dir = Some dirs"
      by (auto split: option.splits)
    obtain here s where h: "discover_dirs L disk (Suc (Suc t)) dir r dirs = (here, s)" by (metis surj_pair)
    with Cons.prems True v obtain others where o: "discover_roots L disk s (rt_ID r # seen) rest = (Inr others, t')" "records = here @ others"
      by (auto split: prod.splits sum.splits)
    have ih: "(\<forall>x \<in> set others. found_ok L disk roots x) \<and> fst ` rec_key ` set others \<inter> set (rt_ID r # seen) = {} \<and> distinct (map rec_key others)"
      using Cons.IH [OF o(1)] Cons.prems(2) by simp
    have dist: "distinct (map fst dirs)" using assms(2) v(3) by (auto simp: dirs_distinct_def)
    have r: "r \<in> set roots" using Cons.prems(2) by simp
    note d = discover_dirs_ok [OF h dist r True v(2)]
    have seen: "rt_ID r \<notin> set seen" using v(1) by (auto simp: validateRoot_def split: if_splits)
    have disj: "rec_key ` set here \<inter> rec_key ` set others = {}"
    proof -
      { fix k assume "k \<in> rec_key ` set here" "k \<in> rec_key ` set others"
        then have "fst k \<in> fst ` rec_key ` set here" "fst k \<in> fst ` rec_key ` set others" by (simp_all only: imageI)
        moreover have "rt_ID r \<notin> fst ` rec_key ` set others" using ih by auto
        ultimately have "fst k = rt_ID r" "fst k \<noteq> rt_ID r" using d(2) by (blast, metis)
        then have False by simp }
      then show ?thesis by blast
    qed
    have "fst ` rec_key ` set records \<inter> set seen = {}" 
      unfolding o(2) set_append image_Un using d(2) ih seen by (intro found_disjoint) simp_all
    moreover have "distinct (map rec_key records)" using o(2) d(3) ih disj by auto
    moreover have "\<forall>x \<in> set records. found_ok L disk roots x" using o(2) d(1) ih by auto
    ultimately show ?thesis by blast
  qed
qed

section \<open>Laws of the catalog\<close>

interpretation group_order: strict_order group_before
  by unfold_locales (auto simp: group_before_def split: if_splits)

interpretation record_order: strict_order record_before
  by unfold_locales (auto simp: record_before_def Let_def split: if_splits)

interpretation skill_order: strict_order skill_before
  by unfold_locales (auto simp: skill_before_def split: if_splits)

text \<open>What a record keeps of the record it comes from.\<close>

definition same_source :: "catalogRecord \<Rightarrow> catalogRecord \<Rightarrow> bool" where
  "same_source x h \<longleftrightarrow> en_Ref (cr_entry x) = en_Ref (cr_entry h) \<and> en_RootID (cr_entry x) = en_RootID (cr_entry h)
     \<and> en_Trusted (cr_entry x) = en_Trusted (cr_entry h) \<and> en_Manifest (cr_entry x) = en_Manifest (cr_entry h)
     \<and> cr_skillPath x = cr_skillPath h"

lemma same_source_refl [simp]: "same_source x x"
  by (simp add: same_source_def)

text \<open>The first record of a group is trusted if any is, so a merged record keeps the trust of its own root.\<close>

lemma merge_group_source:
  assumes "members \<noteq> []"
  shows "\<exists>h \<in> set members. same_source (merge_group members) h \<and> en_State (cr_entry (merge_group members)) = en_State (cr_entry h)"
proof -
  let ?s = "sort_by group_before members"
  have ne: "?s \<noteq> []" using assms by (metis length_sort_by length_0_conv)
  then have h: "hd ?s \<in> set members" by (metis hd_in_set set_sort_by)
  have "en_Trusted (cr_entry (hd ?s))" if "y \<in> set members" "en_Trusted (cr_entry y)" for y
    using group_order.hd_sort_by_least [OF that(1)] that(2) by (auto simp: group_before_def split: if_splits)
  then have "list_ex (\<lambda>y. en_Trusted (cr_entry y)) ?s \<Longrightarrow> en_Trusted (cr_entry (hd ?s))" by (auto simp: list_ex_iff)
  then have "same_source (merge_group members) (hd ?s) \<and> en_State (cr_entry (merge_group members)) = en_State (cr_entry (hd ?s))"
    by (auto simp: same_source_def merge_group_def Let_def)
  with h show ?thesis by blast
qed

lemma group_of_source:
  assumes "h \<in> set records" "ready h"
  shows "\<exists>g \<in> set records. ready g \<and> merge_key g = merge_key h \<and> same_source (merge_group (group_of records (merge_key h))) g
    \<and> ready (merge_group (group_of records (merge_key h)))"
proof -
  have "h \<in> set (group_of records (merge_key h))" using assms by (simp add: group_of_def)
  then have "group_of records (merge_key h) \<noteq> []" by auto
  from merge_group_source [OF this] obtain g where "g \<in> set (group_of records (merge_key h))"
    "same_source (merge_group (group_of records (merge_key h))) g"
    "en_State (cr_entry (merge_group (group_of records (merge_key h)))) = en_State (cr_entry g)" by blast
  then show ?thesis by (auto simp: group_of_def)
qed

definition permutes_keys :: "(string list \<Rightarrow> string list) \<Rightarrow> bool" where
  "permutes_keys order \<longleftrightarrow> (\<forall>ks. mset (order ks) = mset ks)"

lemma merged_source:
  assumes "x \<in> set (mergeEqualDigests order records)" and "permutes_keys order"
  shows "\<exists>h \<in> set records. same_source x h \<and> en_State (cr_entry x) = en_State (cr_entry h)
    \<and> x = (if ready h then merge_group (group_of records (merge_key h)) else h)"
proof -
  have keys: "set (order ks) = set ks" for ks using assms(2) by (metis permutes_keys_def set_mset_mset)
  consider "x \<in> set records" "\<not> ready x" | h where "h \<in> set records" "ready h" "x = merge_group (group_of records (merge_key h))"
    using assms(1) by (auto simp: mergeEqualDigests_def keys)
  then show ?thesis
  proof cases
    case 1
    then show ?thesis by (intro bexI [of _ x]) auto
  next
    case 2
    from group_of_source [OF 2(1,2)] obtain g where "g \<in> set records" "ready g" "merge_key g = merge_key h"
      "same_source x g" "ready x" by (auto simp: 2(3))
    then show ?thesis using 2(3) by (intro bexI [of _ g]) auto
  qed
qed

lemma mark_record_source:
  "same_source (mark_record records x) x" "rec_key (mark_record records x) = rec_key x"
  "en_State (cr_entry (mark_record records x)) = en_State (cr_entry x) \<or> (ready x \<and> en_State (cr_entry (mark_record records x)) = EntryAmbiguous)"
  by (auto simp: mark_record_def Let_def same_source_def rec_key_def)

lemma mark_record_perm: "mset xs = mset ys \<Longrightarrow> mark_record xs = mark_record ys"
proof -
  assume "mset xs = mset ys"
  then have "set xs = set ys" by (metis set_mset_mset)
  then have "set (ready_digests xs name) = set (ready_digests ys name)" for name by (auto simp: ready_digests_def)
  moreover have "length (ready_digests zs name) = card (set (ready_digests zs name))" for zs name
    by (simp add: ready_digests_def length_remdups_card_conv)
  ultimately have "length (ready_digests xs name) = length (ready_digests ys name)" for name by presburger
  then show ?thesis by (intro ext) (simp add: mark_record_def)
qed

text \<open>No two records of a merged list tie in the order of the catalog.\<close>

lemma merged_no_tie:
  assumes "permutes_keys order" and "distinct (map rec_key records)"
    and "a \<in> set (mergeEqualDigests order records)" "b \<in> set (mergeEqualDigests order records)" and "rec_key a = rec_key b"
  shows "a = b"
proof -
  from merged_source [OF assms(3,1)] merged_source [OF assms(4,1)] obtain g h where
    g: "g \<in> set records" "same_source a g" "a = (if ready g then merge_group (group_of records (merge_key g)) else g)" and
    h: "h \<in> set records" "same_source b h" "b = (if ready h then merge_group (group_of records (merge_key h)) else h)" by blast
  have "rec_key g = rec_key h" using assms(5) g(2) h(2) by (simp add: rec_key_def same_source_def)
  with assms(2) g(1) h(1) have "g = h" by (metis distinct_map inj_on_eq_iff)
  with g(3) h(3) show ?thesis by simp
qed

lemma record_before_tie:
  "\<not> record_before a b \<Longrightarrow> \<not> record_before b a \<Longrightarrow> rec_key a = rec_key b"
  by (auto simp: record_before_def rec_key_def Let_def split: if_splits)

lemma catalog_unique:
  assumes o: "permutes_keys o1" "permutes_keys o2" and d: "distinct (map rec_key records)"
  shows "sortRecords (markAmbiguous (mergeEqualDigests o1 records)) = sortRecords (markAmbiguous (mergeEqualDigests o2 records))"
proof -
  let ?A = "mergeEqualDigests o1 records" and ?B = "mergeEqualDigests o2 records"
  have m: "mset ?A = mset ?B" using o by (simp add: mergeEqualDigests_def permutes_keys_def)
  show ?thesis unfolding sortRecords_def
  proof (rule record_order.sort_unique)
    show "mset (markAmbiguous ?A) = mset (markAmbiguous ?B)"
      by (simp only: markAmbiguous_def mset_map m mark_record_perm [OF m])
    fix a b assume "a \<in> set (markAmbiguous ?A)" "b \<in> set (markAmbiguous ?A)" and tie: "\<not> record_before a b" "\<not> record_before b a"
    then obtain a' b' where ab: "a' \<in> set ?A" "a = mark_record ?A a'" "b' \<in> set ?A" "b = mark_record ?A b'"
      by (auto simp: markAmbiguous_def)
    with record_before_tie [OF tie] have "rec_key a' = rec_key b'" by (simp add: mark_record_source)
    from merged_no_tie [OF o(1) d ab(1,3) this] ab show "a = b" by simp
  qed
qed

text \<open>Property C38. Discovery is deterministic: the catalog does not depend on the order in which the groups of equal
  digests are visited, given that a directory lists a name once.
\<close>

theorem catalog_order_independent:
  assumes "dirs_distinct disk" and "permutes_keys o1" and "permutes_keys o2"
  shows "Discover L o1 disk t roots = Discover L o2 disk t roots"
proof -
  obtain r t1 where run: "discover_roots L disk t [] roots = (r, t1)" by (metis surj_pair)
  show ?thesis
  proof (cases r)
    case (Inl e)
    with run show ?thesis by (simp add: Discover_def)
  next
    case (Inr records)
    with run have "discover_roots L disk t [] roots = (Inr records, t1)" by simp
    from discover_roots_ok [OF this assms(1) subset_refl] have "distinct (map rec_key records)" by blast
    from catalog_unique [OF assms(2,3) this] run Inr show ?thesis by (simp add: Discover_def)
  qed
qed

section \<open>Laws of activation\<close>

text \<open>The capabilities that a manifest asks of its host.\<close>

definition gate_open :: "Requirements \<Rightarrow> GateContext \<Rightarrow> bool" where
  "gate_open rq g \<longleftrightarrow> (rq_OS rq = [] \<or> gc_OS g \<in> set (rq_OS rq)) \<and> (\<forall>f \<in> set (rq_HostFeatures rq). map_of (gc_HostFeatures g) f = Some True)
     \<and> (\<forall>i \<in> set (rq_RequiredToolIDs rq). map_of (gc_AllowedToolIDs g) i = Some True)"

lemma gate_reasons_open: "gate_reasons rq g = [] \<longleftrightarrow> gate_open rq g"
  by (auto simp: gate_reasons_def gate_open_def filter_empty_conv)

lemma eligible_iff:
  "av_State (Evaluate e g) = AvailabilityEligible \<longleftrightarrow> en_State e = EntryReady \<and> en_Trusted e \<and> gate_open (mf_Requirements (en_Manifest e)) g"
  by (cases "en_State e") (auto simp: Evaluate_def Let_def gate_reasons_open)

lemma Resolve_ready:
  assumes "Resolve c ref = Inr e"
  shows "\<exists>records. c = Some records \<and> e \<in> cr_entry ` set records \<and> en_State e = EntryReady \<and> ref_Name (en_Ref e) = ref_Name ref
    \<and> (ref_Digest ref \<noteq> [] \<longrightarrow> ref_Digest (en_Ref e) = ref_Digest ref)"
proof -
  let ?p = "\<lambda>e. ref_Name (en_Ref e) = ref_Name ref \<and> (ref_Digest ref \<noteq> [] \<longrightarrow> ref_Digest (en_Ref e) = ref_Digest ref)"
  from assms obtain records where c: "c = Some records" by (cases c) (simp_all add: Resolve_def)
  have "filter ?p (map cr_entry records) = [e] \<and> en_State e = EntryReady
      \<or> filter (\<lambda>e. en_State e = EntryReady) (filter ?p (map cr_entry records)) = [e]"
    using assms unfolding Resolve_def c Let_def by (simp only: option.case split: if_splits list.splits) auto
  then have "e \<in> set (filter ?p (map cr_entry records)) \<and> en_State e = EntryReady"
  proof
    assume "filter ?p (map cr_entry records) = [e] \<and> en_State e = EntryReady"
    then show ?thesis by (simp only: set_simps) simp
  next
    assume "filter (\<lambda>e. en_State e = EntryReady) (filter ?p (map cr_entry records)) = [e]"
    then have "e \<in> set (filter (\<lambda>e. en_State e = EntryReady) (filter ?p (map cr_entry records)))" by (simp only: set_simps) simp
    then show ?thesis by simp
  qed
  then show ?thesis by (auto simp: c)
qed

text \<open>The package a record points to, as it is read from the moment \<open>t\<close> on.\<close>

definition package_at :: "skill_libs \<Rightarrow> disk \<Rightarrow> nat \<Rightarrow> catalogRecord \<Rightarrow> string \<Rightarrow> Manifest \<Rightarrow> digestFile list \<Rightarrow> bool" where
  "package_at L disk t x source m files \<longleftrightarrow>
     readContainedFile (disk t) (cr_skillPath x) ''SKILL.md'' = RContent source
     \<and> ParseManifest L (ref_Name (en_Ref (cr_entry x))) source = Inr m
     \<and> fst (read_resources disk (Suc t) (cr_skillPath x) (mf_Resources m)) = Some files"

lemma verifyRecord_package:
  assumes "verifyRecord L disk t x = (Inr (source, m), t')"
  shows "\<exists>files. package_at L disk t x source m files \<and> files_digest L ((''SKILL.md'', source) # files) = ref_Digest (en_Ref (cr_entry x))"
  using assms
  by (auto simp: verifyRecord_def package_at_def Let_def split: read_result.splits sum.splits prod.splits option.splits if_splits
      dest!: packageDigest_files)

definition activated_from :: "skill_libs \<Rightarrow> disk \<Rightarrow> Catalog \<Rightarrow> GateContext \<Rightarrow> activationRecord \<Rightarrow> bool" where
  "activated_from L disk c g z \<longleftrightarrow> (\<exists>ref e t t' source m body. Resolve c ref = Inr e \<and> av_State (Evaluate e g) = AvailabilityEligible
     \<and> catalog_record c (en_Ref e) = Some (ar_record z) \<and> verifyRecord L disk t (ar_record z) = (Inr (source, m), t')
     \<and> skillBody source = Inr body \<and> ar_skill z = activated_skill (en_Ref e) m body)"

lemma activate_refs_all:
  "activate_refs L disk t c g seen refs = (Inr zs, t') \<Longrightarrow>
     (\<forall>z \<in> set zs. activated_from L disk c g z \<and> as_Ref (ar_skill z) \<notin> set seen) \<and> distinct (map (\<lambda>z. as_Ref (ar_skill z)) zs)"
proof (induction refs arbitrary: t seen zs)
  case Nil
  then show ?case by simp
next
  case (Cons ref refs)
  from Cons.prems obtain e where e: "Resolve c ref = Inr e" by (auto split: sum.splits)
  with Cons.prems have f: "en_Ref e \<notin> set seen" "av_State (Evaluate e g) = AvailabilityEligible" by (auto split: if_splits)
  with Cons.prems e obtain x where x: "catalog_record c (en_Ref e) = Some x" by (auto split: option.splits)
  obtain v s where v: "verifyRecord L disk t x = (v, s)" by (metis surj_pair)
  with Cons.prems e f x obtain source m where v2: "v = Inr (source, m)" by (cases v) auto
  with Cons.prems e f x v obtain body where b: "skillBody source = Inr body" by (auto split: sum.splits)
  obtain r s' where rest: "activate_refs L disk s c g (en_Ref e # seen) refs = (r, s')" by (metis surj_pair)
  with Cons.prems e f x v v2 b obtain ws where r: "r = Inr ws" "s' = t'"
    "zs = \<lparr>ar_skill = activated_skill (en_Ref e) m body, ar_record = x\<rparr> # ws" by (cases r) auto
  have "activated_from L disk c g \<lparr>ar_skill = activated_skill (en_Ref e) m body, ar_record = x\<rparr>"
    unfolding activated_from_def
    by (intro exI [of _ ref] exI [of _ e] exI [of _ t] exI [of _ s] exI [of _ source] exI [of _ m] exI [of _ body])
      (use e f x v v2 b in simp)
  with Cons.IH [OF rest [unfolded r(1,2)]] f(1) show ?case
    by (auto simp: r(3) activated_skill_def)
qed

lemma Discover_records:
  assumes "Discover L order disk t roots = (Inr c, t')" and "dirs_distinct disk"
  shows "\<exists>records. c = Some (sortRecords (markAmbiguous (mergeEqualDigests order records))) \<and> (\<forall>h \<in> set records. found_ok L disk roots h)"
proof -
  from assms(1) obtain records where run: "discover_roots L disk t [] roots = (Inr records, t')"
    "c = Some (sortRecords (markAmbiguous (mergeEqualDigests order records)))"
    by (auto simp: Discover_def split: prod.splits sum.splits)
  from discover_roots_ok [OF run(1) assms(2) subset_refl] run(2) show ?thesis by blast
qed

lemma catalog_element:
  assumes "x \<in> set (sortRecords (markAmbiguous M))"
  shows "\<exists>y \<in> set M. x = mark_record M y"
  using assms by (auto simp: sortRecords_def markAmbiguous_def)

lemma found_in_source:
  assumes "same_source x h" "found_in disk roots h" and "en_State (cr_entry x) = EntryInvalid \<longleftrightarrow> en_State (cr_entry h) = EntryInvalid"
  shows "found_in disk roots x"
  using assms unfolding found_in_def same_source_def by metis

text \<open>The records of a catalog: found in a root, one for each reference that is not invalid, one digest for each name that is ready.\<close>

lemma catalog_source:
  assumes "\<forall>h \<in> set records. found_ok L disk roots h" and "permutes_keys order"
    and "x \<in> set (sortRecords (markAmbiguous (mergeEqualDigests order records)))"
  shows "found_in disk roots x"
    and "\<exists>h \<in> set records. en_Ref (cr_entry h) = en_Ref (cr_entry x) \<and> (ready h \<longleftrightarrow> en_State (cr_entry x) \<noteq> EntryInvalid)
      \<and> x = mark_record (mergeEqualDigests order records) (if ready h then merge_group (group_of records (merge_key h)) else h)"
proof -
  let ?M = "mergeEqualDigests order records"
  from catalog_element [OF assms(3)] obtain y where y: "y \<in> set ?M" "x = mark_record ?M y" by blast
  from merged_source [OF y(1) assms(2)] obtain h where h: "h \<in> set records" "same_source y h" "en_State (cr_entry y) = en_State (cr_entry h)"
    "y = (if ready h then merge_group (group_of records (merge_key h)) else h)" by blast
  have ok: "found_in disk roots h" "ready h \<or> en_State (cr_entry h) = EntryInvalid" using assms(1) h(1) by (auto simp: found_ok_def)
  have st: "en_State (cr_entry x) = EntryInvalid \<longleftrightarrow> en_State (cr_entry y) = EntryInvalid"
    using mark_record_source(3) [of ?M y] y(2) by auto
  have src: "same_source x y" using mark_record_source(1) [of ?M y] y(2) by simp
  have "same_source x h" using src h(2) by (simp add: same_source_def)
  then show "found_in disk roots x" using found_in_source ok(1) st h(3) by metis
  have "ready h \<longleftrightarrow> en_State (cr_entry x) \<noteq> EntryInvalid" using ok(2) st h(3) by auto
  then show "\<exists>h \<in> set records. en_Ref (cr_entry h) = en_Ref (cr_entry x) \<and> (ready h \<longleftrightarrow> en_State (cr_entry x) \<noteq> EntryInvalid)
      \<and> x = mark_record ?M (if ready h then merge_group (group_of records (merge_key h)) else h)"
    using h(1,4) y(2) \<open>same_source x h\<close> by (intro bexI [of _ h]) (simp_all add: same_source_def)
qed

lemma catalog_ref_unique:
  assumes ok: "\<forall>h \<in> set records. found_ok L disk roots h" and "permutes_keys order" and hash: "\<forall>s. sl_sha256hex L s \<noteq> []"
    and x: "x \<in> set (sortRecords (markAmbiguous (mergeEqualDigests order records)))" "ready x"
    and y: "y \<in> set (sortRecords (markAmbiguous (mergeEqualDigests order records)))" "en_Ref (cr_entry y) = en_Ref (cr_entry x)"
  shows "y = x"
proof -
  let ?M = "mergeEqualDigests order records"
  from catalog_source(2) [OF ok assms(2) x(1)] x(2) obtain g where g: "g \<in> set records" "en_Ref (cr_entry g) = en_Ref (cr_entry x)" "ready g"
    "x = mark_record ?M (merge_group (group_of records (merge_key g)))" by auto
  have "ref_Digest (en_Ref (cr_entry g)) \<noteq> []" using ok g(1,3) hash by (auto simp: found_ok_def files_digest_def)
  moreover from catalog_source(2) [OF ok assms(2) y(1)] obtain h where h: "h \<in> set records" "en_Ref (cr_entry h) = en_Ref (cr_entry y)"
    "y = mark_record ?M (if ready h then merge_group (group_of records (merge_key h)) else h)" by blast
  ultimately have "ready h" using ok h(1) g(2) y(2) h(2) by (auto simp: found_ok_def)
  moreover have "merge_key h = merge_key g" using g(2) h(2) y(2) by (simp add: merge_key_def)
  ultimately show ?thesis using g(4) h(3) by simp
qed

lemma catalog_name_unique:
  assumes ok: "\<forall>h \<in> set records. found_ok L disk roots h" and "permutes_keys order"
    and x: "x \<in> set (sortRecords (markAmbiguous (mergeEqualDigests order records)))" "ready x"
    and y: "y \<in> set (sortRecords (markAmbiguous (mergeEqualDigests order records)))" "ref_Name (en_Ref (cr_entry y)) = ref_Name (en_Ref (cr_entry x))"
      "en_State (cr_entry y) \<noteq> EntryInvalid"
  shows "ref_Digest (en_Ref (cr_entry y)) = ref_Digest (en_Ref (cr_entry x))"
proof -
  let ?M = "mergeEqualDigests order records" and ?n = "ref_Name (en_Ref (cr_entry x))"
  from catalog_element [OF x(1)] obtain a where a: "a \<in> set ?M" "x = mark_record ?M a" by blast
  from catalog_element [OF y(1)] obtain b where b: "b \<in> set ?M" "y = mark_record ?M b" by blast
  have refs: "en_Ref (cr_entry x) = en_Ref (cr_entry a)" "en_Ref (cr_entry y) = en_Ref (cr_entry b)"
    using mark_record_source(1) a(2) b(2) by (auto simp: same_source_def)
  have a2: "ready a" "length (ready_digests ?M ?n) < 2"
    using x(2) mark_record_source(3) [of ?M a] a(2) refs by (auto simp: mark_record_def Let_def split: if_splits)
  from merged_source [OF b(1) assms(2)] obtain h where "h \<in> set records" "en_State (cr_entry b) = en_State (cr_entry h)" by blast
  then have "ready b \<or> en_State (cr_entry b) = EntryInvalid" using ok by (auto simp: found_ok_def)
  then have "ready b" using y(3) mark_record_source(3) [of ?M b] b(2) by auto
  then have "ref_Digest (en_Ref (cr_entry b)) \<in> set (ready_digests ?M ?n)" "ref_Digest (en_Ref (cr_entry a)) \<in> set (ready_digests ?M ?n)"
    using a b a2(1) y(2) refs by (auto simp: ready_digests_def)
  then show ?thesis using a2(2) refs by (cases "ready_digests ?M ?n"; cases "tl (ready_digests ?M ?n)") auto
qed

text \<open>Property C37. An activation is pinned and gated. Every activated skill comes from an enabled and trusted root that
  contains its directory, its requirements are met by the host, no other package of that name is in the
  catalog, no skill is activated twice, and the instructions are those of a package that was read during
  the activation and has the digest of the reference.
\<close>

theorem activation_is_pinned:
  assumes discover: "Discover L order disk t roots = (Inr c, t1)" and activate: "catalog_Activate L disk t2 c request = (Inr a, t3)"
    and "dirs_distinct disk" and "permutes_keys order" and hash: "\<forall>s. sl_sha256hex L s \<noteq> []"
  shows "distinct (map as_Ref (Skills a)) \<and>
    (\<forall>s \<in> set (Skills a). \<exists>x r. x \<in> set (the c) \<and> en_Ref (cr_entry x) = as_Ref s
      \<and> r \<in> set roots \<and> rt_Enabled r \<and> rt_Trusted r \<and> (\<exists>t dir. canonicalDirectory (disk t) (rt_Dir r) = Some dir \<and> pathWithin dir (cr_skillPath x))
      \<and> gate_open (mf_Requirements (en_Manifest (cr_entry x))) (aq_GateContext request)
      \<and> (\<forall>y \<in> set (the c). ref_Name (en_Ref (cr_entry y)) = ref_Name (as_Ref s) \<and> en_State (cr_entry y) \<noteq> EntryInvalid \<longrightarrow> en_Ref (cr_entry y) = as_Ref s)
      \<and> (\<exists>t source m files body. package_at L disk t x source m files \<and> files_digest L ((''SKILL.md'', source) # files) = ref_Digest (as_Ref s)
           \<and> skillBody source = Inr body \<and> s = activated_skill (as_Ref s) m body))"
  (is "_ \<and> (\<forall>s \<in> _. ?pinned s)")
proof -
  let ?g = "aq_GateContext request"
  from Discover_records [OF discover assms(3)] obtain records where
    c: "c = Some (sortRecords (markAmbiguous (mergeEqualDigests order records)))" and ok: "\<forall>h \<in> set records. found_ok L disk roots h" by blast
  from activate c obtain zs where run: "activate_refs L disk t2 c ?g [] (aq_Skills request) = (Inr zs, t3)" "a = Some (sort_by skill_before zs)"
    by (auto simp: catalog_Activate_def split: prod.splits sum.splits)
  note all = activate_refs_all [OF run(1)]
  have "mset (map as_Ref (Skills a)) = mset (map (\<lambda>z. as_Ref (ar_skill z)) zs)"
    by (simp add: run(2) Skills_def image_mset.compositionality comp_def)
  then have dist: "distinct (map as_Ref (Skills a))" using all by (metis mset_eq_imp_distinct_iff)
  have "?pinned s" if "s \<in> set (Skills a)" for s
  proof -
    from that obtain z where z: "z \<in> set zs" "s = ar_skill z" by (auto simp: run(2) Skills_def)
    with all have "activated_from L disk c ?g z" by blast
    then obtain ref e t t' source m body where f: "Resolve c ref = Inr e" "av_State (Evaluate e ?g) = AvailabilityEligible"
      "catalog_record c (en_Ref e) = Some (ar_record z)" "verifyRecord L disk t (ar_record z) = (Inr (source, m), t')"
      "skillBody source = Inr body" "s = activated_skill (en_Ref e) m body" unfolding activated_from_def z(2) by blast
    let ?x = "ar_record z"
    from Resolve_ready [OF f(1)] obtain w where w: "w \<in> set (the c)" "cr_entry w = e" "ready w" by (auto simp: c)
    from f(3) have x: "?x \<in> set (the c)" "en_Ref (cr_entry ?x) = en_Ref e"
      by (auto simp: catalog_record_def c find_Some_iff)
    have "?x = w" using catalog_ref_unique [OF ok assms(4) hash, of w ?x] w x c by simp
    then have e: "cr_entry ?x = e" "ready ?x" using w by simp_all
    have s: "as_Ref s = en_Ref e" using f(6) by (simp add: activated_skill_def)
    have "found_in disk roots ?x" using catalog_source(1) [OF ok assms(4), of ?x] x(1) c by simp
    moreover have el: "en_Trusted e" "gate_open (mf_Requirements (en_Manifest e)) ?g" using f(2) by (simp_all add: eligible_iff)
    ultimately obtain r where r: "r \<in> set roots" "rt_Enabled r" "rt_Trusted r"
      "\<exists>t dir. canonicalDirectory (disk t) (rt_Dir r) = Some dir \<and> pathWithin dir (cr_skillPath ?x)"
      using e unfolding found_in_def by auto
    have only: "\<forall>y \<in> set (the c). ref_Name (en_Ref (cr_entry y)) = ref_Name (as_Ref s) \<and> en_State (cr_entry y) \<noteq> EntryInvalid \<longrightarrow> en_Ref (cr_entry y) = as_Ref s"
      using catalog_name_unique [OF ok assms(4), of ?x] x(1) e s c by (auto intro: Ref.equality)
    from verifyRecord_package [OF f(4)] obtain files where "package_at L disk t ?x source m files"
      "files_digest L ((''SKILL.md'', source) # files) = ref_Digest (as_Ref s)" using e s by auto
    then have "\<exists>t source m files body. package_at L disk t ?x source m files \<and> files_digest L ((''SKILL.md'', source) # files) = ref_Digest (as_Ref s)
           \<and> skillBody source = Inr body \<and> s = activated_skill (as_Ref s) m body" using f(5,6) s by metis
    with only r el(2) e(1) x(1) s show ?thesis by (intro exI [of _ ?x] exI [of _ r]) simp
  qed
  then show ?thesis using dist by blast
qed

section \<open>A package in a root\<close>

definition demo_skill_libs :: "(string \<Rightarrow> string) \<Rightarrow> skill_libs" where
  "demo_skill_libs hash =
     \<lparr>sl_yaml = (\<lambda>front. Some \<lparr>sd_Name = ''s'', sd_Description = ''d'', sd_License = [],
          sd_Metadata = Some [(''goagents'', YMap [(''resources'', YMap [(''allow'', YList [YStr ''A''])])])]\<rparr>),
      sl_sha256hex = hash, 
      sl_parse = (\<lambda>uri. Some \<lparr>su_Scheme = ''skill'', su_User = Some (''s'', None), su_Host = uri, su_Path = ''/A'',
          su_RawPath = [], su_RawQuery = [], su_Fragment = []\<rparr>), sl_string = (\<lambda>u. su_Path u)\<rparr>"

text \<open>The directory \<open>/r/s\<close> with a \<open>SKILL.md\<close> and one resource.\<close>

definition demo_fs :: "string \<Rightarrow> string \<Rightarrow> FileSys" where
  "demo_fs skill res =
     \<lparr>fs_Abs = Some, fs_EvalSymlinks = LinkTo,
      fs_Stat = (\<lambda>p. if p = ''/r'' \<or> p = ''/r/s'' then Some DirFile else if p = ''/r/s/SKILL.md'' \<or> p = ''/r/s/A'' then Some RegularFile else None),
      fs_ReadFile = (\<lambda>p. if p = ''/r/s/SKILL.md'' then Some skill else if p = ''/r/s/A'' then Some res else None),
      fs_ReadDir = (\<lambda>p. Some [(''s'', True)])\<rparr>"

definition demo_root :: Root where
  "demo_root = \<lparr>rt_ID = ''r'', rt_Dir = ''/r'', rt_Scope = ScopeUser, rt_Trusted = True, rt_Enabled = True\<rparr>"

definition demo_activation :: ActivationRequest where
  "demo_activation = \<lparr>aq_Skills = [\<lparr>ref_Name = ''s'', ref_Digest = []\<rparr>], aq_GateContext = \<lparr>gc_OS = ''linux'', gc_HostFeatures = [], gc_AllowedToolIDs = []\<rparr>\<rparr>"

definition demo_front :: string where
  "demo_front = ''---'' @ [newline] @ ''name: s'' @ [newline] @ ''---'' @ [newline]"

definition demo_manifest :: Manifest where
  "demo_manifest = \<lparr>mf_Name = ''s'', mf_Description = ''d'', mf_License = [], mf_Requirements = no_requirements, mf_Resources = [''A''],
     mf_Metadata = Some [(''goagents'', YMap [(''resources'', YMap [(''allow'', YList [YStr ''A''])])])]\<rparr>"

lemma demo_paths:
  "path_Join ''/r'' ''s'' = ''/r/s''" "path_Join ''/r/s'' ''SKILL.md'' = ''/r/s/SKILL.md''" "path_Join ''/r/s'' ''A'' = ''/r/s/A''"
  "pathWithin ''/r'' ''/r/s''" "pathWithin ''/r/s'' ''/r/s/SKILL.md''" "pathWithin ''/r/s'' ''/r/s/A''" "validResourcePath ''A''"
  by code_simp+

lemma demo_contained:
  "canonicalDirectory (demo_fs skill res) ''/r'' = Some ''/r''" "canonicalDirectory (demo_fs skill res) ''/r/s'' = Some ''/r/s''"
  "readContainedFile (demo_fs skill res) ''/r/s'' ''SKILL.md'' = RContent skill"
  "readContainedFile (demo_fs skill res) ''/r/s'' ''A'' = RContent res"
  by (simp_all add: canonicalDirectory_def readContainedFile_def demo_paths demo_fs_def)

lemma demo_texts_skill: "TrimSpace ''s'' = ''s''" "TrimSpace ''A'' = ''A''" "TrimSpace ''d'' = ''d''" "TrimSpace ''r'' = ''r''" "TrimSpace ''/r'' = ''/r''"
  "rune_count ''d'' = 1"
  by (simp_all add: TrimSpace_ascii is_space_def rune_count_def rune_chunks_ascii)

lemma crlf_free: "CHR 0x0D \<notin> set s \<Longrightarrow> crlf_to_lf s = s"
  by (induction s rule: crlf_to_lf.induct) auto

lemma demo_split:
  assumes "CHR 0x0D \<notin> set body"
  shows "frontmatter_split (demo_front @ body) = Inr ([''name: s''], split_char newline body)"
proof -
  have "crlf_to_lf (demo_front @ body) = demo_front @ body" by (rule crlf_free) (use assms in \<open>simp add: demo_front_def\<close>)
  moreover have "split_char newline (demo_front @ body) = [''---'', ''name: s'', ''---''] @ split_char newline body"
    by (simp add: demo_front_def)
  moreover have "length (split_char newline body) \<noteq> 0" by simp
  ultimately show ?thesis by (simp add: frontmatter_split_def)
qed

lemma demo_parse:
  assumes "CHR 0x0D \<notin> set body"
  shows "ParseManifest (demo_skill_libs hash) ''s'' (demo_front @ body) = Inr demo_manifest"
proof -
  have "skillNamePattern ''s''" by code_simp
  then show ?thesis
    by (simp add: ParseManifest_def frontmatterDocument_def after_ok_def demo_split [OF assms] demo_skill_libs_def demo_manifest_def
        parseGoagentsMetadata_def optionalMetadataMap_def optionalStringList_def optionalResourceList_def ValidateManifest_def demo_texts_skill
        demo_paths no_requirements_def sort_by_def)
qed

lemma demo_body:
  assumes "CHR 0x0D \<notin> set body" and "TrimSpace body \<noteq> []"
  shows "skillBody (demo_front @ body) = Inr body"
  using assms by (simp add: skillBody_def demo_split join_split)

definition demo_record :: "(string \<Rightarrow> string) \<Rightarrow> string \<Rightarrow> string \<Rightarrow> catalogRecord" where
  "demo_record hash skill res = readyRecord demo_root demo_manifest (files_digest (demo_skill_libs hash) [(''SKILL.md'', skill), (''A'', res)]) ''/r/s''"

lemma demo_digest:
  "packageDigest L (\<lambda>t. demo_fs skill res) t ''/r/s'' skill [''A''] = (Some (files_digest L [(''SKILL.md'', skill), (''A'', res)]), Suc t)"
  by (simp add: packageDigest_def demo_contained)

lemma demo_discover:
  assumes "CHR 0x0D \<notin> set body" and "TrimSpace body \<noteq> []" and "length body \<le> maxSkillBodyBytes" and "order [merge_key (demo_record hash (demo_front @ body) res)] = [merge_key (demo_record hash (demo_front @ body) res)]"
  shows "\<exists>t1. Discover (demo_skill_libs hash) order (\<lambda>t. demo_fs (demo_front @ body) res) 0 [demo_root]
    = (Inr (Some [demo_record hash (demo_front @ body) res]), t1)"
proof -
  let ?s = "demo_front @ body" and ?L = "demo_skill_libs hash"
  have skill: "discoverSkill ?L (\<lambda>t. demo_fs ?s res) t ''/r'' demo_root ''s'' = (Some (demo_record hash ?s res), Suc (Suc (Suc t)))" for t
    using assms by (simp add: discoverSkill_def demo_paths demo_contained demo_parse demo_body demo_digest demo_record_def)
      (simp add: demo_manifest_def demo_digest)
  have v: "validateRoot demo_root [] = None" by (simp add: validateRoot_def demo_root_def demo_texts_skill)
  have r: "rt_Dir demo_root = ''/r''" "rt_Enabled demo_root" "rt_ID demo_root = ''r''" by (simp_all add: demo_root_def)
  have "discover_roots ?L (\<lambda>t. demo_fs ?s res) 0 [] [demo_root] = (Inr [demo_record hash ?s res], Suc (Suc (Suc (Suc (Suc 0)))))"
    by (simp add: v r demo_contained skill) (simp add: demo_fs_def skill [unfolded demo_fs_def])
  moreover have "mergeEqualDigests order [demo_record hash ?s res] = [demo_record hash ?s res]"
    using assms(4) by (simp add: mergeEqualDigests_def demo_record_def group_of_def merge_group_def sort_by_def)
      (simp add: readyRecord_def)
  moreover have "markAmbiguous [demo_record hash ?s res] = [demo_record hash ?s res]"
    by (simp add: markAmbiguous_def mark_record_def ready_digests_def)
  ultimately show ?thesis by (simp add: Discover_def sortRecords_def sort_by_def)
qed

lemma demo_record_fields:
  "en_Ref (cr_entry (demo_record hash skill res)) = \<lparr>ref_Name = ''s'', ref_Digest = files_digest (demo_skill_libs hash) [(''SKILL.md'', skill), (''A'', res)]\<rparr>"
  "cr_skillPath (demo_record hash skill res) = ''/r/s''"
  "Evaluate (cr_entry (demo_record hash skill res)) (aq_GateContext demo_activation) = \<lparr>av_State = AvailabilityEligible, av_Reasons = []\<rparr>"
  by (simp_all add: demo_record_def readyRecord_def demo_manifest_def demo_root_def Evaluate_def gate_reasons_def demo_activation_def no_requirements_def)

text \<open>The activation of the package of one state of the disk, in another state with the same digest.\<close>

lemma demo_activates:
  assumes "CHR 0x0D \<notin> set body" and "TrimSpace body \<noteq> []"
    and same: "files_digest (demo_skill_libs hash) [(''SKILL.md'', demo_front @ body), (''A'', res)]
      = files_digest (demo_skill_libs hash) [(''SKILL.md'', skill), (''A'', res')]"
  shows "\<exists>t1. catalog_Activate (demo_skill_libs hash) (\<lambda>t. demo_fs (demo_front @ body) res) 9 (Some [demo_record hash skill res']) demo_activation
    = (Inr (Some [\<lparr>ar_skill = activated_skill (en_Ref (cr_entry (demo_record hash skill res'))) demo_manifest body, ar_record = demo_record hash skill res'\<rparr>]), t1)"
proof -
  let ?L = "demo_skill_libs hash" and ?x = "demo_record hash skill res'"
  have resolve: "Resolve (Some [?x]) \<lparr>ref_Name = ''s'', ref_Digest = []\<rparr> = Inr (cr_entry ?x)"
    by (simp add: Resolve_def demo_record_fields demo_texts_skill) (simp add: demo_record_def)
  have found: "catalog_record (Some [?x]) (en_Ref (cr_entry ?x)) = Some ?x" by (simp add: catalog_record_def)
  have res: "mf_Resources demo_manifest = [''A'']" by (simp add: demo_manifest_def)
  have "verifyRecord ?L (\<lambda>t. demo_fs (demo_front @ body) res) t ?x = (Inr (demo_front @ body, demo_manifest), Suc (Suc t))" for t
    using assms(1) same by (simp add: verifyRecord_def demo_record_fields demo_contained demo_parse demo_digest res)
  with assms(1,2) resolve found
  have "activate_refs ?L (\<lambda>t. demo_fs (demo_front @ body) res) 9 (Some [?x]) (aq_GateContext demo_activation) [] (aq_Skills demo_activation)
      = (Inr [\<lparr>ar_skill = activated_skill (en_Ref (cr_entry ?x)) demo_manifest body, ar_record = ?x\<rparr>], 11)"
    by (simp add: demo_activation_def demo_body demo_record_fields [unfolded demo_activation_def, simplified])
  then show ?thesis by (simp add: catalog_Activate_def sort_by_def)
qed

definition demo_hidden :: string where
  "demo_hidden = [NUL] @ ''SKILL.md'' @ [NUL]"

definition instructions_before :: string where
  "instructions_before = ''two''"

definition instructions_after :: string where
  "instructions_after = ''one'' @ demo_hidden @ demo_front @ ''two''"

lemma demo_bodies:
  "CHR 0x0D \<notin> set instructions_before" "CHR 0x0D \<notin> set instructions_after" "TrimSpace instructions_before \<noteq> []" "TrimSpace instructions_after \<noteq> []"
  "length instructions_before \<le> maxSkillBodyBytes"
  by (simp_all add: instructions_before_def instructions_after_def demo_hidden_def demo_front_def TrimSpace_ascii is_space_def)

lemma demo_same_digest:
  "files_digest L [(''SKILL.md'', demo_front @ instructions_after), (''A'', ''x'')]
     = files_digest L [(''SKILL.md'', demo_front @ instructions_before), (''A'', ''x'' @ demo_hidden @ demo_front @ ''one'')]"
  by (simp add: files_digest_def digest_input_def sort_by_def instructions_before_def instructions_after_def demo_hidden_def)

text \<open>Property C39. The digest does not fix the package. A file may contain zero bytes, and the input of the digest
  separates names and contents by zero bytes without their lengths: whatever the hash function, content can
  move from a resource into \<open>SKILL.md\<close> under the same digest. Here the files of a catalogued skill are
  changed that way, and an activation under the unchanged reference succeeds with other instructions.
\<close>

theorem digest_ambiguous:
  "\<exists>c t1 a t2 b t3.
     Discover (demo_skill_libs hash) (\<lambda>ks. ks) (\<lambda>t. demo_fs (demo_front @ instructions_before) (''x'' @ demo_hidden @ demo_front @ ''one'')) 0 [demo_root] = (Inr c, t1)
     \<and> catalog_Activate (demo_skill_libs hash) (\<lambda>t. demo_fs (demo_front @ instructions_before) (''x'' @ demo_hidden @ demo_front @ ''one'')) 9 c demo_activation = (Inr a, t2)
     \<and> catalog_Activate (demo_skill_libs hash) (\<lambda>t. demo_fs (demo_front @ instructions_after) ''x'') 9 c demo_activation = (Inr b, t3)
     \<and> map as_Ref (Skills a) = map as_Ref (Skills b) \<and> map as_Content (Skills a) \<noteq> map as_Content (Skills b)"
proof -
  let ?res = "''x'' @ demo_hidden @ demo_front @ ''one''"
  from demo_discover [OF demo_bodies(1,3,5), of "\<lambda>ks. ks" hash ?res] obtain t1 where
    d: "Discover (demo_skill_libs hash) (\<lambda>ks. ks) (\<lambda>t. demo_fs (demo_front @ instructions_before) ?res) 0 [demo_root]
      = (Inr (Some [demo_record hash (demo_front @ instructions_before) ?res]), t1)" by blast
  from demo_activates [OF demo_bodies(1,3) refl, of hash ?res] obtain t2 where a:
    "catalog_Activate (demo_skill_libs hash) (\<lambda>t. demo_fs (demo_front @ instructions_before) ?res) 9
       (Some [demo_record hash (demo_front @ instructions_before) ?res]) demo_activation
     = (Inr (Some [\<lparr>ar_skill = activated_skill (en_Ref (cr_entry (demo_record hash (demo_front @ instructions_before) ?res))) demo_manifest instructions_before,
          ar_record = demo_record hash (demo_front @ instructions_before) ?res\<rparr>]), t2)" by blast
  from demo_activates [OF demo_bodies(2,4) demo_same_digest, of hash] obtain t3 where b:
    "catalog_Activate (demo_skill_libs hash) (\<lambda>t. demo_fs (demo_front @ instructions_after) ''x'') 9
       (Some [demo_record hash (demo_front @ instructions_before) ?res]) demo_activation
     = (Inr (Some [\<lparr>ar_skill = activated_skill (en_Ref (cr_entry (demo_record hash (demo_front @ instructions_before) ?res))) demo_manifest instructions_after,
          ar_record = demo_record hash (demo_front @ instructions_before) ?res\<rparr>]), t3)" by blast
  have "instructions_before \<noteq> instructions_after" by (simp add: instructions_before_def instructions_after_def)
  with d a b show ?thesis
    by (intro exI [of _ "Some [demo_record hash (demo_front @ instructions_before) ?res]"] exI conjI) (assumption+, simp_all add: Skills_def activated_skill_def)
qed

lemma demo_dirs: "dirs_distinct (\<lambda>t. demo_fs skill res)"
  by (auto simp: dirs_distinct_def demo_fs_def)

lemma demo_orders: "permutes_keys (\<lambda>ks. ks)" "permutes_keys rev"
  by (simp_all add: permutes_keys_def)

theorem catalog_order_independent_witness:
  "dirs_distinct (\<lambda>t. demo_fs demo_front []) \<and> permutes_keys (\<lambda>ks. ks) \<and> permutes_keys rev
    \<and> Discover (demo_skill_libs (\<lambda>s. s)) (\<lambda>ks. ks) (\<lambda>t. demo_fs demo_front []) 0 [demo_root]
      = Discover (demo_skill_libs (\<lambda>s. s)) rev (\<lambda>t. demo_fs demo_front []) 0 [demo_root]"
  using catalog_order_independent [OF demo_dirs demo_orders] demo_dirs demo_orders by blast

theorem activation_is_pinned_witness:
  "\<exists>c t1 a t3 s. Discover (demo_skill_libs (\<lambda>s. ''h'')) (\<lambda>ks. ks) (\<lambda>t. demo_fs (demo_front @ instructions_before) ''x'') 0 [demo_root] = (Inr c, t1)
     \<and> catalog_Activate (demo_skill_libs (\<lambda>s. ''h'')) (\<lambda>t. demo_fs (demo_front @ instructions_before) ''x'') 9 c demo_activation = (Inr a, t3)
     \<and> Skills a = [s] \<and> as_Content s = ''two'' \<and> distinct (map as_Ref (Skills a))"
proof -
  let ?h = "\<lambda>s. ''h''" and ?x = "demo_record (\<lambda>s. ''h'') (demo_front @ instructions_before) ''x''"
  from demo_discover [OF demo_bodies(1,3,5), of "\<lambda>ks. ks" ?h "''x''"] obtain t1 where
    d: "Discover (demo_skill_libs ?h) (\<lambda>ks. ks) (\<lambda>t. demo_fs (demo_front @ instructions_before) ''x'') 0 [demo_root] = (Inr (Some [?x]), t1)" by blast
  from demo_activates [OF demo_bodies(1,3) refl, of ?h "''x''"] obtain t2 where a:
    "catalog_Activate (demo_skill_libs ?h) (\<lambda>t. demo_fs (demo_front @ instructions_before) ''x'') 9 (Some [?x]) demo_activation
     = (Inr (Some [\<lparr>ar_skill = activated_skill (en_Ref (cr_entry ?x)) demo_manifest instructions_before, ar_record = ?x\<rparr>]), t2)" by blast
  have "\<forall>s. sl_sha256hex (demo_skill_libs ?h) s \<noteq> []" by (simp add: demo_skill_libs_def)
  from activation_is_pinned [OF d a demo_dirs demo_orders(1) this]
  have "distinct (map as_Ref (Skills (Some [\<lparr>ar_skill = activated_skill (en_Ref (cr_entry ?x)) demo_manifest instructions_before, ar_record = ?x\<rparr>])))" by (rule conjunct1)
  moreover have "as_Content (activated_skill (en_Ref (cr_entry ?x)) demo_manifest instructions_before) = ''two''"
    by (simp add: activated_skill_def instructions_before_def)
  ultimately show ?thesis
    by (intro exI [of _ "activated_skill (en_Ref (cr_entry ?x)) demo_manifest instructions_before"] exI conjI) (rule d, rule a, simp_all add: Skills_def)
qed

section \<open>Laws of resources\<close>

lemma resource_target_allowed:
  assumes "resource_target L a uri = Inr (z, resource)"
  shows "\<exists>zs. a = Some zs \<and> z \<in> set zs \<and> validResourcePath resource \<and> resource_allowed z resource"
  using assms
  by (auto simp: resource_target_def after_ok_def activation_record_def find_Some_iff split: option.splits prod.splits if_splits sum.splits)

lemma read_resources_quiet:
  "fst (read_resources (\<lambda>t. fs) t p resources) = Some files \<Longrightarrow> r \<in> set resources \<Longrightarrow> readContainedFile fs p r = RContent content \<Longrightarrow> (r, content) \<in> set files"
proof (induction resources arbitrary: t files)
  case Nil
  then show ?case by simp
next
  case (Cons q resources)
  obtain rest s where rest: "read_resources (\<lambda>t. fs) (Suc t) p resources = (rest, s)" by (metis surj_pair)
  with Cons.prems(1) obtain c ws where q: "readContainedFile fs p q = RContent c" "rest = Some ws" "files = (q, c) # ws"
    by (cases rest) (auto split: read_result.splits)
  from Cons.IH [of "Suc t" ws] Cons.prems(2,3) rest q show ?case by (cases "r = q") auto
qed

text \<open>
  While the disk is quiet, a resource that is read is on the allowlist of an activated skill, names a file
  below its directory, is of bounded size, and belongs to a package with the digest of that skill.
\<close>

theorem resource_read_pinned:
  assumes "ReadResource L (\<lambda>t. fs) t a uri = (Inr content, t')"
  shows "\<exists>z resource source m files. z \<in> set (the a) \<and> resource_allowed z resource \<and> validResourcePath resource \<and> length content \<le> maxResourceBytes
    \<and> package_at L (\<lambda>t. fs) t (ar_record z) source m files
    \<and> files_digest L ((''SKILL.md'', source) # files) = ref_Digest (en_Ref (cr_entry (ar_record z)))
    \<and> (resource \<in> set (mf_Resources m) \<longrightarrow> (resource, content) \<in> set files)"
proof -
  from assms obtain z resource where z: "resource_target L a uri = Inr (z, resource)" by (auto simp: ReadResource_def split: sum.splits)
  obtain v t1 where v: "verifyRecord L (\<lambda>t. fs) t (ar_record z) = (v, t1)" by (metis surj_pair)
  with assms z obtain source m where sm: "v = Inr (source, m)" by (cases v) (auto simp: ReadResource_def)
  with assms z v have c: "readContainedFile fs (cr_skillPath (ar_record z)) resource = RContent content" "length content \<le> maxResourceBytes"
    by (auto simp: ReadResource_def split: read_result.splits if_splits)
  from verifyRecord_package [OF v [unfolded sm]] obtain files where f: "package_at L (\<lambda>t. fs) t (ar_record z) source m files"
    "files_digest L ((''SKILL.md'', source) # files) = ref_Digest (en_Ref (cr_entry (ar_record z)))" by blast
  from f(1) have "resource \<in> set (mf_Resources m) \<longrightarrow> (resource, content) \<in> set files"
    using read_resources_quiet [OF _ _ c(1)] by (auto simp: package_at_def)
  with resource_target_allowed [OF z] c f show ?thesis
    by (intro exI [of _ z] exI [of _ resource] exI [of _ source] exI [of _ m] exI [of _ files]) auto
qed

text \<open>
  The check of the digest and the read of the resource are separate: a file that changes between them is
  returned although it is not part of the pinned package.
\<close>

theorem racing_resource_read:
  fixes hash :: "string \<Rightarrow> string" and before after :: FileSys
  defines "before \<equiv> demo_fs (demo_front @ instructions_before) ''old''" and "after \<equiv> demo_fs (demo_front @ instructions_before) ''new''"
    and "z \<equiv> \<lparr>ar_skill = activated_skill (en_Ref (cr_entry (demo_record hash (demo_front @ instructions_before) ''old''))) demo_manifest instructions_before,
          ar_record = demo_record hash (demo_front @ instructions_before) ''old''\<rparr>"
  assumes "\<forall>s. hash s \<noteq> []"
  shows "fst (ReadResource (demo_skill_libs hash) (\<lambda>t. if t < 2 then before else after) 0 (Some [z]) (ref_Digest (as_Ref (ar_skill z)))) = Inr ''new''"
proof -
  let ?L = "demo_skill_libs hash" and ?disk = "\<lambda>t. if t < (2 :: nat) then before else after"
  have ref: "as_Ref (ar_skill z) = \<lparr>ref_Name = ''s'', ref_Digest = files_digest ?L [(''SKILL.md'', demo_front @ instructions_before), (''A'', ''old'')]\<rparr>"
    by (simp add: z_def activated_skill_def demo_record_fields)
  have ne: "files_digest ?L files \<noteq> []" for files using assms(4) by (simp add: files_digest_def demo_skill_libs_def)
  have A: "resource_allowed z ''A''" by (simp add: resource_allowed_def z_def demo_record_def readyRecord_def demo_manifest_def)
  have "activation_record (Some [z]) (as_Ref (ar_skill z)) = Inr z" using ne by (simp add: activation_record_def ref)
  then have target: "resource_target ?L (Some [z]) (ref_Digest (as_Ref (ar_skill z))) = Inr (z, ''A'')"
    using ne A by (simp add: resource_target_def demo_skill_libs_def after_ok_def ref demo_paths)
  have res: "mf_Resources demo_manifest = [''A'']" by (simp add: demo_manifest_def)
  have rec: "ar_record z = demo_record hash (demo_front @ instructions_before) ''old''" by (simp add: z_def)
  have "verifyRecord ?L ?disk 0 (ar_record z) = (Inr (demo_front @ instructions_before, demo_manifest), 2)"
    using demo_bodies(1) by (simp add: verifyRecord_def rec demo_record_fields before_def demo_contained demo_parse packageDigest_def res)
  with target show ?thesis by (simp add: ReadResource_def rec demo_record_fields after_def demo_contained)
qed

end
