(* ===== verification/Artifact_Store.thy ===== *)
theory Artifact_Store
  imports Go_Paths
begin

text \<open>
  \<open>artifactkit\<close>: the in-memory store (\<open>store.go\<close>) and the file store (\<open>filestore.go\<close>), with the contract
  they share as a locale.

  The JSON encoding of a record, the clock and the errors of the operating system are fields of
  \<open>file_libs\<close>; a write that fails may leave any bytes in the file it wrote to. The file names are
  the URL-safe base64 encoding of the references, written out.
\<close>

section \<open>Artifacts\<close>

record Artifact =
  art_Ref :: string
  art_Content :: string
  art_ContentType :: string
  art_Metadata :: "metadata option"

datatype art_err = ArtCtx ctx_error | ArtRefRequired | ErrArtifactNotFound string | ArtRootRequired | ArtOS string | ArtJSON

definition art_cloneMetadata :: "metadata option \<Rightarrow> metadata option" where
  "art_cloneMetadata md = (case md of None \<Rightarrow> None | Some m \<Rightarrow> if m = [] then None else Some m)"

definition cloneArtifact :: "Artifact \<Rightarrow> Artifact" where
  "cloneArtifact a = a\<lparr>art_Metadata := art_cloneMetadata (art_Metadata a)\<rparr>"

type_synonym artifact_map = "(string, Artifact) gomap"

definition memory_Put :: "ctx \<Rightarrow> Artifact \<Rightarrow> artifact_map \<Rightarrow> art_err option \<times> artifact_map" where
  "memory_Put ctx a s = (case ctx of
      Some e \<Rightarrow> (Some (ArtCtx e), s)
    | None \<Rightarrow> if TrimSpace (art_Ref a) = [] then (Some ArtRefRequired, s)
              else (None, AList.update (art_Ref a) (cloneArtifact a) s))"

definition memory_Get :: "ctx \<Rightarrow> string \<Rightarrow> artifact_map \<Rightarrow> art_err + Artifact" where
  "memory_Get ctx ref s = (case ctx of
      Some e \<Rightarrow> Inl (ArtCtx e)
    | None \<Rightarrow> (case map_of s ref of None \<Rightarrow> Inl (ErrArtifactNotFound ref) | Some a \<Rightarrow> Inr (cloneArtifact a)))"

section \<open>The file store\<close>

record fileArtifact =
  fa_Ref :: string
  fa_Content :: string
  fa_ContentType :: string
  fa_Metadata :: "metadata option"
  fa_CreatedAt :: time

record file_libs =
  fl_json :: "fileArtifact \<Rightarrow> string option"
  fl_unjson :: "string \<Rightarrow> fileArtifact option"
  fl_mkdir :: "string \<Rightarrow> string option"
  fl_write :: "string \<Rightarrow> (string \<times> string option) option"
  fl_rename :: "string \<Rightarrow> string option"
  fl_read :: "string \<Rightarrow> string option"
  fl_remove :: "string \<Rightarrow> bool"

type_synonym files = "string \<Rightarrow> string option"

text \<open>\<open>base64.RawURLEncoding\<close>: three bytes give four letters, one or two left over give two or three.\<close>

definition url_code :: "nat \<Rightarrow> nat" where
  "url_code n = (if n < 26 then 65 + n else if n < 52 then 71 + n else if n < 62 then n - 4 else if n = 62 then 45 else 95)"

definition url_letter :: "nat \<Rightarrow> char" where
  "url_letter n = char_of (url_code n)"

fun url_base64 :: "string \<Rightarrow> string" where
  "url_base64 [] = []"
| "url_base64 [a] = (let n = byte a * 16 in [url_letter (n div 64), url_letter (n mod 64)])"
| "url_base64 [a, b] = (let n = (byte a * 256 + byte b) * 4 in [url_letter (n div 4096), url_letter (n div 64 mod 64), url_letter (n mod 64)])"
| "url_base64 (a # b # c # s) =
     (let n = (byte a * 256 + byte b) * 256 + byte c
      in [url_letter (n div 262144), url_letter (n div 4096 mod 64), url_letter (n div 64 mod 64), url_letter (n mod 64)] @ url_base64 s)"

definition NewFileStore :: "file_libs \<Rightarrow> string \<Rightarrow> art_err + string" where
  "NewFileStore F dir =
     (if TrimSpace dir = [] then Inl ArtRootRequired
      else case fl_mkdir F (path_Join (path_Clean dir) ''objects'') of Some e \<Rightarrow> Inl (ArtOS e) | None \<Rightarrow> Inr (path_Clean dir))"

definition store_path :: "string \<Rightarrow> string \<Rightarrow> string" where
  "store_path base ref = path_Clean (base @ [slash] @ ''objects'' @ [slash] @ url_base64 ref @ ''.json'')"

definition file_record :: "Artifact \<Rightarrow> time \<Rightarrow> fileArtifact" where
  "file_record a now = \<lparr>fa_Ref = art_Ref a, fa_Content = art_Content a, fa_ContentType = art_ContentType a,
     fa_Metadata = art_cloneMetadata (art_Metadata a), fa_CreatedAt = now\<rparr>"

text \<open>The context is read at the start and after the write of the temporary file.\<close>

definition file_Put :: "file_libs \<Rightarrow> string \<Rightarrow> ctx \<Rightarrow> ctx \<Rightarrow> time \<Rightarrow> Artifact \<Rightarrow> files \<Rightarrow> art_err option \<times> files" where
  "file_Put F base ctx ctx' now a fs = (case ctx of
      Some e \<Rightarrow> (Some (ArtCtx e), fs)
    | None \<Rightarrow>
        if TrimSpace (art_Ref a) = [] then (Some ArtRefRequired, fs)
        else (case fl_json F (file_record a now) of
          None \<Rightarrow> (Some ArtJSON, fs)
        | Some encoded \<Rightarrow>
            (let p = store_path base (art_Ref a); tmp = p @ ''.tmp''; encoded = encoded @ [CHR 0x0A]
             in case fl_write F tmp of
                  Some (e, left) \<Rightarrow> (Some (ArtOS e), fs(tmp := left))
                | None \<Rightarrow>
                    (let fs = fs(tmp \<mapsto> encoded)
                     in case ctx' of
                          Some e \<Rightarrow> (Some (ArtCtx e), if fl_remove F tmp then fs(tmp := None) else fs)
                        | None \<Rightarrow> (case fl_rename F tmp of
                            Some e \<Rightarrow> (Some (ArtOS e), fs)
                          | None \<Rightarrow> (None, fs(tmp := None, p \<mapsto> encoded)))))))"

definition file_Get :: "file_libs \<Rightarrow> string \<Rightarrow> ctx \<Rightarrow> string \<Rightarrow> files \<Rightarrow> art_err + Artifact" where
  "file_Get F base ctx ref fs = (case ctx of
      Some e \<Rightarrow> Inl (ArtCtx e)
    | None \<Rightarrow> (case fs (store_path base ref) of
        None \<Rightarrow> Inl (ErrArtifactNotFound ref)
      | Some raw \<Rightarrow> (case fl_read F (store_path base ref) of
          Some e \<Rightarrow> Inl (ArtOS e)
        | None \<Rightarrow> (case fl_unjson F raw of
            None \<Rightarrow> Inl ArtJSON
          | Some r \<Rightarrow> Inr (cloneArtifact \<lparr>art_Ref = fa_Ref r, art_Content = fa_Content r, art_ContentType = fa_ContentType r, art_Metadata = fa_Metadata r\<rparr>)))))"

section \<open>The contract of a store\<close>

text \<open>A sequence of calls and the artifacts of those that succeeded.\<close>

primrec run_puts :: "('c \<Rightarrow> Artifact \<Rightarrow> 's \<Rightarrow> art_err option \<times> 's) \<Rightarrow> ('c \<times> Artifact) list \<Rightarrow> 's \<Rightarrow> Artifact list \<times> 's" where
  "run_puts put [] s = ([], s)"
| "run_puts put (x # xs) s = (case put (fst x) (snd x) s of (r, s1) \<Rightarrow>
     (case run_puts put xs s1 of (stored, s2) \<Rightarrow> ((if r = None then snd x # stored else stored), s2)))"

text \<open>
  \<open>put a s\<close> is a call of Put with some context and clock, \<open>stores\<close> says which artifacts the encoding keeps,
  and \<open>get\<close> reads with a live context.
\<close>

locale artifact_store =
  fixes put :: "'c \<Rightarrow> Artifact \<Rightarrow> 's \<Rightarrow> art_err option \<times> 's"
    and get :: "string \<Rightarrow> 's \<Rightarrow> art_err + Artifact"
    and stores :: "Artifact \<Rightarrow> bool"
  assumes get_put: "put c a s = (None, s') \<Longrightarrow> stores a \<Longrightarrow> get (art_Ref a) s' = Inr (cloneArtifact a)"
    and get_other: "put c a s = (r, s') \<Longrightarrow> ref \<noteq> art_Ref a \<Longrightarrow> get ref s' = get ref s"
    and get_failed: "put c a s = (Some e, s') \<Longrightarrow> get ref s' = get ref s"
begin

text \<open>After any calls, a reference holds the artifact of its last successful put, and what it held before without one.\<close>

lemma last_put_wins:
  assumes "run_puts put xs s = (stored, s')" and "list_all (\<lambda>x. stores (snd x)) xs"
  shows "get ref s' = (case filter (\<lambda>a. art_Ref a = ref) stored of [] \<Rightarrow> get ref s | as \<Rightarrow> Inr (cloneArtifact (List.last as)))"
  using assms
proof (induction xs arbitrary: s stored)
  case Nil
  then show ?case by simp
next
  case (Cons x xs)
  obtain r s1 where one: "put (fst x) (snd x) s = (r, s1)" by (metis surj_pair)
  obtain more s2 where rest: "run_puts put xs s1 = (more, s2)" by (metis surj_pair)
  with Cons.prems one have eq: "s2 = s'" "stored = (if r = None then snd x # more else more)" by auto
  have ih: "get ref s' = (case filter (\<lambda>a. art_Ref a = ref) more of [] \<Rightarrow> get ref s1 | as \<Rightarrow> Inr (cloneArtifact (List.last as)))"
    using Cons.IH [OF rest [unfolded eq(1)]] Cons.prems(2) by simp
  show ?case
  proof (cases "r = None \<and> art_Ref (snd x) = ref")
    case True
    with get_put one Cons.prems(2) have "get ref s1 = Inr (cloneArtifact (snd x))" by auto
    with ih eq True show ?thesis by (cases "filter (\<lambda>a. art_Ref a = ref) more") auto
  next
    case False
    then have same: "get ref s1 = get ref s" using get_failed get_other one by (cases r) auto
    have "filter (\<lambda>a. art_Ref a = ref) stored = filter (\<lambda>a. art_Ref a = ref) more" using eq(2) False by auto
    with ih same show ?thesis by (simp only:)
  qed
qed

end

lemma clone_idem [simp]: "cloneArtifact (cloneArtifact a) = cloneArtifact a"
  by (simp add: cloneArtifact_def art_cloneMetadata_def split: option.splits)

interpretation memory_artifacts: artifact_store memory_Put "memory_Get None" "\<lambda>a. True"
proof
  fix c a s s' assume "memory_Put c a s = (None, s')"
  then show "memory_Get None (art_Ref a) s' = Inr (cloneArtifact a)"
    by (auto simp: memory_Put_def memory_Get_def split: option.splits if_splits)
next
  fix c a s r s' ref assume "memory_Put c a s = (r, s')" "ref \<noteq> art_Ref a"
  then show "memory_Get None ref s' = memory_Get None ref s"
    by (auto simp: memory_Put_def memory_Get_def split: option.splits if_splits)
next
  fix c a s e s' ref assume "memory_Put c a s = (Some e, s')"
  then show "memory_Get None ref s' = memory_Get None ref s"
    by (auto simp: memory_Put_def split: option.splits if_splits)
qed

section \<open>The names of the files\<close>

lemma url_code_bound: "n < 64 \<Longrightarrow> url_code n < 256"
  by (auto simp: url_code_def)

lemma url_code_inj: "m < 64 \<Longrightarrow> n < 64 \<Longrightarrow> url_code m = url_code n \<Longrightarrow> m = n"
  unfolding url_code_def by (simp split: if_split_asm)

lemma byte_letter: "n < 64 \<Longrightarrow> byte (url_letter n) = url_code n"
  using url_code_bound by (simp add: url_letter_def)

lemma url_letter_inj: "m < 64 \<Longrightarrow> n < 64 \<Longrightarrow> url_letter m = url_letter n \<Longrightarrow> m = n"
  using byte_letter url_code_inj by metis

lemma url_letter_ok:
  assumes "n < 64"
  shows "url_letter n \<noteq> slash"
proof
  assume "url_letter n = slash"
  then have "byte (url_letter n) = byte slash" by (simp only:)
  then have "url_code n = 47" using byte_letter [OF assms] by simp
  with assms show False by (simp add: url_code_def split: if_split_asm)
qed

lemma next_digit:
  fixes n m k :: nat
  assumes "n div (k * 64) = m div (k * 64)" and "n div k mod 64 = m div k mod 64"
  shows "n div k = m div k"
proof -
  have "n div k = n div (k * 64) * 64 + n div k mod 64" "m div k = m div (k * 64) * 64 + m div k mod 64"
    by (simp_all only: div_mult2_eq div_mult_mod_eq)
  with assms show ?thesis by simp
qed

lemma next_byte: "x * 256 + c = y * 256 + d \<Longrightarrow> c < 256 \<Longrightarrow> d < 256 \<Longrightarrow> x = y \<and> c = (d :: nat)"
proof -
  assume eq: "x * 256 + c = y * 256 + d" and b: "c < 256" "d < 256"
  have "(x * 256 + c) div 256 = x" "(y * 256 + d) div 256 = y" using b by simp_all
  with eq have "x = y" by simp
  with eq show "x = y \<and> c = d" by simp
qed

lemma four_digits:
  fixes n m :: nat
  assumes "n div 262144 = m div 262144" and "n div 4096 mod 64 = m div 4096 mod 64" and "n div 64 mod 64 = m div 64 mod 64" and "n mod 64 = m mod 64"
  shows "n = m"
proof -
  have "n div 4096 = m div 4096" using next_digit [of n 4096 m] assms(1,2) by simp
  then have "n div 64 = m div 64" using next_digit [of n 64 m] assms(3) by simp
  then show ?thesis using next_digit [of n 1 m] assms(4) by simp
qed

lemma two_bytes: "(a :: nat) < 256 \<Longrightarrow> b < 256 \<Longrightarrow> (a * 256 + b) * 4 < 64 * 4096"
  by simp

lemma three_bytes: "(a :: nat) < 256 \<Longrightarrow> b < 256 \<Longrightarrow> c < 256 \<Longrightarrow> (a * 256 + b) * 256 + c < 64 * 262144"
  by simp

lemma letters_digits:
  assumes "url_letter (n div k) = url_letter (m div k)" and "n < 64 * k" "m < 64 * k"
  shows "n div k = m div k"
  using assms less_mult_imp_div_less url_letter_inj by blast

lemma url_base64_inj: "url_base64 s = url_base64 s' \<Longrightarrow> s = s'"
proof (induction s arbitrary: s' rule: url_base64.induct)
  case 1
  then show ?case by (cases s' rule: url_base64.cases) (simp_all add: Let_def)
next
  case (2 a)
  then obtain b where s': "s' = [b]" by (cases s' rule: url_base64.cases) (auto simp: Let_def)
  define n m where "n = byte a * 16" and "m = byte b * 16"
  have "n < 64 * 64" "m < 64 * 64" using nat_of_char_less_256 [of a] nat_of_char_less_256 [of b] unfolding n_def m_def by linarith+
  moreover have "url_letter (n div 64) = url_letter (m div 64)" "url_letter (n mod 64) = url_letter (m mod 64)"
    using 2 unfolding s' url_base64.simps Let_def n_def m_def by (simp_all only: list.inject)
  ultimately have "n div 64 = m div 64" "n mod 64 = m mod 64" using letters_digits url_letter_inj [of "n mod 64" "m mod 64"] by simp_all
  then have "n = m" by (metis div_mult_mod_eq)
  then show ?case by (simp add: s' n_def m_def)
next
  case (3 a b)
  then obtain a' b' where s': "s' = [a', b']" by (cases s' rule: url_base64.cases) (auto simp: Let_def)
  define n m where "n = (byte a * 256 + byte b) * 4" and "m = (byte a' * 256 + byte b') * 4"
  have b: "n < 64 * 4096" "m < 64 * 4096"
    unfolding n_def m_def by (rule two_bytes; simp)+
  have l: "url_letter (n div 4096) = url_letter (m div 4096)" "url_letter (n div 64 mod 64) = url_letter (m div 64 mod 64)"
    "url_letter (n mod 64) = url_letter (m mod 64)"
    using 3 unfolding s' url_base64.simps Let_def n_def m_def by (simp_all only: list.inject)
  have "n div 262144 = 0" "m div 262144 = 0" using b by simp_all
  then have high: "n div 262144 = m div 262144" by (simp only:)
  have "n div 4096 = m div 4096" by (rule letters_digits [OF l(1) b])
  then have second: "n div 4096 mod 64 = m div 4096 mod 64" by (simp only:)
  have "n div 64 mod 64 = m div 64 mod 64" "n mod 64 = m mod 64" by (rule url_letter_inj [OF _ _ l(2)] url_letter_inj [OF _ _ l(3)]; simp)+
  from four_digits [OF high second this] have "n = m" .
  then have "byte a * 256 + byte b = byte a' * 256 + byte b'" unfolding n_def m_def by simp
  from next_byte [OF this] show ?case by (simp add: s')
next
  case (4 a b c s)
  then obtain a' b' c' r where s': "s' = a' # b' # c' # r" by (cases s' rule: url_base64.cases) (auto simp: Let_def)
  define n m where "n = (byte a * 256 + byte b) * 256 + byte c" and "m = (byte a' * 256 + byte b') * 256 + byte c'"
  have b: "n < 64 * 262144" "m < 64 * 262144"
    unfolding n_def m_def by (rule three_bytes; simp)+
  have l: "url_letter (n div 262144) = url_letter (m div 262144)" "url_letter (n div 4096 mod 64) = url_letter (m div 4096 mod 64)"
    "url_letter (n div 64 mod 64) = url_letter (m div 64 mod 64)" "url_letter (n mod 64) = url_letter (m mod 64)" "url_base64 s = url_base64 r"
    using 4(2) unfolding s' url_base64.simps Let_def n_def m_def by (simp_all only: list.inject append_Cons append_Nil)
  have "n = m" by (rule four_digits) (use letters_digits [OF l(1) b] l(2-4) url_letter_inj in simp_all)
  then have "(byte a * 256 + byte b) * 256 + byte c = (byte a' * 256 + byte b') * 256 + byte c'" unfolding n_def m_def .
  from next_byte [OF this] have "byte a * 256 + byte b = byte a' * 256 + byte b'" "c = c'" by simp_all
  moreover from next_byte [OF this(1)] have "a = a'" "b = b'" by simp_all
  ultimately show ?case using 4(1) l(5) by (simp add: s')
qed

lemma url_base64_no_slash: "slash \<notin> set (url_base64 s)"
proof (induction s rule: url_base64.induct)
  case (2 a)
  have "byte a * 16 < 64 * 64" using nat_of_char_less_256 [of a] by simp
  then have "byte a * 16 div 64 < 64" by (rule less_mult_imp_div_less)
  then show ?case using url_letter_ok [symmetric] by (simp add: Let_def del: div_mult2_eq)
next
  case (3 a b)
  have "(byte a * 256 + byte b) * 4 < 64 * 4096" by (rule two_bytes) simp_all
  then have "(byte a * 256 + byte b) * 4 div 4096 < 64" by (rule less_mult_imp_div_less)
  then show ?case using url_letter_ok [symmetric] by (simp add: Let_def)
next
  case (4 a b c s)
  have "(byte a * 256 + byte b) * 256 + byte c < 64 * 262144" by (rule three_bytes) simp_all
  then have "((byte a * 256 + byte b) * 256 + byte c) div 262144 < 64" by (rule less_mult_imp_div_less)
  then show ?case using 4 url_letter_ok [symmetric] by (simp add: Let_def)
qed simp

lemma join_snoc: "ws \<noteq> [] \<Longrightarrow> string_join sep (ws @ [w]) = string_join sep ws @ sep @ w"
proof (induction ws)
  case (Cons v ws)
  then show ?case by (cases ws) (simp_all add: string_join_Cons)
qed simp

text \<open>The files of a store lie in one directory, one for each reference, and none is a temporary file.\<close>

lemma store_path_shape:
  assumes "base \<noteq> []"
  shows "\<exists>dir. \<forall>ref. store_path base ref = dir @ [slash] @ url_base64 ref @ ''.json''"
proof -
  let ?W = "clean_words (path_rooted base) [] (split_char slash base) @ [''objects'']"
  { fix ref
    let ?n = "url_base64 ref @ ''.json''" and ?p = "base @ [slash] @ ''objects'' @ [slash] @ url_base64 ref @ ''.json''"
    have n: "slash \<notin> set ?n" "plain_word ?n" using url_base64_no_slash by (auto simp: plain_word_def append_eq_Cons_conv)
    have "split_char slash ?p = split_char slash base @ [''objects'', ?n]" using n(1) by (simp add: split_append split_char_free)
    moreover have "list_all plain_word [''objects'', ?n]" using n(2) by (simp add: plain_word_def)
    moreover have "path_rooted ?p = path_rooted base" using assms by (cases base) (auto simp: path_rooted_def)
    ultimately have "path_Clean ?p = (if path_rooted base then [slash] else []) @ string_join [slash] (?W @ [?n])"
      by (simp add: path_Clean_def clean_words_append_plain Let_def join_Nil_iff join_snoc)
        (simp add: join_snoc [of "w @ [v]" for w v, simplified])
    then have "store_path base ref = ((if path_rooted base then [slash] else []) @ string_join [slash] ?W) @ [slash] @ ?n"
      by (simp add: store_path_def join_snoc [of ?W, simplified]) }
  then show ?thesis by blast
qed

lemma store_path_inj:
  assumes "base \<noteq> []"
  shows "store_path base r = store_path base r' \<longleftrightarrow> r = r'" and "store_path base r \<noteq> store_path base r' @ ''.tmp''"
proof -
  from store_path_shape [OF assms] obtain dir where p: "store_path base ref = dir @ [slash] @ url_base64 ref @ ''.json''" for ref by blast
  show "store_path base r = store_path base r' \<longleftrightarrow> r = r'" by (auto simp: p dest: url_base64_inj)
  have "List.last (store_path base r) = CHR ''n''" "List.last (store_path base r' @ ''.tmp'') = CHR ''p''" by (simp_all add: p)
  then show "store_path base r \<noteq> store_path base r' @ ''.tmp''" by auto
qed

section \<open>The file store meets the contract\<close>

text \<open>The encoding keeps an artifact when decoding gives back the record that was written, up to its time.\<close>

definition file_keeps :: "file_libs \<Rightarrow> Artifact \<Rightarrow> bool" where
  "file_keeps F a \<longleftrightarrow> (\<forall>now encoded. fl_json F (file_record a now) = Some encoded \<longrightarrow> (\<exists>t. fl_unjson F (encoded @ [CHR 0x0A]) = Some (file_record a t)))"

type_synonym put_call = "ctx \<times> ctx \<times> time"

definition file_put_call :: "file_libs \<Rightarrow> string \<Rightarrow> put_call \<Rightarrow> Artifact \<Rightarrow> files \<Rightarrow> art_err option \<times> files" where
  "file_put_call F base c = file_Put F base (fst c) (fst (snd c)) (snd (snd c))"

lemma file_Put_failed:
  assumes "file_Put F base c c' now a fs = (Some e, fs')"
  shows "\<exists>v. fs' = fs \<or> fs' = fs(store_path base (art_Ref a) @ ''.tmp'' := v)"
  using assms by (auto simp: file_Put_def Let_def split: option.splits if_splits)

lemma file_Put_done:
  assumes "file_Put F base c c' now a fs = (None, fs')"
  shows "\<exists>encoded. fl_json F (file_record a now) = Some encoded \<and> TrimSpace (art_Ref a) \<noteq> []
    \<and> fs' = fs(store_path base (art_Ref a) @ ''.tmp'' := None, store_path base (art_Ref a) \<mapsto> encoded @ [CHR 0x0A])"
  using assms by (auto simp: file_Put_def Let_def split: option.splits if_splits)

lemma file_store_contract:
  assumes base: "base \<noteq> []" and reads: "\<forall>p. fl_read F p = None"
  shows "artifact_store (file_put_call F base) (file_Get F base None) (file_keeps F)"
proof
  fix c a fs fs' assume run: "file_put_call F base c a fs = (None, fs')" and keeps: "file_keeps F a"
  from file_Put_done [OF run [unfolded file_put_call_def]] obtain encoded where e: "fl_json F (file_record a (snd (snd c))) = Some encoded"
    "fs' (store_path base (art_Ref a)) = Some (encoded @ [CHR 0x0A])" by auto
  with keeps obtain t where "fl_unjson F (encoded @ [CHR 0x0A]) = Some (file_record a t)" by (auto simp: file_keeps_def)
  with e reads show "file_Get F base None (art_Ref a) fs' = Inr (cloneArtifact a)"
    by (cases "art_Metadata a") (simp_all add: file_Get_def file_record_def cloneArtifact_def art_cloneMetadata_def)
next
  fix c a fs r fs' ref assume run: "file_put_call F base c a fs = (r, fs')" and other: "ref \<noteq> art_Ref a"
  have "fs' (store_path base ref) = fs (store_path base ref)"
  proof (cases r)
    case None
    with file_Put_done [of F base _ _ _ a fs fs'] run store_path_inj [OF base] other show ?thesis by (fastforce simp: file_put_call_def)
  next
    case (Some e)
    with file_Put_failed [of F base _ _ _ a fs e fs'] run store_path_inj [OF base] show ?thesis by (fastforce simp: file_put_call_def)
  qed
  then show "file_Get F base None ref fs' = file_Get F base None ref fs" by (simp add: file_Get_def)
next
  fix c a fs e fs' ref assume run: "file_put_call F base c a fs = (Some e, fs')"
  from file_Put_failed [OF run [unfolded file_put_call_def]] store_path_inj(2) [OF base]
  have "fs' (store_path base ref) = fs (store_path base ref)" by auto
  then show "file_Get F base None ref fs' = file_Get F base None ref fs" by (simp add: file_Get_def)
qed

lemma run_puts_nonblank:
  assumes "run_puts (file_put_call F base) xs fs = (stored, fs')"
  shows "list_all (\<lambda>a. TrimSpace (art_Ref a) \<noteq> []) stored"
  using assms
proof (induction xs arbitrary: fs stored)
  case Nil
  then show ?case by simp
next
  case (Cons x xs)
  obtain r s1 where one: "file_put_call F base (fst x) (snd x) fs = (r, s1)" by (metis surj_pair)
  obtain others s2 where rest: "run_puts (file_put_call F base) xs s1 = (others, s2)" by (metis surj_pair)
  from Cons.prems one rest have "s2 = fs'" "stored = (if r = None then snd x # others else others)" by auto
  moreover have "list_all (\<lambda>a. TrimSpace (art_Ref a) \<noteq> []) others" using Cons.IH rest calculation(1) by blast
  moreover have "r = None \<Longrightarrow> TrimSpace (art_Ref (snd x)) \<noteq> []" using file_Put_done one unfolding file_put_call_def by blast
  ultimately show ?case by simp
qed

lemma memory_puts_all:
  assumes "list_all (\<lambda>a. TrimSpace (art_Ref a) \<noteq> []) as"
  shows "fst (run_puts memory_Put (map (Pair None) as) s) = as"
  using assms by (induction as arbitrary: s) (simp_all add: memory_Put_def case_prod_beta)

text \<open>Property C40. The file store refines the in-memory store. After any calls of Put on an empty directory, some of them
  cancelled, failing in the operating system or leaving a partial temporary file, every Get answers as the
  in-memory store that received the successful artifacts only: a failed Put changes nothing.
\<close>

theorem file_store_refines_memory:
  assumes "base \<noteq> []" and "\<forall>p. fl_read F p = None" and "list_all (\<lambda>x. file_keeps F (snd x)) calls"
    and "run_puts (file_put_call F base) calls Map.empty = (stored, fs)"
  shows "file_Get F base None ref fs = memory_Get None ref (snd (run_puts memory_Put (map (Pair None) stored) []))"
proof -
  obtain s where mem: "run_puts memory_Put (map (Pair None) stored) [] = (stored, s)"
    using memory_puts_all [OF run_puts_nonblank [OF assms(4)]] by (metis prod.collapse)
  have "memory_Get None ref s = (case filter (\<lambda>a. art_Ref a = ref) stored of [] \<Rightarrow> memory_Get None ref [] | as \<Rightarrow> Inr (cloneArtifact (List.last as)))"
    using memory_artifacts.last_put_wins [OF mem] by (simp add: list_all_iff)
  moreover have "file_Get F base None ref fs = (case filter (\<lambda>a. art_Ref a = ref) stored of [] \<Rightarrow> file_Get F base None ref Map.empty | as \<Rightarrow> Inr (cloneArtifact (List.last as)))"
    using artifact_store.last_put_wins [OF file_store_contract [OF assms(1,2)] assms(4,3)] .
  moreover have "file_Get F base None ref Map.empty = memory_Get None ref []" by (simp add: file_Get_def memory_Get_def)
  ultimately have "file_Get F base None ref fs = memory_Get None ref s" by (simp only:)
  then show ?thesis by (simp add: mem)
qed

section \<open>A store with one artifact\<close>

definition demo_file_libs :: file_libs where
  "demo_file_libs = \<lparr>fl_json = (\<lambda>r. Some (fa_Content r)),
     fl_unjson = (\<lambda>s. Some \<lparr>fa_Ref = ''r'', fa_Content = butlast s, fa_ContentType = [], fa_Metadata = None, fa_CreatedAt = 7\<rparr>),
     fl_mkdir = (\<lambda>p. None), fl_write = (\<lambda>p. None), fl_rename = (\<lambda>p. None), fl_read = (\<lambda>p. None), fl_remove = (\<lambda>p. True)\<rparr>"

definition demo_artifact :: "string \<Rightarrow> Artifact" where
  "demo_artifact content = \<lparr>art_Ref = ''r'', art_Content = content, art_ContentType = [], art_Metadata = None\<rparr>"

theorem file_store_refines_memory_witness:
  "\<exists>fs. run_puts (file_put_call demo_file_libs ''d'') [((None, None, 7), demo_artifact ''x''), ((None, Some Canceled, 8), demo_artifact ''y'')] Map.empty
      = ([demo_artifact ''x''], fs)
    \<and> file_Get demo_file_libs ''d'' None ''r'' fs = memory_Get None ''r'' (snd (run_puts memory_Put (map (Pair None) [demo_artifact ''x'']) []))
    \<and> file_Get demo_file_libs ''d'' None ''r'' fs = Inr (demo_artifact ''x'')"
proof -
  have ref: "TrimSpace ''r'' = ''r''" by (simp add: TrimSpace_ascii is_space_def)
  have "\<exists>fs. run_puts (file_put_call demo_file_libs ''d'') [((None, None, 7), demo_artifact ''x''), ((None, Some Canceled, 8), demo_artifact ''y'')] Map.empty
      = ([demo_artifact ''x''], fs)"
    by (simp add: file_put_call_def file_Put_def demo_file_libs_def demo_artifact_def ref Let_def)
  then obtain fs where run: "run_puts (file_put_call demo_file_libs ''d'') [((None, None, 7), demo_artifact ''x''), ((None, Some Canceled, 8), demo_artifact ''y'')] Map.empty
      = ([demo_artifact ''x''], fs)" by blast
  have keeps: "file_keeps demo_file_libs (demo_artifact c)" for c
    by (auto simp: file_keeps_def demo_file_libs_def file_record_def demo_artifact_def art_cloneMetadata_def)
  have "file_Get demo_file_libs ''d'' None ''r'' fs = memory_Get None ''r'' (snd (run_puts memory_Put (map (Pair None) [demo_artifact ''x'']) []))"
    using file_store_refines_memory [OF _ _ _ run] keeps by (simp add: demo_file_libs_def)
  moreover have "memory_Get None ''r'' (snd (run_puts memory_Put (map (Pair None) [demo_artifact ''x'']) [])) = Inr (demo_artifact ''x'')"
    by (simp add: memory_Put_def memory_Get_def demo_artifact_def ref cloneArtifact_def art_cloneMetadata_def)
  ultimately show ?thesis using run by auto
qed

end
