(* ===== verification/Eval_Runner.thy ===== *)
theory Eval_Runner
  imports GoPrelude
begin

text \<open>
  \<open>evalkit/evalkit.go\<close>: the sequential runner of an evaluation suite. The harness, the graders, the clock
  and the context are functions of a world; a nil grader of the list is \<open>None\<close>. Copies of maps and slices
  are the values themselves, with an empty map copied to nil.
\<close>

section \<open>Data\<close>

record EvalTask =
  et_ID :: string
  et_Input :: string
  et_SuccessCriteria :: string
  et_Metadata :: "metadata option"

record EvalOutcome =
  eo_Status :: string
  eo_OutputRef :: string
  eo_ErrorCode :: string
  eo_Metadata :: "metadata option"

record TraceStep =
  tst_Type :: string
  tst_Name :: string
  tst_Status :: string
  tst_Message :: string
  tst_StartedAt :: time
  tst_EndedAt :: time
  tst_Metadata :: "metadata option"

record EvalUsage =
  eu_InputTokens :: int
  eu_OutputTokens :: int
  eu_ToolCalls :: int
  eu_LLMCalls :: int

record EvalTrace =
  tr_RunID :: string
  tr_Steps :: "TraceStep list"
  tr_Usage :: EvalUsage
  tr_Labels :: "(string, string) gomap option"

record HarnessResult =
  hr_Output :: string
  hr_Outcome :: EvalOutcome
  hr_Trace :: EvalTrace
  hr_Metadata :: "metadata option"

record Assertion =
  ass_Name :: string
  ass_Passed :: bool
  ass_Message :: string

record GradeResult =
  gr_Name :: string
  gr_Score :: rat
  gr_Passed :: bool
  gr_Message :: string
  gr_Assertions :: "Assertion list"
  gr_Metadata :: "metadata option"

record Trial =
  tl_TaskID :: string
  tl_Index :: int
  tl_Output :: string
  tl_Outcome :: EvalOutcome
  tl_Trace :: EvalTrace
  tl_Error :: string
  tl_StartedAt :: time
  tl_FinishedAt :: time
  tl_Duration :: duration
  tl_Metadata :: "metadata option"

record TrialResult =
  tre_Trial :: Trial
  tre_Grades :: "GradeResult list"
  tre_Passed :: bool
  tre_Message :: string

record Summary =
  sm_TotalTrials :: int
  sm_PassedTrials :: int
  sm_FailedTrials :: int
  sm_TaskCount :: int
  sm_GraderCount :: int
  sm_Duration :: duration

record SuiteResult =
  sr_Name :: string
  sr_StartedAt :: time
  sr_FinishedAt :: time
  sr_Summary :: Summary
  sr_Trials :: "TrialResult list"

record 'w Grader =
  gd_Name :: string
  gd_Grade :: "EvalTask \<Rightarrow> Trial \<Rightarrow> 'w \<Rightarrow> (GradeResult option \<times> string option) \<times> 'w"

record 'w Suite =
  su_Name :: string
  su_Tasks :: "EvalTask list"
  su_Graders :: "'w Grader option list"

record 'w Runner =
  rn_Harness :: "(EvalTask \<Rightarrow> 'w \<Rightarrow> (HarnessResult option \<times> string option) \<times> 'w) option"
  rn_TrialsPerTask :: int
  rn_now :: "'w \<Rightarrow> time \<times> 'w"
  rn_ctx :: "'w \<Rightarrow> ctx"

datatype eval_err = EvalCtx ctx_error | EvalErr string

section \<open>Copies\<close>

definition eval_cloneMetadata :: "metadata option \<Rightarrow> metadata option" where
  "eval_cloneMetadata md = (case md of None \<Rightarrow> None | Some m \<Rightarrow> if m = [] then None else Some m)"

definition cloneTask :: "EvalTask \<Rightarrow> EvalTask" where
  "cloneTask task = task\<lparr>et_Metadata := eval_cloneMetadata (et_Metadata task)\<rparr>"

definition cloneOutcome :: "EvalOutcome \<Rightarrow> EvalOutcome" where
  "cloneOutcome x = x\<lparr>eo_Metadata := eval_cloneMetadata (eo_Metadata x)\<rparr>"

definition cloneTraceSteps :: "TraceStep list \<Rightarrow> TraceStep list" where
  "cloneTraceSteps steps = map (\<lambda>s. s\<lparr>tst_Metadata := eval_cloneMetadata (tst_Metadata s)\<rparr>) steps"

definition cloneTrace :: "EvalTrace \<Rightarrow> EvalTrace" where
  "cloneTrace x = x\<lparr>tr_Steps := cloneTraceSteps (tr_Steps x)\<rparr>"

definition cloneGradeResult :: "GradeResult \<Rightarrow> GradeResult" where
  "cloneGradeResult x = x\<lparr>gr_Metadata := eval_cloneMetadata (gr_Metadata x)\<rparr>"

section \<open>The runner\<close>

definition assertionsPassed :: "Assertion list \<Rightarrow> bool" where
  "assertionsPassed xs = list_all ass_Passed xs"

fun validate_tasks :: "nat \<Rightarrow> string list \<Rightarrow> EvalTask list \<Rightarrow> eval_err option" where
  "validate_tasks i seen [] = None"
| "validate_tasks i seen (task # tasks) =
     (let key = TrimSpace (et_ID task)
      in if key = [] then Some (EvalErr (''task '' @ itoa (int i) @ '' id is required''))
         else if key \<in> set seen then Some (EvalErr (''duplicate task id '' @ go_quote key))
         else validate_tasks (Suc i) (key # seen) tasks)"

fun validate_graders :: "nat \<Rightarrow> 'w Grader option list \<Rightarrow> eval_err option" where
  "validate_graders i [] = None"
| "validate_graders i (None # gs) = Some (EvalErr (''grader '' @ itoa (int i) @ '' is nil''))"
| "validate_graders i (Some g # gs) = validate_graders (Suc i) gs"

definition validateSuite :: "'w Suite \<Rightarrow> eval_err option" where
  "validateSuite suite =
     (if su_Tasks suite = [] then Some (EvalErr ''eval suite requires at least one task'')
      else case validate_tasks 0 [] (su_Tasks suite) of
        Some e \<Rightarrow> Some e
      | None \<Rightarrow> validate_graders 0 (su_Graders suite))"

definition failed_grade :: "string \<Rightarrow> string \<Rightarrow> GradeResult" where
  "failed_grade name message = \<lparr>gr_Name = name, gr_Score = 0, gr_Passed = False, gr_Message = message, gr_Assertions = [], gr_Metadata = None\<rparr>"

definition runGrader :: "'w Grader \<Rightarrow> EvalTask \<Rightarrow> Trial \<Rightarrow> 'w \<Rightarrow> GradeResult \<times> 'w" where
  "runGrader g task trial w =
     (let name = (if TrimSpace (gd_Name g) = [] then ''unnamed'' else gd_Name g)
      in case gd_Grade g task trial w of
           ((result, Some e), w) \<Rightarrow> (failed_grade name e, w)
         | ((None, None), w) \<Rightarrow> (failed_grade name ''grader returned nil result'', w)
         | ((Some result, None), w) \<Rightarrow>
             (let grade = cloneGradeResult result;
                  grade = (if TrimSpace (gr_Name grade) = [] then grade\<lparr>gr_Name := name\<rparr> else grade);
                  grade = (if gr_Assertions grade \<noteq> [] then grade\<lparr>gr_Passed := assertionsPassed (gr_Assertions grade)\<rparr> else grade)
              in (grade, w)))"

fun run_graders :: "'w Grader option list \<Rightarrow> EvalTask \<Rightarrow> Trial \<Rightarrow> 'w \<Rightarrow> GradeResult list \<times> 'w" where
  "run_graders [] task trial w = ([], w)"
| "run_graders (None # gs) task trial w = run_graders gs task trial w"
| "run_graders (Some g # gs) task trial w = (case runGrader g task trial w of
      (grade, w) \<Rightarrow> (case run_graders gs task trial w of (grades, w) \<Rightarrow> (grade # grades, w)))"

definition zero_outcome :: EvalOutcome where
  "zero_outcome = \<lparr>eo_Status = [], eo_OutputRef = [], eo_ErrorCode = [], eo_Metadata = None\<rparr>"

definition zero_trace :: EvalTrace where
  "zero_trace = \<lparr>tr_RunID = [], tr_Steps = [], tr_Usage = \<lparr>eu_InputTokens = 0, eu_OutputTokens = 0, eu_ToolCalls = 0, eu_LLMCalls = 0\<rparr>, tr_Labels = None\<rparr>"

definition make_trial :: "EvalTask \<Rightarrow> int \<Rightarrow> time \<Rightarrow> time \<Rightarrow> HarnessResult option \<Rightarrow> Trial" where
  "make_trial task index started finished run =
     (let trial = \<lparr>tl_TaskID = et_ID task, tl_Index = index, tl_Output = [], tl_Outcome = zero_outcome, tl_Trace = zero_trace, tl_Error = [],
            tl_StartedAt = started, tl_FinishedAt = finished, tl_Duration = finished - started, tl_Metadata = None\<rparr>
      in case run of
           None \<Rightarrow> trial
         | Some r \<Rightarrow> trial\<lparr>tl_Output := hr_Output r, tl_Outcome := cloneOutcome (hr_Outcome r), tl_Trace := cloneTrace (hr_Trace r),
             tl_Metadata := eval_cloneMetadata (hr_Metadata r)\<rparr>)"

definition runTrial ::
  "'w Runner \<Rightarrow> (EvalTask \<Rightarrow> 'w \<Rightarrow> (HarnessResult option \<times> string option) \<times> 'w) \<Rightarrow> EvalTask \<Rightarrow> int \<Rightarrow> 'w Grader option list \<Rightarrow> 'w
     \<Rightarrow> (eval_err + TrialResult) \<times> 'w" where
  "runTrial r harness task index graders w = (case rn_ctx r w of
      Some e \<Rightarrow> (Inl (EvalCtx e), w)
    | None \<Rightarrow>
        (case rn_now r w of (started, w) \<Rightarrow>
        (case harness task w of ((run, err), w) \<Rightarrow>
        (case rn_now r w of (finished, w) \<Rightarrow>
          (let trial = make_trial task index started finished run
           in case err of
                Some e \<Rightarrow> (Inr \<lparr>tre_Trial = trial\<lparr>tl_Error := e\<rparr>, tre_Grades = [], tre_Passed = False, tre_Message = e\<rparr>, w)
              | None \<Rightarrow> (case run_graders graders task trial w of
                  (grades, w) \<Rightarrow> (Inr \<lparr>tre_Trial = trial, tre_Grades = grades, tre_Passed = list_all gr_Passed grades, tre_Message = []\<rparr>, w)))))))"

text \<open>The two loops over the tasks and the indices of their trials, as one list of pairs.\<close>

definition trial_plan :: "EvalTask list \<Rightarrow> nat \<Rightarrow> (EvalTask \<times> int) list" where
  "trial_plan tasks n = concat (map (\<lambda>task. map (\<lambda>i. (cloneTask task, int i)) [1..<Suc n]) tasks)"

fun run_trials ::
  "'w Runner \<Rightarrow> (EvalTask \<Rightarrow> 'w \<Rightarrow> (HarnessResult option \<times> string option) \<times> 'w) \<Rightarrow> 'w Grader option list \<Rightarrow> (EvalTask \<times> int) list \<Rightarrow> 'w
     \<Rightarrow> (eval_err + TrialResult list) \<times> 'w" where
  "run_trials r harness graders [] w = (Inr [], w)"
| "run_trials r harness graders ((task, index) # plan) w = (case runTrial r harness task index graders w of
      (Inl e, w) \<Rightarrow> (Inl e, w)
    | (Inr x, w) \<Rightarrow> (case run_trials r harness graders plan w of
        (Inl e, w) \<Rightarrow> (Inl e, w)
      | (Inr xs, w) \<Rightarrow> (Inr (x # xs), w)))"

definition summarize_trials :: "TrialResult list \<Rightarrow> time \<Rightarrow> time \<Rightarrow> nat \<Rightarrow> nat \<Rightarrow> Summary" where
  "summarize_trials trials started finished taskCount graderCount =
     fold (\<lambda>x s. if tre_Passed x then s\<lparr>sm_PassedTrials := sm_PassedTrials s + 1\<rparr> else s\<lparr>sm_FailedTrials := sm_FailedTrials s + 1\<rparr>) trials
       \<lparr>sm_TotalTrials = int (length trials), sm_PassedTrials = 0, sm_FailedTrials = 0, sm_TaskCount = int taskCount,
        sm_GraderCount = int graderCount, sm_Duration = finished - started\<rparr>"

definition Runner_Run :: "'w Runner \<Rightarrow> 'w Suite \<Rightarrow> 'w \<Rightarrow> (eval_err + SuiteResult) \<times> 'w" where
  "Runner_Run r suite w = (case rn_ctx r w of
      Some e \<Rightarrow> (Inl (EvalCtx e), w)
    | None \<Rightarrow> (case rn_Harness r of
        None \<Rightarrow> (Inl (EvalErr ''eval harness is required''), w)
      | Some harness \<Rightarrow>
          (let n = (if rn_TrialsPerTask r \<le> 0 then 1 else rn_TrialsPerTask r)
           in case validateSuite suite of
                Some e \<Rightarrow> (Inl e, w)
              | None \<Rightarrow>
                  (case rn_now r w of (started, w) \<Rightarrow>
                  (case run_trials r harness (su_Graders suite) (trial_plan (su_Tasks suite) (nat n)) w of
                     (Inl e, w) \<Rightarrow> (Inl e, w)
                   | (Inr trials, w) \<Rightarrow> (case rn_now r w of (finished, w) \<Rightarrow>
                       (Inr \<lparr>sr_Name = su_Name suite, sr_StartedAt = started, sr_FinishedAt = finished,
                          sr_Summary = summarize_trials trials started finished (length (su_Tasks suite)) (length (su_Graders suite)),
                          sr_Trials = trials\<rparr>, w)))))))"

section \<open>What a report says\<close>

lemma validate_graders_some: "validate_graders i gs = None \<Longrightarrow> None \<notin> set gs"
  by (induction i gs rule: validate_graders.induct) auto

lemma runGrader_assertions:
  assumes "runGrader g task trial w = (grade, w')"
  shows "gr_Assertions grade \<noteq> [] \<Longrightarrow> gr_Passed grade = list_all ass_Passed (gr_Assertions grade)"
  using assms
  by (auto simp: runGrader_def Let_def failed_grade_def assertionsPassed_def split: prod.splits option.splits if_splits)

lemma run_graders_all:
  assumes "run_graders gs task trial w = (grades, w')" and "None \<notin> set gs"
  shows "length grades = length gs \<and> (\<forall>g \<in> set grades. gr_Assertions g \<noteq> [] \<longrightarrow> gr_Passed g = list_all ass_Passed (gr_Assertions g))"
  using assms
proof (induction gs arbitrary: w grades)
  case Nil
  then show ?case by simp
next
  case (Cons x gs)
  from Cons.prems(2) obtain g where x: "x = Some g" by (cases x) auto
  obtain grade w1 where one: "runGrader g task trial w = (grade, w1)" by (metis surj_pair)
  obtain rest w2 where rest: "run_graders gs task trial w1 = (rest, w2)" by (metis surj_pair)
  from Cons.prems(1) one rest have "grades = grade # rest" "w2 = w'" by (auto simp: x)
  with Cons.IH [of w1 rest] Cons.prems(2) rest runGrader_assertions [OF one] show ?case by auto
qed

text \<open>The verdict on a trial: passed with one passing grade of each grader, or failed by the harness or by a grader.\<close>

definition fair_verdict :: "nat \<Rightarrow> TrialResult \<Rightarrow> bool" where
  "fair_verdict graders x \<longleftrightarrow>
     (\<forall>g \<in> set (tre_Grades x). gr_Assertions g \<noteq> [] \<longrightarrow> gr_Passed g = list_all ass_Passed (gr_Assertions g))
     \<and> (if tre_Passed x then length (tre_Grades x) = graders \<and> list_all gr_Passed (tre_Grades x) \<and> tl_Error (tre_Trial x) = []
        else (tre_Grades x = [] \<and> tre_Message x = tl_Error (tre_Trial x)) \<or> (\<exists>g \<in> set (tre_Grades x). \<not> gr_Passed g))"

lemma make_trial_fields [simp]:
  "tl_TaskID (make_trial task i s f run) = et_ID task" "tl_Index (make_trial task i s f run) = i" "tl_Error (make_trial task i s f run) = []"
  by (cases run; simp add: make_trial_def)+

lemma runTrial_verdict:
  assumes "runTrial r harness task i gs w = (Inr x, w')" and "None \<notin> set gs"
  shows "fair_verdict (length gs) x" and "tl_TaskID (tre_Trial x) = et_ID task" and "tl_Index (tre_Trial x) = i"
proof -
  obtain s w1 where s: "rn_now r w = (s, w1)" by (metis surj_pair)
  obtain run err w2 where h: "harness task w1 = ((run, err), w2)" by (metis surj_pair)
  obtain f w3 where f: "rn_now r w2 = (f, w3)" by (metis surj_pair)
  obtain grades w4 where g: "run_graders gs task (make_trial task i s f run) w3 = (grades, w4)" by (metis surj_pair)
  have c: "rn_ctx r w = None" using assms(1) by (auto simp: runTrial_def split: option.splits)
  have x: "x = (case err of
      Some e \<Rightarrow> \<lparr>tre_Trial = (make_trial task i s f run)\<lparr>tl_Error := e\<rparr>, tre_Grades = [], tre_Passed = False, tre_Message = e\<rparr>
    | None \<Rightarrow> \<lparr>tre_Trial = make_trial task i s f run, tre_Grades = grades, tre_Passed = list_all gr_Passed grades, tre_Message = []\<rparr>)"
    using assms(1) by (cases err) (simp_all add: runTrial_def c s h f g)
  show "fair_verdict (length gs) x" using run_graders_all [OF g assms(2)] by (cases err) (auto simp: x fair_verdict_def list_all_iff)
  show "tl_TaskID (tre_Trial x) = et_ID task" and "tl_Index (tre_Trial x) = i" by (cases err; simp add: x)+
qed

lemma run_trials_all:
  assumes "run_trials r harness gs plan w = (Inr xs, w')" and "None \<notin> set gs"
  shows "map (\<lambda>x. (tl_TaskID (tre_Trial x), tl_Index (tre_Trial x))) xs = map (\<lambda>(task, i). (et_ID task, i)) plan \<and> list_all (fair_verdict (length gs)) xs"
  using assms(1)
proof (induction plan arbitrary: w xs)
  case Nil
  then show ?case by simp
next
  case (Cons p plan)
  obtain task i where p: "p = (task, i)" by (cases p)
  obtain v w1 where one: "runTrial r harness task i gs w = (v, w1)" by (metis surj_pair)
  with Cons.prems p obtain x where v: "v = Inr x" by (cases v) auto
  obtain u w2 where rest: "run_trials r harness gs plan w1 = (u, w2)" by (metis surj_pair)
  with Cons.prems p one v obtain ys where u: "u = Inr ys" "xs = x # ys" "w2 = w'" by (cases u) auto
  with Cons.IH [of w1 ys] rest runTrial_verdict [OF one [unfolded v] assms(2)] show ?case by (simp add: p)
qed

lemma summarize_counts:
  "sm_TotalTrials (summarize_trials xs s f n m) = int (length xs)"
  "sm_PassedTrials (summarize_trials xs s f n m) = int (length (filter tre_Passed xs))"
  "sm_FailedTrials (summarize_trials xs s f n m) = int (length (filter (\<lambda>x. \<not> tre_Passed x) xs))"
proof -
  let ?step = "\<lambda>x s. if tre_Passed x then s\<lparr>sm_PassedTrials := sm_PassedTrials s + 1\<rparr> else s\<lparr>sm_FailedTrials := sm_FailedTrials s + 1\<rparr>"
  have "sm_TotalTrials (fold ?step xs s0) = sm_TotalTrials s0
      \<and> sm_PassedTrials (fold ?step xs s0) = sm_PassedTrials s0 + int (length (filter tre_Passed xs))
      \<and> sm_FailedTrials (fold ?step xs s0) = sm_FailedTrials s0 + int (length (filter (\<lambda>x. \<not> tre_Passed x) xs))" for s0 :: Summary
    by (induction xs arbitrary: s0) auto
  then show "sm_TotalTrials (summarize_trials xs s f n m) = int (length xs)"
    "sm_PassedTrials (summarize_trials xs s f n m) = int (length (filter tre_Passed xs))"
    "sm_FailedTrials (summarize_trials xs s f n m) = int (length (filter (\<lambda>x. \<not> tre_Passed x) xs))"
    by (simp_all add: summarize_trials_def)
qed

text \<open>
  A report is complete and fair. It has one trial for each task and index, in the order of the suite; a trial
  passes exactly when the harness succeeded and every grader passed it, a grade with assertions passes
  exactly when all of them do, and the summary counts the trials.
\<close>

theorem eval_report_faithful:
  assumes "Runner_Run r suite w = (Inr result, w')"
  shows "map (\<lambda>x. (tl_TaskID (tre_Trial x), tl_Index (tre_Trial x))) (sr_Trials result)
      = concat (map (\<lambda>task. map (\<lambda>i. (et_ID task, int i)) [1..<Suc (nat (max 1 (rn_TrialsPerTask r)))]) (su_Tasks suite))
    \<and> list_all (fair_verdict (length (su_Graders suite))) (sr_Trials result)
    \<and> sm_PassedTrials (sr_Summary result) = int (length (filter tre_Passed (sr_Trials result)))
    \<and> sm_PassedTrials (sr_Summary result) + sm_FailedTrials (sr_Summary result) = sm_TotalTrials (sr_Summary result)"
proof -
  let ?n = "if rn_TrialsPerTask r \<le> 0 then 1 else rn_TrialsPerTask r"
  from assms obtain harness where c: "rn_ctx r w = None" "rn_Harness r = Some harness" "validateSuite suite = None"
    by (auto simp: Runner_Run_def Let_def split: option.splits)
  obtain s w1 where s: "rn_now r w = (s, w1)" by (metis surj_pair)
  obtain v w2 where v: "run_trials r harness (su_Graders suite) (trial_plan (su_Tasks suite) (nat ?n)) w1 = (v, w2)" by (metis surj_pair)
  obtain f w3 where f: "rn_now r w2 = (f, w3)" by (metis surj_pair)
  from assms c s v f obtain xs where xs: "v = Inr xs" "sr_Trials result = xs" "sr_Summary result = summarize_trials xs s f (length (su_Tasks suite)) (length (su_Graders suite))"
    by (cases v) (auto simp: Runner_Run_def Let_def)
  have "None \<notin> set (su_Graders suite)" using c(3) validate_graders_some by (auto simp: validateSuite_def split: if_splits option.splits)
  note all = run_trials_all [OF v [unfolded xs(1)] this]
  have "nat ?n = nat (max 1 (rn_TrialsPerTask r))" by simp
  then have "map (\<lambda>(task, i). (et_ID task, i)) (trial_plan (su_Tasks suite) (nat ?n))
      = concat (map (\<lambda>task. map (\<lambda>i. (et_ID task, int i)) [1..<Suc (nat (max 1 (rn_TrialsPerTask r)))]) (su_Tasks suite))"
    by (simp add: trial_plan_def map_concat comp_def cloneTask_def)
  moreover have "int (length (filter tre_Passed xs)) + int (length (filter (\<lambda>x. \<not> tre_Passed x) xs)) = int (length xs)"
    using sum_length_filter_compl [of tre_Passed xs] by linarith
  ultimately show ?thesis using all xs(2,3) by (simp add: summarize_counts)
qed

definition demo_eval_runner :: "unit Runner" where
  "demo_eval_runner = \<lparr>rn_Harness = Some (\<lambda>task w. ((None, if et_ID task = ''a'' then None else Some ''failed''), w)), rn_TrialsPerTask = 0,
     rn_now = (\<lambda>w. (7, w)), rn_ctx = (\<lambda>w. None)\<rparr>"

definition demo_eval_task :: "string \<Rightarrow> EvalTask" where
  "demo_eval_task i = \<lparr>et_ID = i, et_Input = [], et_SuccessCriteria = [], et_Metadata = None\<rparr>"

definition demo_suite :: "unit Suite" where
  "demo_suite = \<lparr>su_Name = ''s'', su_Tasks = [demo_eval_task ''a'', demo_eval_task ''b''], su_Graders = []\<rparr>"

theorem eval_report_faithful_witness:
  "\<exists>result. Runner_Run demo_eval_runner demo_suite () = (Inr result, ())
    \<and> map (\<lambda>x. (tl_TaskID (tre_Trial x), tl_Index (tre_Trial x))) (sr_Trials result) = [(''a'', 1), (''b'', 1)]
    \<and> sm_PassedTrials (sr_Summary result) + sm_FailedTrials (sr_Summary result) = sm_TotalTrials (sr_Summary result)"
proof -
  have "TrimSpace ''a'' = ''a''" "TrimSpace ''b'' = ''b''" by (simp_all add: TrimSpace_ascii is_space_def)
  then have "validateSuite demo_suite = None" by (simp add: validateSuite_def demo_suite_def demo_eval_task_def)
  then have "\<exists>result. Runner_Run demo_eval_runner demo_suite () = (Inr result, ())"
    by (simp add: Runner_Run_def demo_eval_runner_def demo_suite_def demo_eval_task_def trial_plan_def cloneTask_def eval_cloneMetadata_def runTrial_def)
  then obtain result where run: "Runner_Run demo_eval_runner demo_suite () = (Inr result, ())" by blast
  from eval_report_faithful [OF run] have "map (\<lambda>x. (tl_TaskID (tre_Trial x), tl_Index (tre_Trial x))) (sr_Trials result) = [(''a'', 1), (''b'', 1)]
    \<and> sm_PassedTrials (sr_Summary result) + sm_FailedTrials (sr_Summary result) = sm_TotalTrials (sr_Summary result)"
    by (simp add: demo_eval_runner_def demo_suite_def demo_eval_task_def)
  from conjI [OF run this] show ?thesis by (rule exI)
qed

end
