(* ===== verification/Spec2Isabelle.thy ===== *)
theory Spec2Isabelle
  imports Workflow_Laws LLM_Client_Laws Agent_Laws Approval_Adapter Run_Store Memory_Recall_Laws Memory_Extraction_Laws Context_Laws Host_Laws OCR_Laws Memory_Tools_Laws Memory_Projection_Laws Skill_Laws Artifact_Store Eval_Runner
begin

text \<open>
  Verification of \<open>goagents\<close>, a toolkit of Go packages for building agents: \<open>goagent\<close> runs an agent, \<open>llmkit\<close>
  routes its model calls, \<open>runkit\<close> stores runs and approval checkpoints, \<open>workflowkit\<close> runs durable workflows,
  \<open>memorykit\<close> keeps long-term memory, \<open>contextkit\<close> fits a conversation into a budget, \<open>skillkit\<close> activates skill
  packages, \<open>artifactkit\<close> stores the artifacts of runs, \<open>evalkit\<close> runs evaluation suites, \<open>hostkit\<close> runs and stops a service, and \<open>ocrs\<close> splits
  and dispatches recognition jobs.

  \<^bold>\<open>Conventions.\<close> \<^theory_text>\<open>GoPrelude\<close> holds what the kits use of Go: times are integers of nanoseconds, maps are
  association lists whose order stands for the unspecified iteration order, \<open>sort.Slice\<close> is \<open>sort_by\<close> with
  the closure of the source, strings are bytes with UTF-8 decoding, and \<open>wrap64\<close> is written where an
  operation can overflow. The locale \<open>strict_order\<close> is the contract of a comparison closure; every closure
  of the sources that sorts is an interpretation of it. \<^theory_text>\<open>Go_Paths\<close> holds Unix paths. State is passed
  explicitly as records; errors are values of a datatype with the chain that \<open>errors.Is\<close> follows; what a
  component only calls (a model, a tool, a store behind an interface, a clock, a context, the random source)
  is a function of a world that the component threads through its calls. Mutexes are not modelled where an
  operation holds one for its whole body: such an operation is one step.

  \<^bold>\<open>Workflows.\<close> \<^theory_text>\<open>Workflow_Run\<close> (\<open>workflowkit/run.go\<close>, \<open>errors.go\<close>, \<open>retry.go\<close>), \<^theory_text>\<open>Workflow_Store\<close>
  (\<open>store.go\<close>, with the locale \<open>workflow_store\<close> that the in-memory store interprets), \<^theory_text>\<open>Workflow_Executor\<close>
  (\<open>executor.go\<close>) and \<^theory_text>\<open>Workflow_Laws\<close>: an executor never overwrites a run it has lost, leases exclude other
  workers, a cancelled run stays cancelled, retries are bounded, completed steps are skipped on resumption,
  and a run returns.

  \<^bold>\<open>Model calls.\<close> \<^theory_text>\<open>LLM_Routing\<close> (\<open>llmkit/profile.go\<close>, \<open>capability.go\<close>, \<open>policy.go\<close>), \<^theory_text>\<open>LLM_Health\<close> (\<open>health.go\<close>),
  \<^theory_text>\<open>LLM_Audit\<close> (\<open>audit.go\<close>), \<^theory_text>\<open>LLM_Stats\<close> (\<open>stats.go\<close>), \<^theory_text>\<open>LLM_Client\<close> and \<^theory_text>\<open>LLM_Client_Laws\<close>
  (\<open>llmkit/adapters/goagent\<close>): account limits hold, every health slot that a request acquires is closed, a
  request that fails closed reaches one provider, no provider is called after a delta was delivered, and the
  statistics are those of the log.

  \<^bold>\<open>Agents.\<close> \<^theory_text>\<open>Agent_Tools\<close> (\<open>goagent/ports\<close>, \<open>policy\<close>, \<open>prompt\<close>, \<open>tools\<close>), \<^theory_text>\<open>Agent_State\<close> and \<^theory_text>\<open>Agent_Core\<close>
  (\<open>goagent/agentcore\<close>: state, checkpoints, every stage, the pipeline, the loop) and \<^theory_text>\<open>Agent_Laws\<close>: no tool
  runs without permission, every tool call of the model is answered, the results of a batch do not depend
  on the schedule, and a checkpoint restores the run it was taken from.

  \<^bold>\<open>Runs and approvals.\<close> \<^theory_text>\<open>Run_Store\<close> (\<open>runkit/store.go\<close>, \<open>goagent_sink.go\<close>), \<^theory_text>\<open>Checkpoint_Store\<close>
  (\<open>checkpoint.go\<close>, a refinement of the life cycle of a checkpoint) and \<^theory_text>\<open>Approval_Adapter\<close>
  (\<open>runkit/goagentapproval\<close>, over the locale \<open>checkpoint_store\<close> that the in-memory store interprets).

  \<^bold>\<open>Memory.\<close> \<^theory_text>\<open>Memory_Types\<close>, \<^theory_text>\<open>Memory_Terms\<close>, \<^theory_text>\<open>Memory_Store\<close>, \<^theory_text>\<open>Memory_Laws\<close> and \<^theory_text>\<open>Memory_Scopes\<close>
  (\<open>memorykit\<close> and its in-memory store: the invariant of its records and revisions, optimistic versions,
  erasure, no flow between scopes), \<^theory_text>\<open>Memory_Recall\<close> and \<^theory_text>\<open>Memory_Recall_Laws\<close> (\<open>recall.go\<close>),
  \<^theory_text>\<open>Memory_Extraction\<close> and \<^theory_text>\<open>Memory_Extraction_Laws\<close> (\<open>extraction.go\<close>, \<open>embedding.go\<close>, \<open>eval.go\<close>, over the locale
  \<open>extraction_frame\<close>), \<^theory_text>\<open>Memory_Tools\<close>, \<^theory_text>\<open>Memory_Projection\<close> and their laws (\<open>memorykit/agentadapter\<close>): a write
  of the model never replaces memory that a person wrote or reviewed, except in the race that is proved,
  and a projection says of memory only what its own recall gave.

  \<^bold>\<open>Context.\<close> \<^theory_text>\<open>Context_Window\<close> and \<^theory_text>\<open>Context_Laws\<close> (\<open>contextkit\<close>): the newest whole turns that fit are kept.

  \<^bold>\<open>Skills.\<close> \<^theory_text>\<open>Skill_Catalog\<close> and \<^theory_text>\<open>Skill_Laws\<close> (\<open>skillkit\<close>): discovery is deterministic, an activation is
  gated and pinned to a digest, and the digest does not separate files whose content has zero bytes.

  \<^bold>\<open>Artifacts and evaluation.\<close> \<^theory_text>\<open>Artifact_Store\<close> (\<open>artifactkit\<close>): the locale \<open>artifact_store\<close> is the contract of a
  store, the in-memory store interprets it, and the file store refines the in-memory store under every failure
  of a Put. \<^theory_text>\<open>Eval_Runner\<close> (\<open>evalkit\<close>): a report has every trial once and counts fair verdicts.

  \<^bold>\<open>Hosts and jobs.\<close> \<^theory_text>\<open>Host_Lifecycle\<close> and \<^theory_text>\<open>Host_Laws\<close> (\<open>hostkit\<close>, a state machine with the locale
  \<open>host_invariant\<close> for its invariants), \<^theory_text>\<open>OCR_Pipeline\<close> and \<^theory_text>\<open>OCR_Laws\<close> (\<open>ocrs\<close>, with the dispatcher and the
  workers over chunks as state machines).

  \<^bold>\<open>Bounds.\<close> No definition has fuel. The retry loops are recursion on the remaining budget, the ReAct loop on
  the remaining iterations, the fallback of the client on the remaining candidates; backoff and cooldown
  loops end because the delay or the counter reaches its bound, and their termination is proved. The state
  machines take one step at a time, and their theorems hold for every reachable state.

  \<^bold>\<open>Parameters.\<close> JSON, YAML, SHA-1, SHA-256, UUID and cipher functions, URL parsing, the Unicode tables, the PDF
  library and the rounding of floating point operations are arguments of the definitions that use them.
  Where a theorem needs a law of one of them, the law is a hypothesis and the witness instantiates it. Base64 and the paths of files are written out.

  \<^bold>\<open>Not modelled.\<close> The stores over SQLite and PostgreSQL (\<open>runkit\<close>, \<open>workflowkit/sqlitestore\<close>, \<open>memorykit/pgstore\<close>)
  consist of SQL statements, whose meaning is that of the database. \<open>mcpkit\<close>, the provider extensions of
  \<open>goagent\<close>, the construction of providers and the client of the OCR service are HTTP and third-party types. The
  encryption of \<open>runkit\<close> is AES-GCM of the standard library. The configuration of \<open>llmkit\<close> is YAML and
  environment lookup. The streaming of \<open>agentcore\<close> relays events through channels and leaves the result of a
  run as it is. The window memory of \<open>goagent\<close>, the agent step of \<open>workflowkit\<close> and the agent adapter of
  \<open>skillkit\<close> copy values between the types of the kits. The example programs and the conformance test suites are
  left out. Nil pointers of receivers and typed nil values are modelled only where a branch of the source
  tests for them and it can be reached after construction.
\<close>

end
